(* ===== verification/Go_Prelude.thy ===== *)
theory Go_Prelude
  imports Main "HOL-Library.AList" "HOL-Library.Char_ord" "HOL-Library.List_Lexorder"
    "HOL-Library.Multiset" "HOL-Library.Code_Target_Nat"
begin

text \<open>
  The vocabulary of the development: the parts of the Go language and of its standard library that
  the DNS worker uses, with the generic lemmas the component theories rest on.

  \<^item> Strings are byte strings (\<open>string\<close> is a list of 8-bit characters), ordered bytewise as Go orders
    them. \<open>TrimSpace\<close>, \<open>ToLower\<close> and \<open>ToUpper\<close> act on ASCII; on bytes above 127 they are the identity,
    which is what Go does on text whose non-ASCII characters are neither white space nor letters
    with case (the Chinese operator names of the worker, for instance).
  \<^item> A Go map is an association list with distinct keys, its order standing for the iteration order
    the runtime happens to choose; \<^const>\<open>AList.update\<close> and \<^const>\<open>AList.delete\<close> write it.
  \<^item> A time is an integer: nanoseconds since the zero time of package \<open>time\<close> (year 1, UTC), so that
    \<open>IsZero\<close> is \<open>t = 0\<close> and \<open>Truncate\<close> rounds down to a multiple of the window.
\<close>

named_theorems go_str \<open>rewrite rules for the string functions\<close>
named_theorems go_norm \<open>a normaliser is the identity on what it returns\<close>
named_theorems go_sort \<open>contents, length and order of the sorting functions\<close>

type_synonym gotime = int
type_synonym duration = int
type_synonym ('k, 'v) gomap = "('k \<times> 'v) list"

section \<open>Strings\<close>

definition is_space :: "char \<Rightarrow> bool" where
  "is_space c \<longleftrightarrow> c = CHR '' '' \<or> c = CHR 0x09 \<or> c = CHR 0x0A \<or> c = CHR 0x0B \<or> c = CHR 0x0C \<or> c = CHR 0x0D"

definition TrimLeftSpace :: "string \<Rightarrow> string" where
  "TrimLeftSpace s = dropWhile is_space s"

definition TrimRightSpace :: "string \<Rightarrow> string" where
  "TrimRightSpace s = rev (dropWhile is_space (rev s))"

definition TrimSpace :: "string \<Rightarrow> string" where
  "TrimSpace s = TrimRightSpace (TrimLeftSpace s)"

definition lower_char :: "char \<Rightarrow> char" where
  "lower_char c = (if CHR ''A'' \<le> c \<and> c \<le> CHR ''Z'' then char_of (of_char c + 32 :: nat) else c)"

definition upper_char :: "char \<Rightarrow> char" where
  "upper_char c = (if CHR ''a'' \<le> c \<and> c \<le> CHR ''z'' then char_of (of_char c - 32 :: nat) else c)"

definition ToLower :: "string \<Rightarrow> string" where
  "ToLower s = map lower_char s"

definition ToUpper :: "string \<Rightarrow> string" where
  "ToUpper s = map upper_char s"

definition EqualFold :: "string \<Rightarrow> string \<Rightarrow> bool" where
  "EqualFold s t \<longleftrightarrow> ToLower s = ToLower t"

definition HasPrefix :: "string \<Rightarrow> string \<Rightarrow> bool" where
  "HasPrefix s p \<longleftrightarrow> take (length p) s = p"

definition HasSuffix :: "string \<Rightarrow> string \<Rightarrow> bool" where
  "HasSuffix s p \<longleftrightarrow> HasPrefix (rev s) (rev p)"

definition TrimPrefix :: "string \<Rightarrow> string \<Rightarrow> string" where
  "TrimPrefix s p = (if HasPrefix s p then drop (length p) s else s)"

definition TrimSuffix :: "string \<Rightarrow> string \<Rightarrow> string" where
  "TrimSuffix s p = (if HasSuffix s p then take (length s - length p) s else s)"

fun Contains :: "string \<Rightarrow> string \<Rightarrow> bool" where
  "Contains [] p \<longleftrightarrow> p = []"
| "Contains (c # s) p \<longleftrightarrow> HasPrefix (c # s) p \<or> Contains s p"

text \<open>\<open>strings.Cut\<close> with a one-byte separator: the text before it, after it, and whether it occurs.\<close>

definition Cut :: "string \<Rightarrow> char \<Rightarrow> string \<times> string \<times> bool" where
  "Cut s sep = (case dropWhile (\<lambda>c. c \<noteq> sep) s of
      [] \<Rightarrow> (s, [], False)
    | _ # rest \<Rightarrow> (takeWhile (\<lambda>c. c \<noteq> sep) s, rest, True))"

text \<open>\<open>strings.Split\<close> with a one-byte separator.\<close>

fun Split :: "char \<Rightarrow> string \<Rightarrow> string list" where
  "Split sep [] = [[]]"
| "Split sep (c # s) =
    (if c = sep then [] # Split sep s
     else (case Split sep s of [] \<Rightarrow> [[c]] | w # ws \<Rightarrow> (c # w) # ws))"

text \<open>\<open>strings.ReplaceAll\<close> of one byte by another, and deleting the bytes of a set.\<close>

definition ReplaceChar :: "char \<Rightarrow> char \<Rightarrow> string \<Rightarrow> string" where
  "ReplaceChar a b s = map (\<lambda>c. if c = a then b else c) s"

definition DeleteChars :: "char list \<Rightarrow> string \<Rightarrow> string" where
  "DeleteChars cs s = filter (\<lambda>c. c \<notin> set cs) s"

fun Join :: "string list \<Rightarrow> string \<Rightarrow> string" where
  "Join [] sep = []"
| "Join [w] sep = w"
| "Join (w # ws) sep = w @ sep @ Join ws sep"

section \<open>Numbers as text\<close>

definition digit_char :: "nat \<Rightarrow> char" where
  "digit_char d = char_of (48 + d)"

definition digit_val :: "char \<Rightarrow> nat option" where
  "digit_val c = (let n = of_char c in if 48 \<le> n \<and> n \<le> 57 then Some (n - 48) else None)"

text \<open>\<open>%d\<close> and \<open>strconv.FormatUint(n, 10)\<close>.\<close>

fun FormatUint :: "nat \<Rightarrow> string" where
  "FormatUint n = (if n < 10 then [digit_char n] else FormatUint (n div 10) @ [digit_char (n mod 10)])"

declare FormatUint.simps [simp del]

text \<open>\<open>%d\<close> of a signed number, and \<open>%02d\<close> of a number that is not negative.\<close>

definition FormatInt :: "int \<Rightarrow> string" where
  "FormatInt i = (if i < 0 then CHR ''-'' # FormatUint (nat (- i)) else FormatUint (nat i))"

definition Format02d :: "nat \<Rightarrow> string" where
  "Format02d n = (if n < 10 then CHR ''0'' # FormatUint n else FormatUint n)"

fun parse_digits :: "nat \<Rightarrow> string \<Rightarrow> nat option" where
  "parse_digits acc [] = Some acc"
| "parse_digits acc (c # s) = (case digit_val c of None \<Rightarrow> None | Some d \<Rightarrow> parse_digits (10 * acc + d) s)"

text \<open>\<open>strconv.ParseUint(s, 10, bits)\<close> and \<open>strconv.Atoi\<close>; \<open>None\<close> is a syntax or range error.\<close>

definition ParseUint :: "nat \<Rightarrow> string \<Rightarrow> nat option" where
  "ParseUint bits s =
    (if s = [] then None
     else (case parse_digits 0 s of
         None \<Rightarrow> None
       | Some n \<Rightarrow> if n < 2 ^ bits then Some n else None))"

definition Atoi :: "string \<Rightarrow> int option" where
  "Atoi s =
    (let neg = (take 1 s = ''-'');
         body = (if take 1 s = ''-'' \<or> take 1 s = ''+'' then drop 1 s else s)
     in if body = [] then None
        else (case parse_digits 0 body of
            None \<Rightarrow> None
          | Some n \<Rightarrow>
              if neg then (if n \<le> 2 ^ 63 then Some (- int n) else None)
              else (if n < 2 ^ 63 then Some (int n) else None)))"

section \<open>Times\<close>

text \<open>\<open>time.Time.Truncate\<close> by a positive window; \<open>time.Time.Sub\<close> saturates at the range of a
  64-bit duration.\<close>

definition Truncate :: "gotime \<Rightarrow> duration \<Rightarrow> gotime" where
  "Truncate t w = (if w \<le> 0 then t else t - t mod w)"

definition TimeSub :: "gotime \<Rightarrow> gotime \<Rightarrow> duration" where
  "TimeSub t u = max (- (2 ^ 63)) (min (2 ^ 63 - 1) (t - u))"

text \<open>An \<open>int64\<close> product wraps around.\<close>

definition wrap64 :: "int \<Rightarrow> int" where
  "wrap64 x = (x + 2 ^ 63) mod 2 ^ 64 - 2 ^ 63"

lemma wrap64_small: "- (2 ^ 63) \<le> x \<Longrightarrow> x < 2 ^ 63 \<Longrightarrow> wrap64 x = x"
  by (simp add: wrap64_def)

definition Second :: duration where "Second = 1000000000"

definition Minute :: duration where "Minute = 60 * Second"

section \<open>The seen-set loop\<close>

text \<open>
  Many normalisers of the worker run the same loop: convert each value, skip the ones that do not
  convert, skip repetitions, keep the first occurrences in order.
\<close>

fun collect_new :: "('a \<Rightarrow> 'b option) \<Rightarrow> 'b list \<Rightarrow> 'a list \<Rightarrow> 'b list" where
  "collect_new f seen [] = []"
| "collect_new f seen (x # xs) =
    (case f x of
       None \<Rightarrow> collect_new f seen xs
     | Some y \<Rightarrow> if y \<in> set seen then collect_new f seen xs else y # collect_new f (y # seen) xs)"

definition unique_values :: "('a \<Rightarrow> 'b option) \<Rightarrow> 'a list \<Rightarrow> 'b list" where
  "unique_values f xs = collect_new f [] xs"

section \<open>Lemmas on strings\<close>

lemma dropWhile_hd_not: "dropWhile P xs = y # ys \<Longrightarrow> \<not> P y"
  by (induction xs) (auto split: if_splits)

lemma TrimLeftSpace_idem [go_str]: "TrimLeftSpace (TrimLeftSpace s) = TrimLeftSpace s"
  by (simp add: TrimLeftSpace_def)

lemma TrimRightSpace_idem [go_str]: "TrimRightSpace (TrimRightSpace s) = TrimRightSpace s"
  by (simp add: TrimRightSpace_def)

lemma dropWhile_TrimRight:
  "dropWhile is_space (TrimRightSpace s) = TrimRightSpace (dropWhile is_space s)"
proof (induction s)
  case Nil
  then show ?case by (simp add: TrimRightSpace_def)
next
  case (Cons c s)
  have app: "TrimRightSpace (c # s) =
      (if TrimRightSpace s = [] then (if is_space c then [] else [c]) else c # TrimRightSpace s)"
    by (auto simp: TrimRightSpace_def dropWhile_append)
  show ?case
  proof (cases "is_space c")
    case True
    with Cons show ?thesis by (auto simp: app)
  next
    case False
    then show ?thesis by (auto simp: app)
  qed
qed

lemma TrimSpace_idem [go_str, simp]: "TrimSpace (TrimSpace s) = TrimSpace s"
  by (simp add: TrimSpace_def TrimLeftSpace_def dropWhile_TrimRight TrimRightSpace_idem)

lemma TrimSpace_Nil [go_str, simp]: "TrimSpace [] = []"
  by (simp add: TrimSpace_def TrimLeftSpace_def TrimRightSpace_def)

lemma TrimSpace_id:
  assumes "s = [] \<or> (\<not> is_space (hd s) \<and> \<not> is_space (last s))"
  shows "TrimSpace s = s"
proof (cases "s = []")
  case False
  with assms have "dropWhile is_space s = s" by (cases s) auto
  moreover have "dropWhile is_space (rev s) = rev s"
    using assms False by (cases "rev s") (auto simp: last_rev hd_rev dest: rev_eq_Cons_iff[THEN iffD1])
  ultimately show ?thesis by (simp add: TrimSpace_def TrimLeftSpace_def TrimRightSpace_def)
qed simp

lemma TrimSpace_no_space: "\<forall>c \<in> set s. \<not> is_space c \<Longrightarrow> TrimSpace s = s"
  by (rule TrimSpace_id) (cases s, auto)

lemma set_TrimSpace: "set (TrimSpace s) \<subseteq> set s"
  unfolding TrimSpace_def TrimLeftSpace_def TrimRightSpace_def
  by (auto dest!: set_dropWhileD)

lemma length_TrimSpace: "length (TrimSpace s) \<le> length s"
proof -
  have "length (dropWhile is_space (rev (dropWhile is_space s))) \<le> length (dropWhile is_space s)"
    using length_dropWhile_le[of is_space "rev (dropWhile is_space s)"] by simp
  also have "\<dots> \<le> length s" by (rule length_dropWhile_le)
  finally show ?thesis by (simp add: TrimSpace_def TrimLeftSpace_def TrimRightSpace_def)
qed

lemma of_char_lower_char:
  "of_char (lower_char c) = (let n = of_char c :: nat in if 65 \<le> n \<and> n \<le> 90 then n + 32 else n)"
  by (simp add: lower_char_def less_eq_char_def Let_def)

lemma of_char_upper_char:
  "of_char (upper_char c) = (let n = of_char c :: nat in if 97 \<le> n \<and> n \<le> 122 then n - 32 else n)"
  by (auto simp: upper_char_def less_eq_char_def Let_def)

lemma char_eq_of_char: "c = d \<longleftrightarrow> (of_char c :: nat) = of_char d"
  by simp

lemma lower_char_idem [simp]: "lower_char (lower_char c) = lower_char c"
  by (simp only: char_eq_of_char of_char_lower_char Let_def) auto

lemma upper_char_idem [simp]: "upper_char (upper_char c) = upper_char c"
  by (simp only: char_eq_of_char of_char_upper_char Let_def) auto

lemma is_space_of_char: "is_space c \<longleftrightarrow> (of_char c :: nat) \<in> {9, 10, 11, 12, 13, 32}"
  unfolding is_space_def char_eq_of_char by auto

lemma is_space_lower_char [simp]: "is_space (lower_char c) = is_space c"
  unfolding is_space_of_char of_char_lower_char by (auto simp: Let_def)

lemma is_space_upper_char [simp]: "is_space (upper_char c) = is_space c"
  unfolding is_space_of_char of_char_upper_char by (auto simp: Let_def)

lemma ToLower_idem [go_str, simp]: "ToLower (ToLower s) = ToLower s"
  by (simp add: ToLower_def)

lemma ToUpper_idem [go_str, simp]: "ToUpper (ToUpper s) = ToUpper s"
  by (simp add: ToUpper_def)

lemma TrimSpace_map:
  assumes "\<And>c. is_space (f c) = is_space c"
  shows "TrimSpace (map f s) = map f (TrimSpace s)"
  using assms
  by (simp add: TrimSpace_def TrimLeftSpace_def TrimRightSpace_def dropWhile_map rev_map o_def)

lemma TrimSpace_ToLower [go_str]: "TrimSpace (ToLower s) = ToLower (TrimSpace s)"
  by (simp add: ToLower_def TrimSpace_map)

lemma TrimSpace_ToUpper [go_str]: "TrimSpace (ToUpper s) = ToUpper (TrimSpace s)"
  by (simp add: ToUpper_def TrimSpace_map)

lemma lower_trim_idem [go_norm]: "ToLower (TrimSpace (ToLower (TrimSpace s))) = ToLower (TrimSpace s)"
  by (simp add: go_str)

lemma upper_trim_idem [go_norm]: "ToUpper (TrimSpace (ToUpper (TrimSpace s))) = ToUpper (TrimSpace s)"
  by (simp add: go_str)

lemma ToLower_Nil_iff [simp]: "ToLower s = [] \<longleftrightarrow> s = []"
  by (simp add: ToLower_def)

lemma ToUpper_Nil_iff [simp]: "ToUpper s = [] \<longleftrightarrow> s = []"
  by (simp add: ToUpper_def)

lemma length_ToLower [simp]: "length (ToLower s) = length s"
  by (simp add: ToLower_def)

lemma length_ToUpper [simp]: "length (ToUpper s) = length s"
  by (simp add: ToUpper_def)

section \<open>Lemmas on \<open>Cut\<close> and \<open>Split\<close>\<close>

lemma Cut_append:
  assumes "sep \<notin> set s"
  shows "Cut (s @ sep # t) sep = (s, t, True)"
proof -
  from assms have all: "\<And>c. c \<in> set s \<Longrightarrow> c \<noteq> sep" by auto
  show ?thesis
    by (simp add: Cut_def takeWhile_append2[OF all] dropWhile_append2[OF all])
qed

lemma Cut_absent:
  assumes "sep \<notin> set s"
  shows "Cut s sep = (s, [], False)"
proof -
  from assms have "dropWhile (\<lambda>c. c \<noteq> sep) s = []" by (auto simp: dropWhile_eq_Nil_conv)
  then show ?thesis unfolding Cut_def by (simp only: list.case)
qed

lemma Cut_found: "Cut s sep = (b, a, True) \<Longrightarrow> s = b @ sep # a \<and> sep \<notin> set b"
proof -
  assume "Cut s sep = (b, a, True)"
  then obtain d where d: "dropWhile (\<lambda>c. c \<noteq> sep) s = d # a" and b: "b = takeWhile (\<lambda>c. c \<noteq> sep) s"
    by (auto simp: Cut_def split: list.splits)
  from d have "d = sep" using dropWhile_hd_not by fastforce
  with d b have "s = b @ sep # a" by (metis takeWhile_dropWhile_id)
  moreover from b have "sep \<notin> set b" by (auto dest: set_takeWhileD)
  ultimately show ?thesis by simp
qed

section \<open>Lemmas on numbers as text\<close>

lemma digit_val_digit_char: "d < 10 \<Longrightarrow> digit_val (digit_char d) = Some d"
  by (simp add: digit_val_def digit_char_def Let_def)

lemma FormatUint_not_Nil [simp]: "FormatUint n \<noteq> []"
  by (subst FormatUint.simps) simp

lemma parse_digits_append:
  "parse_digits acc (s @ t) = (case parse_digits acc s of None \<Rightarrow> None | Some n \<Rightarrow> parse_digits n t)"
  by (induction s arbitrary: acc) (auto split: option.splits)

lemma parse_digits_FormatUint: "parse_digits 0 (FormatUint n) = Some n"
proof (induction n rule: FormatUint.induct)
  case (1 n)
  show ?case
  proof (cases "n < 10")
    case True
    then show ?thesis by (subst FormatUint.simps) (simp add: digit_val_digit_char)
  next
    case False
    with 1 show ?thesis
      by (subst FormatUint.simps) (simp add: parse_digits_append digit_val_digit_char)
  qed
qed

lemma ParseUint_FormatUint: "n < 2 ^ bits \<Longrightarrow> ParseUint bits (FormatUint n) = Some n"
  by (simp add: ParseUint_def parse_digits_FormatUint)

lemma of_char_digit_char: "d < 10 \<Longrightarrow> of_char (digit_char d) = 48 + d"
  by (simp add: digit_char_def)

lemma set_FormatUint: "c \<in> set (FormatUint n) \<Longrightarrow> (of_char c :: nat) \<in> {48..57}"
proof (induction n arbitrary: c rule: FormatUint.induct)
  case (1 n)
  show ?case
  proof (cases "n < 10")
    case True
    with "1.prems" show ?thesis
      by (subst (asm) FormatUint.simps) (auto simp: of_char_digit_char)
  next
    case False
    have "n mod 10 < 10" by simp
    with False "1.prems" "1.IH" show ?thesis
      by (subst (asm) FormatUint.simps) (auto simp: of_char_digit_char)
  qed
qed

lemma FormatUint_no_char: "of_char c \<notin> {48..57::nat} \<Longrightarrow> c \<notin> set (FormatUint n)"
  using set_FormatUint by blast

lemma FormatUint_no_space: "c \<in> set (FormatUint n) \<Longrightarrow> \<not> is_space c"
  by (drule set_FormatUint) (auto simp: is_space_of_char)

lemma Format02d_no_space: "c \<in> set (Format02d n) \<Longrightarrow> \<not> is_space c"
  by (auto simp: Format02d_def is_space_def FormatUint_no_space split: if_splits dest: FormatUint_no_space)

lemma FormatUint_inj: "FormatUint m = FormatUint n \<Longrightarrow> m = n"
  by (metis option.inject parse_digits_FormatUint)

section \<open>Lemmas on the seen-set loop\<close>

lemma set_collect_new: "set (collect_new f seen xs) = {y. \<exists>x \<in> set xs. f x = Some y} - set seen"
  by (induction f seen xs rule: collect_new.induct) (auto split: option.splits)

lemma distinct_collect_new: "distinct (collect_new f seen xs)"
  by (induction f seen xs rule: collect_new.induct)
    (auto simp: set_collect_new split: option.splits)

lemma set_unique_values: "set (unique_values f xs) = {y. \<exists>x \<in> set xs. f x = Some y}"
  by (simp add: unique_values_def set_collect_new)

lemma distinct_unique_values: "distinct (unique_values f xs)"
  by (simp add: unique_values_def distinct_collect_new)

lemma collect_new_fixed:
  assumes "\<And>y. y \<in> set ys \<Longrightarrow> f y = Some y" and "distinct ys" and "set ys \<inter> set seen = {}"
  shows "collect_new f seen ys = ys"
  using assms by (induction ys arbitrary: seen) auto

lemma unique_values_fixed:
  assumes "\<And>y. y \<in> set ys \<Longrightarrow> f y = Some y" and "distinct ys"
  shows "unique_values f ys = ys"
  unfolding unique_values_def using assms by (intro collect_new_fixed) auto

lemma unique_values_idem:
  assumes "\<And>x y. f x = Some y \<Longrightarrow> f y = Some y"
  shows "unique_values f (unique_values f xs) = unique_values f xs"
  using assms by (intro unique_values_fixed) (auto simp: set_unique_values distinct_unique_values)

lemma length_collect_new: "length (collect_new f seen xs) \<le> length xs"
  by (induction f seen xs rule: collect_new.induct) (auto split: option.splits)

lemma collect_new_append:
  "collect_new f seen (xs @ ys) =
    collect_new f seen xs @ collect_new f (rev (collect_new f seen xs) @ seen) ys"
  by (induction f seen xs rule: collect_new.induct) (auto split: option.splits)

section \<open>Lemmas on joined texts\<close>

lemma Join_Cons: "Join (x # xs) sep = x @ (if xs = [] then [] else sep @ Join xs sep)"
  by (cases xs) auto

lemma Join_Nil_iff: "\<forall>x \<in> set xs. x \<noteq> [] \<Longrightarrow> Join xs sep = [] \<longleftrightarrow> xs = []"
  by (cases xs) (auto simp: Join_Cons)

lemma Join_inj:
  assumes "Join xs [sep] = Join ys [sep]"
    and "\<forall>x \<in> set xs. x \<noteq> [] \<and> sep \<notin> set x" "\<forall>y \<in> set ys. y \<noteq> [] \<and> sep \<notin> set y"
  shows "xs = ys"
  using assms
proof (induction xs arbitrary: ys)
  case Nil
  then show ?case using Join_Nil_iff[of ys "[sep]"] by auto
next
  case (Cons x xs)
  then obtain y ys' where ys: "ys = y # ys'" by (cases ys) (auto simp: Join_Cons)
  let ?r = "\<lambda>zs. if zs = [] then [] else [sep] @ Join zs [sep]"
  have eq: "x @ ?r xs = y @ ?r ys'" using Cons.prems(1) by (simp only: ys Join_Cons)
  have tw: "takeWhile (\<lambda>c. c \<noteq> sep) (z @ ?r zs) = z" if "sep \<notin> set z" for z and zs :: "string list"
    using that by (subst takeWhile_append2) auto
  have "takeWhile (\<lambda>c. c \<noteq> sep) (x @ ?r xs) = takeWhile (\<lambda>c. c \<noteq> sep) (y @ ?r ys')" by (simp only: eq)
  moreover have "sep \<notin> set x" "sep \<notin> set y" using Cons.prems(2,3) by (simp_all add: ys)
  ultimately have "x = y" using tw[of x xs] tw[of y ys'] by metis
  with eq have "?r xs = ?r ys'" by simp
  then have "xs = ys'"
    using Cons.IH[of ys'] Cons.prems(2,3) unfolding ys by (auto split: if_splits)
  with \<open>x = y\<close> show ?case by (simp add: ys)
qed

section \<open>Lemmas on Go maps\<close>

definition gm_keys :: "('k, 'v) gomap \<Rightarrow> 'k list" where
  "gm_keys m = map fst m"

definition gm_ok :: "('k, 'v) gomap \<Rightarrow> bool" where
  "gm_ok m \<longleftrightarrow> distinct (map fst m)"

lemma gm_ok_Nil [simp, intro]: "gm_ok []"
  by (simp add: gm_ok_def)

lemma gm_ok_update [simp, intro]: "gm_ok m \<Longrightarrow> gm_ok (AList.update k v m)"
  by (simp add: gm_ok_def distinct_update)

lemma gm_ok_filter [simp, intro]: "gm_ok m \<Longrightarrow> gm_ok (filter P m)"
  by (simp add: gm_ok_def distinct_map_filter)

lemma map_of_filter_in:
  "gm_ok m \<Longrightarrow> map_of (filter (\<lambda>(k, v). P k v) m) k =
    (case map_of m k of None \<Rightarrow> None | Some v \<Rightarrow> if P k v then Some v else None)"
proof (induction m)
  case (Cons p m)
  have "k \<notin> fst ` set m \<Longrightarrow> map_of (filter (\<lambda>(k, v). P k v) m) k = None"
    by (auto simp: map_of_eq_None_iff)
  with Cons show ?case by (cases p) (auto simp: gm_ok_def split: option.splits)
qed simp

lemma map_of_eq_Some_iff_gm: "gm_ok m \<Longrightarrow> map_of m k = Some v \<longleftrightarrow> (k, v) \<in> set m"
  by (simp add: gm_ok_def)

lemma set_update_subset: "set (AList.update k v m) \<subseteq> insert (k, v) (set m)"
  by (induction m) auto

lemma length_update:
  "length (AList.update k v m) = (if k \<in> fst ` set m then length m else Suc (length m))"
  by (induction m) auto

text \<open>A total over the values of a map changes by what one key contributes.\<close>

lemma sum_update:
  fixes f :: "'v \<Rightarrow> int"
  assumes "gm_ok m"
  shows "sum_list (map (f \<circ> snd) (AList.update k v m)) =
    sum_list (map (f \<circ> snd) m) - (case map_of m k of None \<Rightarrow> 0 | Some u \<Rightarrow> f u) + f v"
  using assms
proof (induction m)
  case (Cons p m)
  then show ?case
    by (cases p) (auto simp: gm_ok_def split: option.splits dest: map_of_SomeD)
qed simp

end
