(* ===== verification/Go_Path.thy ===== *)
theory Go_Path
  imports Go_Prelude
begin

text \<open>
  Unix file paths as the package \<open>path/filepath\<close> of the standard library treats them: lexical cleaning,
  the directory and the last element of a path, joining, and the path of one file relative to another. The
  configuration and the self-update of the worker use them. The main result is \<open>Rel_inside\<close>: the test that
  the updater makes on a relative path holds exactly for the paths strictly below a directory.
\<close>

section \<open>Operations\<close>

definition IsAbs :: "string \<Rightarrow> bool" where
  "IsAbs path \<longleftrightarrow> HasPrefix path ''/''"

text \<open>One element of a path is put on the reversed stack of elements; an element \<open>..\<close> removes the last one.\<close>

definition clean_step :: "bool \<Rightarrow> string list \<Rightarrow> string \<Rightarrow> string list" where
  "clean_step rooted out e =
    (if e = [] \<or> e = ''.'' then out
     else if e = ''..'' then
       (case out of
          [] \<Rightarrow> if rooted then [] else [''..'']
        | x # xs \<Rightarrow> if x = ''..'' then ''..'' # out else xs)
     else e # out)"

definition path_elems :: "string \<Rightarrow> string list" where
  "path_elems path = rev (foldl (clean_step (IsAbs path)) [] (Split (CHR ''/'') path))"

definition Clean :: "string \<Rightarrow> string" where
  "Clean path =
    (let s = (if IsAbs path then ''/'' else []) @ Join (path_elems path) ''/''
     in if s = [] then ''.'' else s)"

definition filepath_Dir :: "string \<Rightarrow> string" where
  "filepath_Dir path = Clean (rev (dropWhile (\<lambda>c. c \<noteq> CHR ''/'') (rev path)))"

definition filepath_Base :: "string \<Rightarrow> string" where
  "filepath_Base path =
    (if path = [] then ''.''
     else (let s = rev (dropWhile (\<lambda>c. c = CHR ''/'') (rev path));
               b = rev (takeWhile (\<lambda>c. c \<noteq> CHR ''/'') (rev s))
           in if b = [] then ''/'' else b))"

definition filepath_Join :: "string list \<Rightarrow> string" where
  "filepath_Join parts =
    (let parts = dropWhile (\<lambda>p. p = []) parts
     in if parts = [] then [] else Clean (Join parts ''/''))"

text \<open>\<open>Rel\<close> compares the elements of the cleaned paths from the left and goes up once for every element of the
  base that is left.\<close>

fun after_common :: "'a list \<Rightarrow> 'a list \<Rightarrow> 'a list \<times> 'a list" where
  "after_common (x # xs) (y # ys) = (if x = y then after_common xs ys else (x # xs, y # ys))"
| "after_common xs ys = (xs, ys)"

definition elements :: "string \<Rightarrow> string list" where
  "elements path = filter (\<lambda>e. e \<noteq> []) (Split (CHR ''/'') path)"

definition Rel :: "string \<Rightarrow> string \<Rightarrow> string option" where
  "Rel basepath targpath =
    (let base = Clean basepath; targ = Clean targpath
     in if targ = base then Some ''.''
        else
          (let base = (if base = ''.'' then [] else base)
           in if IsAbs base \<noteq> IsAbs targ then None
              else
                (case after_common (elements base) (elements targ) of
                   (b, t) \<Rightarrow>
                     if b \<noteq> [] \<and> t \<noteq> [] \<and> hd b = ''..'' then None
                     else Some (Join (replicate (length b) ''..'' @ t) ''/''))))"

section \<open>Cleaned paths\<close>

definition plain_elem :: "string \<Rightarrow> bool" where
  "plain_elem e \<longleftrightarrow> e \<noteq> [] \<and> e \<noteq> ''.'' \<and> e \<noteq> ''..'' \<and> CHR ''/'' \<notin> set e"

lemma Split_not_Nil [simp]: "Split sep s \<noteq> []"
  by (induction s) (auto split: list.splits)

lemma Split_elems: "e \<in> set (Split sep s) \<Longrightarrow> sep \<notin> set e"
  by (induction s arbitrary: e) (auto split: list.splits if_splits)

lemma Split_plain: "sep \<notin> set w \<Longrightarrow> Split sep w = [w]"
  by (induction w) (auto split: list.splits)

lemma Split_append: "sep \<notin> set w \<Longrightarrow> Split sep (w @ sep # s) = w # Split sep s"
  by (induction w) (auto split: list.splits)

lemma Split_Join: "xs \<noteq> [] \<Longrightarrow> \<forall>x \<in> set xs. sep \<notin> set x \<Longrightarrow> Split sep (Join xs [sep]) = xs"
  by (induction xs) (auto simp: Join_Cons Split_plain Split_append)

lemma IsAbs_iff: "IsAbs p \<longleftrightarrow> (\<exists>q. p = CHR ''/'' # q)"
  by (cases p) (auto simp: IsAbs_def HasPrefix_def)

lemma clean_step_plain:
  "list_all plain_elem out \<Longrightarrow> CHR ''/'' \<notin> set e \<Longrightarrow> list_all plain_elem (clean_step True out e)"
  by (auto simp: clean_step_def plain_elem_def split: list.splits)

lemma clean_steps_plain:
  "list_all plain_elem out \<Longrightarrow> \<forall>e \<in> set es. CHR ''/'' \<notin> set e \<Longrightarrow> list_all plain_elem (foldl (clean_step True) out es)"
  by (induction es arbitrary: out) (auto simp: clean_step_plain)

lemma path_elems_plain: "IsAbs p \<Longrightarrow> list_all plain_elem (path_elems p)"
  using clean_steps_plain[of "[]" "Split (CHR ''/'') p"] by (auto simp: path_elems_def Split_elems list_all_iff)

lemma Clean_abs: "IsAbs p \<Longrightarrow> Clean p = CHR ''/'' # Join (path_elems p) ''/''"
  by (simp add: Clean_def)

lemma clean_step_relative:
  "list_all (\<lambda>e. e \<noteq> [] \<and> CHR ''/'' \<notin> set e) out \<Longrightarrow> CHR ''/'' \<notin> set e \<Longrightarrow>
    list_all (\<lambda>e. e \<noteq> [] \<and> CHR ''/'' \<notin> set e) (clean_step False out e)"
  by (auto simp: clean_step_def split: list.splits)

lemma clean_steps_relative:
  "list_all (\<lambda>e. e \<noteq> [] \<and> CHR ''/'' \<notin> set e) out \<Longrightarrow> list_all (\<lambda>e. CHR ''/'' \<notin> set e) es \<Longrightarrow>
    list_all (\<lambda>e. e \<noteq> [] \<and> CHR ''/'' \<notin> set e) (foldl (clean_step False) out es)"
proof (induction es arbitrary: out)
  case (Cons e es)
  then show ?case using clean_step_relative[OF Cons.prems(1), of e] by simp
qed simp

lemma IsAbs_Clean [simp]: "IsAbs (Clean p) \<longleftrightarrow> IsAbs p"
proof (cases "IsAbs p")
  case False
  have rel: "list_all (\<lambda>e. e \<noteq> [] \<and> CHR ''/'' \<notin> set e) (path_elems p)"
    using clean_steps_relative[of "[]" "Split (CHR ''/'') p"] False by (simp add: path_elems_def list_all_iff Split_elems)
  show ?thesis
  proof (cases "path_elems p")
    case Nil
    then show ?thesis using False by (simp add: Clean_def IsAbs_iff)
  next
    case (Cons e es)
    then obtain c cs where "e = c # cs" "c \<noteq> CHR ''/''" using rel by (cases e) auto
    then show ?thesis using False Cons by (simp add: Clean_def Join_Cons IsAbs_iff[of "_ # _"])
  qed
qed (simp add: Clean_abs IsAbs_iff)

lemma elements_Join: "list_all plain_elem es \<Longrightarrow> elements (CHR ''/'' # Join es ''/'') = es"
  by (cases "es = []") (auto simp: elements_def Split_Join list_all_iff plain_elem_def intro!: filter_True)

lemma elements_Clean: "IsAbs p \<Longrightarrow> elements (Clean p) = path_elems p"
  by (simp add: Clean_abs elements_Join path_elems_plain)

text \<open>Cleaning is idempotent on absolute paths, and a cleaned path is determined by its elements.\<close>

lemma clean_steps_id: "list_all plain_elem es \<Longrightarrow> foldl (clean_step True) out es = rev es @ out"
  by (induction es arbitrary: out) (auto simp: clean_step_def plain_elem_def)

lemma path_elems_Join: "list_all plain_elem es \<Longrightarrow> path_elems (CHR ''/'' # Join es ''/'') = es"
  using clean_steps_id[of es "[]"]
  by (cases "es = []") (auto simp: path_elems_def IsAbs_iff Split_Join list_all_iff plain_elem_def clean_step_def)

lemma path_elems_Clean: "IsAbs p \<Longrightarrow> path_elems (Clean p) = path_elems p"
  by (simp add: Clean_abs path_elems_Join path_elems_plain)

lemma Clean_idem: "IsAbs p \<Longrightarrow> Clean (Clean p) = Clean p"
  by (simp add: Clean_abs path_elems_Clean[unfolded Clean_abs] IsAbs_iff path_elems_Join path_elems_plain)

lemma Clean_eq_iff: "IsAbs p \<Longrightarrow> IsAbs q \<Longrightarrow> Clean p = Clean q \<longleftrightarrow> path_elems p = path_elems q"
  by (metis Clean_abs elements_Clean)

section \<open>Relative paths\<close>

lemma after_common_append: "after_common (xs @ ys) (xs @ zs) = after_common ys zs"
  by (induction xs) auto

lemma after_common_prefix: "fst (after_common xs ys) = [] \<longleftrightarrow> (\<exists>zs. ys = xs @ zs)"
  by (induction xs ys rule: after_common.induct) auto

lemma after_common_rest: "after_common xs (xs @ zs) = ([], zs)"
  using after_common_append[of xs "[]" zs] by (cases zs) auto

definition escapes :: "string \<Rightarrow> bool" where
  "escapes relative \<longleftrightarrow> relative = ''.'' \<or> HasPrefix relative ''../'' \<or> relative = ''..'' \<or> IsAbs relative"

lemma HasPrefix_split: "HasPrefix s p \<Longrightarrow> \<exists>r. s = p @ r"
  by (metis HasPrefix_def append_take_drop_id)

lemma escapes_up: "escapes (Join (replicate (Suc n) ''..'' @ t) ''/'')"
  by (cases "replicate n ''..'' @ t") (auto simp: escapes_def Join_Cons HasPrefix_def)

lemma escapes_down: "list_all plain_elem t \<Longrightarrow> t \<noteq> [] \<Longrightarrow> \<not> escapes (Join t ''/'')"
proof (cases t)
  case (Cons e es)
  assume "list_all plain_elem t"
  with Cons have e: "e \<noteq> []" "e \<noteq> ''.''" "e \<noteq> ''..''" "CHR ''/'' \<notin> set e" by (auto simp: plain_elem_def)
  have "takeWhile (\<lambda>c. c \<noteq> CHR ''/'') (Join t ''/'') = e"
    using e(4) unfolding Cons Join_Cons by (subst takeWhile_append2) auto
  moreover have "takeWhile (\<lambda>c. c \<noteq> CHR ''/'') s \<in> {[], ''.'', ''..''}" if "escapes s" for s
    using that HasPrefix_split[of s "''../''"] unfolding escapes_def IsAbs_iff by (elim disjE exE) auto
  ultimately show ?thesis using e by auto
qed simp

lemma Rel_inside:
  assumes "IsAbs base" "IsAbs targ"
  shows "\<exists>relative. Rel base targ = Some relative
    \<and> (\<not> escapes relative \<longleftrightarrow> (\<exists>e es. path_elems targ = path_elems base @ e # es))"
proof (cases "path_elems targ = path_elems base")
  case True
  then have "Rel base targ = Some ''.''" using assms by (simp add: Rel_def Clean_eq_iff)
  then show ?thesis using True by (simp add: escapes_def)
next
  case False
  obtain b t where bt: "after_common (path_elems base) (path_elems targ) = (b, t)" by fastforce
  have base: "Clean base \<noteq> ''.''" using assms by (auto simp: Clean_abs)
  have b: "b = [] \<longleftrightarrow> (\<exists>zs. path_elems targ = path_elems base @ zs)" using after_common_prefix bt by (metis fst_conv)
  have "set b \<subseteq> set (path_elems base)"
  proof -
    have "set (fst (after_common xs ys)) \<subseteq> set xs" for xs ys :: "string list"
      by (induction xs ys rule: after_common.induct) auto
    then show ?thesis using bt by (metis fst_conv)
  qed
  then have "b = [] \<or> hd b \<noteq> ''..''"
    using path_elems_plain[OF assms(1)] by (auto simp: list_all_iff plain_elem_def dest!: hd_in_set)
  then have rel: "Rel base targ = Some (Join (replicate (length b) ''..'' @ t) ''/'')"
    using False assms base by (simp add: Rel_def Clean_eq_iff elements_Clean bt eq_commute[of "Clean targ"]) blast
  show ?thesis
  proof (cases b)
    case Nil
    then obtain zs where zs: "path_elems targ = path_elems base @ zs" using b by blast
    then have "t = zs" "zs \<noteq> []" using bt False by (auto simp: after_common_rest)
    moreover have "list_all plain_elem zs" using path_elems_plain[OF assms(2)] by (simp add: zs)
    ultimately show ?thesis using rel Nil zs by (auto simp: escapes_down neq_Nil_conv)
  next
    case (Cons x xs)
    then have "\<not> (\<exists>e es. path_elems targ = path_elems base @ e # es)" using b by blast
    moreover have "escapes (Join (replicate (length b) ''..'' @ t) ''/'')" using Cons escapes_up by simp
    ultimately show ?thesis using rel by simp
  qed
qed

end
