(* ===== verification/Net_Addr.thy ===== *)
theory Net_Addr
  imports Go_Prelude "HOL-Library.Word"
begin

unbundle bit_operations_syntax

text \<open>
  IP addresses, masks and prefixes as packages \<open>net\<close> and \<open>net/netip\<close> have them, down to the text
  forms: \<open>netip.ParseAddr\<close>, \<open>netip.ParsePrefix\<close>, \<open>net.ParseIP\<close>, \<open>net.ParseCIDR\<close> and the \<open>String\<close> methods
  (RFC 5952 for IPv6). Lemmas: masking and prefix ranges, and that an IPv4 address is parsed back
  from its own text.
\<close>

section \<open>Addresses\<close>

text \<open>A \<open>net.IP\<close> that is not nil: 4 or 16 bytes. A nil \<open>net.IP\<close> is \<open>None\<close> of \<open>net_ip option\<close>.\<close>

datatype net_ip = IP4 "32 word" | IP16 "128 word"

text \<open>A valid \<open>netip.Addr\<close>: IPv4, or IPv6 with a zone (empty for none).\<close>

datatype netip_addr = Addr4 "32 word" | Addr6 "128 word" string

definition is4in6 :: "128 word \<Rightarrow> bool" where
  "is4in6 w \<longleftrightarrow> drop_bit 32 w = 0xFFFF"

definition to4in6 :: "32 word \<Rightarrow> 128 word" where
  "to4in6 w = 0xFFFF00000000 OR ucast w"

fun To4 :: "net_ip \<Rightarrow> 32 word option" where
  "To4 (IP4 w) = Some w"
| "To4 (IP16 w) = (if is4in6 w then Some (ucast w) else None)"

fun To16 :: "net_ip \<Rightarrow> 128 word" where
  "To16 (IP4 w) = to4in6 w"
| "To16 (IP16 w) = w"

text \<open>\<open>if ipv4 := ip.To4(); ipv4 != nil { ip = ipv4 }\<close>\<close>

definition shorten :: "net_ip \<Rightarrow> net_ip" where
  "shorten ip = (case To4 ip of Some w \<Rightarrow> IP4 w | None \<Rightarrow> ip)"

fun Unmap :: "netip_addr \<Rightarrow> netip_addr" where
  "Unmap (Addr4 w) = Addr4 w"
| "Unmap (Addr6 w z) = (if is4in6 w then Addr4 (ucast w) else Addr6 w z)"

fun BitLen :: "netip_addr \<Rightarrow> nat" where
  "BitLen (Addr4 w) = 32"
| "BitLen (Addr6 w z) = 128"

fun Zone :: "netip_addr \<Rightarrow> string" where
  "Zone (Addr4 w) = []"
| "Zone (Addr6 w z) = z"

fun As16 :: "netip_addr \<Rightarrow> 128 word" where
  "As16 (Addr4 w) = to4in6 w"
| "As16 (Addr6 w z) = w"

fun Is4 :: "netip_addr \<Rightarrow> bool" where
  "Is4 (Addr4 w) = True"
| "Is4 (Addr6 w z) = False"

text \<open>\<open>netip.Addr.Compare\<close>: by length, then value, then zone.\<close>

instantiation netip_addr :: linorder
begin

fun less_netip_addr :: "netip_addr \<Rightarrow> netip_addr \<Rightarrow> bool" where
  "less_netip_addr (Addr4 a) (Addr4 b) = (a < b)"
| "less_netip_addr (Addr4 a) (Addr6 b z) = True"
| "less_netip_addr (Addr6 a z) (Addr4 b) = False"
| "less_netip_addr (Addr6 a z) (Addr6 b y) = (a < b \<or> (a = b \<and> z < y))"

definition less_eq_netip_addr :: "netip_addr \<Rightarrow> netip_addr \<Rightarrow> bool" where
  "less_eq_netip_addr a b \<longleftrightarrow> a < b \<or> a = b"

instance
proof
  fix x y z :: netip_addr
  show "(x < y) = (x \<le> y \<and> \<not> y \<le> x)"
    by (cases x; cases y) (auto simp: less_eq_netip_addr_def)
  show "x \<le> x" by (simp add: less_eq_netip_addr_def)
  show "x \<le> y \<Longrightarrow> y \<le> z \<Longrightarrow> x \<le> z"
    by (cases x; cases y; cases z) (auto simp: less_eq_netip_addr_def)
  show "x \<le> y \<Longrightarrow> y \<le> x \<Longrightarrow> x = y"
    by (cases x; cases y) (auto simp: less_eq_netip_addr_def)
  show "x \<le> y \<or> y \<le> x"
    by (cases x; cases y) (auto simp: less_eq_netip_addr_def)
qed

end

section \<open>Classes of addresses\<close>

definition IsUnspecified :: "net_ip \<Rightarrow> bool" where
  "IsUnspecified ip = (case To4 ip of Some w \<Rightarrow> w = 0 | None \<Rightarrow> To16 ip = 0)"

definition IsLoopback :: "net_ip \<Rightarrow> bool" where
  "IsLoopback ip = (case To4 ip of Some w \<Rightarrow> drop_bit 24 w = 127 | None \<Rightarrow> To16 ip = 1)"

definition IsPrivate :: "net_ip \<Rightarrow> bool" where
  "IsPrivate ip = (case To4 ip of
      Some w \<Rightarrow> drop_bit 24 w = 10 \<or> drop_bit 20 w = 0xAC1 \<or> drop_bit 16 w = 0xC0A8
    | None \<Rightarrow> drop_bit 121 (To16 ip) = 0x7E)"

definition IsMulticast :: "net_ip \<Rightarrow> bool" where
  "IsMulticast ip = (case To4 ip of Some w \<Rightarrow> drop_bit 28 w = 0xE | None \<Rightarrow> drop_bit 120 (To16 ip) = 0xFF)"

definition IsLinkLocalUnicast :: "net_ip \<Rightarrow> bool" where
  "IsLinkLocalUnicast ip = (case To4 ip of
      Some w \<Rightarrow> drop_bit 16 w = 0xA9FE | None \<Rightarrow> drop_bit 118 (To16 ip) = 0x3FA)"

definition IsGlobalUnicast :: "net_ip \<Rightarrow> bool" where
  "IsGlobalUnicast ip \<longleftrightarrow> To4 ip \<noteq> Some 0xFFFFFFFF \<and> \<not> IsUnspecified ip \<and> \<not> IsLoopback ip
     \<and> \<not> IsMulticast ip \<and> \<not> IsLinkLocalUnicast ip"

section \<open>Masks and prefixes\<close>

text \<open>Keeping the \<open>n\<close> leading bits of a word.\<close>

definition keep_top :: "nat \<Rightarrow> 'a::len word \<Rightarrow> 'a word" where
  "keep_top n w = w AND NOT (mask (LENGTH('a) - n))"

text \<open>\<open>net.CIDRMask(n, 32)\<close> and \<open>net.CIDRMask(n, 128)\<close>, and \<open>net.IP.Mask\<close>.\<close>

datatype ip_mask = Mask4 nat | Mask16 nat

fun IP_Mask :: "net_ip \<Rightarrow> ip_mask \<Rightarrow> net_ip option" where
  "IP_Mask (IP4 w) (Mask4 n) = Some (IP4 (keep_top n w))"
| "IP_Mask (IP4 w) (Mask16 n) = (if n \<ge> 96 then Some (IP4 (keep_top (n - 96) w)) else None)"
| "IP_Mask (IP16 w) (Mask4 n) = (if is4in6 w then Some (IP4 (keep_top n (ucast w))) else None)"
| "IP_Mask (IP16 w) (Mask16 n) = Some (IP16 (keep_top n w))"

text \<open>A \<open>netip.Prefix\<close>. It is valid when its length does not exceed that of its address.\<close>

datatype netip_prefix = Prefix netip_addr nat

fun prefix_addr :: "netip_prefix \<Rightarrow> netip_addr" where
  "prefix_addr (Prefix a n) = a"

fun prefix_bits :: "netip_prefix \<Rightarrow> nat" where
  "prefix_bits (Prefix a n) = n"

fun prefix_valid :: "netip_prefix \<Rightarrow> bool" where
  "prefix_valid (Prefix a n) \<longleftrightarrow> n \<le> BitLen a"

fun Masked :: "netip_prefix \<Rightarrow> netip_prefix" where
  "Masked (Prefix (Addr4 w) n) = Prefix (Addr4 (keep_top n w)) n"
| "Masked (Prefix (Addr6 w z) n) = Prefix (Addr6 (keep_top n w) []) n"

fun prefix_contains :: "netip_prefix \<Rightarrow> netip_addr \<Rightarrow> bool" where
  "prefix_contains (Prefix (Addr4 p) n) (Addr4 a) \<longleftrightarrow> n \<le> 32 \<and> drop_bit (32 - n) a = drop_bit (32 - n) p"
| "prefix_contains (Prefix (Addr6 p y) n) (Addr6 a z) \<longleftrightarrow>
     n \<le> 128 \<and> z = [] \<and> drop_bit (128 - n) a = drop_bit (128 - n) p"
| "prefix_contains _ _ \<longleftrightarrow> False"

section \<open>Text forms\<close>

definition octets :: "32 word \<Rightarrow> nat list" where
  "octets w = [unat (drop_bit 24 w), unat (take_bit 8 (drop_bit 16 w)), unat (take_bit 8 (drop_bit 8 w)), unat (take_bit 8 w)]"

definition string4 :: "32 word \<Rightarrow> string" where
  "string4 w = Join (map FormatUint (octets w)) ''.''"

definition hex_digit :: "nat \<Rightarrow> char" where
  "hex_digit d = (if d < 10 then char_of (48 + d) else char_of (87 + d))"

fun FormatHex :: "nat \<Rightarrow> string" where
  "FormatHex n = (if n < 16 then [hex_digit n] else FormatHex (n div 16) @ [hex_digit (n mod 16)])"

declare FormatHex.simps [simp del]

definition groups6 :: "128 word \<Rightarrow> nat list" where
  "groups6 w = map (\<lambda>i. unat (take_bit 16 (drop_bit (112 - 16 * i) w))) [0..<8]"

text \<open>The longest run of at least two zero groups, the first of that length.\<close>

definition zero_run :: "nat list \<Rightarrow> nat \<times> nat" where
  "zero_run g = foldl (\<lambda>(s, l) i.
      let k = length (takeWhile (\<lambda>x. x = 0) (drop i g)) in if k \<ge> 2 \<and> k > l then (i, k) else (s, l))
    (0, 0) [0..<8]"

definition string6 :: "128 word \<Rightarrow> string" where
  "string6 w = (let g = groups6 w; (s, l) = zero_run g
     in if l = 0 then Join (map FormatHex g) '':''
        else Join (map FormatHex (take s g)) '':'' @ ''::'' @ Join (map FormatHex (drop (s + l) g)) '':'')"

fun netip_String :: "netip_addr \<Rightarrow> string" where
  "netip_String (Addr4 w) = string4 w"
| "netip_String (Addr6 w z) =
     (if is4in6 w then ''::ffff:'' @ string4 (ucast w) else string6 w) @ (if z = [] then [] else CHR ''%'' # z)"

definition IP_String :: "net_ip \<Rightarrow> string" where
  "IP_String ip = (case To4 ip of Some w \<Rightarrow> string4 w | None \<Rightarrow> string6 (To16 ip))"

definition prefix_String :: "netip_prefix \<Rightarrow> string" where
  "prefix_String p = netip_String (prefix_addr p) @ ''/'' @ FormatUint (prefix_bits p)"

text \<open>\<open>net.IPNet.String\<close>; a network without an address prints as \<open><nil>\<close>.\<close>

definition IPNet_String :: "net_ip option \<Rightarrow> ip_mask \<Rightarrow> string" where
  "IPNet_String ip m = (case ip of
      None \<Rightarrow> ''<nil>''
    | Some a \<Rightarrow> (case (To4 a, m) of
          (Some w, Mask4 n) \<Rightarrow> string4 w @ ''/'' @ FormatUint n
        | (Some w, Mask16 n) \<Rightarrow> string4 w @ ''/'' @ FormatUint (n - 96)
        | (None, Mask4 n) \<Rightarrow> ''<nil>''
        | (None, Mask16 n) \<Rightarrow> string6 (To16 a) @ ''/'' @ FormatUint n))"

section \<open>Parsing\<close>

text \<open>\<open>parseIPv4Fields\<close>: the value and the number of digits of the current field, the fields before it.\<close>

fun parse4 :: "nat \<Rightarrow> nat \<Rightarrow> nat list \<Rightarrow> string \<Rightarrow> nat list option" where
  "parse4 v dl fs [] = (if length fs < 3 then None else Some (fs @ [v]))"
| "parse4 v dl fs (c # s) =
    (case digit_val c of
       Some d \<Rightarrow>
         if dl = 1 \<and> v = 0 then None
         else if 10 * v + d > 255 then None
         else parse4 (10 * v + d) (Suc dl) fs s
     | None \<Rightarrow>
         if c = CHR ''.'' then
           (if dl = 0 \<or> s = [] then None
            else if length fs = 3 then None
            else parse4 0 0 (fs @ [v]) s)
         else None)"

definition word_of_octets :: "nat list \<Rightarrow> 32 word" where
  "word_of_octets bs = foldl (\<lambda>a b. a * 256 + of_nat b) 0 bs"

definition parseIPv4 :: "string \<Rightarrow> netip_addr option" where
  "parseIPv4 s = map_option (\<lambda>bs. Addr4 (word_of_octets bs)) (parse4 0 0 [] s)"

definition hex_val :: "char \<Rightarrow> nat option" where
  "hex_val c = (let n = of_char c in
     if 48 \<le> n \<and> n \<le> 57 then Some (n - 48)
     else if 97 \<le> n \<and> n \<le> 102 then Some (n - 87)
     else if 65 \<le> n \<and> n \<le> 70 then Some (n - 55) else None)"

definition hex_number :: "string \<Rightarrow> nat" where
  "hex_number s = foldl (\<lambda>a c. 16 * a + the (hex_val c)) 0 s"

definition word_of_groups :: "nat list \<Rightarrow> 128 word" where
  "word_of_groups gs = foldl (\<lambda>a g. a * 65536 + of_nat g) 0 gs"

text \<open>After the last field: fill in the ellipsis.\<close>

definition finish6 :: "nat list \<Rightarrow> nat option \<Rightarrow> nat list option" where
  "finish6 gs ell =
    (if length gs < 8 then
       (case ell of None \<Rightarrow> None
        | Some e \<Rightarrow> Some (take e gs @ replicate (8 - length gs) 0 @ drop e gs))
     else (case ell of None \<Rightarrow> Some gs | Some _ \<Rightarrow> None))"

text \<open>The loop of \<open>parseIPv6\<close>: the groups read so far, the position of the ellipsis, the rest.\<close>

function parse6 :: "nat list \<Rightarrow> nat option \<Rightarrow> string \<Rightarrow> nat list option" where
  "parse6 gs ell s =
    (if length gs \<ge> 8 then None
     else
       (let h = takeWhile (\<lambda>c. hex_val c \<noteq> None) s; rest = dropWhile (\<lambda>c. hex_val c \<noteq> None) s
        in if h = [] \<or> length h > 4 then None
           else if take 1 rest = ''.'' then
             (if (ell = None \<and> length gs \<noteq> 6) \<or> length gs + 2 > 8 then None
              else (case parse4 0 0 [] s of
                  Some [a, b, c, d] \<Rightarrow> finish6 (gs @ [256 * a + b, 256 * c + d]) ell
                | _ \<Rightarrow> None))
           else
             (let gs' = gs @ [hex_number h]
              in case rest of
                   [] \<Rightarrow> finish6 gs' ell
                 | c # s' \<Rightarrow>
                     if c \<noteq> CHR '':'' \<or> s' = [] then None
                     else if hd s' = CHR '':'' then
                       (if ell \<noteq> None then None
                        else if tl s' = [] then finish6 gs' (Some (length gs'))
                        else parse6 gs' (Some (length gs')) (tl s'))
                     else parse6 gs' ell s')))"
  by pat_completeness auto
termination
  by (relation "measure (\<lambda>(gs, ell, s). 8 - length gs)") auto

declare parse6.simps [simp del]

definition parseIPv6 :: "string \<Rightarrow> netip_addr option" where
  "parseIPv6 s =
    (let (a, zone, has_zone) = Cut s CHR ''%''
     in if has_zone \<and> zone = [] then None
        else if a = ''::'' then Some (Addr6 0 zone)
        else map_option (\<lambda>gs. Addr6 (word_of_groups gs) zone)
          (if take 2 a = ''::'' then parse6 [] (Some 0) (drop 2 a) else parse6 [] None a))"

fun ParseAddr_from :: "string \<Rightarrow> string \<Rightarrow> netip_addr option" where
  "ParseAddr_from s [] = None"
| "ParseAddr_from s (c # rest) =
    (if c = CHR ''.'' then parseIPv4 s
     else if c = CHR '':'' then parseIPv6 s
     else if c = CHR ''%'' then None
     else ParseAddr_from s rest)"

definition ParseAddr :: "string \<Rightarrow> netip_addr option" where
  "ParseAddr s = ParseAddr_from s s"

definition ParseIP :: "string \<Rightarrow> net_ip option" where
  "ParseIP s = (case ParseAddr s of
      None \<Rightarrow> None
    | Some a \<Rightarrow> if Zone a = [] then Some (IP16 (As16 a)) else None)"

text \<open>\<open>netip.ParsePrefix\<close>: cut at the last slash; the length has no sign and no leading zero.\<close>

definition ParsePrefix :: "string \<Rightarrow> netip_prefix option" where
  "ParsePrefix s =
    (if CHR ''/'' \<notin> set s then None
     else
       (let (rbits, raddr, found) = Cut (rev s) CHR ''/''; bits = rev rbits; addr = rev raddr
        in case ParseAddr addr of
             None \<Rightarrow> None
           | Some a \<Rightarrow>
               if Zone a \<noteq> [] then None
               else if length bits > 1 \<and> (hd bits < CHR ''1'' \<or> CHR ''9'' < hd bits) then None
               else (case Atoi bits of
                   None \<Rightarrow> None
                 | Some n \<Rightarrow> if n < 0 \<or> n > int (BitLen a) then None else Some (Prefix a (nat n)))))"

text \<open>\<open>net.ParseCIDR\<close>: cut at the first slash; the length is any run of digits in range.\<close>

definition ParseCIDR :: "string \<Rightarrow> (net_ip \<times> ip_mask) option" where
  "ParseCIDR s =
    (let (addr, mask, found) = Cut s CHR ''/''
     in if \<not> found then None
        else (case ParseAddr addr of
            None \<Rightarrow> None
          | Some a \<Rightarrow>
              if Zone a \<noteq> [] \<or> mask = [] then None
              else (case parse_digits 0 mask of
                  None \<Rightarrow> None
                | Some n \<Rightarrow>
                    if n > BitLen a then None
                    else Some (IP16 (As16 a), if Is4 a then Mask4 n else Mask16 n))))"

section \<open>Prefixes are intervals\<close>

lemma drop_bit_keep_top [simp]:
  "drop_bit (LENGTH('a) - n) (keep_top n (w :: 'a::len word)) = drop_bit (LENGTH('a) - n) w"
  unfolding keep_top_def by (intro bit_eqI) (auto simp: bit_simps dest: bit_imp_le_length)

lemma keep_top_idem [simp]: "keep_top n (keep_top n w) = keep_top n w"
  unfolding keep_top_def by (intro bit_eqI) (auto simp: bit_simps)

lemma unat_drop_bit: "unat (drop_bit k w) = unat w div 2 ^ k"
  by (simp add: unat_drop_bit_eq) (simp add: drop_bit_eq_div)

lemma drop_bit_word_mono: "(a :: 'a::len word) \<le> b \<Longrightarrow> drop_bit k a \<le> drop_bit k b"
  by (simp add: word_le_nat_alt unat_drop_bit div_le_mono)
lemma bit_drop_eq: "drop_bit k a = drop_bit k p \<Longrightarrow> k \<le> n \<Longrightarrow> bit a n = bit p n" for a p :: "'a::len word"
  by (metis bit_drop_bit_eq le_add_diff_inverse comp_apply)

lemma drop_bit_eq_iff_range:
  fixes a p :: "'a::len word"
  shows "drop_bit k a = drop_bit k p \<longleftrightarrow> p AND NOT (mask k) \<le> a \<and> a \<le> (p OR mask k)"
proof
  assume eq: "drop_bit k a = drop_bit k p"
  have "p AND NOT (mask k) = a AND NOT (mask k)"
    by (intro bit_eqI) (auto simp: bit_simps bit_drop_eq[OF eq])
  moreover have "p OR mask k = a OR mask k"
    by (intro bit_eqI) (auto simp: bit_simps bit_drop_eq[OF eq])
  ultimately show "p AND NOT (mask k) \<le> a \<and> a \<le> (p OR mask k)"
    by (simp add: word_and_le1 word_and_le2 le_word_or1 le_word_or2)
next
  assume r: "p AND NOT (mask k) \<le> a \<and> a \<le> (p OR mask k)"
  have "drop_bit k (p AND NOT (mask k)) = drop_bit k p" "drop_bit k (p OR mask k) = drop_bit k p"
    by (intro bit_eqI, auto simp: bit_simps dest: bit_imp_le_length)+
  with r drop_bit_word_mono[of "p AND NOT (mask k)" a k] drop_bit_word_mono[of a "p OR mask k" k]
  show "drop_bit k a = drop_bit k p" by simp
qed

section \<open>An IPv4 address is parsed back from its text\<close>

lemma octets_nat:
  "octets w = [unat w div 2 ^ 24, unat w div 2 ^ 16 mod 2 ^ 8, unat w div 2 ^ 8 mod 2 ^ 8, unat w mod 2 ^ 8]"
proof -
  have t: "unat (take_bit 8 x) = unat x mod 2 ^ 8" for x :: "32 word"
    by (simp add: unsigned_take_bit_eq) (simp add: take_bit_eq_mod)
  have d: "unat (drop_bit k w) = unat w div 2 ^ k" for k
    by (rule unat_drop_bit)
  show ?thesis unfolding octets_def t d ..
qed

lemma octet_bounds: "n \<in> set (octets w) \<Longrightarrow> n \<le> 255"
proof -
  have "unat w < 2 ^ 32" using unsigned_less[of w] by simp
  then have "unat w div 2 ^ 24 \<le> 255" by simp
  then show "n \<in> set (octets w) \<Longrightarrow> n \<le> 255"
    by (auto simp: octets_nat simp flip: less_Suc_eq_le)
qed

lemma word_of_octets_octets: "word_of_octets (octets w) = w"
proof -
  let ?n = "unat w"
  let ?m = "((?n div 2 ^ 24 * 2 ^ 8 + ?n div 2 ^ 16 mod 2 ^ 8) * 2 ^ 8 + ?n div 2 ^ 8 mod 2 ^ 8) * 2 ^ 8 + ?n mod 2 ^ 8"
  have "?n div 2 ^ 24 = ?n div 2 ^ 16 div 2 ^ 8" "?n div 2 ^ 16 = ?n div 2 ^ 8 div 2 ^ 8"
    by (simp_all add: div_mult2_eq[symmetric])
  then have "?m = ?n" by (simp only: div_mult_mod_eq)
  then have "(of_nat ?m :: 32 word) = of_nat ?n" by (rule arg_cong)
  then have "of_nat ?m = w" by (simp only: of_nat_unat ucast_id)
  then show ?thesis by (simp add: word_of_octets_def octets_nat)
qed

lemma parse4_digits:
  assumes "v \<le> 255"
  shows "parse4 0 0 fs (FormatUint v @ s) = parse4 v (length (FormatUint v)) fs s"
proof -
  consider "v < 10" | "10 \<le> v" "v < 100" | "100 \<le> v" by linarith
  then show ?thesis
  proof cases
    case 1
    then show ?thesis by (simp add: FormatUint.simps[of v] digit_val_digit_char)
  next
    case 2
    then have "v div 10 < 10" "0 < v div 10" by auto
    with 2 show ?thesis
      by (simp add: FormatUint.simps[of v] FormatUint.simps[of "v div 10"] digit_val_digit_char)
  next
    case 3
    then have "v div 10 div 10 < 10" "0 < v div 10 div 10" "10 \<le> v div 10" "v div 10 \<le> 255"
      using assms by auto
    with 3 assms show ?thesis
      by (simp add: FormatUint.simps[of v] FormatUint.simps[of "v div 10"] FormatUint.simps[of "v div 10 div 10"] digit_val_digit_char)
  qed
qed


lemma parse4_string4: "parse4 0 0 [] (string4 w) = Some (octets w)"
proof -
  obtain a b c d where o: "octets w = [a, b, c, d]" by (simp add: octets_def)
  then have le: "a \<le> 255" "b \<le> 255" "c \<le> 255" "d \<le> 255" using octet_bounds[of _ w] by auto
  have dot: "digit_val CHR ''.'' = None" by (simp add: digit_val_def)
  have "string4 w = FormatUint a @ ''.'' @ FormatUint b @ ''.'' @ FormatUint c @ ''.'' @ FormatUint d @ []"
    by (simp add: string4_def o)
  then show ?thesis by (simp only: parse4_digits le) (simp add: parse4_digits[where s = "[]", simplified] parse4_digits le dot o)
qed

lemma ParseAddr_from_dot:
  assumes "\<And>c. c \<in> set s \<Longrightarrow> c \<notin> {CHR ''.'', CHR '':'', CHR ''%''}"
  shows "ParseAddr_from t (s @ CHR ''.'' # r) = parseIPv4 t"
  using assms by (induction s) auto

lemma ParseAddr_string4 [simp]: "ParseAddr (string4 w) = Some (Addr4 w)"
proof -
  obtain a b c d where o: "octets w = [a, b, c, d]" by (simp add: octets_def)
  have "ParseAddr (string4 w) = parseIPv4 (string4 w)"
    unfolding ParseAddr_def by (subst (2) string4_def) 
     (auto simp: o intro!: ParseAddr_from_dot dest: set_FormatUint)
  then show ?thesis by (simp add: parseIPv4_def parse4_string4 word_of_octets_octets)
qed

lemma is4in6_to4in6 [simp]: "is4in6 (to4in6 w)"
proof -
  have "drop_bit 32 (0xFFFF00000000 :: 128 word) = 0xFFFF" by simp
  moreover have "drop_bit 32 (ucast w :: 128 word) = 0"
    by (intro bit_eqI) (auto simp: bit_simps dest: bit_imp_le_length)
  ultimately show ?thesis by (simp add: is4in6_def to4in6_def)
qed

lemma ucast_to4in6 [simp]: "ucast (to4in6 w) = w"
proof -
  have z: "ucast (0xFFFF00000000 :: 128 word) = (0 :: 32 word)" by simp
  have u: "ucast (ucast w :: 128 word) = w"
    by (intro bit_eqI) (auto simp: bit_simps dest: bit_imp_le_length)
  have "ucast (to4in6 w) = (ucast (0xFFFF00000000 :: 128 word) OR ucast (ucast w :: 128 word) :: 32 word)"
    unfolding to4in6_def by (rule unsigned_or_eq)
  then show ?thesis by (simp only: z u or.left_neutral)
qed

lemma ParseIP_string4 [simp]: "ParseIP (string4 w) = Some (IP16 (to4in6 w))"
  by (simp add: ParseIP_def)

lemma shorten_to4in6 [simp]: "shorten (IP16 (to4in6 w)) = IP4 w"
  by (simp add: shorten_def)

lemma To4_shorten [simp]: "To4 (shorten ip) = To4 ip"
  by (cases ip) (auto simp: shorten_def)

lemma IP_String_shorten [simp]: "IP_String (shorten ip) = IP_String ip"
  by (cases ip) (auto simp: shorten_def IP_String_def)

lemma string4_no_space: "c \<in> set (string4 w) \<Longrightarrow> \<not> is_space c"
  by (auto simp: string4_def octets_def is_space_of_char dest!: set_FormatUint)

lemma TrimSpace_string4 [simp]: "TrimSpace (string4 w) = string4 w"
  by (rule TrimSpace_no_space) (simp add: string4_no_space)

lemma string4_inj: "string4 v = string4 w \<Longrightarrow> v = w"
  by (metis ParseAddr_string4 netip_addr.inject(1) option.inject)

section \<open>Evaluation\<close>

text \<open>Code equations whose results are numerals under \<^const>\<open>word_of_int\<close>, so that an address is computed
  once when a definition is evaluated.\<close>

lemma word_of_octets_code [code]:
  "word_of_octets bs = word_of_int (uint (foldl (\<lambda>a b. a * 256 + of_nat b :: 32 word) 0 bs))"
  by (simp add: word_of_octets_def)

lemma word_of_groups_code [code]:
  "word_of_groups gs = word_of_int (uint (foldl (\<lambda>a g. a * 65536 + of_nat g :: 128 word) 0 gs))"
  by (simp add: word_of_groups_def)

lemma to4in6_code [code]: "to4in6 w = word_of_int (uint (0xFFFF00000000 OR ucast w :: 128 word))"
  by (simp add: to4in6_def)

lemma To4_code [code]:
  "To4 (IP4 v) = Some v"
  "To4 (IP16 w) = (if is4in6 w then Some (word_of_int (uint w)) else None)"
  by simp_all

lemma Unmap_code [code]:
  "Unmap (Addr4 v) = Addr4 v"
  "Unmap (Addr6 w z) = (if is4in6 w then Addr4 (word_of_int (uint w)) else Addr6 w z)"
  by simp_all

lemma keep_top_code [code]: "keep_top n (w :: 'a::len word) = word_of_int (uint (w AND NOT (mask (LENGTH('a) - n))))"
  by (simp add: keep_top_def)

end
