(* ===== verification/Go_Float.thy ===== *)
theory Go_Float
  imports Complex_Main Go_Prelude
begin

text \<open>
  IEEE 754 binary64 arithmetic as Go's \<open>float64\<close> has it: values are rationals, and each operation is
  the exact one followed by rounding to 53 significant bits, to nearest, ties to even. Infinities,
  NaN and the gradual underflow below \<open>2\<^sup>-\<^sup>1\<^sup>0\<^sup>2\<^sup>2\<close> are outside the model: the worker decodes its inputs
  from JSON, which has no such values, and divides only by positive numbers.
\<close>

type_synonym float64 = rat

fun bitlen :: "nat \<Rightarrow> nat" where
  "bitlen n = (if n = 0 then 0 else Suc (bitlen (n div 2)))"

declare bitlen.simps [simp del]

text \<open>The exponent \<open>e\<close> with \<open>2\<^sup>e \<le> x < 2\<^sup>e\<^sup>+\<^sup>1\<close> of a positive rational.\<close>

definition fl_exp :: "rat \<Rightarrow> int" where
  "fl_exp x = (let (p, q) = quotient_of x; k = int (bitlen (nat p)) - int (bitlen (nat q))
               in if x < 2 powi k then k - 1 else k)"

definition round_even :: "rat \<Rightarrow> int" where
  "round_even x = (let f = \<lfloor>x\<rfloor>; r = x - of_int f
                   in if r < 1 / 2 then f else if r > 1 / 2 then f + 1 else if even f then f else f + 1)"

definition fl :: "rat \<Rightarrow> float64" where
  "fl x = (if x = 0 then 0
           else (let u = 2 powi (fl_exp \<bar>x\<bar> - 52) in of_int (round_even (x / u)) * u))"

definition fadd :: "float64 \<Rightarrow> float64 \<Rightarrow> float64" where "fadd x y = fl (x + y)"

definition fsub :: "float64 \<Rightarrow> float64 \<Rightarrow> float64" where "fsub x y = fl (x - y)"

definition fmul :: "float64 \<Rightarrow> float64 \<Rightarrow> float64" where "fmul x y = fl (x * y)"

definition fdiv :: "float64 \<Rightarrow> float64 \<Rightarrow> float64" where "fdiv x y = fl (x / y)"

text \<open>\<open>float64(i)\<close> of an integer.\<close>

definition fint :: "int \<Rightarrow> float64" where "fint i = fl (of_int i)"

section \<open>The exponent\<close>

lemma bitlen_bounds: "0 < n \<Longrightarrow> 2 ^ (bitlen n - 1) \<le> n \<and> n < 2 ^ bitlen n \<and> 0 < bitlen n"
proof (induction n rule: bitlen.induct)
  case (1 n)
  have eq: "bitlen n = Suc (bitlen (n div 2))" using "1.prems" by (subst bitlen.simps) simp
  show ?case
  proof (cases "n div 2 = 0")
    case True
    then have "n = 1" using "1.prems" by auto
    then show ?thesis by (simp add: bitlen.simps[of "Suc 0"] bitlen.simps[of 0])
  next
    case False
    then have ih: "2 ^ (bitlen (n div 2) - 1) \<le> n div 2" "n div 2 < 2 ^ bitlen (n div 2)" "0 < bitlen (n div 2)"
      using "1.IH" "1.prems" by auto
    have "2 * 2 ^ (bitlen (n div 2) - 1) \<le> n" using ih(1) by linarith
    moreover have "2 * (2::nat) ^ (bitlen (n div 2) - 1) = 2 ^ bitlen (n div 2)"
      using ih(3) by (metis Suc_pred' power_Suc)
    moreover have "n < 2 * 2 ^ bitlen (n div 2)" using ih(2) by linarith
    ultimately show ?thesis by (simp add: eq)
  qed
qed

lemma fl_exp_bounds:
  assumes "0 < x"
  shows "2 powi fl_exp x \<le> x \<and> x < 2 powi (fl_exp x + 1)"
proof -
  obtain p q where pq: "quotient_of x = (p, q)" by fastforce
  then have q: "0 < q" and x: "x = of_int p / of_int q"
    by (auto simp: quotient_of_denom_pos quotient_of_div)
  with assms have p: "0 < p" by (simp add: zero_less_divide_iff)
  define bp bq where "bp = bitlen (nat p)" and "bq = bitlen (nat q)"
  define k where "k = int bp - int bq"
  have P: "2 ^ (bp - 1) \<le> nat p" "nat p < 2 ^ bp" "0 < bp"
    using bitlen_bounds[of "nat p"] p by (auto simp: bp_def)
  have Q: "2 ^ (bq - 1) \<le> nat q" "nat q < 2 ^ bq" "0 < bq"
    using bitlen_bounds[of "nat q"] q by (auto simp: bq_def)
  have P': "(2::rat) powi (int bp - 1) \<le> of_int p" "of_int p < (2::rat) powi int bp"
  proof -
    have "of_nat (2 ^ (bp - 1)) \<le> (of_nat (nat p) :: rat)" using P(1) by (rule of_nat_mono)
    then show "(2::rat) powi (int bp - 1) \<le> of_int p"
      using p P(3) by (simp add: power_int_def nat_diff_distrib)
    have "of_nat (nat p) < (of_nat (2 ^ bp) :: rat)" using P(2) by (simp only: of_nat_less_iff)
    then show "of_int p < (2::rat) powi int bp" using p by (simp add: power_int_def)
  qed
  have Q': "(2::rat) powi (int bq - 1) \<le> of_int q" "of_int q < (2::rat) powi int bq"
  proof -
    have "of_nat (2 ^ (bq - 1)) \<le> (of_nat (nat q) :: rat)" using Q(1) by (rule of_nat_mono)
    then show "(2::rat) powi (int bq - 1) \<le> of_int q"
      using q Q(3) by (simp add: power_int_def nat_diff_distrib)
    have "of_nat (nat q) < (of_nat (2 ^ bq) :: rat)" using Q(2) by (simp only: of_nat_less_iff)
    then show "of_int q < (2::rat) powi int bq" using q by (simp add: power_int_def)
  qed
  have q': "0 < (of_int q :: rat)" using q by simp
  have "(2::rat) powi (k - 1) = 2 powi (int bp - 1) / 2 powi int bq"
    by (simp add: k_def power_int_diff)
  also have "\<dots> \<le> of_int p / of_int q"
    using P'(1) Q'(2) q' p by (intro frac_le) auto
  finally have lo: "2 powi (k - 1) \<le> x" by (simp add: x)
  have "x < 2 powi int bp / 2 powi (int bq - 1)"
    unfolding x using P'(2) Q' q' p by (intro frac_less) auto
  also have "\<dots> = 2 powi (k + 1)"
    by (simp add: k_def power_int_diff power_int_add field_simps)
  finally have hi: "x < 2 powi (k + 1)" .
  have e: "fl_exp x = (if x < 2 powi k then k - 1 else k)"
    by (simp add: fl_exp_def pq k_def bp_def bq_def Let_def)
  show ?thesis using lo hi by (auto simp: e)
qed

section \<open>Rounding to an integer\<close>

lemma round_even_floor: "round_even x = \<lfloor>x\<rfloor> \<or> round_even x = \<lfloor>x\<rfloor> + 1"
  by (auto simp: round_even_def Let_def)

lemma round_even_int [simp]: "round_even (of_int n) = n"
  by (simp add: round_even_def)

lemma round_even_mono:
  assumes "x \<le> y"
  shows "round_even x \<le> round_even y"
proof (cases "\<lfloor>x\<rfloor> = \<lfloor>y\<rfloor>")
  case True
  with assms show ?thesis by (auto simp: round_even_def Let_def)
next
  case False
  with floor_mono[OF assms] have "\<lfloor>x\<rfloor> + 1 \<le> \<lfloor>y\<rfloor>" by linarith
  with round_even_floor[of x] round_even_floor[of y] show ?thesis by linarith
qed

section \<open>Rounding to a float\<close>

lemma fl_0 [simp]: "fl 0 = 0"
  by (simp add: fl_def)

lemma two_powi_pos [simp]: "0 < (2::rat) powi k"
  by simp

lemma fl_range:
  assumes "0 < x"
  shows "2 powi fl_exp x \<le> fl x \<and> fl x \<le> 2 powi (fl_exp x + 1)"
proof -
  define u where "u = (2::rat) powi (fl_exp x - 52)"
  have u: "0 < u" by (simp add: u_def)
  have lo: "of_int (2 ^ 52) * u = 2 powi fl_exp x" and hi: "of_int (2 ^ 53) * u = 2 powi (fl_exp x + 1)"
    by (simp_all add: u_def power_int_diff power_int_add)
  have eq: "fl x = of_int (round_even (x / u)) * u" using assms by (simp add: fl_def u_def Let_def)
  have "of_int (2 ^ 52) \<le> x / u"
    using fl_exp_bounds[OF assms] lo u by (simp add: pos_le_divide_eq)
  then have "2 ^ 52 \<le> round_even (x / u)" by (metis round_even_int round_even_mono)
  then have 1: "2 powi fl_exp x \<le> fl x"
    unfolding eq lo[symmetric] using u by (intro mult_right_mono) (simp_all only: of_int_le_iff less_imp_le)
  have "x / u \<le> of_int (2 ^ 53)"
    using fl_exp_bounds[OF assms] hi u by (simp add: pos_divide_le_eq)
  then have "round_even (x / u) \<le> 2 ^ 53" by (metis round_even_int round_even_mono)
  then have 2: "fl x \<le> 2 powi (fl_exp x + 1)"
    unfolding eq hi[symmetric] using u by (intro mult_right_mono) (simp_all only: of_int_le_iff less_imp_le)
  from 1 2 show ?thesis ..
qed

lemma fl_pos: "0 < x \<Longrightarrow> 0 < fl x"
  using fl_range[of x] two_powi_pos[of "fl_exp x"] by linarith

lemma fl_nonneg: "0 \<le> x \<Longrightarrow> 0 \<le> fl x"
  using fl_pos[of x] by (cases "x = 0") auto

lemma fl_exp_mono:
  assumes "0 < x" "x \<le> y"
  shows "fl_exp x \<le> fl_exp y"
proof (rule ccontr)
  assume "\<not> ?thesis"
  then have "fl_exp y + 1 \<le> fl_exp x" by linarith
  then have "(2::rat) powi (fl_exp y + 1) \<le> 2 powi fl_exp x" by (intro power_int_increasing) auto
  with fl_exp_bounds[of x] fl_exp_bounds[of y] assms show False by linarith
qed

lemma fl_mono:
  assumes "0 \<le> x" "x \<le> y"
  shows "fl x \<le> fl y"
proof (cases "x = 0")
  case True
  with assms show ?thesis by (simp add: fl_nonneg)
next
  case False
  with assms have x: "0 < x" and y: "0 < y" by auto
  show ?thesis
  proof (cases "fl_exp x = fl_exp y")
    case True
    define u where "u = (2::rat) powi (fl_exp x - 52)"
    have u: "0 < u" by (simp add: u_def)
    have "x / u \<le> y / u" using assms(2) u by (simp add: divide_right_mono less_imp_le)
    then have "round_even (x / u) \<le> round_even (y / u)" by (rule round_even_mono)
    then show ?thesis
      using x y u by (simp add: fl_def Let_def flip: True u_def)
  next
    case False
    with fl_exp_mono[OF x assms(2)] have "fl_exp x + 1 \<le> fl_exp y" by linarith
    then have "(2::rat) powi (fl_exp x + 1) \<le> 2 powi fl_exp y" by (intro power_int_increasing) auto
    with fl_range[OF x] fl_range[OF y] show ?thesis by linarith
  qed
qed

text \<open>Small integers are exact.\<close>

lemma fl_of_int:
  assumes "0 \<le> i" "i < 2 ^ 53"
  shows "fl (of_int i) = of_int i"
proof (cases "i = 0")
  case False
  with assms have i: "0 < (of_int i :: rat)" by simp
  have "(2::rat) powi fl_exp (of_int i) \<le> of_int i" using fl_exp_bounds[OF i] by simp
  also have "\<dots> < 2 powi 53" using assms(2) by (simp add: power_int_def flip: of_int_power)
  finally have "(2::rat) powi fl_exp (of_int i) < 2 powi 53" .
  then have "fl_exp (of_int i) < 53"
    using power_int_increasing[of 53 "fl_exp (of_int i)" "2::rat"] by (meson not_less one_le_numeral)
  then have "(2::rat) powi (52 - fl_exp (of_int i)) = of_int (2 ^ nat (52 - fl_exp (of_int i)))"
    by (simp add: power_int_def)
  moreover have "(2::rat) powi (fl_exp (of_int i) - 52) * 2 powi (52 - fl_exp (of_int i)) = 1"
    by (simp flip: power_int_add)
  ultimately have "of_int i / 2 powi (fl_exp (of_int i) - 52) =
      (of_int (i * 2 ^ nat (52 - fl_exp (of_int i))) :: rat)"
    by (simp add: field_simps)
  then obtain n where n: "of_int i / 2 powi (fl_exp (of_int i) - 52) = (of_int n :: rat)" by blast
  have "fl (of_int i) = of_int n * 2 powi (fl_exp (of_int i) - 52)"
    using i by (simp add: fl_def Let_def n)
  also have "\<dots> = of_int i" by (simp flip: n)
  finally show ?thesis .
qed simp

lemma fint_nonneg: "0 \<le> i \<Longrightarrow> 0 \<le> fint i"
  by (simp add: fint_def fl_nonneg)

lemma fint_exact: "0 \<le> i \<Longrightarrow> i < 2 ^ 53 \<Longrightarrow> fint i = of_int i"
  by (simp add: fint_def fl_of_int)

lemma fdiv_pos: "0 < x \<Longrightarrow> 0 < y \<Longrightarrow> 0 < fdiv x y"
  by (simp add: fdiv_def fl_pos)

lemma fmul_pos: "0 < x \<Longrightarrow> 0 < y \<Longrightarrow> 0 < fmul x y"
  by (simp add: fmul_def fl_pos)

text \<open>A float is its own rounding; then an upper bound that is a float survives rounding.\<close>

definition is_float :: "rat \<Rightarrow> bool" where
  "is_float x \<longleftrightarrow> fl x = x"

lemma is_float_bound: "is_float b \<Longrightarrow> 0 \<le> x \<Longrightarrow> x \<le> b \<Longrightarrow> fl x \<le> b"
  using fl_mono[of x b] by (simp add: is_float_def)

lemma is_float_lower: "is_float b \<Longrightarrow> 0 \<le> b \<Longrightarrow> b \<le> x \<Longrightarrow> b \<le> fl x"
  using fl_mono[of b x] by (simp add: is_float_def)

lemma is_float_one: "is_float 1"
  using fl_of_int[of 1] by (simp add: is_float_def)

end
