(* ===== verification/Worker_Types.thy ===== *)
theory Worker_Types
  imports Net_Addr Go_Float
begin

text \<open>
  The data of the DNS worker (\<open>internal/dnsworker/types.go\<close>): the snapshot the server sends, with its
  zones, records, routes, nodes and scheduling states, the GSLB policy of a route, and the source of
  a query. Every Go struct is a record with the fields of the source, each field prefixed by its
  struct. An \<open>uint\<close> or \<open>uint32\<close> is a \<open>nat\<close>, an \<open>int\<close> an \<open>int\<close>, a \<open>float64\<close> a rational rounded as Go rounds
  (theory \<open>Go_Float\<close>), a \<open>*time.Time\<close> an optional time.
\<close>

definition DefaultAuthoritativeTTL :: int where "DefaultAuthoritativeTTL = 30"
definition DefaultZoneTTL :: int where "DefaultZoneTTL = 300"
definition DefaultQueryRateLimit :: int where "DefaultQueryRateLimit = 200"
definition DefaultUDPResponseSize :: int where "DefaultUDPResponseSize = 1232"
definition DefaultResponseRateLimit :: int where "DefaultResponseRateLimit = 50"
definition DefaultECSIPv4Prefix :: int where "DefaultECSIPv4Prefix = 24"
definition DefaultECSIPv6Prefix :: int where "DefaultECSIPv6Prefix = 56"
definition DefaultSnapshotMaxAge :: duration where "DefaultSnapshotMaxAge = 5 * Minute"

text \<open>\<open>cachedCIDR\<close> of \<open>scheduler.go\<close>: a source network and its canonical text.\<close>

record cachedCIDR =
  cidr_text :: string
  cidr_prefix :: netip_prefix

record WorkerPolicy =
  wp_QueryRateLimit :: int
  wp_ResponseRateLimit :: int
  wp_UDPResponseSize :: int
  wp_ECSEnabled :: bool
  wp_ECSIPv4Prefix :: int
  wp_ECSIPv6Prefix :: int

record SnapshotDNSSECPolicy =
  sec_Enabled :: bool
  sec_DenialMode :: string
  sec_NSEC3Salt :: string
  sec_NSEC3Iterations :: int
  sec_SignatureValiditySeconds :: int

record SnapshotDNSSECKey =
  key_ID :: nat
  key_Role :: string
  key_Flags :: nat
  key_Algorithm :: nat
  key_PublicKey :: string
  key_EncryptedPrivateKey :: string
  key_KeyTag :: nat
  key_Status :: string

record SnapshotRecord =
  rec_ID :: nat
  rec_Name :: string
  rec_Type :: string
  rec_Value :: string
  rec_TTL :: int
  rec_Priority :: int

record SnapshotZone =
  zone_ID :: nat
  zone_Name :: string
  zone_SOAEmail :: string
  zone_PrimaryNS :: string
  zone_NameServers :: "string list"
  zone_DefaultTTL :: int
  zone_Serial :: nat
  zone_DNSSEC :: SnapshotDNSSECPolicy
  zone_DNSSECKeys :: "SnapshotDNSSECKey list"
  zone_Records :: "SnapshotRecord list"

record GSLBPoolPolicy =
  pool_Name :: string
  pool_Weight :: int
  pool_Countries :: "string list"
  pool_SourceCIDRs :: "string list"
  pool_Operators :: "string list"
  pool_ASNs :: "nat list"
  pool_ExcludeCountries :: "string list"
  pool_ExcludeSourceCIDRs :: "string list"
  pool_ExcludeOperators :: "string list"
  pool_ExcludeASNs :: "nat list"
  pool_NodeIDs :: "string list"
  pool_Enabled :: bool
  pool_compiledSourceCIDRs :: "cachedCIDR list"
  pool_compiledExcludeSourceCIDRs :: "cachedCIDR list"

record GSLBSourceIPProvider =
  sip_Provider :: string
  sip_APIURL :: string
  sip_APIToken :: string

record GSLBLoadThresholds =
  lt_MaxOpenrestyConnections :: int
  lt_MaxCPUPercent :: float64
  lt_MaxMemoryPercent :: float64

record GSLBDebounce =
  deb_CooldownSeconds :: int
  deb_UnhealthyThreshold :: int
  deb_RecoveryThreshold :: int

record GSLBPolicy =
  pol_Mode :: string
  pol_Strategy :: string
  pol_PoolMatchMode :: string
  pol_Pools :: "GSLBPoolPolicy list"
  pol_TargetCount :: int
  pol_TTL :: int
  pol_SourceIP :: GSLBSourceIPProvider
  pol_SourcePoolFallbackMode :: string
  pol_LoadThresholds :: GSLBLoadThresholds
  pol_Debounce :: GSLBDebounce

record SnapshotRoute =
  route_ID :: nat
  route_SiteName :: string
  route_Domains :: "string list"
  route_ZoneID :: nat
  route_NodePool :: string
  route_RecordType :: string
  route_TargetCount :: int
  route_ScheduleMode :: string
  route_TTL :: int
  route_GSLBEnabled :: bool
  route_GSLBPolicy :: GSLBPolicy
  route_CurrentTargets :: "string list"
  route_TargetError :: string
  route_DDOSActive :: bool
  route_DDOSProvider :: string
  route_DDOSTarget :: string

record SnapshotNode =
  node_NodeID :: string
  node_Name :: string
  node_PoolName :: string
  node_PublicIPs :: "string list"
  node_Weight :: int
  node_SchedulingEnabled :: bool
  node_DrainMode :: bool
  node_Status :: string
  node_OpenrestyStatus :: string
  node_LastSeenAt :: gotime
  node_OpenrestyConnections :: int
  node_CPUUsagePercent :: float64
  node_MemoryUsagePercent :: float64
  node_MetricCapturedAt :: "gotime option"
  node_DNSProbeHealthy :: bool
  node_DNSProbeCheckedCount :: int
  node_DNSProbeHealthyCount :: int
  node_DNSProbeStaleCount :: int
  node_DNSProbeAverageRTTMs :: float64
  node_DNSProbeMaxRTTMs :: int

record SnapshotSchedulingState =
  ss_RouteID :: nat
  ss_RecordType :: string
  ss_ScopeKey :: string
  ss_SelectedTargets :: "string list"
  ss_DesiredTargets :: "string list"
  ss_UnhealthyCount :: int
  ss_RecoveryCount :: int
  ss_LastChangedAt :: "gotime option"

record Snapshot =
  snap_SnapshotVersion :: string
  snap_GeneratedAt :: gotime
  snap_GSLBProbeSchedulingEnabled :: bool
  snap_WorkerPolicy :: WorkerPolicy
  snap_Zones :: "SnapshotZone list"
  snap_Routes :: "SnapshotRoute list"
  snap_Nodes :: "SnapshotNode list"
  snap_SchedulingStates :: "SnapshotSchedulingState list"

record SourceContext =
  src_IP :: string
  src_Country :: string
  src_Operator :: string
  src_ASN :: nat
  src_ScopeKey :: string

section \<open>Zero values\<close>

text \<open>What the fields a composite literal leaves out are set to.\<close>

definition zero_GSLBSourceIPProvider :: GSLBSourceIPProvider where
  "zero_GSLBSourceIPProvider = \<lparr>sip_Provider = [], sip_APIURL = [], sip_APIToken = []\<rparr>"

definition zero_GSLBLoadThresholds :: GSLBLoadThresholds where
  "zero_GSLBLoadThresholds =
    \<lparr>lt_MaxOpenrestyConnections = 0, lt_MaxCPUPercent = 0, lt_MaxMemoryPercent = 0\<rparr>"

definition zero_GSLBDebounce :: GSLBDebounce where
  "zero_GSLBDebounce = \<lparr>deb_CooldownSeconds = 0, deb_UnhealthyThreshold = 0, deb_RecoveryThreshold = 0\<rparr>"

definition zero_GSLBPoolPolicy :: GSLBPoolPolicy where
  "zero_GSLBPoolPolicy =
    \<lparr>pool_Name = [], pool_Weight = 0, pool_Countries = [], pool_SourceCIDRs = [], pool_Operators = [],
     pool_ASNs = [], pool_ExcludeCountries = [], pool_ExcludeSourceCIDRs = [], pool_ExcludeOperators = [],
     pool_ExcludeASNs = [], pool_NodeIDs = [], pool_Enabled = False,
     pool_compiledSourceCIDRs = [], pool_compiledExcludeSourceCIDRs = []\<rparr>"

definition zero_GSLBPolicy :: GSLBPolicy where
  "zero_GSLBPolicy =
    \<lparr>pol_Mode = [], pol_Strategy = [], pol_PoolMatchMode = [], pol_Pools = [], pol_TargetCount = 0,
     pol_TTL = 0, pol_SourceIP = zero_GSLBSourceIPProvider, pol_SourcePoolFallbackMode = [],
     pol_LoadThresholds = zero_GSLBLoadThresholds, pol_Debounce = zero_GSLBDebounce\<rparr>"

definition zero_SnapshotDNSSECPolicy :: SnapshotDNSSECPolicy where
  "zero_SnapshotDNSSECPolicy =
    \<lparr>sec_Enabled = False, sec_DenialMode = [], sec_NSEC3Salt = [], sec_NSEC3Iterations = 0,
     sec_SignatureValiditySeconds = 0\<rparr>"

definition zero_SnapshotZone :: SnapshotZone where
  "zero_SnapshotZone =
    \<lparr>zone_ID = 0, zone_Name = [], zone_SOAEmail = [], zone_PrimaryNS = [], zone_NameServers = [],
     zone_DefaultTTL = 0, zone_Serial = 0, zone_DNSSEC = zero_SnapshotDNSSECPolicy, zone_DNSSECKeys = [],
     zone_Records = []\<rparr>"

definition zero_SnapshotRoute :: SnapshotRoute where
  "zero_SnapshotRoute =
    \<lparr>route_ID = 0, route_SiteName = [], route_Domains = [], route_ZoneID = 0, route_NodePool = [],
     route_RecordType = [], route_TargetCount = 0, route_ScheduleMode = [], route_TTL = 0,
     route_GSLBEnabled = False, route_GSLBPolicy = zero_GSLBPolicy, route_CurrentTargets = [],
     route_TargetError = [], route_DDOSActive = False, route_DDOSProvider = [], route_DDOSTarget = []\<rparr>"

definition zero_SnapshotNode :: SnapshotNode where
  "zero_SnapshotNode =
    \<lparr>node_NodeID = [], node_Name = [], node_PoolName = [], node_PublicIPs = [], node_Weight = 0,
     node_SchedulingEnabled = False, node_DrainMode = False, node_Status = [], node_OpenrestyStatus = [],
     node_LastSeenAt = 0, node_OpenrestyConnections = 0, node_CPUUsagePercent = 0,
     node_MemoryUsagePercent = 0, node_MetricCapturedAt = None, node_DNSProbeHealthy = False,
     node_DNSProbeCheckedCount = 0, node_DNSProbeHealthyCount = 0, node_DNSProbeStaleCount = 0,
     node_DNSProbeAverageRTTMs = 0, node_DNSProbeMaxRTTMs = 0\<rparr>"

definition zero_WorkerPolicy :: WorkerPolicy where
  "zero_WorkerPolicy =
    \<lparr>wp_QueryRateLimit = 0, wp_ResponseRateLimit = 0, wp_UDPResponseSize = 0, wp_ECSEnabled = False,
     wp_ECSIPv4Prefix = 0, wp_ECSIPv6Prefix = 0\<rparr>"

definition zero_Snapshot :: Snapshot where
  "zero_Snapshot =
    \<lparr>snap_SnapshotVersion = [], snap_GeneratedAt = 0, snap_GSLBProbeSchedulingEnabled = False,
     snap_WorkerPolicy = zero_WorkerPolicy, snap_Zones = [], snap_Routes = [], snap_Nodes = [],
     snap_SchedulingStates = []\<rparr>"

definition zero_SourceContext :: SourceContext where
  "zero_SourceContext = \<lparr>src_IP = [], src_Country = [], src_Operator = [], src_ASN = 0, src_ScopeKey = []\<rparr>"

lemmas zero_values =
  zero_GSLBSourceIPProvider_def zero_GSLBLoadThresholds_def zero_GSLBDebounce_def
  zero_GSLBPoolPolicy_def zero_GSLBPolicy_def zero_SnapshotDNSSECPolicy_def zero_SnapshotZone_def
  zero_SnapshotRoute_def zero_SnapshotNode_def zero_WorkerPolicy_def zero_Snapshot_def
  zero_SourceContext_def

end
