(* ===== verification/Normalize.thy ===== *)
theory Normalize
  imports Worker_Types
begin

text \<open>
  The normalisers of the worker: \<open>normalize.go\<close>, the scope and response-code normalisers of
  \<open>rollup.go\<close>, \<open>normalizePrefix\<close> and \<open>sourceScopeKey\<close> of \<open>source.go\<close>, and the compilation of source
  networks of \<open>scheduler.go\<close> that \<open>normalizePolicy\<close> calls. Shown: bounds of the numeric normalisers,
  what a normalised policy satisfies, that the list normalisers are idempotent (interface
  \<open>list_normalizer\<close>), that the text of a scheduling scope survives being normalised again, and that
  the names cut to 64 bytes do not.
\<close>

section \<open>Names\<close>

definition normalizeDomain :: "string \<Rightarrow> string" where
  "normalizeDomain raw = TrimSuffix (ToLower (TrimSpace raw)) ''.''"

definition dnsName :: "string \<Rightarrow> string" where
  "dnsName raw = (let name = normalizeDomain raw in if name = [] then ''.'' else name @ ''.'')"

definition normalizeRecordName :: "string \<Rightarrow> string \<Rightarrow> string" where
  "normalizeRecordName zoneName raw =
    (let name = normalizeDomain raw; zoneName = normalizeDomain zoneName
     in if name = [] \<or> name = ''@'' then zoneName
        else if \<not> Contains name ''.'' \<and> zoneName \<noteq> [] then name @ ''.'' @ zoneName
        else name)"

definition non_empty :: "string \<Rightarrow> string option" where
  "non_empty s = (if s = [] then None else Some s)"

definition normalizeDomainList :: "string list \<Rightarrow> string list" where
  "normalizeDomainList values = unique_values (\<lambda>v. non_empty (normalizeDomain v)) values"

definition known_record_types :: "string list" where
  "known_record_types =
    [''A'', ''AAAA'', ''CNAME'', ''TXT'', ''MX'', ''NS'', ''SOA'', ''CAA'', ''SRV'', ''HTTPS'', ''SVCB'',
     ''TLSA'', ''DNSKEY'', ''RRSIG'', ''NSEC'', ''NSEC3'', ''NSEC3PARAM'']"

definition normalizeRecordType :: "string \<Rightarrow> string" where
  "normalizeRecordType raw =
    (let recordType = ToUpper (TrimSpace raw)
     in if recordType \<in> set known_record_types then recordType else ''A'')"

definition normalizeAddressRecordType :: "string \<Rightarrow> string" where
  "normalizeAddressRecordType raw = (if ToUpper (TrimSpace raw) = ''AAAA'' then ''AAAA'' else ''A'')"

definition normalizeNodePoolName :: "string \<Rightarrow> string" where
  "normalizeNodePoolName raw =
    (let name = ToLower (TrimSpace raw)
     in if name = [] then ''default'' else if length name > 64 then take 64 name else name)"

section \<open>Numbers\<close>

definition normalizeTargetCount :: "int \<Rightarrow> int" where
  "normalizeTargetCount value = (if value \<le> 0 then 1 else if value > 20 then 20 else value)"

definition normalizeStrategy :: "string \<Rightarrow> string" where
  "normalizeStrategy raw =
    (let s = ToLower (TrimSpace raw)
     in if s = ''weighted'' then ''weighted'' else if s = ''load_aware'' then ''load_aware'' else ''healthy'')"

definition normalizeStaticTTL :: "int \<Rightarrow> int \<Rightarrow> int" where
  "normalizeStaticTTL value fallback =
    (let fallback = (if fallback \<le> 0 then DefaultZoneTTL else fallback)
     in if value \<le> 0 then fallback else if value > 86400 then 86400 else value)"

definition normalizeAuthoritativeTTL :: "int \<Rightarrow> int" where
  "normalizeAuthoritativeTTL value =
    (if value \<le> 1 then DefaultAuthoritativeTTL
     else if value < DefaultAuthoritativeTTL then DefaultAuthoritativeTTL
     else if value > 86400 then 86400 else value)"

definition normalizeWeight :: "int \<Rightarrow> int" where
  "normalizeWeight weight = (if weight \<le> 0 then 100 else if weight > 1000 then 1000 else weight)"

definition normalizePoolMatchMode :: "string \<Rightarrow> string" where
  "normalizePoolMatchMode value =
    (if ToLower (TrimSpace value) = ''mixed_weighted'' then ''mixed_weighted'' else ''priority'')"

definition normalizeSourcePoolFallbackMode :: "string \<Rightarrow> string" where
  "normalizeSourcePoolFallbackMode value =
    (if ToLower (TrimSpace value) = ''fallback_to_global'' then ''fallback_to_global'' else ''strict'')"

definition clamp_percent :: "float64 \<Rightarrow> float64" where
  "clamp_percent x = (if x < 0 then 0 else if x > 100 then 100 else x)"

definition normalizeLoadThresholds :: "GSLBLoadThresholds \<Rightarrow> GSLBLoadThresholds" where
  "normalizeLoadThresholds input =
    input\<lparr>lt_MaxOpenrestyConnections :=
            (if lt_MaxOpenrestyConnections input < 0 then 0 else lt_MaxOpenrestyConnections input),
          lt_MaxCPUPercent := clamp_percent (lt_MaxCPUPercent input),
          lt_MaxMemoryPercent := clamp_percent (lt_MaxMemoryPercent input)\<rparr>"

definition normalizeDebounce :: "GSLBDebounce \<Rightarrow> GSLBDebounce" where
  "normalizeDebounce input =
    input\<lparr>deb_CooldownSeconds :=
            (if deb_CooldownSeconds input \<le> 0 then 60
             else if deb_CooldownSeconds input > 3600 then 3600 else deb_CooldownSeconds input),
          deb_UnhealthyThreshold :=
            (if deb_UnhealthyThreshold input \<le> 0 then 1 else deb_UnhealthyThreshold input),
          deb_RecoveryThreshold :=
            (if deb_RecoveryThreshold input \<le> 0 then 1 else deb_RecoveryThreshold input)\<rparr>"

definition normalizeDNSSECDenialMode :: "string \<Rightarrow> string" where
  "normalizeDNSSECDenialMode value = (if ToLower (TrimSpace value) = ''nsec3'' then ''nsec3'' else ''nsec'')"

definition normalizeDNSSECSignatureValidity :: "int \<Rightarrow> int" where
  "normalizeDNSSECSignatureValidity value =
    (if value \<le> 0 then 7 * 24 * 3600 else if value < 3600 then 3600 else value)"

definition normalizeDNSSECNSEC3Iterations :: "int \<Rightarrow> int" where
  "normalizeDNSSECNSEC3Iterations value = (if value < 0 then 0 else if value > 50 then 50 else value)"

definition normalizePrefix :: "int \<Rightarrow> int \<Rightarrow> int \<Rightarrow> int" where
  "normalizePrefix value mx fallback = (if value < 0 then fallback else if value > mx then mx else value)"

fun firstNonEmpty :: "string list \<Rightarrow> string" where
  "firstNonEmpty [] = []"
| "firstNonEmpty (v # vs) = (if TrimSpace v \<noteq> [] then v else firstNonEmpty vs)"

fun firstPositive :: "int list \<Rightarrow> int" where
  "firstPositive [] = 0"
| "firstPositive (v # vs) = (if v > 0 then v else firstPositive vs)"

section \<open>Lists of countries, operators, networks, nodes\<close>

definition country_item :: "string \<Rightarrow> string option" where
  "country_item value = (let country = ToUpper (TrimSpace value) in if length country \<noteq> 2 then None else Some country)"

definition normalizeCountryList :: "string list \<Rightarrow> string list" where
  "normalizeCountryList values = unique_values country_item values"

text \<open>The aliases of the mainland operators. The Chinese names are given as UTF-8 bytes, in the order
  of the source: China Telecom, Telecom, China Unicom, Unicom, and so on.\<close>

definition zh_china :: string where
  "zh_china = [CHR 0xE4, CHR 0xB8, CHR 0xAD, CHR 0xE5, CHR 0x9B, CHR 0xBD]"
definition zh_telecom :: string where
  "zh_telecom = [CHR 0xE7, CHR 0x94, CHR 0xB5, CHR 0xE4, CHR 0xBF, CHR 0xA1]"
definition zh_unicom :: string where
  "zh_unicom = [CHR 0xE8, CHR 0x81, CHR 0x94, CHR 0xE9, CHR 0x80, CHR 0x9A]"
definition zh_mobile :: string where
  "zh_mobile = [CHR 0xE7, CHR 0xA7, CHR 0xBB, CHR 0xE5, CHR 0x8A, CHR 0xA8]"
definition zh_broadcast :: string where
  "zh_broadcast = [CHR 0xE5, CHR 0xB9, CHR 0xBF, CHR 0xE7, CHR 0x94, CHR 0xB5]"
definition zh_edu_net :: string where
  "zh_edu_net = [CHR 0xE6, CHR 0x95, CHR 0x99, CHR 0xE8, CHR 0x82, CHR 0xB2, CHR 0xE7, CHR 0xBD, CHR 0x91]"

definition operator_aliases :: "(string list \<times> string) list" where
  "operator_aliases =
    [([''telecom'', ''china-telecom'', ''ct'', ''cn-telecom'', ''chinatelecom'', zh_china @ zh_telecom, zh_telecom],
      ''cn-telecom''),
     ([''unicom'', ''china-unicom'', ''cu'', ''cn-unicom'', ''chinaunicom'', zh_china @ zh_unicom, zh_unicom],
      ''cn-unicom''),
     ([''mobile'', ''china-mobile'', ''cmcc'', ''cn-mobile'', ''chinamobile'', zh_china @ zh_mobile, zh_mobile],
      ''cn-mobile''),
     ([''broadcast'', ''cbn'', ''china-broadcast'', ''cn-broadcast'', zh_broadcast, zh_china @ zh_broadcast],
      ''cn-broadcast''),
     ([''cernet'', ''edu'', ''education'', zh_edu_net, zh_china @ zh_edu_net], ''cernet'')]"

fun switch_alias :: "string \<Rightarrow> (string list \<times> string) list \<Rightarrow> string option" where
  "switch_alias s [] = None"
| "switch_alias s ((names, r) # rest) = (if s \<in> set names then Some r else switch_alias s rest)"

definition normalizeOperator :: "string \<Rightarrow> string" where
  "normalizeOperator value =
    (let operator = ToLower (TrimSpace value);
         operator = ReplaceChar CHR ''_'' CHR ''-'' operator;
         operator = ReplaceChar CHR '' '' CHR ''-'' operator
     in case switch_alias operator operator_aliases of
          Some r \<Rightarrow> r
        | None \<Rightarrow> if length operator > 64 then take 64 operator else operator)"

definition normalizeOperatorList :: "string list \<Rightarrow> string list" where
  "normalizeOperatorList values = unique_values (\<lambda>v. non_empty (normalizeOperator v)) values"

definition normalizeASNList :: "nat list \<Rightarrow> nat list" where
  "normalizeASNList values = unique_values (\<lambda>v. if v = 0 then None else Some v) values"

definition normalizeNodeIDList :: "string list \<Rightarrow> string list" where
  "normalizeNodeIDList values = unique_values (\<lambda>v. non_empty (TrimSpace v)) values"

text \<open>\<open>None\<close> is the second result \<open>false\<close>.\<close>

definition normalizeCIDR :: "string \<Rightarrow> string option" where
  "normalizeCIDR value =
    (let text = TrimSpace value
     in if text = [] then None
        else if Contains text ''/'' then
          (case ParseCIDR text of
             None \<Rightarrow> None
           | Some (ip, m) \<Rightarrow> Some (IPNet_String (IP_Mask (shorten ip) m) m))
        else
          (case ParseIP text of
             None \<Rightarrow> None
           | Some ip \<Rightarrow>
               (case To4 ip of
                  Some ipv4 \<Rightarrow> Some (IPNet_String (Some (IP4 ipv4)) (Mask4 32))
                | None \<Rightarrow> Some (IPNet_String (Some ip) (Mask16 128)))))"

definition normalizeCIDRList :: "string list \<Rightarrow> string list" where
  "normalizeCIDRList values = unique_values normalizeCIDR values"

text \<open>One item of \<open>normalizeIPList\<close>: the text of the address, if it has the family asked for.\<close>

definition ip_list_item :: "string \<Rightarrow> string \<Rightarrow> string option" where
  "ip_list_item recordType value =
    (case ParseIP (TrimSpace value) of
       None \<Rightarrow> None
     | Some ip \<Rightarrow>
         (let ip = shorten ip
          in if recordType = ''A'' \<and> To4 ip = None then None
             else if recordType = ''AAAA'' \<and> To4 ip \<noteq> None then None
             else Some (IP_String ip)))"

definition normalizeIPList :: "string list \<Rightarrow> string \<Rightarrow> string list" where
  "normalizeIPList values recordType = unique_values (ip_list_item recordType) values"

section \<open>Source networks compiled for matching\<close>

definition parseSchedulerSourceAddr :: "string \<Rightarrow> netip_addr option" where
  "parseSchedulerSourceAddr value = map_option Unmap (ParseAddr (TrimSpace value))"

definition parseSchedulerCIDR :: "string \<Rightarrow> (string \<times> netip_prefix) option" where
  "parseSchedulerCIDR value =
    (let text = TrimSpace value
     in if text = [] then None
        else if Contains text ''/'' then
          (case ParsePrefix text of
             None \<Rightarrow> None
           | Some prefix \<Rightarrow> let prefix = Masked prefix in Some (prefix_String prefix, prefix))
        else
          (case ParseAddr text of
             None \<Rightarrow> None
           | Some addr \<Rightarrow>
               (let addr = Unmap addr; bits = (if Is4 addr then 32 else 128); prefix = Prefix addr bits
                in Some (prefix_String prefix, prefix))))"

text \<open>The loop of \<open>compileSchedulerCIDRList\<close>; the texts already seen are its second argument.\<close>

fun compile_cidrs :: "string list \<Rightarrow> string list \<Rightarrow> cachedCIDR list" where
  "compile_cidrs [] seen = []"
| "compile_cidrs (v # vs) seen =
    (case parseSchedulerCIDR v of
       None \<Rightarrow> compile_cidrs vs seen
     | Some (text, prefix) \<Rightarrow>
         if text \<in> set seen then compile_cidrs vs seen
         else \<lparr>cidr_text = text, cidr_prefix = prefix\<rparr> # compile_cidrs vs (text # seen))"

definition compileSchedulerCIDRList :: "string list \<Rightarrow> cachedCIDR list" where
  "compileSchedulerCIDRList cidrs = compile_cidrs cidrs []"

section \<open>Policies\<close>

definition unless_empty :: "('a list \<Rightarrow> 'a list) \<Rightarrow> 'a list \<Rightarrow> 'a list" where
  "unless_empty f xs = (if length xs > 0 then f xs else xs)"

text \<open>The body of the loop over the pools in \<open>normalizePolicy\<close>.\<close>

definition normalize_pool :: "bool \<Rightarrow> GSLBPoolPolicy \<Rightarrow> GSLBPoolPolicy" where
  "normalize_pool hasExplicitEnabledPool pool =
    (let source = unless_empty normalizeCIDRList (pool_SourceCIDRs pool);
         exclude = unless_empty normalizeCIDRList (pool_ExcludeSourceCIDRs pool)
     in pool\<lparr>pool_Name := normalizeNodePoolName (pool_Name pool),
             pool_Weight := normalizeWeight (pool_Weight pool),
             pool_Countries := unless_empty normalizeCountryList (pool_Countries pool),
             pool_SourceCIDRs := source,
             pool_compiledSourceCIDRs := compileSchedulerCIDRList source,
             pool_Operators := unless_empty normalizeOperatorList (pool_Operators pool),
             pool_ASNs := unless_empty normalizeASNList (pool_ASNs pool),
             pool_NodeIDs := unless_empty normalizeNodeIDList (pool_NodeIDs pool),
             pool_ExcludeCountries := unless_empty normalizeCountryList (pool_ExcludeCountries pool),
             pool_ExcludeSourceCIDRs := exclude,
             pool_compiledExcludeSourceCIDRs := compileSchedulerCIDRList exclude,
             pool_ExcludeOperators := unless_empty normalizeOperatorList (pool_ExcludeOperators pool),
             pool_ExcludeASNs := unless_empty normalizeASNList (pool_ExcludeASNs pool),
             pool_Enabled := (if hasExplicitEnabledPool then pool_Enabled pool else True)\<rparr>)"

definition normalizePolicy :: "GSLBPolicy \<Rightarrow> SnapshotRoute \<Rightarrow> GSLBPolicy" where
  "normalizePolicy input route =
    (let pools = (if length (pol_Pools input) = 0
                  then [zero_GSLBPoolPolicy\<lparr>pool_Name := normalizeNodePoolName (route_NodePool route),
                                           pool_Weight := 100, pool_Enabled := True\<rparr>]
                  else pol_Pools input);
         hasExplicitEnabledPool = list_ex pool_Enabled pools
     in input\<lparr>pol_Strategy := normalizeStrategy (firstNonEmpty [pol_Strategy input, route_ScheduleMode route]),
              pol_PoolMatchMode := normalizePoolMatchMode (pol_PoolMatchMode input),
              pol_TargetCount := normalizeTargetCount (firstPositive [pol_TargetCount input, route_TargetCount route]),
              pol_TTL := normalizeAuthoritativeTTL (firstPositive [pol_TTL input, route_TTL route]),
              pol_SourcePoolFallbackMode := normalizeSourcePoolFallbackMode (pol_SourcePoolFallbackMode input),
              pol_LoadThresholds := normalizeLoadThresholds (pol_LoadThresholds input),
              pol_Debounce := normalizeDebounce (pol_Debounce input),
              pol_Pools := map (normalize_pool hasExplicitEnabledPool) pools\<rparr>)"

section \<open>Scopes\<close>

definition normalizeRCode :: "string \<Rightarrow> string" where
  "normalizeRCode raw =
    (let r = ToUpper (TrimSpace raw)
     in if r \<in> {''NOERROR'', ''NXDOMAIN'', ''NODATA'', ''SERVFAIL'', ''REFUSED''} then r else ''NOERROR'')"

definition normalizeSourceCountry :: "string \<Rightarrow> string" where
  "normalizeSourceCountry raw =
    (let country = ToUpper (TrimSpace raw) in if length country \<noteq> 2 then [] else country)"

definition normalizeSourceScopeBucket :: "string \<Rightarrow> string" where
  "normalizeSourceScopeBucket raw =
    (let (prefix, value, ok) = Cut (TrimSpace raw) CHR '':''
     in if \<not> ok \<or> \<not> EqualFold (TrimSpace prefix) ''bucket'' then []
        else (case Atoi (TrimSpace value) of
            None \<Rightarrow> []
          | Some bucket \<Rightarrow> if bucket < 0 \<or> bucket > 99 then [] else ''bucket:'' @ Format02d (nat bucket)))"

text \<open>The four cases of \<open>normalizeSourceScopeBase\<close>, tried in order; \<open>None\<close> goes on to the next.\<close>

definition scope_country :: "string \<Rightarrow> string option" where
  "scope_country scopeValue =
    (let country = ToUpper (TrimSpace scopeValue)
     in if length country = 2 then Some (''country:'' @ country) else None)"

definition scope_cidr :: "string \<Rightarrow> string option" where
  "scope_cidr scopeValue =
    (case normalizeCIDR scopeValue of
       Some cidr \<Rightarrow> Some (''cidr:'' @ cidr)
     | None \<Rightarrow>
         (case ParseCIDR (TrimSpace scopeValue) of
            Some (ip, m) \<Rightarrow> Some (''cidr:'' @ IPNet_String (IP_Mask ip m) m)
          | None \<Rightarrow> None))"

definition scope_operator :: "string \<Rightarrow> string option" where
  "scope_operator scopeValue =
    (let operator = normalizeOperator scopeValue
     in if operator \<noteq> [] then Some (''operator:'' @ operator) else None)"

definition scope_asn :: "string \<Rightarrow> string option" where
  "scope_asn scopeValue =
    (case ParseUint 32 (TrimPrefix (ToUpper (TrimSpace scopeValue)) ''AS'') of
       Some asn \<Rightarrow> if asn > 0 then Some (''asn:'' @ FormatUint asn) else None
     | None \<Rightarrow> None)"

definition normalizeSourceScopeBase :: "string \<Rightarrow> string" where
  "normalizeSourceScopeBase raw =
    (let value = TrimSpace raw
     in if value = [] then ''global''
        else
          (let (prefix, scopeValue, ok) = Cut value CHR '':'';
               is_kind = (\<lambda>kind. ok \<and> EqualFold (TrimSpace prefix) kind);
               r = (if is_kind ''country'' then scope_country scopeValue
                    else if is_kind ''cidr'' then scope_cidr scopeValue
                    else if is_kind ''operator'' then scope_operator scopeValue
                    else if is_kind ''asn'' then scope_asn scopeValue
                    else None)
           in case r of Some s \<Rightarrow> s | None \<Rightarrow> value))"

definition normalizeSourceScope :: "string \<Rightarrow> string" where
  "normalizeSourceScope raw =
    (let value = TrimSpace raw
     in if value = [] then ''global''
        else
          (let (base, suffix, hasSuffix) = Cut value CHR ''|'';
               normalizedBase = normalizeSourceScopeBase base
           in if hasSuffix then
                (let bucket = normalizeSourceScopeBucket suffix
                 in if bucket \<noteq> [] then normalizedBase @ ''|'' @ bucket else normalizedBase)
              else normalizedBase))"

definition sourceScopeKey :: "SourceContext \<Rightarrow> string" where
  "sourceScopeKey source =
    (if src_ASN source > 0 then ''asn:'' @ FormatUint (src_ASN source)
     else
       (let operator = normalizeOperator (src_Operator source)
        in if operator \<noteq> [] then ''operator:'' @ operator
           else
             (let country = ToUpper (TrimSpace (src_Country source))
              in if country \<noteq> [] then ''country:'' @ country else ''global'')))"

section \<open>Bounds\<close>

lemma normalizeTargetCount_bounds: "1 \<le> normalizeTargetCount v \<and> normalizeTargetCount v \<le> 20"
  by (simp add: normalizeTargetCount_def)

lemma normalizeTargetCount_idem [go_norm]: "normalizeTargetCount (normalizeTargetCount v) = normalizeTargetCount v"
  by (simp add: normalizeTargetCount_def)

lemma normalizeWeight_bounds: "1 \<le> normalizeWeight w \<and> normalizeWeight w \<le> 1000"
  by (simp add: normalizeWeight_def)

lemma normalizeWeight_idem [go_norm]: "normalizeWeight (normalizeWeight w) = normalizeWeight w"
  by (simp add: normalizeWeight_def)

lemma normalizeAuthoritativeTTL_bounds:
  "DefaultAuthoritativeTTL \<le> normalizeAuthoritativeTTL t \<and> normalizeAuthoritativeTTL t \<le> 86400"
  by (simp add: normalizeAuthoritativeTTL_def DefaultAuthoritativeTTL_def)

lemma normalizeAuthoritativeTTL_idem [go_norm]:
  "normalizeAuthoritativeTTL (normalizeAuthoritativeTTL t) = normalizeAuthoritativeTTL t"
  by (simp add: normalizeAuthoritativeTTL_def DefaultAuthoritativeTTL_def)

lemma normalizeStaticTTL_pos: "0 < normalizeStaticTTL v f"
  by (simp add: normalizeStaticTTL_def DefaultZoneTTL_def Let_def)

lemma normalizeStaticTTL_le: "f \<le> 86400 \<Longrightarrow> normalizeStaticTTL v f \<le> 86400"
  by (simp add: normalizeStaticTTL_def DefaultZoneTTL_def Let_def)

lemma normalizePrefix_bounds:
  "0 \<le> f \<Longrightarrow> f \<le> m \<Longrightarrow> 0 \<le> normalizePrefix v m f \<and> normalizePrefix v m f \<le> m"
  by (simp add: normalizePrefix_def)

lemma normalizeStrategy_idem [go_norm]: "normalizeStrategy (normalizeStrategy s) = normalizeStrategy s"
proof -
  have "normalizeStrategy ''weighted'' = ''weighted''" "normalizeStrategy ''load_aware'' = ''load_aware''"
    "normalizeStrategy ''healthy'' = ''healthy''" by code_simp+
  moreover have "normalizeStrategy s \<in> {''weighted'', ''load_aware'', ''healthy''}"
    by (simp add: normalizeStrategy_def Let_def)
  ultimately show ?thesis by auto
qed

lemma normalizeAddressRecordType_cases:
  "normalizeAddressRecordType s = ''A'' \<or> normalizeAddressRecordType s = ''AAAA''"
  by (simp add: normalizeAddressRecordType_def)

lemma normalizeAddressRecordType_idem [go_norm, simp]:
  "normalizeAddressRecordType (normalizeAddressRecordType s) = normalizeAddressRecordType s"
proof -
  have "normalizeAddressRecordType ''A'' = ''A''" "normalizeAddressRecordType ''AAAA'' = ''AAAA''"
    by code_simp+
  then show ?thesis using normalizeAddressRecordType_cases[of s] by auto
qed

lemma normalizeNodePoolName_not_Nil [simp]: "normalizeNodePoolName s \<noteq> []"
  by (simp add: normalizeNodePoolName_def Let_def)

lemma length_normalizeNodePoolName: "length (normalizeNodePoolName s) \<le> 64"
  by (simp add: normalizeNodePoolName_def Let_def)

text \<open>Below the cut the name is stable.\<close>

lemma normalizeNodePoolName_idem:
  assumes "length (TrimSpace s) \<le> 64"
  shows "normalizeNodePoolName (normalizeNodePoolName s) = normalizeNodePoolName s"
proof (cases "TrimSpace s = []")
  case True
  then have "normalizeNodePoolName s = ''default''" by (simp add: normalizeNodePoolName_def)
  moreover have "normalizeNodePoolName ''default'' = ''default''" by code_simp
  ultimately show ?thesis by simp
next
  case False
  with assms show ?thesis by (simp add: normalizeNodePoolName_def Let_def TrimSpace_ToLower)
qed

section \<open>List normalisers\<close>

text \<open>
  The contract of an item normaliser that a seen-set loop maps over a list: what it returns, it
  returns again unchanged. Then the list is free of repetitions and stable under a second pass.
\<close>

locale list_normalizer =
  fixes item :: "'a \<Rightarrow> 'a option"
  assumes item_stable: "item x = Some y \<Longrightarrow> item y = Some y"
begin

lemma normal_list_stable: "unique_values item (unique_values item xs) = unique_values item xs"
  by (rule unique_values_idem) (rule item_stable)

lemma normal_list_items: "y \<in> set (unique_values item xs) \<Longrightarrow> item y = Some y"
  by (auto simp: set_unique_values intro: item_stable)

lemma normal_list_unless_empty:
  "unless_empty (unique_values item) (unless_empty (unique_values item) xs) =
    unless_empty (unique_values item) xs"
  by (auto simp: unless_empty_def normal_list_stable)

lemma normal_list_same_items:
  "set (unique_values item (unique_values item xs @ xs)) = set (unique_values item xs)"
  using normal_list_items by (fastforce simp: set_unique_values)

end

interpretation countries: list_normalizer country_item
  by unfold_locales (auto simp: country_item_def Let_def go_str split: if_splits)

interpretation asns: list_normalizer "\<lambda>v :: nat. if v = 0 then None else Some v"
  by unfold_locales (auto split: if_splits)

interpretation node_ids: list_normalizer "\<lambda>v. non_empty (TrimSpace v)"
  by unfold_locales (auto simp: non_empty_def split: if_splits)

lemma ip_list_item_A:
  "ip_list_item ''A'' v = Some t \<Longrightarrow> \<exists>w. t = string4 w"
  by (auto simp: ip_list_item_def Let_def IP_String_def split: option.splits if_splits)

interpretation ipv4s: list_normalizer "ip_list_item ''A''"
proof
  fix x y
  assume "ip_list_item ''A'' x = Some y"
  then obtain w where "y = string4 w" using ip_list_item_A by blast
  then show "ip_list_item ''A'' y = Some y"
    by (simp add: ip_list_item_def Let_def IP_String_def)
qed

lemma normalizeIPList_A_idem: "normalizeIPList (normalizeIPList vs ''A'') ''A'' = normalizeIPList vs ''A''"
  by (simp add: normalizeIPList_def ipv4s.normal_list_stable)

lemma distinct_normalizeIPList: "distinct (normalizeIPList vs rt)"
  by (simp add: normalizeIPList_def distinct_unique_values)

lemma normalizeIPList_TrimSpace: "rt = ''A'' \<Longrightarrow> t \<in> set (normalizeIPList vs rt) \<Longrightarrow> TrimSpace t = t"
  by (auto simp: normalizeIPList_def set_unique_values dest!: ip_list_item_A)

section \<open>Normalised policies\<close>

definition cidrs_compiled :: "GSLBPoolPolicy \<Rightarrow> bool" where
  "cidrs_compiled p \<longleftrightarrow>
    pool_compiledSourceCIDRs p = compileSchedulerCIDRList (pool_SourceCIDRs p)
    \<and> pool_compiledExcludeSourceCIDRs p = compileSchedulerCIDRList (pool_ExcludeSourceCIDRs p)"

definition pool_wf :: "GSLBPoolPolicy \<Rightarrow> bool" where
  "pool_wf p \<longleftrightarrow>
    pool_Name p \<noteq> [] \<and> length (pool_Name p) \<le> 64 \<and> 1 \<le> pool_Weight p \<and> pool_Weight p \<le> 1000
    \<and> (\<forall>c \<in> set (pool_Countries p) \<union> set (pool_ExcludeCountries p). length c = 2)
    \<and> (\<forall>a \<in> set (pool_ASNs p) \<union> set (pool_ExcludeASNs p). 0 < a)
    \<and> (\<forall>s \<in> set (pool_Operators p) \<union> set (pool_ExcludeOperators p) \<union> set (pool_NodeIDs p). s \<noteq> [])
    \<and> cidrs_compiled p"

definition policy_wf :: "GSLBPolicy \<Rightarrow> bool" where
  "policy_wf p \<longleftrightarrow>
    pol_Strategy p \<in> {''healthy'', ''weighted'', ''load_aware''}
    \<and> pol_PoolMatchMode p \<in> {''priority'', ''mixed_weighted''}
    \<and> pol_SourcePoolFallbackMode p \<in> {''strict'', ''fallback_to_global''}
    \<and> 1 \<le> pol_TargetCount p \<and> pol_TargetCount p \<le> 20
    \<and> 30 \<le> pol_TTL p \<and> pol_TTL p \<le> 86400
    \<and> 1 \<le> deb_CooldownSeconds (pol_Debounce p) \<and> deb_CooldownSeconds (pol_Debounce p) \<le> 3600
    \<and> 1 \<le> deb_UnhealthyThreshold (pol_Debounce p) \<and> 1 \<le> deb_RecoveryThreshold (pol_Debounce p)
    \<and> list_ex pool_Enabled (pol_Pools p) \<and> list_all pool_wf (pol_Pools p)"

lemma unless_empty_unique:
  "x \<in> set (unless_empty (unique_values f) xs) \<Longrightarrow> \<exists>y \<in> set xs. f y = Some x"
  by (auto simp: unless_empty_def set_unique_values split: if_splits)

lemma normalize_pool_wf: "pool_wf (normalize_pool e p)"
proof -
  have c: "\<And>x xs. x \<in> set (unless_empty normalizeCountryList xs) \<Longrightarrow> length x = 2"
    unfolding normalizeCountryList_def
    by (drule unless_empty_unique) (auto simp: country_item_def Let_def split: if_splits)
  have a: "\<And>x xs. x \<in> set (unless_empty normalizeASNList xs) \<Longrightarrow> 0 < x"
    unfolding normalizeASNList_def by (drule unless_empty_unique) (auto split: if_splits)
  have o: "\<And>x xs. x \<in> set (unless_empty normalizeOperatorList xs) \<Longrightarrow> x \<noteq> []"
    unfolding normalizeOperatorList_def
    by (drule unless_empty_unique) (auto simp: non_empty_def split: if_splits)
  have n: "\<And>x xs. x \<in> set (unless_empty normalizeNodeIDList xs) \<Longrightarrow> x \<noteq> []"
    unfolding normalizeNodeIDList_def
    by (drule unless_empty_unique) (auto simp: non_empty_def split: if_splits)
  show ?thesis
    using normalizeWeight_bounds[of "pool_Weight p"] length_normalizeNodePoolName[of "pool_Name p"]
    by (auto simp: pool_wf_def normalize_pool_def Let_def cidrs_compiled_def dest: c a o n)
qed

lemma normalizeDebounce_bounds:
  "1 \<le> deb_CooldownSeconds (normalizeDebounce d)" "deb_CooldownSeconds (normalizeDebounce d) \<le> 3600"
  "1 \<le> deb_UnhealthyThreshold (normalizeDebounce d)" "1 \<le> deb_RecoveryThreshold (normalizeDebounce d)"
  by (simp_all add: normalizeDebounce_def)

lemma normalize_pools_enabled:
  assumes "ps \<noteq> []"
  shows "list_ex pool_Enabled (map (normalize_pool (list_ex pool_Enabled ps)) ps)"
  using assms by (cases ps) (auto simp: list_ex_iff normalize_pool_def Let_def)

lemma normalizePolicy_wf: "policy_wf (normalizePolicy input route)"
proof -
  let ?p = "normalizePolicy input route"
  define ps where "ps = (if length (pol_Pools input) = 0
      then [zero_GSLBPoolPolicy\<lparr>pool_Name := normalizeNodePoolName (route_NodePool route),
        pool_Weight := 100, pool_Enabled := True\<rparr>] else pol_Pools input)"
  have ps: "ps \<noteq> []" "pol_Pools ?p = map (normalize_pool (list_ex pool_Enabled ps)) ps"
    by (auto simp: normalizePolicy_def Let_def ps_def)
  have pools: "list_ex pool_Enabled (pol_Pools ?p)" "list_all pool_wf (pol_Pools ?p)"
    using ps normalize_pools_enabled normalize_pool_wf by (auto simp: list_all_iff simp del: list.map)
  show ?thesis
    unfolding policy_wf_def using pools normalizeDebounce_bounds[of "pol_Debounce input"] normalizeTargetCount_bounds
      normalizeAuthoritativeTTL_bounds[unfolded DefaultAuthoritativeTTL_def]
    by (simp add: normalizePolicy_def Let_def normalizeStrategy_def normalizePoolMatchMode_def
        normalizeSourcePoolFallbackMode_def)
qed

section \<open>Scopes\<close>

lemma Contains_char: "Contains s [c] \<longleftrightarrow> c \<in> set s"
  by (induction s) (auto simp: HasPrefix_def)

lemma bucket_text:
  assumes "n < 100"
  shows "Atoi (Format02d n) = Some (int n)" "TrimSpace (Format02d n) = Format02d n"
proof -
  have d: "digit_val CHR ''0'' = Some 0" by code_simp
  have c: "of_char c \<in> {48..57::nat}" if "c \<in> set (Format02d n)" for c
    using that set_FormatUint[of c n] by (auto simp: Format02d_def split: if_splits)
  have p: "parse_digits 0 (Format02d n) = Some n"
    by (simp add: Format02d_def parse_digits_FormatUint d)
  have "take 1 (Format02d n) \<noteq> ''-''" "take 1 (Format02d n) \<noteq> ''+''"
    using c by (cases "Format02d n"; force)+
  moreover have "Format02d n \<noteq> []" by (simp add: Format02d_def)
  ultimately show "Atoi (Format02d n) = Some (int n)" using p assms by (simp add: Atoi_def)
  show "TrimSpace (Format02d n) = Format02d n"
    by (intro TrimSpace_no_space) (auto dest: Format02d_no_space)
qed

lemma normalizeSourceScopeBucket_stable:
  assumes "n < 100"
  shows "normalizeSourceScopeBucket (''bucket:'' @ Format02d n) = ''bucket:'' @ Format02d n"
proof -
  have t: "TrimSpace (''bucket:'' @ Format02d n) = ''bucket:'' @ Format02d n"
    by (rule TrimSpace_no_space) (auto simp: is_space_def dest: Format02d_no_space[unfolded is_space_def])
  have c: "Cut (''bucket:'' @ Format02d n) CHR '':'' = (''bucket'', Format02d n, True)"
    using Cut_append[of "CHR '':''" "''bucket''" "Format02d n"] by simp
  have "EqualFold (TrimSpace ''bucket'') ''bucket''" by code_simp
  then show ?thesis
    using assms unfolding normalizeSourceScopeBucket_def Let_def t c by (simp add: bucket_text)
qed

text \<open>A base that is stable and has no bar is stable as a scope, alone and with a bucket.\<close>

definition stable_base :: "string \<Rightarrow> bool" where
  "stable_base b \<longleftrightarrow> b \<noteq> [] \<and> CHR ''|'' \<notin> set b \<and> TrimSpace b = b \<and> normalizeSourceScopeBase b = b"

lemma normalizeSourceScope_base: "stable_base b \<Longrightarrow> normalizeSourceScope b = b"
  by (simp add: normalizeSourceScope_def stable_base_def Cut_absent)

lemma TrimSpace_append:
  assumes "s \<noteq> []" "TrimSpace s = s" "t \<noteq> []" "\<forall>c \<in> set t. \<not> is_space c"
  shows "TrimSpace (s @ t) = s @ t"
proof -
  have "\<not> is_space (hd s)"
  proof
    assume "is_space (hd s)"
    with assms(1) have "length (dropWhile is_space s) < length s"
      by (cases s) (auto simp: length_dropWhile_le le_imp_less_Suc)
    moreover have "length (TrimSpace s) \<le> length (dropWhile is_space s)"
      using length_dropWhile_le[of is_space "rev (dropWhile is_space s)"]
      by (simp add: TrimSpace_def TrimRightSpace_def TrimLeftSpace_def)
    ultimately show False using assms(2) by simp
  qed
  with assms show ?thesis by (intro TrimSpace_id) simp
qed

lemma normalizeSourceScope_bucket:
  assumes "stable_base b" "n < 100"
  shows "normalizeSourceScope (b @ ''|bucket:'' @ Format02d n) = b @ ''|bucket:'' @ Format02d n"
proof -
  let ?t = "''|bucket:'' @ Format02d n"
  have "\<forall>c \<in> set ?t. \<not> is_space c"
    by (auto simp: is_space_def dest: Format02d_no_space[unfolded is_space_def])
  then have t: "TrimSpace (b @ ?t) = b @ ?t"
    using assms(1) by (intro TrimSpace_append) (auto simp: stable_base_def)
  have c: "Cut (b @ ?t) CHR ''|'' = (b, ''bucket:'' @ Format02d n, True)"
    using assms(1) Cut_append[of "CHR ''|''" b "''bucket:'' @ Format02d n"] by (simp add: stable_base_def)
  show ?thesis
    unfolding normalizeSourceScope_def Let_def t c
    using assms(1) normalizeSourceScopeBucket_stable[OF assms(2)] by (simp add: stable_base_def)
qed

lemma stable_base_global: "stable_base ''global''"
  unfolding stable_base_def by code_simp

lemma stable_base_asn:
  assumes "0 < n" "n < 2 ^ 32"
  shows "stable_base (''asn:'' @ FormatUint n)"
proof -
  have no: "\<And>c. c \<in> set (FormatUint n) \<Longrightarrow> \<not> is_space c \<and> c \<noteq> CHR ''|'' \<and> c \<noteq> CHR ''A'' \<and> upper_char c = c"
    using FormatUint_no_space[of _ n] by (auto dest!: set_FormatUint simp: upper_char_def less_eq_char_def)
  have a: "\<forall>c \<in> set ''asn:''. \<not> is_space c" by code_simp
  have t: "TrimSpace (''asn:'' @ FormatUint n) = ''asn:'' @ FormatUint n" "TrimSpace (FormatUint n) = FormatUint n"
    using no a by (auto intro!: TrimSpace_no_space simp only: set_append Un_iff)
  have u: "ToUpper (FormatUint n) = FormatUint n"
    unfolding ToUpper_def using no by (intro map_idI) auto
  have p: "TrimPrefix (FormatUint n) ''AS'' = FormatUint n"
    using no by (cases "FormatUint n") (auto simp: TrimPrefix_def HasPrefix_def)
  have c: "Cut (''asn:'' @ FormatUint n) CHR '':'' = (''asn'', FormatUint n, True)"
    using Cut_append[of "CHR '':''" "''asn''" "FormatUint n"] by simp
  have e: "\<not> EqualFold (TrimSpace ''asn'') ''country''" "\<not> EqualFold (TrimSpace ''asn'') ''cidr''"
    "\<not> EqualFold (TrimSpace ''asn'') ''operator''" "EqualFold (TrimSpace ''asn'') ''asn''" by code_simp+
  have "normalizeSourceScopeBase (''asn:'' @ FormatUint n) = ''asn:'' @ FormatUint n"
    unfolding normalizeSourceScopeBase_def Let_def t c
    using e assms by (simp add: scope_asn_def t u p ParseUint_FormatUint)
  with t no show ?thesis by (auto simp: stable_base_def)
qed

lemma stable_base_country:
  assumes "length c = 2" "ToUpper (TrimSpace c) = c" "CHR ''|'' \<notin> set c"
  shows "stable_base (''country:'' @ c)"
proof -
  have tc: "TrimSpace c = c"
  proof -
    have "length (TrimSpace c) = length c" using assms(2) by (metis length_ToUpper)
    moreover have "ToUpper c = c" using assms(2) by (metis ToUpper_idem)
    ultimately show ?thesis
      by (metis assms(2) TrimSpace_ToUpper)
  qed
  obtain x y where xy: "c = [x, y]" using assms(1) by (auto simp: length_Suc_conv numeral_2_eq_2)
  have "\<not> is_space y" using tc unfolding xy 
    by (auto simp: TrimSpace_def TrimLeftSpace_def TrimRightSpace_def split: if_splits)
  then have t: "TrimSpace (''country:'' @ c) = ''country:'' @ c"
    by (intro TrimSpace_id) (auto simp: xy is_space_def)
  have cut: "Cut (''country:'' @ c) CHR '':'' = (''country'', c, True)"
    using Cut_append[of "CHR '':''" "''country''" c] by simp
  have e: "EqualFold (TrimSpace ''country'') ''country''" by code_simp
  have "normalizeSourceScopeBase (''country:'' @ c) = ''country:'' @ c"
    unfolding normalizeSourceScopeBase_def Let_def t cut using e assms by (simp add: scope_country_def)
  with t assms show ?thesis by (auto simp: stable_base_def)
qed

lemma stable_base_operator:
  assumes "nm \<noteq> []" "normalizeOperator nm = nm" "TrimSpace nm = nm" "CHR ''|'' \<notin> set nm"
  shows "stable_base (''operator:'' @ nm)"
proof -
  have "\<not> is_space (last nm)"
  proof -
    have "TrimRightSpace nm = nm" using assms(3) by (metis TrimRightSpace_idem TrimSpace_def)
    then have "dropWhile is_space (rev nm) = rev nm" by (metis TrimRightSpace_def rev_rev_ident)
    then have "\<not> is_space (hd (rev nm))" using assms(1) by (metis hd_dropWhile rev_is_Nil_conv)
    then show ?thesis by (simp add: hd_rev)
  qed
  then have t: "TrimSpace (''operator:'' @ nm) = ''operator:'' @ nm"
    using assms(1) by (intro TrimSpace_id) (auto simp: is_space_def)
  have cut: "Cut (''operator:'' @ nm) CHR '':'' = (''operator'', nm, True)"
    using Cut_append[of "CHR '':''" "''operator''" nm] by simp
  have e: "\<not> EqualFold (TrimSpace ''operator'') ''country''" "\<not> EqualFold (TrimSpace ''operator'') ''cidr''"
    "EqualFold (TrimSpace ''operator'') ''operator''" by code_simp+
  have "normalizeSourceScopeBase (''operator:'' @ nm) = ''operator:'' @ nm"
    unfolding normalizeSourceScopeBase_def Let_def t cut using e assms by (simp add: scope_operator_def)
  with t assms show ?thesis by (auto simp: stable_base_def)
qed
section \<open>Where normalising twice differs from normalising once\<close>

text \<open>A pool name longer than 64 bytes is cut after it is trimmed, so the cut can leave a trailing space.\<close>

lemma normalizeNodePoolName_not_stable:
  "normalizeNodePoolName (replicate 63 CHR ''a'' @ '' b'') = replicate 63 CHR ''a'' @ '' ''"
  "normalizeNodePoolName (replicate 63 CHR ''a'' @ '' '') = replicate 63 CHR ''a''"
  by code_simp+

text \<open>Only one trailing dot of a domain is dropped.\<close>

lemma normalizeDomain_not_stable:
  "normalizeDomain ''example.com..'' = ''example.com.''" "normalizeDomain ''example.com.'' = ''example.com''"
  by code_simp+

text \<open>An IPv4-mapped network shorter than 96 bits is accepted and becomes the text \<open><nil>\<close>.\<close>

lemma normalizeCIDR_mapped_nil: "normalizeCIDR ''::ffff:1.2.3.4/64'' = Some ''<nil>''"
  by code_simp

end
