(* ===== verification/Pool_Match.thy ===== *)
theory Pool_Match
  imports Normalize
begin

text \<open>
  Which pools of a policy serve a source (\<open>scheduler.go\<close>, from \<open>matchedHasSourceCondition\<close> to
  \<open>sourceScopeKeyForPolicy\<close> and from \<open>sourceIPMatchesCIDRList\<close> to \<open>schedulerCIDRListKey\<close>). A Go map from
  pool names to pools is an association list written with \<^const>\<open>AList.update\<close>.

  The reference definition is a level for every pool: 0 when the source address lies in one of its
  networks, 1 by autonomous system, 2 by operator, 3 by country, 4 otherwise. Shown: the priority
  mode returns exactly the enabled, not excluded pools of the least level, the mixed mode the ones
  with no condition or a level below 4; and the global cache of compiled networks is transparent.
\<close>

type_synonym pool_map = "(string, GSLBPoolPolicy) gomap"

section \<open>The cache of compiled networks\<close>

type_synonym cidr_cache = "(string, cachedCIDR list) gomap"

definition schedulerCIDRListKey :: "string list \<Rightarrow> string" where
  "schedulerCIDRListKey cidrs = Join (filter (\<lambda>t. t \<noteq> []) (map TrimSpace cidrs)) [CHR 0x0A]"

text \<open>The result and the cache afterwards (\<open>schedulerCIDRListCache\<close>, a \<open>sync.Map\<close>).\<close>

definition cachedSchedulerCIDRList :: "string list \<Rightarrow> cidr_cache \<Rightarrow> cachedCIDR list \<times> cidr_cache" where
  "cachedSchedulerCIDRList cidrs cache =
    (let key = schedulerCIDRListKey cidrs
     in if key = [] then ([], cache)
        else (case map_of cache key of
            Some parsed \<Rightarrow> (parsed, cache)
          | None \<Rightarrow>
              (let parsed = compileSchedulerCIDRList cidrs
               in if parsed = [] then ([], cache) else (parsed, AList.update key parsed cache))))"

section \<open>Matching a source\<close>

definition sourceIPMatchesCompiledCIDRList :: "string \<Rightarrow> cachedCIDR list \<Rightarrow> string option" where
  "sourceIPMatchesCompiledCIDRList sourceIP compiled =
    (case parseSchedulerSourceAddr sourceIP of
       None \<Rightarrow> None
     | Some addr \<Rightarrow>
         map_option cidr_text
           (find (\<lambda>item. prefix_valid (cidr_prefix item) \<and> prefix_contains (cidr_prefix item) addr) compiled))"

definition sourceIPMatchesCIDRList :: "string \<Rightarrow> string list \<Rightarrow> string option" where
  "sourceIPMatchesCIDRList sourceIP cidrs =
    sourceIPMatchesCompiledCIDRList sourceIP (compileSchedulerCIDRList cidrs)"

text \<open>
  Where the pool carries no compiled networks the code compiles its texts through the cache of the process, which is not a
  state of this function; lemma \<open>cachedSchedulerCIDRList_transparent\<close> below shows that the cache returns what compiling returns,
  for texts without a newline. A text with a newline is no network, but can share the key of other texts (lemma
  \<open>cidr_cache_key_collision\<close>); there this definition is what the code does with an empty cache.
\<close>

definition sourceIPMatchesPoolCIDRList :: "string \<Rightarrow> GSLBPoolPolicy \<Rightarrow> bool \<Rightarrow> string option" where
  "sourceIPMatchesPoolCIDRList sourceIP pool exclude =
    (let cidrs = (if exclude then pool_ExcludeSourceCIDRs pool else pool_SourceCIDRs pool);
         compiled = (if exclude then pool_compiledExcludeSourceCIDRs pool else pool_compiledSourceCIDRs pool);
         compiled = (if compiled = [] \<and> length cidrs > 0 then compileSchedulerCIDRList cidrs else compiled)
     in sourceIPMatchesCompiledCIDRList sourceIP compiled)"

definition source_asn_in :: "SourceContext \<Rightarrow> nat list \<Rightarrow> bool" where
  "source_asn_in source asns \<longleftrightarrow> src_ASN source > 0 \<and> list_ex (\<lambda>asn. src_ASN source = asn) asns"

definition source_operator_in :: "SourceContext \<Rightarrow> string list \<Rightarrow> bool" where
  "source_operator_in source items \<longleftrightarrow>
    (let operator = normalizeOperator (src_Operator source)
     in operator \<noteq> [] \<and> list_ex (\<lambda>item. operator = normalizeOperator item) items)"

definition source_country_in :: "SourceContext \<Rightarrow> string list \<Rightarrow> bool" where
  "source_country_in source items \<longleftrightarrow>
    (let country = ToUpper (TrimSpace (src_Country source))
     in country \<noteq> [] \<and> list_ex (\<lambda>item. country = ToUpper (TrimSpace item)) items)"

definition poolHasSourceConditions :: "GSLBPoolPolicy \<Rightarrow> bool" where
  "poolHasSourceConditions pool \<longleftrightarrow>
    length (pool_SourceCIDRs pool) > 0 \<or> length (pool_ASNs pool) > 0
    \<or> length (pool_Operators pool) > 0 \<or> length (pool_Countries pool) > 0"

definition poolMatchesSource :: "GSLBPoolPolicy \<Rightarrow> SourceContext \<Rightarrow> bool" where
  "poolMatchesSource pool source \<longleftrightarrow>
    sourceIPMatchesPoolCIDRList (src_IP source) pool False \<noteq> None
    \<or> source_asn_in source (pool_ASNs pool)
    \<or> source_operator_in source (pool_Operators pool)
    \<or> source_country_in source (pool_Countries pool)"

definition poolExcludesSource :: "GSLBPoolPolicy \<Rightarrow> SourceContext \<Rightarrow> bool" where
  "poolExcludesSource pool source \<longleftrightarrow>
    sourceIPMatchesPoolCIDRList (src_IP source) pool True \<noteq> None
    \<or> source_asn_in source (pool_ExcludeASNs pool)
    \<or> source_operator_in source (pool_ExcludeOperators pool)
    \<or> source_country_in source (pool_ExcludeCountries pool)"

section \<open>Pools for a source\<close>

text \<open>The guard that every loop over pools starts with.\<close>

definition pool_skipped :: "GSLBPoolPolicy \<Rightarrow> SourceContext \<Rightarrow> bool" where
  "pool_skipped pool source \<longleftrightarrow>
    normalizeNodePoolName (pool_Name pool) = [] \<or> \<not> pool_Enabled pool \<or> poolExcludesSource pool source"

definition put_pool :: "GSLBPoolPolicy \<Rightarrow> pool_map \<Rightarrow> pool_map" where
  "put_pool pool m = AList.update (normalizeNodePoolName (pool_Name pool)) pool m"

definition matchMixedPoolsForSource :: "GSLBPoolPolicy list \<Rightarrow> SourceContext \<Rightarrow> pool_map" where
  "matchMixedPoolsForSource pools source =
    foldl (\<lambda>result pool.
      if pool_skipped pool source then result
      else if \<not> poolHasSourceConditions pool \<or> poolMatchesSource pool source then put_pool pool result
      else result) [] pools"

text \<open>The five maps of \<open>matchPriorityPoolsForSource\<close>.\<close>

record priority_maps =
  pm_all :: pool_map
  pm_cidr :: pool_map
  pm_asn :: pool_map
  pm_operator :: pool_map
  pm_country :: pool_map

definition priority_step :: "SourceContext \<Rightarrow> priority_maps \<Rightarrow> GSLBPoolPolicy \<Rightarrow> priority_maps" where
  "priority_step source m pool =
    (if pool_skipped pool source then m
     else
       (let name = normalizeNodePoolName (pool_Name pool);
            m = m\<lparr>pm_all := put_pool pool (pm_all m)\<rparr>
        in if sourceIPMatchesPoolCIDRList (src_IP source) pool False \<noteq> None
           then m\<lparr>pm_cidr := put_pool pool (pm_cidr m)\<rparr>
           else
             (let m = (if source_asn_in source (pool_ASNs pool)
                       then m\<lparr>pm_asn := put_pool pool (pm_asn m)\<rparr> else m)
              in if src_ASN source > 0 \<and> map_of (pm_asn m) name \<noteq> None then m
                 else
                   (let m = (if source_operator_in source (pool_Operators pool)
                             then m\<lparr>pm_operator := put_pool pool (pm_operator m)\<rparr> else m)
                    in if normalizeOperator (src_Operator source) \<noteq> [] \<and> map_of (pm_operator m) name \<noteq> None then m
                       else if source_country_in source (pool_Countries pool)
                            then m\<lparr>pm_country := put_pool pool (pm_country m)\<rparr> else m))))"

definition matchPriorityPoolsForSource :: "GSLBPoolPolicy list \<Rightarrow> SourceContext \<Rightarrow> pool_map" where
  "matchPriorityPoolsForSource pools source =
    (let m = foldl (priority_step source)
        \<lparr>pm_all = [], pm_cidr = [], pm_asn = [], pm_operator = [], pm_country = []\<rparr> pools
     in if length (pm_cidr m) > 0 then pm_cidr m
        else if length (pm_asn m) > 0 then pm_asn m
        else if length (pm_operator m) > 0 then pm_operator m
        else if length (pm_country m) > 0 then pm_country m
        else pm_all m)"

definition matchPoolsForSourceWithMode :: "GSLBPoolPolicy list \<Rightarrow> SourceContext \<Rightarrow> string \<Rightarrow> pool_map" where
  "matchPoolsForSourceWithMode pools source mode =
    (if normalizePoolMatchMode mode = ''mixed_weighted'' then matchMixedPoolsForSource pools source
     else matchPriorityPoolsForSource pools source)"

definition matchPoolsForSource :: "GSLBPoolPolicy list \<Rightarrow> SourceContext \<Rightarrow> pool_map" where
  "matchPoolsForSource pools source = matchPoolsForSourceWithMode pools source ''priority''"

definition matchedHasSourceCondition :: "pool_map \<Rightarrow> bool" where
  "matchedHasSourceCondition pools \<longleftrightarrow> list_ex (\<lambda>(name, pool). poolHasSourceConditions pool) pools"

definition globalPoolsForFallback :: "GSLBPoolPolicy list \<Rightarrow> SourceContext \<Rightarrow> pool_map" where
  "globalPoolsForFallback pools source =
    (let (global, all) = foldl (\<lambda>(global, all) pool.
        if pool_skipped pool source then (global, all)
        else (if poolHasSourceConditions pool then global else put_pool pool global, put_pool pool all))
      ([], []) pools
     in if length global > 0 then global else all)"

section \<open>The scope of a source\<close>

text \<open>The pools a scope may come from: enabled and not excluding the source.\<close>

definition scope_pools :: "GSLBPolicy \<Rightarrow> SourceContext \<Rightarrow> GSLBPoolPolicy list" where
  "scope_pools policy source =
    filter (\<lambda>pool. \<not> (\<not> pool_Enabled pool \<or> poolExcludesSource pool source)) (pol_Pools policy)"

fun first_cidr :: "string \<Rightarrow> GSLBPoolPolicy list \<Rightarrow> string option" where
  "first_cidr ip [] = None"
| "first_cidr ip (pool # pools) =
    (case sourceIPMatchesPoolCIDRList ip pool False of Some cidr \<Rightarrow> Some cidr | None \<Rightarrow> first_cidr ip pools)"

definition sourceScopeKeyForPolicy :: "GSLBPolicy \<Rightarrow> SourceContext \<Rightarrow> string" where
  "sourceScopeKeyForPolicy policy source =
    (let pools = scope_pools policy source
     in case first_cidr (src_IP source) pools of
          Some cidr \<Rightarrow> ''cidr:'' @ cidr
        | None \<Rightarrow>
            if list_ex (\<lambda>pool. source_asn_in source (pool_ASNs pool)) pools
            then ''asn:'' @ FormatUint (src_ASN source)
            else if list_ex (\<lambda>pool. source_operator_in source (pool_Operators pool)) pools
            then ''operator:'' @ normalizeOperator (src_Operator source)
            else
              (let country = ToUpper (TrimSpace (src_Country source))
               in if country \<noteq> [] then ''country:'' @ country else ''global''))"

section \<open>The reference definition\<close>

definition pool_eligible :: "SourceContext \<Rightarrow> GSLBPoolPolicy \<Rightarrow> bool" where
  "pool_eligible source pool \<longleftrightarrow> pool_Enabled pool \<and> \<not> poolExcludesSource pool source"

definition pool_level :: "SourceContext \<Rightarrow> GSLBPoolPolicy \<Rightarrow> nat" where
  "pool_level source pool =
    (if sourceIPMatchesPoolCIDRList (src_IP source) pool False \<noteq> None then 0
     else if source_asn_in source (pool_ASNs pool) then 1
     else if source_operator_in source (pool_Operators pool) then 2
     else if source_country_in source (pool_Countries pool) then 3
     else 4)"

lemma pool_level_le: "pool_level source pool \<le> 4"
  by (simp add: pool_level_def)

lemma poolMatchesSource_level: "poolMatchesSource pool source \<longleftrightarrow> pool_level source pool < 4"
  by (simp add: poolMatchesSource_def pool_level_def)

lemma pool_skipped_eligible: "pool_skipped pool source \<longleftrightarrow> \<not> pool_eligible source pool"
  by (auto simp: pool_skipped_def pool_eligible_def)

text \<open>The pools of a list, written into a map under their names: the last one of a name stays.\<close>

definition pools_map :: "GSLBPoolPolicy list \<Rightarrow> pool_map" where
  "pools_map ps = foldl (\<lambda>m p. put_pool p m) [] ps"

lemma pools_map_simps [simp]:
  "pools_map [] = []" "pools_map (ps @ [p]) = put_pool p (pools_map ps)"
  by (simp_all add: pools_map_def)

lemma put_pool_lookup:
  "map_of (put_pool p m) n = (if n = normalizeNodePoolName (pool_Name p) then Some p else map_of m n)"
  by (simp add: put_pool_def update_conv')

lemma gm_ok_put_pool [simp]: "gm_ok m \<Longrightarrow> gm_ok (put_pool p m)"
  by (simp add: put_pool_def)

lemma put_pool_not_Nil [simp]: "put_pool p m \<noteq> []"
  by (cases m) (auto simp: put_pool_def)

lemma pools_map_sound:
  "map_of (pools_map ps) n = Some p \<Longrightarrow> p \<in> set ps \<and> normalizeNodePoolName (pool_Name p) = n"
  by (induction ps rule: rev_induct) (auto simp: put_pool_lookup split: if_splits)

lemma pools_map_complete:
  "p \<in> set ps \<Longrightarrow> map_of (pools_map ps) (normalizeNodePoolName (pool_Name p)) \<noteq> None"
  by (induction ps rule: rev_induct) (auto simp: put_pool_lookup)

lemma pools_map_Nil_iff [simp]: "pools_map ps = [] \<longleftrightarrow> ps = []"
  by (cases ps rule: rev_cases) auto

lemma gm_ok_pools_map [simp]: "gm_ok (pools_map ps)"
  by (induction ps rule: rev_induct) auto

section \<open>The priority mode\<close>

definition at_level :: "SourceContext \<Rightarrow> nat \<Rightarrow> GSLBPoolPolicy list \<Rightarrow> GSLBPoolPolicy list" where
  "at_level source l ps = filter (\<lambda>p. pool_eligible source p \<and> pool_level source p = l) ps"

definition priority_inv :: "SourceContext \<Rightarrow> GSLBPoolPolicy list \<Rightarrow> priority_maps \<Rightarrow> bool" where
  "priority_inv source ps m \<longleftrightarrow>
    pm_all m = pools_map (filter (pool_eligible source) ps)
    \<and> pm_cidr m = pools_map (at_level source 0 ps)
    \<and> pm_asn m = pools_map (at_level source 1 ps)
    \<and> (pm_asn m = [] \<longrightarrow> pm_operator m = pools_map (at_level source 2 ps)
       \<and> (pm_operator m = [] \<longrightarrow> pm_country m = pools_map (at_level source 3 ps)))"

lemma at_level_snoc [simp]:
  "at_level source l (ps @ [p]) =
    at_level source l ps @ (if pool_eligible source p \<and> pool_level source p = l then [p] else [])"
  by (simp add: at_level_def)

lemma pool_level_conds:
  "pool_level source p = 0 \<longleftrightarrow> sourceIPMatchesPoolCIDRList (src_IP source) p False \<noteq> None"
  "pool_level source p = 1 \<Longrightarrow> sourceIPMatchesPoolCIDRList (src_IP source) p False = None
    \<and> source_asn_in source (pool_ASNs p) \<and> 0 < src_ASN source"
  "1 < pool_level source p \<Longrightarrow> sourceIPMatchesPoolCIDRList (src_IP source) p False = None
    \<and> \<not> source_asn_in source (pool_ASNs p)"
  "pool_level source p = 2 \<Longrightarrow> source_operator_in source (pool_Operators p)
    \<and> normalizeOperator (src_Operator source) \<noteq> []"
  "2 < pool_level source p \<Longrightarrow> \<not> source_operator_in source (pool_Operators p)"
  "pool_level source p = 3 \<longleftrightarrow> 2 < pool_level source p \<and> source_country_in source (pool_Countries p)"
  by (auto simp: pool_level_def source_asn_in_def source_operator_in_def Let_def split: if_splits)

text \<open>What one pool adds, by its level.\<close>

lemma priority_step_level:
  fixes m :: priority_maps
  assumes "pool_eligible source p"
  defines "a \<equiv> put_pool p (pm_all m)" and "name \<equiv> normalizeNodePoolName (pool_Name p)"
  shows "pool_level source p = 0 \<Longrightarrow> priority_step source m p = m\<lparr>pm_all := a, pm_cidr := put_pool p (pm_cidr m)\<rparr>"
    and "pool_level source p = 1 \<Longrightarrow> priority_step source m p = m\<lparr>pm_all := a, pm_asn := put_pool p (pm_asn m)\<rparr>"
    and "1 < pool_level source p \<Longrightarrow> \<exists>ops cs. priority_step source m p = m\<lparr>pm_all := a, pm_operator := ops, pm_country := cs\<rparr>
      \<and> (pm_asn m = [] \<longrightarrow> ops = (if pool_level source p = 2 then put_pool p (pm_operator m) else pm_operator m)
        \<and> (ops = [] \<longrightarrow> cs = (if pool_level source p = 3 then put_pool p (pm_country m) else pm_country m)))"
proof -
  have ns: "\<not> pool_skipped p source" using assms by (simp add: pool_skipped_eligible)
  show "pool_level source p = 0 \<Longrightarrow> priority_step source m p = m\<lparr>pm_all := a, pm_cidr := put_pool p (pm_cidr m)\<rparr>"
    using ns pool_level_conds(1)[of source p] by (simp add: priority_step_def Let_def a_def)
  show "pool_level source p = 1 \<Longrightarrow> priority_step source m p = m\<lparr>pm_all := a, pm_asn := put_pool p (pm_asn m)\<rparr>"
    using ns pool_level_conds(2)[of source p] by (simp add: priority_step_def Let_def a_def put_pool_lookup)
  assume l: "1 < pool_level source p"
  note c = pool_level_conds(3)[OF l]
  have st: "priority_step source m p =
      (let m = m\<lparr>pm_all := a\<rparr> in if src_ASN source > 0 \<and> map_of (pm_asn m) name \<noteq> None then m
       else (let m = (if pool_level source p = 2 then m\<lparr>pm_operator := put_pool p (pm_operator m)\<rparr> else m)
         in if normalizeOperator (src_Operator source) \<noteq> [] \<and> map_of (pm_operator m) name \<noteq> None then m
            else if source_country_in source (pool_Countries p)
              then m\<lparr>pm_country := put_pool p (pm_country m)\<rparr> else m))"
    using ns c pool_level_conds(4,5)[of source p] l
    by (cases "pool_level source p = 2") (simp_all add: priority_step_def Let_def a_def name_def)
  have k: "source_country_in source (pool_Countries p) \<longleftrightarrow> pool_level source p = 3" if "pool_level source p \<noteq> 2"
    using that l pool_level_conds(6)[of source p] by auto
  show "\<exists>ops cs. priority_step source m p = m\<lparr>pm_all := a, pm_operator := ops, pm_country := cs\<rparr>
      \<and> (pm_asn m = [] \<longrightarrow> ops = (if pool_level source p = 2 then put_pool p (pm_operator m) else pm_operator m)
        \<and> (ops = [] \<longrightarrow> cs = (if pool_level source p = 3 then put_pool p (pm_country m) else pm_country m)))"
    apply (rule exI[of _ "pm_operator (priority_step source m p)"])
    apply (rule exI[of _ "pm_country (priority_step source m p)"])
    apply (cases "pool_level source p = 2")
    unfolding st Let_def using k by (auto simp: put_pool_lookup)
qed

lemma priority_inv_step:
  assumes "priority_inv source ps m"
  shows "priority_inv source (ps @ [p]) (priority_step source m p)"
proof (cases "pool_eligible source p")
  case False
  then show ?thesis using assms by (simp add: priority_inv_def priority_step_def pool_skipped_eligible)
next
  case e: True
  consider "pool_level source p = 0" | "pool_level source p = 1" | "1 < pool_level source p" by linarith
  then show ?thesis
  proof cases
    case 1
    then show ?thesis using assms e by (simp add: priority_inv_def priority_step_level(1))
  next
    case 2
    then show ?thesis using assms e by (simp add: priority_inv_def priority_step_level(2))
  next
    case 3
    from priority_step_level(3)[OF e 3, of m] obtain ops cs where
      "priority_step source m p = m\<lparr>pm_all := put_pool p (pm_all m), pm_operator := ops, pm_country := cs\<rparr>"
      "pm_asn m = [] \<Longrightarrow> ops = (if pool_level source p = 2 then put_pool p (pm_operator m) else pm_operator m)"
      "pm_asn m = [] \<Longrightarrow> ops = [] \<Longrightarrow>
        cs = (if pool_level source p = 3 then put_pool p (pm_country m) else pm_country m)"
      by metis
    then show ?thesis using assms e 3 by (auto simp: priority_inv_def split: if_splits)
  qed
qed

lemma priority_inv_fold:
  "priority_inv source ps (foldl (priority_step source)
    \<lparr>pm_all = [], pm_cidr = [], pm_asn = [], pm_operator = [], pm_country = []\<rparr> ps)"
proof (induction ps rule: rev_induct)
  case Nil
  then show ?case by (simp add: priority_inv_def at_level_def)
next
  case (snoc p ps)
  then show ?case using priority_inv_step by simp
qed

text \<open>The least level among the eligible pools, 4 if there are none.\<close>

definition best_level :: "SourceContext \<Rightarrow> GSLBPoolPolicy list \<Rightarrow> nat" where
  "best_level source ps = Min (insert 4 (pool_level source ` {p \<in> set ps. pool_eligible source p}))"

lemma best_level_le: "p \<in> set ps \<Longrightarrow> pool_eligible source p \<Longrightarrow> best_level source ps \<le> pool_level source p"
  by (simp add: best_level_def)

lemma best_level_eqI:
  assumes "\<And>k. k < l \<Longrightarrow> at_level source k ps = []" "l \<le> 4" "l = 4 \<or> at_level source l ps \<noteq> []"
  shows "best_level source ps = l"
proof -
  have ge: "l \<le> pool_level source p" if "p \<in> set ps" "pool_eligible source p" for p
    using that assms(1)[of "pool_level source p"] by (fastforce simp: at_level_def filter_empty_conv not_le)
  have "l = 4 \<or> l \<in> pool_level source ` {p \<in> set ps. pool_eligible source p}"
    using assms(3) by (force simp: at_level_def filter_empty_conv)
  then show ?thesis
    unfolding best_level_def using ge assms(2) by (intro Min_eqI) auto
qed

lemma matchPriority_pools:
  "matchPriorityPoolsForSource ps source = pools_map (at_level source (best_level source ps) ps)"
proof -
  define m where "m = foldl (priority_step source)
    \<lparr>pm_all = [], pm_cidr = [], pm_asn = [], pm_operator = [], pm_country = []\<rparr> ps"
  have inv: "priority_inv source ps m" unfolding m_def by (rule priority_inv_fold)
  let ?at = "\<lambda>l. at_level source l ps"
  have r: "matchPriorityPoolsForSource ps source =
     (if pm_cidr m \<noteq> [] then pm_cidr m else if pm_asn m \<noteq> [] then pm_asn m
      else if pm_operator m \<noteq> [] then pm_operator m else if pm_country m \<noteq> [] then pm_country m else pm_all m)"
    unfolding matchPriorityPoolsForSource_def m_def[symmetric] by (simp add: Let_def)
  consider (0) "?at 0 \<noteq> []" | (1) "?at 0 = []" "?at 1 \<noteq> []" | (2) "?at 0 = []" "?at 1 = []" "?at 2 \<noteq> []"
    | (3) "?at 0 = []" "?at 1 = []" "?at 2 = []" "?at 3 \<noteq> []"
    | (4) "?at 0 = []" "?at 1 = []" "?at 2 = []" "?at 3 = []" by blast
  then show ?thesis
  proof cases
    case 0
    then have "best_level source ps = 0" by (intro best_level_eqI) auto
    then show ?thesis using 0 inv by (simp add: r priority_inv_def)
  next
    case 1
    then have "best_level source ps = 1" by (intro best_level_eqI) auto
    then show ?thesis using 1 inv by (simp add: r priority_inv_def)
  next
    case 2
    then have "best_level source ps = 2" by (intro best_level_eqI) (auto simp: less_Suc_eq numeral_eq_Suc)
    then show ?thesis using 2 inv by (simp add: r priority_inv_def)
  next
    case 3
    then have "best_level source ps = 3" by (intro best_level_eqI) (auto simp: less_Suc_eq numeral_eq_Suc)
    then show ?thesis using 3 inv by (simp add: r priority_inv_def)
  next
    case 4
    then have b: "best_level source ps = 4" by (intro best_level_eqI) (auto simp: less_Suc_eq numeral_eq_Suc)
    have "filter (pool_eligible source) ps = ?at 4"
      unfolding at_level_def
      using best_level_le[of _ ps source] pool_level_le[of source] b by (intro filter_cong) (auto intro: antisym)
    then show ?thesis using 4 inv b by (simp add: r priority_inv_def)
  qed
qed

section \<open>The mixed mode and the fallback\<close>

lemma foldl_put_filter:
  "foldl (\<lambda>m p. if P p then put_pool p m else m) [] ps = pools_map (filter P ps)"
  by (induction ps rule: rev_induct) auto

lemma matchMixed_pools:
  "matchMixedPoolsForSource ps source =
    pools_map (filter (\<lambda>p. pool_eligible source p \<and> (\<not> poolHasSourceConditions p \<or> pool_level source p < 4)) ps)"
proof -
  have "(\<lambda>result p. if pool_skipped p source then result
      else if \<not> poolHasSourceConditions p \<or> poolMatchesSource p source then put_pool p result else result) =
    (\<lambda>m p. if pool_eligible source p \<and> (\<not> poolHasSourceConditions p \<or> pool_level source p < 4)
      then put_pool p m else m)"
    by (intro ext) (simp add: pool_skipped_eligible poolMatchesSource_level)
  then show ?thesis unfolding matchMixedPoolsForSource_def by (simp only: foldl_put_filter)
qed

lemma globalPoolsForFallback_pools:
  "globalPoolsForFallback ps source =
    (let el = filter (pool_eligible source) ps; gl = filter (\<lambda>p. \<not> poolHasSourceConditions p) el
     in pools_map (if gl \<noteq> [] then gl else el))"
proof -
  have "foldl (\<lambda>(global, all) p. if pool_skipped p source then (global, all)
        else (if poolHasSourceConditions p then global else put_pool p global, put_pool p all)) ([], []) ps =
    (pools_map (filter (\<lambda>p. \<not> poolHasSourceConditions p) (filter (pool_eligible source) ps)),
     pools_map (filter (pool_eligible source) ps))"
    by (induction ps rule: rev_induct) (auto simp: pool_skipped_eligible)
  then show ?thesis by (auto simp: globalPoolsForFallback_def Let_def)
qed

lemma matched_pool_eligible:
  "map_of (matchPoolsForSourceWithMode ps source mode) n = Some p \<Longrightarrow>
    p \<in> set ps \<and> pool_eligible source p \<and> normalizeNodePoolName (pool_Name p) = n"
  by (auto simp: matchPoolsForSourceWithMode_def matchPriority_pools matchMixed_pools at_level_def
      split: if_splits dest!: pools_map_sound)

lemma fallback_pool_eligible:
  "map_of (globalPoolsForFallback ps source) n = Some p \<Longrightarrow>
    p \<in> set ps \<and> pool_eligible source p \<and> normalizeNodePoolName (pool_Name p) = n"
  by (auto simp: globalPoolsForFallback_pools Let_def split: if_splits dest!: pools_map_sound)

section \<open>The cache is transparent\<close>

definition no_newline :: "string list \<Rightarrow> bool" where
  "no_newline cidrs \<longleftrightarrow> (\<forall>c \<in> set cidrs. CHR 0x0A \<notin> set (TrimSpace c))"

definition cidr_cache_ok :: "cidr_cache \<Rightarrow> bool" where
  "cidr_cache_ok cache \<longleftrightarrow> (\<forall>(key, parsed) \<in> set cache.
    \<exists>cidrs. no_newline cidrs \<and> key = schedulerCIDRListKey cidrs \<and> parsed = compileSchedulerCIDRList cidrs)"

lemma parseSchedulerCIDR_trim: "parseSchedulerCIDR (TrimSpace v) = parseSchedulerCIDR v"
  by (simp add: parseSchedulerCIDR_def)

lemma parseSchedulerCIDR_blank: "TrimSpace v = [] \<Longrightarrow> parseSchedulerCIDR v = None"
  by (simp add: parseSchedulerCIDR_def)

lemma compile_cidrs_trim:
  "compile_cidrs (filter (\<lambda>t. t \<noteq> []) (map TrimSpace vs)) seen = compile_cidrs vs seen"
  by (induction vs arbitrary: seen)
    (auto simp: parseSchedulerCIDR_trim parseSchedulerCIDR_blank split: option.splits)

lemma compile_key:
  assumes "schedulerCIDRListKey a = schedulerCIDRListKey b" "no_newline a" "no_newline b"
  shows "compileSchedulerCIDRList a = compileSchedulerCIDRList b"
proof -
  have "filter (\<lambda>t. t \<noteq> []) (map TrimSpace a) = filter (\<lambda>t. t \<noteq> []) (map TrimSpace b)"
    using assms by (intro Join_inj) (auto simp: schedulerCIDRListKey_def no_newline_def)
  then show ?thesis
    unfolding compileSchedulerCIDRList_def using compile_cidrs_trim by metis
qed

lemma compile_blank: "schedulerCIDRListKey a = [] \<Longrightarrow> compileSchedulerCIDRList a = []"
proof -
  assume "schedulerCIDRListKey a = []"
  then have "filter (\<lambda>t. t \<noteq> []) (map TrimSpace a) = []"
    unfolding schedulerCIDRListKey_def by (subst (asm) Join_Nil_iff) auto
  then show ?thesis
    unfolding compileSchedulerCIDRList_def by (metis compile_cidrs.simps(1) compile_cidrs_trim)
qed

lemma cachedSchedulerCIDRList_transparent:
  assumes "cidr_cache_ok cache" "no_newline cidrs" "cachedSchedulerCIDRList cidrs cache = (r, cache')"
  shows "r = compileSchedulerCIDRList cidrs \<and> cidr_cache_ok cache'"
proof (cases "map_of cache (schedulerCIDRListKey cidrs)")
  case None
  have "cidr_cache_ok (AList.update (schedulerCIDRListKey cidrs) (compileSchedulerCIDRList cidrs) cache)"
    using assms(1,2) set_update_subset[of "schedulerCIDRListKey cidrs" "compileSchedulerCIDRList cidrs" cache]
    unfolding cidr_cache_ok_def by blast
  then show ?thesis
    using None assms by (auto simp: cachedSchedulerCIDRList_def Let_def compile_blank split: if_splits)
next
  case (Some p)
  then have "p = compileSchedulerCIDRList cidrs"
    using assms(1,2) unfolding cidr_cache_ok_def by (fastforce dest: map_of_SomeD intro: compile_key)
  then show ?thesis
    using Some assms by (auto simp: cachedSchedulerCIDRList_def Let_def compile_blank split: if_splits)
qed
section \<open>Properties\<close>

text \<open>C24: In priority mode a source is served by exactly the pools of the best level: every pool
  returned is an enabled pool of the policy that does not exclude the source and whose level (source
  network before autonomous system before operator before country before no match) is least among
  all such pools, and the name of every such pool is returned.\<close>

theorem priority_mode_spec:
  "(map_of (matchPriorityPoolsForSource pools source) n = Some p \<longrightarrow>
      p \<in> set pools \<and> pool_eligible source p \<and> normalizeNodePoolName (pool_Name p) = n
      \<and> pool_level source p = best_level source pools)
   \<and> (map_of (matchPriorityPoolsForSource pools source) n = None \<longleftrightarrow>
      (\<forall>q \<in> set pools. pool_eligible source q \<and> pool_level source q = best_level source pools \<longrightarrow>
        normalizeNodePoolName (pool_Name q) \<noteq> n))"
proof -
  let ?ps = "at_level source (best_level source pools) pools"
  have "map_of (pools_map ?ps) n = None \<longleftrightarrow> (\<forall>q \<in> set ?ps. normalizeNodePoolName (pool_Name q) \<noteq> n)"
    using pools_map_complete[of _ ?ps] pools_map_sound[of ?ps n]
    by (metis not_None_eq)
  then show ?thesis
    using pools_map_sound[of ?ps n p] by (auto simp: matchPriority_pools at_level_def)
qed

definition sample_pools :: "GSLBPoolPolicy list" where
  "sample_pools =
    [zero_GSLBPoolPolicy\<lparr>pool_Name := ''Office'', pool_SourceCIDRs := [''10.0.0.0/8''], pool_Enabled := True\<rparr>,
     zero_GSLBPoolPolicy\<lparr>pool_Name := ''china'', pool_Countries := [''cn''], pool_Enabled := True\<rparr>,
     zero_GSLBPoolPolicy\<lparr>pool_Name := ''edge'', pool_Enabled := True\<rparr>]"

definition sample_source :: SourceContext where
  "sample_source = zero_SourceContext\<lparr>src_IP := ''10.1.2.3'', src_Country := ''CN''\<rparr>"

lemma sample_pools_match:
  "map_of (matchPriorityPoolsForSource sample_pools sample_source) ''office'' = Some (hd sample_pools)"
  by code_simp

theorem priority_mode_spec_witness:
  "pool_level sample_source (hd sample_pools) = best_level sample_source sample_pools"
  using priority_mode_spec[of sample_pools sample_source "''office''" "hd sample_pools"] sample_pools_match
  by blast

text \<open>No pool that is disabled or that excludes the source is ever matched, in either mode and
  also by the fallback to global pools.\<close>

theorem excluded_pools_never_match:
  assumes "map_of (matchPoolsForSourceWithMode pools source mode) n = Some p
    \<or> map_of (globalPoolsForFallback pools source) n = Some p"
  shows "p \<in> set pools \<and> pool_Enabled p \<and> \<not> poolExcludesSource p source"
  using assms matched_pool_eligible fallback_pool_eligible by (auto simp: pool_eligible_def)

theorem excluded_pools_never_match_witness:
  "pool_Enabled (hd sample_pools) \<and> \<not> poolExcludesSource (hd sample_pools) sample_source"
proof -
  have "map_of (matchPoolsForSourceWithMode sample_pools sample_source ''priority'') ''office'' = Some (hd sample_pools)"
    by code_simp
  then show ?thesis
    using excluded_pools_never_match[of sample_pools sample_source "''priority''" "''office''" "hd sample_pools"]
    by blast
qed

text \<open>The process-wide cache of compiled source networks is transparent: from a cache that only
  this code has filled, with networks whose text has no line break, a call returns what compiling
  the list returns and leaves such a cache.\<close>

theorem cidr_cache_transparent:
  assumes "cidr_cache_ok cache" "no_newline cidrs"
  shows "fst (cachedSchedulerCIDRList cidrs cache) = compileSchedulerCIDRList cidrs
    \<and> cidr_cache_ok (snd (cachedSchedulerCIDRList cidrs cache))"
  using cachedSchedulerCIDRList_transparent[OF assms] by (metis prod.collapse)

theorem cidr_cache_transparent_witness:
  "fst (cachedSchedulerCIDRList [''10.0.0.0/8''] [(''10.0.0.0/8'', compileSchedulerCIDRList ['' 10.0.0.0/8 ''])]) =
    compileSchedulerCIDRList [''10.0.0.0/8'']"
proof -
  have k: "schedulerCIDRListKey ['' 10.0.0.0/8 ''] = ''10.0.0.0/8''" by code_simp
  have n: "no_newline ['' 10.0.0.0/8 '']" "no_newline [''10.0.0.0/8'']" unfolding no_newline_def by code_simp+
  have "cidr_cache_ok [(''10.0.0.0/8'', compileSchedulerCIDRList ['' 10.0.0.0/8 ''])]"
    unfolding cidr_cache_ok_def using k n(1) by (auto simp del: k intro!: exI[of _ "['' 10.0.0.0/8 '']"])
  from cidr_cache_transparent[OF this n(2)] show ?thesis by blast
qed

text \<open>Two lists can share a key when a text holds a line break.\<close>

lemma cidr_cache_key_collision:
  "schedulerCIDRListKey [''10.0.0.0/8'' @ [CHR 0x0A] @ ''11.0.0.0/8''] = schedulerCIDRListKey [''10.0.0.0/8'', ''11.0.0.0/8'']"
  "compileSchedulerCIDRList [''10.0.0.0/8'' @ [CHR 0x0A] @ ''11.0.0.0/8''] = []"
  "compileSchedulerCIDRList [''10.0.0.0/8'', ''11.0.0.0/8''] \<noteq> []"
  by code_simp+

end
