(* ===== verification/Go_Sort.thy ===== *)
theory Go_Sort
  imports Go_Prelude
begin

text \<open>
  The algorithms of package \<open>sort\<close> that the worker calls: \<open>sort.Search\<close>, and \<open>sort.SliceStable\<close> as the
  library runs it (insertion sort on blocks of 20, then in-place symmetric merges of neighbouring
  blocks). The exact algorithm is modelled because one comparison function of the worker is not an
  order, and then the result depends on which comparisons the algorithm makes.

  Whatever the comparison, the result is a permutation. When the comparison is a strict weak order
  (locale \<open>strict_weak_order\<close>), the result is sorted and stable.
\<close>

section \<open>Binary search\<close>

text \<open>The loop \<open>for i < j { h := (i+j)/2; if p(h) { i = h+1 } else { j = h } }\<close>.\<close>

function bsearch :: "(nat \<Rightarrow> bool) \<Rightarrow> nat \<Rightarrow> nat \<Rightarrow> nat" where
  "bsearch p i j =
    (if i < j then (let h = (i + j) div 2 in if p h then bsearch p (h + 1) j else bsearch p i h) else i)"
  by pat_completeness auto
termination
  by (relation "measure (\<lambda>(p, i, j). j - i)") (auto simp: Let_def)

declare bsearch.simps [simp del]

text \<open>\<open>sort.Search(n, f)\<close>: the least index at which \<open>f\<close> holds, when \<open>f\<close> is monotone.\<close>

definition Search :: "nat \<Rightarrow> (nat \<Rightarrow> bool) \<Rightarrow> nat" where
  "Search n f = bsearch (\<lambda>h. \<not> f h) 0 n"

lemma bsearch_bounds: "i \<le> j \<Longrightarrow> i \<le> bsearch p i j \<and> bsearch p i j \<le> j"
proof (induction p i j rule: bsearch.induct)
  case (1 p i j)
  show ?case
  proof (cases "i < j")
    case True
    let ?h = "(i + j) div 2"
    from True have h: "i \<le> ?h" "?h < j" by auto
    show ?thesis
      using "1.IH"[OF True refl] h by (subst (1 2) bsearch.simps) (auto simp: Let_def True)
  next
    case False
    with "1.prems" show ?thesis by (subst (1 2) bsearch.simps) simp
  qed
qed

text \<open>What the loop guarantees with no assumption on the predicate: it stops between a success and a
  failure.\<close>

lemma bsearch_edges:
  "i \<le> j \<Longrightarrow> (bsearch p i j = i \<or> p (bsearch p i j - 1)) \<and> (bsearch p i j = j \<or> \<not> p (bsearch p i j))"
proof (induction p i j rule: bsearch.induct)
  case (1 p i j)
  show ?case
  proof (cases "i < j")
    case True
    let ?h = "(i + j) div 2"
    from True have h: "i \<le> ?h" "?h < j" by auto
    show ?thesis
    proof (cases "p ?h")
      case True
      have "bsearch p i j = bsearch p (?h + 1) j"
        using \<open>i < j\<close> True by (subst bsearch.simps) (simp add: Let_def)
      then show ?thesis
        using "1.IH"(1)[OF \<open>i < j\<close> refl True] h True by force
    next
      case False
      have "bsearch p i j = bsearch p i ?h"
        using \<open>i < j\<close> False by (subst bsearch.simps) (simp add: Let_def)
      then show ?thesis
        using "1.IH"(2)[OF \<open>i < j\<close> refl False] h False by force
    qed
  next
    case False
    with "1.prems" show ?thesis by (simp add: bsearch.simps)
  qed
qed

lemma bsearch_monotone:
  assumes "i \<le> j" and anti: "\<And>x y. i \<le> x \<Longrightarrow> x \<le> y \<Longrightarrow> y < j \<Longrightarrow> p y \<Longrightarrow> p x"
  shows "(\<forall>x. i \<le> x \<longrightarrow> x < bsearch p i j \<longrightarrow> p x) \<and> (\<forall>x. bsearch p i j \<le> x \<longrightarrow> x < j \<longrightarrow> \<not> p x)"
proof -
  let ?r = "bsearch p i j"
  have b: "i \<le> ?r" "?r \<le> j" using bsearch_bounds[OF assms(1)] by auto
  have e: "?r = i \<or> p (?r - 1)" "?r = j \<or> \<not> p ?r" using bsearch_edges[OF assms(1)] by auto
  have "p x" if "i \<le> x" "x < ?r" for x
    using e(1) anti[of x "?r - 1"] that b by auto
  moreover have "\<not> p x" if "?r \<le> x" "x < j" for x
    using e(2) anti[of ?r x] that b by auto
  ultimately show ?thesis by blast
qed

lemma Search_le: "Search n f \<le> n"
  using bsearch_bounds[of 0 n] by (simp add: Search_def)

lemma Search_monotone:
  assumes "\<And>x y. x \<le> y \<Longrightarrow> y < n \<Longrightarrow> f x \<Longrightarrow> f y"
  shows "(\<forall>x < Search n f. \<not> f x) \<and> (\<forall>x. Search n f \<le> x \<longrightarrow> x < n \<longrightarrow> f x)"
proof -
  have "(\<forall>x. 0 \<le> x \<longrightarrow> x < bsearch (\<lambda>h. \<not> f h) 0 n \<longrightarrow> \<not> f x)
      \<and> (\<forall>x. bsearch (\<lambda>h. \<not> f h) 0 n \<le> x \<longrightarrow> x < n \<longrightarrow> \<not> \<not> f x)"
    by (rule bsearch_monotone) (use assms in blast)+
  then show ?thesis unfolding Search_def by blast
qed

section \<open>Insertion sort and the symmetric merge\<close>

text \<open>Sinking an element leftwards into the prefix before it, which is held reversed.\<close>

fun go_insert :: "('a \<Rightarrow> 'a \<Rightarrow> bool) \<Rightarrow> 'a \<Rightarrow> 'a list \<Rightarrow> 'a list" where
  "go_insert lt x [] = [x]"
| "go_insert lt x (y # ys) = (if lt x y then y # go_insert lt x ys else x # y # ys)"

definition insertionSort :: "('a \<Rightarrow> 'a \<Rightarrow> bool) \<Rightarrow> 'a list \<Rightarrow> 'a list" where
  "insertionSort lt xs = rev (foldl (\<lambda>acc x. go_insert lt x acc) [] xs)"

text \<open>Where the symmetric merge cuts: \<open>xs\<close> at the result and \<open>ys\<close> at the rest of the left half.\<close>

definition sym_cut :: "('a \<Rightarrow> 'a \<Rightarrow> bool) \<Rightarrow> 'a list \<Rightarrow> 'a list \<Rightarrow> nat" where
  "sym_cut lt xs ys =
    (let m = length xs; b = m + length ys; mid = b div 2; n = mid + m; d = xs @ ys;
         start = (if m > mid then n - b else 0); r = (if m > mid then mid else m)
     in bsearch (\<lambda>c. \<not> lt (d ! (n - 1 - c)) (d ! c)) start r)"

lemma sym_cut_bounds:
  fixes xs ys :: "'a list"
  defines "mid \<equiv> (length xs + length ys) div 2"
  shows "mid - length ys \<le> sym_cut lt xs ys \<and> sym_cut lt xs ys \<le> min (length xs) mid"
proof (cases "length xs > mid")
  case True
  then have "mid + length xs - (length xs + length ys) \<le> mid" by simp
  from bsearch_bounds[OF this] True show ?thesis
    unfolding sym_cut_def mid_def Let_def by (auto simp: min_def)
next
  case False
  have "(0::nat) \<le> length xs" by simp
  from bsearch_bounds[OF this] False show ?thesis
    unfolding sym_cut_def mid_def Let_def by (auto simp: min_def)
qed

lemma two_le_length: "xs \<noteq> [] \<Longrightarrow> length xs \<noteq> 1 \<Longrightarrow> 2 \<le> length xs"
  by (cases xs) (auto simp: Suc_le_eq)

function symMerge :: "('a \<Rightarrow> 'a \<Rightarrow> bool) \<Rightarrow> 'a list \<Rightarrow> 'a list \<Rightarrow> 'a list" where
  "symMerge lt xs ys =
    (if xs = [] \<or> ys = [] then xs @ ys
     else if length xs = 1 then
       (let i = bsearch (\<lambda>h. lt (ys ! h) (hd xs)) 0 (length ys) in take i ys @ [hd xs] @ drop i ys)
     else if length ys = 1 then
       (let i = bsearch (\<lambda>h. \<not> lt (hd ys) (xs ! h)) 0 (length xs) in take i xs @ [hd ys] @ drop i xs)
     else
       (let mid = (length xs + length ys) div 2; s = sym_cut lt xs ys; e = mid - s
        in symMerge lt (take s xs) (take e ys) @ symMerge lt (drop s xs) (drop e ys)))"
  by pat_completeness auto
termination
proof (relation "measure (\<lambda>(lt, xs, ys). length xs + length ys)", goal_cases)
  case (2 lt xs ys mid s e)
  then have "2 \<le> length xs" "2 \<le> length ys" by (auto simp: two_le_length)
  then have "mid < length xs + length ys" using 2(4) by linarith
  moreover have "length (take s xs) + length (take e ys) \<le> s + e" by simp
  moreover from 2(4-6) sym_cut_bounds[of xs ys lt] have "s + e = mid" by auto
  ultimately show ?case by (simp del: length_take)
next
  case (3 lt xs ys mid s e)
  then have "2 \<le> length xs" "2 \<le> length ys" by (auto simp: two_le_length)
  then have "2 \<le> mid" using 3(4) by linarith
  moreover from 3(4-6) sym_cut_bounds[of xs ys lt] have "s \<le> length xs" "s \<le> mid" "e \<le> length ys" "s + e = mid"
    by auto
  ultimately show ?case by (simp del: drop_all)
qed simp

declare symMerge.simps [simp del]

fun chunks :: "nat \<Rightarrow> 'a list \<Rightarrow> 'a list list" where
  "chunks k xs = (if xs = [] then [] else if k = 0 then [xs] else take k xs # chunks k (drop k xs))"

declare chunks.simps [simp del]

fun merge_pairs :: "('a \<Rightarrow> 'a \<Rightarrow> bool) \<Rightarrow> 'a list list \<Rightarrow> 'a list list" where
  "merge_pairs lt (x # y # zs) = symMerge lt x y # merge_pairs lt zs"
| "merge_pairs lt zs = zs"

lemma length_merge_pairs: "length (merge_pairs lt zs) = (length zs + 1) div 2"
  by (induction lt zs rule: merge_pairs.induct) auto

function merge_rounds :: "('a \<Rightarrow> 'a \<Rightarrow> bool) \<Rightarrow> 'a list list \<Rightarrow> 'a list" where
  "merge_rounds lt zs = (if length zs \<le> 1 then concat zs else merge_rounds lt (merge_pairs lt zs))"
  by pat_completeness auto
termination
  by (relation "measure (\<lambda>(lt, zs). length zs)") (auto simp: length_merge_pairs)

declare merge_rounds.simps [simp del]

definition SliceStable :: "('a \<Rightarrow> 'a \<Rightarrow> bool) \<Rightarrow> 'a list \<Rightarrow> 'a list" where
  "SliceStable lt xs = merge_rounds lt (map (insertionSort lt) (chunks 20 xs))"


section \<open>The result is a permutation\<close>

lemma mset_go_insert [go_sort]: "mset (go_insert lt x ys) = add_mset x (mset ys)"
  by (induction ys) auto

lemma mset_foldl_insert: "mset (foldl (\<lambda>acc x. go_insert lt x acc) acc xs) = mset acc + mset xs"
  by (induction xs arbitrary: acc) (auto simp: go_sort)

lemma mset_insertionSort [go_sort]: "mset (insertionSort lt xs) = mset xs"
  by (simp add: insertionSort_def mset_foldl_insert)

lemma mset_take_drop: "mset (take n xs) + mset (drop n xs) = mset xs"
  by (metis append_take_drop_id mset_append)

lemma mset_symMerge [go_sort]: "mset (symMerge lt xs ys) = mset xs + mset ys"
proof (induction lt xs ys rule: symMerge.induct)
  case (1 lt xs ys)
  consider "xs = [] \<or> ys = []" | "xs \<noteq> []" "ys \<noteq> []" "length xs = 1"
    | "xs \<noteq> []" "ys \<noteq> []" "length xs \<noteq> 1" "length ys = 1"
    | "xs \<noteq> []" "ys \<noteq> []" "length xs \<noteq> 1" "length ys \<noteq> 1" by blast
  then show ?case
  proof cases
    case 2
    then obtain x where "xs = [x]" by (auto simp: length_Suc_conv)
    with 2 show ?thesis
      by (subst symMerge.simps) (simp add: Let_def mset_take_drop)
  next
    case 3
    then obtain y where "ys = [y]" by (auto simp: length_Suc_conv)
    with 3 show ?thesis
      by (subst symMerge.simps) (simp add: Let_def mset_take_drop)
  next
    case 4
    let ?mid = "(length xs + length ys) div 2" and ?s = "sym_cut lt xs ys"
    have g: "\<not> (xs = [] \<or> ys = [])" using 4 by simp
    have "mset (symMerge lt xs ys) =
        mset (take ?s xs) + mset (take (?mid - ?s) ys) + (mset (drop ?s xs) + mset (drop (?mid - ?s) ys))"
      using 4 "1.IH"(1)[OF g 4(3) 4(4) refl refl refl] "1.IH"(2)[OF g 4(3) 4(4) refl refl refl]
      by (subst symMerge.simps) (simp add: Let_def)
    also have "\<dots> = (mset (take ?s xs) + mset (drop ?s xs)) + (mset (take (?mid - ?s) ys) + mset (drop (?mid - ?s) ys))"
      by (simp add: ac_simps)
    finally show ?thesis by (simp only: mset_take_drop)
  qed (auto simp: symMerge.simps)
qed

lemma mset_merge_pairs: "mset (concat (merge_pairs lt zs)) = mset (concat zs)"
  by (induction lt zs rule: merge_pairs.induct) (auto simp: go_sort)

lemma mset_merge_rounds: "mset (merge_rounds lt zs) = mset (concat zs)"
proof (induction lt zs rule: merge_rounds.induct)
  case (1 lt zs)
  then show ?case
    by (cases "length zs \<le> 1") (simp_all add: merge_rounds.simps[of lt zs] mset_merge_pairs)
qed

lemma concat_chunks: "concat (chunks k xs) = xs"
proof (induction k xs rule: chunks.induct)
  case (1 k xs)
  then show ?case by (subst chunks.simps) auto
qed

lemma mset_concat_map_insertionSort:
  "mset (concat (map (insertionSort lt) zs)) = mset (concat zs)"
  by (induction zs) (auto simp: go_sort)

lemma mset_SliceStable [go_sort]: "mset (SliceStable lt xs) = mset xs"
  by (simp add: SliceStable_def mset_merge_rounds mset_concat_map_insertionSort concat_chunks)

lemma set_SliceStable [go_sort]: "set (SliceStable lt xs) = set xs"
  by (metis mset_SliceStable set_mset_mset)

lemma length_SliceStable [go_sort]: "length (SliceStable lt xs) = length xs"
  by (metis mset_SliceStable size_mset)

lemma distinct_map_SliceStable [go_sort]: "distinct (map f (SliceStable lt xs)) = distinct (map f xs)"
  by (metis mset_SliceStable mset_map mset_eq_imp_distinct_iff)

lemma SliceStable_Nil_iff [go_sort]: "SliceStable lt xs = [] \<longleftrightarrow> xs = []"
  by (metis length_0_conv length_SliceStable)


section \<open>Strict weak orders: sorted and stable\<close>

definition same_rank :: "('a \<Rightarrow> 'a \<Rightarrow> bool) \<Rightarrow> 'a \<Rightarrow> 'a \<Rightarrow> bool" where
  "same_rank lt x y \<longleftrightarrow> \<not> lt x y \<and> \<not> lt y x"

definition in_order :: "('a \<Rightarrow> 'a \<Rightarrow> bool) \<Rightarrow> 'a list \<Rightarrow> bool" where
  "in_order lt xs \<longleftrightarrow> sorted_wrt (\<lambda>x y. \<not> lt y x) xs"

text \<open>A comparison function that is a strict weak order on the values that occur.\<close>

locale strict_weak_order =
  fixes lt :: "'a \<Rightarrow> 'a \<Rightarrow> bool" and S :: "'a set"
  assumes lt_asym: "x \<in> S \<Longrightarrow> y \<in> S \<Longrightarrow> lt x y \<Longrightarrow> \<not> lt y x"
    and lt_neg_trans: "x \<in> S \<Longrightarrow> y \<in> S \<Longrightarrow> z \<in> S \<Longrightarrow> \<not> lt x y \<Longrightarrow> \<not> lt y z \<Longrightarrow> \<not> lt x z"
begin

lemma rank_not_lt:
  assumes "k \<in> S" "x \<in> S" "y \<in> S" "same_rank lt k x" "same_rank lt k y"
  shows "\<not> lt x y"
  using assms lt_neg_trans[of x k y] by (auto simp: same_rank_def)

lemma in_order_insert:
  assumes "insert x (set acc) \<subseteq> S" and "sorted_wrt (\<lambda>a b. \<not> lt a b) acc"
  shows "sorted_wrt (\<lambda>a b. \<not> lt a b) (go_insert lt x acc)"
  using assms
proof (induction acc)
  case (Cons y ys)
  have set_ins: "set (go_insert lt x ys) = insert x (set ys)"
    by (metis mset_go_insert set_mset_add_mset_insert set_mset_mset)
  show ?case
  proof (cases "lt x y")
    case True
    with Cons show ?thesis by (auto simp: set_ins dest: lt_asym)
  next
    case False
    have "\<not> lt x z" if "z \<in> set ys" for z
      using False Cons.prems that lt_neg_trans[of x y z] by auto
    with False Cons.prems show ?thesis by auto
  qed
qed simp

lemma rank_insert:
  assumes "insert x (set acc) \<subseteq> S" and "k \<in> S"
  shows "filter (same_rank lt k) (rev (go_insert lt x acc)) =
    filter (same_rank lt k) (rev acc) @ filter (same_rank lt k) [x]"
  using assms
proof (induction acc)
  case (Cons y ys)
  show ?case
  proof (cases "lt x y")
    case True
    with Cons.prems have "\<not> (same_rank lt k x \<and> same_rank lt k y)"
      using rank_not_lt[of k x y] by auto
    with True Cons show ?thesis by auto
  next
    case False
    then show ?thesis by simp
  qed
qed simp

lemma foldl_insert_props:
  assumes "set acc \<union> set xs \<subseteq> S" and "sorted_wrt (\<lambda>a b. \<not> lt a b) acc" and "k \<in> S"
  shows "sorted_wrt (\<lambda>a b. \<not> lt a b) (foldl (\<lambda>acc x. go_insert lt x acc) acc xs) \<and>
    filter (same_rank lt k) (rev (foldl (\<lambda>acc x. go_insert lt x acc) acc xs)) =
    filter (same_rank lt k) (rev acc) @ filter (same_rank lt k) xs"
  using assms(1,2)
proof (induction xs arbitrary: acc)
  case (Cons x xs)
  have set_ins: "set (go_insert lt x acc) = insert x (set acc)"
    by (metis mset_go_insert set_mset_add_mset_insert set_mset_mset)
  have "sorted_wrt (\<lambda>a b. \<not> lt a b) (go_insert lt x acc)"
    using Cons.prems by (intro in_order_insert) auto
  moreover have "set (go_insert lt x acc) \<union> set xs \<subseteq> S"
    using Cons.prems by (auto simp: set_ins)
  ultimately show ?case
    using Cons.IH[of "go_insert lt x acc"] rank_insert[of x acc k] Cons.prems assms(3) by auto
qed simp

lemma in_order_insertionSort: "set xs \<subseteq> S \<Longrightarrow> in_order lt (insertionSort lt xs)"
proof (cases xs)
  case (Cons x xs')
  assume "set xs \<subseteq> S"
  then show ?thesis
    using foldl_insert_props[of "[]" xs x] Cons
    by (simp add: in_order_def insertionSort_def sorted_wrt_rev)
qed (simp add: in_order_def insertionSort_def)

lemma rank_insertionSort:
  "set xs \<subseteq> S \<Longrightarrow> k \<in> S \<Longrightarrow>
    filter (same_rank lt k) (insertionSort lt xs) = filter (same_rank lt k) xs"
  using foldl_insert_props[of "[]" xs k] by (simp add: insertionSort_def)

lemma not_lt_chain:
  assumes "a \<in> S" "b \<in> S" "c \<in> S" "d \<in> S" "\<not> lt a b" "\<not> lt b c" "\<not> lt c d"
  shows "\<not> lt a d"
  using assms lt_neg_trans[of a b c] lt_neg_trans[of a c d] by auto

lemma in_order_nth:
  assumes "in_order lt xs" "set xs \<subseteq> S" "i \<le> j" "j < length xs"
  shows "\<not> lt (xs ! j) (xs ! i)"
proof (cases "i = j")
  case True
  with assms have "xs ! j \<in> S" by auto
  with True show ?thesis using lt_asym[of "xs ! j" "xs ! j"] by auto
next
  case False
  with assms show ?thesis by (auto simp: in_order_def sorted_wrt_iff_nth_less)
qed

end


text \<open>How the search of the symmetric merge reads the two lists: at a cut \<open>c\<close> it compares the mirror
  element of \<open>ys\<close> with \<open>xs ! c\<close>.\<close>

lemma sym_cut_edges:
  fixes xs ys :: "'a list" and lt :: "'a \<Rightarrow> 'a \<Rightarrow> bool"
  defines "mid \<equiv> (length xs + length ys) div 2" and "s \<equiv> sym_cut lt xs ys"
  shows "(s = mid - length ys \<or> (0 < s \<and> s \<le> length xs \<and> s \<le> mid \<and> mid - s < length ys
            \<and> \<not> lt (ys ! (mid - s)) (xs ! (s - 1))))
    \<and> (s = min (length xs) mid \<or> (s < length xs \<and> s < mid \<and> mid - 1 - s < length ys
            \<and> lt (ys ! (mid - 1 - s)) (xs ! s)))"
proof -
  define m where "m = length xs"
  define b where "b = m + length ys"
  define n where "n = mid + m"
  define st where "st = (if m > mid then n - b else 0)"
  define r where "r = (if m > mid then mid else m)"
  define P where "P = (\<lambda>c. \<not> lt ((xs @ ys) ! (n - 1 - c)) ((xs @ ys) ! c))"
  have s_eq: "s = bsearch P st r"
    by (simp add: s_def sym_cut_def Let_def P_def st_def r_def n_def b_def m_def mid_def)
  have st: "st = mid - length ys" and r: "r = min (length xs) mid" and str: "st \<le> r"
    by (auto simp: st_def r_def n_def b_def m_def mid_def)
  have read: "P c \<longleftrightarrow> \<not> lt (ys ! (mid - 1 - c)) (xs ! c)" "c < length xs" "c < mid" "mid - 1 - c < length ys"
    if "st \<le> c" "c < r" for c
  proof -
    from that r show c: "c < length xs" "c < mid" by auto
    from that st c show "mid - 1 - c < length ys" by linarith
    from c have "n - 1 - c - length xs = mid - 1 - c" "length xs \<le> n - 1 - c" by (auto simp: n_def m_def)
    with c show "P c \<longleftrightarrow> \<not> lt (ys ! (mid - 1 - c)) (xs ! c)" by (simp add: P_def nth_append)
  qed
  have bd: "st \<le> s" "s \<le> r" using bsearch_bounds[OF str] by (auto simp: s_eq)
  have ed: "s = st \<or> P (s - 1)" "s = r \<or> \<not> P s" using bsearch_edges[OF str] by (auto simp: s_eq)
  have "0 < s \<and> s \<le> length xs \<and> s \<le> mid \<and> mid - s < length ys \<and> \<not> lt (ys ! (mid - s)) (xs ! (s - 1))"
    if "s \<noteq> st"
  proof -
    from that bd have c: "st \<le> s - 1" "s - 1 < r" "0 < s" by auto
    then have "mid - 1 - (s - 1) = mid - s" by simp
    with read[OF c(1,2)] ed(1) that c show ?thesis by auto
  qed
  moreover have "s < length xs \<and> s < mid \<and> mid - 1 - s < length ys \<and> lt (ys ! (mid - 1 - s)) (xs ! s)"
    if "s \<noteq> r"
    using read[of s] bd ed(2) that by auto
  ultimately show ?thesis using st r by blast
qed

context strict_weak_order begin

lemma sym_cut_split:
  fixes xs ys :: "'a list"
  defines "s \<equiv> sym_cut lt xs ys" and "e \<equiv> (length xs + length ys) div 2 - sym_cut lt xs ys"
  assumes S: "set xs \<union> set ys \<subseteq> S" and xs: "in_order lt xs" and ys: "in_order lt ys"
  shows "x \<in> set (take s xs) \<Longrightarrow> y \<in> set (drop e ys) \<Longrightarrow> \<not> lt y x"
    and "x \<in> set (drop s xs) \<Longrightarrow> y \<in> set (take e ys) \<Longrightarrow> lt y x"
proof -
  let ?mid = "(length xs + length ys) div 2"
  note ed = sym_cut_edges[of lt xs ys, folded s_def]
  have bd: "s \<le> length xs" "s \<le> ?mid" using sym_cut_bounds[of xs ys lt] by (auto simp: s_def)
  have e: "e = ?mid - s" by (simp add: e_def s_def)
  have inS: "i < length xs \<Longrightarrow> xs ! i \<in> S" "i < length ys \<Longrightarrow> ys ! i \<in> S" for i
    using S nth_mem[of i xs] nth_mem[of i ys] by auto
  {
    assume x: "x \<in> set (take s xs)" and y: "y \<in> set (drop e ys)"
    from x obtain i where i: "i < s" "x = xs ! i" using bd by (auto simp: in_set_conv_nth)
    from y obtain j where "j < length ys - e" "y = ys ! (e + j)" by (auto simp: in_set_conv_nth)
    then have j: "e + j < length ys" "y = ys ! (e + j)" by auto
    have "s \<noteq> ?mid - length ys" using i j bd e by auto
    with ed have "0 < s" "?mid - s < length ys" and c: "\<not> lt (ys ! (?mid - s)) (xs ! (s - 1))" by auto
    moreover have "\<not> lt (ys ! (e + j)) (ys ! (?mid - s))"
      using in_order_nth[OF ys, of "?mid - s" "e + j"] S j e by auto
    moreover have "\<not> lt (xs ! (s - 1)) (xs ! i)"
      using in_order_nth[OF xs, of i "s - 1"] S i bd by auto
    ultimately show "\<not> lt y x"
      using not_lt_chain[OF inS(2)[of "e + j"] inS(2)[of "?mid - s"] inS(1)[of "s - 1"] inS(1)[of i]] i j bd
      by auto
  next
    assume x: "x \<in> set (drop s xs)" and y: "y \<in> set (take e ys)"
    from x obtain i where "i < length xs - s" "x = xs ! (s + i)" by (auto simp: in_set_conv_nth)
    then have i: "s + i < length xs" "x = xs ! (s + i)" by auto
    from y obtain j where j: "j < e" "j < length ys" "y = ys ! j" by (auto simp: in_set_conv_nth)
    have "s \<noteq> min (length xs) ?mid" using i j e by auto
    with ed have k: "s < length xs" "?mid - 1 - s < length ys" and c: "lt (ys ! (?mid - 1 - s)) (xs ! s)" by auto
    have "\<not> lt (ys ! (?mid - 1 - s)) (ys ! j)"
      using in_order_nth[OF ys, of j "?mid - 1 - s"] S j k e by auto
    moreover have "\<not> lt (xs ! (s + i)) (xs ! s)"
      using in_order_nth[OF xs, of s "s + i"] S i by auto
    ultimately show "lt y x"
      using not_lt_chain[OF inS(2)[of "?mid - 1 - s"] inS(2)[of j] inS(1)[of "s + i"] inS(1)[of s]] c i j k
      by auto
  }
qed

lemma in_order_append:
  "in_order lt (xs @ ys) \<longleftrightarrow> in_order lt xs \<and> in_order lt ys \<and> (\<forall>x \<in> set xs. \<forall>y \<in> set ys. \<not> lt y x)"
  by (auto simp: in_order_def sorted_wrt_append)

lemma in_order_take: "in_order lt xs \<Longrightarrow> in_order lt (take n xs)"
  by (metis append_take_drop_id in_order_append)

lemma in_order_drop: "in_order lt xs \<Longrightarrow> in_order lt (drop n xs)"
  by (metis append_take_drop_id in_order_append)

text \<open>Inserting one element at the cut the search finds.\<close>

lemma insert_at:
  assumes S: "insert x (set ys) \<subseteq> S" and ys: "in_order lt ys" and k: "k \<in> S"
    and below: "\<And>y. y \<in> set (take i ys) \<Longrightarrow> \<not> lt x y" and above: "\<And>y. y \<in> set (drop i ys) \<Longrightarrow> \<not> lt y x"
  shows "in_order lt (take i ys @ [x] @ drop i ys)"
    and "(\<And>y. y \<in> set (take i ys) \<Longrightarrow> lt y x) \<Longrightarrow>
      filter (same_rank lt k) (take i ys @ [x] @ drop i ys) =
      filter (same_rank lt k) [x] @ filter (same_rank lt k) ys"
    and "(\<And>y. y \<in> set (drop i ys) \<Longrightarrow> lt x y) \<Longrightarrow>
      filter (same_rank lt k) (take i ys @ [x] @ drop i ys) =
      filter (same_rank lt k) ys @ filter (same_rank lt k) [x]"
proof -
  have "in_order lt (take i ys @ drop i ys)" using ys by simp
  then show "in_order lt (take i ys @ [x] @ drop i ys)"
    unfolding in_order_append using below above by (auto simp: in_order_def)
next
  have subs: "set (take i ys) \<subseteq> S" "set (drop i ys) \<subseteq> S"
    using S set_take_subset[of i ys] set_drop_subset[of i ys] by auto
  have split: "filter (same_rank lt k) ys =
      filter (same_rank lt k) (take i ys) @ filter (same_rank lt k) (drop i ys)"
    by (metis append_take_drop_id filter_append)
  {
    assume lt: "\<And>y. y \<in> set (take i ys) \<Longrightarrow> lt y x"
    have "same_rank lt k x \<Longrightarrow> filter (same_rank lt k) (take i ys) = []"
      using lt rank_not_lt[of k _ x] S k subs by (fastforce simp: filter_empty_conv)
    with split show "filter (same_rank lt k) (take i ys @ [x] @ drop i ys) =
      filter (same_rank lt k) [x] @ filter (same_rank lt k) ys" by auto
  next
    assume lt: "\<And>y. y \<in> set (drop i ys) \<Longrightarrow> lt x y"
    have "same_rank lt k x \<Longrightarrow> filter (same_rank lt k) (drop i ys) = []"
      using lt rank_not_lt[of k x] S k subs by (fastforce simp: filter_empty_conv)
    with split show "filter (same_rank lt k) (take i ys @ [x] @ drop i ys) =
      filter (same_rank lt k) ys @ filter (same_rank lt k) [x]" by auto
  }
qed


lemma set_nth_take_drop:
  "y \<in> set (take i ys) \<Longrightarrow> \<exists>h < i. h < length ys \<and> y = ys ! h"
  "y \<in> set (drop i ys) \<Longrightarrow> \<exists>h \<ge> i. h < length ys \<and> y = ys ! h"
proof -
  show "y \<in> set (take i ys) \<Longrightarrow> \<exists>h < i. h < length ys \<and> y = ys ! h"
    by (auto simp: in_set_conv_nth)
  assume "y \<in> set (drop i ys)"
  then obtain j where "j < length ys - i" "y = ys ! (i + j)" by (auto simp: in_set_conv_nth)
  then show "\<exists>h \<ge> i. h < length ys \<and> y = ys ! h" by (intro exI[of _ "i + j"]) auto
qed

lemma symMerge_one_left:
  assumes S: "insert x (set ys) \<subseteq> S" and ys: "in_order lt ys" "ys \<noteq> []" and k: "k \<in> S"
  shows "in_order lt (symMerge lt [x] ys) \<and>
    filter (same_rank lt k) (symMerge lt [x] ys) = filter (same_rank lt k) [x] @ filter (same_rank lt k) ys"
proof -
  let ?i = "bsearch (\<lambda>h. lt (ys ! h) x) 0 (length ys)"
  have eq: "symMerge lt [x] ys = take ?i ys @ [x] @ drop ?i ys"
    using ys(2) by (subst symMerge.simps) (simp add: Let_def)
  have mono: "lt (ys ! h) x" if "0 \<le> h" "h \<le> h'" "h' < length ys" "lt (ys ! h') x" for h h'
    using in_order_nth[OF ys(1) _ that(2,3)] that S lt_neg_trans[of "ys ! h'" "ys ! h" x]
    by (auto simp: subset_iff)
  have cut: "(\<forall>h. 0 \<le> h \<longrightarrow> h < ?i \<longrightarrow> lt (ys ! h) x) \<and> (\<forall>h. ?i \<le> h \<longrightarrow> h < length ys \<longrightarrow> \<not> lt (ys ! h) x)"
    by (rule bsearch_monotone) (simp, fact mono)
  have lo: "lt y x" if "y \<in> set (take ?i ys)" for y
    using cut(1) set_nth_take_drop(1)[OF that] by blast
  have hi: "\<not> lt y x" if "y \<in> set (drop ?i ys)" for y
    using cut(1) set_nth_take_drop(2)[OF that] by blast
  have lo': "\<not> lt x y" if "y \<in> set (take ?i ys)" for y
    using lo[OF that] that S set_take_subset[of ?i ys] lt_asym[of y x] by auto
  show ?thesis
    unfolding eq using insert_at(1)[OF S ys(1) k lo' hi] insert_at(2)[OF S ys(1) k lo' hi lo] by blast
qed

lemma symMerge_one_right:
  assumes S: "insert y (set xs) \<subseteq> S" and xs: "in_order lt xs" "xs \<noteq> []" "length xs \<noteq> 1" and k: "k \<in> S"
  shows "in_order lt (symMerge lt xs [y]) \<and>
    filter (same_rank lt k) (symMerge lt xs [y]) = filter (same_rank lt k) xs @ filter (same_rank lt k) [y]"
proof -
  let ?i = "bsearch (\<lambda>h. \<not> lt y (xs ! h)) 0 (length xs)"
  have eq: "symMerge lt xs [y] = take ?i xs @ [y] @ drop ?i xs"
    using xs(2,3) by (subst symMerge.simps) (simp add: Let_def)
  have mono: "\<not> lt y (xs ! h)" if "0 \<le> h" "h \<le> h'" "h' < length xs" "\<not> lt y (xs ! h')" for h h'
    using in_order_nth[OF xs(1) _ that(2,3)] that S lt_neg_trans[of y "xs ! h'" "xs ! h"]
    by (auto simp: subset_iff)
  have cut: "(\<forall>h. 0 \<le> h \<longrightarrow> h < ?i \<longrightarrow> \<not> lt y (xs ! h)) \<and> (\<forall>h. ?i \<le> h \<longrightarrow> h < length xs \<longrightarrow> \<not> \<not> lt y (xs ! h))"
    by (rule bsearch_monotone) (simp, fact mono)
  have lo: "\<not> lt y x" if "x \<in> set (take ?i xs)" for x
    using cut(1) set_nth_take_drop(1)[OF that] by blast
  have hi: "lt y x" if "x \<in> set (drop ?i xs)" for x
    using cut(1) set_nth_take_drop(2)[OF that] by blast
  have hi': "\<not> lt x y" if "x \<in> set (drop ?i xs)" for x
    using hi[OF that] that S set_drop_subset[of ?i xs] lt_asym[of y x] by auto
  show ?thesis
    unfolding eq using insert_at(1)[OF S xs(1) k lo hi'] insert_at(3)[OF S xs(1) k lo hi' hi] by blast
qed

text \<open>The symmetric merge of two sorted lists is sorted, and keeps the order of equals.\<close>

lemma symMerge_props:
  assumes "set xs \<union> set ys \<subseteq> S" and "in_order lt xs" and "in_order lt ys" and k: "k \<in> S"
  shows "in_order lt (symMerge lt xs ys) \<and>
    filter (same_rank lt k) (symMerge lt xs ys) = filter (same_rank lt k) xs @ filter (same_rank lt k) ys"
  using assms(1-3)
proof (induction "length xs + length ys" arbitrary: xs ys rule: less_induct)
  case less
  consider "xs = [] \<or> ys = []" | "ys \<noteq> []" "length xs = 1"
    | "xs \<noteq> []" "length xs \<noteq> 1" "length ys = 1"
    | "xs \<noteq> []" "ys \<noteq> []" "length xs \<noteq> 1" "length ys \<noteq> 1" by fastforce
  then show ?case
  proof cases
    case 1
    then show ?thesis using less.prems by (auto simp: symMerge.simps)
  next
    case 2
    then obtain x where "xs = [x]" by (auto simp: length_Suc_conv)
    with 2 show ?thesis using symMerge_one_left[of x ys k] less.prems k by simp
  next
    case 3
    then obtain y where "ys = [y]" by (auto simp: length_Suc_conv)
    with 3 show ?thesis using symMerge_one_right[of y xs k] less.prems k by simp
  next
    case 4
    let ?s = "sym_cut lt xs ys" and ?e = "(length xs + length ys) div 2 - sym_cut lt xs ys"
    let ?a = "take ?s xs" and ?b = "take ?e ys" and ?c = "drop ?s xs" and ?d = "drop ?e ys"
    have len: "2 \<le> length xs" "2 \<le> length ys" using 4 by (auto simp: two_le_length)
    have bd: "?s \<le> length xs" "?s + ?e = (length xs + length ys) div 2" "?e \<le> length ys"
      using sym_cut_bounds[of xs ys lt] by auto
    have m1: "length ?a + length ?b < length xs + length ys" using bd len by simp
    have m2: "length ?c + length ?d < length xs + length ys" using bd len by simp
    have sub: "set ?a \<subseteq> S" "set ?b \<subseteq> S" "set ?c \<subseteq> S" "set ?d \<subseteq> S"
      using less.prems(1) set_take_subset[of ?s xs] set_take_subset[of ?e ys]
        set_drop_subset[of ?s xs] set_drop_subset[of ?e ys] by auto
    have ih1: "in_order lt (symMerge lt ?a ?b)"
        "filter (same_rank lt k) (symMerge lt ?a ?b) = filter (same_rank lt k) ?a @ filter (same_rank lt k) ?b"
      using less.hyps[OF m1] sub less.prems in_order_take by auto
    have ih2: "in_order lt (symMerge lt ?c ?d)"
        "filter (same_rank lt k) (symMerge lt ?c ?d) = filter (same_rank lt k) ?c @ filter (same_rank lt k) ?d"
      using less.hyps[OF m2] sub less.prems in_order_drop by auto
    have eq: "symMerge lt xs ys = symMerge lt ?a ?b @ symMerge lt ?c ?d"
      using 4 by (subst symMerge.simps) (simp add: Let_def)
    note cut = sym_cut_split[OF less.prems]
    have cross: "\<not> lt v u" if "u \<in> set ?a \<union> set ?b" "v \<in> set ?c \<union> set ?d" for u v
      using that cut(1)[of u v] cut(2)[of v u] less.prems(2,3) sub lt_asym[of u v]
        in_order_append[of ?a ?c] in_order_append[of ?b ?d] by auto
    have sets: "set (symMerge lt ?a ?b) = set ?a \<union> set ?b" "set (symMerge lt ?c ?d) = set ?c \<union> set ?d"
      by (metis mset_symMerge set_mset_mset set_mset_union)+
    have ord: "in_order lt (symMerge lt xs ys)"
      unfolding eq in_order_append using ih1(1) ih2(1) cross sets by blast
    have "filter (same_rank lt k) ?b = [] \<or> filter (same_rank lt k) ?c = []"
    proof (rule ccontr)
      assume "\<not> ?thesis"
      then obtain u v where "u \<in> set ?b" "v \<in> set ?c" "same_rank lt k u" "same_rank lt k v"
        by (auto simp: filter_empty_conv)
      with cut(2)[of v u] rank_not_lt[of k u v] sub k show False by auto
    qed
    then have "filter (same_rank lt k) ?b @ filter (same_rank lt k) ?c =
        filter (same_rank lt k) ?c @ filter (same_rank lt k) ?b" by auto
    then have "filter (same_rank lt k) (symMerge lt xs ys) =
        (filter (same_rank lt k) ?a @ filter (same_rank lt k) ?c)
        @ (filter (same_rank lt k) ?b @ filter (same_rank lt k) ?d)"
      unfolding eq by (simp add: ih1(2) ih2(2))
    with ord show ?thesis by (metis append_take_drop_id filter_append)
  qed
qed


lemma merge_pairs_props:
  assumes "\<forall>z \<in> set zs. set z \<subseteq> S \<and> in_order lt z" and k: "k \<in> S"
  shows "(\<forall>z \<in> set (merge_pairs lt zs). set z \<subseteq> S \<and> in_order lt z) \<and>
    filter (same_rank lt k) (concat (merge_pairs lt zs)) = filter (same_rank lt k) (concat zs)"
  using assms(1)
proof (induction zs rule: induct_list012)
  case (3 x y zs)
  have "set (symMerge lt x y) = set x \<union> set y"
    by (metis mset_symMerge set_mset_mset set_mset_union)
  moreover have "in_order lt (symMerge lt x y) \<and>
      filter (same_rank lt k) (symMerge lt x y) = filter (same_rank lt k) x @ filter (same_rank lt k) y"
    using "3.prems" k by (intro symMerge_props) simp_all
  moreover have "(\<forall>z \<in> set (merge_pairs lt zs). set z \<subseteq> S \<and> in_order lt z) \<and>
      filter (same_rank lt k) (concat (merge_pairs lt zs)) = filter (same_rank lt k) (concat zs)"
    using "3.prems" by (intro 3(1)) simp
  ultimately show ?case using "3.prems" by simp
qed auto

lemma merge_rounds_props:
  assumes "\<forall>z \<in> set zs. set z \<subseteq> S \<and> in_order lt z" and k: "k \<in> S"
  shows "in_order lt (merge_rounds lt zs) \<and>
    filter (same_rank lt k) (merge_rounds lt zs) = filter (same_rank lt k) (concat zs)"
  using assms(1)
proof (induction "length zs" arbitrary: zs rule: less_induct)
  case less
  show ?case
  proof (cases "length zs \<le> 1")
    case True
    then have "zs = [] \<or> (\<exists>z. zs = [z])" by (cases zs) auto
    moreover have "merge_rounds lt zs = concat zs" using True by (simp add: merge_rounds.simps[of lt zs])
    ultimately show ?thesis using less.prems by (auto simp: in_order_def)
  next
    case False
    then have "length (merge_pairs lt zs) < length zs" by (simp add: length_merge_pairs)
    from less.hyps[OF this] merge_pairs_props[OF less.prems k] False
    show ?thesis by (simp add: merge_rounds.simps[of lt zs])
  qed
qed

lemma chunks_subset: "z \<in> set (chunks n xs) \<Longrightarrow> set z \<subseteq> set xs"
  by (metis concat_chunks set_concat UN_upper)

lemma filter_concat_insertionSort:
  assumes "\<forall>z \<in> set zs. set z \<subseteq> S" and "k \<in> S"
  shows "filter (same_rank lt k) (concat (map (insertionSort lt) zs)) = filter (same_rank lt k) (concat zs)"
  using assms by (induction zs) (auto simp: rank_insertionSort)

lemma SliceStable_blocks:
  assumes "set xs \<subseteq> S"
  shows "\<forall>z \<in> set (map (insertionSort lt) (chunks 20 xs)). set z \<subseteq> S \<and> in_order lt z"
proof -
  have "set (insertionSort lt z) \<subseteq> S \<and> in_order lt (insertionSort lt z)" if "z \<in> set (chunks 20 xs)" for z
    using chunks_subset[OF that] assms in_order_insertionSort[of z]
    by (metis mset_insertionSort order_trans set_mset_mset)
  then show ?thesis by simp
qed

lemma in_order_SliceStable:
  assumes "set xs \<subseteq> S"
  shows "in_order lt (SliceStable lt xs)"
proof (cases xs)
  case Nil
  then show ?thesis by (simp add: SliceStable_def chunks.simps merge_rounds.simps in_order_def)
next
  case (Cons x xs')
  with assms merge_rounds_props[OF SliceStable_blocks[OF assms], of x] show ?thesis
    by (auto simp: SliceStable_def)
qed

lemma stable_SliceStable:
  assumes "set xs \<subseteq> S" and "k \<in> S"
  shows "filter (same_rank lt k) (SliceStable lt xs) = filter (same_rank lt k) xs"
proof -
  have "\<forall>z \<in> set (chunks 20 xs). set z \<subseteq> S" using chunks_subset assms(1) by blast
  from filter_concat_insertionSort[OF this assms(2)]
    merge_rounds_props[OF SliceStable_blocks[OF assms(1)] assms(2)]
  show ?thesis by (simp add: SliceStable_def concat_chunks)
qed

end

text \<open>Comparing by a key in a linear order is a strict weak order on everything.\<close>

lemma strict_weak_order_key: "strict_weak_order (\<lambda>x y. f x < (f y :: 'b :: linorder)) UNIV"
  by unfold_locales auto

lemma strict_weak_order_on_key:
  fixes f :: "'a \<Rightarrow> 'b :: linorder"
  assumes "\<And>x y. x \<in> S \<Longrightarrow> y \<in> S \<Longrightarrow> lt x y \<longleftrightarrow> f x < f y"
  shows "strict_weak_order lt S"
  using assms by unfold_locales auto

lemma in_order_key: "in_order (\<lambda>x y. f x < (f y :: 'b :: linorder)) xs \<longleftrightarrow> sorted (map f xs)"
  by (simp add: in_order_def sorted_map not_less)

interpretation go_strings: strict_weak_order "(<) :: string \<Rightarrow> string \<Rightarrow> bool" UNIV
  by unfold_locales auto

end
