(* ===== verification/Candidates.thy ===== *)
theory Candidates
  imports Pool_Match Go_Sort "HOL-Library.Product_Lexorder"
begin

text \<open>
  The candidate targets of a query (\<open>scheduler.go\<close>: \<open>buildCandidates\<close>, \<open>candidatesForPools\<close>, the guards on
  nodes and addresses, scoring and \<open>sortCandidates\<close>). Shown: every candidate is a public address of
  the right family of a node that may be scheduled, in an enabled pool that does not exclude the
  source; no address occurs twice; scores lie between 0 and the weight product and the probe factor
  between 1/4 and 1; the comparison of \<open>sortCandidates\<close> is a strict weak order on candidates that all
  have, or all lack, a measured probe time, and is not one on mixed candidates.
\<close>

record targetCandidate =
  cand_NodeID :: string
  cand_PoolName :: string
  cand_Content :: string
  cand_NodeWeight :: int
  cand_PoolWeight :: int
  cand_LastSeenAt :: gotime
  cand_OpenrestyConnections :: int
  cand_CPUUsagePercent :: float64
  cand_MemoryUsagePercent :: float64
  cand_HasMetric :: bool
  cand_DNSProbeHealthy :: bool
  cand_DNSProbeCheckedCount :: int
  cand_DNSProbeHealthyCount :: int
  cand_DNSProbeStaleCount :: int
  cand_DNSProbeAverageRTTMs :: float64
  cand_Score :: float64

section \<open>Guards\<close>

definition isNodeSchedulable :: "SnapshotNode \<Rightarrow> bool" where
  "isNodeSchedulable node \<longleftrightarrow>
    \<not> (node_DrainMode node \<or> \<not> node_SchedulingEnabled node)
    \<and> ToLower (TrimSpace (node_Status node)) = ''online''
    \<and> ToLower (TrimSpace (node_OpenrestyStatus node)) \<noteq> ''unhealthy''
    \<and> length (node_PublicIPs node) > 0"

text \<open>\<open>None\<close> is a nil \<open>net.IP\<close>; \<open>public_unicast\<close> is the condition on the shortened address.\<close>

definition public_unicast :: "net_ip \<Rightarrow> bool" where
  "public_unicast ip \<longleftrightarrow>
    \<not> (\<not> IsGlobalUnicast ip \<or> IsLoopback ip \<or> IsPrivate ip \<or> IsLinkLocalUnicast ip
       \<or> IsMulticast ip \<or> IsUnspecified ip)"

definition isPublicIP :: "net_ip option \<Rightarrow> bool" where
  "isPublicIP ip = (case ip of None \<Rightarrow> False | Some ip \<Rightarrow> public_unicast (shorten ip))"

definition metricWithinThresholds :: "SnapshotNode \<Rightarrow> GSLBLoadThresholds \<Rightarrow> bool" where
  "metricWithinThresholds node thresholds \<longleftrightarrow>
    \<not> (lt_MaxOpenrestyConnections thresholds > 0
       \<and> node_OpenrestyConnections node > lt_MaxOpenrestyConnections thresholds)
    \<and> \<not> (lt_MaxCPUPercent thresholds > 0 \<and> node_CPUUsagePercent node > lt_MaxCPUPercent thresholds)
    \<and> \<not> (lt_MaxMemoryPercent thresholds > 0 \<and> node_MemoryUsagePercent node > lt_MaxMemoryPercent thresholds)"

definition poolAllowsNode :: "GSLBPoolPolicy \<Rightarrow> string \<Rightarrow> bool" where
  "poolAllowsNode pool nodeID =
    (if length (pool_NodeIDs pool) = 0 then True
     else
       (let nodeID = TrimSpace nodeID
        in if nodeID = [] then False
           else list_ex (\<lambda>allowed. TrimSpace allowed = nodeID) (pool_NodeIDs pool)))"

section \<open>Scores\<close>

definition clampFloat :: "float64 \<Rightarrow> float64 \<Rightarrow> float64 \<Rightarrow> float64" where
  "clampFloat value minValue maxValue =
    (if value < minValue then minValue else if value > maxValue then maxValue else value)"

text \<open>The two factors of the probe counts, and the factor of the probe time.\<close>

definition probe_count_factor :: "int \<Rightarrow> int \<Rightarrow> int \<Rightarrow> float64 \<Rightarrow> float64" where
  "probe_count_factor checkedCount healthyCount staleCount factor =
    (if checkedCount > 0 then
       fmul
         (fmul factor
           (fadd (1 / 2) (fmul (1 / 2) (clampFloat (fdiv (fint healthyCount) (fint checkedCount)) 0 1))))
         (fsub 1 (fmul (min (clampFloat (fdiv (fint staleCount) (fint checkedCount)) 0 1) (1 / 2)) (fl (1 / 5))))
     else factor)"

definition probe_time_factor :: "float64 \<Rightarrow> float64 \<Rightarrow> float64" where
  "probe_time_factor averageRTTMs factor =
    (if averageRTTMs > 0
     then fmul factor (clampFloat (fdiv 200 (fadd 200 averageRTTMs)) (1 / 4) 1) else factor)"

definition dnsProbeQualityFactor :: "bool \<Rightarrow> int \<Rightarrow> int \<Rightarrow> int \<Rightarrow> float64 \<Rightarrow> float64" where
  "dnsProbeQualityFactor healthy checkedCount healthyCount staleCount averageRTTMs =
    (if \<not> healthy then 1
     else clampFloat
       (probe_time_factor averageRTTMs (probe_count_factor checkedCount healthyCount staleCount 1)) (1 / 4) 1)"

text \<open>The weight product, at least 1, and the penalty that the load adds up.\<close>

definition score_base :: "targetCandidate \<Rightarrow> float64" where
  "score_base c =
    (if fint (cand_NodeWeight c * cand_PoolWeight c) \<le> 0 then 1
     else fint (cand_NodeWeight c * cand_PoolWeight c))"

definition add_penalty :: "float64 \<Rightarrow> float64 \<Rightarrow> float64" where
  "add_penalty load penalty = (if load > 0 then fadd penalty (fdiv load 100) else penalty)"

definition load_penalty :: "targetCandidate \<Rightarrow> float64" where
  "load_penalty c =
    add_penalty (cand_MemoryUsagePercent c)
      (add_penalty (cand_CPUUsagePercent c) (add_penalty (fint (cand_OpenrestyConnections c)) 1))"

definition scoreCandidate :: "targetCandidate \<Rightarrow> string \<Rightarrow> float64" where
  "scoreCandidate c strategy =
    fmul (if strategy = ''load_aware'' then fdiv (score_base c) (load_penalty c) else score_base c)
      (dnsProbeQualityFactor (cand_DNSProbeHealthy c) (cand_DNSProbeCheckedCount c)
        (cand_DNSProbeHealthyCount c) (cand_DNSProbeStaleCount c) (cand_DNSProbeAverageRTTMs c))"

section \<open>Order\<close>

text \<open>The comparison function of \<open>sortCandidates\<close>.\<close>

definition candidate_less :: "string \<Rightarrow> targetCandidate \<Rightarrow> targetCandidate \<Rightarrow> bool" where
  "candidate_less strategy left right =
    (if strategy = ''load_aware'' \<and> cand_HasMetric left \<noteq> cand_HasMetric right then cand_HasMetric left
     else if (strategy = ''weighted'' \<or> strategy = ''load_aware'') \<and> cand_Score left \<noteq> cand_Score right
     then cand_Score left > cand_Score right
     else if strategy = ''load_aware'' \<and> cand_OpenrestyConnections left \<noteq> cand_OpenrestyConnections right
     then cand_OpenrestyConnections left < cand_OpenrestyConnections right
     else if cand_DNSProbeHealthy left \<and> cand_DNSProbeHealthy right
       \<and> cand_DNSProbeAverageRTTMs left > 0 \<and> cand_DNSProbeAverageRTTMs right > 0
       \<and> cand_DNSProbeAverageRTTMs left \<noteq> cand_DNSProbeAverageRTTMs right
     then cand_DNSProbeAverageRTTMs left < cand_DNSProbeAverageRTTMs right
     else if cand_LastSeenAt left \<noteq> cand_LastSeenAt right then cand_LastSeenAt left > cand_LastSeenAt right
     else if cand_NodeID left \<noteq> cand_NodeID right then cand_NodeID left < cand_NodeID right
     else cand_Content left < cand_Content right)"

definition sortCandidates :: "targetCandidate list \<Rightarrow> string \<Rightarrow> targetCandidate list" where
  "sortCandidates candidates strategy = SliceStable (candidate_less strategy) candidates"

section \<open>Candidates\<close>

text \<open>The pool of a node, when none of the guards of the loop skips the node.\<close>

definition candidate_pool :: "Snapshot \<Rightarrow> GSLBPolicy \<Rightarrow> pool_map \<Rightarrow> SnapshotNode \<Rightarrow> GSLBPoolPolicy option" where
  "candidate_pool snapshot policy pools node =
    (case map_of pools (normalizeNodePoolName (node_PoolName node)) of
       None \<Rightarrow> None
     | Some pool \<Rightarrow>
         if \<not> isNodeSchedulable node \<or> \<not> metricWithinThresholds node (pol_LoadThresholds policy) then None
         else if \<not> poolAllowsNode pool (node_NodeID node) then None
         else if snap_GSLBProbeSchedulingEnabled snapshot \<and> \<not> node_DNSProbeHealthy node then None
         else Some pool)"

text \<open>The address of one entry of \<open>PublicIPs\<close>, when none of the guards skips it.\<close>

definition target_text :: "string \<Rightarrow> net_ip \<Rightarrow> string option" where
  "target_text recordType ip =
    (if \<not> isPublicIP (Some ip) then None
     else if recordType = ''A'' \<and> To4 ip = None then None
     else if recordType = ''AAAA'' \<and> To4 ip \<noteq> None then None
     else Some (IP_String ip))"

definition target_content :: "string \<Rightarrow> string \<Rightarrow> string option" where
  "target_content recordType value =
    (case ParseIP (TrimSpace value) of
       None \<Rightarrow> None
     | Some ip \<Rightarrow> target_text recordType (shorten ip))"

definition base_candidate ::
  "bool \<Rightarrow> GSLBPoolPolicy \<Rightarrow> SnapshotNode \<Rightarrow> string \<Rightarrow> targetCandidate" where
  "base_candidate probing pool node content =
    \<lparr>cand_NodeID = node_NodeID node,
     cand_PoolName = normalizeNodePoolName (node_PoolName node),
     cand_Content = content,
     cand_NodeWeight = normalizeWeight (node_Weight node),
     cand_PoolWeight = normalizeWeight (pool_Weight pool),
     cand_LastSeenAt = node_LastSeenAt node,
     cand_OpenrestyConnections = node_OpenrestyConnections node,
     cand_CPUUsagePercent = node_CPUUsagePercent node,
     cand_MemoryUsagePercent = node_MemoryUsagePercent node,
     cand_HasMetric = (node_MetricCapturedAt node \<noteq> None),
     cand_DNSProbeHealthy = (if probing then node_DNSProbeHealthy node else False),
     cand_DNSProbeCheckedCount = (if probing then node_DNSProbeCheckedCount node else 0),
     cand_DNSProbeHealthyCount = (if probing then node_DNSProbeHealthyCount node else 0),
     cand_DNSProbeStaleCount = (if probing then node_DNSProbeStaleCount node else 0),
     cand_DNSProbeAverageRTTMs = (if probing then node_DNSProbeAverageRTTMs node else 0),
     cand_Score = 0\<rparr>"

definition with_score :: "string \<Rightarrow> targetCandidate \<Rightarrow> targetCandidate" where
  "with_score strategy c = c\<lparr>cand_Score := scoreCandidate c strategy\<rparr>"

definition make_candidate ::
  "Snapshot \<Rightarrow> GSLBPolicy \<Rightarrow> GSLBPoolPolicy \<Rightarrow> SnapshotNode \<Rightarrow> string \<Rightarrow> targetCandidate" where
  "make_candidate snapshot policy pool node content =
    with_score (pol_Strategy policy)
      (base_candidate (snap_GSLBProbeSchedulingEnabled snapshot) pool node content)"

text \<open>The two nested loops; the set \<open>seen\<close> is the contents of the candidates so far.\<close>

definition add_target ::
  "Snapshot \<Rightarrow> string \<Rightarrow> GSLBPolicy \<Rightarrow> GSLBPoolPolicy \<Rightarrow> SnapshotNode \<Rightarrow> targetCandidate list \<Rightarrow> string
    \<Rightarrow> targetCandidate list" where
  "add_target snapshot recordType policy pool node acc value =
    (case target_content recordType value of
       None \<Rightarrow> acc
     | Some content \<Rightarrow>
         if content \<in> set (map cand_Content acc) then acc
         else acc @ [make_candidate snapshot policy pool node content])"

definition add_node ::
  "Snapshot \<Rightarrow> string \<Rightarrow> GSLBPolicy \<Rightarrow> pool_map \<Rightarrow> targetCandidate list \<Rightarrow> SnapshotNode \<Rightarrow> targetCandidate list" where
  "add_node snapshot recordType policy pools acc node =
    (case candidate_pool snapshot policy pools node of
       None \<Rightarrow> acc
     | Some pool \<Rightarrow> foldl (add_target snapshot recordType policy pool node) acc (node_PublicIPs node))"

definition candidatesForPools :: "Snapshot \<Rightarrow> string \<Rightarrow> GSLBPolicy \<Rightarrow> pool_map \<Rightarrow> targetCandidate list" where
  "candidatesForPools snapshot recordType policy pools =
    sortCandidates (foldl (add_node snapshot recordType policy pools) [] (snap_Nodes snapshot)) (pol_Strategy policy)"

text \<open>The candidates of the matched pools, or of the global pools when there are none.\<close>

definition or_fallback ::
  "Snapshot \<Rightarrow> string \<Rightarrow> GSLBPolicy \<Rightarrow> SourceContext \<Rightarrow> pool_map \<Rightarrow> targetCandidate list \<Rightarrow> targetCandidate list" where
  "or_fallback snapshot recordType policy source pools candidates =
    (if length candidates = 0
       \<and> normalizeSourcePoolFallbackMode (pol_SourcePoolFallbackMode policy) = ''fallback_to_global''
       \<and> matchedHasSourceCondition pools
     then (case candidatesForPools snapshot recordType policy (globalPoolsForFallback (pol_Pools policy) source) of
         [] \<Rightarrow> candidates
       | c # cs \<Rightarrow> c # cs)
     else candidates)"

definition buildCandidates ::
  "Snapshot option \<Rightarrow> string \<Rightarrow> GSLBPolicy \<Rightarrow> SourceContext \<Rightarrow> targetCandidate list" where
  "buildCandidates snapshot recordType policy source =
    (case snapshot of
       None \<Rightarrow> []
     | Some snapshot \<Rightarrow>
         or_fallback snapshot recordType policy source
           (matchPoolsForSourceWithMode (pol_Pools policy) source (pol_PoolMatchMode policy))
           (candidatesForPools snapshot recordType policy
             (matchPoolsForSourceWithMode (pol_Pools policy) source (pol_PoolMatchMode policy))))"

definition hasCandidatesWithoutDNSProbe :: "Snapshot option \<Rightarrow> string \<Rightarrow> GSLBPolicy \<Rightarrow> SourceContext \<Rightarrow> bool" where
  "hasCandidatesWithoutDNSProbe snapshot recordType policy source =
    (case snapshot of
       None \<Rightarrow> False
     | Some snapshot \<Rightarrow>
         length (buildCandidates (Some (snapshot\<lparr>snap_GSLBProbeSchedulingEnabled := False\<rparr>))
           recordType policy source) > 0)"

section \<open>Where candidates come from\<close>

definition candidate_from ::
  "Snapshot \<Rightarrow> string \<Rightarrow> GSLBPolicy \<Rightarrow> pool_map \<Rightarrow> SnapshotNode list \<Rightarrow> targetCandidate \<Rightarrow> bool" where
  "candidate_from snapshot recordType policy pools nodes c \<longleftrightarrow>
    (\<exists>node \<in> set nodes. \<exists>pool. \<exists>value \<in> set (node_PublicIPs node).
      candidate_pool snapshot policy pools node = Some pool
      \<and> target_content recordType value = Some (cand_Content c)
      \<and> c = make_candidate snapshot policy pool node (cand_Content c))"

lemma make_candidate_Content [simp]: "cand_Content (make_candidate s p pool node t) = t"
  by (simp add: make_candidate_def with_score_def base_candidate_def)

lemma add_targets_members:
  "c \<in> set (foldl (add_target s rt p pool node) acc vs) \<Longrightarrow>
    c \<in> set acc \<or> (\<exists>v \<in> set vs. target_content rt v = Some (cand_Content c)
      \<and> c = make_candidate s p pool node (cand_Content c))"
  by (induction vs arbitrary: acc) (fastforce simp: add_target_def split: option.splits if_splits)+

lemma add_targets_contents:
  "set (map cand_Content (foldl (add_target s rt p pool node) acc vs)) =
    set (map cand_Content acc) \<union> {t. \<exists>v \<in> set vs. target_content rt v = Some t}"
  by (induction vs arbitrary: acc) (auto simp: add_target_def split: option.splits)

lemma add_targets_distinct:
  "distinct (map cand_Content acc) \<Longrightarrow> distinct (map cand_Content (foldl (add_target s rt p pool node) acc vs))"
  by (induction vs arbitrary: acc) (auto simp: add_target_def split: option.splits)

lemma add_nodes_members:
  "c \<in> set (foldl (add_node s rt p pools) acc nodes) \<Longrightarrow> c \<in> set acc \<or> candidate_from s rt p pools nodes c"
proof (induction nodes arbitrary: acc)
  case (Cons node nodes)
  then have "c \<in> set (add_node s rt p pools acc node) \<or> candidate_from s rt p pools nodes c" by simp
  then show ?case
  proof
    assume "c \<in> set (add_node s rt p pools acc node)"
    then show ?thesis
      by (auto simp: add_node_def candidate_from_def split: option.splits dest!: add_targets_members)
  qed (auto simp: candidate_from_def)
qed simp

lemma add_nodes_distinct:
  "distinct (map cand_Content acc) \<Longrightarrow> distinct (map cand_Content (foldl (add_node s rt p pools) acc nodes))"
  by (induction nodes arbitrary: acc) (auto simp: add_node_def add_targets_distinct split: option.splits)

lemma add_node_contents:
  "set (map cand_Content (add_node s rt p pools acc node)) = set (map cand_Content acc) \<union>
    (if candidate_pool s p pools node = None then {} 
     else {t. \<exists>v \<in> set (node_PublicIPs node). target_content rt v = Some t})"
  by (auto simp: add_node_def add_targets_contents[unfolded set_map] split: option.splits)

lemma add_nodes_contents:
  "set (map cand_Content (foldl (add_node s rt p pools) acc nodes)) = set (map cand_Content acc) \<union>
    {t. \<exists>node \<in> set nodes. candidate_pool s p pools node \<noteq> None
      \<and> (\<exists>v \<in> set (node_PublicIPs node). target_content rt v = Some t)}"
  by (induction nodes arbitrary: acc) (auto simp: add_node_contents[unfolded set_map] split: if_splits)

lemma candidatesForPools_from:
  "c \<in> set (candidatesForPools s rt p pools) \<Longrightarrow> candidate_from s rt p pools (snap_Nodes s) c"
  by (auto simp: candidatesForPools_def sortCandidates_def go_sort dest!: add_nodes_members)

lemma candidatesForPools_distinct: "distinct (map cand_Content (candidatesForPools s rt p pools))"
  by (simp add: candidatesForPools_def sortCandidates_def go_sort add_nodes_distinct)

lemma candidatesForPools_contents:
  "cand_Content ` set (candidatesForPools s rt p pools) =
    {t. \<exists>node \<in> set (snap_Nodes s). candidate_pool s p pools node \<noteq> None
      \<and> (\<exists>v \<in> set (node_PublicIPs node). target_content rt v = Some t)}"
  using add_nodes_contents[of s rt p pools "[]" "snap_Nodes s"]
  by (simp add: candidatesForPools_def sortCandidates_def go_sort)

section \<open>What a candidate satisfies\<close>

definition public_target :: "string \<Rightarrow> string \<Rightarrow> bool" where
  "public_target recordType t \<longleftrightarrow>
    (\<exists>ip. t = IP_String ip \<and> isPublicIP (Some ip)
      \<and> (recordType = ''A'' \<longrightarrow> To4 ip \<noteq> None) \<and> (recordType = ''AAAA'' \<longrightarrow> To4 ip = None))"

lemma target_content_public: "target_content rt v = Some t \<Longrightarrow> public_target rt t"
  unfolding public_target_def target_content_def target_text_def
  by (auto split: option.splits if_splits simp del: IP_String_shorten)

text \<open>A target that the policy allows for the source: a public address of a node that may serve it.\<close>

definition servable ::
  "Snapshot \<Rightarrow> string \<Rightarrow> GSLBPolicy \<Rightarrow> SourceContext \<Rightarrow> string \<Rightarrow> bool" where
  "servable snapshot recordType policy source t \<longleftrightarrow>
    public_target recordType t
    \<and> (\<exists>node \<in> set (snap_Nodes snapshot). \<exists>pool \<in> set (pol_Pools policy).
        isNodeSchedulable node \<and> metricWithinThresholds node (pol_LoadThresholds policy)
        \<and> (snap_GSLBProbeSchedulingEnabled snapshot \<longrightarrow> node_DNSProbeHealthy node)
        \<and> (\<exists>v \<in> set (node_PublicIPs node). target_content recordType v = Some t)
        \<and> normalizeNodePoolName (pool_Name pool) = normalizeNodePoolName (node_PoolName node)
        \<and> pool_eligible source pool \<and> poolAllowsNode pool (node_NodeID node))"

lemma candidate_from_servable:
  assumes "candidate_from s rt p pools (snap_Nodes s) c"
    and "\<And>n pool. map_of pools n = Some pool \<Longrightarrow>
      pool \<in> set (pol_Pools p) \<and> pool_eligible source pool \<and> normalizeNodePoolName (pool_Name pool) = n"
  shows "servable s rt p source (cand_Content c)"
proof -
  from assms(1) obtain node pool v where n: "node \<in> set (snap_Nodes s)" "v \<in> set (node_PublicIPs node)"
    "candidate_pool s p pools node = Some pool" "target_content rt v = Some (cand_Content c)"
    by (auto simp: candidate_from_def)
  from n(3) have "map_of pools (normalizeNodePoolName (node_PoolName node)) = Some pool"
    and g: "isNodeSchedulable node" "metricWithinThresholds node (pol_LoadThresholds p)"
      "poolAllowsNode pool (node_NodeID node)"
      "snap_GSLBProbeSchedulingEnabled s \<longrightarrow> node_DNSProbeHealthy node"
    by (auto simp: candidate_pool_def split: option.splits if_splits)
  from assms(2)[OF this(1)] g n show ?thesis
    unfolding servable_def using target_content_public by blast
qed

lemma buildCandidates_cases:
  "buildCandidates (Some s) rt p source = candidatesForPools s rt p
      (matchPoolsForSourceWithMode (pol_Pools p) source (pol_PoolMatchMode p))
   \<or> buildCandidates (Some s) rt p source = candidatesForPools s rt p (globalPoolsForFallback (pol_Pools p) source)"
  by (auto simp: buildCandidates_def or_fallback_def split: list.splits)

lemma buildCandidates_servable:
  "c \<in> set (buildCandidates (Some s) rt p source) \<Longrightarrow> servable s rt p source (cand_Content c)"
proof -
  assume c: "c \<in> set (buildCandidates (Some s) rt p source)"
  from buildCandidates_cases[of s rt p source] show ?thesis
  proof
    assume "buildCandidates (Some s) rt p source = candidatesForPools s rt p
      (matchPoolsForSourceWithMode (pol_Pools p) source (pol_PoolMatchMode p))"
    with c show ?thesis
      by (intro candidate_from_servable[OF candidatesForPools_from]) (auto dest: matched_pool_eligible)
  next
    assume "buildCandidates (Some s) rt p source = candidatesForPools s rt p (globalPoolsForFallback (pol_Pools p) source)"
    with c show ?thesis
      by (intro candidate_from_servable[OF candidatesForPools_from]) (auto dest: fallback_pool_eligible)
  qed
qed

lemma buildCandidates_distinct: "distinct (map cand_Content (buildCandidates s rt p source))"
proof (cases s)
  case (Some snap)
  then show ?thesis
    using buildCandidates_cases[of snap rt p source] by (auto simp: candidatesForPools_distinct)
qed (simp add: buildCandidates_def)

section \<open>Bounds of scores\<close>

lemma clampFloat_bounds: "lo \<le> hi \<Longrightarrow> lo \<le> clampFloat x lo hi \<and> clampFloat x lo hi \<le> hi"
  by (simp add: clampFloat_def)

lemma dnsProbeQualityFactor_bounds:
  "1 / 4 \<le> dnsProbeQualityFactor h n k s r \<and> dnsProbeQualityFactor h n k s r \<le> 1"
proof (cases h)
  case True
  then have "\<exists>x. dnsProbeQualityFactor h n k s r = clampFloat x (1 / 4) 1"
    unfolding dnsProbeQualityFactor_def by (simp only: not_True_eq_False if_False) blast
  then show ?thesis using clampFloat_bounds[of "1 / 4" 1] by auto
qed (simp add: dnsProbeQualityFactor_def)

lemma add_penalty_ge_one: "1 \<le> p \<Longrightarrow> 1 \<le> add_penalty x p"
  unfolding add_penalty_def fadd_def
  by (auto intro!: is_float_lower is_float_one fl_nonneg add_increasing2 simp: fdiv_def)

lemma load_penalty_ge_one: "1 \<le> load_penalty c"
  unfolding load_penalty_def by (intro add_penalty_ge_one) simp

lemma scoreCandidate_bounds:
  assumes "1 \<le> cand_NodeWeight c" "cand_NodeWeight c \<le> 1000" "1 \<le> cand_PoolWeight c" "cand_PoolWeight c \<le> 1000"
  shows "0 < scoreCandidate c strategy
    \<and> scoreCandidate c strategy \<le> of_int (cand_NodeWeight c * cand_PoolWeight c)"
proof -
  define w where "w = cand_NodeWeight c * cand_PoolWeight c"
  have w1: "1 \<le> w" using mult_mono[of 1 "cand_NodeWeight c" 1 "cand_PoolWeight c"] assms by (simp add: w_def)
  have "w \<le> 1000 * 1000" unfolding w_def using assms by (intro mult_mono) auto
  then have w2: "w < 2 ^ 53" by simp
  have base: "score_base c = of_int w"
    using w1 w2 fint_exact[of w] by (simp add: score_base_def flip: w_def)
  have isf: "is_float (of_int w)" using fl_of_int[of w] w1 w2 by (simp add: is_float_def)
  define sc where "sc = (if strategy = ''load_aware'' then fdiv (score_base c) (load_penalty c) else score_base c)"
  have "of_int w / load_penalty c \<le> of_int w"
    using w1 load_penalty_ge_one[of c] by (simp add: divide_le_eq)
  then have "fdiv (of_int w) (load_penalty c) \<le> of_int w"
    unfolding fdiv_def using w1 load_penalty_ge_one[of c] by (intro is_float_bound[OF isf]) auto
  then have sc1: "sc \<le> of_int w" by (simp add: sc_def base)
  have sc0: "0 < sc" using w1 load_penalty_ge_one[of c] by (auto simp: sc_def base intro!: fdiv_pos)
  define q where "q = dnsProbeQualityFactor (cand_DNSProbeHealthy c) (cand_DNSProbeCheckedCount c)
        (cand_DNSProbeHealthyCount c) (cand_DNSProbeStaleCount c) (cand_DNSProbeAverageRTTMs c)"
  have q: "1 / 4 \<le> q" "q \<le> 1" unfolding q_def using dnsProbeQualityFactor_bounds by blast+
  then have q0: "0 < q" by (simp add: less_le_trans[of 0 "1 / 4"])
  have "sc * q \<le> of_int w * 1" using sc0 sc1 q q0 w1 by (intro mult_mono) auto
  then have "fmul sc q \<le> of_int w"
    unfolding fmul_def using sc0 q0 by (intro is_float_bound[OF isf]) auto
  moreover have "0 < fmul sc q" using sc0 q0 by (rule fmul_pos)
  moreover have "scoreCandidate c strategy = fmul sc q" by (simp add: scoreCandidate_def sc_def q_def)
  ultimately show ?thesis by (simp add: w_def)
qed

section \<open>The comparison of \<open>sortCandidates\<close>\<close>

definition rtt_known :: "targetCandidate \<Rightarrow> bool" where
  "rtt_known c \<longleftrightarrow> cand_DNSProbeHealthy c \<and> cand_DNSProbeAverageRTTMs c > 0"

text \<open>On candidates without a probe time, or all with one, the comparison is lexicographic.\<close>

definition candidate_key ::
  "bool \<Rightarrow> string \<Rightarrow> targetCandidate \<Rightarrow> bool \<times> rat \<times> int \<times> rat \<times> int \<times> string \<times> string" where
  "candidate_key probed strategy c =
    (strategy = ''load_aware'' \<and> \<not> cand_HasMetric c,
     if strategy = ''weighted'' \<or> strategy = ''load_aware'' then - cand_Score c else 0,
     if strategy = ''load_aware'' then cand_OpenrestyConnections c else 0,
     if probed then cand_DNSProbeAverageRTTMs c else 0,
     - cand_LastSeenAt c, cand_NodeID c, cand_Content c)"

lemma lex_if:
  fixes x y :: "'a :: linorder"
  shows "(if x \<noteq> y then x < y else R) \<longleftrightarrow> x < y \<or> x \<le> y \<and> R"
  by auto

lemma lex_if_desc:
  fixes x y :: "'a :: linordered_ab_group_add"
  shows "(if x \<noteq> y then x > y else R) \<longleftrightarrow> - x < - y \<or> - x \<le> - y \<and> R"
  by auto

lemma lex_if_bool: "(if a \<noteq> b then a else R) \<longleftrightarrow> (\<not> a) < (\<not> b) \<or> (\<not> a) \<le> (\<not> b) \<and> R"
  by auto

lemma candidate_less_unprobed:
  assumes "\<not> rtt_known c \<or> \<not> rtt_known d"
  shows "candidate_less strategy c d \<longleftrightarrow> candidate_key False strategy c < candidate_key False strategy d"
proof -
  have r: "(if cand_DNSProbeHealthy c \<and> cand_DNSProbeHealthy d \<and> cand_DNSProbeAverageRTTMs c > 0
      \<and> cand_DNSProbeAverageRTTMs d > 0 \<and> cand_DNSProbeAverageRTTMs c \<noteq> cand_DNSProbeAverageRTTMs d then P else Q) = Q"
    for P Q :: bool using assms by (auto simp: rtt_known_def)
  consider "strategy = ''load_aware''" | "strategy = ''weighted''" | "strategy \<noteq> ''load_aware'' \<and> strategy \<noteq> ''weighted''"
    by blast
  then show ?thesis
    unfolding candidate_less_def candidate_key_def r
    by cases (simp_all add: lex_if lex_if_desc lex_if_bool cong: if_cong)
qed

lemma candidate_less_probed:
  assumes "rtt_known c" "rtt_known d"
  shows "candidate_less strategy c d \<longleftrightarrow> candidate_key True strategy c < candidate_key True strategy d"
proof -
  have r: "(cand_DNSProbeHealthy c \<and> cand_DNSProbeHealthy d \<and> cand_DNSProbeAverageRTTMs c > 0
      \<and> cand_DNSProbeAverageRTTMs d > 0 \<and> cand_DNSProbeAverageRTTMs c \<noteq> cand_DNSProbeAverageRTTMs d) =
      (cand_DNSProbeAverageRTTMs c \<noteq> cand_DNSProbeAverageRTTMs d)"
    using assms by (auto simp: rtt_known_def)
  consider "strategy = ''load_aware''" | "strategy = ''weighted''" | "strategy \<noteq> ''load_aware'' \<and> strategy \<noteq> ''weighted''"
    by blast
  then show ?thesis
    unfolding candidate_less_def candidate_key_def r
    by cases (simp_all add: lex_if lex_if_desc lex_if_bool cong: if_cong)
qed

interpretation unprobed: strict_weak_order "candidate_less strategy" "{c. \<not> rtt_known c}" for strategy
  by (rule strict_weak_order_on_key) (simp add: candidate_less_unprobed)

interpretation probed: strict_weak_order "candidate_less strategy" "{c. rtt_known c}" for strategy
  by (rule strict_weak_order_on_key) (simp add: candidate_less_probed)

section \<open>Properties\<close>

definition sample_node :: "string \<Rightarrow> string \<Rightarrow> string \<Rightarrow> SnapshotNode" where
  "sample_node nodeID pool ip =
    zero_SnapshotNode\<lparr>node_NodeID := nodeID, node_PoolName := pool, node_PublicIPs := [ip], node_Weight := 100,
      node_SchedulingEnabled := True, node_Status := ''online''\<rparr>"

definition sample_snapshot :: Snapshot where
  "sample_snapshot = zero_Snapshot\<lparr>snap_Nodes :=
    [sample_node ''n1'' ''office'' ''8.8.8.8'', sample_node ''n2'' ''edge'' ''1.1.1.1'',
     sample_node ''n3'' ''edge'' ''192.168.1.1'', sample_node ''n4'' ''edge'' ''9.9.9.9'']\<rparr>"

definition sample_policy :: GSLBPolicy where
  "sample_policy = zero_GSLBPolicy\<lparr>pol_Pools := sample_pools, pol_Strategy := ''healthy'', pol_TargetCount := 2\<rparr>"

definition away_source :: SourceContext where
  "away_source = zero_SourceContext\<lparr>src_IP := ''203.0.113.7'', src_Country := ''US''\<rparr>"

text \<open>C10: Every candidate of a query is servable: a public address of the family asked for, of an
  online, enabled, not draining node within the load thresholds (and with a healthy probe when probe
  scheduling is on), in an enabled pool of the policy that does not exclude the source and admits the
  node. No address is a candidate twice.\<close>

theorem candidates_servable:
  "(\<forall>c \<in> set (buildCandidates (Some snapshot) recordType policy source).
      servable snapshot recordType policy source (cand_Content c))
   \<and> distinct (map cand_Content (buildCandidates (Some snapshot) recordType policy source))"
  using buildCandidates_servable buildCandidates_distinct by blast

lemma sample_candidates:
  "map cand_Content (buildCandidates (Some sample_snapshot) ''A'' sample_policy away_source) =
    [''8.8.8.8'', ''1.1.1.1'', ''9.9.9.9'']"
  by code_simp

theorem candidates_servable_witness:
  "servable sample_snapshot ''A'' sample_policy away_source ''9.9.9.9''"
proof -
  have "''9.9.9.9'' \<in> cand_Content ` set (buildCandidates (Some sample_snapshot) ''A'' sample_policy away_source)"
    unfolding set_map[symmetric] sample_candidates by simp
  then show ?thesis using candidates_servable[of sample_snapshot "''A''" sample_policy away_source] by auto
qed

text \<open>The addresses offered by a set of pools are exactly the public addresses, of the family asked
  for, of the nodes that pass the guards: none is lost to ordering, scoring or duplicate removal.\<close>

theorem candidates_complete:
  "cand_Content ` set (candidatesForPools snapshot recordType policy pools) =
    {t. \<exists>node \<in> set (snap_Nodes snapshot). candidate_pool snapshot policy pools node \<noteq> None
      \<and> (\<exists>v \<in> set (node_PublicIPs node). target_content recordType v = Some t)}"
  by (rule candidatesForPools_contents)

theorem candidates_complete_witness:
  "''1.1.1.1'' \<in> {t. \<exists>node \<in> set (snap_Nodes sample_snapshot).
      candidate_pool sample_snapshot sample_policy (pools_map sample_pools) node \<noteq> None
      \<and> (\<exists>v \<in> set (node_PublicIPs node). target_content ''A'' v = Some t)}"
proof -
  have "''1.1.1.1'' \<in> set (map cand_Content
      (candidatesForPools sample_snapshot ''A'' sample_policy (pools_map sample_pools)))"
    by code_simp
  then show ?thesis
    using candidates_complete[of sample_snapshot "''A''" sample_policy "pools_map sample_pools"] by simp
qed

text \<open>With weights as the worker normalises them, a score is positive and never exceeds the
  product of the node and pool weights, in floating-point arithmetic: the load penalty and the probe
  factor only lower it.\<close>

theorem score_bounds:
  assumes "cand_NodeWeight c = normalizeWeight nw" "cand_PoolWeight c = normalizeWeight pw"
  shows "0 < scoreCandidate c strategy
    \<and> scoreCandidate c strategy \<le> of_int (normalizeWeight nw * normalizeWeight pw)"
  using scoreCandidate_bounds[of c strategy] normalizeWeight_bounds[of nw] normalizeWeight_bounds[of pw] assms
  by simp

theorem score_bounds_witness:
  "0 < scoreCandidate (make_candidate sample_snapshot sample_policy (hd sample_pools) (sample_node ''n'' ''p'' ''8.8.8.8'') ''8.8.8.8'')
    ''load_aware''"
proof -
  let ?c = "make_candidate sample_snapshot sample_policy (hd sample_pools) (sample_node ''n'' ''p'' ''8.8.8.8'') ''8.8.8.8''"
  have "cand_NodeWeight ?c = normalizeWeight 100" "cand_PoolWeight ?c = normalizeWeight 0"
    by (simp_all add: make_candidate_def with_score_def base_candidate_def sample_node_def sample_pools_def zero_GSLBPoolPolicy_def)
  from score_bounds[OF this, of "''load_aware''"] show ?thesis by blast
qed

text \<open>Without probe scheduling the candidates come out sorted by the comparison of the strategy:
  no candidate stands before one that the comparison puts ahead of it.\<close>

theorem candidates_sorted_without_probing:
  assumes "\<not> snap_GSLBProbeSchedulingEnabled snapshot"
  shows "in_order (candidate_less (pol_Strategy policy)) (candidatesForPools snapshot recordType policy pools)"
proof -
  let ?cs = "foldl (add_node snapshot recordType policy pools) [] (snap_Nodes snapshot)"
  have "c \<in> {c. \<not> rtt_known c}" if "c \<in> set ?cs" for c
  proof -
    from add_nodes_members[OF that] obtain pool node t where "c = make_candidate snapshot policy pool node t"
      by (auto simp: candidate_from_def)
    then show ?thesis using assms by (simp add: make_candidate_def with_score_def base_candidate_def rtt_known_def)
  qed
  then show ?thesis
    unfolding candidatesForPools_def sortCandidates_def by (intro unprobed.in_order_SliceStable) blast
qed

theorem candidates_sorted_without_probing_witness:
  "in_order (candidate_less ''healthy'') (candidatesForPools sample_snapshot ''A'' sample_policy (pools_map sample_pools))"
proof -
  have "\<not> snap_GSLBProbeSchedulingEnabled sample_snapshot"
    by (simp add: sample_snapshot_def zero_Snapshot_def)
  from candidates_sorted_without_probing[OF this, of sample_policy "''A''" "pools_map sample_pools"]
  show ?thesis by (simp add: sample_policy_def)
qed

text \<open>With probe times known for some candidates only, the comparison has cycles.\<close>

definition cycle_candidate :: "rat \<Rightarrow> gotime \<Rightarrow> targetCandidate" where
  "cycle_candidate rtt seen =
    (make_candidate zero_Snapshot zero_GSLBPolicy zero_GSLBPoolPolicy zero_SnapshotNode [])
      \<lparr>cand_DNSProbeHealthy := True, cand_DNSProbeAverageRTTMs := rtt, cand_LastSeenAt := seen\<rparr>"

lemma candidate_less_cycle:
  "candidate_less ''healthy'' (cycle_candidate 5 1) (cycle_candidate 10 3)"
  "candidate_less ''healthy'' (cycle_candidate 10 3) (cycle_candidate 0 2)"
  "candidate_less ''healthy'' (cycle_candidate 0 2) (cycle_candidate 5 1)"
  by (simp_all add: candidate_less_def cycle_candidate_def make_candidate_def with_score_def base_candidate_def)

end
