(* ===== verification/Target_Select.thy ===== *)
theory Target_Select
  imports Candidates
begin

text \<open>
  Choosing the targets of an answer among the candidates (\<open>scheduler.go\<close>: \<open>selectWeightedTargets\<close> to
  \<open>limitTargets\<close>): by rank with a largest-remainder quota for every pool, or spread over the sources
  by hashing. The hash (\<open>crypto/sha256\<close>, of which the code takes the first eight bytes) and the
  logarithm (\<open>math.Log\<close>) are the fields of a record that the definitions take as an argument; every
  theorem holds for any hash and any logarithm.

  Shown: the quotas of \<open>allocatePoolQuotas\<close> add up to the target count and differ from the exact
  proportional share by less than one, the extra targets going to the largest remainders; both
  selections return as many targets as the policy asks for or as there are candidates, without
  repetition, all of them candidates.
\<close>

record hash_env =
  he_Sum256 :: "string \<Rightarrow> nat list"
  he_Log :: "float64 \<Rightarrow> float64"

record sourceSpread =
  sp_Key :: string
  sp_Bucket :: int

section \<open>Hashing\<close>

text \<open>\<open>binary.BigEndian.Uint64\<close> of the first eight bytes.\<close>

definition be_uint64 :: "nat list \<Rightarrow> nat" where
  "be_uint64 bs = foldl (\<lambda>a b. 256 * a + b mod 256) 0 (take 8 bs)"

definition stableHashUint64 :: "hash_env \<Rightarrow> string \<Rightarrow> nat" where
  "stableHashUint64 env value = be_uint64 (he_Sum256 env value)"

definition stableHashUnit :: "hash_env \<Rightarrow> string \<Rightarrow> float64" where
  "stableHashUnit env value =
    fdiv (fadd (fint (int (stableHashUint64 env value))) 1) (fl (fint (2 ^ 64 - 1) + 2))"

section \<open>Quotas\<close>

text \<open>Candidates by the name of their pool, in their order.\<close>

type_synonym candidates_map = "(string, targetCandidate list) gomap"

definition candidates_of :: "candidates_map \<Rightarrow> string \<Rightarrow> targetCandidate list" where
  "candidates_of byPool name = (case map_of byPool name of None \<Rightarrow> [] | Some cs \<Rightarrow> cs)"

definition group_by_pool :: "targetCandidate list \<Rightarrow> candidates_map" where
  "group_by_pool candidates =
    foldl (\<lambda>byPool c. AList.update (cand_PoolName c) (candidates_of byPool (cand_PoolName c) @ [c]) byPool)
      [] candidates"

record weightedPool =
  wpool_Name :: string
  wpool_Weight :: int
  wpool_Quota :: int
  wpool_Remainder :: int

definition weighted_pools :: "GSLBPoolPolicy list \<Rightarrow> candidates_map \<Rightarrow> weightedPool list" where
  "weighted_pools pools byPool =
    map (\<lambda>pool. \<lparr>wpool_Name = normalizeNodePoolName (pool_Name pool),
                 wpool_Weight = normalizeWeight (pool_Weight pool), wpool_Quota = 0, wpool_Remainder = 0\<rparr>)
      (filter (\<lambda>pool. pool_Enabled pool \<and> normalizeNodePoolName (pool_Name pool) \<noteq> []
          \<and> length (candidates_of byPool (normalizeNodePoolName (pool_Name pool))) > 0) pools)"

definition total_weight :: "weightedPool list \<Rightarrow> int" where
  "total_weight ws = sum_list (map wpool_Weight ws)"

definition floor_quota :: "int \<Rightarrow> int \<Rightarrow> weightedPool \<Rightarrow> weightedPool" where
  "floor_quota targetCount totalWeight w =
    w\<lparr>wpool_Quota := (wpool_Weight w * targetCount) div totalWeight,
      wpool_Remainder := (wpool_Weight w * targetCount) mod totalWeight\<rparr>"

definition remainder_less :: "weightedPool \<Rightarrow> weightedPool \<Rightarrow> bool" where
  "remainder_less x y =
    (if wpool_Remainder x \<noteq> wpool_Remainder y then wpool_Remainder x > wpool_Remainder y
     else if wpool_Weight x \<noteq> wpool_Weight y then wpool_Weight x > wpool_Weight y
     else wpool_Name x < wpool_Name y)"

text \<open>The loop \<open>for assigned < targetCount\<close>: its body is one pass over the pools.\<close>

fun bump_round :: "int \<Rightarrow> int \<Rightarrow> weightedPool list \<Rightarrow> weightedPool list \<times> int" where
  "bump_round targetCount assigned [] = ([], assigned)"
| "bump_round targetCount assigned (w # ws) =
    (if assigned \<ge> targetCount then (w # ws, assigned)
     else (w\<lparr>wpool_Quota := wpool_Quota w + 1\<rparr> # fst (bump_round targetCount (assigned + 1) ws),
           snd (bump_round targetCount (assigned + 1) ws)))"

text \<open>The loop may run forever, which is \<open>None\<close>: without a pool it hands out nothing.\<close>

partial_function (option) bump_while :: "int \<Rightarrow> int \<Rightarrow> weightedPool list \<Rightarrow> weightedPool list option" where
  "bump_while targetCount assigned ws =
    (if assigned < targetCount
     then bump_while targetCount (snd (bump_round targetCount assigned ws)) (fst (bump_round targetCount assigned ws))
     else Some ws)"

definition allocate_run :: "GSLBPoolPolicy list \<Rightarrow> int \<Rightarrow> candidates_map \<Rightarrow> (string, int) gomap option" where
  "allocate_run pools targetCount byPool =
    (let targetCount = normalizeTargetCount targetCount; weighted = weighted_pools pools byPool
     in if length weighted = 0 \<or> total_weight weighted \<le> 0 then Some []
        else
          (let fs = map (floor_quota targetCount (total_weight weighted)) weighted
           in map_option (foldl (\<lambda>quotas w. AList.update (wpool_Name w) (wpool_Quota w) quotas) [])
                (bump_while targetCount (sum_list (map wpool_Quota fs)) (SliceStable remainder_less fs))))"

text \<open>The result of the function; theorem \<open>quota_loop_ends\<close> shows that it always has one.\<close>

definition allocatePoolQuotas :: "GSLBPoolPolicy list \<Rightarrow> int \<Rightarrow> candidates_map \<Rightarrow> (string, int) gomap" where
  "allocatePoolQuotas pools targetCount byPool = (case allocate_run pools targetCount byPool of None \<Rightarrow> [] | Some quotas \<Rightarrow> quotas)"

definition limitTargets :: "string list \<Rightarrow> int \<Rightarrow> string list" where
  "limitTargets targets limit =
    (if int (length targets) > normalizeTargetCount limit
     then take (nat (normalizeTargetCount limit)) targets else targets)"

section \<open>Selection by rank\<close>

text \<open>The set \<open>used\<close> is the contents of the selected candidates.\<close>

fun pick_quota :: "int \<Rightarrow> int \<Rightarrow> targetCandidate list \<Rightarrow> targetCandidate list \<Rightarrow> targetCandidate list" where
  "pick_quota targetCount quota [] selected = selected"
| "pick_quota targetCount quota (c # cs) selected =
    (if quota \<le> 0 \<or> int (length selected) \<ge> targetCount then selected
     else if cand_Content c \<in> set (map cand_Content selected) then pick_quota targetCount quota cs selected
     else pick_quota targetCount (quota - 1) cs (selected @ [c]))"

fun fill_up :: "int \<Rightarrow> targetCandidate list \<Rightarrow> targetCandidate list \<Rightarrow> targetCandidate list" where
  "fill_up targetCount [] selected = selected"
| "fill_up targetCount (c # cs) selected =
    (if int (length selected) \<ge> targetCount then selected
     else if cand_Content c \<in> set (map cand_Content selected) then fill_up targetCount cs selected
     else fill_up targetCount cs (selected @ [c]))"

definition quota_of :: "(string, int) gomap \<Rightarrow> string \<Rightarrow> int" where
  "quota_of quotas name = (case map_of quotas name of None \<Rightarrow> 0 | Some q \<Rightarrow> q)"

definition pick_pools ::
  "int \<Rightarrow> (string, int) gomap \<Rightarrow> candidates_map \<Rightarrow> GSLBPoolPolicy list \<Rightarrow> targetCandidate list" where
  "pick_pools targetCount quotas byPool pools =
    foldl (\<lambda>selected pool.
      pick_quota targetCount (quota_of quotas (normalizeNodePoolName (pool_Name pool)))
        (candidates_of byPool (normalizeNodePoolName (pool_Name pool))) selected) [] pools"

definition selectRankedTargets :: "targetCandidate list \<Rightarrow> GSLBPolicy \<Rightarrow> string list" where
  "selectRankedTargets candidates policy =
    (if length candidates = 0 then []
     else
       (let targetCount = normalizeTargetCount (pol_TargetCount policy);
            byPool = group_by_pool candidates;
            quotas = allocatePoolQuotas (pol_Pools policy) targetCount byPool;
            selected = pick_pools targetCount quotas byPool (pol_Pools policy);
            selected = (if int (length selected) < targetCount then fill_up targetCount candidates selected else selected)
        in map cand_Content (sortCandidates selected (pol_Strategy policy))))"

section \<open>Selection spread over sources\<close>

record weightedAvailablePool =
  wap_Name :: string
  wap_Weight :: int

fun available_pools :: "candidates_map \<Rightarrow> string list \<Rightarrow> GSLBPoolPolicy list \<Rightarrow> weightedAvailablePool list" where
  "available_pools byPool seen [] = []"
| "available_pools byPool seen (pool # pools) =
    (if \<not> pool_Enabled pool \<or> normalizeNodePoolName (pool_Name pool) = []
       \<or> normalizeNodePoolName (pool_Name pool) \<in> set seen
       \<or> length (candidates_of byPool (normalizeNodePoolName (pool_Name pool))) = 0
     then available_pools byPool seen pools
     else \<lparr>wap_Name = normalizeNodePoolName (pool_Name pool), wap_Weight = normalizeWeight (pool_Weight pool)\<rparr>
       # available_pools byPool (normalizeNodePoolName (pool_Name pool) # seen) pools)"

definition weightedAvailablePools :: "GSLBPoolPolicy list \<Rightarrow> candidates_map \<Rightarrow> weightedAvailablePool list" where
  "weightedAvailablePools pools byPool = available_pools byPool [] pools"

fun pool_at_point :: "int \<Rightarrow> int \<Rightarrow> weightedAvailablePool list \<Rightarrow> string option" where
  "pool_at_point point accumulated [] = None"
| "pool_at_point point accumulated (p # ps) =
    (if point < accumulated + normalizeWeight (wap_Weight p) then Some (wap_Name p)
     else pool_at_point point (accumulated + normalizeWeight (wap_Weight p)) ps)"

definition selectPoolByBucket :: "weightedAvailablePool list \<Rightarrow> int \<Rightarrow> string" where
  "selectPoolByBucket pools bucket =
    (if length pools = 0 then []
     else
       (let totalWeight = sum_list (map (\<lambda>p. normalizeWeight (wap_Weight p)) pools)
        in if totalWeight \<le> 0 then []
           else
             (let bucket = (if bucket < 0 then 0 else bucket);
                  bucket = (if bucket > 99 then bucket mod 100 else bucket);
                  point = bucket * totalWeight div 100
              in case pool_at_point point 0 pools of
                   Some name \<Rightarrow> name
                 | None \<Rightarrow> wap_Name (last pools))))"

definition spreadCandidateWeight :: "targetCandidate \<Rightarrow> string \<Rightarrow> float64" where
  "spreadCandidateWeight c strategy =
    (if normalizeStrategy strategy = ''weighted'' \<or> normalizeStrategy strategy = ''load_aware'' then cand_Score c
     else fint (normalizeWeight (cand_NodeWeight c)))"

definition spread_score :: "hash_env \<Rightarrow> string \<Rightarrow> string \<Rightarrow> int \<Rightarrow> targetCandidate \<Rightarrow> float64" where
  "spread_score env strategy key slot c =
    (let weight = spreadCandidateWeight c strategy; weight = (if weight \<le> 0 then 1 else weight);
         hashKey = key @ ''|slot:'' @ FormatInt slot @ ''|candidate:'' @ cand_Content c
     in fdiv (- he_Log env (stableHashUnit env hashKey)) weight)"

text \<open>The best candidate so far and its score; \<open>None\<close> while nothing is found.\<close>

definition spread_step ::
  "hash_env \<Rightarrow> string \<Rightarrow> string \<Rightarrow> int \<Rightarrow> string list \<Rightarrow> bool
    \<Rightarrow> (targetCandidate \<times> float64) option \<Rightarrow> targetCandidate \<Rightarrow> (targetCandidate \<times> float64) option" where
  "spread_step env strategy key slot used hasFreshMetricCandidate best c =
    (if cand_Content c \<in> set used then best
     else if hasFreshMetricCandidate \<and> \<not> cand_HasMetric c then best
     else
       (let score = spread_score env strategy key slot c
        in case best of
             None \<Rightarrow> Some (c, score)
           | Some (b, bestScore) \<Rightarrow>
               if score < bestScore \<or> (score = bestScore \<and> cand_Content c < cand_Content b)
               then Some (c, score) else best))"

definition selectCandidateBySpread ::
  "hash_env \<Rightarrow> targetCandidate list \<Rightarrow> string \<Rightarrow> string \<Rightarrow> int \<Rightarrow> string list \<Rightarrow> targetCandidate option" where
  "selectCandidateBySpread env candidates strategy key slot used =
    (let hasFreshMetricCandidate = (normalizeStrategy strategy = ''load_aware''
           \<and> list_ex (\<lambda>c. cand_Content c \<notin> set used \<and> cand_HasMetric c) candidates)
     in map_option fst
       (foldl (spread_step env strategy key slot used hasFreshMetricCandidate) None candidates))"

text \<open>The loop over the slots; its first argument counts the slots that are left.\<close>

fun spread_slots ::
  "nat \<Rightarrow> hash_env \<Rightarrow> string \<Rightarrow> sourceSpread \<Rightarrow> weightedAvailablePool list \<Rightarrow> candidates_map \<Rightarrow> nat \<Rightarrow> int
    \<Rightarrow> targetCandidate list \<Rightarrow> targetCandidate list" where
  "spread_slots 0 env strategy spread pools byPool limit slot selected = selected"
| "spread_slots (Suc n) env strategy spread pools byPool limit slot selected =
    (if length selected \<ge> limit then selected
     else
       (let bucket = (sp_Bucket spread + slot * 37) mod 100;
            poolName = selectPoolByBucket pools bucket
        in if poolName = [] then spread_slots n env strategy spread pools byPool limit (slot + 1) selected
           else
             (case selectCandidateBySpread env (candidates_of byPool poolName) strategy (sp_Key spread) slot
                 (map cand_Content selected) of
                None \<Rightarrow> spread_slots n env strategy spread pools byPool limit (slot + 1) selected
              | Some c \<Rightarrow> spread_slots n env strategy spread pools byPool limit (slot + 1) (selected @ [c]))))"

definition selectRankedCandidates :: "targetCandidate list \<Rightarrow> string \<Rightarrow> targetCandidate list" where
  "selectRankedCandidates candidates strategy = sortCandidates candidates strategy"

definition selectSourceSpreadTargets :: "hash_env \<Rightarrow> targetCandidate list \<Rightarrow> GSLBPolicy \<Rightarrow> sourceSpread \<Rightarrow> string list" where
  "selectSourceSpreadTargets env candidates policy spread =
    (if length candidates = 0 then []
     else
       (let targetCount = normalizeTargetCount (pol_TargetCount policy);
            byPool = group_by_pool candidates;
            pools = weightedAvailablePools (pol_Pools policy) byPool
        in if length pools = 0 then []
           else
             (let selected = spread_slots (nat targetCount) env (pol_Strategy policy) spread pools byPool
                    (length candidates) 0 [];
                  selected = (if int (length selected) < targetCount
                    then fill_up targetCount (selectRankedCandidates candidates (pol_Strategy policy)) selected
                    else selected)
              in map cand_Content (sortCandidates selected (pol_Strategy policy)))))"

definition usesSourceWeightedSpread :: "GSLBPolicy \<Rightarrow> bool" where
  "usesSourceWeightedSpread policy \<longleftrightarrow>
    normalizeStrategy (pol_Strategy policy) = ''weighted'' \<or> normalizeStrategy (pol_Strategy policy) = ''load_aware''"

definition selectWeightedTargets ::
  "hash_env \<Rightarrow> targetCandidate list \<Rightarrow> GSLBPolicy \<Rightarrow> sourceSpread option \<Rightarrow> string list" where
  "selectWeightedTargets env candidates policy spread =
    (case spread of
       Some sp \<Rightarrow> if usesSourceWeightedSpread policy then selectSourceSpreadTargets env candidates policy sp
                 else selectRankedTargets candidates policy
     | None \<Rightarrow> selectRankedTargets candidates policy)"


section \<open>The loop over the remaining targets ends\<close>

lemma bump_round_assigned:
  "snd (bump_round targetCount assigned ws) = max assigned (min targetCount (assigned + int (length ws)))"
  by (induction ws arbitrary: assigned) auto

text \<open>The loop on a list with a pool, as a total function, and the pools it ends with.\<close>

function bump_loop :: "int \<Rightarrow> int \<Rightarrow> weightedPool list \<Rightarrow> weightedPool list" where
  "bump_loop targetCount assigned ws =
    (if assigned < targetCount \<and> ws \<noteq> []
     then bump_loop targetCount (snd (bump_round targetCount assigned ws)) (fst (bump_round targetCount assigned ws))
     else ws)"
  by pat_completeness auto
termination
  by (relation "measure (\<lambda>(t, a, ws). nat (t - a))") (auto simp: bump_round_assigned neq_Nil_conv)

declare bump_loop.simps [simp del]

definition quota_pools :: "int \<Rightarrow> weightedPool list \<Rightarrow> weightedPool list" where
  "quota_pools targetCount ws =
    (let fs = map (floor_quota targetCount (total_weight ws)) ws
     in bump_loop targetCount (sum_list (map wpool_Quota fs)) (SliceStable remainder_less fs))"

lemma bump_while_stuck:
  assumes "bump_while t a ws = Some r"
  shows "\<not> (ws = [] \<and> a < t)"
  by (rule bump_while.raw_induct[OF _ assms, where P = "\<lambda>t a ws r. \<not> (ws = [] \<and> a < t)"]) (auto split: if_splits)

lemma bump_round_Nil_iff [simp]: "fst (bump_round t a ws) = [] \<longleftrightarrow> ws = []"
  by (cases ws) auto

lemma bump_while_loop: "ws \<noteq> [] \<Longrightarrow> bump_while t a ws = Some (bump_loop t a ws)"
proof (induction "nat (t - a)" arbitrary: a ws rule: less_induct)
  case less
  show ?case
  proof (cases "a < t")
    case True
    with less.prems have "nat (t - snd (bump_round t a ws)) < nat (t - a)"
      by (auto simp: bump_round_assigned neq_Nil_conv)
    from less.hyps[OF this, of "fst (bump_round t a ws)"] less.prems True show ?thesis
      by (simp add: bump_while.simps[of t a] bump_loop.simps[of t a])
  qed (simp add: bump_while.simps bump_loop.simps)
qed

lemma bump_while_done: "t \<le> a \<Longrightarrow> bump_while t a ws = Some ws"
  by (simp add: bump_while.simps)

lemma allocate_run_quotas:
  "allocate_run pools targetCount byPool =
    (let targetCount = normalizeTargetCount targetCount; weighted = weighted_pools pools byPool
     in if length weighted = 0 \<or> total_weight weighted \<le> 0 then Some []
        else Some (foldl (\<lambda>quotas w. AList.update (wpool_Name w) (wpool_Quota w) quotas) [] (quota_pools targetCount weighted)))"
  by (simp add: allocate_run_def quota_pools_def Let_def bump_while_loop SliceStable_Nil_iff)

lemma allocatePoolQuotas_eq:
  "allocatePoolQuotas pools targetCount byPool =
    (let targetCount = normalizeTargetCount targetCount; weighted = weighted_pools pools byPool
     in if length weighted = 0 \<or> total_weight weighted \<le> 0 then []
        else foldl (\<lambda>quotas w. AList.update (wpool_Name w) (wpool_Quota w) quotas) [] (quota_pools targetCount weighted))"
  by (simp add: allocatePoolQuotas_def allocate_run_quotas Let_def)

section \<open>Largest remainders\<close>

interpretation remainders: strict_weak_order remainder_less UNIV
proof (rule strict_weak_order_on_key)
  fix x y :: weightedPool
  show "remainder_less x y \<longleftrightarrow>
    (- wpool_Remainder x, - wpool_Weight x, wpool_Name x) < (- wpool_Remainder y, - wpool_Weight y, wpool_Name y)"
    unfolding remainder_less_def by (simp add: lex_if lex_if_desc)
qed

abbreviation bump :: "weightedPool \<Rightarrow> weightedPool" where
  "bump w \<equiv> w\<lparr>wpool_Quota := wpool_Quota w + 1\<rparr>"

lemma bump_round_take:
  assumes "assigned \<le> t" "t - assigned \<le> int (length ws)"
  shows "bump_round t assigned ws =
    (map bump (take (nat (t - assigned)) ws) @ drop (nat (t - assigned)) ws, t)"
  using assms
proof (induction ws arbitrary: assigned)
  case (Cons w ws)
  show ?case
  proof (cases "assigned = t")
    case False
    then have "nat (t - assigned) = Suc (nat (t - (assigned + 1)))" using Cons.prems by simp
    moreover have "bump_round t (assigned + 1) ws =
        (map bump (take (nat (t - (assigned + 1))) ws) @ drop (nat (t - (assigned + 1))) ws, t)"
      using Cons.prems False by (intro Cons.IH) auto
    ultimately show ?thesis using Cons.prems False by simp
  qed simp
qed simp

lemma bump_loop_take:
  assumes "assigned \<le> t" "t - assigned \<le> int (length ws)"
  shows "bump_loop t assigned ws = map bump (take (nat (t - assigned)) ws) @ drop (nat (t - assigned)) ws"
proof (cases "assigned < t")
  case True
  with assms have "ws \<noteq> []" by auto
  with True assms show ?thesis
    by (simp add: bump_loop.simps[of t assigned] bump_loop.simps[of t t] bump_round_take)
next
  case False
  with assms show ?thesis by (simp add: bump_loop.simps)
qed

lemma floor_deficit:
  fixes T W :: int
  assumes "0 < W" "W = sum_list (map f ws)" "0 \<le> T" "\<And>w. w \<in> set ws \<Longrightarrow> 0 \<le> (f w :: int)"
  defines "d \<equiv> T - sum_list (map (\<lambda>w. f w * T div W) ws)"
  shows "0 \<le> d \<and> d \<le> int (length ws)"
proof -
  have split: "f w * T = W * (f w * T div W) + f w * T mod W" for w by simp
  have "W * T = sum_list (map (\<lambda>w. f w * T) ws)"
    by (simp add: assms(2) sum_list_mult_const[symmetric])
  also have "\<dots> = sum_list (map (\<lambda>w. W * (f w * T div W) + f w * T mod W) ws)" by (simp only: flip: split)
  also have "\<dots> = W * sum_list (map (\<lambda>w. f w * T div W) ws) + sum_list (map (\<lambda>w. f w * T mod W) ws)"
    by (simp only: sum_list_addf sum_list_const_mult)
  finally have eq: "W * d = sum_list (map (\<lambda>w. f w * T mod W) ws)"
    by (simp add: d_def right_diff_distrib)
  have lo: "0 \<le> sum_list (map (\<lambda>w. f w * T mod W) ws)" using assms(1) by (intro sum_list_nonneg) auto
  have hi: "sum_list (map (\<lambda>w. f w * T mod W) ws) \<le> W * int (length ws)"
    using assms(1) by (induction ws) (auto simp: algebra_simps intro!: add_mono pos_mod_bound[THEN less_imp_le])
  from eq lo hi have "W * 0 \<le> W * d" "W * d \<le> W * int (length ws)" by auto
  then show ?thesis using assms(1) by (simp only: mult_le_cancel_left_pos)
qed

text \<open>What the quotas of the sorted pools are.\<close>

definition quota_fair :: "int \<Rightarrow> int \<Rightarrow> weightedPool \<Rightarrow> bool" where
  "quota_fair t tw w \<longleftrightarrow>
    wpool_Remainder w = wpool_Weight w * t mod tw
    \<and> (wpool_Quota w = wpool_Weight w * t div tw \<or> wpool_Quota w = wpool_Weight w * t div tw + 1)"

lemma quota_pools_props:
  assumes "0 < total_weight ws" "0 \<le> t" "\<forall>w \<in> set ws. 0 \<le> wpool_Weight w"
  defines "r \<equiv> quota_pools t ws"
  shows "sum_list (map wpool_Quota r) = t"
    and "mset (map wpool_Name r) = mset (map wpool_Name ws)"
    and "w \<in> set r \<Longrightarrow> \<exists>v \<in> set ws. wpool_Name v = wpool_Name w \<and> wpool_Weight v = wpool_Weight w"
    and "w \<in> set r \<Longrightarrow> quota_fair t (total_weight ws) w"
    and "v \<in> set r \<Longrightarrow> w \<in> set r \<Longrightarrow> wpool_Quota v = wpool_Weight v * t div total_weight ws + 1 \<Longrightarrow>
      wpool_Quota w = wpool_Weight w * t div total_weight ws \<Longrightarrow> wpool_Remainder w \<le> wpool_Remainder v"
proof -
  let ?W = "total_weight ws"
  let ?fs = "map (floor_quota t ?W) ws"
  let ?ss = "SliceStable remainder_less ?fs"
  let ?d = "t - sum_list (map wpool_Quota ?fs)"
  have q: "map wpool_Quota ?fs = map (\<lambda>w. wpool_Weight w * t div ?W) ws"
    by (simp add: floor_quota_def)
  have d: "0 \<le> ?d" "?d \<le> int (length ws)"
    unfolding q using floor_deficit[of ?W wpool_Weight ws t] assms by (auto simp: total_weight_def)
  have r: "r = map bump (take (nat ?d) ?ss) @ drop (nat ?d) ?ss"
    unfolding r_def quota_pools_def Let_def using d by (intro bump_loop_take) (auto simp: go_sort)
  have len: "length ?ss = length ws" by (simp add: go_sort)
  have ssum: "sum_list (map wpool_Quota ?ss) = sum_list (map wpool_Quota ?fs)"
    by (metis mset_SliceStable mset_map sum_mset_sum_list)
  have "sum_list (map wpool_Quota r) = sum_list (map wpool_Quota (take (nat ?d) ?ss @ drop (nat ?d) ?ss))
      + int (length (take (nat ?d) ?ss))"
  proof -
    have "sum_list (map wpool_Quota (map bump xs)) = sum_list (map wpool_Quota xs) + int (length xs)" for xs
      by (induction xs) auto
    then show ?thesis unfolding r by (simp only: map_append sum_list_append)
  qed
  then show "sum_list (map wpool_Quota r) = t"
    using d len ssum by (simp only: append_take_drop_id length_take)
  have "map wpool_Name r = map wpool_Name (take (nat ?d) ?ss @ drop (nat ?d) ?ss)"
    unfolding r by (simp add: o_def del: append_take_drop_id)
  then have "mset (map wpool_Name r) = mset (map wpool_Name ?ss)" by (simp only: append_take_drop_id)
  also have "\<dots> = mset (map wpool_Name ?fs)" by (simp only: mset_map mset_SliceStable)
  also have "map wpool_Name ?fs = map wpool_Name ws" by (simp add: floor_quota_def)
  finally show "mset (map wpool_Name r) = mset (map wpool_Name ws)" .
  have inss: "\<exists>v \<in> set ws. x = floor_quota t ?W v" if "x \<in> set ?ss" for x
    using that by (auto simp: go_sort)
  have inr: "(\<exists>x \<in> set (take (nat ?d) ?ss). w = bump x) \<or> w \<in> set (drop (nat ?d) ?ss)" if "w \<in> set r" for w
    using that unfolding r by auto
  have origin: "\<exists>v \<in> set ws. w = floor_quota t ?W v \<or> w = bump (floor_quota t ?W v)" if "w \<in> set r" for w
    using inr[OF that] inss[OF in_set_takeD] inss[OF in_set_dropD] by blast
  show "w \<in> set r \<Longrightarrow> \<exists>v \<in> set ws. wpool_Name v = wpool_Name w \<and> wpool_Weight v = wpool_Weight w"
    by (drule origin) (auto simp: floor_quota_def)
  show "w \<in> set r \<Longrightarrow> quota_fair t ?W w"
    by (drule origin) (auto simp: floor_quota_def quota_fair_def)
  have base: "wpool_Quota x = wpool_Weight x * t div ?W" if "x \<in> set ?ss" for x
    using inss[OF that] by (auto simp: floor_quota_def)
  have ord: "sorted_wrt (\<lambda>x y. \<not> remainder_less y x) (take (nat ?d) ?ss @ drop (nat ?d) ?ss)"
    using remainders.in_order_SliceStable[of ?fs] by (simp add: in_order_def)
  {
    assume v: "v \<in> set r" "wpool_Quota v = wpool_Weight v * t div ?W + 1"
      and w: "w \<in> set r" "wpool_Quota w = wpool_Weight w * t div ?W"
    obtain x where x: "x \<in> set (take (nat ?d) ?ss)" "v = bump x"
      using inr[OF v(1)] v(2) base[of v] by (auto dest: in_set_dropD)
    have wd: "w \<in> set (drop (nat ?d) ?ss)"
      using inr[OF w(1)] w(2) base by (auto dest: in_set_takeD)
    have "\<not> remainder_less w x" using ord x(1) wd unfolding sorted_wrt_append by blast
    then show "wpool_Remainder w \<le> wpool_Remainder v"
      using x(2) by (auto simp: remainder_less_def split: if_splits)
  }
qed

lemma quota_of_fold:
  assumes "distinct (map wpool_Name r)" "w \<in> set r"
  shows "quota_of (foldl (\<lambda>q w. AList.update (wpool_Name w) (wpool_Quota w) q) [] r) (wpool_Name w) = wpool_Quota w"
  using assms
proof (induction r rule: rev_induct)
  case (snoc x r)
  then show ?case
  proof (cases "w = x")
    case False
    with snoc.prems have "w \<in> set r" "wpool_Name x \<notin> wpool_Name ` set r" by auto
    then have "wpool_Name w \<noteq> wpool_Name x" by (metis imageI)
    with snoc False show ?thesis by (simp add: quota_of_def update_conv')
  qed (simp add: quota_of_def update_conv')
qed simp

section \<open>Pools and candidates\<close>

lemma candidates_of_group: "candidates_of (group_by_pool cs) name = filter (\<lambda>c. cand_PoolName c = name) cs"
  by (induction cs rule: rev_induct) (auto simp: group_by_pool_def candidates_of_def update_conv')

lemma weighted_pools_weights: "w \<in> set (weighted_pools pools byPool) \<Longrightarrow> 1 \<le> wpool_Weight w \<and> wpool_Weight w \<le> 1000"
  using normalizeWeight_bounds by (auto simp: weighted_pools_def)

lemma total_weight_pos: "ws \<noteq> [] \<Longrightarrow> (\<And>w. w \<in> set ws \<Longrightarrow> 1 \<le> wpool_Weight w) \<Longrightarrow> 0 < total_weight ws"
proof (induction ws)
  case (Cons w ws)
  then show ?case by (cases "ws = []") (force simp: total_weight_def)+
qed simp

lemma selectPoolByBucket_in:
  assumes "pools \<noteq> []"
  shows "selectPoolByBucket pools bucket \<in> wap_Name ` set pools"
proof -
  have "pool_at_point p a ps = Some n \<Longrightarrow> n \<in> wap_Name ` set ps" for p a ps n
    by (induction ps arbitrary: a) (auto split: if_splits)
  moreover have "0 < sum_list (map (\<lambda>p. normalizeWeight (wap_Weight p)) pools)"
    using assms normalizeWeight_bounds by (induction pools) (auto intro!: add_pos_nonneg sum_list_nonneg
        simp: order.strict_trans2[OF _ conjunct1[OF normalizeWeight_bounds]] order_trans[OF _ conjunct1[OF normalizeWeight_bounds]])
  ultimately show ?thesis
    using assms by (auto simp: selectPoolByBucket_def Let_def not_le split: option.splits)
qed

section \<open>Filling up\<close>

abbreviation contents :: "targetCandidate list \<Rightarrow> string set" where
  "contents cs \<equiv> cand_Content ` set cs"

definition partial_selection :: "int \<Rightarrow> targetCandidate list \<Rightarrow> targetCandidate list \<Rightarrow> bool" where
  "partial_selection t cs sel \<longleftrightarrow>
    set sel \<subseteq> set cs \<and> distinct (map cand_Content sel) \<and> int (length sel) \<le> t"

lemma pick_quota_partial:
  "partial_selection t cs sel \<Longrightarrow> set ds \<subseteq> set cs \<Longrightarrow> partial_selection t cs (pick_quota t q ds sel)"
  by (induction ds arbitrary: q sel) (auto simp: partial_selection_def)

lemma fill_up_partial:
  "partial_selection t cs sel \<Longrightarrow> set ds \<subseteq> set cs \<Longrightarrow> partial_selection t cs (fill_up t ds sel)"
  by (induction ds arbitrary: sel) (auto simp: partial_selection_def)

lemma fill_up_complete:
  "int (length (fill_up t ds sel)) < t \<Longrightarrow> contents sel \<union> contents ds \<subseteq> contents (fill_up t ds sel)"
proof (induction ds arbitrary: sel)
  case (Cons d ds)
  have mono: "contents sel \<subseteq> contents (fill_up t ds sel)" for sel
    by (induction ds arbitrary: sel) fastforce+
  show ?case
    using Cons.prems Cons.IH[of sel] Cons.IH[of "sel @ [d]"] mono[of sel] by (auto split: if_splits)
qed simp

lemma partial_selection_card:
  assumes "partial_selection t cs sel"
  shows "int (length sel) \<le> min t (int (card (contents cs)))"
proof -
  have "length sel = card (contents sel)"
    using assms by (metis distinct_card length_map list.set_map partial_selection_def)
  also have "\<dots> \<le> card (contents cs)" using assms by (intro card_mono) (auto simp: partial_selection_def)
  finally show ?thesis using assms by (simp add: partial_selection_def)
qed

lemma filled_length:
  assumes "partial_selection t cs sel" "set ds = set cs"
  defines "r \<equiv> (if int (length sel) < t then fill_up t ds sel else sel)"
  shows "partial_selection t cs r \<and> int (length r) = min t (int (card (contents cs)))"
proof -
  have p: "partial_selection t cs r"
    using assms(1,2) fill_up_partial[of t cs sel ds] by (simp add: r_def)
  have "contents cs \<subseteq> contents r" if "int (length r) < t"
    using that fill_up_complete[of t ds sel] assms(2) by (simp add: r_def split: if_splits)
  moreover have "length r = card (contents r)"
    using p by (metis distinct_card length_map list.set_map partial_selection_def)
  ultimately have "min t (int (card (contents cs))) \<le> int (length r)"
    using card_mono[of "contents r" "contents cs"] by fastforce
  with p partial_selection_card[OF p] show ?thesis by linarith
qed

lemma partial_selection_Nil: "0 \<le> t \<Longrightarrow> partial_selection t cs []"
  by (simp add: partial_selection_def)

lemma pick_pools_partial:
  assumes "0 \<le> t"
  shows "partial_selection t cs (pick_pools t quotas (group_by_pool cs) pools)"
  unfolding pick_pools_def
proof (induction pools rule: rev_induct)
  case Nil
  then show ?case using assms by (simp add: partial_selection_Nil)
next
  case (snoc p ps)
  then show ?case by (simp add: candidates_of_group pick_quota_partial)
qed

section \<open>Both selections\<close>

text \<open>What a selection of \<open>t\<close> targets among the candidates promises.\<close>

definition selection_ok :: "int \<Rightarrow> targetCandidate list \<Rightarrow> string list \<Rightarrow> bool" where
  "selection_ok t cs ts \<longleftrightarrow>
    distinct ts \<and> set ts \<subseteq> contents cs \<and> int (length ts) = min t (int (card (contents cs)))"

lemma selection_ok_sorted:
  "partial_selection t cs r \<Longrightarrow> int (length r) = min t (int (card (contents cs))) \<Longrightarrow>
    selection_ok t cs (map cand_Content (sortCandidates r st))"
  by (auto simp: selection_ok_def partial_selection_def sortCandidates_def go_sort)

lemma selectRankedTargets_ok:
  "selection_ok (normalizeTargetCount (pol_TargetCount p)) cs (selectRankedTargets cs p)"
proof (cases "cs = []")
  case True
  then show ?thesis
    using normalizeTargetCount_bounds[of "pol_TargetCount p"] by (simp add: selectRankedTargets_def selection_ok_def)
next
  case False
  let ?t = "normalizeTargetCount (pol_TargetCount p)"
  have "partial_selection ?t cs (pick_pools ?t (allocatePoolQuotas (pol_Pools p) ?t (group_by_pool cs)) (group_by_pool cs) (pol_Pools p))"
    using normalizeTargetCount_bounds[of "pol_TargetCount p"] by (intro pick_pools_partial) simp
  from filled_length[OF this refl] False show ?thesis
    by (simp add: selectRankedTargets_def Let_def selection_ok_sorted)
qed

lemma spread_fold_found:
  assumes "foldl (spread_step env st key slot used fm) best cs = Some (b, sc)"
  shows "b \<in> set cs \<and> cand_Content b \<notin> set used \<or> (\<exists>sc'. best = Some (b, sc'))"
  using assms
proof (induction cs arbitrary: best)
  case (Cons c cs)
  have "spread_step env st key slot used fm best c = best
      \<or> (cand_Content c \<notin> set used \<and> (\<exists>s. spread_step env st key slot used fm best c = Some (c, s)))"
    by (auto simp: spread_step_def Let_def split: option.splits)
  with Cons show ?case by fastforce
qed simp

lemma selectCandidateBySpread_found:
  "selectCandidateBySpread env cs st key slot used = Some c \<Longrightarrow> c \<in> set cs \<and> cand_Content c \<notin> set used"
  by (auto simp: selectCandidateBySpread_def Let_def dest!: spread_fold_found)

lemma spread_slots_partial:
  assumes "partial_selection t cs sel" "int (length sel) + int n \<le> t"
  shows "partial_selection t cs (spread_slots n env st sp pools (group_by_pool cs) limit slot sel)"
  using assms
proof (induction n arbitrary: slot sel)
  case (Suc n)
  have step: "partial_selection t cs (sel @ [c])"
    if "selectCandidateBySpread env (candidates_of (group_by_pool cs) name) st (sp_Key sp) slot (map cand_Content sel) = Some c"
    for c name
    using selectCandidateBySpread_found[OF that] Suc.prems
    by (auto simp: partial_selection_def candidates_of_group)
  show ?case
    using Suc.prems Suc.IH step by (auto simp: Let_def split: option.splits)
qed simp

lemma available_pools_nonempty:
  "p \<in> set pools \<Longrightarrow> pool_Enabled p \<Longrightarrow> normalizeNodePoolName (pool_Name p) \<notin> set seen \<Longrightarrow>
    candidates_of byPool (normalizeNodePoolName (pool_Name p)) \<noteq> [] \<Longrightarrow> available_pools byPool seen pools \<noteq> []"
  by (induction pools arbitrary: seen) auto

text \<open>Some candidate belongs to an enabled pool of the policy.\<close>

definition has_enabled_pool :: "GSLBPolicy \<Rightarrow> targetCandidate list \<Rightarrow> bool" where
  "has_enabled_pool policy cs \<longleftrightarrow> (\<exists>c \<in> set cs. \<exists>p \<in> set (pol_Pools policy).
    pool_Enabled p \<and> normalizeNodePoolName (pool_Name p) = cand_PoolName c)"

lemma selectSourceSpreadTargets_ok:
  assumes "cs = [] \<or> has_enabled_pool p cs"
  shows "selection_ok (normalizeTargetCount (pol_TargetCount p)) cs (selectSourceSpreadTargets env cs p sp)"
proof (cases "cs = []")
  case True
  then show ?thesis
    using normalizeTargetCount_bounds[of "pol_TargetCount p"]
    by (simp add: selectSourceSpreadTargets_def selection_ok_def)
next
  case False
  let ?t = "normalizeTargetCount (pol_TargetCount p)"
  let ?pools = "weightedAvailablePools (pol_Pools p) (group_by_pool cs)"
  obtain c pool where "c \<in> set cs" "pool \<in> set (pol_Pools p)" "pool_Enabled pool"
      "normalizeNodePoolName (pool_Name pool) = cand_PoolName c"
    using assms False by (auto simp: has_enabled_pool_def)
  then have np: "?pools \<noteq> []"
    unfolding weightedAvailablePools_def
    by (intro available_pools_nonempty[of pool]) (auto simp: candidates_of_group filter_empty_conv)
  have "partial_selection ?t cs (spread_slots (nat ?t) env (pol_Strategy p) sp ?pools (group_by_pool cs) (length cs) 0 [])"
    using normalizeTargetCount_bounds[of "pol_TargetCount p"]
    by (intro spread_slots_partial partial_selection_Nil) auto
  moreover have "set (selectRankedCandidates cs (pol_Strategy p)) = set cs"
    by (simp add: selectRankedCandidates_def sortCandidates_def go_sort)
  ultimately show ?thesis
    using filled_length False np by (simp add: selectSourceSpreadTargets_def Let_def selection_ok_sorted)
qed

lemma selectWeightedTargets_ok:
  assumes "cs = [] \<or> has_enabled_pool p cs"
  shows "selection_ok (normalizeTargetCount (pol_TargetCount p)) cs (selectWeightedTargets env cs p sp)"
  using assms selectRankedTargets_ok selectSourceSpreadTargets_ok
  by (auto simp: selectWeightedTargets_def split: option.splits)


section \<open>Shares of the buckets\<close>

lemma ceiling_div:
  fixes x b W :: int
  assumes "0 < W"
  shows "(x + W - 1) div W \<le> b \<longleftrightarrow> x \<le> b * W"
    and "x \<le> (x + W - 1) div W * W" "(x + W - 1) div W * W < x + W"
proof -
  define q where "q = (x + W - 1) div W"
  have m: "q * W + (x + W - 1) mod W = x + W - 1" by (simp add: q_def)
  have r: "0 \<le> (x + W - 1) mod W" "(x + W - 1) mod W < W" using assms by simp_all
  have g: "x \<le> q * W" "q * W < x + W" using m r by linarith+
  then show "x \<le> (x + W - 1) div W * W" "(x + W - 1) div W * W < x + W" by (simp_all only: q_def)
  show "(x + W - 1) div W \<le> b \<longleftrightarrow> x \<le> b * W"
  proof
    assume "(x + W - 1) div W \<le> b"
    then have "q * W \<le> b * W" using assms by (simp add: q_def)
    then show "x \<le> b * W" using g by linarith
  next
    assume x: "x \<le> b * W"
    have "q * W < (b + 1) * W" using g x by (simp add: distrib_right)
    then show "(x + W - 1) div W \<le> b" using assms by (simp add: q_def mult_less_cancel_right)
  qed
qed

lemma bucket_interval_card:
  fixes W lo w :: int
  assumes "0 < W" "0 \<le> lo" "0 < w" "lo + w \<le> W"
  defines "S \<equiv> {b \<in> {0..99}. lo \<le> b * W div 100 \<and> b * W div 100 < lo + w}"
  shows "\<bar>int (card S) * W - 100 * w\<bar> < W"
proof -
  define L H where "L = (100 * lo + W - 1) div W" and "H = (100 * (lo + w) + W - 1) div W"
  note cL = ceiling_div[OF assms(1), of "100 * lo", folded L_def]
    and cH = ceiling_div[OF assms(1), of "100 * (lo + w)", folded H_def]
  have HL: "L \<le> H" unfolding L_def H_def using assms by (intro zdiv_mono1) auto
  have L0: "0 \<le> L" unfolding L_def using assms by (simp add: pos_imp_zdiv_nonneg_iff)
  have H100: "H \<le> 100" using cH(1)[of 100] assms(4) by simp
  have d: "u \<le> v div 100 \<longleftrightarrow> 100 * u \<le> v" for u v :: int
    using div_mult_mod_eq[of v 100] pos_mod_bound[of 100 v] pos_mod_sign[of 100 v] by linarith
  have mem: "(lo \<le> b * W div 100 \<and> b * W div 100 < lo + w) \<longleftrightarrow> L \<le> b \<and> b < H" for b
  proof -
    have "lo \<le> b * W div 100 \<longleftrightarrow> L \<le> b" unfolding d cL(1) ..
    moreover have "b * W div 100 < lo + w \<longleftrightarrow> b < H" unfolding not_le[symmetric] d cH(1) ..
    ultimately show ?thesis by blast
  qed
  have "S = {L..<H}" unfolding S_def mem using L0 H100 by auto
  then have "int (card S) = H - L" using HL by simp
  then have "int (card S) * W = H * W - L * W" by (simp add: left_diff_distrib)
  then show ?thesis using cL(2,3) cH(2,3) by (simp add: abs_less_iff)
qed

lemma pool_at_point_iff:
  assumes "distinct (map wap_Name (ps @ p # qs))" "a \<le> point"
  shows "pool_at_point point a (ps @ p # qs) = Some (wap_Name p) \<longleftrightarrow>
    a + sum_list (map (\<lambda>p. normalizeWeight (wap_Weight p)) ps) \<le> point
    \<and> point < a + sum_list (map (\<lambda>p. normalizeWeight (wap_Weight p)) ps) + normalizeWeight (wap_Weight p)"
  using assms
proof (induction ps arbitrary: a)
  case Nil
  have "pool_at_point point b qs \<noteq> Some (wap_Name p)" for b
    using Nil.prems(1) by (induction qs arbitrary: b) (auto split: if_splits)
  then show ?case using Nil.prems by auto
next
  case (Cons x ps)
  have "0 \<le> sum_list (map (\<lambda>p. normalizeWeight (wap_Weight p)) ps)"
    using normalizeWeight_bounds by (intro sum_list_nonneg) (auto intro: order_trans[of 0 1])
  then show ?case
    using Cons.prems Cons.IH[of "a + normalizeWeight (wap_Weight x)"] normalizeWeight_bounds[of "wap_Weight x"]
    by (auto simp: algebra_simps)
qed

definition pools_weight :: "weightedAvailablePool list \<Rightarrow> int" where
  "pools_weight ps = sum_list (map (\<lambda>p. normalizeWeight (wap_Weight p)) ps)"

lemma pools_weight_nonneg: "0 \<le> pools_weight ps"
  unfolding pools_weight_def using normalizeWeight_bounds
  by (intro sum_list_nonneg) (auto intro: order_trans[of 0 1])

lemma pool_at_point_total:
  "a \<le> point \<Longrightarrow> point < a + pools_weight ps \<Longrightarrow> pool_at_point point a ps \<noteq> None"
  by (induction ps arbitrary: a) (auto simp: pools_weight_def algebra_simps)

lemma selectPoolByBucket_iff:
  assumes "pools = ps @ p # qs" "distinct (map wap_Name pools)" "b \<in> {0..99}"
  shows "selectPoolByBucket pools b = wap_Name p \<longleftrightarrow>
    pools_weight ps \<le> b * pools_weight pools div 100
    \<and> b * pools_weight pools div 100 < pools_weight ps + normalizeWeight (wap_Weight p)"
proof -
  have W: "0 < pools_weight pools"
    using pools_weight_nonneg[of ps] pools_weight_nonneg[of qs] normalizeWeight_bounds[of "wap_Weight p"]
    by (simp add: assms(1) pools_weight_def)
  have pt: "0 \<le> b * pools_weight pools div 100" "b * pools_weight pools div 100 < pools_weight pools"
  proof -
    show "0 \<le> b * pools_weight pools div 100" using assms(3) W by (simp add: pos_imp_zdiv_nonneg_iff)
    have "b * pools_weight pools < 100 * pools_weight pools" using assms(3) W by simp
    then show "b * pools_weight pools div 100 < pools_weight pools" by simp
  qed
  obtain n where n: "pool_at_point (b * pools_weight pools div 100) 0 pools = Some n"
    using pool_at_point_total[of 0 "b * pools_weight pools div 100" pools] pt by auto
  have "selectPoolByBucket pools b = n"
    using assms(1,3) W n by (auto simp: selectPoolByBucket_def Let_def pools_weight_def)
  then show ?thesis
    using n pool_at_point_iff[of ps p qs 0 "b * pools_weight pools div 100"] assms(1,2) pt
    by (auto simp: pools_weight_def)
qed

section \<open>Properties\<close>

text \<open>C14: \<open>allocatePoolQuotas\<close> is a largest-remainder apportionment. Over the pools that have
  candidates, with distinct names, the quotas add up to the target count; each is the floor of the
  pool's proportional share or one more; and a pool that gets one more has at least the remainder of
  every pool that does not.\<close>

theorem quotas_largest_remainder:
  fixes pools byPool targetCount
  defines "ws \<equiv> weighted_pools pools byPool" and "t \<equiv> normalizeTargetCount targetCount"
    and "q \<equiv> quota_of (allocatePoolQuotas pools targetCount byPool)"
  assumes "distinct (map wpool_Name ws)" "ws \<noteq> []"
  shows "sum_list (map (\<lambda>w. q (wpool_Name w)) ws) = t
    \<and> (\<forall>w \<in> set ws. q (wpool_Name w) - wpool_Weight w * t div total_weight ws \<in> {0, 1})
    \<and> (\<forall>v \<in> set ws. \<forall>w \<in> set ws.
        q (wpool_Name v) = wpool_Weight v * t div total_weight ws + 1
        \<and> q (wpool_Name w) = wpool_Weight w * t div total_weight ws \<longrightarrow>
        wpool_Weight w * t mod total_weight ws \<le> wpool_Weight v * t mod total_weight ws)"
proof -
  let ?r = "quota_pools t ws"
  have pos: "0 < total_weight ws"
    using total_weight_pos[OF assms(5)] weighted_pools_weights unfolding ws_def by blast
  have t0: "0 \<le> t" using normalizeTargetCount_bounds[of targetCount] by (simp add: t_def)
  have wn: "\<forall>w \<in> set ws. 0 \<le> wpool_Weight w"
    using weighted_pools_weights unfolding ws_def by (meson order_trans zero_le_one)
  note props = quota_pools_props[OF pos t0 wn]
  have dr: "distinct (map wpool_Name ?r)"
    using props(2) assms(4) by (metis mset_eq_imp_distinct_iff)
  have alloc: "allocatePoolQuotas pools targetCount byPool =
      foldl (\<lambda>q w. AList.update (wpool_Name w) (wpool_Quota w) q) [] ?r"
    using pos assms(5) unfolding allocatePoolQuotas_eq Let_def ws_def t_def by simp
  have qr: "q (wpool_Name x) = wpool_Quota x" if "x \<in> set ?r" for x
    unfolding q_def alloc using dr that by (rule quota_of_fold)
  have same: "\<exists>x \<in> set ?r. wpool_Name x = wpool_Name w \<and> wpool_Weight x = wpool_Weight w" if "w \<in> set ws" for w
  proof -
    have "wpool_Name w \<in> set (map wpool_Name ?r)"
      using props(2) that by (metis list.set_map image_eqI set_mset_mset)
    then obtain x where x: "x \<in> set ?r" "wpool_Name x = wpool_Name w" by auto
    with props(3)[OF x(1)] obtain v where "v \<in> set ws" "wpool_Name v = wpool_Name w" "wpool_Weight v = wpool_Weight x"
      by auto
    then have "v = w" using assms(4) that by (auto simp: distinct_map dest: inj_onD)
    with x \<open>wpool_Weight v = wpool_Weight x\<close> show ?thesis by auto
  qed
  have "sum_list (map (\<lambda>w. q (wpool_Name w)) ws) = sum_list (map q (map wpool_Name ws))" by (simp add: o_def)
  also have "\<dots> = sum_list (map q (map wpool_Name ?r))"
    using props(2) by (metis mset_map sum_mset_sum_list)
  also have "\<dots> = sum_list (map wpool_Quota ?r)" using qr by (simp add: o_def cong: map_cong)
  finally have sum: "sum_list (map (\<lambda>w. q (wpool_Name w)) ws) = t" using props(1) by simp
  have fair: "q (wpool_Name w) - wpool_Weight w * t div total_weight ws \<in> {0, 1}" if "w \<in> set ws" for w
    using same[OF that] qr props(4) by (fastforce simp: quota_fair_def)
  have "wpool_Weight w * t mod total_weight ws \<le> wpool_Weight v * t mod total_weight ws"
    if v: "v \<in> set ws" "q (wpool_Name v) = wpool_Weight v * t div total_weight ws + 1"
    and w: "w \<in> set ws" "q (wpool_Name w) = wpool_Weight w * t div total_weight ws" for v w
  proof -
    obtain x y where "x \<in> set ?r" "wpool_Name x = wpool_Name v" "wpool_Weight x = wpool_Weight v"
      "y \<in> set ?r" "wpool_Name y = wpool_Name w" "wpool_Weight y = wpool_Weight w"
      using same[OF v(1)] same[OF w(1)] by auto
    then show ?thesis
      using props(5)[of x y] props(4)[of x] props(4)[of y] qr[of x] qr[of y] v(2) w(2)
      by (simp add: quota_fair_def)
  qed
  with sum fair show ?thesis by blast
qed

definition two_pools :: "GSLBPoolPolicy list" where
  "two_pools =
    [zero_GSLBPoolPolicy\<lparr>pool_Name := ''a'', pool_Weight := 70, pool_Enabled := True\<rparr>,
     zero_GSLBPoolPolicy\<lparr>pool_Name := ''b'', pool_Weight := 30, pool_Enabled := True\<rparr>]"

definition pool_candidate :: "string \<Rightarrow> string \<Rightarrow> targetCandidate" where
  "pool_candidate pool ip = base_candidate False zero_GSLBPoolPolicy (sample_node ip pool ip) ip"

definition two_pool_candidates :: "targetCandidate list" where
  "two_pool_candidates =
    [pool_candidate ''a'' ''8.8.8.8'', pool_candidate ''b'' ''9.9.9.9'', pool_candidate ''a'' ''1.1.1.1'']"

theorem quotas_largest_remainder_witness:
  "sum_list (map (\<lambda>w. quota_of (allocatePoolQuotas two_pools 3 (group_by_pool two_pool_candidates)) (wpool_Name w))
    (weighted_pools two_pools (group_by_pool two_pool_candidates))) = 3"
proof -
  have "distinct (map wpool_Name (weighted_pools two_pools (group_by_pool two_pool_candidates)))"
    "weighted_pools two_pools (group_by_pool two_pool_candidates) \<noteq> []" "normalizeTargetCount 3 = 3"
    by code_simp+
  with quotas_largest_remainder[of two_pools "group_by_pool two_pool_candidates" 3] show ?thesis by simp
qed

text \<open>\<open>allocatePoolQuotas\<close> always returns: its loop over the targets that are left runs forever exactly when it is entered with
  targets to hand out and no pool, and the test before it returns early without pools.\<close>

theorem quota_loop_ends:
  "allocate_run pools targetCount byPool \<noteq> None
    \<and> (bump_while n assigned ws = None \<longleftrightarrow> assigned < n \<and> ws = [])"
proof
  show "allocate_run pools targetCount byPool \<noteq> None" by (simp add: allocate_run_quotas Let_def)
  show "bump_while n assigned ws = None \<longleftrightarrow> assigned < n \<and> ws = []"
    using bump_while_stuck[of n assigned ws] bump_while_loop[of ws n assigned] bump_while_done[of n assigned ws]
    by (cases "assigned < n"; cases "ws = []"; cases "bump_while n assigned ws") auto
qed

text \<open>C11: A selection returns exactly as many targets as the policy asks for, or all candidates when
  there are fewer: distinct addresses, each of a candidate. This holds for both strategies, for any
  hash function and logarithm, once some candidate belongs to an enabled pool.\<close>

theorem selection_exact:
  assumes "has_enabled_pool policy candidates" "distinct (map cand_Content candidates)"
  shows "distinct (selectWeightedTargets env candidates policy spread)
    \<and> set (selectWeightedTargets env candidates policy spread) \<subseteq> set (map cand_Content candidates)
    \<and> int (length (selectWeightedTargets env candidates policy spread)) =
        min (normalizeTargetCount (pol_TargetCount policy)) (int (length candidates))"
proof -
  have "card (contents candidates) = length candidates"
    using assms(2) by (metis distinct_card length_map list.set_map)
  then show ?thesis
    using selectWeightedTargets_ok[of candidates policy env spread] assms(1) by (simp add: selection_ok_def)
qed

theorem selection_exact_witness:
  "length (selectWeightedTargets \<lparr>he_Sum256 = (\<lambda>s. map of_char s), he_Log = (\<lambda>x. x - 1)\<rparr> two_pool_candidates
     (zero_GSLBPolicy\<lparr>pol_Pools := two_pools, pol_TargetCount := 2, pol_Strategy := ''weighted''\<rparr>)
     (Some \<lparr>sp_Key = ''k'', sp_Bucket = 42\<rparr>)) = 2"
proof -
  let ?p = "zero_GSLBPolicy\<lparr>pol_Pools := two_pools, pol_TargetCount := 2, pol_Strategy := ''weighted''\<rparr>"
  have "list_ex (\<lambda>c. list_ex (\<lambda>p. pool_Enabled p \<and> normalizeNodePoolName (pool_Name p) = cand_PoolName c) two_pools)
      two_pool_candidates" by code_simp
  then have "has_enabled_pool ?p two_pool_candidates"
    by (auto simp: has_enabled_pool_def list_ex_iff)
  moreover have "distinct (map cand_Content two_pool_candidates)" by code_simp
  ultimately have "int (length (selectWeightedTargets \<lparr>he_Sum256 = (\<lambda>s. map of_char s), he_Log = (\<lambda>x. x - 1)\<rparr>
      two_pool_candidates ?p (Some \<lparr>sp_Key = ''k'', sp_Bucket = 42\<rparr>))) =
    min (normalizeTargetCount 2) (int (length two_pool_candidates))"
    using selection_exact[of ?p two_pool_candidates] by simp
  then show ?thesis by (simp add: normalizeTargetCount_def two_pool_candidates_def)
qed

text \<open>The hundred source buckets are shared among the available pools in proportion to their
  weights: the number of buckets a pool gets differs from its exact share by less than one.\<close>

theorem bucket_shares_proportional:
  assumes "distinct (map wap_Name pools)" "p \<in> set pools"
  shows "\<bar>int (card {b \<in> {0..99}. selectPoolByBucket pools b = wap_Name p}) * pools_weight pools
      - 100 * normalizeWeight (wap_Weight p)\<bar> < pools_weight pools"
proof -
  obtain ps qs where pools: "pools = ps @ p # qs" using assms(2) by (metis in_set_conv_decomp)
  have "{b \<in> {0..99}. selectPoolByBucket pools b = wap_Name p} =
    {b \<in> {0..99}. pools_weight ps \<le> b * pools_weight pools div 100
      \<and> b * pools_weight pools div 100 < pools_weight ps + normalizeWeight (wap_Weight p)}"
    using selectPoolByBucket_iff[OF pools assms(1)] by blast
  moreover have "pools_weight ps + normalizeWeight (wap_Weight p) \<le> pools_weight pools"
    using pools_weight_nonneg[of qs] by (simp add: pools pools_weight_def)
  moreover have "0 < normalizeWeight (wap_Weight p)" using normalizeWeight_bounds[of "wap_Weight p"] by simp
  ultimately show ?thesis
    using pools_weight_nonneg[of ps]
    by (simp only:) (intro bucket_interval_card, linarith+)
qed

theorem bucket_shares_proportional_witness:
  "\<bar>int (card {b \<in> {0..99}. selectPoolByBucket [\<lparr>wap_Name = ''a'', wap_Weight = 70\<rparr>, \<lparr>wap_Name = ''b'', wap_Weight = 30\<rparr>] b = ''a''})
    * 100 - 7000\<bar> < 100"
  using bucket_shares_proportional[of "[\<lparr>wap_Name = ''a'', wap_Weight = 70\<rparr>, \<lparr>wap_Name = ''b'', wap_Weight = 30\<rparr>]"
      "\<lparr>wap_Name = ''a'', wap_Weight = 70\<rparr>"]
  by (simp add: pools_weight_def normalizeWeight_def)

end
