(* ===== verification/DNS_Types.thy ===== *)
theory DNS_Types
  imports Normalize
begin

text \<open>
  The messages of package \<open>github.com/miekg/dns\<close> as far as the worker builds and reads them: headers,
  the resource records of \<open>server.go\<close> and \<open>dnssec.go\<close>, questions, the EDNS0 option with its client
  subnets, and a message. The functions of that package and of the cryptographic libraries that the
  worker calls are the fields of a record (\<open>dns_env\<close>) that the definitions take as an argument.
\<close>

definition TypeA :: nat where "TypeA = 1"
definition TypeNS :: nat where "TypeNS = 2"
definition TypeCNAME :: nat where "TypeCNAME = 5"
definition TypeSOA :: nat where "TypeSOA = 6"
definition TypeMX :: nat where "TypeMX = 15"
definition TypeTXT :: nat where "TypeTXT = 16"
definition TypeAAAA :: nat where "TypeAAAA = 28"
definition TypeRRSIG :: nat where "TypeRRSIG = 46"
definition TypeNSEC :: nat where "TypeNSEC = 47"
definition TypeDNSKEY :: nat where "TypeDNSKEY = 48"
definition TypeNSEC3 :: nat where "TypeNSEC3 = 50"
definition TypeNSEC3PARAM :: nat where "TypeNSEC3PARAM = 51"
definition TypeIXFR :: nat where "TypeIXFR = 251"
definition TypeAXFR :: nat where "TypeAXFR = 252"
definition TypeCAA :: nat where "TypeCAA = 257"
definition ClassINET :: nat where "ClassINET = 1"

lemmas dns_type_defs =
  TypeA_def TypeNS_def TypeCNAME_def TypeSOA_def TypeMX_def TypeTXT_def TypeAAAA_def TypeRRSIG_def
  TypeNSEC_def TypeDNSKEY_def TypeNSEC3_def TypeNSEC3PARAM_def TypeIXFR_def TypeAXFR_def TypeCAA_def

definition RcodeSuccess :: nat where "RcodeSuccess = 0"
definition RcodeFormatError :: nat where "RcodeFormatError = 1"
definition RcodeServerFailure :: nat where "RcodeServerFailure = 2"
definition RcodeNameError :: nat where "RcodeNameError = 3"
definition RcodeRefused :: nat where "RcodeRefused = 5"

lemmas rcode_defs =
  RcodeSuccess_def RcodeFormatError_def RcodeServerFailure_def RcodeNameError_def RcodeRefused_def

definition MinMsgSize :: int where "MinMsgSize = 512"
definition MaxMsgSize :: int where "MaxMsgSize = 65535"

record RR_Header =
  hdr_Name :: string
  hdr_Rrtype :: nat
  hdr_Class :: nat
  hdr_Ttl :: nat

record DNSKEY_RR =
  dk_Hdr :: RR_Header
  dk_Flags :: nat
  dk_Protocol :: nat
  dk_Algorithm :: nat
  dk_PublicKey :: string

record RRSIG_RR =
  sig_Hdr :: RR_Header
  sig_TypeCovered :: nat
  sig_Algorithm :: nat
  sig_Labels :: nat
  sig_OrigTtl :: nat
  sig_Expiration :: nat
  sig_Inception :: nat
  sig_KeyTag :: nat
  sig_SignerName :: string
  sig_Signature :: string

record NSEC3_RR =
  n3_Hdr :: RR_Header
  n3_Hash :: nat
  n3_Flags :: nat
  n3_Iterations :: nat
  n3_SaltLength :: nat
  n3_Salt :: string
  n3_HashLength :: nat
  n3_NextDomain :: string
  n3_TypeBitMap :: "nat list"

datatype RR =
    RR_A RR_Header "32 word"
  | RR_AAAA RR_Header "128 word"
  | RR_CNAME RR_Header string
  | RR_TXT RR_Header "string list"
  | RR_MX RR_Header nat string
  | RR_NS RR_Header string
  | RR_SOA RR_Header string string nat nat nat nat nat
  | RR_DNSKEY DNSKEY_RR
  | RR_NSEC RR_Header string "nat list"
  | RR_NSEC3 NSEC3_RR
  | RR_NSEC3PARAM RR_Header nat nat nat nat string
  | RR_RRSIG RRSIG_RR
  | RR_Parsed RR_Header string

fun rr_Header :: "RR \<Rightarrow> RR_Header" where
  "rr_Header (RR_A h a) = h"
| "rr_Header (RR_AAAA h a) = h"
| "rr_Header (RR_CNAME h t) = h"
| "rr_Header (RR_TXT h t) = h"
| "rr_Header (RR_MX h p m) = h"
| "rr_Header (RR_NS h n) = h"
| "rr_Header (RR_SOA h n m s r t e l) = h"
| "rr_Header (RR_DNSKEY k) = dk_Hdr k"
| "rr_Header (RR_NSEC h n b) = h"
| "rr_Header (RR_NSEC3 n) = n3_Hdr n"
| "rr_Header (RR_NSEC3PARAM h a f i l s) = h"
| "rr_Header (RR_RRSIG s) = sig_Hdr s"
| "rr_Header (RR_Parsed h t) = h"

record Question =
  q_Name :: string
  q_Qtype :: nat

text \<open>An \<open>EDNS0_SUBNET\<close> option; its address may be nil. Other options are \<open>EDNS0_Other\<close>.\<close>

datatype edns_option = EDNS0_SUBNET nat nat "net_ip option" | EDNS0_Other

record OPT =
  opt_UDPSize :: nat
  opt_Do :: bool
  opt_Option :: "edns_option list"

text \<open>A message; \<open>msg_Edns0\<close> is what \<open>IsEdns0\<close> returns.\<close>

record Msg =
  msg_Id :: nat
  msg_Response :: bool
  msg_Opcode :: nat
  msg_Authoritative :: bool
  msg_Truncated :: bool
  msg_RecursionDesired :: bool
  msg_RecursionAvailable :: bool
  msg_CheckingDisabled :: bool
  msg_Rcode :: nat
  msg_Question :: "Question list"
  msg_Answer :: "RR list"
  msg_Ns :: "RR list"
  msg_Extra :: "RR list"
  msg_Edns0 :: "OPT option"

definition zero_Msg :: Msg where
  "zero_Msg =
    \<lparr>msg_Id = 0, msg_Response = False, msg_Opcode = 0, msg_Authoritative = False, msg_Truncated = False,
     msg_RecursionDesired = False, msg_RecursionAvailable = False, msg_CheckingDisabled = False, msg_Rcode = 0,
     msg_Question = [], msg_Answer = [], msg_Ns = [], msg_Extra = [], msg_Edns0 = None\<rparr>"

text \<open>
  What the worker calls and does not contain. \<open>SetReply\<close> and \<open>SetRcode\<close> return the empty message made a
  reply to a request, the latter with a response code; \<open>TypeToString\<close> returns the empty text for a type without a
  name; \<open>NewRR\<close> parses a record from its text; \<open>HashName\<close> is the NSEC3 hash of a name with SHA-1;
  \<open>DecryptKey\<close> decrypts and parses the private key of a DNSKEY; \<open>KeyTag\<close>, \<open>CountLabel\<close> and \<open>SignRRset\<close> are the
  functions of the same names (the last one completes an RRSIG with its signature); \<open>MsgLen\<close> and
  \<open>MsgTruncate\<close> are the methods \<open>Len\<close> and \<open>Truncate\<close> of a message.
\<close>

record 'p dns_env =
  SetReply :: "Msg \<Rightarrow> Msg"
  SetRcode :: "Msg \<Rightarrow> nat \<Rightarrow> Msg"
  TypeToString :: "nat \<Rightarrow> string"
  StringToType :: "string \<Rightarrow> nat"
  NewRR :: "string \<Rightarrow> RR option"
  HashName :: "string \<Rightarrow> nat \<Rightarrow> string \<Rightarrow> string"
  DecryptKey :: "DNSKEY_RR \<Rightarrow> string \<Rightarrow> 'p option"
  KeyTag :: "DNSKEY_RR \<Rightarrow> nat"
  CountLabel :: "string \<Rightarrow> nat"
  SignRRset :: "'p \<Rightarrow> RRSIG_RR \<Rightarrow> RR list \<Rightarrow> RRSIG_RR option"
  MsgLen :: "Msg \<Rightarrow> int"
  MsgTruncate :: "Msg \<Rightarrow> int \<Rightarrow> Msg"

definition uint8 :: "int \<Rightarrow> nat" where "uint8 i = nat (i mod 2 ^ 8)"
definition uint16 :: "int \<Rightarrow> nat" where "uint16 i = nat (i mod 2 ^ 16)"
definition uint32 :: "int \<Rightarrow> nat" where "uint32 i = nat (i mod 2 ^ 32)"

lemma uint32_small: "0 \<le> i \<Longrightarrow> i < 2 ^ 32 \<Longrightarrow> uint32 i = nat i"
  by (simp add: uint32_def)

end
