(* ===== verification/Snapshot_Store.thy ===== *)
theory Snapshot_Store
  imports DNS_Types Go_Sort
begin

text \<open>
  The snapshot store (\<open>snapshot_store.go\<close>, with \<open>loadDNSSECKeys\<close> of \<open>dnssec.go\<close>): normalising a snapshot,
  building its index, the store's state and operations, and the envelope it is persisted in. A pointer
  to a snapshot is its allocation number with the snapshot, a pointer to a route the allocation number
  of its snapshot and its position there with the route; a pointer to a zone is the zone.

  JSON encoding and the file system are arguments: a file holds a value of type \<open>'raw\<close>, and a record
  \<open>codec\<close> has the encoders and decoders. The clock is an argument too.
\<close>

section \<open>Normalising a snapshot\<close>

definition normalizeWorkerPolicy :: "WorkerPolicy \<Rightarrow> WorkerPolicy" where
  "normalizeWorkerPolicy policy =
    (let policy = policy\<lparr>wp_QueryRateLimit := (if wp_QueryRateLimit policy < 0 then 0 else wp_QueryRateLimit policy)\<rparr>
     in if wp_QueryRateLimit policy = 0 \<and> wp_ResponseRateLimit policy = 0 \<and> wp_UDPResponseSize policy = 0
          \<and> wp_ECSIPv4Prefix policy = 0 \<and> wp_ECSIPv6Prefix policy = 0 \<and> \<not> wp_ECSEnabled policy
        then policy\<lparr>wp_QueryRateLimit := DefaultQueryRateLimit, wp_ResponseRateLimit := DefaultResponseRateLimit,
               wp_UDPResponseSize := DefaultUDPResponseSize, wp_ECSEnabled := True,
               wp_ECSIPv4Prefix := DefaultECSIPv4Prefix, wp_ECSIPv6Prefix := DefaultECSIPv6Prefix\<rparr>
        else
          (let size = (if wp_UDPResponseSize policy \<le> 0 then DefaultUDPResponseSize else wp_UDPResponseSize policy);
               size = (if size < 512 then 512 else size);
               size = (if size > 65535 then 65535 else size)
           in policy\<lparr>wp_ResponseRateLimit := (if wp_ResponseRateLimit policy < 0 then 0 else wp_ResponseRateLimit policy),
                wp_UDPResponseSize := size,
                wp_ECSIPv4Prefix := normalizePrefix (wp_ECSIPv4Prefix policy) 32 DefaultECSIPv4Prefix,
                wp_ECSIPv6Prefix := normalizePrefix (wp_ECSIPv6Prefix policy) 128 DefaultECSIPv6Prefix\<rparr>))"

definition normalize_dnssec_key :: "SnapshotDNSSECKey \<Rightarrow> SnapshotDNSSECKey" where
  "normalize_dnssec_key k =
    (let status = ToLower (TrimSpace (key_Status k))
     in k\<lparr>key_Role := ToLower (TrimSpace (key_Role k)), key_PublicKey := TrimSpace (key_PublicKey k),
          key_EncryptedPrivateKey := TrimSpace (key_EncryptedPrivateKey k),
          key_Status := (if status = [] then ''active'' else status)\<rparr>)"

definition normalize_record :: "string \<Rightarrow> int \<Rightarrow> SnapshotRecord \<Rightarrow> SnapshotRecord" where
  "normalize_record zoneName defaultTTL r =
    (let recordType = normalizeRecordType (rec_Type r)
     in r\<lparr>rec_Name := normalizeRecordName zoneName (rec_Name r), rec_Type := recordType,
          rec_TTL := normalizeStaticTTL (rec_TTL r) defaultTTL,
          rec_Value := (if recordType = ''CNAME'' \<or> recordType = ''MX'' \<or> recordType = ''NS''
            then normalizeDomain (rec_Value r) else rec_Value r)\<rparr>)"

definition normalize_zone :: "SnapshotZone \<Rightarrow> SnapshotZone" where
  "normalize_zone z =
    (let name = normalizeDomain (zone_Name z); ttl = normalizeStaticTTL (zone_DefaultTTL z) DefaultZoneTTL;
         sec = zone_DNSSEC z
     in z\<lparr>zone_Name := name, zone_PrimaryNS := normalizeDomain (zone_PrimaryNS z), zone_DefaultTTL := ttl,
          zone_NameServers := normalizeDomainList (zone_NameServers z),
          zone_DNSSEC := sec\<lparr>sec_DenialMode := normalizeDNSSECDenialMode (sec_DenialMode sec),
            sec_NSEC3Salt := ToUpper (TrimSpace (sec_NSEC3Salt sec)),
            sec_NSEC3Iterations := normalizeDNSSECNSEC3Iterations (sec_NSEC3Iterations sec),
            sec_SignatureValiditySeconds := normalizeDNSSECSignatureValidity (sec_SignatureValiditySeconds sec)\<rparr>,
          zone_DNSSECKeys := map normalize_dnssec_key (zone_DNSSECKeys z),
          zone_Records := map (normalize_record name ttl) (zone_Records z)\<rparr>)"

definition normalize_route_fields :: "SnapshotRoute \<Rightarrow> SnapshotRoute" where
  "normalize_route_fields r =
    r\<lparr>route_Domains := normalizeDomainList (route_Domains r),
      route_NodePool := normalizeNodePoolName (route_NodePool r),
      route_RecordType := normalizeAddressRecordType (route_RecordType r),
      route_TargetCount := normalizeTargetCount (route_TargetCount r),
      route_ScheduleMode := normalizeStrategy (route_ScheduleMode r),
      route_TTL := normalizeAuthoritativeTTL (route_TTL r)\<rparr>"

definition normalize_route :: "SnapshotRoute \<Rightarrow> SnapshotRoute" where
  "normalize_route r =
    (let r = normalize_route_fields r
     in r\<lparr>route_GSLBPolicy := normalizePolicy (route_GSLBPolicy r) r,
          route_CurrentTargets := normalizeIPList (route_CurrentTargets r) (route_RecordType r)\<rparr>)"

definition normalize_node :: "SnapshotNode \<Rightarrow> SnapshotNode" where
  "normalize_node n =
    n\<lparr>node_PoolName := normalizeNodePoolName (node_PoolName n),
      node_PublicIPs := normalizeIPList (node_PublicIPs n) [],
      node_Weight := normalizeWeight (node_Weight n),
      node_Status := ToLower (TrimSpace (node_Status n)),
      node_OpenrestyStatus := ToLower (TrimSpace (node_OpenrestyStatus n))\<rparr>"

definition normalize_scheduling_state :: "SnapshotSchedulingState \<Rightarrow> SnapshotSchedulingState" where
  "normalize_scheduling_state st =
    (let recordType = normalizeAddressRecordType (ss_RecordType st)
     in st\<lparr>ss_RecordType := recordType, ss_ScopeKey := normalizeSourceScope (ss_ScopeKey st),
           ss_SelectedTargets := normalizeIPList (ss_SelectedTargets st) recordType,
           ss_DesiredTargets := normalizeIPList (ss_DesiredTargets st) recordType\<rparr>)"

definition normalizeSnapshot :: "Snapshot \<Rightarrow> Snapshot" where
  "normalizeSnapshot s =
    s\<lparr>snap_WorkerPolicy := normalizeWorkerPolicy (snap_WorkerPolicy s),
      snap_Zones := map normalize_zone (snap_Zones s),
      snap_Routes := map normalize_route (snap_Routes s),
      snap_Nodes := map normalize_node (snap_Nodes s),
      snap_SchedulingStates :=
        filter (\<lambda>st. \<not> (ss_RouteID st = 0 \<or> length (ss_SelectedTargets st) = 0))
          (map normalize_scheduling_state (snap_SchedulingStates s))\<rparr>"

definition normalizeSnapshotSchedulingStateChangedAt ::
  "gotime option \<Rightarrow> gotime \<Rightarrow> gotime \<Rightarrow> gotime option" where
  "normalizeSnapshotSchedulingStateChangedAt changedAt now generatedAt =
    (case changedAt of
       None \<Rightarrow> None
     | Some t \<Rightarrow>
         if \<not> t > now then Some t
         else if generatedAt \<noteq> 0 \<and> \<not> generatedAt > now then Some generatedAt
         else Some now)"

definition normalizeSnapshotRuntimeTimes :: "Snapshot \<Rightarrow> gotime \<Rightarrow> Snapshot" where
  "normalizeSnapshotRuntimeTimes s now =
    (let generated = (if snap_GeneratedAt s > now then now else snap_GeneratedAt s)
     in s\<lparr>snap_GeneratedAt := generated,
          snap_SchedulingStates := map (\<lambda>st. st\<lparr>ss_LastChangedAt :=
            normalizeSnapshotSchedulingStateChangedAt (ss_LastChangedAt st) now generated\<rparr>)
              (snap_SchedulingStates s)\<rparr>)"

section \<open>The index\<close>

record recordKey =
  rk_ZoneID :: nat
  rk_Name :: string
  rk_Type :: string

type_synonym snapshot_ptr = "nat \<times> Snapshot"
type_synonym route_ptr = "(nat \<times> nat) \<times> SnapshotRoute"

record 'p dnssecRuntimeKey =
  rt_role :: string
  rt_key :: DNSKEY_RR
  rt_privateKey :: 'p

record 'p snapshotIndex =
  ix_zonesByID :: "(nat, SnapshotZone) gomap"
  ix_zonesByName :: "(string, SnapshotZone) gomap"
  ix_routesByDomain :: "(string, route_ptr list) gomap"
  ix_routesByWildcard :: "(string, route_ptr list) gomap"
  ix_policiesByRouteID :: "(nat, GSLBPolicy) gomap option"
  ix_recordsByNameType :: "(recordKey, SnapshotRecord list) gomap"
  ix_namesByZone :: "(nat, string list) gomap"
  ix_dnssecKeysByZone :: "(nat, 'p dnssecRuntimeKey list) gomap option"
  ix_sortedNamesByZone :: "(nat, string list) gomap option"
  ix_sortedNSEC3HashesByZone :: "(nat, string list) gomap option"

text \<open>\<open>snapshotIndex{}\<close> has nil maps: a nil map reads as empty, and some functions test for nil.\<close>

definition zero_index :: "'p snapshotIndex" where
  "zero_index =
    \<lparr>ix_zonesByID = [], ix_zonesByName = [], ix_routesByDomain = [], ix_routesByWildcard = [],
     ix_policiesByRouteID = None, ix_recordsByNameType = [], ix_namesByZone = [],
     ix_dnssecKeysByZone = None, ix_sortedNamesByZone = None, ix_sortedNSEC3HashesByZone = None\<rparr>"

definition empty_index :: "'p snapshotIndex" where
  "empty_index =
    zero_index\<lparr>ix_policiesByRouteID := Some [], ix_dnssecKeysByZone := Some [],
      ix_sortedNamesByZone := Some [], ix_sortedNSEC3HashesByZone := Some []\<rparr>"

text \<open>A map into slices that is appended to, and a map into sets (kept as lists without repetition).\<close>

definition gm_list :: "('k, 'v list) gomap \<Rightarrow> 'k \<Rightarrow> 'v list" where
  "gm_list m k = (case map_of m k of None \<Rightarrow> [] | Some vs \<Rightarrow> vs)"

definition gm_append :: "'k \<Rightarrow> 'v \<Rightarrow> ('k, 'v list) gomap \<Rightarrow> ('k, 'v list) gomap" where
  "gm_append k v m = AList.update k (gm_list m k @ [v]) m"

definition gm_insert :: "'k \<Rightarrow> 'v \<Rightarrow> ('k, 'v list) gomap \<Rightarrow> ('k, 'v list) gomap" where
  "gm_insert k v m = AList.update k (List.insert v (gm_list m k)) m"

definition index_record :: "nat \<Rightarrow> 'p snapshotIndex \<Rightarrow> SnapshotRecord \<Rightarrow> 'p snapshotIndex" where
  "index_record zoneID ix r =
    ix\<lparr>ix_recordsByNameType :=
         gm_append \<lparr>rk_ZoneID = zoneID, rk_Name = rec_Name r, rk_Type = rec_Type r\<rparr> r (ix_recordsByNameType ix),
       ix_namesByZone := gm_insert zoneID (rec_Name r) (ix_namesByZone ix)\<rparr>"

definition index_zone :: "'p snapshotIndex \<Rightarrow> SnapshotZone \<Rightarrow> 'p snapshotIndex" where
  "index_zone ix z =
    foldl (index_record (zone_ID z))
      (ix\<lparr>ix_zonesByID := AList.update (zone_ID z) z (ix_zonesByID ix),
          ix_zonesByName := AList.update (zone_Name z) z (ix_zonesByName ix),
          ix_namesByZone := AList.update (zone_ID z) [zone_Name z] (ix_namesByZone ix)\<rparr>)
      (zone_Records z)"

definition index_name :: "nat \<Rightarrow> string \<Rightarrow> 'p snapshotIndex \<Rightarrow> 'p snapshotIndex" where
  "index_name zoneID domain ix =
    (if zoneID \<noteq> 0 then ix\<lparr>ix_namesByZone := gm_insert zoneID domain (ix_namesByZone ix)\<rparr> else ix)"

definition index_domain :: "route_ptr \<Rightarrow> 'p snapshotIndex \<Rightarrow> string \<Rightarrow> 'p snapshotIndex" where
  "index_domain p ix raw =
    (let domain = normalizeDomain raw
     in if domain = [] then ix
        else if HasPrefix domain ''*.'' then
          (let wildcardBase = TrimPrefix domain ''*.''
           in if wildcardBase = [] then ix
              else index_name (route_ZoneID (snd p)) domain
                (ix\<lparr>ix_routesByWildcard := gm_append wildcardBase p (ix_routesByWildcard ix)\<rparr>))
        else index_name (route_ZoneID (snd p)) domain
          (ix\<lparr>ix_routesByDomain := gm_append domain p (ix_routesByDomain ix)\<rparr>))"

definition index_route :: "'p snapshotIndex \<Rightarrow> route_ptr \<Rightarrow> 'p snapshotIndex" where
  "index_route ix p =
    foldl (index_domain p)
      (if route_ID (snd p) \<noteq> 0
       then ix\<lparr>ix_policiesByRouteID :=
         map_option (AList.update (route_ID (snd p)) (route_GSLBPolicy (snd p))) (ix_policiesByRouteID ix)\<rparr>
       else ix)
      (route_Domains (snd p))"

definition route_ptrs :: "snapshot_ptr \<Rightarrow> route_ptr list" where
  "route_ptrs sp = map (\<lambda>(i, r). ((fst sp, i), r)) (enumerate 0 (snap_Routes (snd sp)))"

section \<open>The DNSSEC part of the index\<close>

definition zone_ttl :: "SnapshotZone \<Rightarrow> nat" where
  "zone_ttl z = uint32 (normalizeStaticTTL (zone_DefaultTTL z) DefaultZoneTTL)"

definition dnskey_of :: "SnapshotZone \<Rightarrow> SnapshotDNSSECKey \<Rightarrow> DNSKEY_RR" where
  "dnskey_of z item =
    \<lparr>dk_Hdr = \<lparr>hdr_Name = dnsName (zone_Name z), hdr_Rrtype = TypeDNSKEY, hdr_Class = ClassINET, hdr_Ttl = zone_ttl z\<rparr>,
     dk_Flags = key_Flags item, dk_Protocol = 3, dk_Algorithm = key_Algorithm item,
     dk_PublicKey = TrimSpace (key_PublicKey item)\<rparr>"

definition load_key :: "'p dns_env \<Rightarrow> SnapshotZone \<Rightarrow> SnapshotDNSSECKey \<Rightarrow> 'p dnssecRuntimeKey option" where
  "load_key env z item =
    (if ToLower (TrimSpace (key_Status item)) \<noteq> ''active'' then None
     else if TrimSpace (key_EncryptedPrivateKey item) = [] \<or> TrimSpace (key_PublicKey item) = [] then None
     else (case DecryptKey env (dnskey_of z item) (key_EncryptedPrivateKey item) of
         None \<Rightarrow> None
       | Some signer \<Rightarrow>
           Some \<lparr>rt_role = ToLower (TrimSpace (key_Role item)), rt_key = dnskey_of z item, rt_privateKey = signer\<rparr>))"

definition loadDNSSECKeys :: "'p dns_env \<Rightarrow> SnapshotZone \<Rightarrow> 'p dnssecRuntimeKey list" where
  "loadDNSSECKeys env z = List.map_filter (load_key env z) (zone_DNSSECKeys z)"

definition sorted_zone_names :: "(nat, string list) gomap \<Rightarrow> nat \<Rightarrow> string list" where
  "sorted_zone_names namesByZone zoneID = sort (filter (\<lambda>n. n \<noteq> []) (gm_list namesByZone zoneID))"

definition nsec3_hashes :: "'p dns_env \<Rightarrow> SnapshotZone \<Rightarrow> string list \<Rightarrow> string list" where
  "nsec3_hashes env z names =
    sort (map (\<lambda>name. HashName env (dnsName name)
        (uint16 (normalizeDNSSECNSEC3Iterations (sec_NSEC3Iterations (zone_DNSSEC z))))
        (TrimSpace (sec_NSEC3Salt (zone_DNSSEC z)))) names)"

definition index_dnssec_zone :: "'p dns_env \<Rightarrow> 'p snapshotIndex \<Rightarrow> nat \<times> SnapshotZone \<Rightarrow> 'p snapshotIndex" where
  "index_dnssec_zone env ix = (\<lambda>(zoneID, z).
    (if \<not> sec_Enabled (zone_DNSSEC z) then ix
     else
       (let keys = loadDNSSECKeys env z; names = sorted_zone_names (ix_namesByZone ix) zoneID;
            ix = (if length keys > 0
              then ix\<lparr>ix_dnssecKeysByZone := map_option (AList.update zoneID keys) (ix_dnssecKeysByZone ix)\<rparr> else ix);
            ix = ix\<lparr>ix_sortedNamesByZone := map_option (AList.update zoneID names) (ix_sortedNamesByZone ix)\<rparr>
        in if normalizeDNSSECDenialMode (sec_DenialMode (zone_DNSSEC z)) \<noteq> ''nsec3'' then ix
           else ix\<lparr>ix_sortedNSEC3HashesByZone :=
             map_option (AList.update zoneID (nsec3_hashes env z names)) (ix_sortedNSEC3HashesByZone ix)\<rparr>)))"

definition buildSnapshotDNSSECIndex :: "'p dns_env \<Rightarrow> 'p snapshotIndex \<Rightarrow> 'p snapshotIndex" where
  "buildSnapshotDNSSECIndex env ix = foldl (index_dnssec_zone env) ix (ix_zonesByID ix)"

definition buildSnapshotIndex :: "'p dns_env \<Rightarrow> snapshot_ptr option \<Rightarrow> 'p snapshotIndex" where
  "buildSnapshotIndex env snapshot =
    (case snapshot of
       None \<Rightarrow> empty_index
     | Some sp \<Rightarrow>
         buildSnapshotDNSSECIndex env
           (foldl index_route (foldl index_zone empty_index (snap_Zones (snd sp))) (route_ptrs sp)))"

section \<open>The store\<close>

datatype store_error =
    Store_Invalid
  | Unsupported_Format string
  | Unsupported_Version int
  | Missing_Snapshot
  | Missing_Checksum
  | Checksum_Mismatch string
  | File_Error string
  | Decode_Error

fun error_text :: "store_error \<Rightarrow> string" where
  "error_text Store_Invalid = ''snapshot is invalid''"
| "error_text (Unsupported_Format f) = ''unsupported snapshot cache format '' @ f"
| "error_text (Unsupported_Version v) = ''unsupported snapshot cache format version '' @ FormatInt v"
| "error_text Missing_Snapshot = ''snapshot cache envelope is missing snapshot''"
| "error_text Missing_Checksum = ''snapshot cache envelope is missing checksum''"
| "error_text (Checksum_Mismatch e) = ''snapshot checksum mismatch: expected '' @ e"
| "error_text (File_Error m) = m"
| "error_text Decode_Error = ''decode error''"

record 'p SnapshotStore =
  st_path :: string
  st_snapshot :: "snapshot_ptr option"
  st_loadedAt :: gotime
  st_lastError :: string
  st_maxAge :: duration
  st_index :: "'p snapshotIndex"
  st_next :: nat

definition NewSnapshotStore :: "string \<Rightarrow> duration \<Rightarrow> 'p SnapshotStore" where
  "NewSnapshotStore path maxAge =
    \<lparr>st_path = path, st_snapshot = None, st_loadedAt = 0, st_lastError = [],
     st_maxAge = (if maxAge \<le> 0 then DefaultSnapshotMaxAge else maxAge), st_index = zero_index, st_next = 0\<rparr>"

definition setLastError :: "store_error \<Rightarrow> 'p SnapshotStore \<Rightarrow> 'p SnapshotStore" where
  "setLastError err s = s\<lparr>st_lastError := error_text err\<rparr>"

definition ClearLastError :: "'p SnapshotStore \<Rightarrow> 'p SnapshotStore" where
  "ClearLastError s = s\<lparr>st_lastError := []\<rparr>"

text \<open>\<open>Set\<close> at time \<open>now\<close>; the new snapshot gets the next allocation number.\<close>

definition Store_Set ::
  "'p dns_env \<Rightarrow> gotime \<Rightarrow> Snapshot option \<Rightarrow> 'p SnapshotStore \<Rightarrow> store_error option \<times> 'p SnapshotStore" where
  "Store_Set env now snapshot s =
    (case snapshot of
       None \<Rightarrow> (Some Store_Invalid, s)
     | Some snap \<Rightarrow>
         if TrimSpace (snap_SnapshotVersion snap) = [] then (Some Store_Invalid, s)
         else
           (let normalized = (st_next s, normalizeSnapshotRuntimeTimes (normalizeSnapshot snap) now)
            in (None, s\<lparr>st_snapshot := Some normalized, st_index := buildSnapshotIndex env (Some normalized),
                 st_loadedAt := now, st_lastError := [], st_next := st_next s + 1\<rparr>)))"

definition Version :: "'p SnapshotStore \<Rightarrow> string" where
  "Version s = (case st_snapshot s of None \<Rightarrow> [] | Some sp \<Rightarrow> snap_SnapshotVersion (snd sp))"

definition LoadedAt :: "'p SnapshotStore \<Rightarrow> gotime option" where
  "LoadedAt s = (if st_loadedAt s = 0 then None else Some (st_loadedAt s))"

definition IsFresh :: "'p SnapshotStore \<Rightarrow> gotime \<Rightarrow> bool" where
  "IsFresh s now =
    (case st_snapshot s of
       None \<Rightarrow> False
     | Some sp \<Rightarrow>
         if snap_GeneratedAt (snd sp) = 0 then False
         else TimeSub now (snap_GeneratedAt (snd sp)) \<le> st_maxAge s)"

section \<open>Persistence\<close>

record persistedSnapshotEnvelope =
  env_Format :: string
  env_FormatVersion :: int
  env_SavedAt :: gotime
  env_Checksum :: string
  env_Snapshot :: "Snapshot option"

record 'raw codec =
  marshal_snapshot :: "Snapshot \<Rightarrow> string"
  marshal_envelope :: "persistedSnapshotEnvelope \<Rightarrow> 'raw"
  unmarshal_envelope :: "'raw \<Rightarrow> persistedSnapshotEnvelope option"
  unmarshal_snapshot :: "'raw \<Rightarrow> Snapshot option"
  hex_sha256 :: "string \<Rightarrow> string"

definition persistedSnapshotFormat :: string where
  "persistedSnapshotFormat = ''dushengcdn.dns_worker.snapshot''"

definition persistedSnapshotFormatVersion :: int where
  "persistedSnapshotFormatVersion = 1"

definition prepareSnapshotForPersistence :: "Snapshot option \<Rightarrow> store_error + Snapshot" where
  "prepareSnapshotForPersistence snapshot =
    (case snapshot of
       None \<Rightarrow> Inl Store_Invalid
     | Some s \<Rightarrow> if TrimSpace (snap_SnapshotVersion s) = [] then Inl Store_Invalid else Inr (normalizeSnapshot s))"

definition checksumSnapshot :: "'raw codec \<Rightarrow> Snapshot option \<Rightarrow> store_error + string" where
  "checksumSnapshot cd snapshot =
    (case prepareSnapshotForPersistence snapshot of
       Inl e \<Rightarrow> Inl e
     | Inr normalized \<Rightarrow> Inr (''sha256:'' @ hex_sha256 cd (marshal_snapshot cd normalized)))"

text \<open>\<open>None\<close> is the result \<open>ok = false\<close>: the bytes are not an envelope.\<close>

definition decodePersistedSnapshotEnvelope :: "'raw codec \<Rightarrow> 'raw \<Rightarrow> (store_error + Snapshot) option" where
  "decodePersistedSnapshotEnvelope cd raw =
    (case unmarshal_envelope cd raw of
       None \<Rightarrow> None
     | Some e \<Rightarrow>
         if env_Snapshot e = None \<and> TrimSpace (env_Format e) = [] \<and> TrimSpace (env_Checksum e) = [] then None
         else if TrimSpace (env_Format e) \<noteq> [] \<and> env_Format e \<noteq> persistedSnapshotFormat
         then Some (Inl (Unsupported_Format (env_Format e)))
         else if env_FormatVersion e \<noteq> 0 \<and> env_FormatVersion e \<noteq> persistedSnapshotFormatVersion
         then Some (Inl (Unsupported_Version (env_FormatVersion e)))
         else (case env_Snapshot e of
             None \<Rightarrow> Some (Inl Missing_Snapshot)
           | Some snap \<Rightarrow>
               if TrimSpace (env_Checksum e) = [] then Some (Inl Missing_Checksum)
               else (case checksumSnapshot cd (Some snap) of
                   Inl err \<Rightarrow> Some (Inl err)
                 | Inr expected \<Rightarrow>
                     if \<not> EqualFold (TrimSpace (env_Checksum e)) expected then Some (Inl (Checksum_Mismatch expected))
                     else Some (Inr snap))))"

text \<open>
  \<open>Save\<close> writes a temporary file and renames it. The file system is a map from paths to contents; an
  operation fails when the argument \<open>fails\<close> says so, with its message. The result has the files afterwards.
\<close>

type_synonym 'raw files = "(string, 'raw) gomap"

record file_faults =
  ff_MkdirAll :: "string option"
  ff_WriteFile :: "string option"
  ff_Rename :: "string option"
  ff_Remove :: "string option"
  ff_RenameRetry :: "string option"

definition no_faults :: file_faults where
  "no_faults = \<lparr>ff_MkdirAll = None, ff_WriteFile = None, ff_Rename = None, ff_Remove = None, ff_RenameRetry = None\<rparr>"

definition rename_file :: "string \<Rightarrow> string \<Rightarrow> 'raw files \<Rightarrow> 'raw files" where
  "rename_file old new fs = (case map_of fs old of None \<Rightarrow> fs | Some c \<Rightarrow> AList.update new c (AList.delete old fs))"

definition make_envelope :: "gotime \<Rightarrow> string \<Rightarrow> Snapshot \<Rightarrow> persistedSnapshotEnvelope" where
  "make_envelope now checksum snapshot =
    \<lparr>env_Format = persistedSnapshotFormat, env_FormatVersion = persistedSnapshotFormatVersion, env_SavedAt = now,
     env_Checksum = checksum, env_Snapshot = Some snapshot\<rparr>"

definition write_and_rename ::
  "file_faults \<Rightarrow> string \<Rightarrow> 'raw \<Rightarrow> 'raw files \<Rightarrow> store_error option \<times> 'raw files" where
  "write_and_rename faults path raw fs =
    (case ff_WriteFile faults of
       Some m \<Rightarrow> (Some (File_Error m), fs)
     | None \<Rightarrow>
         (let tmp = path @ ''.tmp''; fs = AList.update tmp raw fs
          in case ff_Rename faults of
               None \<Rightarrow> (None, rename_file tmp path fs)
             | Some m \<Rightarrow>
                 (case ff_Remove faults of
                    Some _ \<Rightarrow> (Some (File_Error m), fs)
                  | None \<Rightarrow>
                      (let fs = AList.delete path fs
                       in case ff_RenameRetry faults of
                            Some r \<Rightarrow> (Some (File_Error r), fs)
                          | None \<Rightarrow> (None, rename_file tmp path fs)))))"

definition record_error :: "store_error option \<Rightarrow> 'p SnapshotStore \<Rightarrow> 'p SnapshotStore" where
  "record_error err s = (case err of None \<Rightarrow> s | Some e \<Rightarrow> setLastError e s)"

definition save_result ::
  "'raw codec \<Rightarrow> file_faults \<Rightarrow> gotime \<Rightarrow> string \<Rightarrow> Snapshot \<Rightarrow> 'raw files \<Rightarrow> store_error option \<times> 'raw files" where
  "save_result cd faults now path snapshot fs =
    (case ff_MkdirAll faults of
       Some m \<Rightarrow> (Some (File_Error m), fs)
     | None \<Rightarrow>
         (case prepareSnapshotForPersistence (Some snapshot) of
            Inl e \<Rightarrow> (Some e, fs)
          | Inr prepared \<Rightarrow>
              (let normalized = normalizeSnapshotRuntimeTimes prepared now
               in case checksumSnapshot cd (Some normalized) of
                    Inl e \<Rightarrow> (Some e, fs)
                  | Inr checksum \<Rightarrow>
                      write_and_rename faults path (marshal_envelope cd (make_envelope now checksum normalized)) fs)))"

definition Store_Save ::
  "'raw codec \<Rightarrow> file_faults \<Rightarrow> gotime \<Rightarrow> Snapshot option \<Rightarrow> 'p SnapshotStore \<Rightarrow> 'raw files
    \<Rightarrow> store_error option \<times> 'p SnapshotStore \<times> 'raw files" where
  "Store_Save cd faults now snapshot s fs =
    (case snapshot of
       None \<Rightarrow> (None, s, fs)
     | Some snap \<Rightarrow>
         if TrimSpace (st_path s) = [] then (None, s, fs)
         else (case save_result cd faults now (st_path s) snap fs of
             (err, fs') \<Rightarrow> (err, record_error err s, fs')))"

text \<open>A file that does not exist is not an error; \<open>read_error\<close> is any other failure of reading.\<close>

definition load_snapshot ::
  "'p dns_env \<Rightarrow> gotime \<Rightarrow> Snapshot \<Rightarrow> 'p SnapshotStore \<Rightarrow> store_error option \<times> 'p SnapshotStore" where
  "load_snapshot env now snap s =
    (case Store_Set env now (Some snap) s of (err, s') \<Rightarrow> (err, record_error err s'))"

definition LoadFromDisk ::
  "'raw codec \<Rightarrow> 'p dns_env \<Rightarrow> gotime \<Rightarrow> string option \<Rightarrow> 'raw files \<Rightarrow> 'p SnapshotStore
    \<Rightarrow> store_error option \<times> 'p SnapshotStore" where
  "LoadFromDisk cd env now read_error fs s =
    (if TrimSpace (st_path s) = [] then (None, s)
     else (case read_error of
         Some m \<Rightarrow> (Some (File_Error m), setLastError (File_Error m) s)
       | None \<Rightarrow>
           (case map_of fs (st_path s) of
              None \<Rightarrow> (None, s)
            | Some raw \<Rightarrow>
                (case decodePersistedSnapshotEnvelope cd raw of
                   Some (Inl e) \<Rightarrow> (Some e, setLastError e s)
                 | Some (Inr snap) \<Rightarrow> load_snapshot env now snap s
                 | None \<Rightarrow>
                     (case unmarshal_snapshot cd raw of
                        None \<Rightarrow> (Some Decode_Error, setLastError Decode_Error s)
                      | Some snap \<Rightarrow> load_snapshot env now snap s)))))"


section \<open>Bounds of the worker policy\<close>

lemma normalizeWorkerPolicy_bounds:
  "0 \<le> wp_QueryRateLimit (normalizeWorkerPolicy p)" "0 \<le> wp_ResponseRateLimit (normalizeWorkerPolicy p)"
  "512 \<le> wp_UDPResponseSize (normalizeWorkerPolicy p)" "wp_UDPResponseSize (normalizeWorkerPolicy p) \<le> 65535"
  "0 \<le> wp_ECSIPv4Prefix (normalizeWorkerPolicy p)" "wp_ECSIPv4Prefix (normalizeWorkerPolicy p) \<le> 32"
  "0 \<le> wp_ECSIPv6Prefix (normalizeWorkerPolicy p)" "wp_ECSIPv6Prefix (normalizeWorkerPolicy p) \<le> 128"
  by (simp_all add: normalizeWorkerPolicy_def Let_def normalizePrefix_def DefaultQueryRateLimit_def
      DefaultResponseRateLimit_def DefaultUDPResponseSize_def DefaultECSIPv4Prefix_def DefaultECSIPv6Prefix_def)

section \<open>The index is a scan of the snapshot\<close>

lemma gm_list_Nil [simp]: "gm_list [] k = []"
  by (simp add: gm_list_def)

lemma gm_list_append [simp]: "gm_list (gm_append k v m) k' = gm_list m k' @ (if k = k' then [v] else [])"
  by (simp add: gm_append_def gm_list_def update_conv')

lemma gm_list_insert: "set (gm_list (gm_insert k v m) k') = set (gm_list m k') \<union> (if k = k' then {v} else {})"
  by (auto simp: gm_insert_def gm_list_def update_conv' split: option.splits)

definition key_of :: "nat \<Rightarrow> SnapshotRecord \<Rightarrow> recordKey" where
  "key_of zoneID r = \<lparr>rk_ZoneID = zoneID, rk_Name = rec_Name r, rk_Type = rec_Type r\<rparr>"

lemma index_records_fold:
  "gm_list (ix_recordsByNameType (foldl (index_record zid) ix rs)) k =
    gm_list (ix_recordsByNameType ix) k @ filter (\<lambda>r. key_of zid r = k) rs"
  by (induction rs arbitrary: ix) (auto simp: index_record_def key_of_def)

lemma index_zones_records:
  "gm_list (ix_recordsByNameType (foldl index_zone ix zs)) k =
    gm_list (ix_recordsByNameType ix) k @ concat (map (\<lambda>z. filter (\<lambda>r. key_of (zone_ID z) r = k) (zone_Records z)) zs)"
  by (induction zs arbitrary: ix) (auto simp: index_zone_def index_records_fold)

lemma index_record_zones [simp]:
  "ix_zonesByName (foldl (index_record zid) ix rs) = ix_zonesByName ix"
  "ix_zonesByID (foldl (index_record zid) ix rs) = ix_zonesByID ix"
  "ix_routesByDomain (foldl (index_record zid) ix rs) = ix_routesByDomain ix"
  "ix_routesByWildcard (foldl (index_record zid) ix rs) = ix_routesByWildcard ix"
  "ix_policiesByRouteID (foldl (index_record zid) ix rs) = ix_policiesByRouteID ix"
  "ix_sortedNamesByZone (foldl (index_record zid) ix rs) = ix_sortedNamesByZone ix"
  by (induction rs arbitrary: ix; simp add: index_record_def)+

lemma index_zones_other [simp]:
  "ix_routesByDomain (foldl index_zone ix zs) = ix_routesByDomain ix"
  "ix_routesByWildcard (foldl index_zone ix zs) = ix_routesByWildcard ix"
  "ix_policiesByRouteID (foldl index_zone ix zs) = ix_policiesByRouteID ix"
  "ix_sortedNamesByZone (foldl index_zone ix zs) = ix_sortedNamesByZone ix"
  by (induction zs arbitrary: ix; simp add: index_zone_def)+

lemma index_zones_names:
  "map_of (ix_zonesByName (foldl index_zone ix zs)) n =
    (case find (\<lambda>z. zone_Name z = n) (rev zs) of Some z \<Rightarrow> Some z | None \<Rightarrow> map_of (ix_zonesByName ix) n)"
proof (induction zs rule: rev_induct)
  case (snoc z zs)
  then show ?case by (simp add: index_zone_def update_conv')
qed simp

lemma index_name_other [simp]:
  "ix_zonesByName (index_name z d ix) = ix_zonesByName ix" "ix_zonesByID (index_name z d ix) = ix_zonesByID ix"
  "ix_routesByDomain (index_name z d ix) = ix_routesByDomain ix"
  "ix_routesByWildcard (index_name z d ix) = ix_routesByWildcard ix"
  "ix_policiesByRouteID (index_name z d ix) = ix_policiesByRouteID ix"
  "ix_recordsByNameType (index_name z d ix) = ix_recordsByNameType ix"
  "ix_sortedNamesByZone (index_name z d ix) = ix_sortedNamesByZone ix"
  by (simp_all add: index_name_def)

lemma index_domains_other [simp]:
  "ix_zonesByName (foldl (index_domain p) ix ds) = ix_zonesByName ix"
  "ix_zonesByID (foldl (index_domain p) ix ds) = ix_zonesByID ix"
  "ix_policiesByRouteID (foldl (index_domain p) ix ds) = ix_policiesByRouteID ix"
  "ix_recordsByNameType (foldl (index_domain p) ix ds) = ix_recordsByNameType ix"
  "ix_sortedNamesByZone (foldl (index_domain p) ix ds) = ix_sortedNamesByZone ix"
  by (induction ds arbitrary: ix; simp add: index_domain_def Let_def)+

lemma index_routes_other [simp]:
  "ix_zonesByName (foldl index_route ix ps) = ix_zonesByName ix"
  "ix_zonesByID (foldl index_route ix ps) = ix_zonesByID ix"
  "ix_recordsByNameType (foldl index_route ix ps) = ix_recordsByNameType ix"
  "ix_sortedNamesByZone (foldl index_route ix ps) = ix_sortedNamesByZone ix"
  by (induction ps arbitrary: ix; simp add: index_route_def)+

text \<open>The exact domains of a route, and the bases of its wildcard domains.\<close>

definition exact_domains :: "SnapshotRoute \<Rightarrow> string list" where
  "exact_domains r = filter (\<lambda>d. d \<noteq> [] \<and> \<not> HasPrefix d ''*.'') (map normalizeDomain (route_Domains r))"

definition wildcard_bases :: "SnapshotRoute \<Rightarrow> string list" where
  "wildcard_bases r =
    filter (\<lambda>b. b \<noteq> []) (map (\<lambda>d. TrimPrefix d ''*.'') (filter (\<lambda>d. HasPrefix d ''*.'') (map normalizeDomain (route_Domains r))))"

definition routes_with :: "(SnapshotRoute \<Rightarrow> string list) \<Rightarrow> string \<Rightarrow> route_ptr list \<Rightarrow> route_ptr list" where
  "routes_with f d ps = concat (map (\<lambda>p. map (\<lambda>_. p) (filter (\<lambda>x. x = d) (f (snd p)))) ps)"

lemma HasPrefix_Nil: "HasPrefix [] (c # p) = False"
  by (simp add: HasPrefix_def)

lemma index_domains_exact:
  "gm_list (ix_routesByDomain (foldl (index_domain p) ix ds)) d =
    gm_list (ix_routesByDomain ix) d
      @ map (\<lambda>_. p) (filter (\<lambda>x. x = d) (filter (\<lambda>d. d \<noteq> [] \<and> \<not> HasPrefix d ''*.'') (map normalizeDomain ds)))"
  by (induction ds arbitrary: ix) (auto simp: index_domain_def Let_def)

lemma index_domains_wild:
  "gm_list (ix_routesByWildcard (foldl (index_domain p) ix ds)) b =
    gm_list (ix_routesByWildcard ix) b
      @ map (\<lambda>_. p) (filter (\<lambda>x. x = b) (filter (\<lambda>b. b \<noteq> []) (map (\<lambda>d. TrimPrefix d ''*.'')
          (filter (\<lambda>d. HasPrefix d ''*.'') (map normalizeDomain ds)))))"
  by (induction ds arbitrary: ix) (auto simp: index_domain_def Let_def HasPrefix_Nil)

lemma index_route_fields [simp]:
  "ix_routesByDomain (if c then ix\<lparr>ix_policiesByRouteID := m\<rparr> else ix) = ix_routesByDomain ix"
  "ix_routesByWildcard (if c then ix\<lparr>ix_policiesByRouteID := m\<rparr> else ix) = ix_routesByWildcard ix"
  by simp_all

lemma index_routes_exact:
  "gm_list (ix_routesByDomain (foldl index_route ix ps)) d =
    gm_list (ix_routesByDomain ix) d @ routes_with exact_domains d ps"
  by (induction ps arbitrary: ix) (simp_all add: index_route_def index_domains_exact routes_with_def exact_domains_def)

lemma index_routes_wild:
  "gm_list (ix_routesByWildcard (foldl index_route ix ps)) b =
    gm_list (ix_routesByWildcard ix) b @ routes_with wildcard_bases b ps"
  by (induction ps arbitrary: ix) (simp_all add: index_route_def index_domains_wild routes_with_def wildcard_bases_def)

lemma set_routes_with: "set (routes_with f d ps) = {p \<in> set ps. d \<in> set (f (snd p))}"
  by (auto simp: routes_with_def)

lemma index_route_policies:
  "ix_policiesByRouteID (index_route ix p) =
    (if route_ID (snd p) \<noteq> 0
     then map_option (AList.update (route_ID (snd p)) (route_GSLBPolicy (snd p))) (ix_policiesByRouteID ix)
     else ix_policiesByRouteID ix)"
  by (simp add: index_route_def)

lemma index_routes_policies:
  assumes "ix_policiesByRouteID ix = Some []"
  shows "\<exists>m. ix_policiesByRouteID (foldl index_route ix ps) = Some m \<and>
    (\<forall>i. i \<noteq> 0 \<longrightarrow> map_of m i = map_option (\<lambda>p. route_GSLBPolicy (snd p)) (find (\<lambda>p. route_ID (snd p) = i) (rev ps)))"
proof (induction ps rule: rev_induct)
  case (snoc p ps)
  then obtain m where m: "ix_policiesByRouteID (foldl index_route ix ps) = Some m"
    "\<And>i. i \<noteq> 0 \<Longrightarrow> map_of m i = map_option (\<lambda>p. route_GSLBPolicy (snd p)) (find (\<lambda>p. route_ID (snd p) = i) (rev ps))"
    by blast
  show ?case
  proof (cases "route_ID (snd p) = 0")
    case True
    then show ?thesis using m by (simp add: index_route_policies)
  next
    case False
    then show ?thesis using m by (simp add: index_route_policies update_conv')
  qed
qed (simp add: assms)

lemma dnssec_index_other [simp]:
  "ix_zonesByName (buildSnapshotDNSSECIndex env ix) = ix_zonesByName ix"
  "ix_routesByDomain (buildSnapshotDNSSECIndex env ix) = ix_routesByDomain ix"
  "ix_routesByWildcard (buildSnapshotDNSSECIndex env ix) = ix_routesByWildcard ix"
  "ix_policiesByRouteID (buildSnapshotDNSSECIndex env ix) = ix_policiesByRouteID ix"
  "ix_recordsByNameType (buildSnapshotDNSSECIndex env ix) = ix_recordsByNameType ix"
  "ix_namesByZone (buildSnapshotDNSSECIndex env ix) = ix_namesByZone ix"
proof -
  have "ix_zonesByName (foldl (index_dnssec_zone env) ix zs) = ix_zonesByName ix
    \<and> ix_routesByDomain (foldl (index_dnssec_zone env) ix zs) = ix_routesByDomain ix
    \<and> ix_routesByWildcard (foldl (index_dnssec_zone env) ix zs) = ix_routesByWildcard ix
    \<and> ix_policiesByRouteID (foldl (index_dnssec_zone env) ix zs) = ix_policiesByRouteID ix
    \<and> ix_recordsByNameType (foldl (index_dnssec_zone env) ix zs) = ix_recordsByNameType ix
    \<and> ix_namesByZone (foldl (index_dnssec_zone env) ix zs) = ix_namesByZone ix" for zs
    by (induction zs arbitrary: ix) (auto simp: index_dnssec_zone_def Let_def split: prod.splits)
  then show
    "ix_zonesByName (buildSnapshotDNSSECIndex env ix) = ix_zonesByName ix"
    "ix_routesByDomain (buildSnapshotDNSSECIndex env ix) = ix_routesByDomain ix"
    "ix_routesByWildcard (buildSnapshotDNSSECIndex env ix) = ix_routesByWildcard ix"
    "ix_policiesByRouteID (buildSnapshotDNSSECIndex env ix) = ix_policiesByRouteID ix"
    "ix_recordsByNameType (buildSnapshotDNSSECIndex env ix) = ix_recordsByNameType ix"
    "ix_namesByZone (buildSnapshotDNSSECIndex env ix) = ix_namesByZone ix"
    by (simp_all add: buildSnapshotDNSSECIndex_def)
qed

lemma empty_index_simps [simp]:
  "ix_recordsByNameType empty_index = []" "ix_routesByDomain empty_index = []" "ix_routesByWildcard empty_index = []"
  "ix_zonesByName empty_index = []" "ix_policiesByRouteID empty_index = Some []"
  "ix_zonesByID empty_index = []" "ix_namesByZone empty_index = []"
  by (simp_all add: empty_index_def zero_index_def)

lemma index_records_scan:
  "gm_list (ix_recordsByNameType (buildSnapshotIndex env (Some sp))) k =
    concat (map (\<lambda>z. filter (\<lambda>r. key_of (zone_ID z) r = k) (zone_Records z)) (snap_Zones (snd sp)))"
  by (simp add: buildSnapshotIndex_def index_zones_records)

lemma index_zone_by_name:
  "map_of (ix_zonesByName (buildSnapshotIndex env (Some sp))) n = find (\<lambda>z. zone_Name z = n) (rev (snap_Zones (snd sp)))"
  by (simp add: buildSnapshotIndex_def index_zones_names split: option.splits)

lemma index_exact_scan:
  "gm_list (ix_routesByDomain (buildSnapshotIndex env (Some sp))) d = routes_with exact_domains d (route_ptrs sp)"
  by (simp add: buildSnapshotIndex_def index_routes_exact)

lemma index_wild_scan:
  "gm_list (ix_routesByWildcard (buildSnapshotIndex env (Some sp))) b = routes_with wildcard_bases b (route_ptrs sp)"
  by (simp add: buildSnapshotIndex_def index_routes_wild)

lemma index_policy_scan:
  "\<exists>m. ix_policiesByRouteID (buildSnapshotIndex env (Some sp)) = Some m \<and>
    (\<forall>i. i \<noteq> 0 \<longrightarrow> map_of m i = map_option (\<lambda>p. route_GSLBPolicy (snd p))
      (find (\<lambda>p. route_ID (snd p) = i) (rev (route_ptrs sp))))"
  using index_routes_policies[of "foldl index_zone empty_index (snap_Zones (snd sp))" "route_ptrs sp"]
  by (simp add: buildSnapshotIndex_def)

section \<open>Freshness\<close>

lemma Store_Set_ok:
  "Store_Set env now (Some snap) s = (None, s') \<Longrightarrow>
    TrimSpace (snap_SnapshotVersion snap) \<noteq> []
    \<and> st_snapshot s' = Some (st_next s, normalizeSnapshotRuntimeTimes (normalizeSnapshot snap) now)
    \<and> st_index s' = buildSnapshotIndex env (st_snapshot s')
    \<and> st_maxAge s' = st_maxAge s \<and> st_lastError s' = []"
  by (auto simp: Store_Set_def Let_def split: if_splits)

lemma runtime_generated_le: "snap_GeneratedAt (normalizeSnapshotRuntimeTimes s now) \<le> now"
  by (simp add: normalizeSnapshotRuntimeTimes_def Let_def)

section \<open>Persistence\<close>

text \<open>The fields of a pool that are not encoded.\<close>

definition strip_pool :: "GSLBPoolPolicy \<Rightarrow> GSLBPoolPolicy" where
  "strip_pool p = p\<lparr>pool_compiledSourceCIDRs := [], pool_compiledExcludeSourceCIDRs := []\<rparr>"

definition strip_route :: "SnapshotRoute \<Rightarrow> SnapshotRoute" where
  "strip_route r = r\<lparr>route_GSLBPolicy :=
    (route_GSLBPolicy r)\<lparr>pol_Pools := map strip_pool (pol_Pools (route_GSLBPolicy r))\<rparr>\<rparr>"

definition strip_snapshot :: "Snapshot \<Rightarrow> Snapshot" where
  "strip_snapshot s = s\<lparr>snap_Routes := map strip_route (snap_Routes s)\<rparr>"

lemma normalize_pool_strip: "normalize_pool e (strip_pool p) = normalize_pool e p"
  by (simp add: normalize_pool_def strip_pool_def Let_def)

lemma normalizePolicy_strip:
  "normalizePolicy (q\<lparr>pol_Pools := map strip_pool (pol_Pools q)\<rparr>) r = normalizePolicy q r"
proof -
  have "list_ex pool_Enabled (map strip_pool ps) = list_ex pool_Enabled ps" for ps
    by (induction ps) (auto simp: strip_pool_def)
  moreover have "map (normalize_pool e) (map strip_pool ps) = map (normalize_pool e) ps" for e ps
    by (simp add: normalize_pool_strip)
  ultimately show ?thesis by (simp add: normalizePolicy_def Let_def del: map_map)
qed

lemma normalizePolicy_route_cong:
  "route_NodePool r = route_NodePool r' \<Longrightarrow> route_ScheduleMode r = route_ScheduleMode r' \<Longrightarrow>
   route_TargetCount r = route_TargetCount r' \<Longrightarrow> route_TTL r = route_TTL r' \<Longrightarrow>
   normalizePolicy q r = normalizePolicy q r'"
  by (simp add: normalizePolicy_def)

lemma normalize_route_strip: "normalize_route (strip_route r) = normalize_route r"
proof -
  have "normalizePolicy ((route_GSLBPolicy r)\<lparr>pol_Pools := map strip_pool (pol_Pools (route_GSLBPolicy r))\<rparr>)
      (normalize_route_fields (strip_route r)) =
    normalizePolicy (route_GSLBPolicy r) (normalize_route_fields r)"
    unfolding normalizePolicy_strip
    by (rule normalizePolicy_route_cong) (simp_all add: normalize_route_fields_def strip_route_def)
  then show ?thesis
    by (simp add: normalize_route_def Let_def strip_route_def normalize_route_fields_def)
qed

lemma normalizeSnapshot_strip: "normalizeSnapshot (strip_snapshot s) = normalizeSnapshot s"
  by (simp add: normalizeSnapshot_def strip_snapshot_def normalize_route_strip)

text \<open>
  What the store relies on in \<open>encoding/json\<close> and \<open>crypto/sha256\<close>: an encoded envelope is decoded to
  itself but for the fields that are not encoded, and a hexadecimal digest has no white space.
\<close>

definition codec_ok :: "'raw codec \<Rightarrow> bool" where
  "codec_ok cd \<longleftrightarrow>
    (\<forall>e. unmarshal_envelope cd (marshal_envelope cd e) = Some (e\<lparr>env_Snapshot := map_option strip_snapshot (env_Snapshot e)\<rparr>))
    \<and> (\<forall>s. \<forall>c \<in> set (hex_sha256 cd s). \<not> is_space c)"

lemma checksum_strip: "checksumSnapshot cd (Some (strip_snapshot s)) = checksumSnapshot cd (Some s)"
proof -
  have "snap_SnapshotVersion (strip_snapshot s) = snap_SnapshotVersion s" by (simp add: strip_snapshot_def)
  then show ?thesis by (simp add: checksumSnapshot_def prepareSnapshotForPersistence_def normalizeSnapshot_strip)
qed

lemma checksum_trim:
  assumes "codec_ok cd" "checksumSnapshot cd s = Inr t"
  shows "TrimSpace t = t" "t \<noteq> []"
proof -
  obtain x where t: "t = ''sha256:'' @ hex_sha256 cd x"
    using assms(2) by (auto simp: checksumSnapshot_def split: sum.splits)
  have "\<forall>c \<in> set ''sha256:''. \<not> is_space c" by code_simp
  moreover have "\<forall>c \<in> set (hex_sha256 cd x). \<not> is_space c" using assms(1) by (simp add: codec_ok_def)
  ultimately show "TrimSpace t = t" unfolding t by (intro TrimSpace_no_space) (auto simp only: set_append Un_iff)
  show "t \<noteq> []" by (simp add: t)
qed

lemma decode_envelope_roundtrip:
  assumes "codec_ok cd" "checksumSnapshot cd (Some snap) = Inr checksum"
  shows "decodePersistedSnapshotEnvelope cd (marshal_envelope cd (make_envelope now checksum snap)) =
    Some (Inr (strip_snapshot snap))"
proof -
  have u: "unmarshal_envelope cd (marshal_envelope cd (make_envelope now checksum snap)) =
      Some ((make_envelope now checksum snap)\<lparr>env_Snapshot := Some (strip_snapshot snap)\<rparr>)"
    using assms(1) by (simp add: codec_ok_def make_envelope_def)
  show ?thesis
    using checksum_trim[OF assms] assms(2)
    unfolding decodePersistedSnapshotEnvelope_def u by (simp add: make_envelope_def EqualFold_def checksum_strip)
qed

lemma rename_file_lookup: "map_of (rename_file old new (AList.update old c fs)) new = Some c"
  by (simp add: rename_file_def update_conv' delete_conv')

lemma load_snapshot_ok:
  assumes "TrimSpace (snap_SnapshotVersion snap) \<noteq> []"
  shows "fst (load_snapshot env now snap s) = None
    \<and> st_snapshot (snd (load_snapshot env now snap s)) =
        Some (st_next s, normalizeSnapshotRuntimeTimes (normalizeSnapshot snap) now)"
  using assms by (simp add: load_snapshot_def Store_Set_def record_error_def Let_def)

section \<open>What the index holds\<close>

lemma gm_list_update: "gm_list (AList.update k v m) k' = (if k' = k then v else gm_list m k')"
  by (simp add: gm_list_def update_conv')

lemma dnssec_index_zonesByID [simp]: "ix_zonesByID (buildSnapshotDNSSECIndex env ix) = ix_zonesByID ix"
proof -
  have "ix_zonesByID (foldl (index_dnssec_zone env) ix zs) = ix_zonesByID ix" for zs
    by (induction zs arbitrary: ix) (auto simp: index_dnssec_zone_def Let_def split: prod.splits)
  then show ?thesis by (simp add: buildSnapshotDNSSECIndex_def)
qed

lemma index_zones_ids:
  "map_of (ix_zonesByID (foldl index_zone ix zs)) i =
    (case find (\<lambda>z. zone_ID z = i) (rev zs) of Some z \<Rightarrow> Some z | None \<Rightarrow> map_of (ix_zonesByID ix) i)"
proof (induction zs rule: rev_induct)
  case (snoc z zs)
  then show ?case by (simp add: index_zone_def update_conv')
qed simp

lemma index_zone_by_id:
  "map_of (ix_zonesByID (buildSnapshotIndex env (Some sp))) i = find (\<lambda>z. zone_ID z = i) (rev (snap_Zones (snd sp)))"
  by (simp add: buildSnapshotIndex_def index_zones_ids split: option.splits)

lemma index_routes_policies_all:
  assumes "ix_policiesByRouteID ix = Some []"
  shows "\<exists>m. ix_policiesByRouteID (foldl index_route ix ps) = Some m \<and>
    map_of m i = (if i = 0 then None else map_option (\<lambda>p. route_GSLBPolicy (snd p)) (find (\<lambda>p. route_ID (snd p) = i) (rev ps)))"
proof (induction ps rule: rev_induct)
  case (snoc p ps)
  then show ?case by (cases "route_ID (snd p) = 0") (auto simp: index_route_policies update_conv')
qed (simp add: assms)

lemma index_policies:
  fixes env :: "'p dns_env"
  shows "(case ix_policiesByRouteID (buildSnapshotIndex env (Some sp)) of None \<Rightarrow> None | Some m \<Rightarrow> map_of m i) =
    (if i = 0 then None else map_option (\<lambda>p. route_GSLBPolicy (snd p)) (find (\<lambda>p. route_ID (snd p) = i) (rev (route_ptrs sp))))"
  using index_routes_policies_all[of "foldl index_zone empty_index (snap_Zones (snd sp)) :: 'p snapshotIndex" "route_ptrs sp" i]
  by (auto simp: buildSnapshotIndex_def)

text \<open>The names of a zone: its own, those of its records, and the domains of its routes.\<close>

definition route_names :: "SnapshotRoute \<Rightarrow> string set" where
  "route_names r = {d \<in> normalizeDomain ` set (route_Domains r). d \<noteq> [] \<and> d \<noteq> ''*.''}"

lemma index_records_names:
  "set (gm_list (ix_namesByZone (foldl (index_record zid) ix rs)) k) =
    set (gm_list (ix_namesByZone ix) k) \<union> (if k = zid then rec_Name ` set rs else {})"
  by (induction rs arbitrary: ix) (auto simp: index_record_def gm_list_insert)

lemma index_zones_zone_names:
  "set (gm_list (ix_namesByZone (foldl index_zone ix zs)) k) =
    (case find (\<lambda>z. zone_ID z = k) (rev zs) of
       Some z \<Rightarrow> insert (zone_Name z) (rec_Name ` set (zone_Records z)) | None \<Rightarrow> set (gm_list (ix_namesByZone ix) k))"
proof (induction zs rule: rev_induct)
  case (snoc z zs)
  then show ?case by (simp add: index_zone_def index_records_names gm_list_update)
qed simp

lemma wildcard_only: "HasPrefix d ''*.'' \<Longrightarrow> TrimPrefix d ''*.'' = [] \<longleftrightarrow> d = ''*.''"
  by (auto simp: HasPrefix_def TrimPrefix_def)

lemma index_domains_names:
  "set (gm_list (ix_namesByZone (foldl (index_domain p) ix ds)) k) =
    set (gm_list (ix_namesByZone ix) k)
      \<union> (if k \<noteq> 0 \<and> route_ZoneID (snd p) = k then {d \<in> normalizeDomain ` set ds. d \<noteq> [] \<and> d \<noteq> ''*.''} else {})"
proof (induction ds arbitrary: ix)
  case (Cons d ds)
  have "set (gm_list (ix_namesByZone (index_domain p ix d)) k) = set (gm_list (ix_namesByZone ix) k)
      \<union> (if k \<noteq> 0 \<and> route_ZoneID (snd p) = k then {x. x = normalizeDomain d \<and> x \<noteq> [] \<and> x \<noteq> ''*.''} else {})"
    using wildcard_only[of "normalizeDomain d"] by (auto simp: index_domain_def index_name_def Let_def gm_list_insert HasPrefix_def split: if_splits)
  then show ?case using Cons.IH[of "index_domain p ix d"] by auto
qed simp

lemma index_routes_names:
  "set (gm_list (ix_namesByZone (foldl index_route ix ps)) k) =
    set (gm_list (ix_namesByZone ix) k) \<union> (\<Union>p \<in> set ps. if k \<noteq> 0 \<and> route_ZoneID (snd p) = k then route_names (snd p) else {})"
  by (induction ps arbitrary: ix) (auto simp: index_route_def index_domains_names route_names_def)

lemma map_snd_route_ptrs: "map snd (route_ptrs sp) = snap_Routes (snd sp)"
  by (simp add: route_ptrs_def comp_def case_prod_unfold)

lemma snd_route_ptrs: "snd ` set (route_ptrs sp) = set (snap_Routes (snd sp))"
  by (metis map_snd_route_ptrs list.set_map)

lemma index_names:
  fixes env :: "'p dns_env"
  shows "set (gm_list (ix_namesByZone (buildSnapshotIndex env (Some sp))) k) =
    (case find (\<lambda>z. zone_ID z = k) (rev (snap_Zones (snd sp))) of
       Some z \<Rightarrow> insert (zone_Name z) (rec_Name ` set (zone_Records z)) | None \<Rightarrow> {})
    \<union> (if k = 0 then {} else \<Union> (route_names ` {r \<in> set (snap_Routes (snd sp)). route_ZoneID r = k}))"
proof -
  have "(\<Union>p \<in> set (route_ptrs sp). if k \<noteq> 0 \<and> route_ZoneID (snd p) = k then route_names (snd p) else {})
      = (if k = 0 then {} else \<Union> (route_names ` {r \<in> set (snap_Routes (snd sp)). route_ZoneID r = k}))"
    unfolding snd_route_ptrs[symmetric] by auto
  moreover have "set (gm_list (ix_namesByZone (buildSnapshotIndex env (Some sp))) k) =
      set (gm_list (ix_namesByZone (foldl index_zone (empty_index :: 'p snapshotIndex) (snap_Zones (snd sp)))) k)
      \<union> (\<Union>p \<in> set (route_ptrs sp). if k \<noteq> 0 \<and> route_ZoneID (snd p) = k then route_names (snd p) else {})"
    by (simp add: buildSnapshotIndex_def index_routes_names)
  moreover have "gm_list [] k = ([] :: string list)" by (simp add: gm_list_def)
  ultimately show ?thesis unfolding index_zones_zone_names by (simp only: empty_index_simps list.set)
qed

section \<open>Properties\<close>

text \<open>C20: The index is a faithful view of the snapshot. A zone found by its identifier or by its name is the last zone with it;
  the records under a zone, name and type are the records of that zone with that name and type, in order; the routes under a
  domain, or under the base of a wildcard domain, are the routes that list it, in order and as often as they list it; the policy
  of a route is that of the last route with its identifier; and the names of a zone are its own, those of its records and
  the domains of its routes.\<close>

theorem index_is_scan:
  "let ix = buildSnapshotIndex env (Some sp); zones = snap_Zones (snd sp); routes = snap_Routes (snd sp) in
   map_of (ix_zonesByID ix) i = find (\<lambda>z. zone_ID z = i) (rev zones)
   \<and> map_of (ix_zonesByName ix) n = find (\<lambda>z. zone_Name z = n) (rev zones)
   \<and> gm_list (ix_recordsByNameType ix) \<lparr>rk_ZoneID = i, rk_Name = n, rk_Type = t\<rparr> =
      concat (map (\<lambda>z. if zone_ID z = i then filter (\<lambda>r. rec_Name r = n \<and> rec_Type r = t) (zone_Records z) else []) zones)
   \<and> gm_list (ix_routesByDomain ix) n =
      concat (map (\<lambda>p. map (\<lambda>_. p) (filter (\<lambda>d. d = n) (exact_domains (snd p)))) (route_ptrs sp))
   \<and> gm_list (ix_routesByWildcard ix) n =
      concat (map (\<lambda>p. map (\<lambda>_. p) (filter (\<lambda>b. b = n) (wildcard_bases (snd p)))) (route_ptrs sp))
   \<and> (case ix_policiesByRouteID ix of None \<Rightarrow> None | Some m \<Rightarrow> map_of m i) =
      (if i = 0 then None else map_option route_GSLBPolicy (find (\<lambda>r. route_ID r = i) (rev routes)))
   \<and> set (gm_list (ix_namesByZone ix) i) =
      (case find (\<lambda>z. zone_ID z = i) (rev zones) of
         None \<Rightarrow> {} | Some z \<Rightarrow> insert (zone_Name z) (rec_Name ` set (zone_Records z)))
      \<union> (if i = 0 then {} else \<Union> (route_names ` {r \<in> set routes. route_ZoneID r = i}))"
proof -
  have "concat (map (\<lambda>z. filter (\<lambda>r. key_of (zone_ID z) r = \<lparr>rk_ZoneID = i, rk_Name = n, rk_Type = t\<rparr>) (zone_Records z)) zs) =
      concat (map (\<lambda>z. if zone_ID z = i then filter (\<lambda>r. rec_Name r = n \<and> rec_Type r = t) (zone_Records z) else []) zs)" for zs
    by (induction zs) (auto simp: key_of_def)
  moreover have "map_option (\<lambda>p. route_GSLBPolicy (snd p)) (find (\<lambda>p. route_ID (snd p) = i) ps)
      = map_option route_GSLBPolicy (find (\<lambda>r. route_ID r = i) (map snd ps))" for ps :: "route_ptr list"
    by (induction ps) auto
  moreover have "map snd (rev (route_ptrs sp)) = rev (snap_Routes (snd sp))" unfolding rev_map[symmetric] by (simp add: map_snd_route_ptrs)
  ultimately show ?thesis unfolding Let_def
    by (intro conjI) (simp_all only: index_zone_by_id index_zone_by_name index_records_scan index_exact_scan index_wild_scan routes_with_def index_policies index_names)
qed

text \<open>A snapshot accepted at time \<open>now\<close> counts as fresh for at most the maximum age after that time,
  whatever generation time it claims: a time in the future is replaced by \<open>now\<close>.\<close>

theorem accepted_snapshot_expires:
  assumes "Store_Set env now (Some snap) s = (None, s')" and "st_maxAge s < t - now" and "st_maxAge s < 2 ^ 63 - 1"
  shows "\<not> IsFresh s' t"
proof -
  note ok = Store_Set_ok[OF assms(1)]
  let ?g = "snap_GeneratedAt (normalizeSnapshotRuntimeTimes (normalizeSnapshot snap) now)"
  have "?g \<le> now" by (rule runtime_generated_le)
  then have "st_maxAge s < TimeSub t ?g" using assms(2,3) by (simp add: TimeSub_def)
  then show ?thesis using ok by (simp add: IsFresh_def)
qed

definition plain_env :: "unit dns_env" where
  "plain_env =
    \<lparr>SetReply = (\<lambda>r. zero_Msg\<lparr>msg_Id := msg_Id r, msg_Response := True, msg_Question := take 1 (msg_Question r)\<rparr>),
     SetRcode = (\<lambda>r c. zero_Msg\<lparr>msg_Id := msg_Id r, msg_Response := True, msg_Rcode := c\<rparr>),
     TypeToString = (\<lambda>t. if t = TypeA then ''A'' else if t = TypeAAAA then ''AAAA'' else []),
     StringToType = (\<lambda>_. 0), NewRR = (\<lambda>_. None), HashName = (\<lambda>n _ _. n), DecryptKey = (\<lambda>_ _. None),
     KeyTag = (\<lambda>_. 0), CountLabel = (\<lambda>_. 0), SignRRset = (\<lambda>_ _ _. None), MsgLen = (\<lambda>_. 0),
     MsgTruncate = (\<lambda>m _. m)\<rparr>"

definition small_snapshot :: Snapshot where
  "small_snapshot = zero_Snapshot\<lparr>snap_SnapshotVersion := ''v1'', snap_GeneratedAt := 5000\<rparr>"

lemma small_snapshot_set:
  "\<exists>s'. Store_Set plain_env 1000 (Some small_snapshot) (NewSnapshotStore ''x'' 10) = (None, s')"
proof -
  have "TrimSpace (snap_SnapshotVersion small_snapshot) \<noteq> []" unfolding small_snapshot_def by code_simp
  then show ?thesis by (simp add: Store_Set_def Let_def)
qed

theorem accepted_snapshot_expires_witness:
  "\<exists>s'. Store_Set plain_env 1000 (Some small_snapshot) (NewSnapshotStore ''x'' 10) = (None, s') \<and> \<not> IsFresh s' 1011"
proof -
  obtain s' where s': "Store_Set plain_env 1000 (Some small_snapshot) (NewSnapshotStore ''x'' 10) = (None, s')"
    using small_snapshot_set by blast
  have "\<not> IsFresh s' 1011"
    by (rule accepted_snapshot_expires[OF s']) (simp_all add: NewSnapshotStore_def)
  with s' show ?thesis by blast
qed

text \<open>C32: A snapshot that is saved is accepted again when the worker restarts: with encoders that decode
  what they encode, loading the file that \<open>Save\<close> wrote succeeds, the checksum included, and installs the
  saved snapshot.\<close>

theorem save_then_load:
  assumes "codec_ok cd" and "TrimSpace (st_path s) \<noteq> []" and "TrimSpace (snap_SnapshotVersion snap) \<noteq> []"
    and "Store_Save cd no_faults t0 (Some snap) s fs = (err, s1, fs')"
    and "st_path s2 = st_path s"
  defines "saved \<equiv> normalizeSnapshotRuntimeTimes (normalizeSnapshot snap) t0"
  shows "err = None \<and> fst (LoadFromDisk cd env t1 None fs' s2) = None
    \<and> st_snapshot (snd (LoadFromDisk cd env t1 None fs' s2)) =
        Some (st_next s2, normalizeSnapshotRuntimeTimes (normalizeSnapshot saved) t1)"
proof -
  have v: "snap_SnapshotVersion saved = snap_SnapshotVersion snap"
    by (simp add: saved_def normalizeSnapshotRuntimeTimes_def normalizeSnapshot_def Let_def)
  define checksum where "checksum = ''sha256:'' @ hex_sha256 cd (marshal_snapshot cd (normalizeSnapshot saved))"
  have c: "checksumSnapshot cd (Some saved) = Inr checksum"
    using assms(3) v by (simp add: checksumSnapshot_def prepareSnapshotForPersistence_def checksum_def)
  let ?raw = "marshal_envelope cd (make_envelope t0 checksum saved)"
  have res: "save_result cd no_faults t0 (st_path s) snap fs =
      (None, rename_file (st_path s @ ''.tmp'') (st_path s) (AList.update (st_path s @ ''.tmp'') ?raw fs))"
    using assms(3) c unfolding saved_def
    by (simp add: save_result_def no_faults_def prepareSnapshotForPersistence_def Let_def write_and_rename_def)
  then have fs': "err = None" "map_of fs' (st_path s) = Some ?raw"
    using assms(2,4) by (auto simp: Store_Save_def rename_file_lookup)
  have sv: "TrimSpace (snap_SnapshotVersion (strip_snapshot saved)) \<noteq> []"
    using assms(3) v by (simp add: strip_snapshot_def)
  have "LoadFromDisk cd env t1 None fs' s2 = load_snapshot env t1 (strip_snapshot saved) s2"
    using assms(2,5) fs' decode_envelope_roundtrip[OF assms(1) c] by (simp add: LoadFromDisk_def)
  then show ?thesis
    using fs'(1) load_snapshot_ok[OF sv] by (simp add: normalizeSnapshot_strip)
qed

definition plain_codec :: "persistedSnapshotEnvelope codec" where
  "plain_codec =
    \<lparr>marshal_snapshot = (\<lambda>s. snap_SnapshotVersion s), marshal_envelope = (\<lambda>e. e),
     unmarshal_envelope = (\<lambda>e. Some (e\<lparr>env_Snapshot := map_option strip_snapshot (env_Snapshot e)\<rparr>)),
     unmarshal_snapshot = (\<lambda>e. env_Snapshot e), hex_sha256 = (\<lambda>s. FormatUint (length s))\<rparr>"

theorem save_then_load_witness:
  "\<exists>fs. st_snapshot (snd (LoadFromDisk plain_codec plain_env 20 None fs (NewSnapshotStore ''x'' 10))) =
    Some (0, normalizeSnapshotRuntimeTimes
      (normalizeSnapshot (normalizeSnapshotRuntimeTimes (normalizeSnapshot small_snapshot) 10)) 20)"
proof -
  have ok: "codec_ok plain_codec"
    using FormatUint_no_space by (auto simp: codec_ok_def plain_codec_def)
  have p: "TrimSpace (st_path (NewSnapshotStore ''x'' 10 :: unit SnapshotStore)) \<noteq> []"
    unfolding NewSnapshotStore_def by code_simp
  have v: "TrimSpace (snap_SnapshotVersion small_snapshot) \<noteq> []" unfolding small_snapshot_def by code_simp
  obtain err s1 fs' where r: "Store_Save plain_codec no_faults 10 (Some small_snapshot) (NewSnapshotStore ''x'' 10 :: unit SnapshotStore) [] = (err, s1, fs')"
    by (metis prod_cases3)
  have "st_next (NewSnapshotStore ''x'' 10 :: unit SnapshotStore) = 0" by (simp add: NewSnapshotStore_def)
  with save_then_load[OF ok p v r refl, of plain_env 20] show ?thesis by auto
qed

text \<open>The limits the worker runs with are always in range, whatever the server sends: the UDP size
  between 512 and 65535, the subnet prefixes within the address lengths, no negative rate.\<close>

theorem worker_policy_in_range:
  "0 \<le> wp_QueryRateLimit (normalizeWorkerPolicy p) \<and> 0 \<le> wp_ResponseRateLimit (normalizeWorkerPolicy p)
   \<and> wp_UDPResponseSize (normalizeWorkerPolicy p) \<in> {512..65535}
   \<and> wp_ECSIPv4Prefix (normalizeWorkerPolicy p) \<in> {0..32} \<and> wp_ECSIPv6Prefix (normalizeWorkerPolicy p) \<in> {0..128}"
  using normalizeWorkerPolicy_bounds[of p] by simp

end
