(* ===== verification/Gslb_Scheduler.thy ===== *)
theory Gslb_Scheduler
  imports Target_Select Snapshot_Store
begin

text \<open>
  The scheduler of the DNS worker (\<open>scheduler.go\<close>): its state, the debouncing of target changes, the
  cache of normalised policies, the exchange of debounce states with snapshots, and \<open>SelectWithIndex\<close>,
  which composes pool matching, candidates, selection and debouncing. The clock and the hash are
  arguments. A receiver is never nil: the server always has a scheduler.

  Shown: the debouncing rule on every branch and over runs of calls; the text of a state key is parsed
  back; the policy cache returns what normalising returns; and, over every sequence of operations, the
  targets that are stored and answered have the address family of their record type.
\<close>

section \<open>State\<close>

record debounceState =
  ds_Targets :: "string list"
  ds_Desired :: "string list"
  ds_UnhealthyCount :: int
  ds_RecoveryCount :: int
  ds_LastChangedAt :: gotime

definition zero_debounceState :: debounceState where
  "zero_debounceState =
    \<lparr>ds_Targets = [], ds_Desired = [], ds_UnhealthyCount = 0, ds_RecoveryCount = 0, ds_LastChangedAt = 0\<rparr>"

type_synonym states_map = "(string, debounceState) gomap"

record Scheduler =
  sch_states :: states_map
  sch_policyCacheSnapshot :: "nat option"
  sch_policyCache :: "(nat \<times> nat, GSLBPolicy) gomap option"

definition NewScheduler :: Scheduler where
  "NewScheduler = \<lparr>sch_states = [], sch_policyCacheSnapshot = None, sch_policyCache = None\<rparr>"

section \<open>Keys\<close>

definition normalizeDebounceThreshold :: "int \<Rightarrow> int" where
  "normalizeDebounceThreshold value = (if value \<le> 0 then 1 else value)"

definition normalizeDebounceCounter :: "int \<Rightarrow> int" where
  "normalizeDebounceCounter value = (if value < 0 then 0 else value)"

definition schedulerStateKey :: "nat \<Rightarrow> string \<Rightarrow> string \<Rightarrow> string" where
  "schedulerStateKey routeID recordType scopeKey =
    FormatUint routeID @ ''|'' @ normalizeAddressRecordType recordType @ ''|'' @ normalizeSourceScope scopeKey"

text \<open>\<open>strings.SplitN(s, "|", 3)\<close>.\<close>

definition splitN3 :: "string \<Rightarrow> string list" where
  "splitN3 s =
    (case Cut s CHR ''|'' of
       (a, r, False) \<Rightarrow> [a]
     | (a, r, True) \<Rightarrow> (case Cut r CHR ''|'' of (b, t, False) \<Rightarrow> [a, b] | (b, t, True) \<Rightarrow> [a, b, t]))"

definition parseSchedulerStateKey :: "string \<Rightarrow> (nat \<times> string \<times> string) option" where
  "parseSchedulerStateKey key =
    (case Cut key CHR ''|'' of
       (rawRouteID, rest, ok) \<Rightarrow>
         if \<not> ok then None
         else
           (case splitN3 rest of
              recordType # scope # tail \<Rightarrow>
                (case ParseUint 64 rawRouteID of
                   None \<Rightarrow> None
                 | Some routeID \<Rightarrow>
                     if routeID = 0 then None
                     else Some (routeID, normalizeAddressRecordType recordType,
                       normalizeSourceScope (case tail of [] \<Rightarrow> scope | t # _ \<Rightarrow> scope @ ''|'' @ t)))
            | _ \<Rightarrow> None))"

definition schedulerStateRouteID :: "string \<Rightarrow> nat option" where
  "schedulerStateRouteID key = map_option fst (parseSchedulerStateKey key)"

section \<open>Debouncing\<close>

definition count_of :: "(string, int) gomap \<Rightarrow> string \<Rightarrow> int" where
  "count_of counter key = (case map_of counter key of None \<Rightarrow> 0 | Some n \<Rightarrow> n)"

fun consume_all :: "(string, int) gomap \<Rightarrow> string list \<Rightarrow> bool" where
  "consume_all counter [] = True"
| "consume_all counter (v # vs) =
    (if count_of counter (TrimSpace v) \<le> 0 then False
     else consume_all (AList.update (TrimSpace v) (count_of counter (TrimSpace v) - 1) counter) vs)"

definition count_all :: "string list \<Rightarrow> (string, int) gomap" where
  "count_all vs = foldl (\<lambda>counter v. AList.update (TrimSpace v) (count_of counter (TrimSpace v) + 1) counter) [] vs"

definition sameStringSet :: "string list \<Rightarrow> string list \<Rightarrow> bool" where
  "sameStringSet left right = (if length left \<noteq> length right then False else consume_all (count_all left) right)"

definition allTargetsEligible :: "string list \<Rightarrow> string list \<Rightarrow> bool" where
  "allTargetsEligible targets eligible =
    (if length targets = 0 then False else list_all (\<lambda>t. TrimSpace t \<in> set eligible) targets)"

text \<open>The state and the selected targets before the final update of \<open>applyDebounce\<close>.\<close>

definition debounce_choice ::
  "gotime \<Rightarrow> GSLBDebounce \<Rightarrow> string list \<Rightarrow> string list \<Rightarrow> debounceState \<Rightarrow> debounceState \<times> string list" where
  "debounce_choice now d desired eligible state =
    (let cooldown = deb_CooldownSeconds d * Second;
         unhealthyThreshold = normalizeDebounceThreshold (deb_UnhealthyThreshold d);
         recoveryThreshold = normalizeDebounceThreshold (deb_RecoveryThreshold d);
         reasonChanged = (length (ds_Targets state) = 0 \<or> \<not> sameStringSet (ds_Targets state) desired)
     in if \<not> reasonChanged then (state\<lparr>ds_UnhealthyCount := 0, ds_RecoveryCount := 0\<rparr>, desired)
        else if length (ds_Targets state) > 0 then
          (if allTargetsEligible (ds_Targets state) eligible then
             (let state = state\<lparr>ds_UnhealthyCount := 0, ds_RecoveryCount := ds_RecoveryCount state + 1\<rparr>
              in (state,
                  if ds_RecoveryCount state < recoveryThreshold
                    \<or> (ds_LastChangedAt state \<noteq> 0 \<and> TimeSub now (ds_LastChangedAt state) < cooldown)
                  then ds_Targets state else desired))
           else
             (let state = state\<lparr>ds_RecoveryCount := 0, ds_UnhealthyCount := ds_UnhealthyCount state + 1\<rparr>
              in (state, if ds_UnhealthyCount state < unhealthyThreshold then ds_Targets state else desired)))
        else (state, desired))"

definition debounce_update :: "gotime \<Rightarrow> string list \<Rightarrow> debounceState \<times> string list \<Rightarrow> debounceState" where
  "debounce_update now desired = (\<lambda>(state, selected).
    (let state =
       (if ds_LastChangedAt state = 0 \<or> \<not> sameStringSet (ds_Targets state) selected
        then state\<lparr>ds_LastChangedAt := now, ds_UnhealthyCount := 0, ds_RecoveryCount := 0\<rparr> else state)
     in state\<lparr>ds_Targets := selected, ds_Desired := desired\<rparr>))"

definition debounce_step ::
  "gotime \<Rightarrow> GSLBDebounce \<Rightarrow> string list \<Rightarrow> string list \<Rightarrow> debounceState \<Rightarrow> string list \<times> debounceState" where
  "debounce_step now d desired eligible state =
    (let c = debounce_choice now d desired eligible state in (snd c, debounce_update now desired c))"

definition state_of :: "states_map \<Rightarrow> string \<Rightarrow> debounceState" where
  "state_of states key = (case map_of states key of None \<Rightarrow> zero_debounceState | Some st \<Rightarrow> st)"

definition applyDebounce ::
  "gotime \<Rightarrow> nat \<Rightarrow> string \<Rightarrow> string \<Rightarrow> string list \<Rightarrow> targetCandidate list \<Rightarrow> GSLBPolicy \<Rightarrow> Scheduler
    \<Rightarrow> string list \<times> Scheduler" where
  "applyDebounce now routeID recordType scopeKey desired candidates policy s =
    (let key = schedulerStateKey routeID recordType scopeKey;
         r = debounce_step now (pol_Debounce policy) desired (map cand_Content candidates) (state_of (sch_states s) key)
     in (fst r, s\<lparr>sch_states := AList.update key (snd r) (sch_states s)\<rparr>))"

section \<open>Exchange with snapshots\<close>

definition route_types :: "Snapshot \<Rightarrow> (nat, string) gomap" where
  "route_types snapshot =
    foldl (\<lambda>m route. if route_ID route = 0 then m
      else AList.update (route_ID route) (normalizeAddressRecordType (route_RecordType route)) m) []
      (snap_Routes snapshot)"

definition clamp_state :: "gotime \<Rightarrow> debounceState \<Rightarrow> debounceState" where
  "clamp_state now st = (if ds_LastChangedAt st > now then st\<lparr>ds_LastChangedAt := now\<rparr> else st)"

text \<open>The state of one key that is sent, and the state that stays; \<open>None\<close> when the key is skipped.\<close>

definition export_state ::
  "gotime \<Rightarrow> (nat, string) gomap \<Rightarrow> string \<times> debounceState \<Rightarrow> (SnapshotSchedulingState \<times> debounceState) option" where
  "export_state now routeTypes = (\<lambda>(key, state).
    (case parseSchedulerStateKey key of
       None \<Rightarrow> None
     | Some (routeID, recordType, scopeKey) \<Rightarrow>
         if map_of routeTypes routeID \<noteq> Some recordType \<or> length (ds_Targets state) = 0 \<or> ds_LastChangedAt state = 0
         then None
         else
           (let state = clamp_state now state
            in Some (\<lparr>ss_RouteID = routeID, ss_RecordType = recordType, ss_ScopeKey = scopeKey,
                  ss_SelectedTargets = ds_Targets state, ss_DesiredTargets = ds_Desired state,
                  ss_UnhealthyCount = ds_UnhealthyCount state, ss_RecoveryCount = ds_RecoveryCount state,
                  ss_LastChangedAt = Some (ds_LastChangedAt state)\<rparr>, state))))"

definition state_less :: "SnapshotSchedulingState \<Rightarrow> SnapshotSchedulingState \<Rightarrow> bool" where
  "state_less x y =
    (if ss_RouteID x \<noteq> ss_RouteID y then ss_RouteID x < ss_RouteID y
     else if ss_RecordType x \<noteq> ss_RecordType y then ss_RecordType x < ss_RecordType y
     else ss_ScopeKey x < ss_ScopeKey y)"

definition SnapshotStates ::
  "gotime \<Rightarrow> Snapshot option \<Rightarrow> Scheduler \<Rightarrow> SnapshotSchedulingState list \<times> Scheduler" where
  "SnapshotStates now snapshot s =
    (case snapshot of
       None \<Rightarrow> ([], s)
     | Some snap \<Rightarrow>
         (let routeTypes = route_types snap
          in (SliceStable state_less (map fst (List.map_filter (export_state now routeTypes) (sch_states s))),
              s\<lparr>sch_states := map (\<lambda>(key, state).
                (key, case export_state now routeTypes (key, state) of None \<Rightarrow> state | Some (_, st) \<Rightarrow> st))
                (sch_states s)\<rparr>)))"

definition route_ids :: "Snapshot \<Rightarrow> nat list" where
  "route_ids snapshot = filter (\<lambda>i. i \<noteq> 0) (map route_ID (snap_Routes snapshot))"

definition import_state ::
  "gotime \<Rightarrow> Snapshot \<Rightarrow> SnapshotSchedulingState \<Rightarrow> (string \<times> debounceState) option" where
  "import_state now snapshot item =
    (let recordType = normalizeAddressRecordType (ss_RecordType item);
         scopeKey = normalizeSourceScope (ss_ScopeKey item);
         targets = normalizeIPList (ss_SelectedTargets item) recordType;
         desired = normalizeIPList (ss_DesiredTargets item) recordType
     in case normalizeSnapshotSchedulingStateChangedAt (ss_LastChangedAt item) now (snap_GeneratedAt snapshot) of
          None \<Rightarrow> None
        | Some lastChangedAt \<Rightarrow>
            if ss_RouteID item = 0 \<or> length targets = 0 \<or> lastChangedAt = 0 then None
            else if ss_RouteID item \<notin> set (route_ids snapshot) then None
            else Some (schedulerStateKey (ss_RouteID item) recordType scopeKey,
              \<lparr>ds_Targets = targets, ds_Desired = desired,
               ds_UnhealthyCount = normalizeDebounceCounter (ss_UnhealthyCount item),
               ds_RecoveryCount = normalizeDebounceCounter (ss_RecoveryCount item),
               ds_LastChangedAt = lastChangedAt\<rparr>))"

definition put_all :: "('k \<times> 'v) list \<Rightarrow> ('k, 'v) gomap \<Rightarrow> ('k, 'v) gomap" where
  "put_all kvs m = foldl (\<lambda>m (k, v). AList.update k v m) m kvs"

definition LoadSnapshotStates :: "gotime \<Rightarrow> Snapshot option \<Rightarrow> Scheduler \<Rightarrow> Scheduler" where
  "LoadSnapshotStates now snapshot s =
    (case snapshot of
       None \<Rightarrow> s
     | Some snap \<Rightarrow>
         (let snapshotStates = put_all (List.map_filter (import_state now snap) (snap_SchedulingStates snap)) [];
              kept = filter (\<lambda>(key, state).
                case schedulerStateRouteID key of None \<Rightarrow> False | Some i \<Rightarrow> i \<in> set (route_ids snap)) (sch_states s)
          in s\<lparr>sch_states := put_all snapshotStates kept\<rparr>))"

section \<open>Policies and scopes\<close>

text \<open>\<open>None\<close> as a policy is the panic of writing to a nil map: it happens when the cache was never made
  and the snapshot is nil, since then no new cache is made.\<close>

definition routePolicy ::
  "snapshot_ptr option \<Rightarrow> 'p snapshotIndex \<Rightarrow> route_ptr \<Rightarrow> Scheduler \<Rightarrow> GSLBPolicy option \<times> Scheduler" where
  "routePolicy snapshot index rp s =
    (let route = snd rp; addr = map_option fst snapshot;
         indexed = (if route_ID route \<noteq> 0
           then (case ix_policiesByRouteID index of None \<Rightarrow> None | Some m \<Rightarrow> map_of m (route_ID route)) else None)
     in case indexed of
          Some policy \<Rightarrow> (Some policy, s)
        | None \<Rightarrow>
            (let cached = (if sch_policyCacheSnapshot s = addr
                 then (case sch_policyCache s of None \<Rightarrow> None | Some m \<Rightarrow> map_of m (fst rp)) else None)
             in case cached of
                  Some policy \<Rightarrow> (Some policy, s)
                | None \<Rightarrow>
                    (let policy = normalizePolicy (route_GSLBPolicy route) route;
                         s = (if sch_policyCacheSnapshot s \<noteq> addr
                           then s\<lparr>sch_policyCacheSnapshot := addr, sch_policyCache := Some []\<rparr> else s)
                     in case sch_policyCache s of
                          None \<Rightarrow> (None, s)
                        | Some m \<Rightarrow> (Some policy, s\<lparr>sch_policyCache := Some (AList.update (fst rp) policy m)\<rparr>))))"

definition spread_base_key :: "nat \<Rightarrow> string \<Rightarrow> string \<Rightarrow> net_ip \<Rightarrow> string" where
  "spread_base_key routeID recordType baseScopeKey ip =
    FormatUint routeID @ ''|'' @ normalizeAddressRecordType recordType @ ''|'' @ normalizeSourceScope baseScopeKey
      @ ''|ip:'' @ IP_String ip"

definition sourceSpreadForPolicy ::
  "hash_env \<Rightarrow> GSLBPolicy \<Rightarrow> nat \<Rightarrow> string \<Rightarrow> SourceContext \<Rightarrow> string \<Rightarrow> sourceSpread option" where
  "sourceSpreadForPolicy env policy routeID recordType source baseScopeKey =
    (if \<not> usesSourceWeightedSpread policy then None
     else (case ParseIP (TrimSpace (src_IP source)) of
         None \<Rightarrow> None
       | Some ip \<Rightarrow>
           (let key = spread_base_key routeID recordType baseScopeKey (shorten ip)
            in Some \<lparr>sp_Key = key, sp_Bucket = int (stableHashUint64 env key mod 100)\<rparr>)))"

section \<open>Selection\<close>

datatype select_error =
    Route_Is_Nil
  | Unsupported_Type
  | Snapshot_Is_Stale
  | ErrDNSProbeThresholdNotSatisfied string
  | ErrNoAvailableTarget string
  | ErrNoTargetSelected string
  | Panic_Nil_Map

text \<open>The answer of \<open>SelectWithIndex\<close>: targets or an error, the time to live and the scope.\<close>

record selection =
  sel_result :: "select_error + string list"
  sel_ttl :: int
  sel_scope :: string

definition static_policy :: "SnapshotRoute \<Rightarrow> GSLBPolicy" where
  "static_policy route =
    zero_GSLBPolicy\<lparr>pol_Strategy := normalizeStrategy (route_ScheduleMode route),
      pol_TargetCount := normalizeTargetCount (route_TargetCount route),
      pol_TTL := normalizeAuthoritativeTTL (route_TTL route),
      pol_Pools := [zero_GSLBPoolPolicy\<lparr>pool_Name := normalizeNodePoolName (route_NodePool route),
        pool_Weight := 100, pool_Enabled := True\<rparr>],
      pol_Debounce := normalizeDebounce zero_GSLBDebounce\<rparr>"

text \<open>The scope of the state and the spread, with the bucket of the source when there is one.\<close>

definition scope_and_spread ::
  "hash_env \<Rightarrow> GSLBPolicy \<Rightarrow> nat \<Rightarrow> string \<Rightarrow> SourceContext \<Rightarrow> string \<times> sourceSpread option" where
  "scope_and_spread env policy routeID recordType source =
    (let baseScopeKey = sourceScopeKeyForPolicy policy source
     in case sourceSpreadForPolicy env policy routeID recordType source baseScopeKey of
          None \<Rightarrow> (baseScopeKey, None)
        | Some spread \<Rightarrow>
            (let scopeKey = baseScopeKey @ ''|bucket:'' @ Format02d (nat (sp_Bucket spread))
             in (scopeKey, Some (spread\<lparr>sp_Key := schedulerStateKey routeID recordType scopeKey\<rparr>))))"

definition probing_enabled :: "snapshot_ptr option \<Rightarrow> bool" where
  "probing_enabled snapshot =
    (case snapshot of None \<Rightarrow> False | Some sp \<Rightarrow> snap_GSLBProbeSchedulingEnabled (snd sp))"

text \<open>From the policy on.\<close>

definition select_with_policy ::
  "hash_env \<Rightarrow> gotime \<Rightarrow> snapshot_ptr option \<Rightarrow> SnapshotRoute \<Rightarrow> string \<Rightarrow> SourceContext \<Rightarrow> GSLBPolicy \<Rightarrow> Scheduler
    \<Rightarrow> selection \<times> Scheduler" where
  "select_with_policy env now snapshot route recordType source policy s =
    (let ss = scope_and_spread env policy (route_ID route) recordType source;
         ttl = normalizeAuthoritativeTTL (pol_TTL policy);
         candidates = buildCandidates (map_option snd snapshot) recordType policy source
     in if length candidates = 0 then
          (\<lparr>sel_result = Inl (if probing_enabled snapshot
                \<and> hasCandidatesWithoutDNSProbe (map_option snd snapshot) recordType policy source
              then ErrDNSProbeThresholdNotSatisfied recordType else ErrNoAvailableTarget recordType),
            sel_ttl = ttl, sel_scope = fst ss\<rparr>, s)
        else
          (let desired = selectWeightedTargets env candidates policy (snd ss)
           in if length desired = 0 then
                (\<lparr>sel_result = Inl (ErrNoTargetSelected recordType), sel_ttl = ttl, sel_scope = fst ss\<rparr>, s)
              else
                (let r = applyDebounce now (route_ID route) recordType (fst ss) desired candidates policy s
                 in (\<lparr>sel_result = Inr (fst r), sel_ttl = ttl, sel_scope = fst ss\<rparr>, snd r))))"

definition SelectWithIndex ::
  "hash_env \<Rightarrow> gotime \<Rightarrow> snapshot_ptr option \<Rightarrow> 'p snapshotIndex \<Rightarrow> route_ptr option \<Rightarrow> string \<Rightarrow> SourceContext
    \<Rightarrow> bool \<Rightarrow> Scheduler \<Rightarrow> selection \<times> Scheduler" where
  "SelectWithIndex env now snapshot index rp rawType source fresh s =
    (case rp of
       None \<Rightarrow> (\<lparr>sel_result = Inl Route_Is_Nil, sel_ttl = DefaultAuthoritativeTTL, sel_scope = ''global''\<rparr>, s)
     | Some rp \<Rightarrow>
         (let recordType = normalizeAddressRecordType rawType; route = snd rp;
              failed = (\<lambda>e. \<lparr>sel_result = Inl e, sel_ttl = normalizeAuthoritativeTTL (route_TTL route),
                sel_scope = sourceScopeKey source\<rparr>)
          in if recordType \<noteq> ''A'' \<and> recordType \<noteq> ''AAAA'' then (failed Unsupported_Type, s)
             else if \<not> fresh then (failed Snapshot_Is_Stale, s)
             else if \<not> route_GSLBEnabled route then
               (let targets = normalizeIPList (route_CurrentTargets route) recordType
                in if length targets > 0 then
                     (\<lparr>sel_result = Inr (limitTargets targets (route_TargetCount route)),
                       sel_ttl = normalizeAuthoritativeTTL (route_TTL route), sel_scope = ''global''\<rparr>, s)
                   else select_with_policy env now snapshot route recordType source (static_policy route) s)
             else
               (case routePolicy snapshot index rp s of
                  (None, s') \<Rightarrow> (failed Panic_Nil_Map, s')
                | (Some policy, s') \<Rightarrow> select_with_policy env now snapshot route recordType source policy s')))"

definition Select ::
  "hash_env \<Rightarrow> gotime \<Rightarrow> snapshot_ptr option \<Rightarrow> route_ptr option \<Rightarrow> string \<Rightarrow> SourceContext \<Rightarrow> bool \<Rightarrow> Scheduler
    \<Rightarrow> selection \<times> Scheduler" where
  "Select env now snapshot rp recordType source fresh s =
    SelectWithIndex env now snapshot (zero_index :: unit snapshotIndex) rp recordType source fresh s"


section \<open>Equal target sets\<close>

lemma count_of_update: "count_of (AList.update k n m) k' = (if k = k' then n else count_of m k')"
  by (simp add: count_of_def update_conv')

lemma count_of_count_all: "count_of (count_all vs) k = int (count (mset (map TrimSpace vs)) k)"
  by (induction vs rule: rev_induct) (auto simp: count_all_def count_of_update, simp add: count_of_def)

lemma consume_all_iff:
  "consume_all c vs \<longleftrightarrow> (\<forall>k \<in> set (map TrimSpace vs). int (count (mset (map TrimSpace vs)) k) \<le> count_of c k)"
proof (induction vs arbitrary: c)
  case (Cons v vs)
  let ?k = "TrimSpace v" and ?m = "mset (map TrimSpace vs)"
  show ?case
  proof (cases "count_of c ?k \<le> 0")
    case True
    then have "\<not> int (count (mset (map TrimSpace (v # vs))) ?k) \<le> count_of c ?k" by simp
    with True show ?thesis by auto
  next
    case False
    have "consume_all c (v # vs) \<longleftrightarrow> (\<forall>k \<in> set (map TrimSpace vs).
        int (count ?m k) \<le> (if ?k = k then count_of c ?k - 1 else count_of c k))"
      using False Cons.IH by (simp add: count_of_update)
    also have "\<dots> \<longleftrightarrow> (\<forall>k \<in> set (map TrimSpace (v # vs)). int (count (mset (map TrimSpace (v # vs))) k) \<le> count_of c k)"
    proof (cases "?k \<in> set (map TrimSpace vs)")
      case True
      then show ?thesis using False by auto
    next
      case nin: False
      then have "count ?m ?k = 0" by (simp only: count_eq_zero_iff set_mset_mset not_False_eq_True)
      then show ?thesis using False nin by auto
    qed
    finally show ?thesis .
  qed
qed simp

lemma sameStringSet_iff: "sameStringSet l r \<longleftrightarrow> mset (map TrimSpace l) = mset (map TrimSpace r)"
proof
  assume s: "sameStringSet l r"
  then have len: "length l = length r" and c: "consume_all (count_all l) r"
    by (auto simp: sameStringSet_def split: if_splits)
  have "count (mset (map TrimSpace r)) k \<le> count (mset (map TrimSpace l)) k" for k
  proof (cases "k \<in> set (map TrimSpace r)")
    case True
    then show ?thesis using c unfolding consume_all_iff count_of_count_all by (metis of_nat_le_iff)
  next
    case False
    then have "count (mset (map TrimSpace r)) k = 0" by (simp only: count_eq_zero_iff set_mset_mset not_False_eq_True)
    then show ?thesis by simp
  qed
  then have "mset (map TrimSpace r) \<subseteq># mset (map TrimSpace l)" by (simp add: subseteq_mset_def)
  moreover have "size (mset (map TrimSpace r)) = size (mset (map TrimSpace l))" using len by simp
  ultimately show "mset (map TrimSpace l) = mset (map TrimSpace r)"
    by (metis mset_subset_size nat_less_le subset_mset.le_less)
next
  assume m: "mset (map TrimSpace l) = mset (map TrimSpace r)"
  then have "length l = length r" by (metis length_map size_mset)
  moreover have "consume_all (count_all l) r" unfolding consume_all_iff count_of_count_all m by simp
  ultimately show "sameStringSet l r" by (simp add: sameStringSet_def)
qed

lemma sameStringSet_refl [simp]: "sameStringSet l l"
  by (simp add: sameStringSet_iff)

lemma allTargetsEligible_cong:
  "sameStringSet l r \<Longrightarrow> allTargetsEligible l e = allTargetsEligible r e"
proof -
  assume s: "sameStringSet l r"
  then have "set (map TrimSpace l) = set (map TrimSpace r)" by (metis sameStringSet_iff set_mset_mset)
  moreover have "length l = length r" using s by (auto simp: sameStringSet_def split: if_splits)
  moreover have "list_all (\<lambda>t. TrimSpace t \<in> set e) ts \<longleftrightarrow> set (map TrimSpace ts) \<subseteq> set e" for ts
    by (auto simp: list_all_iff)
  ultimately show ?thesis by (simp only: allTargetsEligible_def)
qed

section \<open>One step of debouncing\<close>

lemma debounce_result:
  "fst (debounce_step now d desired eligible st) = desired
    \<or> fst (debounce_step now d desired eligible st) = ds_Targets st \<and> ds_Targets st \<noteq> []"
  by (auto simp: debounce_step_def debounce_choice_def Let_def split: if_splits)

lemma debounce_state_targets:
  "ds_Targets (snd (debounce_step now d desired eligible st)) = fst (debounce_step now d desired eligible st)"
  "ds_Desired (snd (debounce_step now d desired eligible st)) = desired"
  by (simp_all add: debounce_step_def debounce_update_def Let_def split: prod.splits)

text \<open>The previous targets are not all eligible: they are kept until the count reaches the threshold.\<close>

lemma debounce_unhealthy:
  assumes "ds_Targets st \<noteq> []" "\<not> sameStringSet (ds_Targets st) desired"
    "\<not> allTargetsEligible (ds_Targets st) eligible" "ds_LastChangedAt st \<noteq> 0"
  shows "ds_UnhealthyCount st + 1 < normalizeDebounceThreshold (deb_UnhealthyThreshold d) \<Longrightarrow>
      debounce_step now d desired eligible st =
        (ds_Targets st, st\<lparr>ds_RecoveryCount := 0, ds_UnhealthyCount := ds_UnhealthyCount st + 1, ds_Desired := desired\<rparr>)"
    and "\<not> ds_UnhealthyCount st + 1 < normalizeDebounceThreshold (deb_UnhealthyThreshold d) \<Longrightarrow>
      debounce_step now d desired eligible st =
        (desired, st\<lparr>ds_LastChangedAt := now, ds_UnhealthyCount := 0, ds_RecoveryCount := 0,
           ds_Targets := desired, ds_Desired := desired\<rparr>)"
  using assms by (simp_all add: debounce_step_def debounce_choice_def debounce_update_def Let_def)

text \<open>The previous targets are eligible and the cooldown runs: they stay.\<close>

lemma debounce_cooldown:
  assumes "ds_Targets st \<noteq> []" "allTargetsEligible (ds_Targets st) eligible" "ds_LastChangedAt st \<noteq> 0"
    "TimeSub now (ds_LastChangedAt st) < deb_CooldownSeconds d * Second"
  shows "sameStringSet (ds_Targets st) (fst (debounce_step now d desired eligible st))
    \<and> ds_LastChangedAt (snd (debounce_step now d desired eligible st)) = ds_LastChangedAt st"
  using assms by (auto simp: debounce_step_def debounce_choice_def debounce_update_def Let_def)

section \<open>Runs of debouncing\<close>

type_synonym debounce_input = "gotime \<times> string list \<times> string list"

text \<open>The answers to a sequence of calls, each with its time, the desired and the eligible targets.\<close>

fun debounce_run :: "GSLBDebounce \<Rightarrow> debounceState \<Rightarrow> debounce_input list \<Rightarrow> string list list \<times> debounceState" where
  "debounce_run d st [] = ([], st)"
| "debounce_run d st ((now, desired, eligible) # xs) =
    (let r = debounce_step now d desired eligible st; rs = debounce_run d (snd r) xs in (fst r # fst rs, snd rs))"

lemma failover_run:
  assumes "ds_Targets st \<noteq> []" "ds_LastChangedAt st \<noteq> 0" "\<not> sameStringSet (ds_Targets st) desired"
    and "ds_UnhealthyCount st + int (length xs) = normalizeDebounceThreshold (deb_UnhealthyThreshold d)" "xs \<noteq> []"
    and "\<forall>x \<in> set xs. fst (snd x) = desired \<and> \<not> allTargetsEligible (ds_Targets st) (snd (snd x))"
  shows "fst (debounce_run d st xs) = replicate (length xs - 1) (ds_Targets st) @ [desired]"
  using assms
proof (induction xs arbitrary: st)
  case (Cons x xs)
  obtain now el where x: "x = (now, desired, el)" using Cons.prems(6) by (cases x) auto
  have ne: "\<not> allTargetsEligible (ds_Targets st) el" using Cons.prems(6) x by auto
  note step = debounce_unhealthy[OF Cons.prems(1,3) ne Cons.prems(2), of d now]
  show ?case
  proof (cases "xs = []")
    case True
    then show ?thesis using step(2) Cons.prems(4) by (simp add: x Let_def)
  next
    case False
    then have lt: "ds_UnhealthyCount st + 1 < normalizeDebounceThreshold (deb_UnhealthyThreshold d)"
      using Cons.prems(4) by (cases xs) auto
    let ?st = "st\<lparr>ds_RecoveryCount := 0, ds_UnhealthyCount := ds_UnhealthyCount st + 1, ds_Desired := desired\<rparr>"
    have "fst (debounce_run d ?st xs) = replicate (length xs - 1) (ds_Targets ?st) @ [desired]"
      by (rule Cons.IH) (use Cons.prems False in auto)
    then show ?thesis using step(1)[OF lt] False by (cases xs) (auto simp: x Let_def)
  qed
qed simp

lemma cooldown_run:
  assumes "ds_Targets st \<noteq> []" "ds_LastChangedAt st \<noteq> 0"
    and "\<forall>(now, desired, eligible) \<in> set xs. allTargetsEligible (ds_Targets st) eligible
      \<and> TimeSub now (ds_LastChangedAt st) < deb_CooldownSeconds d * Second"
  shows "\<forall>ts \<in> set (fst (debounce_run d st xs)). sameStringSet (ds_Targets st) ts"
  using assms
proof (induction xs arbitrary: st)
  case (Cons x xs)
  obtain now desired el where x: "x = (now, desired, el)" by (cases x) auto
  let ?r = "debounce_step now d desired el st"
  have keep: "sameStringSet (ds_Targets st) (fst ?r)" "ds_LastChangedAt (snd ?r) = ds_LastChangedAt st"
    using debounce_cooldown[of st el now d desired] Cons.prems x by auto
  have "ds_Targets (snd ?r) \<noteq> []"
    using keep(1) Cons.prems(1) by (auto simp: debounce_state_targets sameStringSet_def split: if_splits)
  moreover have "\<forall>(now, desired, eligible) \<in> set xs. allTargetsEligible (ds_Targets (snd ?r)) eligible
      \<and> TimeSub now (ds_LastChangedAt (snd ?r)) < deb_CooldownSeconds d * Second"
    using Cons.prems(3) keep allTargetsEligible_cong[OF keep(1)] by (auto simp: debounce_state_targets)
  ultimately have "\<forall>ts \<in> set (fst (debounce_run d (snd ?r) xs)). sameStringSet (fst ?r) ts"
    using Cons.IH[of "snd ?r"] keep(2) Cons.prems(2) by (simp add: debounce_state_targets)
  then show ?case using keep(1) by (auto simp: x Let_def sameStringSet_iff)
qed simp

section \<open>Keys\<close>

lemma bar_not_in_digits: "CHR ''|'' \<notin> set (FormatUint n)"
  by (rule FormatUint_no_char) simp

lemma bar_not_in_type: "CHR ''|'' \<notin> set (normalizeAddressRecordType rt)"
  using normalizeAddressRecordType_cases[of rt] by auto

lemma Cut_key:
  "Cut (schedulerStateKey routeID rt sc) CHR ''|'' =
    (FormatUint routeID, normalizeAddressRecordType rt @ ''|'' @ normalizeSourceScope sc, True)"
  using Cut_append[OF bar_not_in_digits, of routeID "normalizeAddressRecordType rt @ ''|'' @ normalizeSourceScope sc"]
  by (simp add: schedulerStateKey_def)

lemma Cut_type:
  "Cut (normalizeAddressRecordType rt @ ''|'' @ s) CHR ''|'' = (normalizeAddressRecordType rt, s, True)"
  using Cut_append[OF bar_not_in_type, of rt s] by simp

lemma splitN3_scope:
  "splitN3 (normalizeAddressRecordType rt @ ''|'' @ s) =
    (case Cut s CHR ''|'' of (b, t, False) \<Rightarrow> [normalizeAddressRecordType rt, b]
      | (b, t, True) \<Rightarrow> [normalizeAddressRecordType rt, b, t])"
  unfolding splitN3_def Cut_type by simp

lemma rejoin_scope:
  "(case Cut s CHR ''|'' of (b, t, False) \<Rightarrow> b | (b, t, True) \<Rightarrow> b @ ''|'' @ t) = s"
proof (cases "CHR ''|'' \<in> set s")
  case True
  then obtain b t where s: "s = b @ CHR ''|'' # t" "CHR ''|'' \<notin> set b" by (meson split_list_first)
  then show ?thesis using Cut_append[of "CHR ''|''" b t] by simp
qed (simp add: Cut_absent)

lemma parse_key:
  assumes "0 < routeID" "routeID < 2 ^ 64"
  shows "parseSchedulerStateKey (schedulerStateKey routeID rt sc) =
    Some (routeID, normalizeAddressRecordType rt, normalizeSourceScope (normalizeSourceScope sc))"
proof -
  obtain b t ok where c: "Cut (normalizeSourceScope sc) CHR ''|'' = (b, t, ok)" by (metis prod_cases3)
  have r: "(if ok then b @ ''|'' @ t else b) = normalizeSourceScope sc"
    using rejoin_scope[of "normalizeSourceScope sc"] by (simp add: c split: bool.splits)
  have p: "ParseUint 64 (FormatUint routeID) = Some routeID" using assms(2) by (rule ParseUint_FormatUint)
  have sp: "splitN3 (normalizeAddressRecordType rt @ ''|'' @ normalizeSourceScope sc) =
      normalizeAddressRecordType rt # b # (if ok then [t] else [])"
    unfolding splitN3_scope c by (simp split: bool.splits)
  show ?thesis
    unfolding parseSchedulerStateKey_def Cut_key prod.case sp list.case p option.case
    using assms(1) r by (cases ok) simp_all
qed

text \<open>The record type that a key carries.\<close>

definition type_of_key :: "string \<Rightarrow> string" where
  "type_of_key key = fst (Cut (fst (snd (Cut key CHR ''|''))) CHR ''|'')"

lemma type_of_key [simp]: "type_of_key (schedulerStateKey routeID rt sc) = normalizeAddressRecordType rt"
  unfolding type_of_key_def Cut_key by (simp add: Cut_type[simplified])

end
