(* ===== verification/Scheduler_Reach.thy ===== *)
theory Scheduler_Reach
  imports Gslb_Scheduler
begin

text \<open>
  What the scheduler of \<open>scheduler.go\<close> guarantees over sequences of operations: an invariant of its state
  under loading states, exporting states and selecting targets (\<open>sched_step\<close>, \<open>sched_reachable\<close>), what the
  answers of \<open>SelectWithIndex\<close> are made of, failover and cooldown over runs of calls for one key, the
  coherence of the policy cache, and the exchange of debounce states through snapshots.
\<close>

section \<open>What is stored and answered\<close>

definition family_target :: "string \<Rightarrow> string \<Rightarrow> bool" where
  "family_target recordType t \<longleftrightarrow> (\<exists>ip. t = IP_String ip
    \<and> (recordType = ''A'' \<longrightarrow> To4 ip \<noteq> None) \<and> (recordType = ''AAAA'' \<longrightarrow> To4 ip = None))"

definition family_targets :: "string \<Rightarrow> string list \<Rightarrow> bool" where
  "family_targets recordType ts \<longleftrightarrow> distinct ts \<and> (\<forall>t \<in> set ts. family_target recordType t)"

lemma public_target_family: "public_target rt t \<Longrightarrow> family_target rt t"
  by (auto simp: public_target_def family_target_def)

lemma ip_list_item_family: "ip_list_item rt v = Some t \<Longrightarrow> family_target rt t"
  unfolding ip_list_item_def Let_def family_target_def by (cases "ParseIP (TrimSpace v)") (auto split: if_splits)

lemma family_normalizeIPList: "family_targets rt (normalizeIPList vs rt)"
  by (auto simp: family_targets_def distinct_normalizeIPList)
    (auto simp: normalizeIPList_def set_unique_values intro: ip_list_item_family)

lemma make_candidate_PoolName: "cand_PoolName (make_candidate s p pool node t) = normalizeNodePoolName (node_PoolName node)"
  by (simp add: make_candidate_def with_score_def base_candidate_def)

lemma candidate_from_enabled:
  assumes "candidate_from s rt p pools (snap_Nodes s) c"
    and "\<And>n pool. map_of pools n = Some pool \<Longrightarrow>
      pool \<in> set (pol_Pools p) \<and> pool_eligible source pool \<and> normalizeNodePoolName (pool_Name pool) = n"
  shows "\<exists>pool \<in> set (pol_Pools p). pool_Enabled pool \<and> normalizeNodePoolName (pool_Name pool) = cand_PoolName c"
proof -
  obtain node pool where n: "candidate_pool s p pools node = Some pool" "c = make_candidate s p pool node (cand_Content c)"
    using assms(1) by (auto simp: candidate_from_def)
  from n(1) have "map_of pools (normalizeNodePoolName (node_PoolName node)) = Some pool"
    by (simp add: candidate_pool_def split: option.splits if_splits)
  moreover have "cand_PoolName c = normalizeNodePoolName (node_PoolName node)"
    by (subst n(2)) (rule make_candidate_PoolName)
  ultimately show ?thesis using assms(2) by (auto simp: pool_eligible_def)
qed

lemma buildCandidates_enabled:
  assumes "buildCandidates (Some s) rt p source \<noteq> []"
  shows "has_enabled_pool p (buildCandidates (Some s) rt p source)"
proof -
  let ?cs = "buildCandidates (Some s) rt p source"
  obtain c where c: "c \<in> set ?cs" using assms by (cases ?cs) auto
  have "\<exists>pool \<in> set (pol_Pools p). pool_Enabled pool \<and> normalizeNodePoolName (pool_Name pool) = cand_PoolName c"
    using buildCandidates_cases[of s rt p source]
  proof
    assume "?cs = candidatesForPools s rt p (matchPoolsForSourceWithMode (pol_Pools p) source (pol_PoolMatchMode p))"
    with c show ?thesis by (intro candidate_from_enabled[OF candidatesForPools_from]) (auto dest: matched_pool_eligible)
  next
    assume "?cs = candidatesForPools s rt p (globalPoolsForFallback (pol_Pools p) source)"
    with c show ?thesis by (intro candidate_from_enabled[OF candidatesForPools_from]) (auto dest: fallback_pool_eligible)
  qed
  with c show ?thesis unfolding has_enabled_pool_def by blast
qed

lemma selected_ok:
  "selection_ok (normalizeTargetCount (pol_TargetCount p)) (buildCandidates s rt p source)
    (selectWeightedTargets env (buildCandidates s rt p source) p sp)"
  using buildCandidates_enabled by (cases s) (auto intro!: selectWeightedTargets_ok simp: buildCandidates_def)

lemma selected_family:
  "family_targets rt (selectWeightedTargets env (buildCandidates s rt p source) p sp)"
proof (cases s)
  case None
  then show ?thesis using selected_ok[of p s rt source env sp]
    by (auto simp: selection_ok_def buildCandidates_def family_targets_def)
next
  case (Some snap)
  then show ?thesis using selected_ok[of p s rt source env sp] buildCandidates_servable
    by (fastforce simp: selection_ok_def family_targets_def servable_def intro: public_target_family)
qed

section \<open>The invariant of the scheduler\<close>

definition debounce_ok :: "string \<Rightarrow> debounceState \<Rightarrow> bool" where
  "debounce_ok recordType st \<longleftrightarrow> ds_Targets st \<noteq> [] \<and> family_targets recordType (ds_Targets st)
    \<and> family_targets recordType (ds_Desired st) \<and> 0 \<le> ds_UnhealthyCount st \<and> 0 \<le> ds_RecoveryCount st"

text \<open>Routes live at addresses: \<open>mem\<close> is what the snapshots in use hold there.\<close>

definition cache_ok :: "(nat \<times> nat \<Rightarrow> SnapshotRoute) \<Rightarrow> Scheduler \<Rightarrow> bool" where
  "cache_ok mem s \<longleftrightarrow> (sch_policyCache s = None \<longrightarrow> sch_policyCacheSnapshot s = None)
    \<and> (\<forall>m a policy. sch_policyCache s = Some m \<longrightarrow> map_of m a = Some policy \<longrightarrow>
        policy = normalizePolicy (route_GSLBPolicy (mem a)) (mem a))"

definition sched_inv :: "(nat \<times> nat \<Rightarrow> SnapshotRoute) \<Rightarrow> Scheduler \<Rightarrow> bool" where
  "sched_inv mem s \<longleftrightarrow> distinct (map fst (sch_states s)) \<and> cache_ok mem s
    \<and> (\<forall>key st. map_of (sch_states s) key = Some st \<longrightarrow> debounce_ok (type_of_key key) st)"

text \<open>The operations of a scheduler: loading states from a snapshot, exporting them, and selecting targets
  with the index of the snapshot or, as \<open>Select\<close> does, with the zero index.\<close>

inductive sched_step :: "'p dns_env \<Rightarrow> (nat \<times> nat \<Rightarrow> SnapshotRoute) \<Rightarrow> Scheduler \<Rightarrow> Scheduler \<Rightarrow> bool"
  for dns mem where
  load: "sched_step dns mem s (LoadSnapshotStates now snapshot s)"
| export: "sched_step dns mem s (snd (SnapshotStates now snapshot s))"
| select: "snd rp = mem (fst rp) \<Longrightarrow> index = buildSnapshotIndex dns snapshot \<or> index = zero_index \<Longrightarrow>
    sched_step dns mem s (snd (SelectWithIndex env now snapshot index (Some rp) recordType source fresh s))"

inductive sched_reachable :: "'p dns_env \<Rightarrow> (nat \<times> nat \<Rightarrow> SnapshotRoute) \<Rightarrow> Scheduler \<Rightarrow> bool"
  for dns mem where
  new: "sched_reachable dns mem NewScheduler"
| step: "sched_reachable dns mem s \<Longrightarrow> sched_step dns mem s s' \<Longrightarrow> sched_reachable dns mem s'"

lemma debounce_step_ok:
  assumes "desired \<noteq> []" "family_targets rt desired" "debounce_ok rt st \<or> st = zero_debounceState"
  shows "debounce_ok rt (snd (debounce_step now d desired eligible st))"
proof -
  have "0 \<le> ds_UnhealthyCount (snd (debounce_step now d desired eligible st))
      \<and> 0 \<le> ds_RecoveryCount (snd (debounce_step now d desired eligible st))"
    using assms(3) by (auto simp: debounce_step_def debounce_choice_def debounce_update_def Let_def debounce_ok_def
        zero_debounceState_def)
  then show ?thesis
    using debounce_result[of now d desired eligible st] assms
    by (auto simp: debounce_ok_def debounce_state_targets zero_debounceState_def)
qed

lemma debounce_step_family:
  assumes "desired \<noteq> []" "family_targets rt desired" "debounce_ok rt st \<or> st = zero_debounceState"
  shows "fst (debounce_step now d desired eligible st) \<noteq> []
    \<and> family_targets rt (fst (debounce_step now d desired eligible st))"
  using debounce_step_ok[OF assms, of now d eligible] by (simp add: debounce_ok_def debounce_state_targets)

lemma state_of_ok:
  "sched_inv mem s \<Longrightarrow> debounce_ok (type_of_key key) (state_of (sch_states s) key)
    \<or> state_of (sch_states s) key = zero_debounceState"
  by (auto simp: sched_inv_def state_of_def split: option.splits)

lemma applyDebounce_inv:
  assumes "sched_inv mem s" "desired \<noteq> []" "family_targets (normalizeAddressRecordType rt) desired"
  shows "sched_inv mem (snd (applyDebounce now i rt sc desired cs p s))
    \<and> fst (applyDebounce now i rt sc desired cs p s) \<noteq> []
    \<and> family_targets (normalizeAddressRecordType rt) (fst (applyDebounce now i rt sc desired cs p s))"
proof -
  let ?key = "schedulerStateKey i rt sc"
  have st: "debounce_ok (normalizeAddressRecordType rt) (state_of (sch_states s) ?key)
      \<or> state_of (sch_states s) ?key = zero_debounceState"
    using state_of_ok[OF assms(1), of ?key] by simp
  note ok = debounce_step_ok[OF assms(2,3) st] and fam = debounce_step_family[OF assms(2,3) st]
  show ?thesis
    using assms(1) ok fam
    by (auto simp: applyDebounce_def Let_def sched_inv_def cache_ok_def distinct_update update_conv' split: if_splits)
qed

lemma select_with_policy_inv:
  assumes "sched_inv mem s" "recordType = normalizeAddressRecordType rt"
  shows "sched_inv mem (snd (select_with_policy env now snapshot route recordType source policy s))
    \<and> (\<forall>ts. sel_result (fst (select_with_policy env now snapshot route recordType source policy s)) = Inr ts \<longrightarrow>
        ts \<noteq> [] \<and> family_targets recordType ts)"
proof -
  let ?cs = "buildCandidates (map_option snd snapshot) recordType policy source"
  let ?sp = "scope_and_spread env policy (route_ID route) recordType source"
  let ?d = "selectWeightedTargets env ?cs policy (snd ?sp)"
  have fam: "family_targets recordType ?d" by (rule selected_family)
  have rt: "normalizeAddressRecordType recordType = recordType" using assms(2) by simp
  show ?thesis
    using assms(1) applyDebounce_inv[OF assms(1), of ?d recordType now "route_ID route" "fst ?sp" ?cs policy] fam rt
    by (simp add: select_with_policy_def Let_def)
qed

lemma routePolicy_inv:
  assumes "cache_ok mem s" "snd rp = mem (fst rp)"
  shows "cache_ok mem (snd (routePolicy snapshot index rp s))
    \<and> sch_states (snd (routePolicy snapshot index rp s)) = sch_states s"
  using assms by (auto simp: routePolicy_def Let_def cache_ok_def update_conv' split: option.splits if_splits)

lemma limitTargets_family:
  "family_targets rt ts \<Longrightarrow> ts \<noteq> [] \<Longrightarrow> limitTargets ts n \<noteq> [] \<and> family_targets rt (limitTargets ts n)"
  using normalizeTargetCount_bounds[of n]
  by (auto simp: limitTargets_def family_targets_def dest: in_set_takeD)

text \<open>The branches of \<open>SelectWithIndex\<close>: an error that leaves the debounce states, the static targets
  of a route, or a selection with a policy.\<close>

lemma SelectWithIndex_cases:
  obtains (error) e where "sel_result (fst (SelectWithIndex env now snapshot index (Some rp) rawType source fresh s)) = Inl e"
      "snd (SelectWithIndex env now snapshot index (Some rp) rawType source fresh s) \<in> {s, snd (routePolicy snapshot index rp s)}"
  | (static) "fresh" "\<not> route_GSLBEnabled (snd rp)"
      "normalizeIPList (route_CurrentTargets (snd rp)) (normalizeAddressRecordType rawType) \<noteq> []"
      "sel_result (fst (SelectWithIndex env now snapshot index (Some rp) rawType source fresh s)) =
        Inr (limitTargets (normalizeIPList (route_CurrentTargets (snd rp)) (normalizeAddressRecordType rawType))
          (route_TargetCount (snd rp)))"
      "snd (SelectWithIndex env now snapshot index (Some rp) rawType source fresh s) = s"
  | (policy) policy s' where "fresh"
      "SelectWithIndex env now snapshot index (Some rp) rawType source fresh s =
        select_with_policy env now snapshot (snd rp) (normalizeAddressRecordType rawType) source policy s'"
      "(if route_GSLBEnabled (snd rp) then routePolicy snapshot index rp s = (Some policy, s')
        else policy = static_policy (snd rp) \<and> s' = s)"
proof -
  let ?rt = "normalizeAddressRecordType rawType"
  have rt: "\<not> (?rt \<noteq> ''A'' \<and> ?rt \<noteq> ''AAAA'')" using normalizeAddressRecordType_cases[of rawType] by simp
  consider "\<not> fresh" | "fresh" "\<not> route_GSLBEnabled (snd rp)" "normalizeIPList (route_CurrentTargets (snd rp)) ?rt = []"
    | "fresh" "\<not> route_GSLBEnabled (snd rp)" "normalizeIPList (route_CurrentTargets (snd rp)) ?rt \<noteq> []"
    | s' where "fresh" "route_GSLBEnabled (snd rp)" "routePolicy snapshot index rp s = (None, s')"
    | policy s' where "fresh" "route_GSLBEnabled (snd rp)" "routePolicy snapshot index rp s = (Some policy, s')"
    by (metis not_None_eq surj_pair)
  then show thesis
  proof cases
    case 1
    then show ?thesis using rt by (intro error[of Snapshot_Is_Stale]) (auto simp: SelectWithIndex_def Let_def)
  next
    case 2
    then show ?thesis using rt by (intro policy[of "static_policy (snd rp)" s]) (auto simp: SelectWithIndex_def Let_def)
  next
    case 3
    then show ?thesis using rt by (intro static) (auto simp: SelectWithIndex_def Let_def)
  next
    case 4
    then show ?thesis using rt by (intro error[of Panic_Nil_Map]) (auto simp: SelectWithIndex_def Let_def)
  next
    case 5
    then show ?thesis using rt by (intro policy[of _ s']) (auto simp: SelectWithIndex_def Let_def)
  qed
qed

lemma SelectWithIndex_inv:
  fixes env now snapshot index rawType source fresh
  defines "r \<equiv> (\<lambda>rp s. SelectWithIndex env now snapshot index (Some rp) rawType source fresh s)"
  assumes inv: "sched_inv mem s" and mem: "snd rp = mem (fst rp)"
  shows "sched_inv mem (snd (r rp s))
    \<and> (\<forall>ts. sel_result (fst (r rp s)) = Inr ts \<longrightarrow> ts \<noteq> [] \<and> family_targets (normalizeAddressRecordType rawType) ts)"
proof -
  have rp: "sched_inv mem (snd (routePolicy snapshot index rp s))"
    using routePolicy_inv[of mem s rp snapshot index] inv mem by (auto simp: sched_inv_def)
  show ?thesis
  proof (cases rule: SelectWithIndex_cases[of env now snapshot index rp rawType source fresh s])
    case (error e)
    then show ?thesis using inv rp by (auto simp: r_def)
  next
    case static
    then show ?thesis using inv limitTargets_family[OF family_normalizeIPList] by (simp add: r_def)
  next
    case (policy p s')
    then have "sched_inv mem s'" using inv rp by (auto split: if_splits)
    then show ?thesis using select_with_policy_inv[of mem s' "normalizeAddressRecordType rawType" rawType] policy(2)
      by (simp add: r_def)
  qed
qed

section \<open>Exchange of states\<close>

lemma map_of_put_all: "distinct (map fst kvs) \<Longrightarrow>
  map_of (put_all kvs m) k = (case map_of kvs k of None \<Rightarrow> map_of m k | Some v \<Rightarrow> Some v)"
proof (induction kvs arbitrary: m)
  case (Cons kv kvs)
  obtain k' v' where kv: "kv = (k', v')" by fastforce
  have "map_of kvs k' = None" using Cons.prems by (simp add: kv map_of_eq_None_iff)
  moreover have "map_of (put_all (kv # kvs) m) k = (case map_of kvs k of None \<Rightarrow> map_of (AList.update k' v' m) k | Some v \<Rightarrow> Some v)"
    using Cons.IH[of "AList.update k' v' m"] Cons.prems by (simp add: kv put_all_def)
  ultimately show ?case by (auto simp: kv update_conv' split: option.splits)
qed (simp add: put_all_def)

lemma put_all_origin: "map_of (put_all kvs m) k = Some v \<Longrightarrow> (k, v) \<in> set kvs \<or> map_of m k = Some v"
  by (induction kvs arbitrary: m) (force simp: put_all_def update_conv' split: if_splits)+

lemma distinct_put_all: "distinct (map fst m) \<Longrightarrow> distinct (map fst (put_all kvs m))"
  by (induction kvs arbitrary: m) (auto simp: put_all_def distinct_update)

lemma set_map_filter: "y \<in> set (List.map_filter f xs) \<longleftrightarrow> (\<exists>x \<in> set xs. f x = Some y)"
  by (induction xs) (auto simp: map_filter_simps split: option.splits)

lemma import_state_ok: "import_state now snap item = Some (key, st) \<Longrightarrow> debounce_ok (type_of_key key) st"
  using family_normalizeIPList
  by (auto simp: import_state_def Let_def debounce_ok_def normalizeDebounceCounter_def split: option.splits if_splits)

lemma LoadSnapshotStates_origin:
  assumes "map_of (sch_states (LoadSnapshotStates now (Some snap) s)) key = Some st" "distinct (map fst (sch_states s))"
  shows "(\<exists>item \<in> set (snap_SchedulingStates snap). import_state now snap item = Some (key, st))
    \<or> map_of (sch_states s) key = Some st \<and> (\<exists>i \<in> set (route_ids snap). schedulerStateRouteID key = Some i)"
proof -
  let ?kept = "filter (\<lambda>(key, state). case schedulerStateRouteID key of None \<Rightarrow> False
      | Some i \<Rightarrow> i \<in> set (route_ids snap)) (sch_states s)"
  let ?new = "put_all (List.map_filter (import_state now snap) (snap_SchedulingStates snap)) []"
  from assms(1) have "(key, st) \<in> set ?new \<or> map_of ?kept key = Some st"
    by (auto simp: LoadSnapshotStates_def Let_def dest!: put_all_origin)
  then show ?thesis
  proof
    assume "(key, st) \<in> set ?new"
    then have "map_of ?new key = Some st" by (intro map_of_is_SomeI distinct_put_all) simp_all
    from put_all_origin[OF this] show ?thesis by (auto simp: set_map_filter)
  next
    assume "map_of ?kept key = Some st"
    then have "(key, st) \<in> set ?kept" by (rule map_of_SomeD)
    then show ?thesis using assms(2) by (auto split: option.splits)
  qed
qed

lemma LoadSnapshotStates_inv: "sched_inv mem s \<Longrightarrow> sched_inv mem (LoadSnapshotStates now snapshot s)"
proof (cases snapshot)
  case (Some snap)
  assume inv: "sched_inv mem s"
  have "distinct (map fst (sch_states (LoadSnapshotStates now snapshot s)))"
    using inv by (auto simp: LoadSnapshotStates_def Some Let_def sched_inv_def intro!: distinct_put_all distinct_map_filter)
  moreover have "debounce_ok (type_of_key key) st"
    if "map_of (sch_states (LoadSnapshotStates now snapshot s)) key = Some st" for key st
    using LoadSnapshotStates_origin[OF that[unfolded Some]] inv import_state_ok by (auto simp: sched_inv_def)
  moreover have "cache_ok mem (LoadSnapshotStates now snapshot s)"
    using inv by (simp add: LoadSnapshotStates_def Some Let_def cache_ok_def sched_inv_def)
  ultimately show ?thesis by (simp add: sched_inv_def)
qed (simp add: LoadSnapshotStates_def)

text \<open>Exporting only moves a change time of the future to now.\<close>

definition exported :: "gotime \<Rightarrow> (nat, string) gomap \<Rightarrow> string \<times> debounceState \<Rightarrow> debounceState" where
  "exported now routeTypes kv = (case export_state now routeTypes kv of None \<Rightarrow> snd kv | Some (_, st) \<Rightarrow> st)"

lemma exported_cases: "exported now rts (key, st) = st \<or> exported now rts (key, st) = clamp_state now st"
  by (auto simp: exported_def export_state_def Let_def split: option.splits prod.splits if_splits)

lemma SnapshotStates_states:
  "sch_states (snd (SnapshotStates now (Some snap) s)) =
    map (\<lambda>kv. (fst kv, exported now (route_types snap) kv)) (sch_states s)"
  by (simp add: SnapshotStates_def Let_def exported_def case_prod_unfold)

lemma map_of_map_values: "map_of (map (\<lambda>kv. (fst kv, f kv)) m) k = map_option (\<lambda>v. f (k, v)) (map_of m k)"
  by (induction m) auto

lemma SnapshotStates_inv: "sched_inv mem s \<Longrightarrow> sched_inv mem (snd (SnapshotStates now snapshot s))"
proof (cases snapshot)
  case (Some snap)
  assume inv: "sched_inv mem s"
  have "debounce_ok rt st \<Longrightarrow> debounce_ok rt (clamp_state now st)" for rt st
    by (simp add: debounce_ok_def clamp_state_def)
  then have "debounce_ok (type_of_key key) (exported now (route_types snap) (key, st))"
    if "map_of (sch_states s) key = Some st" for key st
    using that inv exported_cases[of now "route_types snap" key st] by (auto simp: sched_inv_def)
  moreover have "cache_ok mem (snd (SnapshotStates now snapshot s))"
    using inv by (simp add: SnapshotStates_def Some Let_def cache_ok_def sched_inv_def)
  ultimately show ?thesis
    using inv by (auto simp: sched_inv_def Some SnapshotStates_states map_of_map_values comp_def)
qed (simp add: SnapshotStates_def)

lemma sched_step_inv: "sched_step dns mem s s' \<Longrightarrow> sched_inv mem s \<Longrightarrow> sched_inv mem s'"
  by (induction rule: sched_step.induct) (simp_all add: LoadSnapshotStates_inv SnapshotStates_inv SelectWithIndex_inv)

lemma NewScheduler_inv: "sched_inv mem NewScheduler"
  by (simp add: NewScheduler_def sched_inv_def cache_ok_def)

lemma reachable_inv: "sched_reachable dns mem s \<Longrightarrow> sched_inv mem s"
  by (induction rule: sched_reachable.induct) (blast intro: NewScheduler_inv sched_step_inv)+


section \<open>Runs of a scheduler on one key\<close>

type_synonym debounce_call = "gotime \<times> string list \<times> targetCandidate list"

text \<open>The answers of \<open>applyDebounce\<close> to a sequence of calls for one route, record type and scope.\<close>

fun apply_run :: "nat \<Rightarrow> string \<Rightarrow> string \<Rightarrow> GSLBPolicy \<Rightarrow> Scheduler \<Rightarrow> debounce_call list \<Rightarrow> string list list" where
  "apply_run i rt sc p s [] = []"
| "apply_run i rt sc p s ((now, desired, candidates) # xs) =
    (let r = applyDebounce now i rt sc desired candidates p s in fst r # apply_run i rt sc p (snd r) xs)"

lemma apply_run_debounce:
  "apply_run i rt sc p s xs =
    fst (debounce_run (pol_Debounce p) (state_of (sch_states s) (schedulerStateKey i rt sc))
      (map (\<lambda>(now, desired, cs). (now, desired, map cand_Content cs)) xs))"
proof (induction xs arbitrary: s)
  case (Cons x xs)
  obtain now desired cs where x: "x = (now, desired, cs)" by (cases x) auto
  let ?key = "schedulerStateKey i rt sc"
  let ?r = "debounce_step now (pol_Debounce p) desired (map cand_Content cs) (state_of (sch_states s) ?key)"
  have "state_of (sch_states (snd (applyDebounce now i rt sc desired cs p s))) ?key = snd ?r"
    by (simp add: applyDebounce_def Let_def state_of_def update_conv')
  then show ?case using Cons.IH by (simp add: x Let_def) (simp add: applyDebounce_def Let_def)
qed simp

section \<open>Order of exported states\<close>

interpretation exported_states: strict_weak_order state_less UNIV
  by (rule strict_weak_order_on_key[where f = "\<lambda>x. (ss_RouteID x, ss_RecordType x, ss_ScopeKey x)"])
    (auto simp: state_less_def)

section \<open>Round trip of a state through a snapshot\<close>

definition stable_key :: "string \<Rightarrow> bool" where
  "stable_key key \<longleftrightarrow> (\<exists>i rt sc. key = schedulerStateKey i rt sc \<and> 0 < i \<and> i < 2 ^ 64
    \<and> normalizeSourceScope (normalizeSourceScope sc) = normalizeSourceScope sc)"

lemma stable_key_parse:
  assumes "stable_key key"
  obtains i rt sc where "parseSchedulerStateKey key = Some (i, rt, sc)" "key = schedulerStateKey i rt sc"
    "normalizeAddressRecordType rt = rt" "normalizeSourceScope sc = sc" "0 < i" "rt = type_of_key key"
proof -
  from assms obtain i rt sc where k: "key = schedulerStateKey i rt sc" "0 < i" "i < 2 ^ 64"
      "normalizeSourceScope (normalizeSourceScope sc) = normalizeSourceScope sc"
    by (auto simp: stable_key_def)
  show thesis
  proof (rule that)
    show "parseSchedulerStateKey key = Some (i, normalizeAddressRecordType rt, normalizeSourceScope sc)"
      using parse_key[OF k(2,3)] k(1,4) by simp
    show "key = schedulerStateKey i (normalizeAddressRecordType rt) (normalizeSourceScope sc)"
      using k(1,4) by (simp add: schedulerStateKey_def)
  qed (use k in simp_all)
qed

lemma family_A_string4:
  assumes "family_target ''A'' t"
  shows "\<exists>w. t = string4 w"
proof -
  obtain ip where "t = IP_String ip" "To4 ip \<noteq> None" using assms by (auto simp: family_target_def)
  then show ?thesis by (auto simp: IP_String_def)
qed

lemma normalizeIPList_family_A: "family_targets ''A'' ts \<Longrightarrow> normalizeIPList ts ''A'' = ts"
  unfolding normalizeIPList_def family_targets_def
  by (intro unique_values_fixed) (auto dest!: family_A_string4 bspec simp: ip_list_item_def Let_def IP_String_def)

lemma route_types_ids: "map_of (route_types snap) i = Some rt \<Longrightarrow> i \<in> set (route_ids snap)"
proof -
  have gen: "map_of (foldl (\<lambda>m route. if route_ID route = 0 then m
      else AList.update (route_ID route) (normalizeAddressRecordType (route_RecordType route)) m) m rs) i = Some rt \<Longrightarrow>
    map_of m i = None \<Longrightarrow> i \<in> set (filter (\<lambda>i. i \<noteq> 0) (map route_ID rs))" for m rs
    by (induction rs arbitrary: m) (auto simp: update_conv' split: if_splits)
  assume "map_of (route_types snap) i = Some rt"
  from gen[OF this[unfolded route_types_def]] show ?thesis unfolding route_ids_def by simp
qed

lemma exchange_item:
  assumes "stable_key key" "type_of_key key = ''A''" "debounce_ok ''A'' st" "now \<le> now'" "now \<noteq> 0"
    and "export_state now (route_types snap) (key, st) = Some (item, st')"
  shows "import_state now' (snap\<lparr>snap_SchedulingStates := items\<rparr>) item = Some (key, st') \<and> st' = clamp_state now st"
proof -
  obtain i rt sc where k: "parseSchedulerStateKey key = Some (i, rt, sc)" "key = schedulerStateKey i rt sc"
      "normalizeAddressRecordType rt = rt" "normalizeSourceScope sc = sc" "0 < i" "rt = ''A''"
    using assms(1,2) by (metis stable_key_parse)
  have st: "family_targets ''A'' (ds_Targets st)" "family_targets ''A'' (ds_Desired st)" "ds_Targets st \<noteq> []"
      "0 \<le> ds_UnhealthyCount st" "0 \<le> ds_RecoveryCount st" using assms(3) by (auto simp: debounce_ok_def)
  from assms(6) have ri: "map_of (route_types snap) i = Some ''A''" and l0: "ds_LastChangedAt st \<noteq> 0"
    and st': "st' = clamp_state now st"
    and item: "item = \<lparr>ss_RouteID = i, ss_RecordType = rt, ss_ScopeKey = sc, ss_SelectedTargets = ds_Targets st',
        ss_DesiredTargets = ds_Desired st', ss_UnhealthyCount = ds_UnhealthyCount st',
        ss_RecoveryCount = ds_RecoveryCount st', ss_LastChangedAt = Some (ds_LastChangedAt st')\<rparr>"
    using k(6) by (auto simp: export_state_def k(1) Let_def split: if_splits)
  have fields: "ds_Targets st' = ds_Targets st" "ds_Desired st' = ds_Desired st"
      "ds_UnhealthyCount st' = ds_UnhealthyCount st" "ds_RecoveryCount st' = ds_RecoveryCount st"
    by (simp_all add: st' clamp_state_def)
  have t: "ds_LastChangedAt st' \<le> now'" "ds_LastChangedAt st' \<noteq> 0"
    using assms(4,5) l0 by (auto simp: st' clamp_state_def)
  have "import_state now' (snap\<lparr>snap_SchedulingStates := items\<rparr>) item = Some (schedulerStateKey i rt sc, st')"
    using t st k(3-6) route_types_ids[OF ri]
    by (simp add: import_state_def item Let_def normalizeSnapshotSchedulingStateChangedAt_def fields
        normalizeIPList_family_A route_ids_def normalizeDebounceCounter_def)
  then show ?thesis using k(2) st' by simp
qed

lemma put_all_present:
  "k \<in> fst ` set kvs \<Longrightarrow> \<exists>v. map_of (put_all kvs m) k = Some v \<and> (k, v) \<in> set kvs"
  by (induction kvs rule: rev_induct) (force simp: put_all_def update_conv')+

lemma put_all_functional:
  assumes "(k, v) \<in> set kvs" "\<And>v'. (k, v') \<in> set kvs \<Longrightarrow> v' = v"
  shows "map_of (put_all (put_all kvs []) []) k = Some v"
proof -
  have "k \<in> fst ` set kvs" using assms(1) by force
  with put_all_present assms(2) have "map_of (put_all kvs []) k = Some v" by metis
  then show ?thesis using distinct_put_all[of "[]" kvs] by (simp add: map_of_put_all)
qed

lemma states_exchange_run:
  assumes inv: "sched_inv mem s" and keys: "\<forall>key \<in> fst ` set (sch_states s). stable_key key \<and> type_of_key key = ''A''"
    and t: "t1 \<le> t2" "t1 \<noteq> 0"
    and ex: "map_of (sch_states s) key = Some st" "export_state t1 (route_types snap) (key, st) \<noteq> None"
  defines "snap' \<equiv> snap\<lparr>snap_SchedulingStates := fst (SnapshotStates t1 (Some snap) s)\<rparr>"
  shows "map_of (sch_states (LoadSnapshotStates t2 (Some snap') NewScheduler)) key = Some (clamp_state t1 st)"
proof -
  let ?L = "List.map_filter (import_state t2 snap') (snap_SchedulingStates snap')"
  have items: "set (snap_SchedulingStates snap') =
      {item. \<exists>kv \<in> set (sch_states s). \<exists>st'. export_state t1 (route_types snap) kv = Some (item, st')}"
    by (force simp: snap'_def SnapshotStates_def Let_def go_sort set_map_filter)
  have one: "import_state t2 snap' item = Some (k, clamp_state t1 st)"
    if "(k, st) \<in> set (sch_states s)" "export_state t1 (route_types snap) (k, st) = Some (item, st')" for k st item st'
  proof -
    have m: "map_of (sch_states s) k = Some st" using that(1) inv by (simp add: sched_inv_def)
    have "stable_key k" "type_of_key k = ''A''" "debounce_ok ''A'' st"
      using that(1) keys inv m by (force simp: sched_inv_def)+
    from exchange_item[OF this t that(2)] show ?thesis by (simp add: snap'_def)
  qed
  have L: "v = clamp_state t1 st'' \<and> map_of (sch_states s) k = Some st''" if "(k, v) \<in> set ?L" "map_of (sch_states s) k = Some st''" for k v st''
  proof -
    from that(1) obtain item where i: "item \<in> set (snap_SchedulingStates snap')" "import_state t2 snap' item = Some (k, v)"
      by (auto simp: set_map_filter)
    then obtain k0 st0 st' where e: "(k0, st0) \<in> set (sch_states s)" "export_state t1 (route_types snap) (k0, st0) = Some (item, st')"
      unfolding items by auto
    from one[OF e] i(2) have "k0 = k" "v = clamp_state t1 st0" by simp_all
    moreover have "map_of (sch_states s) k0 = Some st0" using e(1) inv by (simp add: sched_inv_def)
    ultimately show ?thesis using that(2) by simp
  qed
  obtain item st' where e: "export_state t1 (route_types snap) (key, st) = Some (item, st')" using ex(2) by auto
  have kin: "(key, st) \<in> set (sch_states s)" using ex(1) by (rule map_of_SomeD)
  have "item \<in> set (snap_SchedulingStates snap')" unfolding items using kin e by blast
  then have "(key, clamp_state t1 st) \<in> set ?L" using one[OF kin e] by (auto simp: set_map_filter)
  then have "map_of (put_all (put_all ?L []) []) key = Some (clamp_state t1 st)"
    by (rule put_all_functional) (use L ex(1) in blast)
  then show ?thesis unfolding LoadSnapshotStates_def option.case Let_def NewScheduler_def by (simp only: Scheduler.simps filter.simps)
qed


section \<open>Answers\<close>

lemma selected_length:
  "int (length (selectWeightedTargets env (buildCandidates s rt p source) p sp)) =
    min (normalizeTargetCount (pol_TargetCount p)) (int (length (buildCandidates s rt p source)))"
proof -
  have "card (contents (buildCandidates s rt p source)) = length (buildCandidates s rt p source)"
    using distinct_card[OF buildCandidates_distinct[of s rt p source]] by simp
  then show ?thesis using selected_ok[of p s rt source env sp] by (simp add: selection_ok_def)
qed

lemma selected_nonempty:
  "buildCandidates s rt p source \<noteq> [] \<Longrightarrow> selectWeightedTargets env (buildCandidates s rt p source) p sp \<noteq> []"
proof
  assume ne: "buildCandidates s rt p source \<noteq> []"
    and e: "selectWeightedTargets env (buildCandidates s rt p source) p sp = []"
  have "min (normalizeTargetCount (pol_TargetCount p)) (int (length (buildCandidates s rt p source))) = 0"
    using selected_length[of env s rt p source sp] unfolding e by simp
  then show False using normalizeTargetCount_bounds[of "pol_TargetCount p"] ne by (simp add: min_def split: if_splits)
qed

text \<open>\<open>ErrNoTargetSelected\<close> cannot happen: when there are candidates, targets are selected.\<close>

lemma select_with_policy_eq:
  "select_with_policy env now snapshot route rt source policy s =
    (let ss = scope_and_spread env policy (route_ID route) rt source;
         ttl = normalizeAuthoritativeTTL (pol_TTL policy);
         cs = buildCandidates (map_option snd snapshot) rt policy source
     in if cs = [] then
          (\<lparr>sel_result = Inl (if probing_enabled snapshot
                \<and> hasCandidatesWithoutDNSProbe (map_option snd snapshot) rt policy source
              then ErrDNSProbeThresholdNotSatisfied rt else ErrNoAvailableTarget rt),
            sel_ttl = ttl, sel_scope = fst ss\<rparr>, s)
        else
          (let r = applyDebounce now (route_ID route) rt (fst ss)
                (selectWeightedTargets env cs policy (snd ss)) cs policy s
           in (\<lparr>sel_result = Inr (fst r), sel_ttl = ttl, sel_scope = fst ss\<rparr>, snd r)))"
  using selected_nonempty[of "map_option snd snapshot" rt policy source env]
  by (simp add: select_with_policy_def Let_def)

lemma applyDebounce_result:
  "fst (applyDebounce now i rt sc desired cs p s) = desired
    \<or> fst (applyDebounce now i rt sc desired cs p s) = ds_Targets (state_of (sch_states s) (schedulerStateKey i rt sc))
      \<and> ds_Targets (state_of (sch_states s) (schedulerStateKey i rt sc)) \<noteq> []"
  using debounce_result by (simp add: applyDebounce_def Let_def)

lemma applyDebounce_nonempty: "desired \<noteq> [] \<Longrightarrow> fst (applyDebounce now i rt sc desired cs p s) \<noteq> []"
  using applyDebounce_result[of now i rt sc desired cs p s] by auto

lemma select_with_policy_sound:
  assumes "select_with_policy env now (Some sp) route rt source policy s = (sel, s')" "sel_result sel = Inr ts"
  shows "(\<forall>t \<in> set ts. servable (snd sp) rt policy source t) \<and> distinct ts
      \<and> int (length ts) = min (normalizeTargetCount (pol_TargetCount policy))
          (int (length (buildCandidates (Some (snd sp)) rt policy source)))
    \<or> ts \<noteq> [] \<and> ts = ds_Targets (state_of (sch_states s) (schedulerStateKey (route_ID route) rt (sel_scope sel)))"
proof -
  let ?cs = "buildCandidates (Some (snd sp)) rt policy source"
  let ?ss = "scope_and_spread env policy (route_ID route) rt source"
  let ?d = "selectWeightedTargets env ?cs policy (snd ?ss)"
  have r: "sel_scope sel = fst ?ss" "ts = fst (applyDebounce now (route_ID route) rt (fst ?ss) ?d ?cs policy s)"
    using assms by (auto simp: select_with_policy_eq Let_def split: if_splits)
  have "(\<forall>t \<in> set ?d. servable (snd sp) rt policy source t) \<and> distinct ?d"
    using selected_ok[of policy "Some (snd sp)" rt source env "snd ?ss"] buildCandidates_servable
    by (fastforce simp: selection_ok_def)
  then show ?thesis
    using applyDebounce_result[of now "route_ID route" rt "fst ?ss" ?d ?cs policy s] selected_length r by metis
qed

lemma schedulerStateKey_normalized [simp]:
  "schedulerStateKey i (normalizeAddressRecordType rt) sc = schedulerStateKey i rt sc"
  by (simp add: schedulerStateKey_def)

lemma routePolicy_states: "sch_states (snd (routePolicy snapshot index rp s)) = sch_states s"
  by (simp add: routePolicy_def Let_def split: option.splits)

lemma SelectWithIndex_policy:
  assumes "route_GSLBEnabled (snd rp)" "routePolicy snapshot index rp s = (Some policy, s')"
  shows "SelectWithIndex env now snapshot index (Some rp) rawType source True s =
    select_with_policy env now snapshot (snd rp) (normalizeAddressRecordType rawType) source policy s'"
  using assms normalizeAddressRecordType_cases[of rawType] by (auto simp: SelectWithIndex_def Let_def)

section \<open>Properties\<close>

text \<open>C4: What a query is answered with. For a route with GSLB on, an answer exists only when the snapshot is
  fresh, and it is either made of servable addresses, distinct and as many as the policy asks for (or
  all candidates when there are fewer), or it is the answer this route, type and scope had before,
  which debouncing keeps.\<close>

theorem select_sound:
  assumes "SelectWithIndex env now (Some sp) index (Some rp) rawType source fresh s = (sel, s')"
    and "sel_result sel = Inr ts" "route_GSLBEnabled (snd rp)"
  defines "rt \<equiv> normalizeAddressRecordType rawType"
  shows "fresh \<and> (\<exists>policy. fst (routePolicy (Some sp) index rp s) = Some policy
    \<and> ((\<forall>t \<in> set ts. servable (snd sp) rt policy source t) \<and> distinct ts
        \<and> int (length ts) = min (normalizeTargetCount (pol_TargetCount policy))
            (int (length (buildCandidates (Some (snd sp)) rt policy source)))
      \<or> ts \<noteq> [] \<and> ts = ds_Targets (state_of (sch_states s)
          (schedulerStateKey (route_ID (snd rp)) rt (sel_scope sel)))))"
proof (cases rule: SelectWithIndex_cases[of env now "Some sp" index rp rawType source fresh s])
  case (error e)
  then show ?thesis using assms(1,2) by simp
next
  case static
  then show ?thesis using assms(3) by simp
next
  case (policy p s1)
  have p: "routePolicy (Some sp) index rp s = (Some p, s1)" using policy(3) assms(3) by simp
  have s1: "sch_states s1 = sch_states s"
    using routePolicy_states[of "Some sp" index rp s] p by simp
  have sel: "select_with_policy env now (Some sp) (snd rp) rt source p s1 = (sel, s')"
    using policy(2) assms(1) by (simp add: rt_def)
  show ?thesis
    using select_with_policy_sound[OF sel assms(2)] policy(1) unfolding s1 p fst_conv by blast
qed

definition sample_route :: SnapshotRoute where
  "sample_route = zero_SnapshotRoute\<lparr>route_ID := 7, route_GSLBEnabled := True, route_TargetCount := 2,
    route_RecordType := ''A'', route_GSLBPolicy := sample_policy\<rparr>"

definition sample_index :: "unit snapshotIndex" where
  "sample_index = zero_index\<lparr>ix_policiesByRouteID := Some [(7, sample_policy)]\<rparr>"

abbreviation sample_select :: "hash_env \<Rightarrow> Scheduler \<Rightarrow> selection \<times> Scheduler" where
  "sample_select env s \<equiv> SelectWithIndex env 1000 (Some (2, sample_snapshot)) sample_index
    (Some ((2, 0), sample_route)) ''A'' away_source True s"

lemma sample_route_policy:
  "routePolicy (Some (2, sample_snapshot)) sample_index ((2, 0), sample_route) s = (Some sample_policy, s)"
  by (simp add: routePolicy_def sample_index_def sample_route_def)

lemma sample_candidates_nonempty:
  "buildCandidates (Some sample_snapshot) ''A'' sample_policy away_source \<noteq> []"
  using sample_candidates by (metis list.distinct(1) list.simps(8))

text \<open>C31: A query that can be answered is answered: when the policy of a route yields candidates and the
  snapshot is fresh, the result is a non-empty list of targets. In particular the error for an empty
  selection never occurs.\<close>

theorem select_answers:
  assumes "route_GSLBEnabled (snd rp)" "routePolicy snapshot index rp s = (Some policy, s')"
    and "buildCandidates (map_option snd snapshot) (normalizeAddressRecordType rawType) policy source \<noteq> []"
  shows "\<exists>ts. sel_result (fst (SelectWithIndex env now snapshot index (Some rp) rawType source True s)) = Inr ts \<and> ts \<noteq> []"
  using assms(3) unfolding SelectWithIndex_policy[OF assms(1,2)]
  by (simp add: select_with_policy_eq Let_def applyDebounce_nonempty selected_nonempty)

lemma normalizeAddressRecordType_A: "normalizeAddressRecordType ''A'' = ''A''"
  by code_simp

lemma sample_route_enabled: "route_GSLBEnabled sample_route" "route_ID sample_route = 7"
  by (simp_all add: sample_route_def)

theorem select_answers_witness:
  "\<forall>env. \<exists>ts. sel_result (fst (sample_select env NewScheduler)) = Inr ts \<and> ts \<noteq> []"
  using select_answers[OF _ sample_route_policy, where rawType = "''A''" and source = away_source]
    sample_candidates_nonempty
  by (simp add: sample_route_enabled normalizeAddressRecordType_A)

lemma sample_answer: "\<exists>ts. sel_result (fst (sample_select env NewScheduler)) = Inr ts"
  using sample_candidates_nonempty
  by (simp add: SelectWithIndex_policy[OF _ sample_route_policy] sample_route_enabled normalizeAddressRecordType_A
      select_with_policy_eq Let_def)

theorem select_sound_witness:
  "\<forall>env. \<exists>ts. sel_result (fst (sample_select env NewScheduler)) = Inr ts
    \<and> (\<forall>t \<in> set ts. servable sample_snapshot ''A'' sample_policy away_source t)"
proof
  fix env
  obtain ts where ts: "sel_result (fst (sample_select env NewScheduler)) = Inr ts" using sample_answer by blast
  have none: "ds_Targets (state_of (sch_states NewScheduler) k) = []" for k
    by (simp add: NewScheduler_def state_of_def zero_debounceState_def)
  have "\<forall>t \<in> set ts. servable sample_snapshot ''A'' sample_policy away_source t"
    using select_sound[OF surjective_pairing ts] none
    by (auto simp: sample_route_enabled normalizeAddressRecordType_A sample_route_policy)
  with ts show "\<exists>ts. sel_result (fst (sample_select env NewScheduler)) = Inr ts
    \<and> (\<forall>t \<in> set ts. servable sample_snapshot ''A'' sample_policy away_source t)" by blast
qed

text \<open>C5: Failover happens exactly at the threshold: while the previous targets are not all eligible and the
  same new targets are desired, every call before the one that completes the unhealthy threshold
  answers the previous targets, and that call answers the new ones.\<close>

theorem failover_at_threshold:
  fixes i rt sc p s
  defines "st \<equiv> state_of (sch_states s) (schedulerStateKey i rt sc)"
  assumes "ds_Targets st \<noteq> []" "ds_LastChangedAt st \<noteq> 0" "\<not> sameStringSet (ds_Targets st) desired" "calls \<noteq> []"
    and "ds_UnhealthyCount st + int (length calls) = normalizeDebounceThreshold (deb_UnhealthyThreshold (pol_Debounce p))"
    and "\<forall>(now, d, cs) \<in> set calls. d = desired \<and> \<not> allTargetsEligible (ds_Targets st) (map cand_Content cs)"
  shows "apply_run i rt sc p s calls = replicate (length calls - 1) (ds_Targets st) @ [desired]"
  using failover_run[of st desired "map (\<lambda>(now, desired, cs). (now, desired, map cand_Content cs)) calls" "pol_Debounce p"] assms
  by (fastforce simp: apply_run_debounce)

definition served_scheduler :: Scheduler where
  "served_scheduler = NewScheduler\<lparr>sch_states :=
    [(schedulerStateKey 7 ''A'' ''global'', zero_debounceState\<lparr>ds_Targets := [''8.8.8.8''], ds_LastChangedAt := 5\<rparr>)]\<rparr>"

definition patient_policy :: GSLBPolicy where
  "patient_policy = zero_GSLBPolicy\<lparr>pol_Debounce :=
    \<lparr>deb_CooldownSeconds = 60, deb_UnhealthyThreshold = 3, deb_RecoveryThreshold = 1\<rparr>\<rparr>"

lemma served_state:
  "state_of (sch_states served_scheduler) (schedulerStateKey 7 ''A'' ''global'') =
    zero_debounceState\<lparr>ds_Targets := [''8.8.8.8''], ds_LastChangedAt := 5\<rparr>"
  by (simp add: served_scheduler_def state_of_def)

theorem failover_at_threshold_witness:
  "apply_run 7 ''A'' ''global'' patient_policy served_scheduler
    [(10, [''9.9.9.9''], []), (11, [''9.9.9.9''], []), (12, [''9.9.9.9''], [])] =
   [[''8.8.8.8''], [''8.8.8.8''], [''9.9.9.9'']]"
proof -
  have "\<not> sameStringSet [''8.8.8.8''] [''9.9.9.9'']" "\<not> allTargetsEligible [''8.8.8.8''] []" by code_simp+
  then show ?thesis
    using failover_at_threshold[of served_scheduler 7 "''A''" "''global''" "[''9.9.9.9'']"
        "[(10, [''9.9.9.9''], []), (11, [''9.9.9.9''], []), (12, [''9.9.9.9''], [])]" patient_policy]
    by (simp add: served_state patient_policy_def zero_debounceState_def normalizeDebounceThreshold_def del: apply_run.simps)
qed

text \<open>No flapping: while the targets of a state stay eligible, they are answered, up to order, on every
  call until the cooldown since their last change has passed, whatever the other targets desired.\<close>

theorem no_flap_in_cooldown:
  fixes i rt sc p s
  defines "st \<equiv> state_of (sch_states s) (schedulerStateKey i rt sc)"
  assumes "ds_Targets st \<noteq> []" "ds_LastChangedAt st \<noteq> 0"
    and "\<forall>(now, d, cs) \<in> set calls. allTargetsEligible (ds_Targets st) (map cand_Content cs)
      \<and> TimeSub now (ds_LastChangedAt st) < deb_CooldownSeconds (pol_Debounce p) * Second"
  shows "\<forall>ts \<in> set (apply_run i rt sc p s calls). sameStringSet (ds_Targets st) ts"
  using cooldown_run[of st "map (\<lambda>(now, desired, cs). (now, desired, map cand_Content cs)) calls" "pol_Debounce p"] assms
  by (fastforce simp: apply_run_debounce)

theorem no_flap_in_cooldown_witness:
  "sameStringSet [''8.8.8.8''] (hd (apply_run 7 ''A'' ''global'' patient_policy served_scheduler
    [(10, [''9.9.9.9''], [pool_candidate ''p'' ''8.8.8.8''])]))"
proof -
  have "allTargetsEligible [''8.8.8.8''] [''8.8.8.8'']" by code_simp
  moreover have "cand_Content (pool_candidate ''p'' ''8.8.8.8'') = ''8.8.8.8''"
    by (simp add: pool_candidate_def base_candidate_def)
  ultimately show ?thesis
    using no_flap_in_cooldown[of served_scheduler 7 "''A''" "''global''"
        "[(10, [''9.9.9.9''], [pool_candidate ''p'' ''8.8.8.8''])]" patient_policy]
    by (simp add: served_state patient_policy_def zero_debounceState_def TimeSub_def Second_def Let_def)
qed


text \<open>In every state a scheduler can reach, by loading and exporting states and answering queries in any
  order, with any snapshots, sources and clock, an answer is a non-empty list of distinct addresses,
  all of the family of the record type that was asked for.\<close>

theorem reachable_answers_family:
  assumes "sched_reachable dns mem s" "snd rp = mem (fst rp)"
    and "sel_result (fst (SelectWithIndex env now snapshot index (Some rp) rawType source fresh s)) = Inr ts"
  shows "ts \<noteq> [] \<and> distinct ts \<and> (\<forall>t \<in> set ts. family_target (normalizeAddressRecordType rawType) t)"
proof -
  have "sched_inv mem s" using assms(1) by (rule reachable_inv)
  from SelectWithIndex_inv[OF this assms(2), of env now snapshot index rawType source fresh] assms(3)
  show ?thesis by (simp add: family_targets_def)
qed

theorem reachable_answers_family_witness:
  "\<forall>env. \<exists>ts. sel_result (fst (sample_select env NewScheduler)) = Inr ts \<and> (\<forall>t \<in> set ts. family_target ''A'' t)"
proof
  fix env
  obtain ts where ts: "sel_result (fst (sample_select env NewScheduler)) = Inr ts" using sample_answer by blast
  show "\<exists>ts. sel_result (fst (sample_select env NewScheduler)) = Inr ts \<and> (\<forall>t \<in> set ts. family_target ''A'' t)"
    using reachable_answers_family[OF sched_reachable.new[of plain_env "\<lambda>_. sample_route"] _ ts] ts
    by (simp add: normalizeAddressRecordType_A)
qed

text \<open>An error of \<open>SelectWithIndex\<close> changes no debounce state, and a stale snapshot always gives an error:
  failed queries do not count towards failover or recovery.\<close>

theorem select_errors_keep_states:
  "(\<forall>e. sel_result (fst (SelectWithIndex env now snapshot index (Some rp) rawType source fresh s)) = Inl e \<longrightarrow>
      sch_states (snd (SelectWithIndex env now snapshot index (Some rp) rawType source fresh s)) = sch_states s)
   \<and> (\<not> fresh \<longrightarrow> isl (sel_result (fst (SelectWithIndex env now snapshot index (Some rp) rawType source fresh s))))"
proof (cases rule: SelectWithIndex_cases[of env now snapshot index rp rawType source fresh s])
  case (error e)
  then show ?thesis using routePolicy_states[of snapshot index rp s] by auto
next
  case (policy p s')
  have "sch_states s' = sch_states s" using policy(3) routePolicy_states[of snapshot index rp s] by (auto split: if_splits)
  then show ?thesis using policy(1) unfolding policy(2) by (simp add: select_with_policy_eq Let_def)
qed simp_all

theorem select_errors_keep_states_witness:
  "\<forall>env. isl (sel_result (fst (SelectWithIndex env 0 None sample_index (Some ((2, 0), sample_route)) ''A'' away_source False NewScheduler)))"
proof
  fix env
  show "isl (sel_result (fst (SelectWithIndex env 0 None sample_index (Some ((2, 0), sample_route)) ''A'' away_source False NewScheduler)))"
    using select_errors_keep_states[of env 0 None sample_index "((2, 0), sample_route)" "''A''" away_source False NewScheduler]
    by blast
qed

text \<open>The cache of policies is coherent: in every reachable state, and for every snapshot that is not nil, the
  policy used for a route that the index has no policy for is the normalised policy of that route, no
  matter which routes and snapshots were asked for before.\<close>

theorem policy_cache_coherent:
  assumes "sched_reachable dns mem s" "snd rp = mem (fst rp)" "ix_policiesByRouteID index = None"
  shows "fst (routePolicy (Some sp) index rp s) = Some (normalizePolicy (route_GSLBPolicy (snd rp)) (snd rp))"
  using reachable_inv[OF assms(1)] assms(2,3)
  by (cases rp) (auto simp: sched_inv_def cache_ok_def routePolicy_def Let_def split: option.splits)

theorem policy_cache_coherent_witness:
  "fst (routePolicy (Some (2, sample_snapshot)) (zero_index :: unit snapshotIndex) ((2, 0), sample_route) NewScheduler) =
    Some (normalizePolicy (route_GSLBPolicy sample_route) sample_route)"
  using policy_cache_coherent[OF sched_reachable.new[of plain_env "\<lambda>_. sample_route"],
      of "((2, 0), sample_route)" zero_index "(2, sample_snapshot)"]
  by (simp add: zero_index_def)

text \<open>With a nil snapshot and a fresh scheduler the cache is a nil map, and the write to it panics.\<close>

lemma routePolicy_nil_snapshot_panics:
  "fst (routePolicy None (zero_index :: unit snapshotIndex) rp NewScheduler) = None"
  by (simp add: routePolicy_def NewScheduler_def zero_index_def Let_def)

text \<open>The key of a debounce state is read back: for a source scope in normal form, alone or with a bucket,
  parsing the text of a key gives the route, the normalised record type and the scope it was made of.\<close>

theorem state_key_roundtrip:
  assumes "0 < routeID" "routeID < 2 ^ 64" "stable_base scope" "bucket < 100"
  shows "parseSchedulerStateKey (schedulerStateKey routeID recordType scope) =
      Some (routeID, normalizeAddressRecordType recordType, scope)
    \<and> parseSchedulerStateKey (schedulerStateKey routeID recordType (scope @ ''|bucket:'' @ Format02d bucket)) =
      Some (routeID, normalizeAddressRecordType recordType, scope @ ''|bucket:'' @ Format02d bucket)"
  using parse_key[OF assms(1,2)] normalizeSourceScope_base[OF assms(3)] normalizeSourceScope_bucket[OF assms(3,4)] by simp

theorem state_key_roundtrip_witness:
  "parseSchedulerStateKey (schedulerStateKey 7 ''A'' (''asn:'' @ FormatUint 64500)) =
    Some (7, normalizeAddressRecordType ''A'', ''asn:'' @ FormatUint 64500)"
  using state_key_roundtrip[of 7 "''asn:'' @ FormatUint 64500" 5 "''A''"] stable_base_asn[of 64500] by simp

text \<open>After loading the states of a snapshot, every state belongs to a route of that snapshot: states of routes
  that were removed are dropped. The route identifiers of the snapshot are unsigned 64-bit numbers.\<close>

theorem load_drops_removed_routes:
  assumes "sched_reachable dns mem s" "\<forall>i \<in> set (route_ids snap). i < 2 ^ 64"
    and "map_of (sch_states (LoadSnapshotStates now (Some snap) s)) key = Some st"
  shows "\<exists>i \<in> set (route_ids snap). schedulerStateRouteID key = Some i"
proof -
  have "schedulerStateRouteID key = Some (ss_RouteID item) \<and> ss_RouteID item \<in> set (route_ids snap)"
    if "import_state now snap item = Some (key, st)" for item
  proof -
    from that have "ss_RouteID item \<in> set (route_ids snap)" "0 < ss_RouteID item"
        "key = schedulerStateKey (ss_RouteID item) (ss_RecordType item) (normalizeSourceScope (ss_ScopeKey item))"
      by (auto simp: import_state_def Let_def split: option.splits if_splits)
    then show ?thesis using parse_key[of "ss_RouteID item"] assms(2) by (simp add: schedulerStateRouteID_def)
  qed
  then show ?thesis
    using LoadSnapshotStates_origin[OF assms(3)] reachable_inv[OF assms(1)] by (auto simp: sched_inv_def)
qed

definition state_snapshot :: Snapshot where
  "state_snapshot = zero_Snapshot\<lparr>snap_Routes := [sample_route],
    snap_SchedulingStates := [\<lparr>ss_RouteID = 7, ss_RecordType = ''A'', ss_ScopeKey = ''global'',
      ss_SelectedTargets = [''8.8.8.8''], ss_DesiredTargets = [], ss_UnhealthyCount = 0, ss_RecoveryCount = 0,
      ss_LastChangedAt = Some 5\<rparr>]\<rparr>"

abbreviation loaded_scheduler :: Scheduler where
  "loaded_scheduler \<equiv> LoadSnapshotStates 10 (Some state_snapshot) NewScheduler"

definition loaded_state :: debounceState where
  "loaded_state = zero_debounceState\<lparr>ds_Targets := [''8.8.8.8''], ds_LastChangedAt := 5\<rparr>"

lemma loaded_states: "sch_states loaded_scheduler = [(schedulerStateKey 7 ''A'' ''global'', loaded_state)]"
  by code_simp

lemma loaded_lookup: "map_of (sch_states loaded_scheduler) (schedulerStateKey 7 ''A'' ''global'') = Some loaded_state"
  by (simp add: loaded_states)

lemma loaded_reachable: "sched_reachable plain_env mem loaded_scheduler"
  by (rule sched_reachable.step[OF sched_reachable.new sched_step.load])

theorem load_drops_removed_routes_witness:
  "\<exists>i \<in> set (route_ids state_snapshot). schedulerStateRouteID (schedulerStateKey 7 ''A'' ''global'') = Some i"
proof -
  have "\<forall>i \<in> set (route_ids state_snapshot). i < 2 ^ 64" by code_simp
  from load_drops_removed_routes[OF sched_reachable.new[of plain_env "\<lambda>_. sample_route"] this loaded_lookup] show ?thesis .
qed

text \<open>Debounce states survive the exchange between workers: a state of an IPv4 route that one scheduler exports
  into a snapshot is loaded from it, at a later time, by a fresh scheduler unchanged but for a change
  time of the future, which is moved to the time of the export. Keys have scopes in normal form.\<close>

theorem exported_states_load_back:
  assumes "sched_reachable dns mem s" "t1 \<le> t2" "t1 \<noteq> 0"
    and "\<forall>key \<in> fst ` set (sch_states s). stable_key key \<and> type_of_key key = ''A''"
    and "map_of (sch_states s) key = Some st" "export_state t1 (route_types snap) (key, st) \<noteq> None"
  shows "map_of (sch_states (LoadSnapshotStates t2
      (Some (snap\<lparr>snap_SchedulingStates := fst (SnapshotStates t1 (Some snap) s)\<rparr>)) NewScheduler)) key =
    Some (clamp_state t1 st)"
  using states_exchange_run[OF reachable_inv[OF assms(1)] assms(4,2,3,5,6)] .

lemma loaded_exports: "export_state 20 (route_types state_snapshot) (schedulerStateKey 7 ''A'' ''global'', loaded_state) \<noteq> None"
  by code_simp

lemma global_scope_stable: "normalizeSourceScope (normalizeSourceScope ''global'') = normalizeSourceScope ''global''"
  by code_simp

lemma loaded_key_stable: "stable_key (schedulerStateKey 7 ''A'' ''global'')"
  unfolding stable_key_def using global_scope_stable by (intro exI[of _ 7] exI[of _ "''A''"] exI[of _ "''global''"]) simp

theorem exported_states_load_back_witness:
  "map_of (sch_states (LoadSnapshotStates 30 (Some (state_snapshot\<lparr>snap_SchedulingStates :=
      fst (SnapshotStates 20 (Some state_snapshot) loaded_scheduler)\<rparr>)) NewScheduler)) (schedulerStateKey 7 ''A'' ''global'') =
    Some (clamp_state 20 loaded_state)"
  using exported_states_load_back[OF loaded_reachable, of 20 30 "schedulerStateKey 7 ''A'' ''global''" loaded_state
      state_snapshot, OF _ _ _ loaded_lookup loaded_exports] loaded_key_stable
  by (simp add: loaded_states normalizeAddressRecordType_A)

end
