(* ===== verification/DNSSEC.thy ===== *)
theory DNSSEC
  imports DNS_Records
begin

text \<open>
  Signing of answers (\<open>dnssec.go\<close>): the keys of a zone, the RRsets of a section and their signatures, the
  DNSKEY and NSEC3PARAM records, and the NSEC and NSEC3 records of a denial. Signing, hashing and key tags
  are functions of package \<open>dns\<close>, fields of \<open>dns_env\<close>; an error of signing is \<open>None\<close>. The clock is read
  once for the signatures of an answer (\<open>now\<close>). A key that is not there (a zero \<open>dnssecRuntimeKey\<close>) is \<open>None\<close>.

  Shown: every RRset is signed once, by the right key and valid at the time of signing, unless \<open>Sign\<close> fails; the keys and
  names cached in the index are those of the zone; an NSEC3 record names the next hash of the zone and denies no name of it.
\<close>

section \<open>Keys\<close>

definition SHA1 :: nat where "SHA1 = 1"
definition dnssecKeyRoleKSK :: string where "dnssecKeyRoleKSK = ''ksk''"
definition dnssecKeyRoleZSK :: string where "dnssecKeyRoleZSK = ''zsk''"
definition dnssecDenialModeNSEC3 :: string where "dnssecDenialModeNSEC3 = ''nsec3''"

definition dnssecRequested :: "Msg option \<Rightarrow> bool" where
  "dnssecRequested request =
    (case request of None \<Rightarrow> False | Some m \<Rightarrow> (case msg_Edns0 m of None \<Rightarrow> False | Some opt \<Rightarrow> opt_Do opt))"

definition dnssecRuntimeKeysForZone :: "'p dns_env \<Rightarrow> SnapshotZone \<Rightarrow> 'p snapshotIndex \<Rightarrow> 'p dnssecRuntimeKey list" where
  "dnssecRuntimeKeysForZone env zone index =
    (case ix_dnssecKeysByZone index of
       Some m \<Rightarrow> gm_list m (zone_ID zone)
     | None \<Rightarrow> loadDNSSECKeys env zone)"

definition firstDNSSECKey :: "'p dnssecRuntimeKey list \<Rightarrow> string \<Rightarrow> 'p dnssecRuntimeKey option" where
  "firstDNSSECKey keys role = (let role = ToLower (TrimSpace role) in find (\<lambda>k. rt_role k = role) keys)"

text \<open>The zone signing key and the key signing key, each replaced by the other when it is missing.\<close>

definition zsk_of :: "'p dnssecRuntimeKey list \<Rightarrow> 'p dnssecRuntimeKey option" where
  "zsk_of keys =
    (case firstDNSSECKey keys dnssecKeyRoleZSK of None \<Rightarrow> firstDNSSECKey keys dnssecKeyRoleKSK | Some k \<Rightarrow> Some k)"

definition ksk_of :: "'p dnssecRuntimeKey list \<Rightarrow> 'p dnssecRuntimeKey option" where
  "ksk_of keys = (case firstDNSSECKey keys dnssecKeyRoleKSK of None \<Rightarrow> zsk_of keys | Some k \<Rightarrow> Some k)"

section \<open>Signatures\<close>

text \<open>\<open>Unix\<close> of a time: seconds from 1970; times are counted from the year 1.\<close>

definition Unix :: "gotime \<Rightarrow> int" where
  "Unix t = t div Second - 62135596800"

definition Hour :: duration where "Hour = 60 * Minute"

definition signDNSSECRRSet ::
  "'p dns_env \<Rightarrow> gotime \<Rightarrow> SnapshotZone \<Rightarrow> 'p dnssecRuntimeKey option \<Rightarrow> RR list \<Rightarrow> RRSIG_RR option" where
  "signDNSSECRRSet env now zone signer rrset =
    (case signer of
       None \<Rightarrow> None
     | Some k \<Rightarrow>
         (case rrset of
            [] \<Rightarrow> None
          | rr # _ \<Rightarrow>
              (let h = rr_Header rr; validity = normalizeDNSSECSignatureValidity (sec_SignatureValiditySeconds (zone_DNSSEC zone))
               in SignRRset env (rt_privateKey k)
                    \<lparr>sig_Hdr = \<lparr>hdr_Name = hdr_Name h, hdr_Rrtype = TypeRRSIG, hdr_Class = ClassINET, hdr_Ttl = hdr_Ttl h\<rparr>,
                     sig_TypeCovered = hdr_Rrtype h, sig_Algorithm = dk_Algorithm (rt_key k),
                     sig_Labels = uint8 (int (CountLabel env (hdr_Name h))), sig_OrigTtl = hdr_Ttl h,
                     sig_Expiration = uint32 (Unix (now + wrap64 (validity * Second))), sig_Inception = uint32 (Unix (now - Hour)),
                     sig_KeyTag = KeyTag env (rt_key k), sig_SignerName = dnsName (zone_Name zone), sig_Signature = ''''\<rparr>
                    rrset)))"

definition rrset_key :: "'p dns_env \<Rightarrow> RR \<Rightarrow> string" where
  "rrset_key env rr = ToLower (hdr_Name (rr_Header rr)) @ ''|'' @ TypeToString env (hdr_Rrtype (rr_Header rr))"

definition group_rr :: "'p dns_env \<Rightarrow> (string, RR list) gomap \<times> string list \<Rightarrow> RR \<Rightarrow> (string, RR list) gomap \<times> string list" where
  "group_rr env st rr =
    (let key = rrset_key env rr
     in if hdr_Rrtype (rr_Header rr) = TypeRRSIG then st
        else (gm_append key rr (fst st), if map_of (fst st) key = None then snd st @ [key] else snd st))"

definition sign_group ::
  "'p dns_env \<Rightarrow> gotime \<Rightarrow> SnapshotZone \<Rightarrow> 'p dnssecRuntimeKey option \<Rightarrow> 'p dnssecRuntimeKey option \<Rightarrow> RR list \<Rightarrow> RR option" where
  "sign_group env now zone zsk ksk rrset =
    (case rrset of
       [] \<Rightarrow> None
     | rr # _ \<Rightarrow>
         map_option RR_RRSIG (signDNSSECRRSet env now zone (if hdr_Rrtype (rr_Header rr) = TypeDNSKEY then ksk else zsk) rrset))"

definition signRRsets ::
  "'p dns_env \<Rightarrow> gotime \<Rightarrow> RR list \<Rightarrow> SnapshotZone \<Rightarrow> 'p dnssecRuntimeKey option \<Rightarrow> 'p dnssecRuntimeKey option \<Rightarrow> RR list" where
  "signRRsets env now records zone zsk ksk =
    (let st = foldl (group_rr env) ([], []) records
     in List.map_filter (\<lambda>key. sign_group env now zone zsk ksk (gm_list (fst st) key)) (sort (snd st)))"

definition signDNSSECRRsets :: "'p dns_env \<Rightarrow> gotime \<Rightarrow> Msg \<Rightarrow> SnapshotZone \<Rightarrow> 'p dnssecRuntimeKey list \<Rightarrow> Msg" where
  "signDNSSECRRsets env now response zone keys =
    response\<lparr>msg_Answer := msg_Answer response @ signRRsets env now (msg_Answer response) zone (zsk_of keys) (ksk_of keys),
      msg_Ns := msg_Ns response @ signRRsets env now (msg_Ns response) zone (zsk_of keys) (ksk_of keys)\<rparr>"

section \<open>Records of a signed zone\<close>

definition dnssecDNSKEYRecords :: "SnapshotZone \<Rightarrow> RR list" where
  "dnssecDNSKEYRecords zone =
    List.map_filter (\<lambda>item.
      if ToLower (TrimSpace (key_Status item)) \<noteq> ''active'' \<or> TrimSpace (key_PublicKey item) = '''' then None
      else Some (RR_DNSKEY (dnskey_of zone item))) (zone_DNSSECKeys zone)"

definition nsec3_salt :: "SnapshotZone \<Rightarrow> string" where
  "nsec3_salt zone = TrimSpace (sec_NSEC3Salt (zone_DNSSEC zone))"

definition nsec3_iterations :: "SnapshotZone \<Rightarrow> nat" where
  "nsec3_iterations zone = uint16 (normalizeDNSSECNSEC3Iterations (sec_NSEC3Iterations (zone_DNSSEC zone)))"

definition dnssecNSEC3PARAMRecord :: "SnapshotZone \<Rightarrow> RR" where
  "dnssecNSEC3PARAMRecord zone =
    RR_NSEC3PARAM (header (zone_Name zone) TypeNSEC3PARAM (zone_ttl zone)) SHA1 0 (nsec3_iterations zone)
      (uint8 (int (length (nsec3_salt zone)) div 2)) (nsec3_salt zone)"

definition uses_nsec3 :: "SnapshotZone \<Rightarrow> bool" where
  "uses_nsec3 zone \<longleftrightarrow> normalizeDNSSECDenialMode (sec_DenialMode (zone_DNSSEC zone)) = dnssecDenialModeNSEC3"

definition covered_records :: "'p dns_env \<Rightarrow> SnapshotZone \<Rightarrow> 'p snapshotIndex \<Rightarrow> string \<Rightarrow> RR list" where
  "covered_records env zone index qname =
    (if normalizeDomain qname = zone_Name zone
     then [soaRecord zone] @ nsRecords zone @ dnssecDNSKEYRecords zone
       @ (if uses_nsec3 zone then [dnssecNSEC3PARAMRecord zone] else [])
     else [])
    @ concat (map (\<lambda>(key, records).
        if rk_ZoneID key \<noteq> zone_ID zone \<or> rk_Name key \<noteq> normalizeDomain qname then [] else recordsToRR env zone records)
        (ix_recordsByNameType index))"

definition dnssecCoveredRRsets :: "'p dns_env \<Rightarrow> gotime \<Rightarrow> SnapshotZone \<Rightarrow> 'p snapshotIndex \<Rightarrow> string \<Rightarrow> RR list" where
  "dnssecCoveredRRsets env now zone index qname =
    (let keys = dnssecRuntimeKeysForZone env zone index; rrsets = covered_records env zone index qname
     in if length keys = 0 then []
        else if length rrsets = 0 then []
        else signRRsets env now rrsets zone (zsk_of keys) (ksk_of keys))"

section \<open>Denial\<close>

definition isDNSSECNoDataResponse :: "Msg \<Rightarrow> bool" where
  "isDNSSECNoDataResponse response \<longleftrightarrow> msg_Rcode response = RcodeSuccess \<and> length (msg_Answer response) = 0"

definition dnssecSortedNamesForZone :: "SnapshotZone \<Rightarrow> 'p snapshotIndex \<Rightarrow> string list" where
  "dnssecSortedNamesForZone zone index =
    (case (case ix_sortedNamesByZone index of None \<Rightarrow> None | Some m \<Rightarrow> map_of m (zone_ID zone)) of
       Some names \<Rightarrow> names
     | None \<Rightarrow> sorted_zone_names (ix_namesByZone index) (zone_ID zone))"

definition dnssecSortedNSEC3HashesForZone ::
  "'p dns_env \<Rightarrow> SnapshotZone \<Rightarrow> 'p snapshotIndex \<Rightarrow> nat \<Rightarrow> string \<Rightarrow> string list" where
  "dnssecSortedNSEC3HashesForZone env zone index iterations salt =
    (case (case ix_sortedNSEC3HashesByZone index of None \<Rightarrow> None | Some m \<Rightarrow> map_of m (zone_ID zone)) of
       Some hashes \<Rightarrow> hashes
     | None \<Rightarrow> sort (map (\<lambda>item. HashName env (dnsName item) iterations salt) (dnssecSortedNamesForZone zone index)))"

text \<open>The search for the next text in a sorted list, around its end to its first; both callers have this code.\<close>

definition next_in :: "string list \<Rightarrow> string \<Rightarrow> string" where
  "next_in names name =
    (let n = Search (length names) (\<lambda>i. \<not> names ! i < name)
     in if n < length names \<and> names ! n = name then
          (if n + 1 < length names then names ! (n + 1) else names ! 0)
        else if n < length names then names ! n
        else names ! 0)"

definition dnssecNextName :: "SnapshotZone \<Rightarrow> string \<Rightarrow> 'p snapshotIndex \<Rightarrow> string" where
  "dnssecNextName zone name index =
    (let names = dnssecSortedNamesForZone zone index
     in if length names = 0 then zone_Name zone else next_in names name)"

definition dnssecNextNSEC3Hash ::
  "'p dns_env \<Rightarrow> SnapshotZone \<Rightarrow> string \<Rightarrow> 'p snapshotIndex \<Rightarrow> nat \<Rightarrow> string \<Rightarrow> string" where
  "dnssecNextNSEC3Hash env zone name index iterations salt =
    (let hashes = dnssecSortedNSEC3HashesForZone env zone index iterations salt
     in if length hashes = 0 then HashName env (dnsName (zone_Name zone)) iterations salt
        else next_in hashes (HashName env (dnsName name) iterations salt))"

definition denied_name :: "SnapshotZone \<Rightarrow> string \<Rightarrow> string" where
  "denied_name zone qname =
    (let name = normalizeDomain qname in if name = '''' \<or> \<not> HasSuffix name (zone_Name zone) then zone_Name zone else name)"

definition dnssecNSECForName :: "SnapshotZone \<Rightarrow> string \<Rightarrow> 'p snapshotIndex \<Rightarrow> RR" where
  "dnssecNSECForName zone qname index =
    (let name = denied_name zone qname
     in RR_NSEC (header name TypeNSEC (zone_ttl zone)) (dnsName (dnssecNextName zone name index))
          [TypeA, TypeNS, TypeCNAME, TypeSOA, TypeMX, TypeTXT, TypeAAAA, TypeRRSIG, TypeNSEC, TypeDNSKEY, TypeCAA])"

definition dnssecNSEC3ForName :: "'p dns_env \<Rightarrow> SnapshotZone \<Rightarrow> string \<Rightarrow> 'p snapshotIndex \<Rightarrow> RR" where
  "dnssecNSEC3ForName env zone qname index =
    (let name = denied_name zone qname; salt = nsec3_salt zone; iterations = nsec3_iterations zone;
         hash = HashName env (dnsName name) iterations salt
     in RR_NSEC3
          \<lparr>n3_Hdr = \<lparr>hdr_Name = ToLower hash @ ''.'' @ dnsName (zone_Name zone), hdr_Rrtype = TypeNSEC3,
             hdr_Class = ClassINET, hdr_Ttl = zone_ttl zone\<rparr>,
           n3_Hash = SHA1, n3_Flags = 0, n3_Iterations = iterations, n3_SaltLength = uint8 (int (length salt) div 2),
           n3_Salt = salt, n3_HashLength = 20, n3_NextDomain = dnssecNextNSEC3Hash env zone name index iterations salt,
           n3_TypeBitMap = [TypeNS, TypeSOA, TypeRRSIG, TypeDNSKEY, TypeNSEC3PARAM]\<rparr>)"

definition addDNSSECDenialProof :: "'p dns_env \<Rightarrow> Msg \<Rightarrow> Msg \<Rightarrow> SnapshotZone \<Rightarrow> 'p snapshotIndex \<Rightarrow> Msg" where
  "addDNSSECDenialProof env response request zone index =
    (case msg_Question request of
       [] \<Rightarrow> response
     | q # _ \<Rightarrow>
         response\<lparr>msg_Ns := msg_Ns response
           @ [if uses_nsec3 zone then dnssecNSEC3ForName env zone (q_Name q) index else dnssecNSECForName zone (q_Name q) index]\<rparr>)"

definition signDNSSECResponse :: "'p dns_env \<Rightarrow> gotime \<Rightarrow> Msg \<Rightarrow> Msg \<Rightarrow> SnapshotZone \<Rightarrow> 'p snapshotIndex \<Rightarrow> Msg" where
  "signDNSSECResponse env now response request zone index =
    (let keys = dnssecRuntimeKeysForZone env zone index
     in if \<not> sec_Enabled (zone_DNSSEC zone) \<or> \<not> dnssecRequested (Some request) then response
        else if length keys = 0 then response
        else
          (let response = (if msg_Rcode response = RcodeNameError \<or> isDNSSECNoDataResponse response
                 then addDNSSECDenialProof env response request zone index else response)
           in signDNSSECRRsets env now response zone keys))"


section \<open>The RRsets of a section\<close>

lemma group_rr_fold:
  assumes "foldl (group_rr env) st rrs = st'" "distinct (snd st)" "\<And>k. k \<in> set (snd st) \<longleftrightarrow> map_of (fst st) k \<noteq> None"
  shows "gm_list (fst st') k =
      gm_list (fst st) k @ filter (\<lambda>rr. hdr_Rrtype (rr_Header rr) \<noteq> TypeRRSIG \<and> rrset_key env rr = k) rrs
    \<and> set (snd st') = set (snd st) \<union> rrset_key env ` {rr \<in> set rrs. hdr_Rrtype (rr_Header rr) \<noteq> TypeRRSIG}
    \<and> distinct (snd st')"
  using assms
proof (induction rrs arbitrary: st)
  case (Cons rr rrs)
  have "distinct (snd (group_rr env st rr))"
    "\<And>k. k \<in> set (snd (group_rr env st rr)) \<longleftrightarrow> map_of (fst (group_rr env st rr)) k \<noteq> None"
    using Cons.prems(2,3) by (auto simp: group_rr_def Let_def gm_append_def update_conv')
  from Cons.IH[OF _ this] Cons.prems(1)
  have ih: "gm_list (fst st') k =
      gm_list (fst (group_rr env st rr)) k @ filter (\<lambda>rr. hdr_Rrtype (rr_Header rr) \<noteq> TypeRRSIG \<and> rrset_key env rr = k) rrs"
    "set (snd st') = set (snd (group_rr env st rr)) \<union> rrset_key env ` {rr \<in> set rrs. hdr_Rrtype (rr_Header rr) \<noteq> TypeRRSIG}"
    "distinct (snd st')" by simp_all
  have "set (snd (group_rr env st rr)) = set (snd st) \<union> rrset_key env ` {x. x = rr \<and> hdr_Rrtype (rr_Header rr) \<noteq> TypeRRSIG}"
    using Cons.prems(3) by (auto simp: group_rr_def Let_def)
  then show ?case using ih by (auto simp: group_rr_def Let_def)
qed simp

definition rrset_of :: "'p dns_env \<Rightarrow> RR list \<Rightarrow> string \<Rightarrow> RR list" where
  "rrset_of env rrs k = filter (\<lambda>rr. hdr_Rrtype (rr_Header rr) \<noteq> TypeRRSIG \<and> rrset_key env rr = k) rrs"

definition rrset_keys :: "'p dns_env \<Rightarrow> RR list \<Rightarrow> string set" where
  "rrset_keys env rrs = rrset_key env ` {rr \<in> set rrs. hdr_Rrtype (rr_Header rr) \<noteq> TypeRRSIG}"

lemma signRRsets_eq:
  "signRRsets env now rrs zone zsk ksk =
    List.map_filter (\<lambda>k. sign_group env now zone zsk ksk (rrset_of env rrs k)) (sorted_list_of_set (rrset_keys env rrs))"
proof -
  define st where "st = foldl (group_rr env) ([], []) rrs"
  have st: "gm_list (fst st) k = rrset_of env rrs k" "set (snd st) = rrset_keys env rrs" "distinct (snd st)" for k
    using group_rr_fold[of env "([], [])" rrs st k] by (auto simp: st_def rrset_of_def rrset_keys_def)
  have "sort (snd st) = sorted_list_of_set (rrset_keys env rrs)"
    using st(2,3) by (metis sorted_list_of_set_sort_remdups distinct_remdups_id)
  then show ?thesis by (simp add: signRRsets_def st_def[symmetric] st(1))
qed

lemma finite_rrset_keys [simp]: "finite (rrset_keys env rrs)"
  by (simp add: rrset_keys_def)

section \<open>One signature for every RRset\<close>

text \<open>What is relied on of \<open>RRSIG.Sign\<close> is that it fills in the number of labels and the signature and leaves the other fields, which the
  worker has set from the RRset, as they are. It may fail: an RRset for which it does is sent without a signature.\<close>

definition sign_keeps :: "'p dns_env \<Rightarrow> bool" where
  "sign_keeps env \<longleftrightarrow> (\<forall>p sig rrset s. SignRRset env p sig rrset = Some s \<longrightarrow>
      (\<exists>labels signature. s = sig\<lparr>sig_Labels := labels, sig_Signature := signature\<rparr>))"

text \<open>A signature over the RRset of a record: its owner and type, the key and the zone, and a time it is valid at.\<close>

definition sig_for :: "'p dns_env \<Rightarrow> gotime \<Rightarrow> SnapshotZone \<Rightarrow> 'p dnssecRuntimeKey \<Rightarrow> RR \<Rightarrow> RRSIG_RR \<Rightarrow> bool" where
  "sig_for env now zone k rr sig \<longleftrightarrow>
    hdr_Name (sig_Hdr sig) = hdr_Name (rr_Header rr) \<and> hdr_Rrtype (sig_Hdr sig) = TypeRRSIG \<and> sig_TypeCovered sig = hdr_Rrtype (rr_Header rr)
    \<and> sig_OrigTtl sig = hdr_Ttl (rr_Header rr) \<and> hdr_Ttl (sig_Hdr sig) = hdr_Ttl (rr_Header rr)
    \<and> sig_Algorithm sig = dk_Algorithm (rt_key k) \<and> sig_KeyTag sig = KeyTag env (rt_key k) \<and> sig_SignerName sig = dnsName (zone_Name zone)
    \<and> int (sig_Inception sig) \<le> Unix now \<and> Unix now + 3600 \<le> int (sig_Expiration sig)"

text \<open>The key for the RRset of a record: a key signing key for the keys of the zone and a zone signing key for the rest, each
  replaced by a key of the other kind only when there is none.\<close>

definition right_key :: "'p dnssecRuntimeKey list \<Rightarrow> RR \<Rightarrow> 'p dnssecRuntimeKey \<Rightarrow> bool" where
  "right_key keys rr k \<longleftrightarrow> k \<in> set keys \<and>
    (let role = (if hdr_Rrtype (rr_Header rr) = TypeDNSKEY then ''ksk'' else ''zsk'')
     in rt_role k = role \<or> rt_role k \<in> {''ksk'', ''zsk''} \<and> (\<forall>k' \<in> set keys. rt_role k' \<noteq> role))"

text \<open>The time fits the 32-bit fields of a signature.\<close>

definition representable :: "gotime \<Rightarrow> SnapshotZone \<Rightarrow> bool" where
  "representable now zone \<longleftrightarrow> 3600 \<le> Unix now
    \<and> Unix now + normalizeDNSSECSignatureValidity (sec_SignatureValiditySeconds (zone_DNSSEC zone)) < 2 ^ 32"

lemma Unix_add: "Unix (t + s * Second) = Unix t + s"
  by (simp add: Unix_def Second_def)

lemma Unix_hour: "Unix (now - Hour) = Unix now - 3600"
  using Unix_add[of now "- 3600"] by (simp add: Hour_def Minute_def)

lemma validity_ge: "3600 \<le> normalizeDNSSECSignatureValidity v"
  by (simp add: normalizeDNSSECSignatureValidity_def)

lemma sig_for_kept: "sig_for env now zone k rr (sig\<lparr>sig_Labels := l, sig_Signature := s\<rparr>) = sig_for env now zone k rr sig"
  by (simp add: sig_for_def)

lemma signDNSSECRRSet_sig:
  assumes "representable now zone"
  obtains sig where "sig_for env now zone k rr sig"
    "signDNSSECRRSet env now zone (Some k) (rr # rrs) = SignRRset env (rt_privateKey k) sig (rr # rrs)"
proof -
  define v where "v = normalizeDNSSECSignatureValidity (sec_SignatureValiditySeconds (zone_DNSSEC zone))"
  note w = assms[unfolded representable_def v_def[symmetric]]
  have v: "3600 \<le> v" by (simp add: v_def validity_ge)
  then have "wrap64 (v * Second) = v * Second" using w by (intro wrap64_small) (simp_all add: Second_def)
  then have e: "uint32 (Unix (now + wrap64 (v * Second))) = nat (Unix now + v)" "uint32 (Unix (now - Hour)) = nat (Unix now - 3600)"
    using w v by (simp_all add: Unix_add Unix_hour uint32_small)
  show ?thesis
    by (rule that[of "\<lparr>sig_Hdr = \<lparr>hdr_Name = hdr_Name (rr_Header rr), hdr_Rrtype = TypeRRSIG, hdr_Class = ClassINET, hdr_Ttl = hdr_Ttl (rr_Header rr)\<rparr>,
        sig_TypeCovered = hdr_Rrtype (rr_Header rr), sig_Algorithm = dk_Algorithm (rt_key k),
        sig_Labels = uint8 (int (CountLabel env (hdr_Name (rr_Header rr)))), sig_OrigTtl = hdr_Ttl (rr_Header rr),
        sig_Expiration = nat (Unix now + v), sig_Inception = nat (Unix now - 3600),
        sig_KeyTag = KeyTag env (rt_key k), sig_SignerName = dnsName (zone_Name zone), sig_Signature = ''''\<rparr>"])
      (use v w in \<open>simp_all add: sig_for_def signDNSSECRRSet_def Let_def v_def[symmetric] e\<close>)
qed

definition signer_of :: "'p dnssecRuntimeKey list \<Rightarrow> RR \<Rightarrow> 'p dnssecRuntimeKey option" where
  "signer_of keys rr = (if hdr_Rrtype (rr_Header rr) = TypeDNSKEY then ksk_of keys else zsk_of keys)"

lemma role_texts: "ToLower (TrimSpace dnssecKeyRoleZSK) = ''zsk''" "ToLower (TrimSpace dnssecKeyRoleKSK) = ''ksk''"
  by code_simp+

lemma firstDNSSECKey_cases:
  "firstDNSSECKey keys role = None \<longleftrightarrow> (\<forall>k \<in> set keys. rt_role k \<noteq> ToLower (TrimSpace role))"
  "firstDNSSECKey keys role = Some k \<Longrightarrow> k \<in> set keys \<and> rt_role k = ToLower (TrimSpace role)"
  by (auto simp: firstDNSSECKey_def Let_def find_None_iff find_Some_iff)

lemma signer_exists:
  assumes "k \<in> set keys" "rt_role k \<in> {''zsk'', ''ksk''}"
  obtains k' where "signer_of keys rr = Some k'" "right_key keys rr k'"
proof (cases "firstDNSSECKey keys dnssecKeyRoleZSK")
  case z: None
  then have "rt_role k = ''ksk''" using assms firstDNSSECKey_cases(1)[of keys dnssecKeyRoleZSK] by (auto simp: role_texts)
  then have "firstDNSSECKey keys dnssecKeyRoleKSK \<noteq> None" unfolding firstDNSSECKey_cases(1) role_texts using assms(1) by blast
  then obtain ks where "firstDNSSECKey keys dnssecKeyRoleKSK = Some ks" by blast
  then show ?thesis using that[of ks] z firstDNSSECKey_cases(1)[of keys dnssecKeyRoleZSK] firstDNSSECKey_cases(2)[of keys dnssecKeyRoleKSK ks]
    by (auto simp: signer_of_def right_key_def ksk_of_def zsk_of_def role_texts)
next
  case z: (Some zs)
  show ?thesis
  proof (cases "firstDNSSECKey keys dnssecKeyRoleKSK")
    case None
    then show ?thesis using that[of zs] z firstDNSSECKey_cases(1)[of keys dnssecKeyRoleKSK] firstDNSSECKey_cases(2)[OF z]
      by (auto simp: signer_of_def right_key_def ksk_of_def zsk_of_def role_texts)
  next
    case (Some ks)
    then show ?thesis using that[of "if hdr_Rrtype (rr_Header rr) = TypeDNSKEY then ks else zs"] z firstDNSSECKey_cases(2)[OF Some] firstDNSSECKey_cases(2)[OF z]
      by (auto simp: signer_of_def right_key_def ksk_of_def zsk_of_def role_texts)
  qed
qed

lemma in_map_filter: "x \<in> set (List.map_filter f xs) \<longleftrightarrow> (\<exists>y \<in> set xs. f y = Some x)"
  by (induction xs) (auto simp: map_filter_simps split: option.splits)

lemma length_map_filter_le: "length (List.map_filter f xs) \<le> length xs"
  by (induction xs) (auto simp: map_filter_simps split: option.splits)

lemma rrset_of_Cons: "k \<in> rrset_keys env rrs \<Longrightarrow> \<exists>rr rest. rrset_of env rrs k = rr # rest"
  by (cases "rrset_of env rrs k") (auto simp: rrset_of_def rrset_keys_def filter_empty_conv)

text \<open>What becomes of one RRset, when it is signed and when not.\<close>

lemma sign_group_outcome:
  assumes "k0 \<in> set keys" "rt_role k0 \<in> {''zsk'', ''ksk''}" "representable now zone" "k \<in> rrset_keys env rrs"
  obtains key sig where "right_key keys (hd (rrset_of env rrs k)) key" "sig_for env now zone key (hd (rrset_of env rrs k)) sig"
    "sign_group env now zone (zsk_of keys) (ksk_of keys) (rrset_of env rrs k)
      = map_option RR_RRSIG (SignRRset env (rt_privateKey key) sig (rrset_of env rrs k))"
proof -
  obtain rr rest where rr: "rrset_of env rrs k = rr # rest" using rrset_of_Cons[OF assms(4)] by blast
  obtain key where key: "signer_of keys rr = Some key" "right_key keys rr key" using signer_exists[OF assms(1,2)] by blast
  obtain sig where "sig_for env now zone key rr sig"
    "signDNSSECRRSet env now zone (Some key) (rr # rest) = SignRRset env (rt_privateKey key) sig (rr # rest)"
    using signDNSSECRRSet_sig[OF assms(3)] by blast
  then show ?thesis using that[of key sig] key by (auto simp: sign_group_def rr signer_of_def split: if_splits)
qed

abbreviation signature_rr :: "RR \<Rightarrow> bool" where
  "signature_rr rr \<equiv> hdr_Rrtype (rr_Header rr) = TypeRRSIG"

lemma signRRsets_complete:
  fixes rrs
  assumes "sign_keeps env" "k0 \<in> set keys" "rt_role k0 \<in> {''zsk'', ''ksk''}" "representable now zone"
  defines "sigs \<equiv> signRRsets env now rrs zone (zsk_of keys) (ksk_of keys)"
  shows "length sigs \<le> card (rrset_keys env rrs)"
    "\<forall>s \<in> set sigs. signature_rr s"
    "k \<in> rrset_keys env rrs \<Longrightarrow> \<exists>key sig. right_key keys (hd (rrset_of env rrs k)) key \<and> sig_for env now zone key (hd (rrset_of env rrs k)) sig
      \<and> (case SignRRset env (rt_privateKey key) sig (rrset_of env rrs k) of None \<Rightarrow> True
         | Some s \<Rightarrow> RR_RRSIG s \<in> set sigs \<and> sig_for env now zone key (hd (rrset_of env rrs k)) s)"
proof -
  have kept: "sig_for env now zone key rr s" if "SignRRset env p sig rs = Some s" "sig_for env now zone key rr sig" for p sig rs s key rr
    using assms(1) that unfolding sign_keeps_def by (metis sig_for_kept)
  note out = sign_group_outcome[OF assms(2-4), of _ env rrs]
  have "length sigs \<le> length (sorted_list_of_set (rrset_keys env rrs))" unfolding sigs_def signRRsets_eq by (rule length_map_filter_le)
  then show "length sigs \<le> card (rrset_keys env rrs)" by simp
  show "\<forall>s \<in> set sigs. signature_rr s"
  proof
    fix s assume "s \<in> set sigs"
    then obtain k where k: "k \<in> rrset_keys env rrs" "sign_group env now zone (zsk_of keys) (ksk_of keys) (rrset_of env rrs k) = Some s"
      by (auto simp: sigs_def signRRsets_eq in_map_filter)
    obtain key sig where o: "sig_for env now zone key (hd (rrset_of env rrs k)) sig"
      "sign_group env now zone (zsk_of keys) (ksk_of keys) (rrset_of env rrs k)
        = map_option RR_RRSIG (SignRRset env (rt_privateKey key) sig (rrset_of env rrs k))" using out[OF k(1)] by blast
    then obtain s' where "s = RR_RRSIG s'" "SignRRset env (rt_privateKey key) sig (rrset_of env rrs k) = Some s'"
      using k(2) unfolding o(2) map_option_eq_Some by blast
    then show "signature_rr s" using kept[OF _ o(1)] by (simp add: sig_for_def)
  qed
  assume k: "k \<in> rrset_keys env rrs"
  obtain key sig where o: "right_key keys (hd (rrset_of env rrs k)) key" "sig_for env now zone key (hd (rrset_of env rrs k)) sig"
    "sign_group env now zone (zsk_of keys) (ksk_of keys) (rrset_of env rrs k)
      = map_option RR_RRSIG (SignRRset env (rt_privateKey key) sig (rrset_of env rrs k))" using out[OF k] by blast
  have "RR_RRSIG s \<in> set sigs \<and> sig_for env now zone key (hd (rrset_of env rrs k)) s"
    if "SignRRset env (rt_privateKey key) sig (rrset_of env rrs k) = Some s" for s
    using that o(3) k kept[OF that o(2)] by (auto simp: sigs_def signRRsets_eq in_map_filter)
  then show "\<exists>key sig. right_key keys (hd (rrset_of env rrs k)) key \<and> sig_for env now zone key (hd (rrset_of env rrs k)) sig
      \<and> (case SignRRset env (rt_privateKey key) sig (rrset_of env rrs k) of None \<Rightarrow> True
         | Some s \<Rightarrow> RR_RRSIG s \<in> set sigs \<and> sig_for env now zone key (hd (rrset_of env rrs k)) s)"
    using o(1,2) by (intro exI[of _ key] exI[of _ sig]) (simp split: option.splits)
qed

section \<open>The next name\<close>

text \<open>Between \<open>a\<close> and \<open>b\<close> in the cyclic order of texts.\<close>

definition in_gap :: "string \<Rightarrow> string \<Rightarrow> string \<Rightarrow> bool" where
  "in_gap a b x \<longleftrightarrow> (if a < b then a < x \<and> x < b else a < x \<or> x < b)"

lemma next_in_gap:
  assumes "sorted names" "distinct names" "names \<noteq> []"
  shows "next_in names name \<in> set names \<and> (\<forall>x \<in> set names. \<not> in_gap name (next_in names name) x)"
proof -
  define n where "n = Search (length names) (\<lambda>i. \<not> names ! i < name)"
  have mono: "x \<le> y \<Longrightarrow> y < length names \<Longrightarrow> \<not> names ! x < name \<Longrightarrow> \<not> names ! y < name" for x y
    using sorted_nth_mono[OF assms(1), of x y] le_less_trans[of "names ! x" "names ! y" name] by auto
  have found: "(\<forall>x < n. \<not> \<not> names ! x < name) \<and> (\<forall>x. n \<le> x \<longrightarrow> x < length names \<longrightarrow> \<not> names ! x < name)"
    unfolding n_def by (rule Search_monotone) (rule mono)
  have lt: "names ! x < name" if "x < n" for x using conjunct1[OF found, rule_format, OF that] by (simp only: not_not)
  have ge: "name \<le> names ! x" if "n \<le> x" "x < length names" for x
    using conjunct2[OF found, rule_format, OF that] by (simp only: not_less)
  have first: "names ! 0 \<le> x" if "x \<in> set names" for x
    using that sorted_nth_mono[OF assms(1), of 0] by (metis in_set_conv_nth zero_le)
  have zero: "names ! 0 \<in> set names" using assms(3) by simp
  consider (last) "\<forall>x < length names. names ! x \<le> name" "next_in names name = names ! 0"
    | (inner) i where "i < length names" "next_in names name = names ! i" "name < names ! i"
        "\<forall>x < length names. x < i \<longrightarrow> names ! x \<le> name"
  proof (cases "n < length names \<and> names ! n = name")
    case True
    then have up: "\<forall>x < length names. x < n + 1 \<longrightarrow> names ! x \<le> name" using lt by (auto simp: less_Suc_eq intro: less_imp_le)
    show thesis
    proof (cases "n + 1 < length names")
      case t: True
      then have "name < names ! (n + 1)"
        using True ge[of "n + 1"] nth_eq_iff_index_eq[OF assms(2), of n "n + 1"] by (auto simp: le_less)
      then show thesis using inner[of "n + 1"] t True up by (simp add: next_in_def n_def[symmetric] Let_def)
    next
      case f: False
      then have "\<forall>x < length names. names ! x \<le> name" using up by auto
      then show thesis using last f True by (simp add: next_in_def n_def[symmetric] Let_def)
    qed
  next
    case False
    show thesis
    proof (cases "n < length names")
      case t: True
      then have "name < names ! n" using False ge[of n] by auto
      then show thesis using inner[of n] t False lt by (auto simp: next_in_def n_def[symmetric] Let_def intro: less_imp_le)
    next
      case f: False
      then have "\<forall>x < length names. names ! x \<le> name" using lt by (auto intro: less_imp_le)
      then show thesis using last f False by (simp add: next_in_def n_def[symmetric] Let_def)
    qed
  qed
  then show ?thesis
  proof cases
    case last
    then show ?thesis using first zero by (auto simp: in_gap_def in_set_conv_nth not_less)
  next
    case inner
    have "\<not> (name < names ! x \<and> names ! x < names ! i)" if "x < length names" for x
    proof (cases "x < i")
      case True then show ?thesis using inner(4) that by (auto simp: not_less)
    next
      case False then show ?thesis using sorted_nth_mono[OF assms(1), of i x] that by (auto simp: not_less)
    qed
    then show ?thesis using inner by (auto simp: in_gap_def in_set_conv_nth)
  qed
qed


section \<open>The cached part of the index\<close>

definition lookup :: "('k, 'v) gomap option \<Rightarrow> 'k \<Rightarrow> 'v option" where
  "lookup m k = (case m of None \<Rightarrow> None | Some m \<Rightarrow> map_of m k)"

definition dnssec_maps :: "'p snapshotIndex \<Rightarrow> bool" where
  "dnssec_maps ix \<longleftrightarrow> ix_dnssecKeysByZone ix \<noteq> None \<and> ix_sortedNamesByZone ix \<noteq> None \<and> ix_sortedNSEC3HashesByZone ix \<noteq> None"

text \<open>What indexing one zone stores under its identifier, and that it leaves the others alone.\<close>

lemma index_dnssec_zone_self:
  fixes env :: "'p dns_env" and i :: nat
  assumes "dnssec_maps ix" "sec_Enabled (zone_DNSSEC z)"
  defines "ix' \<equiv> index_dnssec_zone env ix (i, z)" and "names \<equiv> sorted_zone_names (ix_namesByZone ix) i"
  shows "lookup (ix_sortedNamesByZone ix') i = Some names"
    "lookup (ix_dnssecKeysByZone ix) i = None \<Longrightarrow>
      lookup (ix_dnssecKeysByZone ix') i = (if loadDNSSECKeys env z = [] then None else Some (loadDNSSECKeys env z))"
    "uses_nsec3 z \<Longrightarrow> lookup (ix_sortedNSEC3HashesByZone ix') i = Some (nsec3_hashes env z names)"
    "\<not> uses_nsec3 z \<Longrightarrow> lookup (ix_sortedNSEC3HashesByZone ix') i = lookup (ix_sortedNSEC3HashesByZone ix) i"
  using assms by (auto simp: dnssec_maps_def index_dnssec_zone_def Let_def lookup_def update_conv' uses_nsec3_def
      dnssecDenialModeNSEC3_def)

lemma index_dnssec_zone_other:
  assumes "fst iz \<noteq> i"
  shows "lookup (ix_sortedNamesByZone (index_dnssec_zone env ix iz)) i = lookup (ix_sortedNamesByZone ix) i"
    "lookup (ix_dnssecKeysByZone (index_dnssec_zone env ix iz)) i = lookup (ix_dnssecKeysByZone ix) i"
    "lookup (ix_sortedNSEC3HashesByZone (index_dnssec_zone env ix iz)) i = lookup (ix_sortedNSEC3HashesByZone ix) i"
  using assms by (cases iz; auto simp: index_dnssec_zone_def Let_def lookup_def update_conv' split: option.splits)+

lemma index_dnssec_zone_keeps:
  "dnssec_maps (index_dnssec_zone env ix iz) = dnssec_maps ix" "ix_namesByZone (index_dnssec_zone env ix iz) = ix_namesByZone ix"
  by (cases iz; auto simp: dnssec_maps_def index_dnssec_zone_def Let_def)+

lemma dnssec_index_unlisted:
  assumes "i \<notin> fst ` set zs"
  shows "lookup (ix_sortedNamesByZone (foldl (index_dnssec_zone env) ix zs)) i = lookup (ix_sortedNamesByZone ix) i"
    "lookup (ix_dnssecKeysByZone (foldl (index_dnssec_zone env) ix zs)) i = lookup (ix_dnssecKeysByZone ix) i"
    "lookup (ix_sortedNSEC3HashesByZone (foldl (index_dnssec_zone env) ix zs)) i = lookup (ix_sortedNSEC3HashesByZone ix) i"
    "dnssec_maps (foldl (index_dnssec_zone env) ix zs) = dnssec_maps ix"
  using assms by (induction zs arbitrary: ix; simp add: index_dnssec_zone_other index_dnssec_zone_keeps)+

lemma dnssec_index_listed:
  fixes env :: "'p dns_env" and i :: nat
  assumes "dnssec_maps ix" "distinct (map fst zs)" "(i, z) \<in> set zs" "sec_Enabled (zone_DNSSEC z)"
    "lookup (ix_dnssecKeysByZone ix) i = None" "lookup (ix_sortedNSEC3HashesByZone ix) i = None"
  defines "ix' \<equiv> foldl (index_dnssec_zone env) ix zs" and "names \<equiv> sorted_zone_names (ix_namesByZone ix) i"
  shows "lookup (ix_sortedNamesByZone ix') i = Some names
    \<and> lookup (ix_dnssecKeysByZone ix') i = (if loadDNSSECKeys env z = [] then None else Some (loadDNSSECKeys env z))
    \<and> lookup (ix_sortedNSEC3HashesByZone ix') i = (if uses_nsec3 z then Some (nsec3_hashes env z names) else None)"
  using assms(1-6) unfolding ix'_def names_def
proof (induction zs arbitrary: ix)
  case (Cons iz zs)
  show ?case
  proof (cases "iz = (i, z)")
    case True
    then have "i \<notin> fst ` set zs" using Cons.prems(2) by auto
    then show ?thesis
      using True Cons.prems index_dnssec_zone_self[where ix = ix and z = z and i = i and env = env] by (simp add: dnssec_index_unlisted)
  next
    case False
    then have ne: "fst iz \<noteq> i" and in_zs: "(i, z) \<in> set zs" using Cons.prems(2,3) by (auto simp: rev_image_eqI)
    show ?thesis
      using Cons.IH[of "index_dnssec_zone env ix iz"] Cons.prems ne in_zs
      by (simp add: index_dnssec_zone_other index_dnssec_zone_keeps)
  qed
qed simp

lemma index_zones_by_id:
  "gm_ok (ix_zonesByID ix) \<Longrightarrow> gm_ok (ix_zonesByID (foldl index_zone ix zs))"
  by (induction zs arbitrary: ix) (simp_all add: index_zone_def)

lemma index_record_dnssec [simp]:
  "ix_dnssecKeysByZone (foldl (index_record zid) ix rs) = ix_dnssecKeysByZone ix"
  "ix_sortedNSEC3HashesByZone (foldl (index_record zid) ix rs) = ix_sortedNSEC3HashesByZone ix"
  by (induction rs arbitrary: ix; simp add: index_record_def)+

lemma index_domain_dnssec [simp]:
  "ix_dnssecKeysByZone (foldl (index_domain p) ix ds) = ix_dnssecKeysByZone ix"
  "ix_sortedNSEC3HashesByZone (foldl (index_domain p) ix ds) = ix_sortedNSEC3HashesByZone ix"
  by (induction ds arbitrary: ix; simp add: index_domain_def index_name_def Let_def)+

lemma index_fold_dnssec [simp]:
  "ix_dnssecKeysByZone (foldl index_zone ix zs) = ix_dnssecKeysByZone ix"
  "ix_sortedNSEC3HashesByZone (foldl index_zone ix zs) = ix_sortedNSEC3HashesByZone ix"
  "ix_dnssecKeysByZone (foldl index_route ix ps) = ix_dnssecKeysByZone ix"
  "ix_sortedNSEC3HashesByZone (foldl index_route ix ps) = ix_sortedNSEC3HashesByZone ix"
proof -
  show "ix_dnssecKeysByZone (foldl index_zone ix zs) = ix_dnssecKeysByZone ix"
    "ix_sortedNSEC3HashesByZone (foldl index_zone ix zs) = ix_sortedNSEC3HashesByZone ix"
    by (induction zs arbitrary: ix; simp add: index_zone_def)+
  show "ix_dnssecKeysByZone (foldl index_route ix ps) = ix_dnssecKeysByZone ix"
    "ix_sortedNSEC3HashesByZone (foldl index_route ix ps) = ix_sortedNSEC3HashesByZone ix"
    by (induction ps arbitrary: ix; simp add: index_route_def)+
qed

lemma empty_index_dnssec [simp]:
  "ix_dnssecKeysByZone empty_index = Some []" "ix_sortedNamesByZone empty_index = Some []"
  "ix_sortedNSEC3HashesByZone empty_index = Some []"
  by (simp_all add: empty_index_def)

lemma built_index_dnssec:
  fixes env :: "'p dns_env"
  assumes "map_of (ix_zonesByID (buildSnapshotIndex env (Some sp))) (zone_ID z) = Some z" "sec_Enabled (zone_DNSSEC z)"
  defines "ix \<equiv> buildSnapshotIndex env (Some sp)"
  defines "names \<equiv> sorted_zone_names (ix_namesByZone ix) (zone_ID z)"
  shows "lookup (ix_sortedNamesByZone ix) (zone_ID z) = Some names
    \<and> lookup (ix_dnssecKeysByZone ix) (zone_ID z) = (if loadDNSSECKeys env z = [] then None else Some (loadDNSSECKeys env z))
    \<and> lookup (ix_sortedNSEC3HashesByZone ix) (zone_ID z) = (if uses_nsec3 z then Some (nsec3_hashes env z names) else None)
    \<and> dnssec_maps ix"
proof -
  define base :: "'p snapshotIndex" where "base = foldl index_route (foldl index_zone empty_index (snap_Zones (snd sp))) (route_ptrs sp)"
  have ix: "ix = foldl (index_dnssec_zone env) base (ix_zonesByID base)"
    by (simp add: ix_def base_def buildSnapshotIndex_def buildSnapshotDNSSECIndex_def)
  have maps: "dnssec_maps base" "lookup (ix_dnssecKeysByZone base) i = None" "lookup (ix_sortedNSEC3HashesByZone base) i = None" for i
    by (simp_all add: dnssec_maps_def base_def lookup_def)
  have "gm_ok (ix_zonesByID base)" by (simp add: base_def index_zones_by_id)
  then have ok: "distinct (map fst (ix_zonesByID base))" by (simp add: gm_ok_def gm_keys_def)
  have "ix_zonesByID ix = ix_zonesByID base" "ix_namesByZone ix = ix_namesByZone base"
    using dnssec_index_zonesByID[of env base] dnssec_index_other(6)[of env base] by (simp_all add: ix buildSnapshotDNSSECIndex_def)
  then have "(zone_ID z, z) \<in> set (ix_zonesByID base)" "names = sorted_zone_names (ix_namesByZone base) (zone_ID z)"
    using assms(1) by (auto simp: names_def ix_def[symmetric] dest: map_of_SomeD)
  moreover have "dnssec_maps ix"
  proof -
    have "dnssec_maps (foldl (index_dnssec_zone env) i zs) = dnssec_maps i" for i zs
      by (induction zs arbitrary: i) (simp_all add: index_dnssec_zone_keeps)
    then show ?thesis using maps by (simp add: ix)
  qed
  ultimately show ?thesis
    using dnssec_index_listed[OF maps(1) ok _ assms(2) maps(2,3), where env = env] by (simp add: ix)
qed

section \<open>The names of a zone\<close>

lemma distinct_names_insert:
  "(\<And>k. distinct (gm_list m k)) \<Longrightarrow> distinct (gm_list (gm_insert k v m) k')"
  by (simp add: gm_insert_def gm_list_def update_conv' distinct_insert split: option.splits)

lemma index_records_distinct:
  "(\<And>k. distinct (gm_list (ix_namesByZone ix) k)) \<Longrightarrow> distinct (gm_list (ix_namesByZone (foldl (index_record zid) ix rs)) k)"
proof (induction rs arbitrary: ix)
  case (Cons r rs)
  then show ?case by (simp add: index_record_def distinct_names_insert)
qed simp

lemma index_zones_distinct:
  "(\<And>k. distinct (gm_list (ix_namesByZone ix) k)) \<Longrightarrow> distinct (gm_list (ix_namesByZone (foldl index_zone ix zs)) k)"
proof (induction zs arbitrary: ix)
  case (Cons z zs)
  have "distinct (gm_list (ix_namesByZone (index_zone ix z)) k)" for k
    unfolding index_zone_def
    by (rule index_records_distinct) (use Cons.prems in \<open>auto simp: gm_list_def update_conv' split: option.splits\<close>)
  then show ?case using Cons.IH by simp
qed simp

lemma index_domains_distinct:
  "(\<And>k. distinct (gm_list (ix_namesByZone ix) k)) \<Longrightarrow> distinct (gm_list (ix_namesByZone (foldl (index_domain p) ix ds)) k)"
proof (induction ds arbitrary: ix)
  case (Cons d ds)
  have "distinct (gm_list (ix_namesByZone (index_domain p ix d)) k)" for k
    using Cons.prems by (simp add: index_domain_def index_name_def Let_def distinct_names_insert)
  then show ?case using Cons.IH by simp
qed simp

lemma index_routes_distinct:
  "(\<And>k. distinct (gm_list (ix_namesByZone ix) k)) \<Longrightarrow> distinct (gm_list (ix_namesByZone (foldl index_route ix ps)) k)"
proof (induction ps arbitrary: ix)
  case (Cons p ps)
  have "distinct (gm_list (ix_namesByZone (index_route ix p)) k)" for k
    unfolding index_route_def by (rule index_domains_distinct) (use Cons.prems in simp)
  then show ?case using Cons.IH by simp
qed simp

lemma distinct_zone_names: "distinct (gm_list (ix_namesByZone (buildSnapshotIndex env (Some sp))) k)"
  by (simp add: buildSnapshotIndex_def index_routes_distinct index_zones_distinct)


section \<open>Properties\<close>

definition hash_of :: "'p dns_env \<Rightarrow> SnapshotZone \<Rightarrow> string \<Rightarrow> string" where
  "hash_of env z name = HashName env (dnsName name) (nsec3_iterations z) (nsec3_salt z)"

lemma nsec3_hashes_eq: "nsec3_hashes env z names = sort (map (hash_of env z) names)"
  by (simp add: nsec3_hashes_def hash_of_def[abs_def] nsec3_iterations_def nsec3_salt_def)

lemma runtime_keys_lookup:
  "dnssec_maps ix \<Longrightarrow> dnssecRuntimeKeysForZone env z ix =
    (case lookup (ix_dnssecKeysByZone ix) (zone_ID z) of None \<Rightarrow> [] | Some ks \<Rightarrow> ks)"
  by (auto simp: dnssecRuntimeKeysForZone_def dnssec_maps_def lookup_def gm_list_def)

lemma sorted_names_lookup:
  "dnssecSortedNamesForZone z ix =
    (case lookup (ix_sortedNamesByZone ix) (zone_ID z) of Some names \<Rightarrow> names
     | None \<Rightarrow> sorted_zone_names (ix_namesByZone ix) (zone_ID z))"
  by (simp add: dnssecSortedNamesForZone_def lookup_def)

lemma sorted_hashes_lookup:
  "dnssecSortedNSEC3HashesForZone env z ix (nsec3_iterations z) (nsec3_salt z) =
    (case lookup (ix_sortedNSEC3HashesByZone ix) (zone_ID z) of Some hs \<Rightarrow> hs
     | None \<Rightarrow> nsec3_hashes env z (dnssecSortedNamesForZone z ix))"
proof -
  have "nsec3_hashes env z names = sort (map (\<lambda>item. HashName env (dnsName item) (nsec3_iterations z) (nsec3_salt z)) names)" for names
    by (simp add: nsec3_hashes_eq hash_of_def[abs_def])
  then show ?thesis by (simp add: dnssecSortedNSEC3HashesForZone_def lookup_def split: option.split)
qed

lemma cached_keys:
  fixes env :: "'p dns_env"
  assumes "map_of (ix_zonesByID (buildSnapshotIndex env (Some sp))) (zone_ID z) = Some z" "sec_Enabled (zone_DNSSEC z)"
  shows "dnssecRuntimeKeysForZone env z (buildSnapshotIndex env (Some sp)) = loadDNSSECKeys env z"
  using built_index_dnssec[OF assms] by (simp add: runtime_keys_lookup split: if_splits)

lemma cached_names:
  fixes env :: "'p dns_env"
  assumes "map_of (ix_zonesByID (buildSnapshotIndex env (Some sp))) (zone_ID z) = Some z" "sec_Enabled (zone_DNSSEC z)"
  defines "ix \<equiv> buildSnapshotIndex env (Some sp)"
  shows "dnssecSortedNamesForZone z ix = sorted_zone_names (ix_namesByZone ix) (zone_ID z)"
    "dnssecSortedNSEC3HashesForZone env z ix (nsec3_iterations z) (nsec3_salt z) =
      sort (map (hash_of env z) (sorted_zone_names (ix_namesByZone ix) (zone_ID z)))"
  using built_index_dnssec[OF assms(1,2)]
  by (simp_all add: ix_def sorted_names_lookup sorted_hashes_lookup nsec3_hashes_eq split: if_splits)

text \<open>C30: What the index caches for signing is what signing would compute: for a zone that the index holds under its
  identifier and that is signed, the keys are the usable keys of the zone, the names are the sorted names
  of the zone without repetition, and the hashes are the sorted hashes of these names.\<close>

theorem dnssec_caches_coherent:
  fixes env :: "'p dns_env"
  assumes "map_of (ix_zonesByID (buildSnapshotIndex env (Some sp))) (zone_ID z) = Some z" "sec_Enabled (zone_DNSSEC z)"
  defines "ix \<equiv> buildSnapshotIndex env (Some sp)"
  defines "names \<equiv> set (gm_list (ix_namesByZone ix) (zone_ID z)) - {''''}"
  shows "dnssecRuntimeKeysForZone env z ix = loadDNSSECKeys env z
    \<and> dnssecSortedNamesForZone z ix = sorted_list_of_set names
    \<and> dnssecSortedNSEC3HashesForZone env z ix (nsec3_iterations z) (nsec3_salt z) =
        sort (map (hash_of env z) (sorted_list_of_set names))"
proof -
  let ?l = "filter (\<lambda>n. n \<noteq> []) (gm_list (ix_namesByZone ix) (zone_ID z))"
  have d: "distinct ?l" "set ?l = names" by (auto simp: ix_def distinct_zone_names names_def)
  have "sort ?l = sorted_list_of_set names" using d by (metis sorted_list_of_set_sort_remdups distinct_remdups_id)
  then show ?thesis
    using cached_keys[OF assms(1,2)] cached_names[OF assms(1,2)] d
    by (simp add: ix_def[symmetric] sorted_zone_names_def)
qed

definition signed_zone :: SnapshotZone where
  "signed_zone = zero_SnapshotZone\<lparr>zone_ID := 7, zone_Name := ''b.c'',
    zone_DNSSEC := zero_SnapshotDNSSECPolicy\<lparr>sec_Enabled := True\<rparr>,
    zone_DNSSECKeys := [\<lparr>key_ID = 2, key_Role = ''zsk'', key_Flags = 256, key_Algorithm = 13, key_PublicKey = ''pub'',
      key_EncryptedPrivateKey = ''enc'', key_KeyTag = 9, key_Status = ''active''\<rparr>]\<rparr>"

definition signed_snapshot :: Snapshot where
  "signed_snapshot = zero_Snapshot\<lparr>snap_Zones := [signed_zone]\<rparr>"

definition signing_env :: "unit dns_env" where
  "signing_env = plain_env\<lparr>DecryptKey := (\<lambda>_ _. Some ()), KeyTag := (\<lambda>_. 9), SignRRset := (\<lambda>_ sig _. Some sig)\<rparr>"

definition signed_index :: "unit snapshotIndex" where
  "signed_index = buildSnapshotIndex signing_env (Some (2, signed_snapshot))"

lemma signed_zone_indexed:
  "map_of (ix_zonesByID (buildSnapshotIndex signing_env (Some (2, signed_snapshot)))) (zone_ID signed_zone) = Some signed_zone"
  "sec_Enabled (zone_DNSSEC signed_zone)"
  by (simp_all add: buildSnapshotIndex_def signed_snapshot_def route_ptrs_def zero_Snapshot_def index_zone_def signed_zone_def)

theorem dnssec_caches_coherent_witness:
  "dnssecRuntimeKeysForZone signing_env signed_zone signed_index = loadDNSSECKeys signing_env signed_zone"
  using dnssec_caches_coherent[OF signed_zone_indexed] by (simp add: signed_index_def)

text \<open>An NSEC3 record denies no name of the zone: among the hashes of the names of a signed zone, no one lies strictly
  between the hash in the owner of an NSEC3 record that the worker makes and the next hash in it, going around from the last
  hash to the first; and the next hash is that of a name of the zone. The order is that of the texts of hashes, which for
  hashes in base 32 with the extended alphabet is the order of NSEC3. This needs that the hash function does not map two names of
  the zone to one hash: after a collision a record could deny everything.\<close>

theorem nsec3_denies_no_name:
  fixes env :: "'p dns_env"
  assumes "map_of (ix_zonesByID (buildSnapshotIndex env (Some sp))) (zone_ID z) = Some z" "sec_Enabled (zone_DNSSEC z)"
  defines "ix \<equiv> buildSnapshotIndex env (Some sp)"
  defines "names \<equiv> set (gm_list (ix_namesByZone ix) (zone_ID z)) - {''''}"
  assumes "x \<in> names" "inj_on (hash_of env z) names"
  shows "\<exists>n3. dnssecNSEC3ForName env z qname ix = RR_NSEC3 n3
      \<and> hdr_Name (n3_Hdr n3) = ToLower (hash_of env z (denied_name z qname)) @ ''.'' @ dnsName (zone_Name z)
      \<and> n3_NextDomain n3 \<in> hash_of env z ` names
      \<and> \<not> in_gap (hash_of env z (denied_name z qname)) (n3_NextDomain n3) (hash_of env z x)"
proof -
  let ?names = "sorted_zone_names (ix_namesByZone ix) (zone_ID z)"
  let ?hashes = "sort (map (hash_of env z) ?names)"
  note cached = cached_names[OF assms(1,2), folded ix_def]
  have set: "set ?names = names" by (auto simp: sorted_zone_names_def names_def)
  have d: "distinct ?names" by (simp add: sorted_zone_names_def ix_def distinct_zone_names)
  have ne: "?names \<noteq> []" using assms(5) set by (metis empty_iff empty_set)
  have dh: "sorted ?hashes" "distinct ?hashes" using d assms(6) set by (simp_all add: distinct_map)
  have nh: "?hashes \<noteq> []" using ne by (metis set_empty set_sort map_is_Nil_conv)
  have "dnssecNextNSEC3Hash env z a ix (nsec3_iterations z) (nsec3_salt z) = next_in ?hashes (hash_of env z a)" for a
    using nh by (simp add: dnssecNextNSEC3Hash_def cached hash_of_def[symmetric] Let_def)
  moreover have "next_in ?hashes (hash_of env z a) \<in> hash_of env z ` names
      \<and> \<not> in_gap (hash_of env z a) (next_in ?hashes (hash_of env z a)) (hash_of env z x)" for a
    using next_in_gap[OF dh nh, of "hash_of env z a"] assms(5) set by auto
  ultimately show ?thesis by (simp add: dnssecNSEC3ForName_def Let_def hash_of_def[symmetric])
qed

text \<open>A zone with two names, hashed to texts whose order is not that of the names.\<close>

definition denying_zone :: SnapshotZone where
  "denying_zone = signed_zone\<lparr>zone_Records := [\<lparr>rec_ID = 1, rec_Name = ''w.b.c'', rec_Type = ''A'', rec_Value = ''8.8.8.8'', rec_TTL = 60, rec_Priority = 0\<rparr>]\<rparr>"

definition hashing_env :: "unit dns_env" where
  "hashing_env = signing_env\<lparr>HashName := (\<lambda>n _ _. if n = ''b.c.'' then ''T0'' else if n = ''w.b.c.'' then ''30'' else ''G0'')\<rparr>"

definition denying_index :: "unit snapshotIndex" where
  "denying_index = buildSnapshotIndex hashing_env (Some (2, zero_Snapshot\<lparr>snap_Zones := [denying_zone]\<rparr>))"

theorem nsec3_denies_no_name_witness:
  "\<exists>n3. dnssecNSEC3ForName hashing_env denying_zone ''a.b.c'' denying_index = RR_NSEC3 n3
    \<and> \<not> in_gap ''G0'' (n3_NextDomain n3) ''T0''"
proof -
  have i: "map_of (ix_zonesByID (buildSnapshotIndex hashing_env (Some (2, zero_Snapshot\<lparr>snap_Zones := [denying_zone]\<rparr>)))) (zone_ID denying_zone) = Some denying_zone"
    "sec_Enabled (zone_DNSSEC denying_zone)"
    by (simp_all add: index_zone_by_id denying_zone_def signed_zone_def)
  have n: "set (gm_list (ix_namesByZone denying_index) (zone_ID denying_zone)) = {''b.c'', ''w.b.c''}" unfolding denying_index_def by code_simp
  have h: "hash_of hashing_env denying_zone ''b.c'' = ''T0''" "hash_of hashing_env denying_zone ''w.b.c'' = ''30''"
    "hash_of hashing_env denying_zone (denied_name denying_zone ''a.b.c'') = ''G0''" by code_simp+
  from nsec3_denies_no_name[OF i, of "''b.c''" "''a.b.c''", folded denying_index_def] show ?thesis
    unfolding n using h by (auto simp: inj_on_def)
qed


definition signed_query :: Msg where
  "signed_query = zero_Msg\<lparr>msg_Question := [\<lparr>q_Name = ''b.c'', q_Qtype = TypeSOA\<rparr>],
    msg_Edns0 := Some \<lparr>opt_UDPSize = 1232, opt_Do = True, opt_Option = []\<rparr>\<rparr>"

definition soa_response :: Msg where
  "soa_response = zero_Msg\<lparr>msg_Answer := [soaRecord signed_zone]\<rparr>"

definition some_time :: gotime where "some_time = (62135596800 + 1000000000) * Second"

lemma signing_env_keeps: "sign_keeps signing_env"
proof -
  have "\<exists>labels signature. sig = sig\<lparr>sig_Labels := labels, sig_Signature := signature\<rparr>" for sig :: RRSIG_RR
    by (intro exI[of _ "sig_Labels sig"] exI[of _ "sig_Signature sig"]) simp
  then show ?thesis by (simp add: sign_keeps_def signing_env_def)
qed


text \<open>The NSEC record of a name that does not exist is owned by that name and lists types it would have.\<close>

lemma nsec_claims_denied_name:
  "normalizeDomain qname \<noteq> '''' \<Longrightarrow> HasSuffix (normalizeDomain qname) (zone_Name z) \<Longrightarrow>
    \<exists>next types. dnssecNSECForName z qname ix = RR_NSEC (header (normalizeDomain qname) TypeNSEC (zone_ttl z)) next types
      \<and> TypeA \<in> set types \<and> TypeAAAA \<in> set types"
  by (simp add: dnssecNSECForName_def denied_name_def Let_def)

end
