(* ===== verification/Rollup.thy ===== *)
theory Rollup
  imports Normalize Go_Sort "HOL-Library.Product_Lexorder"
begin

text \<open>
  The query statistics of the DNS worker (\<open>rollup.go\<close>, \<open>QueryRollupPayload\<close> of \<open>client.go\<close>): queries are counted in
  buckets per window, zone, route, source and name; the runner drains the buckets into payloads, sends
  them, and restores them when sending failed. A Go map is an association list whose order stands for
  an iteration order; counters are unbounded integers (an \<open>int64\<close> counter of queries cannot overflow).

  Shown: no query is lost or counted twice by any sequence of recording, draining and restoring; the
  number of ordinary buckets and of targets per bucket is bounded; the summary of targets keeps the
  largest counts.
\<close>

section \<open>Data\<close>

definition DefaultRollupMaxBuckets :: int where "DefaultRollupMaxBuckets = 4096"
definition DefaultRollupMaxTargetSummary :: int where "DefaultRollupMaxTargetSummary = 64"
definition rollupOverflowQName :: string where "rollupOverflowQName = ''_overflow''"

record rollupKey =
  rkey_WindowStart :: gotime
  rkey_ZoneID :: nat
  rkey_ProxyRouteID :: nat
  rkey_SourceScope :: string
  rkey_SourceCountry :: string
  rkey_SourceASN :: nat
  rkey_SourceOperator :: string
  rkey_QName :: string
  rkey_QType :: string
  rkey_RCode :: string

type_synonym target_counts = "(string, int) gomap"

record rollupBucket =
  bkt_count :: int
  bkt_totalDurationMs :: int
  bkt_maxDurationMs :: int
  bkt_targets :: target_counts

record RollupAggregator =
  ra_window :: duration
  ra_maxBuckets :: int
  ra_buckets :: "(rollupKey, rollupBucket) gomap"

record QueryRollupPayload =
  qp_WindowStart :: gotime
  qp_WindowMinutes :: int
  qp_ZoneID :: nat
  qp_ProxyRouteID :: nat
  qp_SourceScope :: string
  qp_SourceCountry :: string
  qp_SourceASN :: nat
  qp_SourceOperator :: string
  qp_QName :: string
  qp_QType :: string
  qp_RCode :: string
  qp_QueryCount :: int
  qp_TotalDurationMs :: int
  qp_MaxDurationMs :: int
  qp_TargetSummary :: target_counts

definition NewRollupAggregator :: "duration \<Rightarrow> RollupAggregator" where
  "NewRollupAggregator window =
    \<lparr>ra_window = (if window \<le> 0 then Minute else window), ra_maxBuckets = DefaultRollupMaxBuckets, ra_buckets = []\<rparr>"

section \<open>Keys\<close>

definition overflowRollupKey :: "rollupKey \<Rightarrow> rollupKey" where
  "overflowRollupKey key =
    \<lparr>rkey_WindowStart = rkey_WindowStart key, rkey_ZoneID = 0, rkey_ProxyRouteID = 0, rkey_SourceScope = ''global'',
     rkey_SourceCountry = '''', rkey_SourceASN = 0, rkey_SourceOperator = '''', rkey_QName = rollupOverflowQName,
     rkey_QType = ''ANY'', rkey_RCode = rkey_RCode key\<rparr>"

definition getSourceScopeBase :: "string \<Rightarrow> string" where
  "getSourceScopeBase sourceScope = fst (Cut (normalizeSourceScope sourceScope) CHR ''|'')"

text \<open>\<open>base[strings.Index(base, ":")+1:]\<close>, for a base with a colon.\<close>

definition after_colon :: "string \<Rightarrow> string" where
  "after_colon base = fst (snd (Cut base CHR '':''))"

definition rollupSourceDimensions :: "SourceContext \<Rightarrow> string \<Rightarrow> string \<times> nat \<times> string" where
  "rollupSourceDimensions source sourceScope =
    (let country = normalizeSourceCountry (src_Country source); asn = src_ASN source;
         operator = normalizeOperator (src_Operator source);
         base = getSourceScopeBase sourceScope; lower = ToLower base
     in (if country = '''' \<and> HasPrefix lower ''country:'' then normalizeSourceCountry (after_colon base) else country,
         if asn = 0 \<and> HasPrefix lower ''asn:'' then
           (case ParseUint 32 (TrimPrefix (ToUpper (TrimSpace (after_colon base))) ''AS'') of None \<Rightarrow> asn | Some n \<Rightarrow> n)
         else asn,
         if operator = '''' \<and> HasPrefix lower ''operator:'' then normalizeOperator (after_colon base) else operator))"

definition default_qtype :: "string \<Rightarrow> string" where
  "default_qtype qtype = (let t = ToUpper (TrimSpace qtype) in if t = '''' then ''A'' else t)"

definition record_key ::
  "duration \<Rightarrow> gotime \<Rightarrow> nat \<Rightarrow> nat \<Rightarrow> SourceContext \<Rightarrow> string \<Rightarrow> string \<Rightarrow> string \<Rightarrow> rollupKey" where
  "record_key window now zoneID routeID source qname qtype rcode =
    (let scope = TrimSpace (src_ScopeKey source);
         sourceScope = (if scope = '''' then sourceScopeKey source else scope);
         dims = rollupSourceDimensions source sourceScope
     in \<lparr>rkey_WindowStart = Truncate now window, rkey_ZoneID = zoneID, rkey_ProxyRouteID = routeID,
         rkey_SourceScope = normalizeSourceScope sourceScope, rkey_SourceCountry = fst dims,
         rkey_SourceASN = fst (snd dims), rkey_SourceOperator = snd (snd dims), rkey_QName = normalizeDomain qname,
         rkey_QType = default_qtype qtype, rkey_RCode = normalizeRCode rcode\<rparr>)"

section \<open>Buckets\<close>

definition empty_bucket :: rollupBucket where
  "empty_bucket = \<lparr>bkt_count = 0, bkt_totalDurationMs = 0, bkt_maxDurationMs = 0, bkt_targets = []\<rparr>"

text \<open>The key that is used: the key itself, or the overflow key when it is new and the map is full.\<close>

definition effective_key :: "RollupAggregator \<Rightarrow> rollupKey \<Rightarrow> rollupKey" where
  "effective_key a key =
    (if map_of (ra_buckets a) key = None \<and> ra_maxBuckets a > 0 \<and> int (length (ra_buckets a)) \<ge> ra_maxBuckets a
     then overflowRollupKey key else key)"

definition bucket_at :: "RollupAggregator \<Rightarrow> rollupKey \<Rightarrow> rollupBucket" where
  "bucket_at a key = (case map_of (ra_buckets a) key of None \<Rightarrow> empty_bucket | Some b \<Rightarrow> b)"

definition update_bucket :: "(rollupBucket \<Rightarrow> rollupBucket) \<Rightarrow> rollupKey \<Rightarrow> RollupAggregator \<Rightarrow> RollupAggregator" where
  "update_bucket f key a =
    (let key = effective_key a key in a\<lparr>ra_buckets := AList.update key (f (bucket_at a key)) (ra_buckets a)\<rparr>)"

text \<open>One target of a bucket: skipped when empty, or new in a full summary.\<close>

definition add_target_count :: "string \<Rightarrow> int \<Rightarrow> target_counts \<Rightarrow> target_counts" where
  "add_target_count raw n targets =
    (let target = TrimSpace raw
     in if target = '''' then targets
        else
          (case map_of targets target of
             None \<Rightarrow> if int (length targets) \<ge> DefaultRollupMaxTargetSummary then targets else AList.update target n targets
           | Some m \<Rightarrow> AList.update target (m + n) targets))"

definition Milliseconds :: "duration \<Rightarrow> int" where
  "Milliseconds d = (if d < 0 then - ((- d) div 1000000) else d div 1000000)"

definition record_in :: "string list \<Rightarrow> duration \<Rightarrow> rollupBucket \<Rightarrow> rollupBucket" where
  "record_in targets d b =
    (let durationMs = (if Milliseconds d < 0 then 0 else Milliseconds d)
     in b\<lparr>bkt_count := bkt_count b + 1, bkt_totalDurationMs := bkt_totalDurationMs b + durationMs,
          bkt_maxDurationMs := (if durationMs > bkt_maxDurationMs b then durationMs else bkt_maxDurationMs b),
          bkt_targets := foldl (\<lambda>ts t. add_target_count t 1 ts) (bkt_targets b) targets\<rparr>)"

definition RecordWithSource ::
  "gotime \<Rightarrow> nat \<Rightarrow> nat \<Rightarrow> SourceContext \<Rightarrow> string \<Rightarrow> string \<Rightarrow> string \<Rightarrow> string list \<Rightarrow> duration
    \<Rightarrow> RollupAggregator \<Rightarrow> RollupAggregator" where
  "RecordWithSource now zoneID routeID source qname qtype rcode targets d a =
    update_bucket (record_in targets d) (record_key (ra_window a) now zoneID routeID source qname qtype rcode) a"

definition Record ::
  "gotime \<Rightarrow> nat \<Rightarrow> nat \<Rightarrow> string \<Rightarrow> string \<Rightarrow> string \<Rightarrow> string \<Rightarrow> string list \<Rightarrow> duration
    \<Rightarrow> RollupAggregator \<Rightarrow> RollupAggregator" where
  "Record now zoneID routeID sourceScope qname qtype rcode targets d a =
    RecordWithSource now zoneID routeID (zero_SourceContext\<lparr>src_ScopeKey := sourceScope\<rparr>) qname qtype rcode targets d a"

section \<open>Summaries, draining and restoring\<close>

definition target_item :: "string \<times> int \<Rightarrow> (string \<times> int) option" where
  "target_item = (\<lambda>(raw, n). let target = TrimSpace raw in if target = '''' \<or> n \<le> 0 then None else Some (target, n))"

definition target_less :: "string \<times> int \<Rightarrow> string \<times> int \<Rightarrow> bool" where
  "target_less x y = (if snd x = snd y then fst x < fst y else snd x > snd y)"

definition sum_targets :: "(string \<times> int) list \<Rightarrow> target_counts" where
  "sum_targets items = foldl (\<lambda>m (t, n). AList.update t ((case map_of m t of None \<Rightarrow> 0 | Some k \<Rightarrow> k) + n) m) [] items"

definition topRollupTargets :: "target_counts \<Rightarrow> int \<Rightarrow> target_counts" where
  "topRollupTargets values limit =
    (if length values = 0 then []
     else
       (let items = SliceStable target_less (List.map_filter target_item values)
        in sum_targets (if limit > 0 \<and> int (length items) > limit then take (nat limit) items else items)))"

definition payload_of :: "duration \<Rightarrow> rollupKey \<times> rollupBucket \<Rightarrow> QueryRollupPayload" where
  "payload_of window = (\<lambda>(key, b).
    \<lparr>qp_WindowStart = rkey_WindowStart key, qp_WindowMinutes = window div Minute, qp_ZoneID = rkey_ZoneID key,
     qp_ProxyRouteID = rkey_ProxyRouteID key, qp_SourceScope = rkey_SourceScope key,
     qp_SourceCountry = rkey_SourceCountry key, qp_SourceASN = rkey_SourceASN key,
     qp_SourceOperator = rkey_SourceOperator key, qp_QName = rkey_QName key, qp_QType = rkey_QType key,
     qp_RCode = rkey_RCode key, qp_QueryCount = bkt_count b, qp_TotalDurationMs = bkt_totalDurationMs b,
     qp_MaxDurationMs = bkt_maxDurationMs b,
     qp_TargetSummary = topRollupTargets (bkt_targets b) DefaultRollupMaxTargetSummary\<rparr>)"

definition Drain :: "RollupAggregator \<Rightarrow> QueryRollupPayload list \<times> RollupAggregator" where
  "Drain a =
    (map (payload_of (ra_window a)) (filter (\<lambda>(key, b). \<not> bkt_count b \<le> 0) (ra_buckets a)), a\<lparr>ra_buckets := []\<rparr>)"

definition restore_key :: "duration \<Rightarrow> gotime \<Rightarrow> QueryRollupPayload \<Rightarrow> rollupKey" where
  "restore_key window now p =
    \<lparr>rkey_WindowStart = (if qp_WindowStart p = 0 then Truncate now window else qp_WindowStart p),
     rkey_ZoneID = qp_ZoneID p, rkey_ProxyRouteID = qp_ProxyRouteID p,
     rkey_SourceScope = normalizeSourceScope (qp_SourceScope p),
     rkey_SourceCountry = normalizeSourceCountry (qp_SourceCountry p), rkey_SourceASN = qp_SourceASN p,
     rkey_SourceOperator = normalizeOperator (qp_SourceOperator p), rkey_QName = normalizeDomain (qp_QName p),
     rkey_QType = default_qtype (qp_QType p), rkey_RCode = normalizeRCode (qp_RCode p)\<rparr>"

definition restore_in :: "QueryRollupPayload \<Rightarrow> rollupBucket \<Rightarrow> rollupBucket" where
  "restore_in p b =
    b\<lparr>bkt_count := bkt_count b + qp_QueryCount p,
      bkt_totalDurationMs := (if qp_TotalDurationMs p > 0 then bkt_totalDurationMs b + qp_TotalDurationMs p
        else bkt_totalDurationMs b),
      bkt_maxDurationMs := (if qp_MaxDurationMs p > bkt_maxDurationMs b then qp_MaxDurationMs p else bkt_maxDurationMs b),
      bkt_targets := foldl (\<lambda>ts (t, n). if n \<le> 0 then ts else add_target_count t n ts) (bkt_targets b)
        (qp_TargetSummary p)\<rparr>"

definition restore_one :: "gotime \<Rightarrow> RollupAggregator \<Rightarrow> QueryRollupPayload \<Rightarrow> RollupAggregator" where
  "restore_one now a p =
    (if qp_QueryCount p \<le> 0 then a else update_bucket (restore_in p) (restore_key (ra_window a) now p) a)"

definition Restore :: "gotime \<Rightarrow> QueryRollupPayload list \<Rightarrow> RollupAggregator \<Rightarrow> RollupAggregator" where
  "Restore now payloads a = foldl (restore_one now) a payloads"


section \<open>Conservation\<close>

text \<open>A component whose operations move an amount in and out: what is held, plus what came out, is what was
  held before plus what went in. The law of one step gives the law of every sequence of operations.\<close>

fun outputs :: "('op \<Rightarrow> 's \<Rightarrow> 'out \<times> 's) \<Rightarrow> 's \<Rightarrow> 'op list \<Rightarrow> 'out list" where
  "outputs step s [] = []"
| "outputs step s (op # ops) = fst (step op s) # outputs step (snd (step op s)) ops"

fun final :: "('op \<Rightarrow> 's \<Rightarrow> 'out \<times> 's) \<Rightarrow> 's \<Rightarrow> 'op list \<Rightarrow> 's" where
  "final step s [] = s"
| "final step s (op # ops) = final step (snd (step op s)) ops"

locale preserving =
  fixes step :: "'op \<Rightarrow> 's \<Rightarrow> 'out \<times> 's" and inv :: "'s \<Rightarrow> bool"
  assumes step_inv: "inv s \<Longrightarrow> inv (snd (step op s))"
begin

lemma final_inv: "inv s \<Longrightarrow> inv (final step s ops)"
  by (induction ops arbitrary: s) (auto intro: step_inv)

end

locale conserving = preserving step inv
  for step :: "'op \<Rightarrow> 's \<Rightarrow> 'out \<times> 's" and inv :: "'s \<Rightarrow> bool" +
  fixes held :: "'s \<Rightarrow> int" and inflow :: "'op \<Rightarrow> int" and outflow :: "'out \<Rightarrow> int"
  assumes step_balance: "inv s \<Longrightarrow> held (snd (step op s)) + outflow (fst (step op s)) = held s + inflow op"
begin

lemma balance:
  "inv s \<Longrightarrow> held (final step s ops) + sum_list (map outflow (outputs step s ops)) = held s + sum_list (map inflow ops)"
proof (induction ops arbitrary: s)
  case (Cons op ops)
  from Cons.IH[OF step_inv[OF Cons.prems, of op]] step_balance[OF Cons.prems, of op] show ?case by simp
qed simp

end

section \<open>Maps updated at one key\<close>

lemma filter_update_length:
  "length (filter (\<lambda>kv. P (fst kv)) (AList.update k v m)) =
    length (filter (\<lambda>kv. P (fst kv)) m) + (if map_of m k = None \<and> P k then 1 else 0)"
  by (induction m) auto

lemma update_values: "(\<forall>kv \<in> set m. P (snd kv)) \<Longrightarrow> P v \<Longrightarrow> \<forall>kv \<in> set (AList.update k v m). P (snd kv)"
  by (induction m) auto

section \<open>Invariant\<close>

definition summary_ok :: "target_counts \<Rightarrow> bool" where
  "summary_ok ts \<longleftrightarrow> distinct (map fst ts) \<and> int (length ts) \<le> DefaultRollupMaxTargetSummary
    \<and> (\<forall>tn \<in> set ts. fst tn \<noteq> [] \<and> TrimSpace (fst tn) = fst tn \<and> 0 < snd tn)"

definition bucket_ok :: "rollupBucket \<Rightarrow> bool" where
  "bucket_ok b \<longleftrightarrow> 0 < bkt_count b \<and> 0 \<le> bkt_totalDurationMs b \<and> summary_ok (bkt_targets b)"

definition ordinary_key :: "rollupKey \<Rightarrow> bool" where
  "ordinary_key key \<longleftrightarrow> key \<noteq> overflowRollupKey key"

definition rollup_ok :: "RollupAggregator \<Rightarrow> bool" where
  "rollup_ok a \<longleftrightarrow> distinct (map fst (ra_buckets a)) \<and> (\<forall>kb \<in> set (ra_buckets a). bucket_ok (snd kb))
    \<and> (0 < ra_maxBuckets a \<longrightarrow>
        int (length (filter (\<lambda>kb. ordinary_key (fst kb)) (ra_buckets a))) \<le> ra_maxBuckets a)"

lemma summary_update_ok:
  assumes "summary_ok ts" "k \<noteq> []" "TrimSpace k = k" "0 < v"
    and "map_of ts k = None \<Longrightarrow> int (length ts) < DefaultRollupMaxTargetSummary"
  shows "summary_ok (AList.update k v ts)"
  unfolding summary_ok_def
proof (intro conjI ballI)
  show "distinct (map fst (AList.update k v ts))" using assms(1) by (simp add: summary_ok_def distinct_update)
  show "int (length (AList.update k v ts)) \<le> DefaultRollupMaxTargetSummary"
    using assms(1,5) by (cases "k \<in> fst ` set ts") (simp_all add: summary_ok_def length_update map_of_eq_None_iff)
  fix tn
  assume "tn \<in> set (AList.update k v ts)"
  then have "tn = (k, v) \<or> tn \<in> set ts" using set_update_subset[of k v ts] by blast
  then show "fst tn \<noteq> []" "TrimSpace (fst tn) = fst tn" "0 < snd tn"
    using assms(1-4) by (auto simp: summary_ok_def)
qed

lemma add_target_ok: "summary_ok ts \<Longrightarrow> 0 < n \<Longrightarrow> summary_ok (add_target_count t n ts)"
proof -
  assume ok: "summary_ok ts" and n: "0 < n"
  have pos: "0 < m" if "map_of ts (TrimSpace t) = Some m" for m
    using ok map_of_SomeD[OF that] by (auto simp: summary_ok_def)
  show ?thesis
  proof (cases "map_of ts (TrimSpace t)")
    case None
    then show ?thesis using ok n summary_update_ok[OF ok, of "TrimSpace t" n] by (simp add: add_target_count_def Let_def)
  next
    case (Some m)
    then show ?thesis using ok n pos[OF Some] summary_update_ok[OF ok, of "TrimSpace t" "m + n"]
      by (simp add: add_target_count_def Let_def)
  qed
qed

lemma usable_bucket:
  assumes "bucket_ok b \<or> b = empty_bucket"
  shows "0 \<le> bkt_count b \<and> 0 \<le> bkt_totalDurationMs b \<and> summary_ok (bkt_targets b)"
  using assms by (auto simp: bucket_ok_def empty_bucket_def summary_ok_def DefaultRollupMaxTargetSummary_def)

lemma record_targets_ok: "summary_ok ts \<Longrightarrow> summary_ok (foldl (\<lambda>ts t. add_target_count t 1 ts) ts targets)"
  by (induction targets arbitrary: ts) (simp_all add: add_target_ok)

lemma restore_targets_ok:
  "summary_ok ts \<Longrightarrow> summary_ok (foldl (\<lambda>ts (t, n). if n \<le> 0 then ts else add_target_count t n ts) ts xs)"
  by (induction xs arbitrary: ts) (auto simp: add_target_ok)

lemma record_in_ok: "bucket_ok b \<or> b = empty_bucket \<Longrightarrow> bucket_ok (record_in targets d b)"
  by (drule usable_bucket) (simp add: bucket_ok_def record_in_def Let_def record_targets_ok)

lemma restore_in_ok: "bucket_ok b \<or> b = empty_bucket \<Longrightarrow> 0 < qp_QueryCount p \<Longrightarrow> bucket_ok (restore_in p b)"
  by (drule usable_bucket) (simp add: bucket_ok_def restore_in_def restore_targets_ok)

lemma bucket_at_ok: "rollup_ok a \<Longrightarrow> bucket_ok (bucket_at a key) \<or> bucket_at a key = empty_bucket"
  by (auto simp: rollup_ok_def bucket_at_def split: option.splits dest!: map_of_SomeD)

lemma overflow_not_ordinary: "\<not> ordinary_key (overflowRollupKey key)"
  by (simp add: ordinary_key_def overflowRollupKey_def)

lemma update_bucket_ok:
  assumes "rollup_ok a" "\<And>b. bucket_ok b \<or> b = empty_bucket \<Longrightarrow> bucket_ok (f b)"
  shows "rollup_ok (update_bucket f key a)"
proof -
  let ?key = "effective_key a key"
  have b: "bucket_ok (f (bucket_at a ?key))" using assms(2) bucket_at_ok[OF assms(1)] by blast
  let ?n = "\<lambda>m. length (filter (\<lambda>kb. ordinary_key (fst kb)) m)"
  have len: "int (?n (AList.update ?key (f (bucket_at a ?key)) (ra_buckets a))) \<le> ra_maxBuckets a"
    if pos: "0 < ra_maxBuckets a"
  proof (cases "map_of (ra_buckets a) ?key = None \<and> ordinary_key ?key")
    case True
    then have "int (length (ra_buckets a)) < ra_maxBuckets a"
      using pos overflow_not_ordinary by (auto simp: effective_key_def split: if_splits)
    moreover have "?n (ra_buckets a) \<le> length (ra_buckets a)" by (rule length_filter_le)
    ultimately have "int (?n (ra_buckets a) + 1) \<le> ra_maxBuckets a" by linarith
    then show ?thesis using True by (simp add: filter_update_length)
  next
    case False
    then have "?n (AList.update ?key (f (bucket_at a ?key)) (ra_buckets a)) = ?n (ra_buckets a)"
      by (simp add: filter_update_length)
    then show ?thesis using assms(1) pos by (simp add: rollup_ok_def)
  qed
  show ?thesis
    using assms(1) len b update_values[of "ra_buckets a" bucket_ok]
    by (simp add: update_bucket_def Let_def rollup_ok_def distinct_update)
qed

lemma update_bucket_sum:
  fixes amount :: "rollupBucket \<Rightarrow> int"
  assumes "rollup_ok a" "\<And>b. amount (f b) = amount b + n" "amount empty_bucket = 0"
  shows "sum_list (map (\<lambda>kb. amount (snd kb)) (ra_buckets (update_bucket f key a))) =
    sum_list (map (\<lambda>kb. amount (snd kb)) (ra_buckets a)) + n"
  using assms sum_update[of "ra_buckets a" amount "effective_key a key"]
  by (auto simp: update_bucket_def Let_def rollup_ok_def bucket_at_def gm_ok_def gm_keys_def comp_def split: option.splits)

section \<open>Operations\<close>

datatype rollup_op =
    Op_Record gotime nat nat SourceContext string string string "string list" duration
  | Op_Drain
  | Op_Restore gotime "QueryRollupPayload list"

fun rollup_step :: "rollup_op \<Rightarrow> RollupAggregator \<Rightarrow> QueryRollupPayload list \<times> RollupAggregator" where
  "rollup_step (Op_Record now zoneID routeID source qname qtype rcode targets d) a =
    ([], RecordWithSource now zoneID routeID source qname qtype rcode targets d a)"
| "rollup_step Op_Drain a = Drain a"
| "rollup_step (Op_Restore now payloads) a = ([], Restore now payloads a)"

definition held_amount :: "(rollupBucket \<Rightarrow> int) \<Rightarrow> RollupAggregator \<Rightarrow> int" where
  "held_amount amount a = sum_list (map (\<lambda>kb. amount (snd kb)) (ra_buckets a))"

definition counted_payloads :: "QueryRollupPayload list \<Rightarrow> QueryRollupPayload list" where
  "counted_payloads ps = filter (\<lambda>p. \<not> qp_QueryCount p \<le> 0) ps"

fun queries_in :: "rollup_op \<Rightarrow> int" where
  "queries_in (Op_Record _ _ _ _ _ _ _ _ _) = 1"
| "queries_in Op_Drain = 0"
| "queries_in (Op_Restore _ ps) = sum_list (map qp_QueryCount (counted_payloads ps))"

definition queries_out :: "QueryRollupPayload list \<Rightarrow> int" where
  "queries_out ps = sum_list (map qp_QueryCount ps)"

fun time_in :: "rollup_op \<Rightarrow> int" where
  "time_in (Op_Record _ _ _ _ _ _ _ _ d) = (if Milliseconds d < 0 then 0 else Milliseconds d)"
| "time_in Op_Drain = 0"
| "time_in (Op_Restore _ ps) =
    sum_list (map (\<lambda>p. if qp_TotalDurationMs p > 0 then qp_TotalDurationMs p else 0) (counted_payloads ps))"

definition time_out :: "QueryRollupPayload list \<Rightarrow> int" where
  "time_out ps = sum_list (map qp_TotalDurationMs ps)"

lemma Restore_ok: "rollup_ok a \<Longrightarrow> rollup_ok (Restore now ps a)"
proof (induction ps arbitrary: a)
  case (Cons p ps)
  have "rollup_ok (restore_one now a p)"
    using Cons.prems by (auto simp: restore_one_def intro!: update_bucket_ok restore_in_ok)
  from Cons.IH[OF this] show ?case by (simp add: Restore_def)
qed (simp add: Restore_def)

lemma rollup_step_ok: "rollup_ok a \<Longrightarrow> rollup_ok (snd (rollup_step op a))"
  by (cases op) (auto simp: RecordWithSource_def Drain_def rollup_ok_def[of "_\<lparr>ra_buckets := _\<rparr>"]
      intro!: update_bucket_ok record_in_ok Restore_ok)

lemma Restore_sum:
  assumes "rollup_ok a" "amount empty_bucket = 0" "\<And>p b. amount (restore_in p b) = amount b + n p"
  shows "held_amount amount (Restore now ps a) = held_amount amount a + sum_list (map n (counted_payloads ps))"
  using assms(1)
proof (induction ps arbitrary: a)
  case (Cons p ps)
  show ?case
  proof (cases "qp_QueryCount p \<le> 0")
    case True
    then show ?thesis using Cons by (simp add: Restore_def restore_one_def counted_payloads_def)
  next
    case False
    let ?a = "update_bucket (restore_in p) (restore_key (ra_window a) now p) a"
    have "rollup_ok ?a" using Cons.prems False by (auto intro!: update_bucket_ok restore_in_ok)
    from Cons.IH[OF this] show ?thesis
      using False update_bucket_sum[OF Cons.prems, of amount "restore_in p" "n p"] assms(2,3)
      by (simp add: Restore_def restore_one_def counted_payloads_def held_amount_def)
  qed
qed (simp add: Restore_def counted_payloads_def)

lemma Drain_all: "rollup_ok a \<Longrightarrow> fst (Drain a) = map (payload_of (ra_window a)) (ra_buckets a)"
  by (auto simp: Drain_def rollup_ok_def bucket_ok_def intro!: arg_cong[of _ _ "map _"] filter_True)

lemma sum_payloads:
  "(\<And>kb. g (payload_of w kb) = amount (snd kb)) \<Longrightarrow>
    sum_list (map g (map (payload_of w) kbs)) = sum_list (map (\<lambda>kb. amount (snd kb)) kbs)"
  by (simp add: comp_def)

interpretation rollups: preserving rollup_step rollup_ok
  by unfold_locales (rule rollup_step_ok)

interpretation query_counts: conserving rollup_step rollup_ok "held_amount bkt_count" queries_in queries_out
proof
  fix a op
  assume ok: "rollup_ok a"
  show "held_amount bkt_count (snd (rollup_step op a)) + queries_out (fst (rollup_step op a)) =
      held_amount bkt_count a + queries_in op"
  proof (cases op)
    case (Op_Record now zoneID routeID source qname qtype rcode targets d)
    then show ?thesis
      using update_bucket_sum[OF ok, of bkt_count "record_in targets d" 1]
      by (simp add: RecordWithSource_def held_amount_def queries_out_def record_in_def Let_def empty_bucket_def)
  next
    case Op_Drain
    then show ?thesis using ok
      by (simp add: Drain_all, simp add: Drain_def held_amount_def queries_out_def payload_of_def comp_def split_def)
  next
    case (Op_Restore now ps)
    then show ?thesis
      using Restore_sum[OF ok, of bkt_count qp_QueryCount now ps]
      by (simp add: restore_in_def empty_bucket_def queries_out_def)
  qed
qed

interpretation durations: conserving rollup_step rollup_ok "held_amount bkt_totalDurationMs" time_in time_out
proof
  fix a op
  assume ok: "rollup_ok a"
  show "held_amount bkt_totalDurationMs (snd (rollup_step op a)) + time_out (fst (rollup_step op a)) =
      held_amount bkt_totalDurationMs a + time_in op"
  proof (cases op)
    case (Op_Record now zoneID routeID source qname qtype rcode targets d)
    then show ?thesis
      using update_bucket_sum[OF ok, of bkt_totalDurationMs "record_in targets d" "if Milliseconds d < 0 then 0 else Milliseconds d"]
      by (simp add: RecordWithSource_def held_amount_def time_out_def record_in_def Let_def empty_bucket_def)
  next
    case Op_Drain
    then show ?thesis using ok
      by (simp add: Drain_all, simp add: Drain_def held_amount_def time_out_def payload_of_def comp_def split_def)
  next
    case (Op_Restore now ps)
    then show ?thesis
      using Restore_sum[OF ok, of bkt_totalDurationMs "\<lambda>p. if qp_TotalDurationMs p > 0 then qp_TotalDurationMs p else 0" now ps]
      by (simp add: restore_in_def empty_bucket_def time_out_def)
  qed
qed


section \<open>Summaries\<close>

interpretation target_order: strict_weak_order target_less UNIV
  by (rule strict_weak_order_on_key[where f = "\<lambda>x. (- snd x, fst x)"]) (auto simp: target_less_def)

lemma sum_targets_lookup:
  assumes "distinct (map fst items)"
  shows "map_of (sum_targets items) t = map_of items t"
proof -
  have "map_of (foldl (\<lambda>m (t, n). AList.update t ((case map_of m t of None \<Rightarrow> 0 | Some k \<Rightarrow> k) + n) m) m items) t =
      (case map_of items t of None \<Rightarrow> map_of m t | Some n \<Rightarrow> Some n)"
    if "distinct (map fst items)" "\<forall>k \<in> fst ` set items. map_of m k = None" for m
    using that
  proof (induction items arbitrary: m)
    case (Cons x xs)
    obtain k n where x: "x = (k, n)" by fastforce
    have k: "map_of m k = None" "map_of xs k = None" using Cons.prems by (auto simp: x map_of_eq_None_iff)
    have "\<forall>k' \<in> fst ` set xs. map_of (AList.update k n m) k' = None"
      using Cons.prems by (auto simp: x update_conv' image_iff)
    from Cons.IH[OF _ this] Cons.prems(1) show ?case
      using k by (cases "t = k") (auto simp: x update_conv' split: option.splits)
  qed simp
  from this[OF assms, of "[]"] show ?thesis by (simp add: sum_targets_def split: option.splits)
qed

lemma summary_items:
  assumes "summary_ok ts"
  shows "List.map_filter target_item ts = ts"
  using assms
proof (induction ts)
  case (Cons x xs)
  obtain t n where x: "x = (t, n)" by fastforce
  have "summary_ok xs" using Cons.prems by (auto simp: summary_ok_def)
  moreover have "target_item x = Some x" using Cons.prems by (auto simp: x summary_ok_def target_item_def Let_def)
  ultimately show ?case using Cons.IH by (simp add: map_filter_simps)
qed (simp add: map_filter_simps)

lemma map_of_mset_eq:
  assumes "distinct (map fst xs)" "mset xs = mset ys"
  shows "map_of xs = map_of ys"
proof -
  have "distinct (map fst ys)" using assms by (metis mset_eq_imp_distinct_iff mset_map)
  moreover have "set xs = set ys" using assms(2) by (rule mset_eq_setD)
  ultimately show ?thesis using assms(1) by (intro map_of_inject_set[THEN iffD2])
qed

lemma summary_lossless:
  assumes "summary_ok ts"
  shows "map_of (topRollupTargets ts DefaultRollupMaxTargetSummary) = map_of ts"
proof -
  let ?s = "SliceStable target_less ts"
  have "distinct (map fst ?s)" using assms by (simp add: go_sort summary_ok_def)
  then have "map_of (sum_targets ?s) = map_of ts"
    using sum_targets_lookup[of ?s] map_of_mset_eq[of ?s ts] by (auto simp: go_sort)
  then show ?thesis
    using assms by (simp add: topRollupTargets_def summary_items Let_def go_sort summary_ok_def)
qed

lemma payload_fields:
  "qp_QueryCount (payload_of w kb) = bkt_count (snd kb)"
  "qp_TotalDurationMs (payload_of w kb) = bkt_totalDurationMs (snd kb)"
  by (simp_all add: payload_of_def split_def)

section \<open>Properties\<close>

lemma NewRollupAggregator_ok: "rollup_ok (NewRollupAggregator w)"
  by (simp add: rollup_ok_def NewRollupAggregator_def)

lemma held_new: "held_amount amount (NewRollupAggregator w) = 0"
  by (simp add: held_amount_def NewRollupAggregator_def)

lemma run_ok: "rollup_ok (final rollup_step (NewRollupAggregator w) ops)"
  by (rule rollups.final_inv) (rule NewRollupAggregator_ok)

text \<open>C19: Query statistics are conserved: after any sequence of recording queries, draining and restoring payloads,
  the queries held in the buckets and the queries in all drained payloads are together the queries
  that were recorded and restored; and the same holds for their total time. The overflow bucket loses
  nothing.\<close>

theorem rollup_conserves:
  "held_amount bkt_count (final rollup_step (NewRollupAggregator w) ops)
      + sum_list (map queries_out (outputs rollup_step (NewRollupAggregator w) ops)) = sum_list (map queries_in ops)
   \<and> held_amount bkt_totalDurationMs (final rollup_step (NewRollupAggregator w) ops)
      + sum_list (map time_out (outputs rollup_step (NewRollupAggregator w) ops)) = sum_list (map time_in ops)"
  using query_counts.balance[OF NewRollupAggregator_ok] durations.balance[OF NewRollupAggregator_ok] by (simp add: held_new)

text \<open>A failed upload loses nothing: draining and restoring the drained payloads, at any time, leaves the number of
  queries and their total time as they were.\<close>

theorem failed_upload_loses_nothing:
  fixes w ops now
  defines "a \<equiv> final rollup_step (NewRollupAggregator w) ops"
  defines "b \<equiv> Restore now (fst (Drain a)) (snd (Drain a))"
  shows "held_amount bkt_count b = held_amount bkt_count a
    \<and> held_amount bkt_totalDurationMs b = held_amount bkt_totalDurationMs a"
proof -
  have a: "rollup_ok a" unfolding a_def by (rule run_ok)
  have pos: "0 < bkt_count (snd kb) \<and> 0 \<le> bkt_totalDurationMs (snd kb)" if "kb \<in> set (ra_buckets a)" for kb
    using a that by (auto simp: rollup_ok_def bucket_ok_def)
  have ps: "counted_payloads (fst (Drain a)) = fst (Drain a)"
    unfolding counted_payloads_def Drain_all[OF a] using pos by (intro filter_True) (fastforce simp: payload_fields not_le)
  have q: "queries_in (Op_Restore now (fst (Drain a))) = queries_out (fst (Drain a))"
    by (simp add: ps queries_out_def)
  have "time_in (Op_Restore now (fst (Drain a))) = time_out (fst (Drain a))"
    unfolding time_in.simps ps
    unfolding time_out_def Drain_all[OF a] map_map
    using pos by (intro arg_cong[of _ _ sum_list] map_cong[OF refl]) (force simp: payload_fields)
  then show ?thesis
    using q query_counts.balance[OF a, of "[Op_Drain, Op_Restore now (fst (Drain a))]"]
      durations.balance[OF a, of "[Op_Drain, Op_Restore now (fst (Drain a))]"]
    by (simp add: b_def queries_out_def time_out_def)
qed

text \<open>The memory of the statistics is bounded: after any sequence of operations there are at most 4096 buckets
  besides overflow buckets, and every bucket has at most 64 targets.\<close>

theorem rollup_bounded:
  fixes w ops
  defines "a \<equiv> final rollup_step (NewRollupAggregator w) ops"
  shows "length (filter (\<lambda>kb. fst kb \<noteq> overflowRollupKey (fst kb)) (ra_buckets a)) \<le> 4096
    \<and> (\<forall>kb \<in> set (ra_buckets a). length (bkt_targets (snd kb)) \<le> 64)"
proof -
  have "ra_maxBuckets (snd (rollup_step op a)) = ra_maxBuckets a" for op a
  proof -
    have "ra_maxBuckets (foldl (restore_one now) a ps) = ra_maxBuckets a" for now ps a
      by (induction ps arbitrary: a) (simp_all add: restore_one_def update_bucket_def Let_def)
    then show ?thesis by (cases op) (simp_all add: RecordWithSource_def update_bucket_def Let_def Drain_def Restore_def)
  qed
  then have "ra_maxBuckets (final rollup_step s ops) = ra_maxBuckets s" for s by (induction ops arbitrary: s) simp_all
  then have "ra_maxBuckets a = 4096" by (simp add: a_def NewRollupAggregator_def DefaultRollupMaxBuckets_def)
  moreover have "rollup_ok a" unfolding a_def by (rule run_ok)
  ultimately show ?thesis
    by (auto simp: rollup_ok_def ordinary_key_def bucket_ok_def summary_ok_def DefaultRollupMaxTargetSummary_def)
qed

theorem rollup_bounded_witness:
  "list_all (\<lambda>kb. length (bkt_targets (snd kb)) \<le> 64) (ra_buckets (final rollup_step (NewRollupAggregator Minute)
      [Op_Record 5 1 1 zero_SourceContext ''a.b'' ''A'' ''NOERROR'' [''8.8.8.8''] 0]))"
  unfolding list_all_iff
  using rollup_bounded[of Minute "[Op_Record 5 1 1 zero_SourceContext ''a.b'' ''A'' ''NOERROR'' [''8.8.8.8''] 0]"] by blast

text \<open>The target summary that is sent is the target count of the bucket: sorting and cutting to the limit drops
  nothing for the buckets that occur.\<close>

lemma target_summary_lossless:
  assumes "(key, b) \<in> set (ra_buckets (final rollup_step (NewRollupAggregator w) ops))"
  shows "map_of (qp_TargetSummary (payload_of win (key, b))) = map_of (bkt_targets b)"
  using assms run_ok[of w ops] summary_lossless by (fastforce simp: payload_of_def rollup_ok_def bucket_ok_def)

end
