(* ===== verification/Operator_CIDR.thy ===== *)
theory Operator_CIDR
  imports Normalize Go_Sort "HOL-Library.Product_Lexorder"
begin

text \<open>
  The table of operator networks of the DNS worker (\<open>operator_cidr.go\<close>): files of networks, one file per
  operator, become a sorted list of address ranges that a lookup searches by bisection. The file
  system is an argument: what \<open>os.Stat\<close>, \<open>os.ReadDir\<close> and reading a file return. A file is its list of
  lines.

  Shown: the range computed for a prefix, bytewise for IPv6, holds exactly the addresses of the prefix;
  a loaded table is sorted; a lookup only returns the operator of a range that holds the address, and
  on ranges that do not overlap it returns it whenever there is one. On nested ranges it may miss the
  enclosing range.
\<close>

unbundle bit_operations_syntax

section \<open>Ranges\<close>

record operatorCIDRRange =
  ocr_start :: netip_addr
  ocr_end :: netip_addr
  ocr_bits :: nat
  ocr_operator :: string

record OperatorCIDRMatcher =
  ocm_ranges :: "operatorCIDRRange list"

definition compareOperatorCIDRAddr :: "netip_addr \<Rightarrow> netip_addr \<Rightarrow> int" where
  "compareOperatorCIDRAddr a b = (if a = b then 0 else if a < b then -1 else 1)"

text \<open>The 16 bytes of an address, and back.\<close>

definition bytes16 :: "128 word \<Rightarrow> 8 word list" where
  "bytes16 w = map (\<lambda>i. ucast (drop_bit (8 * (15 - i)) w)) [0..<16]"

definition AddrFrom16 :: "8 word list \<Rightarrow> netip_addr" where
  "AddrFrom16 bs = Addr6 (word_rcat bs) []"

definition end_bytes :: "nat \<Rightarrow> 8 word list \<Rightarrow> 8 word list" where
  "end_bytes ones bytes =
    (let fullBytes = ones div 8; remainingBits = ones mod 8; partial = (remainingBits > 0 \<and> fullBytes < length bytes);
         bytes = (if partial then bytes[fullBytes := (bytes ! fullBytes) OR drop_bit remainingBits 0xFF] else bytes);
         fullBytes = (if partial then fullBytes + 1 else fullBytes)
     in foldl (\<lambda>bs i. bs[i := 0xFF]) bytes [fullBytes..<length bytes])"

definition end4 :: "nat \<Rightarrow> 32 word \<Rightarrow> 32 word" where
  "end4 bits startValue =
    (let hostBits = 32 - bits
     in if hostBits \<ge> 32 then NOT 0 else if hostBits > 0 then startValue OR (push_bit hostBits 1 - 1) else startValue)"

definition operatorCIDRPrefixRange :: "netip_prefix \<Rightarrow> (netip_addr \<times> netip_addr \<times> nat) option" where
  "operatorCIDRPrefixRange p =
    (if \<not> prefix_valid p then None
     else
       (let p = Prefix (Unmap (prefix_addr p)) (prefix_bits p)
        in if \<not> prefix_valid p then None
           else
             (case Masked p of
                Prefix (Addr4 w) n \<Rightarrow> Some (Addr4 w, Addr4 (end4 n w), 32)
              | Prefix (Addr6 w z) n \<Rightarrow> Some (Addr6 w z, AddrFrom16 (end_bytes n (bytes16 w)), 128))))"

section \<open>Parsing\<close>

datatype cidr_error = Empty_CIDR | Invalid_IP_Or_CIDR string | Invalid_CIDR string | Invalid_CIDR_IP string
  | Stat_Failed | ReadDir_Failed | Open_Failed | No_Supported_Files

definition parseOperatorCIDR :: "string \<Rightarrow> string \<Rightarrow> cidr_error + operatorCIDRRange" where
  "parseOperatorCIDR value operator =
    (let text = TrimSpace value
     in if text = '''' then Inl Empty_CIDR
        else
          (case (if CHR ''/'' \<in> set text then Some text
              else map_option (\<lambda>ip. IP_String ip @ (if To4 ip \<noteq> None then ''/32'' else ''/128'')) (ParseIP text)) of
             None \<Rightarrow> Inl (Invalid_IP_Or_CIDR value)
           | Some text \<Rightarrow>
               (case ParsePrefix text of
                  None \<Rightarrow> Inl (Invalid_CIDR value)
                | Some prefix \<Rightarrow>
                    if \<not> prefix_valid prefix then Inl (Invalid_CIDR value)
                    else
                      (case operatorCIDRPrefixRange prefix of
                         None \<Rightarrow> Inl (Invalid_CIDR_IP value)
                       | Some (start, end, bits) \<Rightarrow>
                           Inr \<lparr>ocr_start = start, ocr_end = end, ocr_bits = bits,
                             ocr_operator = normalizeOperator operator\<rparr>))))"

text \<open>The network of a line; \<open>None\<close> for an empty line or a comment.\<close>

definition cut_before :: "char \<Rightarrow> string \<Rightarrow> string" where
  "cut_before c text = (case Cut text c of (before, _, ok) \<Rightarrow> if ok then TrimSpace before else text)"

definition line_text :: "string \<Rightarrow> string option" where
  "line_text line =
    (let text = TrimSpace line
     in if text = '''' \<or> HasPrefix text ''#'' \<or> HasPrefix text ''//'' then None
        else (let text = cut_before CHR '','' (cut_before CHR ''#'' text) in if text = '''' then None else Some text))"

fun load_lines :: "string \<Rightarrow> string list \<Rightarrow> cidr_error + operatorCIDRRange list" where
  "load_lines operator [] = Inr []"
| "load_lines operator (line # lines) =
    (case line_text line of
       None \<Rightarrow> load_lines operator lines
     | Some text \<Rightarrow>
         (case parseOperatorCIDR text operator of
            Inl e \<Rightarrow> Inl e
          | Inr item \<Rightarrow> (case load_lines operator lines of Inl e \<Rightarrow> Inl e | Inr items \<Rightarrow> Inr (item # items))))"

text \<open>The lines of a file are \<open>None\<close> when it cannot be opened or read.\<close>

definition loadOperatorCIDRFile :: "string list option \<Rightarrow> string \<Rightarrow> cidr_error + operatorCIDRRange list" where
  "loadOperatorCIDRFile content operator =
    (case content of None \<Rightarrow> Inl Open_Failed | Some lines \<Rightarrow> load_lines operator lines)"

section \<open>Files\<close>

definition operatorCIDRFileOperators :: "(string \<times> string) list" where
  "operatorCIDRFileOperators =
    [(''chinanet'', ''cn-telecom''), (''chinatelecom'', ''cn-telecom''), (''telecom'', ''cn-telecom''),
     (''unicom'', ''cn-unicom''), (''chinaunicom'', ''cn-unicom''), (''cmcc'', ''cn-mobile''),
     (''chinamobile'', ''cn-mobile''), (''mobile'', ''cn-mobile''), (''tietong'', ''cn-mobile''),
     (''cernet'', ''cernet''), (''cernet2'', ''cernet''), (''edu'', ''cernet''), (''cstnet'', ''cstnet''),
     (''drpeng'', ''drpeng''), (''googlecn'', ''googlecn''), (''cbn'', ''cn-broadcast''),
     (''chinabtn'', ''cn-broadcast''), (''broadcast'', ''cn-broadcast'')]"

text \<open>\<open>filepath.Ext\<close>: from the last dot on, when no slash follows it.\<close>

definition Ext :: "string \<Rightarrow> string" where
  "Ext name =
    (let r = rev name; s = takeWhile (\<lambda>c. c \<noteq> CHR ''.'' \<and> c \<noteq> CHR ''/'') r
     in case drop (length s) r of CHR ''.'' # _ \<Rightarrow> CHR ''.'' # rev s | _ \<Rightarrow> '''')"

definition operatorFromCIDRFilename :: "string \<Rightarrow> string" where
  "operatorFromCIDRFilename name =
    (let base = TrimSuffix (ToLower (TrimSpace name)) (Ext name);
         base = DeleteChars ''-_.'' base;
         base = (if HasSuffix base ''6'' then TrimSuffix base ''6'' else base)
     in if base \<in> {'''', ''china'', ''all'', ''stat'', ''statistics''} then ''''
        else (case map_of operatorCIDRFileOperators base of None \<Rightarrow> '''' | Some operator \<Rightarrow> operator))"

record operatorCIDRFile =
  ocf_path :: string
  ocf_operator :: string
  ocf_content :: "string list option"

text \<open>What \<open>os.Stat\<close> finds at a path: nothing, a file with its content, or a directory with its entries (each a
  name, whether it is a directory, and its content), \<open>None\<close> when they cannot be read.\<close>

datatype dir_entry = Dir_Entry string bool "string list option"

datatype path_info = Path_Missing | Path_File string "string list option" | Path_Dir "dir_entry list option"

definition dir_file :: "string \<Rightarrow> dir_entry \<Rightarrow> operatorCIDRFile option" where
  "dir_file path entry =
    (case entry of Dir_Entry name isDir content \<Rightarrow>
       if isDir then None
       else
         (let operator = operatorFromCIDRFilename name
          in if operator = '''' then None
             else Some \<lparr>ocf_path = path @ ''/'' @ name, ocf_operator = operator, ocf_content = content\<rparr>))"

definition file_list :: "string \<Rightarrow> path_info \<Rightarrow> cidr_error + operatorCIDRFile list" where
  "file_list path info =
    (case info of
       Path_Missing \<Rightarrow> Inl Stat_Failed
     | Path_Dir None \<Rightarrow> Inl ReadDir_Failed
     | Path_Dir (Some entries) \<Rightarrow> Inr (List.map_filter (dir_file path) entries)
     | Path_File base content \<Rightarrow>
         (let operator = operatorFromCIDRFilename base
          in Inr [\<lparr>ocf_path = path, ocf_operator = (if operator = '''' then ''cn-telecom'' else operator),
                ocf_content = content\<rparr>]))"

fun load_files :: "operatorCIDRFile list \<Rightarrow> cidr_error + operatorCIDRRange list" where
  "load_files [] = Inr []"
| "load_files (file # files) =
    (case loadOperatorCIDRFile (ocf_content file) (ocf_operator file) of
       Inl e \<Rightarrow> Inl e
     | Inr loaded \<Rightarrow> (case load_files files of Inl e \<Rightarrow> Inl e | Inr rest \<Rightarrow> Inr (loaded @ rest)))"

definition range_less :: "operatorCIDRRange \<Rightarrow> operatorCIDRRange \<Rightarrow> bool" where
  "range_less x y =
    (if ocr_bits x \<noteq> ocr_bits y then ocr_bits x < ocr_bits y
     else if compareOperatorCIDRAddr (ocr_start x) (ocr_start y) \<noteq> 0
     then compareOperatorCIDRAddr (ocr_start x) (ocr_start y) < 0
     else if compareOperatorCIDRAddr (ocr_end x) (ocr_end y) \<noteq> 0
     then compareOperatorCIDRAddr (ocr_end x) (ocr_end y) < 0
     else ocr_operator x < ocr_operator y)"

definition LoadOperatorCIDRMatcher :: "string \<Rightarrow> path_info \<Rightarrow> cidr_error + OperatorCIDRMatcher" where
  "LoadOperatorCIDRMatcher rawPath info =
    (let path = TrimSpace rawPath
     in if path = '''' then Inr \<lparr>ocm_ranges = []\<rparr>
        else
          (case file_list path info of
             Inl e \<Rightarrow> Inl e
           | Inr files \<Rightarrow>
               if length files = 0 then Inl No_Supported_Files
               else
                 (case load_files (SliceStable (\<lambda>x y. ocf_path x < ocf_path y) files) of
                    Inl e \<Rightarrow> Inl e
                  | Inr ranges \<Rightarrow> Inr \<lparr>ocm_ranges = SliceStable range_less ranges\<rparr>)))"

section \<open>Lookup\<close>

definition Count :: "OperatorCIDRMatcher \<Rightarrow> nat" where
  "Count m = length (ocm_ranges m)"

definition operatorCIDRAddrFromIP :: "net_ip \<Rightarrow> netip_addr \<times> nat" where
  "operatorCIDRAddrFromIP ip = (case To4 ip of Some w \<Rightarrow> (Addr4 w, 32) | None \<Rightarrow> (Addr6 (To16 ip) [], 128))"

text \<open>The loop that goes back from the last range that starts at or before the address.\<close>

fun scan_back :: "netip_addr \<Rightarrow> operatorCIDRRange list \<Rightarrow> string" where
  "scan_back value [] = ''''"
| "scan_back value (item # items) =
    (if compareOperatorCIDRAddr (ocr_start item) value \<le> 0 \<and> compareOperatorCIDRAddr (ocr_end item) value \<ge> 0
     then ocr_operator item
     else if compareOperatorCIDRAddr (ocr_end item) value < 0 then ''''
     else scan_back value items)"

definition Lookup :: "OperatorCIDRMatcher \<Rightarrow> net_ip option \<Rightarrow> string" where
  "Lookup m ip =
    (if length (ocm_ranges m) = 0 then ''''
     else
       (case ip of
          None \<Rightarrow> ''''
        | Some ip \<Rightarrow>
            (case operatorCIDRAddrFromIP ip of
               (value, bits) \<Rightarrow>
                 (let ranges = ocm_ranges m; n = length ranges;
                      first = Search n (\<lambda>i. ocr_bits (ranges ! i) \<ge> bits)
                  in if first \<ge> n \<or> ocr_bits (ranges ! first) \<noteq> bits then ''''
                     else
                       (let last = Search n (\<lambda>i. ocr_bits (ranges ! i) > bits);
                            k = Search (last - first)
                              (\<lambda>i. compareOperatorCIDRAddr (ocr_start (ranges ! (first + i))) value > 0)
                        in scan_back value (rev (take k (drop first ranges))))))))"


section \<open>The range of a prefix\<close>

lemma end4_mask: "n \<le> 32 \<Longrightarrow> end4 n w = w OR mask (32 - n)"
proof -
  assume n: "n \<le> 32"
  show ?thesis
  proof (cases "n = 0")
    case True
    have "mask 32 = (- 1 :: 32 word)" using mask_full[where 'a = 32] by simp
    then show ?thesis using True by (simp add: end4_def)
  next
    case False
    then have "\<not> 32 \<le> 32 - n" using n by simp
    then show ?thesis using n by (simp add: end4_def Let_def mask_eq_exp_minus_1 push_bit_of_1)
  qed
qed

lemma length_bytes16: "length (bytes16 w) = 16"
  by (simp add: bytes16_def)

lemma bit_bytes16: "i < 16 \<Longrightarrow> j < 8 \<Longrightarrow> bit (bytes16 w ! i) j \<longleftrightarrow> bit w (8 * (15 - i) + j)"
  by (simp add: bytes16_def bit_ucast_iff bit_drop_bit_eq)

lemma bit_word_rcat16:
  fixes bs :: "8 word list"
  assumes "length bs = 16" "m < 128"
  shows "bit (word_rcat bs :: 128 word) m \<longleftrightarrow> bit (bs ! (15 - m div 8)) (m mod 8)"
proof -
  have "m div 8 < 16" using assms(2) by (simp add: less_mult_imp_div_less)
  then show ?thesis
    using assms bit_horner_sum_uint_exp_iff[of "rev bs" m]
    by (simp add: word_rcat_def bit_word_of_int_iff rev_nth)
qed

lemma nth_fill:
  "i < length bs \<Longrightarrow> foldl (\<lambda>bs i. bs[i := v]) bs [a..<length bs] ! i = (if a \<le> i then v else bs ! i)"
proof -
  have "foldl (\<lambda>bs i. bs[i := v]) bs [a..<b] ! i = (if a \<le> i \<and> i < b then v else bs ! i)"
    if "i < length bs" "b \<le> length bs" for b
    using that(2)
  proof (induction b)
    case (Suc b)
    have len: "length (foldl (\<lambda>bs i. bs[i := v]) bs xs) = length bs" for xs
      by (induction xs rule: rev_induct) simp_all
    show ?case
      using Suc that(1) by (cases "a \<le> b") (auto simp: nth_list_update len less_Suc_eq)
  qed simp
  then show "i < length bs \<Longrightarrow> foldl (\<lambda>bs i. bs[i := v]) bs [a..<length bs] ! i = (if a \<le> i then v else bs ! i)"
    by simp
qed

lemma length_fill: "length (foldl (\<lambda>bs i. bs[i := v]) bs xs) = length bs"
  by (induction xs rule: rev_induct) simp_all

lemma nth_end_bytes:
  assumes "i < length bs"
  shows "end_bytes n bs ! i =
    (if i < n div 8 then bs ! i
     else if i = n div 8 \<and> 0 < n mod 8 then (bs ! i) OR drop_bit (n mod 8) 0xFF else 0xFF)"
  using assms by (auto simp: end_bytes_def Let_def nth_fill nth_list_update)

lemma bit_ff: "bit (0xFF :: 8 word) j \<longleftrightarrow> j < 8"
proof -
  have "(0xFF :: 8 word) = mask 8" by (simp add: mask_eq_exp_minus_1)
  then show ?thesis by (simp only: bit_mask_iff possible_bit_word) auto
qed

lemma bit_drop_ff: "bit (drop_bit k (0xFF :: 8 word)) j \<longleftrightarrow> j + k < 8"
  by (simp only: bit_drop_bit_eq comp_apply bit_ff add.commute)

lemma end_bytes_mask:
  assumes "n \<le> 128"
  shows "word_rcat (end_bytes n (bytes16 w)) = w OR mask (128 - n)"
proof (rule bit_word_eqI)
  fix m
  assume "m < LENGTH(128)"
  then have m: "m < 128" by simp
  let ?i = "15 - m div 8" and ?j = "m mod 8"
  have q: "m div 8 < 16" using m by (simp add: less_mult_imp_div_less)
  have mi: "8 * (15 - ?i) + ?j = m" using q by simp
  have len: "length (end_bytes n (bytes16 w)) = 16" by (simp add: end_bytes_def Let_def length_fill length_bytes16)
  have b: "bit (bytes16 w ! ?i) ?j \<longleftrightarrow> bit w m" using bit_bytes16[of ?i ?j w] mi by simp
  define a b where ab: "a = n div 8" "b = n mod 8"
  have n: "n = 8 * a + b" "b < 8" by (simp_all add: ab)
  have mj: "m = 8 * (m div 8) + ?j" "?j < 8" by simp_all
  have i: "\<not> m < 128 - n" if "?i < n div 8" using that q mj n(1) assms unfolding ab(1)[symmetric] by linarith
  have e: "(?j + n mod 8 < 8) = (m < 128 - n)" if "?i = n div 8"
    using that q mj n assms unfolding ab[symmetric] by linarith
  have g: "m < 128 - n" if "\<not> ?i < n div 8" "\<not> (?i = n div 8 \<and> 0 < n mod 8)"
    using that q mj n assms unfolding ab[symmetric] by linarith
  have "bit (word_rcat (end_bytes n (bytes16 w)) :: 128 word) m \<longleftrightarrow> bit (end_bytes n (bytes16 w) ! ?i) ?j"
    by (rule bit_word_rcat16[OF len m])
  also have "\<dots> \<longleftrightarrow> bit w m \<or> m < 128 - n"
  proof -
    consider "?i < n div 8" | "?i = n div 8" "0 < n mod 8" | "\<not> ?i < n div 8" "\<not> (?i = n div 8 \<and> 0 < n mod 8)" by metis
    then show ?thesis
    proof cases
      case 1
      then show ?thesis using i b by (simp add: nth_end_bytes length_bytes16)
    next
      case 2
      then show ?thesis using e b by (simp add: nth_end_bytes length_bytes16 bit_or_iff bit_drop_ff)
    next
      case 3
      then have "end_bytes n (bytes16 w) ! ?i = 0xFF" by (auto simp: nth_end_bytes length_bytes16)
      then show ?thesis using g[OF 3] mj(2) by (simp only: bit_ff) simp
    qed
  qed
  also have "\<dots> \<longleftrightarrow> bit (w OR mask (128 - n)) m" using m by (auto simp: bit_or_iff bit_mask_iff)
  finally show "bit (word_rcat (end_bytes n (bytes16 w)) :: 128 word) m = bit (w OR mask (128 - n)) m" .
qed

text \<open>The prefix that is used for a range: IPv4-mapped addresses count as IPv4.\<close>

definition unmapped :: "netip_prefix \<Rightarrow> netip_prefix" where
  "unmapped p = Prefix (Unmap (prefix_addr p)) (prefix_bits p)"

lemma keep_top_le_iff:
  fixes a w :: "'a::len word"
  shows "drop_bit (LENGTH('a) - n) a = drop_bit (LENGTH('a) - n) w \<longleftrightarrow>
    keep_top n w \<le> a \<and> a \<le> (keep_top n w OR mask (LENGTH('a) - n))"
proof -
  have "keep_top n w OR mask (LENGTH('a) - n) = w OR mask (LENGTH('a) - n)"
    by (intro bit_eqI) (auto simp: keep_top_def bit_simps)
  then show ?thesis using drop_bit_eq_iff_range[of "LENGTH('a) - n" a w] by (simp add: keep_top_def)
qed

text \<open>A range holds an address: same length, and between the ends.\<close>

definition range_holds :: "netip_addr \<Rightarrow> nat \<Rightarrow> operatorCIDRRange \<Rightarrow> bool" where
  "range_holds a bits r \<longleftrightarrow> ocr_bits r = bits \<and> ocr_start r \<le> a \<and> a \<le> ocr_end r"

lemma prefix_range_holds:
  assumes "operatorCIDRPrefixRange p = Some (s, e, bits)" "Zone a = []"
  shows "s \<le> a \<and> a \<le> e \<and> bits = BitLen a \<longleftrightarrow> prefix_contains (unmapped p) a"
proof -
  let ?n = "prefix_bits p"
  have v: "prefix_valid (unmapped p)"
    using assms(1) by (auto simp: operatorCIDRPrefixRange_def unmapped_def Let_def split: if_splits)
  show ?thesis
  proof (cases "Unmap (prefix_addr p)")
    case (Addr4 w)
    then have n: "?n \<le> 32" using v by (simp add: unmapped_def)
    have r: "s = Addr4 (keep_top ?n w)" "e = Addr4 (keep_top ?n w OR mask (32 - ?n))" "bits = 32"
      using assms(1) n by (auto simp: operatorCIDRPrefixRange_def Let_def Addr4 end4_mask split: if_splits)
    show ?thesis
      using keep_top_le_iff[where 'a = 32, of ?n _ w] n r
      by (cases a) (auto simp: unmapped_def Addr4 less_eq_netip_addr_def order_le_less)
  next
    case (Addr6 w z)
    then have n: "?n \<le> 128" using v by (simp add: unmapped_def)
    have r: "s = Addr6 (keep_top ?n w) []" "e = Addr6 (keep_top ?n w OR mask (128 - ?n)) []" "bits = 128"
      using assms(1) n by (auto simp: operatorCIDRPrefixRange_def Let_def Addr6 end_bytes_mask AddrFrom16_def split: if_splits)
    show ?thesis
      using keep_top_le_iff[where 'a = 128, of ?n _ w] n r assms(2)
      by (cases a) (auto simp: unmapped_def Addr6 less_eq_netip_addr_def order_le_less)
  qed
qed

section \<open>Sorted tables\<close>

definition range_key :: "operatorCIDRRange \<Rightarrow> nat \<times> netip_addr \<times> netip_addr \<times> string" where
  "range_key r = (ocr_bits r, ocr_start r, ocr_end r, ocr_operator r)"

interpretation ranges: strict_weak_order range_less UNIV
  by (rule strict_weak_order_on_key[where f = range_key])
    (auto simp: range_less_def range_key_def compareOperatorCIDRAddr_def)

definition sorted_table :: "operatorCIDRRange list \<Rightarrow> bool" where
  "sorted_table rs \<longleftrightarrow> sorted (map range_key rs)"

lemma range_less_key: "range_less x y \<longleftrightarrow> range_key x < range_key y"
  by (auto simp: range_less_def range_key_def compareOperatorCIDRAddr_def)

lemma loaded_sorted: "LoadOperatorCIDRMatcher path info = Inr m \<Longrightarrow> sorted_table (ocm_ranges m)"
proof -
  have "sorted_table (SliceStable range_less rs)" for rs
    using ranges.in_order_SliceStable[of rs] by (simp add: sorted_table_def in_order_def range_less_key sorted_map not_less)
  then show "LoadOperatorCIDRMatcher path info = Inr m \<Longrightarrow> sorted_table (ocm_ranges m)"
    by (auto simp: LoadOperatorCIDRMatcher_def Let_def sorted_table_def split: if_splits sum.splits)
qed

section \<open>Search in a sorted table\<close>

lemma bsearch_cong: "(\<And>x. x < j \<Longrightarrow> p x = q x) \<Longrightarrow> bsearch p i j = bsearch q i j"
proof (induction p i j rule: bsearch.induct)
  case (1 p i j)
  show ?case
  proof (cases "i < j")
    case True
    then have "(i + j) div 2 < j" by auto
    with 1 True show ?thesis unfolding bsearch.simps[of p i j] bsearch.simps[of q i j] by (simp add: Let_def)
  next
    case False
    then show ?thesis unfolding bsearch.simps[of p i j] bsearch.simps[of q i j] by simp
  qed
qed

lemma Search_cong: "(\<And>i. i < n \<Longrightarrow> f i = g i) \<Longrightarrow> Search n f = Search n g"
  unfolding Search_def by (rule bsearch_cong) simp

text \<open>On a list along which \<open>f\<close> is monotone, the search splits it into the elements without and with \<open>f\<close>.\<close>

lemma Search_splits:
  assumes "\<And>i j. i \<le> j \<Longrightarrow> j < length xs \<Longrightarrow> f (xs ! i) \<Longrightarrow> f (xs ! j)"
  shows "take (Search (length xs) (\<lambda>i. f (xs ! i))) xs = filter (\<lambda>x. \<not> f x) xs"
    and "drop (Search (length xs) (\<lambda>i. f (xs ! i))) xs = filter f xs"
proof -
  define k where "k = Search (length xs) (\<lambda>i. f (xs ! i))"
  have "(\<forall>x < k. \<not> f (xs ! x)) \<and> (\<forall>x. k \<le> x \<longrightarrow> x < length xs \<longrightarrow> f (xs ! x))"
    unfolding k_def by (rule Search_monotone) (use assms in blast)
  moreover have "k \<le> length xs" unfolding k_def by (rule Search_le)
  ultimately have t: "\<And>x. x \<in> set (take k xs) \<Longrightarrow> \<not> f x" and d: "\<And>x. x \<in> set (drop k xs) \<Longrightarrow> f x"
    by (auto simp: in_set_conv_nth)
  have split: "filter P xs = filter P (take k xs) @ filter P (drop k xs)" for P
    by (metis append_take_drop_id filter_append)
  have "filter (\<lambda>x. \<not> f x) (take k xs) = take k xs" "filter (\<lambda>x. \<not> f x) (drop k xs) = []"
      "filter f (take k xs) = []" "filter f (drop k xs) = drop k xs"
    using t d by (auto intro: filter_True filter_False)
  then have "filter (\<lambda>x. \<not> f x) xs = take k xs" "filter f xs = drop k xs"
    using split[of "\<lambda>x. \<not> f x"] split[of f] by (simp_all only: append_Nil append_Nil2)
  then show "take (Search (length xs) (\<lambda>i. f (xs ! i))) xs = filter (\<lambda>x. \<not> f x) xs"
      "drop (Search (length xs) (\<lambda>i. f (xs ! i))) xs = filter f xs" unfolding k_def by simp_all
qed

lemma sorted_bits: "sorted_table rs \<Longrightarrow> i \<le> j \<Longrightarrow> j < length rs \<Longrightarrow> ocr_bits (rs ! i) \<le> ocr_bits (rs ! j)"
  using sorted_nth_mono[of "map range_key rs" i j] by (auto simp: sorted_table_def range_key_def)

lemma sorted_starts:
  "sorted_table rs \<Longrightarrow> \<forall>r \<in> set rs. ocr_bits r = b \<Longrightarrow> i \<le> j \<Longrightarrow> j < length rs \<Longrightarrow>
    ocr_start (rs ! i) \<le> ocr_start (rs ! j)"
  using sorted_nth_mono[of "map range_key rs" i j] by (auto simp: sorted_table_def range_key_def)

lemma sorted_table_filter: "sorted_table rs \<Longrightarrow> sorted_table (filter P rs)"
  unfolding sorted_table_def by (rule sorted_filter)

lemma segment:
  fixes rs b a
  assumes "sorted_table rs"
  defines "lo \<equiv> Search (length rs) (\<lambda>i. ocr_bits (rs ! i) \<ge> b)"
    and "hi \<equiv> Search (length rs) (\<lambda>i. ocr_bits (rs ! i) > b)"
  shows "take (Search (hi - lo) (\<lambda>i. compareOperatorCIDRAddr (ocr_start (rs ! (lo + i))) a > 0)) (drop lo rs) =
    filter (\<lambda>r. ocr_bits r = b \<and> ocr_start r \<le> a) rs"
proof -
  define T where "T = filter (\<lambda>r. ocr_bits r = b) rs"
  have d: "drop lo rs = filter (\<lambda>r. ocr_bits r \<ge> b) rs"
    unfolding lo_def using sorted_bits[OF assms(1)] by (intro Search_splits(2)) (meson order_trans)
  define S where "S = filter (\<lambda>r. ocr_bits r \<ge> b) rs"
  have tl: "take hi rs = filter (\<lambda>r. \<not> ocr_bits r > b) rs"
    unfolding hi_def using sorted_bits[OF assms(1)] by (intro Search_splits(1)) (meson less_le_trans)
  have tf: "take lo rs = filter (\<lambda>r. \<not> ocr_bits r \<ge> b) rs"
    unfolding lo_def using sorted_bits[OF assms(1)] by (intro Search_splits(1)) (meson order_trans)
  have le: "lo \<le> hi"
  proof (rule ccontr)
    assume "\<not> lo \<le> hi"
    then have lt: "hi < lo" "lo \<le> length rs" using Search_le[of "length rs"] by (simp_all add: lo_def)
    then have "rs ! hi \<in> set (take lo rs)" by (auto simp: in_set_conv_nth)
    then have "ocr_bits (rs ! hi) < b" unfolding tf by simp
    moreover have "rs ! hi \<in> set (drop hi rs)" using lt by (auto simp: in_set_conv_nth intro!: exI[of _ 0])
    moreover have "drop hi rs = filter (\<lambda>r. ocr_bits r > b) rs"
      unfolding hi_def using sorted_bits[OF assms(1)] by (intro Search_splits(2)) (meson less_le_trans)
    ultimately show False by simp
  qed
  have T: "take (hi - lo) (drop lo rs) = T"
  proof -
    have "take hi rs = take lo rs @ take (hi - lo) (drop lo rs)" using le by (metis take_add le_add_diff_inverse)
    moreover have "filter (\<lambda>r. \<not> ocr_bits r > b) rs = filter (\<lambda>r. \<not> ocr_bits r \<ge> b) rs @ T"
    proof -
      have "filter P rs = filter P (take lo rs) @ filter P (drop lo rs)" for P
        by (metis append_take_drop_id filter_append)
      from this[of "\<lambda>r. \<not> ocr_bits r > b"] show ?thesis
        unfolding tf d filter_filter T_def by (auto intro!: arg_cong2[of _ _ _ _ append] filter_cong)
    qed
    ultimately show ?thesis unfolding tl tf by simp
  qed
  have h: "hi \<le> length rs" unfolding hi_def by (rule Search_le)
  have len: "hi - lo = length T" using arg_cong[OF T, of length] h by simp
  have nth: "rs ! (lo + i) = T ! i" if "i < length T" for i
    using that len h unfolding T[symmetric] by simp
  have st: "sorted_table T" "\<forall>r \<in> set T. ocr_bits r = b"
    using assms(1) by (simp_all add: T_def sorted_table_filter)
  define k where "k = Search (length T) (\<lambda>i. ocr_start (T ! i) > a)"
  have "Search (hi - lo) (\<lambda>i. compareOperatorCIDRAddr (ocr_start (rs ! (lo + i))) a > 0) = k"
    unfolding k_def len by (rule Search_cong) (auto simp: nth compareOperatorCIDRAddr_def)
  moreover have "take k (drop lo rs) = take k T"
    using Search_le[of "length T"] len unfolding T[symmetric] k_def by (simp add: min_absorb1)
  moreover have "take k T = filter (\<lambda>r. \<not> ocr_start r > a) T"
    unfolding k_def using sorted_starts[OF st] by (intro Search_splits(1)) (meson less_le_trans)
  ultimately show ?thesis by (simp add: T_def not_less conj_commute)
qed


lemma Lookup_last:
  assumes "sorted_table (ocm_ranges m)" "operatorCIDRAddrFromIP ip = (a, b)"
  shows "Lookup m (Some ip) = scan_back a (rev (filter (\<lambda>r. ocr_bits r = b \<and> ocr_start r \<le> a) (ocm_ranges m)))"
proof (cases "ocm_ranges m = []")
  case False
  define rs where "rs = ocm_ranges m"
  define lo where "lo = Search (length rs) (\<lambda>i. ocr_bits (rs ! i) \<ge> b)"
  have srt: "sorted_table rs" using assms(1) by (simp add: rs_def)
  have d: "drop lo rs = filter (\<lambda>r. ocr_bits r \<ge> b) rs"
    unfolding lo_def using sorted_bits[OF srt] by (intro Search_splits(2)) (meson order_trans)
  show ?thesis
  proof (cases "lo \<ge> length rs \<or> ocr_bits (rs ! lo) \<noteq> b")
    case True
    have "ocr_bits r \<noteq> b" if r: "r \<in> set rs" for r
    proof
      assume b: "ocr_bits r = b"
      then have "r \<in> set (drop lo rs)" using r d by simp
      then obtain i where i: "r = rs ! (lo + i)" "lo + i < length rs" by (auto simp: in_set_conv_nth)
      then have "ocr_bits (rs ! lo) \<le> b" using sorted_bits[OF srt, of lo "lo + i"] b by simp
      moreover have "rs ! lo \<in> set (drop lo rs)" using i(2) by (auto simp: in_set_conv_nth intro!: exI[of _ 0])
      then have "b \<le> ocr_bits (rs ! lo)" using d by simp
      ultimately show False using True i(2) by simp
    qed
    then have "filter (\<lambda>r. ocr_bits r = b \<and> ocr_start r \<le> a) rs = []" by (auto simp: filter_empty_conv)
    then show ?thesis using True False assms(2)
      by (simp add: Lookup_def Let_def flip: rs_def lo_def)
  next
    case ok: False
    then show ?thesis
      using segment[OF srt, of b a] assms(2) False
      by (simp add: Lookup_def Let_def flip: rs_def lo_def)
  qed
qed (simp add: Lookup_def)

lemma scan_back_sound:
  "scan_back a rs \<noteq> [] \<Longrightarrow> \<exists>r \<in> set rs. ocr_start r \<le> a \<and> a \<le> ocr_end r \<and> scan_back a rs = ocr_operator r"
  by (induction rs) (auto simp: compareOperatorCIDRAddr_def split: if_splits)

lemma Lookup_sound:
  assumes "sorted_table (ocm_ranges m)" "operatorCIDRAddrFromIP ip = (a, b)" "Lookup m (Some ip) \<noteq> []"
  shows "\<exists>r \<in> set (ocm_ranges m). range_holds a b r \<and> Lookup m (Some ip) = ocr_operator r"
  using scan_back_sound[of a "rev (filter (\<lambda>r. ocr_bits r = b \<and> ocr_start r \<le> a) (ocm_ranges m))"] assms(3)
  unfolding Lookup_last[OF assms(1,2)] by (auto simp: range_holds_def)

text \<open>Ranges of the same length do not overlap.\<close>

definition non_overlapping :: "operatorCIDRRange list \<Rightarrow> bool" where
  "non_overlapping rs \<longleftrightarrow> sorted_wrt (\<lambda>r r'. ocr_bits r = ocr_bits r' \<longrightarrow> ocr_end r < ocr_start r') rs"

lemma Lookup_complete:
  assumes "sorted_table (ocm_ranges m)" "non_overlapping (ocm_ranges m)" "operatorCIDRAddrFromIP ip = (a, b)"
    and "r \<in> set (ocm_ranges m)" "range_holds a b r"
  shows "Lookup m (Some ip) = ocr_operator r"
proof -
  obtain xs ys where rs: "ocm_ranges m = xs @ r # ys" using assms(4) by (metis in_set_conv_decomp)
  have hold: "ocr_bits r = b" "ocr_start r \<le> a" "a \<le> ocr_end r" using assms(5) by (simp_all add: range_holds_def)
  have "\<not> (ocr_bits r' = b \<and> ocr_start r' \<le> a)" if "r' \<in> set ys" for r'
    using assms(2) that hold unfolding non_overlapping_def rs sorted_wrt_append by fastforce
  then have "filter (\<lambda>r. ocr_bits r = b \<and> ocr_start r \<le> a) ys = []" by (auto simp: filter_empty_conv)
  then show ?thesis
    unfolding Lookup_last[OF assms(1,3)] rs using hold by (auto simp: compareOperatorCIDRAddr_def)
qed

section \<open>Properties\<close>

text \<open>The address range of a network is the network: an address without zone lies between the ends computed for a
  prefix, and has its length, exactly when the prefix (an IPv4-mapped one taken as IPv4) contains it.
  For IPv6 the upper end is computed byte by byte.\<close>

theorem prefix_range_is_prefix:
  assumes "operatorCIDRPrefixRange p = Some (s, e, bits)" "Zone a = []"
  shows "s \<le> a \<and> a \<le> e \<and> bits = BitLen a \<longleftrightarrow> prefix_contains (unmapped p) a"
  using assms by (rule prefix_range_holds)

theorem prefix_range_is_prefix_witness:
  "\<exists>s e bits. operatorCIDRPrefixRange (Prefix (Addr4 0x0A000000) 8) = Some (s, e, bits) \<and> s \<le> Addr4 0x0A010203 \<and> Addr4 0x0A010203 \<le> e"
proof -
  have r: "operatorCIDRPrefixRange (Prefix (Addr4 0x0A000000) 8) = Some (Addr4 0x0A000000, Addr4 0x0AFFFFFF, 32)" by code_simp
  have "prefix_contains (unmapped (Prefix (Addr4 0x0A000000) 8)) (Addr4 0x0A010203)" by code_simp
  with prefix_range_is_prefix[OF r, of "Addr4 0x0A010203"] r show ?thesis by simp
qed

text \<open>A lookup in a loaded table never invents an operator: the operator it returns is that of a loaded range that
  holds the address.\<close>

theorem operator_lookup_sound:
  assumes "LoadOperatorCIDRMatcher path info = Inr m" "Lookup m (Some ip) \<noteq> ''''"
  shows "\<exists>r \<in> set (ocm_ranges m). range_holds (fst (operatorCIDRAddrFromIP ip)) (snd (operatorCIDRAddrFromIP ip)) r
    \<and> Lookup m (Some ip) = ocr_operator r"
  using Lookup_sound[OF loaded_sorted[OF assms(1)] surjective_pairing assms(2)] .

text \<open>On a loaded table whose ranges do not overlap the bisection finds what a scan of the table finds: the
  operator of the range that holds the address, and the empty text when there is none.\<close>

theorem operator_lookup_is_scan:
  assumes "LoadOperatorCIDRMatcher path info = Inr m" "non_overlapping (ocm_ranges m)"
  shows "Lookup m (Some ip) =
    (case find (range_holds (fst (operatorCIDRAddrFromIP ip)) (snd (operatorCIDRAddrFromIP ip))) (ocm_ranges m) of
       Some r \<Rightarrow> ocr_operator r | None \<Rightarrow> '''')"
proof -
  note s = loaded_sorted[OF assms(1)]
  show ?thesis
  proof (cases "find (range_holds (fst (operatorCIDRAddrFromIP ip)) (snd (operatorCIDRAddrFromIP ip))) (ocm_ranges m)")
    case None
    then have "Lookup m (Some ip) = []" using Lookup_sound[OF s surjective_pairing, of ip] by (auto simp: find_None_iff)
    with None show ?thesis by simp
  next
    case (Some r)
    then have "r \<in> set (ocm_ranges m)" "range_holds (fst (operatorCIDRAddrFromIP ip)) (snd (operatorCIDRAddrFromIP ip)) r"
      by (auto simp: find_Some_iff)
    from Lookup_complete[OF s assms(2) surjective_pairing this] Some show ?thesis by simp
  qed
qed

definition sample_files :: path_info where
  "sample_files = Path_Dir (Some [Dir_Entry ''telecom.txt'' False (Some [''# telecom'', ''1.0.1.0/24'']),
    Dir_Entry ''unicom.txt'' False (Some [''1.0.2.0/23''])])"

definition sample_matcher :: OperatorCIDRMatcher where
  "sample_matcher = \<lparr>ocm_ranges =
    [\<lparr>ocr_start = Addr4 0x01000100, ocr_end = Addr4 0x010001FF, ocr_bits = 32, ocr_operator = ''cn-telecom''\<rparr>,
     \<lparr>ocr_start = Addr4 0x01000200, ocr_end = Addr4 0x010003FF, ocr_bits = 32, ocr_operator = ''cn-unicom''\<rparr>]\<rparr>"

lemma sample_matcher_loaded: "LoadOperatorCIDRMatcher ''cidr'' sample_files = Inr sample_matcher"
  by code_simp

lemma sample_matcher_lookup: "Lookup sample_matcher (Some (IP4 0x01000305)) = ''cn-unicom''"
  by code_simp

theorem operator_lookup_sound_witness:
  "\<exists>r \<in> set (ocm_ranges sample_matcher). range_holds (Addr4 0x01000305) 32 r \<and> ocr_operator r = ''cn-unicom''"
proof -
  have "Lookup sample_matcher (Some (IP4 0x01000305)) \<noteq> ''''" by (simp add: sample_matcher_lookup)
  from operator_lookup_sound[OF sample_matcher_loaded this] show ?thesis
    by (auto simp: operatorCIDRAddrFromIP_def sample_matcher_lookup)
qed

theorem operator_lookup_is_scan_witness: "Lookup sample_matcher (Some (IP4 0x01000405)) = ''''"
proof -
  have "non_overlapping (ocm_ranges sample_matcher)" by (simp add: non_overlapping_def sample_matcher_def)
  moreover have "find (range_holds (Addr4 0x01000405) 32) (ocm_ranges sample_matcher) = None" by code_simp
  ultimately show ?thesis
    using operator_lookup_is_scan[OF sample_matcher_loaded, of "IP4 0x01000405"] by (simp add: operatorCIDRAddrFromIP_def)
qed

text \<open>Nested ranges: an address of the enclosing network that lies after the inner one is not found.\<close>

lemma operator_lookup_misses_enclosing:
  "Lookup \<lparr>ocm_ranges =
      [\<lparr>ocr_start = Addr4 0x01000000, ocr_end = Addr4 0x0100FFFF, ocr_bits = 32, ocr_operator = ''cn-telecom''\<rparr>,
       \<lparr>ocr_start = Addr4 0x01000100, ocr_end = Addr4 0x010001FF, ocr_bits = 32, ocr_operator = ''cn-unicom''\<rparr>]\<rparr>
    (Some (IP4 0x01000305)) = ''''"
  by code_simp

end
