(* ===== verification/Rate_Limiter.thy ===== *)
theory Rate_Limiter
  imports Net_Addr
begin

text \<open>
  Remote addresses (\<open>net.Addr\<close> as the DNS server gets it) and the two rate limiters of \<open>rate_limiter.go\<close>:
  queries per source, and error responses per source, name and response code. The clock is an
  argument; a limiter is never nil, as the server always makes one.

  Shown: for calls at times that do not go back, a limiter admits of each key exactly the first
  \<open>limit\<close> calls in each window of one second, whatever other keys are used and whenever old buckets are
  removed. The argument is made once, in the locale \<open>window_limiter\<close>, and holds for both limiters by
  interpretation.
\<close>

section \<open>Remote addresses\<close>

text \<open>A UDP or TCP address has an IP, which may be nil, a port and a zone; of any other address only the
  text is known.\<close>

datatype net_addr = UDPAddr "net_ip option" nat string | TCPAddr "net_ip option" nat string | OtherAddr string

definition JoinHostPort :: "string \<Rightarrow> nat \<Rightarrow> string" where
  "JoinHostPort host port =
    (if CHR '':'' \<in> set host then ''['' @ host @ '']:'' @ FormatUint port else host @ '':'' @ FormatUint port)"

definition ip_port_String :: "net_ip option \<Rightarrow> nat \<Rightarrow> string \<Rightarrow> string" where
  "ip_port_String ip port zone =
    (let host = (case ip of None \<Rightarrow> '''' | Some ip \<Rightarrow> IP_String ip)
     in JoinHostPort (if zone = '''' then host else host @ ''%'' @ zone) port)"

fun net_addr_String :: "net_addr \<Rightarrow> string" where
  "net_addr_String (UDPAddr ip port zone) = ip_port_String ip port zone"
| "net_addr_String (TCPAddr ip port zone) = ip_port_String ip port zone"
| "net_addr_String (OtherAddr s) = s"

text \<open>\<open>CutLast\<close> splits at the last occurrence of a character.\<close>

definition CutLast :: "string \<Rightarrow> char \<Rightarrow> (string \<times> string) option" where
  "CutLast s c =
    (if c \<notin> set s then None
     else Some (rev (tl (dropWhile (\<lambda>x. x \<noteq> c) (rev s))), rev (takeWhile (\<lambda>x. x \<noteq> c) (rev s))))"

text \<open>The host of \<open>net.SplitHostPort\<close>; \<open>None\<close> when it returns an error.\<close>

definition SplitHostPort :: "string \<Rightarrow> string option" where
  "SplitHostPort s =
    (case CutLast s CHR '':'' of
       None \<Rightarrow> None
     | Some (before, port) \<Rightarrow>
         (case s of
            CHR ''['' # rest \<Rightarrow>
              (case Cut rest CHR '']'' of
                 (host, after, ok) \<Rightarrow>
                   if \<not> ok \<or> after = '''' \<or> after \<noteq> CHR '':'' # port then None
                   else if CHR ''['' \<in> set rest \<or> CHR '']'' \<in> set after then None
                   else Some host)
          | _ \<Rightarrow>
              if CHR '':'' \<in> set before then None
              else if CHR ''['' \<in> set s \<or> CHR '']'' \<in> set s then None
              else Some before))"

definition Trim :: "string \<Rightarrow> char list \<Rightarrow> string" where
  "Trim s cutset = rev (dropWhile (\<lambda>c. c \<in> set cutset) (rev (dropWhile (\<lambda>c. c \<in> set cutset) s)))"

definition remoteRateLimitKey :: "net_addr option \<Rightarrow> string" where
  "remoteRateLimitKey remoteAddr =
    (case remoteAddr of
       None \<Rightarrow> ''''
     | Some addr \<Rightarrow>
         (case (case addr of UDPAddr ip _ _ \<Rightarrow> ip | TCPAddr ip _ _ \<Rightarrow> ip | OtherAddr _ \<Rightarrow> None) of
            Some ip \<Rightarrow> IP_String ip
          | None \<Rightarrow>
              (case SplitHostPort (net_addr_String addr) of
                 Some host \<Rightarrow> if TrimSpace host \<noteq> '''' then Trim host ''[]'' else TrimSpace (net_addr_String addr)
               | None \<Rightarrow> TrimSpace (net_addr_String addr))))"

section \<open>Limiters\<close>

record rateLimitBucket =
  rb_WindowStart :: gotime
  rb_Count :: int
  rb_LastSeenAt :: gotime

type_synonym buckets_map = "(string, rateLimitBucket) gomap"

record QueryRateLimiter =
  ql_limit :: int
  ql_window :: duration
  ql_buckets :: buckets_map

record ResponseRateLimiter =
  rl_limit :: int
  rl_window :: duration
  rl_buckets :: buckets_map

definition NewQueryRateLimiter :: "int \<Rightarrow> QueryRateLimiter" where
  "NewQueryRateLimiter limit = \<lparr>ql_limit = (if limit < 0 then 0 else limit), ql_window = Second, ql_buckets = []\<rparr>"

definition QueryRateLimiter_SetLimit :: "int \<Rightarrow> QueryRateLimiter \<Rightarrow> QueryRateLimiter" where
  "QueryRateLimiter_SetLimit limit l =
    (let limit = (if limit < 0 then 0 else limit); l = l\<lparr>ql_limit := limit\<rparr>
     in if limit = 0 then l\<lparr>ql_buckets := []\<rparr> else l)"

definition NewResponseRateLimiter :: "int \<Rightarrow> ResponseRateLimiter" where
  "NewResponseRateLimiter limit = \<lparr>rl_limit = (if limit < 0 then 0 else limit), rl_window = Second, rl_buckets = []\<rparr>"

definition ResponseRateLimiter_SetLimit :: "int \<Rightarrow> ResponseRateLimiter \<Rightarrow> ResponseRateLimiter" where
  "ResponseRateLimiter_SetLimit limit l =
    (let limit = (if limit < 0 then 0 else limit); l = l\<lparr>rl_limit := limit\<rparr>
     in if limit = 0 then l\<lparr>rl_buckets := []\<rparr> else l)"

text \<open>The two methods \<open>prune\<close> and the counting part of the two methods \<open>Allow\<close> are the same code.\<close>

definition prune :: "duration \<Rightarrow> gotime \<Rightarrow> buckets_map \<Rightarrow> buckets_map" where
  "prune window now buckets =
    (let cutoff = now - 2 * window in filter (\<lambda>(key, bucket). \<not> rb_LastSeenAt bucket < cutoff) buckets)"

definition bucket_of :: "gotime \<Rightarrow> buckets_map \<Rightarrow> string \<Rightarrow> rateLimitBucket" where
  "bucket_of windowStart buckets key =
    (case map_of buckets key of
       None \<Rightarrow> \<lparr>rb_WindowStart = windowStart, rb_Count = 0, rb_LastSeenAt = 0\<rparr>
     | Some bucket \<Rightarrow>
         if rb_WindowStart bucket = 0 \<or> rb_WindowStart bucket \<noteq> windowStart
         then \<lparr>rb_WindowStart = windowStart, rb_Count = 0, rb_LastSeenAt = 0\<rparr> else bucket)"

definition count_call :: "duration \<Rightarrow> nat \<Rightarrow> string \<Rightarrow> gotime \<Rightarrow> buckets_map \<Rightarrow> rateLimitBucket \<times> buckets_map" where
  "count_call window cap key now buckets =
    (let windowStart = Truncate now window;
         buckets = (if length buckets > cap then prune window now buckets else buckets);
         bucket = bucket_of windowStart buckets key;
         bucket = bucket\<lparr>rb_Count := rb_Count bucket + 1, rb_LastSeenAt := now\<rparr>
     in (bucket, AList.update key bucket buckets))"

definition query_key :: "net_addr option \<Rightarrow> string" where
  "query_key remoteAddr = (let key = remoteRateLimitKey remoteAddr in if key = '''' then ''unknown'' else key)"

text \<open>\<open>now\<close> is what the code reads from the clock before it takes the lock; a call is one step, at the moment when it has the
  lock. With callers at the same time the readings may therefore come out of order; theorems that need them in order
  say so.\<close>

definition QueryRateLimiter_Allow :: "net_addr option \<Rightarrow> gotime \<Rightarrow> QueryRateLimiter \<Rightarrow> bool \<times> QueryRateLimiter" where
  "QueryRateLimiter_Allow remoteAddr now l =
    (if ql_limit l \<le> 0 then (True, l)
     else
       (case count_call (ql_window l) 4096 (query_key remoteAddr) now (ql_buckets l) of
          (bucket, buckets) \<Rightarrow> (rb_Count bucket \<le> ql_limit l, l\<lparr>ql_buckets := buckets\<rparr>)))"

text \<open>The key of a response; \<open>None\<close> when responses with its code are not limited.\<close>

definition response_key :: "net_addr option \<times> string \<times> string \<Rightarrow> string option" where
  "response_key = (\<lambda>(remoteAddr, qname, rcode).
    (let rcode = ToUpper (TrimSpace rcode)
     in if rcode = '''' \<or> rcode = ''NOERROR'' \<or> rcode = ''NODATA'' then None
        else Some (query_key remoteAddr @ ''|'' @ ToLower (TrimSpace qname) @ ''|'' @ rcode)))"

definition ResponseRateLimiter_Allow ::
  "net_addr option \<times> string \<times> string \<Rightarrow> gotime \<Rightarrow> ResponseRateLimiter \<Rightarrow> bool \<times> ResponseRateLimiter" where
  "ResponseRateLimiter_Allow call now l =
    (case response_key call of
       None \<Rightarrow> (True, l)
     | Some key \<Rightarrow>
         if rl_limit l \<le> 0 then (True, l)
         else
           (case count_call (rl_window l) 8192 key now (rl_buckets l) of
              (bucket, buckets) \<Rightarrow> (rb_Count bucket \<le> rl_limit l, l\<lparr>rl_buckets := buckets\<rparr>)))"

section \<open>Limiting per window\<close>

text \<open>The answers to a sequence of calls, each with its time.\<close>

fun limiter_run :: "('c \<Rightarrow> gotime \<Rightarrow> 's \<Rightarrow> bool \<times> 's) \<Rightarrow> 's \<Rightarrow> ('c \<times> gotime) list \<Rightarrow> bool list" where
  "limiter_run allow s [] = []"
| "limiter_run allow s ((c, t) # cs) = (case allow c t s of (ok, s') \<Rightarrow> ok # limiter_run allow s' cs)"

text \<open>How many calls of a list have a key in a window, and how many of those are admitted.\<close>

definition calls_in ::
  "('c \<Rightarrow> 'k option) \<Rightarrow> (gotime \<Rightarrow> gotime) \<Rightarrow> 'k \<Rightarrow> gotime \<Rightarrow> ('c \<times> gotime) list \<Rightarrow> nat" where
  "calls_in key window k w cs = length (filter (\<lambda>(c, t). key c = Some k \<and> window t = w) cs)"

definition admitted_in ::
  "('c \<Rightarrow> 'k option) \<Rightarrow> (gotime \<Rightarrow> gotime) \<Rightarrow> 'k \<Rightarrow> gotime \<Rightarrow> ('c \<times> gotime) list \<Rightarrow> bool list \<Rightarrow> nat" where
  "admitted_in key window k w cs oks =
    length (filter (\<lambda>((c, t), ok). key c = Some k \<and> window t = w \<and> ok) (zip cs oks))"

text \<open>The contract of a limiter: \<open>ok s t\<close> says that \<open>s\<close> is well formed and has seen calls up to \<open>t\<close> only.\<close>

locale window_limiter =
  fixes allow :: "'c \<Rightarrow> gotime \<Rightarrow> 's \<Rightarrow> bool \<times> 's" and key :: "'c \<Rightarrow> 'k option"
    and limit :: "'s \<Rightarrow> int" and window :: "gotime \<Rightarrow> gotime"
    and counted :: "'s \<Rightarrow> 'k \<Rightarrow> gotime \<Rightarrow> int" and ok :: "'s \<Rightarrow> gotime \<Rightarrow> bool"
  assumes window_mono: "t \<le> t' \<Longrightarrow> window t \<le> window t'"
    and allow_ok: "ok s t \<Longrightarrow> t \<le> t' \<Longrightarrow> ok (snd (allow c t' s)) t'"
    and allow_limit: "limit (snd (allow c t s)) = limit s"
    and exempt: "key c = None \<Longrightarrow> allow c t s = (True, s)"
    and counted_nonneg: "ok s t \<Longrightarrow> 0 \<le> counted s k w"
    and counted_future: "ok s t \<Longrightarrow> window t < w \<Longrightarrow> counted s k w = 0"
    and admits: "ok s t \<Longrightarrow> t \<le> t' \<Longrightarrow> 0 < limit s \<Longrightarrow> window t' \<noteq> 0 \<Longrightarrow> key c = Some k \<Longrightarrow>
      fst (allow c t' s) \<longleftrightarrow> counted s k (window t') < limit s"
    and counts: "ok s t \<Longrightarrow> t \<le> t' \<Longrightarrow> 0 < limit s \<Longrightarrow> window t' \<noteq> 0 \<Longrightarrow> key c = Some k \<Longrightarrow>
      counted (snd (allow c t' s)) k' (window t') = counted s k' (window t') + (if k' = k then 1 else 0)"
begin

lemma no_calls: "\<forall>(c, t) \<in> set cs. window t \<noteq> w \<Longrightarrow> calls_in key window k w cs = 0"
  by (auto simp: calls_in_def filter_empty_conv)

lemma admitted_le_calls: "length oks = length cs \<Longrightarrow> admitted_in key window k w cs oks \<le> calls_in key window k w cs"
proof (induction cs arbitrary: oks)
  case (Cons c cs)
  then obtain b bs where "oks = b # bs" by (cases oks) auto
  then show ?case using Cons.IH[of bs] Cons.prems by (auto simp: admitted_in_def calls_in_def)
qed (simp add: admitted_in_def calls_in_def)

lemma length_run: "length (limiter_run allow s cs) = length cs"
  by (induction cs arbitrary: s) (auto split: prod.splits)

lemma admitted_from:
  assumes "ok s t0" "sorted (t0 # map snd cs)" "0 < limit s" "w \<noteq> 0"
  shows "int (admitted_in key window k w cs (limiter_run allow s cs)) =
    min (int (calls_in key window k w cs)) (max 0 (limit s - counted s k w))"
  using assms
proof (induction cs arbitrary: s t0)
  case Nil
  then show ?case by (simp add: admitted_in_def calls_in_def)
next
  case (Cons x cs)
  obtain c t where x: "x = (c, t)" by fastforce
  obtain b s' where a: "allow c t s = (b, s')" by fastforce
  have t: "t0 \<le> t" "sorted (t # map snd cs)" using Cons.prems(2) by (auto simp: x)
  have s': "ok s' t" "limit s' = limit s"
    using allow_ok[OF Cons.prems(1) t(1), of c] allow_limit[of c t s] a by simp_all
  have IH: "int (admitted_in key window k w cs (limiter_run allow s' cs)) =
      min (int (calls_in key window k w cs)) (max 0 (limit s - counted s' k w))"
    using Cons.IH[OF s'(1) t(2)] s'(2) Cons.prems(3,4) by simp
  have calls: "calls_in key window k w (x # cs) =
      (if key c = Some k \<and> window t = w then 1 else 0) + calls_in key window k w cs"
    by (simp add: x calls_in_def)
  have adm: "admitted_in key window k w (x # cs) (limiter_run allow s (x # cs)) =
      (if key c = Some k \<and> window t = w \<and> b then 1 else 0) + admitted_in key window k w cs (limiter_run allow s' cs)"
    by (simp add: x a admitted_in_def)
  show ?case
  proof (cases "window t = w")
    case True
    show ?thesis
    proof (cases "key c")
      case None
      then have "s' = s" using exempt[of c t s] a by simp
      then show ?thesis using IH None by (simp add: calls adm)
    next
      case (Some k')
      have "b \<longleftrightarrow> counted s k' w < limit s" "counted s' k w = counted s k w + (if k = k' then 1 else 0)"
        using admits[OF Cons.prems(1) t(1) Cons.prems(3) _ Some] counts[OF Cons.prems(1) t(1) Cons.prems(3) _ Some, of k]
          True Cons.prems(4) a by auto
      then show ?thesis using IH Some True by (auto simp: calls adm min_def max_def split: if_splits)
    qed
  next
    case False
    show ?thesis
    proof (cases "\<exists>(c', t') \<in> set cs. window t' = w")
      case True
      then obtain c' t' where m: "(c', t') \<in> set cs" "window t' = w" by auto
      have "t \<le> t'" using t(2) m(1) by force
      then have lt: "window t < w" using window_mono[of t t'] m(2) False by simp
      then have "window t0 < w" using window_mono[OF t(1)] by simp
      then have "counted s k w = 0" "counted s' k w = 0"
        using counted_future Cons.prems(1) s'(1) lt by blast+
      then show ?thesis using IH False by (simp add: calls adm)
    next
      case no: False
      then have z: "calls_in key window k w cs = 0" by (intro no_calls) auto
      then have "admitted_in key window k w cs (limiter_run allow s' cs) = 0"
        using admitted_le_calls[of "limiter_run allow s' cs" cs k w] length_run by simp
      then show ?thesis using z False by (simp add: calls adm)
    qed
  qed
qed

lemma exactly_the_limit:
  assumes "ok s t0" "sorted (t0 # map snd cs)" "0 < limit s" "w \<noteq> 0" "counted s k w = 0"
  shows "int (admitted_in key window k w cs (limiter_run allow s cs)) = min (int (calls_in key window k w cs)) (limit s)"
  using admitted_from[OF assms(1-4)] assms(3,5) by simp

end

section \<open>Both limiters keep the contract\<close>

definition counted_in :: "buckets_map \<Rightarrow> string \<Rightarrow> gotime \<Rightarrow> int" where
  "counted_in buckets k w =
    (case map_of buckets k of Some b \<Rightarrow> if rb_WindowStart b = w then rb_Count b else 0 | None \<Rightarrow> 0)"

text \<open>Buckets that have seen calls up to \<open>t\<close>.\<close>

definition buckets_ok :: "buckets_map \<Rightarrow> gotime \<Rightarrow> bool" where
  "buckets_ok buckets t \<longleftrightarrow> distinct (map fst buckets) \<and> (\<forall>k b. map_of buckets k = Some b \<longrightarrow>
    rb_WindowStart b = Truncate (rb_LastSeenAt b) Second \<and> rb_LastSeenAt b \<le> t \<and> 0 \<le> rb_Count b)"

lemma Truncate_mono: "t \<le> t' \<Longrightarrow> Truncate t Second \<le> Truncate t' Second"
  by (simp add: Truncate_def Second_def minus_mod_eq_mult_div zdiv_mono1)

lemma Truncate_window: "Truncate t Second \<le> t" "t < Truncate t Second + Second"
  using pos_mod_sign[of Second t] pos_mod_bound[of Second t] by (simp_all add: Truncate_def Second_def)

lemma map_of_prune:
  assumes "distinct (map fst m)"
  shows "map_of (prune window now m) k =
    (case map_of m k of Some b \<Rightarrow> if rb_LastSeenAt b < now - 2 * window then None else Some b | None \<Rightarrow> None)"
  using assms
proof (induction m)
  case (Cons x m)
  obtain a b where x: "x = (a, b)" by fastforce
  have na: "map_of m a = None" using Cons.prems by (simp add: x map_of_eq_None_iff)
  have IH: "map_of (prune window now m) k =
      (case map_of m k of Some b \<Rightarrow> if rb_LastSeenAt b < now - 2 * window then None else Some b | None \<Rightarrow> None)"
    using Cons by simp
  have p: "prune window now (x # m) = (if rb_LastSeenAt b < now - 2 * window then prune window now m else (a, b) # prune window now m)"
    by (simp add: prune_def x)
  show ?case unfolding p using IH na by (cases "k = a") (simp_all add: x)
qed (simp add: prune_def)

lemma distinct_prune: "distinct (map fst m) \<Longrightarrow> distinct (map fst (prune window now m))"
  by (simp add: prune_def Let_def distinct_map_filter)

lemma prune_ok: "buckets_ok m t \<Longrightarrow> buckets_ok (prune window now m) t"
  by (auto simp: buckets_ok_def distinct_prune map_of_prune split: option.splits if_splits)

text \<open>Removing old buckets never forgets a call of the current window.\<close>

lemma counted_prune:
  assumes "buckets_ok m t" "w = Truncate now Second"
  shows "counted_in (prune Second now m) k w = counted_in m k w"
proof (cases "map_of m k")
  case (Some b)
  have "rb_WindowStart b \<noteq> w" if "rb_LastSeenAt b < now - 2 * Second"
    using that assms Some Truncate_window[of now] Truncate_window[of "rb_LastSeenAt b"] by (auto simp: buckets_ok_def Second_def)
  then show ?thesis using assms(1) Some by (auto simp: counted_in_def buckets_ok_def map_of_prune)
qed (use assms in \<open>simp add: counted_in_def buckets_ok_def map_of_prune\<close>)

lemma count_call_ok:
  assumes "buckets_ok m t" "t \<le> now"
  shows "buckets_ok (snd (count_call Second cap key now m)) now"
proof -
  have "buckets_ok m' t \<Longrightarrow> buckets_ok (AList.update key
      ((bucket_of (Truncate now Second) m' key)\<lparr>rb_Count := rb_Count (bucket_of (Truncate now Second) m' key) + 1,
        rb_LastSeenAt := now\<rparr>) m') now" for m'
    using assms(2) by (fastforce simp: buckets_ok_def distinct_update update_conv' bucket_of_def split: option.splits)
  then show ?thesis using assms(1) prune_ok[OF assms(1)] by (simp add: count_call_def Let_def)
qed

lemma count_call_counts:
  assumes "buckets_ok m t" "Truncate now Second \<noteq> 0"
  shows "rb_Count (fst (count_call Second cap key now m)) = counted_in m key (Truncate now Second) + 1"
    and "counted_in (snd (count_call Second cap key now m)) k (Truncate now Second) =
      counted_in m k (Truncate now Second) + (if k = key then 1 else 0)"
proof -
  let ?w = "Truncate now Second" and ?m = "if length m > cap then prune Second now m else m"
  have same: "counted_in ?m k ?w = counted_in m k ?w" for k using counted_prune[OF assms(1) refl] by simp
  have b: "rb_Count (bucket_of ?w ?m key) = counted_in ?m key ?w" "rb_WindowStart (bucket_of ?w ?m key) = ?w"
    using assms(2) by (auto simp: bucket_of_def counted_in_def split: option.splits)
  show "rb_Count (fst (count_call Second cap key now m)) = counted_in m key ?w + 1"
    using b(1) same[of key] by (simp add: count_call_def Let_def)
  have "counted_in (AList.update key (b'\<lparr>rb_Count := rb_Count b' + 1, rb_LastSeenAt := now\<rparr>) ?m) k ?w =
      counted_in ?m k ?w + (if k = key then 1 else 0)" if "b' = bucket_of ?w ?m key" for b'
    using b that by (auto simp: counted_in_def update_conv')
  then show "counted_in (snd (count_call Second cap key now m)) k ?w = counted_in m k ?w + (if k = key then 1 else 0)"
    using same[of k] by (simp add: count_call_def Let_def)
qed

lemma counted_in_future: "buckets_ok m t \<Longrightarrow> Truncate t Second < w \<Longrightarrow> counted_in m k w = 0"
  using Truncate_mono by (fastforce simp: buckets_ok_def counted_in_def split: option.splits)

lemma counted_in_nonneg: "buckets_ok m t \<Longrightarrow> 0 \<le> counted_in m k w"
  by (auto simp: buckets_ok_def counted_in_def split: option.splits)

lemma QueryRateLimiter_Allow_eq:
  "QueryRateLimiter_Allow c t l =
    (if ql_limit l \<le> 0 then (True, l)
     else (rb_Count (fst (count_call (ql_window l) 4096 (query_key c) t (ql_buckets l))) \<le> ql_limit l,
       l\<lparr>ql_buckets := snd (count_call (ql_window l) 4096 (query_key c) t (ql_buckets l))\<rparr>))"
  by (simp add: QueryRateLimiter_Allow_def split_def)

lemma ResponseRateLimiter_Allow_eq:
  "ResponseRateLimiter_Allow c t l =
    (case response_key c of None \<Rightarrow> (True, l) | Some key \<Rightarrow>
     if rl_limit l \<le> 0 then (True, l)
     else (rb_Count (fst (count_call (rl_window l) 8192 key t (rl_buckets l))) \<le> rl_limit l,
       l\<lparr>rl_buckets := snd (count_call (rl_window l) 8192 key t (rl_buckets l))\<rparr>))"
  by (simp add: ResponseRateLimiter_Allow_def split_def split: option.splits)

lemma buckets_ok_later: "buckets_ok m t \<Longrightarrow> t \<le> t' \<Longrightarrow> buckets_ok m t'"
  by (fastforce simp: buckets_ok_def)

lemmas limiter_rules = count_call_ok count_call_counts counted_in_future counted_in_nonneg Truncate_mono buckets_ok_later

interpretation queries: window_limiter QueryRateLimiter_Allow "\<lambda>c. Some (query_key c)" ql_limit "\<lambda>t. Truncate t Second"
    "\<lambda>l. counted_in (ql_buckets l)" "\<lambda>l t. ql_window l = Second \<and> buckets_ok (ql_buckets l) t"
  by unfold_locales (auto simp: QueryRateLimiter_Allow_eq limiter_rules)

interpretation responses: window_limiter ResponseRateLimiter_Allow response_key rl_limit "\<lambda>t. Truncate t Second"
    "\<lambda>l. counted_in (rl_buckets l)" "\<lambda>l t. rl_window l = Second \<and> buckets_ok (rl_buckets l) t"
  by unfold_locales (auto simp: ResponseRateLimiter_Allow_eq limiter_rules split: option.splits)

lemma new_limiters_ok:
  "ql_window (NewQueryRateLimiter n) = Second \<and> buckets_ok (ql_buckets (NewQueryRateLimiter n)) t"
  "rl_window (NewResponseRateLimiter n) = Second \<and> buckets_ok (rl_buckets (NewResponseRateLimiter n)) t"
  by (simp_all add: NewQueryRateLimiter_def NewResponseRateLimiter_def buckets_ok_def)

lemma new_limiters_counted:
  "counted_in (ql_buckets (NewQueryRateLimiter n)) k w = 0" "counted_in (rl_buckets (NewResponseRateLimiter n)) k w = 0"
  by (simp_all add: NewQueryRateLimiter_def NewResponseRateLimiter_def counted_in_def)

lemma new_limiters_limit: "0 < n \<Longrightarrow> ql_limit (NewQueryRateLimiter n) = n" "0 < n \<Longrightarrow> rl_limit (NewResponseRateLimiter n) = n"
  by (simp_all add: NewQueryRateLimiter_def NewResponseRateLimiter_def)

lemma sorted_from_hd: "sorted xs \<Longrightarrow> \<exists>t. sorted (t # xs)"
  by (cases xs) auto

section \<open>Properties\<close>

text \<open>C15: The query limiter admits of every source exactly the first \<open>limit\<close> queries in each second (all of them when
  there are fewer), for any sequence of queries of any sources at times that do not go back.\<close>

theorem query_limit_exact:
  assumes "0 < n" "sorted (map snd calls)" "w \<noteq> 0"
  defines "key \<equiv> \<lambda>c. Some (query_key c)" and "window \<equiv> \<lambda>t. Truncate t Second"
  shows "int (admitted_in key window k w calls (limiter_run QueryRateLimiter_Allow (NewQueryRateLimiter n) calls)) =
    min (int (calls_in key window k w calls)) n"
proof -
  obtain t where "sorted (t # map snd calls)" using sorted_from_hd[OF assms(2)] by blast
  from queries.exactly_the_limit[OF new_limiters_ok(1) this _ assms(3) new_limiters_counted(1)] show ?thesis
    using assms(1) by (simp add: new_limiters_limit key_def window_def)
qed

theorem query_limit_exact_witness:
  "int (admitted_in (\<lambda>c. Some (query_key c)) (\<lambda>t. Truncate t Second) ''8.8.8.8'' Second
     [(Some (OtherAddr ''8.8.8.8''), 1000000001), (Some (OtherAddr ''8.8.8.8''), 1000000002), (Some (OtherAddr ''8.8.8.8''), 1000000003)]
     (limiter_run QueryRateLimiter_Allow (NewQueryRateLimiter 2)
       [(Some (OtherAddr ''8.8.8.8''), 1000000001), (Some (OtherAddr ''8.8.8.8''), 1000000002),
        (Some (OtherAddr ''8.8.8.8''), 1000000003)])) = 2"
proof -
  have "calls_in (\<lambda>c. Some (query_key c)) (\<lambda>t. Truncate t Second) ''8.8.8.8'' Second
      [(Some (OtherAddr ''8.8.8.8''), 1000000001), (Some (OtherAddr ''8.8.8.8''), 1000000002), (Some (OtherAddr ''8.8.8.8''), 1000000003)] = 3"
    by code_simp
  moreover have "Second \<noteq> 0" by (simp add: Second_def)
  ultimately show ?thesis
    using query_limit_exact[of 2 "[(Some (OtherAddr ''8.8.8.8''), 1000000001), (Some (OtherAddr ''8.8.8.8''), 1000000002),
      (Some (OtherAddr ''8.8.8.8''), 1000000003)]" Second "''8.8.8.8''"] by simp
qed

text \<open>The response limiter admits of every source, name and error code exactly the first \<open>limit\<close> responses in each
  second, and never limits successful and empty answers: those are not counted at all.\<close>

theorem response_limit_exact:
  assumes "0 < n" "sorted (map snd calls)" "w \<noteq> 0"
  defines "window \<equiv> \<lambda>t. Truncate t Second"
  shows "int (admitted_in response_key window k w calls (limiter_run ResponseRateLimiter_Allow (NewResponseRateLimiter n) calls)) =
      min (int (calls_in response_key window k w calls)) n
    \<and> (\<forall>addr qname l t. ResponseRateLimiter_Allow (addr, qname, ''NOERROR'') t l = (True, l)
        \<and> ResponseRateLimiter_Allow (addr, qname, ''NODATA'') t l = (True, l))"
proof -
  obtain t where "sorted (t # map snd calls)" using sorted_from_hd[OF assms(2)] by blast
  note exact = responses.exactly_the_limit[OF new_limiters_ok(2) this _ assms(3) new_limiters_counted(2)]
  have "ToUpper (TrimSpace ''NOERROR'') = ''NOERROR''" "ToUpper (TrimSpace ''NODATA'') = ''NODATA''" by code_simp+
  then have "response_key (addr, qname, ''NOERROR'') = None" "response_key (addr, qname, ''NODATA'') = None" for addr qname
    by (simp_all add: response_key_def)
  then show ?thesis
    using exact assms(1) by (simp add: new_limiters_limit window_def responses.exempt)
qed

theorem response_limit_exact_witness:
  "int (admitted_in response_key (\<lambda>t. Truncate t Second) ''8.8.8.8|a.b|NXDOMAIN'' Second
     [((Some (OtherAddr ''8.8.8.8''), ''a.b'', ''NXDOMAIN''), 1000000001), ((Some (OtherAddr ''8.8.8.8''), ''A.b'', ''NXDOMAIN''), 1000000002)]
     (limiter_run ResponseRateLimiter_Allow (NewResponseRateLimiter 1)
       [((Some (OtherAddr ''8.8.8.8''), ''a.b'', ''NXDOMAIN''), 1000000001), ((Some (OtherAddr ''8.8.8.8''), ''A.b'', ''NXDOMAIN''), 1000000002)])) = 1"
proof -
  have "calls_in response_key (\<lambda>t. Truncate t Second) ''8.8.8.8|a.b|NXDOMAIN'' Second
     [((Some (OtherAddr ''8.8.8.8''), ''a.b'', ''NXDOMAIN''), 1000000001), ((Some (OtherAddr ''8.8.8.8''), ''A.b'', ''NXDOMAIN''), 1000000002)] = 2"
    by code_simp
  moreover have "Second \<noteq> 0" by (simp add: Second_def)
  ultimately show ?thesis
    using response_limit_exact[of 1 "[((Some (OtherAddr ''8.8.8.8''), ''a.b'', ''NXDOMAIN''), 1000000001),
      ((Some (OtherAddr ''8.8.8.8''), ''A.b'', ''NXDOMAIN''), 1000000002)]" Second "''8.8.8.8|a.b|NXDOMAIN''"] by simp
qed

end
