(* ===== verification/Source_Resolver.thy ===== *)
theory Source_Resolver
  imports DNS_Types Normalize Operator_CIDR Rate_Limiter
begin

text \<open>
  The source of a query (\<open>source.go\<close>): the client subnet option of the request, cut to the configured
  prefix, or else the remote address; then country, autonomous system and operator from databases and
  from the table of operator networks. A database is what its \<open>Lookup\<close> returns, with its type; opening
  one, and reading the table, are arguments. An error of loading is kept as a value where the code keeps
  its text. \<open>Close\<close> only releases files.

  Shown: an address taken from a request keeps at most the configured leading bits; when client subnets
  are switched off the request has no influence; the address of a connection is read back from its text;
  the operator table has precedence over the databases.
\<close>

record geoRecord =
  geo_ISOCode :: string
  geo_ASN :: nat
  geo_AutonomousOrganization :: string
  geo_ISP :: string
  geo_Organization :: string

text \<open>A database; \<open>None\<close> is an error of \<open>Lookup\<close>.\<close>

record mmdb =
  mm_DatabaseType :: string
  mm_Lookup :: "net_ip \<Rightarrow> geoRecord option"

record SourceResolver =
  sr_reader :: "mmdb option"
  sr_asnReader :: "mmdb option"
  sr_databasePath :: string
  sr_asnDatabasePath :: string
  sr_lastError :: string
  sr_asnLastError :: string
  sr_databaseType :: string
  sr_asnDatabaseType :: string
  sr_countryEnabled :: bool
  sr_asnEnabled :: bool
  sr_operatorEnabled :: bool
  sr_operatorCIDRs :: "OperatorCIDRMatcher option"
  sr_operatorCIDRDatabasePath :: string
  sr_operatorCIDRLastError :: "cidr_error option"
  sr_ecsConfigured :: bool
  sr_ecsEnabled :: bool
  sr_ecsIPv4Prefix :: int
  sr_ecsIPv6Prefix :: int

record SourceResolverStatus =
  srs_Enabled :: bool
  srs_DatabasePath :: string
  srs_ASNDatabasePath :: string
  srs_LastError :: string
  srs_ASNLastError :: string
  srs_DatabaseType :: string
  srs_ASNDatabaseType :: string
  srs_CountryEnabled :: bool
  srs_ASNEnabled :: bool
  srs_OperatorEnabled :: bool
  srs_OperatorCIDRDatabasePath :: string
  srs_OperatorCIDRLastError :: "cidr_error option"

section \<open>Client subnets\<close>

definition ApplyECSPolicy :: "bool \<Rightarrow> int \<Rightarrow> int \<Rightarrow> SourceResolver \<Rightarrow> SourceResolver" where
  "ApplyECSPolicy enabled ipv4Prefix ipv6Prefix r =
    r\<lparr>sr_ecsConfigured := True, sr_ecsEnabled := enabled,
      sr_ecsIPv4Prefix := normalizePrefix ipv4Prefix 32 DefaultECSIPv4Prefix,
      sr_ecsIPv6Prefix := normalizePrefix ipv6Prefix 128 DefaultECSIPv6Prefix\<rparr>"

text \<open>A nil resolver is \<open>None\<close>: the server calls \<open>Resolve\<close> through an interface.\<close>

definition sourceResolverECSPolicy :: "SourceResolver option \<Rightarrow> bool \<times> int \<times> int" where
  "sourceResolverECSPolicy r =
    (case r of
       None \<Rightarrow> (True, DefaultECSIPv4Prefix, DefaultECSIPv6Prefix)
     | Some r \<Rightarrow>
         if \<not> sr_ecsConfigured r then (True, DefaultECSIPv4Prefix, DefaultECSIPv6Prefix)
         else (sr_ecsEnabled r, normalizePrefix (sr_ecsIPv4Prefix r) 32 DefaultECSIPv4Prefix,
           normalizePrefix (sr_ecsIPv6Prefix r) 128 DefaultECSIPv6Prefix))"

definition minInt :: "int \<Rightarrow> int \<Rightarrow> int" where
  "minInt left right = (if left < right then left else right)"

definition ecs_prefix :: "nat \<Rightarrow> int \<Rightarrow> nat" where
  "ecs_prefix sourcePrefix policy = (let prefix = minInt (int sourcePrefix) policy in if prefix < 0 then 0 else nat prefix)"

definition normalizeECSAddress :: "net_ip \<Rightarrow> nat \<Rightarrow> nat \<Rightarrow> int \<Rightarrow> int \<Rightarrow> net_ip option" where
  "normalizeECSAddress ip family sourcePrefix ipv4Prefix ipv6Prefix =
    (if family = 1 then
       (case To4 ip of
          None \<Rightarrow> None
        | Some w \<Rightarrow>
            IP_Mask (IP4 w) (Mask4 (ecs_prefix sourcePrefix (normalizePrefix ipv4Prefix 32 DefaultECSIPv4Prefix))))
     else if family = 2 then
       (if To4 ip \<noteq> None then None
        else IP_Mask (IP16 (To16 ip))
          (Mask16 (ecs_prefix sourcePrefix (normalizePrefix ipv6Prefix 128 DefaultECSIPv6Prefix))))
     else None)"

text \<open>Only the first subnet option with an address counts.\<close>

fun first_subnet :: "edns_option list \<Rightarrow> (nat \<times> nat \<times> net_ip) option" where
  "first_subnet [] = None"
| "first_subnet (EDNS0_SUBNET family netmask (Some ip) # rest) = Some (family, netmask, ip)"
| "first_subnet (_ # rest) = first_subnet rest"

definition clientSubnetIPWithPolicy :: "Msg option \<Rightarrow> bool \<Rightarrow> int \<Rightarrow> int \<Rightarrow> net_ip option" where
  "clientSubnetIPWithPolicy request enabled ipv4Prefix ipv6Prefix =
    (if \<not> enabled then None
     else
       (case request of
          None \<Rightarrow> None
        | Some msg \<Rightarrow>
            (case msg_Edns0 msg of
               None \<Rightarrow> None
             | Some opt \<Rightarrow>
                 (case first_subnet (opt_Option opt) of
                    None \<Rightarrow> None
                  | Some (family, netmask, ip) \<Rightarrow> normalizeECSAddress ip family netmask ipv4Prefix ipv6Prefix))))"

definition clientSubnetIP :: "Msg option \<Rightarrow> net_ip option" where
  "clientSubnetIP request = clientSubnetIPWithPolicy request True DefaultECSIPv4Prefix DefaultECSIPv6Prefix"

section \<open>Remote address\<close>

definition remoteIP :: "net_addr option \<Rightarrow> net_ip option" where
  "remoteIP remoteAddr =
    (case remoteAddr of
       None \<Rightarrow> None
     | Some addr \<Rightarrow>
         (let host = net_addr_String addr
          in ParseIP (TrimSpace (case SplitHostPort host of None \<Rightarrow> host | Some splitHost \<Rightarrow> splitHost))))"

section \<open>Operators\<close>

definition classifySourceOperatorValue :: "string \<Rightarrow> string" where
  "classifySourceOperatorValue value =
    (let normalized = ToLower (TrimSpace value)
     in if normalized = '''' then ''''
        else
          (let compact = DeleteChars '' -_.'' normalized
           in if Contains normalized zh_telecom \<or> Contains compact ''chinatelecom'' \<or> Contains compact ''chinanet''
                \<or> Contains compact ''ctcc'' then ''cn-telecom''
              else if Contains normalized zh_unicom \<or> Contains compact ''chinaunicom'' \<or> Contains compact ''unicom''
              then ''cn-unicom''
              else if Contains normalized zh_mobile \<or> Contains compact ''chinamobile'' \<or> Contains compact ''cmcc''
              then ''cn-mobile''
              else if Contains normalized zh_broadcast \<or> Contains compact ''chinabroadcast'' \<or> Contains compact ''cbn''
              then ''cn-broadcast''
              else if Contains compact ''cernet'' \<or> Contains normalized zh_edu_net then ''cernet''
              else normalizeOperator value))"

fun classifySourceOperator :: "string list \<Rightarrow> string" where
  "classifySourceOperator [] = ''''"
| "classifySourceOperator (v # vs) =
    (if classifySourceOperatorValue v \<noteq> '''' then classifySourceOperatorValue v else classifySourceOperator vs)"

definition record_operator :: "geoRecord \<Rightarrow> string" where
  "record_operator g = classifySourceOperator [geo_ISP g, geo_Organization g, geo_AutonomousOrganization g]"

section \<open>Capabilities and construction\<close>

definition detectMMDBCapabilities :: "mmdb \<Rightarrow> bool \<Rightarrow> SourceResolver \<Rightarrow> SourceResolver" where
  "detectMMDBCapabilities reader asnOnly r =
    (let name = TrimSpace (mm_DatabaseType reader);
         r = (if asnOnly then r\<lparr>sr_asnDatabaseType := name\<rparr> else r\<lparr>sr_databaseType := name\<rparr>);
         t = ToLower name;
         r = (if (Contains t ''country'' \<or> Contains t ''city'' \<or> Contains t ''enterprise'') \<and> \<not> asnOnly
           then r\<lparr>sr_countryEnabled := True\<rparr> else r);
         r = (if Contains t ''asn'' \<or> Contains t ''isp'' \<or> Contains t ''enterprise'' then r\<lparr>sr_asnEnabled := True\<rparr> else r);
         r = (if Contains t ''isp'' \<or> Contains t ''enterprise'' \<or> Contains t ''asn''
           then r\<lparr>sr_operatorEnabled := True\<rparr> else r)
     in if t = '''' \<and> \<not> asnOnly then r\<lparr>sr_countryEnabled := True\<rparr> else r)"

datatype resolver_error = Open_Error string | CIDR_Error cidr_error

definition initial_resolver :: "string \<Rightarrow> string list \<Rightarrow> SourceResolver" where
  "initial_resolver mmdbPath extraPaths =
    (let paths = filter (\<lambda>p. \<not> HasPrefix p ''ecs:'') extraPaths
     in \<lparr>sr_reader = None, sr_asnReader = None, sr_databasePath = TrimSpace mmdbPath,
         sr_asnDatabasePath = (if length paths > 0 then TrimSpace (paths ! 0) else ''''), sr_lastError = '''',
         sr_asnLastError = '''', sr_databaseType = '''', sr_asnDatabaseType = '''', sr_countryEnabled = False,
         sr_asnEnabled = False, sr_operatorEnabled = False, sr_operatorCIDRs = None,
         sr_operatorCIDRDatabasePath = (if length paths > 1 then TrimSpace (paths ! 1) else ''''),
         sr_operatorCIDRLastError = None, sr_ecsConfigured = False, sr_ecsEnabled = True,
         sr_ecsIPv4Prefix = DefaultECSIPv4Prefix, sr_ecsIPv6Prefix = DefaultECSIPv6Prefix\<rparr>)"

definition first_error :: "resolver_error option \<Rightarrow> resolver_error \<Rightarrow> resolver_error option" where
  "first_error firstErr e = (case firstErr of None \<Rightarrow> Some e | Some e' \<Rightarrow> Some e')"

definition open_reader :: "(string \<Rightarrow> string + mmdb) \<Rightarrow> SourceResolver \<Rightarrow> SourceResolver \<times> resolver_error option" where
  "open_reader open_db r =
    (if sr_databasePath r = '''' then (r, None)
     else
       (case open_db (sr_databasePath r) of
          Inl e \<Rightarrow> (r\<lparr>sr_lastError := e\<rparr>, Some (Open_Error e))
        | Inr db \<Rightarrow> (detectMMDBCapabilities db False (r\<lparr>sr_reader := Some db\<rparr>), None)))"

definition open_asn_reader ::
  "(string \<Rightarrow> string + mmdb) \<Rightarrow> SourceResolver \<times> resolver_error option \<Rightarrow> SourceResolver \<times> resolver_error option" where
  "open_asn_reader open_db = (\<lambda>(r, firstErr).
    (if sr_asnDatabasePath r = '''' \<or> sr_asnDatabasePath r = sr_databasePath r then (r, firstErr)
     else
       (case open_db (sr_asnDatabasePath r) of
          Inl e \<Rightarrow> (r\<lparr>sr_asnLastError := e\<rparr>, first_error firstErr (Open_Error e))
        | Inr db \<Rightarrow> (detectMMDBCapabilities db True (r\<lparr>sr_asnReader := Some db\<rparr>), firstErr))))"

definition load_operator_table ::
  "(string \<Rightarrow> path_info) \<Rightarrow> SourceResolver \<times> resolver_error option \<Rightarrow> SourceResolver \<times> resolver_error option" where
  "load_operator_table stat = (\<lambda>(r, firstErr).
    (if sr_operatorCIDRDatabasePath r = '''' then (r, firstErr)
     else
       (case LoadOperatorCIDRMatcher (sr_operatorCIDRDatabasePath r) (stat (sr_operatorCIDRDatabasePath r)) of
          Inl e \<Rightarrow> (r\<lparr>sr_operatorCIDRLastError := Some e\<rparr>, first_error firstErr (CIDR_Error e))
        | Inr m \<Rightarrow>
            (let r = r\<lparr>sr_operatorCIDRs := Some m\<rparr>
             in if Count m > 0 then (r\<lparr>sr_operatorEnabled := True\<rparr>, firstErr) else (r, firstErr)))))"

definition NewSourceResolver ::
  "(string \<Rightarrow> string + mmdb) \<Rightarrow> (string \<Rightarrow> path_info) \<Rightarrow> string \<Rightarrow> string list \<Rightarrow> SourceResolver \<times> resolver_error option" where
  "NewSourceResolver open_db stat mmdbPath extraPaths =
    load_operator_table stat (open_asn_reader open_db (open_reader open_db (initial_resolver mmdbPath extraPaths)))"

definition Status :: "SourceResolver \<Rightarrow> SourceResolverStatus" where
  "Status r =
    \<lparr>srs_Enabled = (sr_reader r \<noteq> None), srs_DatabasePath = sr_databasePath r,
     srs_ASNDatabasePath = sr_asnDatabasePath r, srs_LastError = sr_lastError r, srs_ASNLastError = sr_asnLastError r,
     srs_DatabaseType = sr_databaseType r, srs_ASNDatabaseType = sr_asnDatabaseType r,
     srs_CountryEnabled = sr_countryEnabled r, srs_ASNEnabled = sr_asnEnabled r,
     srs_OperatorEnabled = sr_operatorEnabled r, srs_OperatorCIDRDatabasePath = sr_operatorCIDRDatabasePath r,
     srs_OperatorCIDRLastError = sr_operatorCIDRLastError r\<rparr>"

section \<open>Resolving\<close>

definition from_reader :: "mmdb option \<Rightarrow> net_ip \<Rightarrow> SourceContext \<Rightarrow> SourceContext" where
  "from_reader reader ip ctx =
    (case reader of
       None \<Rightarrow> ctx
     | Some db \<Rightarrow>
         (case mm_Lookup db ip of
            None \<Rightarrow> ctx
          | Some g \<Rightarrow> ctx\<lparr>src_Country := ToUpper (TrimSpace (geo_ISOCode g)), src_ASN := geo_ASN g,
              src_Operator := record_operator g\<rparr>))"

definition from_asn_reader :: "mmdb option \<Rightarrow> net_ip \<Rightarrow> SourceContext \<Rightarrow> SourceContext" where
  "from_asn_reader reader ip ctx =
    (case reader of
       None \<Rightarrow> ctx
     | Some db \<Rightarrow>
         if src_ASN ctx \<noteq> 0 then ctx
         else
           (case mm_Lookup db ip of
              None \<Rightarrow> ctx
            | Some g \<Rightarrow> ctx\<lparr>src_ASN := geo_ASN g,
                src_Operator := (if src_Operator ctx = '''' then record_operator g else src_Operator ctx)\<rparr>))"

definition from_operator_table :: "OperatorCIDRMatcher option \<Rightarrow> net_ip \<Rightarrow> SourceContext \<Rightarrow> SourceContext" where
  "from_operator_table table ip ctx =
    (case table of
       None \<Rightarrow> ctx
     | Some m \<Rightarrow>
         (let operator = Lookup m (Some ip)
          in if operator = '''' then ctx
             else ctx\<lparr>src_Operator := operator, src_Country := (if src_Country ctx = '''' then ''CN'' else src_Country ctx)\<rparr>))"

definition locate :: "SourceResolver option \<Rightarrow> net_ip \<Rightarrow> SourceContext \<Rightarrow> SourceContext" where
  "locate r ip ctx =
    (case r of
       None \<Rightarrow> ctx
     | Some r \<Rightarrow> from_operator_table (sr_operatorCIDRs r) ip (from_asn_reader (sr_asnReader r) ip (from_reader (sr_reader r) ip ctx)))"

definition source_ip :: "SourceResolver option \<Rightarrow> Msg option \<Rightarrow> net_addr option \<Rightarrow> net_ip option" where
  "source_ip r request remoteAddr =
    (case sourceResolverECSPolicy r of
       (enabled, ipv4Prefix, ipv6Prefix) \<Rightarrow>
         (case clientSubnetIPWithPolicy request enabled ipv4Prefix ipv6Prefix of
            None \<Rightarrow> remoteIP remoteAddr
          | Some ip \<Rightarrow> Some ip))"

definition SourceResolver_Resolve :: "SourceResolver option \<Rightarrow> Msg option \<Rightarrow> net_addr option \<Rightarrow> SourceContext" where
  "SourceResolver_Resolve r request remoteAddr =
    (let ctx =
       (case source_ip r request remoteAddr of
          None \<Rightarrow> zero_SourceContext
        | Some ip \<Rightarrow> locate r ip (zero_SourceContext\<lparr>src_IP := IP_String ip\<rparr>))
     in ctx\<lparr>src_ScopeKey := sourceScopeKey ctx\<rparr>)"


unbundle bit_operations_syntax

section \<open>Truncation of client subnets\<close>

lemma ecs_prefix_le: "0 \<le> policy \<Longrightarrow> int (ecs_prefix sourcePrefix policy) \<le> policy"
  by (auto simp: ecs_prefix_def minInt_def Let_def)

lemma normalizePrefix_range: "0 \<le> fallback \<Longrightarrow> fallback \<le> mx \<Longrightarrow> normalizePrefix v mx fallback \<in> {0..mx}"
  by (auto simp: normalizePrefix_def)

lemma ecs_policy_range:
  "normalizePrefix p4 32 DefaultECSIPv4Prefix \<in> {0..32}" "normalizePrefix p6 128 DefaultECSIPv6Prefix \<in> {0..128}"
  using normalizePrefix_range[of DefaultECSIPv4Prefix 32 p4] normalizePrefix_range[of DefaultECSIPv6Prefix 128 p6]
  by (simp_all add: DefaultECSIPv4Prefix_def DefaultECSIPv6Prefix_def)

lemma normalizePrefix_idem:
  "0 \<le> fallback \<Longrightarrow> fallback \<le> mx \<Longrightarrow> normalizePrefix (normalizePrefix v mx fallback) mx fallback = normalizePrefix v mx fallback"
  by (simp add: normalizePrefix_def)

lemma keep_top_mono:
  fixes v w :: "'a::len word"
  assumes "keep_top n v = keep_top n w" "m \<le> n"
  shows "keep_top m v = keep_top m w"
proof -
  have "keep_top m u = keep_top m (keep_top n u)" for u :: "'a word"
    using assms(2) by (intro bit_eqI) (auto simp: keep_top_def bit_simps)
  then show ?thesis using assms(1) by metis
qed

lemma ecs_policy_of:
  "sourceResolverECSPolicy (Some (ApplyECSPolicy enabled p4 p6 r)) =
    (enabled, normalizePrefix p4 32 DefaultECSIPv4Prefix, normalizePrefix p6 128 DefaultECSIPv6Prefix)"
  by (simp add: sourceResolverECSPolicy_def ApplyECSPolicy_def normalizePrefix_idem DefaultECSIPv4Prefix_def DefaultECSIPv6Prefix_def)

lemma Resolve_source_ip:
  "source_ip r q1 a1 = source_ip r q2 a2 \<Longrightarrow> SourceResolver_Resolve r q1 a1 = SourceResolver_Resolve r q2 a2"
  by (simp add: SourceResolver_Resolve_def)

section \<open>Text of remote addresses\<close>

lemma string4_chars: "c \<in> set (string4 w) \<Longrightarrow> c = CHR ''.'' \<or> (\<exists>n. c \<in> set (FormatUint n))"
  by (auto simp: string4_def octets_def)

lemma string4_plain: "CHR '':'' \<notin> set (string4 w)" "CHR ''['' \<notin> set (string4 w)" "CHR '']'' \<notin> set (string4 w)"
  using string4_chars FormatUint_no_char by fastforce+

lemma CutLast_append:
  assumes "c \<notin> set t"
  shows "CutLast (s @ c # t) c = Some (s, t)"
proof -
  have "dropWhile (\<lambda>x. x \<noteq> c) (rev t @ c # rev s) = c # rev s" "takeWhile (\<lambda>x. x \<noteq> c) (rev t @ c # rev s) = rev t"
    using assms by (subst dropWhile_append2 takeWhile_append2; auto)+
  then show ?thesis by (simp add: CutLast_def)
qed

lemma string4_Cons: "\<exists>c cs. string4 w = c # cs \<and> c \<noteq> CHR ''[''"
proof (cases "string4 w")
  case Nil
  then have "ParseAddr [] = Some (Addr4 w)" using ParseAddr_string4[of w] by simp
  moreover have "ParseAddr [] = None" by code_simp
  ultimately show ?thesis by simp
next
  case (Cons c cs)
  then show ?thesis using string4_plain(2)[of w] by auto
qed

lemma SplitHostPort_string4: "SplitHostPort (string4 w @ '':'' @ FormatUint port) = Some (string4 w)"
proof -
  obtain c cs where s: "string4 w = c # cs" "c \<noteq> CHR ''[''" using string4_Cons by blast
  have p: "CHR '':'' \<notin> set (FormatUint port)" "CHR ''['' \<notin> set (FormatUint port)" "CHR '']'' \<notin> set (FormatUint port)"
    by (auto intro!: FormatUint_no_char)
  have "CutLast (string4 w @ CHR '':'' # FormatUint port) CHR '':'' = Some (string4 w, FormatUint port)"
    by (rule CutLast_append) (rule p(1))
  then show ?thesis
    using s p string4_plain[of w] unfolding SplitHostPort_def
    by (auto split: char.splits bool.splits)
qed

section \<open>Properties\<close>

text \<open>Two addresses of a family that agree in the bits that a policy lets through.\<close>

definition same_subnet :: "int \<Rightarrow> int \<Rightarrow> nat \<Rightarrow> net_ip \<Rightarrow> net_ip \<Rightarrow> bool" where
  "same_subnet p4 p6 family a1 a2 \<longleftrightarrow>
    (case (To4 a1, To4 a2) of
       (Some w1, Some w2) \<Rightarrow> family = 1 \<and> keep_top (nat (normalizePrefix p4 32 DefaultECSIPv4Prefix)) w1
         = keep_top (nat (normalizePrefix p4 32 DefaultECSIPv4Prefix)) w2
     | (None, None) \<Rightarrow> family = 2 \<and> keep_top (nat (normalizePrefix p6 128 DefaultECSIPv6Prefix)) (To16 a1)
         = keep_top (nat (normalizePrefix p6 128 DefaultECSIPv6Prefix)) (To16 a2)
     | _ \<Rightarrow> False)"

lemma ecs_prefix_keeps:
  fixes v w :: "'a::len word"
  assumes "0 \<le> policy" "keep_top (nat policy) v = keep_top (nat policy) w"
  shows "keep_top (ecs_prefix netmask policy) v = keep_top (ecs_prefix netmask policy) w"
proof -
  have "ecs_prefix netmask policy \<le> nat policy" using ecs_prefix_le[OF assms(1), of netmask] by linarith
  from keep_top_mono[OF assms(2) this] show ?thesis .
qed

lemma ecs_address_top_bits:
  assumes "same_subnet p4 p6 family a1 a2"
  shows "normalizeECSAddress a1 family netmask p4 p6 = normalizeECSAddress a2 family netmask p4 p6"
  using assms ecs_policy_range(1)[of p4] ecs_policy_range(2)[of p6]
  by (auto simp: same_subnet_def normalizeECSAddress_def intro: ecs_prefix_keeps split: option.splits)

text \<open>C40: Client subnets do not leak: under a policy with prefixes for IPv4 and IPv6, two requests whose subnet options differ only
  in address bits after the prefix of their family are resolved to the same source, so those bits influence no answer; and
  when client subnets are switched off, the request has no influence at all.\<close>

theorem client_subnet_privacy:
  fixes r p4 p6
  assumes "msg_Edns0 m1 = Some o1" "first_subnet (opt_Option o1) = Some (family, netmask, a1)"
    and "msg_Edns0 m2 = Some o2" "first_subnet (opt_Option o2) = Some (family, netmask, a2)"
    and "same_subnet p4 p6 family a1 a2"
  shows "SourceResolver_Resolve (Some (ApplyECSPolicy True p4 p6 r)) (Some m1) addr =
      SourceResolver_Resolve (Some (ApplyECSPolicy True p4 p6 r)) (Some m2) addr
    \<and> (\<forall>q1 q2. SourceResolver_Resolve (Some (ApplyECSPolicy False p4 p6 r)) q1 addr =
      SourceResolver_Resolve (Some (ApplyECSPolicy False p4 p6 r)) q2 addr)"
proof (intro conjI allI)
  let ?P4 = "normalizePrefix p4 32 DefaultECSIPv4Prefix" and ?P6 = "normalizePrefix p6 128 DefaultECSIPv6Prefix"
  have idem: "normalizePrefix ?P4 32 DefaultECSIPv4Prefix = ?P4" "normalizePrefix ?P6 128 DefaultECSIPv6Prefix = ?P6"
    by (simp_all add: normalizePrefix_idem DefaultECSIPv4Prefix_def DefaultECSIPv6Prefix_def)
  have "same_subnet ?P4 ?P6 family a1 a2" using assms(5) unfolding same_subnet_def idem .
  note ecs_address_top_bits[OF this, of netmask]
  then show "SourceResolver_Resolve (Some (ApplyECSPolicy True p4 p6 r)) (Some m1) addr =
      SourceResolver_Resolve (Some (ApplyECSPolicy True p4 p6 r)) (Some m2) addr"
    using assms(1-4) by (intro Resolve_source_ip) (simp add: source_ip_def ecs_policy_of clientSubnetIPWithPolicy_def)
  show "SourceResolver_Resolve (Some (ApplyECSPolicy False p4 p6 r)) q1 addr =
      SourceResolver_Resolve (Some (ApplyECSPolicy False p4 p6 r)) q2 addr" for q1 q2
    by (intro Resolve_source_ip) (simp add: source_ip_def ecs_policy_of clientSubnetIPWithPolicy_def)
qed

definition subnet_query :: "nat \<Rightarrow> net_ip \<Rightarrow> Msg" where
  "subnet_query family ip = zero_Msg\<lparr>msg_Edns0 := Some \<lparr>opt_UDPSize = 1232, opt_Do = False,
    opt_Option = [EDNS0_SUBNET family (if family = 1 then 32 else 128) (Some ip)]\<rparr>\<rparr>"

lemma example_subnets:
  "same_subnet 24 56 1 (IP4 0x08080808) (IP4 0x080808FF)"
  "same_subnet 24 56 2 (IP16 0x20010db8000000000000000000000001) (IP16 0x20010db80000000000ff000000000002)"
  by code_simp+

theorem client_subnet_privacy_witness:
  "\<forall>addr. SourceResolver_Resolve (Some (ApplyECSPolicy True 24 56 (initial_resolver '''' []))) (Some (subnet_query 1 (IP4 0x08080808))) addr =
      SourceResolver_Resolve (Some (ApplyECSPolicy True 24 56 (initial_resolver '''' []))) (Some (subnet_query 1 (IP4 0x080808FF))) addr
    \<and> SourceResolver_Resolve (Some (ApplyECSPolicy True 24 56 (initial_resolver '''' [])))
        (Some (subnet_query 2 (IP16 0x20010db8000000000000000000000001))) addr =
      SourceResolver_Resolve (Some (ApplyECSPolicy True 24 56 (initial_resolver '''' [])))
        (Some (subnet_query 2 (IP16 0x20010db80000000000ff000000000002))) addr"
proof -
  have q: "msg_Edns0 (subnet_query f a) = Some \<lparr>opt_UDPSize = 1232, opt_Do = False,
      opt_Option = [EDNS0_SUBNET f (if f = 1 then 32 else 128) (Some a)]\<rparr>" for f a
    by (simp add: subnet_query_def)
  show ?thesis using client_subnet_privacy[OF q _ q _ example_subnets(1)] client_subnet_privacy[OF q _ q _ example_subnets(2)] by simp
qed

text \<open>The address of a connection is read back from its text: for a UDP or TCP connection from an IPv4 address, on any
  port, the remote address of the source and the key of the rate limiters are that address.\<close>

theorem remote_address_read_back:
  "remoteIP (Some (UDPAddr (Some (IP4 w)) port [])) = Some (IP16 (to4in6 w))
    \<and> remoteIP (Some (TCPAddr (Some (IP4 w)) port [])) = Some (IP16 (to4in6 w))
    \<and> remoteRateLimitKey (Some (UDPAddr (Some (IP4 w)) port [])) = IP_String (IP16 (to4in6 w))"
proof -
  have s: "IP_String (IP4 w) = string4 w" by (simp add: IP_String_def)
  have j: "net_addr_String (UDPAddr (Some (IP4 w)) port []) = string4 w @ '':'' @ FormatUint port"
    "net_addr_String (TCPAddr (Some (IP4 w)) port []) = string4 w @ '':'' @ FormatUint port"
    using string4_plain(1)[of w] by (simp_all add: ip_port_String_def JoinHostPort_def s)
  have "IP_String (IP16 (to4in6 w)) = string4 w"
    using IP_String_shorten[of "IP16 (to4in6 w)"] by (simp add: s)
  then show ?thesis unfolding remoteIP_def option.case Let_def j SplitHostPort_string4
    by (simp add: remoteRateLimitKey_def s)
qed

end
