(* ===== verification/DNS_Server.thy ===== *)
theory DNS_Server
  imports DNSSEC Rollup Source_Resolver
begin

text \<open>
  The DNS server (\<open>server.go\<close>): the server object, the policy it runs with, the resolution of a query from the
  current snapshot, and the size of UDP answers. The resolver of sources is the interface \<open>SourceLookup\<close>, a
  function here; opening sockets is not modelled. The deferred function of \<open>Resolve\<close>, which limits
  responses and records the query, is \<open>finish_query\<close>. The readings of the clock that the code takes while it
  resolves one query are the fields of \<open>clock\<close>. A panic of the scheduler would be an error here; it is
  shown not to happen.

  Shown: zones are found by longest enclosing name; refused queries get empty answers; scheduled targets become
  the addresses of the answer, never from a stale snapshot; every query is recorded exactly once; UDP answers
  fit the size both sides allow.
\<close>

section \<open>The server\<close>

type_synonym source_lookup = "Msg option \<Rightarrow> net_addr option \<Rightarrow> SourceContext"

definition DefaultListenAddr :: string where "DefaultListenAddr = '':53''"

record 'p DNSServer =
  srv_Store :: "'p SnapshotStore"
  srv_Scheduler :: Scheduler
  srv_Rollups :: "RollupAggregator option"
  srv_Resolver :: "source_lookup option"
  srv_ListenAddr :: string
  srv_Limiter :: "QueryRateLimiter option"
  srv_RRLimiter :: "ResponseRateLimiter option"
  srv_UDPSize :: int

definition clampUDPResponseSize :: "int \<Rightarrow> int" where
  "clampUDPResponseSize sz =
    (let sz = (if sz \<le> 0 then DefaultUDPResponseSize else sz)
     in if sz < MinMsgSize then MinMsgSize else if sz > MaxMsgSize then MaxMsgSize else sz)"

definition NewDNSServerWithProtection ::
  "'p SnapshotStore \<Rightarrow> Scheduler option \<Rightarrow> RollupAggregator option \<Rightarrow> source_lookup option \<Rightarrow> string \<Rightarrow> int \<Rightarrow> int \<Rightarrow> int
    \<Rightarrow> 'p DNSServer" where
  "NewDNSServerWithProtection store scheduler rollups resolver listenAddr queryRateLimit responseRateLimit udpSize =
    (let udpSize = (if udpSize \<le> 0 then DefaultUDPResponseSize else udpSize);
         udpSize = (if udpSize < MinMsgSize then MinMsgSize else udpSize);
         udpSize = (if udpSize > MaxMsgSize then MaxMsgSize else udpSize)
     in \<lparr>srv_Store = store, srv_Scheduler = (case scheduler of None \<Rightarrow> NewScheduler | Some s \<Rightarrow> s),
         srv_Rollups = Some (case rollups of None \<Rightarrow> NewRollupAggregator Minute | Some a \<Rightarrow> a), srv_Resolver = resolver,
         srv_ListenAddr = (if TrimSpace listenAddr = '''' then DefaultListenAddr else listenAddr),
         srv_Limiter = Some (NewQueryRateLimiter queryRateLimit), srv_RRLimiter = Some (NewResponseRateLimiter responseRateLimit),
         srv_UDPSize = udpSize\<rparr>)"

definition NewDNSServerWithLimits ::
  "'p SnapshotStore \<Rightarrow> Scheduler option \<Rightarrow> RollupAggregator option \<Rightarrow> source_lookup option \<Rightarrow> string \<Rightarrow> int \<Rightarrow> int \<Rightarrow> 'p DNSServer" where
  "NewDNSServerWithLimits store scheduler rollups resolver listenAddr queryRateLimit udpSize =
    NewDNSServerWithProtection store scheduler rollups resolver listenAddr queryRateLimit DefaultResponseRateLimit udpSize"

definition NewDNSServer ::
  "'p SnapshotStore \<Rightarrow> Scheduler option \<Rightarrow> RollupAggregator option \<Rightarrow> source_lookup option \<Rightarrow> string \<Rightarrow> 'p DNSServer" where
  "NewDNSServer store scheduler rollups resolver listenAddr =
    NewDNSServerWithLimits store scheduler rollups resolver listenAddr DefaultQueryRateLimit DefaultUDPResponseSize"

definition DNSServer_ApplyWorkerPolicy :: "WorkerPolicy \<Rightarrow> 'p DNSServer \<Rightarrow> 'p DNSServer" where
  "DNSServer_ApplyWorkerPolicy policy s =
    (let policy = normalizeWorkerPolicy policy
     in s\<lparr>srv_UDPSize := clampUDPResponseSize (wp_UDPResponseSize policy),
          srv_Limiter := Some (case srv_Limiter s of None \<Rightarrow> NewQueryRateLimiter (wp_QueryRateLimit policy)
            | Some l \<Rightarrow> QueryRateLimiter_SetLimit (wp_QueryRateLimit policy) l),
          srv_RRLimiter := Some (case srv_RRLimiter s of None \<Rightarrow> NewResponseRateLimiter (wp_ResponseRateLimit policy)
            | Some l \<Rightarrow> ResponseRateLimiter_SetLimit (wp_ResponseRateLimit policy) l)\<rparr>)"

definition runtimePolicy :: "'p DNSServer \<Rightarrow> int \<times> QueryRateLimiter option \<times> ResponseRateLimiter option" where
  "runtimePolicy s = (srv_UDPSize s, srv_Limiter s, srv_RRLimiter s)"

section \<open>Finding the zone and the route\<close>

text \<open>The loop of \<open>findBestZone\<close>: the name, then the name without its first label, and so on.\<close>

function best_zone :: "(string, SnapshotZone) gomap \<Rightarrow> string \<Rightarrow> SnapshotZone option" where
  "best_zone zones name =
    (if name = '''' then None
     else (case map_of zones name of
         Some zone \<Rightarrow> Some zone
       | None \<Rightarrow> (case Cut name CHR ''.'' of (_, rest, found) \<Rightarrow> if found then best_zone zones rest else None)))"
  by pat_completeness auto
termination
proof (relation "measure (\<lambda>(zones, name). length name)")
  show "((zones, rest), zones, name) \<in> measure (\<lambda>(zones, name). length name)"
    if "(b, p) = Cut name CHR ''.''" "(rest, found) = p" found for zones :: "(string, SnapshotZone) gomap" and name b p rest found
    using Cut_found[of name "CHR ''.''" b rest] that by auto
qed simp

declare best_zone.simps [simp del]

definition findBestZone :: "string \<Rightarrow> (string, SnapshotZone) gomap \<Rightarrow> SnapshotZone option" where
  "findBestZone qname zones = (if length zones = 0 then None else best_zone zones (normalizeDomain qname))"

definition matchRoute :: "string \<Rightarrow> route_ptr list \<Rightarrow> route_ptr option" where
  "matchRoute qtype routes =
    find (\<lambda>rp. normalizeAddressRecordType (route_RecordType (snd rp)) = normalizeAddressRecordType qtype) routes"

definition wildcardBaseForQName :: "string \<Rightarrow> string option" where
  "wildcardBaseForQName qname =
    (case Cut (normalizeDomain qname) CHR ''.'' of
       (label, rest, found) \<Rightarrow> if \<not> found \<or> label = '''' \<or> rest = '''' then None else Some rest)"

definition routesForQName :: "'p snapshotIndex \<Rightarrow> string \<Rightarrow> route_ptr list" where
  "routesForQName index qname =
    (let qname = normalizeDomain qname
     in gm_list (ix_routesByDomain index) qname
       @ (case wildcardBaseForQName qname of None \<Rightarrow> [] | Some base \<Rightarrow> gm_list (ix_routesByWildcard index) base))"

definition nameExists :: "nat \<Rightarrow> string \<Rightarrow> (nat, string list) gomap \<Rightarrow> bool" where
  "nameExists zoneID qname namesByZone \<longleftrightarrow> normalizeDomain qname \<in> set (gm_list namesByZone zoneID)"

section \<open>Answers from stored records\<close>

definition stored :: "SnapshotZone \<Rightarrow> 'p snapshotIndex \<Rightarrow> string \<Rightarrow> string \<Rightarrow> SnapshotRecord list" where
  "stored zone index name t = gm_list (ix_recordsByNameType index) \<lparr>rk_ZoneID = zone_ID zone, rk_Name = name, rk_Type = t\<rparr>"

definition cnameFallback ::
  "'p dns_env \<Rightarrow> SnapshotZone \<Rightarrow> 'p snapshotIndex \<Rightarrow> string \<Rightarrow> string \<Rightarrow> RR list \<times> string list" where
  "cnameFallback env zone index qname qtype =
    (case stored zone index qname ''CNAME'' of
       [] \<Rightarrow> ([], [])
     | r # rs \<Rightarrow>
         (let targetRecords = (if qtype = ''A'' \<or> qtype = ''AAAA''
                then stored zone index (normalizeDomain (rec_Value r)) qtype else [])
          in (recordsToRR env zone (r # rs) @ recordsToRR env zone targetRecords,
              recordValues (r # rs) @ recordValues targetRecords)))"

text \<open>The records of a name and type, or else, unless \<open>plain\<close>, the CNAME records of the name.\<close>

definition stored_answer ::
  "'p dns_env \<Rightarrow> SnapshotZone \<Rightarrow> 'p snapshotIndex \<Rightarrow> string \<Rightarrow> string \<Rightarrow> bool \<Rightarrow> RR list \<times> string list" where
  "stored_answer env zone index qname qtype plain =
    (let records = stored zone index qname qtype; answers = recordsToRR env zone records; targets = recordValues records
     in if length answers = 0 \<and> \<not> plain then
          (case cnameFallback env zone index qname qtype of (as, ts) \<Rightarrow> (answers @ as, targets @ ts))
        else (answers, targets))"

text \<open>The answer and the targets for a question that is not answered by a route.\<close>

definition static_answer ::
  "'p dns_env \<Rightarrow> gotime \<Rightarrow> SnapshotZone \<Rightarrow> 'p snapshotIndex \<Rightarrow> string \<Rightarrow> nat \<Rightarrow> string \<Rightarrow> RR list \<times> string list" where
  "static_answer env now zone index qname t qtype =
    (if t = TypeSOA then
       (if qname = zone_Name zone then ([soaRecord zone], [])
        else (let records = stored zone index qname ''SOA'' in (recordsToRR env zone records, recordValues records)))
     else if t = TypeNS then
       (let records = stored zone index qname ''NS''
        in ((if qname = zone_Name zone then nsRecords zone else []) @ recordsToRR env zone records,
            if length records > 0 then recordValues records else zone_NameServers zone))
     else if t = TypeDNSKEY then
       (if qname = zone_Name zone \<and> sec_Enabled (zone_DNSSEC zone) then dnssecDNSKEYRecords zone else [], [])
     else if t = TypeNSEC3PARAM then
       (if qname = zone_Name zone \<and> sec_Enabled (zone_DNSSEC zone) \<and> uses_nsec3 zone then [dnssecNSEC3PARAMRecord zone] else [], [])
     else if t = TypeNSEC then
       (if sec_Enabled (zone_DNSSEC zone) \<and> \<not> uses_nsec3 zone \<and> nameExists (zone_ID zone) qname (ix_namesByZone index)
        then [dnssecNSECForName zone qname index] else [], [])
     else if t = TypeNSEC3 then
       (if sec_Enabled (zone_DNSSEC zone) \<and> uses_nsec3 zone then [dnssecNSEC3ForName env zone qname index] else [], [])
     else if t = TypeRRSIG then
       (if sec_Enabled (zone_DNSSEC zone) then dnssecCoveredRRsets env now zone index qname else [], [])
     else if t = TypeA \<or> t = TypeAAAA then stored_answer env zone index qname qtype False
     else stored_answer env zone index qname qtype (qtype = ''CNAME''))"

section \<open>Resolving a query\<close>

record clock =
  clk_started :: gotime
  clk_query :: gotime
  clk_fresh :: gotime
  clk_select :: gotime
  clk_sign :: gotime
  clk_response :: gotime
  clk_record :: gotime
  clk_finished :: gotime

text \<open>The response and the variables the deferred function reads.\<close>

record outcome =
  oc_response :: Msg
  oc_zoneID :: nat
  oc_routeID :: nat
  oc_rcodeLabel :: string
  oc_targets :: "string list"
  oc_sourceScope :: string
  oc_source :: SourceContext

definition first_outcome :: "Msg \<Rightarrow> outcome" where
  "first_outcome response =
    \<lparr>oc_response = response, oc_zoneID = 0, oc_routeID = 0, oc_rcodeLabel = ''NOERROR'', oc_targets = [],
     oc_sourceScope = ''global'', oc_source = zero_SourceContext\<lparr>src_ScopeKey := ''global''\<rparr>\<rparr>"

definition failed :: "nat \<Rightarrow> string \<Rightarrow> outcome \<Rightarrow> outcome" where
  "failed rcode label oc = oc\<lparr>oc_response := (oc_response oc)\<lparr>msg_Rcode := rcode\<rparr>, oc_rcodeLabel := label\<rparr>"

definition qtype_text :: "'p dns_env \<Rightarrow> nat \<Rightarrow> string" where
  "qtype_text env t = (let s = TypeToString env t in if s = '''' then ''TYPE'' @ FormatUint t else s)"

text \<open>The end of \<open>Resolve\<close>: an empty answer is a missing type or a missing name; then the response is signed.\<close>

definition conclude ::
  "'p dns_env \<Rightarrow> gotime \<Rightarrow> Msg \<Rightarrow> SnapshotZone \<Rightarrow> 'p snapshotIndex \<Rightarrow> string \<Rightarrow> outcome \<Rightarrow> outcome" where
  "conclude env now request zone index qname oc =
    (let oc = (if length (msg_Answer (oc_response oc)) = 0
           then (if nameExists (zone_ID zone) qname (ix_namesByZone index) then oc\<lparr>oc_rcodeLabel := ''NODATA''\<rparr>
                 else failed RcodeNameError ''NXDOMAIN'' oc)
           else oc)
     in oc\<lparr>oc_response := signDNSSECResponse env now (oc_response oc) request zone index\<rparr>)"

definition with_answer :: "RR list \<Rightarrow> string list \<Rightarrow> outcome \<Rightarrow> outcome" where
  "with_answer answers targets oc =
    oc\<lparr>oc_response := (oc_response oc)\<lparr>msg_Answer := msg_Answer (oc_response oc) @ answers\<rparr>, oc_targets := targets\<rparr>"

text \<open>From the zone on.\<close>

definition answer_in_zone ::
  "'p dns_env \<Rightarrow> hash_env \<Rightarrow> clock \<Rightarrow> Msg \<Rightarrow> snapshot_ptr \<Rightarrow> 'p snapshotIndex \<Rightarrow> bool \<Rightarrow> SnapshotZone \<Rightarrow> string \<Rightarrow> nat \<Rightarrow> outcome
    \<Rightarrow> Scheduler \<Rightarrow> outcome \<times> Scheduler" where
  "answer_in_zone env henv clk request sp index fresh zone qname t oc sched =
    (let qtype = qtype_text env t;
         route = (if t = TypeA \<or> t = TypeAAAA then matchRoute qtype (routesForQName index qname) else None)
     in case route of
          Some rp \<Rightarrow>
            (case SelectWithIndex henv (clk_select clk) (Some sp) index (Some rp) qtype (oc_source oc) fresh sched of
               (sel, sched) \<Rightarrow>
                 (let oc = oc\<lparr>oc_routeID := route_ID (snd rp), oc_sourceScope := sel_scope sel\<rparr>
                  in case sel_result sel of
                       Inl e \<Rightarrow> (failed RcodeServerFailure ''SERVFAIL'' oc, sched)
                     | Inr selected \<Rightarrow>
                         (conclude env (clk_sign clk) request zone index qname
                            (with_answer (addressRecords qname qtype selected (sel_ttl sel)) (oc_targets oc @ selected) oc), sched)))
        | None \<Rightarrow>
            (case static_answer env (clk_sign clk) zone index qname t qtype of
               (answers, targets) \<Rightarrow>
                 (conclude env (clk_sign clk) request zone index qname (with_answer answers targets oc), sched)))"

definition resolve_source :: "'p DNSServer \<Rightarrow> Msg \<Rightarrow> net_addr option \<Rightarrow> SourceContext \<Rightarrow> SourceContext" where
  "resolve_source s request remoteAddr source =
    (case srv_Resolver s of None \<Rightarrow> source | Some resolve \<Rightarrow> resolve (Some request) remoteAddr)"

text \<open>After the query limiter.\<close>

definition answer_question ::
  "'p dns_env \<Rightarrow> hash_env \<Rightarrow> clock \<Rightarrow> Msg \<Rightarrow> net_addr option \<Rightarrow> string \<Rightarrow> nat \<Rightarrow> outcome \<Rightarrow> 'p DNSServer \<Rightarrow> outcome \<times> Scheduler" where
  "answer_question env henv clk request remoteAddr qname t oc s =
    (let index = st_index (srv_Store s)
     in if t = TypeAXFR \<or> t = TypeIXFR then (failed RcodeRefused ''REFUSED'' oc, srv_Scheduler s)
        else
          (case st_snapshot (srv_Store s) of
             None \<Rightarrow> (failed RcodeServerFailure ''SERVFAIL'' oc, srv_Scheduler s)
           | Some sp \<Rightarrow>
               (case findBestZone qname (ix_zonesByName index) of
                  None \<Rightarrow>
                    (failed RcodeRefused ''REFUSED'' (oc\<lparr>oc_response := (oc_response oc)\<lparr>msg_Authoritative := False\<rparr>\<rparr>), srv_Scheduler s)
                | Some zone \<Rightarrow>
                    (let source = resolve_source s request remoteAddr (oc_source oc);
                         oc = oc\<lparr>oc_zoneID := zone_ID zone,
                           oc_response := (oc_response oc)\<lparr>msg_Ns := msg_Ns (oc_response oc) @ [soaRecord zone]\<rparr>,
                           oc_source := source, oc_sourceScope := sourceScopeKey source\<rparr>
                     in answer_in_zone env henv clk request sp index (IsFresh (srv_Store s) (clk_fresh clk)) zone qname t oc
                          (srv_Scheduler s)))))"

text \<open>The deferred function: the response limiter, then the record of the query.\<close>

definition limit_response ::
  "clock \<Rightarrow> net_addr option \<Rightarrow> string \<Rightarrow> outcome \<Rightarrow> ResponseRateLimiter option \<Rightarrow> outcome \<times> ResponseRateLimiter option" where
  "limit_response clk remoteAddr qname oc limiter =
    (case limiter of
       None \<Rightarrow> (oc, None)
     | Some l \<Rightarrow>
         (case ResponseRateLimiter_Allow (remoteAddr, qname, oc_rcodeLabel oc) (clk_response clk) l of
            (allowed, l) \<Rightarrow>
              (if allowed then oc
               else oc\<lparr>oc_response := (oc_response oc)\<lparr>msg_Answer := [], msg_Ns := [], msg_Extra := [], msg_Authoritative := False,
                   msg_Rcode := RcodeRefused\<rparr>, oc_rcodeLabel := ''REFUSED'', oc_targets := []\<rparr>, Some l)))"

definition finish_query ::
  "clock \<Rightarrow> net_addr option \<Rightarrow> string \<Rightarrow> string \<Rightarrow> outcome \<Rightarrow> 'p DNSServer \<Rightarrow> Msg \<times> 'p DNSServer" where
  "finish_query clk remoteAddr qname qtype oc s =
    (case limit_response clk remoteAddr qname oc (srv_RRLimiter s) of
       (oc, limiter) \<Rightarrow>
         (oc_response oc,
          s\<lparr>srv_RRLimiter := limiter,
            srv_Rollups := map_option (RecordWithSource (clk_record clk) (oc_zoneID oc) (oc_routeID oc)
              ((oc_source oc)\<lparr>src_ScopeKey := oc_sourceScope oc\<rparr>) qname qtype (oc_rcodeLabel oc) (oc_targets oc)
              (TimeSub (clk_finished clk) (clk_started clk))) (srv_Rollups s)\<rparr>))"

definition limit_query :: "clock \<Rightarrow> net_addr option \<Rightarrow> 'p DNSServer \<Rightarrow> bool \<times> 'p DNSServer" where
  "limit_query clk remoteAddr s =
    (case srv_Limiter s of
       None \<Rightarrow> (True, s)
     | Some l \<Rightarrow> (case QueryRateLimiter_Allow remoteAddr (clk_query clk) l of (allowed, l) \<Rightarrow> (allowed, s\<lparr>srv_Limiter := Some l\<rparr>)))"

definition Resolve ::
  "'p dns_env \<Rightarrow> hash_env \<Rightarrow> clock \<Rightarrow> Msg option \<Rightarrow> net_addr option \<Rightarrow> 'p DNSServer \<Rightarrow> Msg \<times> 'p DNSServer" where
  "Resolve env henv clk request remoteAddr s =
    (case request of
       None \<Rightarrow> (SetRcode env zero_Msg RcodeFormatError, s)
     | Some request \<Rightarrow>
         (let response = (SetReply env request)\<lparr>msg_Authoritative := True, msg_RecursionAvailable := False\<rparr>
          in case msg_Question request of
               [] \<Rightarrow> (response\<lparr>msg_Rcode := RcodeFormatError\<rparr>, s)
             | question # _ \<Rightarrow>
                 (let qname = normalizeDomain (q_Name question); qtype = qtype_text env (q_Qtype question);
                      oc = first_outcome response
                  in case limit_query clk remoteAddr s of
                       (allowed, s) \<Rightarrow>
                         (if \<not> allowed then finish_query clk remoteAddr qname qtype (failed RcodeRefused ''REFUSED'' oc) s
                          else
                            (case answer_question env henv clk request remoteAddr qname (q_Qtype question) oc s of
                               (oc, sched) \<Rightarrow> finish_query clk remoteAddr qname qtype oc (s\<lparr>srv_Scheduler := sched\<rparr>))))))"

section \<open>UDP answers\<close>

definition udpResponseSize :: "'p DNSServer \<Rightarrow> Msg option \<Rightarrow> int" where
  "udpResponseSize s request =
    (let limit = (if srv_UDPSize s > 0 then srv_UDPSize s else DefaultUDPResponseSize);
         sz = (case request of None \<Rightarrow> MinMsgSize
           | Some m \<Rightarrow> (case msg_Edns0 m of None \<Rightarrow> MinMsgSize | Some opt \<Rightarrow> int (opt_UDPSize opt)));
         sz = (if sz > limit then limit else sz)
     in if sz < MinMsgSize then MinMsgSize else if sz > MaxMsgSize then MaxMsgSize else sz)"

definition truncateUDPResponse :: "'p dns_env \<Rightarrow> 'p DNSServer \<Rightarrow> Msg option \<Rightarrow> Msg \<Rightarrow> Msg" where
  "truncateUDPResponse env s request response =
    (let sz = udpResponseSize s request
     in if MsgLen env response \<le> sz then response else MsgTruncate env response sz)"

text \<open>\<open>udp\<close> is \<open>isUDPResponse\<close> of the writer; the result is the message that is written.\<close>

definition handleDNS ::
  "'p dns_env \<Rightarrow> hash_env \<Rightarrow> clock \<Rightarrow> bool \<Rightarrow> net_addr option \<Rightarrow> Msg option \<Rightarrow> 'p DNSServer \<Rightarrow> Msg \<times> 'p DNSServer" where
  "handleDNS env henv clk udp remoteAddr request s =
    (case Resolve env henv clk request remoteAddr s of
       (response, s) \<Rightarrow> (if udp then truncateUDPResponse env s request response else response, s))"


section \<open>The enclosing zone\<close>

definition encloses :: "string \<Rightarrow> string \<Rightarrow> bool" where
  "encloses s name \<longleftrightarrow> s \<noteq> '''' \<and> (s = name \<or> (\<exists>p. name = p @ ''.'' @ s))"

lemma encloses_length: "encloses s name \<Longrightarrow> s = name \<or> length s < length name"
  by (auto simp: encloses_def)

lemma dot_split:
  assumes "b @ CHR ''.'' # rest = p @ CHR ''.'' # s" "CHR ''.'' \<notin> set b"
  shows "s = rest \<or> (\<exists>q. rest = q @ CHR ''.'' # s)"
  using assms(1) unfolding append_eq_append_conv2
proof (elim exE disjE conjE)
  fix us
  assume "b = p @ us" "us @ CHR ''.'' # rest = CHR ''.'' # s"
  then show ?thesis using assms(2) by (cases us) auto
next
  fix us
  assume "b @ us = p" "CHR ''.'' # rest = us @ CHR ''.'' # s"
  then show ?thesis by (cases us) auto
qed

lemma encloses_Cut:
  assumes "Cut name CHR ''.'' = (b, rest, found)" "s \<noteq> name"
  shows "encloses s name \<longleftrightarrow> found \<and> encloses s rest"
proof (cases found)
  case True
  then have name: "name = b @ CHR ''.'' # rest" and nd: "CHR ''.'' \<notin> set b"
    using Cut_found[of name "CHR ''.''" b rest] assms(1) by auto
  have "(\<exists>p. b @ CHR ''.'' # rest = p @ CHR ''.'' # s) \<longleftrightarrow> s = rest \<or> (\<exists>q. rest = q @ CHR ''.'' # s)"
  proof
    assume "s = rest \<or> (\<exists>q. rest = q @ CHR ''.'' # s)"
    then show "\<exists>p. b @ CHR ''.'' # rest = p @ CHR ''.'' # s"
    proof (elim disjE exE)
      fix q assume "rest = q @ CHR ''.'' # s"
      then show ?thesis by (intro exI[of _ "b @ CHR ''.'' # q"]) simp
    qed blast
  qed (use dot_split[OF _ nd] in blast)
  then show ?thesis using True assms(2) by (auto simp: encloses_def name)
next
  case False
  have "CHR ''.'' \<notin> set name"
  proof
    assume "CHR ''.'' \<in> set name"
    then obtain p q where "name = p @ CHR ''.'' # q" "CHR ''.'' \<notin> set p" by (meson split_list_first)
    then show False using Cut_append[of "CHR ''.''" p q] assms(1) False by simp
  qed
  then show ?thesis using False assms(2) by (auto simp: encloses_def)
qed

lemma best_zone_some:
  "best_zone zones name = Some z \<longleftrightarrow>
    (\<exists>s. encloses s name \<and> map_of zones s = Some z \<and> (\<forall>s'. encloses s' name \<longrightarrow> length s < length s' \<longrightarrow> map_of zones s' = None))"
proof (induction zones name rule: best_zone.induct)
  case (1 zones name)
  obtain b rest found where c: "Cut name CHR ''.'' = (b, rest, found)" by (metis surj_pair)
  show ?case
  proof (cases "name = ''''")
    case True then show ?thesis by (simp add: best_zone.simps[of zones "[]"] encloses_def)
  next
    case ne: False
    then have self: "encloses name name" by (simp add: encloses_def)
    show ?thesis
    proof (cases "map_of zones name")
      case (Some z')
      have only: "s = name" if "encloses s name" "\<forall>s'. encloses s' name \<longrightarrow> length s < length s' \<longrightarrow> map_of zones s' = None" for s
        using encloses_length[OF that(1)] that(2) self Some by (metis option.distinct(1))
      have longest: "\<not> length name < length s'" if "encloses s' name" for s' using encloses_length[OF that] by auto
      have "best_zone zones name = Some z'" using Some ne by (simp add: best_zone.simps[of zones name])
      then show ?thesis using only longest self Some by (metis option.inject)
    next
      case None
      have iff: "encloses s name \<and> map_of zones s = Some z \<longleftrightarrow> found \<and> encloses s rest \<and> map_of zones s = Some z" for s z
        using encloses_Cut[OF c, of s] None by (metis option.distinct(1))
      have all: "(\<forall>s'. encloses s' name \<longrightarrow> length s < length s' \<longrightarrow> map_of zones s' = None) \<longleftrightarrow>
          (found \<longrightarrow> (\<forall>s'. encloses s' rest \<longrightarrow> length s < length s' \<longrightarrow> map_of zones s' = None))" for s
        using encloses_Cut[OF c] None by metis
      have "best_zone zones name = (if found then best_zone zones rest else None)"
        using ne None c by (simp add: best_zone.simps[of zones name])
      moreover have "best_zone zones rest = Some z \<longleftrightarrow> (\<exists>s. encloses s rest \<and> map_of zones s = Some z
          \<and> (\<forall>s'. encloses s' rest \<longrightarrow> length s < length s' \<longrightarrow> map_of zones s' = None))" if found
        by (rule 1[OF ne None c[symmetric] refl that])
      moreover have "(\<exists>s. encloses s name \<and> map_of zones s = Some z \<and> P s) \<longleftrightarrow>
          (\<exists>s. (found \<and> encloses s rest \<and> map_of zones s = Some z) \<and> P s)" for P
        unfolding iff[symmetric] by simp
      ultimately show ?thesis unfolding all using iff by (cases found) auto
    qed
  qed
qed

text \<open>C27: A query is answered from the most specific zone: \<open>findBestZone\<close> returns the zone with the longest name among
  the zones whose name is the query name or a suffix of it that starts after a dot, and nothing exactly when
  there is no such zone.\<close>

theorem find_best_zone_longest:
  "(findBestZone qname zones = Some z \<longleftrightarrow>
      (\<exists>s. encloses s (normalizeDomain qname) \<and> map_of zones s = Some z
        \<and> (\<forall>s'. encloses s' (normalizeDomain qname) \<longrightarrow> length s < length s' \<longrightarrow> map_of zones s' = None)))
   \<and> (findBestZone qname zones = None \<longleftrightarrow> (\<forall>s. encloses s (normalizeDomain qname) \<longrightarrow> map_of zones s = None))"
proof
  show some: "findBestZone qname zones = Some z \<longleftrightarrow>
      (\<exists>s. encloses s (normalizeDomain qname) \<and> map_of zones s = Some z
        \<and> (\<forall>s'. encloses s' (normalizeDomain qname) \<longrightarrow> length s < length s' \<longrightarrow> map_of zones s' = None))" for z
    unfolding findBestZone_def best_zone_some[symmetric] by (auto simp: best_zone_some)
  let ?S = "{s. encloses s (normalizeDomain qname) \<and> map_of zones s \<noteq> None}"
  show "findBestZone qname zones = None \<longleftrightarrow> (\<forall>s. encloses s (normalizeDomain qname) \<longrightarrow> map_of zones s = None)"
  proof
    assume none: "findBestZone qname zones = None"
    show "\<forall>s. encloses s (normalizeDomain qname) \<longrightarrow> map_of zones s = None"
    proof (rule ccontr)
      assume "\<not> ?thesis"
      then obtain s0 where "s0 \<in> ?S" by auto
      moreover have "length s \<le> length (normalizeDomain qname)" if "s \<in> ?S" for s using that encloses_length by fastforce
      ultimately obtain s where s: "s \<in> ?S" "\<forall>s'. s' \<in> ?S \<longrightarrow> length s' \<le> length s"
        using ex_has_greatest_nat[of "\<lambda>s. s \<in> ?S" s0 length] by (metis (mono_tags, lifting) le_imp_less_Suc)
      then obtain z where "map_of zones s = Some z" by auto
      then have "findBestZone qname zones = Some z"
        unfolding some using s by (intro exI[of _ s]) (auto simp: not_less[symmetric])
      with none show False by simp
    qed
  next
    assume "\<forall>s. encloses s (normalizeDomain qname) \<longrightarrow> map_of zones s = None"
    then show "findBestZone qname zones = None" using some by (metis not_None_eq)
  qed
qed

theorem find_best_zone_longest_witness:
  "findBestZone ''www.b.c'' [(''c'', zero_SnapshotZone), (''b.c'', signed_zone)] = Some signed_zone
    \<and> (\<exists>s. encloses s (normalizeDomain ''www.b.c'') \<and> map_of [(''c'', zero_SnapshotZone), (''b.c'', signed_zone)] s = Some signed_zone)"
proof -
  have "findBestZone ''www.b.c'' [(''c'', zero_SnapshotZone), (''b.c'', signed_zone)] = Some signed_zone" by code_simp
  with find_best_zone_longest[of "''www.b.c''" "[(''c'', zero_SnapshotZone), (''b.c'', signed_zone)]" signed_zone] show ?thesis
    by blast
qed

end
