(* ===== verification/Worker_Config.thy ===== *)
theory Worker_Config
  imports Go_Path DNS_Server
begin

text \<open>
  The configuration of the worker (\<open>config.go\<close>): environment, command line, token file, defaults and
  validation. The operating system, the parser of the command line, the parser of URLs and the parser of
  durations are the fields of \<open>os_env\<close>; a parsed command line is the sequence of the values that flags were
  set to.
\<close>

section \<open>The configuration\<close>

record Config =
  cfg_ServerURL :: string
  cfg_Token :: string
  cfg_ListenAddr :: string
  cfg_SnapshotPath :: string
  cfg_InstallDir :: string
  cfg_UpdateScriptPath :: string
  cfg_UpdateEnabled :: bool
  cfg_GeoIPDatabasePath :: string
  cfg_ASNDatabasePath :: string
  cfg_OperatorCIDRDatabasePath :: string
  cfg_HeartbeatInterval :: duration
  cfg_RequestTimeout :: duration
  cfg_SnapshotMaxAge :: duration
  cfg_QueryRateLimit :: int
  cfg_ResponseRateLimit :: int
  cfg_UDPResponseSize :: int
  cfg_ECSEnabled :: bool
  cfg_ECSIPv4Prefix :: int
  cfg_ECSIPv6Prefix :: int
  cfg_Version :: string

record parsed_url =
  url_Scheme :: string
  url_Host :: string
  url_Hostname :: string

datatype flag_value = String_Value string | Bool_Value bool | Duration_Value duration | Int_Value int

record os_env =
  Getenv :: "string \<Rightarrow> string"
  ReadFile :: "string \<Rightarrow> string + string"
  ParseDuration :: "string \<Rightarrow> duration option"
  URL_Parse :: "string \<Rightarrow> parsed_url option"
  ParseFlags :: "string list \<Rightarrow> string + (string \<times> flag_value) list"

datatype config_error =
    Flag_Error string
  | Two_Tokens
  | Token_File_Error string
  | Config_Is_Nil
  | Empty_Server_URL
  | Invalid_Server_URL
  | Plain_HTTP
  | Scheme_Not_HTTPS
  | Empty_Token
  | Short_Heartbeat_Interval
  | Short_Request_Timeout
  | Short_Snapshot_Max_Age
  | Negative_Query_Rate_Limit
  | Negative_Response_Rate_Limit
  | Small_UDP_Response_Size
  | Large_UDP_Response_Size
  | Bad_ECS_IPv4_Prefix
  | Bad_ECS_IPv6_Prefix

definition DefaultSnapshotPath :: string where "DefaultSnapshotPath = ''data/dns-worker-snapshot.json''"
definition DefaultHeartbeatInterval :: duration where "DefaultHeartbeatInterval = 10 * Second"
definition DefaultRequestTimeout :: duration where "DefaultRequestTimeout = 10 * Second"

section \<open>Reading the environment\<close>

definition Millisecond :: duration where "Millisecond = 1000000"

definition parseDurationEnv :: "os_env \<Rightarrow> string \<Rightarrow> duration \<Rightarrow> duration" where
  "parseDurationEnv os key fallback =
    (let text = TrimSpace (Getenv os key)
     in if text = [] then fallback
        else (case ParseDuration os text of
            Some parsed \<Rightarrow> parsed
          | None \<Rightarrow> (case Atoi text of None \<Rightarrow> fallback | Some ms \<Rightarrow> wrap64 (ms * Millisecond))))"

definition parseIntEnv :: "os_env \<Rightarrow> string \<Rightarrow> int \<Rightarrow> int" where
  "parseIntEnv os key fallback =
    (let text = TrimSpace (Getenv os key)
     in if text = [] then fallback else (case Atoi text of None \<Rightarrow> fallback | Some parsed \<Rightarrow> parsed))"

definition parseBoolEnv :: "os_env \<Rightarrow> string \<Rightarrow> bool \<Rightarrow> bool" where
  "parseBoolEnv os key fallback =
    (let text = ToLower (TrimSpace (Getenv os key))
     in if text = [] then fallback
        else if text \<in> {''1'', ''true'', ''yes'', ''on''} then True
        else if text \<in> {''0'', ''false'', ''no'', ''off''} then False
        else fallback)"

definition env_config :: "os_env \<Rightarrow> string \<Rightarrow> Config" where
  "env_config os version =
    (let text = (\<lambda>name. TrimSpace (Getenv os (''DUSHENGCDN_DNS_WORKER_'' @ name)));
         dur = (\<lambda>name. parseDurationEnv os (''DUSHENGCDN_DNS_WORKER_'' @ name));
         num = (\<lambda>name. parseIntEnv os (''DUSHENGCDN_DNS_WORKER_'' @ name));
         switch = (\<lambda>name. parseBoolEnv os (''DUSHENGCDN_DNS_WORKER_'' @ name))
     in \<lparr>cfg_ServerURL = text ''SERVER_URL'', cfg_Token = text ''TOKEN'', cfg_ListenAddr = text ''LISTEN_ADDR'',
         cfg_SnapshotPath = text ''SNAPSHOT_PATH'', cfg_InstallDir = text ''INSTALL_DIR'',
         cfg_UpdateScriptPath = text ''UPDATE_SCRIPT'', cfg_UpdateEnabled = switch ''UPDATE_ENABLED'' False,
         cfg_GeoIPDatabasePath = text ''GEOIP_DATABASE_PATH'', cfg_ASNDatabasePath = text ''ASN_DATABASE_PATH'',
         cfg_OperatorCIDRDatabasePath = text ''OPERATOR_CIDR_DATABASE_PATH'',
         cfg_HeartbeatInterval = dur ''HEARTBEAT_INTERVAL'' DefaultHeartbeatInterval,
         cfg_RequestTimeout = dur ''REQUEST_TIMEOUT'' DefaultRequestTimeout,
         cfg_SnapshotMaxAge = dur ''SNAPSHOT_MAX_AGE'' DefaultSnapshotMaxAge,
         cfg_QueryRateLimit = num ''QUERY_RATE_LIMIT'' DefaultQueryRateLimit,
         cfg_ResponseRateLimit = num ''RESPONSE_RATE_LIMIT'' DefaultResponseRateLimit,
         cfg_UDPResponseSize = num ''UDP_RESPONSE_SIZE'' DefaultUDPResponseSize,
         cfg_ECSEnabled = switch ''ECS_ENABLED'' True,
         cfg_ECSIPv4Prefix = num ''ECS_IPV4_PREFIX'' DefaultECSIPv4Prefix,
         cfg_ECSIPv6Prefix = num ''ECS_IPV6_PREFIX'' DefaultECSIPv6Prefix,
         cfg_Version = version\<rparr>)"

section \<open>The command line\<close>

text \<open>Every flag writes its field; the flag of the token file writes a variable of its own. The parser only
  produces the names and types of the table, so the last case does not arise.\<close>

fun set_flag :: "Config \<times> string \<Rightarrow> string \<times> flag_value \<Rightarrow> Config \<times> string" where
  "set_flag (cfg, tokenFile) (name, String_Value v) =
    (if name = ''server-url'' then (cfg\<lparr>cfg_ServerURL := v\<rparr>, tokenFile)
     else if name = ''token'' then (cfg\<lparr>cfg_Token := v\<rparr>, tokenFile)
     else if name = ''token-file'' then (cfg, v)
     else if name = ''listen'' then (cfg\<lparr>cfg_ListenAddr := v\<rparr>, tokenFile)
     else if name = ''snapshot-path'' then (cfg\<lparr>cfg_SnapshotPath := v\<rparr>, tokenFile)
     else if name = ''install-dir'' then (cfg\<lparr>cfg_InstallDir := v\<rparr>, tokenFile)
     else if name = ''update-script'' then (cfg\<lparr>cfg_UpdateScriptPath := v\<rparr>, tokenFile)
     else if name = ''geoip-database'' then (cfg\<lparr>cfg_GeoIPDatabasePath := v\<rparr>, tokenFile)
     else if name = ''asn-database'' then (cfg\<lparr>cfg_ASNDatabasePath := v\<rparr>, tokenFile)
     else if name = ''operator-cidr-database'' then (cfg\<lparr>cfg_OperatorCIDRDatabasePath := v\<rparr>, tokenFile)
     else (cfg, tokenFile))"
| "set_flag (cfg, tokenFile) (name, Bool_Value v) =
    (if name = ''update-enabled'' then (cfg\<lparr>cfg_UpdateEnabled := v\<rparr>, tokenFile)
     else if name = ''ecs-enabled'' then (cfg\<lparr>cfg_ECSEnabled := v\<rparr>, tokenFile)
     else (cfg, tokenFile))"
| "set_flag (cfg, tokenFile) (name, Duration_Value v) =
    (if name = ''heartbeat-interval'' then (cfg\<lparr>cfg_HeartbeatInterval := v\<rparr>, tokenFile)
     else if name = ''request-timeout'' then (cfg\<lparr>cfg_RequestTimeout := v\<rparr>, tokenFile)
     else if name = ''snapshot-max-age'' then (cfg\<lparr>cfg_SnapshotMaxAge := v\<rparr>, tokenFile)
     else (cfg, tokenFile))"
| "set_flag (cfg, tokenFile) (name, Int_Value v) =
    (if name = ''query-rate-limit'' then (cfg\<lparr>cfg_QueryRateLimit := v\<rparr>, tokenFile)
     else if name = ''response-rate-limit'' then (cfg\<lparr>cfg_ResponseRateLimit := v\<rparr>, tokenFile)
     else if name = ''udp-response-size'' then (cfg\<lparr>cfg_UDPResponseSize := v\<rparr>, tokenFile)
     else if name = ''ecs-ipv4-prefix'' then (cfg\<lparr>cfg_ECSIPv4Prefix := v\<rparr>, tokenFile)
     else if name = ''ecs-ipv6-prefix'' then (cfg\<lparr>cfg_ECSIPv6Prefix := v\<rparr>, tokenFile)
     else (cfg, tokenFile))"

definition applyTokenFile :: "os_env \<Rightarrow> Config \<Rightarrow> string \<Rightarrow> bool \<Rightarrow> config_error + Config" where
  "applyTokenFile os cfg tokenFile tokenFlagSet =
    (let tokenFile = TrimSpace tokenFile
     in if tokenFile = [] then Inr cfg
        else if tokenFlagSet then Inl Two_Tokens
        else (case ReadFile os tokenFile of
            Inl err \<Rightarrow> Inl (Token_File_Error err)
          | Inr content \<Rightarrow> Inr (cfg\<lparr>cfg_Token := TrimSpace content\<rparr>)))"

section \<open>Defaults and validation\<close>

definition default_paths :: "Config \<Rightarrow> Config" where
  "default_paths cfg =
    (let cfg = (if TrimSpace (cfg_ListenAddr cfg) = [] then cfg\<lparr>cfg_ListenAddr := DefaultListenAddr\<rparr> else cfg);
         cfg = (if TrimSpace (cfg_SnapshotPath cfg) = [] then cfg\<lparr>cfg_SnapshotPath := DefaultSnapshotPath\<rparr> else cfg);
         cfg = cfg\<lparr>cfg_SnapshotPath := Clean (cfg_SnapshotPath cfg)\<rparr>;
         cfg = (if TrimSpace (cfg_InstallDir cfg) = [] then
             (let dir = filepath_Dir (cfg_SnapshotPath cfg)
              in cfg\<lparr>cfg_InstallDir := (if filepath_Base dir = ''data'' then filepath_Dir dir else dir)\<rparr>)
           else cfg);
         cfg = cfg\<lparr>cfg_InstallDir := Clean (cfg_InstallDir cfg)\<rparr>;
         cfg = (if TrimSpace (cfg_UpdateScriptPath cfg) = [] then
             cfg\<lparr>cfg_UpdateScriptPath := filepath_Join [cfg_InstallDir cfg, ''update-dns-worker.sh'']\<rparr> else cfg)
     in cfg\<lparr>cfg_UpdateScriptPath := Clean (cfg_UpdateScriptPath cfg)\<rparr>)"

definition applyConfigDefaults :: "Config \<Rightarrow> Config" where
  "applyConfigDefaults cfg =
    (let cfg = default_paths cfg;
         positive = (\<lambda>v d. if v \<le> 0 then d else v);
         clamp = (\<lambda>v (hi::int). if v < 0 then 0 else if v > hi then hi else v)
     in cfg\<lparr>cfg_HeartbeatInterval := positive (cfg_HeartbeatInterval cfg) DefaultHeartbeatInterval,
         cfg_RequestTimeout := positive (cfg_RequestTimeout cfg) DefaultRequestTimeout,
         cfg_SnapshotMaxAge := positive (cfg_SnapshotMaxAge cfg) DefaultSnapshotMaxAge,
         cfg_QueryRateLimit := (if cfg_QueryRateLimit cfg < 0 then 0 else cfg_QueryRateLimit cfg),
         cfg_ResponseRateLimit := (if cfg_ResponseRateLimit cfg < 0 then 0 else cfg_ResponseRateLimit cfg),
         cfg_UDPResponseSize := positive (cfg_UDPResponseSize cfg) DefaultUDPResponseSize,
         cfg_ECSIPv4Prefix := clamp (cfg_ECSIPv4Prefix cfg) 32,
         cfg_ECSIPv6Prefix := clamp (cfg_ECSIPv6Prefix cfg) 128,
         cfg_Version := (if TrimSpace (cfg_Version cfg) = [] then ''dev'' else cfg_Version cfg)\<rparr>)"

definition isLoopbackServerHost :: "string \<Rightarrow> bool" where
  "isLoopbackServerHost host =
    (let host = ToLower (TrimSpace host)
     in host = ''localhost'' \<or> (case ParseIP host of None \<Rightarrow> False | Some ip \<Rightarrow> IsLoopback ip))"

definition validate_url :: "os_env \<Rightarrow> string \<Rightarrow> config_error option" where
  "validate_url os text =
    (if TrimSpace text = [] then Some Empty_Server_URL
     else (case URL_Parse os text of
         None \<Rightarrow> Some Invalid_Server_URL
       | Some parsed \<Rightarrow>
           if url_Scheme parsed = [] \<or> url_Host parsed = [] then Some Invalid_Server_URL
           else (let scheme = ToLower (TrimSpace (url_Scheme parsed))
                 in if scheme = ''https'' then None
                    else if scheme = ''http'' then
                      (if isLoopbackServerHost (url_Hostname parsed) then None else Some Plain_HTTP)
                    else Some Scheme_Not_HTTPS)))"

definition validateConfig :: "os_env \<Rightarrow> Config option \<Rightarrow> config_error option" where
  "validateConfig os config =
    (case config of
       None \<Rightarrow> Some Config_Is_Nil
     | Some cfg \<Rightarrow>
         (case validate_url os (cfg_ServerURL cfg) of
            Some e \<Rightarrow> Some e
          | None \<Rightarrow>
              if TrimSpace (cfg_Token cfg) = [] then Some Empty_Token
              else if cfg_HeartbeatInterval cfg < Second then Some Short_Heartbeat_Interval
              else if cfg_RequestTimeout cfg < Second then Some Short_Request_Timeout
              else if cfg_SnapshotMaxAge cfg < Second then Some Short_Snapshot_Max_Age
              else if cfg_QueryRateLimit cfg < 0 then Some Negative_Query_Rate_Limit
              else if cfg_ResponseRateLimit cfg < 0 then Some Negative_Response_Rate_Limit
              else if cfg_UDPResponseSize cfg < 512 then Some Small_UDP_Response_Size
              else if cfg_UDPResponseSize cfg > 65535 then Some Large_UDP_Response_Size
              else if cfg_ECSIPv4Prefix cfg < 0 \<or> cfg_ECSIPv4Prefix cfg > 32 then Some Bad_ECS_IPv4_Prefix
              else if cfg_ECSIPv6Prefix cfg < 0 \<or> cfg_ECSIPv6Prefix cfg > 128 then Some Bad_ECS_IPv6_Prefix
              else None))"

definition LoadConfig :: "os_env \<Rightarrow> string list \<Rightarrow> string \<Rightarrow> config_error + Config" where
  "LoadConfig os args version =
    (let tokenFile = TrimSpace (Getenv os ''DUSHENGCDN_DNS_WORKER_TOKEN_FILE'')
     in case ParseFlags os args of
          Inl err \<Rightarrow> Inl (Flag_Error err)
        | Inr flags \<Rightarrow>
            (case foldl set_flag (env_config os version, tokenFile) flags of
               (cfg, tokenFile) \<Rightarrow>
                 (case applyTokenFile os cfg tokenFile (''token'' \<in> fst ` set flags) of
                    Inl e \<Rightarrow> Inl e
                  | Inr cfg \<Rightarrow>
                      (let cfg = applyConfigDefaults cfg
                       in case validateConfig os (Some cfg) of Some e \<Rightarrow> Inl e | None \<Rightarrow> Inr cfg))))"

section \<open>Loopback hosts\<close>

lemma lower_digit: "(of_char c :: nat) \<in> {48..57} \<Longrightarrow> lower_char c = c"
  by (auto simp: lower_char_def less_eq_char_def)

lemma ToLower_string4: "ToLower (string4 w) = string4 w"
proof -
  have "lower_char c = c" if "c \<in> set (string4 w)" for c
    using string4_chars[OF that] by (auto intro: lower_digit set_FormatUint) (simp add: lower_char_def)
  then show ?thesis by (simp add: ToLower_def map_idI)
qed

text \<open>Of the IPv4 addresses exactly those of \<open>127.0.0.0/8\<close> count as local.\<close>

lemma loopback_IPv4: "isLoopbackServerHost (string4 w) \<longleftrightarrow> drop_bit 24 w = 127"
proof -
  have "CHR ''l'' \<notin> set (string4 w)"
  proof
    assume "CHR ''l'' \<in> set (string4 w)"
    from string4_chars[OF this] show False using FormatUint_no_char[of "CHR ''l''"] by auto
  qed
  then have "string4 w \<noteq> ''localhost''" by (metis list.set_intros(1))
  then show ?thesis
    by (simp add: isLoopbackServerHost_def ToLower_string4 TrimSpace_string4 ParseIP_string4 IsLoopback_def)
qed

section \<open>Properties\<close>

lemma validateConfig_None:
  assumes "validateConfig os (Some cfg) = None"
  shows "validate_url os (cfg_ServerURL cfg) = None \<and> TrimSpace (cfg_Token cfg) \<noteq> []
    \<and> Second \<le> cfg_HeartbeatInterval cfg \<and> Second \<le> cfg_RequestTimeout cfg \<and> Second \<le> cfg_SnapshotMaxAge cfg
    \<and> 0 \<le> cfg_QueryRateLimit cfg \<and> 0 \<le> cfg_ResponseRateLimit cfg
    \<and> 512 \<le> cfg_UDPResponseSize cfg \<and> cfg_UDPResponseSize cfg \<le> 65535
    \<and> 0 \<le> cfg_ECSIPv4Prefix cfg \<and> cfg_ECSIPv4Prefix cfg \<le> 32 \<and> 0 \<le> cfg_ECSIPv6Prefix cfg \<and> cfg_ECSIPv6Prefix cfg \<le> 128"
  using assms by (simp add: validateConfig_def split: option.splits if_splits)

lemma validate_url_None:
  "validate_url os s = None \<Longrightarrow> \<exists>u. URL_Parse os s = Some u \<and> url_Host u \<noteq> []
    \<and> (ToLower (TrimSpace (url_Scheme u)) = ''https''
      \<or> ToLower (TrimSpace (url_Scheme u)) = ''http'' \<and> isLoopbackServerHost (url_Hostname u))"
  by (auto simp: validate_url_def Let_def split: option.splits if_splits)

lemma default_paths_keeps [simp]:
  "cfg_Token (default_paths cfg) = cfg_Token cfg" "cfg_ServerURL (default_paths cfg) = cfg_ServerURL cfg"
  "cfg_HeartbeatInterval (default_paths cfg) = cfg_HeartbeatInterval cfg"
  "cfg_RequestTimeout (default_paths cfg) = cfg_RequestTimeout cfg" "cfg_SnapshotMaxAge (default_paths cfg) = cfg_SnapshotMaxAge cfg"
  "cfg_QueryRateLimit (default_paths cfg) = cfg_QueryRateLimit cfg" "cfg_ResponseRateLimit (default_paths cfg) = cfg_ResponseRateLimit cfg"
  "cfg_UDPResponseSize (default_paths cfg) = cfg_UDPResponseSize cfg"
  "cfg_ECSIPv4Prefix (default_paths cfg) = cfg_ECSIPv4Prefix cfg" "cfg_ECSIPv6Prefix (default_paths cfg) = cfg_ECSIPv6Prefix cfg"
  by (simp_all add: default_paths_def Let_def)

lemma defaults_keep_token [simp]: "cfg_Token (applyConfigDefaults cfg) = cfg_Token cfg"
  by (simp add: applyConfigDefaults_def Let_def)

text \<open>C38: The configuration the worker starts with is safe: the server URL has a host and its scheme is https, or http with a
  local host; the token is not blank, and comes from the token file whenever one is named, in which case no
  flag sets it; intervals are at least one second, rate limits are not negative, the UDP size is between 512
  and 65535 and the prefixes are in range.\<close>

theorem accepted_config_safe:
  fixes os args version
  defines "named \<equiv> (\<lambda>flags. TrimSpace (snd (foldl set_flag
    (env_config os version, TrimSpace (Getenv os ''DUSHENGCDN_DNS_WORKER_TOKEN_FILE'')) flags)))"
  assumes "LoadConfig os args version = Inr cfg"
  shows "(\<exists>u. URL_Parse os (cfg_ServerURL cfg) = Some u \<and> url_Host u \<noteq> []
      \<and> (ToLower (TrimSpace (url_Scheme u)) = ''https''
        \<or> ToLower (TrimSpace (url_Scheme u)) = ''http'' \<and> isLoopbackServerHost (url_Hostname u)))
    \<and> TrimSpace (cfg_Token cfg) \<noteq> []
    \<and> (\<exists>flags. ParseFlags os args = Inr flags \<and> (named flags = [] \<or>
        ''token'' \<notin> fst ` set flags \<and> (\<exists>content. ReadFile os (named flags) = Inr content \<and> cfg_Token cfg = TrimSpace content)))
    \<and> Second \<le> cfg_HeartbeatInterval cfg \<and> Second \<le> cfg_RequestTimeout cfg \<and> Second \<le> cfg_SnapshotMaxAge cfg
    \<and> 0 \<le> cfg_QueryRateLimit cfg \<and> 0 \<le> cfg_ResponseRateLimit cfg
    \<and> 512 \<le> cfg_UDPResponseSize cfg \<and> cfg_UDPResponseSize cfg \<le> 65535
    \<and> 0 \<le> cfg_ECSIPv4Prefix cfg \<and> cfg_ECSIPv4Prefix cfg \<le> 32 \<and> 0 \<le> cfg_ECSIPv6Prefix cfg \<and> cfg_ECSIPv6Prefix cfg \<le> 128"
proof -
  obtain flags where f: "ParseFlags os args = Inr flags"
    using assms(2) by (auto simp: LoadConfig_def Let_def split: sum.splits)
  obtain raw tokenFile where raw: "foldl set_flag (env_config os version, TrimSpace (Getenv os ''DUSHENGCDN_DNS_WORKER_TOKEN_FILE'')) flags = (raw, tokenFile)"
    by fastforce
  obtain cfg0 where c0: "applyTokenFile os raw tokenFile (''token'' \<in> fst ` set flags) = Inr cfg0"
    and c: "cfg = applyConfigDefaults cfg0" "validateConfig os (Some cfg) = None"
    using assms(2) f raw by (auto simp: LoadConfig_def Let_def split: sum.splits option.splits)
  have "named flags = TrimSpace tokenFile" by (simp add: named_def raw)
  then have "named flags = [] \<or> ''token'' \<notin> fst ` set flags
      \<and> (\<exists>content. ReadFile os (named flags) = Inr content \<and> cfg_Token cfg = TrimSpace content)"
    using c0 by (auto simp: applyTokenFile_def c(1) Let_def split: if_splits sum.splits)
  then show ?thesis
    using f validateConfig_None[OF c(2)] validate_url_None[of os "cfg_ServerURL cfg"] by blast
qed

definition example_os :: os_env where
  "example_os = \<lparr>Getenv = (\<lambda>key. if key = ''DUSHENGCDN_DNS_WORKER_TOKEN_FILE'' then ''/run/token'' else ''''),
    ReadFile = (\<lambda>path. if path = ''/run/token'' then Inr '' secret '' else Inl ''no such file''), ParseDuration = (\<lambda>_. None),
    URL_Parse = (\<lambda>_. Some \<lparr>url_Scheme = ''http'', url_Host = ''127.0.0.1:80'', url_Hostname = ''127.0.0.1''\<rparr>),
    ParseFlags = (\<lambda>_. Inr [(''server-url'', String_Value ''http://127.0.0.1:80''), (''udp-response-size'', Int_Value 4096)])\<rparr>"

definition example_config :: Config where
  "example_config = applyConfigDefaults ((env_config example_os ''1.0'')\<lparr>cfg_ServerURL := ''http://127.0.0.1:80'',
    cfg_UDPResponseSize := 4096, cfg_Token := ''secret''\<rparr>)"

lemma example_env:
  "Getenv example_os key = (if key = ''DUSHENGCDN_DNS_WORKER_TOKEN_FILE'' then ''/run/token'' else [])"
  by (simp add: example_os_def)

lemma unset_env:
  "Getenv os key = [] \<Longrightarrow> parseDurationEnv os key d = d" "Getenv os key = [] \<Longrightarrow> parseIntEnv os key n = n"
  by (simp_all add: parseDurationEnv_def parseIntEnv_def)

lemma example_config_fields:
  "cfg_ServerURL example_config = ''http://127.0.0.1:80''" "cfg_Token example_config = ''secret''"
  "cfg_HeartbeatInterval example_config = 10 * Second" "cfg_RequestTimeout example_config = 10 * Second"
  "cfg_SnapshotMaxAge example_config = 300 * Second" "cfg_QueryRateLimit example_config = 200"
  "cfg_ResponseRateLimit example_config = 50" "cfg_UDPResponseSize example_config = 4096"
  "cfg_ECSIPv4Prefix example_config = 24" "cfg_ECSIPv6Prefix example_config = 56"
  by (simp_all add: example_config_def applyConfigDefaults_def env_config_def unset_env example_env Let_def
      DefaultHeartbeatInterval_def DefaultRequestTimeout_def DefaultSnapshotMaxAge_def Second_def Minute_def
      DefaultQueryRateLimit_def DefaultResponseRateLimit_def DefaultECSIPv4Prefix_def DefaultECSIPv6Prefix_def)

lemma example_config_loads: "LoadConfig example_os [] ''1.0'' = Inr example_config"
proof -
  let ?cfg = "(env_config example_os ''1.0'')\<lparr>cfg_ServerURL := ''http://127.0.0.1:80'', cfg_UDPResponseSize := 4096\<rparr>"
  have "TrimSpace ''/run/token'' = ''/run/token''" "TrimSpace '' secret '' = ''secret''" by code_simp+
  moreover have "ReadFile example_os ''/run/token'' = Inr '' secret ''"
    "Getenv example_os ''DUSHENGCDN_DNS_WORKER_TOKEN_FILE'' = ''/run/token''" by (simp_all add: example_os_def)
  ultimately have t: "applyTokenFile example_os ?cfg ''/run/token'' False = Inr (?cfg\<lparr>cfg_Token := ''secret''\<rparr>)"
    "TrimSpace (Getenv example_os ''DUSHENGCDN_DNS_WORKER_TOKEN_FILE'') = ''/run/token''"
    by (simp_all add: applyTokenFile_def)
  have "isLoopbackServerHost ''127.0.0.1''" "TrimSpace ''http://127.0.0.1:80'' \<noteq> []" "ToLower (TrimSpace ''http'') = ''http''" "TrimSpace ''secret'' \<noteq> []"
    by code_simp+
  then have "validateConfig example_os (Some example_config) = None"
    by (simp add: validateConfig_def validate_url_def example_config_fields Second_def) (simp add: example_os_def)
  moreover have "ParseFlags example_os [] = Inr [(''server-url'', String_Value ''http://127.0.0.1:80''), (''udp-response-size'', Int_Value 4096)]"
    by (simp add: example_os_def)
  ultimately show ?thesis
    using t by (simp add: LoadConfig_def Let_def example_config_def[symmetric])
qed

theorem accepted_config_safe_witness:
  "cfg_UDPResponseSize example_config \<le> 65535 \<and> TrimSpace (cfg_Token example_config) \<noteq> []"
  using accepted_config_safe[OF example_config_loads] by blast

end
