(* ===== verification/Snapshot_Signature.thy ===== *)
theory Snapshot_Signature
  imports Snapshot_Store
begin

text \<open>
  Signed snapshots (\<open>snapshot_signature.go\<close>). The HMAC, base64 and JSON encoders are the fields of a
  record. Shown: what is signed verifies with the same token, also after the transport as JSON, when
  normalising the snapshot a second time changes nothing; a signature made with another MAC is refused;
  and a snapshot whose second normalisation differs fails its own verification.
\<close>

record mac_env =
  hmac_sha256 :: "string \<Rightarrow> string \<Rightarrow> string"
  base64_encode :: "string \<Rightarrow> string"
  base64_decode :: "string \<Rightarrow> string option"
  json_snapshot :: "Snapshot \<Rightarrow> string option"

datatype signature_error =
    Empty_Token
  | Invalid_Snapshot
  | Marshal_Failed
  | Missing_Envelope
  | Unsupported_Signature string
  | Invalid_Signature
  | Verification_Failed

record SignedSnapshot =
  sgn_SignatureVersion :: string
  sgn_Signature :: string
  sgn_Snapshot :: Snapshot

definition SnapshotSignatureVersion :: string where
  "SnapshotSignatureVersion = ''dushengcdn-dns-snapshot-hmac-sha256-v1''"

definition canonicalSnapshotSignaturePayload :: "mac_env \<Rightarrow> Snapshot \<Rightarrow> signature_error + string" where
  "canonicalSnapshotSignaturePayload env snapshot =
    (let normalized = normalizeSnapshot snapshot
     in case json_snapshot env normalized of
          None \<Rightarrow> Inl Marshal_Failed
        | Some raw \<Rightarrow>
            Inr (SnapshotSignatureVersion @ [CHR 0x0A] @ TrimSpace (snap_SnapshotVersion normalized) @ [CHR 0x0A] @ raw))"

definition computeSnapshotSignature :: "mac_env \<Rightarrow> Snapshot option \<Rightarrow> string \<Rightarrow> signature_error + string" where
  "computeSnapshotSignature env snapshot token =
    (case snapshot of
       None \<Rightarrow> Inl Invalid_Snapshot
     | Some s \<Rightarrow>
         if TrimSpace (snap_SnapshotVersion s) = [] then Inl Invalid_Snapshot
         else if TrimSpace token = [] then Inl Empty_Token
         else (case canonicalSnapshotSignaturePayload env s of
             Inl e \<Rightarrow> Inl e
           | Inr payload \<Rightarrow> Inr (base64_encode env (hmac_sha256 env token payload))))"

definition SignSnapshot :: "mac_env \<Rightarrow> Snapshot option \<Rightarrow> string \<Rightarrow> signature_error + SignedSnapshot" where
  "SignSnapshot env snapshot token =
    (if TrimSpace token = [] then Inl Empty_Token
     else (case snapshot of
         None \<Rightarrow> Inl Invalid_Snapshot
       | Some s \<Rightarrow>
           (case computeSnapshotSignature env (Some s) token of
              Inl e \<Rightarrow> Inl e
            | Inr signature \<Rightarrow>
                Inr \<lparr>sgn_SignatureVersion = SnapshotSignatureVersion, sgn_Signature = signature,
                     sgn_Snapshot = normalizeSnapshot s\<rparr>)))"

text \<open>\<open>None\<close> is a nil error: the envelope verifies.\<close>

definition VerifySignedSnapshot :: "mac_env \<Rightarrow> SignedSnapshot option \<Rightarrow> string \<Rightarrow> signature_error option" where
  "VerifySignedSnapshot env envelope token =
    (case envelope of
       None \<Rightarrow> Some Missing_Envelope
     | Some e \<Rightarrow>
         if TrimSpace (sgn_SignatureVersion e) \<noteq> SnapshotSignatureVersion
         then Some (Unsupported_Signature (sgn_SignatureVersion e))
         else (case computeSnapshotSignature env (Some (sgn_Snapshot e)) token of
             Inl err \<Rightarrow> Some err
           | Inr expected \<Rightarrow>
               (case (base64_decode env (TrimSpace (sgn_Signature e)), base64_decode env expected) of
                  (None, _) \<Rightarrow> Some Invalid_Signature
                | (Some actual, None) \<Rightarrow> Some Invalid_Signature
                | (Some actual, Some want) \<Rightarrow> if actual = want then None else Some Verification_Failed)))"

section \<open>Properties\<close>

text \<open>What is relied on: base64 decodes what it encodes, without white space at its ends.\<close>

definition mac_env_ok :: "mac_env \<Rightarrow> bool" where
  "mac_env_ok env \<longleftrightarrow>
    (\<forall>x. base64_decode env (base64_encode env x) = Some x) \<and> (\<forall>x. TrimSpace (base64_encode env x) = base64_encode env x)"

text \<open>The envelope as the worker decodes it from JSON.\<close>

definition transported :: "SignedSnapshot \<Rightarrow> SignedSnapshot" where
  "transported e = e\<lparr>sgn_Snapshot := strip_snapshot (sgn_Snapshot e)\<rparr>"

lemma signature_version_trim: "TrimSpace SnapshotSignatureVersion = SnapshotSignatureVersion"
  by code_simp

text \<open>Verification accepts exactly the right MAC: on an envelope with the right version, a usable
  token and a decodable signature it succeeds if and only if the signature decodes to the HMAC, under
  the token, of the canonical payload of the snapshot in the envelope, which then has one.\<close>

theorem verify_iff_mac:
  assumes "mac_env_ok env" "TrimSpace (sgn_SignatureVersion e) = SnapshotSignatureVersion"
    and "TrimSpace token \<noteq> []" "TrimSpace (snap_SnapshotVersion (sgn_Snapshot e)) \<noteq> []"
  shows "VerifySignedSnapshot env (Some e) token = None \<longleftrightarrow>
    (\<exists>payload. canonicalSnapshotSignaturePayload env (sgn_Snapshot e) = Inr payload
      \<and> base64_decode env (TrimSpace (sgn_Signature e)) = Some (hmac_sha256 env token payload))"
  using assms
  by (auto simp: VerifySignedSnapshot_def computeSnapshotSignature_def mac_env_ok_def split: option.splits sum.splits)

lemma self_signed_verifies:
  assumes "mac_env_ok env" "computeSnapshotSignature env (Some s) token = Inr signature"
  shows "VerifySignedSnapshot env
    (Some \<lparr>sgn_SignatureVersion = SnapshotSignatureVersion, sgn_Signature = signature, sgn_Snapshot = s\<rparr>) token = None"
  using assms
  by (auto simp: VerifySignedSnapshot_def computeSnapshotSignature_def mac_env_ok_def signature_version_trim split: if_splits sum.splits)

text \<open>A snapshot signed with a token verifies with it after the transport as JSON, provided that
  normalising it twice is normalising it once.\<close>

theorem sign_then_verify:
  assumes "mac_env_ok env" "SignSnapshot env (Some snap) token = Inr e"
    and "normalizeSnapshot (normalizeSnapshot snap) = normalizeSnapshot snap"
  shows "VerifySignedSnapshot env (Some (transported e)) token = None"
proof -
  from assms(2) obtain signature where c: "computeSnapshotSignature env (Some snap) token = Inr signature"
    and e: "e = \<lparr>sgn_SignatureVersion = SnapshotSignatureVersion, sgn_Signature = signature, sgn_Snapshot = normalizeSnapshot snap\<rparr>"
    by (auto simp: SignSnapshot_def split: if_splits sum.splits)
  have n: "normalizeSnapshot (strip_snapshot (normalizeSnapshot snap)) = normalizeSnapshot snap"
    by (simp add: normalizeSnapshot_strip assms(3))
  then have p: "canonicalSnapshotSignaturePayload env (strip_snapshot (normalizeSnapshot snap)) =
      canonicalSnapshotSignaturePayload env snap"
    by (simp add: canonicalSnapshotSignaturePayload_def)
  have "snap_SnapshotVersion (strip_snapshot (normalizeSnapshot snap)) = snap_SnapshotVersion snap"
    by (simp add: strip_snapshot_def normalizeSnapshot_def)
  then have "computeSnapshotSignature env (Some (strip_snapshot (normalizeSnapshot snap))) token = Inr signature"
    using c by (auto simp: computeSnapshotSignature_def p split: if_splits)
  from self_signed_verifies[OF assms(1) this] show ?thesis by (simp add: e transported_def)
qed

definition plain_mac :: mac_env where
  "plain_mac =
    \<lparr>hmac_sha256 = (\<lambda>key payload. payload @ key), base64_encode = (\<lambda>x. ''<'' @ x @ ''>''),
     base64_decode = (\<lambda>t. if t \<noteq> [] then Some (butlast (tl t)) else None),
     json_snapshot = (\<lambda>s. Some (Join (map zone_Name (snap_Zones s)) '',''))\<rparr>"

lemma plain_mac_ok: "mac_env_ok plain_mac"
proof -
  have "\<not> is_space CHR ''<''" "\<not> is_space CHR ''>''" by code_simp+
  then have "TrimSpace (''<'' @ x @ ''>'') = ''<'' @ x @ ''>''" for x by (intro TrimSpace_id) simp
  then show ?thesis by (simp add: mac_env_ok_def plain_mac_def butlast_append)
qed

lemma plain_mac_signs:
  assumes "TrimSpace token \<noteq> []" "TrimSpace (snap_SnapshotVersion s) \<noteq> []"
  shows "computeSnapshotSignature plain_mac (Some s) token = Inr (projr (computeSnapshotSignature plain_mac (Some s) token))"
  using assms by (simp add: computeSnapshotSignature_def canonicalSnapshotSignaturePayload_def plain_mac_def Let_def)

definition zone_snapshot :: "string \<Rightarrow> Snapshot" where
  "zone_snapshot name = zero_Snapshot\<lparr>snap_SnapshotVersion := ''v1'', snap_Zones := [zero_SnapshotZone\<lparr>zone_Name := name\<rparr>]\<rparr>"

theorem verify_iff_mac_witness:
  "VerifySignedSnapshot plain_mac
    (Some \<lparr>sgn_SignatureVersion = SnapshotSignatureVersion, sgn_Signature = ''<forged>'', sgn_Snapshot = zone_snapshot ''a''\<rparr>)
    ''t'' \<noteq> None"
proof -
  let ?e = "\<lparr>sgn_SignatureVersion = SnapshotSignatureVersion, sgn_Signature = ''<forged>'', sgn_Snapshot = zone_snapshot ''a''\<rparr>"
  have "TrimSpace (sgn_SignatureVersion ?e) = SnapshotSignatureVersion" by (simp add: signature_version_trim)
  moreover have "TrimSpace ''t'' \<noteq> []" by code_simp
  moreover have "TrimSpace (snap_SnapshotVersion (sgn_Snapshot ?e)) \<noteq> []" by code_simp
  moreover have "base64_decode plain_mac (TrimSpace (sgn_Signature ?e)) = Some ''forged''" by code_simp
  moreover have "canonicalSnapshotSignaturePayload plain_mac (sgn_Snapshot ?e) = Inr payload \<Longrightarrow> hmac_sha256 plain_mac ''t'' payload \<noteq> ''forged''" for payload
    by (auto simp: plain_mac_def canonicalSnapshotSignaturePayload_def SnapshotSignatureVersion_def Let_def)
  ultimately show ?thesis
    using verify_iff_mac[OF plain_mac_ok, of ?e "''t''"] by fastforce
qed

lemma stable_zone_snapshot:
  "normalizeSnapshot (normalizeSnapshot (zone_snapshot ''example.com'')) = normalizeSnapshot (zone_snapshot ''example.com'')"
  by code_simp

theorem sign_then_verify_witness:
  "\<exists>e. SignSnapshot plain_mac (Some (zone_snapshot ''example.com'')) ''secret'' = Inr e
    \<and> VerifySignedSnapshot plain_mac (Some (transported e)) ''secret'' = None"
proof -
  have tok: "TrimSpace ''secret'' \<noteq> []" and v: "TrimSpace (snap_SnapshotVersion (zone_snapshot ''example.com'')) \<noteq> []" by code_simp+
  obtain signature where "computeSnapshotSignature plain_mac (Some (zone_snapshot ''example.com'')) ''secret'' = Inr signature"
    using plain_mac_signs[OF tok v] by (rule that)
  then obtain e where "SignSnapshot plain_mac (Some (zone_snapshot ''example.com'')) ''secret'' = Inr e"
    by (simp add: SignSnapshot_def tok)
  with sign_then_verify[OF plain_mac_ok this stable_zone_snapshot] show ?thesis by blast
qed

text \<open>A zone whose name ends in two dots: its own signature is refused.\<close>

lemma sign_not_verified:
  "\<exists>e. SignSnapshot plain_mac (Some (zone_snapshot ''a..'')) ''secret'' = Inr e
    \<and> VerifySignedSnapshot plain_mac (Some (transported e)) ''secret'' = Some Verification_Failed"
proof -
  have "(case SignSnapshot plain_mac (Some (zone_snapshot ''a..'')) ''secret'' of
      Inr e \<Rightarrow> VerifySignedSnapshot plain_mac (Some (transported e)) ''secret'' = Some Verification_Failed
    | Inl _ \<Rightarrow> False)" by code_simp
  then show ?thesis by (auto split: sum.splits)
qed

end
