(* ===== verification/Worker_Client.thy ===== *)
theory Worker_Client
  imports Worker_Config Snapshot_Signature
begin

text \<open>
  The HTTP client of the worker (\<open>client.go\<close>): the requests it makes, the errors it returns and the check of
  the signature of a snapshot. The transport, the joining of URLs and the JSON codec are the fields of
  \<open>http_env\<close>. The main result is \<open>fetched_snapshot_authentic\<close>.
\<close>

section \<open>Messages\<close>

record 'd apiResponse =
  ar_Success :: bool
  ar_Message :: string
  ar_Data :: 'd

record UpdateResultPayload =
  up_Success :: bool
  up_Message :: string
  up_Repo :: string
  up_Channel :: string
  up_TagName :: string
  up_ReportedAtUnix :: int

record HeartbeatInput =
  hb_Version :: string
  hb_Status :: string
  hb_LastSnapshotVersion :: string
  hb_LastSnapshotAt :: "gotime option"
  hb_LastError :: string
  hb_GeoIPEnabled :: bool
  hb_GeoIPDatabasePath :: string
  hb_ASNDatabasePath :: string
  hb_GeoIPLastError :: string
  hb_ASNLastError :: string
  hb_GeoIPDatabaseType :: string
  hb_ASNDatabaseType :: string
  hb_GeoIPCountryEnabled :: bool
  hb_GeoIPASNEnabled :: bool
  hb_GeoIPOperatorEnabled :: bool
  hb_OperatorCIDRDatabasePath :: string
  hb_OperatorCIDRLastError :: "cidr_error option"
  hb_UpdateSupported :: bool
  hb_UninstallSupported :: bool
  hb_UpdateResult :: "UpdateResultPayload option"
  hb_Rollups :: "QueryRollupPayload list"
  hb_SchedulingStates :: "SnapshotSchedulingState list"

record HeartbeatWorkerInfo =
  hw_WorkerID :: string
  hw_Version :: string
  hw_Status :: string

record WorkerSettings =
  ws_UpdateNow :: bool
  ws_UninstallNow :: bool
  ws_UpdateRepo :: string
  ws_UpdateChannel :: string
  ws_UpdateTag :: string
  ws_WorkerPolicy :: WorkerPolicy

record HeartbeatResponse =
  hr_Worker :: HeartbeatWorkerInfo
  hr_Settings :: WorkerSettings

section \<open>Transport\<close>

record http_request =
  rq_Method :: string
  rq_URL :: string
  rq_Header :: "(string, string) gomap"
  rq_Body :: "string option"

datatype http_reply =
    Not_Sent string
  | Body_Not_Read string
  | Response (status_code: int) (status_text: string) (body_text: string)

record http_env =
  JoinPath :: "string \<Rightarrow> string \<Rightarrow> string + string"
  NewRequest_error :: "string \<Rightarrow> string \<Rightarrow> string option"
  Do :: "http_request \<Rightarrow> http_reply"
  marshal_heartbeat :: "HeartbeatInput \<Rightarrow> string + string"
  unmarshal_signed :: "string \<Rightarrow> string + SignedSnapshot apiResponse"
  unmarshal_heartbeat :: "string \<Rightarrow> string + HeartbeatResponse apiResponse"
  unmarshal_message :: "string \<Rightarrow> string option"

datatype client_error =
    Client_Is_Nil
  | URL_Error string
  | Marshal_Error string
  | Request_Error string
  | Connection_Error string string string
  | Read_Error string
  | Snapshot_Not_Modified
  | HTTP_Error string
  | Unmarshal_Error string
  | Snapshot_Request_Failed string
  | Signature_Check_Failed signature_error
  | Heartbeat_Request_Failed string

record APIClient =
  cl_baseURL :: string
  cl_token :: string
  cl_timeout :: duration

definition TrimRightChar :: "char \<Rightarrow> string \<Rightarrow> string" where
  "TrimRightChar c s = rev (dropWhile (\<lambda>x. x = c) (rev s))"

definition TrimChar :: "char \<Rightarrow> string \<Rightarrow> string" where
  "TrimChar c s = TrimRightChar c (dropWhile (\<lambda>x. x = c) s)"

definition NewAPIClient :: "string \<Rightarrow> string \<Rightarrow> duration \<Rightarrow> APIClient" where
  "NewAPIClient baseURL token timeout =
    \<lparr>cl_baseURL = TrimRightChar (CHR ''/'') (TrimSpace baseURL), cl_token = TrimSpace token,
     cl_timeout = (if timeout \<le> 0 then DefaultRequestTimeout else timeout)\<rparr>"

section \<open>Errors of the server\<close>

definition extractAPIErrorMessage :: "http_env \<Rightarrow> string \<Rightarrow> string" where
  "extractAPIErrorMessage http raw =
    (case unmarshal_message http raw of None \<Rightarrow> TrimSpace raw | Some message \<Rightarrow> TrimSpace message)"

definition zh_local_dns :: string where
  "zh_local_dns = [CHR 0xE6, CHR 0x9C, CHR 0xAC, CHR 0xE5, CHR 0x9C, CHR 0xB0, CHR 0xE8, CHR 0x87, CHR 0xAA, CHR 0xE5, CHR 0xBB, CHR 0xBA,
    CHR 0xE8, CHR 0xA7, CHR 0xA3, CHR 0xE6, CHR 0x9E, CHR 0x90]"

definition formatHTTPError :: "http_env \<Rightarrow> string \<Rightarrow> int \<Rightarrow> string \<Rightarrow> string \<Rightarrow> string" where
  "formatHTTPError http path statusCode status raw =
    (let message = extractAPIErrorMessage http raw
     in if statusCode = 401 \<or> statusCode = 403 then
          path @ '' returned '' @ status @ '': '' @ (if message = [] then ''authentication failed'' else message)
            @ ''. DNS Worker Token authentication failed; check DUSHENGCDN_DNS_WORKER_TOKEN_FILE/--token-file, or the compatibility DUSHENGCDN_DNS_WORKER_TOKEN/--token, uses the DNS Worker Token from ''
            @ zh_local_dns @ '', not an Agent Token or login password''
        else if statusCode = 404 then
          path @ '' returned '' @ status @ '': '' @ (if message = [] then ''endpoint not found'' else message)
            @ ''. Check DUSHENGCDN_DNS_WORKER_SERVER_URL/--server-url points to the DuShengCDN Server API root''
        else if message = [] then path @ '' returned '' @ status
        else path @ '' returned '' @ status @ '': '' @ message)"

section \<open>Requests\<close>

definition SnapshotSignatureHeader :: string where
  "SnapshotSignatureHeader = ''X-DNS-Snapshot-Signature''"

definition snapshotConditionalHeaders :: "string \<Rightarrow> (string, string) gomap" where
  "snapshotConditionalHeaders lastSnapshotVersion =
    (let version = TrimChar (CHR 0x22) (TrimSpace lastSnapshotVersion)
     in if version = [] then []
        else [(''If-None-Match'', [CHR 0x22] @ version @ [CHR 0x22]), (''X-DNS-Snapshot-Version'', version)])"

definition request_headers :: "APIClient \<Rightarrow> string \<Rightarrow> string \<Rightarrow> bool \<Rightarrow> (string, string) gomap \<Rightarrow> (string, string) gomap" where
  "request_headers c method path has_body extraHeaders =
    (let h = [(''X-DNS-Worker-Token'', cl_token c)];
         h = (if method = ''GET'' \<and> path = ''/api/dns-snapshot'' then AList.update SnapshotSignatureHeader SnapshotSignatureVersion h else h);
         h = foldl (\<lambda>h (key, v). if TrimSpace key = [] \<or> TrimSpace v = [] then h else AList.update key v h) h extraHeaders
     in if has_body then AList.update ''Content-Type'' ''application/json'' h else h)"

text \<open>\<open>body\<close> is the result of encoding the body, when there is one, and \<open>decode\<close> reads the answer. At most 4 MiB of
  the answer are read.\<close>

definition doJSONWithHeaders ::
  "http_env \<Rightarrow> APIClient option \<Rightarrow> string \<Rightarrow> string \<Rightarrow> (string + string) option \<Rightarrow> (string \<Rightarrow> string + 'd)
    \<Rightarrow> (string, string) gomap \<Rightarrow> client_error + 'd" where
  "doJSONWithHeaders http client method path body decode extraHeaders =
    (case client of
       None \<Rightarrow> Inl Client_Is_Nil
     | Some c \<Rightarrow>
         (case JoinPath http (cl_baseURL c) path of
            Inl e \<Rightarrow> Inl (URL_Error e)
          | Inr endpoint \<Rightarrow>
              (case body of
                 Some (Inl e) \<Rightarrow> Inl (Marshal_Error e)
               | _ \<Rightarrow>
                   (case NewRequest_error http method endpoint of
                      Some e \<Rightarrow> Inl (Request_Error e)
                    | None \<Rightarrow>
                        (case Do http \<lparr>rq_Method = method, rq_URL = endpoint,
                            rq_Header = request_headers c method path (body \<noteq> None) extraHeaders,
                            rq_Body = map_option projr body\<rparr> of
                           Not_Sent e \<Rightarrow> Inl (Connection_Error path (cl_baseURL c) e)
                         | Body_Not_Read e \<Rightarrow> Inl (Read_Error e)
                         | Response code status text \<Rightarrow>
                             (let raw = take (4 * 1024 * 1024) text
                              in if code = 304 then Inl Snapshot_Not_Modified
                                 else if code < 200 \<or> code \<ge> 300 then Inl (HTTP_Error (formatHTTPError http path code status raw))
                                 else (case decode raw of Inl e \<Rightarrow> Inl (Unmarshal_Error e) | Inr out \<Rightarrow> Inr out)))))))"

definition doJSON ::
  "http_env \<Rightarrow> APIClient option \<Rightarrow> string \<Rightarrow> string \<Rightarrow> (string + string) option \<Rightarrow> (string \<Rightarrow> string + 'd) \<Rightarrow> client_error + 'd" where
  "doJSON http client method path body decode = doJSONWithHeaders http client method path body decode []"

definition FetchSnapshotSince :: "http_env \<Rightarrow> mac_env \<Rightarrow> APIClient \<Rightarrow> string \<Rightarrow> client_error + Snapshot" where
  "FetchSnapshotSince http mac c lastSnapshotVersion =
    (case doJSONWithHeaders http (Some c) ''GET'' ''/api/dns-snapshot'' None (unmarshal_signed http)
        (snapshotConditionalHeaders lastSnapshotVersion) of
       Inl e \<Rightarrow> Inl e
     | Inr response \<Rightarrow>
         if \<not> ar_Success response then Inl (Snapshot_Request_Failed (ar_Message response))
         else (case VerifySignedSnapshot mac (Some (ar_Data response)) (cl_token c) of
             Some e \<Rightarrow> Inl (Signature_Check_Failed e)
           | None \<Rightarrow> Inr (sgn_Snapshot (ar_Data response))))"

definition FetchSnapshot :: "http_env \<Rightarrow> mac_env \<Rightarrow> APIClient \<Rightarrow> client_error + Snapshot" where
  "FetchSnapshot http mac c = FetchSnapshotSince http mac c []"

definition SendHeartbeat :: "http_env \<Rightarrow> APIClient \<Rightarrow> HeartbeatInput \<Rightarrow> client_error + HeartbeatResponse" where
  "SendHeartbeat http c input =
    (case doJSON http (Some c) ''POST'' ''/api/dns-worker-heartbeat'' (Some (marshal_heartbeat http input)) (unmarshal_heartbeat http) of
       Inl e \<Rightarrow> Inl e
     | Inr response \<Rightarrow>
         if \<not> ar_Success response then Inl (Heartbeat_Request_Failed (ar_Message response)) else Inr (ar_Data response))"

section \<open>Results of the client\<close>

text \<open>A fetched snapshot was sent with code 2xx in answer to a request that carried the token, and was signed with it.\<close>

definition snapshot_request :: "http_env \<Rightarrow> APIClient \<Rightarrow> string \<Rightarrow> string \<Rightarrow> http_request" where
  "snapshot_request http c version endpoint =
    \<lparr>rq_Method = ''GET'', rq_URL = endpoint,
     rq_Header = request_headers c ''GET'' ''/api/dns-snapshot'' False (snapshotConditionalHeaders version), rq_Body = None\<rparr>"

lemma doJSON_result:
  assumes "doJSONWithHeaders http (Some c) method path body decode extra = Inr out"
  shows "\<exists>endpoint code status text. JoinPath http (cl_baseURL c) path = Inr endpoint
    \<and> Do http \<lparr>rq_Method = method, rq_URL = endpoint, rq_Header = request_headers c method path (body \<noteq> None) extra,
        rq_Body = map_option projr body\<rparr> = Response code status text
    \<and> 200 \<le> code \<and> code < 300 \<and> decode (take (4 * 1024 * 1024) text) = Inr out"
  using assms unfolding doJSONWithHeaders_def
  by (auto simp: Let_def not_le not_less split: sum.splits option.splits http_reply.splits if_splits)

lemma FetchSnapshotSince_result:
  assumes "FetchSnapshotSince http mac c version = Inr snap"
  shows "\<exists>endpoint code status text response. JoinPath http (cl_baseURL c) ''/api/dns-snapshot'' = Inr endpoint
    \<and> Do http (snapshot_request http c version endpoint) = Response code status text \<and> 200 \<le> code \<and> code < 300
    \<and> unmarshal_signed http (take (4 * 1024 * 1024) text) = Inr response \<and> ar_Success response
    \<and> sgn_Snapshot (ar_Data response) = snap \<and> VerifySignedSnapshot mac (Some (ar_Data response)) (cl_token c) = None"
proof -
  from assms obtain response
    where r: "doJSONWithHeaders http (Some c) ''GET'' ''/api/dns-snapshot'' None (unmarshal_signed http)
        (snapshotConditionalHeaders version) = Inr response"
      and ok: "ar_Success response" "VerifySignedSnapshot mac (Some (ar_Data response)) (cl_token c) = None"
        "sgn_Snapshot (ar_Data response) = snap"
    by (auto simp: FetchSnapshotSince_def split: sum.splits if_splits option.splits)
  from doJSON_result[OF r] ok show ?thesis by (auto simp: snapshot_request_def)
qed

lemma request_headers_token:
  assumes "map_of extra ''X-DNS-Worker-Token'' = None"
  shows "map_of (request_headers c method path b extra) ''X-DNS-Worker-Token'' = Some (cl_token c)"
proof -
  have "map_of (foldl (\<lambda>h (key, v). if TrimSpace key = [] \<or> TrimSpace v = [] then h else AList.update key v h) h ex) ''X-DNS-Worker-Token''
      = map_of h ''X-DNS-Worker-Token''" if "map_of ex ''X-DNS-Worker-Token'' = None" for h and ex :: "(string, string) gomap"
    using that
  proof (induction ex arbitrary: h)
    case (Cons kv ex)
    then show ?case by (cases kv) (auto simp: update_conv' split: if_splits)
  qed simp
  then show ?thesis
    using assms by (simp add: request_headers_def Let_def update_conv' SnapshotSignatureHeader_def)
qed

lemma verified_mac:
  assumes "mac_env_ok mac" "VerifySignedSnapshot mac (Some e) token = None"
  shows "TrimSpace token \<noteq> [] \<and> TrimSpace (snap_SnapshotVersion (sgn_Snapshot e)) \<noteq> []
    \<and> (\<exists>payload. canonicalSnapshotSignaturePayload mac (sgn_Snapshot e) = Inr payload
        \<and> base64_decode mac (TrimSpace (sgn_Signature e)) = Some (hmac_sha256 mac token payload))"
  using assms
  by (auto simp: VerifySignedSnapshot_def computeSnapshotSignature_def mac_env_ok_def split: if_splits option.splits sum.splits)

lemma conditional_headers_token: "map_of (snapshotConditionalHeaders version) ''X-DNS-Worker-Token'' = None"
  by (simp add: snapshotConditionalHeaders_def Let_def)

section \<open>Properties\<close>

text \<open>A fetched snapshot is authentic: whenever \<open>FetchSnapshotSince\<close> returns a snapshot, a request that carried the
  configured token was answered with a code between 200 and 299 and with an envelope around this snapshot
  whose signature decodes to the HMAC, under the token, of the canonical payload of the snapshot; the
  snapshot has a version and the token is not blank.\<close>

theorem fetched_snapshot_authentic:
  fixes http url token timeout version
  defines "c \<equiv> NewAPIClient url token timeout"
  assumes "mac_env_ok mac" "FetchSnapshotSince http mac c version = Inr snap"
  shows "TrimSpace token \<noteq> [] \<and> TrimSpace (snap_SnapshotVersion snap) \<noteq> [] \<and>
    (\<exists>request code status text response. Do http request = Response code status text \<and> 200 \<le> code \<and> code < 300
      \<and> map_of (rq_Header request) ''X-DNS-Worker-Token'' = Some (TrimSpace token)
      \<and> unmarshal_signed http (take (4 * 1024 * 1024) text) = Inr response \<and> sgn_Snapshot (ar_Data response) = snap
      \<and> (\<exists>payload. canonicalSnapshotSignaturePayload mac snap = Inr payload
          \<and> base64_decode mac (TrimSpace (sgn_Signature (ar_Data response))) = Some (hmac_sha256 mac (TrimSpace token) payload)))"
proof -
  obtain endpoint code status body response where
    r: "Do http (snapshot_request http c version endpoint) = Response code status body" "200 \<le> code" "code < 300"
      "unmarshal_signed http (take (4 * 1024 * 1024) body) = Inr response" "sgn_Snapshot (ar_Data response) = snap"
      "VerifySignedSnapshot mac (Some (ar_Data response)) (cl_token c) = None"
    using FetchSnapshotSince_result[OF assms(3)] by blast
  have tok: "cl_token c = TrimSpace token" by (simp add: c_def NewAPIClient_def)
  have "map_of (rq_Header (snapshot_request http c version endpoint)) ''X-DNS-Worker-Token'' = Some (TrimSpace token)"
    by (simp add: snapshot_request_def request_headers_token conditional_headers_token tok)
  moreover have "TrimSpace token \<noteq> [] \<and> TrimSpace (snap_SnapshotVersion snap) \<noteq> []
      \<and> (\<exists>payload. canonicalSnapshotSignaturePayload mac snap = Inr payload
          \<and> base64_decode mac (TrimSpace (sgn_Signature (ar_Data response))) = Some (hmac_sha256 mac (TrimSpace token) payload))"
    using verified_mac[OF assms(2) r(6)] by (simp add: tok r(5))
  ultimately show ?thesis using r(1-5) by blast
qed

definition signed_example :: SignedSnapshot where
  "signed_example = \<lparr>sgn_SignatureVersion = SnapshotSignatureVersion,
    sgn_Signature = projr (computeSnapshotSignature plain_mac (Some (zone_snapshot ''b.c'')) ''s''),
    sgn_Snapshot = zone_snapshot ''b.c''\<rparr>"

definition example_http :: http_env where
  "example_http = \<lparr>JoinPath = (\<lambda>base path. Inr (base @ path)), NewRequest_error = (\<lambda>_ _. None),
    Do = (\<lambda>request. if map_of (rq_Header request) ''X-DNS-Worker-Token'' = Some ''s'' then Response 200 ''200 OK'' ''body''
      else Response 401 ''401 Unauthorized'' ''''),
    marshal_heartbeat = (\<lambda>_. Inr ''input''), unmarshal_signed = (\<lambda>_. Inr \<lparr>ar_Success = True, ar_Message = '''', ar_Data = signed_example\<rparr>),
    unmarshal_heartbeat = (\<lambda>_. Inl ''not used''), unmarshal_message = (\<lambda>_. None)\<rparr>"

lemma signed_example_verifies: "VerifySignedSnapshot plain_mac (Some signed_example) ''s'' = None"
proof -
  have "TrimSpace ''s'' \<noteq> []" "TrimSpace (snap_SnapshotVersion (zone_snapshot ''b.c'')) \<noteq> []" by code_simp+
  from self_signed_verifies[OF plain_mac_ok plain_mac_signs[OF this]] show ?thesis by (simp add: signed_example_def)
qed

lemma example_fetch: "FetchSnapshotSince example_http plain_mac (NewAPIClient ''https://h/'' '' s '' 0) ''v0'' = Inr (zone_snapshot ''b.c'')"
proof -
  let ?c = "NewAPIClient ''https://h/'' '' s '' 0"
  have tok: "cl_token ?c = ''s''" by code_simp
  have req: "map_of (request_headers ?c verb p b (snapshotConditionalHeaders version)) ''X-DNS-Worker-Token'' = Some ''s''" for verb p b version
    by (simp add: request_headers_token conditional_headers_token tok)
  show ?thesis
    using signed_example_verifies
    by (simp add: FetchSnapshotSince_def doJSONWithHeaders_def example_http_def req tok) (simp add: signed_example_def)
qed

theorem fetched_snapshot_authentic_witness:
  "TrimSpace (snap_SnapshotVersion (zone_snapshot ''b.c'')) \<noteq> []"
  using fetched_snapshot_authentic[OF plain_mac_ok example_fetch] by blast

end
