(* ===== verification/Worker_Update.thy ===== *)
theory Worker_Update
  imports Worker_Client
begin

text \<open>
  The self-update and the self-removal of the worker (\<open>updater.go\<close>): the checks on the script that the server
  asks the worker to run, the command that is run, the file that keeps the result of an update until it is
  reported, and the flags that keep two updates from running at once. File information, symbolic links and the
  execution of a command are the fields of \<open>script_env\<close>. Paths are those of Unix systems.
\<close>

unbundle bit_operations_syntax

section \<open>Scripts\<close>

record file_info =
  fi_IsDir :: bool
  fi_Perm :: "32 word"

record command =
  cmd_Args :: "string list"
  cmd_Env :: "string list"

datatype run_result = Completed | Deadline_Exceeded | Run_Failed string

record script_env =
  Stat :: "string \<Rightarrow> string + file_info"
  EvalSymlinks :: "string \<Rightarrow> string option"
  Run :: "command \<Rightarrow> run_result"

datatype script_error =
    Config_Not_Available
  | Script_Not_Configured
  | Script_Not_Absolute
  | Stat_Error string
  | Script_Is_Directory
  | Install_Dir_Not_Configured
  | Install_Dir_Not_Absolute
  | Rel_Error string string
  | Not_Inside_Install_Dir string
  | Writable_By_Others string
  | Timed_Out
  | Command_Error string

definition resolved :: "script_env \<Rightarrow> string \<Rightarrow> string" where
  "resolved env path = (case EvalSymlinks env path of Some target \<Rightarrow> Clean target | None \<Rightarrow> path)"

definition validateInstallScript ::
  "script_env \<Rightarrow> Config option \<Rightarrow> string \<Rightarrow> file_info \<Rightarrow> string \<Rightarrow> script_error option" where
  "validateInstallScript env config cleanScript info label =
    (case config of
       None \<Rightarrow> Some Config_Not_Available
     | Some cfg \<Rightarrow>
         (let label = TrimSpace label; label = (if label = [] then ''dns worker script'' else label);
              installDir = TrimSpace (cfg_InstallDir cfg)
          in if installDir = [] then Some Install_Dir_Not_Configured
             else if \<not> IsAbs (Clean installDir) then Some Install_Dir_Not_Absolute
             else
               (case Rel (resolved env (Clean installDir)) (resolved env cleanScript) of
                  None \<Rightarrow> Some (Rel_Error (resolved env cleanScript) (resolved env (Clean installDir)))
                | Some relative \<Rightarrow>
                    if relative = ''.'' \<or> HasPrefix relative ''../'' \<or> relative = ''..'' \<or> IsAbs relative
                    then Some (Not_Inside_Install_Dir label)
                    else if fi_Perm info AND 0x12 \<noteq> 0 then Some (Writable_By_Others label)
                    else None)))"

definition normalizeWorkerUpdateChannel :: "string \<Rightarrow> string" where
  "normalizeWorkerUpdateChannel channel = (if EqualFold (TrimSpace channel) ''preview'' then ''preview'' else ''stable'')"

text \<open>The checks of \<open>runUpdate\<close> and the command it runs; \<open>environ\<close> is the environment of the process.\<close>

definition update_command :: "script_env \<Rightarrow> string list \<Rightarrow> Config \<Rightarrow> WorkerSettings \<Rightarrow> script_error + command" where
  "update_command env environ cfg settings =
    (let script = TrimSpace (cfg_UpdateScriptPath cfg)
     in if script = [] then Inl Script_Not_Configured
        else
          (let cleanScript = Clean script
           in if \<not> IsAbs cleanScript then Inl Script_Not_Absolute
              else (case Stat env cleanScript of
                  Inl e \<Rightarrow> Inl (Stat_Error e)
                | Inr info \<Rightarrow>
                    if fi_IsDir info then Inl Script_Is_Directory
                    else (case validateInstallScript env (Some cfg) cleanScript info ''dns worker update script'' of
                        Some e \<Rightarrow> Inl e
                      | None \<Rightarrow>
                          Inr \<lparr>cmd_Args = [''bash'', cleanScript],
                            cmd_Env = environ @
                              [''DUSHENGCDN_DNS_WORKER_UPDATE_CHANNEL='' @ normalizeWorkerUpdateChannel (ws_UpdateChannel settings),
                               ''DUSHENGCDN_RELEASE_REPO='' @ TrimSpace (ws_UpdateRepo settings),
                               ''DUSHENGCDN_DNS_WORKER_UPDATE_TAG='' @ TrimSpace (ws_UpdateTag settings)]\<rparr>))))"

definition run_command :: "script_env \<Rightarrow> command \<Rightarrow> script_error option" where
  "run_command env cmd = (case Run env cmd of Completed \<Rightarrow> None | Deadline_Exceeded \<Rightarrow> Some Timed_Out | Run_Failed e \<Rightarrow> Some (Command_Error e))"

definition runUpdate :: "script_env \<Rightarrow> string list \<Rightarrow> Config \<Rightarrow> WorkerSettings \<Rightarrow> script_error option" where
  "runUpdate env environ cfg settings =
    (case update_command env environ cfg settings of Inl e \<Rightarrow> Some e | Inr cmd \<Rightarrow> run_command env cmd)"

definition uninstall_command :: "script_env \<Rightarrow> os_env \<Rightarrow> string list \<Rightarrow> Config \<Rightarrow> script_error + command" where
  "uninstall_command env os environ cfg =
    (let installDir = TrimSpace (cfg_InstallDir cfg)
     in if installDir = [] then Inl Install_Dir_Not_Configured
        else
          (let cleanInstallDir = Clean installDir
           in if \<not> IsAbs cleanInstallDir then Inl Install_Dir_Not_Absolute
              else
                (let script = filepath_Join [cleanInstallDir, ''uninstall-dns-worker.sh'']
                 in case Stat env script of
                      Inl e \<Rightarrow> Inl (Stat_Error e)
                    | Inr info \<Rightarrow>
                        if fi_IsDir info then Inl Script_Is_Directory
                        else (case validateInstallScript env (Some cfg) script info ''dns worker uninstall script'' of
                            Some e \<Rightarrow> Inl e
                          | None \<Rightarrow>
                              (let serviceName = TrimSpace (Getenv os ''DUSHENGCDN_DNS_WORKER_SERVICE_NAME'');
                                   serviceName = (if serviceName = [] then ''dushengcdn-dns-worker'' else serviceName)
                               in Inr \<lparr>cmd_Args = [''/bin/sh'', script, ''--install-dir'', cleanInstallDir, ''--service-name'', serviceName,
                                    ''--self-uninstall''], cmd_Env = environ\<rparr>)))))"

definition runUninstall :: "script_env \<Rightarrow> os_env \<Rightarrow> string list \<Rightarrow> Config \<Rightarrow> script_error option" where
  "runUninstall env os environ cfg =
    (case uninstall_command env os environ cfg of Inl e \<Rightarrow> Some e | Inr cmd \<Rightarrow> run_command env cmd)"

section \<open>The result of an update\<close>

definition updateResultPath :: "Config option \<Rightarrow> string" where
  "updateResultPath config =
    (case config of
       None \<Rightarrow> []
     | Some cfg \<Rightarrow>
         (let installDir = TrimSpace (cfg_InstallDir cfg)
          in if installDir = [] then [] else filepath_Join [Clean installDir, ''data'', ''update-result.json'']))"

text \<open>The codec of the file: encoding, which may fail, and decoding.\<close>

record result_codec =
  marshal_result :: "UpdateResultPayload \<Rightarrow> string option"
  unmarshal_result :: "string \<Rightarrow> UpdateResultPayload option"

definition update_result :: "gotime \<Rightarrow> WorkerSettings \<Rightarrow> bool \<Rightarrow> string \<Rightarrow> UpdateResultPayload" where
  "update_result now settings success message =
    \<lparr>up_Success = success, up_Message = TrimSpace message, up_Repo = TrimSpace (ws_UpdateRepo settings),
     up_Channel = normalizeWorkerUpdateChannel (ws_UpdateChannel settings), up_TagName = TrimSpace (ws_UpdateTag settings),
     up_ReportedAtUnix = Unix now\<rparr>"

definition savePendingUpdateResult ::
  "result_codec \<Rightarrow> file_faults \<Rightarrow> gotime \<Rightarrow> Config \<Rightarrow> WorkerSettings \<Rightarrow> bool \<Rightarrow> string \<Rightarrow> string files \<Rightarrow> string files" where
  "savePendingUpdateResult rc faults now cfg settings success message fs =
    (let path = updateResultPath (Some cfg)
     in if path = [] then fs
        else (case marshal_result rc (update_result now settings success message) of
            None \<Rightarrow> fs
          | Some raw \<Rightarrow>
              if ff_MkdirAll faults \<noteq> None \<or> ff_WriteFile faults \<noteq> None then fs
              else
                (let tmp = path @ ''.tmp''; fs = AList.update tmp raw fs
                 in if ff_Rename faults \<noteq> None then (if ff_Remove faults \<noteq> None then fs else AList.delete tmp fs)
                    else rename_file tmp path fs)))"

definition loadPendingUpdateResult :: "result_codec \<Rightarrow> Config \<Rightarrow> string files \<Rightarrow> UpdateResultPayload option" where
  "loadPendingUpdateResult rc cfg fs =
    (let path = updateResultPath (Some cfg)
     in if path = [] then None
        else (case map_of fs path of None \<Rightarrow> None | Some raw \<Rightarrow> unmarshal_result rc raw))"

definition clearPendingUpdateResult :: "Config \<Rightarrow> string files \<Rightarrow> string files" where
  "clearPendingUpdateResult cfg fs =
    (let path = updateResultPath (Some cfg) in if path \<noteq> [] then AList.delete path fs else fs)"

section \<open>Starting\<close>

text \<open>The two process-wide flags. Starting returns whether a goroutine was started; the goroutine runs the command,
  records the result and clears its flag.\<close>

record job_flags =
  dnsWorkerUpdateRunning :: bool
  dnsWorkerUninstallRunning :: bool

definition maybeStartUpdate :: "Config \<Rightarrow> WorkerSettings \<Rightarrow> job_flags \<Rightarrow> bool \<times> job_flags" where
  "maybeStartUpdate cfg settings flags =
    (if \<not> ws_UpdateNow settings then (False, flags)
     else if \<not> cfg_UpdateEnabled cfg then (False, flags)
     else if dnsWorkerUpdateRunning flags then (False, flags)
     else (True, flags\<lparr>dnsWorkerUpdateRunning := True\<rparr>))"

definition maybeStartUninstall :: "WorkerSettings \<Rightarrow> job_flags \<Rightarrow> bool \<times> job_flags" where
  "maybeStartUninstall settings flags =
    (if \<not> ws_UninstallNow settings then (False, flags)
     else if dnsWorkerUninstallRunning flags then (False, flags)
     else (True, flags\<lparr>dnsWorkerUninstallRunning := True\<rparr>))"

fun script_error_text :: "script_error \<Rightarrow> string" where
  "script_error_text Config_Not_Available = ''dns worker config is not available''"
| "script_error_text Script_Not_Configured = ''dns worker update script is not configured''"
| "script_error_text Script_Not_Absolute = ''dns worker update script must be an absolute path''"
| "script_error_text (Stat_Error e) = e"
| "script_error_text Script_Is_Directory = ''dns worker update script path is a directory''"
| "script_error_text Install_Dir_Not_Configured = ''dns worker install directory is not configured''"
| "script_error_text Install_Dir_Not_Absolute = ''dns worker install directory must be an absolute path''"
| "script_error_text (Rel_Error targ base) = ''Rel: can't make '' @ targ @ '' relative to '' @ base"
| "script_error_text (Not_Inside_Install_Dir label) = label @ '' must be inside the install directory''"
| "script_error_text (Writable_By_Others label) = label @ '' must not be writable by group or others''"
| "script_error_text Timed_Out = ''dns worker update timed out''"
| "script_error_text (Command_Error e) = e"

definition update_job ::
  "script_env \<Rightarrow> string list \<Rightarrow> result_codec \<Rightarrow> file_faults \<Rightarrow> gotime \<Rightarrow> Config \<Rightarrow> WorkerSettings \<Rightarrow> job_flags \<times> string files
    \<Rightarrow> job_flags \<times> string files" where
  "update_job env environ rc faults now cfg settings = (\<lambda>(flags, fs).
    (flags\<lparr>dnsWorkerUpdateRunning := False\<rparr>,
     case runUpdate env environ cfg settings of
       Some err \<Rightarrow> savePendingUpdateResult rc faults now cfg settings False (script_error_text err) fs
     | None \<Rightarrow> savePendingUpdateResult rc faults now cfg settings True ''DNS Worker update command completed'' fs))"

definition uninstall_job ::
  "script_env \<Rightarrow> os_env \<Rightarrow> string list \<Rightarrow> Config \<Rightarrow> job_flags \<Rightarrow> script_error option \<times> job_flags" where
  "uninstall_job env os environ cfg flags = (runUninstall env os environ cfg, flags\<lparr>dnsWorkerUninstallRunning := False\<rparr>)"

section \<open>Properties\<close>

text \<open>What is relied on: an absolute path resolves to an absolute path.\<close>

definition links_ok :: "script_env \<Rightarrow> bool" where
  "links_ok env \<longleftrightarrow> (\<forall>p q. IsAbs p \<longrightarrow> EvalSymlinks env p = Some q \<longrightarrow> IsAbs q)"

lemma resolved_abs: "links_ok env \<Longrightarrow> IsAbs p \<Longrightarrow> IsAbs (resolved env p)"
  by (auto simp: resolved_def links_ok_def split: option.splits)

text \<open>A script is accepted exactly when it is confined: with an absolute install directory, the check of a script succeeds if and
  only if the path of the script, with symbolic links resolved and cleaned, lies strictly below the resolved
  install directory, element by element, and the file is writable neither by its group nor by others.\<close>

lemma install_script_confined:
  assumes "links_ok env" "IsAbs cleanScript" "IsAbs (Clean (TrimSpace (cfg_InstallDir cfg)))"
  shows "validateInstallScript env (Some cfg) cleanScript info label = None \<longleftrightarrow>
    (\<exists>e es. path_elems (resolved env cleanScript) = path_elems (resolved env (Clean (TrimSpace (cfg_InstallDir cfg)))) @ e # es)
    \<and> \<not> bit (fi_Perm info) 4 \<and> \<not> bit (fi_Perm info) 1"
proof -
  let ?dir = "Clean (TrimSpace (cfg_InstallDir cfg))"
  have ne: "TrimSpace (cfg_InstallDir cfg) \<noteq> []" using assms(3)[unfolded IsAbs_Clean] by (auto simp: IsAbs_iff)
  obtain relative where rel: "Rel (resolved env ?dir) (resolved env cleanScript) = Some relative"
    and inside: "\<not> escapes relative \<longleftrightarrow> (\<exists>e es. path_elems (resolved env cleanScript) = path_elems (resolved env ?dir) @ e # es)"
    using Rel_inside[OF resolved_abs[OF assms(1,3)] resolved_abs[OF assms(1,2)]] by blast
  have "fi_Perm info AND 0x12 = 0 \<longleftrightarrow> \<not> bit (fi_Perm info) 4 \<and> \<not> bit (fi_Perm info) 1"
  proof -
    have m: "(0x12 :: 32 word) = push_bit 4 1 OR push_bit 1 1" by code_simp
    have bits: "bit (0x12 :: 32 word) n \<longleftrightarrow> n = 4 \<or> n = 1" for n
      unfolding m by (simp only: bit_or_iff bit_push_bit_iff bit_1_iff possible_bit_word) auto
    show ?thesis unfolding bit_eq_iff[of _ "0 :: 32 word"] bit_and_iff bits by (auto dest: spec[of _ 4] spec[of _ 1])
  qed
  then show ?thesis
    using ne assms(3) rel inside by (auto simp: validateInstallScript_def escapes_def Let_def)
qed

lemma Join_abs:
  assumes "IsAbs d"
  shows "IsAbs (filepath_Join (d # parts))"
proof -
  have "d \<noteq> []" "IsAbs (Join (d # parts) ''/'')" using assms by (auto simp: IsAbs_iff Join_Cons)
  then show ?thesis by (simp add: filepath_Join_def)
qed

definition confined :: "script_env \<Rightarrow> Config \<Rightarrow> string \<Rightarrow> bool" where
  "confined env cfg script \<longleftrightarrow>
    (\<exists>info. Stat env script = Inr info \<and> \<not> fi_IsDir info \<and> \<not> bit (fi_Perm info) 4 \<and> \<not> bit (fi_Perm info) 1)
    \<and> (\<exists>e es. path_elems (resolved env script) = path_elems (resolved env (Clean (TrimSpace (cfg_InstallDir cfg)))) @ e # es)"

lemma accepted_confined:
  assumes "links_ok env" "IsAbs script" "Stat env script = Inr info" "\<not> fi_IsDir info"
    and "validateInstallScript env (Some cfg) script info label = None"
  shows "confined env cfg script"
proof -
  have "IsAbs (Clean (TrimSpace (cfg_InstallDir cfg)))"
    using assms(5) by (auto simp: validateInstallScript_def Let_def split: if_splits)
  from install_script_confined[OF assms(1,2) this, of info label] assms(3-5) show ?thesis by (auto simp: confined_def)
qed

text \<open>C35: The worker runs no script from outside its install directory: the commands of a self-update and of a self-removal run a file
  that is no directory, is writable neither by its group nor by others, and whose path, with symbolic links
  resolved, lies strictly below the resolved install directory; and no update starts unless it is enabled.\<close>

theorem executed_scripts_confined:
  assumes "links_ok env"
  shows "(update_command env environ cfg settings = Inr cmd \<longrightarrow>
      (\<exists>script. cmd_Args cmd = [''bash'', script] \<and> confined env cfg script))
    \<and> (uninstall_command env os environ cfg = Inr cmd \<longrightarrow>
      (\<exists>script rest. cmd_Args cmd = ''/bin/sh'' # script # rest \<and> confined env cfg script))
    \<and> (fst (maybeStartUpdate cfg settings flags) \<longrightarrow> cfg_UpdateEnabled cfg \<and> \<not> dnsWorkerUpdateRunning flags)"
proof (intro conjI impI)
  assume "update_command env environ cfg settings = Inr cmd"
  then obtain script info where "cmd_Args cmd = [''bash'', script]" "IsAbs script" "Stat env script = Inr info" "\<not> fi_IsDir info"
    "validateInstallScript env (Some cfg) script info ''dns worker update script'' = None"
    by (auto simp: update_command_def Let_def split: if_splits sum.splits option.splits)
  then show "\<exists>script. cmd_Args cmd = [''bash'', script] \<and> confined env cfg script"
    using accepted_confined[OF assms] by blast
next
  let ?script = "filepath_Join [Clean (TrimSpace (cfg_InstallDir cfg)), ''uninstall-dns-worker.sh'']"
  assume "uninstall_command env os environ cfg = Inr cmd"
  then obtain info rest where "cmd_Args cmd = ''/bin/sh'' # ?script # rest" "IsAbs (Clean (TrimSpace (cfg_InstallDir cfg)))"
    "Stat env ?script = Inr info" "\<not> fi_IsDir info"
    "validateInstallScript env (Some cfg) ?script info ''dns worker uninstall script'' = None"
    by (auto simp: uninstall_command_def Let_def split: if_splits sum.splits option.splits)
  then show "\<exists>script rest. cmd_Args cmd = ''/bin/sh'' # script # rest \<and> confined env cfg script"
    using accepted_confined[OF assms Join_abs] by blast
qed (auto simp: maybeStartUpdate_def split: if_splits)

definition example_scripts :: script_env where
  "example_scripts = \<lparr>Stat = (\<lambda>_. Inr \<lparr>fi_IsDir = False, fi_Perm = 0x1ED\<rparr>),
    EvalSymlinks = (\<lambda>p. if p = ''/opt/w'' then Some ''/srv/w'' else if p = ''/opt/w/u.sh'' then Some ''/srv/w/u.sh'' else None),
    Run = (\<lambda>_. Completed)\<rparr>"

definition example_install :: Config where
  "example_install = example_config\<lparr>cfg_InstallDir := ''/opt/w'', cfg_UpdateScriptPath := ''/opt/w/x/../u.sh''\<rparr>"

definition example_settings :: WorkerSettings where
  "example_settings = \<lparr>ws_UpdateNow = True, ws_UninstallNow = False, ws_UpdateRepo = '' r '', ws_UpdateChannel = ''PREVIEW'', ws_UpdateTag = ''v2'',
    ws_WorkerPolicy = zero_WorkerPolicy\<rparr>"

lemma example_links_ok: "links_ok example_scripts"
  by (auto simp: links_ok_def example_scripts_def IsAbs_iff split: if_splits)

lemma example_update: "\<exists>cmd. update_command example_scripts [] example_install example_settings = Inr cmd \<and> cmd_Args cmd = [''bash'', ''/opt/w/u.sh'']"
proof -
  have p: "TrimSpace (cfg_UpdateScriptPath example_install) = ''/opt/w/x/../u.sh''" "TrimSpace (cfg_InstallDir example_install) = ''/opt/w''"
    unfolding example_install_def by (simp_all, code_simp+)
  have c: "Clean ''/opt/w/x/../u.sh'' = ''/opt/w/u.sh''" "Clean ''/opt/w'' = ''/opt/w''" "Clean ''/srv/w'' = ''/srv/w''" "Clean ''/srv/w/u.sh'' = ''/srv/w/u.sh''"
    "IsAbs ''/opt/w''" "IsAbs ''/opt/w/u.sh''" "Rel ''/srv/w'' ''/srv/w/u.sh'' = Some ''u.sh''" "(0x1ED :: 32 word) AND 0x12 = 0"
    by code_simp+
  have "validateInstallScript example_scripts (Some example_install) ''/opt/w/u.sh'' \<lparr>fi_IsDir = False, fi_Perm = 0x1ED\<rparr> label = None" for label
    using p c by (simp add: validateInstallScript_def example_scripts_def resolved_def HasPrefix_def IsAbs_def)
  moreover have "Stat example_scripts path = Inr \<lparr>fi_IsDir = False, fi_Perm = 0x1ED\<rparr>" for path by (simp add: example_scripts_def)
  ultimately show ?thesis using p c by (simp add: update_command_def)
qed

theorem executed_scripts_confined_witness: "confined example_scripts example_install ''/opt/w/u.sh''"
proof -
  obtain cmd where "update_command example_scripts [] example_install example_settings = Inr cmd" "cmd_Args cmd = [''bash'', ''/opt/w/u.sh'']"
    using example_update by blast
  then show ?thesis
    using conjunct1[OF executed_scripts_confined[OF example_links_ok, of "[]" example_install example_settings cmd]] by auto
qed

text \<open>The result of an update reaches the server: once saved it is read back, with its fields trimmed, until it is cleared, and after
  that there is none; a save that fails while renaming leaves the previous result in place. An update job
  always clears its flag.\<close>

theorem update_result_kept:
  fixes fs
  assumes "TrimSpace (cfg_InstallDir cfg) \<noteq> []" "marshal_result rc (update_result now settings ok message) = Some raw"
    and "unmarshal_result rc raw = Some (update_result now settings ok message)"
  defines "saved \<equiv> (\<lambda>faults. savePendingUpdateResult rc faults now cfg settings ok message fs)"
  shows "loadPendingUpdateResult rc cfg (saved no_faults) = Some (update_result now settings ok message)
    \<and> loadPendingUpdateResult rc cfg (clearPendingUpdateResult cfg (saved no_faults)) = None
    \<and> (ff_Rename faults \<noteq> None \<longrightarrow> loadPendingUpdateResult rc cfg (saved faults) = loadPendingUpdateResult rc cfg fs)
    \<and> \<not> dnsWorkerUpdateRunning (fst (update_job env environ rc faults now cfg settings (flags, fs)))"
proof -
  let ?p = "updateResultPath (Some cfg)"
  have tmp: "?p @ ''.tmp'' \<noteq> ?p" by simp
  have "Clean (TrimSpace (cfg_InstallDir cfg)) \<noteq> []" by (simp add: Clean_def Let_def)
  then have p: "?p \<noteq> []" using assms(1) by (simp add: updateResultPath_def filepath_Join_def Clean_def Let_def)
  have "map_of (rename_file (?p @ ''.tmp'') ?p (AList.update (?p @ ''.tmp'') raw fs)) ?p = Some raw" by (rule rename_file_lookup)
  then have a: "map_of (saved no_faults) ?p = Some raw" using p assms(2) by (simp add: saved_def savePendingUpdateResult_def no_faults_def Let_def)
  have b: "map_of (saved faults) ?p = map_of fs ?p" if "ff_Rename faults \<noteq> None"
    using that p tmp assms(2) by (auto simp: saved_def savePendingUpdateResult_def Let_def update_conv' delete_conv')
  show ?thesis
    using a b p assms(3) by (simp add: loadPendingUpdateResult_def clearPendingUpdateResult_def delete_conv' update_job_def)
qed

theorem update_result_kept_witness:
  "loadPendingUpdateResult \<lparr>marshal_result = (\<lambda>_. Some ''r''), unmarshal_result = (\<lambda>_. Some (update_result 0 example_settings True ''ok''))\<rparr>
      example_install (savePendingUpdateResult
        \<lparr>marshal_result = (\<lambda>_. Some ''r''), unmarshal_result = (\<lambda>_. Some (update_result 0 example_settings True ''ok''))\<rparr>
        no_faults 0 example_install example_settings True ''ok'' []) = Some (update_result 0 example_settings True ''ok'')"
proof -
  have "TrimSpace (cfg_InstallDir example_install) \<noteq> []" unfolding example_install_def by (simp, code_simp)
  from conjunct1[OF update_result_kept[OF this, of "\<lparr>marshal_result = (\<lambda>_. Some ''r''),
      unmarshal_result = (\<lambda>_. Some (update_result 0 example_settings True ''ok''))\<rparr>" 0 example_settings True "''ok''" "''r''"]]
  show ?thesis by simp
qed

end
