(* ===== verification/Server_Answers.thy ===== *)
theory Server_Answers
  imports DNS_Server
begin

text \<open>
  What the answers of the server have in common (\<open>server.go\<close>): refusals and failures carry nothing, a stale snapshot
  routes nobody, the targets of the scheduler become the addresses of an answer, every query is recorded once, and
  answers over UDP fit. The lemmas on what \<open>Resolve\<close> leaves unchanged serve the runner.
\<close>

section \<open>Refusals and failures\<close>

text \<open>What is relied on of \<open>SetReply\<close> and \<open>SetRcode\<close>: a reply is successful and empty, and a code is the code set.\<close>

definition empty_sections :: "Msg \<Rightarrow> bool" where
  "empty_sections m \<longleftrightarrow> msg_Answer m = [] \<and> msg_Ns m = [] \<and> msg_Extra m = []"

definition reply_ok :: "'p dns_env \<Rightarrow> bool" where
  "reply_ok env \<longleftrightarrow> (\<forall>m. empty_sections (SetReply env m) \<and> msg_Rcode (SetReply env m) = RcodeSuccess)
    \<and> (\<forall>m c. msg_Rcode (SetRcode env m c) = c)"

text \<open>A refusal carries no records, and a failure no answer.\<close>

definition outcome_ok :: "Msg \<Rightarrow> bool" where
  "outcome_ok m \<longleftrightarrow> (msg_Rcode m = RcodeRefused \<longrightarrow> empty_sections m) \<and> (msg_Rcode m = RcodeServerFailure \<longrightarrow> msg_Answer m = [])"

lemma signDNSSECResponse_keeps [simp]:
  "msg_Rcode (signDNSSECResponse env now m request zone index) = msg_Rcode m"
  "msg_Extra (signDNSSECResponse env now m request zone index) = msg_Extra m"
  by (auto simp: signDNSSECResponse_def Let_def signDNSSECRRsets_def addDNSSECDenialProof_def split: list.splits)

lemma conclude_rcode:
  "msg_Rcode (oc_response oc) = RcodeSuccess \<Longrightarrow>
    msg_Rcode (oc_response (conclude env now request zone index qname oc)) =
      (if msg_Answer (oc_response oc) = [] \<and> \<not> nameExists (zone_ID zone) qname (ix_namesByZone index)
       then RcodeNameError else RcodeSuccess)"
  by (simp add: conclude_def Let_def failed_def)

lemma answer_in_zone_rcode:
  assumes "msg_Rcode (oc_response oc) = RcodeSuccess" "msg_Answer (oc_response oc) = []"
    and "answer_in_zone env henv clk request sp index fresh zone qname t oc sched = (oc', sched')"
  shows "msg_Rcode (oc_response oc') \<in> {RcodeSuccess, RcodeNameError}
    \<or> msg_Rcode (oc_response oc') = RcodeServerFailure \<and> msg_Answer (oc_response oc') = []"
  using assms by (auto simp: answer_in_zone_def Let_def failed_def conclude_rcode with_answer_def
      split: option.splits prod.splits sum.splits if_splits)

lemma answer_question_ok:
  assumes "msg_Rcode (oc_response oc) = RcodeSuccess" "empty_sections (oc_response oc)"
    and "answer_question env henv clk request remoteAddr qname t oc s = (oc', sched')"
  shows "outcome_ok (oc_response oc')"
proof -
  have e: "msg_Answer (oc_response oc) = []" using assms(2) by (simp add: empty_sections_def)
  consider "oc' = failed RcodeRefused ''REFUSED'' oc" | "oc' = failed RcodeServerFailure ''SERVFAIL'' oc"
    | "oc' = failed RcodeRefused ''REFUSED'' (oc\<lparr>oc_response := (oc_response oc)\<lparr>msg_Authoritative := False\<rparr>\<rparr>)"
    | oc'' sp zone where "answer_in_zone env henv clk request sp (st_index (srv_Store s)) (IsFresh (srv_Store s) (clk_fresh clk))
          zone qname t oc'' (srv_Scheduler s) = (oc', sched')"
        "msg_Rcode (oc_response oc'') = RcodeSuccess" "msg_Answer (oc_response oc'') = []"
    using assms(1,3) e by (auto simp: answer_question_def Let_def split: if_splits option.splits)
  then show ?thesis
  proof cases
    case 4
    from answer_in_zone_rcode[OF 4(2,3,1)] show ?thesis by (auto simp: outcome_ok_def rcode_defs)
  qed (use assms(2) e in \<open>simp_all add: outcome_ok_def failed_def empty_sections_def rcode_defs\<close>)
qed

lemma finish_query_ok: "outcome_ok (oc_response oc) \<Longrightarrow> outcome_ok (fst (finish_query clk remoteAddr qname qtype oc s))"
  by (auto simp: finish_query_def limit_response_def outcome_ok_def empty_sections_def rcode_defs split: option.splits prod.splits)

lemma finish_query_refused:
  "msg_Rcode (oc_response oc) = RcodeRefused \<Longrightarrow> msg_Rcode (fst (finish_query clk remoteAddr qname qtype oc s)) = RcodeRefused"
  by (auto simp: finish_query_def limit_response_def split: option.splits prod.splits)

lemma Resolve_question:
  fixes env :: "'p dns_env"
  assumes "msg_Question request = question # rest"
  defines "qname \<equiv> normalizeDomain (q_Name question)" and "qtype \<equiv> qtype_text env (q_Qtype question)"
  defines "oc \<equiv> first_outcome ((SetReply env request)\<lparr>msg_Authoritative := True, msg_RecursionAvailable := False\<rparr>)"
  shows "Resolve env henv clk (Some request) remoteAddr s =
    (if \<not> fst (limit_query clk remoteAddr s)
     then finish_query clk remoteAddr qname qtype (failed RcodeRefused ''REFUSED'' oc) (snd (limit_query clk remoteAddr s))
     else finish_query clk remoteAddr qname qtype
       (fst (answer_question env henv clk request remoteAddr qname (q_Qtype question) oc (snd (limit_query clk remoteAddr s))))
       ((snd (limit_query clk remoteAddr s))\<lparr>srv_Scheduler :=
         snd (answer_question env henv clk request remoteAddr qname (q_Qtype question) oc (snd (limit_query clk remoteAddr s)))\<rparr>))"
  by (simp add: Resolve_def assms Let_def split_def)

lemma first_outcome_ok:
  "reply_ok env \<Longrightarrow> empty_sections (oc_response (first_outcome ((SetReply env request)\<lparr>msg_Authoritative := a, msg_RecursionAvailable := b\<rparr>)))
    \<and> msg_Rcode (oc_response (first_outcome ((SetReply env request)\<lparr>msg_Authoritative := a, msg_RecursionAvailable := b\<rparr>))) = RcodeSuccess"
  by (simp add: reply_ok_def first_outcome_def empty_sections_def)

lemma limit_query_store [simp]: "srv_Store (snd (limit_query clk remoteAddr s)) = srv_Store s"
  "srv_Scheduler (snd (limit_query clk remoteAddr s)) = srv_Scheduler s" "srv_Rollups (snd (limit_query clk remoteAddr s)) = srv_Rollups s"
  "srv_Resolver (snd (limit_query clk remoteAddr s)) = srv_Resolver s"
  by (simp_all add: limit_query_def split: option.splits prod.splits)

lemma Resolve_ok:
  assumes "reply_ok env"
  shows "outcome_ok (fst (Resolve env henv clk request remoteAddr s))"
proof (cases request)
  case None
  then show ?thesis using assms by (simp add: Resolve_def reply_ok_def outcome_ok_def rcode_defs)
next
  case (Some m)
  show ?thesis
  proof (cases "msg_Question m")
    case Nil
    then show ?thesis by (simp add: Some Resolve_def outcome_ok_def rcode_defs)
  next
    case (Cons question rest)
    let ?oc = "first_outcome ((SetReply env m)\<lparr>msg_Authoritative := True, msg_RecursionAvailable := False\<rparr>)"
    note ok = first_outcome_ok[OF assms, where request = m and a = True and b = False]
    have "outcome_ok (oc_response (failed RcodeRefused ''REFUSED'' ?oc))"
      using ok by (simp add: outcome_ok_def failed_def empty_sections_def rcode_defs)
    moreover have "outcome_ok (oc_response (fst (answer_question env henv clk m remoteAddr qname t ?oc s)))" for qname t s
      using answer_question_ok[OF conjunct2[OF ok] conjunct1[OF ok]] by (metis surjective_pairing)
    ultimately show ?thesis unfolding Some Resolve_question[OF Cons] by (simp add: finish_query_ok)
  qed
qed

text \<open>C25: A refused query gets nothing: a response with code REFUSED has empty sections, whatever the reason, and a response with
  code SERVFAIL has an empty answer section. A query over the rate limit, a zone transfer, and a name in no
  zone of the snapshot are refused.\<close>

theorem refused_carries_nothing:
  fixes env :: "'p dns_env" and s :: "'p DNSServer" and henv clk remoteAddr request
  assumes "reply_ok env"
  defines "response \<equiv> (\<lambda>request. fst (Resolve env henv clk request remoteAddr s))"
  shows "(msg_Rcode (response request) = RcodeRefused \<longrightarrow>
      msg_Answer (response request) = [] \<and> msg_Ns (response request) = [] \<and> msg_Extra (response request) = [])
    \<and> (msg_Rcode (response request) = RcodeServerFailure \<longrightarrow> msg_Answer (response request) = [])
    \<and> (\<forall>m question rest. msg_Question m = question # rest \<longrightarrow>
        (\<not> fst (limit_query clk remoteAddr s) \<or> q_Qtype question \<in> {TypeAXFR, TypeIXFR}
          \<or> st_snapshot (srv_Store s) \<noteq> None
            \<and> findBestZone (normalizeDomain (q_Name question)) (ix_zonesByName (st_index (srv_Store s))) = None) \<longrightarrow>
        msg_Rcode (response (Some m)) = RcodeRefused)"
proof (intro conjI allI impI)
  fix m :: Msg and question rest
  assume q: "msg_Question m = question # rest"
  assume "\<not> fst (limit_query clk remoteAddr s) \<or> q_Qtype question \<in> {TypeAXFR, TypeIXFR}
      \<or> st_snapshot (srv_Store s) \<noteq> None
        \<and> findBestZone (normalizeDomain (q_Name question)) (ix_zonesByName (st_index (srv_Store s))) = None"
  then show "msg_Rcode (response (Some m)) = RcodeRefused"
    unfolding response_def Resolve_question[OF q]
    by (auto intro!: finish_query_refused simp: answer_question_def failed_def Let_def)
qed (use Resolve_ok[OF assms(1), of henv clk request remoteAddr s] in \<open>simp_all add: response_def outcome_ok_def empty_sections_def\<close>)


theorem refused_carries_nothing_witness:
  "\<forall>henv clk. msg_Rcode (fst (Resolve plain_env henv clk (Some (zero_Msg\<lparr>msg_Question := [\<lparr>q_Name = ''b.c'', q_Qtype = TypeAXFR\<rparr>]\<rparr>)) None
      (NewDNSServer (NewSnapshotStore ''f'' 0) None None None ''''))) = RcodeRefused"
proof (intro allI)
  fix henv and clk :: clock
  have "reply_ok plain_env" by (simp add: reply_ok_def plain_env_def empty_sections_def zero_Msg_def rcode_defs)
  from refused_carries_nothing[OF this]
  show "msg_Rcode (fst (Resolve plain_env henv clk (Some (zero_Msg\<lparr>msg_Question := [\<lparr>q_Name = ''b.c'', q_Qtype = TypeAXFR\<rparr>]\<rparr>)) None
      (NewDNSServer (NewSnapshotStore ''f'' 0) None None None ''''))) = RcodeRefused" by auto
qed

section \<open>Answers of routes\<close>

lemma sign_group_RRSIG: "sign_group env now zone zsk ksk rrset = Some rr \<Longrightarrow> \<exists>sig. rr = RR_RRSIG sig"
  by (cases rrset) (auto simp: sign_group_def)

lemma signRRsets_RRSIG: "rr \<in> set (signRRsets env now rrs zone zsk ksk) \<Longrightarrow> \<exists>sig. rr = RR_RRSIG sig"
  using sign_group_RRSIG unfolding signRRsets_eq in_map_filter by blast

lemma signDNSSEC_answer:
  "\<exists>sigs. msg_Answer (signDNSSECResponse env now m request zone index) = msg_Answer m @ sigs \<and> (\<forall>rr \<in> set sigs. \<exists>sig. rr = RR_RRSIG sig)"
proof -
  have "msg_Answer (addDNSSECDenialProof env m request zone index) = msg_Answer m"
    by (auto simp: addDNSSECDenialProof_def split: list.splits)
  then show ?thesis
    by (auto simp: signDNSSECResponse_def Let_def signDNSSECRRsets_def intro: exI[of _ "[]"] dest: signRRsets_RRSIG)
qed

lemma addressRecords_A:
  assumes "family_targets ''A'' ts"
  shows "map (\<lambda>rr. map_option IP_String (rr_address rr)) (addressRecords qname ''A'' ts ttl) = map Some ts"
    "\<forall>rr \<in> set (addressRecords qname ''A'' ts ttl). rr_Header rr = header qname TypeA (uint32 (normalizeAuthoritativeTTL ttl))"
proof -
  have a: "\<exists>w. t = string4 w \<and> address_record qname ''A'' ttl t = Some (RR_A (header qname TypeA (uint32 (normalizeAuthoritativeTTL ttl))) w)"
    if "t \<in> set ts" for t using address_record_A that assms by (auto simp: family_targets_def)
  have eq: "addressRecords qname ''A'' ts ttl = map (\<lambda>t. the (address_record qname ''A'' ttl t)) ts"
    unfolding addressRecords_def by (rule map_filter_all) (use a in fastforce)
  have s: "IP_String (IP4 w) = string4 w" for w by (simp add: IP_String_def)
  show "map (\<lambda>rr. map_option IP_String (rr_address rr)) (addressRecords qname ''A'' ts ttl) = map Some ts"
    unfolding eq map_map using a s by (intro map_cong[OF refl]) fastforce
  show "\<forall>rr \<in> set (addressRecords qname ''A'' ts ttl). rr_Header rr = header qname TypeA (uint32 (normalizeAuthoritativeTTL ttl))"
    unfolding eq using a by fastforce
qed

lemma SelectWithIndex_stale: "\<exists>e. sel_result (fst (SelectWithIndex env now snapshot index (Some rp) rawType source False s)) = Inl e"
  by (cases rule: SelectWithIndex_cases[of env now snapshot index rp rawType source False s]) simp_all

text \<open>The addresses of a response to a query for IPv4 addresses, and its signatures.\<close>

definition answers_with :: "Msg \<Rightarrow> string \<Rightarrow> int \<Rightarrow> string list \<Rightarrow> bool" where
  "answers_with response qname ttl ts \<longleftrightarrow> msg_Rcode response = RcodeSuccess
    \<and> (\<exists>answers sigs. msg_Answer response = answers @ sigs \<and> (\<forall>rr \<in> set sigs. \<exists>sig. rr = RR_RRSIG sig)
        \<and> map (\<lambda>rr. map_option IP_String (rr_address rr)) answers = map Some ts
        \<and> (\<forall>rr \<in> set answers. rr_Header rr = header qname TypeA (uint32 ttl)))"

lemma conclude_answered:
  assumes "msg_Rcode (oc_response oc) = RcodeSuccess" "msg_Answer (oc_response oc) = []" "family_targets ''A'' ts" "ts \<noteq> []"
  shows "answers_with (oc_response (conclude env now request zone index qname
    (with_answer (addressRecords qname ''A'' ts ttl) targets oc))) qname (normalizeAuthoritativeTTL ttl) ts"
proof -
  let ?as = "addressRecords qname ''A'' ts ttl"
  note a = addressRecords_A[OF assms(3), of qname ttl]
  have "length ?as = length ts" using arg_cong[OF a(1), of length] by simp
  then have "?as \<noteq> []" using assms(4) by auto
  moreover obtain sigs where "msg_Answer (signDNSSECResponse env now ((oc_response oc)\<lparr>msg_Answer := ?as\<rparr>) request zone index) = ?as @ sigs"
    "\<forall>rr \<in> set sigs. \<exists>sig. rr = RR_RRSIG sig"
    using signDNSSEC_answer[of env now "(oc_response oc)\<lparr>msg_Answer := ?as\<rparr>" request zone index] by auto
  ultimately show ?thesis
    using a assms(1,2) unfolding answers_with_def
    by (intro conjI exI[of _ ?as] exI[of _ sigs]) (simp_all add: conclude_def with_answer_def Let_def)
qed

lemma finish_query_cases:
  "fst (finish_query clk remoteAddr qname qtype oc s) = oc_response oc
    \<or> msg_Rcode (fst (finish_query clk remoteAddr qname qtype oc s)) = RcodeRefused
      \<and> msg_Answer (fst (finish_query clk remoteAddr qname qtype oc s)) = []"
  by (auto simp: finish_query_def limit_response_def split: option.splits prod.splits)

lemma finish_query_empty:
  "msg_Answer (oc_response oc) = [] \<Longrightarrow> msg_Answer (fst (finish_query clk remoteAddr qname qtype oc s)) = []"
  using finish_query_cases[of clk remoteAddr qname qtype oc s] by auto

lemma routed_response:
  fixes env :: "'p dns_env" and henv clk remoteAddr s
  assumes "reply_ok env" "TypeToString env TypeA = ''A''" "msg_Question m = question # rest" "q_Qtype question = TypeA"
    and "st_snapshot (srv_Store s) = Some sp"
  defines "index \<equiv> st_index (srv_Store s)" and "qname \<equiv> normalizeDomain (q_Name question)"
  assumes "findBestZone qname (ix_zonesByName index) = Some zone" "matchRoute ''A'' (routesForQName index qname) = Some rp"
    and "sched_inv mem (srv_Scheduler s)" "snd rp = mem (fst rp)"
  defines "response \<equiv> fst (Resolve env henv clk (Some m) remoteAddr s)"
    and "source \<equiv> resolve_source s m remoteAddr (zero_SourceContext\<lparr>src_ScopeKey := ''global''\<rparr>)"
  defines "sel \<equiv> fst (SelectWithIndex henv (clk_select clk) (Some sp) index (Some rp) ''A'' source
    (IsFresh (srv_Store s) (clk_fresh clk)) (srv_Scheduler s))"
  shows "msg_Answer response = [] \<and> msg_Rcode response \<in> {RcodeRefused, RcodeServerFailure}
    \<or> IsFresh (srv_Store s) (clk_fresh clk) \<and> (\<exists>ts. sel_result sel = Inr ts \<and> ts \<noteq> [] \<and> distinct ts
        \<and> answers_with response qname (normalizeAuthoritativeTTL (sel_ttl sel)) ts)"
proof -
  define oc where "oc = first_outcome ((SetReply env m)\<lparr>msg_Authoritative := True, msg_RecursionAvailable := False\<rparr>)"
  define s1 where "s1 = snd (limit_query clk remoteAddr s)"
  let ?aq = "answer_question env henv clk m remoteAddr qname TypeA oc s1"
  have oc: "msg_Rcode (oc_response oc) = RcodeSuccess" "msg_Answer (oc_response oc) = []"
    using first_outcome_ok[OF assms(1), where request = m and a = True and b = False]
    by (auto simp: oc_def empty_sections_def)
  have t: "qtype_text env TypeA = ''A''" "TypeA \<noteq> TypeAXFR" "TypeA \<noteq> TypeIXFR" by (simp_all only: qtype_text_def assms(2)) (simp_all add: dns_type_defs)
  have src: "resolve_source s1 m remoteAddr (oc_source oc) = source"
    by (simp add: source_def resolve_source_def s1_def oc_def first_outcome_def)
  have zoned: "?aq = answer_in_zone env henv clk m sp index (IsFresh (srv_Store s) (clk_fresh clk)) zone qname TypeA
      (oc\<lparr>oc_zoneID := zone_ID zone, oc_response := (oc_response oc)\<lparr>msg_Ns := msg_Ns (oc_response oc) @ [soaRecord zone]\<rparr>,
        oc_source := source, oc_sourceScope := sourceScopeKey source\<rparr>) (srv_Scheduler s)" (is "_ = answer_in_zone _ _ _ _ _ _ _ _ _ _ ?oc _")
    using assms(5,8) t(2,3) by (simp add: answer_question_def src[unfolded s1_def] Let_def s1_def index_def)
  have oc': "msg_Rcode (oc_response ?oc) = RcodeSuccess" "msg_Answer (oc_response ?oc) = []" using oc by simp_all
  have rt: "normalizeAddressRecordType ''A'' = ''A''" by code_simp
  have answered: "answers_with (oc_response (fst ?aq)) qname (normalizeAuthoritativeTTL (sel_ttl sel)) ts \<and> ts \<noteq> [] \<and> distinct ts"
    if ts: "sel_result sel = Inr ts" for ts
  proof -
    have fam: "ts \<noteq> []" "family_targets ''A'' ts"
      using SelectWithIndex_inv[OF assms(10,11), of henv "clk_select clk" "Some sp" index "''A''"] ts by (auto simp: sel_def rt)
    have "fst ?aq = conclude env (clk_sign clk) m zone index qname (with_answer (addressRecords qname ''A'' ts (sel_ttl sel))
        (oc_targets oc @ ts) (?oc\<lparr>oc_routeID := route_ID (snd rp), oc_sourceScope := sel_scope sel\<rparr>))"
      using ts unfolding zoned answer_in_zone_def Let_def t(1) by (simp add: assms(9) split_def sel_def)
    moreover have "answers_with (oc_response (conclude env (clk_sign clk) m zone index qname
        (with_answer (addressRecords qname ''A'' ts (sel_ttl sel)) (oc_targets oc @ ts)
          (?oc\<lparr>oc_routeID := route_ID (snd rp), oc_sourceScope := sel_scope sel\<rparr>)))) qname (normalizeAuthoritativeTTL (sel_ttl sel)) ts"
      by (rule conclude_answered[OF _ _ fam(2,1)]) (use oc in simp_all)
    ultimately show ?thesis using fam by (simp add: family_targets_def)
  qed
  have failing: "msg_Rcode (oc_response (fst ?aq)) = RcodeServerFailure \<and> msg_Answer (oc_response (fst ?aq)) = []"
    if "sel_result sel = Inl e" for e
    using that oc unfolding zoned answer_in_zone_def Let_def t(1) by (simp add: assms(9) split_def sel_def failed_def)
  note resolve = Resolve_question[OF assms(3), of env henv clk remoteAddr s, folded qname_def oc_def s1_def, unfolded assms(4)]
  show ?thesis
  proof (cases "fst (limit_query clk remoteAddr s)")
    case False
    then show ?thesis
      using finish_query_cases[of clk remoteAddr qname "qtype_text env TypeA" "failed RcodeRefused ''REFUSED'' oc" s1] oc
      unfolding response_def resolve by (auto simp: failed_def)
  next
    case True
    then have r: "response = fst (finish_query clk remoteAddr qname (qtype_text env TypeA) (fst ?aq) (s1\<lparr>srv_Scheduler := snd ?aq\<rparr>))"
      unfolding response_def resolve by simp
    show ?thesis
    proof (cases "sel_result sel")
      case (Inl e)
      then show ?thesis using failing finish_query_cases unfolding r by (metis insertI1 insertI2)
    next
      case (Inr ts)
      then have "IsFresh (srv_Store s) (clk_fresh clk)"
        using SelectWithIndex_stale[of henv "clk_select clk" "Some sp" index rp "''A''" source "srv_Scheduler s"]
        by (cases "IsFresh (srv_Store s) (clk_fresh clk)") (auto simp: sel_def)
      then show ?thesis using answered[OF Inr] Inr finish_query_cases unfolding r by (metis insertI1)
    qed
  qed
qed


section \<open>Stale snapshots\<close>

lemma answer_question_stale:
  assumes "msg_Answer (oc_response oc) = []" "\<not> IsFresh (srv_Store s) (clk_fresh clk)" "t \<in> {TypeA, TypeAAAA}"
    and "matchRoute (qtype_text env t) (routesForQName (st_index (srv_Store s)) qname) = Some rp"
  shows "msg_Answer (oc_response (fst (answer_question env henv clk request remoteAddr qname t oc s))) = []"
proof -
  have "msg_Answer (oc_response (fst (answer_in_zone env henv clk request sp (st_index (srv_Store s)) False zone qname t oc' sched))) = []"
    if "msg_Answer (oc_response oc') = []" for oc' sp zone sched
  proof -
    obtain e where "sel_result (fst (SelectWithIndex henv (clk_select clk) (Some sp) (st_index (srv_Store s)) (Some rp)
        (qtype_text env t) (oc_source oc') False sched)) = Inl e" using SelectWithIndex_stale by blast
    then show ?thesis using that assms(3,4) by (auto simp: answer_in_zone_def Let_def split_def failed_def)
  qed
  then show ?thesis
    using assms(1,2) by (auto simp: answer_question_def Let_def failed_def split: option.splits)
qed

text \<open>A stale snapshot sends no client anywhere: when the snapshot is not fresh, the response to a query for addresses of
  a name that has a route has an empty answer section, in every state of the server.\<close>

theorem stale_never_routes:
  assumes "reply_ok env" "\<not> IsFresh (srv_Store s) (clk_fresh clk)" "msg_Question m = question # rest" "q_Qtype question \<in> {TypeA, TypeAAAA}"
    and "matchRoute (qtype_text env (q_Qtype question))
      (routesForQName (st_index (srv_Store s)) (normalizeDomain (q_Name question))) = Some rp"
  shows "msg_Answer (fst (Resolve env henv clk (Some m) remoteAddr s)) = []"
proof -
  let ?oc = "first_outcome ((SetReply env m)\<lparr>msg_Authoritative := True, msg_RecursionAvailable := False\<rparr>)"
  let ?s1 = "snd (limit_query clk remoteAddr s)"
  have oc: "msg_Answer (oc_response ?oc) = []"
    using first_outcome_ok[OF assms(1), where request = m and a = True and b = False] by (simp add: empty_sections_def)
  have "msg_Answer (oc_response (fst (answer_question env henv clk m remoteAddr (normalizeDomain (q_Name question))
      (q_Qtype question) ?oc ?s1))) = []"
    using assms(2,5) by (intro answer_question_stale[OF oc _ assms(4)]) simp_all
  then show ?thesis
    unfolding Resolve_question[OF assms(3)] using oc by (simp add: finish_query_empty failed_def)
qed

section \<open>What a query changes\<close>

lemma finish_query_keeps [simp]:
  "srv_Store (snd (finish_query clk remoteAddr qname qtype oc s)) = srv_Store s"
  "srv_Scheduler (snd (finish_query clk remoteAddr qname qtype oc s)) = srv_Scheduler s"
  "srv_UDPSize (snd (finish_query clk remoteAddr qname qtype oc s)) = srv_UDPSize s"
  by (simp_all add: finish_query_def split: prod.splits)

lemma limit_query_size [simp]: "srv_UDPSize (snd (limit_query clk remoteAddr s)) = srv_UDPSize s"
  by (simp add: limit_query_def split: option.splits prod.splits)

lemma Resolve_keeps [simp]:
  "srv_Store (snd (Resolve env henv clk request remoteAddr s)) = srv_Store s"
  "srv_UDPSize (snd (Resolve env henv clk request remoteAddr s)) = srv_UDPSize s"
proof -
  have "srv_Store (snd (Resolve env henv clk request remoteAddr s)) = srv_Store s
    \<and> srv_UDPSize (snd (Resolve env henv clk request remoteAddr s)) = srv_UDPSize s"
  proof (cases request)
    case (Some m)
    show ?thesis
    proof (cases "msg_Question m")
      case (Cons question rest)
      then show ?thesis unfolding Some by (simp add: Resolve_question[OF Cons])
    qed (simp add: Some Resolve_def)
  qed (simp add: Resolve_def)
  then show "srv_Store (snd (Resolve env henv clk request remoteAddr s)) = srv_Store s"
    "srv_UDPSize (snd (Resolve env henv clk request remoteAddr s)) = srv_UDPSize s" by simp_all
qed

text \<open>A request with a question is recorded once; one without is not recorded.\<close>

definition has_question :: "Msg option \<Rightarrow> bool" where
  "has_question request \<longleftrightarrow> (case request of None \<Rightarrow> False | Some m \<Rightarrow> msg_Question m \<noteq> [])"

lemma finish_query_records:
  "\<exists>op. queries_in op = 1 \<and> srv_Rollups (snd (finish_query clk remoteAddr qname qtype oc s)) =
    map_option (\<lambda>a. snd (rollup_step op a)) (srv_Rollups s)"
proof -
  obtain oc' l where l: "limit_response clk remoteAddr qname oc (srv_RRLimiter s) = (oc', l)" by fastforce
  show ?thesis
    by (intro exI[of _ "Op_Record (clk_record clk) (oc_zoneID oc') (oc_routeID oc') ((oc_source oc')\<lparr>src_ScopeKey := oc_sourceScope oc'\<rparr>)
        qname qtype (oc_rcodeLabel oc') (oc_targets oc') (TimeSub (clk_finished clk) (clk_started clk))"])
      (simp add: finish_query_def l)
qed

lemma Resolve_records:
  "has_question request \<Longrightarrow> \<exists>op. queries_in op = 1 \<and> srv_Rollups (snd (Resolve env henv clk request remoteAddr s)) =
    map_option (\<lambda>a. snd (rollup_step op a)) (srv_Rollups s)"
proof -
  assume "has_question request"
  then obtain m question rest where r: "request = Some m" "msg_Question m = question # rest"
    by (auto simp: has_question_def neq_Nil_conv split: option.splits)
  show ?thesis unfolding r(1) Resolve_question[OF r(2)]
    using finish_query_records[where s = "snd (limit_query clk remoteAddr s)"]
      finish_query_records[where s = "(snd (limit_query clk remoteAddr s))\<lparr>srv_Scheduler := x\<rparr>" for x] by (simp split: if_splits)
qed

lemma Resolve_ignores: "\<not> has_question request \<Longrightarrow> snd (Resolve env henv clk request remoteAddr s) = s"
  by (auto simp: has_question_def Resolve_def Let_def split: option.splits)

text \<open>What \<open>Resolve\<close> leaves of the scheduler, and that it keeps the invariant of the scheduler.\<close>

lemma answer_in_zone_scheduler:
  "snd (answer_in_zone env henv clk request sp index fresh zone qname t oc sched) = sched
   \<or> (\<exists>rp \<in> set (routesForQName index qname). \<exists>now ty source.
      snd (answer_in_zone env henv clk request sp index fresh zone qname t oc sched) =
        snd (SelectWithIndex henv now (Some sp) index (Some rp) ty source fresh sched))"
proof (cases "if t = TypeA \<or> t = TypeAAAA then matchRoute (qtype_text env t) (routesForQName index qname) else None")
  case None
  then show ?thesis by (simp add: answer_in_zone_def Let_def split: prod.splits)
next
  case (Some rp)
  then have "rp \<in> set (routesForQName index qname)" by (auto simp: matchRoute_def find_Some_iff split: if_splits)
  moreover have "snd (answer_in_zone env henv clk request sp index fresh zone qname t oc sched) =
      snd (SelectWithIndex henv (clk_select clk) (Some sp) index (Some rp) (qtype_text env t) (oc_source oc) fresh sched)"
    using Some by (auto simp: answer_in_zone_def Let_def split_def split: sum.splits)
  ultimately show ?thesis by blast
qed

lemma answer_question_scheduler:
  "snd (answer_question env henv clk request remoteAddr qname t oc s) = srv_Scheduler s
   \<or> (\<exists>sp fresh zone oc'. st_snapshot (srv_Store s) = Some sp
      \<and> snd (answer_question env henv clk request remoteAddr qname t oc s) =
          snd (answer_in_zone env henv clk request sp (st_index (srv_Store s)) fresh zone qname t oc' (srv_Scheduler s)))"
  by (simp add: answer_question_def Let_def split: option.split) blast

lemma Resolve_scheduler:
  "srv_Scheduler (snd (Resolve env henv clk request remoteAddr s)) = srv_Scheduler s
   \<or> (\<exists>sp qname. \<exists>rp \<in> set (routesForQName (st_index (srv_Store s)) qname). \<exists>now ty source fresh. st_snapshot (srv_Store s) = Some sp
      \<and> srv_Scheduler (snd (Resolve env henv clk request remoteAddr s)) =
          snd (SelectWithIndex henv now (Some sp) (st_index (srv_Store s)) (Some rp) ty source fresh (srv_Scheduler s)))"
proof (cases "has_question request")
  case False
  then show ?thesis by (simp add: Resolve_ignores)
next
  case True
  then obtain m question rest where r: "request = Some m" "msg_Question m = question # rest"
    by (auto simp: has_question_def neq_Nil_conv split: option.splits)
  let ?s1 = "snd (limit_query clk remoteAddr s)"
  let ?aq = "answer_question env henv clk m remoteAddr (normalizeDomain (q_Name question)) (q_Qtype question)
      (first_outcome ((SetReply env m)\<lparr>msg_Authoritative := True, msg_RecursionAvailable := False\<rparr>)) ?s1"
  have "srv_Scheduler (snd (Resolve env henv clk request remoteAddr s)) \<in> {srv_Scheduler s, snd ?aq}"
    unfolding r(1) Resolve_question[OF r(2)] by simp
  moreover have "snd ?aq = srv_Scheduler s \<or> (\<exists>sp fresh zone oc'. st_snapshot (srv_Store s) = Some sp
      \<and> snd ?aq = snd (answer_in_zone env henv clk m sp (st_index (srv_Store s)) fresh zone (normalizeDomain (q_Name question))
        (q_Qtype question) oc' (srv_Scheduler s)))"
    using answer_question_scheduler[where s = ?s1] unfolding limit_query_store .
  ultimately consider "srv_Scheduler (snd (Resolve env henv clk request remoteAddr s)) = srv_Scheduler s"
    | sp fresh zone oc' where "st_snapshot (srv_Store s) = Some sp" "srv_Scheduler (snd (Resolve env henv clk request remoteAddr s)) =
        snd (answer_in_zone env henv clk m sp (st_index (srv_Store s)) fresh zone (normalizeDomain (q_Name question))
        (q_Qtype question) oc' (srv_Scheduler s))"
    by auto
  then show ?thesis
  proof cases
    case 2
    then show ?thesis
      using answer_in_zone_scheduler[of env henv clk m sp "st_index (srv_Store s)" fresh zone "normalizeDomain (q_Name question)"
          "q_Qtype question" oc' "srv_Scheduler s"] by (elim disjE bexE exE) (simp_all, blast)
  qed simp
qed


definition routed_snapshot :: Snapshot where
  "routed_snapshot = zero_Snapshot\<lparr>snap_SnapshotVersion := ''v1'', snap_Zones := [zero_SnapshotZone\<lparr>zone_ID := 7, zone_Name := ''b.c''\<rparr>],
    snap_Routes := [zero_SnapshotRoute\<lparr>route_ID := 3, route_Domains := [''www.b.c''], route_ZoneID := 7, route_RecordType := ''A'',
      route_CurrentTargets := [''8.8.8.8'']\<rparr>]\<rparr>"

definition routed_server :: "unit DNSServer" where
  "routed_server = NewDNSServer ((NewSnapshotStore ''f'' 0)\<lparr>st_snapshot := Some (2, routed_snapshot),
    st_index := buildSnapshotIndex plain_env (Some (2, routed_snapshot))\<rparr>) None None None ''''"

definition www_query :: Msg where
  "www_query = zero_Msg\<lparr>msg_Question := [\<lparr>q_Name = ''www.b.c.'', q_Qtype = TypeA\<rparr>]\<rparr>"

lemma plain_env_reply: "reply_ok plain_env"
  by (simp add: reply_ok_def plain_env_def empty_sections_def zero_Msg_def rcode_defs)

lemma routed_server_store:
  "srv_Store routed_server = (NewSnapshotStore ''f'' 0)\<lparr>st_snapshot := Some (2, routed_snapshot),
    st_index := buildSnapshotIndex plain_env (Some (2, routed_snapshot))\<rparr>"
  by (simp add: routed_server_def NewDNSServer_def NewDNSServerWithLimits_def NewDNSServerWithProtection_def Let_def)

lemma routed_server_route:
  "\<exists>rp. matchRoute (qtype_text plain_env TypeA) (routesForQName (st_index (srv_Store routed_server)) (normalizeDomain ''www.b.c.'')) = Some rp"
proof -
  have "matchRoute (qtype_text plain_env TypeA)
      (routesForQName (buildSnapshotIndex plain_env (Some (2, routed_snapshot))) (normalizeDomain ''www.b.c.'')) \<noteq> None" by code_simp
  then show ?thesis by (simp add: routed_server_store)
qed

theorem stale_never_routes_witness:
  "\<forall>henv clk. msg_Answer (fst (Resolve plain_env henv clk (Some www_query) None routed_server)) = []"
proof (intro allI)
  fix henv and clk :: clock
  have stale: "\<not> IsFresh (srv_Store routed_server) (clk_fresh clk)"
    by (simp add: IsFresh_def routed_server_store routed_snapshot_def zero_Snapshot_def)
  have q: "msg_Question www_query = \<lparr>q_Name = ''www.b.c.'', q_Qtype = TypeA\<rparr> # []" by (simp add: www_query_def)
  obtain rp where "matchRoute (qtype_text plain_env TypeA)
      (routesForQName (st_index (srv_Store routed_server)) (normalizeDomain ''www.b.c.'')) = Some rp"
    using routed_server_route by blast
  then show "msg_Answer (fst (Resolve plain_env henv clk (Some www_query) None routed_server)) = []"
    by (intro stale_never_routes[OF plain_env_reply stale q]) simp_all
qed

section \<open>The size of UDP answers\<close>

text \<open>What is relied on of \<open>Truncate\<close>: the message fits afterwards, for the sizes DNS allows.\<close>

definition truncate_ok :: "'p dns_env \<Rightarrow> bool" where
  "truncate_ok env \<longleftrightarrow> (\<forall>m n. MinMsgSize \<le> n \<longrightarrow> MsgLen env (MsgTruncate env m n) \<le> n)"

text \<open>The size a request advertises, and at most how much a server sends.\<close>

definition advertised :: "Msg option \<Rightarrow> int" where
  "advertised request = (case request of None \<Rightarrow> MinMsgSize
    | Some m \<Rightarrow> (case msg_Edns0 m of None \<Rightarrow> MinMsgSize | Some opt \<Rightarrow> int (opt_UDPSize opt)))"

lemma udpResponseSize_bounds:
  "MinMsgSize \<le> udpResponseSize s request \<and> udpResponseSize s request \<le> MaxMsgSize
    \<and> udpResponseSize s request \<le> max MinMsgSize (advertised request)
    \<and> udpResponseSize s request \<le> max MinMsgSize (if srv_UDPSize s > 0 then srv_UDPSize s else DefaultUDPResponseSize)"
  unfolding udpResponseSize_def advertised_def[symmetric] by (simp add: Let_def MinMsgSize_def MaxMsgSize_def)

text \<open>C28: UDP answers fit: a response sent over UDP is no longer than 512 bytes or the size the client advertises, whichever is
  more (512 when it advertises none; a smaller size counts as 512), no longer than 512 bytes or the size the server is
  configured with, whichever is more, and never longer than 65535. After a
  policy was applied, whatever it says, the configured size is the clamped size of the policy.\<close>

theorem udp_answers_fit:
  fixes env :: "'p dns_env" and henv clk remoteAddr request
  assumes "truncate_ok env"
  defines "response \<equiv> (\<lambda>s. fst (handleDNS env henv clk True remoteAddr request s))"
  shows "MsgLen env (response s) \<le> max MinMsgSize (advertised request) \<and> MsgLen env (response s) \<le> MaxMsgSize
    \<and> (0 < srv_UDPSize s \<longrightarrow> MsgLen env (response s) \<le> max MinMsgSize (srv_UDPSize s))
    \<and> MsgLen env (response (DNSServer_ApplyWorkerPolicy policy s)) \<le> clampUDPResponseSize (wp_UDPResponseSize (normalizeWorkerPolicy policy))"
proof -
  have fits: "MsgLen env (response s) \<le> udpResponseSize s request" for s
  proof -
    have "udpResponseSize (snd (Resolve env henv clk request remoteAddr s)) request = udpResponseSize s request"
      by (simp add: udpResponseSize_def)
    then show ?thesis
      using assms(1) udpResponseSize_bounds[of s request]
      by (simp add: response_def handleDNS_def split_def truncateUDPResponse_def truncate_ok_def Let_def)
  qed
  have size: "srv_UDPSize (DNSServer_ApplyWorkerPolicy policy s) = clampUDPResponseSize (wp_UDPResponseSize (normalizeWorkerPolicy policy))"
    by (simp add: DNSServer_ApplyWorkerPolicy_def Let_def)
  have clamp: "MinMsgSize \<le> clampUDPResponseSize n" for n
    by (simp add: clampUDPResponseSize_def Let_def MinMsgSize_def MaxMsgSize_def DefaultUDPResponseSize_def)
  have pos: "0 < MinMsgSize" by (simp add: MinMsgSize_def)
  show ?thesis
    using fits[of s] udpResponseSize_bounds[of s request] fits[of "DNSServer_ApplyWorkerPolicy policy s"]
      udpResponseSize_bounds[of "DNSServer_ApplyWorkerPolicy policy s" request] clamp[of "wp_UDPResponseSize (normalizeWorkerPolicy policy)"] pos
    by (auto simp: size)
qed

text \<open>An environment in which a message is too long for a small datagram until it is truncated.\<close>

definition cutting_env :: "unit dns_env" where
  "cutting_env = plain_env\<lparr>MsgLen := (\<lambda>m. if msg_Truncated m then 12 else 600), MsgTruncate := (\<lambda>m _. m\<lparr>msg_Truncated := True\<rparr>)\<rparr>"

theorem udp_answers_fit_witness:
  "\<forall>henv clk. msg_Truncated (fst (handleDNS cutting_env henv clk True None (Some www_query) routed_server))"
proof (intro allI)
  fix henv and clk :: clock
  have "truncate_ok cutting_env" by (simp add: truncate_ok_def cutting_env_def MinMsgSize_def)
  from udp_answers_fit[OF this, where henv = henv and clk = clk and remoteAddr = None and request = "Some www_query" and s = routed_server]
  have "MsgLen cutting_env (fst (handleDNS cutting_env henv clk True None (Some www_query) routed_server)) \<le> 512"
    by (simp add: advertised_def www_query_def zero_Msg_def MinMsgSize_def)
  then show "msg_Truncated (fst (handleDNS cutting_env henv clk True None (Some www_query) routed_server))"
    by (simp add: cutting_env_def split: if_splits)
qed

end
