(* ===== verification/Worker_Runner.thy ===== *)
theory Worker_Runner
  imports Worker_Update Server_Answers
begin

text \<open>
  The runner of the worker (\<open>runner.go\<close>): how the parts are put together, the pull of snapshots and the
  heartbeat. In the code the runner and its DNS server point to the same store, scheduler, aggregator and
  source resolver; here the server holds them, and the resolver, whose policy only the runner changes, is kept in the
  runner with the lookup of the server defined by it. What the operating system, the DNS library, the codecs
  and the databases do is collected in \<open>worker_env\<close>; the text of an error is a field of it too.
\<close>

datatype runner_error = Pull_Error client_error | Store_Failed store_error | Heartbeat_Error client_error

record 'p worker_env =
  we_dns :: "'p dns_env"
  we_hash :: hash_env
  we_mac :: mac_env
  we_codec :: "string codec"
  we_results :: result_codec
  we_scripts :: script_env
  we_open_db :: "string \<Rightarrow> string + mmdb"
  we_paths :: "string \<Rightarrow> path_info"
  we_error_text :: "runner_error \<Rightarrow> string"

record 'p Runner =
  run_Config :: Config
  run_Client :: APIClient
  run_Server :: "'p DNSServer"
  run_Resolver :: SourceResolver
  run_Files :: "string files"
  run_Jobs :: job_flags

abbreviation run_Store :: "'p Runner \<Rightarrow> 'p SnapshotStore" where
  "run_Store r \<equiv> srv_Store (run_Server r)"

definition with_resolver :: "SourceResolver \<Rightarrow> 'p Runner \<Rightarrow> 'p Runner" where
  "with_resolver sr r =
    r\<lparr>run_Resolver := sr, run_Server := (run_Server r)\<lparr>srv_Resolver := Some (SourceResolver_Resolve (Some sr))\<rparr>\<rparr>"

definition update_store :: "('p SnapshotStore \<Rightarrow> 'p SnapshotStore) \<Rightarrow> 'p Runner \<Rightarrow> 'p Runner" where
  "update_store f r = r\<lparr>run_Server := (run_Server r)\<lparr>srv_Store := f (srv_Store (run_Server r))\<rparr>\<rparr>"

definition update_scheduler :: "(Scheduler \<Rightarrow> Scheduler) \<Rightarrow> 'p Runner \<Rightarrow> 'p Runner" where
  "update_scheduler f r = r\<lparr>run_Server := (run_Server r)\<lparr>srv_Scheduler := f (srv_Scheduler (run_Server r))\<rparr>\<rparr>"

section \<open>Construction\<close>

definition WithECS :: "bool \<Rightarrow> int \<Rightarrow> int \<Rightarrow> SourceResolver \<Rightarrow> SourceResolver" where
  "WithECS enabled ipv4Prefix ipv6Prefix = ApplyECSPolicy enabled ipv4Prefix ipv6Prefix"

definition NewRunner :: "'p worker_env \<Rightarrow> gotime \<Rightarrow> string option \<Rightarrow> string files \<Rightarrow> Config \<Rightarrow> 'p Runner" where
  "NewRunner env now read_error fs cfg =
    (let store = snd (LoadFromDisk (we_codec env) (we_dns env) now read_error fs
           (NewSnapshotStore (cfg_SnapshotPath cfg) (cfg_SnapshotMaxAge cfg)));
         scheduler = (case st_snapshot store of
             None \<Rightarrow> NewScheduler
           | Some sp \<Rightarrow> LoadSnapshotStates now (Some (snd sp)) NewScheduler);
         sourceResolver = fst (NewSourceResolver (we_open_db env) (we_paths env) (cfg_GeoIPDatabasePath cfg)
           [cfg_ASNDatabasePath cfg, cfg_OperatorCIDRDatabasePath cfg]);
         sourceResolver = WithECS (cfg_ECSEnabled cfg) (cfg_ECSIPv4Prefix cfg) (cfg_ECSIPv6Prefix cfg) sourceResolver
     in \<lparr>run_Config = cfg,
         run_Client = NewAPIClient (cfg_ServerURL cfg) (cfg_Token cfg) (cfg_RequestTimeout cfg),
         run_Server = NewDNSServerWithProtection store (Some scheduler) (Some (NewRollupAggregator Minute))
           (Some (SourceResolver_Resolve (Some sourceResolver))) (cfg_ListenAddr cfg) (cfg_QueryRateLimit cfg)
           (cfg_ResponseRateLimit cfg) (cfg_UDPResponseSize cfg),
         run_Resolver = sourceResolver, run_Files = fs,
         run_Jobs = \<lparr>dnsWorkerUpdateRunning = False, dnsWorkerUninstallRunning = False\<rparr>\<rparr>)"

section \<open>Policies\<close>

definition applyWorkerPolicy :: "WorkerPolicy \<Rightarrow> 'p Runner \<Rightarrow> 'p Runner" where
  "applyWorkerPolicy policy r =
    (let policy = normalizeWorkerPolicy policy;
         r = with_resolver (ApplyECSPolicy (wp_ECSEnabled policy) (wp_ECSIPv4Prefix policy) (wp_ECSIPv6Prefix policy) (run_Resolver r)) r
     in r\<lparr>run_Server := DNSServer_ApplyWorkerPolicy policy (run_Server r)\<rparr>)"

definition applyCurrentSnapshotPolicy :: "'p Runner \<Rightarrow> 'p Runner" where
  "applyCurrentSnapshotPolicy r =
    (case st_snapshot (run_Store r) of None \<Rightarrow> r | Some sp \<Rightarrow> applyWorkerPolicy (snap_WorkerPolicy (snd sp)) r)"

section \<open>Pulling snapshots\<close>

text \<open>What \<open>pullSnapshot\<close> does with the result of the request it made for \<open>currentVersion\<close>; \<open>now\<close> is the time of
  storing, loading states and saving.\<close>

definition install_snapshot ::
  "'p worker_env \<Rightarrow> file_faults \<Rightarrow> gotime \<Rightarrow> Snapshot \<Rightarrow> 'p Runner \<Rightarrow> runner_error option \<times> 'p Runner" where
  "install_snapshot env faults now snapshot r =
    (case Store_Set (we_dns env) now (Some snapshot) (run_Store r) of
       (Some e, store) \<Rightarrow> (Some (Store_Failed e), r)
     | (None, store) \<Rightarrow>
         (let r = applyWorkerPolicy (snap_WorkerPolicy snapshot) (update_store (\<lambda>_. store) r);
              r = (case st_snapshot (run_Store r) of
                  None \<Rightarrow> r
                | Some sp \<Rightarrow> update_scheduler (LoadSnapshotStates now (Some (snd sp))) r)
          in case Store_Save (we_codec env) faults now (Some snapshot) (run_Store r) (run_Files r) of
               (err, store, fs) \<Rightarrow> (map_option Store_Failed err, (update_store (\<lambda>_. store) r)\<lparr>run_Files := fs\<rparr>)))"

definition pull_finished ::
  "'p worker_env \<Rightarrow> file_faults \<Rightarrow> gotime \<Rightarrow> string \<Rightarrow> client_error + Snapshot \<Rightarrow> 'p Runner \<Rightarrow> runner_error option \<times> 'p Runner" where
  "pull_finished env faults now currentVersion result r =
    (case result of
       Inl err \<Rightarrow>
         if err = Snapshot_Not_Modified then (None, applyCurrentSnapshotPolicy (update_store ClearLastError r))
         else (Some (Pull_Error err), r)
     | Inr snapshot \<Rightarrow>
         if currentVersion \<noteq> [] \<and> TrimSpace (snap_SnapshotVersion snapshot) = currentVersion
         then (None, applyWorkerPolicy (snap_WorkerPolicy snapshot) (update_store ClearLastError r))
         else install_snapshot env faults now snapshot r)"

definition pullSnapshot ::
  "'p worker_env \<Rightarrow> http_env \<Rightarrow> file_faults \<Rightarrow> gotime \<Rightarrow> 'p Runner \<Rightarrow> runner_error option \<times> 'p Runner" where
  "pullSnapshot env http faults now r =
    (let currentVersion = Version (run_Store r)
     in pull_finished env faults now currentVersion (FetchSnapshotSince http (we_mac env) (run_Client r) currentVersion) r)"

section \<open>The heartbeat\<close>

definition uninstallSupported :: "script_env \<Rightarrow> Config \<Rightarrow> bool" where
  "uninstallSupported env cfg =
    (let installDir = TrimSpace (cfg_InstallDir cfg)
     in installDir \<noteq> [] \<and> (case Stat env (filepath_Join [Clean installDir, ''uninstall-dns-worker.sh'']) of
          Inl _ \<Rightarrow> False | Inr info \<Rightarrow> \<not> fi_IsDir info))"

definition export_states :: "gotime \<Rightarrow> 'p Runner \<Rightarrow> SnapshotSchedulingState list \<times> 'p Runner" where
  "export_states now r =
    (case st_snapshot (run_Store r) of
       None \<Rightarrow> ([], r)
     | Some sp \<Rightarrow>
         (case SnapshotStates now (Some (snd sp)) (srv_Scheduler (run_Server r)) of
            (states, sched) \<Rightarrow> (states, update_scheduler (\<lambda>_. sched) r)))"

definition heartbeat_input ::
  "'p worker_env \<Rightarrow> QueryRollupPayload list \<Rightarrow> SnapshotSchedulingState list \<Rightarrow> UpdateResultPayload option \<Rightarrow> 'p Runner \<Rightarrow> HeartbeatInput" where
  "heartbeat_input env rollups states updateResult r =
    (let cfg = run_Config r; status = Status (run_Resolver r); store = run_Store r
     in \<lparr>hb_Version = cfg_Version cfg, hb_Status = (if Version store \<noteq> [] then ''online'' else ''offline''),
         hb_LastSnapshotVersion = Version store, hb_LastSnapshotAt = LoadedAt store, hb_LastError = st_lastError store,
         hb_GeoIPEnabled = srs_Enabled status, hb_GeoIPDatabasePath = srs_DatabasePath status,
         hb_ASNDatabasePath = srs_ASNDatabasePath status, hb_GeoIPLastError = srs_LastError status,
         hb_ASNLastError = srs_ASNLastError status, hb_GeoIPDatabaseType = srs_DatabaseType status,
         hb_ASNDatabaseType = srs_ASNDatabaseType status, hb_GeoIPCountryEnabled = srs_CountryEnabled status,
         hb_GeoIPASNEnabled = srs_ASNEnabled status, hb_GeoIPOperatorEnabled = srs_OperatorEnabled status,
         hb_OperatorCIDRDatabasePath = srs_OperatorCIDRDatabasePath status,
         hb_OperatorCIDRLastError = srs_OperatorCIDRLastError status, hb_UpdateSupported = cfg_UpdateEnabled cfg,
         hb_UninstallSupported = uninstallSupported (we_scripts env) cfg, hb_UpdateResult = updateResult,
         hb_Rollups = rollups, hb_SchedulingStates = states\<rparr>)"

text \<open>Before the request: the statistics are drained, the states exported and the pending result read.\<close>

definition heartbeat_started :: "'p worker_env \<Rightarrow> gotime \<Rightarrow> 'p Runner \<Rightarrow> HeartbeatInput \<times> 'p Runner" where
  "heartbeat_started env now r =
    (let (rollups, agg) = (case srv_Rollups (run_Server r) of None \<Rightarrow> ([], None)
           | Some a \<Rightarrow> (case Drain a of (ps, a) \<Rightarrow> (ps, Some a)));
         r = r\<lparr>run_Server := (run_Server r)\<lparr>srv_Rollups := agg\<rparr>\<rparr>;
         (states, r) = export_states now r
     in (heartbeat_input env rollups states (loadPendingUpdateResult (we_results env) (run_Config r) (run_Files r)) r, r))"

text \<open>After the request: a failure restores the statistics; a success clears the pending result, applies the
  policy and may start a job. The result tells the error and which jobs were started.\<close>

definition heartbeat_finished ::
  "gotime \<Rightarrow> HeartbeatInput \<Rightarrow> client_error + HeartbeatResponse \<Rightarrow> 'p Runner \<Rightarrow> runner_error option \<times> 'p Runner" where
  "heartbeat_finished now input result r =
    (case result of
       Inl err \<Rightarrow> (Some (Heartbeat_Error err),
         r\<lparr>run_Server := (run_Server r)\<lparr>srv_Rollups := map_option (Restore now (hb_Rollups input)) (srv_Rollups (run_Server r))\<rparr>\<rparr>)
     | Inr response \<Rightarrow>
         (let r = (if hb_UpdateResult input \<noteq> None then r\<lparr>run_Files := clearPendingUpdateResult (run_Config r) (run_Files r)\<rparr> else r);
              r = applyWorkerPolicy (ws_WorkerPolicy (hr_Settings response)) r;
              jobs = snd (maybeStartUpdate (run_Config r) (hr_Settings response) (run_Jobs r));
              jobs = snd (maybeStartUninstall (hr_Settings response) jobs)
          in (None, r\<lparr>run_Jobs := jobs\<rparr>)))"

definition sendHeartbeat ::
  "'p worker_env \<Rightarrow> http_env \<Rightarrow> gotime \<Rightarrow> gotime \<Rightarrow> 'p Runner \<Rightarrow> runner_error option \<times> 'p Runner" where
  "sendHeartbeat env http now now' r =
    (case heartbeat_started env now r of
       (input, r) \<Rightarrow> heartbeat_finished now' input (SendHeartbeat http (run_Client r) input) r)"

text \<open>\<open>Run\<close> and \<open>syncLoop\<close> note the error of either in the store.\<close>

definition note_error :: "'p worker_env \<Rightarrow> runner_error option \<times> 'p Runner \<Rightarrow> 'p Runner" where
  "note_error env = (\<lambda>(err, r). case err of None \<Rightarrow> r
    | Some e \<Rightarrow> update_store (\<lambda>s. s\<lparr>st_lastError := we_error_text env e\<rparr>) r)"

definition sync_round :: "'p worker_env \<Rightarrow> http_env \<Rightarrow> file_faults \<Rightarrow> gotime \<Rightarrow> gotime \<Rightarrow> gotime \<Rightarrow> 'p Runner \<Rightarrow> 'p Runner" where
  "sync_round env http faults t1 t2 t3 r =
    note_error env (sendHeartbeat env http t2 t3 (note_error env (pullSnapshot env http faults t1 r)))"

end
