(* ===== verification/Worker_Reach.thy ===== *)
theory Worker_Reach
  imports Worker_Runner
begin

text \<open>
  The running worker as a state machine. DNS queries are answered while the synchronisation goroutine waits for
  the answer to a pull or to a heartbeat, so a pull and a heartbeat are two steps each, with any number of queries
  and jobs in between. The invariant of the worker combines those of the store, the scheduler and the
  statistics; the theorems state what holds in every state that any sequence of steps leads to.
\<close>

section \<open>Steps\<close>

datatype phase = Idle | Pulling string | Reporting HeartbeatInput

record 'p Worker =
  wk_Runner :: "'p Runner"
  wk_Phase :: phase

datatype worker_op =
    Query clock "Msg option" "net_addr option" bool
  | Start_Pull
  | Finish_Pull http_env file_faults gotime
  | Start_Heartbeat gotime
  | Finish_Heartbeat http_env gotime
  | Update_Job "string list" file_faults gotime WorkerSettings
  | Uninstall_Job os_env "string list"

definition serve_query :: "'p worker_env \<Rightarrow> clock \<Rightarrow> Msg option \<Rightarrow> net_addr option \<Rightarrow> bool \<Rightarrow> 'p Runner \<Rightarrow> 'p Runner" where
  "serve_query env clk request remoteAddr udp r =
    r\<lparr>run_Server := snd (handleDNS (we_dns env) (we_hash env) clk udp remoteAddr request (run_Server r))\<rparr>"

definition finish_pull :: "'p worker_env \<Rightarrow> http_env \<Rightarrow> file_faults \<Rightarrow> gotime \<Rightarrow> string \<Rightarrow> 'p Runner \<Rightarrow> 'p Runner" where
  "finish_pull env http faults now version r =
    note_error env (pull_finished env faults now version (FetchSnapshotSince http (we_mac env) (run_Client r) version) r)"

definition finish_heartbeat :: "'p worker_env \<Rightarrow> http_env \<Rightarrow> gotime \<Rightarrow> HeartbeatInput \<Rightarrow> 'p Runner \<Rightarrow> 'p Runner" where
  "finish_heartbeat env http now input r =
    note_error env (heartbeat_finished now input (SendHeartbeat http (run_Client r) input) r)"

definition run_job :: "'p worker_env \<Rightarrow> string list \<Rightarrow> file_faults \<Rightarrow> gotime \<Rightarrow> WorkerSettings \<Rightarrow> 'p Runner \<Rightarrow> 'p Runner" where
  "run_job env environ faults now settings r =
    (case update_job (we_scripts env) environ (we_results env) faults now (run_Config r) settings (run_Jobs r, run_Files r) of
       (jobs, fs) \<Rightarrow> r\<lparr>run_Jobs := jobs, run_Files := fs\<rparr>)"

text \<open>The output of a step is what the server has accepted of the statistics in it. A step that is not possible in
  the current phase does nothing.\<close>

fun worker_step :: "'p worker_env \<Rightarrow> worker_op \<Rightarrow> 'p Worker \<Rightarrow> QueryRollupPayload list \<times> 'p Worker" where
  "worker_step env (Query clk request remoteAddr udp) w =
    ([], w\<lparr>wk_Runner := serve_query env clk request remoteAddr udp (wk_Runner w)\<rparr>)"
| "worker_step env Start_Pull w =
    ([], if wk_Phase w = Idle then w\<lparr>wk_Phase := Pulling (Version (run_Store (wk_Runner w)))\<rparr> else w)"
| "worker_step env (Finish_Pull http faults now) w =
    ([], case wk_Phase w of
       Pulling version \<Rightarrow> w\<lparr>wk_Phase := Idle, wk_Runner := finish_pull env http faults now version (wk_Runner w)\<rparr>
     | _ \<Rightarrow> w)"
| "worker_step env (Start_Heartbeat now) w =
    ([], if wk_Phase w = Idle
       then (case heartbeat_started env now (wk_Runner w) of (input, r) \<Rightarrow> w\<lparr>wk_Phase := Reporting input, wk_Runner := r\<rparr>)
       else w)"
| "worker_step env (Finish_Heartbeat http now) w =
    (case wk_Phase w of
       Reporting input \<Rightarrow>
         (if \<exists>response. SendHeartbeat http (run_Client (wk_Runner w)) input = Inr response then hb_Rollups input else [],
          w\<lparr>wk_Phase := Idle, wk_Runner := finish_heartbeat env http now input (wk_Runner w)\<rparr>)
     | _ \<Rightarrow> ([], w))"
| "worker_step env (Update_Job environ faults now settings) w =
    ([], if dnsWorkerUpdateRunning (run_Jobs (wk_Runner w))
       then w\<lparr>wk_Runner := run_job env environ faults now settings (wk_Runner w)\<rparr> else w)"
| "worker_step env (Uninstall_Job os environ) w =
    ([], if dnsWorkerUninstallRunning (run_Jobs (wk_Runner w))
       then w\<lparr>wk_Runner := (wk_Runner w)\<lparr>run_Jobs := snd (uninstall_job (we_scripts env) os environ (run_Config (wk_Runner w))
         (run_Jobs (wk_Runner w)))\<rparr>\<rparr> else w)"

definition new_worker :: "'p worker_env \<Rightarrow> gotime \<Rightarrow> string option \<Rightarrow> string files \<Rightarrow> Config \<Rightarrow> 'p Worker" where
  "new_worker env now read_error fs cfg = \<lparr>wk_Runner = NewRunner env now read_error fs cfg, wk_Phase = Idle\<rparr>"

section \<open>What the steps keep\<close>

lemma policy_keeps [simp]:
  "srv_Store (run_Server (applyWorkerPolicy p r)) = srv_Store (run_Server r)"
  "srv_Scheduler (run_Server (applyWorkerPolicy p r)) = srv_Scheduler (run_Server r)"
  "srv_Rollups (run_Server (applyWorkerPolicy p r)) = srv_Rollups (run_Server r)"
  "run_Client (applyWorkerPolicy p r) = run_Client r" "run_Files (applyWorkerPolicy p r) = run_Files r"
  by (simp_all add: applyWorkerPolicy_def with_resolver_def DNSServer_ApplyWorkerPolicy_def Let_def)

lemma current_policy_keeps [simp]:
  "srv_Store (run_Server (applyCurrentSnapshotPolicy r)) = srv_Store (run_Server r)"
  "srv_Scheduler (run_Server (applyCurrentSnapshotPolicy r)) = srv_Scheduler (run_Server r)"
  "srv_Rollups (run_Server (applyCurrentSnapshotPolicy r)) = srv_Rollups (run_Server r)"
  "run_Client (applyCurrentSnapshotPolicy r) = run_Client r"
  by (simp_all add: applyCurrentSnapshotPolicy_def split: option.split)

lemma updates_keep [simp]:
  "srv_Store (run_Server (update_store f r)) = f (srv_Store (run_Server r))"
  "srv_Scheduler (run_Server (update_store f r)) = srv_Scheduler (run_Server r)"
  "srv_Rollups (run_Server (update_store f r)) = srv_Rollups (run_Server r)"
  "run_Client (update_store f r) = run_Client r"
  "srv_Store (run_Server (update_scheduler g r)) = srv_Store (run_Server r)"
  "srv_Scheduler (run_Server (update_scheduler g r)) = g (srv_Scheduler (run_Server r))"
  "srv_Rollups (run_Server (update_scheduler g r)) = srv_Rollups (run_Server r)"
  "run_Client (update_scheduler g r) = run_Client r"
  by (simp_all add: update_store_def update_scheduler_def)

text \<open>The part of a store that answers depend on.\<close>

definition same_content :: "'p SnapshotStore \<Rightarrow> 'p SnapshotStore \<Rightarrow> bool" where
  "same_content s s' \<longleftrightarrow> st_snapshot s' = st_snapshot s \<and> st_index s' = st_index s \<and> st_next s' = st_next s \<and> st_maxAge s' = st_maxAge s"

lemma Store_Save_content: "same_content s (fst (snd (Store_Save cd faults now snapshot s fs)))"
  by (auto simp: same_content_def Store_Save_def record_error_def setLastError_def split: option.splits prod.splits)

lemma note_error_keeps [simp]:
  "srv_Scheduler (run_Server (note_error env er)) = srv_Scheduler (run_Server (snd er))"
  "srv_Rollups (run_Server (note_error env er)) = srv_Rollups (run_Server (snd er))"
  "run_Client (note_error env er) = run_Client (snd er)"
  by (cases er; simp add: note_error_def split: option.split)+

lemma note_error_content: "same_content (srv_Store (run_Server (snd er))) (srv_Store (run_Server (note_error env er)))"
  by (cases er) (simp add: note_error_def same_content_def split: option.split)

lemma same_content_trans: "same_content a b \<Longrightarrow> same_content b c \<Longrightarrow> same_content a c"
  by (simp add: same_content_def)

lemma serve_query_server: "run_Server (serve_query env clk request remoteAddr udp r) =
    snd (Resolve (we_dns env) (we_hash env) clk request remoteAddr (run_Server r))"
  by (simp add: serve_query_def handleDNS_def split_def)

section \<open>The scheduler of a worker\<close>

definition cached_routes :: "Scheduler \<Rightarrow> (nat \<times> nat) set" where
  "cached_routes s = (case sch_policyCache s of None \<Rightarrow> {} | Some m \<Rightarrow> fst ` set m)"

lemma cached_routes_routePolicy: "cached_routes (snd (routePolicy snapshot index rp s)) \<subseteq> insert (fst rp) (cached_routes s)"
  by (auto simp: routePolicy_def Let_def cached_routes_def dom_update split: option.splits if_splits)

lemma cached_routes_policy [simp]:
  "cached_routes (snd (select_with_policy env now snapshot route rt source policy s)) = cached_routes s"
  by (simp add: select_with_policy_def Let_def applyDebounce_def cached_routes_def)

lemma cached_routes_select:
  "cached_routes (snd (SelectWithIndex env now snapshot index (Some rp) rawType source fresh s)) \<subseteq> insert (fst rp) (cached_routes s)"
proof (cases rule: SelectWithIndex_cases[of env now snapshot index rp rawType source fresh s])
  case (error e)
  then show ?thesis using cached_routes_routePolicy[of snapshot index rp s] by auto
next
  case (policy p s')
  then have "s' = s \<or> s' = snd (routePolicy snapshot index rp s)" by (auto split: if_splits)
  then show ?thesis using policy(2) cached_routes_routePolicy[of snapshot index rp s] by auto
qed auto

lemma cached_routes_states [simp]:
  "cached_routes (LoadSnapshotStates now snapshot s) = cached_routes s"
  "cached_routes (snd (SnapshotStates now snapshot s)) = cached_routes s"
  by (simp_all add: LoadSnapshotStates_def SnapshotStates_def cached_routes_def Let_def split: option.split prod.split)

section \<open>The invariant\<close>

text \<open>The routes of the current snapshot are what lives at their addresses, the index is the index of the snapshot, and
  what the scheduler caches belongs to snapshots that were allocated.\<close>

definition server_ok :: "'p dns_env \<Rightarrow> 'p SnapshotStore \<Rightarrow> Scheduler \<Rightarrow> bool" where
  "server_ok dns store sched \<longleftrightarrow>
    (\<exists>mem. sched_inv mem sched \<and> (\<forall>a \<in> cached_routes sched. fst a < st_next store)
      \<and> (\<forall>sp. st_snapshot store = Some sp \<longrightarrow> st_index store = buildSnapshotIndex dns (Some sp) \<and> fst sp < st_next store
          \<and> (\<forall>rp \<in> set (route_ptrs sp). snd rp = mem (fst rp))))"

lemma server_ok_content: "server_ok dns s sched \<Longrightarrow> same_content s s' \<Longrightarrow> server_ok dns s' sched"
  by (simp add: server_ok_def same_content_def)

lemma server_ok_load: "server_ok dns s sched \<Longrightarrow> server_ok dns s (LoadSnapshotStates now snapshot sched)"
  unfolding server_ok_def using LoadSnapshotStates_inv by (metis cached_routes_states(1))

lemma server_ok_export: "server_ok dns s sched \<Longrightarrow> server_ok dns s (snd (SnapshotStates now snapshot sched))"
  unfolding server_ok_def using SnapshotStates_inv by (metis cached_routes_states(2))

lemma sched_inv_mem:
  assumes "sched_inv mem s" "\<forall>a \<in> cached_routes s. mem' a = mem a"
  shows "sched_inv mem' s"
proof -
  have "mem' a = mem a" if "sch_policyCache s = Some m" "map_of m a = Some p" for m a p
    using assms(2) that by (force simp: cached_routes_def dest!: map_of_SomeD)
  then show ?thesis using assms(1) by (simp add: sched_inv_def cache_ok_def)
qed

lemma server_ok_set:
  assumes "server_ok dns s sched" "Store_Set dns now (Some snap) s = (None, s')"
  shows "server_ok dns s' sched"
proof -
  define snap' where "snap' = normalizeSnapshotRuntimeTimes (normalizeSnapshot snap) now"
  have s': "st_snapshot s' = Some (st_next s, snap')" "st_index s' = buildSnapshotIndex dns (Some (st_next s, snap'))" "st_next s' = st_next s + 1"
    using assms(2) by (auto simp: Store_Set_def Let_def snap'_def split: if_splits)
  obtain mem where mem: "sched_inv mem sched" "\<forall>a \<in> cached_routes sched. fst a < st_next s"
    using assms(1) by (auto simp: server_ok_def)
  define mem' where "mem' a = (if fst a = st_next s then snap_Routes snap' ! snd a else mem a)" for a
  have "sched_inv mem' sched" using mem by (intro sched_inv_mem[OF mem(1)]) (auto simp: mem'_def)
  moreover have "snd rp = mem' (fst rp)" if "rp \<in> set (route_ptrs (st_next s, snap'))" for rp
    using that by (auto simp: route_ptrs_def in_set_enumerate_eq mem'_def)
  ultimately show ?thesis
    using s' mem(2) unfolding server_ok_def by (intro exI[of _ mem']) (auto simp: less_Suc_eq)
qed

lemma routes_in_snapshot: "rp \<in> set (routesForQName (buildSnapshotIndex dns (Some sp)) qname) \<Longrightarrow> rp \<in> set (route_ptrs sp)"
  by (auto simp: routesForQName_def Let_def index_exact_scan index_wild_scan set_routes_with split: option.splits)

lemma server_ok_query:
  assumes "server_ok dns (srv_Store s) (srv_Scheduler s)"
  shows "server_ok dns (srv_Store s) (srv_Scheduler (snd (Resolve dns henv clk request remoteAddr s)))"
  using Resolve_scheduler[of dns henv clk request remoteAddr s]
proof
  assume "\<exists>sp qname. \<exists>rp \<in> set (routesForQName (st_index (srv_Store s)) qname). \<exists>now ty source fresh. st_snapshot (srv_Store s) = Some sp
      \<and> srv_Scheduler (snd (Resolve dns henv clk request remoteAddr s)) =
          snd (SelectWithIndex henv now (Some sp) (st_index (srv_Store s)) (Some rp) ty source fresh (srv_Scheduler s))"
  then obtain sp qname rp now ty source fresh where rp: "rp \<in> set (routesForQName (st_index (srv_Store s)) qname)"
    and sp: "st_snapshot (srv_Store s) = Some sp"
    and eq: "srv_Scheduler (snd (Resolve dns henv clk request remoteAddr s)) =
          snd (SelectWithIndex henv now (Some sp) (st_index (srv_Store s)) (Some rp) ty source fresh (srv_Scheduler s))" by blast
  obtain mem where mem: "sched_inv mem (srv_Scheduler s)" "\<forall>a \<in> cached_routes (srv_Scheduler s). fst a < st_next (srv_Store s)"
    "st_index (srv_Store s) = buildSnapshotIndex dns (Some sp)" "fst sp < st_next (srv_Store s)" "\<forall>rp \<in> set (route_ptrs sp). snd rp = mem (fst rp)"
    using assms sp by (auto simp: server_ok_def)
  have in_sp: "rp \<in> set (route_ptrs sp)" using rp mem(3) routes_in_snapshot by metis
  then have "fst (fst rp) = fst sp" by (auto simp: route_ptrs_def)
  moreover have "sched_inv mem (srv_Scheduler (snd (Resolve dns henv clk request remoteAddr s)))"
    unfolding eq using SelectWithIndex_inv[OF mem(1)] mem(5) in_sp by blast
  moreover note cached_routes_select[of henv now "Some sp" "st_index (srv_Store s)" rp ty source fresh "srv_Scheduler s"]
  ultimately show ?thesis
    using mem(2-5) sp unfolding server_ok_def eq by (intro exI[of _ mem]) auto
qed (use assms in simp)

section \<open>Statistics\<close>

fun in_flight :: "phase \<Rightarrow> QueryRollupPayload list" where
  "in_flight (Reporting input) = hb_Rollups input"
| "in_flight _ = []"

definition worker_ok :: "'p worker_env \<Rightarrow> 'p Worker \<Rightarrow> bool" where
  "worker_ok env w \<longleftrightarrow> server_ok (we_dns env) (run_Store (wk_Runner w)) (srv_Scheduler (run_Server (wk_Runner w)))
    \<and> (\<exists>a. srv_Rollups (run_Server (wk_Runner w)) = Some a \<and> rollup_ok a)
    \<and> counted_payloads (in_flight (wk_Phase w)) = in_flight (wk_Phase w)"

definition held_queries :: "'p Worker \<Rightarrow> int" where
  "held_queries w = held_amount bkt_count (the (srv_Rollups (run_Server (wk_Runner w)))) + queries_out (in_flight (wk_Phase w))"

fun queries_asked :: "worker_op \<Rightarrow> int" where
  "queries_asked (Query _ request _ _) = (if has_question request then 1 else 0)"
| "queries_asked _ = 0"

lemma recorded_query:
  assumes "rollup_ok a" "queries_in op = 1" "snd (rollup_step op a) = b"
  shows "rollup_ok b \<and> held_amount bkt_count b = held_amount bkt_count a + 1"
proof -
  have "queries_out (fst (rollup_step op a)) = 0" using assms(2) by (cases op) (simp_all add: queries_out_def)
  then show ?thesis
    using query_counts.step_balance[OF assms(1), of op] rollup_step_ok[OF assms(1), of op] assms(2,3) by simp
qed

lemma drained:
  assumes "rollup_ok a"
  shows "rollup_ok (snd (Drain a)) \<and> counted_payloads (fst (Drain a)) = fst (Drain a)
    \<and> held_amount bkt_count (snd (Drain a)) + queries_out (fst (Drain a)) = held_amount bkt_count a"
proof -
  have "0 < bkt_count (snd kb)" if "kb \<in> set (ra_buckets a)" for kb
    using assms that by (auto simp: rollup_ok_def bucket_ok_def)
  then have "counted_payloads (fst (Drain a)) = fst (Drain a)"
    unfolding counted_payloads_def Drain_all[OF assms] by (intro filter_True) (fastforce simp: payload_fields not_le)
  then show ?thesis
    using query_counts.step_balance[OF assms, of Op_Drain] rollup_step_ok[OF assms, of Op_Drain] by simp
qed

lemma restored:
  assumes "rollup_ok a" "counted_payloads ps = ps"
  shows "rollup_ok (Restore now ps a) \<and> held_amount bkt_count (Restore now ps a) = held_amount bkt_count a + queries_out ps"
  using query_counts.step_balance[OF assms(1), of "Op_Restore now ps"] rollup_step_ok[OF assms(1), of "Op_Restore now ps"] assms(2)
  by (simp add: queries_out_def)

section \<open>Every step keeps the invariant\<close>

lemma install_keeps [simp]:
  "srv_Rollups (run_Server (snd (install_snapshot env faults now snapshot r))) = srv_Rollups (run_Server r)"
  "run_Client (snd (install_snapshot env faults now snapshot r)) = run_Client r"
  by (simp_all add: install_snapshot_def Let_def split: prod.split option.split)

lemma pull_keeps [simp]:
  "srv_Rollups (run_Server (snd (pull_finished env faults now version result r))) = srv_Rollups (run_Server r)"
  "run_Client (snd (pull_finished env faults now version result r)) = run_Client r"
  by (simp_all add: pull_finished_def split: sum.split)

lemma install_server_ok:
  fixes faults now snapshot
  assumes "server_ok (we_dns env) (run_Store r) (srv_Scheduler (run_Server r))"
  defines "r' \<equiv> snd (install_snapshot env faults now snapshot r)"
  shows "server_ok (we_dns env) (run_Store r') (srv_Scheduler (run_Server r'))"
proof -
  obtain err store where set: "Store_Set (we_dns env) now (Some snapshot) (run_Store r) = (err, store)" by fastforce
  show ?thesis
  proof (cases err)
    case None
    let ?r = "applyWorkerPolicy (snap_WorkerPolicy snapshot) (update_store (\<lambda>_. store) r)"
    define r2 where "r2 = (case st_snapshot store of None \<Rightarrow> ?r | Some sp \<Rightarrow> update_scheduler (LoadSnapshotStates now (Some (snd sp))) ?r)"
    have store: "run_Store r2 = store" by (simp add: r2_def split: option.split)
    have ok: "server_ok (we_dns env) store (srv_Scheduler (run_Server r2))"
      using server_ok_set[OF assms(1) set[unfolded None]] by (simp add: r2_def server_ok_load split: option.split)
    have "run_Store r' = fst (snd (Store_Save (we_codec env) faults now (Some snapshot) store (run_Files r2)))"
      "srv_Scheduler (run_Server r') = srv_Scheduler (run_Server r2)"
      unfolding r'_def install_snapshot_def set None by (simp_all add: r2_def[symmetric] store Let_def split_def)
    then show ?thesis using server_ok_content[OF ok Store_Save_content] by simp
  qed (use assms(1) in \<open>simp add: r'_def install_snapshot_def set\<close>)
qed

lemma finish_pull_ok:
  fixes http faults now version
  assumes "server_ok (we_dns env) (run_Store r) (srv_Scheduler (run_Server r))"
  defines "r' \<equiv> finish_pull env http faults now version r"
  shows "server_ok (we_dns env) (run_Store r') (srv_Scheduler (run_Server r')) \<and> srv_Rollups (run_Server r') = srv_Rollups (run_Server r)"
proof -
  let ?p = "pull_finished env faults now version (FetchSnapshotSince http (we_mac env) (run_Client r) version) r"
  have "same_content (run_Store r) (ClearLastError (run_Store r))" by (simp add: same_content_def ClearLastError_def)
  then have "server_ok (we_dns env) (run_Store (snd ?p)) (srv_Scheduler (run_Server (snd ?p)))"
    using assms(1) server_ok_content[OF assms(1)] install_server_ok[OF assms(1)]
    by (simp add: pull_finished_def split: sum.split)
  then show ?thesis
    unfolding r'_def finish_pull_def using server_ok_content[OF _ note_error_content] by simp
qed

lemma start_heartbeat_ok:
  fixes now :: gotime
  assumes "server_ok (we_dns env) (run_Store r) (srv_Scheduler (run_Server r))" "srv_Rollups (run_Server r) = Some a"
  defines "hs \<equiv> heartbeat_started env now r"
  shows "server_ok (we_dns env) (run_Store (snd hs)) (srv_Scheduler (run_Server (snd hs)))
    \<and> srv_Rollups (run_Server (snd hs)) = Some (snd (Drain a)) \<and> hb_Rollups (fst hs) = fst (Drain a)"
  using assms(1,2) server_ok_export[OF assms(1)]
  by (simp add: hs_def heartbeat_started_def export_states_def Let_def heartbeat_input_def split_def split: option.split)

lemma finish_heartbeat_ok:
  fixes http now input
  assumes "server_ok (we_dns env) (run_Store r) (srv_Scheduler (run_Server r))"
  defines "r' \<equiv> finish_heartbeat env http now input r"
  shows "server_ok (we_dns env) (run_Store r') (srv_Scheduler (run_Server r'))
    \<and> srv_Rollups (run_Server r') = (if \<exists>response. SendHeartbeat http (run_Client r) input = Inr response
        then srv_Rollups (run_Server r) else map_option (Restore now (hb_Rollups input)) (srv_Rollups (run_Server r)))"
proof -
  let ?h = "heartbeat_finished now input (SendHeartbeat http (run_Client r) input) r"
  have "run_Store (snd ?h) = run_Store r" "srv_Scheduler (run_Server (snd ?h)) = srv_Scheduler (run_Server r)"
    "srv_Rollups (run_Server (snd ?h)) = (if \<exists>response. SendHeartbeat http (run_Client r) input = Inr response
        then srv_Rollups (run_Server r) else map_option (Restore now (hb_Rollups input)) (srv_Rollups (run_Server r)))"
    by (auto simp: heartbeat_finished_def Let_def split: sum.split)
  then show ?thesis
    unfolding r'_def finish_heartbeat_def using server_ok_content[of "we_dns env", OF _ note_error_content[of ?h env]] assms(1) by simp
qed

lemma run_job_keeps [simp]:
  "run_Server (run_job env environ faults now settings r) = run_Server r"
  "run_Client (run_job env environ faults now settings r) = run_Client r"
  by (simp_all add: run_job_def split: prod.split)

lemma query_ok:
  fixes clk :: clock and request remoteAddr udp
  assumes "server_ok (we_dns env) (run_Store r) (srv_Scheduler (run_Server r))" "srv_Rollups (run_Server r) = Some a" "rollup_ok a"
  defines "r' \<equiv> serve_query env clk request remoteAddr udp r"
  shows "server_ok (we_dns env) (run_Store r') (srv_Scheduler (run_Server r'))
    \<and> (\<exists>b. srv_Rollups (run_Server r') = Some b \<and> rollup_ok b
        \<and> held_amount bkt_count b = held_amount bkt_count a + (if has_question request then 1 else 0))"
proof -
  have s: "run_Server r' = snd (Resolve (we_dns env) (we_hash env) clk request remoteAddr (run_Server r))"
    by (simp add: r'_def serve_query_server)
  show ?thesis
  proof (cases "has_question request")
    case True
    then obtain op where op: "queries_in op = 1" "srv_Rollups (run_Server r') = Some (snd (rollup_step op a))"
      using Resolve_records[of request "we_dns env" "we_hash env" clk remoteAddr "run_Server r"] assms(2) unfolding s by auto
    from recorded_query[OF assms(3) op(1) refl] True op(2) server_ok_query[OF assms(1)] show ?thesis by (simp add: s)
  next
    case False
    then show ?thesis using assms(1-3) by (simp add: s Resolve_ignores)
  qed
qed

interpretation worker: conserving "worker_step env" "worker_ok env" held_queries queries_asked queries_out for env
proof
  fix w op
  assume "worker_ok env w"
  then obtain a where ok: "server_ok (we_dns env) (run_Store (wk_Runner w)) (srv_Scheduler (run_Server (wk_Runner w)))"
    and a: "srv_Rollups (run_Server (wk_Runner w)) = Some a" "rollup_ok a"
    and flight: "counted_payloads (in_flight (wk_Phase w)) = in_flight (wk_Phase w)" by (auto simp: worker_ok_def)
  have "worker_ok env (snd (worker_step env op w)) \<and> held_queries (snd (worker_step env op w)) + queries_out (fst (worker_step env op w))
      = held_queries w + queries_asked op"
  proof (cases op)
    case (Query clk request remoteAddr udp)
    then show ?thesis using query_ok[OF ok a, of clk request remoteAddr udp] flight a
      by (auto simp: worker_ok_def held_queries_def queries_out_def)
  next
    case Start_Pull
    then show ?thesis using ok a flight by (auto simp: worker_ok_def held_queries_def queries_out_def counted_payloads_def)
  next
    case (Finish_Pull http faults now)
    then show ?thesis using ok a flight finish_pull_ok[OF ok, of http faults now]
      by (auto simp: worker_ok_def held_queries_def queries_out_def counted_payloads_def split: phase.split)
  next
    case (Start_Heartbeat now)
    then show ?thesis using ok a flight start_heartbeat_ok[OF ok a(1), of now] drained[OF a(2)]
      by (auto simp: worker_ok_def held_queries_def queries_out_def split_def)
  next
    case (Finish_Heartbeat http now)
    show ?thesis
    proof (cases "wk_Phase w")
      case (Reporting input)
      then show ?thesis using Finish_Heartbeat a flight finish_heartbeat_ok[OF ok, of http now input] restored[OF a(2), of "hb_Rollups input" now]
        by (auto simp: worker_ok_def held_queries_def queries_out_def counted_payloads_def)
    qed (use Finish_Heartbeat ok a flight in \<open>simp_all add: worker_ok_def queries_out_def\<close>)
  next
    case (Update_Job environ faults now settings)
    then show ?thesis using ok a flight by (auto simp: worker_ok_def held_queries_def queries_out_def)
  next
    case (Uninstall_Job os environ)
    then show ?thesis using ok a flight by (auto simp: worker_ok_def held_queries_def queries_out_def)
  qed
  then show "worker_ok env (snd (worker_step env op w))"
    and "held_queries (snd (worker_step env op w)) + queries_out (fst (worker_step env op w)) = held_queries w + queries_asked op" by simp_all
qed

section \<open>The first state\<close>

lemma cached_routes_new: "cached_routes NewScheduler = {}"
  by (simp add: cached_routes_def NewScheduler_def)

lemma new_store_ok: "server_ok dns (NewSnapshotStore path maxAge) NewScheduler"
  unfolding server_ok_def
  by (intro exI[of _ "\<lambda>_. undefined"]) (simp add: NewScheduler_inv NewSnapshotStore_def cached_routes_new)

lemma load_snapshot_server_ok: "server_ok dns s sched \<Longrightarrow> server_ok dns (snd (load_snapshot dns now snap s)) sched"
proof -
  assume ok: "server_ok dns s sched"
  obtain err s' where set: "Store_Set dns now (Some snap) s = (err, s')" by fastforce
  have "server_ok dns s' sched"
  proof (cases err)
    case None
    then show ?thesis using server_ok_set[OF ok] set by simp
  next
    case (Some e)
    then show ?thesis using set ok by (auto simp: Store_Set_def Let_def split: if_splits)
  qed
  moreover have "same_content s' (snd (load_snapshot dns now snap s))"
    by (simp add: load_snapshot_def set same_content_def record_error_def setLastError_def split: option.split)
  ultimately show ?thesis by (rule server_ok_content)
qed

lemma LoadFromDisk_server_ok: "server_ok dns s sched \<Longrightarrow> server_ok dns (snd (LoadFromDisk cd dns now read_error fs s)) sched"
proof -
  assume ok: "server_ok dns s sched"
  moreover have "same_content s (setLastError e s)" for e by (simp add: same_content_def setLastError_def)
  ultimately have "server_ok dns (setLastError e s) sched" for e by (rule server_ok_content)
  with ok show ?thesis by (simp add: LoadFromDisk_def load_snapshot_server_ok split: option.split sum.split)
qed

lemma new_worker_ok: "worker_ok env (new_worker env now read_error fs cfg)"
  by (simp add: worker_ok_def new_worker_def NewRunner_def Let_def NewDNSServerWithProtection_def NewRollupAggregator_ok
      counted_payloads_def server_ok_load LoadFromDisk_server_ok[OF new_store_ok] split: option.split)

lemma new_worker_held: "held_queries (new_worker env now read_error fs cfg) = 0"
  by (simp add: held_queries_def new_worker_def NewRunner_def Let_def NewDNSServerWithProtection_def held_new queries_out_def)

section \<open>Properties\<close>

text \<open>C2: Every query is counted once: in a worker that started at any time with any configuration and cache file, after any
  sequence of queries, pulls, heartbeats and update jobs, the queries in the statistics, those in a heartbeat that waits for its answer and
  those in the heartbeats the server has accepted add up to the queries with a question that were asked. Failed heartbeats lose none.\<close>

theorem queries_counted_once:
  fixes env now read_error fs cfg
  defines "w \<equiv> new_worker env now read_error fs cfg"
  shows "held_queries (final (worker_step env) w ops) + sum_list (map queries_out (outputs (worker_step env) w ops))
    = sum_list (map queries_asked ops)"
  using worker.balance[OF new_worker_ok] by (simp add: w_def new_worker_held)

text \<open>C1: Routed answers are the scheduler's choice, in every state of the worker: for an A query whose name lies in a zone of the current
  snapshot and matches a route of it, the answer is empty with code REFUSED or SERVFAIL, or the snapshot is fresh and the answer consists
  of exactly one A record, with the owner and the TTL, for each of a non-empty list of distinct IPv4 addresses that the scheduler
  selected.\<close>

theorem worker_answers_selected:
  fixes env :: "'p worker_env" and now read_error fs cfg ops clk remoteAddr m
  defines "s \<equiv> run_Server (wk_Runner (final (worker_step env) (new_worker env now read_error fs cfg) ops))"
  defines "index \<equiv> st_index (srv_Store s)" and "response \<equiv> fst (Resolve (we_dns env) (we_hash env) clk (Some m) remoteAddr s)"
  assumes "reply_ok (we_dns env)" "TypeToString (we_dns env) TypeA = ''A''" "msg_Question m = question # rest" "q_Qtype question = TypeA"
    and "st_snapshot (srv_Store s) = Some sp" "findBestZone (normalizeDomain (q_Name question)) (ix_zonesByName index) = Some zone"
    and "matchRoute ''A'' (routesForQName index (normalizeDomain (q_Name question))) = Some rp"
  defines "sel \<equiv> fst (SelectWithIndex (we_hash env) (clk_select clk) (Some sp) index (Some rp) ''A''
    (resolve_source s m remoteAddr (zero_SourceContext\<lparr>src_ScopeKey := ''global''\<rparr>)) (IsFresh (srv_Store s) (clk_fresh clk)) (srv_Scheduler s))"
  shows "rp \<in> set (route_ptrs sp) \<and> (msg_Answer response = [] \<and> msg_Rcode response \<in> {RcodeRefused, RcodeServerFailure}
    \<or> IsFresh (srv_Store s) (clk_fresh clk) \<and> (\<exists>ts. sel_result sel = Inr ts \<and> ts \<noteq> [] \<and> family_targets ''A'' ts
        \<and> answers_with response (normalizeDomain (q_Name question)) (normalizeAuthoritativeTTL (sel_ttl sel)) ts))"
proof -
  have "worker_ok env (final (worker_step env) (new_worker env now read_error fs cfg) ops)"
    by (rule worker.final_inv[OF new_worker_ok])
  then have "server_ok (we_dns env) (srv_Store s) (srv_Scheduler s)" by (simp add: worker_ok_def s_def)
  then obtain mem where mem: "sched_inv mem (srv_Scheduler s)" "index = buildSnapshotIndex (we_dns env) (Some sp)"
    "\<forall>rp \<in> set (route_ptrs sp). snd rp = mem (fst rp)"
    using assms(8) unfolding server_ok_def index_def by blast
  have "rp \<in> set (routesForQName index (normalizeDomain (q_Name question)))"
    using assms(10) by (auto simp: matchRoute_def find_Some_iff)
  then have rp: "rp \<in> set (route_ptrs sp)" using routes_in_snapshot unfolding mem(2) by blast
  have "normalizeAddressRecordType ''A'' = ''A''" by code_simp
  then have "family_targets ''A'' ts" if "sel_result sel = Inr ts" for ts
    using SelectWithIndex_inv[OF mem(1), of rp "we_hash env" "clk_select clk" "Some sp" index "''A''"] mem(3) rp that by (auto simp: sel_def)
  with rp routed_response[OF assms(4-8) assms(9,10)[unfolded index_def] mem(1) mem(3)[rule_format, OF rp], of "we_hash env" clk remoteAddr]
  show ?thesis unfolding response_def sel_def index_def by blast
qed

section \<open>Where the snapshot comes from\<close>

lemma install_snapshot_store:
  fixes env faults now snapshot r
  defines "r' \<equiv> snd (install_snapshot env faults now snapshot r)"
  shows "TrimSpace (snap_SnapshotVersion snapshot) = [] \<Longrightarrow> r' = r"
    and "TrimSpace (snap_SnapshotVersion snapshot) \<noteq> [] \<Longrightarrow>
      st_snapshot (run_Store r') = Some (st_next (run_Store r), normalizeSnapshotRuntimeTimes (normalizeSnapshot snapshot) now)"
proof -
  show "TrimSpace (snap_SnapshotVersion snapshot) = [] \<Longrightarrow> r' = r" by (simp add: r'_def install_snapshot_def Store_Set_def)
  assume v: "TrimSpace (snap_SnapshotVersion snapshot) \<noteq> []"
  define store where "store = snd (Store_Set (we_dns env) now (Some snapshot) (run_Store r))"
  have s: "Store_Set (we_dns env) now (Some snapshot) (run_Store r) = (None, store)"
    "st_snapshot store = Some (st_next (run_Store r), normalizeSnapshotRuntimeTimes (normalizeSnapshot snapshot) now)"
    using v by (simp_all add: Store_Set_def store_def Let_def)
  have "st_snapshot (fst (snd (Store_Save cd faults now sn store fs))) = st_snapshot store" for cd sn fs
    using Store_Save_content[of store cd faults now sn fs] by (simp add: same_content_def)
  then show "st_snapshot (run_Store r') = Some (st_next (run_Store r), normalizeSnapshotRuntimeTimes (normalizeSnapshot snapshot) now)"
    by (simp add: r'_def install_snapshot_def s Let_def split_def)
qed

definition installed :: "mac_env \<Rightarrow> string \<Rightarrow> Snapshot \<Rightarrow> bool" where
  "installed mac token snap \<longleftrightarrow>
    (\<exists>e t. VerifySignedSnapshot mac (Some e) token = None \<and> snap = normalizeSnapshotRuntimeTimes (normalizeSnapshot (sgn_Snapshot e)) t)"

definition authentic_from :: "'p worker_env \<Rightarrow> APIClient \<Rightarrow> snapshot_ptr option \<Rightarrow> 'p Worker \<Rightarrow> bool" where
  "authentic_from env c sn w \<longleftrightarrow> run_Client (wk_Runner w) = c
    \<and> (st_snapshot (run_Store (wk_Runner w)) = sn
      \<or> (\<exists>sp. st_snapshot (run_Store (wk_Runner w)) = Some sp \<and> installed (we_mac env) (cl_token c) (snd sp)))"

lemma finish_pull_snapshot:
  fixes env http faults now version r
  defines "r' \<equiv> finish_pull env http faults now version r"
  shows "run_Client r' = run_Client r \<and> (st_snapshot (run_Store r') = st_snapshot (run_Store r)
    \<or> (\<exists>sp. st_snapshot (run_Store r') = Some sp \<and> installed (we_mac env) (cl_token (run_Client r)) (snd sp)))"
proof -
  let ?f = "FetchSnapshotSince http (we_mac env) (run_Client r) version"
  let ?p = "pull_finished env faults now version ?f r"
  have "st_snapshot (run_Store (snd ?p)) = st_snapshot (run_Store r)
      \<or> (\<exists>sp. st_snapshot (run_Store (snd ?p)) = Some sp \<and> installed (we_mac env) (cl_token (run_Client r)) (snd sp))"
  proof (cases ?f)
    case (Inl e)
    then show ?thesis by (simp add: pull_finished_def ClearLastError_def)
  next
    case (Inr snap)
    obtain response :: "SignedSnapshot apiResponse" where e: "sgn_Snapshot (ar_Data response) = snap"
      "VerifySignedSnapshot (we_mac env) (Some (ar_Data response)) (cl_token (run_Client r)) = None"
      using FetchSnapshotSince_result[OF Inr] by blast
    then have "installed (we_mac env) (cl_token (run_Client r)) (normalizeSnapshotRuntimeTimes (normalizeSnapshot snap) now)"
      by (auto simp: installed_def)
    then show ?thesis
      using install_snapshot_store[of snap env faults now r] Inr
      by (cases "TrimSpace (snap_SnapshotVersion snap) = []") (simp_all add: pull_finished_def ClearLastError_def)
  qed
  moreover have "st_snapshot (run_Store r') = st_snapshot (run_Store (snd ?p))" "run_Client r' = run_Client r"
    using note_error_content[of ?p env] by (simp_all add: r'_def finish_pull_def same_content_def)
  ultimately show ?thesis by simp
qed

lemma heartbeat_keeps_snapshot [simp]:
  "st_snapshot (run_Store (finish_heartbeat env http now input r)) = st_snapshot (run_Store r)"
  "run_Client (finish_heartbeat env http now input r) = run_Client r"
  "st_snapshot (run_Store (snd (heartbeat_started env now r))) = st_snapshot (run_Store r)"
  "run_Client (snd (heartbeat_started env now r)) = run_Client r"
proof -
  let ?h = "heartbeat_finished now input (SendHeartbeat http (run_Client r) input) r"
  have "run_Store (snd ?h) = run_Store r" "run_Client (snd ?h) = run_Client r"
    by (simp_all add: heartbeat_finished_def Let_def split: sum.split)
  then show "st_snapshot (run_Store (finish_heartbeat env http now input r)) = st_snapshot (run_Store r)"
    "run_Client (finish_heartbeat env http now input r) = run_Client r"
    using note_error_content[of ?h env] by (simp_all add: finish_heartbeat_def same_content_def)
  show "st_snapshot (run_Store (snd (heartbeat_started env now r))) = st_snapshot (run_Store r)"
    "run_Client (snd (heartbeat_started env now r)) = run_Client r"
    by (simp_all add: heartbeat_started_def export_states_def Let_def split_def split: option.split)
qed

lemma query_keeps_snapshot [simp]:
  "run_Store (serve_query env clk request remoteAddr udp r) = run_Store r"
  "run_Client (serve_query env clk request remoteAddr udp r) = run_Client r"
  by (simp_all add: serve_query_server) (simp add: serve_query_def)

interpretation provenance: preserving "worker_step env" "authentic_from env c sn" for env c sn
proof
  fix w op
  assume ok: "authentic_from env c sn w"
  show "authentic_from env c sn (snd (worker_step env op w))"
  proof (cases op)
    case (Finish_Pull http faults now)
    show ?thesis
    proof (cases "wk_Phase w")
      case (Pulling version)
      then show ?thesis
        using ok Finish_Pull finish_pull_snapshot[of env http faults now version "wk_Runner w"] by (auto simp: authentic_from_def)
    qed (use ok Finish_Pull in simp_all)
  qed (use ok in \<open>simp_all add: authentic_from_def split_def split: phase.split\<close>)
qed

text \<open>C3: The worker answers only from authentic snapshots: in every state of a worker, the current snapshot is the one it loaded from its
  cache file when it started, or the normalised content of an envelope whose signature was verified with the
  configured token; whatever the server or the network send.\<close>

theorem worker_snapshot_authentic:
  fixes env now read_error fs cfg
  defines "w \<equiv> new_worker env now read_error fs cfg"
  defines "store \<equiv> (\<lambda>w. run_Store (wk_Runner w))"
  shows "st_snapshot (store (final (worker_step env) w ops)) = st_snapshot (store w)
    \<or> (\<exists>sp. st_snapshot (store (final (worker_step env) w ops)) = Some sp
        \<and> installed (we_mac env) (TrimSpace (cfg_Token cfg)) (snd sp))"
proof -
  have "authentic_from env (run_Client (wk_Runner w)) (st_snapshot (store w)) w" by (simp add: authentic_from_def store_def)
  from provenance.final_inv[OF this, of ops] show ?thesis
    by (auto simp: authentic_from_def store_def w_def new_worker_def NewRunner_def NewAPIClient_def Let_def)
qed

section \<open>Settings\<close>

text \<open>The settings of a runner are well-formed: the UDP size is one that DNS allows, both limiters exist with a limit that is not
  negative, the prefixes of client subnets are in range, and the server resolves sources with the resolver of the
  runner.\<close>

definition settings_ok :: "'p Runner \<Rightarrow> bool" where
  "settings_ok r \<longleftrightarrow> 512 \<le> srv_UDPSize (run_Server r) \<and> srv_UDPSize (run_Server r) \<le> 65535
    \<and> (\<exists>l. srv_Limiter (run_Server r) = Some l \<and> 0 \<le> ql_limit l) \<and> (\<exists>l. srv_RRLimiter (run_Server r) = Some l \<and> 0 \<le> rl_limit l)
    \<and> 0 \<le> sr_ecsIPv4Prefix (run_Resolver r) \<and> sr_ecsIPv4Prefix (run_Resolver r) \<le> 32
    \<and> 0 \<le> sr_ecsIPv6Prefix (run_Resolver r) \<and> sr_ecsIPv6Prefix (run_Resolver r) \<le> 128
    \<and> srv_Resolver (run_Server r) = Some (SourceResolver_Resolve (Some (run_Resolver r)))"

lemma clamp_range: "512 \<le> clampUDPResponseSize n \<and> clampUDPResponseSize n \<le> 65535"
  by (simp add: clampUDPResponseSize_def Let_def MinMsgSize_def MaxMsgSize_def)

lemma ecs_range:
  "0 \<le> sr_ecsIPv4Prefix (ApplyECSPolicy e a b r) \<and> sr_ecsIPv4Prefix (ApplyECSPolicy e a b r) \<le> 32
    \<and> 0 \<le> sr_ecsIPv6Prefix (ApplyECSPolicy e a b r) \<and> sr_ecsIPv6Prefix (ApplyECSPolicy e a b r) \<le> 128"
  by (simp add: ApplyECSPolicy_def normalizePrefix_def DefaultECSIPv4Prefix_def DefaultECSIPv6Prefix_def)

lemma limits_nonneg [simp]:
  "0 \<le> ql_limit (NewQueryRateLimiter n)" "0 \<le> rl_limit (NewResponseRateLimiter n)"
  "0 \<le> ql_limit (QueryRateLimiter_SetLimit n l)" "0 \<le> rl_limit (ResponseRateLimiter_SetLimit n l')"
  by (simp_all add: NewQueryRateLimiter_def NewResponseRateLimiter_def QueryRateLimiter_SetLimit_def ResponseRateLimiter_SetLimit_def Let_def)

lemma applyWorkerPolicy_settings: "settings_ok (applyWorkerPolicy p r)"
  using clamp_range ecs_range
  by (auto simp: settings_ok_def applyWorkerPolicy_def with_resolver_def DNSServer_ApplyWorkerPolicy_def Let_def split: option.split)

text \<open>What settings depend on.\<close>

definition same_settings :: "'p Runner \<Rightarrow> 'p Runner \<Rightarrow> bool" where
  "same_settings r r' \<longleftrightarrow> srv_UDPSize (run_Server r') = srv_UDPSize (run_Server r) \<and> srv_Resolver (run_Server r') = srv_Resolver (run_Server r)
    \<and> run_Resolver r' = run_Resolver r \<and> map_option ql_limit (srv_Limiter (run_Server r')) = map_option ql_limit (srv_Limiter (run_Server r))
    \<and> map_option rl_limit (srv_RRLimiter (run_Server r')) = map_option rl_limit (srv_RRLimiter (run_Server r))"

lemma settings_cong: "settings_ok r \<Longrightarrow> same_settings r r' \<Longrightarrow> settings_ok r'"
  by (auto simp: settings_ok_def same_settings_def map_option_eq_Some)

lemma same_settings_updates [simp]:
  "same_settings r (update_store f r)" "same_settings r (update_scheduler g r)" "same_settings r r"
  by (simp_all add: same_settings_def update_store_def update_scheduler_def)

lemma settings_updates [simp]:
  "settings_ok r \<Longrightarrow> settings_ok (update_store f r)" "settings_ok r \<Longrightarrow> settings_ok (update_scheduler g r)"
  "settings_ok r \<Longrightarrow> settings_ok (r\<lparr>run_Files := fs\<rparr>)" "settings_ok r \<Longrightarrow> settings_ok (r\<lparr>run_Jobs := jobs\<rparr>)"
  "settings_ok r \<Longrightarrow> settings_ok (r\<lparr>run_Server := (run_Server r)\<lparr>srv_Rollups := ra\<rparr>\<rparr>)"
  by (simp_all add: settings_ok_def update_store_def update_scheduler_def)

lemma settings_note_error [simp]: "settings_ok (snd er) \<Longrightarrow> settings_ok (note_error env er)"
  by (cases er) (simp add: note_error_def split: option.split)

lemma limits_kept:
  "map_option ql_limit (srv_Limiter (snd (limit_query clk remoteAddr s))) = map_option ql_limit (srv_Limiter s)"
  "srv_RRLimiter (snd (limit_query clk remoteAddr s)) = srv_RRLimiter s"
  "srv_Resolver (snd (limit_query clk remoteAddr s)) = srv_Resolver s"
  "map_option rl_limit (srv_RRLimiter (snd (finish_query clk remoteAddr qname qtype oc s))) = map_option rl_limit (srv_RRLimiter s)"
  "srv_Limiter (snd (finish_query clk remoteAddr qname qtype oc s)) = srv_Limiter s"
  "srv_Resolver (snd (finish_query clk remoteAddr qname qtype oc s)) = srv_Resolver s"
  by (auto simp: limit_query_def finish_query_def limit_response_def QueryRateLimiter_Allow_eq ResponseRateLimiter_Allow_eq Let_def
      split: option.split prod.split if_split)

lemma serve_query_settings: "same_settings r (serve_query env clk request remoteAddr udp r)"
proof (cases "has_question request")
  case True
  then obtain m question rest where q: "request = Some m" "msg_Question m = question # rest"
    by (auto simp: has_question_def neq_Nil_conv split: option.splits)
  show ?thesis
    unfolding same_settings_def serve_query_server q(1) Resolve_question[OF q(2)] by (simp add: limits_kept) (simp add: serve_query_def)
next
  case False
  then have "run_Server (serve_query env clk request remoteAddr udp r) = run_Server r" by (simp add: serve_query_server Resolve_ignores)
  then show ?thesis by (simp add: same_settings_def) (simp add: serve_query_def)
qed

lemma install_settings: "settings_ok r \<Longrightarrow> settings_ok (snd (install_snapshot env faults now snapshot r))"
  by (simp add: install_snapshot_def Let_def applyWorkerPolicy_settings split: prod.split option.split)

interpretation settings: preserving "worker_step env" "\<lambda>w. settings_ok (wk_Runner w)" for env :: "'a worker_env"
proof
  fix w :: "'a Worker" and op
  assume ok: "settings_ok (wk_Runner w)"
  show "settings_ok (wk_Runner (snd (worker_step env op w)))"
  proof (cases op)
    case (Query clk request remoteAddr udp)
    then show ?thesis using settings_cong[OF ok serve_query_settings] by simp
  next
    case (Finish_Pull http faults now)
    then show ?thesis using ok
      by (simp add: finish_pull_def pull_finished_def applyCurrentSnapshotPolicy_def applyWorkerPolicy_settings install_settings
          split: phase.split sum.split option.split)
  next
    case (Start_Heartbeat now)
    then show ?thesis using ok
      by (simp add: heartbeat_started_def export_states_def Let_def split_def split: option.split)
  next
    case (Finish_Heartbeat http now)
    then show ?thesis using ok
      by (simp add: finish_heartbeat_def heartbeat_finished_def Let_def applyWorkerPolicy_settings split: phase.split sum.split)
  next
    case (Update_Job environ faults now settings)
    then show ?thesis using ok by (simp add: run_job_def settings_ok_def split: prod.split)
  qed (use ok in simp_all)
qed

lemma new_worker_settings: "settings_ok (wk_Runner (new_worker env now read_error fs cfg))"
  using ecs_range
  by (simp add: settings_ok_def new_worker_def NewRunner_def NewDNSServerWithProtection_def Let_def WithECS_def MinMsgSize_def MaxMsgSize_def)

text \<open>C36: The worker is well-formed in every state: whatever its configuration and whatever policies snapshots and heartbeats carry, the UDP
  size stays between 512 and 65535, the limits of both limiters are not negative, the prefixes of client subnets are at most 32 and
  128, and the server resolves sources with the policy that was applied last.\<close>

theorem worker_settings_valid:
  fixes env now read_error fs cfg ops
  defines "r \<equiv> wk_Runner (final (worker_step env) (new_worker env now read_error fs cfg) ops)"
  shows "512 \<le> srv_UDPSize (run_Server r) \<and> srv_UDPSize (run_Server r) \<le> 65535
    \<and> (\<exists>l. srv_Limiter (run_Server r) = Some l \<and> 0 \<le> ql_limit l) \<and> (\<exists>l. srv_RRLimiter (run_Server r) = Some l \<and> 0 \<le> rl_limit l)
    \<and> sr_ecsIPv4Prefix (run_Resolver r) \<in> {0..32} \<and> sr_ecsIPv6Prefix (run_Resolver r) \<in> {0..128}
    \<and> srv_Resolver (run_Server r) = Some (SourceResolver_Resolve (Some (run_Resolver r)))"
proof -
  have "settings_ok r" unfolding r_def by (rule settings.final_inv[OF new_worker_settings])
  then show ?thesis by (simp add: settings_ok_def)
qed

section \<open>An unchanged snapshot goes stale\<close>

text \<open>A pull that finds the version unchanged succeeds without touching the snapshot, whose age is counted from the time it was
  generated: the snapshot gets stale although every pull succeeds.\<close>

lemma unchanged_snapshot_goes_stale:
  assumes "result = Inl Snapshot_Not_Modified
    \<or> (\<exists>s. result = Inr s \<and> TrimSpace (snap_SnapshotVersion s) = Version (run_Store r) \<and> Version (run_Store r) \<noteq> [])"
  shows "fst (pull_finished env faults now (Version (run_Store r)) result r) = None
    \<and> IsFresh (run_Store (snd (pull_finished env faults now (Version (run_Store r)) result r))) t = IsFresh (run_Store r) t"
proof -
  have "fst (pull_finished env faults now (Version (run_Store r)) result r) = None
      \<and> run_Store (snd (pull_finished env faults now (Version (run_Store r)) result r)) = ClearLastError (run_Store r)"
    using assms by (elim disjE exE conjE) (simp_all add: pull_finished_def)
  then show ?thesis by (simp add: IsFresh_def ClearLastError_def split: option.split)
qed

section \<open>A worker with a snapshot\<close>

definition example_worker_env :: "unit worker_env" where
  "example_worker_env = \<lparr>we_dns = plain_env, we_hash = \<lparr>he_Sum256 = (\<lambda>_. replicate 32 0), he_Log = (\<lambda>x. x)\<rparr>, we_mac = plain_mac,
    we_codec = \<lparr>marshal_snapshot = (\<lambda>_. ''''), marshal_envelope = (\<lambda>_. ''''), unmarshal_envelope = (\<lambda>_. None),
      unmarshal_snapshot = (\<lambda>_. None), hex_sha256 = (\<lambda>x. x)\<rparr>,
    we_results = \<lparr>marshal_result = (\<lambda>_. None), unmarshal_result = (\<lambda>_. None)\<rparr>, we_scripts = example_scripts,
    we_open_db = (\<lambda>_. Inl ''not found''), we_paths = (\<lambda>_. Path_Missing), we_error_text = (\<lambda>_. ''error'')\<rparr>"

definition routed_signed :: SignedSnapshot where
  "routed_signed = \<lparr>sgn_SignatureVersion = SnapshotSignatureVersion,
    sgn_Signature = projr (computeSnapshotSignature plain_mac (Some routed_snapshot) ''secret''),
    sgn_Snapshot = routed_snapshot\<rparr>"

definition routed_http :: http_env where
  "routed_http = example_http\<lparr>Do := (\<lambda>_. Response 200 ''200 OK'' ''''),
    unmarshal_signed := (\<lambda>_. Inr \<lparr>ar_Success = True, ar_Message = '''', ar_Data = routed_signed\<rparr>)\<rparr>"

definition routed_worker :: "unit Worker" where
  "routed_worker = final (worker_step example_worker_env) (new_worker example_worker_env 0 None [] example_config)
    [Start_Pull, Finish_Pull routed_http no_faults (10 ^ 18)]"

lemma routed_signed_verifies: "VerifySignedSnapshot plain_mac (Some routed_signed) ''secret'' = None"
proof -
  have "TrimSpace ''secret'' \<noteq> []" "TrimSpace (snap_SnapshotVersion routed_snapshot) \<noteq> []" by code_simp+
  from self_signed_verifies[OF plain_mac_ok plain_mac_signs[OF this]] show ?thesis by (simp add: routed_signed_def)
qed

lemma routed_fetch: "cl_token c = ''secret'' \<Longrightarrow> FetchSnapshotSince routed_http plain_mac c version = Inr routed_snapshot"
  using routed_signed_verifies
  by (simp add: FetchSnapshotSince_def doJSONWithHeaders_def routed_http_def example_http_def) (simp add: routed_signed_def)

lemma routed_worker_snapshot:
  "st_snapshot (run_Store (wk_Runner routed_worker)) = Some (0, normalizeSnapshotRuntimeTimes (normalizeSnapshot routed_snapshot) (10 ^ 18))"
proof -
  let ?w = "new_worker example_worker_env 0 None [] example_config"
  have store: "st_snapshot (run_Store (wk_Runner ?w)) = None" "st_next (run_Store (wk_Runner ?w)) = 0"
    by (simp_all add: new_worker_def NewRunner_def NewDNSServerWithProtection_def Let_def LoadFromDisk_def NewSnapshotStore_def)
  have "TrimSpace (cfg_Token example_config) = ''secret''" unfolding example_config_fields by code_simp
  then have c: "cl_token (run_Client (wk_Runner ?w)) = ''secret''" "wk_Phase ?w = Idle"
    by (simp_all add: new_worker_def NewRunner_def Let_def NewAPIClient_def)
  have v: "Version (run_Store (wk_Runner ?w)) = []" by (simp add: Version_def store(1))
  have "we_mac example_worker_env = plain_mac" by (simp add: example_worker_env_def)
  then have f: "FetchSnapshotSince routed_http (we_mac example_worker_env) (run_Client (wk_Runner ?w)) [] = Inr routed_snapshot"
    using routed_fetch[OF c(1)] by simp
  have t: "TrimSpace (snap_SnapshotVersion routed_snapshot) \<noteq> []" by code_simp
  let ?p = "install_snapshot example_worker_env no_faults (10 ^ 18) routed_snapshot (wk_Runner ?w)"
  have "st_snapshot (run_Store (snd ?p)) = Some (0, normalizeSnapshotRuntimeTimes (normalizeSnapshot routed_snapshot) (10 ^ 18))"
    using install_snapshot_store(2)[OF t, of example_worker_env no_faults "10 ^ 18" "wk_Runner ?w"] store(2) by simp
  moreover have "wk_Runner routed_worker = note_error example_worker_env ?p"
    by (simp add: routed_worker_def c(2) v finish_pull_def f pull_finished_def)
  ultimately show ?thesis using note_error_content[of ?p example_worker_env] by (simp add: same_content_def)
qed

lemma routed_worker_index:
  "st_index (run_Store (wk_Runner routed_worker)) =
    buildSnapshotIndex plain_env (Some (0, normalizeSnapshotRuntimeTimes (normalizeSnapshot routed_snapshot) (10 ^ 18)))"
proof -
  have "worker_ok example_worker_env routed_worker" unfolding routed_worker_def by (rule worker.final_inv[OF new_worker_ok])
  moreover have "we_dns example_worker_env = plain_env" by (simp add: example_worker_env_def)
  ultimately show ?thesis using routed_worker_snapshot by (auto simp: worker_ok_def server_ok_def)
qed

theorem worker_answers_selected_witness:
  "\<forall>clk. let response = fst (Resolve plain_env (we_hash example_worker_env) clk (Some www_query) None (run_Server (wk_Runner routed_worker)))
     in msg_Answer response = [] \<and> msg_Rcode response \<in> {RcodeRefused, RcodeServerFailure} \<or> (\<exists>ts ttl. ts \<noteq> [] \<and> answers_with response ''www.b.c'' ttl ts)"
proof
  fix clk :: clock
  let ?sp = "(0, normalizeSnapshotRuntimeTimes (normalizeSnapshot routed_snapshot) (10 ^ 18))"
  let ?ix = "buildSnapshotIndex plain_env (Some ?sp)"
  have name: "normalizeDomain ''www.b.c.'' = ''www.b.c''" by code_simp
  have "findBestZone (normalizeDomain ''www.b.c.'') (ix_zonesByName ?ix) \<noteq> None"
    "matchRoute ''A'' (routesForQName ?ix (normalizeDomain ''www.b.c.'')) \<noteq> None" by code_simp+
  then obtain zone rp where z: "findBestZone (normalizeDomain ''www.b.c.'') (ix_zonesByName ?ix) = Some zone"
    "matchRoute ''A'' (routesForQName ?ix (normalizeDomain ''www.b.c.'')) = Some rp" by blast
  have q: "msg_Question www_query = \<lparr>q_Name = ''www.b.c.'', q_Qtype = TypeA\<rparr> # []" by (simp add: www_query_def)
  have dns: "we_dns example_worker_env = plain_env" by (simp add: example_worker_env_def)
  have ty: "TypeToString (we_dns example_worker_env) TypeA = ''A''" by (simp add: dns plain_env_def)
  note sel = worker_answers_selected[where env = example_worker_env and now = 0 and read_error = None and fs = "[]" and cfg = example_config
      and ops = "[Start_Pull, Finish_Pull routed_http no_faults (10 ^ 18)]" and m = www_query and clk = clk and remoteAddr = None
      and sp = ?sp and zone = zone and rp = rp, OF plain_env_reply[folded dns] ty q, folded routed_worker_def, unfolded routed_worker_index
      routed_worker_snapshot, simplified, OF z[simplified]]
  show "let response = fst (Resolve plain_env (we_hash example_worker_env) clk (Some www_query) None (run_Server (wk_Runner routed_worker)))
     in msg_Answer response = [] \<and> msg_Rcode response \<in> {RcodeRefused, RcodeServerFailure} \<or> (\<exists>ts ttl. ts \<noteq> [] \<and> answers_with response ''www.b.c'' ttl ts)"
    using sel by (auto simp: Let_def dns name)
qed

end
