(* ===== verification/Go_Action.thy ===== *)
theory Go_Action
  imports Go_Prelude
begin

text \<open>
  Go code that changes a state and may fail at any call: actions, their sequencing, and the lemmas that take a
  finished run apart. The agent's file operations and the control plane's database operations are written with them.
\<close>

text \<open>An action on a state returns an error or a value; \<open>andThen\<close> goes on after success, \<open>orElse\<close> after an
  error, and \<open>ignoring\<close> drops the result.\<close>

type_synonym ('s, 'e, 'a) action = "'s \<Rightarrow> ('e + 'a) \<times> 's"

definition andThen :: "('s, 'e, 'a) action \<Rightarrow> ('a \<Rightarrow> ('s, 'e, 'b) action) \<Rightarrow> ('s, 'e, 'b) action" where
  "andThen m f s = (case m s of (Inl e, s) \<Rightarrow> (Inl e, s) | (Inr x, s) \<Rightarrow> f x s)"

definition orElse :: "('s, 'e, 'a) action \<Rightarrow> ('e \<Rightarrow> ('s, 'f, 'a) action) \<Rightarrow> ('s, 'f, 'a) action" where
  "orElse m f s = (case m s of (Inl e, s) \<Rightarrow> f e s | (Inr x, s) \<Rightarrow> (Inr x, s))"

definition ignoring :: "('s, 'e, 'a) action \<Rightarrow> 's \<Rightarrow> 's" where
  "ignoring m s = snd (m s)"

definition return :: "'a \<Rightarrow> ('s, 'e, 'a) action" where
  "return x s = (Inr x, s)"

definition fail :: "'e \<Rightarrow> ('s, 'e, 'a) action" where
  "fail e s = (Inl e, s)"

fun for_each :: "('a \<Rightarrow> ('s, 'e, unit) action) \<Rightarrow> 'a list \<Rightarrow> ('s, 'e, unit) action" where
  "for_each f [] = return ()"
| "for_each f (x # xs) = andThen (f x) (\<lambda>_. for_each f xs)"

lemma andThen_Inr: "andThen m f s = (Inr x, s') \<longleftrightarrow> (\<exists>y s1. m s = (Inr y, s1) \<and> f y s1 = (Inr x, s'))"
  by (auto simp: andThen_def split: prod.splits sum.splits)

lemma andThen_cases:
  assumes "andThen m f s = (r, s')"
  obtains (error) e where "m s = (Inl e, s')" "r = Inl e" | (ok) x s1 where "m s = (Inr x, s1)" "f x s1 = (r, s')"
  using assms by (auto simp: andThen_def split: prod.splits sum.splits)

lemma andThen_return [simp]: "andThen m return = m"
  by (auto simp: andThen_def return_def fun_eq_iff split: prod.splits sum.splits)

end
