(* ===== verification/Agent_Files.thy ===== *)
theory Agent_Files
  imports Go_Path Go_Action "HOL-Library.Sublist"
begin

text \<open>
  The file system as the edge agent uses it, and its atomic writes (\<open>fileutil/atomic.go\<close>).

  A disk holds the regular files by the elements of their paths; a path that is not absolute starts at the
  root, the working directory. Directories are implicit: a location is a directory when a file lies below it,
  and creating one fails when an element of its path is a file. Empty directories and symbolic links are not
  represented. Every system call takes the next number of the operating system's history: \<open>Fault os n\<close> makes
  the n-th call fail with a message, whatever it does, and \<open>Suffix os n\<close> is the random part of the name of a
  temporary file, chosen so that the name is free (the retries of \<open>os.CreateTemp\<close> on a taken name are not
  counted; a taken name is the error they end in).
\<close>

section \<open>Disks and system calls\<close>

type_synonym location = "string list"

record disk_file =
  f_Data :: string
  f_Mode :: nat

record disk =
  d_files :: "(location, disk_file) gomap"
  d_calls :: nat

record os =
  Fault :: "nat \<Rightarrow> string option"
  Suffix :: "nat \<Rightarrow> string"

datatype os_error = Not_Exist | Os_Error string

definition locate :: "string \<Rightarrow> location" where
  "locate path = path_elems (if IsAbs path then path else CHR ''/'' # path)"

definition look :: "disk \<Rightarrow> location \<Rightarrow> disk_file option" where
  "look d = map_of (d_files d)"

definition is_dir :: "disk \<Rightarrow> location \<Rightarrow> bool" where
  "is_dir d l \<longleftrightarrow> l = [] \<or> list_ex (\<lambda>(k, _). strict_prefix l k) (d_files d)"

definition under_file :: "disk \<Rightarrow> location \<Rightarrow> bool" where
  "under_file d l \<longleftrightarrow> list_ex (\<lambda>(k, _). strict_prefix k l) (d_files d)"

definition put :: "location \<Rightarrow> disk_file \<Rightarrow> disk \<Rightarrow> disk" where
  "put l f d = d\<lparr>d_files := AList.update l f (d_files d)\<rparr>"

definition drop_file :: "location \<Rightarrow> disk \<Rightarrow> disk" where
  "drop_file l d = d\<lparr>d_files := AList.delete l (d_files d)\<rparr>"

definition syscall :: "os \<Rightarrow> (disk, os_error, 'a) action \<Rightarrow> (disk, os_error, 'a) action" where
  "syscall os m d =
    (let d' = d\<lparr>d_calls := Suc (d_calls d)\<rparr>
     in case Fault os (d_calls d) of Some e \<Rightarrow> (Inl (Os_Error e), d') | None \<Rightarrow> m d')"

section \<open>System calls\<close>

definition not_a_directory :: os_error where
  "not_a_directory = Os_Error ''not a directory''"

definition is_a_directory :: os_error where
  "is_a_directory = Os_Error ''is a directory''"

definition MkdirAll :: "os \<Rightarrow> string \<Rightarrow> (disk, os_error, unit) action" where
  "MkdirAll os path = syscall os (\<lambda>d.
    if under_file d (locate path) \<or> look d (locate path) \<noteq> None then (Inl not_a_directory, d) else (Inr (), d))"

definition ReadFile :: "os \<Rightarrow> string \<Rightarrow> (disk, os_error, string) action" where
  "ReadFile os path = syscall os (\<lambda>d.
    case look d (locate path) of
      Some f \<Rightarrow> (Inr (f_Data f), d)
    | None \<Rightarrow> (Inl (if under_file d (locate path) then not_a_directory
        else if is_dir d (locate path) then is_a_directory else Not_Exist), d))"

text \<open>\<open>os.Stat\<close>, whose result says whether the path is a directory.\<close>

definition StatFile :: "os \<Rightarrow> string \<Rightarrow> (disk, os_error, bool) action" where
  "StatFile os path = syscall os (\<lambda>d.
    if look d (locate path) \<noteq> None then (Inr False, d)
    else if under_file d (locate path) then (Inl not_a_directory, d)
    else if is_dir d (locate path) then (Inr True, d)
    else (Inl Not_Exist, d))"

definition RemoveFile :: "os \<Rightarrow> string \<Rightarrow> (disk, os_error, unit) action" where
  "RemoveFile os path = syscall os (\<lambda>d.
    if look d (locate path) \<noteq> None then (Inr (), drop_file (locate path) d)
    else if under_file d (locate path) then (Inl not_a_directory, d)
    else if is_dir d (locate path) then (Inl (Os_Error ''directory not empty''), d)
    else (Inl Not_Exist, d))"

text \<open>The pattern of a temporary name ends in the random part.\<close>

definition CreateTemp :: "os \<Rightarrow> string \<Rightarrow> string \<Rightarrow> (disk, os_error, string) action" where
  "CreateTemp os dir pattern = syscall os (\<lambda>d.
    let tmp = filepath_Join [dir, pattern @ Suffix os (d_calls d)]
    in if look d (locate tmp) \<noteq> None \<or> is_dir d (locate tmp) then (Inl (Os_Error ''file exists''), d)
       else (Inr tmp, put (locate tmp) \<lparr>f_Data = [], f_Mode = 384\<rparr> d))"

definition update_open :: "location \<Rightarrow> (disk_file \<Rightarrow> disk_file) \<Rightarrow> (disk, os_error, unit) action" where
  "update_open l g d = (Inr (), case look d l of Some f \<Rightarrow> put l (g f) d | None \<Rightarrow> d)"

definition RenameFile :: "os \<Rightarrow> string \<Rightarrow> string \<Rightarrow> (disk, os_error, unit) action" where
  "RenameFile os old new = syscall os (\<lambda>d.
    case look d (locate old) of
      None \<Rightarrow> (Inl Not_Exist, d)
    | Some f \<Rightarrow>
        if is_dir d (locate new) then (Inl (Os_Error ''file exists''), d)
        else if under_file d (locate new) then (Inl not_a_directory, d)
        else (Inr (), put (locate new) f (drop_file (locate old) d)))"

section \<open>Atomic writes\<close>

text \<open>A directory that cannot be opened is not synchronised, without an error.\<close>

definition syncParentDir :: "os \<Rightarrow> string \<Rightarrow> (disk, os_error, unit) action" where
  "syncParentDir os path d =
    (case syscall os (return ()) d of
       (Inl _, d) \<Rightarrow> (Inr (), d)
     | (Inr _, d) \<Rightarrow> syscall os (return ()) d)"

text \<open>The part of an atomic write from the writing of the temporary file to its renaming.\<close>

definition fill_and_rename :: "os \<Rightarrow> string \<Rightarrow> string \<Rightarrow> string \<Rightarrow> nat \<Rightarrow> (disk, os_error, unit) action" where
  "fill_and_rename os tmpPath path data perm =
    andThen (syscall os (update_open (locate tmpPath) (\<lambda>f. f\<lparr>f_Data := data\<rparr>))) (\<lambda>_.
    andThen (syscall os (update_open (locate tmpPath) (\<lambda>f. f\<lparr>f_Mode := perm\<rparr>))) (\<lambda>_.
    andThen (syscall os (return ())) (\<lambda>_ :: unit.
    andThen (syscall os (return ())) (\<lambda>_ :: unit.
    RenameFile os tmpPath path))))"

text \<open>The temporary file is removed again, errors ignored, unless it was renamed.\<close>

definition WriteFileAtomic :: "os \<Rightarrow> string \<Rightarrow> string \<Rightarrow> nat \<Rightarrow> (disk, os_error, unit) action" where
  "WriteFileAtomic os path data perm =
    andThen (MkdirAll os (filepath_Dir path)) (\<lambda>_.
    andThen (CreateTemp os (filepath_Dir path) (''.'' @ filepath_Base path @ ''.tmp-'')) (\<lambda>tmpPath.
    andThen
      (orElse (fill_and_rename os tmpPath path data perm) (\<lambda>e d. fail e (ignoring (RemoveFile os tmpPath) d)))
      (\<lambda>_. syncParentDir os path)))"

definition WriteFileAtomicIfChanged :: "os \<Rightarrow> string \<Rightarrow> string \<Rightarrow> nat \<Rightarrow> (disk, os_error, unit) action" where
  "WriteFileAtomicIfChanged os path data perm d =
    (case ReadFile os path d of
       (Inr existing, d) \<Rightarrow> if existing = data then (Inr (), d) else WriteFileAtomic os path data perm d
     | (Inl Not_Exist, d) \<Rightarrow> WriteFileAtomic os path data perm d
     | (Inl e, d) \<Rightarrow> (Inl e, d))"

section \<open>Locations\<close>

lemma Join_snoc: "Join (xs @ [x]) sep = (if xs = [] then x else Join xs sep @ sep @ x)"
  by (induction xs) (auto simp: Join_Cons)

lemma clean_path_parts:
  assumes "list_all plain_elem es" "plain_elem e"
  shows "filepath_Base (CHR ''/'' # Join (es @ [e]) ''/'') = e"
    and "locate (filepath_Dir (CHR ''/'' # Join (es @ [e]) ''/'')) = es"
    and "IsAbs (filepath_Dir (CHR ''/'' # Join (es @ [e]) ''/''))"
proof -
  obtain pre where p: "CHR ''/'' # Join (es @ [e]) ''/'' = pre @ CHR ''/'' # e"
    and pre: "pre = (if es = [] then [] else CHR ''/'' # Join es ''/'')"
    by (auto simp: Join_snoc)
  have e: "e \<noteq> []" "\<forall>c \<in> set e. c \<noteq> CHR ''/''" using assms(2) by (auto simp: plain_elem_def)
  have last: "dropWhile (\<lambda>c. c = CHR ''/'') (rev (pre @ CHR ''/'' # e)) = rev (pre @ CHR ''/'' # e)"
    using e by (cases "rev e") auto
  have "takeWhile (\<lambda>c. c \<noteq> CHR ''/'') (rev e @ CHR ''/'' # rev pre) = rev e"
    using e by (subst takeWhile_append2) auto
  then show "filepath_Base (CHR ''/'' # Join (es @ [e]) ''/'') = e"
    using e last unfolding p by (simp add: filepath_Base_def Let_def)
  have drop: "dropWhile (\<lambda>c. c \<noteq> CHR ''/'') (rev e @ CHR ''/'' # rev pre) = CHR ''/'' # rev pre"
    using e by (subst dropWhile_append2) auto
  have dir: "filepath_Dir (CHR ''/'' # Join (es @ [e]) ''/'') = Clean (pre @ ''/'')"
    unfolding p filepath_Dir_def using drop by simp
  have abs: "IsAbs (pre @ ''/'')" unfolding pre by (simp add: IsAbs_iff)
  then show "IsAbs (filepath_Dir (CHR ''/'' # Join (es @ [e]) ''/''))" unfolding dir by simp
  have "path_elems (pre @ ''/'') = es"
  proof (cases "es = []")
    case True
    then show ?thesis using path_elems_Join[of "[]"] by (simp add: pre)
  next
    case False
    then have split: "Split (CHR ''/'') (Join (es @ [[]]) ''/'') = es @ [[]]"
      using assms(1) by (intro Split_Join) (auto simp: list_all_iff plain_elem_def)
    have j: "pre @ ''/'' = CHR ''/'' # Join (es @ [[]]) ''/''" using False by (simp add: pre Join_snoc)
    show ?thesis unfolding path_elems_def using abs split clean_steps_id[OF assms(1), of "[]"]
      by (simp add: j clean_step_def)
  qed
  then show "locate (filepath_Dir (CHR ''/'' # Join (es @ [e]) ''/'')) = es"
    unfolding dir locate_def using abs by (simp add: path_elems_Clean)
qed


lemma Split_concat: "Split sep (a @ sep # b) = Split sep a @ Split sep b"
  by (induction a) (auto split: list.splits)

lemma path_elems_sub:
  assumes "IsAbs dir"
  shows "path_elems (dir @ CHR ''/'' # rel) = rev (foldl (clean_step True) (rev (path_elems dir)) (Split (CHR ''/'') rel))"
  using assms by (auto simp: path_elems_def IsAbs_iff Split_concat)

lemma path_elems_below:
  assumes "IsAbs dir" "list_all plain_elem es" "es \<noteq> []"
  shows "path_elems (dir @ CHR ''/'' # Join es ''/'') = path_elems dir @ es"
proof -
  have "Split (CHR ''/'') (Join es ''/'') = es" using assms(2,3) by (intro Split_Join) (auto simp: list_all_iff plain_elem_def)
  then show ?thesis using clean_steps_id[OF assms(2), of "rev (path_elems dir)"] by (simp add: path_elems_sub[OF assms(1)])
qed

lemma locate_below:
  assumes "IsAbs dir" "list_all plain_elem es" "es \<noteq> []"
  shows "locate (filepath_Join [dir, Join es ''/'']) = locate dir @ es"
proof -
  have ne: "dir \<noteq> []" using assms(1) by (auto simp: IsAbs_iff)
  have abs: "IsAbs (dir @ CHR ''/'' # Join es ''/'')" using assms(1) by (auto simp: IsAbs_iff)
  then show ?thesis using assms ne
    by (simp add: locate_def filepath_Join_def path_elems_Clean path_elems_below)
qed

text \<open>The temporary file of an atomic write lies beside the file and has another name.\<close>

lemma temporary_is_other:
  assumes "IsAbs p" "path_elems p \<noteq> []" "CHR ''/'' \<notin> set sfx"
  shows "locate (filepath_Join [filepath_Dir (Clean p), ''.'' @ filepath_Base (Clean p) @ ''.tmp-'' @ sfx]) \<noteq> locate (Clean p)"
proof -
  obtain es e where snoc: "path_elems p = es @ [e]" using assms(2) by (metis rev_exhaust)
  then have es: "list_all plain_elem es" "plain_elem e" using path_elems_plain[OF assms(1)] by auto
  let ?x = "''.'' @ e @ ''.tmp-'' @ sfx"
  have x: "plain_elem ?x" using es(2) assms(3) by (auto simp: plain_elem_def)
  have "locate (filepath_Join [filepath_Dir (Clean p), ?x]) = es @ [?x]"
    using locate_below[of "filepath_Dir (Clean p)" "[?x]"] x clean_path_parts[OF es] snoc assms(1) by (simp add: Clean_abs)
  moreover have "locate (Clean p) = es @ [e]" using assms(1) snoc by (simp add: locate_def path_elems_Clean)
  moreover have "filepath_Base (Clean p) = e" using clean_path_parts(1)[OF es] snoc assms(1) by (simp add: Clean_abs)
  ultimately show ?thesis by auto
qed

section \<open>What the calls change\<close>

text \<open>Lookups after the elementary changes.\<close>

lemma look_put [simp]: "look (put l f d) = (look d)(l \<mapsto> f)"
  by (simp add: look_def put_def update_conv')

lemma look_drop_file [simp]: "look (drop_file l d) = (look d)(l := None)"
  by (simp add: look_def drop_file_def delete_conv')

lemma look_calls [simp]: "look (d\<lparr>d_calls := n\<rparr>) = look d"
  by (simp add: look_def)

lemma syscall_result:
  "syscall os m d = (r, d') \<Longrightarrow> (\<exists>e. r = Inl (Os_Error e) \<and> look d' = look d) \<or>
    (\<exists>d1. look d1 = look d \<and> d_files d1 = d_files d \<and> m d1 = (r, d'))"
  by (auto simp: syscall_def Let_def split: option.splits intro!: exI[of _ "d\<lparr>d_calls := Suc (d_calls d)\<rparr>"])

text \<open>A call that only reads leaves every file as it is.\<close>

definition reads_only :: "(disk, 'e, 'a) action \<Rightarrow> bool" where
  "reads_only m \<longleftrightarrow> (\<forall>d. look (snd (m d)) = look d)"

lemma reads_onlyD: "reads_only m \<Longrightarrow> m d = (r, d') \<Longrightarrow> look d' = look d"
  unfolding reads_only_def by (metis snd_conv)

lemma reads_only_syscall: "reads_only m \<Longrightarrow> reads_only (syscall os m)"
  by (auto simp: reads_only_def syscall_def Let_def split: option.splits)

lemma reads_only_return [simp, intro]: "reads_only (return x)"
  by (simp add: reads_only_def return_def)

lemma reads_only_fail [simp, intro]: "reads_only (fail e)"
  by (simp add: reads_only_def fail_def)

lemma reads_only_andThen [intro]: "reads_only m \<Longrightarrow> (\<And>x. reads_only (f x)) \<Longrightarrow> reads_only (andThen m f)"
  by (auto simp: reads_only_def andThen_def split: prod.splits sum.splits) (metis snd_conv)+

lemma reads_only_calls [simp, intro]:
  "reads_only (MkdirAll os p)" "reads_only (ReadFile os p)" "reads_only (StatFile os p)"
  unfolding MkdirAll_def ReadFile_def StatFile_def
  by (rule reads_only_syscall; auto simp: reads_only_def split: option.splits)+

lemma ReadFile_Inr: "ReadFile os p d = (Inr s, d') \<Longrightarrow> \<exists>f. look d (locate p) = Some f \<and> f_Data f = s"
  by (auto simp: ReadFile_def syscall_def Let_def split: option.splits if_splits)

lemma ReadFile_Not_Exist: "ReadFile os p d = (Inl Not_Exist, d') \<Longrightarrow> look d (locate p) = None"
  by (auto simp: ReadFile_def syscall_def Let_def split: option.splits if_splits)

lemma RemoveFile_cases:
  assumes "RemoveFile os p d = (r, d')"
  shows "(r = Inr () \<and> look d' = (look d)(locate p := None)) \<or> (r = Inl Not_Exist \<and> look d (locate p) = None \<and> look d' = look d)
    \<or> (\<exists>e. r = Inl (Os_Error e) \<and> look d' = look d)"
  using assms by (auto simp: RemoveFile_def syscall_def Let_def not_a_directory_def split: option.splits if_splits)

lemma CreateTemp_Inr: "CreateTemp os dir pattern d = (Inr tmp, d') \<Longrightarrow>
    look d (locate tmp) = None \<and> (\<exists>f. look d' = (look d)(locate tmp \<mapsto> f)) \<and> (\<exists>n. tmp = filepath_Join [dir, pattern @ Suffix os n])"
  by (auto simp: CreateTemp_def syscall_def Let_def split: option.splits if_splits)

lemma CreateTemp_Inl: "CreateTemp os dir pattern d = (Inl e, d') \<Longrightarrow> look d' = look d"
  by (auto simp: CreateTemp_def syscall_def Let_def split: option.splits if_splits)

lemma open_cases:
  assumes "syscall os (update_open l g) d = (r, d')" "look d l = Some f"
  shows "(r = Inr () \<and> look d' = (look d)(l \<mapsto> g f)) \<or> ((\<exists>e. r = Inl e) \<and> look d' = look d)"
  using assms by (auto simp: syscall_def update_open_def Let_def split: option.splits)

lemma return_call_cases:
  assumes "syscall os (return ()) d = (r, d')"
  shows "look d' = look d"
  using assms by (rule reads_onlyD[OF reads_only_syscall[OF reads_only_return]])

lemma RenameFile_cases:
  assumes "RenameFile os old new d = (r, d')" "look d (locate old) = Some f"
  shows "(r = Inr () \<and> look d' = (look d)(locate old := None, locate new \<mapsto> f)) \<or> ((\<exists>e. r = Inl e) \<and> look d' = look d)"
  using assms by (auto simp: RenameFile_def syscall_def Let_def split: option.splits if_splits)

lemma fill_and_rename_cases:
  assumes "fill_and_rename os tmp path data perm d = (r, d')" "look d (locate tmp) = Some f"
  shows "(r = Inr () \<and> look d' = (look d)(locate tmp := None, locate path \<mapsto> f\<lparr>f_Data := data, f_Mode := perm\<rparr>))
    \<or> ((\<exists>e. r = Inl e) \<and> (\<exists>g. look d' = (look d)(locate tmp \<mapsto> g)))"
  using assms(1) unfolding fill_and_rename_def
proof (cases rule: andThen_cases)
  case (error e)
  then show ?thesis using open_cases[OF error(1) assms(2)] assms(2) by (auto intro!: exI[of _ f])
next
  case (ok x d1)
  then have d1: "look d1 = (look d)(locate tmp \<mapsto> f\<lparr>f_Data := data\<rparr>)" using open_cases[OF ok(1) assms(2)] by auto
  have d1': "look d1 (locate tmp) = Some (f\<lparr>f_Data := data\<rparr>)" by (simp add: d1)
  from ok(2) show ?thesis
  proof (cases rule: andThen_cases)
    case (error e)
    then show ?thesis using open_cases[OF error(1) d1'] d1 by auto
  next
    case (ok y d2)
    then have d2: "look d2 = (look d)(locate tmp \<mapsto> f\<lparr>f_Data := data, f_Mode := perm\<rparr>)" using open_cases[OF ok(1) d1'] d1 by auto
    from ok(2) show ?thesis
    proof (cases rule: andThen_cases)
      case (error e)
      then show ?thesis using return_call_cases[OF error(1)] d2 by auto
    next
      case (ok z d3)
      have d3: "look d3 = look d2" using return_call_cases[OF ok(1)] by auto
      from ok(2) show ?thesis
      proof (cases rule: andThen_cases)
        case (error e)
        then show ?thesis using return_call_cases[OF error(1)] d2 d3 by auto
      next
        case (ok u d4)
        have d4: "look d4 = look d2" using return_call_cases[OF ok(1)] d3 by auto
        then have "look d4 (locate tmp) = Some (f\<lparr>f_Data := data, f_Mode := perm\<rparr>)" using d2 by simp
        from RenameFile_cases[OF ok(2) this] show ?thesis using d2 d4 by auto
      qed
    qed
  qed
qed

lemma syncParentDir_keeps:
  assumes "syncParentDir os path d = (r, d')"
  shows "look d' = look d"
proof -
  obtain r1 d1 where c: "syscall os (return ()) d = (r1, d1)" by fastforce
  show ?thesis
  proof (cases r1)
    case Inl
    then show ?thesis using assms c return_call_cases[OF c] by (simp add: syncParentDir_def)
  next
    case Inr
    then have "syscall os (return ()) d1 = (r, d')" using assms c by (simp add: syncParentDir_def)
    then show ?thesis using return_call_cases[OF c] return_call_cases by metis
  qed
qed

definition temporary :: "os \<Rightarrow> string \<Rightarrow> nat \<Rightarrow> location" where
  "temporary os path n = locate (filepath_Join [filepath_Dir path, (''.'' @ filepath_Base path @ ''.tmp-'') @ Suffix os n])"

text \<open>After an atomic write every file of the disk but the written one and its temporary file is what it was;
  the written file is the old one or the new one, and the new one when the write succeeds.\<close>

lemma WriteFileAtomic_cases:
  assumes "WriteFileAtomic os path data perm d = (r, d')"
  shows "(\<exists>f. f_Data f = data \<and> f_Mode f = perm \<and> look d' = (look d)(locate path \<mapsto> f))
    \<or> ((\<exists>e. r = Inl e) \<and> (look d' = look d \<or> (\<exists>n g. let tmp = temporary os path n in look d tmp = None \<and> look d' = (look d)(tmp \<mapsto> g))))"
  using assms unfolding WriteFileAtomic_def
proof (cases rule: andThen_cases)
  case (error e)
  then show ?thesis using reads_onlyD[OF reads_only_calls(1)] by auto
next
  case (ok x d1)
  have d1: "look d1 = look d" using reads_onlyD[OF reads_only_calls(1) ok(1)] .
  from ok(2) show ?thesis
  proof (cases rule: andThen_cases)
    case (error e)
    then show ?thesis using CreateTemp_Inl[OF error(1)] d1 by auto
  next
    case (ok tmp d2)
    then obtain f n where f: "look d (locate tmp) = None" "look d2 = (look d)(locate tmp \<mapsto> f)"
      and n: "locate tmp = temporary os path n"
      using CreateTemp_Inr[OF ok(1)] d1 unfolding temporary_def by metis
    obtain r3 d3 where w: "fill_and_rename os tmp path data perm d2 = (r3, d3)" by fastforce
    have upd: "(look d)(locate tmp := None) = look d" using f(1) by (rule fun_upd_idem)
    have "look d2 (locate tmp) = Some f" by (simp add: f)
    from fill_and_rename_cases[OF w this] consider
        "r3 = Inr ()" "look d3 = (look d)(locate path \<mapsto> f\<lparr>f_Data := data, f_Mode := perm\<rparr>)"
      | e g where "r3 = Inl e" "look d3 = (look d)(locate tmp \<mapsto> g)"
      unfolding f(2) upd fun_upd_upd by blast
    then show ?thesis
    proof cases
      case 1
      then have "syncParentDir os path d3 = (r, d')"
        using ok(2) w by (simp add: andThen_def[of "orElse _ _"] orElse_def)
      from syncParentDir_keeps[OF this] 1 show ?thesis by (intro disjI1 exI[of _ "f\<lparr>f_Data := data, f_Mode := perm\<rparr>"]) simp
    next
      case (2 e g)
      then have "r = Inl e" "d' = snd (RemoveFile os tmp d3)"
        using ok(2) w by (auto simp: andThen_def[of "orElse _ _"] orElse_def fail_def ignoring_def)
      moreover have "look d' = (look d)(locate tmp := None) \<or> look d' = (look d)(locate tmp \<mapsto> g)"
        using 2 RemoveFile_cases[of os tmp d3 "fst (RemoveFile os tmp d3)" d'] \<open>d' = _\<close> by fastforce
      then have "look d' = look d \<or> (look d (locate tmp) = None \<and> look d' = (look d)(locate tmp \<mapsto> g))"
        using f(1) by (auto simp: fun_upd_idem)
      ultimately show ?thesis using n unfolding Let_def by metis
    qed
  qed
qed

lemma WriteFileAtomicIfChanged_cases:
  assumes "WriteFileAtomicIfChanged os path data perm d = (r, d')"
  shows "(\<exists>f. f_Data f = data \<and> look d' = (look d)(locate path \<mapsto> f))
    \<or> ((\<exists>e. r = Inl e) \<and> (look d' = look d \<or> (\<exists>n g. let tmp = temporary os path n in look d tmp = None \<and> look d' = (look d)(tmp \<mapsto> g))))"
proof -
  obtain rd d1 where rd: "ReadFile os path d = (rd, d1)" by fastforce
  have d1: "look d1 = look d" using reads_onlyD[OF reads_only_calls(2) rd] .
  show ?thesis
  proof (cases rd)
    case (Inl e)
    then show ?thesis using assms rd d1 WriteFileAtomic_cases[of os path data perm d1 r d']
      by (cases e) (auto simp: WriteFileAtomicIfChanged_def)
  next
    case (Inr existing)
    then obtain f where f: "look d (locate path) = Some f" "f_Data f = existing" using ReadFile_Inr rd by metis
    show ?thesis
    proof (cases "existing = data")
      case True
      then have "d' = d1" using assms rd Inr by (auto simp: WriteFileAtomicIfChanged_def)
      then show ?thesis using f d1 True by (auto simp: fun_upd_idem intro!: exI[of _ f])
    next
      case False
      then show ?thesis using assms rd Inr d1 WriteFileAtomic_cases[of os path data perm d1 r d']
        by (auto simp: WriteFileAtomicIfChanged_def)
    qed
  qed
qed

lemma WriteFile_ok:
  "WriteFileAtomicIfChanged os path data perm d = (Inr (), d') \<Longrightarrow> \<exists>f. f_Data f = data \<and> look d' = (look d)(locate path \<mapsto> f)"
  using WriteFileAtomicIfChanged_cases by fastforce

text \<open>A write is atomic: also after an error the file is the old one or the new one.\<close>

definition plain_names :: "os \<Rightarrow> bool" where
  "plain_names os \<longleftrightarrow> (\<forall>n. CHR ''/'' \<notin> set (Suffix os n))"

lemma WriteFile_atomic:
  assumes "WriteFileAtomicIfChanged os (Clean p) data perm d = (r, d')" "IsAbs p" "path_elems p \<noteq> []" "plain_names os"
  shows "look d' (locate (Clean p)) = look d (locate (Clean p)) \<or> (\<exists>f. f_Data f = data \<and> look d' (locate (Clean p)) = Some f)"
proof -
  have "temporary os (Clean p) n \<noteq> locate (Clean p)" "locate (Clean p) \<noteq> temporary os (Clean p) n" for n
    using temporary_is_other[OF assms(2,3), of "Suffix os n"] assms(4) by (simp_all add: temporary_def plain_names_def eq_commute)
  then show ?thesis using WriteFileAtomicIfChanged_cases[OF assms(1)] by (auto simp: Let_def)
qed

end
