(* ===== verification/Agent_State.thy ===== *)
theory Agent_State
  imports Agent_Files Net_Addr
begin

text \<open>
  The state file of the edge agent (\<open>state/state.go\<close>): what the agent remembers across restarts, cached in
  memory and written through to a JSON file. The buffer of measurements (theory \<open>Agent_Buffer\<close>) is kept by
  a second store of the same shape; the locale \<open>cached_file\<close> is their contract: a load returns what the file
  holds, and a successful save leaves a file that decodes to the saved value. JSON encoding and decoding are
  the fields of \<open>json\<close>.
\<close>

section \<open>Cached files\<close>

record 'a json =
  Marshal :: "'a \<Rightarrow> string + string"
  Unmarshal :: "string \<Rightarrow> string + 'a"

record 'a cached_store =
  cs_path :: string
  cs_loaded :: bool
  cs_cache :: "'a option"
  cs_encoded :: string
  cs_encodedCanonical :: bool

definition new_store :: "string \<Rightarrow> 'a cached_store" where
  "new_store path = \<lparr>cs_path = Clean path, cs_loaded = False, cs_cache = None, cs_encoded = [], cs_encodedCanonical = False\<rparr>"

type_synonym ('a, 'b) store_action = "('a cached_store \<times> disk, os_error, 'b) action"

text \<open>A disk action beside a store, and decoding as an action.\<close>

definition on_store_disk :: "(disk, 'e, 'b) action \<Rightarrow> ('a cached_store \<times> disk, 'e, 'b) action" where
  "on_store_disk m = (\<lambda>(s, d). case m d of (r, d) \<Rightarrow> (r, (s, d)))"

definition coded :: "string + 'b \<Rightarrow> ('s, os_error, 'b) action" where
  "coded r = (case r of Inl e \<Rightarrow> fail (Os_Error e) | Inr x \<Rightarrow> return x)"

text \<open>The part of a save after the test whether anything changed; it is the same in both stores.\<close>

definition write_back :: "os \<Rightarrow> 'a json \<Rightarrow> 'a \<Rightarrow> ('a, unit) store_action" where
  "write_back os js normalized = (\<lambda>(s, d).
    andThen (on_store_disk (MkdirAll os (filepath_Dir (cs_path s)))) (\<lambda>_.
    andThen (coded (Marshal js normalized)) (\<lambda>data.
    if cs_loaded s \<and> cs_encoded s = data then
      (\<lambda>(s, d). (Inr (), (s\<lparr>cs_cache := Some normalized, cs_encodedCanonical := True\<rparr>, d)))
    else
      andThen (on_store_disk (WriteFileAtomicIfChanged os (cs_path s) data 420)) (\<lambda>_ (s, d).
      (Inr (), (s\<lparr>cs_cache := Some normalized, cs_encoded := data, cs_encodedCanonical := True, cs_loaded := True\<rparr>, d))))) (s, d))"

text \<open>What the file of a store decodes to: a file that is missing or empty stands for the zero value.\<close>

definition decoded :: "'a \<Rightarrow> 'a json \<Rightarrow> disk_file option \<Rightarrow> 'a option" where
  "decoded zero js f =
    (case f of
       None \<Rightarrow> Some zero
     | Some f \<Rightarrow> if f_Data f = [] then Some zero else (case Unmarshal js (f_Data f) of Inl _ \<Rightarrow> None | Inr v \<Rightarrow> Some v))"

definition stored :: "'a \<Rightarrow> 'a json \<Rightarrow> 'a cached_store \<Rightarrow> disk \<Rightarrow> 'a option" where
  "stored zero js s d = decoded zero js (look d (locate (cs_path s)))"

text \<open>A store is coherent when its cache, if it has loaded one, is what the file holds. The predicate \<open>ok\<close> is a
  condition on the values of the file.\<close>

definition coherent :: "'a \<Rightarrow> ('a \<Rightarrow> bool) \<Rightarrow> 'a json \<Rightarrow> 'a cached_store \<Rightarrow> disk \<Rightarrow> bool" where
  "coherent zero ok js s d \<longleftrightarrow>
    (\<forall>v. stored zero js s d = Some v \<longrightarrow> ok v) \<and>
    (cs_loaded s \<longrightarrow> cs_cache s = stored zero js s d \<and> cs_cache s \<noteq> None \<and>
      cs_encoded s = (case look d (locate (cs_path s)) of None \<Rightarrow> [] | Some f \<Rightarrow> f_Data f))"

text \<open>What is encoded decodes to the same value, and the encoding is not empty.\<close>

definition codes :: "'a json \<Rightarrow> 'a \<Rightarrow> bool" where
  "codes js v \<longleftrightarrow> (\<forall>data. Marshal js v = Inr data \<longrightarrow> data \<noteq> [] \<and> Unmarshal js data = Inr v)"

lemma on_store_disk_Inr: "on_store_disk m (s, d) = (Inr x, t) \<longleftrightarrow> (\<exists>d'. t = (s, d') \<and> m d = (Inr x, d'))"
  by (auto simp: on_store_disk_def split: prod.splits)

lemma coded_Inr: "coded r t = (Inr x, t') \<longleftrightarrow> r = Inr x \<and> t' = t"
  by (auto simp: coded_def fail_def return_def split: sum.splits)

lemma stored_written:
  assumes "look d' = (look d)(locate (cs_path s) \<mapsto> f)" "f_Data f = data" "data \<noteq> []" "Unmarshal js data = Inr v"
  shows "stored zero js s d' = Some v"
  using assms by (simp add: stored_def decoded_def)

lemma coherent_written:
  assumes "look d' = (look d)(locate (cs_path s) \<mapsto> f)" "f_Data f = data" "data \<noteq> []" "Unmarshal js data = Inr v" "ok v"
    and "cs_path s' = cs_path s" "cs_cache s' = Some v" "cs_encoded s' = data"
  shows "coherent zero ok js s' d'"
  using assms by (simp add: coherent_def stored_def decoded_def)

lemma stored_encoded:
  assumes "coherent zero ok js s d" "cs_loaded s" "cs_encoded s = data" "data \<noteq> []" "Unmarshal js data = Inr v"
  shows "stored zero js s d = Some v"
  using assms by (auto simp: coherent_def stored_def decoded_def split: option.splits)

lemma write_back_file:
  assumes "coherent zero ok js s d" "codes js v" "ok v" "write_back os js v (s, d) = (Inr (), (s', d'))"
  shows "cs_path s' = cs_path s \<and> cs_loaded s' \<and> coherent zero ok js s' d' \<and> stored zero js s' d' = Some v"
proof -
  from assms(4) obtain data d1 where m: "Marshal js v = Inr data" and mk: "MkdirAll os (filepath_Dir (cs_path s)) d = (Inr (), d1)"
    and rest: "(if cs_loaded s \<and> cs_encoded s = data then
        (\<lambda>(s, d). (Inr (), (s\<lparr>cs_cache := Some v, cs_encodedCanonical := True\<rparr>, d)))
      else andThen (on_store_disk (WriteFileAtomicIfChanged os (cs_path s) data 420)) (\<lambda>_ (s, d).
        (Inr (), (s\<lparr>cs_cache := Some v, cs_encoded := data, cs_encodedCanonical := True, cs_loaded := True\<rparr>, d)))) (s, d1)
      = (Inr (), (s', d'))"
    by (auto simp: write_back_def andThen_Inr on_store_disk_Inr coded_Inr)
  have data: "Marshal js v = Inr data" "data \<noteq> []" "Unmarshal js data = Inr v" using m assms(2) by (auto simp: codes_def)
  have d1: "look d1 = look d" using reads_onlyD[OF reads_only_calls(1) mk] .
  show ?thesis
  proof (cases "cs_loaded s \<and> cs_encoded s = data")
    case True
    then have "s' = s\<lparr>cs_cache := Some v, cs_encodedCanonical := True\<rparr>" "d' = d1" using rest by auto
    moreover have "stored zero js s d = Some v" using stored_encoded[OF assms(1) _ _ data(2,3)] True by simp
    ultimately show ?thesis using assms(1) d1 True by (auto simp: coherent_def stored_def)
  next
    case False
    then have wr: "WriteFileAtomicIfChanged os (cs_path s) data 420 d1 = (Inr (), d')"
      and s': "s' = s\<lparr>cs_cache := Some v, cs_encoded := data, cs_encodedCanonical := True, cs_loaded := True\<rparr>"
      using rest by (auto simp: andThen_Inr on_store_disk_Inr)
    from WriteFile_ok[OF wr] d1 obtain f where f: "f_Data f = data" "look d' = (look d)(locate (cs_path s) \<mapsto> f)" by auto
    show ?thesis using coherent_written[where ok = ok and s' = s', OF f(2,1) data(2,3) assms(3)] stored_written[OF f(2,1) data(2,3), where zero = zero] s'
      by (simp add: stored_def)
  qed
qed

text \<open>Whatever happens on the way, the file decodes afterwards to the old value or to the new one, and the store is
  the old one unless the write succeeded.\<close>

lemma write_back_atomic:
  assumes "write_back os js v (s, d) = (r, (s', d'))" "codes js v" "plain_names os"
    and "cs_path s = Clean p" "IsAbs p" "path_elems p \<noteq> []"
  shows "(stored zero js s' d' = stored zero js s d \<or> stored zero js s' d' = Some v) \<and> cs_path s' = cs_path s
    \<and> (s' = s \<or> cs_loaded s' \<and> cs_cache s' = Some v)"
proof -
  obtain r1 d1 where mk: "MkdirAll os (filepath_Dir (cs_path s)) d = (r1, d1)" by fastforce
  have d1: "look d1 = look d" using reads_onlyD[OF reads_only_calls(1) mk] .
  have s1: "stored zero js s d1 = stored zero js s d" using d1 by (simp add: stored_def)
  have early: ?thesis if "s' = s" "d' = d1" using that s1 by simp
  consider (fails) "r1 \<noteq> Inr () \<or> (\<forall>data. Marshal js v \<noteq> Inr data)" | (goes_on) data where "r1 = Inr ()" "Marshal js v = Inr data" by auto
  then show ?thesis
  proof cases
    case fails
    then have "s' = s" "d' = d1" using assms(1) mk
      by (cases r1; cases "Marshal js v"; auto simp: write_back_def andThen_def on_store_disk_def coded_def fail_def return_def)+
    then show ?thesis by (rule early)
  next
    case (goes_on data)
    have data: "Marshal js v = Inr data" "data \<noteq> []" "Unmarshal js data = Inr v" using goes_on(2) assms(2) by (auto simp: codes_def)
    obtain r2 d2 where wr: "WriteFileAtomicIfChanged os (cs_path s) data 420 d1 = (r2, d2)" by fastforce
    have d2: "look d2 (locate (cs_path s)) = look d (locate (cs_path s)) \<or> (\<exists>f. f_Data f = data \<and> look d2 (locate (cs_path s)) = Some f)"
      using WriteFile_atomic[OF _ assms(5,6,3)] wr d1 unfolding assms(4) by metis
    have dec: "stored zero js s d2 = stored zero js s d \<or> stored zero js s d2 = Some v"
      using d2 data(2,3) by (auto simp: stored_def decoded_def)
    have path: "stored zero js t x = stored zero js s x" if "cs_path t = cs_path s" for t x using that by (simp add: stored_def)
    show ?thesis
    proof (cases "cs_loaded s \<and> cs_encoded s = data")
      case True
      then have "s' = s\<lparr>cs_cache := Some v, cs_encodedCanonical := True\<rparr>" "d' = d1"
        using assms(1) mk goes_on(1) data(1) by (auto simp: write_back_def andThen_def on_store_disk_def coded_def return_def)
      then show ?thesis using s1 path[of s' d1] True by simp
    next
      case False
      then have step: "d' = d2 \<and> (case r2 of Inl _ \<Rightarrow> s' = s | Inr _ \<Rightarrow>
          s' = s\<lparr>cs_cache := Some v, cs_encoded := data, cs_encodedCanonical := True, cs_loaded := True\<rparr>)"
        using assms(1) mk goes_on(1) data(1) wr
        by (cases r2) (auto simp: write_back_def andThen_def on_store_disk_def coded_def return_def)
      then show ?thesis using dec path[of s' d2] by (cases r2) simp_all
    qed
  qed
qed

locale cached_file =
  fixes zero :: 'a
    and ok :: "'a \<Rightarrow> bool"
    and load :: "os \<Rightarrow> 'a json \<Rightarrow> ('a, 'a) store_action"
    and save :: "os \<Rightarrow> 'a json \<Rightarrow> 'a \<Rightarrow> ('a, unit) store_action"
  assumes load_file: "\<And>os js s d r s' d'. coherent zero ok js s d \<Longrightarrow> load os js (s, d) = (r, (s', d')) \<Longrightarrow>
      look d' = look d \<and> cs_path s' = cs_path s \<and> coherent zero ok js s' d' \<and>
      (\<forall>v. r = Inr v \<longrightarrow> cs_loaded s' \<and> stored zero js s d = Some v)"
    and save_file: "\<And>os js s d v s' d'. coherent zero ok js s d \<Longrightarrow> codes js v \<Longrightarrow> ok v \<Longrightarrow> save os js v (s, d) = (Inr (), (s', d')) \<Longrightarrow>
      cs_path s' = cs_path s \<and> cs_loaded s' \<and> coherent zero ok js s' d' \<and> stored zero js s' d' = Some v"
begin

lemma load_then_save:
  assumes "coherent zero ok js s d" "\<And>v. stored zero js s d = Some v \<Longrightarrow> codes js (g v) \<and> ok (g v)"
    and "andThen (load os js) (\<lambda>v. save os js (g v)) (s, d) = (Inr (), (s', d'))"
  shows "\<exists>v. stored zero js s d = Some v \<and> stored zero js s' d' = Some (g v) \<and> coherent zero ok js s' d' \<and> cs_path s' = cs_path s"
  using assms(3)
proof (cases rule: andThen_cases)
  case (ok v t)
  obtain s1 d1 where t: "t = (s1, d1)" by fastforce
  note l = load_file[OF assms(1) ok(1)[unfolded t]]
  then have v: "stored zero js s d = Some v" by simp
  then show ?thesis using save_file[of js s1 d1 "g v" os s' d'] assms(2)[OF v] l ok(2) t by auto
qed simp

lemma load_after:
  assumes "coherent zero ok js s d" "stored zero js s d = Some v" "load os js (s, d) = (Inr w, (s', d'))"
  shows "w = v"
  using load_file[OF assms(1,3)] assms(2) by auto

text \<open>A store opened on the same file, as after a restart, loads what was saved.\<close>

lemma reopened:
  assumes "coherent zero ok js s d" "stored zero js s d = Some v" "cs_path t = cs_path s" "\<not> cs_loaded t"
    and "load os js (t, d) = (Inr w, (t', d'))"
  shows "w = v"
proof (rule load_after[OF _ _ assms(5)])
  show "stored zero js t d = Some v" using assms(2,3) by (simp add: stored_def)
  show "coherent zero ok js t d" using assms(1,3,4) by (simp add: coherent_def stored_def)
qed

end

section \<open>The snapshot\<close>

record StateSnapshot =
  ss_NodeID :: string
  ss_CurrentVersion :: string
  ss_CurrentChecksum :: string
  ss_BlockedVersion :: string
  ss_BlockedChecksum :: string
  ss_BlockedReason :: string
  ss_LastError :: string
  ss_OpenrestyStatus :: string
  ss_OpenrestyMessage :: string
  ss_LastProfileFingerprint :: string
  ss_LastCPUStatTotal :: "64 word"
  ss_LastCPUStatIdle :: "64 word"
  ss_LastMetricAtUnix :: int
  ss_AccessLogOffset :: int
  ss_AccessLogOffsetReady :: bool

definition zero_StateSnapshot :: StateSnapshot where
  "zero_StateSnapshot = \<lparr>ss_NodeID = [], ss_CurrentVersion = [], ss_CurrentChecksum = [], ss_BlockedVersion = [],
    ss_BlockedChecksum = [], ss_BlockedReason = [], ss_LastError = [], ss_OpenrestyStatus = [], ss_OpenrestyMessage = [],
    ss_LastProfileFingerprint = [], ss_LastCPUStatTotal = 0, ss_LastCPUStatIdle = 0, ss_LastMetricAtUnix = 0,
    ss_AccessLogOffset = 0, ss_AccessLogOffsetReady = False\<rparr>"

type_synonym StateStore = "StateSnapshot cached_store"

definition cloneSnapshot :: "StateSnapshot option \<Rightarrow> StateSnapshot" where
  "cloneSnapshot snapshot = (case snapshot of None \<Rightarrow> zero_StateSnapshot | Some s \<Rightarrow> s)"

definition isCanonicalSnapshotEncoding :: "StateSnapshot json \<Rightarrow> StateSnapshot \<Rightarrow> string \<Rightarrow> bool" where
  "isCanonicalSnapshotEncoding js snapshot data = (case Marshal js snapshot of Inl _ \<Rightarrow> False | Inr encoded \<Rightarrow> encoded = data)"

definition loadUnlocked :: "os \<Rightarrow> StateSnapshot json \<Rightarrow> (StateSnapshot, StateSnapshot) store_action" where
  "loadUnlocked os js = (\<lambda>(s, d).
    if cs_loaded s then (Inr (cloneSnapshot (cs_cache s)), (s, d))
    else
      (case ReadFile os (cs_path s) d of
         (Inl Not_Exist, d) \<Rightarrow>
           (Inr zero_StateSnapshot,
            (s\<lparr>cs_cache := Some zero_StateSnapshot, cs_encoded := [], cs_encodedCanonical := False, cs_loaded := True\<rparr>, d))
       | (Inl e, d) \<Rightarrow> (Inl e, (s, d))
       | (Inr data, d) \<Rightarrow>
           if data = [] then
             (Inr zero_StateSnapshot,
              (s\<lparr>cs_cache := Some zero_StateSnapshot, cs_encoded := data, cs_encodedCanonical := False, cs_loaded := True\<rparr>, d))
           else
             (case Unmarshal js data of
                Inl e \<Rightarrow> (Inl (Os_Error e), (s, d))
              | Inr snapshot \<Rightarrow>
                  (Inr snapshot,
                   (s\<lparr>cs_cache := Some snapshot, cs_encoded := data,
                      cs_encodedCanonical := isCanonicalSnapshotEncoding js snapshot data, cs_loaded := True\<rparr>, d)))))"

definition saveUnlocked :: "os \<Rightarrow> StateSnapshot json \<Rightarrow> StateSnapshot option \<Rightarrow> (StateSnapshot, unit) store_action" where
  "saveUnlocked os js snapshot = (\<lambda>(s, d).
    let normalized = cloneSnapshot snapshot
    in if cs_loaded s \<and> cs_cache s = Some normalized \<and> cs_encodedCanonical s then (Inr (), (s, d))
       else write_back os js normalized (s, d))"

definition State_Load :: "os \<Rightarrow> StateSnapshot json \<Rightarrow> (StateSnapshot, StateSnapshot) store_action" where
  "State_Load os js = loadUnlocked os js"

definition State_Save :: "os \<Rightarrow> StateSnapshot json \<Rightarrow> StateSnapshot option \<Rightarrow> (StateSnapshot, unit) store_action" where
  "State_Save os js snapshot = saveUnlocked os js snapshot"

text \<open>The eight random bytes of a new node identifier, or the failure of the random source.\<close>

definition hex_byte :: "8 word \<Rightarrow> string" where
  "hex_byte b = [hex_digit (unat b div 16), hex_digit (unat b mod 16)]"

definition newNodeID :: "string + 8 word list \<Rightarrow> ('s, os_error, string) action" where
  "newNodeID rand = andThen (coded rand) (\<lambda>buf. return (''node-'' @ concat (map hex_byte buf)))"

definition EnsureNodeID :: "os \<Rightarrow> StateSnapshot json \<Rightarrow> string + 8 word list \<Rightarrow> (StateSnapshot, string) store_action" where
  "EnsureNodeID os js rand =
    andThen (loadUnlocked os js) (\<lambda>snapshot.
    if ss_NodeID snapshot \<noteq> [] then return (ss_NodeID snapshot)
    else
      andThen (newNodeID rand) (\<lambda>node_id.
      andThen (saveUnlocked os js (Some (snapshot\<lparr>ss_NodeID := node_id\<rparr>))) (\<lambda>_.
      return node_id)))"

section \<open>The state file keeps its contract\<close>

lemma loadUnlocked_file:
  assumes "coherent zero_StateSnapshot (\<lambda>_. True) js s d" "loadUnlocked os js (s, d) = (r, (s', d'))"
  shows "look d' = look d \<and> cs_path s' = cs_path s \<and> coherent zero_StateSnapshot (\<lambda>_. True) js s' d' \<and>
    (\<forall>v. r = Inr v \<longrightarrow> cs_loaded s' \<and> stored zero_StateSnapshot js s d = Some v)"
proof (cases "cs_loaded s")
  case True
  then show ?thesis using assms by (auto simp: loadUnlocked_def cloneSnapshot_def coherent_def split: option.splits)
next
  case False
  obtain rd d1 where rd: "ReadFile os (cs_path s) d = (rd, d1)" by fastforce
  have d1: "look d1 = look d" using reads_onlyD[OF reads_only_calls(2) rd] .
  show ?thesis
  proof (cases rd)
    case (Inl e)
    then have "e = Not_Exist \<Longrightarrow> look d (locate (cs_path s)) = None" using rd ReadFile_Not_Exist by blast
    then show ?thesis using Inl assms False rd d1
      by (cases e) (auto simp: loadUnlocked_def coherent_def stored_def decoded_def)
  next
    case (Inr data)
    then obtain f where f: "look d (locate (cs_path s)) = Some f" "f_Data f = data" using ReadFile_Inr rd by metis
    show ?thesis using Inr assms False rd d1 f
      by (auto simp: loadUnlocked_def coherent_def stored_def decoded_def split: if_splits sum.splits)
  qed
qed

lemma saveUnlocked_file:
  assumes "coherent zero_StateSnapshot (\<lambda>_. True) js s d" "codes js v"
    and "saveUnlocked os js (Some v) (s, d) = (Inr (), (s', d'))"
  shows "cs_path s' = cs_path s \<and> cs_loaded s' \<and> coherent zero_StateSnapshot (\<lambda>_. True) js s' d'
    \<and> stored zero_StateSnapshot js s' d' = Some v"
proof (cases "cs_loaded s \<and> cs_cache s = Some v \<and> cs_encodedCanonical s")
  case True
  then have "s' = s" "d' = d" using assms(3) by (simp_all add: saveUnlocked_def cloneSnapshot_def)
  moreover have "stored zero_StateSnapshot js s d = Some v" using True assms(1) unfolding coherent_def by simp
  ultimately show ?thesis using assms(1) True by simp
next
  case False
  then have "write_back os js v (s, d) = (Inr (), (s', d'))" using assms(3) by (auto simp: saveUnlocked_def cloneSnapshot_def Let_def)
  then show ?thesis using write_back_file[OF assms(1,2)] by simp
qed

interpretation agent_state: cached_file zero_StateSnapshot "\<lambda>_. True" loadUnlocked "\<lambda>os js v. saveUnlocked os js (Some v)"
  by unfold_locales (rule loadUnlocked_file saveUnlocked_file; assumption)+

abbreviation state_coherent :: "StateSnapshot json \<Rightarrow> StateStore \<Rightarrow> disk \<Rightarrow> bool" where
  "state_coherent js s d \<equiv> coherent zero_StateSnapshot (\<lambda>_. True) js s d"

lemma new_store_coherent: "state_coherent js (new_store path) d"
  by (simp add: coherent_def new_store_def)

lemma cached_load:
  assumes "coherent zero_StateSnapshot (\<lambda>_. True) js s d" "cs_loaded s" "stored zero_StateSnapshot js s d = Some v"
  shows "loadUnlocked os js (s, d) = (Inr v, (s, d))"
  using assms by (simp add: loadUnlocked_def cloneSnapshot_def coherent_def)

text \<open>C33: A state that was saved is not lost: after a successful \<open>Save\<close> of a coherent store the running agent loads the saved
  snapshot, and an agent started again on the same file loads it too, whatever calls of the operating system failed on the way.\<close>

theorem saved_state_survives_restart:
  assumes "state_coherent js s d" "cs_path s = Clean path" "codes js snapshot"
    and "State_Save os js (Some snapshot) (s, d) = (Inr (), (s', d'))"
  shows "fst (State_Load os1 js (s', d')) = Inr snapshot
    \<and> (State_Load os2 js (new_store path, d') = (Inr loaded, t) \<longrightarrow> loaded = snapshot)
    \<and> state_coherent js s' d'"
proof -
  have save: "cs_path s' = cs_path s" "cs_loaded s'" "state_coherent js s' d'" "stored zero_StateSnapshot js s' d' = Some snapshot"
    using saveUnlocked_file[OF assms(1,3)] assms(4) by (simp_all add: State_Save_def)
  have "loaded = snapshot" if "State_Load os2 js (new_store path, d') = (Inr loaded, t)"
    using agent_state.reopened[OF save(3,4), of "new_store path" os2 loaded "fst t" "snd t"] that save(1) assms(2)
    by (simp add: State_Load_def new_store_def)
  then show ?thesis using cached_load[OF save(3,2,4), of os1] save(3) by (simp add: State_Load_def)
qed

definition example_json :: "StateSnapshot json" where
  "example_json = \<lparr>Marshal = (\<lambda>v. Inr (''v'' @ ss_NodeID v)),
    Unmarshal = (\<lambda>data. if data = [] then Inl ''EOF'' else Inr (zero_StateSnapshot\<lparr>ss_NodeID := tl data\<rparr>))\<rparr>"

definition quiet_os :: os where
  "quiet_os = \<lparr>Fault = (\<lambda>_. None), Suffix = (\<lambda>n. FormatUint n)\<rparr>"

definition empty_disk :: disk where
  "empty_disk = \<lparr>d_files = [], d_calls = 0\<rparr>"

definition example_state :: StateSnapshot where
  "example_state = zero_StateSnapshot\<lparr>ss_NodeID := ''n1''\<rparr>"

lemma example_codes: "codes example_json example_state"
  by (simp add: codes_def example_json_def example_state_def)

lemma example_save: "fst (State_Save quiet_os example_json (Some example_state) (new_store ''/s/a.json'', empty_disk)) = Inr ()"
  by code_simp

theorem saved_state_survives_restart_witness:
  "fst (State_Load quiet_os example_json (snd (State_Save quiet_os example_json (Some example_state) (new_store ''/s/a.json'', empty_disk))))
    = Inr example_state"
proof -
  obtain s' d' where "State_Save quiet_os example_json (Some example_state) (new_store ''/s/a.json'', empty_disk) = (Inr (), (s', d'))"
    using example_save by (metis prod.collapse)
  from saved_state_survives_restart[OF new_store_coherent _ example_codes this] show ?thesis
    using \<open>State_Save _ _ _ _ = _\<close> by (simp add: new_store_def)
qed

text \<open>A node keeps its identifier: the identifier that \<open>EnsureNodeID\<close> returned is returned again by every later call, also after a restart.\<close>

lemma EnsureNodeID_cases:
  assumes "state_coherent js s d" "\<And>snapshot. codes js snapshot"
    and "EnsureNodeID os js rand (s, d) = (Inr node_id, (s', d'))" "rand = Inr buf"
  shows "cs_path s' = cs_path s \<and> cs_loaded s' \<and> state_coherent js s' d' \<and> node_id \<noteq> []
    \<and> (\<exists>snapshot. stored zero_StateSnapshot js s' d' = Some snapshot \<and> ss_NodeID snapshot = node_id)"
  using assms(3) unfolding EnsureNodeID_def
proof (cases rule: andThen_cases)
  case (ok snapshot t)
  obtain s1 d1 where t: "t = (s1, d1)" by fastforce
  note l = loadUnlocked_file[OF assms(1) ok(1)[unfolded t]]
  show ?thesis
  proof (cases "ss_NodeID snapshot = []")
    case False
    then have "node_id = ss_NodeID snapshot" "s' = s1" "d' = d1" using ok(2) t by (auto simp: return_def)
    then show ?thesis using l False by (simp add: stored_def)
  next
    case True
    then obtain s2 d2 where new: "node_id = ''node-'' @ concat (map hex_byte buf)"
      and save: "saveUnlocked os js (Some (snapshot\<lparr>ss_NodeID := node_id\<rparr>)) (s1, d1) = (Inr (), (s', d'))"
      using ok(2) t assms(4) by (auto simp: newNodeID_def andThen_Inr return_def coded_Inr)
    from saveUnlocked_file[OF _ assms(2) save] l new show ?thesis by auto
  qed
qed simp

text \<open>A failure to synchronise the directory after the renaming leaves the cache behind the file: a later \<open>Save\<close> of the
  cached snapshot succeeds without writing, and the next start loads the other one.\<close>

definition sync_fault_os :: "nat \<Rightarrow> os" where
  "sync_fault_os k = \<lparr>Fault = (\<lambda>n. if n = k then Some ''input/output error'' else None), Suffix = (\<lambda>n. FormatUint n)\<rparr>"

lemma failed_sync_hides_state:
  "let s1 = snd (State_Save quiet_os example_json (Some example_state) (new_store ''/s/a.json'', empty_disk));
       other = example_state\<lparr>ss_NodeID := ''n2''\<rparr>;
       (r2, s2) = State_Save (sync_fault_os 21) example_json (Some other) s1;
       (r3, s3) = State_Save quiet_os example_json (Some example_state) s2
   in r2 = Inl (Os_Error ''input/output error'') \<and> r3 = Inr ()
     \<and> fst (State_Load quiet_os example_json (new_store ''/s/a.json'', snd s3)) = Inr other"
  by code_simp

end
