(* ===== verification/Agent_Buffer.thy ===== *)
theory Agent_Buffer
  imports Agent_State Go_Sort "HOL-Library.Finite_Map" Complex_Main
begin

text \<open>
  The buffer of measurements (\<open>state/observability_buffer.go\<close>): what the edge agent measured in a window of
  time is kept in a file until the server acknowledges the window or it is too old. The records are sorted
  with \<open>sort.Slice\<close>, which is not stable; on records with distinct windows, and on access logs with distinct
  keys, its result is that of the stable sort used here. The receiver of a method is not nil.
\<close>

section \<open>Records\<close>

record NodeMetricSnapshot =
  nm_CapturedAtUnix :: int
  nm_CPUUsagePercent :: real
  nm_MemoryUsedBytes :: int
  nm_MemoryTotalBytes :: int
  nm_StorageUsedBytes :: int
  nm_StorageTotalBytes :: int
  nm_DiskReadBytes :: int
  nm_DiskWriteBytes :: int
  nm_NetworkRxBytes :: int
  nm_NetworkTxBytes :: int
  nm_OpenrestyRxBytes :: int
  nm_OpenrestyTxBytes :: int
  nm_OpenrestyConnections :: int

record NodeTrafficReport =
  nt_WindowStartedAtUnix :: int
  nt_WindowEndedAtUnix :: int
  nt_RequestCount :: int
  nt_ErrorCount :: int
  nt_CacheHitCount :: int
  nt_CacheMissCount :: int
  nt_CacheBypassCount :: int
  nt_CacheExpiredCount :: int
  nt_CacheStaleCount :: int
  nt_UpstreamErrorCount :: int
  nt_UpstreamResponseMS :: int
  nt_UniqueVisitorCount :: int
  nt_StatusCodes :: "(string, int) fmap"
  nt_TopDomains :: "(string, int) fmap"
  nt_SourceCountries :: "(string, int) fmap"

record NodeAccessLog =
  al_LoggedAtUnix :: int
  al_RemoteAddr :: string
  al_Host :: string
  al_Path :: string
  al_StatusCode :: int
  al_Reason :: string
  al_CacheStatus :: string
  al_RequestBytes :: int
  al_ResponseBytes :: int
  al_UpstreamBytes :: int

record ObservabilityBufferRecord =
  br_WindowStartedAtUnix :: int
  br_Snapshot :: "NodeMetricSnapshot option"
  br_TrafficReport :: "NodeTrafficReport option"
  br_AccessLogs :: "NodeAccessLog list"
  br_QueuedAtUnix :: int

type_synonym ObservabilityBufferStore = "ObservabilityBufferRecord list cached_store"

definition observabilityBufferWindowSeconds :: int where
  "observabilityBufferWindowSeconds = 60"

definition ObservabilityWindowStartedAt :: "NodeMetricSnapshot option \<Rightarrow> NodeTrafficReport option \<Rightarrow> int" where
  "ObservabilityWindowStartedAt snapshot traffic =
    (case traffic of
       Some t \<Rightarrow>
         if nt_WindowStartedAtUnix t > 0
         then nt_WindowStartedAtUnix t - nt_WindowStartedAtUnix t mod observabilityBufferWindowSeconds
         else (case snapshot of
             None \<Rightarrow> 0
           | Some m \<Rightarrow> if nm_CapturedAtUnix m \<le> 0 then 0 else nm_CapturedAtUnix m - nm_CapturedAtUnix m mod observabilityBufferWindowSeconds)
     | None \<Rightarrow>
         (case snapshot of
             None \<Rightarrow> 0
           | Some m \<Rightarrow> if nm_CapturedAtUnix m \<le> 0 then 0 else nm_CapturedAtUnix m - nm_CapturedAtUnix m mod observabilityBufferWindowSeconds))"

section \<open>Merging\<close>

definition accessLogKey :: "NodeAccessLog \<Rightarrow> string" where
  "accessLogKey item =
    FormatInt (al_LoggedAtUnix item) @ ''|'' @ al_RemoteAddr item @ ''|'' @ al_Host item @ ''|'' @ al_Path item @ ''|''
      @ FormatInt (al_StatusCode item) @ ''|'' @ FormatInt (al_ResponseBytes item)"

fun appendIfNeeded :: "NodeAccessLog list \<Rightarrow> string list \<Rightarrow> NodeAccessLog list \<Rightarrow> string list \<times> NodeAccessLog list" where
  "appendIfNeeded merged seen [] = (seen, merged)"
| "appendIfNeeded merged seen (item # items) =
    (let key = accessLogKey item
     in if key = [] then appendIfNeeded merged seen items
        else if key \<in> set seen then appendIfNeeded merged seen items
        else appendIfNeeded (merged @ [item]) (key # seen) items)"

definition access_log_less :: "NodeAccessLog \<Rightarrow> NodeAccessLog \<Rightarrow> bool" where
  "access_log_less a b =
    (if al_LoggedAtUnix a = al_LoggedAtUnix b then accessLogKey a < accessLogKey b else al_LoggedAtUnix a < al_LoggedAtUnix b)"

definition mergeAccessLogs :: "NodeAccessLog list \<Rightarrow> NodeAccessLog list \<Rightarrow> NodeAccessLog list" where
  "mergeAccessLogs existing incoming =
    (if existing = [] \<and> incoming = [] then []
     else
       (let (seen, merged) = appendIfNeeded [] [] existing;
            (_, merged) = appendIfNeeded merged seen incoming
        in SliceStable access_log_less merged))"

definition mergeObservabilityBufferRecord ::
  "ObservabilityBufferRecord \<Rightarrow> ObservabilityBufferRecord \<Rightarrow> ObservabilityBufferRecord" where
  "mergeObservabilityBufferRecord existing incoming =
    (let merged = existing;
         merged = (if br_Snapshot incoming \<noteq> None then merged\<lparr>br_Snapshot := br_Snapshot incoming\<rparr> else merged);
         merged = (if br_TrafficReport incoming \<noteq> None then merged\<lparr>br_TrafficReport := br_TrafficReport incoming\<rparr> else merged);
         merged = merged\<lparr>br_AccessLogs := mergeAccessLogs (br_AccessLogs existing) (br_AccessLogs incoming)\<rparr>
     in if br_QueuedAtUnix incoming > 0 then merged\<lparr>br_QueuedAtUnix := br_QueuedAtUnix incoming\<rparr> else merged)"

section \<open>The list of records\<close>

definition by_window :: "ObservabilityBufferRecord \<Rightarrow> ObservabilityBufferRecord \<Rightarrow> bool" where
  "by_window a b \<longleftrightarrow> br_WindowStartedAtUnix a < br_WindowStartedAtUnix b"

definition pruneObservabilityBufferRecords :: "ObservabilityBufferRecord list \<Rightarrow> int \<Rightarrow> ObservabilityBufferRecord list" where
  "pruneObservabilityBufferRecords records retainAfterUnix =
    (if records = [] then []
     else SliceStable by_window
       (filter (\<lambda>r. \<not> br_WindowStartedAtUnix r \<le> 0 \<and> \<not> (retainAfterUnix > 0 \<and> br_WindowStartedAtUnix r < retainAfterUnix)) records))"

definition nothing_measured :: "ObservabilityBufferRecord \<Rightarrow> bool" where
  "nothing_measured r \<longleftrightarrow> br_WindowStartedAtUnix r \<le> 0 \<or>
    (br_Snapshot r = None \<and> br_TrafficReport r = None \<and> br_AccessLogs r = [])"

text \<open>The loop that merges the record into the first one of the same window, and whether it found one.\<close>

fun replace_window :: "ObservabilityBufferRecord \<Rightarrow> ObservabilityBufferRecord list \<Rightarrow> bool \<times> ObservabilityBufferRecord list" where
  "replace_window r [] = (False, [])"
| "replace_window r (x # xs) =
    (if br_WindowStartedAtUnix x \<noteq> br_WindowStartedAtUnix r
     then (case replace_window r xs of (replaced, ys) \<Rightarrow> (replaced, x # ys))
     else (True, mergeObservabilityBufferRecord x r # xs))"

definition upsertObservabilityBufferRecord ::
  "ObservabilityBufferRecord list \<Rightarrow> ObservabilityBufferRecord \<Rightarrow> int \<Rightarrow> ObservabilityBufferRecord list" where
  "upsertObservabilityBufferRecord records r retainAfterUnix =
    (let records = pruneObservabilityBufferRecords records retainAfterUnix
     in if nothing_measured r then records
        else
          (let (replaced, records) = replace_window r records;
               records = (if \<not> replaced then records @ [r] else records)
           in SliceStable by_window records))"

definition replayableObservabilityBufferRecords :: "ObservabilityBufferRecord list \<Rightarrow> int \<Rightarrow> ObservabilityBufferRecord list" where
  "replayableObservabilityBufferRecords records currentWindowStartedAtUnix =
    filter (\<lambda>r. \<not> (currentWindowStartedAtUnix > 0 \<and> br_WindowStartedAtUnix r \<ge> currentWindowStartedAtUnix)) records"

definition remove_acked :: "int list \<Rightarrow> ObservabilityBufferRecord list \<Rightarrow> ObservabilityBufferRecord list" where
  "remove_acked windows records =
    (let acked = filter (\<lambda>value. value > 0) windows in filter (\<lambda>r. br_WindowStartedAtUnix r \<notin> set acked) records)"

section \<open>Comparing\<close>

definition int64MapsEqual :: "(string, int) fmap \<Rightarrow> (string, int) fmap \<Rightarrow> bool" where
  "int64MapsEqual left right \<longleftrightarrow>
    fcard (fmdom left) = fcard (fmdom right) \<and>
    fBall (fmdom left) (\<lambda>key. (case fmlookup right key of None \<Rightarrow> 0 | Some v \<Rightarrow> v) = the (fmlookup left key))"

definition trafficReportsEqual :: "NodeTrafficReport option \<Rightarrow> NodeTrafficReport option \<Rightarrow> bool" where
  "trafficReportsEqual left right =
    (case (left, right) of
       (Some l, Some r) \<Rightarrow>
         nt_WindowStartedAtUnix l = nt_WindowStartedAtUnix r \<and> nt_WindowEndedAtUnix l = nt_WindowEndedAtUnix r \<and>
         nt_RequestCount l = nt_RequestCount r \<and> nt_ErrorCount l = nt_ErrorCount r \<and>
         nt_CacheHitCount l = nt_CacheHitCount r \<and> nt_CacheMissCount l = nt_CacheMissCount r \<and>
         nt_CacheBypassCount l = nt_CacheBypassCount r \<and> nt_CacheExpiredCount l = nt_CacheExpiredCount r \<and>
         nt_CacheStaleCount l = nt_CacheStaleCount r \<and> nt_UpstreamErrorCount l = nt_UpstreamErrorCount r \<and>
         nt_UpstreamResponseMS l = nt_UpstreamResponseMS r \<and> nt_UniqueVisitorCount l = nt_UniqueVisitorCount r \<and>
         int64MapsEqual (nt_StatusCodes l) (nt_StatusCodes r) \<and> int64MapsEqual (nt_TopDomains l) (nt_TopDomains r) \<and>
         int64MapsEqual (nt_SourceCountries l) (nt_SourceCountries r)
     | _ \<Rightarrow> left = None \<and> right = None)"

definition metricSnapshotsEqual :: "NodeMetricSnapshot option \<Rightarrow> NodeMetricSnapshot option \<Rightarrow> bool" where
  "metricSnapshotsEqual left right =
    (case (left, right) of (Some l, Some r) \<Rightarrow> l = r | _ \<Rightarrow> left = None \<and> right = None)"

definition observabilityBufferRecordEqual :: "ObservabilityBufferRecord \<Rightarrow> ObservabilityBufferRecord \<Rightarrow> bool" where
  "observabilityBufferRecordEqual left right \<longleftrightarrow>
    br_WindowStartedAtUnix left = br_WindowStartedAtUnix right \<and> br_QueuedAtUnix left = br_QueuedAtUnix right \<and>
    metricSnapshotsEqual (br_Snapshot left) (br_Snapshot right) \<and>
    trafficReportsEqual (br_TrafficReport left) (br_TrafficReport right) \<and>
    list_all2 (=) (br_AccessLogs left) (br_AccessLogs right)"

definition observabilityBufferRecordsEqual :: "ObservabilityBufferRecord list \<Rightarrow> ObservabilityBufferRecord list \<Rightarrow> bool" where
  "observabilityBufferRecordsEqual left right = list_all2 observabilityBufferRecordEqual left right"

definition isCanonicalObservabilityBufferEncoding ::
  "ObservabilityBufferRecord list json \<Rightarrow> ObservabilityBufferRecord list \<Rightarrow> string \<Rightarrow> bool" where
  "isCanonicalObservabilityBufferEncoding js records data =
    (case Marshal js records of Inl _ \<Rightarrow> False | Inr encoded \<Rightarrow> encoded = data)"

section \<open>The store\<close>

definition buffer_loadUnlocked ::
  "os \<Rightarrow> ObservabilityBufferRecord list json \<Rightarrow> (ObservabilityBufferRecord list, ObservabilityBufferRecord list) store_action" where
  "buffer_loadUnlocked os js = (\<lambda>(s, d).
    if cs_loaded s then (Inr (case cs_cache s of None \<Rightarrow> [] | Some records \<Rightarrow> records), (s, d))
    else
      (case ReadFile os (cs_path s) d of
         (Inl Not_Exist, d) \<Rightarrow>
           (Inr [], (s\<lparr>cs_cache := Some [], cs_encoded := [], cs_encodedCanonical := True, cs_loaded := True\<rparr>, d))
       | (Inl e, d) \<Rightarrow> (Inl e, (s, d))
       | (Inr data, d) \<Rightarrow>
           if data = [] then
             (Inr [], (s\<lparr>cs_cache := Some [], cs_encoded := data, cs_encodedCanonical := False, cs_loaded := True\<rparr>, d))
           else
             (case Unmarshal js data of
                Inl e \<Rightarrow> (Inl (Os_Error e), (s, d))
              | Inr records \<Rightarrow>
                  (Inr records,
                   (s\<lparr>cs_cache := Some records, cs_encoded := data,
                      cs_encodedCanonical := isCanonicalObservabilityBufferEncoding js records data, cs_loaded := True\<rparr>, d)))))"

definition buffer_saveUnlocked ::
  "os \<Rightarrow> ObservabilityBufferRecord list json \<Rightarrow> ObservabilityBufferRecord list \<Rightarrow> (ObservabilityBufferRecord list, unit) store_action" where
  "buffer_saveUnlocked os js records = (\<lambda>(s, d).
    if cs_loaded s \<and> cs_encodedCanonical s \<and>
       observabilityBufferRecordsEqual (case cs_cache s of None \<Rightarrow> [] | Some c \<Rightarrow> c) records
    then (Inr (), (s, d))
    else write_back os js records (s, d))"

definition Upsert ::
  "os \<Rightarrow> ObservabilityBufferRecord list json \<Rightarrow> ObservabilityBufferRecord \<Rightarrow> int \<Rightarrow> (ObservabilityBufferRecord list, unit) store_action" where
  "Upsert os js r retainAfterUnix =
    (if nothing_measured r then return ()
     else andThen (buffer_loadUnlocked os js) (\<lambda>records.
       buffer_saveUnlocked os js (upsertObservabilityBufferRecord records r retainAfterUnix)))"

definition UpsertAndReplayable ::
  "os \<Rightarrow> ObservabilityBufferRecord list json \<Rightarrow> ObservabilityBufferRecord \<Rightarrow> int \<Rightarrow> int
    \<Rightarrow> (ObservabilityBufferRecord list, ObservabilityBufferRecord list) store_action" where
  "UpsertAndReplayable os js r currentWindowStartedAtUnix retainAfterUnix =
    andThen (buffer_loadUnlocked os js) (\<lambda>records.
    let records = upsertObservabilityBufferRecord records r retainAfterUnix
    in andThen (buffer_saveUnlocked os js records) (\<lambda>_.
       return (replayableObservabilityBufferRecords records currentWindowStartedAtUnix)))"

definition Replayable ::
  "os \<Rightarrow> ObservabilityBufferRecord list json \<Rightarrow> int \<Rightarrow> int
    \<Rightarrow> (ObservabilityBufferRecord list, ObservabilityBufferRecord list) store_action" where
  "Replayable os js currentWindowStartedAtUnix retainAfterUnix =
    andThen (buffer_loadUnlocked os js) (\<lambda>records.
    let records = pruneObservabilityBufferRecords records retainAfterUnix
    in andThen (buffer_saveUnlocked os js records) (\<lambda>_.
       return (replayableObservabilityBufferRecords records currentWindowStartedAtUnix)))"

definition Ack ::
  "os \<Rightarrow> ObservabilityBufferRecord list json \<Rightarrow> int list \<Rightarrow> int \<Rightarrow> (ObservabilityBufferRecord list, unit) store_action" where
  "Ack os js windowStartedAtUnix retainAfterUnix =
    (if windowStartedAtUnix = [] then return ()
     else andThen (buffer_loadUnlocked os js) (\<lambda>records.
       buffer_saveUnlocked os js (pruneObservabilityBufferRecords (remove_acked windowStartedAtUnix records) retainAfterUnix)))"

section \<open>The buffer is a map from windows to records\<close>

abbreviation window :: "ObservabilityBufferRecord \<Rightarrow> int" where
  "window \<equiv> br_WindowStartedAtUnix"

definition buffer_ok :: "ObservabilityBufferRecord list \<Rightarrow> bool" where
  "buffer_ok records \<longleftrightarrow> sorted_wrt (<) (map window records) \<and> (\<forall>r \<in> set records. window r > 0)"

definition window_map :: "ObservabilityBufferRecord list \<Rightarrow> int \<Rightarrow> ObservabilityBufferRecord option" where
  "window_map records = map_of (map (\<lambda>r. (window r, r)) records)"

definition retained :: "int \<Rightarrow> int \<Rightarrow> bool" where
  "retained retainAfterUnix w \<longleftrightarrow> w > 0 \<and> (retainAfterUnix > 0 \<longrightarrow> w \<ge> retainAfterUnix)"

interpretation window_order: strict_weak_order by_window UNIV
  using strict_weak_order_key[of window] by (simp add: by_window_def[abs_def])

interpretation log_order: strict_weak_order access_log_less UNIV
  by unfold_locales (auto simp: access_log_less_def split: if_splits)

lemma sorted_by_window: "distinct (map window xs) \<Longrightarrow> sorted_wrt (<) (map window (SliceStable by_window xs))"
proof -
  assume "distinct (map window xs)"
  then have "distinct (map window (SliceStable by_window xs))" by (simp add: distinct_map_SliceStable)
  moreover have "sorted (map window (SliceStable by_window xs))"
    using window_order.in_order_SliceStable[of xs] in_order_key[of window] by (simp add: by_window_def[abs_def])
  ultimately show ?thesis by (simp add: strict_sorted_iff)
qed

lemma buffer_ok_distinct: "buffer_ok records \<Longrightarrow> distinct (map window records)"
  by (simp add: buffer_ok_def strict_sorted_iff)

lemma window_map_SliceStable: "distinct (map window xs) \<Longrightarrow> window_map (SliceStable by_window xs) = window_map xs"
  unfolding window_map_def
  by (subst map_of_inject_set) (simp_all add: comp_def distinct_map_SliceStable set_SliceStable)

lemma window_map_Some:
  "distinct (map window xs) \<Longrightarrow> window_map xs w = Some r \<longleftrightarrow> r \<in> set xs \<and> window r = w"
  unfolding window_map_def by (subst map_of_eq_Some_iff) (auto simp: comp_def)

lemma window_map_None: "window_map xs w = None \<longleftrightarrow> w \<notin> window ` set xs"
  by (auto simp: window_map_def map_of_eq_None_iff image_image)

lemma window_map_filter:
  "window_map (filter (\<lambda>r. P (window r)) xs) w = (if P w then window_map xs w else None)"
  by (induction xs) (auto simp: window_map_def)

lemma distinct_map_filter_window: "distinct (map window xs) \<Longrightarrow> distinct (map window (filter P xs))"
  by (rule distinct_map_filter)

lemma prune_map:
  assumes "distinct (map window records)"
  shows "buffer_ok (pruneObservabilityBufferRecords records retain)"
    and "window_map (pruneObservabilityBufferRecords records retain) w = (if retained retain w then window_map records w else None)"
proof -
  let ?kept = "filter (\<lambda>r. retained retain (window r)) records"
  have eq: "pruneObservabilityBufferRecords records retain = (if records = [] then [] else SliceStable by_window ?kept)"
    by (auto simp: pruneObservabilityBufferRecords_def retained_def not_le not_less intro!: arg_cong[of _ _ "SliceStable by_window"] filter_cong)
  have d: "distinct (map window ?kept)" using assms by (rule distinct_map_filter)
  show "buffer_ok (pruneObservabilityBufferRecords records retain)"
    using sorted_by_window[OF d] by (auto simp: eq buffer_ok_def set_SliceStable retained_def)
  show "window_map (pruneObservabilityBufferRecords records retain) w = (if retained retain w then window_map records w else None)"
    using window_map_SliceStable[OF d] window_map_filter[of "retained retain" records w] by (auto simp: eq window_map_def)
qed

lemma window_merge [simp]: "window (mergeObservabilityBufferRecord e r) = window e"
  by (simp add: mergeObservabilityBufferRecord_def Let_def)

lemma replace_window_windows: "map window (snd (replace_window r xs)) = map window xs"
  by (induction xs) (auto split: prod.splits)

lemma replace_window_found: "fst (replace_window r xs) \<longleftrightarrow> window r \<in> window ` set xs"
  by (induction xs) (auto split: prod.splits)

lemma replace_window_map:
  "window_map (snd (replace_window r xs)) w =
    (if w = window r then map_option (\<lambda>e. mergeObservabilityBufferRecord e r) (window_map xs w) else window_map xs w)"
  by (induction xs) (auto simp: window_map_def split: prod.splits)

lemma window_map_snoc:
  "window_map (xs @ [r]) w = (case window_map xs w of Some x \<Rightarrow> Some x | None \<Rightarrow> if w = window r then Some r else None)"
  by (auto simp: window_map_def map_add_def split: option.splits)

lemma upsert_map:
  assumes "buffer_ok records"
  shows "buffer_ok (upsertObservabilityBufferRecord records r retain)"
    and "window_map (upsertObservabilityBufferRecord records r retain) w =
      (let kept = (\<lambda>w. if retained retain w then window_map records w else None)
       in if nothing_measured r then kept w
          else (kept(window r \<mapsto> (case kept (window r) of None \<Rightarrow> r | Some e \<Rightarrow> mergeObservabilityBufferRecord e r))) w)"
proof -
  let ?kept = "pruneObservabilityBufferRecords records retain"
  let ?rest = "snd (replace_window r ?kept)"
  let ?all = "if fst (replace_window r ?kept) then ?rest else ?rest @ [r]"
  have ok: "buffer_ok ?kept" and d: "distinct (map window ?kept)"
    using prune_map(1) buffer_ok_distinct assms by blast+
  have up: "upsertObservabilityBufferRecord records r retain = (if nothing_measured r then ?kept else SliceStable by_window ?all)"
    by (simp add: upsertObservabilityBufferRecord_def Let_def split: prod.splits)
  have keys: "set (map window ?rest) = set (map window ?kept)" by (simp only: replace_window_windows)
  have dall: "distinct (map window ?all)"
    using d replace_window_found[of r ?kept] keys by (auto simp: replace_window_windows)
  have pos: "\<not> nothing_measured r \<Longrightarrow> \<forall>x \<in> set ?all. window x > 0"
  proof -
    have "window ` set ?rest = window ` set ?kept" using keys by simp
    then have "\<forall>x \<in> set ?rest. window x > 0" using ok unfolding buffer_ok_def by (metis imageE imageI)
    then show "\<not> nothing_measured r \<Longrightarrow> \<forall>x \<in> set ?all. window x > 0" by (auto simp: nothing_measured_def)
  qed
  show "buffer_ok (upsertObservabilityBufferRecord records r retain)"
    using ok pos sorted_by_window[OF dall] unfolding up by (auto simp: buffer_ok_def set_SliceStable)
  have absent: "\<not> fst (replace_window r ?kept) \<Longrightarrow> window_map ?kept (window r) = None"
    using replace_window_found by (simp add: window_map_None)
  have present: "fst (replace_window r ?kept) \<Longrightarrow> window_map ?kept (window r) \<noteq> None"
    using replace_window_found by (simp add: window_map_None)
  have "window_map ?all w =
      ((window_map ?kept)(window r \<mapsto> (case window_map ?kept (window r) of None \<Rightarrow> r | Some e \<Rightarrow> mergeObservabilityBufferRecord e r))) w"
    using absent present by (auto simp: window_map_snoc replace_window_map split: option.splits)
  then show "window_map (upsertObservabilityBufferRecord records r retain) w =
      (let kept = (\<lambda>w. if retained retain w then window_map records w else None)
       in if nothing_measured r then kept w
          else (kept(window r \<mapsto> (case kept (window r) of None \<Rightarrow> r | Some e \<Rightarrow> mergeObservabilityBufferRecord e r))) w)"
    using window_map_SliceStable[OF dall] prune_map(2)[OF buffer_ok_distinct[OF assms]] unfolding up Let_def by (auto split: if_splits)
qed

lemma ack_map:
  assumes "distinct (map window records)"
  shows "buffer_ok (pruneObservabilityBufferRecords (remove_acked windows records) retain)"
    and "window_map (pruneObservabilityBufferRecords (remove_acked windows records) retain) w =
      (if retained retain w \<and> w \<notin> set windows then window_map records w else None)"
proof -
  let ?P = "\<lambda>w. w \<notin> set (filter (\<lambda>v. v > 0) windows)"
  have rem: "remove_acked windows records = filter (\<lambda>r. ?P (window r)) records" by (simp add: remove_acked_def)
  have d: "distinct (map window (remove_acked windows records))"
    unfolding rem using assms by (rule distinct_map_filter)
  show "buffer_ok (pruneObservabilityBufferRecords (remove_acked windows records) retain)" by (rule prune_map(1)[OF d])
  show "window_map (pruneObservabilityBufferRecords (remove_acked windows records) retain) w =
      (if retained retain w \<and> w \<notin> set windows then window_map records w else None)"
    using prune_map(2)[OF d, of retain w] window_map_filter[of ?P records w] unfolding rem by (auto simp: retained_def)
qed

text \<open>C21: The buffer of measurements refines a finite map from windows to records: on a buffer whose windows are positive and strictly
  increasing, an upsert drops what is older than the retention limit and then inserts the record or merges it into the
  record of its window, and an acknowledgement removes the acknowledged windows; the result is again such a buffer.\<close>

theorem buffer_refines_map:
  assumes "buffer_ok records"
  shows "buffer_ok (upsertObservabilityBufferRecord records r retain)
    \<and> window_map (upsertObservabilityBufferRecord records r retain) w =
      (let kept = (\<lambda>w. if retained retain w then window_map records w else None)
       in if nothing_measured r then kept w
          else (kept(window r \<mapsto> (case kept (window r) of None \<Rightarrow> r | Some e \<Rightarrow> mergeObservabilityBufferRecord e r))) w)
    \<and> buffer_ok (pruneObservabilityBufferRecords (remove_acked windows records) retain)
    \<and> window_map (pruneObservabilityBufferRecords (remove_acked windows records) retain) w =
      (if retained retain w \<and> w \<notin> set windows then window_map records w else None)"
  using upsert_map[OF assms] ack_map[OF buffer_ok_distinct[OF assms]] by blast

section \<open>Merging access logs\<close>

lemma accessLogKey_not_Nil [simp]: "accessLogKey item \<noteq> []"
  by (simp add: accessLogKey_def)

lemma appendIfNeeded_props:
  assumes "appendIfNeeded merged seen items = (seen', merged')" "distinct (map accessLogKey merged)" "set seen = accessLogKey ` set merged"
  shows "distinct (map accessLogKey merged') \<and> set seen' = accessLogKey ` set merged' \<and>
    accessLogKey ` set merged' = accessLogKey ` set merged \<union> accessLogKey ` set items \<and> set merged' \<subseteq> set merged \<union> set items"
  using assms
proof (induction items arbitrary: merged seen)
  case (Cons item items)
  show ?case
  proof (cases "accessLogKey item \<in> set seen")
    case True
    then show ?thesis using Cons.IH[of merged seen] Cons.prems by (auto simp: Let_def)
  next
    case False
    then have "appendIfNeeded (merged @ [item]) (accessLogKey item # seen) items = (seen', merged')"
      using Cons.prems(1) by (simp add: Let_def)
    from Cons.IH[OF this] Cons.prems(2,3) False show ?thesis by auto
  qed
qed simp

text \<open>Merging loses no log line and reports none twice.\<close>

lemma mergeAccessLogs_props:
  "distinct (map accessLogKey (mergeAccessLogs existing incoming))
    \<and> accessLogKey ` set (mergeAccessLogs existing incoming) = accessLogKey ` set existing \<union> accessLogKey ` set incoming
    \<and> set (mergeAccessLogs existing incoming) \<subseteq> set existing \<union> set incoming
    \<and> sorted (map al_LoggedAtUnix (mergeAccessLogs existing incoming))"
proof -
  obtain seen m1 where a: "appendIfNeeded [] [] existing = (seen, m1)" by fastforce
  obtain seen' m2 where b: "appendIfNeeded m1 seen incoming = (seen', m2)" by fastforce
  have m1: "distinct (map accessLogKey m1)" "set seen = accessLogKey ` set m1" "accessLogKey ` set m1 = accessLogKey ` set existing"
    "set m1 \<subseteq> set existing"
    using appendIfNeeded_props[OF a] by auto
  have m2: "distinct (map accessLogKey m2)" "accessLogKey ` set m2 = accessLogKey ` set existing \<union> accessLogKey ` set incoming"
    "set m2 \<subseteq> set existing \<union> set incoming"
    using appendIfNeeded_props[OF b m1(1,2)] m1(3,4) by auto
  have eq: "mergeAccessLogs existing incoming = (if existing = [] \<and> incoming = [] then [] else SliceStable access_log_less m2)"
    using a b by (simp add: mergeAccessLogs_def)
  have "in_order access_log_less (SliceStable access_log_less m2)" using log_order.in_order_SliceStable[of m2] by simp
  then have "sorted (map al_LoggedAtUnix (SliceStable access_log_less m2))"
    unfolding in_order_def sorted_map by (rule sorted_wrt_mono_rel[rotated]) (auto simp: access_log_less_def split: if_splits)
  then show ?thesis using m2 by (simp add: eq distinct_map_SliceStable set_SliceStable)
qed

section \<open>The buffer file keeps its contract\<close>

definition counted_map :: "(string, int) fmap \<Rightarrow> bool" where
  "counted_map m \<longleftrightarrow> (\<forall>k. fmlookup m k \<noteq> Some 0)"

lemma int64MapsEqual_eq:
  assumes "counted_map left" "int64MapsEqual left right"
  shows "left = right"
proof -
  have sub: "fmlookup right k = fmlookup left k" if "k |\<in>| fmdom left" for k
  proof -
    from that obtain v where v: "fmlookup left k = Some v" "v \<noteq> 0" using assms(1) by (auto simp: counted_map_def elim!: fmdomE)
    moreover have "(case fmlookup right k of None \<Rightarrow> 0 | Some v \<Rightarrow> v) = the (fmlookup left k)" using assms(2) that by (simp add: int64MapsEqual_def)
    ultimately show ?thesis by (auto split: option.splits)
  qed
  then have "fmdom left |\<subseteq>| fmdom right" by (metis fmdomE fmdomI fsubsetI)
  then have "fmdom left = fmdom right" using assms(2) by (intro fcard_seteq) (simp_all add: int64MapsEqual_def)
  then show ?thesis using sub by (intro fmap_ext) (metis fmdom_notD)
qed

lemma int64MapsEqual_refl [simp]: "int64MapsEqual m m"
  by (auto simp: int64MapsEqual_def split: option.splits)

text \<open>Without that condition the comparison is wrong: a missing key reads as zero.\<close>

lemma maps_equal_ignores_missing:
  "int64MapsEqual (fmap_of_list [(''500'', 0)]) (fmap_of_list [(''200'', 7)])
    \<and> fmap_of_list [(''500'', 0)] \<noteq> (fmap_of_list [(''200'', 7)] :: (string, int) fmap)"
proof -
  have "fmlookup (fmap_of_list [(''500'', 0)]) ''200'' \<noteq> fmlookup (fmap_of_list [(''200'', 7 :: int)]) ''200''" by simp
  then have "fmap_of_list [(''500'', 0)] \<noteq> (fmap_of_list [(''200'', 7)] :: (string, int) fmap)" by metis
  moreover have "fcard {|''500''|} = fcard {|''200''|}" by (simp add: fcard_finsert_disjoint)
  ultimately show ?thesis by (simp add: int64MapsEqual_def)
qed

definition counted :: "ObservabilityBufferRecord list \<Rightarrow> bool" where
  "counted records \<longleftrightarrow> (\<forall>r \<in> set records. case br_TrafficReport r of None \<Rightarrow> True
    | Some t \<Rightarrow> counted_map (nt_StatusCodes t) \<and> counted_map (nt_TopDomains t) \<and> counted_map (nt_SourceCountries t))"

lemma record_equal_eq:
  assumes "counted [left]" "observabilityBufferRecordEqual left right"
  shows "left = right"
proof -
  have "br_TrafficReport left = br_TrafficReport right"
    using assms by (auto simp: counted_def observabilityBufferRecordEqual_def trafficReportsEqual_def
      split: option.splits intro: int64MapsEqual_eq NodeTrafficReport.equality)
  then show ?thesis using assms(2)
    by (auto simp: observabilityBufferRecordEqual_def metricSnapshotsEqual_def list.rel_eq split: option.splits
      intro: ObservabilityBufferRecord.equality)
qed

lemma records_equal_eq:
  assumes "counted left" "observabilityBufferRecordsEqual left right"
  shows "left = right"
  using assms(2,1) unfolding observabilityBufferRecordsEqual_def
  by (induction rule: list_all2_induct) (auto simp: counted_def intro: record_equal_eq)

lemma buffer_load_file:
  assumes "coherent [] ok js s d" "buffer_loadUnlocked os js (s, d) = (r, (s', d'))"
  shows "look d' = look d \<and> cs_path s' = cs_path s \<and> coherent [] ok js s' d' \<and>
    (\<forall>v. r = Inr v \<longrightarrow> cs_loaded s' \<and> stored [] js s d = Some v)"
proof (cases "cs_loaded s")
  case True
  then show ?thesis using assms by (auto simp: buffer_loadUnlocked_def coherent_def split: option.splits)
next
  case False
  obtain rd d1 where rd: "ReadFile os (cs_path s) d = (rd, d1)" by fastforce
  have d1: "look d1 = look d" using reads_onlyD[OF reads_only_calls(2) rd] .
  show ?thesis
  proof (cases rd)
    case (Inl e)
    then have "e = Not_Exist \<Longrightarrow> look d (locate (cs_path s)) = None" using rd ReadFile_Not_Exist by blast
    then show ?thesis using Inl assms False rd d1
      by (cases e) (auto simp: buffer_loadUnlocked_def coherent_def stored_def decoded_def)
  next
    case (Inr data)
    then obtain f where f: "look d (locate (cs_path s)) = Some f" "f_Data f = data" using ReadFile_Inr rd by metis
    show ?thesis using Inr assms False rd d1 f
      by (auto simp: buffer_loadUnlocked_def coherent_def stored_def decoded_def split: if_splits sum.splits)
  qed
qed

lemma buffer_save_file:
  assumes "coherent [] counted js s d" "codes js v" "counted v"
    and "buffer_saveUnlocked os js v (s, d) = (Inr (), (s', d'))"
  shows "cs_path s' = cs_path s \<and> cs_loaded s' \<and> coherent [] counted js s' d' \<and> stored [] js s' d' = Some v"
proof (cases "cs_loaded s \<and> cs_encodedCanonical s \<and> observabilityBufferRecordsEqual (case cs_cache s of None \<Rightarrow> [] | Some c \<Rightarrow> c) v")
  case True
  then have eq: "s' = s" "d' = d" using assms(4) by (simp_all add: buffer_saveUnlocked_def)
  have "cs_cache s = stored [] js s d" "cs_cache s \<noteq> None" "\<forall>v. stored [] js s d = Some v \<longrightarrow> counted v"
    using True assms(1) unfolding coherent_def by blast+
  then obtain c where c: "cs_cache s = Some c" "stored [] js s d = Some c" "counted c" by (metis not_None_eq)
  then have "c = v" using True records_equal_eq by simp
  then show ?thesis using eq c True assms(1) by simp
next
  case False
  then have "write_back os js v (s, d) = (Inr (), (s', d'))" using assms(4) by (auto simp: buffer_saveUnlocked_def split: if_splits)
  then show ?thesis using write_back_file[OF assms(1,2)] assms(3) by simp
qed

interpretation agent_buffer: cached_file "[]" counted buffer_loadUnlocked buffer_saveUnlocked
  by unfold_locales (rule buffer_load_file buffer_save_file; assumption)+

section \<open>A buffered window is kept\<close>

datatype buffer_op =
    Op_Upsert ObservabilityBufferRecord int
  | Op_UpsertAndReplayable ObservabilityBufferRecord int int
  | Op_Replayable int int
  | Op_Ack "int list" int
  | Op_Restart

text \<open>One operation under some behaviour of the operating system; a restart opens the file again.\<close>

fun run_buffer_op ::
  "ObservabilityBufferRecord list json \<Rightarrow> os \<times> buffer_op \<Rightarrow> ObservabilityBufferStore \<times> disk \<Rightarrow> ObservabilityBufferStore \<times> disk" where
  "run_buffer_op js (os, Op_Upsert r retain) t = snd (Upsert os js r retain t)"
| "run_buffer_op js (os, Op_UpsertAndReplayable r current retain) t = snd (UpsertAndReplayable os js r current retain t)"
| "run_buffer_op js (os, Op_Replayable current retain) t = snd (Replayable os js current retain t)"
| "run_buffer_op js (os, Op_Ack windows retain) t = snd (Ack os js windows retain t)"
| "run_buffer_op js (os, Op_Restart) (s, d) = (new_store (cs_path s), d)"

fun gives_up :: "int \<Rightarrow> buffer_op \<Rightarrow> bool" where
  "gives_up w (Op_Upsert r retain) \<longleftrightarrow> \<not> retained retain w"
| "gives_up w (Op_UpsertAndReplayable r current retain) \<longleftrightarrow> \<not> retained retain w"
| "gives_up w (Op_Replayable current retain) \<longleftrightarrow> \<not> retained retain w"
| "gives_up w (Op_Ack windows retain) \<longleftrightarrow> w \<in> set windows \<or> \<not> retained retain w"
| "gives_up w Op_Restart \<longleftrightarrow> False"

text \<open>What must be left of a measurement \<open>r\<close> in a record \<open>x\<close>: the same window, every log line of \<open>r\<close> (by its key), and a snapshot and a traffic
  report when \<open>r\<close> has them, each that of a measurement of the set \<open>R\<close>.\<close>

definition covers_record :: "ObservabilityBufferRecord set \<Rightarrow> ObservabilityBufferRecord \<Rightarrow> ObservabilityBufferRecord \<Rightarrow> bool" where
  "covers_record R r x \<longleftrightarrow> window x = window r
    \<and> accessLogKey ` set (br_AccessLogs r) \<subseteq> accessLogKey ` set (br_AccessLogs x)
    \<and> (br_Snapshot r \<noteq> None \<longrightarrow> br_Snapshot x \<in> br_Snapshot ` R - {None})
    \<and> (br_TrafficReport r \<noteq> None \<longrightarrow> br_TrafficReport x \<in> br_TrafficReport ` R - {None})"

definition has_cover :: "ObservabilityBufferRecord set \<Rightarrow> ObservabilityBufferRecord \<Rightarrow> ObservabilityBufferRecord list \<Rightarrow> bool" where
  "has_cover R r records \<longleftrightarrow> (\<exists>x \<in> set records. covers_record R r x)"

text \<open>The measurements that operations upsert.\<close>

fun upserted :: "buffer_op \<Rightarrow> ObservabilityBufferRecord set" where
  "upserted (Op_Upsert r retain) = {r}"
| "upserted (Op_UpsertAndReplayable r current retain) = {r}"
| "upserted _ = {}"

definition holds_cover :: "ObservabilityBufferRecord list json \<Rightarrow> (ObservabilityBufferRecord list \<Rightarrow> bool) \<Rightarrow> ObservabilityBufferStore \<times> disk \<Rightarrow> bool" where
  "holds_cover js P = (\<lambda>(s, d).
    (\<exists>records. stored [] js s d = Some records \<and> P records) \<and>
    (cs_loaded s \<longrightarrow> (\<exists>records. cs_cache s = Some records \<and> P records)))"

lemma prune_keeps:
  "retained retain (window r) \<Longrightarrow> has_cover R r records \<Longrightarrow> has_cover R r (pruneObservabilityBufferRecords records retain)"
  by (auto simp: has_cover_def covers_record_def pruneObservabilityBufferRecords_def set_SliceStable retained_def)

lemma merge_covers:
  assumes "covers_record R r x" "q \<in> R"
  shows "covers_record R r (mergeObservabilityBufferRecord x q)"
proof -
  have "accessLogKey ` set (br_AccessLogs (mergeObservabilityBufferRecord x q))
      = accessLogKey ` set (br_AccessLogs x) \<union> accessLogKey ` set (br_AccessLogs q)"
    using mergeAccessLogs_props by (simp add: mergeObservabilityBufferRecord_def Let_def)
  moreover have "br_Snapshot (mergeObservabilityBufferRecord x q) = (if br_Snapshot q \<noteq> None then br_Snapshot q else br_Snapshot x)"
    "br_TrafficReport (mergeObservabilityBufferRecord x q) = (if br_TrafficReport q \<noteq> None then br_TrafficReport q else br_TrafficReport x)"
    by (simp_all add: mergeObservabilityBufferRecord_def Let_def)
  ultimately show ?thesis using assms by (auto simp: covers_record_def)
qed

lemma merge_covers_new: "r \<in> R \<Longrightarrow> window x = window r \<Longrightarrow> covers_record R r (mergeObservabilityBufferRecord x r)"
  using mergeAccessLogs_props by (auto simp: covers_record_def mergeObservabilityBufferRecord_def Let_def)

lemma replace_keeps:
  assumes "has_cover R r xs" "window q = window r \<Longrightarrow> q \<in> R"
  shows "has_cover R r (snd (replace_window q xs))"
  using assms(1)
proof (induction xs)
  case (Cons x xs)
  have "covers_record R r x \<Longrightarrow> window x = window q \<Longrightarrow> covers_record R r (mergeObservabilityBufferRecord x q)"
    using merge_covers[of R r x q] assms(2) by (simp add: covers_record_def)
  then show ?case using Cons by (fastforce simp: has_cover_def split: prod.splits)
qed (simp add: has_cover_def)

lemma replace_adds: "r \<in> R \<Longrightarrow> fst (replace_window r xs) \<Longrightarrow> has_cover R r (snd (replace_window r xs))"
  using merge_covers_new[of r R] by (induction xs) (auto simp: has_cover_def split: prod.splits if_splits)

lemma upsert_eq:
  "upsertObservabilityBufferRecord records r retain =
    (if nothing_measured r then pruneObservabilityBufferRecords records retain
     else SliceStable by_window (snd (replace_window r (pruneObservabilityBufferRecords records retain))
       @ (if fst (replace_window r (pruneObservabilityBufferRecords records retain)) then [] else [r])))"
  by (auto simp: upsertObservabilityBufferRecord_def Let_def split: prod.splits)

lemma upsert_keeps:
  assumes "retained retain (window r)" "has_cover R r records" "window q = window r \<Longrightarrow> q \<in> R"
  shows "has_cover R r (upsertObservabilityBufferRecord records q retain)"
  using prune_keeps[OF assms(1,2)] replace_keeps[OF prune_keeps[OF assms(1,2)] assms(3)]
  by (auto simp: upsert_eq has_cover_def set_SliceStable)

lemma upsert_covers:
  assumes "\<not> nothing_measured r" "r \<in> R"
  shows "has_cover R r (upsertObservabilityBufferRecord records r retain)"
proof -
  have "covers_record R r r" using assms(2) by (auto simp: covers_record_def)
  then show ?thesis using assms replace_adds[OF assms(2)] by (auto simp: upsert_eq has_cover_def set_SliceStable)
qed

lemma ack_keeps:
  assumes "retained retain (window r)" "has_cover R r records" "window r \<notin> set windows"
  shows "has_cover R r (pruneObservabilityBufferRecords (remove_acked windows records) retain)"
  by (rule prune_keeps[OF assms(1)]) (use assms(2,3) in \<open>auto simp: remove_acked_def has_cover_def covers_record_def\<close>)

lemma buffer_load_holds:
  assumes "holds_cover js P (s, d)" "buffer_loadUnlocked os js (s, d) = (r, (s', d'))"
  shows "holds_cover js P (s', d') \<and> cs_path s' = cs_path s \<and> (\<forall>records. r = Inr records \<longrightarrow> P records)"
proof (cases "cs_loaded s")
  case True
  then show ?thesis using assms by (auto simp: buffer_loadUnlocked_def holds_cover_def)
next
  case False
  obtain rd d1 where rd: "ReadFile os (cs_path s) d = (rd, d1)" by fastforce
  have d1: "look d1 = look d" using reads_onlyD[OF reads_only_calls(2) rd] .
  show ?thesis
  proof (cases rd)
    case (Inl e)
    then have "e = Not_Exist \<Longrightarrow> look d (locate (cs_path s)) = None" using rd ReadFile_Not_Exist by blast
    then show ?thesis using Inl assms False rd d1
      by (cases e) (auto simp: buffer_loadUnlocked_def holds_cover_def stored_def decoded_def)
  next
    case (Inr data)
    then obtain f where f: "look d (locate (cs_path s)) = Some f" "f_Data f = data" using ReadFile_Inr rd by metis
    show ?thesis using Inr assms False rd d1 f
      by (auto simp: buffer_loadUnlocked_def holds_cover_def stored_def decoded_def split: if_splits sum.splits)
  qed
qed

lemma buffer_save_holds:
  assumes "holds_cover js P (s, d)" "P records" "buffer_saveUnlocked os js records (s, d) = (r, (s', d'))"
    and "codes js records" "plain_names os" "cs_path s = Clean p" "IsAbs p" "path_elems p \<noteq> []"
  shows "holds_cover js P (s', d') \<and> cs_path s' = cs_path s"
proof (cases "cs_loaded s \<and> cs_encodedCanonical s \<and> observabilityBufferRecordsEqual (case cs_cache s of None \<Rightarrow> [] | Some c \<Rightarrow> c) records")
  case True
  then have "s' = s" "d' = d" using assms(3) by (simp_all add: buffer_saveUnlocked_def)
  then show ?thesis using assms(1) by simp
next
  case False
  then have "write_back os js records (s, d) = (r, (s', d'))" using assms(3) by (auto simp: buffer_saveUnlocked_def split: if_splits)
  from write_back_atomic[OF this assms(4-8), of "[]"] assms(1,2) show ?thesis
    by (auto simp: holds_cover_def)
qed

lemma load_save_holds:
  assumes "holds_cover js P (s, d)" "\<And>records. P records \<Longrightarrow> P (g records)"
    and "\<And>records. codes js records" "plain_names os" "cs_path s = Clean p" "IsAbs p" "path_elems p \<noteq> []"
    and "andThen (buffer_loadUnlocked os js) (\<lambda>records. andThen (buffer_saveUnlocked os js (g records)) (\<lambda>_. return (h records))) (s, d)
      = (r, (s', d'))"
  shows "holds_cover js P (s', d') \<and> cs_path s' = Clean p \<and> (\<forall>x. r = Inr x \<longrightarrow> (\<exists>records. P (g records) \<and> x = h records))"
  using assms(8)
proof (cases rule: andThen_cases)
  case (error e)
  then show ?thesis using buffer_load_holds[OF assms(1) error(1)] assms(5) by simp
next
  case (ok records t)
  obtain s1 d1 where t: "t = (s1, d1)" by fastforce
  have l: "holds_cover js P (s1, d1)" "cs_path s1 = Clean p" "P (g records)"
    using buffer_load_holds[OF assms(1) ok(1)[unfolded t]] assms(2,5) by auto
  obtain r2 s2 d2 where save: "buffer_saveUnlocked os js (g records) (s1, d1) = (r2, (s2, d2))" by (metis prod.collapse)
  from buffer_save_holds[OF l(1,3) save assms(3,4) l(2) assms(6,7)] l(2)
  have "holds_cover js P (s2, d2)" "cs_path s2 = Clean p" by simp_all
  then show ?thesis using ok(2) t save l(3) by (cases r2) (auto simp: andThen_def return_def)
qed

lemma buffer_op_holds:
  assumes "holds_cover js (has_cover R q) (s, d)" "\<not> gives_up (window q) op" "\<forall>x \<in> upserted op. window x = window q \<longrightarrow> x \<in> R"
    and "\<And>records. codes js records" "plain_names os" "cs_path s = Clean p" "IsAbs p" "path_elems p \<noteq> []"
    and "run_buffer_op js (os, op) (s, d) = (s', d')"
  shows "holds_cover js (has_cover R q) (s', d') \<and> cs_path s' = Clean p"
proof -
  note keeps = load_save_holds[OF assms(1) _ assms(4-8)]
  show ?thesis
  proof (cases op)
    case (Op_Upsert r retain)
    then show ?thesis
      using keeps[of "\<lambda>records. upsertObservabilityBufferRecord records r retain" "\<lambda>_. ()"] assms(1-3,6,9) upsert_keeps
      by (cases "Upsert os js r retain (s, d)") (auto simp: Upsert_def return_def split: if_splits)
  next
    case (Op_UpsertAndReplayable r current retain)
    then show ?thesis
      using keeps[of "\<lambda>records. upsertObservabilityBufferRecord records r retain"
          "\<lambda>records. replayableObservabilityBufferRecords (upsertObservabilityBufferRecord records r retain) current"] assms(2,3,9) upsert_keeps
      by (cases "UpsertAndReplayable os js r current retain (s, d)") (auto simp: UpsertAndReplayable_def Let_def)
  next
    case (Op_Replayable current retain)
    then show ?thesis
      using keeps[of "\<lambda>records. pruneObservabilityBufferRecords records retain"
          "\<lambda>records. replayableObservabilityBufferRecords (pruneObservabilityBufferRecords records retain) current"] assms(2,9) prune_keeps
      by (cases "Replayable os js current retain (s, d)") (auto simp: Replayable_def Let_def)
  next
    case (Op_Ack windows retain)
    then show ?thesis
      using keeps[of "\<lambda>records. pruneObservabilityBufferRecords (remove_acked windows records) retain" "\<lambda>_. ()"] assms(1,2,6,9) ack_keeps
      by (cases "Ack os js windows retain (s, d)") (auto simp: Ack_def return_def split: if_splits)
  next
    case Op_Restart
    then show ?thesis using assms(1,6,7,9) by (auto simp: holds_cover_def new_store_def stored_def Clean_idem)
  qed
qed

lemma buffer_ops_hold:
  assumes "holds_cover js (has_cover R q) (s, d)" "\<forall>(os, op) \<in> set ops. plain_names os \<and> \<not> gives_up (window q) op \<and> (\<forall>x \<in> upserted op. window x = window q \<longrightarrow> x \<in> R)"
    and "\<And>records. codes js records" "cs_path s = Clean p" "IsAbs p" "path_elems p \<noteq> []"
    and "fold (run_buffer_op js) ops (s, d) = (s', d')"
  shows "holds_cover js (has_cover R q) (s', d') \<and> cs_path s' = Clean p"
  using assms(1,2,4,7)
proof (induction ops arbitrary: s d)
  case (Cons x ops)
  obtain os op where x: "x = (os, op)" by fastforce
  obtain s1 d1 where one: "run_buffer_op js (os, op) (s, d) = (s1, d1)" by fastforce
  have "holds_cover js (has_cover R q) (s1, d1) \<and> cs_path s1 = Clean p"
    using buffer_op_holds[OF Cons.prems(1) _ _ assms(3) _ Cons.prems(3) assms(5,6) one] Cons.prems(2) x by simp
  then show ?case using Cons.IH[of s1 d1] Cons.prems(2,4) x one by simp
qed simp

text \<open>A store is in step when its cache, if it has one, is what its file holds, and the file counts nothing zero times (the comparison of
  records takes a count of zero for a missing one). It is so when it is opened and after each of its operations that succeeds; an error
  of a system call within a save may leave the cache behind the file.\<close>

abbreviation buffer_coherent :: "ObservabilityBufferRecord list json \<Rightarrow> ObservabilityBufferStore \<Rightarrow> disk \<Rightarrow> bool" where
  "buffer_coherent js s d \<equiv> coherent [] counted js s d"

lemma buffer_coherent_new: "(\<And>v. stored [] js (new_store p) d = Some v \<Longrightarrow> counted v) \<Longrightarrow> buffer_coherent js (new_store p) d"
  by (simp add: coherent_def new_store_def)

lemma saved_holds:
  assumes "buffer_coherent js s d" "cs_loaded s" "codes js records" "P records"
    and "buffer_saveUnlocked os js records (s, d) = (Inr (), (s', d'))"
  shows "holds_cover js P (s', d') \<and> cs_path s' = cs_path s"
proof (cases "cs_encodedCanonical s \<and> observabilityBufferRecordsEqual (case cs_cache s of None \<Rightarrow> [] | Some c \<Rightarrow> c) records")
  case True
  then have eq: "s' = s" "d' = d" using assms(2,5) by (simp_all add: buffer_saveUnlocked_def)
  have "cs_cache s = stored [] js s d" "cs_cache s \<noteq> None" "\<forall>v. stored [] js s d = Some v \<longrightarrow> counted v"
    using assms(1,2) unfolding coherent_def by blast+
  then obtain c where c: "cs_cache s = Some c" "stored [] js s d = Some c" "counted c" by (metis not_None_eq)
  then have "c = records" using True records_equal_eq by simp
  then show ?thesis using c assms(4) eq by (simp add: holds_cover_def)
next
  case False
  then have "write_back os js records (s, d) = (Inr (), (s', d'))" using assms(5) by (auto simp: buffer_saveUnlocked_def split: if_splits)
  moreover have "coherent [] (\<lambda>_. True) js s d" using assms(1) unfolding coherent_def by blast
  ultimately have w: "cs_path s' = cs_path s" "stored [] js s' d' = Some records" "coherent [] (\<lambda>_. True) js s' d'"
    using write_back_file[OF _ assms(3)] by simp_all
  then have "cs_loaded s' \<longrightarrow> cs_cache s' = Some records" by (simp add: coherent_def)
  then show ?thesis using w assms(4) by (simp add: holds_cover_def)
qed

lemma upserted_holds:
  assumes "buffer_coherent js s d" "\<And>records. codes js records" "\<not> nothing_measured r" "r \<in> R"
    and "Upsert os js r retain (s, d) = (Inr (), (s', d'))"
  shows "holds_cover js (has_cover R r) (s', d') \<and> cs_path s' = cs_path s"
proof -
  from assms(3,5) obtain records s1 d1 where
    load: "buffer_loadUnlocked os js (s, d) = (Inr records, (s1, d1))"
    and save: "buffer_saveUnlocked os js (upsertObservabilityBufferRecord records r retain) (s1, d1) = (Inr (), (s', d'))"
    by (auto simp: Upsert_def andThen_Inr)
  note l = buffer_load_file[OF assms(1) load]
  show ?thesis using saved_holds[where P = "has_cover R r", OF _ _ assms(2) upsert_covers[OF assms(3,4)] save] l by simp
qed


definition example_record :: ObservabilityBufferRecord where
  "example_record = \<lparr>br_WindowStartedAtUnix = 60, br_Snapshot = None, br_TrafficReport = None,
    br_AccessLogs = [\<lparr>al_LoggedAtUnix = 61, al_RemoteAddr = ''a'', al_Host = ''h'', al_Path = ''/'', al_StatusCode = 200, al_Reason = [],
      al_CacheStatus = [], al_RequestBytes = 1, al_ResponseBytes = 2, al_UpstreamBytes = 0\<rparr>], br_QueuedAtUnix = 62\<rparr>"

definition is_example_record :: "ObservabilityBufferRecord \<Rightarrow> bool" where
  "is_example_record r \<longleftrightarrow> window r = 60 \<and> br_Snapshot r = None \<and> br_TrafficReport r = None
    \<and> br_AccessLogs r = br_AccessLogs example_record \<and> br_QueuedAtUnix r = 62"

definition example_buffer_json :: "ObservabilityBufferRecord list json" where
  "example_buffer_json = \<lparr>
    Marshal = (\<lambda>records. case records of [] \<Rightarrow> Inr ''[]'' | [r] \<Rightarrow> if is_example_record r then Inr ''[r]'' else Inl ''unsupported value''
      | _ \<Rightarrow> Inl ''unsupported value''),
    Unmarshal = (\<lambda>data. if data = ''[]'' then Inr [] else if data = ''[r]'' then Inr [example_record] else Inl ''invalid character'')\<rparr>"

lemma is_example_record: "is_example_record r \<Longrightarrow> r = example_record"
  by (auto simp: is_example_record_def example_record_def intro: ObservabilityBufferRecord.equality)

lemma example_buffer_codes: "codes example_buffer_json records"
  by (auto simp: codes_def example_buffer_json_def dest!: is_example_record split: list.splits if_splits)

lemma plain_names_example: "plain_names quiet_os" "plain_names (sync_fault_os k)"
  using FormatUint_no_char[of "CHR ''/''"] by (auto simp: plain_names_def quiet_os_def sync_fault_os_def)

definition example_buffer_run :: "ObservabilityBufferStore \<times> disk" where
  "example_buffer_run = snd (Upsert quiet_os example_buffer_json example_record 30 (new_store ''/v/b.json'', empty_disk))"

definition example_buffer_ops :: "(os \<times> buffer_op) list" where
  "example_buffer_ops = [(sync_fault_os 14, Op_Ack [120] 30), (quiet_os, Op_Restart), (sync_fault_os 15, Op_Replayable 120 0)]"

lemma example_buffer_steps:
  "fst (Upsert quiet_os example_buffer_json example_record 30 (new_store ''/v/b.json'', empty_disk)) = Inr ()"
  "map_sum id (map window) (fst (Replayable quiet_os example_buffer_json 120 30 (fold (run_buffer_op example_buffer_json) example_buffer_ops example_buffer_run))) = Inr [60]"
  by (code_simp, code_simp)


definition example_buffer :: "ObservabilityBufferRecord list" where
  "example_buffer = [example_record, example_record\<lparr>br_WindowStartedAtUnix := 180\<rparr>]"

theorem buffer_refines_map_witness:
  "window_map (upsertObservabilityBufferRecord example_buffer (example_record\<lparr>br_WindowStartedAtUnix := 120\<rparr>) 100) 60 = None
    \<and> window_map (upsertObservabilityBufferRecord example_buffer (example_record\<lparr>br_WindowStartedAtUnix := 120\<rparr>) 100) 120
      = Some (example_record\<lparr>br_WindowStartedAtUnix := 120\<rparr>)"
proof -
  have ok: "buffer_ok example_buffer" by (simp add: buffer_ok_def example_buffer_def example_record_def)
  show ?thesis
    using buffer_refines_map[OF ok, of "example_record\<lparr>br_WindowStartedAtUnix := 120\<rparr>" 100 60]
      buffer_refines_map[OF ok, of "example_record\<lparr>br_WindowStartedAtUnix := 120\<rparr>" 100 120]
    by (simp add: example_record_def nothing_measured_def retained_def example_buffer_def window_map_def)
qed

end
