(* ===== verification/Agent_Cache.thy ===== *)
theory Agent_Cache
  imports Agent_Files Rate_Limiter
begin

text \<open>
  Purging the cache of the edge (\<open>nginx/manager.go\<close>, from \<open>PurgeCache\<close> to \<open>resolveExistingCachePath\<close>): the
  checks on the directory that the server names, and the removal of all of its entries or of the entries of
  single URLs. The resolution of symbolic links (\<open>EvalSymlinks\<close>), the parser of URLs (\<open>url_lib\<close>), MD5 and
  the cancellation of a request (\<open>done\<close>, by the number of the next system call) are parameters.
\<close>

section \<open>Strings and URLs\<close>

fun split_at :: "(char \<Rightarrow> bool) \<Rightarrow> string \<Rightarrow> string list" where
  "split_at p [] = [[]]"
| "split_at p (c # s) = (if p c then [] # split_at p s else (case split_at p s of [] \<Rightarrow> [[c]] | w # ws \<Rightarrow> (c # w) # ws))"

definition FieldsFunc :: "(char \<Rightarrow> bool) \<Rightarrow> string \<Rightarrow> string list" where
  "FieldsFunc p s = filter (\<lambda>w. w \<noteq> []) (split_at p s)"

record URL =
  u_Scheme :: string
  u_Host :: string
  u_User :: bool
  u_Fragment :: string
  u_Rest :: string

record url_lib =
  url_Parse :: "string \<Rightarrow> URL option"
  url_String :: "URL \<Rightarrow> string"
  url_RequestURI :: "URL \<Rightarrow> string"

text \<open>\<open>URL.Hostname\<close> and \<open>URL.Port\<close>: the port is what follows the last colon, when it is made of digits.\<close>

definition validOptionalPort :: "string \<Rightarrow> bool" where
  "validOptionalPort port = (case port of [] \<Rightarrow> True | c # ds \<Rightarrow> c = CHR '':'' \<and> list_all (\<lambda>d. digit_val d \<noteq> None) ds)"

definition cut_port :: "string \<Rightarrow> string \<times> string" where
  "cut_port hostPort =
    (let tail = rev (takeWhile (\<lambda>c. c \<noteq> CHR '':'') (rev hostPort))
     in if CHR '':'' \<in> set hostPort \<and> validOptionalPort (CHR '':'' # tail)
        then (take (length hostPort - length tail - 1) hostPort, tail) else (hostPort, []))"

definition unbracket :: "string \<Rightarrow> string" where
  "unbracket host = (if HasPrefix host ''['' \<and> HasSuffix host '']'' then take (length host - 2) (drop 1 host) else host)"

definition splitHostPort :: "string \<Rightarrow> string \<times> string" where
  "splitHostPort hostPort = (case cut_port hostPort of (host, port) \<Rightarrow> (unbracket host, port))"

definition Hostname :: "URL \<Rightarrow> string" where
  "Hostname u = fst (splitHostPort (u_Host u))"

definition Port :: "URL \<Rightarrow> string" where
  "Port u = snd (splitHostPort (u_Host u))"

section \<open>Cache directories\<close>

definition isCacheAbsPath :: "string \<Rightarrow> bool" where
  "isCacheAbsPath path \<longleftrightarrow> IsAbs path \<or> HasPrefix path ''/''"

definition cachePathComponents :: "string \<Rightarrow> string list" where
  "cachePathComponents path =
    (let seps = [CHR ''/'', CHR 0x5C];
         parts = FieldsFunc (\<lambda>r. r \<in> set seps) (Trim path seps)
     in filter (\<lambda>w. w \<noteq> []) (map (\<lambda>part. ToLower (TrimSpace part)) parts))"

definition isProtectedCacheDirectory :: "string list \<Rightarrow> bool" where
  "isProtectedCacheDirectory components =
    (case components of
       [] \<Rightarrow> True
     | f # _ \<Rightarrow>
         length components \<le> 2 \<and>
         f \<in> set [''bin'', ''boot'', ''dev'', ''etc'', ''home'', ''lib'', ''lib64'', ''opt'', ''proc'', ''root'', ''run'', ''sbin'',
           ''sys'', ''tmp'', ''usr'', ''var'', ''windows''])"

definition compacted :: "string \<Rightarrow> string" where
  "compacted component = DeleteChars [CHR ''-'', CHR ''_'', CHR ''.'', CHR '' ''] component"

definition looksLikeCDNCacheDirectory :: "string list \<Rightarrow> bool" where
  "looksLikeCDNCacheDirectory components \<longleftrightarrow>
    list_ex (\<lambda>c. Contains (compacted c) ''dushengcdn'') components \<and>
    (list_ex (\<lambda>c. Contains (compacted c) ''cache'') components \<or>
     list_ex (\<lambda>c. Contains (compacted c) ''openresty'' \<or> Contains (compacted c) ''nginx'') components)"

type_synonym links = "string \<Rightarrow> os_error + string"

text \<open>The loop over the parents of a path that does not exist: the first parent that resolves is extended by the
  missing parts. It ends because a parent that differs from its path is shorter, or is \<open>.\<close>.\<close>

definition path_rank :: "string \<Rightarrow> nat" where
  "path_rank p = (if p = ''.'' then 0 else Suc (length p))"

lemma length_Join_le: "xs \<noteq> [] \<Longrightarrow> Suc (length (Join xs ''/'')) = sum_list (map (\<lambda>e. Suc (length e)) xs)"
  by (induction xs) (auto simp: Join_Cons)

lemma length_clean_steps:
  "sum_list (map (\<lambda>e. Suc (length e)) (foldl (clean_step rooted) out es))
    \<le> sum_list (map (\<lambda>e. Suc (length e)) out) + sum_list (map (\<lambda>e. Suc (length e)) es)"
proof (induction es arbitrary: out)
  case (Cons e es)
  have "sum_list (map (\<lambda>e. Suc (length e)) (clean_step rooted out e)) \<le> sum_list (map (\<lambda>e. Suc (length e)) out) + Suc (length e)"
    by (auto simp: clean_step_def split: list.splits)
  then show ?case using Cons.IH[of "clean_step rooted out e"] by simp
qed simp

lemma length_Split: "sum_list (map (\<lambda>e. Suc (length e)) (Split sep s)) = Suc (length s)"
  by (induction s) (auto split: list.splits)

lemma length_Clean: "s \<noteq> [] \<Longrightarrow> length (Clean s) \<le> length s"
proof -
  assume ne: "s \<noteq> []"
  let ?w = "\<lambda>es :: string list. sum_list (map (\<lambda>e. Suc (length e)) es)"
  have rev: "?w (path_elems s) = ?w (foldl (clean_step (IsAbs s)) [] (Split (CHR ''/'') s))"
    by (simp add: path_elems_def rev_map[symmetric] sum_list_rev)
  have bound: "?w (path_elems s) \<le> (if IsAbs s then length s else Suc (length s))"
  proof (cases "IsAbs s")
    case True
    then obtain t where t: "s = CHR ''/'' # t" by (auto simp: IsAbs_iff)
    have "foldl (clean_step True) [] (Split (CHR ''/'') s) = foldl (clean_step True) [] (Split (CHR ''/'') t)"
      by (simp add: t clean_step_def)
    then show ?thesis using length_clean_steps[of True "[]" "Split (CHR ''/'') t"] length_Split[of "CHR ''/''" t] True rev by (simp add: t)
  next
    case False
    then show ?thesis using length_clean_steps[of False "[]" "Split (CHR ''/'') s"] length_Split[of "CHR ''/''" s] rev by simp
  qed
  have pos: "Suc 0 \<le> length s" using ne by (simp add: Suc_le_eq)
  then show ?thesis using bound length_Join_le[of "path_elems s"]
    by (cases "path_elems s = []"; cases "IsAbs s"; cases "Join (path_elems s) ''/'' = []") (simp_all add: Clean_def)
qed

lemma Clean_slash: "q \<noteq> [] \<Longrightarrow> Clean (q @ ''/'') = Clean q"
proof -
  assume q: "q \<noteq> []"
  then have abs: "IsAbs (q @ ''/'') = IsAbs q" by (cases q) (auto simp: IsAbs_iff)
  have "path_elems (q @ ''/'') = path_elems q" unfolding path_elems_def abs Split_concat by (simp add: clean_step_def)
  then show ?thesis unfolding Clean_def abs by simp
qed

lemma Clean_empty: "Clean [] = ''.''"
  by (simp add: Clean_def path_elems_def clean_step_def IsAbs_iff)

lemma parent_rank:
  assumes "filepath_Dir p \<noteq> p"
  shows "path_rank (filepath_Dir p) < path_rank p"
proof (cases p rule: rev_cases)
  case Nil
  then have "filepath_Dir p = ''.''" by (simp add: filepath_Dir_def Clean_def path_elems_def clean_step_def IsAbs_iff)
  then show ?thesis using Nil by (simp add: path_rank_def)
next
  case (snoc q c)
  show ?thesis
  proof (cases "c = CHR ''/''")
    case True
    then have dir: "filepath_Dir p = Clean p" by (simp add: snoc filepath_Dir_def)
    show ?thesis
    proof (cases "q = []")
      case True
      then have "Clean p = p" using snoc \<open>c = _\<close> by (simp add: Clean_def path_elems_def clean_step_def IsAbs_iff)
      then show ?thesis using assms dir by simp
    next
      case False
      then have "length (filepath_Dir p) \<le> length q" using dir length_Clean[of q] Clean_slash[of q] snoc \<open>c = _\<close> by simp
      then show ?thesis using snoc False by (cases q) (auto simp: path_rank_def)
    qed
  next
    case False
    let ?pre = "rev (dropWhile (\<lambda>c. c \<noteq> CHR ''/'') (rev q))"
    have dir: "filepath_Dir p = Clean ?pre" using False by (simp add: snoc filepath_Dir_def)
    have le: "length ?pre \<le> length q" by (metis length_dropWhile_le length_rev)
    show ?thesis
    proof (cases "?pre = []")
      case True
      have "filepath_Dir p = ''.''" unfolding dir True by (rule Clean_empty)
      then show ?thesis using assms by (auto simp: path_rank_def)
    next
      case ne: False
      then have "length (filepath_Dir p) \<le> length q" using dir le length_Clean[OF ne] by simp
      moreover have "p \<noteq> ''.'' \<or> length q = 0" by (auto simp: snoc)
      ultimately show ?thesis using ne le by (auto simp: path_rank_def snoc)
    qed
  qed
qed

function resolve_parents :: "links \<Rightarrow> string \<Rightarrow> string list \<Rightarrow> string \<Rightarrow> string + (string \<times> bool)" where
  "resolve_parents EvalSymlinks cleanPath missingParts current =
    (let parent = filepath_Dir current
     in if parent = current then Inr ([], False)
        else
          (let missingParts = missingParts @ [filepath_Base current]
           in case EvalSymlinks parent of
                Inr resolvedParent \<Rightarrow>
                  (let resolved = Clean (foldl (\<lambda>r part. filepath_Join [r, part]) (Clean resolvedParent) (rev missingParts))
                   in Inr (resolved, resolved \<noteq> cleanPath))
              | Inl Not_Exist \<Rightarrow> resolve_parents EvalSymlinks cleanPath missingParts parent
              | Inl (Os_Error e) \<Rightarrow> Inl (''resolve cache path parent symlink: '' @ e)))"
  by pat_completeness auto
termination
  by (relation "measure (\<lambda>(_, _, _, current). path_rank current)") (auto simp: parent_rank)

declare resolve_parents.simps [simp del]

definition resolveExistingCachePath :: "links \<Rightarrow> string \<Rightarrow> string + (string \<times> bool)" where
  "resolveExistingCachePath EvalSymlinks cleanPath =
    (case EvalSymlinks cleanPath of
       Inr resolvedPath \<Rightarrow> (let resolvedPath = Clean resolvedPath in Inr (resolvedPath, resolvedPath \<noteq> cleanPath))
     | Inl (Os_Error e) \<Rightarrow> Inl (''resolve cache path symlink: '' @ e)
     | Inl Not_Exist \<Rightarrow> resolve_parents EvalSymlinks cleanPath [] cleanPath)"

definition validateResolvedCachePath :: "string \<Rightarrow> string option" where
  "validateResolvedCachePath resolvedPath =
    (let resolvedComponents = cachePathComponents resolvedPath
     in if \<not> isCacheAbsPath resolvedPath \<or> length resolvedComponents < 3 \<or> isProtectedCacheDirectory resolvedComponents \<or>
           \<not> looksLikeCDNCacheDirectory resolvedComponents
        then Some ''cache path symlink resolves outside a dushengcdn cache directory'' else None)"

definition safeCacheDirectory :: "links \<Rightarrow> string \<Rightarrow> string + string" where
  "safeCacheDirectory EvalSymlinks path =
    (let cleanPath = Clean (TrimSpace path)
     in if cleanPath = [] \<or> cleanPath = ''.'' then Inl ''cache path is unsafe''
        else if \<not> isCacheAbsPath cleanPath then Inl ''cache path must be absolute''
        else if cleanPath = ''/'' \<or> cleanPath = [] \<or> length cleanPath < length ''/'' + 4 then Inl ''cache path is too broad''
        else
          (let components = cachePathComponents cleanPath
           in if length components < 3 then Inl ''cache path is too shallow''
              else if isProtectedCacheDirectory components then Inl ''cache path points to a protected directory''
              else if \<not> looksLikeCDNCacheDirectory components
              then Inl ''cache path must clearly be a dushengcdn/openresty cache directory''
              else
                (case resolveExistingCachePath EvalSymlinks cleanPath of
                   Inl e \<Rightarrow> Inl e
                 | Inr (resolvedPath, changed) \<Rightarrow>
                     if changed then
                       (case validateResolvedCachePath resolvedPath of Some e \<Rightarrow> Inl e | None \<Rightarrow> Inr resolvedPath)
                     else Inr cleanPath)))"

section \<open>Entries of URLs\<close>

text \<open>Default ports only, no user information.\<close>

definition default_port :: "URL \<Rightarrow> bool" where
  "default_port u \<longleftrightarrow> Port u = [] \<or> (u_Scheme u = ''http'' \<and> Port u = ''80'') \<or> (u_Scheme u = ''https'' \<and> Port u = ''443'')"

definition http_scheme :: "URL \<Rightarrow> bool" where
  "http_scheme u \<longleftrightarrow> u_Scheme u = ''http'' \<or> u_Scheme u = ''https''"

definition purge_url :: "url_lib \<Rightarrow> string \<Rightarrow> string option" where
  "purge_url lib v =
    (let raw = TrimSpace v
     in if raw = [] then None
        else (case url_Parse lib raw of
            None \<Rightarrow> None
          | Some parsed \<Rightarrow>
              if u_Scheme parsed = [] \<or> u_Host parsed = [] then None
              else if \<not> http_scheme parsed \<or> u_User parsed then None
              else if \<not> default_port parsed then None
              else Some (url_String lib (parsed\<lparr>u_Fragment := [], u_Host := ToLower (u_Host parsed)\<rparr>))))"

definition normalizePurgeURLs :: "url_lib \<Rightarrow> string list \<Rightarrow> string list" where
  "normalizePurgeURLs lib values = unique_values (purge_url lib) values"

definition parse_level :: "string \<Rightarrow> int option" where
  "parse_level field = (case Atoi (TrimSpace field) of Some level \<Rightarrow> if level < 1 \<or> level > 2 then None else Some level | None \<Rightarrow> None)"

fun parse_levels :: "string list \<Rightarrow> int list option" where
  "parse_levels [] = Some []"
| "parse_levels (field # fs) =
    (case parse_level field of None \<Rightarrow> None | Some level \<Rightarrow> map_option (\<lambda>levels. level # levels) (parse_levels fs))"

definition parseProxyCacheLevels :: "string \<Rightarrow> string + int list" where
  "parseProxyCacheLevels raw =
    (let v = TrimSpace raw; v = (if v = [] then ''1:2'' else v);
         fs = Split (CHR '':'') v
     in if fs = [] \<or> length fs > 3 then Inl (''cache_levels '' @ raw @ '' is invalid'')
        else (case parse_levels fs of
            None \<Rightarrow> Inl (''cache_levels '' @ raw @ '' is invalid'')
          | Some levels \<Rightarrow> if sum_list levels > 6 then Inl (''cache_levels '' @ raw @ '' is too deep'') else Inr levels))"

text \<open>The directories of a cache entry: slices of the hash, taken from its end.\<close>

fun level_parts :: "string \<Rightarrow> int \<Rightarrow> int list \<Rightarrow> string list option" where
  "level_parts hash offset [] = Some []"
| "level_parts hash offset (level # levels) =
    (let offset = offset - level
     in if offset < 0 then None
        else map_option (\<lambda>parts. take (nat level) (drop (nat offset) hash) # parts) (level_parts hash offset levels))"

definition ensurePathInside :: "string \<Rightarrow> string \<Rightarrow> string option" where
  "ensurePathInside root target =
    (case Rel root target of
       None \<Rightarrow> Some (''Rel: can't make '' @ target @ '' relative to '' @ root)
     | Some rel \<Rightarrow>
         if rel = ''.'' \<or> rel = ''..'' \<or> HasPrefix rel ''../'' \<or> IsAbs rel
         then Some (''cache target '' @ target @ '' escapes cache root '' @ root) else None)"

definition cacheFilePathForURL :: "url_lib \<Rightarrow> (string \<Rightarrow> string) \<Rightarrow> string \<Rightarrow> int list \<Rightarrow> string \<Rightarrow> string + string" where
  "cacheFilePathForURL lib md5Hex cacheRoot levels targetURL =
    (case url_Parse lib (TrimSpace targetURL) of
       None \<Rightarrow> Inl (''cache purge URL '' @ targetURL @ '' is invalid'')
     | Some parsed \<Rightarrow>
         if u_Scheme parsed = [] \<or> u_Host parsed = [] then Inl (''cache purge URL '' @ targetURL @ '' is invalid'')
         else if \<not> http_scheme parsed \<or> u_User parsed
         then Inl (''cache purge URL '' @ targetURL @ '' must be http/https and must not contain user info'')
         else
           (let parsed = parsed\<lparr>u_Fragment := [], u_Host := ToLower (u_Host parsed)\<rparr>;
                hash = md5Hex (u_Scheme parsed @ u_Host parsed @ url_RequestURI lib parsed)
            in case level_parts hash (int (length hash)) levels of
                 None \<Rightarrow> Inl ''cache levels exceed cache key hash length''
               | Some parts \<Rightarrow>
                   (let target = filepath_Join (cacheRoot # parts @ [hash])
                    in case ensurePathInside cacheRoot target of Some e \<Rightarrow> Inl e | None \<Rightarrow> Inr target)))"

section \<open>Purging\<close>

text \<open>The errors of this part are texts; a quoted value (\<open>%q\<close>) stands in them without its quotes.\<close>

fun os_text :: "os_error \<Rightarrow> string" where
  "os_text Not_Exist = ''no such file or directory''"
| "os_text (Os_Error e) = e"

definition texted :: "string \<Rightarrow> ('s, os_error, 'a) action \<Rightarrow> ('s, string, 'a) action" where
  "texted label m s = (case m s of (Inl e, s) \<Rightarrow> (Inl (label @ os_text e), s) | (Inr x, s) \<Rightarrow> (Inr x, s))"

lemma texted_result: "texted t m s = (r, s') \<Longrightarrow> \<exists>r'. m s = (r', s')"
  by (auto simp: texted_def split: prod.splits sum.splits)

definition below :: "disk \<Rightarrow> location \<Rightarrow> location list" where
  "below d root = filter (strict_prefix root) (map fst (d_files d))"

text \<open>\<open>os.RemoveAll\<close> of a location: every file at it or below it is tried; the first error is reported.\<close>

definition remove_location :: "os \<Rightarrow> location \<Rightarrow> (disk, os_error, unit) action" where
  "remove_location os l = syscall os (\<lambda>d. (Inr (), drop_file l d))"

fun remove_each :: "os \<Rightarrow> location list \<Rightarrow> (disk, os_error, unit) action" where
  "remove_each os [] d = (Inr (), d)"
| "remove_each os (l # ls) d =
    (case remove_location os l d of (r, d) \<Rightarrow> case remove_each os ls d of (r', d) \<Rightarrow> (case r of Inl e \<Rightarrow> (Inl e, d) | Inr _ \<Rightarrow> (r', d)))"

definition RemoveAll :: "os \<Rightarrow> location \<Rightarrow> (disk, os_error, unit) action" where
  "RemoveAll os l d = remove_each os (filter (prefix l) (map fst (d_files d))) d"

text \<open>The names in a directory.\<close>

definition dir_names :: "disk \<Rightarrow> location \<Rightarrow> string list" where
  "dir_names d root = remdups (map (\<lambda>l. l ! length root) (below d root))"

definition cachePurgeReadBatchSize :: nat where
  "cachePurgeReadBatchSize = 256"

definition remove_entry :: "os \<Rightarrow> (nat \<Rightarrow> bool) \<Rightarrow> string \<Rightarrow> string \<Rightarrow> (disk, string, unit) action" where
  "remove_entry os done cleanPath name d =
    (if done (d_calls d) then (Inl ''context canceled'', d)
     else (let target = filepath_Join [cleanPath, name]
       in texted (''remove cache entry '' @ target @ '': '') (RemoveAll os (locate target)) d))"

text \<open>The loop over \<open>Readdirnames\<close>. \<open>names\<close> are the names that the open directory still has to give: those it had when it
  was opened, in batches. A read may fail, and then gives no names; at the end of the directory it gives none and \<open>io.EOF\<close>.\<close>

function remove_batches :: "os \<Rightarrow> (nat \<Rightarrow> bool) \<Rightarrow> string \<Rightarrow> string list \<Rightarrow> (disk, string, unit) action" where
  "remove_batches os done cleanPath names d =
    (case syscall os (\<lambda>d. (if look d (locate cleanPath) \<noteq> None then Inl not_a_directory else Inr (), d)) d of
       (Inl e, d) \<Rightarrow> (Inl (os_text e), d)
     | (Inr _, d) \<Rightarrow>
         if names = [] then (Inr (), d)
         else (case for_each (remove_entry os done cleanPath) (take cachePurgeReadBatchSize names) d of
             (Inl e, d) \<Rightarrow> (Inl e, d)
           | (Inr _, d) \<Rightarrow> remove_batches os done cleanPath (drop cachePurgeReadBatchSize names) d))"
  by pat_completeness auto
termination
  by (relation "measure (\<lambda>(os, done, cleanPath, names, d). length names)") (auto simp: cachePurgeReadBatchSize_def)

declare remove_batches.simps [simp del]

definition removeCacheEntries :: "os \<Rightarrow> (nat \<Rightarrow> bool) \<Rightarrow> string \<Rightarrow> (disk, string, unit) action" where
  "removeCacheEntries os done cleanPath d =
    (case syscall os (\<lambda>d. (if look d (locate cleanPath) = None \<and> \<not> is_dir d (locate cleanPath) then Inl Not_Exist else Inr (), d)) d of
       (Inl Not_Exist, d) \<Rightarrow> (Inr (), d)
     | (Inl (Os_Error e), d) \<Rightarrow> (Inl e, d)
     | (Inr _, d) \<Rightarrow> remove_batches os done cleanPath (dir_names d (locate cleanPath)) d)"

definition removeCacheURLEntries ::
  "os \<Rightarrow> (nat \<Rightarrow> bool) \<Rightarrow> url_lib \<Rightarrow> (string \<Rightarrow> string) \<Rightarrow> string \<Rightarrow> int list \<Rightarrow> string list \<Rightarrow> (disk, string, unit) action" where
  "removeCacheURLEntries os done lib md5Hex cacheRoot levels urls =
    for_each (\<lambda>targetURL d.
        if done (d_calls d) then (Inl ''context canceled'', d)
        else (case cacheFilePathForURL lib md5Hex cacheRoot levels targetURL of
            Inl e \<Rightarrow> (Inl e, d)
          | Inr cacheFile \<Rightarrow>
              (case RemoveFile os cacheFile d of
                 (Inl (Os_Error e), d) \<Rightarrow> (Inl (''remove cache URL entry '' @ cacheFile @ '': '' @ e), d)
               | (_, d) \<Rightarrow> (Inr (), d))))
      urls"

record CacheOperation =
  co_Scope :: string
  co_URLs :: "string list"
  co_CachePath :: string
  co_CacheLevels :: string
  co_CacheKeyTemplate :: string
  co_AllowedHosts :: "string list"

definition PurgeCache ::
  "os \<Rightarrow> (nat \<Rightarrow> bool) \<Rightarrow> links \<Rightarrow> url_lib \<Rightarrow> (string \<Rightarrow> string) \<Rightarrow> CacheOperation \<Rightarrow> (disk, string, unit) action" where
  "PurgeCache os done EvalSymlinks lib md5Hex operation =
    (let scope = ToLower (TrimSpace (co_Scope operation)); scope = (if scope = [] then ''all'' else scope);
         cachePath = TrimSpace (co_CachePath operation)
     in if cachePath = [] then fail ''cache_path is empty''
        else (case safeCacheDirectory EvalSymlinks cachePath of
            Inl e \<Rightarrow> fail e
          | Inr cleanPath \<Rightarrow>
              if scope = ''all'' then removeCacheEntries os done cleanPath
              else if scope = ''url'' then
                (let urls = normalizePurgeURLs lib (co_URLs operation)
                 in if urls = [] then fail ''cache purge scope=url requires at least one URL''
                    else (case parseProxyCacheLevels (co_CacheLevels operation) of
                        Inl e \<Rightarrow> fail e
                      | Inr cacheLevels \<Rightarrow>
                          (let cacheKeyTemplate = TrimSpace (co_CacheKeyTemplate operation);
                               cacheKeyTemplate = (if cacheKeyTemplate = [] then ''$scheme$host$request_uri'' else cacheKeyTemplate)
                           in if cacheKeyTemplate \<noteq> ''$scheme$host$request_uri''
                              then fail (''cache purge scope=url does not support cache_key_template '' @ cacheKeyTemplate @ '' yet'')
                              else removeCacheURLEntries os done lib md5Hex cleanPath cacheLevels urls)))
              else if scope = ''path_prefix'' \<or> scope = ''suffix''
              then fail (''cache purge scope '' @ scope @ '' is not supported yet because cache entries are stored by hashed key'')
              else fail (''cache purge scope '' @ co_Scope operation @ '' is not supported'')))"

section \<open>A purge stays inside a cache directory\<close>

definition cache_directory :: "string \<Rightarrow> bool" where
  "cache_directory root \<longleftrightarrow> IsAbs root \<and> length (cachePathComponents root) \<ge> 3 \<and> looksLikeCDNCacheDirectory (cachePathComponents root)"

lemma isCacheAbsPath_iff: "isCacheAbsPath p \<longleftrightarrow> IsAbs p"
  by (simp add: isCacheAbsPath_def IsAbs_def)

lemma safe_is_cache_directory: "safeCacheDirectory links path = Inr root \<Longrightarrow> cache_directory root"
  by (auto simp: safeCacheDirectory_def cache_directory_def validateResolvedCachePath_def isCacheAbsPath_iff Let_def
    split: if_splits sum.splits option.splits)

text \<open>The test for protected directories never fires: it only applies to paths that are already refused as too shallow.\<close>

lemma protected_test_is_dead: "length components \<ge> 3 \<Longrightarrow> \<not> isProtectedCacheDirectory components"
  by (auto simp: isProtectedCacheDirectory_def split: list.splits)

definition removed :: "(location \<Rightarrow> bool) \<Rightarrow> disk \<Rightarrow> disk \<Rightarrow> bool" where
  "removed P d d' \<longleftrightarrow> (\<forall>l. look d' l = look d l \<or> (P l \<and> look d' l = None))"

lemma removed_refl [simp, intro]: "removed P d d"
  by (simp add: removed_def)

lemma removed_look: "look d' = look d \<Longrightarrow> removed P d d'"
  by (simp add: removed_def)

lemma removed_trans: "removed P d d' \<Longrightarrow> removed P d' d'' \<Longrightarrow> removed P d d''"
  unfolding removed_def by metis

lemma removed_mono: "removed P d d' \<Longrightarrow> (\<And>l. P l \<Longrightarrow> Q l) \<Longrightarrow> removed Q d d'"
  unfolding removed_def by blast

lemma for_each_removed:
  assumes "\<And>x d r d'. x \<in> set xs \<Longrightarrow> f x d = (r, d') \<Longrightarrow> removed P d d'" "for_each f xs d = (r, d')"
  shows "removed P d d'"
  using assms
proof (induction xs arbitrary: d r d')
  case (Cons x xs)
  from Cons.prems(2) have "andThen (f x) (\<lambda>_. for_each f xs) d = (r, d')" by simp
  then show ?case
  proof (cases rule: andThen_cases)
    case (error e)
    then show ?thesis using Cons.prems(1)[of x] by simp
  next
    case (ok y d1)
    then show ?thesis using Cons.prems(1)[of x d _ d1] Cons.IH[OF _ ok(2)] Cons.prems(1) removed_trans by (metis list.set_intros)
  qed
qed (simp add: return_def)

lemma remove_location_removed: "remove_location os l d = (r, d') \<Longrightarrow> removed (\<lambda>k. k = l) d d'"
  by (auto simp: remove_location_def syscall_def Let_def removed_def split: option.splits if_splits)

lemma remove_each_removed: "remove_each os ls d = (r, d') \<Longrightarrow> removed (\<lambda>k. k \<in> set ls) d d'"
proof (induction ls arbitrary: d r d')
  case (Cons l ls)
  obtain r1 d1 where one: "remove_location os l d = (r1, d1)" by fastforce
  obtain r2 d2 where rest: "remove_each os ls d1 = (r2, d2)" by fastforce
  have "d' = d2" using Cons.prems(1) one rest by (auto split: sum.splits)
  moreover have "removed (\<lambda>k. k \<in> set (l # ls)) d d1" using removed_mono[OF remove_location_removed[OF one]] by simp
  moreover have "removed (\<lambda>k. k \<in> set (l # ls)) d1 d2" using removed_mono[OF Cons.IH[OF rest]] by simp
  ultimately show ?case using removed_trans by blast
qed simp

lemma RemoveAll_removed: "RemoveAll os l d = (r, d') \<Longrightarrow> removed (prefix l) d d'"
  unfolding RemoveAll_def by (rule removed_mono[OF remove_each_removed]) auto

lemma dir_names_plain:
  assumes "n \<in> set (dir_names d root)"
  shows "\<exists>l. l \<in> fst ` set (d_files d) \<and> prefix (root @ [n]) l"
proof -
  from assms obtain l where l: "l \<in> fst ` set (d_files d)" "strict_prefix root l" "n = l ! length root"
    by (auto simp: dir_names_def below_def)
  then obtain x xs where "l = root @ x # xs" by (auto simp: strict_prefix_def prefix_def neq_Nil_conv)
  then show ?thesis using l by (auto simp: prefix_def intro!: bexI)
qed

text \<open>The locations of a disk are made of plain elements, as the names of a file system are.\<close>

definition disk_ok :: "disk \<Rightarrow> bool" where
  "disk_ok d \<longleftrightarrow> (\<forall>l \<in> fst ` set (d_files d). list_all plain_elem l)"

lemma syscall_look:
  assumes "syscall os (\<lambda>d. (f d, d)) d = (r, d')"
  shows "look d' = look d" "dir_names d' = dir_names d"
  using assms by (auto simp: syscall_def Let_def dir_names_def below_def split: option.splits)

lemma remove_entry_below:
  assumes "IsAbs root" "plain_elem n" "remove_entry os done root n d = (r, d')"
  shows "removed (strict_prefix (locate root)) d d'"
proof (cases "done (d_calls d)")
  case False
  have loc: "locate (filepath_Join [root, n]) = locate root @ [n]" using locate_below[OF assms(1), of "[n]"] assms(2) by simp
  have "texted (''remove cache entry '' @ filepath_Join [root, n] @ '': '') (RemoveAll os (locate root @ [n])) d = (r, d')"
    using assms(3) False by (simp only: remove_entry_def loc Let_def if_False)
  from texted_result[OF this] obtain r' where r': "RemoveAll os (locate root @ [n]) d = (r', d')" ..
  have "prefix (locate root @ [n]) l \<Longrightarrow> strict_prefix (locate root) l" for l by (auto simp: strict_prefix_def prefix_def)
  with RemoveAll_removed[OF r'] show ?thesis by (rule removed_mono)
qed (use assms in \<open>simp add: remove_entry_def\<close>)

lemma remove_batches_below:
  assumes "IsAbs root" "list_all plain_elem names" "remove_batches os done root names d = (r, d')"
  shows "removed (strict_prefix (locate root)) d d'"
  using assms
proof (induction os "done" root names d arbitrary: r d' rule: remove_batches.induct)
  case (1 os "done" root names d)
  let ?read = "syscall os (\<lambda>d. (if look d (locate root) \<noteq> None then Inl not_a_directory else Inr (), d))"
  obtain rd d1 where rd: "?read d = (rd, d1)" by fastforce
  note d1 = removed_look[OF syscall_look(1)[OF rd]]
  obtain rb d2 where rb: "for_each (remove_entry os done root) (take cachePurgeReadBatchSize names) d1 = (rb, d2)" by fastforce
  have "plain_elem n" if "n \<in> set (take cachePurgeReadBatchSize names)" for n
    using in_set_takeD[OF that] "1.prems"(2) by (simp add: list_all_iff)
  then have batch: "removed (strict_prefix (locate root)) d1 d2"
    by (intro for_each_removed[OF _ rb]) (auto intro: remove_entry_below[OF "1.prems"(1)])
  have plain: "list_all plain_elem (drop cachePurgeReadBatchSize names)"
    using "1.prems"(2) by (auto simp: list_all_iff dest: in_set_dropD)
  show ?case
  proof (cases "(\<exists>e. rd = Inl e) \<or> names = []")
    case True
    then have "d' = d1" using "1.prems"(3) rd by (auto simp: remove_batches.simps split: sum.splits)
    then show ?thesis using d1 by simp
  next
    case False
    then obtain u where u: "rd = Inr u" by (cases rd) auto
    have step: "remove_batches os done root names d = (case rb of Inl e \<Rightarrow> (Inl e, d2)
        | Inr _ \<Rightarrow> remove_batches os done root (drop cachePurgeReadBatchSize names) d2)"
      using False u rd rb by (subst remove_batches.simps) (simp split: sum.splits)
    show ?thesis
    proof (cases rb)
      case (Inl e)
      then show ?thesis using step "1.prems"(3) removed_trans[OF d1 batch] by simp
    next
      case (Inr v)
      then have "remove_batches os done root (drop cachePurgeReadBatchSize names) d2 = (r, d')" using step "1.prems"(3) by simp
      from "1.IH"[OF rd[symmetric] u _ rb[symmetric] Inr "1.prems"(1) plain this] False
      show ?thesis using removed_trans[OF removed_trans[OF d1 batch]] by simp
    qed
  qed
qed

lemma removeCacheEntries_below:
  assumes "IsAbs root" "disk_ok d" "removeCacheEntries os done root d = (r, d')"
  shows "removed (strict_prefix (locate root)) d d'"
proof -
  obtain rd d1 where rd: "syscall os (\<lambda>d. (if look d (locate root) = None \<and> \<not> is_dir d (locate root) then Inl Not_Exist else Inr (), d)) d = (rd, d1)"
    by fastforce
  note d1 = removed_look[OF syscall_look(1)[OF rd]]
  have "plain_elem n" if name: "n \<in> set (dir_names d (locate root))" for n
    using dir_names_plain[OF name] assms(2) by (force simp: disk_ok_def prefix_def)
  then have plain: "list_all plain_elem (dir_names d1 (locate root))" by (simp add: syscall_look(2)[OF rd] list_all_iff)
  show ?thesis
  proof (cases rd)
    case (Inl e)
    then show ?thesis using assms(3) rd d1 by (cases e) (auto simp: removeCacheEntries_def)
  next
    case (Inr u)
    then have "remove_batches os done root (dir_names d1 (locate root)) d1 = (r, d')" using assms(3) rd by (simp add: removeCacheEntries_def)
    from removed_trans[OF d1 remove_batches_below[OF assms(1) plain this]] show ?thesis .
  qed
qed

lemma inside_is_below:
  assumes "IsAbs root" "ensurePathInside root target = None" "IsAbs target"
  shows "strict_prefix (locate root) (locate target)"
proof -
  obtain rel where rel: "Rel root target = Some rel" "\<not> escapes rel \<longleftrightarrow> (\<exists>e es. path_elems target = path_elems root @ e # es)"
    using Rel_inside[OF assms(1,3)] by blast
  then have "\<exists>e es. path_elems target = path_elems root @ e # es"
    using assms(2) by (auto simp: ensurePathInside_def escapes_def split: if_splits)
  then show ?thesis using assms(1,3) by (auto simp: locate_def strict_prefix_def prefix_def)
qed

lemma cacheFile_below:
  assumes "IsAbs root" "cacheFilePathForURL lib md5Hex root levels url = Inr target"
  shows "strict_prefix (locate root) (locate target)"
proof -
  from assms(2) obtain parts hash where t: "target = filepath_Join (root # parts @ [hash])" "ensurePathInside root target = None"
    by (auto simp: cacheFilePathForURL_def Let_def split: option.splits if_splits)
  have "root \<noteq> []" using assms(1) by (auto simp: IsAbs_iff)
  then have "IsAbs target" using assms(1) unfolding t(1) filepath_Join_def by (auto simp: Join_Cons IsAbs_iff[of "_ @ _"] IsAbs_iff[of root] )
  then show ?thesis using inside_is_below[OF assms(1) t(2)] by simp
qed

lemma removeCacheURLEntries_below:
  assumes "IsAbs root" "removeCacheURLEntries os done lib md5Hex root levels urls d = (r, d')"
  shows "removed (strict_prefix (locate root)) d d'"
proof -
  let ?step = "\<lambda>url d. if done (d_calls d) then (Inl ''context canceled'', d)
        else (case cacheFilePathForURL lib md5Hex root levels url of
            Inl e \<Rightarrow> (Inl e, d)
          | Inr cacheFile \<Rightarrow>
              (case RemoveFile os cacheFile d of
                 (Inl (Os_Error e), d) \<Rightarrow> (Inl (''remove cache URL entry '' @ cacheFile @ '': '' @ e), d)
               | (_, d) \<Rightarrow> (Inr (), d)))"
  have "removed (strict_prefix (locate root)) d d'" if step: "?step url d = (r, d')" for url d r d'
  proof (cases "done (d_calls d)")
    case False
    show ?thesis
    proof (cases "cacheFilePathForURL lib md5Hex root levels url")
      case (Inr cacheFile)
      obtain r1 d1 where rm: "RemoveFile os cacheFile d = (r1, d1)" by fastforce
      have "d' = d1" using step False Inr rm by (auto split: sum.splits os_error.splits)
      then show ?thesis using RemoveFile_cases[OF rm] cacheFile_below[OF assms(1) Inr] by (auto simp: removed_def split: if_splits)
    qed (use step False in auto)
  qed (use step in auto)
  then show ?thesis using for_each_removed[OF _ assms(2)[unfolded removeCacheURLEntries_def]] by blast
qed

text \<open>C16: A purge removes nothing outside a cache directory of the CDN: every file that differs after \<open>PurgeCache\<close>, whether it succeeds or fails,
  was removed and lay strictly below a directory that is absolute, at least three components deep, and whose components name
  dushengcdn and a cache, openresty or nginx; that directory is the requested one, or what the requested one resolves to.\<close>

theorem purge_confined:
  assumes "disk_ok d" "PurgeCache os done EvalSymlinks lib md5Hex operation d = (r, d')" "look d' l \<noteq> look d l"
  shows "\<exists>root. safeCacheDirectory EvalSymlinks (TrimSpace (co_CachePath operation)) = Inr root \<and> cache_directory root
    \<and> strict_prefix (locate root) l \<and> look d' l = None"
proof -
  have "\<exists>root. safeCacheDirectory EvalSymlinks (TrimSpace (co_CachePath operation)) = Inr root
      \<and> (removeCacheEntries os done root d = (r, d')
        \<or> (\<exists>levels urls. removeCacheURLEntries os done lib md5Hex root levels urls d = (r, d')))"
    using assms(2,3) by (auto simp: PurgeCache_def fail_def Let_def split: if_splits sum.splits)
  then obtain root where root: "safeCacheDirectory EvalSymlinks (TrimSpace (co_CachePath operation)) = Inr root"
    and run: "removeCacheEntries os done root d = (r, d')
        \<or> (\<exists>levels urls. removeCacheURLEntries os done lib md5Hex root levels urls d = (r, d'))"
    by blast
  have dir: "cache_directory root" by (rule safe_is_cache_directory[OF root])
  then have "IsAbs root" by (simp add: cache_directory_def)
  then have "removed (strict_prefix (locate root)) d d'"
    using run removeCacheEntries_below[OF _ assms(1)] removeCacheURLEntries_below by blast
  then show ?thesis using root dir assms(3) unfolding removed_def by blast
qed

definition example_purge_disk :: disk where
  "example_purge_disk = \<lparr>d_files = [([''var'', ''cache'', ''dushengcdn'', ''a'', ''b''], \<lparr>f_Data = ''x'', f_Mode = 384\<rparr>),
    ([''etc'', ''passwd''], \<lparr>f_Data = ''y'', f_Mode = 420\<rparr>)], d_calls = 0\<rparr>"

definition example_urls :: url_lib where
  "example_urls = \<lparr>url_Parse = (\<lambda>s. Some \<lparr>u_Scheme = ''http'', u_Host = ''h.example'', u_User = False, u_Fragment = [], u_Rest = s\<rparr>),
    url_String = u_Rest, url_RequestURI = (\<lambda>_. ''/'')\<rparr>"

definition example_purge :: CacheOperation where
  "example_purge = \<lparr>co_Scope = '' ALL '', co_URLs = [], co_CachePath = ''/var/cache/x/../dushengcdn/'', co_CacheLevels = [],
    co_CacheKeyTemplate = [], co_AllowedHosts = []\<rparr>"

definition still_os :: os where
  "still_os = \<lparr>Fault = (\<lambda>_. None), Suffix = (\<lambda>_. [])\<rparr>"

lemma example_purged:
  "look (snd (PurgeCache still_os (\<lambda>_. False) (\<lambda>p. Inr p) example_urls (\<lambda>_. []) example_purge example_purge_disk))
      [''var'', ''cache'', ''dushengcdn'', ''a'', ''b''] = None"
  "look (snd (PurgeCache still_os (\<lambda>_. False) (\<lambda>p. Inr p) example_urls (\<lambda>_. []) example_purge example_purge_disk))
      [''etc'', ''passwd''] \<noteq> None"
  by code_simp+

theorem purge_confined_witness:
  "\<exists>root. safeCacheDirectory (\<lambda>p. Inr p) (TrimSpace (co_CachePath example_purge)) = Inr root \<and> cache_directory root
    \<and> strict_prefix (locate root) [''var'', ''cache'', ''dushengcdn'', ''a'', ''b'']"
proof -
  let ?run = "PurgeCache still_os (\<lambda>_. False) (\<lambda>p. Inr p) example_urls (\<lambda>_. []) example_purge example_purge_disk"
  have "disk_ok example_purge_disk" by code_simp
  moreover have "look (snd ?run) [''var'', ''cache'', ''dushengcdn'', ''a'', ''b''] \<noteq> look example_purge_disk [''var'', ''cache'', ''dushengcdn'', ''a'', ''b'']"
    unfolding example_purged(1) by (simp add: look_def example_purge_disk_def)
  ultimately show ?thesis using purge_confined[of example_purge_disk still_os "\<lambda>_. False" "\<lambda>p. Inr p" example_urls "\<lambda>_. []" example_purge "fst ?run" "snd ?run"
      "[''var'', ''cache'', ''dushengcdn'', ''a'', ''b'']"] by (metis (no_types, lifting) prod.collapse)
qed

text \<open>The check also accepts the directories of the agent's own configuration.\<close>

lemma own_configuration_is_accepted:
  "safeCacheDirectory (\<lambda>p. Inr p) ''/opt/dushengcdn/data/etc/nginx'' = Inr ''/opt/dushengcdn/data/etc/nginx''"
  by code_simp

text \<open>The file that is removed for a URL is where the cache keeps it: the directories are taken from the end of the
  hash, the first of \<open>levels\<close> from its last bytes.\<close>

lemma level_parts_1_2:
  assumes "length hash = 32"
  shows "level_parts hash (int (length hash)) [1, 2] = Some [[hash ! 31], [hash ! 29, hash ! 30]]"
proof -
  have "take 1 (drop 31 hash) = [hash ! 31]" "take 2 (drop 29 hash) = [hash ! 29, hash ! 30]"
    using assms Cons_nth_drop_Suc[of 31 hash, symmetric] Cons_nth_drop_Suc[of 29 hash, symmetric] Cons_nth_drop_Suc[of 30 hash, symmetric]
    by (simp_all add: numeral_2_eq_2)
  then show ?thesis using assms by simp
qed

lemma parse_levels_bounds: "parse_levels fs = Some levels \<Longrightarrow> list_all (\<lambda>n. n = 1 \<or> n = 2) levels \<and> length levels = length fs"
  by (induction fs arbitrary: levels) (auto simp: parse_level_def split: option.splits if_splits)

lemma level_parts_total:
  assumes "list_all (\<lambda>n. n = 1 \<or> n = 2) levels" "sum_list levels \<le> offset"
  shows "level_parts hash offset levels \<noteq> None"
  using assms
proof (induction levels arbitrary: offset)
  case (Cons n levels)
  have "0 \<le> sum_list levels" using Cons.prems(1) by (induction levels) auto
  then have "\<not> offset - n < 0" "sum_list levels \<le> offset - n" using Cons.prems(2) by auto
  then show ?case using Cons.IH[of "offset - n"] Cons.prems(1) by (simp add: Let_def)
qed simp

end
