(* ===== verification/Agent_Warm.thy ===== *)
theory Agent_Warm
  imports Agent_Cache
begin

text \<open>
  The requests that the edge agent sends on behalf of the server: warming the cache (\<open>nginx/manager.go\<close>, from
  \<open>WarmCache\<close> to \<open>isSafeWarmIP\<close>) and the checks on public addresses (\<open>security/network.go\<close>). Name resolution and
  the dialling of an address are parameters. The HTTP client of the standard library is modelled as far as the
  code configures it: it asks \<open>CheckRedirect\<close> before it follows a redirect.
\<close>

section \<open>Addresses\<close>

text \<open>A prefix by its octets, or by its leading 16-bit groups.\<close>

definition net4 :: "nat list \<Rightarrow> nat \<Rightarrow> netip_prefix" where
  "net4 octs n = Prefix (Addr4 (of_nat (foldl (\<lambda>a g. a * 256 + g) 0 octs))) n"

definition net6 :: "nat list \<Rightarrow> nat \<Rightarrow> netip_prefix" where
  "net6 groups n = Prefix (Addr6 (of_nat (foldl (\<lambda>a g. a * 65536 + g) 0 (groups @ replicate (8 - length groups) 0))) []) n"

definition blockedWarmIPPrefixes :: "netip_prefix list" where
  "blockedWarmIPPrefixes = [
    net4 [0, 0, 0, 0] 8, net4 [100, 64, 0, 0] 10, net4 [192, 0, 0, 0] 24, net4 [192, 0, 2, 0] 24,
    net4 [198, 18, 0, 0] 15, net4 [198, 51, 100, 0] 24, net4 [203, 0, 113, 0] 24, net4 [240, 0, 0, 0] 4,
    net6 [0x100] 64, net6 [0x2001] 23, net6 [0x2001, 0xDB8] 32]"

definition blockedPublicValidationPrefixes :: "netip_prefix list" where
  "blockedPublicValidationPrefixes = [
    net4 [0, 0, 0, 0] 8, net4 [100, 64, 0, 0] 10, net4 [127, 0, 0, 0] 8, net4 [169, 254, 0, 0] 16,
    net4 [169, 254, 169, 254] 32, net4 [192, 0, 0, 0] 24, net4 [192, 0, 2, 0] 24, net4 [198, 18, 0, 0] 15,
    net4 [198, 51, 100, 0] 24, net4 [203, 0, 113, 0] 24, net4 [240, 0, 0, 0] 4, net4 [100, 100, 100, 200] 32,
    net6 [] 128, net6 [] 96, net6 [0, 0, 0, 0, 0, 0, 0, 0x1] 128, net6 [0x64, 0xFF9B] 96,
    net6 [0x64, 0xFF9B, 0x1] 48, net6 [0x100] 64, net6 [0x2001, 0x2] 48, net6 [0x2001, 0x20] 28,
    net6 [0x2001, 0xDB8] 32, net6 [0x2002] 16, net6 [0xFC00] 7, net6 [0xFE80] 10,
    net6 [0xFD00, 0xEC2, 0, 0, 0, 0, 0, 0x254] 128]"

text \<open>\<open>netip.AddrFromSlice\<close> followed by \<open>Unmap\<close>. The classes of the address agree with those of the slice.\<close>

fun AddrFromSlice :: "net_ip \<Rightarrow> netip_addr" where
  "AddrFromSlice (IP4 w) = Addr4 w"
| "AddrFromSlice (IP16 w) = Addr6 w []"

definition isSafeWarmIP :: "net_ip option \<Rightarrow> bool" where
  "isSafeWarmIP ip =
    (case ip of
       None \<Rightarrow> False
     | Some ip \<Rightarrow>
         (let addr = Unmap (AddrFromSlice ip)
          in if IsLoopback ip \<or> IsPrivate ip \<or> IsLinkLocalUnicast ip \<or> IsMulticast ip \<or> IsUnspecified ip then False
             else \<not> list_ex (\<lambda>prefix. prefix_contains prefix addr) blockedWarmIPPrefixes))"

text \<open>Link-local multicast addresses are multicast addresses, so the test for them adds nothing.\<close>

definition ValidatePublicIP :: "net_ip option \<Rightarrow> bool" where
  "ValidatePublicIP ip =
    (case ip of
       None \<Rightarrow> False
     | Some ip \<Rightarrow>
         (let ip = shorten ip; addr = Unmap (AddrFromSlice ip)
          in if \<not> IsGlobalUnicast ip \<or> IsPrivate ip \<or> IsLoopback ip \<or> IsLinkLocalUnicast ip \<or> IsMulticast ip \<or> IsUnspecified ip then False
             else \<not> list_ex (\<lambda>prefix. prefix_contains prefix addr) blockedPublicValidationPrefixes))"

definition ValidatePublicHostname :: "string \<Rightarrow> string option" where
  "ValidatePublicHostname hostname =
    (let hostname = Trim (ToLower (TrimSpace hostname)) ''[]''
     in if hostname = [] then Some ''host is empty''
        else if Contains hostname ''%'' then Some (''host '' @ hostname @ '' is not allowed'')
        else (case ParseIP hostname of
            Some ip \<Rightarrow> if ValidatePublicIP (Some ip) then None else Some ''ip is not allowed''
          | None \<Rightarrow>
              if EqualFold hostname ''localhost'' \<or> HasSuffix hostname ''.localhost'' then Some (''host '' @ hostname @ '' is not allowed'')
              else None))"

definition ValidatePublicHTTPURL :: "url_lib \<Rightarrow> string \<Rightarrow> bool \<Rightarrow> string + URL" where
  "ValidatePublicHTTPURL lib rawURL requireHTTPS =
    (case url_Parse lib (TrimSpace rawURL) of
       None \<Rightarrow> Inl ''invalid URL''
     | Some parsed \<Rightarrow>
         if u_Scheme parsed = [] \<or> u_Host parsed = [] then Inl ''url must include scheme and host''
         else
           (let scheme = ToLower (u_Scheme parsed)
            in if requireHTTPS \<and> scheme \<noteq> ''https'' then Inl ''url must use https''
               else if \<not> requireHTTPS \<and> scheme \<noteq> ''http'' \<and> scheme \<noteq> ''https'' then Inl ''url must use http or https''
               else if u_User parsed then Inl ''url must not include userinfo''
               else (case ValidatePublicHostname (Hostname parsed) of Some e \<Rightarrow> Inl e | None \<Rightarrow> Inr parsed)))"

section \<open>Dialling\<close>

text \<open>The resolver of names, whose answers may lack an address, and the outcome of a connection to an address.\<close>

record net_env =
  LookupIPAddr :: "string \<Rightarrow> string + net_ip option list"
  DialContext :: "string \<Rightarrow> net_ip \<Rightarrow> string option"

definition port_of :: "string \<Rightarrow> string" where
  "port_of address = (case CutLast address CHR '':'' of None \<Rightarrow> [] | Some (_, port) \<Rightarrow> port)"

definition resolveWarmHost :: "net_env \<Rightarrow> string \<Rightarrow> string + net_ip list" where
  "resolveWarmHost env host =
    (let host = Trim host ''[]''
     in case ParseIP host of
          Some ip \<Rightarrow> Inr [ip]
        | None \<Rightarrow> (case LookupIPAddr env host of Inl e \<Rightarrow> Inl e | Inr addrs \<Rightarrow> Inr (List.map_filter id addrs)))"

text \<open>The loop over the addresses returns the addresses it dialled, in order, besides its result.\<close>

fun dial_each :: "net_env \<Rightarrow> string \<Rightarrow> string \<Rightarrow> string option \<Rightarrow> net_ip list \<Rightarrow> net_ip list \<times> (string + net_ip)" where
  "dial_each env network none lastErr [] = ([], Inl (case lastErr of Some e \<Rightarrow> e | None \<Rightarrow> none))"
| "dial_each env network none lastErr (ip # ips) =
    (case DialContext env network ip of
       None \<Rightarrow> ([ip], Inr ip)
     | Some e \<Rightarrow> (case dial_each env network none (Some e) ips of (dialled, r) \<Rightarrow> (ip # dialled, r)))"

definition fits_network :: "string \<Rightarrow> net_ip \<Rightarrow> bool" where
  "fits_network network ip \<longleftrightarrow> \<not> (network = ''tcp4'' \<and> To4 ip = None) \<and> \<not> (network = ''tcp6'' \<and> To4 ip \<noteq> None)"

definition safeWarmDialContext :: "net_env \<Rightarrow> string \<Rightarrow> string \<Rightarrow> net_ip list \<times> (string + net_ip)" where
  "safeWarmDialContext env network address =
    (if network \<notin> set [''tcp'', ''tcp4'', ''tcp6''] then ([], Inl (''warm cache network '' @ network @ '' is not allowed''))
     else (case SplitHostPort address of
         None \<Rightarrow> ([], Inl ''invalid address'')
       | Some host \<Rightarrow>
           (case resolveWarmHost env host of
              Inl e \<Rightarrow> ([], Inl e)
            | Inr ips \<Rightarrow>
                if ips = [] then ([], Inl (''warm cache host '' @ host @ '' resolved to no addresses''))
                else (case List.find (\<lambda>ip. \<not> isSafeWarmIP (Some ip)) ips of
                    Some ip \<Rightarrow> ([], Inl (''warm cache target '' @ host @ '' resolved to blocked address '' @ IP_String ip))
                  | None \<Rightarrow>
                      dial_each env network (''warm cache host '' @ host @ '' has no address for network '' @ network) None
                        (filter (fits_network network) ips)))))"

definition resolvePublicDialTargets :: "net_env \<Rightarrow> string \<Rightarrow> string + net_ip list" where
  "resolvePublicDialTargets env host =
    (case ValidatePublicHostname host of
       Some e \<Rightarrow> Inl e
     | None \<Rightarrow>
         (case ParseIP (Trim host ''[]'') of
            Some ip \<Rightarrow> if ValidatePublicIP (Some ip) then Inr [ip] else Inl ''ip is not allowed''
          | None \<Rightarrow>
              (case LookupIPAddr env host of
                 Inl e \<Rightarrow> Inl e
               | Inr addresses \<Rightarrow>
                   if addresses = [] then Inl (''host '' @ host @ '' has no addresses'')
                   else if list_all ValidatePublicIP addresses then Inr (List.map_filter id addresses)
                   else Inl ''ip is not allowed'')))"

definition public_dial :: "net_env \<Rightarrow> string \<Rightarrow> string \<Rightarrow> net_ip list \<times> (string + net_ip)" where
  "public_dial env network address =
    (case SplitHostPort address of
       None \<Rightarrow> ([], Inl ''invalid address'')
     | Some host \<Rightarrow>
         (case resolvePublicDialTargets env host of
            Inl e \<Rightarrow> ([], Inl e)
          | Inr targets \<Rightarrow> dial_each env network (''host '' @ host @ '' has no dialable addresses'') None targets))"

section \<open>Warming\<close>

definition warmURLHostname :: "URL \<Rightarrow> string" where
  "warmURLHostname parsed = TrimSuffix (ToLower (TrimSpace (Hostname parsed))) ''.''"

definition host_only :: "string \<Rightarrow> URL" where
  "host_only host = \<lparr>u_Scheme = [], u_Host = host, u_User = False, u_Fragment = [], u_Rest = []\<rparr>"

definition warm_allowed_host :: "string \<Rightarrow> string option" where
  "warm_allowed_host v =
    (let host = warmURLHostname (host_only (TrimSpace v));
         host = (if host = [] then TrimSuffix (ToLower (TrimSpace v)) ''.'' else host)
     in if host = [] \<or> list_ex (\<lambda>c. c \<in> set [CHR ''/'', CHR 0x5C, CHR '':'']) host then None else Some host)"

definition normalizeWarmAllowedHosts :: "string list \<Rightarrow> string list" where
  "normalizeWarmAllowedHosts values = unique_values warm_allowed_host values"

definition one_label_below :: "string \<Rightarrow> string \<Rightarrow> bool" where
  "one_label_below host allowed \<longleftrightarrow>
    HasPrefix allowed ''*.'' \<and>
    (let suffix = TrimPrefix allowed ''*.''
     in suffix \<noteq> [] \<and> HasSuffix host (''.'' @ suffix) \<and>
        (let label = TrimSuffix host (''.'' @ suffix) in label \<noteq> [] \<and> \<not> Contains label ''.''))"

definition warmHostAllowed :: "string \<Rightarrow> string list \<Rightarrow> bool" where
  "warmHostAllowed host allowedHosts =
    (let host = TrimSuffix (ToLower (TrimSpace host)) ''.''
     in host \<noteq> [] \<and>
        list_ex (\<lambda>allowedHost.
          let allowed = TrimSuffix (ToLower (TrimSpace allowedHost)) ''.''
          in allowed \<noteq> [] \<and> (allowed = host \<or> one_label_below host allowed)) allowedHosts)"

definition isWarmURLAllowed :: "URL \<Rightarrow> string list \<Rightarrow> bool" where
  "isWarmURLAllowed parsed allowedHosts \<longleftrightarrow>
    http_scheme parsed \<and> u_Host parsed \<noteq> [] \<and> \<not> u_User parsed \<and>
    (let host = warmURLHostname parsed in host \<noteq> [] \<and> warmHostAllowed host allowedHosts) \<and> default_port parsed"

definition warm_url :: "url_lib \<Rightarrow> string list \<Rightarrow> string \<Rightarrow> string option" where
  "warm_url lib allowedHosts v =
    (let raw = TrimSpace v
     in if raw = [] then None
        else (case url_Parse lib raw of
            None \<Rightarrow> None
          | Some parsed \<Rightarrow>
              if u_Scheme parsed = [] \<or> u_Host parsed = [] then None
              else if \<not> isWarmURLAllowed parsed allowedHosts then None
              else Some (url_String lib (parsed\<lparr>u_Fragment := [], u_Host := ToLower (u_Host parsed)\<rparr>))))"

definition normalizeWarmURLs :: "url_lib \<Rightarrow> string list \<Rightarrow> string list \<Rightarrow> string list" where
  "normalizeWarmURLs lib values allowedHosts = unique_values (warm_url lib allowedHosts) values"

definition maxWarmCacheRedirects :: nat where
  "maxWarmCacheRedirects = 5"

definition CheckRedirect :: "string list \<Rightarrow> URL option \<Rightarrow> URL list \<Rightarrow> string option" where
  "CheckRedirect allowedHosts req via =
    (if length via \<ge> maxWarmCacheRedirects then Some ''warm cache redirect limit exceeded''
     else (case req of
         None \<Rightarrow> Some ''warm cache redirect target is unsafe''
       | Some u \<Rightarrow>
           if \<not> isWarmURLAllowed u allowedHosts then Some ''warm cache redirect target is unsafe''
           else if via \<noteq> [] \<and> \<not> EqualFold (warmURLHostname u) (warmURLHostname (hd via)) then Some ''warm cache redirect changed host''
           else None))"

text \<open>The client: a request fails, ends with a status or asks for another URL. \<open>via\<close> holds the requests made, the
  first one first; the requests sent are returned.\<close>

datatype fetch_result = Fetch_Failed string | Fetch_Status int | Fetch_Redirect "URL option"

function client_Do :: "(URL \<Rightarrow> fetch_result) \<Rightarrow> string list \<Rightarrow> URL list \<Rightarrow> URL \<Rightarrow> URL list \<times> (string + int)" where
  "client_Do fetch allowedHosts via req =
    (case fetch req of
       Fetch_Failed e \<Rightarrow> (via @ [req], Inl e)
     | Fetch_Status status \<Rightarrow> (via @ [req], Inr status)
     | Fetch_Redirect target \<Rightarrow>
         (case CheckRedirect allowedHosts target (via @ [req]) of
            Some e \<Rightarrow> (via @ [req], Inl e)
          | None \<Rightarrow> (case target of None \<Rightarrow> (via @ [req], Inl ''nil request'') | Some u \<Rightarrow> client_Do fetch allowedHosts (via @ [req]) u)))"
  by pat_completeness auto
termination
  by (relation "measure (\<lambda>(_, _, via, _). maxWarmCacheRedirects - length via)")
    (auto simp: CheckRedirect_def maxWarmCacheRedirects_def split: if_splits)

declare client_Do.simps [simp del]

fun warm_each :: "(URL \<Rightarrow> fetch_result) \<Rightarrow> url_lib \<Rightarrow> string list \<Rightarrow> string list \<Rightarrow> URL list list \<times> string option" where
  "warm_each fetch lib allowedHosts [] = ([], None)"
| "warm_each fetch lib allowedHosts (targetURL # urls) =
    (case url_Parse lib targetURL of
       None \<Rightarrow> ([], Some ''invalid URL'')
     | Some req \<Rightarrow>
         (case client_Do fetch allowedHosts [] req of
            (sent, Inl e) \<Rightarrow> ([sent], Some (''warm cache '' @ targetURL @ '' failed: '' @ e))
          | (sent, Inr status) \<Rightarrow>
              if status \<ge> 500 then ([sent], Some (''warm cache '' @ targetURL @ '' returned '' @ FormatInt status))
              else (case warm_each fetch lib allowedHosts urls of (rest, r) \<Rightarrow> (sent # rest, r))))"

definition WarmCache :: "(URL \<Rightarrow> fetch_result) \<Rightarrow> url_lib \<Rightarrow> CacheOperation \<Rightarrow> URL list list \<times> string option" where
  "WarmCache fetch lib operation =
    (let allowedHosts = normalizeWarmAllowedHosts (co_AllowedHosts operation)
     in if allowedHosts = [] then ([], Some ''cache warm requires allowed route hosts'')
        else
          (let urls = normalizeWarmURLs lib (co_URLs operation) allowedHosts
           in if urls = [] then ([], Some ''cache warm requires at least one URL'')
              else warm_each fetch lib allowedHosts urls))"

section \<open>Only safe addresses are dialled\<close>

lemma dial_each_trace:
  assumes "dial_each env network none lastErr ips = (dialled, r)"
  shows "set dialled \<subseteq> set ips \<and> (\<forall>ip. r = Inr ip \<longrightarrow> ip \<in> set dialled)"
  using assms
proof (induction ips arbitrary: lastErr dialled)
  case (Cons ip ips)
  show ?case
  proof (cases "DialContext env network ip")
    case (Some e)
    obtain d r' where d: "dial_each env network none (Some e) ips = (d, r')" by fastforce
    then have "dialled = ip # d" "r' = r" using Cons.prems Some by simp_all
    then show ?thesis using Cons.IH d by auto
  qed (use Cons.prems in auto)
qed auto

lemma find_None_all: "List.find P xs = None \<longleftrightarrow> list_all (\<lambda>x. \<not> P x) xs"
  by (simp add: find_None_iff list_all_iff) blast

text \<open>What the two tests exclude among the IPv4 addresses, written out.\<close>

definition public_v4 :: "32 word \<Rightarrow> bool" where
  "public_v4 w \<longleftrightarrow> drop_bit 24 w \<noteq> 0 \<and> drop_bit 24 w \<noteq> 10 \<and> drop_bit 24 w \<noteq> 127 \<and> drop_bit 20 w \<noteq> 0xAC1 \<and> drop_bit 16 w \<noteq> 0xC0A8
    \<and> drop_bit 16 w \<noteq> 0xA9FE \<and> drop_bit 22 w \<noteq> 0x191 \<and> drop_bit 28 w \<noteq> 0xE \<and> drop_bit 28 w \<noteq> 0xF"

lemma blocked_v4:
  "list_ex (\<lambda>p. prefix_contains p (Addr4 w)) blockedWarmIPPrefixes \<longleftrightarrow>
    drop_bit 24 w = 0 \<or> drop_bit 22 w = 0x191 \<or> drop_bit 8 w = 0xC00000 \<or> drop_bit 8 w = 0xC00002 \<or> drop_bit 17 w = 0x6309
    \<or> drop_bit 8 w = 0xC63364 \<or> drop_bit 8 w = 0xCB0071 \<or> drop_bit 28 w = 0xF"
proof -
  have "drop_bit 22 (0x64400000 :: 32 word) = 0x191" "drop_bit 8 (0xC0000000 :: 32 word) = 0xC00000" "drop_bit 8 (0xC0000200 :: 32 word) = 0xC00002"
    "drop_bit 17 (0xC6120000 :: 32 word) = 0x6309" "drop_bit 8 (0xC6336400 :: 32 word) = 0xC63364" "drop_bit 8 (0xCB007100 :: 32 word) = 0xCB0071"
    "drop_bit 28 (0xF0000000 :: 32 word) = 0xF"
    by code_simp+
  then show ?thesis by (simp add: blockedWarmIPPrefixes_def net4_def net6_def)
qed

lemma safe_public_v4:
  assumes "isSafeWarmIP (Some ip)" "To4 ip = Some w"
  shows "public_v4 w"
proof -
  have "Unmap (AddrFromSlice ip) = Addr4 w" using assms(2) by (cases ip) (auto split: if_splits)
  then have "\<not> list_ex (\<lambda>p. prefix_contains p (Addr4 w)) blockedWarmIPPrefixes"
    and cl: "\<not> IsLoopback ip" "\<not> IsPrivate ip" "\<not> IsLinkLocalUnicast ip" "\<not> IsMulticast ip"
    using assms(1) by (simp_all add: isSafeWarmIP_def Let_def split: if_splits)
  then show ?thesis unfolding blocked_v4 using assms(2)
    by (simp add: public_v4_def IsLoopback_def IsPrivate_def IsLinkLocalUnicast_def IsMulticast_def)
qed

text \<open>C17: Warming reaches no internal service: every address that \<open>safeWarmDialContext\<close> dials passed the test, none is dialled when one of the addresses of
  the host fails it, and an IPv4 address that passes is not in 0/8, 10/8, 100.64/10, 127/8, 169.254/16, 172.16/12, 192.168/16
  or 224/3.\<close>

theorem warm_dials_public:
  assumes "safeWarmDialContext env network address = (dialled, r)" "ip \<in> set dialled"
  shows "isSafeWarmIP (Some ip) \<and> (\<forall>w. To4 ip = Some w \<longrightarrow> public_v4 w)
    \<and> (\<exists>host ips. SplitHostPort address = Some host \<and> resolveWarmHost env host = Inr ips \<and> list_all (\<lambda>ip. isSafeWarmIP (Some ip)) ips)"
proof -
  from assms obtain host ips where host: "SplitHostPort address = Some host" "resolveWarmHost env host = Inr ips"
    and all: "list_all (\<lambda>ip. isSafeWarmIP (Some ip)) ips"
    and run: "dial_each env network (''warm cache host '' @ host @ '' has no address for network '' @ network) None
      (filter (fits_network network) ips) = (dialled, r)"
    by (auto simp: safeWarmDialContext_def find_None_all split: if_splits option.splits sum.splits)
  have "ip \<in> set ips" using dial_each_trace[OF run] assms(2) by auto
  then have "isSafeWarmIP (Some ip)" using all by (auto simp: list_all_iff)
  then show ?thesis using host all safe_public_v4 by blast
qed

definition example_net :: net_env where
  "example_net = \<lparr>LookupIPAddr = (\<lambda>host. if host = ''mixed.example'' then Inr [Some (IP4 0x08080808), Some (IP4 0x7F000001)]
      else Inr [Some (IP4 0x08080808)]), DialContext = (\<lambda>_ _. None)\<rparr>"

lemma example_dial: "safeWarmDialContext example_net ''tcp'' ''www.example:443'' = ([IP4 0x08080808], Inr (IP4 0x08080808))"
proof -
  have "\<not> list_ex (\<lambda>p. prefix_contains p (Addr4 0x08080808)) blockedWarmIPPrefixes" unfolding blocked_v4 by code_simp
  moreover have "\<not> (IsLoopback (IP4 0x08080808) \<or> IsPrivate (IP4 0x08080808) \<or> IsLinkLocalUnicast (IP4 0x08080808)
      \<or> IsMulticast (IP4 0x08080808) \<or> IsUnspecified (IP4 0x08080808))" by code_simp
  ultimately have safe: "isSafeWarmIP (Some (IP4 0x08080808))" by (simp add: isSafeWarmIP_def)
  have "SplitHostPort ''www.example:443'' = Some ''www.example''" "resolveWarmHost example_net ''www.example'' = Inr [IP4 0x08080808]"
    by code_simp+
  then show ?thesis using safe by (simp add: safeWarmDialContext_def fits_network_def example_net_def)
qed

theorem warm_dials_public_witness: "isSafeWarmIP (Some (IP4 0x08080808)) \<and> public_v4 0x08080808"
  using warm_dials_public[OF example_dial, of "IP4 0x08080808"] by simp

lemma zeros: "replicate 8 (0 :: nat) = [0, 0, 0, 0, 0, 0, 0, 0]" "replicate 7 (0 :: nat) = [0, 0, 0, 0, 0, 0, 0]" "replicate 6 (0 :: nat) = [0, 0, 0, 0, 0, 0]"
  "replicate 5 (0 :: nat) = [0, 0, 0, 0, 0]"
  by (simp_all add: eval_nat_numeral)

lemmas address_tests = isSafeWarmIP_def ValidatePublicIP_def IsGlobalUnicast_def IsLoopback_def IsPrivate_def IsLinkLocalUnicast_def IsMulticast_def
   IsUnspecified_def is4in6_def shorten_def blockedWarmIPPrefixes_def blockedPublicValidationPrefixes_def net4_def net6_def zeros

text \<open>The two tests differ: addresses that embed a private IPv4 address (6to4 and NAT64) are not public, but safe for warming.\<close>

lemma embedded_addresses_differ:
  "isSafeWarmIP (Some (IP16 0x0064FF9B00000000000000007F000001)) \<and> \<not> ValidatePublicIP (Some (IP16 0x0064FF9B00000000000000007F000001))
    \<and> isSafeWarmIP (Some (IP16 0x20027F00000100000000000000000000)) \<and> \<not> ValidatePublicIP (Some (IP16 0x20027F00000100000000000000000000))"
  by (simp add: address_tests)

section \<open>Only allowed URLs are requested\<close>

lemma of_char_ToLower_other:
  "lower_char c = CHR '':'' \<longleftrightarrow> c = CHR '':''" "lower_char c = CHR ''['' \<longleftrightarrow> c = CHR ''[''" "lower_char c = CHR '']'' \<longleftrightarrow> c = CHR '']''"
  "digit_val (lower_char c) = digit_val c" "digit_val c \<noteq> None \<Longrightarrow> lower_char c = c"
proof -
  have l: "(of_char (lower_char c) :: nat) = (if 65 \<le> (of_char c :: nat) \<and> (of_char c :: nat) \<le> 90 then of_char c + 32 else of_char c)"
    using of_char_lower_char[of c] by (simp add: Let_def)
  show "lower_char c = CHR '':'' \<longleftrightarrow> c = CHR '':''" "lower_char c = CHR ''['' \<longleftrightarrow> c = CHR ''[''" "lower_char c = CHR '']'' \<longleftrightarrow> c = CHR '']''"
    unfolding char_eq_of_char l by auto
  show "digit_val (lower_char c) = digit_val c" unfolding digit_val_def l by (auto simp: Let_def)
  show "digit_val c \<noteq> None \<Longrightarrow> lower_char c = c" unfolding char_eq_of_char l by (auto simp: digit_val_def Let_def split: if_splits)
qed

lemma HasPrefix_one: "HasPrefix s [a] \<longleftrightarrow> s \<noteq> [] \<and> hd s = a"
  by (cases s) (auto simp: HasPrefix_def)

lemma HasPrefix_ToLower_one: "(\<And>c. lower_char c = a \<longleftrightarrow> c = a) \<Longrightarrow> HasPrefix (ToLower s) [a] = HasPrefix s [a]"
  by (cases s) (auto simp: HasPrefix_one ToLower_def)

lemma HasSuffix_ToLower_one: "(\<And>c. lower_char c = a \<longleftrightarrow> c = a) \<Longrightarrow> HasSuffix (ToLower s) [a] = HasSuffix s [a]"
  using HasPrefix_ToLower_one[of a "rev s"] by (simp add: HasSuffix_def ToLower_def rev_map)

lemma splitHostPort_ToLower: "splitHostPort (ToLower h) = (ToLower (fst (splitHostPort h)), snd (splitHostPort h))"
proof -
  let ?tail = "rev (takeWhile (\<lambda>c. c \<noteq> CHR '':'') (rev h))"
  note low = of_char_ToLower_other
  have tail: "rev (takeWhile (\<lambda>c. c \<noteq> CHR '':'') (rev (ToLower h))) = ToLower ?tail"
    by (simp add: ToLower_def rev_map takeWhile_map comp_def low)
  have eq: "CHR '':'' = lower_char x \<longleftrightarrow> x = CHR '':''" for x using low(1)[of x] by (metis (no_types))
  have colon: "CHR '':'' \<in> set (ToLower h) \<longleftrightarrow> CHR '':'' \<in> set h"
    by (simp add: ToLower_def image_iff eq)
  have port: "validOptionalPort (CHR '':'' # ToLower ?tail) = validOptionalPort (CHR '':'' # ?tail)"
    by (simp add: validOptionalPort_def ToLower_def list_all_iff low)
  have digits: "ToLower ?tail = ?tail" if "validOptionalPort (CHR '':'' # ?tail)"
    using that by (auto simp: validOptionalPort_def ToLower_def list_all_iff low intro!: map_idI)
  have brackets: "HasPrefix (ToLower s) ''['' = HasPrefix s ''[''" "HasSuffix (ToLower s) '']'' = HasSuffix s '']''" for s
    by (simp_all add: HasPrefix_ToLower_one HasSuffix_ToLower_one low)
  have slices: "take n (ToLower s) = ToLower (take n s)" "drop n (ToLower s) = ToLower (drop n s)" for n s
    by (simp_all add: ToLower_def take_map drop_map)
  have cut: "cut_port (ToLower h) = (ToLower (fst (cut_port h)), snd (cut_port h))"
    unfolding cut_port_def Let_def tail colon port length_ToLower slices
    using digits by (auto split: if_splits)
  have "unbracket (ToLower s) = ToLower (unbracket s)" for s
    unfolding unbracket_def brackets slices length_ToLower by simp
  then show ?thesis unfolding splitHostPort_def cut by (simp split: prod.splits)
qed

lemma warmURLHostname_ToLower: "warmURLHostname (u\<lparr>u_Fragment := f, u_Host := ToLower (u_Host u)\<rparr>) = warmURLHostname u"
  by (simp add: warmURLHostname_def Hostname_def splitHostPort_ToLower TrimSpace_ToLower)

lemma isWarmURLAllowed_ToLower:
  "isWarmURLAllowed u hosts \<Longrightarrow> isWarmURLAllowed (u\<lparr>u_Fragment := f, u_Host := ToLower (u_Host u)\<rparr>) hosts"
  by (simp add: isWarmURLAllowed_def warmURLHostname_ToLower http_scheme_def default_port_def Port_def splitHostPort_ToLower)

text \<open>Two URLs that agree in scheme, host and the presence of user information are allowed or not together.\<close>

definition same_origin :: "URL \<Rightarrow> URL \<Rightarrow> bool" where
  "same_origin u v \<longleftrightarrow> u_Scheme u = u_Scheme v \<and> u_Host u = u_Host v \<and> u_User u = u_User v"

lemma same_origin_allowed: "same_origin u v \<Longrightarrow> isWarmURLAllowed u hosts = isWarmURLAllowed v hosts"
  by (simp add: same_origin_def isWarmURLAllowed_def warmURLHostname_def Hostname_def http_scheme_def default_port_def Port_def)

text \<open>What is relied on of package \<open>net/url\<close>: the text of a parsed URL, its fragment dropped and its host in lower
  case, parses to a URL of the same scheme and host, with user information or without as before.\<close>

definition reparses :: "url_lib \<Rightarrow> bool" where
  "reparses lib \<longleftrightarrow> (\<forall>s u. url_Parse lib s = Some u \<longrightarrow>
    (let w = u\<lparr>u_Fragment := [], u_Host := ToLower (u_Host u)\<rparr> in \<forall>v. url_Parse lib (url_String lib w) = Some v \<longrightarrow> same_origin v w))"

definition chain_ok :: "string list \<Rightarrow> URL list \<Rightarrow> bool" where
  "chain_ok hosts sent \<longleftrightarrow> sent \<noteq> [] \<and> length sent \<le> maxWarmCacheRedirects \<and>
    list_all (\<lambda>u. isWarmURLAllowed u hosts \<and> EqualFold (warmURLHostname u) (warmURLHostname (hd sent))) sent"

lemma client_Do_chain:
  assumes "client_Do fetch hosts via req = (sent, r)" "chain_ok hosts (via @ [req])"
  shows "chain_ok hosts sent"
  using assms
proof (induction fetch hosts via req rule: client_Do.induct)
  case (1 fetch hosts via req)
  show ?case
  proof (cases "fetch req")
    case (Fetch_Redirect target)
    show ?thesis
    proof (cases "CheckRedirect hosts target (via @ [req])")
      case None
      then obtain u where u: "target = Some u" "isWarmURLAllowed u hosts" "length (via @ [req]) < maxWarmCacheRedirects"
        "EqualFold (warmURLHostname u) (warmURLHostname (hd (via @ [req])))"
        by (auto simp: CheckRedirect_def split: if_splits option.splits)
      then have run: "client_Do fetch hosts (via @ [req]) u = (sent, r)"
        using "1.prems"(1) Fetch_Redirect None by (simp add: client_Do.simps[of fetch hosts via req])
      have "chain_ok hosts ((via @ [req]) @ [u])" using "1.prems"(2) u by (cases via) (auto simp: chain_ok_def)
      then show ?thesis using "1.IH"[OF Fetch_Redirect None u(1) run] by blast
    next
      case (Some e)
      then show ?thesis using 1 Fetch_Redirect by (simp add: client_Do.simps[of fetch hosts via req])
    qed
  qed (use 1 in \<open>simp_all add: client_Do.simps[of fetch hosts via req]\<close>)
qed

lemma warm_each_chains:
  assumes "warm_each fetch lib hosts urls = (sents, r)" "reparses lib" "set urls \<subseteq> {y. \<exists>x. warm_url lib hosts x = Some y}"
  shows "list_all (chain_ok hosts) sents"
  using assms(1,3)
proof (induction urls arbitrary: sents r)
  case (Cons url urls)
  then obtain x where "warm_url lib hosts x = Some url" by auto
  then obtain u where u: "url_Parse lib (TrimSpace x) = Some u" "isWarmURLAllowed u hosts"
    "url = url_String lib (u\<lparr>u_Fragment := [], u_Host := ToLower (u_Host u)\<rparr>)"
    by (auto simp: warm_url_def Let_def split: if_splits option.splits)
  show ?case
  proof (cases "url_Parse lib url")
    case (Some req)
    then have "same_origin req (u\<lparr>u_Fragment := [], u_Host := ToLower (u_Host u)\<rparr>)"
      using assms(2) u(1,3) by (auto simp: reparses_def Let_def)
    then have "isWarmURLAllowed req hosts" using same_origin_allowed isWarmURLAllowed_ToLower[OF u(2)] by blast
    then have one: "chain_ok hosts ([] @ [req])" by (simp add: chain_ok_def maxWarmCacheRedirects_def EqualFold_def)
    obtain sent res where run: "client_Do fetch hosts [] req = (sent, res)" by fastforce
    have ok: "chain_ok hosts sent" by (rule client_Do_chain[OF run one])
    obtain rest r2 where rest: "warm_each fetch lib hosts urls = (rest, r2)" by fastforce
    have "list_all (chain_ok hosts) rest" using Cons.IH[OF rest] Cons.prems(2) by simp
    then show ?thesis using Cons.prems(1) Some run ok rest by (auto split: sum.splits if_splits)
  qed (use Cons.prems(1) in simp)
qed simp

text \<open>C18: Warming only requests URLs of the routes: every request that \<open>WarmCache\<close> sends, those that follow a redirect included, is http or https
  on the default port, carries no user information and goes to a host that an allowed host names or covers by its wildcard;
  all requests of one chain go to the same host, and a chain has at most five.\<close>

theorem warm_requests_allowed:
  assumes "reparses lib" "WarmCache fetch lib operation = (sents, r)"
  shows "list_all (chain_ok (normalizeWarmAllowedHosts (co_AllowedHosts operation))) sents"
proof -
  let ?hosts = "normalizeWarmAllowedHosts (co_AllowedHosts operation)"
  have "set (normalizeWarmURLs lib urls ?hosts) \<subseteq> {y. \<exists>x. warm_url lib ?hosts x = Some y}" for urls
    by (auto simp: normalizeWarmURLs_def set_unique_values)
  then show ?thesis using assms(2) warm_each_chains[OF _ assms(1)]
    by (auto simp: WarmCache_def Let_def split: if_splits)
qed

definition example_warm_urls :: url_lib where
  "example_warm_urls = \<lparr>url_Parse = (\<lambda>s. Some \<lparr>u_Scheme = ''https'', u_Host = s, u_User = False, u_Fragment = [], u_Rest = []\<rparr>),
    url_String = u_Host, url_RequestURI = (\<lambda>_. ''/'')\<rparr>"

definition example_warm :: CacheOperation where
  "example_warm = \<lparr>co_Scope = [], co_URLs = [''A.example:443''], co_CachePath = [], co_CacheLevels = [], co_CacheKeyTemplate = [],
    co_AllowedHosts = ['' *.example. '']\<rparr>"

definition example_fetch :: "URL \<Rightarrow> fetch_result" where
  "example_fetch u = (if u_Host u = ''a.example:443'' then Fetch_Redirect (Some (u\<lparr>u_Host := ''a.example''\<rparr>)) else Fetch_Status 200)"

lemma example_warm_run: "map (map u_Host) (fst (WarmCache example_fetch example_warm_urls example_warm)) = [[''a.example:443'', ''a.example'']]"
  by code_simp

theorem warm_requests_allowed_witness:
  "map length (fst (WarmCache example_fetch example_warm_urls example_warm)) = [2] \<and>
    list_all (chain_ok (normalizeWarmAllowedHosts ['' *.example. ''])) (fst (WarmCache example_fetch example_warm_urls example_warm))"
proof -
  let ?run = "WarmCache example_fetch example_warm_urls example_warm"
  have "reparses example_warm_urls" by (auto simp: reparses_def example_warm_urls_def same_origin_def)
  from warm_requests_allowed[OF this, of example_fetch example_warm "fst ?run" "snd ?run"]
  have "list_all (chain_ok (normalizeWarmAllowedHosts ['' *.example. ''])) (fst ?run)" by (simp add: example_warm_def)
  moreover have "map length (map (map u_Host) (fst ?run)) = [2]" unfolding example_warm_run by simp
  ultimately show ?thesis by (simp add: comp_def)
qed

end
