(* ===== verification/Go_Regexp.thy ===== *)
theory Go_Regexp
  imports Go_Prelude
begin

text \<open>
  Regular expressions of the package \<open>regexp\<close>, as the edge agent uses them: the leftmost match, among the matches
  that start there the first one in the order of preference of the expression (repetition is greedy, alternatives are tried
  from the left), and submatches. Texts are byte strings; \<open>(?i)\<close> folds ASCII letters. The expressions are
  searched by listing all ways to match at a place in the order of preference; their meaning is given apart from that
  order by the relation \<open>rx_in\<close>, and the two are shown to agree.
\<close>

datatype rx =
    Cls "char \<Rightarrow> bool"
  | Empty
  | Line_Start
  | Line_End
  | Word_Edge
  | Seq rx rx
  | Alt rx rx
  | Rep rx
  | Group nat rx

text \<open>A place in a text: the character before it and what follows.\<close>

type_synonym place = "char option \<times> string"
type_synonym submatches = "(nat \<times> string) list"

definition newline :: char where "newline = CHR 0x0A"

definition word_char :: "char \<Rightarrow> bool" where
  "word_char c \<longleftrightarrow> c \<in> set ''ABCDEFGHIJKLMNOPQRSTUVWXYZabcdefghijklmnopqrstuvwxyz0123456789_''"

definition rx_space :: "char \<Rightarrow> bool" where
  "rx_space c \<longleftrightarrow> c = CHR '' '' \<or> c = CHR 0x09 \<or> c = CHR 0x0A \<or> c = CHR 0x0C \<or> c = CHR 0x0D"

definition at_line_start :: "place \<Rightarrow> bool" where
  "at_line_start p \<longleftrightarrow> (case fst p of None \<Rightarrow> True | Some c \<Rightarrow> c = newline)"

definition at_line_end :: "place \<Rightarrow> bool" where
  "at_line_end p \<longleftrightarrow> (case snd p of [] \<Rightarrow> True | c # s \<Rightarrow> c = newline)"

definition at_word_edge :: "place \<Rightarrow> bool" where
  "at_word_edge p \<longleftrightarrow>
    (case fst p of None \<Rightarrow> False | Some c \<Rightarrow> word_char c) \<noteq> (case snd p of [] \<Rightarrow> False | c # s \<Rightarrow> word_char c)"

text \<open>What lies between two places of a text.\<close>

definition between :: "place \<Rightarrow> place \<Rightarrow> string" where
  "between p q = take (length (snd p) - length (snd q)) (snd p)"

definition prefixed :: "submatches \<Rightarrow> (place \<times> submatches) list \<Rightarrow> (place \<times> submatches) list" where
  "prefixed g ms = map (\<lambda>m. (fst m, g @ snd m)) ms"

function rx_all :: "rx \<Rightarrow> place \<Rightarrow> (place \<times> submatches) list" where
  "rx_all (Cls f) p = (case snd p of [] \<Rightarrow> [] | c # s \<Rightarrow> if f c then [((Some c, s), [])] else [])"
| "rx_all Empty p = [(p, [])]"
| "rx_all Line_Start p = (if at_line_start p then [(p, [])] else [])"
| "rx_all Line_End p = (if at_line_end p then [(p, [])] else [])"
| "rx_all Word_Edge p = (if at_word_edge p then [(p, [])] else [])"
| "rx_all (Seq a b) p = concat (map (\<lambda>m. prefixed (snd m) (rx_all b (fst m))) (rx_all a p))"
| "rx_all (Alt a b) p = rx_all a p @ rx_all b p"
| "rx_all (Rep a) p =
    concat (map (\<lambda>m. if length (snd (fst m)) < length (snd p) then prefixed (snd m) (rx_all (Rep a) (fst m)) else []) (rx_all a p))
    @ [(p, [])]"
| "rx_all (Group n a) p = map (\<lambda>(q, g). (q, (n, between p q) # g)) (rx_all a p)"
  by pat_completeness auto
termination
  by (relation "measures [\<lambda>(a, p). size a, \<lambda>(a, p). length (snd p)]") auto

text \<open>Abbreviations of the notation: \<open>e+\<close>, \<open>e?\<close>, a text, a text without regard to case, a choice of texts.\<close>

definition Rep1 :: "rx \<Rightarrow> rx" where "Rep1 a = Seq a (Rep a)"
definition Opt :: "rx \<Rightarrow> rx" where "Opt a = Alt a Empty"

fun Seqs :: "rx list \<Rightarrow> rx" where
  "Seqs [] = Empty"
| "Seqs [a] = a"
| "Seqs (a # as) = Seq a (Seqs as)"

fun Alts :: "rx list \<Rightarrow> rx" where
  "Alts [] = Cls (\<lambda>c. False)"
| "Alts [a] = a"
| "Alts (a # as) = Alt a (Alts as)"

definition Fold :: "string \<Rightarrow> rx" where
  "Fold s = Seqs (map (\<lambda>c. Cls (\<lambda>x. lower_char x = lower_char c)) s)"

definition One_Of :: "string \<Rightarrow> rx" where
  "One_Of s = Cls (\<lambda>c. c \<in> set s)"

definition None_Of :: "string \<Rightarrow> rx" where
  "None_Of s = Cls (\<lambda>c. c \<notin> set s)"

definition Space :: rx where "Space = Cls rx_space"

section \<open>Search and replacement\<close>

text \<open>The preferred match at a place; the expressions of the program never match the empty text (\<open>rx_size\<close> below).\<close>

definition rx_at :: "rx \<Rightarrow> place \<Rightarrow> (place \<times> submatches) option" where
  "rx_at a p = (case rx_all a p of [] \<Rightarrow> None | m # ms \<Rightarrow> if length (snd (fst m)) < length (snd p) then Some m else None)"

lemma rx_at_shorter: "rx_at a p = Some (q, g) \<Longrightarrow> length (snd q) < length (snd p)"
  by (auto simp: rx_at_def split: list.splits if_splits)

text \<open>\<open>FindAllStringSubmatch\<close> and \<open>ReplaceAllString\<close> with a template of the submatches.\<close>

function find_all :: "rx \<Rightarrow> place \<Rightarrow> submatches list" where
  "find_all a p =
    (case rx_at a p of
       Some (q, g) \<Rightarrow> g # find_all a q
     | None \<Rightarrow> (case snd p of [] \<Rightarrow> [] | c # s \<Rightarrow> find_all a (Some c, s)))"
  by pat_completeness auto
termination
  by (relation "measure (\<lambda>(a, p). length (snd p))") (auto dest: rx_at_shorter)

function replace_found :: "rx \<Rightarrow> (submatches \<Rightarrow> string) \<Rightarrow> place \<Rightarrow> string" where
  "replace_found a template p =
    (case rx_at a p of
       Some (q, g) \<Rightarrow> template g @ replace_found a template q
     | None \<Rightarrow> (case snd p of [] \<Rightarrow> [] | c # s \<Rightarrow> c # replace_found a template (Some c, s)))"
  by pat_completeness auto
termination
  by (relation "measure (\<lambda>(a, t, p). length (snd p))") (auto dest: rx_at_shorter)

declare find_all.simps [simp del] replace_found.simps [simp del] rx_all.simps(8) [simp del]

lemma in_prefixed: "(r, k) \<in> set (prefixed g ms) \<longleftrightarrow> (\<exists>h. k = g @ h \<and> (r, h) \<in> set ms)"
  by (auto simp: prefixed_def image_iff) (metis fst_conv snd_conv)

lemma in_concat_map: "x \<in> set (concat (map f ms)) \<longleftrightarrow> (\<exists>q g. (q, g) \<in> set ms \<and> x \<in> set (f (q, g)))"
proof -
  have "x \<in> set (concat (map f ms)) \<longleftrightarrow> (\<exists>m \<in> set ms. x \<in> set (f m))" by simp
  also have "\<dots> \<longleftrightarrow> (\<exists>q g. (q, g) \<in> set ms \<and> x \<in> set (f (q, g)))" by (simp add: Bex_def split_paired_Ex)
  finally show ?thesis .
qed

lemma in_rx_all_Seq:
  "(r, k) \<in> set (rx_all (Seq a b) p) \<longleftrightarrow> (\<exists>q g h. k = g @ h \<and> (q, g) \<in> set (rx_all a p) \<and> (r, h) \<in> set (rx_all b q))"
  unfolding rx_all.simps(6) in_concat_map in_prefixed fst_conv snd_conv by blast

lemma in_rx_all_Rep:
  "(r, k) \<in> set (rx_all (Rep a) p) \<longleftrightarrow> r = p \<and> k = [] \<or>
    (\<exists>q g h. k = g @ h \<and> (q, g) \<in> set (rx_all a p) \<and> length (snd q) < length (snd p) \<and> (r, h) \<in> set (rx_all (Rep a) q))"
proof -
  have "(r, k) \<in> set (if c then prefixed g ms else []) \<longleftrightarrow> c \<and> (r, k) \<in> set (prefixed g ms)" for c g ms by simp
  then show ?thesis unfolding rx_all.simps(8)[of a p] set_append Un_iff in_concat_map in_prefixed fst_conv snd_conv by auto
qed

definition FindAllStringSubmatch :: "rx \<Rightarrow> string \<Rightarrow> submatches list" where
  "FindAllStringSubmatch a s = find_all a (None, s)"

definition ReplaceAllString :: "rx \<Rightarrow> string \<Rightarrow> (submatches \<Rightarrow> string) \<Rightarrow> string" where
  "ReplaceAllString a s template = replace_found a template (None, s)"

definition submatch :: "submatches \<Rightarrow> nat \<Rightarrow> string" where
  "submatch g n = (case map_of g n of None \<Rightarrow> [] | Some s \<Rightarrow> s)"

section \<open>Meaning\<close>

text \<open>\<open>rx_in a p q\<close>: the expression matches what lies between two places.\<close>

inductive rx_in :: "rx \<Rightarrow> place \<Rightarrow> place \<Rightarrow> bool" where
  Cls: "f c \<Longrightarrow> rx_in (Cls f) (b, c # s) (Some c, s)"
| Empty: "rx_in Empty p p"
| Line_Start: "at_line_start p \<Longrightarrow> rx_in Line_Start p p"
| Line_End: "at_line_end p \<Longrightarrow> rx_in Line_End p p"
| Word_Edge: "at_word_edge p \<Longrightarrow> rx_in Word_Edge p p"
| Seq: "rx_in a p q \<Longrightarrow> rx_in b q r \<Longrightarrow> rx_in (Seq a b) p r"
| Alt_left: "rx_in a p q \<Longrightarrow> rx_in (Alt a b) p q"
| Alt_right: "rx_in b p q \<Longrightarrow> rx_in (Alt a b) p q"
| Rep_none: "rx_in (Rep a) p p"
| Rep_more: "rx_in a p q \<Longrightarrow> rx_in (Rep a) q r \<Longrightarrow> rx_in (Rep a) p r"
| Group: "rx_in a p q \<Longrightarrow> rx_in (Group n a) p q"

text \<open>Going forward in a text.\<close>

definition onward :: "place \<Rightarrow> place \<Rightarrow> bool" where
  "onward p q \<longleftrightarrow> (\<exists>w. snd p = w @ snd q \<and> fst q = (if w = [] then fst p else Some (last w)))"

lemma onward_refl [simp, intro]: "onward p p"
  by (simp add: onward_def)

lemma onward_trans: "onward p q \<Longrightarrow> onward q r \<Longrightarrow> onward p r"
  unfolding onward_def by (fastforce split: if_splits)

lemma onward_same: "onward p q \<Longrightarrow> \<not> length (snd q) < length (snd p) \<Longrightarrow> q = p"
  by (cases p; cases q) (auto simp: onward_def)

lemma onward_step: "onward (b, c # s) (Some c, s)"
  by (auto simp: onward_def intro: exI[of _ "[c]"])

lemma rx_in_onward: "rx_in a p q \<Longrightarrow> onward p q"
  by (induction rule: rx_in.induct) (auto intro: onward_trans onward_step)

lemma rx_all_sound: "(q, g) \<in> set (rx_all a p) \<Longrightarrow> rx_in a p q"
proof (induction a p arbitrary: q g rule: rx_all.induct)
  case (1 f p)
  then show ?case by (cases p) (auto intro: rx_in.intros split: list.splits if_splits)
next
  case (6 a b p)
  from 6(3) obtain r h h' where "(r, h) \<in> set (rx_all a p)" "(q, h') \<in> set (rx_all b r)" unfolding in_rx_all_Seq by blast
  then show ?case using 6(1)[of r h] 6(2)[of "(r, h)" q h'] by (auto intro: rx_in.Seq)
next
  case (7 a b p)
  from 7(3) have "(q, g) \<in> set (rx_all a p) \<or> (q, g) \<in> set (rx_all b p)" by simp
  then show ?case using 7(1,2) rx_in.Alt_left rx_in.Alt_right by blast
next
  case (8 a p)
  from 8(3) consider "q = p" | r h h' where "(r, h) \<in> set (rx_all a p)" "length (snd r) < length (snd p)" "(q, h') \<in> set (rx_all (Rep a) r)"
    using in_rx_all_Rep[of q g a p] by blast
  then show ?case
  proof cases
    case 1
    then show ?thesis by (auto intro: rx_in.intros)
  next
    case 2
    then show ?thesis using 8(1)[OF 2(1)] 8(2)[of "(r, h)" q h'] by (auto intro: rx_in.Rep_more)
  qed
next
  case (9 n a p)
  then show ?case by (auto intro: rx_in.intros)
qed (auto intro: rx_in.intros split: if_splits)

lemma rx_all_complete: "rx_in a p q \<Longrightarrow> \<exists>g. (q, g) \<in> set (rx_all a p)"
proof (induction rule: rx_in.induct)
  case (Seq a p q b r)
  then show ?case unfolding in_rx_all_Seq by blast
next
  case (Rep_none a p)
  then show ?case using in_rx_all_Rep[of p "[]" a p] by blast
next
  case (Rep_more a p q r)
  show ?case
  proof (cases "length (snd q) < length (snd p)")
    case True
    from Rep_more.IH obtain g h where "(q, g) \<in> set (rx_all a p)" "(r, h) \<in> set (rx_all (Rep a) q)" by blast
    then have "(r, g @ h) \<in> set (rx_all (Rep a) p)" using True in_rx_all_Rep[of r "g @ h" a p] by blast
    then show ?thesis by blast
  next
    case False
    then have "q = p" using onward_same[OF rx_in_onward[OF Rep_more.hyps(1)]] by simp
    then show ?thesis using Rep_more.IH(2) by simp
  qed
next
  case (Group a p q n)
  then show ?case by force
qed auto

text \<open>The search lists exactly the matches of the expression.\<close>

theorem rx_all_in: "(\<exists>g. (q, g) \<in> set (rx_all a p)) \<longleftrightarrow> rx_in a p q"
  using rx_all_sound rx_all_complete by metis

text \<open>The least number of characters of a match.\<close>

fun rx_size :: "rx \<Rightarrow> nat" where
  "rx_size (Cls f) = 1"
| "rx_size (Seq a b) = rx_size a + rx_size b"
| "rx_size (Alt a b) = min (rx_size a) (rx_size b)"
| "rx_size (Group n a) = rx_size a"
| "rx_size _ = 0"

lemma rx_in_size: "rx_in a p q \<Longrightarrow> length (snd q) + rx_size a \<le> length (snd p)"
  by (induction rule: rx_in.induct) auto

lemma rx_at_None: "0 < rx_size a \<Longrightarrow> rx_at a p = None \<longleftrightarrow> (\<forall>q. \<not> rx_in a p q)"
proof -
  assume size: "0 < rx_size a"
  have "length (snd (fst m)) < length (snd p)" if "m \<in> set (rx_all a p)" for m
    using rx_in_size[OF rx_all_sound[of "fst m" "snd m" a p]] that size by simp
  then have "rx_at a p = None \<longleftrightarrow> rx_all a p = []" by (auto simp: rx_at_def split: list.splits)
  also have "\<dots> \<longleftrightarrow> (\<forall>q g. (q, g) \<notin> set (rx_all a p))" by (metis list.set_intros(1) list.set_cases empty_iff list.set(1) neq_Nil_conv prod.collapse)
  finally show ?thesis using rx_all_in by blast
qed

text \<open>A text in which the expression matches nowhere is left as it is.\<close>

lemma replace_unmatched:
  assumes "0 < rx_size a" "\<forall>q r. onward p q \<longrightarrow> \<not> rx_in a q r"
  shows "replace_found a template p = snd p"
  using assms(2)
proof (induction "snd p" arbitrary: p)
  case Nil
  then have "rx_at a p = None" using rx_at_None[OF assms(1)] by blast
  then show ?case using Nil by (subst replace_found.simps) simp
next
  case (Cons c s)
  then have p: "p = (fst p, c # s)" by (cases p) auto
  have "rx_at a p = None" using Cons.prems rx_at_None[OF assms(1)] by blast
  moreover have "replace_found a template (Some c, s) = s"
    using Cons.hyps(1)[of "(Some c, s)"] Cons.prems onward_trans[OF onward_step[of "fst p" c s]] p by auto
  ultimately show ?case using Cons.hyps(2)[symmetric] by (subst replace_found.simps) simp
qed

end
