(* ===== verification/Agent_Redact.thy ===== *)
theory Agent_Redact
  imports Go_Regexp
begin

text \<open>
  The redaction of secrets in messages (\<open>security/redact.go\<close>): eight expressions that are replaced one after the
  other. The last one hides the values of query parameters that carry secrets; after it no such value is left.
\<close>

definition RedactedValue :: string where "RedactedValue = ''<redacted>''"

definition dquote :: char where "dquote = CHR 0x22"
definition squote :: char where "squote = CHR 0x27"

definition quoted :: "string \<Rightarrow> string" where
  "quoted s = [dquote] @ s @ [dquote]"

definition token_chars :: string where
  "token_chars = ''ABCDEFGHIJKLMNOPQRSTUVWXYZabcdefghijklmnopqrstuvwxyz0123456789._~+/=-''"

definition name_chars :: string where
  "name_chars = ''ABCDEFGHIJKLMNOPQRSTUVWXYZabcdefghijklmnopqrstuvwxyz0123456789_.-''"

definition basicAuthExpectedHashPattern :: rx where
  "basicAuthExpectedHashPattern = Seqs
    [Group 1 (Seqs [Fold ''local'', Rep1 Space, Fold ''expected_hash'', Rep Space, Fold ''='', Rep Space]),
     One_Of [dquote, squote], Rep (None_Of [dquote, squote]), One_Of [dquote, squote]]"

definition basicAuthHashJSONPattern :: rx where
  "basicAuthHashJSONPattern = Seqs
    [Group 1 (Seqs [One_Of [dquote], Alts [Fold ''basic_auth_password_hash'', Fold ''expected_hash''], One_Of [dquote],
       Rep Space, Fold '':'', Rep Space, One_Of [dquote]]),
     Rep (None_Of [dquote]), Group 2 (One_Of [dquote])]"

definition proxySetHeaderPattern :: rx where
  "proxySetHeaderPattern = Seqs
    [Line_Start,
     Group 1 (Seqs [Rep Space, Fold ''proxy_set_header'', Rep1 Space,
       Alts (map Fold [''authorization'', ''cookie'', ''x-api-key'', ''x-auth-token'', ''x-access-token'', ''x-secret'', ''x-token'', ''api-key'', ''apikey'']),
       Rep1 Space]),
     Group 2 (Rep (None_Of '';'')), Group 3 (Seq (One_Of '';'') (Rep Space)), Line_End]"

definition bearerPattern :: rx where
  "bearerPattern = Seqs [Word_Edge, Fold ''Bearer'', Rep1 Space, Rep1 (One_Of token_chars)]"

definition basicPattern :: rx where
  "basicPattern = Seqs [Word_Edge, Fold ''Basic'', Rep1 Space, Rep1 (One_Of token_chars)]"

definition cookiePattern :: rx where
  "cookiePattern = Seqs [Word_Edge, Fold ''Cookie:'', Rep Space, Rep1 (None_Of [CHR 0x0D, CHR 0x0A, CHR '';'']),
    Opt (Seq (One_Of '';'') (Rep (None_Of [CHR 0x0D, CHR 0x0A])))]"

definition keyValueSecretPattern :: rx where
  "keyValueSecretPattern = Seqs
    [Word_Edge,
     Group 1 (Seqs [Rep (One_Of name_chars),
       Alts [Fold ''token'', Fold ''secret'', Fold ''password'', Fold ''passwd'', Fold ''pwd'',
         Seqs [Fold ''api'', Opt (One_Of ''_-''), Fold ''key''], Seqs [Fold ''access'', Opt (One_Of ''_-''), Fold ''key''],
         Fold ''session'', Fold ''signature'', Fold ''authorization'', Fold ''credential''],
       Rep (One_Of name_chars), Rep Space, One_Of '':='', Rep Space]),
     Group 2 (Alts [Seqs [One_Of [dquote], Rep (None_Of [dquote]), One_Of [dquote]],
       Seqs [One_Of [squote], Rep (None_Of [squote]), One_Of [squote]],
       Rep1 (Cls (\<lambda>c. \<not> rx_space c \<and> c \<notin> set '',;&''))])]"

definition query_names :: "string list" where
  "query_names = [''access_token'', ''auth'', ''authorization'', ''code'', ''credential'', ''key'', ''password'', ''passwd'', ''pwd'',
    ''secret'', ''session'', ''signature'', ''state'', ''token'', ''api_key'', ''apikey'', ''x-api-key'']"

definition query_char :: "char \<Rightarrow> bool" where
  "query_char c \<longleftrightarrow> c \<noteq> CHR ''&'' \<and> c \<noteq> CHR ''#'' \<and> \<not> rx_space c"

definition query_start :: "char \<Rightarrow> bool" where
  "query_start c \<longleftrightarrow> c = CHR ''?'' \<or> c = CHR ''&''"

definition querySecretPattern :: rx where
  "querySecretPattern = Seq
    (Group 1 (Seq (Cls query_start) (Seq (Alts (map Fold query_names)) (Cls (\<lambda>c. c = CHR ''='')))))
    (Rep1 (Cls query_char))"

definition RedactSensitiveText :: "string \<Rightarrow> string" where
  "RedactSensitiveText v =
    (if v = [] then []
     else
       (let v = ReplaceAllString basicAuthExpectedHashPattern v (\<lambda>g. submatch g 1 @ quoted RedactedValue);
            v = ReplaceAllString basicAuthHashJSONPattern v (\<lambda>g. submatch g 1 @ RedactedValue @ submatch g 2);
            v = ReplaceAllString proxySetHeaderPattern v (\<lambda>g. submatch g 1 @ quoted RedactedValue @ submatch g 3);
            v = ReplaceAllString bearerPattern v (\<lambda>g. ''Bearer '' @ RedactedValue);
            v = ReplaceAllString basicPattern v (\<lambda>g. ''Basic '' @ RedactedValue);
            v = ReplaceAllString cookiePattern v (\<lambda>g. ''Cookie: '' @ RedactedValue);
            v = ReplaceAllString keyValueSecretPattern v (\<lambda>g. submatch g 1 @ RedactedValue)
        in ReplaceAllString querySecretPattern v (\<lambda>g. submatch g 1 @ RedactedValue)))"

section \<open>Matches of the building blocks\<close>

inductive_simps rx_in_Cls: "rx_in (Cls f) p q"
inductive_simps rx_in_Empty: "rx_in Empty p q"
inductive_simps rx_in_Seq: "rx_in (Seq a b) p r"
inductive_simps rx_in_Alt: "rx_in (Alt a b) p q"
inductive_simps rx_in_Group: "rx_in (Group n a) p q"

lemma Fold_Cons: "rx_in (Fold (c # n)) p q \<longleftrightarrow> (\<exists>r. rx_in (Cls (\<lambda>x. lower_char x = lower_char c)) p r \<and> rx_in (Fold n) r q)"
  by (cases n; cases q) (auto simp: Fold_def rx_in_Empty rx_in_Seq)

lemma rx_in_Fold:
  "rx_in (Fold n) (b, s) q \<longleftrightarrow> (\<exists>w t. s = w @ t \<and> ToLower w = ToLower n \<and> q = (if w = [] then b else Some (last w), t))"
proof (induction n arbitrary: b s)
  case Nil
  then show ?case by (auto simp: Fold_def ToLower_def rx_in_Empty)
next
  case (Cons c n)
  show ?case (is "_ \<longleftrightarrow> ?r")
  proof
    assume "rx_in (Fold (c # n)) (b, s) q"
    then obtain x s1 where x: "s = x # s1" "lower_char x = lower_char c" "rx_in (Fold n) (Some x, s1) q"
      by (auto simp: Fold_Cons rx_in_Cls)
    then obtain w t where "s1 = w @ t" "ToLower w = ToLower n" "q = (if w = [] then Some x else Some (last w), t)"
      unfolding Cons.IH by blast
    then show ?r using x by (intro exI[of _ "x # w"] exI[of _ t]) (simp add: ToLower_def)
  next
    assume ?r
    then obtain w t where w: "s = w @ t" "ToLower w = ToLower (c # n)" "q = (if w = [] then b else Some (last w), t)" by blast
    then obtain x w' where x: "w = x # w'" "lower_char x = lower_char c" "ToLower w' = ToLower n" by (cases w) (auto simp: ToLower_def)
    then have "rx_in (Fold n) (Some x, w' @ t) q" using w unfolding Cons.IH by auto
    then show "rx_in (Fold (c # n)) (b, s) q" using x w(1) by (auto simp: Fold_Cons intro: rx_in.Cls)
  qed
qed

lemma rx_in_Alts: "rx_in (Alts as) p q \<longleftrightarrow> (\<exists>a \<in> set as. rx_in a p q)"
proof (induction as rule: Alts.induct)
  case 1
  then show ?case by (auto simp: rx_in_Cls)
next
  case (3 a b bs)
  then show ?case by (auto simp: rx_in_Alt)
qed simp

definition moved :: "place \<Rightarrow> string \<Rightarrow> place" where
  "moved p w = (if w = [] then fst p else Some (last w), drop (length w) (snd p))"

text \<open>A greedy repetition of characters takes as many as there are.\<close>

lemma rx_all_Rep_Cls:
  "\<exists>ms. rx_all (Rep (Cls f)) (b, s) = (moved (b, s) (takeWhile f s), []) # ms"
proof (induction s arbitrary: b)
  case Nil
  then show ?case by (subst rx_all.simps(8)) (simp add: moved_def)
next
  case (Cons c s)
  obtain ms where ms: "rx_all (Rep (Cls f)) (Some c, s) = (moved (Some c, s) (takeWhile f s), []) # ms" using Cons by blast
  show ?case
    by (subst rx_all.simps(8)) (simp add: ms prefixed_def moved_def)
qed

lemma concat_map_head: "concat (map f xs) = y # ys \<Longrightarrow> \<exists>x \<in> set xs. \<exists>zs. f x = y # zs"
  by (induction xs) (auto simp: append_eq_Cons_conv)

section \<open>Query parameters\<close>

definition secret_key :: "string \<Rightarrow> bool" where
  "secret_key k \<longleftrightarrow> (\<exists>c name. k = c # name @ ''='' \<and> query_start c \<and> ToLower name \<in> set query_names)"

lemma query_names_lower: "n \<in> set query_names \<Longrightarrow> ToLower n = n"
proof -
  have "list_all (\<lambda>n. ToLower n = n) query_names" by code_simp
  then show "n \<in> set query_names \<Longrightarrow> ToLower n = n" by (simp add: list_all_iff)
qed

lemma rx_in_secret_key:
  "rx_in (Seq (Cls query_start) (Seq (Alts (map Fold query_names)) (Cls (\<lambda>c. c = CHR ''='')))) (b, s) q \<longleftrightarrow>
    (\<exists>k t. s = k @ t \<and> secret_key k \<and> q = (Some (CHR ''=''), t))"
  (is "?l \<longleftrightarrow> ?r")
proof
  assume ?l
  then obtain c s1 r where c: "s = c # s1" "query_start c"
    and names: "rx_in (Alts (map Fold query_names)) (Some c, s1) r" and eq: "rx_in (Cls (\<lambda>c. c = CHR ''='')) r q"
    unfolding rx_in_Seq rx_in_Cls by blast
  obtain n w t1 where w: "n \<in> set query_names" "s1 = w @ t1" "ToLower w = ToLower n" "snd r = t1"
    using names unfolding rx_in_Alts by (auto simp: rx_in_Fold simp del: Alts.simps)
  then obtain t where "q = (Some (CHR ''=''), t)" "t1 = CHR ''='' # t" using eq by (auto simp: rx_in_Cls)
  then have "s = (c # w @ ''='') @ t" "secret_key (c # w @ ''='')" "q = (Some (CHR ''=''), t)"
    using c w query_names_lower[OF w(1)] by (auto simp: secret_key_def)
  then show ?r by blast
next
  assume ?r
  then obtain c w t where s: "s = c # w @ CHR ''='' # t" "query_start c" "ToLower w \<in> set query_names" "q = (Some (CHR ''=''), t)"
    by (auto simp: secret_key_def)
  let ?r = "(if w = [] then Some c else Some (last w), CHR ''='' # t)"
  have "rx_in (Fold (ToLower w)) (Some c, w @ CHR ''='' # t) ?r"
    unfolding rx_in_Fold using query_names_lower[OF s(3)] by (intro exI[of _ w] exI[of _ "CHR ''='' # t"]) simp
  then have names: "rx_in (Alts (map Fold query_names)) (Some c, w @ CHR ''='' # t) ?r" using s(3) unfolding rx_in_Alts by (intro bexI[of _ "Fold (ToLower w)"]) auto
  have eq: "rx_in (Cls (\<lambda>c. c = CHR ''='')) ?r q" unfolding s(4) by (rule rx_in.Cls) simp
  show ?l unfolding s(1) by (rule rx_in.Seq[OF rx_in.Cls[of query_start, OF s(2)] rx_in.Seq[OF names eq]])
qed

lemma rx_at_query_Some:
  assumes "rx_at querySecretPattern (b, s) = Some (q, g)"
  shows "\<exists>k t. s = k @ t \<and> secret_key k \<and> takeWhile query_char t \<noteq> [] \<and> submatch g 1 = k \<and> snd q = dropWhile query_char t"
proof -
  let ?key = "Seq (Cls query_start) (Seq (Alts (map Fold query_names)) (Cls (\<lambda>c. c = CHR ''='')))"
  obtain ms where "rx_all querySecretPattern (b, s) = (q, g) # ms"
    using assms by (auto simp: rx_at_def split: list.splits if_splits)
  then have "concat (map (\<lambda>m. prefixed (snd m) (rx_all (Rep1 (Cls query_char)) (fst m))) (rx_all (Group 1 ?key) (b, s))) = (q, g) # ms"
    unfolding querySecretPattern_def rx_all.simps(6)[of "Group 1 _"] .
  from concat_map_head[OF this] obtain m zs where m: "m \<in> set (rx_all (Group 1 ?key) (b, s))"
    and hd: "prefixed (snd m) (rx_all (Rep1 (Cls query_char)) (fst m)) = (q, g) # zs" by blast
  obtain r h where r: "m = (r, (1, between (b, s) r) # h)" "(r, h) \<in> set (rx_all ?key (b, s))"
    using m unfolding rx_all.simps(9) by auto
  obtain k t where k: "s = k @ t" "secret_key k" "r = (Some (CHR ''=''), t)"
    using rx_all_sound[OF r(2)] unfolding rx_in_secret_key by blast
  obtain x t' where t: "t = x # t'" "query_char x"
    using hd r k by (auto simp: Rep1_def prefixed_def split: list.splits if_splits)
  obtain ms' where rep: "rx_all (Rep (Cls query_char)) (Some x, t') = (moved (Some x, t') (takeWhile query_char t'), []) # ms'"
    using rx_all_Rep_Cls by blast
  have "q = moved (Some x, t') (takeWhile query_char t')" "g = (1, k) # h"
    using hd r k t rep by (auto simp: Rep1_def prefixed_def between_def)
  then show ?thesis using k t by (auto simp: submatch_def moved_def dropWhile_eq_drop)
qed

lemma rx_size_query: "0 < rx_size querySecretPattern"
  by (simp add: querySecretPattern_def Rep1_def)

lemma rx_at_query_None:
  assumes "rx_at querySecretPattern (b, s) = None" "s = k @ t" "secret_key k"
  shows "takeWhile query_char t = []"
proof (rule ccontr)
  assume "takeWhile query_char t \<noteq> []"
  then obtain x t' where t: "t = x # t'" "query_char x" by (cases t) (auto split: if_splits)
  have "rx_in querySecretPattern (b, s) (Some x, t')"
    unfolding querySecretPattern_def Rep1_def
    by (rule rx_in.Seq[where q = "(Some (CHR ''=''), t)"])
      (use assms t rx_in_secret_key in \<open>auto intro!: rx_in.Group rx_in.Seq[OF rx_in.Cls rx_in.Rep_none]\<close>)
  then show False using assms(1) rx_at_None[OF rx_size_query] by blast
qed

definition hide_query :: "place \<Rightarrow> string" where
  "hide_query p = replace_found querySecretPattern (\<lambda>g. submatch g 1 @ RedactedValue) p"

lemma hide_query_step:
  "hide_query p = (case rx_at querySecretPattern p of
     Some (q, g) \<Rightarrow> submatch g 1 @ RedactedValue @ hide_query q
   | None \<Rightarrow> (case snd p of [] \<Rightarrow> [] | c # s \<Rightarrow> c # hide_query (Some c, s)))"
  unfolding hide_query_def by (subst replace_found.simps) (simp split: option.splits)

lemma hide_query_Nil [simp]: "hide_query (b, []) = []"
proof -
  have "rx_at querySecretPattern (b, []) = None"
    using rx_at_query_Some[of b "[]"] by (cases "rx_at querySecretPattern (b, [])") (auto simp: secret_key_def)
  then show ?thesis by (subst hide_query_step) simp
qed

lemma hide_query_cases:
  obtains (hidden) k t b' where "s = k @ t" "secret_key k" "takeWhile query_char t \<noteq> []"
      "hide_query (b, s) = k @ RedactedValue @ hide_query (b', dropWhile query_char t)"
  | (plain) c s' where "rx_at querySecretPattern (b, s) = None" "s = c # s'" "hide_query (b, s) = c # hide_query (Some c, s')"
  | (ended) "s = []"
proof (cases "rx_at querySecretPattern (b, s)")
  case None
  show thesis
  proof (cases s)
    case (Cons c s')
    then have "hide_query (b, s) = c # hide_query (Some c, s')" using None by (subst hide_query_step) simp
    then show thesis using plain None Cons by blast
  qed (rule ended)
next
  case (Some m)
  obtain q g where m: "m = (q, g)" by (cases m)
  obtain k t where k: "s = k @ t" "secret_key k" "takeWhile query_char t \<noteq> []" "submatch g 1 = k" "snd q = dropWhile query_char t"
    using rx_at_query_Some Some m by blast
  then have "q = (fst q, dropWhile query_char t)" by (cases q) simp
  then have "hide_query (b, s) = k @ RedactedValue @ hide_query (fst q, dropWhile query_char t)"
    using Some m k(4) by (subst hide_query_step) (simp del: One_nat_def)
  then show thesis using hidden k by blast
qed

lemma hide_query_head: "\<exists>o'. hide_query (b, c # s) = c # o'"
proof (cases b "c # s" rule: hide_query_cases)
  case (hidden k t b')
  then show ?thesis by (auto simp: secret_key_def)
qed auto

lemma hide_query_unstarted:
  "\<forall>c \<in> set u. \<not> query_start c \<Longrightarrow> \<exists>b'. hide_query (b, u @ v) = u @ hide_query (b', v)"
proof (induction u arbitrary: b)
  case (Cons c u)
  have "hide_query (b, c # u @ v) = c # hide_query (Some c, u @ v)"
    by (cases b "c # u @ v" rule: hide_query_cases) (use Cons.prems in \<open>auto simp: secret_key_def\<close>)
  then show ?case using Cons by auto
qed auto

lemma query_names_chars: "n \<in> set query_names \<Longrightarrow> CHR ''='' \<notin> set n \<and> (\<forall>c \<in> set n. \<not> query_start c)"
proof -
  have "list_all (\<lambda>n. CHR ''='' \<notin> set n \<and> list_all (\<lambda>c. \<not> query_start c) n) query_names" by code_simp
  then show "n \<in> set query_names \<Longrightarrow> CHR ''='' \<notin> set n \<and> (\<forall>c \<in> set n. \<not> query_start c)" by (simp add: list_all_iff)
qed

lemma lower_char_marks: "lower_char (CHR ''='') = CHR ''=''" "lower_char (CHR ''?'') = CHR ''?''" "lower_char (CHR ''&'') = CHR ''&''"
  by code_simp+

lemma secret_key_parts:
  assumes "secret_key k"
  shows "\<exists>c name. k = c # name @ ''='' \<and> query_start c \<and> CHR ''='' \<notin> set name \<and> (\<forall>x \<in> set (name @ ''=''). \<not> query_start x)"
proof -
  obtain c name where k: "k = c # name @ ''=''" "query_start c" "ToLower name \<in> set query_names" using assms by (auto simp: secret_key_def)
  note n = query_names_chars[OF k(3)]
  have "lower_char x \<in> set (ToLower name)" if "x \<in> set name" for x using that by (simp add: ToLower_def)
  then have "CHR ''='' \<notin> set name" "\<forall>x \<in> set name. \<not> query_start x"
    using n lower_char_marks unfolding query_start_def by metis+
  then show ?thesis using k(1,2) by (auto simp: query_start_def)
qed

lemma secret_key_prefix:
  assumes "secret_key k" "secret_key k'" "k @ t = k' @ t'"
  shows "k = k'"
proof -
  obtain c name c' name' where k: "k = c # name @ ''=''" "CHR ''='' \<notin> set name" "k' = c' # name' @ ''=''" "CHR ''='' \<notin> set name'"
    using secret_key_parts[OF assms(1)] secret_key_parts[OF assms(2)] by blast
  then have "takeWhile (\<lambda>x. x \<noteq> CHR ''='') (name @ ''='' @ t) = takeWhile (\<lambda>x. x \<noteq> CHR ''='') (name' @ ''='' @ t')"
    using assms(3) by simp
  moreover have "takeWhile (\<lambda>x. x \<noteq> CHR ''='') (n @ ''='' @ r) = n" if "CHR ''='' \<notin> set n" for n r
    using that by (induction n) auto
  ultimately have "name = name'" using k(2,4) by metis
  then show ?thesis using k assms(3) by simp
qed

lemma query_not_inside:
  assumes "secret_key k" "secret_key k'" "k' @ RedactedValue @ r = a @ k @ t" "a \<noteq> []"
  shows "\<exists>a'. a = k' @ RedactedValue @ a' \<and> r = a' @ k @ t"
proof -
  obtain c name where c: "k = c # name" "query_start c" using secret_key_parts[OF assms(1)] by blast
  obtain c' name' where k': "k' = c' # name'" "\<forall>x \<in> set name'. \<not> query_start x" using secret_key_parts[OF assms(2)] by blast
  have plain: "\<forall>x \<in> set (name' @ RedactedValue). \<not> query_start x"
    using k'(2) by (auto simp: RedactedValue_def query_start_def)
  obtain a1 where a1: "a = c' # a1" "(name' @ RedactedValue) @ r = a1 @ c # name @ t"
    using assms(3,4) k' c(1) by (cases a) auto
  define m where "m = name' @ RedactedValue"
  have "m @ r = a1 @ c # name @ t" using a1(2) by (simp add: m_def)
  then consider us where "m = a1 @ us" "us @ r = c # name @ t" "us \<noteq> []" | us where "a1 = m @ us" "r = us @ c # name @ t"
    unfolding append_eq_append_conv2 by (metis append_Nil append_Nil2)
  then show ?thesis
  proof cases
    case 1
    then have "c \<in> set us" by (cases us) auto
    then show ?thesis using 1(1) plain c(2) unfolding m_def[symmetric] by (metis Un_iff set_append)
  next
    case 2
    then show ?thesis using a1(1) k'(1) c(1) by (intro exI[of _ us]) (simp add: m_def)
  qed
qed

lemma takeWhile_query_head: "takeWhile query_char t = [] \<longleftrightarrow> t = [] \<or> \<not> query_char (hd t)"
  by (cases t) auto

lemma hide_query_stopped:
  "takeWhile query_char (hide_query (b, dropWhile query_char t)) = []"
proof (cases "dropWhile query_char t")
  case (Cons c s)
  then have "\<not> query_char c" by (metis hd_dropWhile list.distinct(1) list.sel(1))
  then show ?thesis using hide_query_head[of b c s] Cons by auto
qed (simp del: dropWhile_eq_Nil_conv)

lemma hidden_first:
  assumes "rx_at querySecretPattern (b, c # s) = None" "c # hide_query (Some c, s) = k @ t" "secret_key k"
  shows "takeWhile query_char t = []"
proof -
  obtain name where k: "k = c # name" "\<forall>x \<in> set name. \<not> query_start x" using secret_key_parts[OF assms(3)] assms(2) by force
  define u where "u = takeWhile (\<lambda>x. \<not> query_start x) s"
  define v where "v = dropWhile (\<lambda>x. \<not> query_start x) s"
  have s: "s = u @ v" by (simp add: u_def v_def)
  have "\<forall>x \<in> set u. \<not> query_start x" unfolding u_def by (auto dest: set_takeWhileD)
  from hide_query_unstarted[OF this] obtain b' where hv: "hide_query (Some c, s) = u @ hide_query (b', v)" using s by metis
  have v: "v = [] \<or> query_start (hd v)" unfolding v_def using hd_dropWhile by blast
  have same: "v = [] \<longleftrightarrow> hide_query (b', v) = []" "v \<noteq> [] \<Longrightarrow> hd (hide_query (b', v)) = hd v"
    using hide_query_head[of b' "hd v" "tl v"] by (cases v; auto)+
  have "u @ hide_query (b', v) = name @ t" using assms(2) k hv by simp
  then obtain u' where u: "u = name @ u'" "t = u' @ hide_query (b', v)"
  proof (cases "length name \<le> length u")
    case True
    then show ?thesis using that \<open>u @ hide_query (b', v) = name @ t\<close> by (auto simp: append_eq_append_conv2)
  next
    case False
    then obtain z where "name = u @ z" "hide_query (b', v) = z @ t" "z \<noteq> []"
      using \<open>u @ hide_query (b', v) = name @ t\<close> by (auto simp: append_eq_append_conv2)
    then have "query_start (hd z)" "hd z \<in> set name" using v same by (cases z; auto)+
    then show ?thesis using k(2) by blast
  qed
  have "takeWhile query_char (u' @ v) = []"
    using rx_at_query_None[OF assms(1) _ assms(3), of "u' @ v"] s u(1) k(1) by simp
  then show ?thesis using same unfolding u(2) takeWhile_query_head by (cases u') auto
qed

text \<open>No value of a secret query parameter is left but the placeholder.\<close>

lemma hide_query_hides:
  "hide_query (b, s) = a @ k @ t \<Longrightarrow> secret_key k \<Longrightarrow> takeWhile query_char t \<in> {[], RedactedValue}"
proof (induction "length s" arbitrary: b s a rule: less_induct)
  case less
  show ?case
  proof (cases b s rule: hide_query_cases)
    case (hidden k' t' b')
    show ?thesis
    proof (cases "a = []")
      case True
      then have kt: "k' @ RedactedValue @ hide_query (b', dropWhile query_char t') = k @ t" using hidden(4) less.prems(1) by simp
      then have "k' = k" "t = RedactedValue @ hide_query (b', dropWhile query_char t')"
        using secret_key_prefix[OF hidden(2) less.prems(2) kt] by auto
      moreover have "list_all query_char RedactedValue" by code_simp
      ultimately show ?thesis using hide_query_stopped by (simp add: list_all_iff takeWhile_append2)
    next
      case False
      obtain a' where "hide_query (b', dropWhile query_char t') = a' @ k @ t"
        using query_not_inside[OF less.prems(2) hidden(2) _ False] hidden(4) less.prems(1) by metis
      moreover have "length (dropWhile query_char t') < length s"
        using hidden(1,2) length_dropWhile_le[of query_char t'] by (auto simp: secret_key_def)
      ultimately show ?thesis using less.hyps less.prems(2) by blast
    qed
  next
    case (plain c s')
    show ?thesis
    proof (cases a)
      case Nil
      then show ?thesis using hidden_first[of b c s' k t] plain less.prems by simp
    next
      case (Cons x a')
      then have "hide_query (Some c, s') = a' @ k @ t" using plain(3) less.prems(1) by simp
      then show ?thesis using less.hyps[of s'] plain(2) less.prems(2) by simp
    qed
  next
    case ended
    then show ?thesis using less.prems by (auto simp: secret_key_def)
  qed
qed

text \<open>
  C23: In a text that \<open>RedactSensitiveText\<close> returns, the value of every query parameter whose name says that it is a
  secret (in any case of letters, after \<open>?\<close> or \<open>&\<close>) is empty or the placeholder \<open><redacted>\<close>: whatever the
  message was, no secret of a query string is left in it.
\<close>

theorem query_secrets_hidden:
  assumes "RedactSensitiveText v = a @ c # name @ ''='' @ t"
    and "c = CHR ''?'' \<or> c = CHR ''&''" "ToLower name \<in> set query_names"
  shows "takeWhile query_char t \<in> {[], RedactedValue}"
proof -
  have key: "secret_key (c # name @ ''='')" using assms(2,3) by (auto simp: secret_key_def query_start_def)
  have "v \<noteq> []" using assms(1) by (auto simp: RedactSensitiveText_def)
  then obtain w where "RedactSensitiveText v = hide_query (None, w)"
    unfolding RedactSensitiveText_def ReplaceAllString_def Let_def hide_query_def by (metis (no_types, lifting))
  then show ?thesis using hide_query_hides[of None w a "c # name @ ''=''" t] assms(1) key by simp
qed

lemma example_redacted: "RedactSensitiveText ''/a?token=abc&x=1'' = ''/a?token=<redacted>&x=1''"
  by code_simp

theorem query_secrets_hidden_witness:
  "takeWhile query_char ''<redacted>&x=1'' \<in> {[], RedactedValue}"
  by (rule query_secrets_hidden[of "''/a?token=abc&x=1''" "''/a''" "CHR ''?''" "''token''"]) (simp add: example_redacted, simp, code_simp)

text \<open>A second credential after a doubled scheme is not hidden: the first scheme takes the second one for its token.\<close>

lemma doubled_scheme_leaks: "RedactSensitiveText ''Bearer Bearer abc'' = ''Bearer <redacted> abc''"
  by code_simp

end
