(* ===== verification/Agent_Nginx.thy ===== *)
theory Agent_Nginx
  imports Agent_Cache Agent_State Go_Sort Agent_Redact
begin

text \<open>
  The configuration of OpenResty on an edge node (\<open>nginx/manager.go\<close>): the files that an \<open>Apply\<close> writes, the
  directories whose files the agent owns, the backup and the rollback, and the checksum of what is installed.

  The manager works on the disk of theory \<open>Agent_Files\<close>; the commands of OpenResty are run by an \<open>executor\<close>,
  whose implementation with a binary is modelled here over the runner of commands, a parameter. The texts of the
  Lua files and SHA-256 are parameters too. Errors are texts; \<open>%q\<close> is the text between double quotes. A Go map is
  iterated in the order of its association list; removing empty directories changes no file and is one call.
\<close>

section \<open>Texts\<close>

definition utf8 :: "nat list \<Rightarrow> string" where
  "utf8 bytes = map char_of bytes"

definition must_not_be_empty :: string where
  "must_not_be_empty = '' '' @ utf8 [0xE4, 0xB8, 0x8D, 0xE8, 0x83, 0xBD, 0xE4, 0xB8, 0xBA, 0xE7, 0xA9, 0xBA]"

definition executor_missing :: string where
  "executor_missing = ''executor '' @ utf8 [0xE6, 0x9C, 0xAA, 0xE9, 0x85, 0x8D, 0xE7, 0xBD, 0xAE]"

text \<open>\<open>strings.ReplaceAll\<close>: the occurrences of a text that is not empty, from the left, without overlaps; the
  number says how many bytes of an occurrence are still to be skipped.\<close>

fun replace_all :: "string \<Rightarrow> string \<Rightarrow> nat \<Rightarrow> string \<Rightarrow> string" where
  "replace_all old new k [] = []"
| "replace_all old new (Suc k) (c # s) = replace_all old new k s"
| "replace_all old new 0 (c # s) =
    (if HasPrefix (c # s) old then new @ replace_all old new (length old - 1) s else c # replace_all old new 0 s)"

definition ReplaceAll :: "string \<Rightarrow> string \<Rightarrow> string \<Rightarrow> string" where
  "ReplaceAll s old new = (if old = [] then new @ concat (map (\<lambda>c. c # new) s) else replace_all old new 0 s)"

definition CertDirPlaceholder :: string where "CertDirPlaceholder = ''__DUSHENGCDN_CERT_DIR__''"
definition RouteConfigPlaceholder :: string where "RouteConfigPlaceholder = ''__DUSHENGCDN_ROUTE_CONFIG__''"
definition AccessLogPlaceholder :: string where "AccessLogPlaceholder = ''__DUSHENGCDN_ACCESS_LOG__''"
definition LuaDirPlaceholder :: string where "LuaDirPlaceholder = ''__DUSHENGCDN_LUA_DIR__''"
definition RuntimeConfigDirPlaceholder :: string where "RuntimeConfigDirPlaceholder = ''__DUSHENGCDN_RUNTIME_CONFIG_DIR__''"
definition GeoIPDatabasePathPlaceholder :: string where "GeoIPDatabasePathPlaceholder = ''__DUSHENGCDN_GEOIP_DATABASE_PATH__''"
definition GeoIPLookupAPIURLPlaceholder :: string where "GeoIPLookupAPIURLPlaceholder = ''__DUSHENGCDN_GEOIP_LOOKUP_API_URL__''"
definition GeoIPLookupAPITokenPlaceholder :: string where "GeoIPLookupAPITokenPlaceholder = ''__DUSHENGCDN_GEOIP_LOOKUP_API_TOKEN__''"
definition GeoIPLookupAPITimeoutPlaceholder :: string where
  "GeoIPLookupAPITimeoutPlaceholder = ''__DUSHENGCDN_GEOIP_LOOKUP_API_TIMEOUT__''"
definition ObservabilityListenPlaceholder :: string where "ObservabilityListenPlaceholder = ''__DUSHENGCDN_OBSERVABILITY_LISTEN__''"
definition ObservabilityPortPlaceholder :: string where "ObservabilityPortPlaceholder = ''__DUSHENGCDN_OBSERVABILITY_PORT__''"
definition ResolverDirectivePlaceholder :: string where "ResolverDirectivePlaceholder = ''__DUSHENGCDN_RESOLVER_DIRECTIVE__''"
definition PowStaticDirPlaceholder :: string where "PowStaticDirPlaceholder = ''__DUSHENGCDN_POW_STATIC_DIR__''"

definition managedDirMarkerName :: string where "managedDirMarkerName = ''.dushengcdn-managed''"

section \<open>The manager\<close>

record SupportFile =
  sf_Path :: string
  sf_Content :: string

record Manager =
  m_MainConfigPath :: string
  m_RouteConfigPath :: string
  m_AccessLogPath :: string
  m_CertDir :: string
  m_NginxCertDir :: string
  m_LuaDir :: string
  m_NginxLuaDir :: string
  m_RuntimeConfigDir :: string
  m_GeoIPDatabasePath :: string
  m_NginxGeoIPDatabasePath :: string
  m_GeoIPLookupAPIURL :: string
  m_GeoIPLookupAPIToken :: string
  m_GeoIPLookupAPITimeout :: duration
  m_OpenrestyObservabilityListen :: string
  m_OpenrestyObservabilityPort :: int
  m_OpenrestyResolverDirective :: string

text \<open>The texts of the Lua files before their placeholders are replaced, and the static files, which may fail to load.\<close>

record lua_assets =
  ManagedObservabilityLuaFiles :: "SupportFile list"
  ManagedSharedLuaFiles :: "SupportFile list"
  ManagedPowLuaFiles :: "SupportFile list"
  ManagedGeoIPLuaFiles :: "SupportFile list"
  ManagedWAFLuaFiles :: "SupportFile list"
  ManagedCCLuaFiles :: "SupportFile list"
  ManagedPowStaticFiles :: "string + SupportFile list"
  DefaultMimeTypes :: string

record executor =
  ex_Test :: "(disk, string, unit) action"
  ex_Reload :: "(disk, string, unit) action"
  ex_EnsureRuntime :: "bool \<Rightarrow> (disk, string, unit) action"
  ex_CheckHealth :: "(disk, string, unit) action"
  ex_Restart :: "(disk, string, unit) action"

record nginx_env =
  ne_os :: os
  ne_links :: links
  ne_assets :: lua_assets
  ne_sha256 :: "string \<Rightarrow> string"
  ne_executor :: "executor option"

definition routeConfigIncludePath :: "Manager \<Rightarrow> string" where
  "routeConfigIncludePath m = TrimSpace (m_RouteConfigPath m)"

definition accessLogRuntimePath :: "Manager \<Rightarrow> string" where
  "accessLogRuntimePath m = TrimSpace (m_AccessLogPath m)"

definition luaRuntimePath :: "Manager \<Rightarrow> string" where
  "luaRuntimePath m = (if TrimSpace (m_NginxLuaDir m) = [] then [] else m_NginxLuaDir m)"

definition geoIPDatabaseRuntimePath :: "Manager \<Rightarrow> string" where
  "geoIPDatabaseRuntimePath m =
    (let path = TrimSpace (m_NginxGeoIPDatabasePath m) in if path \<noteq> [] then path else TrimSpace (m_GeoIPDatabasePath m))"

definition geoIPLookupAPITimeoutMilliseconds :: "Manager \<Rightarrow> int" where
  "geoIPLookupAPITimeoutMilliseconds m =
    (if m_GeoIPLookupAPITimeout m \<le> 0 then 250 else m_GeoIPLookupAPITimeout m div 1000000)"

definition luaStringLiteral :: "string \<Rightarrow> string" where
  "luaStringLiteral v =
    (let escaped = ReplaceAll (TrimSpace v) [CHR 0x5C] [CHR 0x5C, CHR 0x5C];
         escaped = ReplaceAll escaped [CHR 0x22] [CHR 0x5C, CHR 0x22]
     in [CHR 0x22] @ escaped @ [CHR 0x22])"

text \<open>A replacement that is only made when the value is not empty.\<close>

definition fill :: "string \<Rightarrow> string \<Rightarrow> string \<Rightarrow> string" where
  "fill placeholder v s = (if v \<noteq> [] then ReplaceAll s placeholder v else s)"

definition unfill :: "string \<Rightarrow> string \<Rightarrow> string \<Rightarrow> string" where
  "unfill placeholder v s = (if v \<noteq> [] then ReplaceAll s v placeholder else s)"

definition port_text :: "Manager \<Rightarrow> string" where
  "port_text m = (if m_OpenrestyObservabilityPort m > 0 then FormatInt (m_OpenrestyObservabilityPort m) else [])"

definition renderRouteConfig :: "Manager \<Rightarrow> string \<Rightarrow> string" where
  "renderRouteConfig m content =
    (let rendered = fill CertDirPlaceholder (m_NginxCertDir m) content;
         luaDir = luaRuntimePath m;
         rendered = (if luaDir \<noteq> [] then ReplaceAll (ReplaceAll rendered LuaDirPlaceholder luaDir) PowStaticDirPlaceholder (luaDir @ ''/pow/static'')
           else rendered)
     in fill GeoIPDatabasePathPlaceholder (geoIPDatabaseRuntimePath m) rendered)"

definition renderMainConfig :: "Manager \<Rightarrow> string \<Rightarrow> string" where
  "renderMainConfig m content =
    (let rendered = fill RouteConfigPlaceholder (routeConfigIncludePath m) content;
         rendered = fill AccessLogPlaceholder (accessLogRuntimePath m) rendered;
         rendered = fill LuaDirPlaceholder (luaRuntimePath m) rendered;
         rendered = fill GeoIPDatabasePathPlaceholder (geoIPDatabaseRuntimePath m) rendered;
         rendered = fill ObservabilityListenPlaceholder (TrimSpace (m_OpenrestyObservabilityListen m)) rendered;
         rendered = fill ObservabilityPortPlaceholder (port_text m) rendered
     in fill ResolverDirectivePlaceholder (TrimSpace (m_OpenrestyResolverDirective m)) rendered)"

definition normalizedMain :: "Manager \<Rightarrow> string \<Rightarrow> string" where
  "normalizedMain m content =
    (let normalized = unfill RouteConfigPlaceholder (routeConfigIncludePath m) content;
         normalized = unfill AccessLogPlaceholder (accessLogRuntimePath m) normalized;
         normalized = unfill LuaDirPlaceholder (luaRuntimePath m) normalized;
         normalized = unfill GeoIPDatabasePathPlaceholder (geoIPDatabaseRuntimePath m) normalized;
         normalized = unfill ObservabilityListenPlaceholder (TrimSpace (m_OpenrestyObservabilityListen m)) normalized;
         normalized = unfill ObservabilityPortPlaceholder (port_text m) normalized
     in unfill ResolverDirectivePlaceholder (TrimSpace (m_OpenrestyResolverDirective m)) normalized)"

definition normalizedRoute :: "Manager \<Rightarrow> string \<Rightarrow> string" where
  "normalizedRoute m content =
    (let normalized = unfill CertDirPlaceholder (m_NginxCertDir m) content;
         luaDir = luaRuntimePath m;
         normalized = (if luaDir \<noteq> [] then ReplaceAll (ReplaceAll normalized (luaDir @ ''/pow/static'') PowStaticDirPlaceholder) luaDir LuaDirPlaceholder
           else normalized)
     in unfill GeoIPDatabasePathPlaceholder (geoIPDatabaseRuntimePath m) normalized)"

section \<open>Managed directories\<close>

record managedFile =
  mf_Path :: string
  mf_Content :: string
  mf_Mode :: nat

definition slashed :: "string \<Rightarrow> string" where
  "slashed candidate = ReplaceChar (CHR 0x5C) (CHR ''/'') candidate"

definition relative_target :: "string \<Rightarrow> string \<Rightarrow> string \<Rightarrow> string + string" where
  "relative_target kind baseDir relativePath =
    (if TrimSpace baseDir = [] then Inl (kind @ '' dir'' @ must_not_be_empty)
     else
       (let normalizedPath = Clean (slashed (TrimSpace relativePath))
        in if normalizedPath = ''.'' \<or> normalizedPath = [] then Inl (kind @ '' file path'' @ must_not_be_empty)
           else if IsAbs normalizedPath then Inl (kind @ '' file path '' @ quoted relativePath @ '' must be relative'')
           else
             (let targetPath = filepath_Join [baseDir, normalizedPath]
              in case Rel baseDir targetPath of
                   None \<Rightarrow> Inl (''Rel: can't make '' @ targetPath @ '' relative to '' @ baseDir)
                 | Some relativeToBase \<Rightarrow>
                     if relativeToBase = ''..'' \<or> HasPrefix relativeToBase ''../''
                     then Inl (kind @ '' file path '' @ quoted relativePath @ '' escapes '' @ kind @ '' dir'')
                     else Inr targetPath)))"

definition certFileTargetPath :: "Manager \<Rightarrow> string \<Rightarrow> string + string" where
  "certFileTargetPath m relativePath = relative_target ''cert'' (m_CertDir m) relativePath"

definition luaFileTargetPath :: "string \<Rightarrow> string \<Rightarrow> string + string" where
  "luaFileTargetPath baseDir relativePath = relative_target ''lua'' baseDir relativePath"

definition filepath_Ext :: "string \<Rightarrow> string" where
  "filepath_Ext path =
    (let base = rev (takeWhile (\<lambda>c. c \<noteq> CHR ''/'') (rev path))
     in if CHR ''.'' \<in> set base then CHR ''.'' # rev (takeWhile (\<lambda>c. c \<noteq> CHR ''.'') (rev base)) else [])"

definition certFileMode :: "string \<Rightarrow> nat" where
  "certFileMode relativePath = (if ToLower (filepath_Ext (TrimSpace relativePath)) = ''.key'' then 384 else 420)"

definition cleanManagedFilePath :: "string \<Rightarrow> string + string" where
  "cleanManagedFilePath raw =
    (let cleanPath = Clean (slashed (TrimSpace raw))
     in if cleanPath = ''.'' \<or> cleanPath = [] then Inl ''managed file path cannot be empty''
        else if IsAbs cleanPath then Inl (''managed file path '' @ quoted raw @ '' must be relative'')
        else if cleanPath = ''..'' \<or> HasPrefix cleanPath ''../'' then Inl (''managed file path '' @ quoted raw @ '' escapes managed dir'')
        else Inr cleanPath)"

fun desired_files :: "managedFile list \<Rightarrow> (string, managedFile) gomap \<Rightarrow> string + (string, managedFile) gomap" where
  "desired_files [] desired = Inr desired"
| "desired_files (f # fs) desired =
    (case cleanManagedFilePath (mf_Path f) of
       Inl e \<Rightarrow> Inl e
     | Inr cleanPath \<Rightarrow>
         if cleanPath = managedDirMarkerName then Inl (''managed file path '' @ quoted (mf_Path f) @ '' is reserved'')
         else desired_files fs (AList.update cleanPath (f\<lparr>mf_Path := cleanPath\<rparr>) desired))"

text \<open>The files below a directory in the order of \<open>filepath.Walk\<close>, and their paths relative to it.\<close>

definition walk :: "string \<Rightarrow> disk \<Rightarrow> location list" where
  "walk baseDir d = sort (remdups (below d (locate baseDir)))"

definition rel_path :: "string \<Rightarrow> location \<Rightarrow> string" where
  "rel_path baseDir l = Join (drop (length (locate baseDir)) l) ''/''"

definition walked :: "os \<Rightarrow> string \<Rightarrow> (disk, os_error, location list) action" where
  "walked os baseDir = syscall os (\<lambda>d. (Inr (walk baseDir d), d))"

definition isKnownLegacyManagedFile :: "string \<Rightarrow> bool" where
  "isKnownLegacyManagedFile path \<longleftrightarrow> path \<in> set [''pow_config.json'', ''region_config.json'', ''waf_config.json'', ''cc_config.json'']"

definition managedDirHasMarker :: "os \<Rightarrow> string \<Rightarrow> (disk, os_error, bool) action" where
  "managedDirHasMarker os baseDir d =
    (case StatFile os (filepath_Join [baseDir, managedDirMarkerName]) d of
       (Inr is_directory, d) \<Rightarrow> (Inr (\<not> is_directory), d)
     | (Inl Not_Exist, d) \<Rightarrow> (Inr False, d)
     | (Inl e, d) \<Rightarrow> (Inl e, d))"

definition unmanagedExistingFiles :: "os \<Rightarrow> string \<Rightarrow> (string, managedFile) gomap \<Rightarrow> (disk, os_error, string list) action" where
  "unmanagedExistingFiles os baseDir desired =
    andThen (walked os baseDir) (\<lambda>ls.
    return (filter (\<lambda>p. p \<noteq> managedDirMarkerName \<and> \<not> isKnownLegacyManagedFile p \<and> map_of desired p = None) (map (rel_path baseDir) ls)))"

definition ensureManagedDirCanBeCleaned :: "os \<Rightarrow> string \<Rightarrow> (string, managedFile) gomap \<Rightarrow> (disk, string, unit) action" where
  "ensureManagedDirCanBeCleaned os baseDir desired =
    andThen (texted [] (managedDirHasMarker os baseDir)) (\<lambda>hasMarker.
    if hasMarker then return ()
    else
      andThen (texted [] (unmanagedExistingFiles os baseDir desired)) (\<lambda>unknownFiles.
      if unknownFiles = [] then return ()
      else fail (''managed dir '' @ quoted baseDir @ '' is missing '' @ managedDirMarkerName @ '' and contains unknown files: ''
        @ Join (sort unknownFiles) '', '')))"

definition remove_found :: "os \<Rightarrow> location \<Rightarrow> (disk, os_error, unit) action" where
  "remove_found os l = syscall os (\<lambda>d. if look d l \<noteq> None then (Inr (), drop_file l d) else (Inl Not_Exist, d))"

definition remove_undesired :: "os \<Rightarrow> string \<Rightarrow> (string, managedFile) gomap \<Rightarrow> location \<Rightarrow> (disk, string, unit) action" where
  "remove_undesired os baseDir desired l =
    (if map_of desired (rel_path baseDir l) \<noteq> None then return ()
     else if rel_path baseDir l = managedDirMarkerName then return ()
     else texted [] (remove_found os l))"

definition write_desired :: "os \<Rightarrow> string \<Rightarrow> managedFile \<Rightarrow> (disk, string, unit) action" where
  "write_desired os baseDir f =
    (let targetPath = filepath_Join [baseDir, mf_Path f]
     in case Rel baseDir targetPath of
          None \<Rightarrow> fail (''Rel: can't make '' @ targetPath @ '' relative to '' @ baseDir)
        | Some relativeToBase \<Rightarrow>
            if relativeToBase = ''..'' \<or> HasPrefix relativeToBase ''../''
            then fail (''managed file path '' @ quoted (mf_Path f) @ '' escapes managed dir'')
            else
              andThen (texted [] (MkdirAll os (filepath_Dir targetPath))) (\<lambda>_.
              texted [] (WriteFileAtomicIfChanged os targetPath (mf_Content f) (mf_Mode f))))"

definition marker_text :: string where
  "marker_text = ''DuShengCDN managed directory'' @ [CHR 0x0A]"

definition writeManagedDirMarker :: "os \<Rightarrow> string \<Rightarrow> (disk, string, unit) action" where
  "writeManagedDirMarker os baseDir =
    texted [] (WriteFileAtomicIfChanged os (filepath_Join [baseDir, managedDirMarkerName]) marker_text 420)"

definition removeEmptyManagedDirs :: "os \<Rightarrow> string \<Rightarrow> (disk, string, unit) action" where
  "removeEmptyManagedDirs os baseDir = texted [] (syscall os (return ()))"

definition managed_dir_ready :: "os \<Rightarrow> string \<Rightarrow> (disk, string, unit) action" where
  "managed_dir_ready os baseDir d =
    (case StatFile os baseDir d of
       (Inr is_directory, d) \<Rightarrow> if \<not> is_directory then (Inl (''managed dir '' @ quoted baseDir @ '' is not a directory''), d) else (Inr (), d)
     | (Inl Not_Exist, d) \<Rightarrow> (Inr (), d)
     | (Inl e, d) \<Rightarrow> (Inl (os_text e), d))"

definition syncManagedFiles :: "os \<Rightarrow> string \<Rightarrow> managedFile list \<Rightarrow> (disk, string, unit) action" where
  "syncManagedFiles os baseDir fs =
    (if TrimSpace baseDir = [] then fail ''managed dir cannot be empty''
     else
       andThen (managed_dir_ready os baseDir) (\<lambda>_.
       andThen (texted [] (MkdirAll os baseDir)) (\<lambda>_.
       case desired_files fs [] of
         Inl e \<Rightarrow> fail e
       | Inr desired \<Rightarrow>
           andThen (ensureManagedDirCanBeCleaned os baseDir desired) (\<lambda>_.
           andThen (texted [] (walked os baseDir)) (\<lambda>ls.
           andThen (for_each (remove_undesired os baseDir desired) ls) (\<lambda>_.
           andThen (for_each (write_desired os baseDir) (map snd desired)) (\<lambda>_.
           andThen (writeManagedDirMarker os baseDir) (\<lambda>_.
           removeEmptyManagedDirs os baseDir))))))))"

section \<open>Clean relative paths\<close>

lemma clean_step_up:
  assumes "\<exists>k es. out = es @ replicate k ''..'' \<and> list_all plain_elem es" "CHR ''/'' \<notin> set e"
  shows "\<exists>k es. clean_step False out e = es @ replicate k ''..'' \<and> list_all plain_elem es"
proof -
  obtain k es where out: "out = es @ replicate k ''..''" "list_all plain_elem es" using assms(1) by blast
  show ?thesis
  proof (cases "e = [] \<or> e = ''.''")
    case True
    then show ?thesis using out by (auto simp: clean_step_def)
  next
    case False
    show ?thesis
    proof (cases "e = ''..''")
      case up: True
      show ?thesis
      proof (cases es)
        case Nil
        then have "clean_step False out e = [] @ replicate (Suc k) ''..''" using up out by (cases k) (auto simp: clean_step_def)
        then show ?thesis by (metis list.pred_inject(1))
      next
        case (Cons x xs)
        then have "clean_step False out e = xs @ replicate k ''..''" using up out by (auto simp: clean_step_def plain_elem_def)
        then show ?thesis using out(2) Cons by auto
      qed
    next
      case down: False
      then have "clean_step False out e = (e # es) @ replicate k ''..''" "list_all plain_elem (e # es)"
        using False out assms(2) by (auto simp: clean_step_def plain_elem_def)
      then show ?thesis by blast
    qed
  qed
qed

lemma clean_steps_up:
  assumes "\<exists>k es. out = es @ replicate k ''..'' \<and> list_all plain_elem es" "\<forall>e \<in> set xs. CHR ''/'' \<notin> set e"
  shows "\<exists>k es. foldl (clean_step False) out xs = es @ replicate k ''..'' \<and> list_all plain_elem es"
  using assms
proof (induction xs arbitrary: out)
  case (Cons x xs)
  have "\<exists>k es. clean_step False out x = es @ replicate k ''..'' \<and> list_all plain_elem es"
    by (rule clean_step_up[OF Cons.prems(1)]) (use Cons.prems(2) in simp)
  from Cons.IH[OF this] Cons.prems(2) show ?case by simp
qed simp

lemma relative_elems:
  assumes "\<not> IsAbs p"
  shows "\<exists>k es. path_elems p = replicate k ''..'' @ es \<and> list_all plain_elem es"
proof -
  have "\<exists>k es. foldl (clean_step False) [] (Split (CHR ''/'') p) = es @ replicate k ''..'' \<and> list_all plain_elem es"
    by (rule clean_steps_up) (auto simp: Split_elems intro!: exI[of _ 0])
  then obtain k es where "foldl (clean_step False) [] (Split (CHR ''/'') p) = es @ replicate k ''..''" "list_all plain_elem es" by blast
  then show ?thesis using assms by (auto simp: path_elems_def list_all_iff intro!: exI[of _ k] exI[of _ "rev es"])
qed

text \<open>A relative path that neither is empty nor leads out of its directory is a list of plain elements.\<close>

lemma Clean_inside:
  assumes "\<not> IsAbs p" "Clean p \<noteq> ''.''" "Clean p \<noteq> ''..''" "\<not> HasPrefix (Clean p) ''../''"
  shows "\<exists>es. es \<noteq> [] \<and> list_all plain_elem es \<and> Clean p = Join es ''/''"
proof -
  obtain k es where p: "path_elems p = replicate k ''..'' @ es" "list_all plain_elem es" using relative_elems[OF assms(1)] by blast
  have k: "k = 0"
  proof (rule ccontr)
    assume "k \<noteq> 0"
    then obtain j where "k = Suc j" by (cases k) auto
    then have "Clean p = Join (''..'' # (replicate j ''..'' @ es)) ''/''" using p assms(1) by (simp add: Clean_def Join_Cons)
    then show False using assms(3,4) by (auto simp: Join_Cons HasPrefix_def split: if_splits)
  qed
  then have "es \<noteq> []" using p assms(1,2) by (auto simp: Clean_def)
  moreover have "Join es ''/'' \<noteq> []" using p(2) \<open>es \<noteq> []\<close> by (simp add: Join_Nil_iff list_all_iff plain_elem_def)
  ultimately show ?thesis using p k assms(1) by (auto simp: Clean_def)
qed

lemma cleanManagedFilePath_inside:
  assumes "cleanManagedFilePath raw = Inr p"
  shows "\<exists>es. es \<noteq> [] \<and> list_all plain_elem es \<and> p = Join es ''/''"
proof -
  have p: "p = Clean (slashed (TrimSpace raw))" "\<not> IsAbs (slashed (TrimSpace raw))" "p \<noteq> ''.''" "p \<noteq> ''..''" "\<not> HasPrefix p ''../''"
    using assms by (auto simp: cleanManagedFilePath_def Let_def split: if_splits)
  then show ?thesis using Clean_inside by metis
qed

lemma Split_plain_Join: "es \<noteq> [] \<Longrightarrow> list_all plain_elem es \<Longrightarrow> Split (CHR ''/'') (Join es ''/'') = es"
  by (rule Split_Join) (auto simp: list_all_iff plain_elem_def)

lemma Join_plain_inj:
  "es \<noteq> [] \<Longrightarrow> list_all plain_elem es \<Longrightarrow> fs \<noteq> [] \<Longrightarrow> list_all plain_elem fs \<Longrightarrow> Join es ''/'' = Join fs ''/'' \<longleftrightarrow> es = fs"
  by (metis Split_plain_Join)

lemma rel_path_below [simp]: "rel_path base (locate base @ es) = Join es ''/''"
  by (simp add: rel_path_def)

lemma texted_Inr: "texted t m s = (Inr x, s') \<longleftrightarrow> m s = (Inr x, s')"
  by (auto simp: texted_def split: prod.splits sum.splits)

lemma for_each_Cons_Inr: "for_each f (x # xs) s = (Inr (), s') \<longleftrightarrow> (\<exists>s1. f x s = (Inr (), s1) \<and> for_each f xs s1 = (Inr (), s'))"
  by (auto simp: andThen_Inr)

section \<open>What a synchronised directory holds\<close>

definition data_at :: "disk \<Rightarrow> location \<Rightarrow> string option" where
  "data_at d l = map_option f_Data (look d l)"

lemma disk_ok_look: "disk_ok d \<longleftrightarrow> (\<forall>l. look d l \<noteq> None \<longrightarrow> list_all plain_elem l)"
  unfolding disk_ok_def look_def by (metis domIff dom_map_of_conv_image_fst)

lemma locate_plain: "list_all plain_elem (locate p)"
  by (auto simp: locate_def IsAbs_iff intro!: path_elems_plain)

lemma WriteFile_disk_ok: "WriteFileAtomicIfChanged os p s perm d = (r, d') \<Longrightarrow> disk_ok d \<Longrightarrow> disk_ok d'"
  using WriteFileAtomicIfChanged_cases[of os p s perm d r d'] locate_plain
  by (auto simp: disk_ok_look temporary_def Let_def split: if_splits)

lemma RemoveFile_disk_ok: "RemoveFile os p d = (r, d') \<Longrightarrow> disk_ok d \<Longrightarrow> disk_ok d'"
  using RemoveFile_cases[of os p d r d'] by (auto simp: disk_ok_look split: if_splits)

lemma remove_found_cases: "remove_found os l d = (r, d') \<Longrightarrow> (r = Inr () \<and> look d' = (look d)(l := None)) \<or> ((\<exists>e. r = Inl e) \<and> look d' = look d)"
  by (auto simp: remove_found_def syscall_def Let_def split: option.splits if_splits)

lemma remove_loop:
  assumes "for_each (remove_undesired os base desired) ls d = (Inr (), d')"
  shows "look d' = (\<lambda>l. if l \<in> set ls \<and> map_of desired (rel_path base l) = None \<and> rel_path base l \<noteq> managedDirMarkerName then None else look d l)"
  using assms
proof (induction ls arbitrary: d)
  case (Cons x ls)
  then obtain d1 where one: "remove_undesired os base desired x d = (Inr (), d1)"
    and rest: "for_each (remove_undesired os base desired) ls d1 = (Inr (), d')"
    unfolding for_each_Cons_Inr by blast
  have "look d1 = (if map_of desired (rel_path base x) = None \<and> rel_path base x \<noteq> managedDirMarkerName then (look d)(x := None) else look d)"
    using one remove_found_cases[of os x d "Inr ()" d1]
    by (auto simp: remove_undesired_def return_def texted_Inr split: if_splits)
  then show ?case unfolding Cons.IH[OF rest] by (auto simp: fun_eq_iff)
qed (simp add: return_def)

lemma write_desired_ok:
  assumes "write_desired os base f d = (Inr (), d')"
  shows "\<exists>g. f_Data g = mf_Content f \<and> look d' = (look d)(locate (filepath_Join [base, mf_Path f]) \<mapsto> g)"
proof -
  let ?t = "filepath_Join [base, mf_Path f]"
  from assms obtain d1 where mk: "MkdirAll os (filepath_Dir ?t) d = (Inr (), d1)"
    and wr: "WriteFileAtomicIfChanged os ?t (mf_Content f) (mf_Mode f) d1 = (Inr (), d')"
    by (auto simp: write_desired_def Let_def fail_def andThen_Inr texted_Inr split: option.splits if_splits)
  show ?thesis using WriteFile_ok[OF wr] reads_onlyD[OF reads_only_calls(1) mk] by simp
qed

lemma write_loop:
  assumes "for_each (write_desired os base) fs d = (Inr (), d')"
  shows "(\<forall>l. l \<notin> (\<lambda>f. locate (filepath_Join [base, mf_Path f])) ` set fs \<longrightarrow> look d' l = look d l)
    \<and> (distinct (map (\<lambda>f. locate (filepath_Join [base, mf_Path f])) fs) \<longrightarrow>
      (\<forall>f \<in> set fs. data_at d' (locate (filepath_Join [base, mf_Path f])) = Some (mf_Content f)))"
  using assms
proof (induction fs arbitrary: d)
  case (Cons f fs)
  let ?at = "\<lambda>f. locate (filepath_Join [base, mf_Path f])"
  from Cons.prems obtain d1 where one: "write_desired os base f d = (Inr (), d1)"
    and rest: "for_each (write_desired os base) fs d1 = (Inr (), d')"
    unfolding for_each_Cons_Inr by blast
  obtain g where g: "f_Data g = mf_Content f" "look d1 = (look d)(?at f \<mapsto> g)" using write_desired_ok[OF one] by blast
  note ih = Cons.IH[OF rest]
  have "data_at d' (?at f) = Some (mf_Content f)" if "?at f \<notin> ?at ` set fs"
    using ih that g by (simp add: data_at_def)
  moreover have "look d' l = look d l" if "l \<notin> ?at ` set (f # fs)" for l using ih that g(2) by auto
  ultimately show ?case using ih by auto
qed (simp add: return_def)

text \<open>The wanted files as a map, with clean paths.\<close>

definition entry_ok :: "string \<times> managedFile \<Rightarrow> bool" where
  "entry_ok x \<longleftrightarrow> mf_Path (snd x) = fst x \<and> fst x \<noteq> managedDirMarkerName \<and>
    (\<exists>es. es \<noteq> [] \<and> list_all plain_elem es \<and> fst x = Join es ''/'')"

definition desired_ok :: "(string, managedFile) gomap \<Rightarrow> bool" where
  "desired_ok desired \<longleftrightarrow> gm_ok desired \<and> (\<forall>x \<in> set desired. entry_ok x)"

lemma desired_files_ok:
  assumes "desired_files fs acc = Inr desired" "desired_ok acc"
  shows "desired_ok desired"
  using assms
proof (induction fs arbitrary: acc)
  case (Cons f fs)
  then obtain p where p: "cleanManagedFilePath (mf_Path f) = Inr p" "p \<noteq> managedDirMarkerName"
    and rest: "desired_files fs (AList.update p (f\<lparr>mf_Path := p\<rparr>) acc) = Inr desired"
    by (auto split: sum.splits if_splits)
  have "entry_ok (p, f\<lparr>mf_Path := p\<rparr>)" using p cleanManagedFilePath_inside[OF p(1)] by (simp add: entry_ok_def)
  then have "\<forall>x \<in> insert (p, f\<lparr>mf_Path := p\<rparr>) (set acc). entry_ok x" using Cons.prems(2) by (simp add: desired_ok_def)
  then have "\<forall>x \<in> set (AList.update p (f\<lparr>mf_Path := p\<rparr>) acc). entry_ok x" using set_update_subset by (metis subsetD)
  then have "desired_ok (AList.update p (f\<lparr>mf_Path := p\<rparr>) acc)" using Cons.prems(2) by (simp add: desired_ok_def)
  from Cons.IH[OF rest this] show ?case .
qed simp

lemma desired_location:
  assumes "IsAbs base" "desired_ok desired" "(p, f) \<in> set desired"
  shows "\<exists>es. es \<noteq> [] \<and> list_all plain_elem es \<and> p = Join es ''/'' \<and> locate (filepath_Join [base, mf_Path f]) = locate base @ es"
proof -
  have "entry_ok (p, f)" using assms(2,3) by (simp add: desired_ok_def)
  then obtain es where es: "es \<noteq> []" "list_all plain_elem es" "p = Join es ''/''" "mf_Path f = p" by (auto simp: entry_ok_def)
  show ?thesis using locate_below[OF assms(1) es(2,1)] es by (intro exI[of _ es]) simp
qed

lemma managed_dir_ready_keeps: "managed_dir_ready os base d = (r, d') \<Longrightarrow> look d' = look d"
proof -
  assume run: "managed_dir_ready os base d = (r, d')"
  obtain rs d1 where st: "StatFile os base d = (rs, d1)" by fastforce
  have "look d1 = look d" using reads_onlyD[OF reads_only_calls(3) st] .
  moreover have "d' = d1" using run st by (auto simp: managed_dir_ready_def split: sum.splits os_error.splits if_splits)
  ultimately show ?thesis by simp
qed

lemma walked_cases: "walked os base d = (r, d') \<Longrightarrow> look d' = look d \<and> (\<forall>ls. r = Inr ls \<longrightarrow> ls = walk base d)"
  by (auto simp: walked_def syscall_def walk_def below_def Let_def split: option.splits)

lemma managedDirHasMarker_keeps: "managedDirHasMarker os base d = (r, d') \<Longrightarrow> look d' = look d"
proof -
  assume run: "managedDirHasMarker os base d = (r, d')"
  obtain rs d1 where st: "StatFile os (filepath_Join [base, managedDirMarkerName]) d = (rs, d1)" by fastforce
  have "look d1 = look d" using reads_onlyD[OF reads_only_calls(3) st] .
  moreover have "d' = d1" using run st by (auto simp: managedDirHasMarker_def split: sum.splits os_error.splits)
  ultimately show ?thesis by simp
qed

lemma reads_only_texted [intro]: "reads_only m \<Longrightarrow> reads_only (texted t m)"
  by (auto simp: reads_only_def texted_def split: prod.splits sum.splits) (metis snd_conv)+

lemma reads_onlyI: "(\<And>d r d'. m d = (r, d') \<Longrightarrow> look d' = look d) \<Longrightarrow> reads_only m"
  unfolding reads_only_def by (metis prod.collapse)

lemma ensure_reads_only: "reads_only (ensureManagedDirCanBeCleaned os base desired)"
  unfolding ensureManagedDirCanBeCleaned_def
proof (intro reads_only_andThen reads_only_texted)
  show "reads_only (managedDirHasMarker os base)" by (rule reads_onlyI) (rule managedDirHasMarker_keeps)
  have w: "reads_only (unmanagedExistingFiles os base desired)"
    unfolding unmanagedExistingFiles_def by (intro reads_only_andThen reads_only_return reads_onlyI) (use walked_cases in blast)
  have "reads_only (\<lambda>s. (if unknown = [] then return () else fail e) s :: (string + unit) \<times> disk)" for unknown :: "string list" and e
    by (cases "unknown = []") auto
  then show "reads_only (if hasMarker then return () else
      andThen (texted [] (unmanagedExistingFiles os base desired)) (\<lambda>unknownFiles. if unknownFiles = [] then return () else
        fail (''managed dir '' @ quoted base @ '' is missing '' @ managedDirMarkerName @ '' and contains unknown files: '' @ Join (sort unknownFiles) '', '')))"
    for hasMarker
    using w by (cases hasMarker) (auto intro!: reads_only_andThen reads_only_texted split: if_splits)
qed

lemma set_walk: "set (walk base d) = {l. strict_prefix (locate base) l \<and> look d l \<noteq> None}"
proof -
  have "fst ` set (d_files d) = {l. look d l \<noteq> None}" by (simp add: look_def dom_map_of_conv_image_fst[symmetric] dom_def)
  then show ?thesis by (auto simp: walk_def below_def image_iff)
qed

lemma marker_location: "IsAbs base \<Longrightarrow> locate (filepath_Join [base, managedDirMarkerName]) = locate base @ [managedDirMarkerName]"
  using locate_below[of base "[managedDirMarkerName]"] by (simp add: plain_elem_def managedDirMarkerName_def)

lemma strict_prefix_split: "strict_prefix xs l \<longleftrightarrow> (\<exists>es. es \<noteq> [] \<and> l = xs @ es)"
  by (auto simp: strict_prefix_def prefix_def)

text \<open>Where the wanted files go: each below the directory at the elements of its path, no two at the same place.\<close>

lemma desired_at:
  assumes "IsAbs base" "desired_ok desired" "(p, f) \<in> set desired"
  shows "locate (filepath_Join [base, mf_Path f]) = locate base @ Split (CHR ''/'') p" "Split (CHR ''/'') p \<noteq> []"
    "p = Join (Split (CHR ''/'') p) ''/''"
  using desired_location[OF assms] Split_plain_Join by (metis, metis, metis)

lemma desired_at_distinct:
  assumes "IsAbs base" "desired_ok desired"
  shows "distinct (map (\<lambda>f. locate (filepath_Join [base, mf_Path f])) (map snd desired))"
proof -
  have "inj_on (\<lambda>x. locate (filepath_Join [base, mf_Path (snd x)])) (set desired)"
  proof (rule inj_onI)
    fix x y assume xy: "x \<in> set desired" "y \<in> set desired"
      "locate (filepath_Join [base, mf_Path (snd x)]) = locate (filepath_Join [base, mf_Path (snd y)])"
    then have "fst x = fst y"
      using desired_at[OF assms, of "fst x" "snd x"] desired_at[OF assms, of "fst y" "snd y"] by simp
    then show "x = y" using xy assms(2) unfolding desired_ok_def gm_ok_def gm_keys_def by (metis eq_key_imp_eq_value prod.collapse)
  qed
  moreover have "distinct desired" using assms(2) by (simp add: desired_ok_def gm_ok_def gm_keys_def distinct_map)
  ultimately show ?thesis by (simp add: distinct_map comp_def)
qed

text \<open>The effect of a successful \<open>syncManagedFiles\<close>: files that are not wanted go, wanted ones are written, then the marker.\<close>

definition kept :: "string \<Rightarrow> (string, managedFile) gomap \<Rightarrow> location \<Rightarrow> bool" where
  "kept base desired l \<longleftrightarrow> \<not> strict_prefix (locate base) l \<or> map_of desired (rel_path base l) \<noteq> None \<or> rel_path base l = managedDirMarkerName"

lemma sync_steps:
  assumes "syncManagedFiles os base fs d = (Inr (), d')" "IsAbs base"
  obtains desired d5 d6 mk where "desired_files fs [] = Inr desired"
    and "look d5 = (\<lambda>l. if kept base desired l then look d l else None)"
    and "for_each (write_desired os base) (map snd desired) d5 = (Inr (), d6)"
    and "f_Data mk = marker_text" "look d' = (look d6)(locate base @ [managedDirMarkerName] \<mapsto> mk)"
proof -
  from assms(1) obtain d1 d2 d3 d4 d5 d6 d7 desired ls where
    s1: "managed_dir_ready os base d = (Inr (), d1)" and s2: "MkdirAll os base d1 = (Inr (), d2)"
    and des: "desired_files fs [] = Inr desired"
    and s3: "ensureManagedDirCanBeCleaned os base desired d2 = (Inr (), d3)" and s4: "walked os base d3 = (Inr ls, d4)"
    and s5: "for_each (remove_undesired os base desired) ls d4 = (Inr (), d5)"
    and s6: "for_each (write_desired os base) (map snd desired) d5 = (Inr (), d6)"
    and s7: "writeManagedDirMarker os base d6 = (Inr (), d7)" and s8: "removeEmptyManagedDirs os base d7 = (Inr (), d')"
    by (auto simp: syncManagedFiles_def fail_def andThen_Inr texted_Inr split: if_splits sum.splits)
  have l3: "look d3 = look d"
    using managed_dir_ready_keeps[OF s1] reads_onlyD[OF reads_only_calls(1) s2] reads_onlyD[OF ensure_reads_only s3] by simp
  have l4: "look d4 = look d" "set ls = {l. strict_prefix (locate base) l \<and> look d l \<noteq> None}"
    using walked_cases[OF s4] l3 set_walk[of base d3] by auto
  have l5: "look d5 = (\<lambda>l. if kept base desired l then look d l else None)"
    using remove_loop[OF s5] l4 by (auto simp: kept_def fun_eq_iff)
  obtain mk where mk: "f_Data mk = marker_text" "look d7 = (look d6)(locate base @ [managedDirMarkerName] \<mapsto> mk)"
    using s7 WriteFile_ok marker_location[OF assms(2)] unfolding writeManagedDirMarker_def texted_Inr by metis
  have l8: "look d' = look d7" using s8 return_call_cases unfolding removeEmptyManagedDirs_def texted_Inr by metis
  show thesis using that[OF des l5 s6 mk(1)] mk(2) l8 by simp
qed

text \<open>A successful \<open>syncManagedFiles\<close> leaves below the directory exactly the wanted files and the marker, and changes
  nothing else.\<close>

definition wanted_at :: "managedFile list \<Rightarrow> string list \<Rightarrow> string option" where
  "wanted_at fs es =
    (if es = [managedDirMarkerName] then Some marker_text
     else (case desired_files fs [] of Inl e \<Rightarrow> None | Inr desired \<Rightarrow> map_option mf_Content (map_of desired (Join es ''/''))))"

lemma sync_wanted:
  assumes "syncManagedFiles os base fs d = (Inr (), d')" "IsAbs base" "es \<noteq> []" "list_all plain_elem es"
  shows "data_at d' (locate base @ es) = wanted_at fs es"
proof -
  obtain desired d5 d6 mk where des: "desired_files fs [] = Inr desired"
    and l5: "look d5 = (\<lambda>l. if kept base desired l then look d l else None)"
    and s6: "for_each (write_desired os base) (map snd desired) d5 = (Inr (), d6)"
    and mk: "f_Data mk = marker_text" "look d' = (look d6)(locate base @ [managedDirMarkerName] \<mapsto> mk)"
    using sync_steps[OF assms(1,2)] .
  have ok: "desired_ok desired" using desired_files_ok[OF des] by (simp add: desired_ok_def)
  note at = desired_at[OF assms(2) ok] and w = write_loop[OF s6]
  show ?thesis
  proof (cases "es = [managedDirMarkerName]")
    case True
    then show ?thesis using mk by (simp add: data_at_def wanted_at_def)
  next
    case False
    then have fin: "data_at d' (locate base @ es) = data_at d6 (locate base @ es)" using mk by (simp add: data_at_def)
    show ?thesis
    proof (cases "map_of desired (Join es ''/'')")
      case (Some f)
      then have mem: "(Join es ''/'', f) \<in> set desired" by (rule map_of_SomeD)
      then have "data_at d6 (locate (filepath_Join [base, mf_Path f])) = Some (mf_Content f)"
        using w desired_at_distinct[OF assms(2) ok] by (auto simp: image_iff)
      then show ?thesis using at(1)[OF mem] Split_plain_Join[OF assms(3,4)] fin False Some des by (simp add: wanted_at_def)
    next
      case None
      have "locate base @ es \<notin> (\<lambda>f. locate (filepath_Join [base, mf_Path f])) ` set (map snd desired)"
      proof
        assume "locate base @ es \<in> (\<lambda>f. locate (filepath_Join [base, mf_Path f])) ` set (map snd desired)"
        then obtain p f where pf: "(p, f) \<in> set desired" "locate base @ es = locate (filepath_Join [base, mf_Path f])" by auto
        then have "p = Join es ''/''" using at[OF pf(1)] by simp
        then show False using None pf(1) by (simp add: map_of_eq_None_iff) (metis fst_conv imageI)
      qed
      then have "look d6 (locate base @ es) = look d5 (locate base @ es)" using w by blast
      moreover have "\<not> kept base desired (locate base @ es)"
        using False None assms(3) Join_plain_inj[OF assms(3,4), of "[managedDirMarkerName]"]
        by (auto simp: kept_def strict_prefix_split plain_elem_def managedDirMarkerName_def)
      ultimately show ?thesis using fin False None des l5 by (simp add: data_at_def wanted_at_def)
    qed
  qed
qed

lemma sync_elsewhere:
  assumes "syncManagedFiles os base fs d = (Inr (), d')" "IsAbs base"
  shows "\<not> strict_prefix (locate base) l \<Longrightarrow> look d' l = look d l" "disk_ok d \<Longrightarrow> disk_ok d'"
proof -
  obtain desired d5 d6 mk where des: "desired_files fs [] = Inr desired"
    and l5: "look d5 = (\<lambda>l. if kept base desired l then look d l else None)"
    and s6: "for_each (write_desired os base) (map snd desired) d5 = (Inr (), d6)"
    and mk: "f_Data mk = marker_text" "look d' = (look d6)(locate base @ [managedDirMarkerName] \<mapsto> mk)"
    using sync_steps[OF assms] .
  have ok: "desired_ok desired" using desired_files_ok[OF des] by (simp add: desired_ok_def)
  note w = write_loop[OF s6]
  show "look d' l = look d l" if "\<not> strict_prefix (locate base) l"
  proof -
    have "strict_prefix (locate base) (locate (filepath_Join [base, mf_Path f]))" if "(p, f) \<in> set desired" for p f
      using desired_at(1,2)[OF assms(2) ok that] by (metis strict_prefix_split)
    then have "l \<notin> (\<lambda>f. locate (filepath_Join [base, mf_Path f])) ` set (map snd desired)" using that by auto
    then have "look d6 l = look d l" using w l5 that by (auto simp: kept_def)
    moreover have "l \<noteq> locate base @ [managedDirMarkerName]" using that by (auto simp: strict_prefix_split)
    ultimately show ?thesis using mk by simp
  qed
  show "disk_ok d'" if "disk_ok d"
  proof -
    have "look d6 l \<noteq> None \<Longrightarrow> list_all plain_elem l" for l
      using w l5 that locate_plain by (cases "l \<in> (\<lambda>f. locate (filepath_Join [base, mf_Path f])) ` set (map snd desired)")
        (fastforce simp: disk_ok_look split: if_splits)+
    moreover have "list_all plain_elem (locate base @ [managedDirMarkerName])"
      using locate_plain marker_location[OF assms(2)] by metis
    ultimately show ?thesis unfolding disk_ok_look mk(2) by auto
  qed
qed

end
