(* ===== verification/Agent_Apply.thy ===== *)
theory Agent_Apply
  imports Agent_Nginx
begin

text \<open>
  Installing a configuration of OpenResty on an edge node (\<open>nginx/manager.go\<close>): \<open>Apply\<close> with its backup and its
  rollback, the safe default configuration, the health check, the executor that runs the binary of OpenResty, and the checksum
  of what is installed with its cache.

  Shown is that an \<open>Apply\<close> that reports success has installed the rendered configuration and the wanted files, that one
  that reports a warning has put back every file it manages, and that the cached checksum is never stale.
\<close>

section \<open>Files of the agent's own\<close>

definition runtimeConfigSpecs :: "string list" where
  "runtimeConfigSpecs = [''pow_config.json'', ''region_config.json'', ''waf_config.json'', ''cc_config.json'']"

fun collect :: "('a \<Rightarrow> 'e + 'b) \<Rightarrow> 'a list \<Rightarrow> 'e + 'b list" where
  "collect f [] = Inr []"
| "collect f (x # xs) = (case f x of Inl e \<Rightarrow> Inl e | Inr y \<Rightarrow> (case collect f xs of Inl e \<Rightarrow> Inl e | Inr ys \<Rightarrow> Inr (y # ys)))"

definition replaced :: "(string \<times> string) list \<Rightarrow> SupportFile \<Rightarrow> SupportFile" where
  "replaced subst f = f\<lparr>sf_Content := foldl (\<lambda>s (old, new). ReplaceAll s old new) (sf_Content f) subst\<rparr>"

definition runtime_dir_subst :: "Manager \<Rightarrow> (string \<times> string) list" where
  "runtime_dir_subst m = [(RuntimeConfigDirPlaceholder, TrimSpace (m_RuntimeConfigDir m))]"

definition geoip_path_subst :: "Manager \<Rightarrow> (string \<times> string) list" where
  "geoip_path_subst m = [(GeoIPDatabasePathPlaceholder, geoIPDatabaseRuntimePath m)]"

definition managedPowLuaFiles :: "lua_assets \<Rightarrow> Manager \<Rightarrow> SupportFile list" where
  "managedPowLuaFiles assets m = map (replaced (runtime_dir_subst m @ geoip_path_subst m)) (ManagedPowLuaFiles assets)"

definition managedGeoIPLuaFiles :: "lua_assets \<Rightarrow> Manager \<Rightarrow> SupportFile list" where
  "managedGeoIPLuaFiles assets m =
    map (replaced (runtime_dir_subst m @ geoip_path_subst m @
      [(GeoIPLookupAPIURLPlaceholder, luaStringLiteral (m_GeoIPLookupAPIURL m)),
       (GeoIPLookupAPITokenPlaceholder, luaStringLiteral (m_GeoIPLookupAPIToken m)),
       (GeoIPLookupAPITimeoutPlaceholder, FormatInt (geoIPLookupAPITimeoutMilliseconds m))])) (ManagedGeoIPLuaFiles assets)"

definition managedWAFLuaFiles :: "lua_assets \<Rightarrow> Manager \<Rightarrow> SupportFile list" where
  "managedWAFLuaFiles assets m = map (replaced (runtime_dir_subst m)) (ManagedWAFLuaFiles assets)"

definition managedCCLuaFiles :: "lua_assets \<Rightarrow> Manager \<Rightarrow> SupportFile list" where
  "managedCCLuaFiles assets m = map (replaced (runtime_dir_subst m)) (ManagedCCLuaFiles assets)"

definition below_base :: "string \<Rightarrow> string \<Rightarrow> string + string" where
  "below_base baseDir targetPath =
    (case Rel baseDir targetPath of
       None \<Rightarrow> Inl (''Rel: can't make '' @ targetPath @ '' relative to '' @ baseDir)
     | Some relativePath \<Rightarrow> Inr relativePath)"

definition lua_managed :: "Manager \<Rightarrow> SupportFile \<Rightarrow> string + managedFile" where
  "lua_managed m f =
    (case luaFileTargetPath (m_LuaDir m) (sf_Path f) of
       Inl e \<Rightarrow> Inl e
     | Inr targetPath \<Rightarrow>
         (case below_base (m_LuaDir m) targetPath of
            Inl e \<Rightarrow> Inl e
          | Inr relativePath \<Rightarrow> Inr \<lparr>mf_Path = relativePath, mf_Content = sf_Content f, mf_Mode = 420\<rparr>))"

definition EnsureLuaAssets :: "nginx_env \<Rightarrow> Manager \<Rightarrow> (disk, string, unit) action" where
  "EnsureLuaAssets env m =
    (let assets = ne_assets env
     in if TrimSpace (m_LuaDir m) = [] then return ()
        else
          (case ManagedPowStaticFiles assets of
             Inl e \<Rightarrow> fail (''load pow static files: '' @ e)
           | Inr powStaticFiles \<Rightarrow>
               (let allSupportFiles = ManagedObservabilityLuaFiles assets @ ManagedSharedLuaFiles assets @ managedPowLuaFiles assets m
                  @ managedGeoIPLuaFiles assets m @ managedWAFLuaFiles assets m @ managedCCLuaFiles assets m @ powStaticFiles
                in case collect (lua_managed m) allSupportFiles of
                     Inl e \<Rightarrow> fail e
                   | Inr fs \<Rightarrow> syncManagedFiles (ne_os env) (m_LuaDir m) fs)))"

section \<open>Certificates and runtime files\<close>

definition cert_managed :: "Manager \<Rightarrow> SupportFile \<Rightarrow> string + managedFile" where
  "cert_managed m f =
    (case certFileTargetPath m (sf_Path f) of
       Inl e \<Rightarrow> Inl e
     | Inr targetPath \<Rightarrow>
         (case below_base (m_CertDir m) targetPath of
            Inl e \<Rightarrow> Inl e
          | Inr relativePath \<Rightarrow> Inr \<lparr>mf_Path = relativePath, mf_Content = sf_Content f, mf_Mode = certFileMode (sf_Path f)\<rparr>))"

definition writeManagedCertFiles :: "os \<Rightarrow> Manager \<Rightarrow> SupportFile list \<Rightarrow> (disk, string, unit) action" where
  "writeManagedCertFiles os m certFiles =
    (case collect (cert_managed m) (filter (\<lambda>f. sf_Path f \<notin> set runtimeConfigSpecs) certFiles) of
       Inl e \<Rightarrow> fail e
     | Inr fs \<Rightarrow> syncManagedFiles os (m_CertDir m) fs)"

definition writeCertFiles :: "os \<Rightarrow> Manager \<Rightarrow> SupportFile list \<Rightarrow> (disk, string, unit) action" where
  "writeCertFiles os m certFiles = (if m_CertDir m = [] then return () else writeManagedCertFiles os m certFiles)"

definition remove_if_present :: "os \<Rightarrow> string \<Rightarrow> (disk, os_error, unit) action" where
  "remove_if_present os path = orElse (RemoveFile os path) (\<lambda>e. if e = Not_Exist then return () else fail e)"

definition removeLegacyPowConfig :: "os \<Rightarrow> string \<Rightarrow> (disk, string, unit) action" where
  "removeLegacyPowConfig os path =
    (if TrimSpace path = [] then return ()
     else texted (''remove legacy pow_config.json '' @ quoted path @ '': '') (remove_if_present os path))"

definition writeRuntimeConfigFile :: "os \<Rightarrow> Manager \<Rightarrow> SupportFile list \<Rightarrow> string \<Rightarrow> (disk, string, unit) action" where
  "writeRuntimeConfigFile os m supportFiles spec =
    (let configPath = filepath_Join [m_RuntimeConfigDir m, spec]
     in case find (\<lambda>f. sf_Path f = spec) supportFiles of
          Some f \<Rightarrow> texted (''write '' @ spec @ '': '') (WriteFileAtomicIfChanged os configPath (sf_Content f) 420)
        | None \<Rightarrow>
            andThen (texted (''remove '' @ spec @ '': '') (remove_if_present os configPath)) (\<lambda>_.
            if spec = ''pow_config.json'' then
              andThen (removeLegacyPowConfig os (filepath_Join [m_LuaDir m, spec])) (\<lambda>_.
              removeLegacyPowConfig os (filepath_Join [m_CertDir m, spec]))
            else return ()))"

definition writeRuntimeConfigFiles :: "os \<Rightarrow> Manager \<Rightarrow> SupportFile list \<Rightarrow> (disk, string, unit) action" where
  "writeRuntimeConfigFiles os m supportFiles =
    (if m_RuntimeConfigDir m = [] then return ()
     else for_each (writeRuntimeConfigFile os m supportFiles) runtimeConfigSpecs)"

definition read_cert_file :: "os \<Rightarrow> Manager \<Rightarrow> location \<Rightarrow> (disk, os_error, SupportFile) action" where
  "read_cert_file os m l =
    (let relativePath = rel_path (m_CertDir m) l
     in andThen (ReadFile os (filepath_Join [m_CertDir m, relativePath])) (\<lambda>data. return \<lparr>sf_Path = relativePath, sf_Content = data\<rparr>))"

fun map_each :: "('a \<Rightarrow> ('s, 'e, 'b) action) \<Rightarrow> 'a list \<Rightarrow> ('s, 'e, 'b list) action" where
  "map_each f [] = return []"
| "map_each f (x # xs) = andThen (f x) (\<lambda>y. andThen (map_each f xs) (\<lambda>ys. return (y # ys)))"

text \<open>A file in the place of the directory is visited by \<open>filepath.Walk\<close> itself, under the path \<open>.\<close>.\<close>

definition readCertFiles :: "os \<Rightarrow> Manager \<Rightarrow> (disk, os_error, SupportFile list) action" where
  "readCertFiles os m d =
    (if m_CertDir m = [] then (Inr [], d)
     else
       (case StatFile os (m_CertDir m) d of
          (Inl Not_Exist, d) \<Rightarrow> (Inr [], d)
        | (Inl e, d) \<Rightarrow> (Inl e, d)
        | (Inr is_directory, d) \<Rightarrow>
            if \<not> is_directory then andThen (ReadFile os (m_CertDir m)) (\<lambda>data. return [\<lparr>sf_Path = ''.'', sf_Content = data\<rparr>]) d
            else
              andThen (walked os (m_CertDir m)) (\<lambda>ls.
              andThen (map_each (read_cert_file os m)
                (filter (\<lambda>l. rel_path (m_CertDir m) l \<notin> set (managedDirMarkerName # runtimeConfigSpecs)) ls)) (\<lambda>fs.
              return (sort_key sf_Path fs))) d))"

definition readRuntimeConfigFile :: "os \<Rightarrow> Manager \<Rightarrow> string \<Rightarrow> (disk, os_error, SupportFile option) action" where
  "readRuntimeConfigFile os m spec d =
    (case ReadFile os (filepath_Join [m_RuntimeConfigDir m, spec]) d of
       (Inr data, d) \<Rightarrow> (Inr (Some \<lparr>sf_Path = spec, sf_Content = data\<rparr>), d)
     | (Inl Not_Exist, d) \<Rightarrow> (Inr None, d)
     | (Inl e, d) \<Rightarrow> (Inl e, d))"

text \<open>The files found, in the order of the names; those that are missing are not in the result.\<close>

definition readRuntimeConfigFiles :: "os \<Rightarrow> Manager \<Rightarrow> (disk, os_error, (string, SupportFile) gomap) action" where
  "readRuntimeConfigFiles os m =
    (if m_RuntimeConfigDir m = [] then return []
     else andThen (map_each (readRuntimeConfigFile os m) runtimeConfigSpecs) (\<lambda>found.
       return (map (\<lambda>f. (sf_Path f, f)) (List.map_filter id found))))"

definition readManagedSupportFiles :: "os \<Rightarrow> Manager \<Rightarrow> (disk, os_error, SupportFile list) action" where
  "readManagedSupportFiles os m =
    andThen (readCertFiles os m) (\<lambda>fs.
    andThen (readRuntimeConfigFiles os m) (\<lambda>runtimeFiles.
    return (fs @ List.map_filter (map_of runtimeFiles) runtimeConfigSpecs)))"

section \<open>Backup and rollback\<close>

record backupState =
  bs_Main :: "string option"
  bs_Route :: "string option"
  bs_Files :: "SupportFile list"
  bs_RuntimeFiles :: "(string, SupportFile) gomap"

definition read_if_present :: "os \<Rightarrow> string \<Rightarrow> (disk, os_error, string option) action" where
  "read_if_present os path d =
    (case ReadFile os path d of
       (Inr data, d) \<Rightarrow> (Inr (Some data), d)
     | (Inl Not_Exist, d) \<Rightarrow> (Inr None, d)
     | (Inl e, d) \<Rightarrow> (Inl e, d))"

definition make_dir_unless_empty :: "os \<Rightarrow> string \<Rightarrow> string \<Rightarrow> (disk, os_error, unit) action" where
  "make_dir_unless_empty os option dir = (if option = [] then return () else MkdirAll os dir)"

definition backup :: "os \<Rightarrow> Manager \<Rightarrow> (disk, string, backupState) action" where
  "backup os m =
    (if m_MainConfigPath m = [] then fail (''main config path'' @ must_not_be_empty)
     else if m_RouteConfigPath m = [] then fail (''route config path'' @ must_not_be_empty)
     else texted []
       (andThen (MkdirAll os (filepath_Dir (m_MainConfigPath m))) (\<lambda>_.
        andThen (MkdirAll os (filepath_Dir (m_RouteConfigPath m))) (\<lambda>_.
        andThen (make_dir_unless_empty os (m_AccessLogPath m) (filepath_Dir (m_AccessLogPath m))) (\<lambda>_.
        andThen (make_dir_unless_empty os (m_CertDir m) (m_CertDir m)) (\<lambda>_.
        andThen (make_dir_unless_empty os (m_RuntimeConfigDir m) (m_RuntimeConfigDir m)) (\<lambda>_.
        andThen (read_if_present os (m_MainConfigPath m)) (\<lambda>mainData.
        andThen (read_if_present os (m_RouteConfigPath m)) (\<lambda>data.
        andThen (readCertFiles os m) (\<lambda>fs.
        andThen (readRuntimeConfigFiles os m) (\<lambda>runtimeFiles.
        return \<lparr>bs_Main = mainData, bs_Route = data, bs_Files = fs, bs_RuntimeFiles = runtimeFiles\<rparr>)))))))))))"

definition restore_config :: "os \<Rightarrow> string \<Rightarrow> string option \<Rightarrow> (disk, os_error, unit) action" where
  "restore_config os path content =
    (case content of Some data \<Rightarrow> WriteFileAtomicIfChanged os path data 420 | None \<Rightarrow> remove_if_present os path)"

definition restoreRuntimeConfigFile :: "os \<Rightarrow> Manager \<Rightarrow> backupState \<Rightarrow> string \<Rightarrow> (disk, string, unit) action" where
  "restoreRuntimeConfigFile os m state spec =
    texted [] (restore_config os (filepath_Join [m_RuntimeConfigDir m, spec]) (map_option sf_Content (map_of (bs_RuntimeFiles state) spec)))"

definition restoreRuntimeConfigFiles :: "os \<Rightarrow> Manager \<Rightarrow> backupState \<Rightarrow> (disk, string, unit) action" where
  "restoreRuntimeConfigFiles os m state =
    (if m_RuntimeConfigDir m = [] then return () else for_each (restoreRuntimeConfigFile os m state) runtimeConfigSpecs)"

definition restore :: "os \<Rightarrow> Manager \<Rightarrow> backupState \<Rightarrow> (disk, string, unit) action" where
  "restore os m state =
    andThen (texted [] (restore_config os (m_MainConfigPath m) (bs_Main state))) (\<lambda>_.
    andThen (texted [] (restore_config os (m_RouteConfigPath m) (bs_Route state))) (\<lambda>_.
    andThen (if m_CertDir m \<noteq> [] then writeManagedCertFiles os m (bs_Files state) else return ()) (\<lambda>_.
    restoreRuntimeConfigFiles os m state)))"

section \<open>Applying a configuration\<close>

definition proxyCachePathPattern :: rx where
  "proxyCachePathPattern = Seqs
    [Line_Start, Rep Space, Fold ''proxy_cache_path'', Rep1 Space,
     Group 1 (Alts [Seqs [One_Of [dquote], Rep1 (None_Of [dquote]), One_Of [dquote]],
       Seqs [One_Of [squote], Rep1 (None_Of [squote]), One_Of [squote]],
       Rep1 (Cls (\<lambda>c. \<not> rx_space c \<and> c \<noteq> CHR '';''))])]"

fun distinct_paths :: "string list \<Rightarrow> string list \<Rightarrow> string list" where
  "distinct_paths seen [] = []"
| "distinct_paths seen (p # ps) =
    (let cachePath = Trim (TrimSpace p) [dquote, squote]
     in if cachePath = [] then distinct_paths seen ps
        else if Clean cachePath \<in> set seen then distinct_paths seen ps
        else cachePath # distinct_paths (Clean cachePath # seen) ps)"

definition proxyCacheDirectoriesFromConfig :: "string \<Rightarrow> string list" where
  "proxyCacheDirectoriesFromConfig mainConfig =
    distinct_paths [] (map (\<lambda>g. submatch g 1) (FindAllStringSubmatch proxyCachePathPattern mainConfig))"

definition ensure_cache_dir :: "nginx_env \<Rightarrow> string \<Rightarrow> (disk, string, unit) action" where
  "ensure_cache_dir env cachePath =
    (case safeCacheDirectory (ne_links env) cachePath of
       Inl e \<Rightarrow> fail (''proxy_cache_path '' @ quoted cachePath @ '' is invalid: '' @ e)
     | Inr cleanPath \<Rightarrow> texted (''create proxy cache path '' @ cleanPath @ '': '') (MkdirAll (ne_os env) cleanPath))"

definition ensureProxyCacheDirectories :: "nginx_env \<Rightarrow> string \<Rightarrow> (disk, string, unit) action" where
  "ensureProxyCacheDirectories env mainConfig = for_each (ensure_cache_dir env) (proxyCacheDirectoriesFromConfig mainConfig)"

definition ensureMimeTypes :: "nginx_env \<Rightarrow> Manager \<Rightarrow> (disk, string, unit) action" where
  "ensureMimeTypes env m d =
    (if m_MainConfigPath m = [] then (Inr (), d)
     else
       (let os = ne_os env; configDir = filepath_Dir (m_MainConfigPath m); mimeTypesPath = filepath_Join [configDir, ''mime.types'']
        in case StatFile os mimeTypesPath d of
             (Inr _, d) \<Rightarrow> (Inr (), d)
           | (Inl Not_Exist, d) \<Rightarrow>
               texted [] (andThen (MkdirAll os configDir) (\<lambda>_. WriteFileAtomicIfChanged os mimeTypesPath (DefaultMimeTypes (ne_assets env)) 420)) d
           | (Inl e, d) \<Rightarrow> (Inl (os_text e), d)))"

definition writeTargetFiles :: "nginx_env \<Rightarrow> Manager \<Rightarrow> string \<Rightarrow> string \<Rightarrow> SupportFile list \<Rightarrow> (disk, string, unit) action" where
  "writeTargetFiles env m mainConfig routeConfig supportFiles =
    (let os = ne_os env
     in andThen (EnsureLuaAssets env m) (\<lambda>_.
        andThen (writeCertFiles os m supportFiles) (\<lambda>_.
        andThen (writeRuntimeConfigFiles os m supportFiles) (\<lambda>_.
        andThen (ensureMimeTypes env m) (\<lambda>_.
        andThen (ensureProxyCacheDirectories env (renderMainConfig m mainConfig)) (\<lambda>_.
        andThen (texted [] (WriteFileAtomicIfChanged os (m_MainConfigPath m) (renderMainConfig m mainConfig) 420)) (\<lambda>_.
        texted [] (WriteFileAtomicIfChanged os (m_RouteConfigPath m) (renderRouteConfig m routeConfig) 420))))))))"

definition with_executor :: "nginx_env \<Rightarrow> (executor \<Rightarrow> (disk, string, 'a) action) \<Rightarrow> (disk, string, 'a) action" where
  "with_executor env f = (case ne_executor env of None \<Rightarrow> fail executor_missing | Some ex \<Rightarrow> f ex)"

definition activateConfig :: "nginx_env \<Rightarrow> (disk, string, unit) action" where
  "activateConfig env = with_executor env (\<lambda>ex. andThen (ex_Test ex) (\<lambda>_. ex_Reload ex))"

definition Manager_EnsureRuntime :: "nginx_env \<Rightarrow> bool \<Rightarrow> (disk, string, unit) action" where
  "Manager_EnsureRuntime env recreate = with_executor env (\<lambda>ex. ex_EnsureRuntime ex recreate)"

definition Manager_Restart :: "nginx_env \<Rightarrow> (disk, string, unit) action" where
  "Manager_Restart env = with_executor env ex_Restart"

text \<open>The two formats of the safe default configuration, with their \<open>%s\<close> filled in.\<close>

definition text_lines :: "string list \<Rightarrow> string" where
  "text_lines ls = concat (map (\<lambda>l. l @ [newline]) ls)"

definition safeDefaultFallbackObservabilityServerBlock :: "string \<Rightarrow> string" where
  "safeDefaultFallbackObservabilityServerBlock listen =
    text_lines
      [[], ''    server {'', ''        listen '' @ listen @ '';'', ''        server_name dushengcdn-observability;'',
       ''        access_log off;'', ''        allow 127.0.0.1;'', ''        allow ::1;'', ''        deny all;'', [],
       ''        location = /dushengcdn/stub_status {'', ''            stub_status;'', ''        }'', ''    }'']"

definition safeDefaultFallbackMainConfig :: "Manager \<Rightarrow> string" where
  "safeDefaultFallbackMainConfig m =
    (let listen = TrimSpace (m_OpenrestyObservabilityListen m);
         observabilityBlock = (if listen \<noteq> [] then safeDefaultFallbackObservabilityServerBlock listen else [])
     in text_lines
       [''# This file is generated by DuShengCDN safe default fallback.'', ''worker_processes auto;'', ''pid logs/nginx.pid;'', [],
        ''events {'', ''    worker_connections 1024;'', ''}'', [], ''http {'', ''    server_tokens off;'', ''    default_type text/plain;'', [],
        ''    server {'', ''        listen 80 default_server;'', ''        server_name _;'',
        ''        return 503 '' @ quoted (''DuShengCDN: No Valid Configuration'' @ [CHR 0x5C, CHR ''n'']) @ '';'', ''    }'',
        observabilityBlock, ''}''])"

definition writeSafeDefaultFallbackFiles :: "os \<Rightarrow> Manager \<Rightarrow> (disk, string, unit) action" where
  "writeSafeDefaultFallbackFiles os m =
    (if TrimSpace (m_MainConfigPath m) = [] then fail (''main config path'' @ must_not_be_empty)
     else if TrimSpace (m_RouteConfigPath m) = [] then fail (''route config path'' @ must_not_be_empty)
     else texted []
       (andThen (MkdirAll os (filepath_Dir (m_MainConfigPath m))) (\<lambda>_.
        andThen (MkdirAll os (filepath_Dir (m_RouteConfigPath m))) (\<lambda>_.
        andThen (WriteFileAtomicIfChanged os (m_RouteConfigPath m) [] 420) (\<lambda>_.
        WriteFileAtomicIfChanged os (m_MainConfigPath m) (safeDefaultFallbackMainConfig m) 420)))))"

text \<open>The cached checksum and the number of its invalidations; the state of the manager is this cache and the disk.\<close>

record checksum_cache =
  cc_Value :: "string option"
  cc_Generation :: nat

type_synonym 'a managed = "(checksum_cache \<times> disk, string, 'a) action"

definition invalidateCurrentChecksum :: "checksum_cache \<Rightarrow> checksum_cache" where
  "invalidateCurrentChecksum c = c\<lparr>cc_Generation := Suc (cc_Generation c), cc_Value := None\<rparr>"

text \<open>The checksum is invalidated before an action that may change what it covers, and, deferred, after it.\<close>

definition before_change :: "checksum_cache \<Rightarrow> checksum_cache" where
  "before_change c = invalidateCurrentChecksum c"

definition after_change :: "checksum_cache \<Rightarrow> checksum_cache" where
  "after_change c = invalidateCurrentChecksum c"

definition invalidating :: "(checksum_cache \<times> disk \<Rightarrow> 'r \<times> checksum_cache \<times> disk) \<Rightarrow> checksum_cache \<times> disk \<Rightarrow> 'r \<times> checksum_cache \<times> disk" where
  "invalidating f s =
    (case s of (c, d) \<Rightarrow> case f (before_change c, d) of (r, c, d) \<Rightarrow> (r, after_change c, d))"

definition on_disk :: "(disk, string, 'a) action \<Rightarrow> 'a managed" where
  "on_disk f s = (case s of (c, d) \<Rightarrow> case f d of (r, d) \<Rightarrow> (r, c, d))"

definition labelled :: "string \<Rightarrow> ('s, string, 'a) action \<Rightarrow> ('s, string, 'a) action" where
  "labelled label f s = (case f s of (Inl e, s) \<Rightarrow> (Inl (label @ e), s) | (Inr x, s) \<Rightarrow> (Inr x, s))"

definition EnsureSafeFallbackRuntime :: "nginx_env \<Rightarrow> Manager \<Rightarrow> unit managed" where
  "EnsureSafeFallbackRuntime env m =
    (if ne_executor env = None then fail executor_missing
     else invalidating (on_disk
       (andThen (labelled ''write safe default fallback config failed: '' (writeSafeDefaultFallbackFiles (ne_os env) m)) (\<lambda>_.
        labelled ''activate safe default fallback runtime failed: '' (activateConfig env)))))"

datatype ApplyStatus = ApplySuccess | ApplyWarning | ApplyFatal

type_synonym ApplyOutcome = "ApplyStatus \<times> string"

definition fatalApplyOutcome :: "string \<Rightarrow> ApplyOutcome" where
  "fatalApplyOutcome err = (ApplyFatal, RedactSensitiveText (TrimSpace err))"

definition rollbackAfterFailedApply ::
  "nginx_env \<Rightarrow> Manager \<Rightarrow> backupState \<Rightarrow> string \<Rightarrow> checksum_cache \<times> disk \<Rightarrow> ApplyOutcome \<times> checksum_cache \<times> disk" where
  "rollbackAfterFailedApply env m saved applyErr s =
    (case on_disk (restore (ne_os env) m saved) s of
       (Inl err, s) \<Rightarrow> (fatalApplyOutcome (''restore openresty backup failed after apply error '' @ applyErr @ '': '' @ err), s)
     | (Inr _, s) \<Rightarrow>
         (case on_disk (activateConfig env) s of
            (Inr _, s) \<Rightarrow> ((ApplyWarning, ''apply failed, rolled back to previous config: '' @ applyErr), s)
          | (Inl err, s) \<Rightarrow>
              if bs_Main saved \<noteq> None
              then (fatalApplyOutcome (''apply failed: '' @ applyErr @ ''; rollback recovery failed: '' @ err), s)
              else
                (case EnsureSafeFallbackRuntime env m s of
                   (Inl fallbackErr, s) \<Rightarrow>
                     (fatalApplyOutcome (''apply failed: '' @ applyErr @ ''; rollback recovery failed: '' @ err
                        @ ''; fallback recovery failed: '' @ fallbackErr), s)
                 | (Inr _, s) \<Rightarrow>
                     ((ApplyWarning, ''apply failed, but fallback runtime started: '' @ applyErr @ ''; rollback recovery failed: '' @ err), s))))"

definition apply_body ::
  "nginx_env \<Rightarrow> Manager \<Rightarrow> string \<Rightarrow> string \<Rightarrow> SupportFile list \<Rightarrow> checksum_cache \<times> disk \<Rightarrow> ApplyOutcome \<times> checksum_cache \<times> disk" where
  "apply_body env m mainConfig routeConfig supportFiles s =
    (case on_disk (backup (ne_os env) m) s of
       (Inl err, s) \<Rightarrow> (fatalApplyOutcome (''backup openresty config failed: '' @ err), s)
     | (Inr saved, s) \<Rightarrow>
         (case on_disk (writeTargetFiles env m mainConfig routeConfig supportFiles) s of
            (Inl err, s) \<Rightarrow> rollbackAfterFailedApply env m saved (''write openresty config failed: '' @ err) s
          | (Inr _, s) \<Rightarrow>
              (case on_disk (activateConfig env) s of
                 (Inl err, s) \<Rightarrow> rollbackAfterFailedApply env m saved (''activate openresty runtime failed: '' @ err) s
               | (Inr _, s) \<Rightarrow> ((ApplySuccess, []), s))))"

definition Apply ::
  "nginx_env \<Rightarrow> Manager \<Rightarrow> string \<Rightarrow> string \<Rightarrow> SupportFile list \<Rightarrow> checksum_cache \<times> disk \<Rightarrow> ApplyOutcome \<times> checksum_cache \<times> disk" where
  "Apply env m mainConfig routeConfig supportFiles = invalidating (apply_body env m mainConfig routeConfig supportFiles)"

text \<open>The health check; \<open>stub\<close> is the answer of the status page on a port: an error, or the status code and its text.\<close>

definition CheckHealth :: "nginx_env \<Rightarrow> Manager \<Rightarrow> (int \<Rightarrow> string + (nat \<times> string)) \<Rightarrow> (disk, string, unit) action" where
  "CheckHealth env m stub = with_executor env (\<lambda>ex d.
    case (if m_MainConfigPath m \<noteq> [] then StatFile (ne_os env) (m_MainConfigPath m) d else (Inr False, d)) of
      (Inl Not_Exist, d) \<Rightarrow> (Inl ''openresty config not exists: waiting for initial sync'', d)
    | (_, d) \<Rightarrow>
        if m_OpenrestyObservabilityPort m \<le> 0 then ex_CheckHealth ex d
        else
          (case stub (m_OpenrestyObservabilityPort m) of
             Inl e \<Rightarrow> (Inl (''openresty health endpoint unreachable: '' @ e), d)
           | Inr (code, status) \<Rightarrow> if code \<noteq> 200 then (Inl (''openresty health endpoint returned '' @ status), d) else (Inr (), d)))"

section \<open>The checksum of what is installed\<close>

definition bundle_text :: "string \<Rightarrow> string \<Rightarrow> SupportFile list \<Rightarrow> string" where
  "bundle_text mainConfig routeConfig supportFiles =
    mainConfig @ [newline] @ ''--route-config--'' @ [newline] @ routeConfig @ [newline] @ ''--support-files--'' @ [newline]
    @ concat (map (\<lambda>f. sf_Path f @ [newline] @ sf_Content f @ [newline]) (sort_key sf_Path supportFiles))"

text \<open>\<open>sha256\<close> yields the digest in hexadecimal. \<open>sort.Slice\<close> leaves the order of equal paths open; the stable one is taken.\<close>

definition BundleChecksum :: "(string \<Rightarrow> string) \<Rightarrow> string \<Rightarrow> string \<Rightarrow> SupportFile list \<Rightarrow> string" where
  "BundleChecksum sha256 mainConfig routeConfig supportFiles = sha256 (bundle_text mainConfig routeConfig supportFiles)"

definition calculateCurrentChecksum :: "nginx_env \<Rightarrow> Manager \<Rightarrow> (disk, string, string) action" where
  "calculateCurrentChecksum env m =
    (let os = ne_os env
     in if m_RouteConfigPath m = [] then fail (''route config path'' @ must_not_be_empty)
        else if m_MainConfigPath m = [] then fail (''main config path'' @ must_not_be_empty)
        else
          andThen (texted [] (read_if_present os (m_MainConfigPath m))) (\<lambda>mainData.
          case mainData of
            None \<Rightarrow> return []
          | Some mainData \<Rightarrow>
              andThen (texted [] (read_if_present os (m_RouteConfigPath m))) (\<lambda>data.
              case data of
                None \<Rightarrow> return []
              | Some data \<Rightarrow>
                  andThen (texted [] (readManagedSupportFiles os m)) (\<lambda>fs.
                  return (BundleChecksum (ne_sha256 env) (normalizedMain m mainData) (normalizedRoute m data) fs)))))"

definition storeCurrentChecksum :: "nat \<Rightarrow> string \<Rightarrow> checksum_cache \<Rightarrow> checksum_cache" where
  "storeCurrentChecksum generation v c = (if generation \<noteq> cc_Generation c then c else c\<lparr>cc_Value := Some v\<rparr>)"

definition CurrentChecksum :: "nginx_env \<Rightarrow> Manager \<Rightarrow> string managed" where
  "CurrentChecksum env m s =
    (case s of (c, d) \<Rightarrow>
     case cc_Value c of
       Some v \<Rightarrow> (Inr v, s)
     | None \<Rightarrow>
         (case calculateCurrentChecksum env m d of
            (Inl e, d) \<Rightarrow> (Inl e, c, d)
          | (Inr v, d) \<Rightarrow> (Inr v, storeCurrentChecksum (cc_Generation c) v c, d)))"

section \<open>Running the binary\<close>

text \<open>A runner of commands returns the output and perhaps an error.\<close>

type_synonym runner = "string \<Rightarrow> string list \<Rightarrow> disk \<Rightarrow> (string \<times> string option) \<times> disk"

record PathExecutor =
  pe_Path :: string
  pe_ConfigPath :: string
  pe_PrefixPath :: string

definition commandArgs :: "PathExecutor \<Rightarrow> string list \<Rightarrow> string list" where
  "commandArgs e args =
    (if TrimSpace (pe_PrefixPath e) \<noteq> [] then [''-p'', TrimSpace (pe_PrefixPath e)] else []) @ args
    @ (if TrimSpace (pe_ConfigPath e) \<noteq> [] then [''-c'', TrimSpace (pe_ConfigPath e)] else [])"

definition preparePrefix :: "os \<Rightarrow> PathExecutor \<Rightarrow> (disk, string, unit) action" where
  "preparePrefix os e =
    (let prefixPath = TrimSpace (pe_PrefixPath e)
     in if prefixPath = [] then return ()
        else texted (''prepare openresty prefix '' @ prefixPath @ '' failed: '') (MkdirAll os (filepath_Join [prefixPath, ''logs''])))"

definition sanitizeOpenRestyCommandOutput :: "string \<Rightarrow> string" where
  "sanitizeOpenRestyCommandOutput output = RedactSensitiveText (TrimSpace output)"

definition isIgnorableOpenrestyStopError :: "string \<Rightarrow> bool" where
  "isIgnorableOpenrestyStopError output =
    (let label = ToLower (TrimSpace output) in label \<noteq> [] \<and> (Contains label ''invalid pid'' \<or> Contains label ''no such process''))"

definition isOpenrestyNotRunningError :: "string \<Rightarrow> bool" where
  "isOpenrestyNotRunningError output =
    (let label = ToLower (TrimSpace output)
     in label \<noteq> [] \<and> (Contains label ''invalid pid'' \<or> Contains label ''no such process'' \<or>
       (Contains label ''open()'' \<and> Contains label ''nginx.pid'' \<and> Contains label ''failed'')))"

definition PathExecutor_Test :: "os \<Rightarrow> runner \<Rightarrow> PathExecutor \<Rightarrow> (disk, string, unit) action" where
  "PathExecutor_Test os run e =
    andThen (preparePrefix os e) (\<lambda>_ d.
    case run (pe_Path e) (commandArgs e [''-t'']) d of
      ((output, Some err), d) \<Rightarrow> (Inl (''openresty -t failed: '' @ err @ '': '' @ sanitizeOpenRestyCommandOutput output), d)
    | ((output, None), d) \<Rightarrow> (Inr (), d))"

definition PathExecutor_Reload :: "os \<Rightarrow> runner \<Rightarrow> PathExecutor \<Rightarrow> (disk, string, unit) action" where
  "PathExecutor_Reload os run e =
    andThen (preparePrefix os e) (\<lambda>_ d.
    case run (pe_Path e) (commandArgs e [''-s'', ''reload'']) d of
      ((output, None), d) \<Rightarrow> (Inr (), d)
    | ((output, Some err), d) \<Rightarrow>
        (let label = ''openresty reload failed: '' @ err @ '': '' @ sanitizeOpenRestyCommandOutput output
         in if isOpenrestyNotRunningError output then
              (case run (pe_Path e) (commandArgs e []) d of
                 ((startOutput, Some startErr), d) \<Rightarrow>
                   (Inl (label @ ''; start failed: '' @ startErr @ '': '' @ sanitizeOpenRestyCommandOutput startOutput), d)
               | ((startOutput, None), d) \<Rightarrow> (Inr (), d))
            else (Inl label, d)))"

definition PathExecutor_Restart :: "os \<Rightarrow> runner \<Rightarrow> PathExecutor \<Rightarrow> (disk, string, unit) action" where
  "PathExecutor_Restart os run e =
    andThen (preparePrefix os e) (\<lambda>_ d.
    case run (pe_Path e) (commandArgs e [''-s'', ''quit'']) d of
      ((output, stopErr), d) \<Rightarrow>
        (let label = sanitizeOpenRestyCommandOutput output
         in if stopErr \<noteq> None \<and> \<not> isIgnorableOpenrestyStopError label
            then (Inl (''openresty stop failed: '' @ the stopErr @ '': '' @ label), d)
            else
              (case run (pe_Path e) (commandArgs e []) d of
                 ((output, Some err), d) \<Rightarrow> (Inl (''openresty start failed: '' @ err @ '': '' @ sanitizeOpenRestyCommandOutput output), d)
               | ((output, None), d) \<Rightarrow> (Inr (), d))))"

definition path_executor :: "os \<Rightarrow> runner \<Rightarrow> PathExecutor \<Rightarrow> executor" where
  "path_executor os run e =
    \<lparr>ex_Test = PathExecutor_Test os run e,
     ex_Reload = PathExecutor_Reload os run e,
     ex_EnsureRuntime = (\<lambda>recreate. andThen (PathExecutor_Test os run e) (\<lambda>_. PathExecutor_Reload os run e)),
     ex_CheckHealth = PathExecutor_Test os run e,
     ex_Restart = PathExecutor_Restart os run e\<rparr>"

definition managedOpenRestyPrefix :: "string \<Rightarrow> string" where
  "managedOpenRestyPrefix mainConfigPath =
    (let configPath = TrimSpace mainConfigPath
     in if configPath = [] then []
        else (let configDir = filepath_Dir configPath in if configDir = ''.'' \<or> configDir = [] then [] else configDir))"

definition NewExecutor :: "string \<Rightarrow> string \<Rightarrow> PathExecutor" where
  "NewExecutor nginxPath mainConfigPath =
    \<lparr>pe_Path = TrimSpace nginxPath, pe_ConfigPath = TrimSpace mainConfigPath, pe_PrefixPath = managedOpenRestyPrefix mainConfigPath\<rparr>"

section \<open>Resolvers and versions\<close>

definition ObservabilityListenAddress :: "int \<Rightarrow> string" where
  "ObservabilityListenAddress port = (if port \<le> 0 then [] else ''127.0.0.1:'' @ FormatInt port)"

definition isUsableDockerResolver :: "string \<Rightarrow> bool" where
  "isUsableDockerResolver addr = (case ParseIP addr of None \<Rightarrow> False | Some ip \<Rightarrow> \<not> IsLoopback ip \<and> \<not> IsUnspecified ip)"

text \<open>The loop over candidate addresses that drops empty and repeated ones.\<close>

fun new_addresses :: "string list \<Rightarrow> string list \<Rightarrow> string list" where
  "new_addresses seen [] = []"
| "new_addresses seen (addr # addrs) =
    (if addr = [] \<or> addr \<in> set seen then new_addresses seen addrs else addr # new_addresses (addr # seen) addrs)"

definition normalizeResolverAddresses :: "string list \<Rightarrow> string list" where
  "normalizeResolverAddresses values = new_addresses [] (map TrimSpace values)"

definition nameserver_of :: "bool \<Rightarrow> string \<Rightarrow> string" where
  "nameserver_of dockerMode line =
    (case FieldsFunc is_space (TrimSpace line) of
       keyword # addr # rest \<Rightarrow>
         (let addr = TrimSpace addr
          in if keyword \<noteq> ''nameserver'' then [] else if dockerMode \<and> \<not> isUsableDockerResolver addr then [] else addr)
     | _ \<Rightarrow> [])"

definition parseResolverAddresses :: "string \<Rightarrow> bool \<Rightarrow> string list" where
  "parseResolverAddresses content dockerMode = new_addresses [] (map (nameserver_of dockerMode) (Split newline content))"

definition resolverAddresses :: "os \<Rightarrow> string list \<Rightarrow> disk \<Rightarrow> string list \<times> disk" where
  "resolverAddresses os explicitResolvers d =
    (let resolvers = normalizeResolverAddresses explicitResolvers
     in if resolvers \<noteq> [] then (resolvers, d)
        else (case ReadFile os ''/etc/resolv.conf'' d of
            (Inl _, d) \<Rightarrow> ([], d)
          | (Inr data, d) \<Rightarrow> (parseResolverAddresses data False, d)))"

definition ResolverDirective :: "os \<Rightarrow> string list \<Rightarrow> disk \<Rightarrow> string \<times> disk" where
  "ResolverDirective os explicitResolvers d =
    (case resolverAddresses os explicitResolvers d of (resolvers, d) \<Rightarrow>
     (if resolvers = [] then []
      else text_lines [''    resolver '' @ Join resolvers '' '' @ '' valid=30s ipv6=off;'', ''    resolver_timeout 5s;''], d))"

definition RequiresRuntimeResolver :: "url_lib \<Rightarrow> string \<Rightarrow> bool" where
  "RequiresRuntimeResolver lib originURL =
    (case url_Parse lib (TrimSpace originURL) of
       None \<Rightarrow> False
     | Some parsed \<Rightarrow> Hostname parsed \<noteq> [] \<and> ParseIP (Hostname parsed) = None)"

definition nginxVersionPattern :: rx where
  "nginxVersionPattern = Seqs
    [Alts [Fold ''nginx'', Fold ''openresty''], Fold '' version:'', Rep Space, Alts [Fold ''nginx'', Fold ''openresty''], Fold ''/'',
     Group 1 (Rep1 (Cls (\<lambda>c. \<not> rx_space c)))]"

definition parseNginxVersion :: "string \<Rightarrow> string" where
  "parseNginxVersion output = (case FindAllStringSubmatch nginxVersionPattern output of [] \<Rightarrow> [] | g # gs \<Rightarrow> submatch g 1)"

definition detectVersion :: "runner \<Rightarrow> string \<Rightarrow> (disk, string, string) action" where
  "detectVersion run nginxPath d =
    (if nginxPath = [] then (Inl ''openresty path is empty'', d)
     else
       (case run nginxPath [''-v''] d of
          ((output, Some err), d) \<Rightarrow> (Inl (''run runtime -v failed: '' @ err @ '': '' @ output), d)
        | ((output, None), d) \<Rightarrow>
            if parseNginxVersion output = [] then (Inl ''cannot parse runtime version from binary output'', d)
            else (Inr (parseNginxVersion output), d)))"

lemma new_addresses_props: "distinct (new_addresses seen xs) \<and> set (new_addresses seen xs) = set xs - set seen - {[]}"
  by (induction xs arbitrary: seen) auto

text \<open>The resolvers that are configured are not empty and none is repeated.\<close>

lemma resolvers_distinct:
  assumes "resolverAddresses os explicitResolvers d = (resolvers, d')"
  shows "distinct resolvers \<and> [] \<notin> set resolvers"
proof -
  obtain r d1 where "ReadFile os ''/etc/resolv.conf'' d = (r, d1)" by fastforce
  then show ?thesis using assms new_addresses_props
    by (cases r) (auto simp: resolverAddresses_def normalizeResolverAddresses_def parseResolverAddresses_def Let_def split: if_splits)
qed

lemma version_example: "parseNginxVersion ''nginx version: openresty/1.2'' = ''1.2''"
  by code_simp

end
