(* ===== verification/Agent_Install.thy ===== *)
theory Agent_Install
  imports Agent_Apply
begin

text \<open>
  What an \<open>Apply\<close> leaves on the disk of a node, proved for the definitions of theory \<open>Agent_Apply\<close>: the backup holds what is
  there, a rollback puts it back, a success installs what was given; and the cached checksum of the installed files is
  never stale, shown on a step relation for the interleaving of readers and writers.
\<close>


section \<open>Tidy paths\<close>

text \<open>A path below a directory whose name the rules for paths leave as it is.\<close>

definition tidy :: "string list \<Rightarrow> bool" where
  "tidy es \<longleftrightarrow> es \<noteq> [] \<and> list_all plain_elem es \<and> TrimSpace (Join es ''/'') = Join es ''/'' \<and> slashed (Join es ''/'') = Join es ''/''"

lemma clean_steps_plain_relative: "list_all plain_elem es \<Longrightarrow> foldl (clean_step False) out es = rev es @ out"
  by (induction es arbitrary: out) (auto simp: clean_step_def plain_elem_def)

lemma relative_Join: "es \<noteq> [] \<Longrightarrow> list_all plain_elem es \<Longrightarrow> \<not> IsAbs (Join es ''/'')"
  by (cases es) (auto simp: IsAbs_iff Join_Cons plain_elem_def append_eq_Cons_conv)

lemma Clean_plain:
  assumes "es \<noteq> []" "list_all plain_elem es"
  shows "Clean (Join es ''/'') = Join es ''/''"
proof -
  have "path_elems (Join es ''/'') = es"
    using relative_Join[OF assms] Split_plain_Join[OF assms] clean_steps_plain_relative[OF assms(2), of "[]"] by (simp add: path_elems_def)
  moreover have "Join es ''/'' \<noteq> []" using assms by (simp add: Join_Nil_iff list_all_iff plain_elem_def)
  ultimately show ?thesis using relative_Join[OF assms] by (simp add: Clean_def)
qed

lemma Join_plain_inside:
  assumes "es \<noteq> []" "list_all plain_elem es"
  shows "Join es ''/'' \<noteq> ''.''" "Join es ''/'' \<noteq> []" "Join es ''/'' \<noteq> ''..''" "\<not> HasPrefix (Join es ''/'') ''../''"
proof -
  show "Join es ''/'' \<noteq> []" using assms by (simp add: Join_Nil_iff list_all_iff plain_elem_def)
  show "Join es ''/'' \<noteq> ''..''" "\<not> HasPrefix (Join es ''/'') ''../''" using escapes_down[OF assms(2,1)] by (auto simp: escapes_def)
  show "Join es ''/'' \<noteq> ''.''"
  proof
    assume "Join es ''/'' = ''.''"
    then have "Split (CHR ''/'') ''.'' = es" using Split_plain_Join[OF assms] by simp
    then show False using assms(2) by (simp add: Split_plain plain_elem_def) (auto simp: plain_elem_def)
  qed
qed

lemma Rel_below:
  assumes "IsAbs base" "es \<noteq> []" "list_all plain_elem es"
  shows "Rel base (filepath_Join [base, Join es ''/'']) = Some (Join es ''/'')"
proof -
  let ?t = "filepath_Join [base, Join es ''/'']"
  have ne: "base \<noteq> []" using assms(1) by (auto simp: IsAbs_iff)
  have abs: "IsAbs ?t" using assms(1) ne Join_plain_inside(2)[OF assms(2,3)] by (simp add: filepath_Join_def Join_Cons) (auto simp: IsAbs_iff)
  have el: "path_elems ?t = path_elems base @ es" using locate_below[OF assms(1,3,2)] abs assms(1) by (simp add: locate_def)
  have "Clean ?t \<noteq> Clean base" using el assms(2) by (simp add: Clean_eq_iff[OF abs assms(1)])
  moreover have "Clean base \<noteq> ''.''" using Clean_abs[OF assms(1)] by simp
  ultimately show ?thesis using el abs assms(1)
    by (simp add: Rel_def elements_Clean after_common_rest Let_def)
qed

lemma relative_target_tidy:
  assumes "tidy es" "IsAbs base" "TrimSpace base \<noteq> []"
  shows "relative_target kind base (Join es ''/'') = Inr (filepath_Join [base, Join es ''/''])"
  using assms Clean_plain[of es] Join_plain_inside[of es] relative_Join[of es] Rel_below[of base es]
  by (auto simp: relative_target_def tidy_def Let_def)

lemma cert_managed_tidy:
  assumes "tidy es" "IsAbs (m_CertDir m)" "TrimSpace (m_CertDir m) \<noteq> []" "sf_Path f = Join es ''/''"
  shows "cert_managed m f = Inr \<lparr>mf_Path = Join es ''/'', mf_Content = sf_Content f, mf_Mode = certFileMode (sf_Path f)\<rparr>"
  using relative_target_tidy[OF assms(1-3)] Rel_below[OF assms(2), of es] assms(1,4)
  by (simp add: cert_managed_def certFileTargetPath_def below_base_def tidy_def)

lemma cleanManagedFilePath_tidy: "tidy es \<Longrightarrow> cleanManagedFilePath (Join es ''/'') = Inr (Join es ''/'')"
  using Clean_plain[of es] Join_plain_inside[of es] relative_Join[of es]
  by (auto simp: cleanManagedFilePath_def tidy_def Let_def)

lemma update_new: "k \<notin> fst ` set al \<Longrightarrow> AList.update k v al = al @ [(k, v)]"
  by (induction al) auto

lemma desired_files_tidy:
  assumes "\<forall>f \<in> set fs. \<exists>es. tidy es \<and> mf_Path f = Join es ''/'' \<and> mf_Path f \<noteq> managedDirMarkerName"
    and "distinct (map mf_Path fs)" "fst ` set acc \<inter> mf_Path ` set fs = {}"
  shows "desired_files fs acc = Inr (acc @ map (\<lambda>f. (mf_Path f, f)) fs)"
  using assms
proof (induction fs arbitrary: acc)
  case (Cons f fs)
  have p: "cleanManagedFilePath (mf_Path f) = Inr (mf_Path f)" "mf_Path f \<noteq> managedDirMarkerName"
    using Cons.prems(1) cleanManagedFilePath_tidy by fastforce+
  have new: "mf_Path f \<notin> fst ` set acc" using Cons.prems(3) by auto
  have "desired_files (f # fs) acc = desired_files fs (acc @ [(mf_Path f, f)])"
    using p update_new[OF new] by simp
  also have "\<dots> = Inr ((acc @ [(mf_Path f, f)]) @ map (\<lambda>f. (mf_Path f, f)) fs)"
    by (rule Cons.IH) (use Cons.prems in auto)
  finally show ?case by simp
qed simp


section \<open>What the backup holds\<close>

lemma read_if_present_Inr:
  assumes "read_if_present os p d = (Inr x, d')"
  shows "x = data_at d (locate p)" "look d' = look d"
proof -
  obtain r d1 where rd: "ReadFile os p d = (r, d1)" by fastforce
  have keep: "look d1 = look d" using reads_onlyD[OF reads_only_calls(2) rd] .
  show "x = data_at d (locate p)" "look d' = look d"
    using assms rd keep ReadFile_Inr[of os p d _ d1] ReadFile_Not_Exist[of os p d d1]
    by (auto simp: read_if_present_def data_at_def split: sum.splits os_error.splits)
qed

lemma reads_only_read_if_present: "reads_only (read_if_present os p)"
proof (rule reads_onlyI)
  fix d r d' assume run: "read_if_present os p d = (r, d')"
  obtain r1 d1 where rd: "ReadFile os p d = (r1, d1)" by fastforce
  have "look d1 = look d" using reads_onlyD[OF reads_only_calls(2) rd] .
  then show "look d' = look d" using run rd by (auto simp: read_if_present_def split: sum.splits os_error.splits)
qed

lemma map_each_Cons_Inr:
  "map_each f (x # xs) s = (Inr ys, s') \<longleftrightarrow> (\<exists>y zs s1. ys = y # zs \<and> f x s = (Inr y, s1) \<and> map_each f xs s1 = (Inr zs, s'))"
  by (auto simp: andThen_Inr return_def)

text \<open>A list of files as a map from paths to contents.\<close>

definition holds :: "SupportFile list \<Rightarrow> string \<Rightarrow> string option" where
  "holds fs p = map_option sf_Content (find (\<lambda>f. sf_Path f = p) fs)"

lemma read_cert_file_Inr:
  assumes "read_cert_file os m (locate (m_CertDir m) @ es) d = (Inr f, d')" "IsAbs (m_CertDir m)" "es \<noteq> []" "list_all plain_elem es"
  shows "sf_Path f = Join es ''/''" "data_at d (locate (m_CertDir m) @ es) = Some (sf_Content f)" "look d' = look d"
proof -
  from assms(1) obtain s where rd: "ReadFile os (filepath_Join [m_CertDir m, Join es ''/'']) d = (Inr s, d')"
    and f: "f = \<lparr>sf_Path = Join es ''/'', sf_Content = s\<rparr>"
    by (auto simp: read_cert_file_def Let_def andThen_Inr return_def)
  show "look d' = look d" using reads_onlyD[OF reads_only_calls(2) rd] .
  show "sf_Path f = Join es ''/''" by (simp add: f)
  show "data_at d (locate (m_CertDir m) @ es) = Some (sf_Content f)"
    using ReadFile_Inr[OF rd] locate_below[OF assms(2,4,3)] f by (auto simp: data_at_def)
qed

lemma map_each_read_cert:
  assumes "map_each (read_cert_file os m) ls d = (Inr fs, d')" "IsAbs (m_CertDir m)"
    and "\<forall>l \<in> set ls. \<exists>es. es \<noteq> [] \<and> list_all plain_elem es \<and> l = locate (m_CertDir m) @ es"
  shows "look d' = look d \<and> map sf_Path fs = map (rel_path (m_CertDir m)) ls
    \<and> (\<forall>f \<in> set fs. \<exists>es. es \<noteq> [] \<and> list_all plain_elem es \<and> sf_Path f = Join es ''/'' \<and> data_at d (locate (m_CertDir m) @ es) = Some (sf_Content f))"
  using assms(1,3)
proof (induction ls arbitrary: d fs)
  case (Cons l ls)
  obtain es where l: "es \<noteq> []" "list_all plain_elem es" "l = locate (m_CertDir m) @ es" using Cons.prems(2) by auto
  obtain f gs d1 where f: "fs = f # gs" "read_cert_file os m l d = (Inr f, d1)" "map_each (read_cert_file os m) ls d1 = (Inr gs, d')"
    using Cons.prems(1) unfolding map_each_Cons_Inr by blast
  note one = read_cert_file_Inr[OF f(2)[unfolded l(3)] assms(2) l(1,2)]
  have ih: "look d' = look d1 \<and> map sf_Path gs = map (rel_path (m_CertDir m)) ls
    \<and> (\<forall>f \<in> set gs. \<exists>es. es \<noteq> [] \<and> list_all plain_elem es \<and> sf_Path f = Join es ''/'' \<and> data_at d1 (locate (m_CertDir m) @ es) = Some (sf_Content f))"
    by (rule Cons.IH[OF f(3)]) (use Cons.prems(2) in simp)
  have same: "data_at d1 = data_at d" using one(3) by (auto simp: data_at_def fun_eq_iff)
  show ?case
  proof (intro conjI)
    show "look d' = look d" using ih one(3) by simp
    show "map sf_Path fs = map (rel_path (m_CertDir m)) (l # ls)" using ih one(1) by (simp add: f(1) l(3))
    show "\<forall>f \<in> set fs. \<exists>es. es \<noteq> [] \<and> list_all plain_elem es \<and> sf_Path f = Join es ''/'' \<and> data_at d (locate (m_CertDir m) @ es) = Some (sf_Content f)"
      using ih one l unfolding same f(1) by auto
  qed
qed (simp add: return_def)

lemma find_unique:
  assumes "distinct (map sf_Path fs)" "f \<in> set fs"
  shows "find (\<lambda>g. sf_Path g = sf_Path f) fs = Some f"
  using assms by (induction fs) (auto simp: image_iff)

text \<open>The certificates that are read are the files below the directory, less the agent's own.\<close>

definition own_name :: "string \<Rightarrow> bool" where
  "own_name p \<longleftrightarrow> p = managedDirMarkerName \<or> p \<in> set runtimeConfigSpecs"

definition certs_read :: "Manager \<Rightarrow> disk \<Rightarrow> SupportFile list \<Rightarrow> bool" where
  "certs_read m d fs \<longleftrightarrow> distinct (map sf_Path fs)
    \<and> (\<forall>f \<in> set fs. \<exists>es. es \<noteq> [] \<and> list_all plain_elem es \<and> sf_Path f = Join es ''/'' \<and> \<not> own_name (sf_Path f)
        \<and> data_at d (locate (m_CertDir m) @ es) = Some (sf_Content f))
    \<and> (\<forall>es. es \<noteq> [] \<longrightarrow> list_all plain_elem es \<longrightarrow> \<not> own_name (Join es ''/'') \<longrightarrow> look d (locate (m_CertDir m) @ es) \<noteq> None
        \<longrightarrow> Join es ''/'' \<in> sf_Path ` set fs)"

lemma certs_read_none: "is_dir d (locate (m_CertDir m)) = False \<Longrightarrow> certs_read m d []"
proof -
  assume no: "is_dir d (locate (m_CertDir m)) = False"
  have "look d (locate (m_CertDir m) @ es) = None" if "es \<noteq> []" for es
  proof (rule ccontr)
    assume "look d (locate (m_CertDir m) @ es) \<noteq> None"
    then obtain f where "(locate (m_CertDir m) @ es, f) \<in> set (d_files d)" unfolding look_def by (metis map_of_SomeD not_None_eq)
    moreover have "strict_prefix (locate (m_CertDir m)) (locate (m_CertDir m) @ es)" using that by (auto simp: strict_prefix_split)
    ultimately show False using no by (auto simp: is_dir_def list_ex_iff)
  qed
  then show ?thesis by (auto simp: certs_read_def)
qed

lemma walk_plain:
  assumes "disk_ok d" "l \<in> set (walk base d)"
  shows "\<exists>es. es \<noteq> [] \<and> list_all plain_elem es \<and> l = locate base @ es"
  using assms unfolding set_walk disk_ok_look strict_prefix_split by fastforce

lemma walked_certs:
  assumes "disk_ok d" "IsAbs (m_CertDir m)"
    and "walked os (m_CertDir m) d = (Inr ls, d1)"
    and "map_each (read_cert_file os m) (filter (\<lambda>l. rel_path (m_CertDir m) l \<notin> set (managedDirMarkerName # runtimeConfigSpecs)) ls) d1 = (Inr fs, d2)"
  shows "certs_read m d fs \<and> look d2 = look d"
proof -
  let ?C = "locate (m_CertDir m)"
  let ?ls = "filter (\<lambda>l. rel_path (m_CertDir m) l \<notin> set (managedDirMarkerName # runtimeConfigSpecs)) ls"
  have ls: "ls = walk (m_CertDir m) d" "look d1 = look d" using walked_cases[OF assms(3)] by auto
  have at: "\<forall>l \<in> set ?ls. \<exists>es. es \<noteq> [] \<and> list_all plain_elem es \<and> l = ?C @ es" using walk_plain[OF assms(1)] ls(1) by auto
  have same: "data_at d1 = data_at d" using ls(2) by (auto simp: data_at_def fun_eq_iff)
  note run = map_each_read_cert[OF assms(4,2) at, unfolded same]
  have "distinct ?ls" by (simp add: ls(1) walk_def)
  moreover have "inj_on (rel_path (m_CertDir m)) (set ?ls)"
  proof (rule inj_onI)
    fix x y assume xy: "x \<in> set ?ls" "y \<in> set ?ls" "rel_path (m_CertDir m) x = rel_path (m_CertDir m) y"
    then show "x = y" using at Join_plain_inj by (metis rel_path_below)
  qed
  ultimately have dist: "distinct (map sf_Path fs)" using run by (simp add: distinct_map)
  have paths: "sf_Path ` set fs = rel_path (m_CertDir m) ` set ?ls" using run by (metis list.set_map)
  have "\<not> own_name (sf_Path f)" if "f \<in> set fs" for f
  proof -
    have "sf_Path f \<in> rel_path (m_CertDir m) ` set ?ls" using that paths by blast
    then show ?thesis by (auto simp: own_name_def)
  qed
  moreover have "Join es ''/'' \<in> sf_Path ` set fs"
    if "es \<noteq> []" "list_all plain_elem es" "\<not> own_name (Join es ''/'')" "look d (?C @ es) \<noteq> None" for es
  proof -
    have "?C @ es \<in> set ?ls" using that by (auto simp: ls(1) set_walk strict_prefix_split own_name_def)
    then show ?thesis unfolding paths by (rule rev_image_eqI) simp
  qed
  ultimately show ?thesis using dist run ls(2) unfolding certs_read_def by (metis (no_types, lifting))
qed


lemma certs_read_sorted: "certs_read m d fs \<Longrightarrow> certs_read m d (sort_key sf_Path fs)"
proof -
  assume "certs_read m d fs"
  moreover have "distinct (map sf_Path (sort_key sf_Path fs)) \<longleftrightarrow> distinct (map sf_Path fs)"
    by (metis mset_map mset_sort mset_eq_imp_distinct_iff)
  ultimately show ?thesis by (simp add: certs_read_def)
qed

lemma readCertFiles_Inr:
  assumes "readCertFiles os m d = (Inr fs, d')" "disk_ok d" "IsAbs (m_CertDir m)" "look d (locate (m_CertDir m)) = None"
  shows "certs_read m d fs \<and> look d' = look d"
proof -
  have ne: "m_CertDir m \<noteq> []" using assms(3) by (auto simp: IsAbs_iff)
  obtain r d1 where st: "StatFile os (m_CertDir m) d = (r, d1)" by fastforce
  have keep: "look d1 = look d" using reads_onlyD[OF reads_only_calls(3) st] .
  have same: "data_at d1 = data_at d" using keep by (auto simp: data_at_def fun_eq_iff)
  show ?thesis
  proof (cases r)
    case (Inl e)
    then have e: "e = Not_Exist" "fs = []" "d' = d1" using assms(1) st ne by (auto simp: readCertFiles_def split: os_error.splits)
    then have "is_dir d (locate (m_CertDir m)) = False"
      using st Inl by (auto simp: StatFile_def syscall_def Let_def is_dir_def not_a_directory_def split: option.splits if_splits)
    then show ?thesis using certs_read_none e keep by simp
  next
    case (Inr is_directory)
    then have "is_directory" using st assms(4) by (auto simp: StatFile_def syscall_def Let_def split: option.splits if_splits)
    then obtain ls gs d2 d3 where w: "walked os (m_CertDir m) d1 = (Inr ls, d2)"
      and g: "map_each (read_cert_file os m) (filter (\<lambda>l. rel_path (m_CertDir m) l \<notin> set (managedDirMarkerName # runtimeConfigSpecs)) ls) d2 = (Inr gs, d3)"
      and fs: "fs = sort_key sf_Path gs" "d' = d3"
      using assms(1) st Inr ne by (auto simp: readCertFiles_def andThen_Inr return_def)
    have "disk_ok d1" using assms(2) keep by (simp add: disk_ok_look)
    from walked_certs[OF this assms(3) w g] have "certs_read m d1 gs \<and> look d3 = look d1" .
    then have "certs_read m d gs" "look d' = look d" using keep same fs(2) by (auto simp: certs_read_def)
    then show ?thesis using certs_read_sorted fs(1) by blast
  qed
qed

definition runtime_at :: "Manager \<Rightarrow> string \<Rightarrow> location" where
  "runtime_at m spec = locate (filepath_Join [m_RuntimeConfigDir m, spec])"

lemma readRuntimeConfigFile_Inr:
  assumes "readRuntimeConfigFile os m spec d = (Inr x, d')"
  shows "map_option sf_Content x = data_at d (runtime_at m spec)" "x = None \<or> sf_Path (the x) = spec" "look d' = look d"
proof -
  obtain r d1 where rd: "ReadFile os (filepath_Join [m_RuntimeConfigDir m, spec]) d = (r, d1)" by fastforce
  have keep: "look d1 = look d" using reads_onlyD[OF reads_only_calls(2) rd] .
  show "map_option sf_Content x = data_at d (runtime_at m spec)" "x = None \<or> sf_Path (the x) = spec" "look d' = look d"
    using assms rd keep ReadFile_Inr[of os _ d _ d1] ReadFile_Not_Exist[of os _ d d1]
    by (fastforce simp: readRuntimeConfigFile_def data_at_def runtime_at_def split: sum.splits os_error.splits)+
qed

lemma map_each_readRuntime:
  assumes "map_each (readRuntimeConfigFile os m) specs d = (Inr found, d')" "distinct specs"
  shows "look d' = look d \<and> (\<forall>x \<in> set found. x = None \<or> sf_Path (the x) \<in> set specs)
    \<and> (\<forall>spec \<in> set specs. map_option sf_Content (map_of (map (\<lambda>f. (sf_Path f, f)) (List.map_filter id found)) spec) = data_at d (runtime_at m spec))"
  using assms
proof (induction specs arbitrary: d found)
  case (Cons spec specs)
  obtain x xs d1 where x: "found = x # xs" "readRuntimeConfigFile os m spec d = (Inr x, d1)"
    "map_each (readRuntimeConfigFile os m) specs d1 = (Inr xs, d')"
    using Cons.prems(1) unfolding map_each_Cons_Inr by blast
  note one = readRuntimeConfigFile_Inr[OF x(2)]
  have "distinct specs" using Cons.prems(2) by simp
  note ih = Cons.IH[OF x(3) this]
  have same: "data_at d1 = data_at d" using one(3) by (auto simp: data_at_def fun_eq_iff)
  have absent: "map_of (map (\<lambda>f. (sf_Path f, f)) (List.map_filter id xs)) spec = None"
    using ih Cons.prems(2) by (auto simp: map_of_eq_None_iff List.map_filter_def)
  show ?case
  proof (intro conjI ballI)
    show "look d' = look d" using ih one(3) by simp
    show "y = None \<or> sf_Path (the y) \<in> set (spec # specs)" if "y \<in> set found" for y using that ih one(2) x(1) by auto
    fix s assume s: "s \<in> set (spec # specs)"
    show "map_option sf_Content (map_of (map (\<lambda>f. (sf_Path f, f)) (List.map_filter id found)) s) = data_at d (runtime_at m s)"
    proof (cases "s = spec")
      case True
      then show ?thesis using one(1,2) absent x(1) by (cases x) (auto simp: List.map_filter_simps)
    next
      case False
      then have "s \<in> set specs" using s by simp
      then show ?thesis using ih one(2) False x(1) same by (cases x) (auto simp: List.map_filter_simps id_def)
    qed
  qed
qed (simp add: return_def)

definition files_kept :: "Manager \<Rightarrow> disk \<Rightarrow> backupState \<Rightarrow> bool" where
  "files_kept m d saved \<longleftrightarrow> bs_Main saved = data_at d (locate (m_MainConfigPath m)) \<and> bs_Route saved = data_at d (locate (m_RouteConfigPath m))
    \<and> certs_read m d (bs_Files saved)
    \<and> (\<forall>spec \<in> set runtimeConfigSpecs. map_option sf_Content (map_of (bs_RuntimeFiles saved) spec) = data_at d (runtime_at m spec))"

lemma make_dir_keeps: "make_dir_unless_empty os opt p d = (r, d') \<Longrightarrow> look d' = look d"
  using reads_onlyD[OF reads_only_calls(1)[of os p], of d r d'] by (auto simp: make_dir_unless_empty_def return_def split: if_splits)

lemma MkdirAll_not_file: "MkdirAll os p d = (Inr (), d') \<Longrightarrow> look d (locate p) = None"
  by (auto simp: MkdirAll_def syscall_def Let_def split: option.splits if_splits)

lemma backup_Inr:
  assumes "backup os m d = (Inr saved, d')" "disk_ok d" "IsAbs (m_CertDir m)" "m_RuntimeConfigDir m \<noteq> []"
  shows "files_kept m d saved \<and> look d' = look d"
proof -
  from assms(1,4) obtain d1 d2 d3 d4 d5 d6 d7 d8 found where
    s1: "MkdirAll os (filepath_Dir (m_MainConfigPath m)) d = (Inr (), d1)"
    and s2: "MkdirAll os (filepath_Dir (m_RouteConfigPath m)) d1 = (Inr (), d2)"
    and s3: "make_dir_unless_empty os (m_AccessLogPath m) (filepath_Dir (m_AccessLogPath m)) d2 = (Inr (), d3)"
    and s4: "make_dir_unless_empty os (m_CertDir m) (m_CertDir m) d3 = (Inr (), d4)"
    and s5: "make_dir_unless_empty os (m_RuntimeConfigDir m) (m_RuntimeConfigDir m) d4 = (Inr (), d5)"
    and s6: "read_if_present os (m_MainConfigPath m) d5 = (Inr (bs_Main saved), d6)"
    and s7: "read_if_present os (m_RouteConfigPath m) d6 = (Inr (bs_Route saved), d7)"
    and s8: "readCertFiles os m d7 = (Inr (bs_Files saved), d8)"
    and s9: "map_each (readRuntimeConfigFile os m) runtimeConfigSpecs d8 = (Inr found, d')"
    and rt: "bs_RuntimeFiles saved = map (\<lambda>f. (sf_Path f, f)) (List.map_filter id found)"
    by (auto simp: backup_def fail_def andThen_Inr texted_Inr return_def readRuntimeConfigFiles_def split: if_splits)
  have l3: "look d3 = look d"
    using reads_onlyD[OF reads_only_calls(1) s1] reads_onlyD[OF reads_only_calls(1) s2] make_dir_keeps[OF s3] by simp
  have ne: "m_CertDir m \<noteq> []" using assms(3) by (auto simp: IsAbs_iff)
  have "look d3 (locate (m_CertDir m)) = None" using s4 ne MkdirAll_not_file by (auto simp: make_dir_unless_empty_def)
  have l5: "look d5 = look d" using make_dir_keeps[OF s4] make_dir_keeps[OF s5] l3 by simp
  have l6: "look d6 = look d" using read_if_present_Inr(2)[OF s6] l5 by simp
  have l7: "look d7 = look d" using read_if_present_Inr(2)[OF s7] l6 by simp
  have da: "data_at d5 = data_at d" "data_at d6 = data_at d" "data_at d7 = data_at d" using l5 l6 l7 by (auto simp: data_at_def fun_eq_iff)
  have "disk_ok d7" "look d7 (locate (m_CertDir m)) = None"
    using assms(2) l7 l3 \<open>look d3 (locate (m_CertDir m)) = None\<close> by (auto simp: disk_ok_look)
  from readCertFiles_Inr[OF s8 this(1) assms(3) this(2)] have cr: "certs_read m d7 (bs_Files saved)" "look d8 = look d7" by auto
  then have "certs_read m d (bs_Files saved)" using l7 da by (simp add: certs_read_def)
  moreover have d8: "data_at d8 = data_at d" using cr(2) l7 by (auto simp: data_at_def fun_eq_iff)
  moreover have "distinct runtimeConfigSpecs" by code_simp
  note rr = map_each_readRuntime[OF s9 this]
  ultimately show ?thesis
    using read_if_present_Inr(1)[OF s6] read_if_present_Inr(1)[OF s7] da rr cr(2) l7 rt by (simp add: files_kept_def)
qed


section \<open>What a rollback puts back\<close>

lemma remove_if_present_Inr:
  assumes "remove_if_present os p d = (Inr (), d')"
  shows "look d' = (look d)(locate p := None)"
proof -
  obtain r d1 where rm: "RemoveFile os p d = (r, d1)" by fastforce
  have "r = Inl Not_Exist \<Longrightarrow> look d (locate p) = None"
    using rm by (auto simp: RemoveFile_def syscall_def Let_def not_a_directory_def split: option.splits if_splits)
  then show ?thesis using assms rm RemoveFile_cases[OF rm]
    by (auto simp: remove_if_present_def orElse_def fail_def return_def fun_eq_iff split: sum.splits if_splits)
qed

lemma restore_config_Inr:
  assumes "restore_config os p content d = (Inr (), d')"
  shows "data_at d' = (data_at d)(locate p := content)"
proof (cases content)
  case None
  then have "look d' = (look d)(locate p := None)" using assms remove_if_present_Inr by (simp add: restore_config_def)
  then show ?thesis using None by (auto simp: data_at_def fun_eq_iff)
next
  case (Some s)
  then have "WriteFileAtomicIfChanged os p s 420 d = (Inr (), d')" using assms by (simp add: restore_config_def)
  from WriteFile_ok[OF this] show ?thesis using Some by (auto simp: data_at_def fun_eq_iff)
qed

lemma restore_runtime_loop:
  assumes "for_each (restoreRuntimeConfigFile os m saved) specs d = (Inr (), d')" "inj_on (runtime_at m) (set specs)" "distinct specs"
  shows "(\<forall>spec \<in> set specs. data_at d' (runtime_at m spec) = map_option sf_Content (map_of (bs_RuntimeFiles saved) spec))
    \<and> (\<forall>l. l \<notin> runtime_at m ` set specs \<longrightarrow> data_at d' l = data_at d l)"
  using assms
proof (induction specs arbitrary: d)
  case (Cons spec specs)
  obtain d1 where one: "restoreRuntimeConfigFile os m saved spec d = (Inr (), d1)"
    and rest: "for_each (restoreRuntimeConfigFile os m saved) specs d1 = (Inr (), d')"
    using Cons.prems(1) unfolding for_each_Cons_Inr by blast
  have d1: "data_at d1 = (data_at d)(runtime_at m spec := map_option sf_Content (map_of (bs_RuntimeFiles saved) spec))"
    using one restore_config_Inr unfolding restoreRuntimeConfigFile_def texted_Inr runtime_at_def by blast
  have inj: "inj_on (runtime_at m) (set specs)" "distinct specs" using Cons.prems(2,3) by auto
  note ih = Cons.IH[OF rest inj]
  have "runtime_at m spec \<notin> runtime_at m ` set specs" using Cons.prems(2,3) by (auto simp: inj_on_def)
  then show ?case using ih d1 by auto
qed (simp add: return_def)

text \<open>The paths of a node do not get in each other's way.\<close>

definition layout_ok :: "Manager \<Rightarrow> bool" where
  "layout_ok m \<longleftrightarrow> IsAbs (m_MainConfigPath m) \<and> IsAbs (m_RouteConfigPath m) \<and> IsAbs (m_CertDir m) \<and> IsAbs (m_LuaDir m) \<and> IsAbs (m_RuntimeConfigDir m)
    \<and> (let M = locate (m_MainConfigPath m); R = locate (m_RouteConfigPath m); C = locate (m_CertDir m); L = locate (m_LuaDir m);
           T = locate (m_RuntimeConfigDir m); mime = locate (filepath_Join [filepath_Dir (m_MainConfigPath m), ''mime.types''])
       in distinct [M, R, mime] \<and> T \<noteq> L \<and> \<not> prefix C T \<and> \<not> prefix C L
          \<and> list_all (\<lambda>l. \<not> prefix C l \<and> \<not> prefix T l) [M, R, mime])"

lemma spec_plain: "spec \<in> set runtimeConfigSpecs \<Longrightarrow> plain_elem spec"
  by (auto simp: runtimeConfigSpecs_def plain_elem_def)

lemma runtime_at_eq:
  assumes "layout_ok m" "spec \<in> set runtimeConfigSpecs"
  shows "runtime_at m spec = locate (m_RuntimeConfigDir m) @ [spec]"
  using locate_below[of "m_RuntimeConfigDir m" "[spec]"] assms spec_plain[OF assms(2)] by (simp add: runtime_at_def layout_ok_def)

lemma runtime_apart:
  assumes "layout_ok m" "spec \<in> set runtimeConfigSpecs"
  shows "\<not> strict_prefix (locate (m_CertDir m)) (runtime_at m spec)" "runtime_at m spec \<noteq> locate (m_MainConfigPath m)"
    "runtime_at m spec \<noteq> locate (m_RouteConfigPath m)"
proof -
  have p: "prefix (locate (m_RuntimeConfigDir m)) (runtime_at m spec)" using runtime_at_eq[OF assms] by (rule prefixI)
  show "\<not> strict_prefix (locate (m_CertDir m)) (runtime_at m spec)"
    using assms(1) unfolding runtime_at_eq[OF assms] by (auto simp: layout_ok_def Let_def strict_prefix_def prefix_snoc)
  show "runtime_at m spec \<noteq> locate (m_MainConfigPath m)" "runtime_at m spec \<noteq> locate (m_RouteConfigPath m)"
    using assms(1) p by (auto simp: layout_ok_def Let_def)
qed

lemma configs_apart:
  assumes "layout_ok m"
  shows "locate (m_MainConfigPath m) \<noteq> locate (m_RouteConfigPath m)"
    "\<not> strict_prefix (locate (m_CertDir m)) (locate (m_MainConfigPath m))" "\<not> strict_prefix (locate (m_CertDir m)) (locate (m_RouteConfigPath m))"
  using assms by (auto simp: layout_ok_def Let_def)

lemma trimmed_path: "IsAbs p \<Longrightarrow> TrimSpace p \<noteq> []"
proof
  assume "IsAbs p" "TrimSpace p = []"
  then obtain q where "p = CHR ''/'' # q" by (auto simp: IsAbs_iff)
  then have "CHR ''/'' \<in> set (dropWhile is_space p)" by (simp add: is_space_def)
  moreover have "dropWhile is_space (rev (dropWhile is_space p)) = []" using \<open>TrimSpace p = []\<close>
    by (simp add: TrimSpace_def TrimLeftSpace_def TrimRightSpace_def)
  ultimately show False by (auto simp: is_space_def)
qed

text \<open>The names of the certificates are such that they are written again under the same names.\<close>

definition certs_tidy :: "Manager \<Rightarrow> disk \<Rightarrow> bool" where
  "certs_tidy m d \<longleftrightarrow> (\<forall>es. es \<noteq> [] \<longrightarrow> look d (locate (m_CertDir m) @ es) \<noteq> None \<longrightarrow> tidy es)"

definition cert_file :: "SupportFile \<Rightarrow> managedFile" where
  "cert_file f = \<lparr>mf_Path = sf_Path f, mf_Content = sf_Content f, mf_Mode = certFileMode (sf_Path f)\<rparr>"

lemma collect_certs:
  assumes "\<forall>f \<in> set fs. \<exists>es. tidy es \<and> sf_Path f = Join es ''/''" "IsAbs (m_CertDir m)"
  shows "collect (cert_managed m) fs = Inr (map cert_file fs)"
  using assms(1)
proof (induction fs)
  case (Cons f fs)
  then obtain es where "tidy es" "sf_Path f = Join es ''/''" by auto
  then have "cert_managed m f = Inr (cert_file f)"
    using cert_managed_tidy[of es m f] trimmed_path assms(2) by (simp add: cert_file_def)
  then show ?case using Cons by simp
qed simp

lemma certs_put_back:
  assumes "writeManagedCertFiles os m fs d = (Inr (), d')" "certs_read m d0 fs" "certs_tidy m d0" "IsAbs (m_CertDir m)"
    and "es \<noteq> []" "list_all plain_elem es" "\<not> own_name (Join es ''/'')"
  shows "data_at d' (locate (m_CertDir m) @ es) = data_at d0 (locate (m_CertDir m) @ es)"
proof -
  have tidied: "\<exists>es. tidy es \<and> sf_Path f = Join es ''/'' \<and> \<not> own_name (sf_Path f) \<and> data_at d0 (locate (m_CertDir m) @ es) = Some (sf_Content f)"
    if "f \<in> set fs" for f
    using that assms(2,3) unfolding certs_read_def certs_tidy_def data_at_def by (metis map_option_eq_Some option.distinct(1))
  have all: "filter (\<lambda>f. sf_Path f \<notin> set runtimeConfigSpecs) fs = fs" using tidied by (auto simp: filter_id_conv own_name_def)
  have "collect (cert_managed m) fs = Inr (map cert_file fs)" by (rule collect_certs) (use tidied assms(4) in blast)+
  then have sync: "syncManagedFiles os (m_CertDir m) (map cert_file fs) d = (Inr (), d')"
    using assms(1) all by (simp add: writeManagedCertFiles_def)
  have "desired_files (map cert_file fs) [] = Inr ([] @ map (\<lambda>f. (mf_Path f, f)) (map cert_file fs))"
    by (rule desired_files_tidy) (use tidied assms(2) in \<open>fastforce simp: cert_file_def own_name_def certs_read_def comp_def\<close>)+
  moreover have "es \<noteq> [managedDirMarkerName]" using assms(7) by (auto simp: own_name_def)
  moreover have "map_option mf_Content (map_of (map (\<lambda>f. (mf_Path f, f)) (map cert_file fs)) p) = holds fs p" for p
    by (induction fs) (auto simp: holds_def cert_file_def)
  ultimately have "data_at d' (locate (m_CertDir m) @ es) = holds fs (Join es ''/'')"
    using sync_wanted[OF sync assms(4-6)] by (simp add: wanted_at_def)
  also have "\<dots> = data_at d0 (locate (m_CertDir m) @ es)"
  proof (cases "Join es ''/'' \<in> sf_Path ` set fs")
    case True
    then obtain f where f: "f \<in> set fs" "sf_Path f = Join es ''/''" by auto
    then obtain es' where "tidy es'" "Join es' ''/'' = Join es ''/''" "data_at d0 (locate (m_CertDir m) @ es') = Some (sf_Content f)"
      using tidied by metis
    moreover then have "es' = es" using Join_plain_inj[of es' es] assms(5,6) by (simp add: tidy_def)
    ultimately show ?thesis using find_unique[of fs f] f assms(2) by (simp add: holds_def certs_read_def)
  next
    case False
    then have "look d0 (locate (m_CertDir m) @ es) = None" using assms(2,5-7) unfolding certs_read_def by blast
    moreover have "find (\<lambda>f. sf_Path f = Join es ''/'') fs = None" using False unfolding find_None_iff by (metis imageI)
    ultimately show ?thesis by (simp add: holds_def data_at_def)
  qed
  finally show ?thesis .
qed


text \<open>The files that belong to the configuration of a node.\<close>

definition managed_at :: "Manager \<Rightarrow> location \<Rightarrow> bool" where
  "managed_at m l \<longleftrightarrow> l = locate (m_MainConfigPath m) \<or> l = locate (m_RouteConfigPath m) \<or> l \<in> runtime_at m ` set runtimeConfigSpecs
    \<or> (\<exists>es. es \<noteq> [] \<and> list_all plain_elem es \<and> \<not> own_name (Join es ''/'') \<and> l = locate (m_CertDir m) @ es)"

lemma runtime_at_inj: "layout_ok m \<Longrightarrow> inj_on (runtime_at m) (set runtimeConfigSpecs)"
  by (rule inj_onI) (simp add: runtime_at_eq)

lemma restore_kept:
  assumes "restore os m saved d = (Inr (), d')" "files_kept m d0 saved" "layout_ok m" "certs_tidy m d0" "managed_at m l"
  shows "data_at d' l = data_at d0 l"
proof -
  let ?M = "locate (m_MainConfigPath m)" and ?R = "locate (m_RouteConfigPath m)" and ?C = "locate (m_CertDir m)"
  have lay: "IsAbs (m_CertDir m)" "m_CertDir m \<noteq> []" "m_RuntimeConfigDir m \<noteq> []" using assms(3) by (auto simp: layout_ok_def IsAbs_iff)
  from assms(1) lay obtain d1 d2 d3 where
    s1: "restore_config os (m_MainConfigPath m) (bs_Main saved) d = (Inr (), d1)"
    and s2: "restore_config os (m_RouteConfigPath m) (bs_Route saved) d1 = (Inr (), d2)"
    and s3: "writeManagedCertFiles os m (bs_Files saved) d2 = (Inr (), d3)"
    and s4: "for_each (restoreRuntimeConfigFile os m saved) runtimeConfigSpecs d3 = (Inr (), d')"
    by (auto simp: restore_def restoreRuntimeConfigFiles_def andThen_Inr texted_Inr)
  obtain fs where sync: "syncManagedFiles os (m_CertDir m) fs d2 = (Inr (), d3)"
    using s3 by (auto simp: writeManagedCertFiles_def fail_def split: sum.splits)
  have d2: "data_at d2 = (data_at d)(?M := bs_Main saved, ?R := bs_Route saved)"
    using restore_config_Inr[OF s1] restore_config_Inr[OF s2] by simp
  have d3: "data_at d3 k = data_at d2 k" if "\<not> strict_prefix ?C k" for k
    using sync_elsewhere(1)[OF sync lay(1) that] by (simp add: data_at_def)
  have "distinct runtimeConfigSpecs" by code_simp
  note rt = restore_runtime_loop[OF s4 runtime_at_inj[OF assms(3)] this]
  note apart = runtime_apart[OF assms(3)] and own = configs_apart[OF assms(3)]
  have ck: "certs_read m d0 (bs_Files saved)" "bs_Main saved = data_at d0 ?M" "bs_Route saved = data_at d0 ?R" using assms(2) by (auto simp: files_kept_def)
  from assms(5) consider "l = ?M" | "l = ?R" | spec where "spec \<in> set runtimeConfigSpecs" "l = runtime_at m spec"
    | es where "es \<noteq> []" "list_all plain_elem es" "\<not> own_name (Join es ''/'')" "l = ?C @ es"
    unfolding managed_at_def by blast
  then show ?thesis
  proof cases
    case 1
    then have "data_at d' l = data_at d3 l" using rt apart(2) by (metis imageE)
    then show ?thesis using 1 d3[OF own(2)] d2 own(1) ck by simp
  next
    case 2
    then have "data_at d' l = data_at d3 l" using rt apart(3) by (metis imageE)
    then show ?thesis using 2 d3[OF own(3)] d2 ck by simp
  next
    case (3 spec)
    then show ?thesis using rt assms(2) by (simp add: files_kept_def)
  next
    case (4 es)
    then have "strict_prefix ?C l" by (auto simp: strict_prefix_split)
    then have "data_at d' l = data_at d3 l" using rt apart(1) by (metis imageE)
    then show ?thesis using certs_put_back[OF s3 ck(1) assms(4) lay(1) 4(1-3)] 4(4) by simp
  qed
qed

text \<open>OpenResty may write files of its own, such as its pid file and its logs, when it tests or loads a configuration, but not the
  files of its configuration.\<close>

definition config_at :: "Manager \<Rightarrow> location \<Rightarrow> bool" where
  "config_at m l \<longleftrightarrow> l = locate (m_MainConfigPath m) \<or> l = locate (m_RouteConfigPath m) \<or> l \<in> runtime_at m ` set runtimeConfigSpecs
    \<or> strict_prefix (locate (m_CertDir m)) l"

lemma managed_config: "managed_at m l \<Longrightarrow> config_at m l"
  by (auto simp: managed_at_def config_at_def strict_prefix_split)

definition keeps_config :: "Manager \<Rightarrow> (disk, 'e, 'a) action \<Rightarrow> bool" where
  "keeps_config m f \<longleftrightarrow> (\<forall>d l. config_at m l \<longrightarrow> data_at (snd (f d)) l = data_at d l)"

lemma keeps_configD: "keeps_config m f \<Longrightarrow> f d = (r, d') \<Longrightarrow> config_at m l \<Longrightarrow> data_at d' l = data_at d l"
  unfolding keeps_config_def by (metis snd_conv)

lemma keeps_config_intros [intro]:
  "keeps_config m (return x)" "keeps_config m (fail e)"
  "keeps_config m f \<Longrightarrow> (\<And>x. keeps_config m (g x)) \<Longrightarrow> keeps_config m (andThen f g)"
  by (auto simp: keeps_config_def return_def fail_def andThen_def split: prod.splits sum.splits) (metis snd_conv)+

definition executor_keeps :: "nginx_env \<Rightarrow> Manager \<Rightarrow> bool" where
  "executor_keeps env m \<longleftrightarrow> (\<forall>ex. ne_executor env = Some ex \<longrightarrow> keeps_config m (ex_Test ex) \<and> keeps_config m (ex_Reload ex))"

lemma activate_keeps: "executor_keeps env m \<Longrightarrow> keeps_config m (activateConfig env)"
  by (cases "ne_executor env") (auto simp: activateConfig_def with_executor_def executor_keeps_def)

lemma on_disk_result: "on_disk f (c, d) = (r, s') \<Longrightarrow> \<exists>d'. s' = (c, d') \<and> f d = (r, d')"
  by (auto simp: on_disk_def split: prod.splits)

lemma rollback_warning:
  assumes "rollbackAfterFailedApply env m saved e (c, d) = ((ApplyWarning, msg), c', d')" "bs_Main saved \<noteq> None" "executor_keeps env m"
  shows "\<exists>d1. restore (ne_os env) m saved d = (Inr (), d1) \<and> (\<forall>l. config_at m l \<longrightarrow> data_at d' l = data_at d1 l)"
proof -
  obtain r d1 where re: "on_disk (restore (ne_os env) m saved) (c, d) = (r, c, d1)" "restore (ne_os env) m saved d = (r, d1)"
    by (cases "restore (ne_os env) m saved d") (auto simp: on_disk_def)
  obtain r2 d2 where ac: "on_disk (activateConfig env) (c, d1) = (r2, c, d2)" "activateConfig env d1 = (r2, d2)"
    by (cases "activateConfig env d1") (auto simp: on_disk_def)
  have "r = Inr () \<and> d' = d2"
    using assms(1,2) re ac by (auto simp: rollbackAfterFailedApply_def fatalApplyOutcome_def split: sum.splits)
  then show ?thesis using re(2) keeps_configD[OF activate_keeps[OF assms(3)] ac(2)] by auto
qed

lemma apply_warning:
  assumes "Apply env m mainConfig routeConfig fs (c, d) = ((ApplyWarning, msg), c', d')"
  shows "\<exists>saved d1 e c1 d2 c2 d3. backup (ne_os env) m d = (Inr saved, d1)
    \<and> rollbackAfterFailedApply env m saved e (c1, d2) = ((ApplyWarning, msg), c2, d3) \<and> d' = d3"
proof -
  let ?c = "before_change c"
  obtain r d1 where b: "on_disk (backup (ne_os env) m) (?c, d) = (r, ?c, d1)" "backup (ne_os env) m d = (r, d1)"
    by (cases "backup (ne_os env) m d") (auto simp: on_disk_def)
  obtain r2 d2 where w: "on_disk (writeTargetFiles env m mainConfig routeConfig fs) (?c, d1) = (r2, ?c, d2)"
    by (cases "writeTargetFiles env m mainConfig routeConfig fs d1") (auto simp: on_disk_def)
  obtain r3 d3 where a: "on_disk (activateConfig env) (?c, d2) = (r3, ?c, d3)"
    by (cases "activateConfig env d2") (auto simp: on_disk_def)
  show ?thesis
    using assms b w a unfolding Apply_def invalidating_def apply_body_def
    by (auto simp: fatalApplyOutcome_def split: sum.splits prod.splits)
qed

text \<open>
  C7: When \<open>Apply\<close> reports a warning on a node that had a configuration, the new configuration was rolled back: the main
  and the route configuration, every certificate and every runtime file hold again what they held before, files that
  the failed attempt had added are gone and files it had removed are back. This is so whichever step failed, whatever
  else failed on the way, for paths that do not overlap and file names that are written back unchanged, and when
  OpenResty leaves its configuration alone while it tests and loads it.
\<close>

theorem rollback_restores:
  assumes "Apply env m mainConfig routeConfig supportFiles (c, d) = ((ApplyWarning, msg), c', d')"
    and "layout_ok m" "disk_ok d" "certs_tidy m d" "executor_keeps env m"
    and "data_at d (locate (m_MainConfigPath m)) \<noteq> None"
    and "managed_at m l"
  shows "data_at d' l = data_at d l"
proof -
  obtain saved d1 e c1 d2 c2 where b: "backup (ne_os env) m d = (Inr saved, d1)"
    and r: "rollbackAfterFailedApply env m saved e (c1, d2) = ((ApplyWarning, msg), c2, d')"
    using apply_warning[OF assms(1)] by blast
  have "files_kept m d saved" using backup_Inr[OF b assms(3)] assms(2) by (auto simp: layout_ok_def IsAbs_iff)
  moreover from this have "bs_Main saved \<noteq> None" using assms(6) by (simp add: files_kept_def)
  from rollback_warning[OF r this assms(5)] obtain d3 where "restore (ne_os env) m saved d2 = (Inr (), d3)"
    "\<forall>l. config_at m l \<longrightarrow> data_at d' l = data_at d3 l" by blast
  ultimately show ?thesis using restore_kept[OF _ _ assms(2,4,7)] managed_config[OF assms(7)] by simp
qed


section \<open>What a successful Apply installs\<close>

definition legacy_pow :: "Manager \<Rightarrow> location set" where
  "legacy_pow m = {locate (m_LuaDir m) @ [''pow_config.json''], locate (m_CertDir m) @ [''pow_config.json'']}"

lemma legacy_pow_at:
  assumes "layout_ok m"
  shows "locate (filepath_Join [m_LuaDir m, ''pow_config.json'']) \<in> legacy_pow m" "locate (filepath_Join [m_CertDir m, ''pow_config.json'']) \<in> legacy_pow m"
  using assms locate_below[of "m_LuaDir m" "[''pow_config.json'']"] locate_below[of "m_CertDir m" "[''pow_config.json'']"]
  by (auto simp: legacy_pow_def layout_ok_def plain_elem_def)

lemma removeLegacy_Inr:
  assumes "removeLegacyPowConfig os p d = (Inr (), d')" "l \<noteq> locate p"
  shows "data_at d' l = data_at d l"
proof (cases "TrimSpace p = []")
  case True
  then show ?thesis using assms(1) by (simp add: removeLegacyPowConfig_def return_def)
next
  case False
  then have "look d' = (look d)(locate p := None)" using assms(1) remove_if_present_Inr by (simp add: removeLegacyPowConfig_def texted_Inr)
  then show ?thesis using assms(2) by (simp add: data_at_def)
qed

lemma writeRuntime_one:
  assumes "writeRuntimeConfigFile os m fs spec d = (Inr (), d')" "layout_ok m" "l \<notin> legacy_pow m"
  shows "data_at d' l = (if l = runtime_at m spec then holds fs spec else data_at d l)"
proof (cases "find (\<lambda>f. sf_Path f = spec) fs")
  case (Some f)
  then have "WriteFileAtomicIfChanged os (filepath_Join [m_RuntimeConfigDir m, spec]) (sf_Content f) 420 d = (Inr (), d')"
    using assms(1) by (simp add: writeRuntimeConfigFile_def texted_Inr)
  from WriteFile_ok[OF this] show ?thesis using Some by (auto simp: data_at_def runtime_at_def holds_def)
next
  case None
  then obtain d1 where one: "remove_if_present os (filepath_Join [m_RuntimeConfigDir m, spec]) d = (Inr (), d1)"
    and rest: "(if spec = ''pow_config.json'' then
        andThen (removeLegacyPowConfig os (filepath_Join [m_LuaDir m, spec])) (\<lambda>_. removeLegacyPowConfig os (filepath_Join [m_CertDir m, spec]))
      else return ()) d1 = (Inr (), d')"
    using assms(1) by (auto simp: writeRuntimeConfigFile_def andThen_Inr texted_Inr)
  have "data_at d' l = data_at d1 l"
  proof (cases "spec = ''pow_config.json''")
    case True
    then obtain d2 where "removeLegacyPowConfig os (filepath_Join [m_LuaDir m, spec]) d1 = (Inr (), d2)"
      "removeLegacyPowConfig os (filepath_Join [m_CertDir m, spec]) d2 = (Inr (), d')" using rest by (auto simp: andThen_Inr)
    moreover have "l \<noteq> locate (filepath_Join [m_LuaDir m, spec])" "l \<noteq> locate (filepath_Join [m_CertDir m, spec])"
      using legacy_pow_at[OF assms(2)] assms(3) True by auto
    ultimately show ?thesis using removeLegacy_Inr by metis
  qed (use rest in \<open>simp add: return_def\<close>)
  moreover have "data_at d1 l = (if l = runtime_at m spec then None else data_at d l)"
    using remove_if_present_Inr[OF one] by (simp add: data_at_def runtime_at_def)
  ultimately show ?thesis using None by (simp add: holds_def)
qed

lemma writeRuntime_loop:
  assumes "for_each (writeRuntimeConfigFile os m fs) specs d = (Inr (), d')" "layout_ok m" "l \<notin> legacy_pow m"
    "set specs \<subseteq> set runtimeConfigSpecs"
  shows "data_at d' l = (if l \<in> runtime_at m ` set specs then holds fs (last l) else data_at d l)"
  using assms(1,4)
proof (induction specs arbitrary: d)
  case (Cons spec specs)
  obtain d1 where one: "writeRuntimeConfigFile os m fs spec d = (Inr (), d1)" and rest: "for_each (writeRuntimeConfigFile os m fs) specs d1 = (Inr (), d')"
    using Cons.prems(1) unfolding for_each_Cons_Inr by blast
  have ih: "data_at d' l = (if l \<in> runtime_at m ` set specs then holds fs (last l) else data_at d1 l)"
    by (rule Cons.IH[OF rest]) (use Cons.prems(2) in simp)
  have "last (runtime_at m spec) = spec" using runtime_at_eq[OF assms(2)] Cons.prems(2) by simp
  then show ?case using ih writeRuntime_one[OF one assms(2,3)] by auto
qed (simp add: return_def)

lemma mime_Inr:
  assumes "ensureMimeTypes env m d = (Inr (), d')" "l \<noteq> locate (filepath_Join [filepath_Dir (m_MainConfigPath m), ''mime.types''])"
  shows "data_at d' l = data_at d l"
proof (cases "m_MainConfigPath m = []")
  case True
  then show ?thesis using assms(1) by (simp add: ensureMimeTypes_def)
next
  case False
  let ?p = "filepath_Join [filepath_Dir (m_MainConfigPath m), ''mime.types'']"
  obtain r d1 where st: "StatFile (ne_os env) ?p d = (r, d1)" by fastforce
  have keep: "look d1 = look d" using reads_onlyD[OF reads_only_calls(3) st] .
  show ?thesis
  proof (cases r)
    case (Inr b)
    then show ?thesis using assms(1) st keep False by (simp add: ensureMimeTypes_def data_at_def)
  next
    case (Inl e)
    then obtain d2 where "MkdirAll (ne_os env) (filepath_Dir (m_MainConfigPath m)) d1 = (Inr (), d2)"
      and w: "WriteFileAtomicIfChanged (ne_os env) ?p (DefaultMimeTypes (ne_assets env)) 420 d2 = (Inr (), d')"
      using assms(1) st False by (cases e) (auto simp: ensureMimeTypes_def Let_def texted_Inr andThen_Inr)
    then have "look d2 = look d" using reads_onlyD[OF reads_only_calls(1)] keep by metis
    then show ?thesis using WriteFile_ok[OF w] assms(2) by (auto simp: data_at_def)
  qed
qed

lemma reads_only_for_each: "(\<And>x. reads_only (f x)) \<Longrightarrow> reads_only (for_each f xs)"
  by (induction xs) auto

lemma cache_dirs_read_only: "reads_only (ensureProxyCacheDirectories env s)"
  unfolding ensureProxyCacheDirectories_def
  by (rule reads_only_for_each) (auto simp: ensure_cache_dir_def split: sum.splits)

text \<open>What the support files ask for below the directory of certificates, read off the files given: the last one with the name of
  a path gives its content; the names of runtime files are not certificates; and there is the marker of a managed directory.\<close>

definition certs_given :: "SupportFile list \<Rightarrow> string list \<Rightarrow> string option" where
  "certs_given supportFiles es =
    (if es = [managedDirMarkerName] then Some marker_text
     else if Join es ''/'' \<in> set runtimeConfigSpecs then None
     else map_option sf_Content (find (\<lambda>f. sf_Path f = Join es ''/'') (rev supportFiles)))"

definition names_tidy :: "SupportFile list \<Rightarrow> bool" where
  "names_tidy fs \<longleftrightarrow> (\<forall>f \<in> set fs. sf_Path f \<notin> set runtimeConfigSpecs \<longrightarrow> (\<exists>es. tidy es \<and> sf_Path f = Join es ''/''))"

lemma find_snoc: "find P (xs @ [x]) = (case find P xs of None \<Rightarrow> if P x then Some x else None | Some y \<Rightarrow> Some y)"
  by (induction xs) auto

lemma desired_files_map:
  assumes "desired_files fs acc = Inr desired" "\<forall>f \<in> set fs. \<exists>es. tidy es \<and> mf_Path f = Join es ''/''"
  shows "map_of desired p = (case find (\<lambda>f. mf_Path f = p) (rev fs) of Some f \<Rightarrow> Some f | None \<Rightarrow> map_of acc p)"
  using assms
proof (induction fs arbitrary: acc)
  case (Cons f fs)
  then have "cleanManagedFilePath (mf_Path f) = Inr (mf_Path f)" using cleanManagedFilePath_tidy by fastforce
  then have "desired_files fs (AList.update (mf_Path f) f acc) = Inr desired" using Cons.prems(1) by (simp split: if_splits)
  from Cons.IH[OF this] Cons.prems(2) show ?case
    by (auto simp: update_conv' find_snoc split: option.splits)
qed simp

lemma find_cert_file: "map_option mf_Content (find (\<lambda>f. mf_Path f = p) (map cert_file fs)) = map_option sf_Content (find (\<lambda>f. sf_Path f = p) fs)"
  by (induction fs) (auto simp: cert_file_def)

lemma find_not_filtered: "p \<notin> S \<Longrightarrow> find (\<lambda>f. sf_Path f = p) (filter (\<lambda>f. sf_Path f \<notin> S) fs) = find (\<lambda>f. sf_Path f = p) fs"
  by (induction fs) auto

lemma find_filtered: "p \<in> S \<Longrightarrow> find (\<lambda>f. sf_Path f = p) (filter (\<lambda>f. sf_Path f \<notin> S) fs) = None"
  by (auto simp: find_None_iff)

lemma wanted_given:
  assumes "names_tidy fs" "IsAbs (m_CertDir m)" "collect (cert_managed m) (filter (\<lambda>f. sf_Path f \<notin> set runtimeConfigSpecs) fs) = Inr gs"
    and "syncManagedFiles os (m_CertDir m) gs d = (Inr (), d')"
  shows "wanted_at gs es = certs_given fs es"
proof -
  let ?fs = "filter (\<lambda>f. sf_Path f \<notin> set runtimeConfigSpecs) fs"
  have "collect (cert_managed m) ?fs = Inr (map cert_file ?fs)"
    by (rule collect_certs[OF _ assms(2)]) (use assms(1) in \<open>auto simp: names_tidy_def\<close>)
  then have gs: "gs = map cert_file ?fs" using assms(3) by simp
  obtain desired where d: "desired_files gs [] = Inr desired" using sync_steps[OF assms(4,2)] by metis
  have "\<forall>f \<in> set gs. \<exists>es. tidy es \<and> mf_Path f = Join es ''/''" using assms(1) by (auto simp: gs names_tidy_def cert_file_def)
  from desired_files_map[OF d this] have "map_option mf_Content (map_of desired p) = map_option sf_Content (find (\<lambda>f. sf_Path f = p) (rev ?fs))" for p
    using find_cert_file[of p "rev ?fs"] by (auto simp: gs rev_map split: option.splits)
  then show ?thesis using d
    by (simp add: wanted_at_def certs_given_def rev_filter find_filtered find_not_filtered)
qed

lemma writeTargetFiles_ok:
  assumes "writeTargetFiles env m mainConfig routeConfig fs d = (Inr (), d')" "layout_ok m" "names_tidy fs"
  shows "data_at d' (locate (m_MainConfigPath m)) = Some (renderMainConfig m mainConfig)
    \<and> data_at d' (locate (m_RouteConfigPath m)) = Some (renderRouteConfig m routeConfig)
    \<and> (\<forall>spec \<in> set runtimeConfigSpecs. data_at d' (runtime_at m spec) = holds fs spec)
    \<and> (\<forall>es. es \<noteq> [] \<longrightarrow> list_all plain_elem es \<longrightarrow> es \<noteq> [''pow_config.json''] \<longrightarrow> data_at d' (locate (m_CertDir m) @ es) = certs_given fs es)"
proof -
  let ?M = "locate (m_MainConfigPath m)" and ?R = "locate (m_RouteConfigPath m)" and ?C = "locate (m_CertDir m)"
  let ?mime = "locate (filepath_Join [filepath_Dir (m_MainConfigPath m), ''mime.types''])"
  have lay: "IsAbs (m_CertDir m)" "m_CertDir m \<noteq> []" "m_RuntimeConfigDir m \<noteq> []" using assms(2) by (auto simp: layout_ok_def IsAbs_iff)
  from assms(1) lay obtain d1 d2 d3 d4 d5 d6 gs where
    s2: "syncManagedFiles (ne_os env) (m_CertDir m) gs d1 = (Inr (), d2)"
    and gs: "collect (cert_managed m) (filter (\<lambda>f. sf_Path f \<notin> set runtimeConfigSpecs) fs) = Inr gs"
    and s3: "for_each (writeRuntimeConfigFile (ne_os env) m fs) runtimeConfigSpecs d2 = (Inr (), d3)"
    and s4: "ensureMimeTypes env m d3 = (Inr (), d4)"
    and s5: "ensureProxyCacheDirectories env (renderMainConfig m mainConfig) d4 = (Inr (), d5)"
    and s6: "WriteFileAtomicIfChanged (ne_os env) (m_MainConfigPath m) (renderMainConfig m mainConfig) 420 d5 = (Inr (), d6)"
    and s7: "WriteFileAtomicIfChanged (ne_os env) (m_RouteConfigPath m) (renderRouteConfig m routeConfig) 420 d6 = (Inr (), d')"
    by (auto simp: writeTargetFiles_def writeCertFiles_def writeManagedCertFiles_def writeRuntimeConfigFiles_def Let_def fail_def andThen_Inr texted_Inr
      split: sum.splits)
  obtain fM fR where w: "f_Data fM = renderMainConfig m mainConfig" "f_Data fR = renderRouteConfig m routeConfig"
    "look d' = (look d5)(?M \<mapsto> fM, ?R \<mapsto> fR)" using WriteFile_ok[OF s6] WriteFile_ok[OF s7] by auto
  have d5: "data_at d5 l = data_at d3 l" if "l \<noteq> ?mime" for l
    using mime_Inr[OF s4 that] reads_onlyD[OF cache_dirs_read_only s5] by (simp add: data_at_def)
  have d': "data_at d' l = data_at d3 l" if "l \<noteq> ?M" "l \<noteq> ?R" "l \<noteq> ?mime" for l
    using d5[OF that(3)] that w(3) by (simp add: data_at_def)
  have rt: "data_at d3 l = (if l \<in> runtime_at m ` set runtimeConfigSpecs then holds fs (last l) else data_at d2 l)" if "l \<notin> legacy_pow m" for l
    using writeRuntime_loop[OF s3 assms(2) that] by simp
  have own: "?M \<noteq> ?R" using configs_apart[OF assms(2)] by simp
  show ?thesis
  proof (intro conjI ballI allI impI)
    show "data_at d' ?M = Some (renderMainConfig m mainConfig)" "data_at d' ?R = Some (renderRouteConfig m routeConfig)"
      using w own by (simp_all add: data_at_def)
  next
    fix spec assume spec: "spec \<in> set runtimeConfigSpecs"
    have at: "runtime_at m spec = locate (m_RuntimeConfigDir m) @ [spec]" by (rule runtime_at_eq[OF assms(2) spec])
    then have p: "prefix (locate (m_RuntimeConfigDir m)) (runtime_at m spec)" by (rule prefixI)
    then have "runtime_at m spec \<notin> {?M, ?R, ?mime}" using assms(2) by (auto simp: layout_ok_def Let_def)
    moreover have "runtime_at m spec \<notin> legacy_pow m" using assms(2) at by (auto simp: legacy_pow_def layout_ok_def Let_def)
    moreover have "runtime_at m spec \<in> runtime_at m ` set runtimeConfigSpecs" using spec by simp
    moreover have "last (runtime_at m spec) = spec" using at by simp
    ultimately show "data_at d' (runtime_at m spec) = holds fs spec" using d' rt by simp
  next
    fix es :: "string list" assume es: "es \<noteq> []" "list_all plain_elem es" "es \<noteq> [''pow_config.json'']"
    have sp: "strict_prefix ?C (?C @ es)" using es(1) by (auto simp: strict_prefix_split)
    then have "?C @ es \<notin> {?M, ?R, ?mime}" using assms(2) by (auto simp: layout_ok_def Let_def)
    moreover have "?C @ es \<notin> runtime_at m ` set runtimeConfigSpecs" using runtime_apart(1)[OF assms(2)] sp by (metis imageE)
    moreover have "?C @ es \<notin> legacy_pow m"
    proof
      assume "?C @ es \<in> legacy_pow m"
      then have "?C @ es = locate (m_LuaDir m) @ [''pow_config.json'']" using es(3) by (auto simp: legacy_pow_def)
      moreover obtain es' x where "es = es' @ [x]" using es(1) by (cases es rule: rev_cases) auto
      ultimately have "prefix ?C (locate (m_LuaDir m))" by (auto intro: prefixI[OF sym])
      then show False using assms(2) by (simp add: layout_ok_def Let_def)
    qed
    ultimately have "data_at d' (?C @ es) = data_at d2 (?C @ es)" using d' rt by simp
    then show "data_at d' (?C @ es) = certs_given fs es" using sync_wanted[OF s2 lay(1) es(1,2)] wanted_given[OF assms(3) lay(1) gs s2] by simp
  qed
qed

text \<open>
  C8: When \<open>Apply\<close> reports success, the node holds what it was given: the main and the route configuration with their
  placeholders filled in; each runtime file with the content of the first support file of its name, or no such file when
  there is none; and below the directory of certificates, at every path other than that of the old \<open>pow_config.json\<close>, the content of the last
  support file with that name, the marker of a managed directory, or nothing: no certificate of an earlier configuration is left.
  This is for paths of the manager that are absolute and do not overlap, names of support files in normal form, and when OpenResty leaves its
  configuration alone while it tests and loads it.
\<close>

theorem apply_installs:
  assumes "Apply env m mainConfig routeConfig supportFiles (c, d) = ((ApplySuccess, msg), c', d')"
    and "layout_ok m" "names_tidy supportFiles" "executor_keeps env m"
  shows "data_at d' (locate (m_MainConfigPath m)) = Some (renderMainConfig m mainConfig)
    \<and> data_at d' (locate (m_RouteConfigPath m)) = Some (renderRouteConfig m routeConfig)
    \<and> (\<forall>spec \<in> set runtimeConfigSpecs. data_at d' (runtime_at m spec) = holds supportFiles spec)
    \<and> (\<forall>es. es \<noteq> [] \<longrightarrow> list_all plain_elem es \<longrightarrow> es \<noteq> [''pow_config.json''] \<longrightarrow>
        data_at d' (locate (m_CertDir m) @ es) = certs_given supportFiles es)"
proof -
  let ?c = "before_change c"
  obtain r d1 where b: "on_disk (backup (ne_os env) m) (?c, d) = (r, ?c, d1)"
    by (cases "backup (ne_os env) m d") (auto simp: on_disk_def)
  obtain r2 d2 where w: "on_disk (writeTargetFiles env m mainConfig routeConfig supportFiles) (?c, d1) = (r2, ?c, d2)"
    "writeTargetFiles env m mainConfig routeConfig supportFiles d1 = (r2, d2)"
    by (cases "writeTargetFiles env m mainConfig routeConfig supportFiles d1") (auto simp: on_disk_def)
  obtain r3 d3 where a: "on_disk (activateConfig env) (?c, d2) = (r3, ?c, d3)" "activateConfig env d2 = (r3, d3)"
    by (cases "activateConfig env d2") (auto simp: on_disk_def)
  have roll: "fst (fst (rollbackAfterFailedApply env m saved e s)) \<noteq> ApplySuccess" for saved e s
    by (auto simp: rollbackAfterFailedApply_def fatalApplyOutcome_def split: sum.splits prod.splits)
  have "r2 = Inr () \<and> d' = d3"
    using assms(1) b w(1) a(1) roll unfolding Apply_def invalidating_def apply_body_def
    by (auto simp: fatalApplyOutcome_def split: sum.splits prod.splits) (metis fst_conv)+
  then have ok: "writeTargetFiles env m mainConfig routeConfig supportFiles d1 = (Inr (), d2)" "\<And>l. config_at m l \<Longrightarrow> data_at d' l = data_at d2 l"
    using w(2) keeps_configD[OF activate_keeps[OF assms(4)] a(2)] by auto
  have at: "config_at m (locate (m_MainConfigPath m))" "config_at m (locate (m_RouteConfigPath m))"
    "spec \<in> set runtimeConfigSpecs \<Longrightarrow> config_at m (runtime_at m spec)" "es \<noteq> [] \<Longrightarrow> config_at m (locate (m_CertDir m) @ es)" for spec es
    by (auto simp: config_at_def strict_prefix_split)
  show ?thesis using writeTargetFiles_ok[OF ok(1) assms(2,3)] ok(2)[OF at(1)] ok(2)[OF at(2)] ok(2)[OF at(3)] ok(2)[OF at(4)] by simp
qed


section \<open>Example\<close>

definition example_manager :: Manager where
  "example_manager = \<lparr>m_MainConfigPath = ''/n'', m_RouteConfigPath = ''/r'', m_AccessLogPath = [], m_CertDir = ''/c'',
    m_NginxCertDir = ''/c'', m_LuaDir = ''/l'', m_NginxLuaDir = ''/l'', m_RuntimeConfigDir = ''/t'', m_GeoIPDatabasePath = [],
    m_NginxGeoIPDatabasePath = [], m_GeoIPLookupAPIURL = [], m_GeoIPLookupAPIToken = [], m_GeoIPLookupAPITimeout = 0,
    m_OpenrestyObservabilityListen = [], m_OpenrestyObservabilityPort = 0, m_OpenrestyResolverDirective = []\<rparr>"

definition example_assets :: lua_assets where
  "example_assets = \<lparr>ManagedObservabilityLuaFiles = [], ManagedSharedLuaFiles = [], ManagedPowLuaFiles = [], ManagedGeoIPLuaFiles = [],
    ManagedWAFLuaFiles = [], ManagedCCLuaFiles = [], ManagedPowStaticFiles = Inr [], DefaultMimeTypes = ''m''\<rparr>"

definition node_env :: nginx_env where
  "node_env = \<lparr>ne_os = quiet_os, ne_links = Inr, ne_assets = example_assets, ne_sha256 = id,
    ne_executor = Some \<lparr>ex_Test = return (), ex_Reload = return (), ex_EnsureRuntime = (\<lambda>_. return ()), ex_CheckHealth = return (), ex_Restart = return ()\<rparr>\<rparr>"

definition text_file :: "string \<Rightarrow> disk_file" where
  "text_file s = \<lparr>f_Data = s, f_Mode = 420\<rparr>"

definition example_node :: disk where
  "example_node = \<lparr>d_files = [([''n''], text_file ''o''), ([''r''], text_file ''r''), ([''c'', ''u''], text_file ''U'')], d_calls = 0\<rparr>"

definition no_checksum :: checksum_cache where
  "no_checksum = \<lparr>cc_Value = None, cc_Generation = 0\<rparr>"

abbreviation example_apply :: "checksum_cache \<times> disk \<Rightarrow> ApplyOutcome \<times> checksum_cache \<times> disk" where
  "example_apply \<equiv> Apply node_env example_manager ''x'' [] []"

text \<open>
  A directory without the marker that holds files of others is not touched by \<open>Apply\<close>, which fails. But the rollback
  after this failure writes the files it found back, and with them the marker: the next \<open>Apply\<close> takes the directory
  for its own and deletes them.
\<close>

lemma shared_directory_taken_over:
  "(let (outcome1, c1, d1) = example_apply (no_checksum, example_node); (outcome2, c2, d2) = example_apply (c1, d1)
    in fst outcome1 = ApplyWarning \<and> data_at d1 [''c'', ''u''] = Some ''U'' \<and> fst outcome2 = ApplySuccess \<and> data_at d2 [''c'', ''u''] = None)"
  by code_simp

lemma example_layout: "layout_ok example_manager"
  by code_simp

lemma example_node_ok: "disk_ok example_node"
  by code_simp

lemma example_tidy: "certs_tidy example_manager example_node"
proof -
  have "es = [''u'']" if "look example_node (locate ''/c'' @ es) \<noteq> None" for es
  proof -
    have "locate ''/c'' = [''c'']" by code_simp
    then show ?thesis using that by (auto simp: look_def example_node_def split: if_splits)
  qed
  moreover have "tidy [''u'']" by code_simp
  ultimately show ?thesis unfolding certs_tidy_def example_manager_def by auto
qed

lemma example_executor: "executor_keeps node_env example_manager"
  by (auto simp: executor_keeps_def node_env_def)

theorem rollback_restores_witness:
  "data_at (snd (snd (example_apply (no_checksum, example_node)))) [''n''] = Some ''o''"
proof -
  obtain msg c' d' where run: "example_apply (no_checksum, example_node) = ((ApplyWarning, msg), c', d')"
    using shared_directory_taken_over by (cases "example_apply (no_checksum, example_node)") (auto simp: Let_def split: prod.splits)
  have at: "locate (m_MainConfigPath example_manager) = [''n'']" by code_simp
  have "data_at d' [''n''] = data_at example_node [''n'']"
    by (rule rollback_restores[OF run example_layout example_node_ok example_tidy example_executor])
      (auto simp: at managed_at_def data_at_def look_def example_node_def)
  then show ?thesis using run by (simp add: data_at_def look_def example_node_def text_file_def)
qed

definition example_cert :: SupportFile where
  "example_cert = \<lparr>sf_Path = ''k'', sf_Content = ''K''\<rparr>"

lemma example_install: "fst (fst (Apply node_env example_manager ''x'' [] [example_cert] (no_checksum, empty_disk))) = ApplySuccess"
  by code_simp

theorem apply_installs_witness:
  "data_at (snd (snd (Apply node_env example_manager ''x'' [] [example_cert] (no_checksum, empty_disk)))) [''n''] = Some ''x''
    \<and> data_at (snd (snd (Apply node_env example_manager ''x'' [] [example_cert] (no_checksum, empty_disk)))) [''c'', ''k''] = Some ''K''"
proof -
  obtain msg c' d' where run: "Apply node_env example_manager ''x'' [] [example_cert] (no_checksum, empty_disk) = ((ApplySuccess, msg), c', d')"
    using example_install by (metis prod.collapse)
  have "tidy [''k'']" by code_simp
  then have tidied: "names_tidy [example_cert]" unfolding names_tidy_def by (auto simp: example_cert_def Join_Cons intro!: exI[of _ "[''k'']"])
  have "locate (m_MainConfigPath example_manager) = [''n'']" "renderMainConfig example_manager ''x'' = ''x''"
    "locate (m_CertDir example_manager) = [''c'']" "certs_given [example_cert] [''k''] = Some ''K''" by code_simp+
  then show ?thesis using apply_installs[OF run example_layout tidied example_executor] run by (auto simp: plain_elem_def)
qed


section \<open>The cached checksum under concurrency\<close>

text \<open>
  \<open>CurrentChecksum\<close> is called while an \<open>Apply\<close> may be running. Its steps, and those of \<open>Apply\<close>, are taken apart at the places where the
  lock of the cache is taken: a reader finds no cached value, later notes the generation, then reads files over a while
  in which they may change, then stores what it computed. A writer invalidates the cache, changes files, and invalidates it
  again. \<open>cw_Files\<close> is the content of the disk, \<open>cw_Applying\<close> the number of running calls that may change it,
  \<open>cw_Missed\<close> the number of readers between the first two steps, and a later reader carries the generation and the contents it may have
  seen. The generation, a \<open>uint64\<close>, is taken not to wrap around.
\<close>

record checksum_world =
  cw_Cache :: checksum_cache
  cw_Files :: "location \<Rightarrow> disk_file option"
  cw_Applying :: nat
  cw_Missed :: nat
  cw_Readers :: "(nat \<times> (location \<Rightarrow> disk_file option) list) list"

definition checksum_of :: "nginx_env \<Rightarrow> Manager \<Rightarrow> (location \<Rightarrow> disk_file option) \<Rightarrow> string \<Rightarrow> bool" where
  "checksum_of env m fs v \<longleftrightarrow> (\<exists>d d'. look d = fs \<and> calculateCurrentChecksum env m d = (Inr v, d'))"

inductive checksum_step :: "nginx_env \<Rightarrow> Manager \<Rightarrow> checksum_world \<Rightarrow> checksum_world \<Rightarrow> bool" for env m where
  begin_change: "checksum_step env m w (w\<lparr>cw_Cache := before_change (cw_Cache w), cw_Applying := Suc (cw_Applying w)\<rparr>)"
| file_change: "0 < cw_Applying w \<Longrightarrow>
    checksum_step env m w (w\<lparr>cw_Files := fs, cw_Readers := map (\<lambda>(g, seen). (g, fs # seen)) (cw_Readers w)\<rparr>)"
| end_change: "0 < cw_Applying w \<Longrightarrow>
    checksum_step env m w (w\<lparr>cw_Cache := after_change (cw_Cache w), cw_Applying := cw_Applying w - 1\<rparr>)"
| read_miss: "cc_Value (cw_Cache w) = None \<Longrightarrow> checksum_step env m w (w\<lparr>cw_Missed := Suc (cw_Missed w)\<rparr>)"
| read_begin: "0 < cw_Missed w \<Longrightarrow>
    checksum_step env m w (w\<lparr>cw_Missed := cw_Missed w - 1, cw_Readers := (cc_Generation (cw_Cache w), [cw_Files w]) # cw_Readers w\<rparr>)"
| read_fails: "checksum_step env m w (w\<lparr>cw_Readers := remove1 r (cw_Readers w)\<rparr>)"
| read_end: "(g, seen) \<in> set (cw_Readers w) \<Longrightarrow> (\<And>fs. set seen = {fs} \<Longrightarrow> checksum_of env m fs v) \<Longrightarrow>
    checksum_step env m w
      (w\<lparr>cw_Cache := storeCurrentChecksum g v (cw_Cache w), cw_Readers := remove1 (g, seen) (cw_Readers w)\<rparr>)"

inductive checksum_reachable :: "nginx_env \<Rightarrow> Manager \<Rightarrow> checksum_world \<Rightarrow> bool" for env m where
  start: "cc_Value (cw_Cache w) = None \<Longrightarrow> cw_Readers w = [] \<Longrightarrow> cw_Missed w = 0 \<Longrightarrow> checksum_reachable env m w"
| step: "checksum_reachable env m w \<Longrightarrow> checksum_step env m w w' \<Longrightarrow> checksum_reachable env m w'"

definition checksum_inv :: "nginx_env \<Rightarrow> Manager \<Rightarrow> checksum_world \<Rightarrow> bool" where
  "checksum_inv env m w \<longleftrightarrow>
    (cw_Applying w = 0 \<longrightarrow> (\<forall>v. cc_Value (cw_Cache w) = Some v \<longrightarrow> checksum_of env m (cw_Files w) v))
    \<and> (\<forall>(g, seen) \<in> set (cw_Readers w). g \<le> cc_Generation (cw_Cache w)
        \<and> (cw_Applying w = 0 \<longrightarrow> g = cc_Generation (cw_Cache w) \<longrightarrow> set seen = {cw_Files w}))"

lemma checksum_step_inv: "checksum_step env m w w' \<Longrightarrow> checksum_inv env m w \<Longrightarrow> checksum_inv env m w'"
proof (induction rule: checksum_step.induct)
  case (read_end g seen w v)
  then have g: "g \<le> cc_Generation (cw_Cache w)" "cw_Applying w = 0 \<longrightarrow> g = cc_Generation (cw_Cache w) \<longrightarrow> set seen = {cw_Files w}"
    by (auto simp: checksum_inv_def)
  have sub: "set (remove1 (g, seen) (cw_Readers w)) \<subseteq> set (cw_Readers w)" by (rule set_remove1_subset)
  show ?case
  proof (cases "g = cc_Generation (cw_Cache w)")
    case True
    then show ?thesis using read_end.prems read_end.hyps(2) g sub by (fastforce simp: checksum_inv_def storeCurrentChecksum_def)
  next
    case False
    then show ?thesis using read_end.prems sub by (fastforce simp: checksum_inv_def storeCurrentChecksum_def)
  qed
next
  case (read_fails w r)
  then show ?case using set_remove1_subset[of r "cw_Readers w"] by (fastforce simp: checksum_inv_def)
qed (fastforce simp: checksum_inv_def before_change_def after_change_def invalidateCurrentChecksum_def)+

text \<open>A call that changes files, taken as a whole, is a sequence of the steps of a writer. While a writer is running, a body goes
  from one content of the cache and the disk to another by such steps.\<close>

definition writer_steps :: "nginx_env \<Rightarrow> Manager \<Rightarrow> checksum_world \<Rightarrow> checksum_cache \<times> disk \<Rightarrow> bool" where
  "writer_steps env m w s \<longleftrightarrow> (\<exists>rs. (checksum_step env m)\<^sup>*\<^sup>* w (w\<lparr>cw_Cache := fst s, cw_Files := look (snd s), cw_Readers := rs\<rparr>))"

definition writes :: "nginx_env \<Rightarrow> Manager \<Rightarrow> (checksum_cache \<times> disk \<Rightarrow> 'r \<times> checksum_cache \<times> disk) \<Rightarrow> bool" where
  "writes env m f \<longleftrightarrow> (\<forall>w d. 0 < cw_Applying w \<longrightarrow> cw_Files w = look d \<longrightarrow> writer_steps env m w (snd (f (cw_Cache w, d))))"

lemma writes_on_disk: "writes env m (on_disk f)"
proof -
  have "writer_steps env m w (snd (on_disk f (cw_Cache w, d)))" if "0 < cw_Applying w" for w d
    using checksum_step.file_change[OF that, of env m "look (snd (f d))"]
    by (auto simp: writer_steps_def on_disk_def split: prod.splits intro!: exI r_into_rtranclp)
  then show ?thesis by (simp add: writes_def)
qed

lemma writer_steps_trans:
  assumes "writer_steps env m w (c, d)" "\<And>rs. writer_steps env m (w\<lparr>cw_Cache := c, cw_Files := look d, cw_Readers := rs\<rparr>) s"
  shows "writer_steps env m w s"
proof -
  obtain rs where "(checksum_step env m)\<^sup>*\<^sup>* w (w\<lparr>cw_Cache := c, cw_Files := look d, cw_Readers := rs\<rparr>)" using assms(1) by (auto simp: writer_steps_def)
  moreover obtain rs' where "(checksum_step env m)\<^sup>*\<^sup>* (w\<lparr>cw_Cache := c, cw_Files := look d, cw_Readers := rs\<rparr>)
      (w\<lparr>cw_Cache := fst s, cw_Files := look (snd s), cw_Readers := rs'\<rparr>)"
    using assms(2)[of rs] by (auto simp: writer_steps_def)
  ultimately show ?thesis unfolding writer_steps_def by (meson rtranclp_trans)
qed

lemma writes_return: "writes env m (\<lambda>s. (r, s))"
proof -
  have "w\<lparr>cw_Cache := cw_Cache w, cw_Files := cw_Files w, cw_Readers := cw_Readers w\<rparr> = w" for w :: checksum_world by (cases w) simp
  then show ?thesis unfolding writes_def writer_steps_def by (metis fst_conv snd_conv rtranclp.rtrancl_refl)
qed

lemma writes_case:
  assumes "writes env m f" "\<And>r. writes env m (g r)"
  shows "writes env m (\<lambda>s. case f s of (r, s) \<Rightarrow> g r s)"
  unfolding writes_def
proof (intro allI impI)
  fix w :: checksum_world and d assume w: "0 < cw_Applying w" "cw_Files w = look d"
  obtain r c d1 where f: "f (cw_Cache w, d) = (r, c, d1)" by (metis prod.collapse)
  have "writer_steps env m w (c, d1)" using assms(1) w f unfolding writes_def by (metis snd_conv)
  then show "writer_steps env m w (snd (case f (cw_Cache w, d) of (r, s) \<Rightarrow> g r s))"
  proof (rule writer_steps_trans)
    fix rs
    show "writer_steps env m (w\<lparr>cw_Cache := c, cw_Files := look d1, cw_Readers := rs\<rparr>) (snd (case f (cw_Cache w, d) of (r, s) \<Rightarrow> g r s))"
      using assms(2)[of r, unfolded writes_def, rule_format, of "w\<lparr>cw_Cache := c, cw_Files := look d1, cw_Readers := rs\<rparr>" d1] w(1) f by simp
  qed
qed

text \<open>A call of \<open>Apply\<close> or of the fallback is such a sequence from any state, whether or not others are running.\<close>

lemma invalidating_steps:
  assumes "writes env m f" "cw_Files w = look d"
  shows "writer_steps env m w (snd (invalidating f (cw_Cache w, d)))"
proof -
  obtain r c d1 where f: "f (before_change (cw_Cache w), d) = (r, c, d1)" by (metis prod.collapse)
  let ?w1 = "w\<lparr>cw_Cache := before_change (cw_Cache w), cw_Applying := Suc (cw_Applying w)\<rparr>"
  obtain rs where body: "(checksum_step env m)\<^sup>*\<^sup>* ?w1 (?w1\<lparr>cw_Cache := c, cw_Files := look d1, cw_Readers := rs\<rparr>)"
    using assms(1)[unfolded writes_def, rule_format, of ?w1 d] assms(2) f by (auto simp: writer_steps_def)
  have "checksum_step env m (?w1\<lparr>cw_Cache := c, cw_Files := look d1, cw_Readers := rs\<rparr>)
      (w\<lparr>cw_Cache := after_change c, cw_Files := look d1, cw_Readers := rs\<rparr>)"
    using checksum_step.end_change[of "?w1\<lparr>cw_Cache := c, cw_Files := look d1, cw_Readers := rs\<rparr>" env m] by (cases w) simp
  with body checksum_step.begin_change[of env m w]
  have "(checksum_step env m)\<^sup>*\<^sup>* w (w\<lparr>cw_Cache := after_change c, cw_Files := look d1, cw_Readers := rs\<rparr>)"
    by (meson converse_rtranclp_into_rtranclp rtranclp.rtrancl_into_rtrancl)
  then show ?thesis using f by (auto simp: writer_steps_def invalidating_def)
qed

lemma writes_invalidating: "writes env m f \<Longrightarrow> writes env m (invalidating f)"
  by (simp add: writes_def[of env m "invalidating f"] invalidating_steps)

lemma writes_fallback: "writes env' m' (EnsureSafeFallbackRuntime env m)"
  unfolding EnsureSafeFallbackRuntime_def
  by (auto intro!: writes_invalidating writes_on_disk writes_return simp: fail_def[abs_def])

lemma writes_sum: "(\<And>e. writes env m (a e)) \<Longrightarrow> (\<And>x. writes env m (b x)) \<Longrightarrow> writes env m (\<lambda>s. case r of Inl e \<Rightarrow> a e s | Inr x \<Rightarrow> b x s)"
  by (cases r) auto

lemma writes_if: "writes env m a \<Longrightarrow> writes env m b \<Longrightarrow> writes env m (\<lambda>s. if p then a s else b s)"
  by (cases p) auto

lemmas writes_rules = writes_case writes_sum writes_if writes_on_disk writes_return writes_fallback

lemma writes_rollback: "writes env' m' (rollbackAfterFailedApply env m saved e)"
  unfolding rollbackAfterFailedApply_def[abs_def] by (intro writes_rules)

lemma writes_body: "writes env' m' (apply_body env m mainConfig routeConfig supportFiles)"
  unfolding apply_body_def[abs_def] by (intro writes_rules writes_rollback)

text \<open>
  C22: Whatever the interleaving of calls of \<open>CurrentChecksum\<close> with calls that change the installed files, step by step where they take
  the lock of the cache, once no such call is running a cached checksum is one that is computed from the files as they are: a
  value computed from older or half-written files is dropped by the comparison of generations, or by the second
  invalidation. And \<open>Apply\<close> and the fallback are such calls: from any state, each goes to its end by these steps.
\<close>

theorem checksum_never_stale:
  "(checksum_reachable env m w \<and> cw_Applying w = 0 \<and> cc_Value (cw_Cache w) = Some v \<longrightarrow> checksum_of env m (cw_Files w) v)
    \<and> (cw_Files w = look d \<and> Apply env m mainConfig routeConfig supportFiles (cw_Cache w, d) = (outcome, c', d') \<longrightarrow>
        (\<exists>rs. (checksum_step env m)\<^sup>*\<^sup>* w (w\<lparr>cw_Cache := c', cw_Files := look d', cw_Readers := rs\<rparr>)))
    \<and> (cw_Files w = look d \<and> ne_executor env \<noteq> None \<and> EnsureSafeFallbackRuntime env m (cw_Cache w, d) = (result, c', d') \<longrightarrow>
        (\<exists>rs. (checksum_step env m)\<^sup>*\<^sup>* w (w\<lparr>cw_Cache := c', cw_Files := look d', cw_Readers := rs\<rparr>)))"
proof (intro conjI impI; elim conjE)
  assume w: "checksum_reachable env m w" "cw_Applying w = 0" "cc_Value (cw_Cache w) = Some v"
  have "checksum_inv env m w" using w(1)
  proof (induction rule: checksum_reachable.induct)
    case (start w)
    then show ?case by (simp add: checksum_inv_def)
  next
    case (step w w')
    then show ?case using checksum_step_inv by blast
  qed
  then show "checksum_of env m (cw_Files w) v" using w(2,3) by (simp add: checksum_inv_def)
next
  assume f: "cw_Files w = look d"
  { assume "Apply env m mainConfig routeConfig supportFiles (cw_Cache w, d) = (outcome, c', d')"
    moreover have "writer_steps env m w (snd (Apply env m mainConfig routeConfig supportFiles (cw_Cache w, d)))"
      unfolding Apply_def by (rule invalidating_steps[OF writes_body f])
    ultimately show "\<exists>rs. (checksum_step env m)\<^sup>*\<^sup>* w (w\<lparr>cw_Cache := c', cw_Files := look d', cw_Readers := rs\<rparr>)" by (simp add: writer_steps_def) }
  { assume "ne_executor env \<noteq> None" "EnsureSafeFallbackRuntime env m (cw_Cache w, d) = (result, c', d')"
    moreover from this(1) have "writer_steps env m w (snd (EnsureSafeFallbackRuntime env m (cw_Cache w, d)))"
      by (auto simp: EnsureSafeFallbackRuntime_def invalidating_steps[OF writes_on_disk f])
    ultimately show "\<exists>rs. (checksum_step env m)\<^sup>*\<^sup>* w (w\<lparr>cw_Cache := c', cw_Files := look d', cw_Readers := rs\<rparr>)" by (simp add: writer_steps_def) }
qed

definition example_world :: checksum_world where
  "example_world = \<lparr>cw_Cache = no_checksum, cw_Files = look example_node, cw_Applying = 0, cw_Missed = 0, cw_Readers = []\<rparr>"

definition example_value :: string where
  "example_value = bundle_text ''o'' ''r'' [\<lparr>sf_Path = ''u'', sf_Content = ''U''\<rparr>]"

lemma example_checksum: "fst (calculateCurrentChecksum node_env example_manager example_node) = Inr example_value"
  by code_simp

theorem checksum_never_stale_witness:
  "checksum_of node_env example_manager (look example_node) example_value
    \<and> (\<exists>c' d' rs. (checksum_step node_env example_manager)\<^sup>*\<^sup>* example_world (example_world\<lparr>cw_Cache := c', cw_Files := look d', cw_Readers := rs\<rparr>)
        \<and> cc_Generation c' = 2)"
proof -
  let ?w1 = "example_world\<lparr>cw_Missed := 1\<rparr>"
  let ?w2 = "example_world\<lparr>cw_Readers := [(0, [look example_node])]\<rparr>"
  let ?w3 = "?w2\<lparr>cw_Cache := storeCurrentChecksum 0 example_value no_checksum, cw_Readers := []\<rparr>"
  have calc: "checksum_of node_env example_manager (look example_node) example_value"
    unfolding checksum_of_def using example_checksum by (metis prod.collapse)
  have "checksum_reachable node_env example_manager example_world" by (rule checksum_reachable.start) (simp_all add: example_world_def no_checksum_def)
  moreover have "checksum_step node_env example_manager example_world ?w1"
    using checksum_step.read_miss[of example_world] by (simp add: example_world_def no_checksum_def)
  moreover have "checksum_step node_env example_manager ?w1 ?w2"
    using checksum_step.read_begin[of ?w1] by (simp add: example_world_def no_checksum_def)
  moreover have "checksum_step node_env example_manager ?w2 ?w3"
    using checksum_step.read_end[of 0 "[look example_node]" ?w2 node_env example_manager example_value] calc by (simp add: example_world_def)
  ultimately have "checksum_reachable node_env example_manager ?w3" by (blast intro: checksum_reachable.step)
  then have one: "checksum_of node_env example_manager (look example_node) example_value"
    using conjunct1[OF checksum_never_stale[of node_env example_manager ?w3 example_value]]
    by (simp add: example_world_def storeCurrentChecksum_def no_checksum_def)
  obtain outcome c' d' where run: "example_apply (no_checksum, example_node) = (outcome, c', d')" by (metis prod.collapse)
  have "cc_Generation (fst (snd (example_apply (no_checksum, example_node)))) = 2" by code_simp
  then have "cc_Generation c' = 2" using run by simp
  moreover have "\<exists>rs. (checksum_step node_env example_manager)\<^sup>*\<^sup>* example_world (example_world\<lparr>cw_Cache := c', cw_Files := look d', cw_Readers := rs\<rparr>)"
    using checksum_never_stale[of node_env example_manager example_world _ example_node "''x''" "[]" "[]" outcome c' d'] run
    by (simp add: example_world_def)
  ultimately show ?thesis using one by blast
qed

end
