(* ===== verification/Agent_Sync.thy ===== *)
theory Agent_Sync
  imports Agent_Install
begin

text \<open>
  The synchronisation of an edge node with the control plane (\<open>sync/service.go\<close>): given the version and checksum of the
  active configuration from a heartbeat, the agent decides whether to fetch it, verifies what it fetched, applies it, blocks a
  configuration that failed, records the outcome and reports it.

  The service works on the state store of theory \<open>Agent_State\<close>, on an implementation of the interface \<open>NginxManager\<close> (a
  record of operations on a state of any type, whose instance is the manager of theory \<open>Agent_Apply\<close>) and on the client
  of the control plane, whose answers are parameters by the number of the request. The state file lies outside of the
  directories of OpenResty; the disk of the store is a disk of its own here. \<open>sy_Calls\<close> lists the calls of \<open>Apply\<close> and
  \<open>ReportApplyLog\<close>, the last one first. Logging is left out.
\<close>

section \<open>Data\<close>

record ActiveConfigMeta =
  am_Version :: string
  am_Checksum :: string

record ActiveConfigResponse =
  ac_Version :: string
  ac_Checksum :: string
  ac_MainConfig :: string
  ac_RouteConfig :: string
  ac_RenderedConfig :: string
  ac_SupportFiles :: "SupportFile list"

record ApplyLogPayload =
  al_NodeID :: string
  al_Version :: string
  al_Result :: string
  al_Message :: string
  al_Checksum :: string
  al_MainConfigChecksum :: string
  al_RouteConfigChecksum :: string
  al_SupportFileCount :: nat

definition ApplyResultSuccess :: string where "ApplyResultSuccess = ''success''"
definition ApplyResultWarning :: string where "ApplyResultWarning = ''warning''"
definition ApplyResultFailed :: string where "ApplyResultFailed = ''failed''"

definition OpenrestyStatusHealthy :: string where "OpenrestyStatusHealthy = ''healthy''"
definition OpenrestyStatusUnhealthy :: string where "OpenrestyStatusUnhealthy = ''unhealthy''"
definition OpenrestyStatusUnknown :: string where "OpenrestyStatusUnknown = ''unknown''"

text \<open>The status of an outcome is \<open>None\<close> where it is the empty text.\<close>

record 'w nginx_manager =
  ng_Apply :: "string \<Rightarrow> string \<Rightarrow> SupportFile list \<Rightarrow> 'w \<Rightarrow> (ApplyStatus option \<times> string) \<times> 'w"
  ng_EnsureRuntime :: "bool \<Rightarrow> ('w, string, unit) action"
  ng_EnsureSafeFallbackRuntime :: "string \<Rightarrow> ('w, string, unit) action"
  ng_CurrentChecksum :: "('w, string, string) action"

datatype sync_call = Applied string string "SupportFile list" | Reported ApplyLogPayload

record 'w sync_state =
  sy_Store :: StateStore
  sy_Disk :: disk
  sy_Nginx :: 'w
  sy_Requests :: nat
  sy_Calls :: "sync_call list"

record sync_env =
  se_os :: os
  se_json :: "StateSnapshot json"
  se_sha256 :: "string \<Rightarrow> string"
  se_GetActiveConfig :: "nat \<Rightarrow> string + ActiveConfigResponse option"
  se_ReportApplyLog :: "nat \<Rightarrow> string option"

text \<open>The manager of OpenResty as an instance of the interface.\<close>

definition manager_ops :: "nginx_env \<Rightarrow> Manager \<Rightarrow> (checksum_cache \<times> disk) nginx_manager" where
  "manager_ops env m =
    \<lparr>ng_Apply = (\<lambda>mainConfig routeConfig fs s. case Apply env m mainConfig routeConfig fs s of ((status, message), s) \<Rightarrow> ((Some status, message), s)),
     ng_EnsureRuntime = (\<lambda>recreate. on_disk (Manager_EnsureRuntime env recreate)),
     ng_EnsureSafeFallbackRuntime = (\<lambda>reason. EnsureSafeFallbackRuntime env m),
     ng_CurrentChecksum = CurrentChecksum env m\<rparr>"

section \<open>Calls\<close>

definition load_state :: "sync_env \<Rightarrow> ('w sync_state, string, StateSnapshot) action" where
  "load_state env s =
    (case State_Load (se_os env) (se_json env) (sy_Store s, sy_Disk s) of
       (r, st, d) \<Rightarrow> (case r of Inl e \<Rightarrow> Inl (os_text e) | Inr x \<Rightarrow> Inr x, s\<lparr>sy_Store := st, sy_Disk := d\<rparr>))"

definition save_state :: "sync_env \<Rightarrow> StateSnapshot \<Rightarrow> ('w sync_state, string, unit) action" where
  "save_state env snapshot s =
    (case State_Save (se_os env) (se_json env) (Some snapshot) (sy_Store s, sy_Disk s) of
       (r, st, d) \<Rightarrow> (case r of Inl e \<Rightarrow> Inl (os_text e) | Inr x \<Rightarrow> Inr x, s\<lparr>sy_Store := st, sy_Disk := d\<rparr>))"

text \<open>\<open>_ = s.stateStore.Save(snapshot)\<close> before an error is returned.\<close>

definition save_and_fail :: "sync_env \<Rightarrow> StateSnapshot \<Rightarrow> string \<Rightarrow> ('w sync_state, string, 'a) action" where
  "save_and_fail env snapshot err s = (Inl err, ignoring (save_state env snapshot) s)"

definition on_nginx :: "('w \<Rightarrow> 'r \<times> 'w) \<Rightarrow> 'w sync_state \<Rightarrow> 'r \<times> 'w sync_state" where
  "on_nginx f s = (case f (sy_Nginx s) of (r, w) \<Rightarrow> (r, s\<lparr>sy_Nginx := w\<rparr>))"

definition GetActiveConfig :: "sync_env \<Rightarrow> ('w sync_state, string, ActiveConfigResponse option) action" where
  "GetActiveConfig env s = (se_GetActiveConfig env (sy_Requests s), s\<lparr>sy_Requests := Suc (sy_Requests s)\<rparr>)"

definition ReportApplyLog :: "sync_env \<Rightarrow> ApplyLogPayload \<Rightarrow> ('w sync_state, string, unit) action" where
  "ReportApplyLog env payload s =
    (case se_ReportApplyLog env (sy_Requests s) of Some e \<Rightarrow> Inl e | None \<Rightarrow> Inr (),
     s\<lparr>sy_Requests := Suc (sy_Requests s), sy_Calls := Reported payload # sy_Calls s\<rparr>)"

definition call_apply ::
  "'w nginx_manager \<Rightarrow> string \<Rightarrow> string \<Rightarrow> SupportFile list \<Rightarrow> ('w sync_state, string, ApplyStatus option \<times> string) action" where
  "call_apply ops mainConfig routeConfig fs s =
    (case on_nginx (ng_Apply ops mainConfig routeConfig fs) s of
       (outcome, s) \<Rightarrow> (Inr outcome, s\<lparr>sy_Calls := Applied mainConfig routeConfig fs # sy_Calls s\<rparr>))"

section \<open>Blocked configurations\<close>

definition markBlockedTarget :: "string \<Rightarrow> string \<Rightarrow> string \<Rightarrow> StateSnapshot \<Rightarrow> StateSnapshot" where
  "markBlockedTarget version checksum reason snapshot =
    snapshot\<lparr>ss_BlockedVersion := TrimSpace version, ss_BlockedChecksum := TrimSpace checksum, ss_BlockedReason := TrimSpace reason\<rparr>"

definition clearBlockedTarget :: "StateSnapshot \<Rightarrow> StateSnapshot" where
  "clearBlockedTarget snapshot = snapshot\<lparr>ss_BlockedVersion := [], ss_BlockedChecksum := [], ss_BlockedReason := []\<rparr>"

definition hasBlockedTarget :: "StateSnapshot \<Rightarrow> bool" where
  "hasBlockedTarget snapshot \<longleftrightarrow> TrimSpace (ss_BlockedVersion snapshot) \<noteq> [] \<or> TrimSpace (ss_BlockedChecksum snapshot) \<noteq> []"

definition isBlockedTarget :: "StateSnapshot \<Rightarrow> string \<Rightarrow> string \<Rightarrow> bool" where
  "isBlockedTarget snapshot version checksum \<longleftrightarrow>
    TrimSpace (ss_BlockedVersion snapshot) = TrimSpace version \<and> TrimSpace (ss_BlockedChecksum snapshot) = TrimSpace checksum
    \<and> (TrimSpace version \<noteq> [] \<or> TrimSpace checksum \<noteq> [])"

definition clear_if_blocked :: "StateSnapshot \<Rightarrow> StateSnapshot" where
  "clear_if_blocked snapshot = (if hasBlockedTarget snapshot then clearBlockedTarget snapshot else snapshot)"

definition outcomeError :: "string \<Rightarrow> string \<Rightarrow> string" where
  "outcomeError version message =
    (let trimmed = TrimSpace message
     in ''apply version '' @ version @ '' failed: '' @ (if trimmed = [] then ''openresty apply failed'' else trimmed))"

section \<open>Runtime recovery\<close>

definition unhealthy :: "string \<Rightarrow> StateSnapshot \<Rightarrow> StateSnapshot" where
  "unhealthy message snapshot = snapshot\<lparr>ss_OpenrestyStatus := OpenrestyStatusUnhealthy, ss_OpenrestyMessage := message\<rparr>"

definition healthy :: "string \<Rightarrow> StateSnapshot \<Rightarrow> StateSnapshot" where
  "healthy message snapshot = snapshot\<lparr>ss_OpenrestyStatus := OpenrestyStatusHealthy, ss_OpenrestyMessage := message\<rparr>"

definition fallback_message :: string where
  "fallback_message = ''safe default fallback runtime started''"

definition ensureRuntimeForCurrentConfig ::
  "sync_env \<Rightarrow> 'w nginx_manager \<Rightarrow> StateSnapshot \<Rightarrow> string \<Rightarrow> ('w sync_state, string, StateSnapshot) action" where
  "ensureRuntimeForCurrentConfig env ops snapshot currentChecksum s =
    (let blocked = TrimSpace (ss_BlockedVersion snapshot)
     in if TrimSpace currentChecksum = [] then
          (case on_nginx (ng_EnsureSafeFallbackRuntime ops
              (''blocked config '' @ blocked @ '' has no valid local config available for runtime recovery'')) s of
             (Inl err, s) \<Rightarrow> save_and_fail env (unhealthy err snapshot) err s
           | (Inr _, s) \<Rightarrow> (Inr (healthy fallback_message snapshot), s))
        else
          (case on_nginx (ng_EnsureRuntime ops True) s of
             (Inr _, s) \<Rightarrow>
               (let snapshot = snapshot\<lparr>ss_OpenrestyStatus := OpenrestyStatusHealthy\<rparr>
                in (Inr (if TrimSpace (ss_OpenrestyMessage snapshot) = TrimSpace (ss_BlockedReason snapshot)
                         then snapshot\<lparr>ss_OpenrestyMessage := []\<rparr> else snapshot), s))
           | (Inl err, s) \<Rightarrow>
               if TrimSpace (ss_CurrentChecksum snapshot) = [] then
                 (case on_nginx (ng_EnsureSafeFallbackRuntime ops
                     (''blocked config '' @ blocked @ '' has no historical config and current local config cannot start: '' @ err)) s of
                    (Inr _, s) \<Rightarrow> (Inr (healthy fallback_message snapshot), s)
                  | (Inl fallbackErr, s) \<Rightarrow>
                      (let err = err @ ''; fallback recovery failed: '' @ fallbackErr in save_and_fail env (unhealthy err snapshot) err s))
               else save_and_fail env (unhealthy err snapshot) err s))"

section \<open>Applying\<close>

definition integrity_message :: string where
  "integrity_message = ''active config integrity check failed: declared checksum does not match fetched config bundle''"

text \<open>The installed configuration is the wanted one: at the start of the agent the runtime is ensured, then the state is saved.\<close>

definition up_to_date ::
  "sync_env \<Rightarrow> 'w nginx_manager \<Rightarrow> bool \<Rightarrow> StateSnapshot \<Rightarrow> string \<Rightarrow> string \<Rightarrow> ('w sync_state, string, unit) action" where
  "up_to_date env ops startup snapshot version checksum s =
    (case (if startup then on_nginx (ng_EnsureRuntime ops True) s else (Inr (), s)) of
       (Inl err, s) \<Rightarrow> save_and_fail env (unhealthy err snapshot) err s
     | (Inr _, s) \<Rightarrow>
         (let snapshot = (if startup then healthy [] snapshot else snapshot);
              snapshot = (clearBlockedTarget (snapshot\<lparr>ss_CurrentVersion := version, ss_CurrentChecksum := checksum\<rparr>))\<lparr>ss_LastError := []\<rparr>
          in save_state env snapshot s))"

text \<open>The configuration is blocked: at the start of the agent the runtime is kept up with what is installed.\<close>

definition skip_blocked ::
  "sync_env \<Rightarrow> 'w nginx_manager \<Rightarrow> bool \<Rightarrow> StateSnapshot \<Rightarrow> string \<Rightarrow> ('w sync_state, string, unit) action" where
  "skip_blocked env ops startup snapshot currentChecksum =
    (if startup then andThen (ensureRuntimeForCurrentConfig env ops snapshot currentChecksum) (save_state env) else return ())"

definition apply_result :: "ActiveConfigResponse \<Rightarrow> ApplyStatus option \<Rightarrow> string \<Rightarrow> StateSnapshot \<Rightarrow> string \<times> string \<times> StateSnapshot" where
  "apply_result config status message snapshot =
    (let message = (if status = None \<and> message = [] then ''openresty apply returned empty outcome'' else message)
     in if status = Some ApplySuccess then
          (ApplyResultSuccess, if message = [] then ''apply success'' else message,
           (healthy [] (clearBlockedTarget (snapshot\<lparr>ss_CurrentVersion := ac_Version config, ss_CurrentChecksum := ac_Checksum config\<rparr>)))\<lparr>ss_LastError := []\<rparr>)
        else if status = Some ApplyWarning then
          (let message = (if message = [] then ''apply rolled back to previous config'' else message)
           in (ApplyResultWarning, message,
               healthy message ((markBlockedTarget (ac_Version config) (ac_Checksum config) message snapshot)\<lparr>ss_LastError := message\<rparr>)))
        else
          (let message = (if message = [] then ''openresty apply failed'' else message)
           in (ApplyResultFailed, message,
               unhealthy message ((markBlockedTarget (ac_Version config) (ac_Checksum config) message snapshot)\<lparr>ss_LastError := message\<rparr>))))"

definition route_of :: "ActiveConfigResponse \<Rightarrow> string" where
  "route_of config = (if ac_RouteConfig config = [] then ac_RenderedConfig config else ac_RouteConfig config)"

definition log_payload :: "sync_env \<Rightarrow> StateSnapshot \<Rightarrow> ActiveConfigResponse \<Rightarrow> string \<Rightarrow> string \<Rightarrow> ApplyLogPayload" where
  "log_payload env snapshot config result message =
    \<lparr>al_NodeID = ss_NodeID snapshot, al_Version = ac_Version config, al_Result = result, al_Message = message, al_Checksum = ac_Checksum config,
     al_MainConfigChecksum = se_sha256 env (ac_MainConfig config), al_RouteConfigChecksum = se_sha256 env (route_of config),
     al_SupportFileCount = length (ac_SupportFiles config)\<rparr>"

definition integrity_failure :: "sync_env \<Rightarrow> StateSnapshot \<Rightarrow> ActiveConfigResponse \<Rightarrow> ('w sync_state, string, unit) action" where
  "integrity_failure env snapshot config =
    (let snapshot = (markBlockedTarget (ac_Version config) (ac_Checksum config) integrity_message snapshot)
           \<lparr>ss_LastError := integrity_message, ss_OpenrestyMessage := integrity_message\<rparr>;
         snapshot = (if ss_OpenrestyStatus snapshot = [] then snapshot\<lparr>ss_OpenrestyStatus := OpenrestyStatusUnknown\<rparr> else snapshot)
     in andThen (save_state env snapshot) (\<lambda>_.
        andThen (ReportApplyLog env (log_payload env snapshot config ApplyResultFailed integrity_message)) (\<lambda>_.
        fail (outcomeError (ac_Version config) integrity_message))))"

definition apply_and_report ::
  "sync_env \<Rightarrow> 'w nginx_manager \<Rightarrow> StateSnapshot \<Rightarrow> ActiveConfigResponse \<Rightarrow> ('w sync_state, string, unit) action" where
  "apply_and_report env ops snapshot config =
    andThen (call_apply ops (ac_MainConfig config) (route_of config) (ac_SupportFiles config)) (\<lambda>(status, message).
    case apply_result config status (RedactSensitiveText (TrimSpace message)) snapshot of
      (result, message, snapshot) \<Rightarrow>
        andThen (save_state env snapshot) (\<lambda>_.
        andThen (ReportApplyLog env (log_payload env snapshot config result message)) (\<lambda>_.
        if result = ApplyResultFailed then fail (outcomeError (ac_Version config) message) else return ())))"

definition bundle_verified :: "sync_env \<Rightarrow> ActiveConfigResponse \<Rightarrow> bool" where
  "bundle_verified env config \<longleftrightarrow> ac_Checksum config \<noteq> [] \<and>
    EqualFold (BundleChecksum (se_sha256 env) (ac_MainConfig config) (route_of config) (ac_SupportFiles config)) (ac_Checksum config)"

definition applyIfNeeded ::
  "sync_env \<Rightarrow> 'w nginx_manager \<Rightarrow> bool \<Rightarrow> StateSnapshot \<Rightarrow> string \<Rightarrow> ActiveConfigResponse option \<Rightarrow> ('w sync_state, string, unit) action" where
  "applyIfNeeded env ops startup snapshot currentChecksum response =
    (case response of
       None \<Rightarrow> fail ''active config response is empty''
     | Some config \<Rightarrow>
         (let config = config\<lparr>ac_Version := TrimSpace (ac_Version config), ac_Checksum := TrimSpace (ac_Checksum config)\<rparr>
          in if \<not> bundle_verified env config then integrity_failure env snapshot config
             else if currentChecksum = ac_Checksum config then up_to_date env ops startup snapshot (ac_Version config) (ac_Checksum config)
             else if isBlockedTarget snapshot (ac_Version config) (ac_Checksum config) then skip_blocked env ops startup snapshot currentChecksum
             else
               (let snapshot = clear_if_blocked snapshot
                in if ss_CurrentVersion snapshot = ac_Version config \<and> ss_CurrentChecksum snapshot = ac_Checksum config \<and> \<not> startup
                   then save_state env snapshot
                   else apply_and_report env ops snapshot config)))"

section \<open>Synchronising\<close>

definition sync_startup_fetch :: "sync_env \<Rightarrow> 'w nginx_manager \<Rightarrow> StateSnapshot \<Rightarrow> ('w sync_state, string, unit) action" where
  "sync_startup_fetch env ops snapshot =
    andThen (GetActiveConfig env) (\<lambda>response.
    if response = None then fail ''runtime error: invalid memory address or nil pointer dereference''
    else
      andThen (on_nginx (ng_CurrentChecksum ops)) (\<lambda>currentChecksum.
      applyIfNeeded env ops True snapshot currentChecksum response))"

definition sync_target ::
  "sync_env \<Rightarrow> 'w nginx_manager \<Rightarrow> bool \<Rightarrow> StateSnapshot \<Rightarrow> string \<Rightarrow> string \<Rightarrow> ('w sync_state, string, unit) action" where
  "sync_target env ops startup snapshot version checksum =
    (if \<not> startup \<and> isBlockedTarget snapshot version checksum then return ()
     else if \<not> startup \<and> ss_CurrentChecksum snapshot = checksum then
       save_state env ((clear_if_blocked snapshot)\<lparr>ss_CurrentVersion := version, ss_CurrentChecksum := checksum, ss_LastError := []\<rparr>)
     else
       andThen (on_nginx (ng_CurrentChecksum ops)) (\<lambda>currentChecksum.
       if currentChecksum = checksum then up_to_date env ops startup snapshot version checksum
       else if isBlockedTarget snapshot version checksum then skip_blocked env ops startup snapshot currentChecksum
       else
         (let snapshot = clear_if_blocked snapshot
          in if ss_CurrentVersion snapshot = version \<and> ss_CurrentChecksum snapshot = checksum \<and> \<not> startup then save_state env snapshot
             else
               andThen (GetActiveConfig env) (\<lambda>response.
               applyIfNeeded env ops startup snapshot currentChecksum response))))"

definition sync :: "sync_env \<Rightarrow> 'w nginx_manager \<Rightarrow> bool \<Rightarrow> ActiveConfigMeta option \<Rightarrow> ('w sync_state, string, unit) action" where
  "sync env ops startup target =
    andThen (load_state env) (\<lambda>snapshot.
    let version = (case target of None \<Rightarrow> [] | Some t \<Rightarrow> TrimSpace (am_Version t));
        checksum = (case target of None \<Rightarrow> [] | Some t \<Rightarrow> TrimSpace (am_Checksum t))
    in if version = [] \<or> checksum = [] then (if \<not> startup then return () else sync_startup_fetch env ops snapshot)
       else sync_target env ops startup snapshot version checksum)"

definition SyncOnce :: "sync_env \<Rightarrow> 'w nginx_manager \<Rightarrow> ActiveConfigMeta option \<Rightarrow> ('w sync_state, string, unit) action" where
  "SyncOnce env ops target = sync env ops False target"

definition SyncOnStartup :: "sync_env \<Rightarrow> 'w nginx_manager \<Rightarrow> ActiveConfigMeta option \<Rightarrow> ('w sync_state, string, unit) action" where
  "SyncOnStartup env ops target = sync env ops True target"

definition ForceSyncOnce :: "sync_env \<Rightarrow> 'w nginx_manager \<Rightarrow> ActiveConfigMeta option \<Rightarrow> ('w sync_state, string, unit) action" where
  "ForceSyncOnce env ops target =
    andThen (load_state env) (\<lambda>snapshot s.
    SyncOnce env ops target (if hasBlockedTarget snapshot then ignoring (save_state env (clearBlockedTarget snapshot)) s else s))"


section \<open>The calls of a run\<close>

text \<open>\<open>calls_ok P f\<close>: all calls that a run of \<open>f\<close> makes satisfy \<open>P\<close>.\<close>

definition calls_ok :: "(sync_call \<Rightarrow> bool) \<Rightarrow> ('w sync_state \<Rightarrow> 'r \<times> 'w sync_state) \<Rightarrow> bool" where
  "calls_ok P f \<longleftrightarrow> (\<forall>s r s'. f s = (r, s') \<longrightarrow> (\<exists>new. sy_Calls s' = new @ sy_Calls s \<and> list_all P new))"

lemma calls_okI: "(\<And>s r s'. f s = (r, s') \<Longrightarrow> sy_Calls s' = sy_Calls s) \<Longrightarrow> calls_ok P f"
  by (auto simp: calls_ok_def)

lemma calls_ok_mono: "calls_ok P f \<Longrightarrow> (\<And>x. P x \<Longrightarrow> Q x) \<Longrightarrow> calls_ok Q f"
  unfolding calls_ok_def list_all_iff by blast

lemma calls_ok_andThen [intro]:
  assumes "calls_ok P f" "\<And>x. calls_ok P (g x)"
  shows "calls_ok P (andThen f g)"
  unfolding calls_ok_def
proof (intro allI impI)
  fix s r s' assume run: "andThen f g s = (r, s')"
  obtain r1 s1 where f: "f s = (r1, s1)" by fastforce
  obtain new where new: "sy_Calls s1 = new @ sy_Calls s" "list_all P new" using assms(1) f unfolding calls_ok_def by blast
  show "\<exists>new. sy_Calls s' = new @ sy_Calls s \<and> list_all P new"
  proof (cases r1)
    case (Inl e)
    then show ?thesis using run f new by (auto simp: andThen_def)
  next
    case (Inr x)
    then have "g x s1 = (r, s')" using run f by (simp add: andThen_def)
    then obtain new2 where "sy_Calls s' = new2 @ sy_Calls s1" "list_all P new2" using assms(2) unfolding calls_ok_def by blast
    then show ?thesis using new by (intro exI[of _ "new2 @ new"]) simp
  qed
qed

lemma calls_ok_quiet [simp, intro]:
  "calls_ok P (return x)" "calls_ok P (fail e)" "calls_ok P (load_state env)" "calls_ok P (save_state env sn)"
  "calls_ok P (on_nginx f)" "calls_ok P (GetActiveConfig env)" "calls_ok P (save_and_fail env sn e)"
  by (auto intro!: calls_okI simp: return_def fail_def load_state_def save_state_def on_nginx_def GetActiveConfig_def save_and_fail_def ignoring_def
    split: prod.splits)

lemma calls_ok_report [intro]: "P (Reported p) \<Longrightarrow> calls_ok P (ReportApplyLog env p)"
  by (auto simp: calls_ok_def ReportApplyLog_def)

lemma calls_ok_apply [intro]: "P (Applied a b fs) \<Longrightarrow> calls_ok P (call_apply ops a b fs)"
  by (auto simp: calls_ok_def call_apply_def on_nginx_def split: prod.splits)

text \<open>Recovery of the runtime makes none of these calls and changes no stored state when it succeeds.\<close>

lemma recovery_calls: "ensureRuntimeForCurrentConfig env ops sn cur s = (r, s') \<Longrightarrow> sy_Calls s' = sy_Calls s"
  by (auto simp: ensureRuntimeForCurrentConfig_def on_nginx_def save_and_fail_def ignoring_def save_state_def Let_def
    split: prod.splits sum.splits if_splits)

lemma recovery_store:
  "ensureRuntimeForCurrentConfig env ops sn cur s = (Inr sn', s') \<Longrightarrow> sy_Store s' = sy_Store s \<and> sy_Disk s' = sy_Disk s"
  by (auto simp: ensureRuntimeForCurrentConfig_def on_nginx_def save_and_fail_def Let_def split: prod.splits sum.splits if_splits)

lemma up_to_date_calls: "up_to_date env ops startup sn v c s = (r, s') \<Longrightarrow> sy_Calls s' = sy_Calls s"
  by (auto simp: up_to_date_def on_nginx_def save_and_fail_def ignoring_def save_state_def Let_def split: prod.splits sum.splits if_splits)

lemma calls_ok_skip [simp, intro]:
  "calls_ok P (up_to_date env ops startup sn v c)" "calls_ok P (skip_blocked env ops startup sn cur)"
proof -
  show "calls_ok P (up_to_date env ops startup sn v c)" by (rule calls_okI) (rule up_to_date_calls)
  have "calls_ok P (ensureRuntimeForCurrentConfig env ops sn cur)" by (rule calls_okI) (rule recovery_calls)
  then show "calls_ok P (skip_blocked env ops startup sn cur)" unfolding skip_blocked_def by auto
qed

section \<open>Only verified bundles are applied\<close>

definition tidied :: "ActiveConfigResponse \<Rightarrow> ActiveConfigResponse" where
  "tidied config = config\<lparr>ac_Version := TrimSpace (ac_Version config), ac_Checksum := TrimSpace (ac_Checksum config)\<rparr>"

definition fetched_and_verified :: "sync_env \<Rightarrow> sync_call \<Rightarrow> bool" where
  "fetched_and_verified env x \<longleftrightarrow>
    (case x of
       Applied mainConfig routeConfig fs \<Rightarrow>
         (\<exists>n config. se_GetActiveConfig env n = Inr (Some config) \<and> mainConfig = ac_MainConfig config \<and> routeConfig = route_of config
           \<and> fs = ac_SupportFiles config \<and> TrimSpace (ac_Checksum config) \<noteq> []
           \<and> EqualFold (BundleChecksum (se_sha256 env) mainConfig routeConfig fs) (TrimSpace (ac_Checksum config)))
     | Reported payload \<Rightarrow> True)"

lemma apply_and_report_calls:
  assumes "\<And>p. P (Reported p)" "P (Applied (ac_MainConfig config) (route_of config) (ac_SupportFiles config))"
  shows "calls_ok P (apply_and_report env ops sn config)"
  unfolding apply_and_report_def
  by (intro calls_ok_andThen calls_ok_apply assms(2)) (auto intro!: calls_ok_andThen calls_ok_report assms(1) split: prod.splits)

lemma applyIfNeeded_calls:
  assumes "\<And>p. P (Reported p)"
    and "\<And>config. response = Some config \<Longrightarrow> bundle_verified env (tidied config) \<Longrightarrow>
      P (Applied (ac_MainConfig config) (route_of config) (ac_SupportFiles config))"
  shows "calls_ok P (applyIfNeeded env ops startup sn cur response)"
proof (cases response)
  case None
  then show ?thesis by (simp add: applyIfNeeded_def)
next
  case (Some config)
  let ?c = "tidied config"
  have int: "calls_ok P (integrity_failure env sn ?c)"
    unfolding integrity_failure_def Let_def by (intro calls_ok_andThen calls_ok_report assms(1)) auto
  have same: "ac_MainConfig ?c = ac_MainConfig config" "route_of ?c = route_of config" "ac_SupportFiles ?c = ac_SupportFiles config"
    by (simp_all add: tidied_def route_of_def)
  have app: "calls_ok P (apply_and_report env ops sn' ?c)" if "bundle_verified env ?c" for sn'
    using assms(2)[OF Some that] by (intro apply_and_report_calls assms(1)) (simp add: same)
  show ?thesis unfolding applyIfNeeded_def Some tidied_def[symmetric] Let_def option.case using int app by auto
qed

lemma sync_calls:
  assumes "\<And>p. P (Reported p)"
    and "\<And>n config. se_GetActiveConfig env n = Inr (Some config) \<Longrightarrow> bundle_verified env (tidied config) \<Longrightarrow>
      P (Applied (ac_MainConfig config) (route_of config) (ac_SupportFiles config))"
  shows "calls_ok P (sync env ops startup target)"
proof -
  have fetch: "calls_ok P (andThen (GetActiveConfig env) f)"
    if f: "\<And>n response. se_GetActiveConfig env n = Inr response \<Longrightarrow> calls_ok P (f response)" for f :: "_ \<Rightarrow> ('a sync_state, string, unit) action"
    unfolding calls_ok_def
  proof (intro allI impI)
    fix s r s' assume run: "andThen (GetActiveConfig env) f s = (r, s')"
    show "\<exists>new. sy_Calls s' = new @ sy_Calls s \<and> list_all P new"
    proof (cases "se_GetActiveConfig env (sy_Requests s)")
      case (Inl e)
      then show ?thesis using run by (auto simp: andThen_def GetActiveConfig_def)
    next
      case (Inr response)
      then have "f response (s\<lparr>sy_Requests := Suc (sy_Requests s)\<rparr>) = (r, s')" using run by (simp add: andThen_def GetActiveConfig_def)
      then show ?thesis using f[OF Inr] unfolding calls_ok_def by fastforce
    qed
  qed
  have apply_ok: "calls_ok P (applyIfNeeded env ops st sn cur response)" if "se_GetActiveConfig env n = Inr response" for n response st sn cur
    by (rule applyIfNeeded_calls) (use assms that in blast)+
  have "calls_ok P (sync_startup_fetch env ops sn)" for sn
    unfolding sync_startup_fetch_def by (rule fetch) (auto intro!: calls_ok_andThen apply_ok)
  moreover have "calls_ok P (sync_target env ops st sn v c)" for st sn v c
    unfolding sync_target_def Let_def by (auto intro!: calls_ok_andThen fetch apply_ok)
  ultimately show ?thesis unfolding sync_def Let_def by (intro calls_ok_andThen) auto
qed

text \<open>
  C6: A run of the synchronisation, at the start of the agent or on a heartbeat, applies nothing but a configuration that
  it fetched from the control plane and verified: the checksum that the control plane declares is not empty, and up to the
  case of letters it is the checksum of exactly the files that are applied.
\<close>

theorem only_verified_applied:
  assumes "sync env ops startup target s = (r, s')"
  shows "\<exists>new. sy_Calls s' = new @ sy_Calls s \<and> list_all (fetched_and_verified env) new"
proof -
  have "calls_ok (fetched_and_verified env) (sync env ops startup target)"
  proof (rule sync_calls)
    fix n config assume c: "se_GetActiveConfig env n = Inr (Some config)" "bundle_verified env (tidied config)"
    moreover have "route_of (tidied config) = route_of config" by (simp add: tidied_def route_of_def)
    ultimately show "fetched_and_verified env (Applied (ac_MainConfig config) (route_of config) (ac_SupportFiles config))"
      unfolding fetched_and_verified_def sync_call.case bundle_verified_def by (intro exI[of _ n] exI[of _ config]) (simp add: tidied_def)
  qed (simp add: fetched_and_verified_def)
  then show ?thesis using assms unfolding calls_ok_def by blast
qed


section \<open>Reports and the stored state\<close>

abbreviation coherent_state :: "sync_env \<Rightarrow> 'w sync_state \<Rightarrow> bool" where
  "coherent_state env s \<equiv> state_coherent (se_json env) (sy_Store s) (sy_Disk s)"

definition agrees :: "StateSnapshot \<Rightarrow> ApplyLogPayload \<Rightarrow> bool" where
  "agrees sn p \<longleftrightarrow>
    (if al_Result p = ApplyResultSuccess
     then ss_CurrentVersion sn = al_Version p \<and> ss_CurrentChecksum sn = al_Checksum p \<and> \<not> hasBlockedTarget sn
     else ss_BlockedVersion sn = TrimSpace (al_Version p) \<and> ss_BlockedChecksum sn = TrimSpace (al_Checksum p))"

definition recorded :: "sync_env \<Rightarrow> 'w sync_state \<Rightarrow> ApplyLogPayload \<Rightarrow> bool" where
  "recorded env s p \<longleftrightarrow> coherent_state env s \<and> cs_loaded (sy_Store s)
    \<and> (\<exists>sn. stored zero_StateSnapshot (se_json env) (sy_Store s) (sy_Disk s) = Some sn \<and> agrees sn p)"

definition mute :: "sync_call \<Rightarrow> bool" where
  "mute x = (case x of Applied a b fs \<Rightarrow> True | Reported p \<Rightarrow> False)"

definition steady :: "sync_env \<Rightarrow> ('w sync_state, string, 'a) action \<Rightarrow> bool" where
  "steady env f \<longleftrightarrow> (\<forall>s x s'. coherent_state env s \<longrightarrow> f s = (Inr x, s') \<longrightarrow> coherent_state env s')"

definition recording :: "sync_env \<Rightarrow> ('w sync_state, string, 'a) action \<Rightarrow> bool" where
  "recording env f \<longleftrightarrow> (\<forall>s r s'. coherent_state env s \<longrightarrow> f s = (r, s') \<longrightarrow>
    (\<exists>new. sy_Calls s' = new @ sy_Calls s \<and> (\<forall>p. Reported p \<in> set new \<longrightarrow> recorded env s' p)))"

lemma mute_recording: "calls_ok mute f \<Longrightarrow> recording env f"
  unfolding calls_ok_def recording_def by (fastforce simp: list_all_iff mute_def)

lemma recording_andThen:
  assumes "calls_ok mute f" "steady env f" "\<And>x. recording env (g x)"
  shows "recording env (andThen f g)"
  unfolding recording_def
proof (intro allI impI)
  fix s r s' assume coh: "coherent_state env s" and run: "andThen f g s = (r, s')"
  obtain r1 s1 where f: "f s = (r1, s1)" by fastforce
  obtain n1 where n1: "sy_Calls s1 = n1 @ sy_Calls s" "list_all mute n1" using assms(1) f unfolding calls_ok_def by blast
  have none: "Reported p \<notin> set n1" for p using n1(2) by (auto simp: list_all_iff mute_def)
  show "\<exists>new. sy_Calls s' = new @ sy_Calls s \<and> (\<forall>p. Reported p \<in> set new \<longrightarrow> recorded env s' p)"
  proof (cases r1)
    case (Inl e)
    then have "s' = s1" using run f by (simp add: andThen_def)
    then show ?thesis using n1(1) none by blast
  next
    case (Inr x)
    then have "g x s1 = (r, s')" using run f by (simp add: andThen_def)
    moreover have "coherent_state env s1" using assms(2) coh f Inr unfolding steady_def by blast
    ultimately obtain n2 where "sy_Calls s' = n2 @ sy_Calls s1" "\<forall>p. Reported p \<in> set n2 \<longrightarrow> recorded env s' p"
      using assms(3) unfolding recording_def by blast
    then show ?thesis using n1(1) none by (intro exI[of _ "n2 @ n1"]) auto
  qed
qed

lemma steady_calls [simp, intro]:
  "steady env (load_state env)" "steady env (on_nginx f)" "steady env (GetActiveConfig env)" "steady env (call_apply ops a b fs)"
proof -
  show "steady env (on_nginx f)" "steady env (GetActiveConfig env)" "steady env (call_apply ops a b fs)"
    by (auto simp: steady_def on_nginx_def GetActiveConfig_def call_apply_def split: prod.splits)
  show "steady env (load_state env)"
    unfolding steady_def
  proof (intro allI impI)
    fix s x s' assume coh: "coherent_state env s" and run: "load_state env s = (Inr x, s')"
    obtain r st d where l: "loadUnlocked (se_os env) (se_json env) (sy_Store s, sy_Disk s) = (r, (st, d))" by (metis prod.collapse)
    then have "s' = s\<lparr>sy_Store := st, sy_Disk := d\<rparr>" using run by (simp add: load_state_def State_Load_def)
    then show "coherent_state env s'" using loadUnlocked_file[OF coh l] by simp
  qed
qed

lemma recording_If: "recording env f \<Longrightarrow> recording env g \<Longrightarrow> recording env (if c then f else g)"
  by simp

lemmas recording_leaf = calls_ok_quiet[THEN mute_recording] calls_ok_skip[THEN mute_recording]

lemmas recording_rules = recording_andThen recording_If recording_leaf steady_calls calls_ok_quiet

lemma saved_recorded:
  assumes "coherent_state env s" "codes (se_json env) sn" "save_state env sn s = (Inr (), s')" "agrees sn p"
  shows "recorded env s' p"
proof -
  obtain r st d where l: "saveUnlocked (se_os env) (se_json env) (Some sn) (sy_Store s, sy_Disk s) = (r, (st, d))" by (metis prod.collapse)
  then have s': "s' = s\<lparr>sy_Store := st, sy_Disk := d\<rparr>" "r = Inr ()" using assms(3) by (auto simp: save_state_def State_Save_def split: sum.splits)
  show ?thesis using saveUnlocked_file[OF assms(1,2) l[unfolded s'(2)]] assms(4) s'(1) by (auto simp: recorded_def)
qed

lemma report_recording:
  assumes "codes (se_json env) sn" "agrees sn p" "\<And>s. snd (k s) = s"
  shows "recording env (andThen (save_state env sn) (\<lambda>_. andThen (ReportApplyLog env p) (\<lambda>_. k)))"
  unfolding recording_def
proof (intro allI impI)
  fix s r s' assume coh: "coherent_state env s"
    and run: "andThen (save_state env sn) (\<lambda>_. andThen (ReportApplyLog env p) (\<lambda>_. k)) s = (r, s')"
  obtain r1 s1 where sv: "save_state env sn s = (r1, s1)" by fastforce
  have c1: "sy_Calls s1 = sy_Calls s" using sv by (auto simp: save_state_def split: prod.splits)
  show "\<exists>new. sy_Calls s' = new @ sy_Calls s \<and> (\<forall>p. Reported p \<in> set new \<longrightarrow> recorded env s' p)"
  proof (cases r1)
    case (Inl e)
    then show ?thesis using run sv c1 by (simp add: andThen_def)
  next
    case (Inr u)
    then have rec: "recorded env s1 p" using saved_recorded[OF coh assms(1) _ assms(2)] sv by simp
    let ?s2 = "s1\<lparr>sy_Requests := Suc (sy_Requests s1), sy_Calls := Reported p # sy_Calls s1\<rparr>"
    have "s' = ?s2"
      using run sv Inr assms(3)[of ?s2] by (cases "k ?s2") (auto simp: andThen_def ReportApplyLog_def split: option.splits)
    then show ?thesis using c1 rec by (intro exI[of _ "[Reported p]"]) (auto simp: recorded_def)
  qed
qed

lemma agrees_failed: "result \<noteq> ApplyResultSuccess \<Longrightarrow>
    ss_BlockedVersion sn = TrimSpace (ac_Version config) \<Longrightarrow> ss_BlockedChecksum sn = TrimSpace (ac_Checksum config) \<Longrightarrow>
    agrees sn (log_payload env sn' config result message)"
  by (simp add: agrees_def log_payload_def)

lemma result_agrees:
  assumes "apply_result config status message sn = (result, message', sn')"
  shows "agrees sn' (log_payload env sn' config result message')"
proof (cases "status = Some ApplySuccess")
  case True
  then show ?thesis using assms
    by (auto simp: apply_result_def Let_def agrees_def log_payload_def healthy_def clearBlockedTarget_def hasBlockedTarget_def TrimSpace_Nil)
next
  case False
  then have "result \<noteq> ApplyResultSuccess \<and> ss_BlockedVersion sn' = TrimSpace (ac_Version config) \<and> ss_BlockedChecksum sn' = TrimSpace (ac_Checksum config)"
    using assms by (cases "status = Some ApplyWarning")
      (auto simp: apply_result_def Let_def healthy_def unhealthy_def markBlockedTarget_def ApplyResultSuccess_def ApplyResultWarning_def ApplyResultFailed_def)
  then show ?thesis using agrees_failed by blast
qed

lemma apply_and_report_recording:
  assumes "\<And>sn. codes (se_json env) sn"
  shows "recording env (apply_and_report env ops sn config)"
  unfolding apply_and_report_def
proof (rule recording_andThen)
  show "calls_ok mute (call_apply ops (ac_MainConfig config) (route_of config) (ac_SupportFiles config))"
    by (rule calls_ok_apply) (simp add: mute_def)
  fix x :: "ApplyStatus option \<times> string"
  obtain result message sn' where res: "apply_result config (fst x) (RedactSensitiveText (TrimSpace (snd x))) sn = (result, message, sn')" by (metis prod.collapse)
  have "recording env (andThen (save_state env sn') (\<lambda>_. andThen (ReportApplyLog env (log_payload env sn' config result message)) (\<lambda>_.
      if result = ApplyResultFailed then fail (outcomeError (ac_Version config) message) else return ())))"
    by (rule report_recording[OF assms result_agrees[OF res]]) (simp add: fail_def return_def)
  then show "recording env (case x of (status, message) \<Rightarrow>
      case apply_result config status (RedactSensitiveText (TrimSpace message)) sn of (result, message, snapshot) \<Rightarrow>
        andThen (save_state env snapshot) (\<lambda>_. andThen (ReportApplyLog env (log_payload env snapshot config result message)) (\<lambda>_.
        if result = ApplyResultFailed then fail (outcomeError (ac_Version config) message) else return ())))"
    using res by (cases "result = ApplyResultFailed") (simp_all add: case_prod_unfold)
qed simp

lemma integrity_recording:
  assumes "\<And>sn. codes (se_json env) sn"
  shows "recording env (integrity_failure env sn config)"
  unfolding integrity_failure_def Let_def
  by (rule report_recording[OF assms])
    (auto simp: agrees_def log_payload_def markBlockedTarget_def ApplyResultSuccess_def ApplyResultFailed_def fail_def)

lemma applyIfNeeded_recording:
  assumes "\<And>sn. codes (se_json env) sn"
  shows "recording env (applyIfNeeded env ops startup sn cur response)"
  using integrity_recording[OF assms] apply_and_report_recording[OF assms]
  by (auto simp: applyIfNeeded_def Let_def intro: mute_recording split: option.splits)

lemma sync_recording:
  assumes "\<And>sn. codes (se_json env) sn"
  shows "recording env (sync env ops startup target)"
proof -
  note app = applyIfNeeded_recording[OF assms]
  have "recording env (sync_startup_fetch env ops sn)" for sn
    unfolding sync_startup_fetch_def by (intro recording_rules app)
  moreover have "recording env (sync_target env ops st sn v c)" for st sn v c
    unfolding sync_target_def Let_def by (intro recording_rules app)
  ultimately show ?thesis unfolding sync_def Let_def by (intro recording_rules) 
qed

text \<open>
  C9: What a run of the synchronisation reports to the control plane, it has written to its state before: after a report of
  success the stored state names the reported version and checksum as the current ones and blocks nothing, after any
  other report it blocks the reported version and checksum. The encoding of states is assumed to be one that can be read back.
\<close>

theorem reports_are_recorded:
  assumes "sync env ops startup target s = (r, s')" "coherent_state env s" "\<And>sn. codes (se_json env) sn"
  shows "\<exists>new. sy_Calls s' = new @ sy_Calls s \<and> (\<forall>p. Reported p \<in> set new \<longrightarrow> recorded env s' p)"
  using sync_recording[OF assms(3)] assms(1,2) unfolding recording_def by blast

text \<open>
  C12: A configuration whose application was reported as failed or rolled back is not tried again on the next heartbeats: a
  synchronisation with the same version and checksum succeeds without fetching, applying, reporting or writing anything.
\<close>

theorem failed_target_not_retried:
  assumes "sync env ops startup target s = (r, s')" "coherent_state env s" "\<And>sn. codes (se_json env) sn"
    and "sy_Calls s' = Reported p # calls" "length (sy_Calls s) < length (sy_Calls s')" "al_Result p \<noteq> ApplyResultSuccess"
    and "TrimSpace (am_Version t) = TrimSpace (al_Version p)" "TrimSpace (am_Checksum t) = TrimSpace (al_Checksum p)"
  shows "SyncOnce env ops (Some t) s' = (Inr (), s')"
proof -
  obtain new where new: "sy_Calls s' = new @ sy_Calls s" "\<forall>p. Reported p \<in> set new \<longrightarrow> recorded env s' p"
    using sync_recording[OF assms(3)] assms(1,2) unfolding recording_def by blast
  then have "Reported p \<in> set new" using assms(4,5) by (cases new) auto
  then obtain sn where rec: "coherent_state env s'" "cs_loaded (sy_Store s')"
    "stored zero_StateSnapshot (se_json env) (sy_Store s') (sy_Disk s') = Some sn" "agrees sn p"
    using new(2) by (auto simp: recorded_def)
  have load: "load_state env s' = (Inr sn, s')"
    using cached_load[OF rec(1-3), of "se_os env"] by (simp add: load_state_def State_Load_def)
  have idem: "TrimSpace (TrimSpace x) = TrimSpace x" for x by (rule TrimSpace_idem)
  have "isBlockedTarget sn v c" if "v = TrimSpace (am_Version t)" "c = TrimSpace (am_Checksum t)" "v \<noteq> []" for v c
    using that rec(4) assms(6-8) by (simp add: agrees_def isBlockedTarget_def idem)
  then show ?thesis using load by (simp add: SyncOnce_def sync_def andThen_def Let_def sync_target_def return_def)
qed


section \<open>Example\<close>

text \<open>A simple encoding of states that can be read back.\<close>

fun put_text :: "string \<Rightarrow> string \<Rightarrow> string" where
  "put_text [] rest = CHR ''b'' # rest"
| "put_text (c # s) rest = CHR ''a'' # c # put_text s rest"

fun get_text :: "string \<Rightarrow> string \<times> string" where
  "get_text (x # c # s) = (if x = CHR ''a'' then (case get_text s of (t, rest) \<Rightarrow> (c # t, rest)) else ([], c # s))"
| "get_text s = ([], tl s)"

lemma get_put [simp]: "get_text (put_text s rest) = (s, rest)"
  by (induction s) (cases rest; auto)+

definition number_text :: "int \<Rightarrow> string" where
  "number_text i = (if i < 0 then CHR ''-'' # replicate (nat (- i)) (CHR ''1'') else replicate (nat i) (CHR ''1''))"

definition text_number :: "string \<Rightarrow> int" where
  "text_number s = (case s of c # t \<Rightarrow> if c = CHR ''-'' then - int (length t) else int (length s) | [] \<Rightarrow> 0)"

lemma text_number_text [simp]: "text_number (number_text i) = i"
proof (cases "i < 0")
  case False
  then show ?thesis by (cases "nat i") (auto simp: number_text_def text_number_def)
qed (simp add: number_text_def text_number_def)

fun put_texts :: "string list \<Rightarrow> string" where
  "put_texts [] = []"
| "put_texts (s # ss) = put_text s (put_texts ss)"

fun get_texts :: "nat \<Rightarrow> string \<Rightarrow> string list" where
  "get_texts 0 s = []"
| "get_texts (Suc n) s = (case get_text s of (t, rest) \<Rightarrow> t # get_texts n rest)"

lemma get_put_texts [simp]: "get_texts (length ss) (put_texts ss) = ss"
  by (induction ss) auto

definition state_texts :: "StateSnapshot \<Rightarrow> string list" where
  "state_texts s = [ss_NodeID s, ss_CurrentVersion s, ss_CurrentChecksum s, ss_BlockedVersion s, ss_BlockedChecksum s, ss_BlockedReason s, ss_LastError s,
    ss_OpenrestyStatus s, ss_OpenrestyMessage s, ss_LastProfileFingerprint s, number_text (uint (ss_LastCPUStatTotal s)),
    number_text (uint (ss_LastCPUStatIdle s)), number_text (ss_LastMetricAtUnix s), number_text (ss_AccessLogOffset s),
    number_text (if ss_AccessLogOffsetReady s then 1 else 0)]"

definition texts_state :: "string list \<Rightarrow> StateSnapshot" where
  "texts_state xs = \<lparr>ss_NodeID = xs ! 0, ss_CurrentVersion = xs ! 1, ss_CurrentChecksum = xs ! 2, ss_BlockedVersion = xs ! 3, ss_BlockedChecksum = xs ! 4,
    ss_BlockedReason = xs ! 5, ss_LastError = xs ! 6, ss_OpenrestyStatus = xs ! 7, ss_OpenrestyMessage = xs ! 8, ss_LastProfileFingerprint = xs ! 9,
    ss_LastCPUStatTotal = word_of_int (text_number (xs ! 10)), ss_LastCPUStatIdle = word_of_int (text_number (xs ! 11)),
    ss_LastMetricAtUnix = text_number (xs ! 12), ss_AccessLogOffset = text_number (xs ! 13), ss_AccessLogOffsetReady = (text_number (xs ! 14) = 1)\<rparr>"

definition text_json :: "StateSnapshot json" where
  "text_json = \<lparr>Marshal = (\<lambda>s. Inr (put_texts (state_texts s))), Unmarshal = (\<lambda>s. Inr (texts_state (get_texts 15 s)))\<rparr>"

lemma text_json_codes: "codes text_json sn"
proof -
  have "length (state_texts sn) = 15" by (simp add: state_texts_def)
  then have "get_texts 15 (put_texts (state_texts sn)) = state_texts sn" using get_put_texts by metis
  moreover have "texts_state (state_texts sn) = sn" by (simp add: texts_state_def state_texts_def)
  moreover have "put_texts (state_texts sn) \<noteq> []" by (cases "ss_NodeID sn") (auto simp: state_texts_def)
  ultimately show ?thesis by (simp add: codes_def text_json_def)
qed

definition example_sync :: sync_env where
  "example_sync = \<lparr>se_os = quiet_os, se_json = text_json, se_sha256 = (\<lambda>_. ''c''),
    se_GetActiveConfig = (\<lambda>_. Inr (Some \<lparr>ac_Version = ''1'', ac_Checksum = ''c'', ac_MainConfig = ''m'', ac_RouteConfig = ''r'', ac_RenderedConfig = [], ac_SupportFiles = []\<rparr>)),
    se_ReportApplyLog = (\<lambda>_. None)\<rparr>"

definition failing_manager :: "unit nginx_manager" where
  "failing_manager = \<lparr>ng_Apply = (\<lambda>_ _ _ w. ((Some ApplyFatal, []), w)), ng_EnsureRuntime = (\<lambda>_. return ()),
    ng_EnsureSafeFallbackRuntime = (\<lambda>_. return ()), ng_CurrentChecksum = return []\<rparr>"

definition example_target :: ActiveConfigMeta where
  "example_target = \<lparr>am_Version = ''1'', am_Checksum = ''c''\<rparr>"

definition example_start :: "unit sync_state" where
  "example_start = \<lparr>sy_Store = new_store ''/s'', sy_Disk = empty_disk, sy_Nginx = (), sy_Requests = 0, sy_Calls = []\<rparr>"

abbreviation example_run :: "unit sync_state" where
  "example_run \<equiv> snd (sync example_sync failing_manager False (Some example_target) example_start)"

definition example_report :: ApplyLogPayload where
  "example_report = \<lparr>al_NodeID = [], al_Version = ''1'', al_Result = ''failed'', al_Message = ''openresty apply failed'', al_Checksum = ''c'',
    al_MainConfigChecksum = ''c'', al_RouteConfigChecksum = ''c'', al_SupportFileCount = 0\<rparr>"

lemma example_run_calls: "sy_Calls example_run = [Reported example_report, Applied ''m'' ''r'' []]"
  by code_simp

lemma example_run_sync:
  "sync example_sync failing_manager False (Some example_target) example_start = (fst (sync example_sync failing_manager False (Some example_target) example_start), example_run)"
  by simp

lemma example_start_coherent: "coherent_state example_sync example_start"
  by (simp add: example_start_def new_store_coherent)

lemma example_sync_codes: "codes (se_json example_sync) sn"
  by (simp add: example_sync_def text_json_codes)

theorem only_verified_applied_witness: "\<exists>new. sy_Calls example_run = new @ [] \<and> list_all (fetched_and_verified example_sync) new"
  using only_verified_applied[OF example_run_sync] by (simp add: example_start_def)

theorem reports_are_recorded_witness: "recorded example_sync example_run example_report"
proof -
  obtain new where "sy_Calls example_run = new @ sy_Calls example_start" "\<forall>p. Reported p \<in> set new \<longrightarrow> recorded example_sync example_run p"
    using reports_are_recorded[OF example_run_sync example_start_coherent example_sync_codes] by blast
  moreover from this(1) have "new = [Reported example_report, Applied ''m'' ''r'' []]" unfolding example_run_calls by (simp add: example_start_def)
  ultimately show ?thesis by simp
qed

theorem failed_target_not_retried_witness:
  "SyncOnce example_sync failing_manager (Some example_target) example_run = (Inr (), example_run)"
proof (rule failed_target_not_retried[OF example_run_sync example_start_coherent example_sync_codes example_run_calls])
  show "length (sy_Calls example_start) < length (sy_Calls example_run)" unfolding example_run_calls by (simp add: example_start_def)
qed (simp_all add: example_report_def example_target_def ApplyResultSuccess_def)

text \<open>
  The test for a blocked configuration after the fetch comes too late: when a heartbeat names another configuration the
  block is cleared before the fetch, and if the control plane has gone back to the blocked one meanwhile, that one is
  fetched and applied again.
\<close>

lemma blocked_applied_after_race:
  "sy_Calls (snd (SyncOnce example_sync failing_manager (Some \<lparr>am_Version = ''2'', am_Checksum = ''d''\<rparr>) example_run)) =
    [Reported example_report, Applied ''m'' ''r'' [], Reported example_report, Applied ''m'' ''r'' []]"
  by code_simp


section \<open>The contract of the manager\<close>

text \<open>What the service relies on between two applications: reading the checksum changes none of the installed files.\<close>

locale nginx_contract =
  fixes ops :: "'w nginx_manager"
    and installed :: "'w \<Rightarrow> location \<Rightarrow> disk_file option"
  assumes checksum_reads: "\<And>w r w'. ng_CurrentChecksum ops w = (r, w') \<Longrightarrow> installed w' = installed w"
begin

definition untouched :: "('w sync_state, string, 'a) action \<Rightarrow> bool" where
  "untouched f \<longleftrightarrow> (\<forall>s r s'. f s = (r, s') \<longrightarrow> (\<exists>new. sy_Calls s' = new @ sy_Calls s \<and>
    (installed (sy_Nginx s') = installed (sy_Nginx s) \<or> (\<exists>a b fs. Applied a b fs \<in> set new))))"

lemma untouchedI:
  "(\<And>s r s'. f s = (r, s') \<Longrightarrow> sy_Calls s' = sy_Calls s \<and> installed (sy_Nginx s') = installed (sy_Nginx s)) \<Longrightarrow> untouched f"
  by (auto simp: untouched_def)

lemma untouched_andThen:
  assumes "untouched f" "\<And>x. untouched (g x)"
  shows "untouched (andThen f g)"
  unfolding untouched_def
proof (intro allI impI)
  fix s r s' assume run: "andThen f g s = (r, s')"
  obtain r1 s1 where f: "f s = (r1, s1)" by fastforce
  obtain n1 where n1: "sy_Calls s1 = n1 @ sy_Calls s" "installed (sy_Nginx s1) = installed (sy_Nginx s) \<or> (\<exists>a b fs. Applied a b fs \<in> set n1)"
    using assms(1) f unfolding untouched_def by blast
  show "\<exists>new. sy_Calls s' = new @ sy_Calls s \<and> (installed (sy_Nginx s') = installed (sy_Nginx s) \<or> (\<exists>a b fs. Applied a b fs \<in> set new))"
  proof (cases r1)
    case (Inl e)
    then show ?thesis using run f n1 by (auto simp: andThen_def)
  next
    case (Inr x)
    then have "g x s1 = (r, s')" using run f by (simp add: andThen_def)
    then obtain n2 where "sy_Calls s' = n2 @ sy_Calls s1" "installed (sy_Nginx s') = installed (sy_Nginx s1) \<or> (\<exists>a b fs. Applied a b fs \<in> set n2)"
      using assms(2) unfolding untouched_def by blast
    then show ?thesis using n1 by (intro exI[of _ "n2 @ n1"]) auto
  qed
qed

lemma untouched_If: "untouched f \<Longrightarrow> untouched g \<Longrightarrow> untouched (if c then f else g)"
  by simp

lemma untouched_leaf:
  "untouched (return x)" "untouched (fail e)" "untouched (load_state env)" "untouched (save_state env sn)" "untouched (GetActiveConfig env)"
  "untouched (up_to_date env ops False sn v c)" "untouched (skip_blocked env ops False sn cur)"
  by (auto intro!: untouchedI simp: return_def fail_def load_state_def save_state_def GetActiveConfig_def up_to_date_def skip_blocked_def Let_def
    split: prod.splits)

lemma untouched_checksum: "untouched (on_nginx (ng_CurrentChecksum ops))"
  by (rule untouchedI) (auto simp: on_nginx_def dest: checksum_reads split: prod.splits)

lemma untouched_report: "untouched (ReportApplyLog env p)"
  by (auto simp: untouched_def ReportApplyLog_def)

lemma untouched_apply: "untouched (call_apply ops a b fs)"
  by (auto simp: untouched_def call_apply_def on_nginx_def split: prod.splits)

lemmas untouched_rules = untouched_andThen untouched_If untouched_leaf untouched_checksum untouched_report untouched_apply

lemma untouched_apply_and_report: "untouched (apply_and_report env ops sn config)"
  unfolding apply_and_report_def
proof (intro untouched_andThen untouched_apply)
  fix x :: "ApplyStatus option \<times> string"
  obtain result message sn' where res: "apply_result config (fst x) (RedactSensitiveText (TrimSpace (snd x))) sn = (result, message, sn')" by (metis prod.collapse)
  have "untouched (andThen (save_state env sn') (\<lambda>_. andThen (ReportApplyLog env (log_payload env sn' config result message)) (\<lambda>_.
      if result = ApplyResultFailed then fail (outcomeError (ac_Version config) message) else return ())))"
    by (intro untouched_rules)
  then show "untouched (case x of (status, message) \<Rightarrow>
      case apply_result config status (RedactSensitiveText (TrimSpace message)) sn of (result, message, snapshot) \<Rightarrow>
        andThen (save_state env snapshot) (\<lambda>_. andThen (ReportApplyLog env (log_payload env snapshot config result message)) (\<lambda>_.
        if result = ApplyResultFailed then fail (outcomeError (ac_Version config) message) else return ())))"
    using res by (cases "result = ApplyResultFailed") (simp_all add: case_prod_unfold)
qed

lemma untouched_applyIfNeeded: "untouched (applyIfNeeded env ops False sn cur response)"
proof (cases response)
  case None
  then show ?thesis by (simp add: applyIfNeeded_def untouched_leaf)
next
  case (Some config)
  show ?thesis unfolding applyIfNeeded_def Some option.case Let_def integrity_failure_def
    by (intro untouched_rules untouched_apply_and_report)
qed

lemma heartbeat_untouched: "untouched (SyncOnce env ops target)"
proof -
  have "untouched (sync_target env ops False sn v c)" for sn v c
    unfolding sync_target_def Let_def by (intro untouched_rules untouched_applyIfNeeded)
  then show ?thesis unfolding SyncOnce_def sync_def Let_def by (intro untouched_andThen untouched_leaf) (simp add: untouched_leaf)
qed

end

lemma readCertFiles_keeps: "readCertFiles os m d = (r, d') \<Longrightarrow> look d' = look d"
proof -
  assume run: "readCertFiles os m d = (r, d')"
  have one: "reads_only (read_cert_file os m l)" for l unfolding read_cert_file_def Let_def by (intro reads_only_andThen) auto
  have each: "reads_only (map_each (read_cert_file os m) ls)" for ls by (induction ls) (auto intro!: reads_only_andThen one)
  have walk: "reads_only (walked os p)" for p by (rule reads_onlyI) (use walked_cases in blast)
  have dir: "reads_only (andThen (walked os p) (\<lambda>ls. andThen (map_each (read_cert_file os m) (filter q ls)) (\<lambda>fs. return (sort_key sf_Path fs))))" for p q
    by (intro reads_only_andThen walk each reads_only_return)
  have single: "reads_only (andThen (ReadFile os p) (\<lambda>data. return [\<lparr>sf_Path = ''.'', sf_Content = data\<rparr>]))" for p by (intro reads_only_andThen) auto
  obtain r1 d1 where st: "StatFile os (m_CertDir m) d = (r1, d1)" by fastforce
  have "look d1 = look d" using reads_onlyD[OF reads_only_calls(3) st] .
  then show ?thesis using run st reads_onlyD[OF dir] reads_onlyD[OF single]
    by (auto simp: readCertFiles_def split: if_splits sum.splits os_error.splits)
qed

lemma calculate_reads_only: "reads_only (calculateCurrentChecksum env m)"
proof -
  have rt: "reads_only (readRuntimeConfigFile os m spec)" for os spec
  proof (rule reads_onlyI)
    fix d r d' assume run: "readRuntimeConfigFile os m spec d = (r, d')"
    obtain r1 d1 where rd: "ReadFile os (filepath_Join [m_RuntimeConfigDir m, spec]) d = (r1, d1)" by fastforce
    have "look d1 = look d" using reads_onlyD[OF reads_only_calls(2) rd] .
    then show "look d' = look d" using run rd by (auto simp: readRuntimeConfigFile_def split: sum.splits os_error.splits)
  qed
  have each: "reads_only (map_each (readRuntimeConfigFile os m) specs)" for os specs by (induction specs) (auto intro!: reads_only_andThen rt)
  have "reads_only (readRuntimeConfigFiles os m)" for os
    unfolding readRuntimeConfigFiles_def by (auto intro!: reads_only_andThen each)
  moreover have "reads_only (readCertFiles os m)" for os by (rule reads_onlyI) (rule readCertFiles_keeps)
  ultimately have "reads_only (readManagedSupportFiles os m)" for os
    unfolding readManagedSupportFiles_def by (intro reads_only_andThen reads_only_return)
  then show ?thesis unfolding calculateCurrentChecksum_def Let_def
    by (auto intro!: reads_only_andThen reads_only_texted reads_only_read_if_present split: option.splits)
qed

interpretation manager: nginx_contract "manager_ops env m" "\<lambda>w. look (snd w)" for env m
proof unfold_locales
  fix w r w' assume run: "ng_CurrentChecksum (manager_ops env m) w = (r, w')"
  obtain c d where w: "w = (c, d)" by fastforce
  obtain r1 d1 where calc: "calculateCurrentChecksum env m d = (r1, d1)" by fastforce
  have "look d1 = look d" using reads_onlyD[OF calculate_reads_only calc] .
  then show "look (snd w') = look (snd w)"
    using run w calc by (auto simp: manager_ops_def CurrentChecksum_def split: option.splits sum.splits)
qed

text \<open>
  C37: A heartbeat on which nothing is applied leaves the installed files alone: when a synchronisation with the manager of
  OpenResty makes no call of \<open>Apply\<close>, every file on the disk of the manager is what it was, however the run ends.
\<close>

theorem heartbeat_keeps_files:
  assumes "SyncOnce env (manager_ops nenv m) target s = (r, s')" "sy_Calls s' = new @ sy_Calls s" "\<forall>a b fs. Applied a b fs \<notin> set new"
  shows "look (snd (sy_Nginx s')) = look (snd (sy_Nginx s))"
proof -
  obtain new' where "sy_Calls s' = new' @ sy_Calls s"
    "look (snd (sy_Nginx s')) = look (snd (sy_Nginx s)) \<or> (\<exists>a b fs. Applied a b fs \<in> set new')"
    using manager.heartbeat_untouched[of env nenv m target] assms(1) unfolding manager.untouched_def by blast
  then show ?thesis using assms(2,3) by simp
qed

definition unreachable_server :: sync_env where
  "unreachable_server = example_sync\<lparr>se_GetActiveConfig := (\<lambda>_. Inl ''unreachable'')\<rparr>"

definition example_service :: "(checksum_cache \<times> disk) sync_state" where
  "example_service = \<lparr>sy_Store = new_store ''/s'', sy_Disk = empty_disk, sy_Nginx = (no_checksum, example_node), sy_Requests = 0, sy_Calls = []\<rparr>"

abbreviation example_heartbeat :: "(checksum_cache \<times> disk) sync_state" where
  "example_heartbeat \<equiv> snd (SyncOnce unreachable_server (manager_ops node_env example_manager) (Some example_target) example_service)"

lemma example_heartbeat_calls: "sy_Calls example_heartbeat = []"
  by code_simp

theorem heartbeat_keeps_files_witness: "look (snd (sy_Nginx example_heartbeat)) = look example_node"
proof -
  have "look (snd (sy_Nginx example_heartbeat)) = look (snd (sy_Nginx example_service))"
  proof (rule heartbeat_keeps_files[where new = "[]", OF prod.collapse[symmetric]])
    show "sy_Calls example_heartbeat = [] @ sy_Calls example_service" unfolding example_heartbeat_calls by (simp add: example_service_def)
  qed simp
  then show ?thesis by (simp add: example_service_def)
qed

end
