(* ===== verification/Release_Db.thy ===== *)
theory Release_Db
  imports Go_Action Normalize Go_Sort "HOL-Library.Char_ord" "HOL-Library.List_Lexorder"
begin

text \<open>
  The tables of the control plane that releases of configurations work on, and the queries on them
  (\<open>model/config_release_plan.go\<close>, \<open>model/config_version.go\<close>, \<open>model/node.go\<close>).

  A table is the list of its rows. A statement takes the next number of the history of the database: \<open>ce_Fault env n\<close>
  makes the n-th statement fail, whatever it does. A transaction that fails at a statement, at its start or at its end
  leaves the tables as they were. The columns \<open>created_at\<close> and \<open>updated_at\<close>, which no code here reads, are left out. All
  readings of the clock in one operation are the same, \<open>ce_Now env\<close>.
\<close>

section \<open>Rows\<close>

record ConfigReleasePlan =
  rp_ID :: nat
  rp_ConfigVersionID :: nat
  rp_RollbackVersionID :: "nat option"
  rp_Status :: string
  rp_Strategy :: string
  rp_CanaryPoolName :: string
  rp_CurrentStage :: int
  rp_CanaryPercent :: int
  rp_ObserveSeconds :: int
  rp_Checksum :: string
  rp_FailureReason :: string
  rp_CreatedBy :: string
  rp_StartedAt :: "gotime option"
  rp_CompletedAt :: "gotime option"
  rp_FailedAt :: "gotime option"

record ConfigReleaseTarget =
  rt_ID :: nat
  rt_PlanID :: nat
  rt_ConfigVersionID :: nat
  rt_NodeID :: string
  rt_PoolName :: string
  rt_Checksum :: string
  rt_StageIndex :: int
  rt_Status :: string
  rt_FailureReason :: string
  rt_StartedAt :: "gotime option"
  rt_CompletedAt :: "gotime option"

record ConfigReleaseBlockedChecksum =
  rb_ID :: nat
  rb_PoolName :: string
  rb_ConfigVersionID :: nat
  rb_PlanID :: "nat option"
  rb_Version :: string
  rb_Checksum :: string
  rb_Reason :: string
  rb_ExpiresAt :: "gotime option"
  rb_UnblockedAt :: "gotime option"
  rb_UnblockedBy :: string
  rb_UnblockReason :: string

record ConfigReleaseBlockedChecksumAudit =
  ra_ID :: nat
  ra_BlockedChecksumID :: nat
  ra_PoolName :: string
  ra_Checksum :: string
  ra_Action :: string
  ra_Operator :: string
  ra_OriginalReason :: string
  ra_Reason :: string

record ConfigVersion =
  cv_ID :: nat
  cv_Version :: string
  cv_SnapshotJSON :: string
  cv_MainConfig :: string
  cv_RenderedConfig :: string
  cv_SupportFilesJSON :: string
  cv_Checksum :: string
  cv_IsActive :: bool
  cv_CreatedBy :: string

record ConfigVersionArtifact =
  ca_ID :: nat
  ca_ConfigVersionID :: nat
  ca_PoolName :: string
  ca_Checksum :: string
  ca_MainConfigChecksum :: string
  ca_RouteConfigChecksum :: string
  ca_RenderedConfig :: string
  ca_SupportFilesJSON :: string
  ca_RouteCount :: nat

record ConfigPoolActiveVersion =
  pa_ID :: nat
  pa_PoolName :: string
  pa_ConfigVersionID :: nat
  pa_ArtifactID :: nat
  pa_Checksum :: string
  pa_ActivatedByPlanID :: "nat option"
  pa_ActivatedAt :: gotime

text \<open>Of a node, the columns that releases read.\<close>

record ControlNode =
  cn_ID :: nat
  cn_NodeID :: string
  cn_PoolName :: string
  cn_CurrentChecksum :: string
  cn_LastSeenAt :: gotime

record control_db =
  db_Plans :: "ConfigReleasePlan list"
  db_Targets :: "ConfigReleaseTarget list"
  db_Blocked :: "ConfigReleaseBlockedChecksum list"
  db_Audits :: "ConfigReleaseBlockedChecksumAudit list"
  db_Versions :: "ConfigVersion list"
  db_Artifacts :: "ConfigVersionArtifact list"
  db_PoolActives :: "ConfigPoolActiveVersion list"
  db_Nodes :: "ControlNode list"

text \<open>What the control plane sends to agents: to one node the version and checksum to synchronise with, or to the nodes
  of a pool the version that is active now.\<close>

datatype agent_message = Force_Sync string string string | Pool_Broadcast nat string

record control =
  ct_Db :: control_db
  ct_Statements :: nat
  ct_Sent :: "agent_message list"

datatype db_error =
    Record_Not_Found
  | Db_Failure string
  | Broken_Active string nat nat
  | Refused string
  | No_Enabled_Routes
  | Nothing_To_Publish
  | Version_Conflict
  | No_Artifact_For_Pool string

record ArtifactBundle =
  ab_PoolName :: string
  ab_Checksum :: string
  ab_MainConfigChecksum :: string
  ab_RouteConfigChecksum :: string
  ab_RouteConfig :: string
  ab_SupportFilesJSON :: string
  ab_RouteCount :: nat

record configBundle =
  cb_Routes :: nat
  cb_Blocking :: "string option"
  cb_SnapshotJSON :: string
  cb_MainConfig :: string
  cb_RouteConfig :: string
  cb_SupportFilesJSON :: string
  cb_Checksum :: string
  cb_Artifacts :: "ArtifactBundle list"

text \<open>What releases depend on: the faults of the database, the clock with the date it shows, the agents that are connected, the time after which a
  node counts as offline, the rendering of the current configuration and its comparison with the active version, the
  re-encoding of support files, the number of routes in a snapshot, and SHA-256.\<close>

record control_env =
  ce_Fault :: "nat \<Rightarrow> string option"
  ce_Now :: gotime
  ce_Today :: string
  ce_Connected :: "string list"
  ce_Threshold :: duration
  ce_Bundle :: "control_db \<Rightarrow> string + configBundle"
  ce_Changed :: "ConfigVersion \<Rightarrow> configBundle \<Rightarrow> string + bool"
  ce_SupportFiles :: "string \<Rightarrow> string + string"
  ce_RouteCount :: "string \<Rightarrow> nat"
  ce_sha256 :: "string \<Rightarrow> string"

type_synonym 'a on_control = "(control, db_error, 'a) action"

section \<open>Statements and transactions\<close>

definition statement :: "control_env \<Rightarrow> (control_db \<Rightarrow> (db_error + 'a) \<times> control_db) \<Rightarrow> 'a on_control" where
  "statement env f w =
    (let n = ct_Statements w; w = w\<lparr>ct_Statements := Suc n\<rparr>
     in case ce_Fault env n of
          Some e \<Rightarrow> (Inl (Db_Failure e), w)
        | None \<Rightarrow> (case f (ct_Db w) of (r, d) \<Rightarrow> (r, w\<lparr>ct_Db := d\<rparr>)))"

definition query :: "control_env \<Rightarrow> (control_db \<Rightarrow> db_error + 'a) \<Rightarrow> 'a on_control" where
  "query env f = statement env (\<lambda>d. (f d, d))"

definition execute :: "control_env \<Rightarrow> (control_db \<Rightarrow> control_db) \<Rightarrow> unit on_control" where
  "execute env f = statement env (\<lambda>d. (Inr (), f d))"

definition transaction :: "control_env \<Rightarrow> 'a on_control \<Rightarrow> 'a on_control" where
  "transaction env f w =
    (case execute env id w of
       (Inl e, w1) \<Rightarrow> (Inl e, w1)
     | (Inr _, w1) \<Rightarrow>
         (case f w1 of
            (Inl e, w2) \<Rightarrow> (Inl e, w2\<lparr>ct_Db := ct_Db w\<rparr>)
          | (Inr x, w2) \<Rightarrow>
              (case execute env id w2 of
                 (Inl e, w3) \<Rightarrow> (Inl e, w3\<lparr>ct_Db := ct_Db w\<rparr>)
               | (Inr _, w3) \<Rightarrow> (Inr x, w3))))"

definition send :: "agent_message \<Rightarrow> unit on_control" where
  "send m w = (Inr (), w\<lparr>ct_Sent := m # ct_Sent w\<rparr>)"

definition first_row :: "'a list \<Rightarrow> db_error + 'a" where
  "first_row rows = (case rows of [] \<Rightarrow> Inl Record_Not_Found | r # _ \<Rightarrow> Inr r)"

definition next_id :: "nat list \<Rightarrow> nat" where
  "next_id ids = Suc (foldr max ids 0)"

definition update_rows :: "('r \<Rightarrow> bool) \<Rightarrow> ('r \<Rightarrow> 'r) \<Rightarrow> 'r list \<Rightarrow> 'r list" where
  "update_rows P f = map (\<lambda>r. if P r then f r else r)"

definition unique_failure :: "db_error" where
  "unique_failure = Db_Failure ''UNIQUE constraint failed''"

section \<open>Release plans, their targets and blocked checksums\<close>

abbreviation plan_active :: "ConfigReleasePlan \<Rightarrow> bool" where
  "plan_active p \<equiv> rp_Status p \<in> {''running'', ''observing''}"

definition ListConfigReleasePlans :: "control_env \<Rightarrow> ConfigReleasePlan list on_control" where
  "ListConfigReleasePlans env = query env (\<lambda>d. Inr (SliceStable (\<lambda>a b. rp_ID b < rp_ID a) (db_Plans d)))"

definition GetConfigReleasePlanByID :: "control_env \<Rightarrow> nat \<Rightarrow> ConfigReleasePlan on_control" where
  "GetConfigReleasePlanByID env i = query env (\<lambda>d. first_row (filter (\<lambda>p. rp_ID p = i) (db_Plans d)))"

definition release_target_less :: "ConfigReleaseTarget \<Rightarrow> ConfigReleaseTarget \<Rightarrow> bool" where
  "release_target_less a b \<longleftrightarrow> rt_StageIndex a < rt_StageIndex b \<or> rt_StageIndex a = rt_StageIndex b \<and> rt_ID a < rt_ID b"

definition ListConfigReleaseTargets :: "control_env \<Rightarrow> nat \<Rightarrow> ConfigReleaseTarget list on_control" where
  "ListConfigReleaseTargets env planID =
    query env (\<lambda>d. Inr (SliceStable release_target_less (filter (\<lambda>t. rt_PlanID t = planID) (db_Targets d))))"

definition active_targets :: "string \<Rightarrow> string list \<Rightarrow> control_db \<Rightarrow> ConfigReleaseTarget list" where
  "active_targets nodeID statuses d =
    SliceStable (\<lambda>a b. rt_ID b < rt_ID a)
      (filter (\<lambda>t. rt_NodeID t = nodeID \<and> rt_Status t \<in> set statuses
         \<and> list_ex (\<lambda>p. rp_ID p = rt_PlanID t \<and> plan_active p) (db_Plans d)) (db_Targets d))"

definition firstActiveConfigReleaseTargetForNodeID :: "control_env \<Rightarrow> string \<Rightarrow> string list \<Rightarrow> ConfigReleaseTarget on_control" where
  "firstActiveConfigReleaseTargetForNodeID env nodeID statuses = query env (\<lambda>d. first_row (active_targets nodeID statuses d))"

definition listActiveConfigReleaseTargetsForNodeID :: "control_env \<Rightarrow> string \<Rightarrow> string list \<Rightarrow> ConfigReleaseTarget list on_control" where
  "listActiveConfigReleaseTargetsForNodeID env nodeID statuses = query env (\<lambda>d. Inr (active_targets nodeID statuses d))"

abbreviation unfinished :: "string list" where
  "unfinished \<equiv> [''pending'', ''applying'', ''observing'']"

definition seconds :: "int \<Rightarrow> duration" where
  "seconds n = wrap64 (n * Second)"

definition succeededConfigReleaseTargetStillActive ::
  "control_env \<Rightarrow> ConfigReleasePlan \<Rightarrow> ConfigReleaseTarget \<Rightarrow> bool on_control" where
  "succeededConfigReleaseTargetStillActive env plan target =
    (if (case rt_CompletedAt target of None \<Rightarrow> False
         | Some c \<Rightarrow> rp_ObserveSeconds plan > 0 \<and> \<not> c + seconds (rp_ObserveSeconds plan) < ce_Now env)
     then return True
     else query env (\<lambda>d. Inr (filter (\<lambda>t. rt_PlanID t = rp_ID plan \<and> rt_Status t \<in> set unfinished) (db_Targets d) \<noteq> [])))"

fun still_active :: "control_env \<Rightarrow> ConfigReleaseTarget list \<Rightarrow> (ConfigReleasePlan \<times> ConfigReleaseTarget) on_control" where
  "still_active env [] = fail Record_Not_Found"
| "still_active env (t # ts) =
    andThen (GetConfigReleasePlanByID env (rt_PlanID t)) (\<lambda>plan.
    andThen (succeededConfigReleaseTargetStillActive env plan t) (\<lambda>ok.
    if ok then return (plan, t) else still_active env ts))"

definition GetActiveConfigReleaseTargetForNodeID :: "control_env \<Rightarrow> string \<Rightarrow> (ConfigReleasePlan \<times> ConfigReleaseTarget) on_control" where
  "GetActiveConfigReleaseTargetForNodeID env nodeID =
    (let nodeID = TrimSpace nodeID
     in if nodeID = [] then fail Record_Not_Found
        else (\<lambda>w. case firstActiveConfigReleaseTargetForNodeID env nodeID unfinished w of
            (Inr target, w) \<Rightarrow> andThen (GetConfigReleasePlanByID env (rt_PlanID target)) (\<lambda>plan. return (plan, target)) w
          | (Inl e, w) \<Rightarrow>
              if e \<noteq> Record_Not_Found then (Inl e, w)
              else andThen (listActiveConfigReleaseTargetsForNodeID env nodeID [''succeeded'']) (still_active env) w))"

definition CountActiveConfigReleasePlans :: "control_env \<Rightarrow> nat \<Rightarrow> nat on_control" where
  "CountActiveConfigReleasePlans env excludeID =
    query env (\<lambda>d. Inr (length (filter (\<lambda>p. plan_active p \<and> (excludeID \<noteq> 0 \<longrightarrow> rp_ID p \<noteq> excludeID)) (db_Plans d))))"

definition CountActiveConfigReleasePlansByPool :: "control_env \<Rightarrow> string \<Rightarrow> nat \<Rightarrow> nat on_control" where
  "CountActiveConfigReleasePlansByPool env poolName excludeID =
    (let poolName = TrimSpace poolName; poolName = (if poolName = [] then ''default'' else poolName)
     in query env (\<lambda>d. Inr (length (filter (\<lambda>p. plan_active p \<and> rp_CanaryPoolName p = poolName
          \<and> (excludeID \<noteq> 0 \<longrightarrow> rp_ID p \<noteq> excludeID)) (db_Plans d)))))"

definition blocks :: "gotime \<Rightarrow> ConfigReleaseBlockedChecksum \<Rightarrow> bool" where
  "blocks now b \<longleftrightarrow> rb_UnblockedAt b = None \<and> (case rb_ExpiresAt b of None \<Rightarrow> True | Some t \<Rightarrow> t > now)"

definition GetConfigReleaseBlockedChecksum :: "control_env \<Rightarrow> string \<Rightarrow> ConfigReleaseBlockedChecksum on_control" where
  "GetConfigReleaseBlockedChecksum env checksum =
    query env (\<lambda>d. first_row (SliceStable (\<lambda>a b. rb_ID b < rb_ID a)
      (filter (\<lambda>b. rb_Checksum b = TrimSpace checksum \<and> blocks (ce_Now env) b) (db_Blocked d))))"

definition GetConfigReleaseBlockedChecksumForPool :: "control_env \<Rightarrow> string \<Rightarrow> string \<Rightarrow> ConfigReleaseBlockedChecksum on_control" where
  "GetConfigReleaseBlockedChecksumForPool env poolName checksum =
    query env (\<lambda>d. first_row (filter (\<lambda>b. rb_PoolName b = TrimSpace poolName \<and> rb_Checksum b = TrimSpace checksum
      \<and> blocks (ce_Now env) b) (db_Blocked d)))"

definition GetConfigReleaseBlockedChecksumByID :: "control_env \<Rightarrow> nat \<Rightarrow> ConfigReleaseBlockedChecksum on_control" where
  "GetConfigReleaseBlockedChecksumByID env i = query env (\<lambda>d. first_row (filter (\<lambda>b. rb_ID b = i) (db_Blocked d)))"

definition ListConfigReleaseBlockedChecksums :: "control_env \<Rightarrow> bool \<Rightarrow> ConfigReleaseBlockedChecksum list on_control" where
  "ListConfigReleaseBlockedChecksums env includeUnblocked =
    query env (\<lambda>d. Inr (SliceStable (\<lambda>a b. rb_ID b < rb_ID a)
      (filter (\<lambda>b. includeUnblocked \<or> blocks (ce_Now env) b) (db_Blocked d))))"

section \<open>Versions, their artifacts and the active version of a pool\<close>

definition GetConfigVersionByID :: "control_env \<Rightarrow> nat \<Rightarrow> ConfigVersion on_control" where
  "GetConfigVersionByID env i = query env (\<lambda>d. first_row (filter (\<lambda>v. cv_ID v = i) (db_Versions d)))"

definition GetActiveConfigVersion :: "control_env \<Rightarrow> ConfigVersion on_control" where
  "GetActiveConfigVersion env = query env (\<lambda>d. first_row (SliceStable (\<lambda>a b. cv_ID b < cv_ID a) (filter cv_IsActive (db_Versions d))))"

definition ListConfigVersionArtifacts :: "control_env \<Rightarrow> nat \<Rightarrow> ConfigVersionArtifact list on_control" where
  "ListConfigVersionArtifacts env versionID =
    query env (\<lambda>d. Inr (sort_key ca_PoolName (filter (\<lambda>a. ca_ConfigVersionID a = versionID) (db_Artifacts d))))"

definition GetConfigVersionArtifact :: "control_env \<Rightarrow> nat \<Rightarrow> string \<Rightarrow> ConfigVersionArtifact on_control" where
  "GetConfigVersionArtifact env versionID poolName =
    query env (\<lambda>d. first_row (filter (\<lambda>a. ca_ConfigVersionID a = versionID \<and> ca_PoolName a = poolName) (db_Artifacts d)))"

definition GetActiveConfigVersionArtifactForPool :: "control_env \<Rightarrow> string \<Rightarrow> (ConfigVersion \<times> ConfigVersionArtifact) on_control" where
  "GetActiveConfigVersionArtifactForPool env poolName =
    andThen (query env (\<lambda>d. first_row (filter (\<lambda>a. pa_PoolName a = poolName) (db_PoolActives d)))) (\<lambda>active.
      (let broken = fail (Broken_Active (pa_PoolName active) (pa_ConfigVersionID active) (pa_ArtifactID active))
       in (\<lambda>w. case GetConfigVersionByID env (pa_ConfigVersionID active) w of
            (Inl _, w) \<Rightarrow> broken w
          | (Inr version, w) \<Rightarrow>
              (case query env (\<lambda>d. first_row (filter (\<lambda>a. ca_ID a = pa_ArtifactID active) (db_Artifacts d))) w of
                 (Inl _, w) \<Rightarrow> broken w
               | (Inr artifact, w) \<Rightarrow>
                   if ca_ConfigVersionID artifact \<noteq> pa_ConfigVersionID active \<or> ca_PoolName artifact \<noteq> pa_PoolName active then broken w
                   else (Inr (version, artifact), w)))))"

section \<open>Nodes\<close>

definition ListNodes :: "control_env \<Rightarrow> ControlNode list on_control" where
  "ListNodes env = query env (\<lambda>d. Inr (SliceStable (\<lambda>a b. cn_ID b < cn_ID a) (db_Nodes d)))"

definition normalizeNodeIDs :: "string list \<Rightarrow> string list" where
  "normalizeNodeIDs = unique_values (\<lambda>nodeID. let nodeID = TrimSpace nodeID in if nodeID = [] then None else Some nodeID)"

definition recent_first :: "ControlNode \<Rightarrow> ControlNode \<Rightarrow> bool" where
  "recent_first a b \<longleftrightarrow> cn_LastSeenAt b < cn_LastSeenAt a \<or> cn_LastSeenAt a = cn_LastSeenAt b \<and> cn_ID b < cn_ID a"

definition ListOnlineNodesByPool :: "control_env \<Rightarrow> string \<Rightarrow> gotime \<Rightarrow> string list \<Rightarrow> ControlNode list on_control" where
  "ListOnlineNodesByPool env poolName lastSeenAfter connectedNodeIDs =
    (let poolName = TrimSpace poolName; poolName = (if poolName = [] then ''default'' else poolName);
         connected = normalizeNodeIDs connectedNodeIDs
     in if lastSeenAfter = 0 \<and> connected = [] then return []
        else query env (\<lambda>d. Inr (SliceStable recent_first
          (filter (\<lambda>n. cn_PoolName n = poolName
             \<and> (lastSeenAfter \<noteq> 0 \<and> lastSeenAfter \<le> cn_LastSeenAt n \<or> cn_NodeID n \<in> set connected)) (db_Nodes d)))))"

definition ListNodesByNodeIDs :: "control_env \<Rightarrow> string list \<Rightarrow> ControlNode list on_control" where
  "ListNodesByNodeIDs env nodeIDs =
    (let nodeIDs = normalizeNodeIDs nodeIDs
     in if nodeIDs = [] then return []
        else query env (\<lambda>d. Inr (filter (\<lambda>n. cn_NodeID n \<in> set nodeIDs) (db_Nodes d))))"

end
