(* ===== verification/Release_Plan.thy ===== *)
theory Release_Plan
  imports Release_Db Go_Float
begin

text \<open>
  Staged releases of configurations (\<open>service/config_release_plan.go\<close>, with the parts of \<open>service/config_version.go\<close>,
  \<open>service/configversion\<close> and \<open>service/agent.go\<close> they use). A plan releases a version to one node of a pool, then to a share of the pool,
  then to all of it; nodes report what they apply; a failure rolls the nodes back and blocks the checksum for the pool.
\<close>

section \<open>Status values\<close>

definition ConfigReleaseStatusDraft :: string where "ConfigReleaseStatusDraft = ''draft''"
definition ConfigReleaseStatusRunning :: string where "ConfigReleaseStatusRunning = ''running''"
definition ConfigReleaseStatusObserving :: string where "ConfigReleaseStatusObserving = ''observing''"
definition ConfigReleaseStatusFailed :: string where "ConfigReleaseStatusFailed = ''failed''"
definition ConfigReleaseStatusCompleted :: string where "ConfigReleaseStatusCompleted = ''completed''"
definition ConfigReleaseStatusCanceled :: string where "ConfigReleaseStatusCanceled = ''canceled''"

definition ConfigReleaseTargetPending :: string where "ConfigReleaseTargetPending = ''pending''"
definition ConfigReleaseTargetApplying :: string where "ConfigReleaseTargetApplying = ''applying''"
definition ConfigReleaseTargetObserving :: string where "ConfigReleaseTargetObserving = ''observing''"
definition ConfigReleaseTargetSucceeded :: string where "ConfigReleaseTargetSucceeded = ''succeeded''"
definition ConfigReleaseTargetFailed :: string where "ConfigReleaseTargetFailed = ''failed''"
definition ConfigReleaseTargetRolledBack :: string where "ConfigReleaseTargetRolledBack = ''rolled_back''"

lemmas release_status = ConfigReleaseStatusDraft_def ConfigReleaseStatusRunning_def ConfigReleaseStatusObserving_def ConfigReleaseStatusFailed_def
  ConfigReleaseStatusCompleted_def ConfigReleaseStatusCanceled_def

lemmas target_status = ConfigReleaseTargetPending_def ConfigReleaseTargetApplying_def ConfigReleaseTargetObserving_def
  ConfigReleaseTargetSucceeded_def ConfigReleaseTargetFailed_def ConfigReleaseTargetRolledBack_def

record ConfigReleasePlanInput =
  in_ConfigVersionID :: "nat option"
  in_NodePool :: string
  in_CanaryPercent :: int
  in_ObserveSeconds :: int
  in_Force :: bool

type_synonym ConfigReleasePlanView = "ConfigReleasePlan \<times> ConfigReleaseTarget list"

record ConfigReleasePlanEvaluation =
  ev_Plan :: ConfigReleasePlan
  ev_Healthy :: bool
  ev_Reason :: string
  ev_TargetCount :: nat
  ev_SucceededTargets :: nat
  ev_FailedTargets :: nat

text \<open>\<open>normalizeNodePoolName\<close> of \<open>service/node.go\<close> is the function of the same name of the DNS worker; it never returns an empty
  name, so the fallbacks to the default pool after it add nothing.\<close>

definition normalizeConfigReleasePoolName :: "string \<Rightarrow> string" where
  "normalizeConfigReleasePoolName poolName =
    (let poolName = normalizeNodePoolName poolName
     in if poolName = [] then normalizeNodePoolName ''default'' else poolName)"

definition GetConfigReleasePlan :: "control_env \<Rightarrow> nat \<Rightarrow> ConfigReleasePlanView on_control" where
  "GetConfigReleasePlan env i =
    andThen (GetConfigReleasePlanByID env i) (\<lambda>plan.
    andThen (ListConfigReleaseTargets env (rp_ID plan)) (\<lambda>targets.
    return (plan, targets)))"

definition configReleasePlanActive :: "ConfigReleasePlan \<Rightarrow> bool" where
  "configReleasePlanActive plan \<longleftrightarrow> rp_Status plan = ConfigReleaseStatusRunning \<or> rp_Status plan = ConfigReleaseStatusObserving"

text \<open>A lookup whose missing row is no error.\<close>

definition unless_found :: "'a on_control \<Rightarrow> ('a \<Rightarrow> db_error) \<Rightarrow> unit on_control" where
  "unless_found m e w =
    (case m w of
       (Inl Record_Not_Found, w) \<Rightarrow> (Inr (), w)
     | (Inl f, w) \<Rightarrow> (Inl f, w)
     | (Inr x, w) \<Rightarrow> (Inl (e x), w))"

definition ensureConfigReleaseChecksumNotBlocked :: "control_env \<Rightarrow> string \<Rightarrow> unit on_control" where
  "ensureConfigReleaseChecksumNotBlocked env checksum =
    unless_found (GetConfigReleaseBlockedChecksum env checksum)
      (\<lambda>b. Refused (''config checksum '' @ checksum @ '' is blocked by failed release plan: '' @ TrimSpace (rb_Reason b)))"

definition ensureConfigReleaseChecksumNotBlockedForPool :: "control_env \<Rightarrow> string \<Rightarrow> string \<Rightarrow> unit on_control" where
  "ensureConfigReleaseChecksumNotBlockedForPool env poolName checksum =
    (let poolName = normalizeConfigReleasePoolName poolName
     in unless_found (GetConfigReleaseBlockedChecksumForPool env poolName checksum)
      (\<lambda>b. Refused (''config checksum '' @ checksum @ '' is blocked for node pool '' @ poolName @ '' by failed release plan: '' @ TrimSpace (rb_Reason b))))"

definition ensureNoActiveConfigReleasePlan :: "control_env \<Rightarrow> nat \<Rightarrow> unit on_control" where
  "ensureNoActiveConfigReleasePlan env excludeID =
    andThen (CountActiveConfigReleasePlans env excludeID) (\<lambda>n.
    if n > 0 then fail (Refused ''another config release plan is already in progress'') else return ())"

definition ensureNoActiveConfigReleasePlanForPool :: "control_env \<Rightarrow> string \<Rightarrow> nat \<Rightarrow> unit on_control" where
  "ensureNoActiveConfigReleasePlanForPool env poolName excludeID =
    (let poolName = normalizeConfigReleasePoolName poolName
     in andThen (CountActiveConfigReleasePlansByPool env poolName excludeID) (\<lambda>n.
        if n > 0 then fail (Refused (''node pool '' @ poolName @ '' already has a config release plan in progress'')) else return ()))"

definition UnblockConfigReleaseBlockedChecksum :: "control_env \<Rightarrow> nat \<Rightarrow> string \<Rightarrow> string \<Rightarrow> ConfigReleaseBlockedChecksum on_control" where
  "UnblockConfigReleaseBlockedChecksum env i operator reason =
    andThen (GetConfigReleaseBlockedChecksumByID env i) (\<lambda>blocked.
      (let reason = TrimSpace reason; operator = TrimSpace operator;
           operator = (if operator = [] then ''system'' else operator)
       in if reason = [] then fail (Refused ''unblock reason is required'')
          else
            andThen (transaction env
              (andThen (execute env (\<lambda>d. d\<lparr>db_Blocked := update_rows (\<lambda>b. rb_ID b = rb_ID blocked)
                 (\<lambda>b. b\<lparr>rb_UnblockedAt := Some (ce_Now env), rb_UnblockedBy := operator, rb_UnblockReason := reason\<rparr>) (db_Blocked d)\<rparr>)) (\<lambda>_.
               execute env (\<lambda>d. d\<lparr>db_Audits := db_Audits d @
                 [\<lparr>ra_ID = next_id (map ra_ID (db_Audits d)), ra_BlockedChecksumID = rb_ID blocked, ra_PoolName = rb_PoolName blocked,
                   ra_Checksum = rb_Checksum blocked, ra_Action = ''unblock'', ra_Operator = operator,
                   ra_OriginalReason = TrimSpace (rb_Reason blocked), ra_Reason = reason\<rparr>]\<rparr>)))) (\<lambda>_.
            GetConfigReleaseBlockedChecksumByID env i)))"

fun count_target :: "ConfigReleasePlanEvaluation \<Rightarrow> ConfigReleaseTarget \<Rightarrow> ConfigReleasePlanEvaluation" where
  "count_target e t =
    (if rt_Status t = ConfigReleaseTargetSucceeded then e\<lparr>ev_SucceededTargets := Suc (ev_SucceededTargets e)\<rparr>
     else if rt_Status t \<in> {ConfigReleaseTargetFailed, ConfigReleaseTargetRolledBack} then e\<lparr>ev_FailedTargets := Suc (ev_FailedTargets e)\<rparr>
     else e)"

definition new_evaluation :: "ConfigReleasePlan \<Rightarrow> ConfigReleaseTarget list \<Rightarrow> ConfigReleasePlanEvaluation" where
  "new_evaluation plan targets =
    \<lparr>ev_Plan = plan, ev_Healthy = True, ev_Reason = [], ev_TargetCount = length targets, ev_SucceededTargets = 0, ev_FailedTargets = 0\<rparr>"

definition summarizeConfigReleasePlan :: "ConfigReleasePlan \<Rightarrow> ConfigReleaseTarget list \<Rightarrow> ConfigReleasePlanEvaluation" where
  "summarizeConfigReleasePlan plan targets =
    (let e = foldl count_target (new_evaluation plan targets) targets
     in if rp_Status plan = ConfigReleaseStatusFailed
        then e\<lparr>ev_Healthy := False, ev_Reason := TrimSpace (rp_FailureReason plan)\<rparr> else e)"

section \<open>Versions\<close>

definition Format03d :: "nat \<Rightarrow> string" where
  "Format03d n = (let s = FormatUint n in replicate (3 - length s) CHR ''0'' @ s)"

fun sequence_of :: "string \<Rightarrow> string list \<Rightarrow> int \<Rightarrow> db_error + int" where
  "sequence_of prefix [] sequence = Inr sequence"
| "sequence_of prefix (v # vs) sequence =
    (case Atoi (TrimPrefix v (prefix @ ''-'')) of
       None \<Rightarrow> Inl (Refused (''invalid config version sequence '' @ v))
     | Some value \<Rightarrow> sequence_of prefix vs (max sequence value))"

definition NextVersionNumber :: "control_env \<Rightarrow> string on_control" where
  "NextVersionNumber env =
    (let prefix = ce_Today env
     in andThen (query env (\<lambda>d. Inr (filter (\<lambda>v. HasPrefix v (prefix @ ''-'')) (map cv_Version (db_Versions d))))) (\<lambda>versions.
        case sequence_of prefix versions 0 of
          Inl e \<Rightarrow> fail e
        | Inr sequence \<Rightarrow> return (prefix @ ''-'' @ Format03d (nat (sequence + 1)))))"

definition add_artifact :: "nat \<Rightarrow> ArtifactBundle \<Rightarrow> control_db \<Rightarrow> control_db" where
  "add_artifact versionID b d =
    d\<lparr>db_Artifacts := db_Artifacts d @
      [\<lparr>ca_ID = next_id (map ca_ID (db_Artifacts d)), ca_ConfigVersionID = versionID, ca_PoolName = ab_PoolName b, ca_Checksum = ab_Checksum b,
        ca_MainConfigChecksum = ab_MainConfigChecksum b, ca_RouteConfigChecksum = ab_RouteConfigChecksum b, ca_RenderedConfig = ab_RouteConfig b,
        ca_SupportFilesJSON = ab_SupportFilesJSON b, ca_RouteCount = ab_RouteCount b\<rparr>]\<rparr>"

definition has_artifact :: "nat \<Rightarrow> string \<Rightarrow> control_db \<Rightarrow> bool" where
  "has_artifact versionID pool d \<longleftrightarrow> list_ex (\<lambda>a. ca_ConfigVersionID a = versionID \<and> ca_PoolName a = pool) (db_Artifacts d)"

definition CreateArtifacts :: "control_env \<Rightarrow> nat \<Rightarrow> ArtifactBundle list \<Rightarrow> unit on_control" where
  "CreateArtifacts env versionID bundles =
    (if bundles = [] then return ()
     else statement env (\<lambda>d.
       if list_ex (\<lambda>b. has_artifact versionID (ab_PoolName b) d) bundles \<or> \<not> distinct (map ab_PoolName bundles) then (Inl unique_failure, d)
       else (Inr (), fold (add_artifact versionID) bundles d)))"

text \<open>Errors of the building of the bundle and of its comparison are passed on; an error that says unique is reported as a conflict of
  version numbers.\<close>

definition says_unique :: "db_error \<Rightarrow> bool" where
  "says_unique e = (case e of Db_Failure t \<Rightarrow> Contains (ToLower t) ''unique'' | _ \<Rightarrow> False)"

definition insert_version :: "control_env \<Rightarrow> string \<Rightarrow> string \<Rightarrow> configBundle \<Rightarrow> ConfigVersion on_control" where
  "insert_version env createdBy number b =
    andThen (statement env (\<lambda>d.
      if list_ex (\<lambda>v. cv_Version v = number) (db_Versions d) then (Inl unique_failure, d)
      else
        (let record = \<lparr>cv_ID = next_id (map cv_ID (db_Versions d)), cv_Version = number, cv_SnapshotJSON = cb_SnapshotJSON b, cv_MainConfig = cb_MainConfig b,
               cv_RenderedConfig = cb_RouteConfig b, cv_SupportFilesJSON = cb_SupportFilesJSON b, cv_Checksum = cb_Checksum b,
               cv_IsActive = False, cv_CreatedBy = createdBy\<rparr>
         in (Inr record, d\<lparr>db_Versions := db_Versions d @ [record]\<rparr>)))) (\<lambda>record.
    andThen (CreateArtifacts env (cv_ID record) (cb_Artifacts b)) (\<lambda>_. return record))"

definition CreateInactiveConfigVersion :: "control_env \<Rightarrow> string \<Rightarrow> bool \<Rightarrow> ConfigVersion on_control" where
  "CreateInactiveConfigVersion env createdBy force =
    andThen (query env (\<lambda>d. case ce_Bundle env d of Inl e \<Rightarrow> Inl (Refused e) | Inr b \<Rightarrow> Inr b)) (\<lambda>b.
    if cb_Routes b = 0 then fail No_Enabled_Routes
    else (case cb_Blocking b of
        Some e \<Rightarrow> fail (Refused e)
      | None \<Rightarrow>
          andThen (\<lambda>w. case GetActiveConfigVersion env w of
              (Inr activeVersion, w) \<Rightarrow>
                (case ce_Changed env activeVersion b of
                   Inl e \<Rightarrow> (Inl (Refused e), w)
                 | Inr changed \<Rightarrow> if \<not> force \<and> \<not> changed then (Inl Nothing_To_Publish, w) else (Inr (), w))
            | (Inl e, w) \<Rightarrow> if e = Record_Not_Found then (Inr (), w) else (Inl e, w)) (\<lambda>_.
          andThen (NextVersionNumber env) (\<lambda>number.
          orElse (transaction env (insert_version env createdBy number b))
            (\<lambda>e. fail (if says_unique e then Version_Conflict else e))))))"

definition releasePlanVersion :: "control_env \<Rightarrow> string \<Rightarrow> ConfigReleasePlanInput \<Rightarrow> ConfigVersion on_control" where
  "releasePlanVersion env createdBy input =
    (case in_ConfigVersionID input of
       Some i \<Rightarrow> if i \<noteq> 0 then GetConfigVersionByID env i else CreateInactiveConfigVersion env createdBy (in_Force input)
     | None \<Rightarrow> CreateInactiveConfigVersion env createdBy (in_Force input))"

definition compatibilityArtifactPools :: "control_env \<Rightarrow> string list \<Rightarrow> string list on_control" where
  "compatibilityArtifactPools env requestedPools =
    andThen (ListNodes env) (\<lambda>nodes.
    return (sort (filter (\<lambda>p. p \<noteq> [])
      (remdups (normalizeNodePoolName ''default'' # map normalizeNodePoolName requestedPools @ map (normalizeNodePoolName \<circ> cn_PoolName) nodes)))))"

definition add_missing_artifact :: "control_env \<Rightarrow> ConfigVersion \<Rightarrow> string \<Rightarrow> string \<Rightarrow> unit on_control" where
  "add_missing_artifact env version supportFilesJSON pool =
    execute env (\<lambda>d. if has_artifact (cv_ID version) pool d then d
      else add_artifact (cv_ID version)
        \<lparr>ab_PoolName = pool, ab_Checksum = cv_Checksum version, ab_MainConfigChecksum = ce_sha256 env (cv_MainConfig version),
         ab_RouteConfigChecksum = ce_sha256 env (cv_RenderedConfig version), ab_RouteConfig = cv_RenderedConfig version,
         ab_SupportFilesJSON = supportFilesJSON, ab_RouteCount = ce_RouteCount env (cv_SnapshotJSON version)\<rparr> d)"

definition ensureConfigVersionArtifactsForPools :: "control_env \<Rightarrow> ConfigVersion \<Rightarrow> string list \<Rightarrow> unit on_control" where
  "ensureConfigVersionArtifactsForPools env version requestedPools =
    andThen (ListConfigVersionArtifacts env (cv_ID version)) (\<lambda>existing.
    andThen (compatibilityArtifactPools env requestedPools) (\<lambda>pools.
      (let missing = filter (\<lambda>p. p \<notin> set (map (normalizeNodePoolName \<circ> ca_PoolName) existing)) pools
       in if missing = [] then return ()
          else (case ce_SupportFiles env (if TrimSpace (cv_SupportFilesJSON version) = [] then [] else cv_SupportFilesJSON version) of
              Inl e \<Rightarrow> fail (Refused e)
            | Inr supportFilesJSON \<Rightarrow> transaction env (for_each (add_missing_artifact env version supportFilesJSON) missing)))))"

definition upsertConfigPoolActiveVersionTx :: "control_env \<Rightarrow> nat \<Rightarrow> ConfigVersionArtifact \<Rightarrow> nat option \<Rightarrow> unit on_control" where
  "upsertConfigPoolActiveVersionTx env versionID artifact planID =
    (let pool = normalizeConfigReleasePoolName (ca_PoolName artifact)
     in execute env (\<lambda>d.
          if list_ex (\<lambda>a. pa_PoolName a = pool) (db_PoolActives d) then
            d\<lparr>db_PoolActives := update_rows (\<lambda>a. pa_PoolName a = pool)
              (\<lambda>a. a\<lparr>pa_ConfigVersionID := versionID, pa_ArtifactID := ca_ID artifact, pa_Checksum := ca_Checksum artifact,
                 pa_ActivatedByPlanID := planID, pa_ActivatedAt := ce_Now env\<rparr>) (db_PoolActives d)\<rparr>
          else
            d\<lparr>db_PoolActives := db_PoolActives d @
              [\<lparr>pa_ID = next_id (map pa_ID (db_PoolActives d)), pa_PoolName = pool, pa_ConfigVersionID = versionID, pa_ArtifactID = ca_ID artifact,
                pa_Checksum = ca_Checksum artifact, pa_ActivatedByPlanID = planID, pa_ActivatedAt = ce_Now env\<rparr>]\<rparr>))"

definition ActivateConfigVersionForPool :: "control_env \<Rightarrow> nat \<Rightarrow> string \<Rightarrow> nat option \<Rightarrow> (ConfigVersion \<times> ConfigVersionArtifact) on_control" where
  "ActivateConfigVersionForPool env versionID poolName planID =
    (let poolName = normalizeConfigReleasePoolName poolName
     in andThen (GetConfigVersionByID env versionID) (\<lambda>version.
        andThen (ensureConfigVersionArtifactsForPools env version [poolName]) (\<lambda>_.
        andThen (GetConfigVersionArtifact env (cv_ID version) poolName) (\<lambda>artifact.
        andThen (transaction env (upsertConfigPoolActiveVersionTx env (cv_ID version) artifact planID)) (\<lambda>_.
        return (version, artifact))))))"

definition activeVersionForReleasePlanRollback :: "control_env \<Rightarrow> string \<Rightarrow> ConfigVersion on_control" where
  "activeVersionForReleasePlanRollback env poolName w =
    (case GetActiveConfigVersionArtifactForPool env (normalizeConfigReleasePoolName poolName) w of
       (Inr (version, _), w) \<Rightarrow> (Inr version, w)
     | (Inl e, w) \<Rightarrow> if e \<noteq> Record_Not_Found then (Inl e, w) else GetActiveConfigVersion env w)"

section \<open>Nodes of a pool\<close>

definition computeNodeStatus :: "control_env \<Rightarrow> ControlNode \<Rightarrow> string" where
  "computeNodeStatus env node =
    (if cn_NodeID node \<in> set (ce_Connected env) then ''online''
     else if cn_LastSeenAt node = 0 then ''pending''
     else if TimeSub (ce_Now env) (cn_LastSeenAt node) > ce_Threshold env then ''offline''
     else ''online'')"

text \<open>The query returns the rows in the order the sort asks for, and \<open>sort.Slice\<close> does not move the rows of a sorted slice.\<close>

definition selectReleasePlanNodes :: "control_env \<Rightarrow> string \<Rightarrow> nat \<Rightarrow> ControlNode list on_control" where
  "selectReleasePlanNodes env poolName limit =
    (let poolName = normalizeConfigReleasePoolName poolName
     in andThen (ListOnlineNodesByPool env poolName (ce_Now env - ce_Threshold env) (ce_Connected env)) (\<lambda>nodes.
          (let selected = SliceStable (\<lambda>a b. cn_LastSeenAt b < cn_LastSeenAt a)
                 (filter (\<lambda>n. normalizeNodePoolName (cn_PoolName n) = poolName \<and> computeNodeStatus env n = ''online'') nodes)
           in return (if limit > 0 \<and> length selected > limit then take limit selected else selected))))"

definition configReleaseTargetNodeIDs :: "ConfigReleaseTarget list \<Rightarrow> string list" where
  "configReleaseTargetNodeIDs targets = sort (unique_values (\<lambda>t. let i = TrimSpace (rt_NodeID t) in if i = [] then None else Some i) targets)"

section \<open>Creating and starting a plan\<close>

definition insert_plan :: "control_env \<Rightarrow> ConfigReleasePlan \<Rightarrow> nat on_control" where
  "insert_plan env plan =
    statement env (\<lambda>d. let i = next_id (map rp_ID (db_Plans d)) in (Inr i, d\<lparr>db_Plans := db_Plans d @ [plan\<lparr>rp_ID := i\<rparr>]\<rparr>))"

definition insert_target :: "control_env \<Rightarrow> ConfigReleaseTarget \<Rightarrow> unit on_control" where
  "insert_target env t =
    statement env (\<lambda>d.
      if list_ex (\<lambda>u. rt_PlanID u = rt_PlanID t \<and> rt_NodeID u = rt_NodeID t) (db_Targets d) then (Inl unique_failure, d)
      else (Inr (), d\<lparr>db_Targets := db_Targets d @ [t\<lparr>rt_ID := next_id (map rt_ID (db_Targets d))\<rparr>]\<rparr>))"

definition update_plan :: "control_env \<Rightarrow> nat \<Rightarrow> (ConfigReleasePlan \<Rightarrow> ConfigReleasePlan) \<Rightarrow> unit on_control" where
  "update_plan env i f = execute env (\<lambda>d. d\<lparr>db_Plans := update_rows (\<lambda>p. rp_ID p = i) f (db_Plans d)\<rparr>)"

definition update_targets :: "control_env \<Rightarrow> (ConfigReleaseTarget \<Rightarrow> bool) \<Rightarrow> (ConfigReleaseTarget \<Rightarrow> ConfigReleaseTarget) \<Rightarrow> unit on_control" where
  "update_targets env P f = execute env (\<lambda>d. d\<lparr>db_Targets := update_rows P f (db_Targets d)\<rparr>)"

definition new_target :: "nat \<Rightarrow> ConfigVersion \<Rightarrow> ControlNode \<Rightarrow> string \<Rightarrow> string \<Rightarrow> int \<Rightarrow> string \<Rightarrow> gotime option \<Rightarrow> ConfigReleaseTarget" where
  "new_target planID version node pool checksum stage status started =
    \<lparr>rt_ID = 0, rt_PlanID = planID, rt_ConfigVersionID = cv_ID version, rt_NodeID = cn_NodeID node, rt_PoolName = pool, rt_Checksum = checksum,
     rt_StageIndex = stage, rt_Status = status, rt_FailureReason = [], rt_StartedAt = started, rt_CompletedAt = None\<rparr>"

definition nothing_to_release :: "control_env \<Rightarrow> string \<Rightarrow> string \<Rightarrow> bool \<Rightarrow> unit on_control" where
  "nothing_to_release env nodePool checksum force w =
    (case GetActiveConfigVersionArtifactForPool env nodePool w of
       (Inr (activeVersion, activeArtifact), w) \<Rightarrow>
         if cv_ID activeVersion \<noteq> 0 \<and> ca_Checksum activeArtifact = checksum \<and> \<not> force
         then (Inl (Refused (''node pool '' @ nodePool @ '' has no config changes to release'')), w) else (Inr (), w)
     | (Inl e, w) \<Rightarrow> if e = Record_Not_Found then (Inr (), w) else (Inl e, w))"

definition rollback_version :: "control_env \<Rightarrow> string \<Rightarrow> nat \<Rightarrow> nat option on_control" where
  "rollback_version env nodePool versionID w =
    (case activeVersionForReleasePlanRollback env nodePool w of
       (Inr activeVersion, w) \<Rightarrow> (Inr (if cv_ID activeVersion \<noteq> versionID then Some (cv_ID activeVersion) else None), w)
     | (Inl e, w) \<Rightarrow> if e = Record_Not_Found then (Inr None, w) else (Inl e, w))"

definition store_plan :: "control_env \<Rightarrow> ConfigReleasePlan \<Rightarrow> (nat \<Rightarrow> ConfigReleaseTarget list) \<Rightarrow> nat on_control" where
  "store_plan env plan targets =
    transaction env (andThen (insert_plan env plan) (\<lambda>i. andThen (for_each (insert_target env) (targets i)) (\<lambda>_. return i)))"

definition CreateConfigReleasePlan :: "control_env \<Rightarrow> string \<Rightarrow> ConfigReleasePlanInput \<Rightarrow> ConfigReleasePlanView on_control" where
  "CreateConfigReleasePlan env createdBy input =
    (let nodePool = normalizeConfigReleasePoolName (in_NodePool input);
         observeSeconds = (if in_ObserveSeconds input \<le> 0 then 120 else in_ObserveSeconds input);
         canaryPercent = (if in_CanaryPercent input \<le> 0 then 20 else in_CanaryPercent input);
         canaryPercent = (if canaryPercent > 100 then 100 else canaryPercent)
     in andThen (ensureNoActiveConfigReleasePlanForPool env nodePool 0) (\<lambda>_.
        andThen (releasePlanVersion env createdBy input) (\<lambda>version.
        andThen (ensureConfigReleaseChecksumNotBlockedForPool env nodePool (cv_Checksum version)) (\<lambda>_.
        andThen (ensureConfigVersionArtifactsForPools env version [nodePool]) (\<lambda>_.
        andThen (GetConfigVersionArtifact env (cv_ID version) nodePool) (\<lambda>artifact.
        andThen (if ca_Checksum artifact \<noteq> cv_Checksum version
                 then ensureConfigReleaseChecksumNotBlockedForPool env nodePool (ca_Checksum artifact) else return ()) (\<lambda>_.
        andThen (nothing_to_release env nodePool (ca_Checksum artifact) (in_Force input)) (\<lambda>_.
        andThen (rollback_version env nodePool (cv_ID version)) (\<lambda>rollbackVersionID.
        andThen (selectReleasePlanNodes env nodePool 1) (\<lambda>targetNodes.
        if targetNodes = [] then fail (Refused (''node pool '' @ nodePool @ '' has no available nodes for canary release''))
        else
          andThen (store_plan env
            \<lparr>rp_ID = 0, rp_ConfigVersionID = cv_ID version, rp_RollbackVersionID = rollbackVersionID, rp_Status = ConfigReleaseStatusDraft,
             rp_Strategy = ''canary'', rp_CanaryPoolName = nodePool, rp_CurrentStage = 0, rp_CanaryPercent = canaryPercent,
             rp_ObserveSeconds = observeSeconds, rp_Checksum = ca_Checksum artifact, rp_FailureReason = [], rp_CreatedBy = TrimSpace createdBy,
             rp_StartedAt = None, rp_CompletedAt = None, rp_FailedAt = None\<rparr>
            (\<lambda>i. map (\<lambda>node. new_target i version node nodePool (ca_Checksum artifact) 1 ConfigReleaseTargetPending None) targetNodes))
            (GetConfigReleasePlan env)))))))))))"

definition sendConfigReleaseForceSyncNotifications :: "(string \<times> string \<times> string) list \<Rightarrow> unit on_control" where
  "sendConfigReleaseForceSyncNotifications notifications =
    for_each (\<lambda>(node, version, checksum). if TrimSpace node = [] then return () else send (Force_Sync node version checksum)) notifications"

definition start_targets :: "control_env \<Rightarrow> ConfigReleaseTarget list \<Rightarrow> ConfigReleaseTarget list" where
  "start_targets env targets = filter (\<lambda>t. rt_StageIndex t = 1 \<and> rt_Status t = ConfigReleaseTargetPending) targets"

definition StartConfigReleasePlan :: "control_env \<Rightarrow> nat \<Rightarrow> ConfigReleasePlanView on_control" where
  "StartConfigReleasePlan env i =
    andThen (GetConfigReleasePlanByID env i) (\<lambda>plan.
    if configReleasePlanActive plan then GetConfigReleasePlan env i
    else if rp_Status plan \<noteq> ConfigReleaseStatusDraft
    then fail (Refused (''release plan '' @ FormatUint i @ '' cannot be started from status '' @ rp_Status plan))
    else
      andThen (ensureNoActiveConfigReleasePlanForPool env (rp_CanaryPoolName plan) (rp_ID plan)) (\<lambda>_.
      andThen (GetConfigVersionByID env (rp_ConfigVersionID plan)) (\<lambda>version.
      andThen (ListConfigReleaseTargets env (rp_ID plan)) (\<lambda>targets.
      andThen (transaction env
        (andThen (update_plan env (rp_ID plan)
           (\<lambda>p. p\<lparr>rp_Status := ConfigReleaseStatusRunning, rp_CurrentStage := 1, rp_StartedAt := Some (ce_Now env)\<rparr>)) (\<lambda>_.
         for_each (\<lambda>t. update_targets env (\<lambda>u. rt_ID u = rt_ID t)
           (\<lambda>u. u\<lparr>rt_Status := ConfigReleaseTargetApplying, rt_StartedAt := Some (ce_Now env)\<rparr>)) (start_targets env targets)))) (\<lambda>_.
      andThen (sendConfigReleaseForceSyncNotifications
        (map (\<lambda>t. (rt_NodeID t, cv_Version version, rt_Checksum t)) (start_targets env targets))) (\<lambda>_.
      GetConfigReleasePlan env i))))))"

section \<open>Failing a plan\<close>

definition markConfigReleaseTargetFailed :: "control_env \<Rightarrow> ConfigReleaseTarget \<Rightarrow> string \<Rightarrow> unit on_control" where
  "markConfigReleaseTargetFailed env target reason =
    update_targets env (\<lambda>u. rt_ID u = rt_ID target)
      (\<lambda>u. u\<lparr>rt_Status := ConfigReleaseTargetFailed, rt_FailureReason := reason, rt_CompletedAt := Some (ce_Now env)\<rparr>)"

definition rollbackConfigMetaForReleaseTarget :: "control_env \<Rightarrow> ConfigReleasePlan \<Rightarrow> ConfigReleaseTarget \<Rightarrow> (string \<times> string) on_control" where
  "rollbackConfigMetaForReleaseTarget env plan target =
    andThen (case rp_RollbackVersionID plan of
        Some i \<Rightarrow> if i \<noteq> 0 then GetConfigVersionByID env i else activeVersionForReleasePlanRollback env (rt_PoolName target)
      | None \<Rightarrow> activeVersionForReleasePlanRollback env (rt_PoolName target)) (\<lambda>version.
      (let poolName = normalizeConfigReleasePoolName (rt_PoolName target)
       in andThen (\<lambda>w. case GetConfigVersionArtifact env (cv_ID version) poolName w of
            (Inl Record_Not_Found, w) \<Rightarrow>
              andThen (ensureConfigVersionArtifactsForPools env version [poolName]) (\<lambda>_. GetConfigVersionArtifact env (cv_ID version) poolName) w
          | (r, w) \<Rightarrow> (r, w)) (\<lambda>artifact.
          return (cv_Version version, ca_Checksum artifact))))"

fun roll_back_each :: "control_env \<Rightarrow> ConfigReleasePlan \<Rightarrow> (string, (string \<times> string) option) gomap \<Rightarrow> ConfigReleaseTarget list \<Rightarrow> control \<Rightarrow> control" where
  "roll_back_each env plan metaByPool [] w = w"
| "roll_back_each env plan metaByPool (t # ts) w =
    (if TrimSpace (rt_NodeID t) = [] then roll_back_each env plan metaByPool ts w
     else
       (let poolName = normalizeConfigReleasePoolName (rt_PoolName t);
            (meta, w) = (case map_of metaByPool poolName of
                Some meta \<Rightarrow> (meta, w)
              | None \<Rightarrow> (case rollbackConfigMetaForReleaseTarget env plan t w of (Inl _, w) \<Rightarrow> (None, w) | (Inr meta, w) \<Rightarrow> (Some meta, w)));
            w = (case meta of None \<Rightarrow> w | Some (version, checksum) \<Rightarrow> ignoring (send (Force_Sync (rt_NodeID t) version checksum)) w)
        in roll_back_each env plan (AList.update poolName meta metaByPool) ts w))"

definition forceSyncConfigReleaseRollbackTargets :: "control_env \<Rightarrow> ConfigReleasePlan \<Rightarrow> ConfigReleaseTarget list \<Rightarrow> unit on_control" where
  "forceSyncConfigReleaseRollbackTargets env plan targets w = (Inr (), roll_back_each env plan [] targets w)"

definition block_checksum :: "control_env \<Rightarrow> ConfigReleasePlan \<Rightarrow> ConfigVersion \<Rightarrow> string \<Rightarrow> unit on_control" where
  "block_checksum env plan version reason =
    (let pool = normalizeConfigReleasePoolName (rp_CanaryPoolName plan)
     in execute env (\<lambda>d.
          if list_ex (\<lambda>b. rb_PoolName b = pool \<and> rb_Checksum b = rp_Checksum plan) (db_Blocked d) then
            d\<lparr>db_Blocked := update_rows (\<lambda>b. rb_PoolName b = pool \<and> rb_Checksum b = rp_Checksum plan)
              (\<lambda>b. b\<lparr>rb_ConfigVersionID := cv_ID version, rb_PlanID := Some (rp_ID plan), rb_Version := cv_Version version, rb_Reason := reason,
                 rb_ExpiresAt := None, rb_UnblockedAt := None, rb_UnblockedBy := [], rb_UnblockReason := []\<rparr>) (db_Blocked d)\<rparr>
          else
            d\<lparr>db_Blocked := db_Blocked d @
              [\<lparr>rb_ID = next_id (map rb_ID (db_Blocked d)), rb_PoolName = pool, rb_ConfigVersionID = cv_ID version, rb_PlanID = Some (rp_ID plan),
                rb_Version = cv_Version version, rb_Checksum = rp_Checksum plan, rb_Reason = reason, rb_ExpiresAt = None, rb_UnblockedAt = None,
                rb_UnblockedBy = [], rb_UnblockReason = []\<rparr>]\<rparr>))"

definition fail_transaction :: "control_env \<Rightarrow> ConfigReleasePlan \<Rightarrow> ConfigVersion \<Rightarrow> string \<Rightarrow> unit on_control" where
  "fail_transaction env plan version reason =
    transaction env
      (andThen (update_plan env (rp_ID plan)
         (\<lambda>p. p\<lparr>rp_Status := ConfigReleaseStatusFailed, rp_FailureReason := reason, rp_FailedAt := Some (ce_Now env)\<rparr>)) (\<lambda>_.
       andThen (update_targets env (\<lambda>t. rt_PlanID t = rp_ID plan \<and> rt_Status t \<in>
           {ConfigReleaseTargetPending, ConfigReleaseTargetApplying, ConfigReleaseTargetObserving, ConfigReleaseTargetSucceeded})
         (\<lambda>t. t\<lparr>rt_Status := ConfigReleaseTargetRolledBack, rt_FailureReason := reason, rt_CompletedAt := Some (ce_Now env)\<rparr>)) (\<lambda>_.
       block_checksum env plan version reason)))"

definition cannot_fail :: "nat \<Rightarrow> string \<Rightarrow> string" where
  "cannot_fail i status =
    (if status = ConfigReleaseStatusCompleted then ''release plan '' @ FormatUint i @ '' is already completed''
     else if status = ConfigReleaseStatusDraft then ''draft release plan should be canceled, not failed''
     else if status = ConfigReleaseStatusCanceled then ''release plan '' @ FormatUint i @ '' is already canceled''
     else ''release plan '' @ FormatUint i @ '' cannot fail from status '' @ status)"

definition FailConfigReleasePlan :: "control_env \<Rightarrow> nat \<Rightarrow> string \<Rightarrow> unit on_control" where
  "FailConfigReleasePlan env i reason =
    andThen (GetConfigReleasePlanByID env i) (\<lambda>plan.
    if rp_Status plan = ConfigReleaseStatusFailed then return ()
    else if \<not> configReleasePlanActive plan then fail (Refused (cannot_fail i (rp_Status plan)))
    else
      andThen (ListConfigReleaseTargets env (rp_ID plan)) (\<lambda>targets.
      andThen (GetConfigVersionByID env (rp_ConfigVersionID plan)) (\<lambda>version.
        (let reason = TrimSpace reason; reason = (if reason = [] then ''release plan failed'' else reason)
         in andThen (fail_transaction env plan version reason) (\<lambda>_.
            forceSyncConfigReleaseRollbackTargets env plan targets)))))"

definition CancelConfigReleasePlan :: "control_env \<Rightarrow> nat \<Rightarrow> ConfigReleasePlanView on_control" where
  "CancelConfigReleasePlan env i =
    andThen (GetConfigReleasePlanByID env i) (\<lambda>plan.
    if rp_Status plan = ConfigReleaseStatusCanceled then GetConfigReleasePlan env i
    else if rp_Status plan \<noteq> ConfigReleaseStatusDraft
    then fail (Refused (''release plan '' @ FormatUint i @ '' cannot be canceled from status '' @ rp_Status plan))
    else
      andThen (transaction env
        (andThen (update_plan env (rp_ID plan) (\<lambda>p. p\<lparr>rp_Status := ConfigReleaseStatusCanceled, rp_CompletedAt := Some (ce_Now env)\<rparr>)) (\<lambda>_.
         update_targets env (\<lambda>t. rt_PlanID t = rp_ID plan \<and> rt_Status t = ConfigReleaseTargetPending)
           (\<lambda>t. t\<lparr>rt_Status := ConfigReleaseTargetRolledBack, rt_CompletedAt := Some (ce_Now env)\<rparr>)))) (\<lambda>_.
      GetConfigReleasePlan env i))"

section \<open>Evaluating a plan\<close>

definition failing :: "control_env \<Rightarrow> ConfigReleaseTarget \<Rightarrow> string \<Rightarrow> ConfigReleasePlanEvaluation \<times> control \<Rightarrow> ConfigReleasePlanEvaluation \<times> control" where
  "failing env target reason ew =
    (case ew of (e, w) \<Rightarrow>
      (e\<lparr>ev_Healthy := False, ev_FailedTargets := Suc (ev_FailedTargets e), ev_Reason := reason\<rparr>,
       ignoring (markConfigReleaseTargetFailed env target reason) w))"

definition mark_succeeded :: "control_env \<Rightarrow> ConfigReleaseTarget \<Rightarrow> unit on_control" where
  "mark_succeeded env target =
    update_targets env (\<lambda>u. rt_ID u = rt_ID target) (\<lambda>u. u\<lparr>rt_Status := ConfigReleaseTargetSucceeded, rt_CompletedAt := Some (ce_Now env)\<rparr>)"

definition timed_out :: "control_env \<Rightarrow> ConfigReleasePlan \<Rightarrow> ConfigReleaseTarget \<Rightarrow> bool" where
  "timed_out env plan target \<longleftrightarrow>
    (case rt_StartedAt target of None \<Rightarrow> False | Some t \<Rightarrow> TimeSub (ce_Now env) t > seconds (rp_ObserveSeconds plan))"

definition did_not :: "string \<Rightarrow> ConfigReleasePlan \<Rightarrow> ConfigReleaseTarget \<Rightarrow> string" where
  "did_not verb plan target =
    ''node '' @ rt_NodeID target @ '' did not '' @ verb @ '' checksum '' @ rt_Checksum target @ '' within '' @ FormatInt (rp_ObserveSeconds plan) @ ''s''"

definition evaluate_target ::
  "control_env \<Rightarrow> ConfigReleasePlan \<Rightarrow> ControlNode list \<Rightarrow> ConfigReleasePlanEvaluation \<times> control \<Rightarrow> ConfigReleaseTarget \<Rightarrow> ConfigReleasePlanEvaluation \<times> control" where
  "evaluate_target env plan nodes ew target =
    (case ew of (e, w) \<Rightarrow>
     if rt_Status target = ConfigReleaseTargetSucceeded then (e\<lparr>ev_SucceededTargets := Suc (ev_SucceededTargets e)\<rparr>, w)
     else if rt_Status target \<in> {ConfigReleaseTargetFailed, ConfigReleaseTargetRolledBack} then
       (e\<lparr>ev_Healthy := False, ev_FailedTargets := Suc (ev_FailedTargets e),
          ev_Reason := (if ev_Reason e = [] then TrimSpace (rt_FailureReason target) else ev_Reason e)\<rparr>, w)
     else (case find (\<lambda>n. TrimSpace (cn_NodeID n) = TrimSpace (rt_NodeID target)) (rev nodes) of
         None \<Rightarrow> failing env target (''node '' @ rt_NodeID target @ '' is missing'') ew
       | Some node \<Rightarrow>
           if computeNodeStatus env node \<noteq> ''online'' then failing env target (''node '' @ rt_NodeID target @ '' is offline'') ew
           else if TrimSpace (cn_CurrentChecksum node) = TrimSpace (rt_Checksum target) then
             (e\<lparr>ev_SucceededTargets := Suc (ev_SucceededTargets e)\<rparr>, ignoring (mark_succeeded env target) w)
           else if timed_out env plan target then failing env target (did_not ''apply'' plan target) ew
           else if rt_Status target = ConfigReleaseTargetApplying
           then (e\<lparr>ev_Healthy := False, ev_Reason := ''release target is still applying''\<rparr>, w)
           else (e, w)))"

definition zero_ConfigReleasePlan :: ConfigReleasePlan where
  "zero_ConfigReleasePlan =
    \<lparr>rp_ID = 0, rp_ConfigVersionID = 0, rp_RollbackVersionID = None, rp_Status = [], rp_Strategy = [], rp_CanaryPoolName = [], rp_CurrentStage = 0,
     rp_CanaryPercent = 0, rp_ObserveSeconds = 0, rp_Checksum = [], rp_FailureReason = [], rp_CreatedBy = [], rp_StartedAt = None,
     rp_CompletedAt = None, rp_FailedAt = None\<rparr>"

definition conclude_evaluation :: "control_env \<Rightarrow> ConfigReleasePlan \<Rightarrow> ConfigReleasePlanEvaluation \<Rightarrow> ConfigReleasePlanEvaluation on_control" where
  "conclude_evaluation env plan e =
    (if ev_FailedTargets e > 0 then
       andThen (FailConfigReleasePlan env (rp_ID plan) (ev_Reason e)) (\<lambda>_.
       (\<lambda>w. case GetConfigReleasePlanByID env (rp_ID plan) w of
          (r, w) \<Rightarrow> (Inr (e\<lparr>ev_Plan := (case r of Inl _ \<Rightarrow> zero_ConfigReleasePlan | Inr p \<Rightarrow> p), ev_Healthy := False\<rparr>), w)))
     else return e)"

definition EvaluateConfigReleasePlan :: "control_env \<Rightarrow> nat \<Rightarrow> ConfigReleasePlanEvaluation on_control" where
  "EvaluateConfigReleasePlan env i =
    andThen (GetConfigReleasePlanByID env i) (\<lambda>plan.
    andThen (ListConfigReleaseTargets env (rp_ID plan)) (\<lambda>targets.
    if \<not> configReleasePlanActive plan then return (summarizeConfigReleasePlan plan targets)
    else
      andThen (ListNodesByNodeIDs env (configReleaseTargetNodeIDs targets)) (\<lambda>nodes.
      (\<lambda>w. case foldl (evaluate_target env plan nodes) (new_evaluation plan targets, w) targets of
         (e, w) \<Rightarrow> conclude_evaluation env plan e w))))"

section \<open>Widening and completing a plan\<close>

definition completeConfigReleasePlan :: "control_env \<Rightarrow> ConfigReleasePlan \<Rightarrow> ConfigReleasePlanView on_control" where
  "completeConfigReleasePlan env plan =
    andThen (ActivateConfigVersionForPool env (rp_ConfigVersionID plan) (rp_CanaryPoolName plan) (Some (rp_ID plan))) (\<lambda>(version, artifact).
    andThen (update_plan env (rp_ID plan) (\<lambda>p. p\<lparr>rp_Status := ConfigReleaseStatusCompleted, rp_CurrentStage := 3,
      rp_CompletedAt := Some (ce_Now env), rp_Checksum := ca_Checksum artifact\<rparr>)) (\<lambda>_.
    andThen (send (Pool_Broadcast (cv_ID version) (ca_PoolName artifact))) (\<lambda>_.
    GetConfigReleasePlan env (rp_ID plan))))"

definition desired_targets :: "nat \<Rightarrow> int \<Rightarrow> int" where
  "desired_targets n percent = max 1 \<lceil>fdiv (fmul (fint (int n)) (fint percent)) 100\<rceil>"

fun pick_nodes :: "string list \<Rightarrow> int \<Rightarrow> int \<Rightarrow> ControlNode list \<Rightarrow> ControlNode list" where
  "pick_nodes existing placed desired [] = []"
| "pick_nodes existing placed desired (node # nodes) =
    (if cn_NodeID node \<in> set existing then pick_nodes existing placed desired nodes
     else node # (if placed + 1 \<ge> desired then [] else pick_nodes existing (placed + 1) desired nodes))"

definition expandConfigReleasePlan :: "control_env \<Rightarrow> ConfigReleasePlan \<Rightarrow> int \<Rightarrow> ConfigReleasePlanView on_control" where
  "expandConfigReleasePlan env plan percent =
    andThen (GetConfigVersionByID env (rp_ConfigVersionID plan)) (\<lambda>version.
    andThen (selectReleasePlanNodes env (rp_CanaryPoolName plan) 0) (\<lambda>nodes.
    if nodes = [] then fail (Refused (''node pool '' @ rp_CanaryPoolName plan @ '' has no online nodes''))
    else
      andThen (ListConfigReleaseTargets env (rp_ID plan)) (\<lambda>existingTargets.
      andThen (GetConfigVersionArtifact env (cv_ID version) (rp_CanaryPoolName plan)) (\<lambda>artifact.
        (let existing = remdups (map rt_NodeID existingTargets);
             newTargets = map (\<lambda>node. new_target (rp_ID plan) version node (rp_CanaryPoolName plan) (ca_Checksum artifact) 2
                 ConfigReleaseTargetApplying (Some (ce_Now env)))
               (pick_nodes existing (int (length existing)) (desired_targets (length nodes) percent) nodes)
         in if newTargets = [] then completeConfigReleasePlan env plan
            else
              andThen (transaction env
                (andThen (update_plan env (rp_ID plan) (\<lambda>p. p\<lparr>rp_Status := ConfigReleaseStatusRunning, rp_CurrentStage := 2\<rparr>)) (\<lambda>_.
                 for_each (insert_target env) newTargets))) (\<lambda>_.
              andThen (sendConfigReleaseForceSyncNotifications (map (\<lambda>t. (rt_NodeID t, cv_Version version, rt_Checksum t)) newTargets)) (\<lambda>_.
              GetConfigReleasePlan env (rp_ID plan))))))))"

definition healthy_enough :: "ConfigReleasePlanEvaluation \<Rightarrow> bool" where
  "healthy_enough e \<longleftrightarrow> \<not> (\<not> ev_Healthy e \<or> ev_SucceededTargets e < ev_TargetCount e)"

definition AdvanceConfigReleasePlan :: "control_env \<Rightarrow> nat \<Rightarrow> ConfigReleasePlanView on_control" where
  "AdvanceConfigReleasePlan env i =
    andThen (GetConfigReleasePlanByID env i) (\<lambda>plan.
    if rp_Status plan = ConfigReleaseStatusDraft then StartConfigReleasePlan env i
    else if \<not> configReleasePlanActive plan
    then fail (Refused (''release plan '' @ FormatUint i @ '' cannot be advanced from status '' @ rp_Status plan))
    else
      andThen (EvaluateConfigReleasePlan env i) (\<lambda>e.
      if \<not> healthy_enough e then fail (Refused ''release plan is not healthy enough to advance'')
      else if rp_CurrentStage (ev_Plan e) = 1 then expandConfigReleasePlan env (ev_Plan e) (rp_CanaryPercent (ev_Plan e))
      else completeConfigReleasePlan env (ev_Plan e)))"

definition CompleteConfigReleasePlan :: "control_env \<Rightarrow> nat \<Rightarrow> ConfigReleasePlanView on_control" where
  "CompleteConfigReleasePlan env i =
    andThen (GetConfigReleasePlanByID env i) (\<lambda>plan.
    if rp_Status plan = ConfigReleaseStatusCompleted then GetConfigReleasePlan env i
    else if \<not> configReleasePlanActive plan
    then fail (Refused (''release plan '' @ FormatUint i @ '' cannot be completed from status '' @ rp_Status plan))
    else
      andThen (EvaluateConfigReleasePlan env i) (\<lambda>e.
      if \<not> healthy_enough e then fail (Refused ''release plan is not healthy enough to complete'')
      else completeConfigReleasePlan env (ev_Plan e)))"

section \<open>Reports of the nodes\<close>

record ReportedApply =
  ap_NodeID :: string
  ap_Version :: string
  ap_Result :: string
  ap_Message :: string
  ap_Checksum :: string

definition about_target :: "control_env \<Rightarrow> ReportedApply \<Rightarrow> ConfigReleasePlan \<Rightarrow> ConfigReleaseTarget \<Rightarrow> bool on_control" where
  "about_target env payload plan target w =
    (if TrimSpace (ap_Checksum payload) \<noteq> [] then (Inr (TrimSpace (ap_Checksum payload) = TrimSpace (rt_Checksum target)), w)
     else (case GetConfigVersionByID env (rp_ConfigVersionID plan) w of
         (Inl _, w) \<Rightarrow> (Inr False, w)
       | (Inr version, w) \<Rightarrow> (Inr (TrimSpace (ap_Version payload) = TrimSpace (cv_Version version)), w)))"

definition updateConfigReleaseTargetFromApplyLog :: "control_env \<Rightarrow> ReportedApply \<Rightarrow> control \<Rightarrow> control" where
  "updateConfigReleaseTargetFromApplyLog env payload = ignoring
    (andThen (GetActiveConfigReleaseTargetForNodeID env (ap_NodeID payload)) (\<lambda>(plan, target).
     andThen (about_target env payload plan target) (\<lambda>ok.
     if \<not> ok then return ()
     else if ap_Result payload = ''success'' then mark_succeeded env target
     else if ap_Result payload \<in> {''warning'', ''failed''} then
       (let reason = TrimSpace (ap_Message payload);
            reason = (if reason = [] then ''node '' @ ap_NodeID payload @ '' reported '' @ ap_Result payload @ '' while applying canary config'' else reason)
        in (\<lambda>w. FailConfigReleasePlan env (rp_ID plan) reason (ignoring (markConfigReleaseTargetFailed env target reason) w)))
     else return ())))"

definition evaluateConfigReleaseTargetFromHeartbeat :: "control_env \<Rightarrow> ControlNode \<Rightarrow> control \<Rightarrow> control" where
  "evaluateConfigReleaseTargetFromHeartbeat env node = ignoring
    (andThen (GetActiveConfigReleaseTargetForNodeID env (cn_NodeID node)) (\<lambda>(plan, target).
     if TrimSpace (cn_CurrentChecksum node) = TrimSpace (rt_Checksum target) \<and> rt_Status target \<noteq> ConfigReleaseTargetSucceeded
     then mark_succeeded env target
     else if rt_Status target \<noteq> ConfigReleaseTargetSucceeded \<and> timed_out env plan target then
       (let reason = did_not ''report'' plan target
        in (\<lambda>w. FailConfigReleasePlan env (rp_ID plan) reason (ignoring (markConfigReleaseTargetFailed env target reason) w)))
     else return ()))"

text \<open>The configuration that a node is told to run: that of its target in an active release, else the active one of its pool.\<close>

definition pool_version_artifact :: "control_env \<Rightarrow> string \<Rightarrow> (ConfigVersion \<times> ConfigVersionArtifact) on_control" where
  "pool_version_artifact env poolName w =
    (case GetActiveConfigVersionArtifactForPool env poolName w of
       (Inr va, w) \<Rightarrow> (Inr va, w)
     | (Inl e, w) \<Rightarrow>
         if e \<noteq> Record_Not_Found then (Inl e, w)
         else
           andThen (GetActiveConfigVersion env) (\<lambda>version.
           (\<lambda>w. case (case GetConfigVersionArtifact env (cv_ID version) poolName w of
                  (Inl Record_Not_Found, w) \<Rightarrow>
                    (case ensureConfigVersionArtifactsForPools env version [poolName] w of
                       (Inl e, w) \<Rightarrow> (Inl e, w)
                     | (Inr _, w) \<Rightarrow> (case GetConfigVersionArtifact env (cv_ID version) poolName w of (r, w) \<Rightarrow> (Inr r, w)))
                | (r, w) \<Rightarrow> (Inr r, w)) of
                (Inl e, w) \<Rightarrow> (Inl e, w)
              | (Inr (Inr artifact), w) \<Rightarrow> (Inr (version, artifact), w)
              | (Inr (Inl e), w) \<Rightarrow> (Inl (if e = Record_Not_Found then No_Artifact_For_Pool poolName else e), w))) w)"

definition getActiveConfigVersionArtifactForNode :: "control_env \<Rightarrow> ControlNode \<Rightarrow> (ConfigVersion \<times> ConfigVersionArtifact) on_control" where
  "getActiveConfigVersionArtifactForNode env node w =
    (case GetActiveConfigReleaseTargetForNodeID env (cn_NodeID node) w of
       (Inr (_, target), w) \<Rightarrow>
         andThen (GetConfigVersionByID env (rt_ConfigVersionID target)) (\<lambda>version.
         andThen (GetConfigVersionArtifact env (cv_ID version) (normalizeNodePoolName (rt_PoolName target))) (\<lambda>artifact.
         return (version, artifact))) w
     | (Inl e, w) \<Rightarrow>
         if e \<noteq> Record_Not_Found then (Inl e, w)
         else pool_version_artifact env (normalizeConfigReleasePoolName (cn_PoolName node)) w)"

end
