(* ===== verification/Release_Steps.thy ===== *)
theory Release_Steps
  imports Release_Plan
begin

text \<open>
  What the operations of a release do to the tables. The locale of relations that hold between the tables before and after
  an action (reflexive, transitive, kept by a transaction that is undone) carries them through sequences, loops and transactions;
  its interpretations say which tables an operation leaves alone. Then, operation by operation: at most one plan changes,
  by an edge of the life of a plan, and a healthy evaluation has seen every target applied.
\<close>

section \<open>What actions do to the tables\<close>

text \<open>An action only reads when it leaves the tables alone, however it ends; it changes them by a relation when the tables
  before and after are so related.\<close>

definition reads :: "'a on_control \<Rightarrow> bool" where
  "reads m \<longleftrightarrow> (\<forall>w r w'. m w = (r, w') \<longrightarrow> ct_Db w' = ct_Db w)"

definition changes :: "(control_db \<Rightarrow> control_db \<Rightarrow> bool) \<Rightarrow> 'a on_control \<Rightarrow> bool" where
  "changes R m \<longleftrightarrow> (\<forall>w r w'. m w = (r, w') \<longrightarrow> R (ct_Db w) (ct_Db w'))"

lemma readsD: "reads m \<Longrightarrow> m w = (r, w') \<Longrightarrow> ct_Db w' = ct_Db w"
  by (auto simp: reads_def)

lemma changesD: "changes R m \<Longrightarrow> m w = (r, w') \<Longrightarrow> R (ct_Db w) (ct_Db w')"
  by (auto simp: changes_def)

lemma changesI: "(\<And>w r w'. m w = (r, w') \<Longrightarrow> R (ct_Db w) (ct_Db w')) \<Longrightarrow> changes R m"
  by (auto simp: changes_def)

lemma query_cases:
  assumes "query env f w = (r, w')"
  obtains (answer) "r = f (ct_Db w)" "ct_Db w' = ct_Db w" "ct_Sent w' = ct_Sent w"
    | (fault) e where "r = Inl (Db_Failure e)" "ct_Db w' = ct_Db w" "ct_Sent w' = ct_Sent w"
  using assms by (auto simp: query_def statement_def Let_def split: option.splits)

lemma query_Inr: "query env f w = (Inr x, w') \<Longrightarrow> f (ct_Db w) = Inr x \<and> ct_Db w' = ct_Db w \<and> ct_Sent w' = ct_Sent w"
  by (erule query_cases) auto

lemma reads_query [simp, intro]: "reads (query env f)"
  by (auto simp: reads_def elim: query_cases)

lemma reads_return [simp, intro]: "reads (return x)"
  by (auto simp: reads_def return_def)

lemma reads_fail [simp, intro]: "reads (fail e)"
  by (auto simp: reads_def fail_def)

lemma reads_send [simp, intro]: "reads (send m)"
  by (auto simp: reads_def send_def)

lemma reads_andThen [simp, intro]: "reads m \<Longrightarrow> (\<And>x. reads (f x)) \<Longrightarrow> reads (andThen m f)"
  unfolding reads_def by (auto elim!: andThen_cases)

lemma reads_for_each [intro]: "(\<And>x. reads (f x)) \<Longrightarrow> reads (for_each f xs)"
  by (induction xs) auto

lemma statement_cases:
  assumes "statement env f w = (r, w')"
  obtains (ran) "f (ct_Db w) = (r, ct_Db w')" "ct_Sent w' = ct_Sent w"
    | (fault) e where "r = Inl (Db_Failure e)" "ct_Db w' = ct_Db w" "ct_Sent w' = ct_Sent w"
  using assms by (auto simp: statement_def Let_def split: option.splits prod.splits)

lemma execute_cases:
  assumes "execute env f w = (r, w')"
  obtains (ran) "r = Inr ()" "ct_Db w' = f (ct_Db w)" "ct_Sent w' = ct_Sent w"
    | (fault) e where "r = Inl (Db_Failure e)" "ct_Db w' = ct_Db w" "ct_Sent w' = ct_Sent w"
  using assms by (auto simp: execute_def statement_def Let_def split: option.splits)

lemma transaction_cases:
  assumes "transaction env m w = (r, w')"
  obtains (rolled_back) e where "r = Inl e" "ct_Db w' = ct_Db w"
    | (committed) x w1 w2 where "r = Inr x" "ct_Db w1 = ct_Db w" "m w1 = (Inr x, w2)" "ct_Db w' = ct_Db w2"
  using assms by (auto simp: transaction_def split: prod.splits sum.splits elim!: execute_cases)

lemma transaction_Inr:
  assumes "transaction env m w = (Inr x, w')"
  shows "\<exists>w1 w2. ct_Db w1 = ct_Db w \<and> m w1 = (Inr x, w2) \<and> ct_Db w' = ct_Db w2"
  using assms by (rule transaction_cases) auto

text \<open>Relations between tables that compose: what every step of an operation keeps, the operation keeps.\<close>

locale db_preorder =
  fixes R :: "control_db \<Rightarrow> control_db \<Rightarrow> bool"
  assumes R_refl: "R d d" and R_trans: "R a b \<Longrightarrow> R b c \<Longrightarrow> R a c"
begin

lemma changes_reads [simp]: "reads m \<Longrightarrow> changes R m"
  by (auto simp: changes_def reads_def R_refl)

lemma changes_execute: "(\<And>d. R d (f d)) \<Longrightarrow> changes R (execute env f)"
  by (rule changesI) (auto elim!: execute_cases simp: R_refl)

lemma changes_statement: "(\<And>d. R d (snd (f d))) \<Longrightarrow> changes R (statement env f)"
  by (rule changesI, erule statement_cases) (metis snd_conv, simp add: R_refl)

lemma changes_andThen: "changes R m \<Longrightarrow> (\<And>x. changes R (f x)) \<Longrightarrow> changes R (andThen m f)"
  by (rule changesI, erule andThen_cases) (auto dest: changesD intro: R_trans)

lemma changes_orElse: "changes R m \<Longrightarrow> (\<And>x. changes R (f x)) \<Longrightarrow> changes R (orElse m f)"
  by (rule changesI) (auto simp: orElse_def split: prod.splits sum.splits dest: changesD intro: R_trans)

lemma changes_for_each: "(\<And>x. changes R (f x)) \<Longrightarrow> changes R (for_each f xs)"
  by (induction xs) (auto intro: changes_andThen changes_reads)

lemma changes_transaction: "changes R m \<Longrightarrow> changes R (transaction env m)"
  by (rule changesI, erule transaction_cases) (auto simp: R_refl dest: changesD)

lemma changes_ignoring: "changes R m \<Longrightarrow> R (ct_Db w) (ct_Db (ignoring m w))"
  unfolding ignoring_def by (metis changesD prod.collapse)

lemmas changes_intros = changes_execute changes_statement changes_andThen changes_orElse changes_for_each changes_transaction

end

section \<open>Reading\<close>

lemmas lookups = GetConfigReleasePlanByID_def ListConfigReleaseTargets_def firstActiveConfigReleaseTargetForNodeID_def
  listActiveConfigReleaseTargetsForNodeID_def CountActiveConfigReleasePlansByPool_def GetConfigReleaseBlockedChecksumForPool_def
  GetConfigReleaseBlockedChecksumByID_def GetConfigVersionByID_def GetActiveConfigVersion_def ListConfigVersionArtifacts_def
  GetConfigVersionArtifact_def ListNodes_def ListOnlineNodesByPool_def ListNodesByNodeIDs_def

lemma reads_lookups [simp, intro]:
  "reads (GetConfigReleasePlanByID env i)" "reads (ListConfigReleaseTargets env i)" "reads (firstActiveConfigReleaseTargetForNodeID env n ss)"
  "reads (listActiveConfigReleaseTargetsForNodeID env n ss)" "reads (CountActiveConfigReleasePlansByPool env p i)"
  "reads (GetConfigReleaseBlockedChecksumForPool env p s)" "reads (GetConfigReleaseBlockedChecksumByID env i)"
  "reads (GetConfigVersionByID env i)" "reads (GetActiveConfigVersion env)" "reads (ListConfigVersionArtifacts env i)"
  "reads (GetConfigVersionArtifact env i p)" "reads (ListNodes env)" "reads (ListOnlineNodesByPool env p t ns)" "reads (ListNodesByNodeIDs env ns)"
  by (auto simp: lookups Let_def)

lemma reads_GetConfigReleasePlan [simp, intro]: "reads (GetConfigReleasePlan env i)"
  by (auto simp: GetConfigReleasePlan_def)

lemma reads_GetActiveConfigVersionArtifactForPool [simp, intro]: "reads (GetActiveConfigVersionArtifactForPool env p)"
proof -
  have "reads (\<lambda>w. case GetConfigVersionByID env i w of (Inl _, w) \<Rightarrow> fail e w
      | (Inr version, w) \<Rightarrow> (case query env f w of (Inl _, w) \<Rightarrow> fail e w
          | (Inr artifact, w) \<Rightarrow> if P artifact then fail e w else (Inr (version, artifact), w)))"
    for i e and f :: "control_db \<Rightarrow> db_error + ConfigVersionArtifact" and P
    by (auto simp: reads_def fail_def split: prod.splits sum.splits if_splits elim!: query_cases dest!: readsD[OF reads_lookups(8)])
  then show ?thesis by (auto simp: GetActiveConfigVersionArtifactForPool_def Let_def)
qed

lemma reads_succeeded [simp, intro]: "reads (succeededConfigReleaseTargetStillActive env plan t)"
  by (simp add: succeededConfigReleaseTargetStillActive_def)

lemma reads_still_active [simp, intro]: "reads (still_active env ts)"
  by (induction ts) (auto intro!: reads_andThen)

lemma reads_case:
  assumes "reads m" "\<And>x. reads (f x)" "\<And>e. reads (g e)"
  shows "reads (\<lambda>w. case m w of (Inr x, w) \<Rightarrow> f x w | (Inl e, w) \<Rightarrow> g e w)"
  using assms by (auto simp: reads_def split: prod.splits sum.splits)

lemma reads_error: "reads m \<Longrightarrow> reads (\<lambda>w. if b then (Inl e, w) else m w)"
  by (auto simp: reads_def)

lemma reads_GetActiveConfigReleaseTargetForNodeID [simp, intro]: "reads (GetActiveConfigReleaseTargetForNodeID env n)"
  by (auto simp: GetActiveConfigReleaseTargetForNodeID_def Let_def intro!: reads_case reads_error reads_andThen)

lemma reads_unless_found [intro]: "reads m \<Longrightarrow> reads (unless_found m e)"
  by (auto simp: reads_def unless_found_def split: prod.splits sum.splits db_error.splits)

lemma reads_guards [simp, intro]:
  "reads (ensureConfigReleaseChecksumNotBlockedForPool env p s)" "reads (ensureNoActiveConfigReleasePlanForPool env p i)"
  by (auto simp: ensureConfigReleaseChecksumNotBlockedForPool_def ensureNoActiveConfigReleasePlanForPool_def Let_def intro!: reads_andThen)

lemma reads_activeVersionForReleasePlanRollback [simp, intro]: "reads (activeVersionForReleasePlanRollback env p)"
  unfolding reads_def activeVersionForReleasePlanRollback_def
  by (auto split: prod.splits sum.splits if_splits dest!: readsD[OF reads_GetActiveConfigVersionArtifactForPool] readsD[OF reads_lookups(9)])

lemma reads_create_checks [simp, intro]: "reads (nothing_to_release env p s f)" "reads (rollback_version env p i)"
  unfolding reads_def nothing_to_release_def rollback_version_def
  by (auto split: prod.splits sum.splits if_splits dest!: readsD[OF reads_GetActiveConfigVersionArtifactForPool]
    readsD[OF reads_activeVersionForReleasePlanRollback])

lemma reads_selectReleasePlanNodes [simp, intro]: "reads (selectReleasePlanNodes env p n)"
  by (auto simp: selectReleasePlanNodes_def Let_def)

lemma reads_send_all [simp, intro]: "reads (sendConfigReleaseForceSyncNotifications ns)"
  by (auto simp: sendConfigReleaseForceSyncNotifications_def)

lemma reads_about_target [simp, intro]: "reads (about_target env payload plan t)"
  unfolding reads_def about_target_def by (auto split: prod.splits sum.splits if_splits dest!: readsD[OF reads_lookups(8)])

section \<open>Tables that operations leave alone\<close>

definition beside_targets :: "control_db \<Rightarrow> ConfigReleasePlan list \<times> ConfigReleaseBlockedChecksum list \<times> ConfigReleaseBlockedChecksumAudit list
    \<times> ConfigPoolActiveVersion list \<times> ControlNode list" where
  "beside_targets d = (db_Plans d, db_Blocked d, db_Audits d, db_PoolActives d, db_Nodes d)"

definition same_core :: "control_db \<Rightarrow> control_db \<Rightarrow> bool" where
  "same_core d d' \<longleftrightarrow> beside_targets d' = beside_targets d \<and> db_Targets d' = db_Targets d"

definition same_beside :: "control_db \<Rightarrow> control_db \<Rightarrow> bool" where
  "same_beside d d' \<longleftrightarrow> beside_targets d' = beside_targets d"

definition same_plans :: "control_db \<Rightarrow> control_db \<Rightarrow> bool" where
  "same_plans d d' \<longleftrightarrow> db_Plans d' = db_Plans d"

interpretation core: db_preorder same_core
  by unfold_locales (auto simp: same_core_def same_beside_def same_plans_def)

interpretation beside: db_preorder same_beside
  by unfold_locales (auto simp: same_core_def same_beside_def same_plans_def)

interpretation plans: db_preorder same_plans
  by unfold_locales (auto simp: same_core_def same_beside_def same_plans_def)

lemma changes_mono: "changes R m \<Longrightarrow> (\<And>d d'. R d d' \<Longrightarrow> S d d') \<Longrightarrow> changes S m"
  by (auto simp: changes_def)

lemma core_add_artifact: "same_core d (add_artifact i b d)"
  by (simp add: same_core_def add_artifact_def beside_targets_def)

lemma core_add_artifacts: "same_core d (fold (add_artifact i) bs d)"
  by (induction bs arbitrary: d) (auto intro: core.R_refl core.R_trans core_add_artifact)

lemma core_NextVersionNumber: "reads (NextVersionNumber env)"
  by (auto simp: NextVersionNumber_def Let_def intro!: reads_andThen split: sum.splits)

lemma core_CreateArtifacts: "changes same_core (CreateArtifacts env i bs)"
  unfolding CreateArtifacts_def
  by (auto intro!: core.changes_statement simp: core_add_artifacts core.R_refl)

lemma core_insert_version: "changes same_core (insert_version env by n b)"
  unfolding insert_version_def
  by (auto intro!: core.changes_andThen core.changes_statement core_CreateArtifacts
      simp: Let_def same_core_def beside_targets_def)

lemma core_CreateInactiveConfigVersion: "changes same_core (CreateInactiveConfigVersion env by force)"
proof -
  have "reads (\<lambda>w. case GetActiveConfigVersion env w of
        (Inr v, w) \<Rightarrow> (case g v of Inl e \<Rightarrow> (Inl (Refused e), w) | Inr ch \<Rightarrow> if \<not> force \<and> \<not> ch then (Inl Nothing_To_Publish, w) else (Inr (), w))
      | (Inl e, w) \<Rightarrow> if e = Record_Not_Found then (Inr (), w) else (Inl e, w))" for g
    by (rule reads_case[OF reads_lookups(9)]) (auto simp: reads_def split: sum.splits)
  then show ?thesis unfolding CreateInactiveConfigVersion_def
    by (auto intro!: core.changes_andThen core.changes_orElse core.changes_transaction core_insert_version simp: core_NextVersionNumber split: option.splits)
qed

lemma core_releasePlanVersion: "changes same_core (releasePlanVersion env by input)"
  by (auto simp: releasePlanVersion_def core_CreateInactiveConfigVersion split: option.splits)

lemma core_add_missing_artifact: "changes same_core (add_missing_artifact env v s p)"
  unfolding add_missing_artifact_def by (rule core.changes_execute) (simp add: core_add_artifact core.R_refl)

lemma core_ensureConfigVersionArtifactsForPools: "changes same_core (ensureConfigVersionArtifactsForPools env v ps)"
proof -
  have "reads (compatibilityArtifactPools env ps)" by (auto simp: compatibilityArtifactPools_def)
  then show ?thesis unfolding ensureConfigVersionArtifactsForPools_def Let_def
    by (auto intro!: core.changes_andThen core.changes_transaction core.changes_for_each core_add_missing_artifact
      split: sum.splits)
qed

lemma core_artifact_or_new:
  "changes same_core (\<lambda>w. case GetConfigVersionArtifact env i p w of
      (Inl Record_Not_Found, w) \<Rightarrow> andThen (ensureConfigVersionArtifactsForPools env v ps) (\<lambda>_. GetConfigVersionArtifact env j q) w
    | (r, w) \<Rightarrow> (r, w))"
proof -
  have "changes same_core (andThen (ensureConfigVersionArtifactsForPools env v ps) (\<lambda>_. GetConfigVersionArtifact env j q))"
    by (simp add: core.changes_andThen core_ensureConfigVersionArtifactsForPools)
  note new = changesD[OF this]
  show ?thesis
    by (rule changesI) (auto simp: core.R_refl split: prod.splits sum.splits db_error.splits
      dest!: readsD[OF reads_lookups(11)] dest: new)
qed

lemma core_rollbackConfigMetaForReleaseTarget: "changes same_core (rollbackConfigMetaForReleaseTarget env plan t)"
  unfolding rollbackConfigMetaForReleaseTarget_def Let_def
  by (auto intro!: core.changes_andThen core_artifact_or_new split: option.splits)

lemma core_roll_back_each: "same_core (ct_Db w) (ct_Db (roll_back_each env plan metas ts w))"
proof (induction ts arbitrary: metas w)
  case (Cons t ts)
  have sent: "same_core (ct_Db w) (ct_Db (roll_back_each env plan ms ts (w1\<lparr>ct_Sent := s\<rparr>)))" if "same_core (ct_Db w) (ct_Db w1)" for w1 s ms
    using that Cons[of "w1\<lparr>ct_Sent := s\<rparr>" ms] by (auto intro: core.R_trans)
  have "same_core (ct_Db w) (ct_Db w1)" if "rollbackConfigMetaForReleaseTarget env plan t w = (r, w1)" for r w1
    using changesD[OF core_rollbackConfigMetaForReleaseTarget that] .
  with Cons sent sent[OF core.R_refl] show ?case
    by (auto intro: core.R_trans simp: Let_def ignoring_def send_def split: prod.splits option.splits sum.splits)
qed (simp add: core.R_refl)

lemma core_forceSync: "changes same_core (forceSyncConfigReleaseRollbackTargets env plan ts)"
  by (auto simp: changes_def forceSyncConfigReleaseRollbackTargets_def core_roll_back_each)

lemma beside_update_targets: "changes same_beside (update_targets env P f)"
  unfolding update_targets_def by (rule beside.changes_execute) (simp add: same_beside_def beside_targets_def)

lemma beside_insert_target: "changes same_beside (insert_target env t)"
  unfolding insert_target_def by (rule beside.changes_statement) (simp add: same_beside_def beside_targets_def)

lemma beside_marks: "changes same_beside (markConfigReleaseTargetFailed env t r)" "changes same_beside (mark_succeeded env t)"
  by (auto simp: markConfigReleaseTargetFailed_def mark_succeeded_def beside_update_targets)

lemma beside_evaluate_target:
  "evaluate_target env plan nodes (e, w) t = (e', w') \<Longrightarrow> same_beside (ct_Db w) (ct_Db w')"
  using beside.changes_ignoring[OF beside_marks(1)] beside.changes_ignoring[OF beside_marks(2)]
  by (auto simp: evaluate_target_def failing_def beside.R_refl split: if_splits option.splits)

lemma beside_evaluate_targets:
  "foldl (evaluate_target env plan nodes) (e, w) ts = (e', w') \<Longrightarrow> same_beside (ct_Db w) (ct_Db w')"
proof (induction ts arbitrary: e w)
  case (Cons t ts)
  obtain e1 w1 where "evaluate_target env plan nodes (e, w) t = (e1, w1)" by fastforce
  with Cons beside_evaluate_target[OF this] show ?case by (auto intro: beside.R_trans)
qed (simp add: beside.R_refl)

lemma plans_upsert: "changes same_plans (upsertConfigPoolActiveVersionTx env i a p)"
  unfolding upsertConfigPoolActiveVersionTx_def Let_def by (rule plans.changes_execute) (simp add: same_plans_def)

lemma plans_core: "changes same_core m \<Longrightarrow> changes same_plans m"
  by (erule changes_mono) (simp add: same_core_def same_beside_def same_plans_def beside_targets_def)

lemma plans_beside: "changes same_beside m \<Longrightarrow> changes same_plans m"
  by (erule changes_mono) (simp add: same_core_def same_beside_def same_plans_def beside_targets_def)

lemma plans_ActivateConfigVersionForPool: "changes same_plans (ActivateConfigVersionForPool env i p j)"
  unfolding ActivateConfigVersionForPool_def Let_def
  by (auto intro!: plans.changes_andThen plans.changes_transaction plans_upsert plans_core[OF core_ensureConfigVersionArtifactsForPools])

section \<open>The life of a plan\<close>

text \<open>The statuses a plan may pass through.\<close>

definition plan_edge :: "string \<Rightarrow> string \<Rightarrow> bool" where
  "plan_edge a b \<longleftrightarrow> (a, b) \<in> {(''draft'', ''running''), (''draft'', ''canceled'')}
    \<or> a \<in> {''running'', ''observing''} \<and> b \<in> {''running'', ''completed'', ''failed''}"

text \<open>The pool under which running plans are looked for; a name that is normalised already is its own.\<close>

definition checked_pool :: "string \<Rightarrow> string" where
  "checked_pool pool = (let p = TrimSpace (normalizeConfigReleasePoolName pool) in if p = [] then ''default'' else p)"

lemma checked_pool_id:
  assumes "normalizeConfigReleasePoolName pool = pool"
  shows "checked_pool pool = pool"
proof -
  have n: "normalizeNodePoolName pool = pool" using assms by (simp add: normalizeConfigReleasePoolName_def)
  then have "pool \<noteq> []" using normalizeNodePoolName_not_Nil[of pool] by simp
  moreover have "TrimSpace pool = pool"
  proof (cases "TrimSpace pool = [] \<or> length (TrimSpace pool) > 64")
    case True
    then have "TrimSpace pool = []" "pool = ''default''" using n length_TrimSpace[of pool] length_normalizeNodePoolName[of pool]
      by (auto simp: normalizeNodePoolName_def Let_def split: if_splits)
    then show ?thesis by (simp add: TrimSpace_def TrimLeftSpace_def TrimRightSpace_def is_space_def)
  next
    case False
    then have "ToLower (TrimSpace pool) = pool" using n by (simp add: normalizeNodePoolName_def Let_def split: if_splits)
    then show ?thesis using TrimSpace_ToLower[of "TrimSpace pool"] by simp
  qed
  ultimately show ?thesis using assms by (simp add: checked_pool_def)
qed

definition others_inactive :: "ConfigReleasePlan \<Rightarrow> control_db \<Rightarrow> bool" where
  "others_inactive p d \<longleftrightarrow> (\<forall>q \<in> set (db_Plans d). plan_active q \<and> rp_CanaryPoolName q = checked_pool (rp_CanaryPoolName p) \<longrightarrow> rp_ID q = rp_ID p)"

definition plan_moves :: "control_db \<Rightarrow> ConfigReleasePlan \<Rightarrow> (ConfigReleasePlan \<Rightarrow> ConfigReleasePlan) \<Rightarrow> bool" where
  "plan_moves d p f \<longleftrightarrow> p \<in> set (db_Plans d) \<and> plan_edge (rp_Status p) (rp_Status (f p))
    \<and> (\<forall>q. rp_ID (f q) = rp_ID q \<and> rp_CanaryPoolName (f q) = rp_CanaryPoolName q \<and> rp_Status (f q) = rp_Status (f p))
    \<and> (rp_Status p = ''draft'' \<and> rp_Status (f p) = ''running'' \<longrightarrow> others_inactive p d)"

definition plan_step :: "control_db \<Rightarrow> control_db \<Rightarrow> bool" where
  "plan_step d d' \<longleftrightarrow> db_Plans d' = db_Plans d
    \<or> (\<exists>p x. rp_Status p = ''draft'' \<and> rp_CanaryPoolName p = normalizeConfigReleasePoolName x
        \<and> db_Plans d' = db_Plans d @ [p\<lparr>rp_ID := next_id (map rp_ID (db_Plans d))\<rparr>])
    \<or> (\<exists>p f. plan_moves d p f \<and> db_Plans d' = update_rows (\<lambda>q. rp_ID q = rp_ID p) f (db_Plans d))"

lemma plan_step_same: "same_plans d d' \<Longrightarrow> plan_step d d'"
  by (simp add: plan_step_def same_plans_def)

lemma plan_step_cong: "db_Plans a = db_Plans d \<Longrightarrow> db_Plans b = db_Plans d' \<Longrightarrow> plan_step a b = plan_step d d'"
  by (simp add: plan_step_def plan_moves_def others_inactive_def)

lemma plan_step_update: "plan_moves d p f \<Longrightarrow> db_Plans d' = update_rows (\<lambda>q. rp_ID q = rp_ID p) f (db_Plans d) \<Longrightarrow> plan_step d d'"
  by (auto simp: plan_step_def)

text \<open>Runs from given tables. What an action can return there is known to what follows a read.\<close>

definition changes_at :: "control_db \<Rightarrow> (control_db \<Rightarrow> control_db \<Rightarrow> bool) \<Rightarrow> 'a on_control \<Rightarrow> bool" where
  "changes_at d R m \<longleftrightarrow> (\<forall>w r w'. ct_Db w = d \<longrightarrow> m w = (r, w') \<longrightarrow> R d (ct_Db w'))"

definition yields :: "'a on_control \<Rightarrow> control_db \<Rightarrow> 'a \<Rightarrow> bool" where
  "yields m d x \<longleftrightarrow> (\<exists>w w'. ct_Db w = d \<and> m w = (Inr x, w'))"

lemma changes_atI: "(\<And>d. changes_at d R m) \<Longrightarrow> changes R m"
  by (auto simp: changes_def changes_at_def)

lemma changes_atD: "changes R m \<Longrightarrow> changes_at d R m"
  by (auto simp: changes_def changes_at_def)

lemma at_read:
  assumes "reads m" "R d d" "\<And>x. yields m d x \<Longrightarrow> changes_at d R (f x)"
  shows "changes_at d R (andThen m f)"
  using assms unfolding changes_at_def yields_def by (auto elim!: andThen_cases dest: readsD) (metis readsD)

lemma at_transaction: "R d d \<Longrightarrow> changes_at d R m \<Longrightarrow> changes_at d R (transaction env m)"
  unfolding changes_at_def by (auto elim!: transaction_cases)

lemma at_step_before:
  assumes "changes_at d plan_step m" "\<And>x. changes same_plans (f x)"
  shows "changes_at d plan_step (andThen m f)"
  unfolding changes_at_def
proof (intro allI impI)
  fix w r w' assume d: "ct_Db w = d" and "andThen m f w = (r, w')"
  from this(2) show "plan_step d (ct_Db w')"
  proof (cases rule: andThen_cases)
    case (error e) then show ?thesis using assms(1) d by (auto simp: changes_at_def)
  next
    case (ok x w1)
    then have "plan_step d (ct_Db w1)" using assms(1) d by (auto simp: changes_at_def)
    with changesD[OF assms(2) ok(2)] show ?thesis by (metis plan_step_cong same_plans_def)
  qed
qed

lemma at_step_after:
  assumes "changes same_plans m" "\<And>x d'. same_plans d d' \<Longrightarrow> changes_at d' plan_step (f x)"
  shows "changes_at d plan_step (andThen m f)"
  unfolding changes_at_def
proof (intro allI impI)
  fix w r w' assume d: "ct_Db w = d" and "andThen m f w = (r, w')"
  from this(2) show "plan_step d (ct_Db w')"
  proof (cases rule: andThen_cases)
    case (error e) then show ?thesis using changesD[OF assms(1)] plan_step_same d by blast
  next
    case (ok x w1)
    have s: "same_plans d (ct_Db w1)" using changesD[OF assms(1) ok(1)] d by simp
    then have "plan_step (ct_Db w1) (ct_Db w')" using assms(2)[of "ct_Db w1"] ok(2) by (auto simp: changes_at_def)
    with s show ?thesis by (metis plan_step_cong same_plans_def)
  qed
qed

lemma plan_step_refl [simp]: "plan_step d d"
  by (simp add: plan_step_def)

lemma at_reads [simp]: "reads m \<Longrightarrow> R d d \<Longrightarrow> changes_at d R m"
  by (auto simp: changes_at_def dest: readsD)

lemma changes_plan_core: "changes same_core m \<Longrightarrow> changes plan_step m"
  by (erule changes_mono) (simp add: plan_step_def same_core_def beside_targets_def)

lemma first_row_filter: "first_row (filter P xs) = Inr x \<Longrightarrow> x \<in> set xs \<and> P x"
  by (auto simp: first_row_def split: list.splits dest: filter_eq_ConsD)

lemma GetConfigReleasePlanByID_Inr:
  assumes "yields (GetConfigReleasePlanByID env i) d p"
  shows "p \<in> set (db_Plans d)" "rp_ID p = i"
proof -
  have "first_row (filter (\<lambda>p. rp_ID p = i) (db_Plans d)) = Inr p"
    using assms by (auto simp: yields_def GetConfigReleasePlanByID_def dest: query_Inr)
  from first_row_filter[OF this] show "p \<in> set (db_Plans d)" "rp_ID p = i" by auto
qed

lemma at_update_plan: "plan_moves d p f \<Longrightarrow> rp_ID p = i \<Longrightarrow> changes_at d plan_step (update_plan env i f)"
  unfolding changes_at_def update_plan_def by (auto elim!: execute_cases intro: plan_step_update)

lemma plans_update_targets [simp]: "changes same_plans (update_targets env P f)"
  by (rule plans_beside[OF beside_update_targets])

lemma ensureNoActive_Inr:
  assumes "yields (ensureNoActiveConfigReleasePlanForPool env pool i) d u"
    and "q \<in> set (db_Plans d)" "plan_active q" "rp_CanaryPoolName q = checked_pool pool"
  shows "rp_ID q = i"
proof -
  let ?n = "filter (\<lambda>p. plan_active p \<and> rp_CanaryPoolName p = checked_pool pool \<and> (i \<noteq> 0 \<longrightarrow> rp_ID p \<noteq> i)) (db_Plans d)"
  have "?n = []" using assms(1)
    by (auto simp: yields_def ensureNoActiveConfigReleasePlanForPool_def CountActiveConfigReleasePlansByPool_def andThen_Inr checked_pool_def Let_def
      return_def fail_def split: if_splits dest!: query_Inr)
  then show ?thesis using assms(2-4) by (auto simp: filter_empty_conv)
qed

lemma plan_edges:
  "plan_edge ConfigReleaseStatusDraft ConfigReleaseStatusRunning" "plan_edge ConfigReleaseStatusDraft ConfigReleaseStatusCanceled"
  "configReleasePlanActive p \<Longrightarrow> plan_edge (rp_Status p) ConfigReleaseStatusRunning"
  "configReleasePlanActive p \<Longrightarrow> plan_edge (rp_Status p) ConfigReleaseStatusCompleted"
  "configReleasePlanActive p \<Longrightarrow> plan_edge (rp_Status p) ConfigReleaseStatusFailed"
  by (auto simp: plan_edge_def release_status configReleasePlanActive_def)

lemma at_if: "(b \<Longrightarrow> changes_at d R m) \<Longrightarrow> (\<not> b \<Longrightarrow> changes_at d R n) \<Longrightarrow> changes_at d R (if b then m else n)"
  by simp

lemma not_active_draft: "rp_Status p = ConfigReleaseStatusDraft \<Longrightarrow> \<not> configReleasePlanActive p"
  by (simp add: configReleasePlanActive_def release_status)

lemma at_move:
  assumes "plan_moves d p f" "\<And>x. changes same_plans (g x)" "\<And>x. changes same_plans (h x)"
  shows "changes_at d plan_step (andThen (transaction env (andThen (update_plan env (rp_ID p) f) g)) h)"
  by (intro at_step_before at_transaction plan_step_refl at_update_plan[OF assms(1) refl] assms(2,3))

lemma plans_for_each [simp]: "(\<And>x. changes same_plans (f x)) \<Longrightarrow> changes same_plans (for_each f xs)"
  by (rule plans.changes_for_each)

lemma StartConfigReleasePlan_step: "changes plan_step (StartConfigReleasePlan env i)"
  unfolding StartConfigReleasePlan_def
  by (rule changes_atI, intro at_move at_read at_if)
    (auto simp: plan_moves_def plan_edges(1) others_inactive_def dest: GetConfigReleasePlanByID_Inr ensureNoActive_Inr)

lemma plans_block_checksum [simp]: "changes same_plans (block_checksum env plan version reason)"
  unfolding block_checksum_def Let_def by (rule plans.changes_execute) (simp add: same_plans_def)

lemma fail_moves:
  "p \<in> set (db_Plans d) \<Longrightarrow> configReleasePlanActive p \<Longrightarrow> plan_moves d p (\<lambda>p. p\<lparr>rp_Status := ConfigReleaseStatusFailed, rp_FailureReason := reason, rp_FailedAt := t\<rparr>)"
  by (auto simp: plan_moves_def plan_edge_def release_status configReleasePlanActive_def)

lemma FailConfigReleasePlan_step: "changes plan_step (FailConfigReleasePlan env i reason)"
  unfolding FailConfigReleasePlan_def fail_transaction_def Let_def
  by (rule changes_atI, intro at_move at_read at_if)
    (auto simp: plans_core[OF core_forceSync] intro!: plans.changes_andThen fail_moves dest: GetConfigReleasePlanByID_Inr)

lemma CancelConfigReleasePlan_step: "changes plan_step (CancelConfigReleasePlan env i)"
  unfolding CancelConfigReleasePlan_def
  by (rule changes_atI, intro at_move at_read at_if)
    (auto simp: plan_moves_def plan_edges release_status plan_edge_def dest: GetConfigReleasePlanByID_Inr)

lemma beside_summary: "same_beside d d' \<Longrightarrow> same_plans d d'"
  by (simp add: same_beside_def same_plans_def beside_targets_def)

lemma conclude_step: "changes plan_step (conclude_evaluation env plan e)"
  unfolding conclude_evaluation_def
  by (rule changes_atI, intro at_if at_step_before changes_atD[OF FailConfigReleasePlan_step])
    (auto simp: changes_def same_plans_def split: prod.splits dest!: readsD[OF reads_lookups(1)])

text \<open>An evaluation moves the plan only to fail it; a healthy one leaves all but the targets alone and returns the plan as it is stored.\<close>

lemma EvaluateConfigReleasePlan_step: "changes plan_step (EvaluateConfigReleasePlan env i)"
proof -
  have "changes_at d plan_step (\<lambda>w. case foldl (evaluate_target env plan nodes) (e, w) ts of (e, w) \<Rightarrow> conclude_evaluation env plan e w)" for d plan nodes e ts
    unfolding changes_at_def
  proof (intro allI impI)
    fix w r w' assume d: "ct_Db w = d" and run: "(case foldl (evaluate_target env plan nodes) (e, w) ts of (e, w) \<Rightarrow> conclude_evaluation env plan e w) = (r, w')"
    obtain e1 w1 where f: "foldl (evaluate_target env plan nodes) (e, w) ts = (e1, w1)" by fastforce
    then have "plan_step (ct_Db w1) (ct_Db w')" using run changesD[OF conclude_step] by auto
    then show "plan_step d (ct_Db w')"
      using beside_summary[OF beside_evaluate_targets[OF f]] d by (metis plan_step_cong same_plans_def)
  qed
  then show ?thesis unfolding EvaluateConfigReleasePlan_def
    by (intro changes_atI at_read at_if) auto
qed

lemma complete_step:
  assumes "p \<in> set (db_Plans d)" "configReleasePlanActive p"
  shows "changes_at d plan_step (completeConfigReleasePlan env p)"
proof -
  have "plan_moves d' p (\<lambda>p. p\<lparr>rp_Status := ConfigReleaseStatusCompleted, rp_CurrentStage := 3, rp_CompletedAt := t, rp_Checksum := c\<rparr>)"
    if "same_plans d d'" for d' t c
    using assms that by (auto simp: plan_moves_def plan_edge_def release_status configReleasePlanActive_def same_plans_def)
  then show ?thesis unfolding completeConfigReleasePlan_def
    by (intro at_step_after[OF plans_ActivateConfigVersionForPool])
      (auto split: prod.splits intro!: at_step_before at_update_plan plans.changes_andThen)
qed

lemma plans_insert_target [simp]: "changes same_plans (insert_target env t)"
  by (rule plans_beside[OF beside_insert_target])

lemma expand_step:
  assumes "p \<in> set (db_Plans d)" "configReleasePlanActive p"
  shows "changes_at d plan_step (expandConfigReleasePlan env p percent)"
proof -
  have "plan_moves d p (\<lambda>p. p\<lparr>rp_Status := ConfigReleaseStatusRunning, rp_CurrentStage := 2\<rparr>)"
    using assms by (auto simp: plan_moves_def plan_edge_def release_status configReleasePlanActive_def)
  then show ?thesis unfolding expandConfigReleasePlan_def Let_def
    by (intro at_move at_read at_if) (auto intro!: complete_step assms plans.changes_andThen)
qed

section \<open>Healthy evaluations\<close>

text \<open>A target counts as applied when it is marked so, or when its node is online and reports its checksum.\<close>

definition applied :: "control_env \<Rightarrow> ControlNode list \<Rightarrow> ConfigReleaseTarget \<Rightarrow> bool" where
  "applied env nodes t \<longleftrightarrow> rt_Status t = ConfigReleaseTargetSucceeded
    \<or> (\<exists>n \<in> set nodes. TrimSpace (cn_NodeID n) = TrimSpace (rt_NodeID t) \<and> computeNodeStatus env n = ''online''
         \<and> TrimSpace (cn_CurrentChecksum n) = TrimSpace (rt_Checksum t))"

lemma evaluate_target_counts:
  assumes "evaluate_target env plan nodes (e, w) t = (e', w')"
  shows "ev_Plan e' = ev_Plan e" "ev_TargetCount e' = ev_TargetCount e" "ev_FailedTargets e \<le> ev_FailedTargets e'"
    "ev_SucceededTargets e' = ev_SucceededTargets e \<or> ev_SucceededTargets e' = Suc (ev_SucceededTargets e) \<and> applied env nodes t"
    "ev_Healthy e' \<Longrightarrow> ev_FailedTargets e' = ev_FailedTargets e \<and> ev_Healthy e"
  using assms by (auto simp: evaluate_target_def failing_def applied_def find_Some_iff split: if_splits option.splits) (metis nth_mem set_rev length_rev)+

lemma evaluate_targets_counts:
  assumes "foldl (evaluate_target env plan nodes) (e, w) ts = (e', w')"
  shows "ev_Plan e' = ev_Plan e \<and> ev_TargetCount e' = ev_TargetCount e \<and> (ev_Healthy e' \<longrightarrow> ev_FailedTargets e' = ev_FailedTargets e)
    \<and> ev_SucceededTargets e' \<le> ev_SucceededTargets e + length ts
    \<and> (ev_SucceededTargets e' = ev_SucceededTargets e + length ts \<longrightarrow> list_all (applied env nodes) ts)"
  using assms
proof (induction ts arbitrary: e w)
  case (Cons t ts)
  obtain e1 w1 where s: "evaluate_target env plan nodes (e, w) t = (e1, w1)" by fastforce
  have f: "foldl (evaluate_target env plan nodes) (e1, w1) ts = (e', w')" using Cons.prems s by simp
  have h: "ev_Healthy e1" if "ev_Healthy e'"
    using f that
  proof (induction ts arbitrary: e1 w1)
    case (Cons u us)
    obtain e2 w2 where u: "evaluate_target env plan nodes (e1, w1) u = (e2, w2)" by fastforce
    with Cons show ?case using evaluate_target_counts(5)[OF u] by auto
  qed simp
  note c = evaluate_target_counts[OF s]
  show ?case using Cons.IH[OF f] c h by auto
qed simp

lemma GetConfigReleasePlanByID_unique:
  "yields (GetConfigReleasePlanByID env i) d p \<Longrightarrow> yields (GetConfigReleasePlanByID env' i) d q \<Longrightarrow> p = q"
  by (auto simp: yields_def GetConfigReleasePlanByID_def dest!: query_Inr)

lemma yieldsI: "m w = (Inr x, w') \<Longrightarrow> yields m (ct_Db w) x"
  by (auto simp: yields_def)

lemma ListConfigReleaseTargets_Inr:
  assumes "ListConfigReleaseTargets env i w = (Inr ts, w')"
  shows "set ts = {t \<in> set (db_Targets (ct_Db w)). rt_PlanID t = i}"
  using assms by (auto simp: ListConfigReleaseTargets_def set_SliceStable dest!: query_Inr)

lemma ListNodesByNodeIDs_Inr: "ListNodesByNodeIDs env ids w = (Inr ns, w') \<Longrightarrow> set ns \<subseteq> set (db_Nodes (ct_Db w))"
  by (auto simp: ListNodesByNodeIDs_def Let_def return_def split: if_splits dest!: query_Inr)

lemma evaluation_outcome:
  assumes run: "EvaluateConfigReleasePlan env i w = (Inr e, w')" and p: "yields (GetConfigReleasePlanByID env i) (ct_Db w) p"
    and active: "configReleasePlanActive p" and healthy: "healthy_enough e"
  shows "ev_Plan e = p" "same_beside (ct_Db w) (ct_Db w')"
    "t \<in> set (db_Targets (ct_Db w)) \<Longrightarrow> rt_PlanID t = i \<Longrightarrow> applied env (db_Nodes (ct_Db w)) t"
proof -
  obtain q w1 ts w2 where q: "GetConfigReleasePlanByID env i w = (Inr q, w1)" and ts: "ListConfigReleaseTargets env (rp_ID q) w1 = (Inr ts, w2)"
    and rest: "(if \<not> configReleasePlanActive q then return (summarizeConfigReleasePlan q ts)
      else andThen (ListNodesByNodeIDs env (configReleaseTargetNodeIDs ts)) (\<lambda>nodes.
        (\<lambda>w. case foldl (evaluate_target env q nodes) (new_evaluation q ts, w) ts of (e, w) \<Rightarrow> conclude_evaluation env q e w))) w2 = (Inr e, w')"
    using run unfolding EvaluateConfigReleasePlan_def andThen_Inr by blast
  have [simp]: "q = p" using GetConfigReleasePlanByID_unique[OF yieldsI[of "GetConfigReleasePlanByID env i", OF q] p] .
  note d1 = readsD[OF reads_lookups(1) q] and d2 = readsD[OF reads_lookups(2) ts]
  obtain nodes w3 where n: "ListNodesByNodeIDs env (configReleaseTargetNodeIDs ts) w2 = (Inr nodes, w3)"
    and run3: "(case foldl (evaluate_target env p nodes) (new_evaluation p ts, w3) ts of (e, w) \<Rightarrow> conclude_evaluation env p e w) = (Inr e, w')"
    using rest active by (auto simp: andThen_Inr)
  note d3 = readsD[OF reads_lookups(14) n]
  obtain e1 w4 where f: "foldl (evaluate_target env p nodes) (new_evaluation p ts, w3) ts = (e1, w4)" by fastforce
  have c: "conclude_evaluation env p e1 w4 = (Inr e, w')" using run3 f by simp
  have ok: "ev_FailedTargets e1 = 0" using healthy c
    by (auto simp: conclude_evaluation_def healthy_enough_def andThen_Inr case_prod_beta split: if_splits)
  then have "e = e1" "w' = w4" using c by (auto simp: conclude_evaluation_def return_def)
  note counts = evaluate_targets_counts[OF f]
  show "ev_Plan e = p" using counts \<open>e = e1\<close> by (simp add: new_evaluation_def)
  show "same_beside (ct_Db w) (ct_Db w')" using beside_evaluate_targets[OF f] \<open>w' = w4\<close> d1 d2 d3 by simp
  have "list_all (applied env nodes) ts" using counts healthy \<open>e = e1\<close> by (simp add: new_evaluation_def healthy_enough_def)
  moreover have "set nodes \<subseteq> set (db_Nodes (ct_Db w))" using ListNodesByNodeIDs_Inr[OF n] d1 d2 by simp
  moreover assume "t \<in> set (db_Targets (ct_Db w))" "rt_PlanID t = i"
  ultimately show "applied env (db_Nodes (ct_Db w)) t"
    using ListConfigReleaseTargets_Inr[OF ts] d1 GetConfigReleasePlanByID_Inr[OF p] by (auto simp: list_all_iff applied_def)
qed

lemma healthy_then_step:
  assumes p: "yields (GetConfigReleasePlanByID env i) d p" and active: "configReleasePlanActive p"
    and next_step: "\<And>d' q. q \<in> set (db_Plans d') \<Longrightarrow> configReleasePlanActive q \<Longrightarrow> changes_at d' plan_step (g q)"
  shows "changes_at d plan_step (andThen (EvaluateConfigReleasePlan env i) (\<lambda>e. if \<not> healthy_enough e then fail x else g (ev_Plan e)))"
  unfolding changes_at_def
proof (intro allI impI)
  fix w r w' assume d: "ct_Db w = d"
    and "andThen (EvaluateConfigReleasePlan env i) (\<lambda>e. if \<not> healthy_enough e then fail x else g (ev_Plan e)) w = (r, w')"
  from this(2) show "plan_step d (ct_Db w')"
  proof (cases rule: andThen_cases)
    case (error e) then show ?thesis using changesD[OF EvaluateConfigReleasePlan_step] d by blast
  next
    case (ok e w1)
    have s: "plan_step d (ct_Db w1)" using changesD[OF EvaluateConfigReleasePlan_step ok(1)] d by simp
    show ?thesis
    proof (cases "healthy_enough e")
      case True
      note o = evaluation_outcome[OF ok(1) _ active True, unfolded d, OF p]
      then have same: "same_plans d (ct_Db w1)" by (simp add: beside_summary)
      then have "changes_at (ct_Db w1) plan_step (g p)" using next_step[of p] GetConfigReleasePlanByID_Inr[OF p] active by (simp add: same_plans_def)
      then have "plan_step (ct_Db w1) (ct_Db w')" using ok(2) True o(1) by (auto simp: changes_at_def)
      then show ?thesis using same by (metis plan_step_cong same_plans_def)
    qed (use ok(2) s in \<open>simp add: fail_def\<close>)
  qed
qed

lemma AdvanceConfigReleasePlan_step: "changes plan_step (AdvanceConfigReleasePlan env i)"
proof -
  have g: "changes_at d' plan_step (if rp_CurrentStage q = 1 then expandConfigReleasePlan env q (rp_CanaryPercent q) else completeConfigReleasePlan env q)"
    if "q \<in> set (db_Plans d')" "configReleasePlanActive q" for d' q
    using that by (simp add: expand_step complete_step)
  show ?thesis unfolding AdvanceConfigReleasePlan_def
    by (rule changes_atI, rule at_read[OF reads_lookups(1) plan_step_refl], intro at_if changes_atD[OF StartConfigReleasePlan_step])
      (auto intro!: healthy_then_step[where g = "\<lambda>q. if rp_CurrentStage q = 1 then expandConfigReleasePlan env q (rp_CanaryPercent q) else completeConfigReleasePlan env q"] g)
qed

lemma CompleteConfigReleasePlan_step: "changes plan_step (CompleteConfigReleasePlan env i)"
  unfolding CompleteConfigReleasePlan_def
  by (rule changes_atI, rule at_read[OF reads_lookups(1) plan_step_refl], intro at_if)
    (auto intro!: healthy_then_step[where g = "completeConfigReleasePlan env"] complete_step)

end
