(* ===== verification/Release_Reach.thy ===== *)
theory Release_Reach
  imports Release_Steps
begin

text \<open>
  Histories of operations on releases, and what holds after all of them: finished plans never change again, a pool has at most
  one release under way, and a plan completes only when all its targets have applied its configuration.
\<close>

section \<open>Histories of operations\<close>

text \<open>One operation after the other, each with its own clock, faults and connections; the table of nodes may change in any
  way between them. An operation is one atomic step.\<close>

datatype release_op =
    Create_Plan string ConfigReleasePlanInput
  | Start_Plan nat
  | Evaluate_Plan nat
  | Advance_Plan nat
  | Complete_Plan nat
  | Fail_Plan nat string
  | Cancel_Plan nat
  | Unblock_Checksum nat string string
  | Apply_Log ReportedApply
  | Node_Heartbeat ControlNode
  | Ask_Config ControlNode
  | Nodes_Change "ControlNode list"

fun run_release :: "control_env \<Rightarrow> release_op \<Rightarrow> control \<Rightarrow> control" where
  "run_release env (Create_Plan by input) = ignoring (CreateConfigReleasePlan env by input)"
| "run_release env (Start_Plan i) = ignoring (StartConfigReleasePlan env i)"
| "run_release env (Evaluate_Plan i) = ignoring (EvaluateConfigReleasePlan env i)"
| "run_release env (Advance_Plan i) = ignoring (AdvanceConfigReleasePlan env i)"
| "run_release env (Complete_Plan i) = ignoring (CompleteConfigReleasePlan env i)"
| "run_release env (Fail_Plan i reason) = ignoring (FailConfigReleasePlan env i reason)"
| "run_release env (Cancel_Plan i) = ignoring (CancelConfigReleasePlan env i)"
| "run_release env (Unblock_Checksum i operator reason) = ignoring (UnblockConfigReleaseBlockedChecksum env i operator reason)"
| "run_release env (Apply_Log payload) = updateConfigReleaseTargetFromApplyLog env payload"
| "run_release env (Node_Heartbeat node) = evaluateConfigReleaseTargetFromHeartbeat env node"
| "run_release env (Ask_Config node) = ignoring (getActiveConfigVersionArtifactForNode env node)"
| "run_release env (Nodes_Change nodes) = (\<lambda>w. w\<lparr>ct_Db := (ct_Db w)\<lparr>db_Nodes := nodes\<rparr>\<rparr>)"

definition run_releases :: "(control_env \<times> release_op) list \<Rightarrow> control \<Rightarrow> control" where
  "run_releases = fold (\<lambda>(env, op). run_release env op)"

definition new_control :: "ConfigVersion list \<Rightarrow> ConfigVersionArtifact list \<Rightarrow> ConfigPoolActiveVersion list \<Rightarrow> control" where
  "new_control versions artifacts actives =
    \<lparr>ct_Db = \<lparr>db_Plans = [], db_Targets = [], db_Blocked = [], db_Audits = [], db_Versions = versions, db_Artifacts = artifacts,
       db_PoolActives = actives, db_Nodes = []\<rparr>, ct_Statements = 0, ct_Sent = []\<rparr>"

definition release_reachable :: "control \<Rightarrow> bool" where
  "release_reachable w \<longleftrightarrow> (\<exists>h vs as acts. w = run_releases h (new_control vs as acts))"

lemma release_induct [consumes 1, case_names init step]:
  assumes "release_reachable w" "\<And>vs as acts. P (ct_Db (new_control vs as acts))"
    "\<And>env op w. release_reachable w \<Longrightarrow> P (ct_Db w) \<Longrightarrow> P (ct_Db (run_release env op w))"
  shows "P (ct_Db w)"
proof -
  obtain h vs as acts where w: "w = run_releases h (new_control vs as acts)" using assms(1) by (auto simp: release_reachable_def)
  show ?thesis unfolding w
  proof (induction h rule: rev_induct)
    case Nil then show ?case by (simp add: run_releases_def assms(2))
  next
    case (snoc x h)
    have "release_reachable (run_releases h (new_control vs as acts))" by (auto simp: release_reachable_def)
    then show ?case using snoc assms(3) by (cases x) (simp add: run_releases_def)
  qed
qed

section \<open>Every operation moves at most one plan\<close>

lemma step_ignoring: "changes plan_step m \<Longrightarrow> plan_step (ct_Db w) (ct_Db (ignoring m w))"
  unfolding ignoring_def by (metis changesD prod.collapse)

lemma plan_step_beside: "same_beside d d1 \<Longrightarrow> plan_step d1 d2 \<Longrightarrow> plan_step d d2"
  by (metis plan_step_cong beside_summary same_plans_def)

lemma at_store_plan:
  assumes "rp_Status plan = ''draft''" "rp_CanaryPoolName plan = normalizeConfigReleasePoolName x"
  shows "changes_at d plan_step (store_plan env plan ts)"
proof -
  have "changes_at d plan_step (insert_plan env plan)"
    unfolding changes_at_def insert_plan_def
  proof (intro allI impI, erule statement_cases)
    fix w r w' assume d: "ct_Db w = d" and i: "(let i = next_id (map rp_ID (db_Plans (ct_Db w)))
      in (Inr i, (ct_Db w)\<lparr>db_Plans := db_Plans (ct_Db w) @ [plan\<lparr>rp_ID := i\<rparr>]\<rparr>)) = (r, ct_Db w')"
    then have "db_Plans (ct_Db w') = db_Plans d @ [plan\<lparr>rp_ID := next_id (map rp_ID (db_Plans d))\<rparr>]" by (auto simp: Let_def dest: sym)
    with assms show "plan_step d (ct_Db w')" unfolding plan_step_def by blast
  qed (simp add: plan_step_def)
  then show ?thesis unfolding store_plan_def by (auto intro!: at_transaction at_step_before plans.changes_andThen)
qed

lemma CreateConfigReleasePlan_step: "changes plan_step (CreateConfigReleasePlan env by input)"
proof -
  have [simp]: "changes same_plans (releasePlanVersion env by input)" "changes same_plans (ensureConfigVersionArtifactsForPools env v ps)" for v ps
    by (auto intro: plans_core core_releasePlanVersion core_ensureConfigVersionArtifactsForPools)
  have store: "changes_at d plan_step (andThen (store_plan env \<lparr>rp_ID = 0, rp_ConfigVersionID = a, rp_RollbackVersionID = b, rp_Status = ConfigReleaseStatusDraft,
      rp_Strategy = c, rp_CanaryPoolName = normalizeConfigReleasePoolName x, rp_CurrentStage = 0, rp_CanaryPercent = e,
      rp_ObserveSeconds = f, rp_Checksum = g, rp_FailureReason = [], rp_CreatedBy = h, rp_StartedAt = None, rp_CompletedAt = None, rp_FailedAt = None\<rparr> ts)
      (GetConfigReleasePlan env))" for d a b c x e f g h ts
    by (rule at_step_before[OF at_store_plan]) (auto simp: release_status)
  show ?thesis unfolding CreateConfigReleasePlan_def Let_def
    by (rule changes_atI, intro store at_step_after at_if) auto
qed

lemma fail_after_mark_step:
  "changes plan_step (\<lambda>w. FailConfigReleasePlan env i reason (ignoring (markConfigReleaseTargetFailed env t reason') w))"
  by (rule changesI) (auto intro: plan_step_beside[OF beside.changes_ignoring[OF beside_marks(1)]] dest: changesD[OF FailConfigReleasePlan_step])

lemma plan_step_mark: "changes plan_step (mark_succeeded env t)"
  by (rule changes_mono[OF beside_marks(2)]) (auto simp: plan_step_def same_beside_def beside_targets_def)

lemma Report_step: "plan_step (ct_Db w) (ct_Db (updateConfigReleaseTargetFromApplyLog env payload w))"
  unfolding updateConfigReleaseTargetFromApplyLog_def Let_def
  by (rule step_ignoring, rule changes_atI, intro at_read)
    (auto split: prod.splits intro!: at_read changes_atD[OF fail_after_mark_step] changes_atD[OF plan_step_mark])

lemma Heartbeat_step: "plan_step (ct_Db w) (ct_Db (evaluateConfigReleaseTargetFromHeartbeat env node w))"
  unfolding evaluateConfigReleaseTargetFromHeartbeat_def Let_def
  by (rule step_ignoring, rule changes_atI, intro at_read)
    (auto split: prod.splits intro!: changes_atD[OF fail_after_mark_step] changes_atD[OF plan_step_mark])

lemma plans_Unblock: "changes same_plans (UnblockConfigReleaseBlockedChecksum env i op reason)"
  unfolding UnblockConfigReleaseBlockedChecksum_def Let_def
  by (auto intro!: plans.changes_andThen plans.changes_transaction plans.changes_execute simp: same_plans_def)

lemma core_pool_version_artifact: "changes same_core (pool_version_artifact env p)"
proof (rule changesI)
  fix w r w' assume run: "pool_version_artifact env p w = (r, w')"
  show "same_core (ct_Db w) (ct_Db w')"
    using run unfolding pool_version_artifact_def
    by (auto simp: core.R_refl split: prod.splits sum.splits if_splits db_error.splits elim!: andThen_cases
      dest!: readsD[OF reads_GetActiveConfigVersionArtifactForPool] readsD[OF reads_lookups(9)] readsD[OF reads_lookups(11)]
        changesD[OF core_ensureConfigVersionArtifactsForPools])
qed

lemma core_Ask: "changes same_core (getActiveConfigVersionArtifactForNode env node)"
proof (rule changesI)
  fix w r w' assume run: "getActiveConfigVersionArtifactForNode env node w = (r, w')"
  show "same_core (ct_Db w) (ct_Db w')"
    using run unfolding getActiveConfigVersionArtifactForNode_def
    by (auto simp: core.R_refl return_def split: prod.splits sum.splits if_splits elim!: andThen_cases
      dest!: readsD[OF reads_GetActiveConfigReleaseTargetForNodeID] readsD[OF reads_lookups(8)] readsD[OF reads_lookups(11)]
        changesD[OF core_pool_version_artifact])
qed

lemma run_release_step: "plan_step (ct_Db w) (ct_Db (run_release env op w))"
proof (cases op)
  case (Unblock_Checksum i operator reason)
  then show ?thesis using plans.changes_ignoring[OF plans_Unblock] by (simp add: plan_step_same)
next
  case (Ask_Config n)
  then show ?thesis using step_ignoring[OF changes_plan_core[OF core_Ask]] by simp
next
  case (Nodes_Change ns) then show ?thesis by (simp add: plan_step_def)
qed (simp_all add: step_ignoring CreateConfigReleasePlan_step StartConfigReleasePlan_step EvaluateConfigReleasePlan_step AdvanceConfigReleasePlan_step
  CompleteConfigReleasePlan_step FailConfigReleasePlan_step CancelConfigReleasePlan_step Report_step Heartbeat_step)

section \<open>Plans end once, and one at a time in a pool\<close>

definition finished :: "ConfigReleasePlan \<Rightarrow> bool" where
  "finished p \<longleftrightarrow> rp_Status p \<in> {ConfigReleaseStatusCompleted, ConfigReleaseStatusFailed, ConfigReleaseStatusCanceled}"

definition plans_ok :: "control_db \<Rightarrow> bool" where
  "plans_ok d \<longleftrightarrow> distinct (map rp_ID (db_Plans d))
    \<and> (\<forall>p \<in> set (db_Plans d). \<forall>q \<in> set (db_Plans d). plan_active p \<and> plan_active q \<and> rp_CanaryPoolName p = rp_CanaryPoolName q
         \<and> normalizeConfigReleasePoolName (rp_CanaryPoolName p) = rp_CanaryPoolName p \<longrightarrow> p = q)"

lemma next_id_fresh: "next_id ids \<notin> set ids"
proof -
  have "i \<in> set ids \<Longrightarrow> i \<le> foldr max ids 0" for i by (induction ids) auto
  then show ?thesis by (force simp: next_id_def)
qed

lemma update_rows_ids: "(\<And>q. rp_ID (f q) = rp_ID q) \<Longrightarrow> map rp_ID (update_rows P f ps) = map rp_ID ps"
  by (simp add: update_rows_def)

lemma set_update_rows: "set (update_rows P f xs) = (\<lambda>r. if P r then f r else r) ` set xs"
  by (simp add: update_rows_def)

lemma same_id: "distinct (map rp_ID ps) \<Longrightarrow> p \<in> set ps \<Longrightarrow> q \<in> set ps \<Longrightarrow> rp_ID p = rp_ID q \<Longrightarrow> p = q"
  by (auto simp: distinct_map dest: inj_onD)

lemma plan_step_cases:
  assumes "plan_step d d'"
  obtains (same) "db_Plans d' = db_Plans d"
    | (new) p x where "rp_Status p = ''draft''" "rp_CanaryPoolName p = normalizeConfigReleasePoolName x"
        "db_Plans d' = db_Plans d @ [p\<lparr>rp_ID := next_id (map rp_ID (db_Plans d))\<rparr>]"
    | (moved) p f where "plan_moves d p f" "db_Plans d' = update_rows (\<lambda>q. rp_ID q = rp_ID p) f (db_Plans d)"
  using assms by (auto simp: plan_step_def)

lemma plan_step_ok:
  assumes "plans_ok d" "plan_step d d'"
  shows "plans_ok d'"
  using assms(2)
proof (cases rule: plan_step_cases)
  case same show ?thesis using assms(1) unfolding plans_ok_def same .
next
  case (new p x)
  then show ?thesis using assms(1) next_id_fresh[of "map rp_ID (db_Plans d)"] by (auto simp: plans_ok_def)
next
  case (moved p f)
  note m = moved(1)[unfolded plan_moves_def]
  have ids: "distinct (map rp_ID (db_Plans d))" using assms(1) by (simp add: plans_ok_def)
  have unique: "q = p" if "q \<in> set (db_Plans d)" "rp_ID q = rp_ID p" for q using same_id[OF ids] m that by blast
  have act: "a = b" if ab: "a \<in> set (db_Plans d)" "b \<in> set (db_Plans d)" and n: "rp_ID b \<noteq> rp_ID p" "rp_ID a = rp_ID p"
    and c: "plan_active (f a)" "plan_active b" "rp_CanaryPoolName a = rp_CanaryPoolName b" "normalizeConfigReleasePoolName (rp_CanaryPoolName a) = rp_CanaryPoolName a" for a b
  proof -
    have [simp]: "a = p" using unique ab n by blast
    show ?thesis
    proof (cases "rp_Status p = ''draft''")
      case True
      then have "rp_Status (f p) = ''running''" using m c(1) by (auto simp: plan_edge_def)
      then have "others_inactive p d" using m True by blast
      then show ?thesis using ab c n checked_pool_id[OF c(4)] by (auto simp: others_inactive_def)
    next
      case False
      then have "plan_active p" using m by (auto simp: plan_edge_def)
      then show ?thesis using assms(1) ab c by (auto simp: plans_ok_def)
    qed
  qed
  have "x = y" if xy: "x \<in> set (db_Plans d')" "y \<in> set (db_Plans d')" and c: "plan_active x" "plan_active y" "rp_CanaryPoolName x = rp_CanaryPoolName y"
    "normalizeConfigReleasePoolName (rp_CanaryPoolName x) = rp_CanaryPoolName x" for x y
  proof -
    obtain a b where ab: "a \<in> set (db_Plans d)" "b \<in> set (db_Plans d)" and x: "x = (if rp_ID a = rp_ID p then f a else a)"
      and y: "y = (if rp_ID b = rp_ID p then f b else b)" using xy by (auto simp: moved(2) set_update_rows)
    have pools: "rp_CanaryPoolName x = rp_CanaryPoolName a" "rp_CanaryPoolName y = rp_CanaryPoolName b" using x y m by auto
    show ?thesis
    proof (cases "rp_ID a = rp_ID p"; cases "rp_ID b = rp_ID p")
      assume "rp_ID a = rp_ID p" "rp_ID b = rp_ID p"
      then show ?thesis using unique ab x y by metis
    next
      assume n: "rp_ID a = rp_ID p" "rp_ID b \<noteq> rp_ID p"
      then show ?thesis using act[of a b] ab c x y pools by auto
    next
      assume n: "rp_ID a \<noteq> rp_ID p" "rp_ID b = rp_ID p"
      then show ?thesis using act[of b a] ab c x y pools by auto
    next
      assume n: "rp_ID a \<noteq> rp_ID p" "rp_ID b \<noteq> rp_ID p"
      then show ?thesis using assms(1) ab c x y by (auto simp: plans_ok_def)
    qed
  qed
  then show ?thesis using ids m by (auto simp: plans_ok_def moved(2) update_rows_ids)
qed

lemma reachable_plans_ok: "release_reachable w \<Longrightarrow> plans_ok (ct_Db w)"
proof (induction rule: release_induct)
  case (init vs as acts) then show ?case by (simp add: plans_ok_def new_control_def)
next
  case (step env op w) then show ?case using plan_step_ok run_release_step by blast
qed

lemma run_releases_step: "plans_ok (ct_Db w) \<Longrightarrow> plans_ok (ct_Db (run_releases h w))"
  by (induction h arbitrary: w) (auto simp: run_releases_def intro: plan_step_ok run_release_step)

lemma finished_stays:
  assumes "plans_ok d" "plan_step d d'" "p \<in> set (db_Plans d)" "finished p"
  shows "p \<in> set (db_Plans d')"
  using assms(2)
proof (cases rule: plan_step_cases)
  case (moved q f)
  have "rp_ID p \<noteq> rp_ID q"
    using moved(1) assms same_id[of "db_Plans d" p q] by (auto simp: plan_moves_def plans_ok_def finished_def release_status plan_edge_def)
  then show ?thesis using assms(3) by (force simp: moved(2) set_update_rows)
qed (use assms in auto)

text \<open>A plan that is completed, failed or canceled stays what it is: whatever operations follow, its row is never changed again. So
  a completed release is not failed by a late report, and a failed one is not completed.\<close>

theorem finished_plan_final:
  assumes "release_reachable w" "p \<in> set (db_Plans (ct_Db w))" "finished p"
  shows "p \<in> set (db_Plans (ct_Db (run_releases h w)))"
  using assms(2) reachable_plans_ok[OF assms(1)]
proof (induction h arbitrary: w)
  case (Cons x h)
  obtain env op where [simp]: "x = (env, op)" by (cases x)
  have "p \<in> set (db_Plans (ct_Db (run_release env op w)))" using Cons.prems finished_stays[OF _ run_release_step _ assms(3)] by blast
  then show ?case using Cons.IH[of "run_release env op w"] plan_step_ok[OF Cons.prems(2) run_release_step] by (simp add: run_releases_def)
qed (simp add: run_releases_def)

text \<open>At most one release is under way in a pool: in every state that operations lead to, two active plans of the same pool are the
  same plan, for pools whose name is stored in normal form.\<close>

theorem one_release_per_pool:
  assumes "release_reachable w" "p \<in> set (db_Plans (ct_Db w))" "q \<in> set (db_Plans (ct_Db w))"
    and "configReleasePlanActive p" "configReleasePlanActive q" "rp_CanaryPoolName p = rp_CanaryPoolName q"
    and "normalizeConfigReleasePoolName (rp_CanaryPoolName p) = rp_CanaryPoolName p"
  shows "p = q"
  using reachable_plans_ok[OF assms(1)] assms(2-7) by (auto simp: plans_ok_def configReleasePlanActive_def release_status)

section \<open>A completed plan was applied\<close>

definition no_completion :: "control_db \<Rightarrow> control_db \<Rightarrow> bool" where
  "no_completion d d' \<longleftrightarrow> (\<forall>p \<in> set (db_Plans d'). rp_Status p = ''completed'' \<longrightarrow> p \<in> set (db_Plans d))"

interpretation completions: db_preorder no_completion
  by unfold_locales (auto simp: no_completion_def)

lemma completions_same: "same_plans d d' \<Longrightarrow> no_completion d d'"
  by (simp add: no_completion_def same_plans_def)

lemma completions_plans: "changes same_plans m \<Longrightarrow> changes no_completion m"
  by (erule changes_mono) (rule completions_same)

lemma completions_update_plan: "(\<And>p. rp_Status (f p) \<noteq> ''completed'') \<Longrightarrow> changes no_completion (update_plan env i f)"
  unfolding update_plan_def by (rule completions.changes_execute) (auto simp: no_completion_def set_update_rows)

lemma completions_insert_plan: "rp_Status p \<noteq> ''completed'' \<Longrightarrow> changes no_completion (insert_plan env p)"
  unfolding insert_plan_def by (rule completions.changes_statement) (auto simp: no_completion_def Let_def)

lemmas completion_parts = plans_core[OF core_releasePlanVersion] plans_core[OF core_ensureConfigVersionArtifactsForPools] plans_core[OF core_forceSync]
  plans_core[OF core_Ask] plans_block_checksum plans_update_targets plans_insert_target plans_Unblock

lemmas completion_plans [simp] = completion_parts[THEN completions_plans] beside_marks[THEN plans_beside, THEN completions_plans]

lemma completions_Create: "changes no_completion (CreateConfigReleasePlan env by input)"
  unfolding CreateConfigReleasePlan_def Let_def store_plan_def
  by (intro completions.changes_andThen completions.changes_transaction completions.changes_for_each completions_insert_plan) 
    (auto intro!: completions.changes_andThen completions.changes_transaction completions.changes_for_each completions_insert_plan simp: release_status)

lemma completions_Start: "changes no_completion (StartConfigReleasePlan env i)"
  unfolding StartConfigReleasePlan_def
  by (auto intro!: completions.changes_andThen completions.changes_transaction completions.changes_for_each completions_update_plan simp: release_status)

lemma completions_Cancel: "changes no_completion (CancelConfigReleasePlan env i)"
  unfolding CancelConfigReleasePlan_def
  by (auto intro!: completions.changes_andThen completions.changes_transaction completions_update_plan simp: release_status)

lemma completions_Fail: "changes no_completion (FailConfigReleasePlan env i reason)"
  unfolding FailConfigReleasePlan_def fail_transaction_def Let_def
  by (auto intro!: completions.changes_andThen completions.changes_transaction completions_update_plan simp: release_status)

lemma reads_reread: "reads (\<lambda>w. case GetConfigReleasePlanByID env i w of (r, w) \<Rightarrow> (Inr (g r), w))"
  by (auto simp: reads_def split: prod.splits dest: readsD[OF reads_lookups(1)])

lemma completions_Evaluate: "changes no_completion (EvaluateConfigReleasePlan env i)"
proof -
  have c: "changes no_completion (conclude_evaluation env plan e)" for plan e
    unfolding conclude_evaluation_def
    by (auto intro!: completions.changes_andThen completions_Fail simp: completions.changes_reads[OF reads_reread])
  have "changes no_completion (\<lambda>w. case foldl (evaluate_target env plan nodes) (e, w) ts of (e, w) \<Rightarrow> conclude_evaluation env plan e w)" for plan nodes e ts
  proof (rule changesI)
    fix w r w' assume run: "(case foldl (evaluate_target env plan nodes) (e, w) ts of (e, w) \<Rightarrow> conclude_evaluation env plan e w) = (r, w')"
    obtain e1 w1 where f: "foldl (evaluate_target env plan nodes) (e, w) ts = (e1, w1)" by fastforce
    show "no_completion (ct_Db w) (ct_Db w')"
      using completions_same[OF beside_summary[OF beside_evaluate_targets[OF f]]] changesD[OF c] run f
      by (auto intro: completions.R_trans)
  qed
  then show ?thesis unfolding EvaluateConfigReleasePlan_def by (auto intro!: completions.changes_andThen)
qed

lemma completions_fail_after_mark: "changes no_completion (\<lambda>w. FailConfigReleasePlan env i reason (ignoring (markConfigReleaseTargetFailed env t reason') w))"
proof (rule changesI)
  fix w r w' assume "FailConfigReleasePlan env i reason (ignoring (markConfigReleaseTargetFailed env t reason') w) = (r, w')"
  from completions.R_trans[OF completions.changes_ignoring changesD[OF completions_Fail this]]
  show "no_completion (ct_Db w) (ct_Db w')" by simp
qed

lemma completions_Report: "no_completion (ct_Db w) (ct_Db (updateConfigReleaseTargetFromApplyLog env payload w))"
  unfolding updateConfigReleaseTargetFromApplyLog_def Let_def
  by (rule completions.changes_ignoring)
    (auto split: prod.splits intro!: completions.changes_andThen completions_fail_after_mark)

lemma completions_Heartbeat: "no_completion (ct_Db w) (ct_Db (evaluateConfigReleaseTargetFromHeartbeat env node w))"
  unfolding evaluateConfigReleaseTargetFromHeartbeat_def Let_def
  by (rule completions.changes_ignoring)
    (auto split: prod.splits intro!: completions.changes_andThen completions_fail_after_mark)

lemma row_updated: "x \<in> set xs \<Longrightarrow> P x \<Longrightarrow> f x \<in> set (update_rows P f xs)"
  by (force simp: update_rows_def)

lemma upsert_outcome:
  assumes "upsertConfigPoolActiveVersionTx env v a plan w = (Inr (), w')"
  shows "\<exists>x \<in> set (db_PoolActives (ct_Db w')). pa_PoolName x = normalizeConfigReleasePoolName (ca_PoolName a) \<and> pa_ConfigVersionID x = v
    \<and> pa_Checksum x = ca_Checksum a \<and> pa_ActivatedByPlanID x = plan"
proof (cases "list_ex (\<lambda>x. pa_PoolName x = normalizeConfigReleasePoolName (ca_PoolName a)) (db_PoolActives (ct_Db w))")
  case True
  then obtain x where "x \<in> set (db_PoolActives (ct_Db w))" "pa_PoolName x = normalizeConfigReleasePoolName (ca_PoolName a)" by (auto simp: list_ex_iff)
  with assms True show ?thesis
    by (intro bexI[of _ "x\<lparr>pa_ConfigVersionID := v, pa_ArtifactID := ca_ID a, pa_Checksum := ca_Checksum a, pa_ActivatedByPlanID := plan, pa_ActivatedAt := ce_Now env\<rparr>"])
      (auto simp: upsertConfigPoolActiveVersionTx_def Let_def elim!: execute_cases intro!: row_updated[where f = "\<lambda>x. x\<lparr>pa_ConfigVersionID := v, pa_ArtifactID := ca_ID a,
         pa_Checksum := ca_Checksum a, pa_ActivatedByPlanID := plan, pa_ActivatedAt := ce_Now env\<rparr>"])
next
  case False
  then show ?thesis using assms by (auto simp: upsertConfigPoolActiveVersionTx_def Let_def elim!: execute_cases)
qed

lemma complete_outcome:
  assumes run: "completeConfigReleasePlan env p w = (r, w')" and p': "p' \<in> set (db_Plans (ct_Db w'))" "rp_Status p' = ''completed''" "p' \<notin> set (db_Plans (ct_Db w))"
  shows "\<exists>q \<in> set (db_Plans (ct_Db w)). rp_ID q = rp_ID p \<and> rp_ID p' = rp_ID q \<and> rp_ConfigVersionID p' = rp_ConfigVersionID q \<and> rp_CanaryPoolName p' = rp_CanaryPoolName q"
    "\<exists>a \<in> set (db_PoolActives (ct_Db w')). pa_PoolName a = normalizeConfigReleasePoolName (normalizeConfigReleasePoolName (rp_CanaryPoolName p))
       \<and> pa_ConfigVersionID a = rp_ConfigVersionID p \<and> pa_Checksum a = rp_Checksum p' \<and> pa_ActivatedByPlanID a = Some (rp_ID p)"
proof -
  let ?pool = "normalizeConfigReleasePoolName (rp_CanaryPoolName p)"
  obtain version artifact w1 where a: "ActivateConfigVersionForPool env (rp_ConfigVersionID p) (rp_CanaryPoolName p) (Some (rp_ID p)) w = (Inr (version, artifact), w1)"
    and rest: "andThen (update_plan env (rp_ID p) (\<lambda>p. p\<lparr>rp_Status := ConfigReleaseStatusCompleted, rp_CurrentStage := 3,
        rp_CompletedAt := Some (ce_Now env), rp_Checksum := ca_Checksum artifact\<rparr>)) (\<lambda>_.
      andThen (send (Pool_Broadcast (cv_ID version) (ca_PoolName artifact))) (\<lambda>_. GetConfigReleasePlan env (rp_ID p))) w1 = (r, w')"
    using run unfolding completeConfigReleasePlan_def
  proof (cases rule: andThen_cases)
    case (error e)
    then show ?thesis using p' changesD[OF plans_ActivateConfigVersionForPool error(1)] by (simp add: same_plans_def)
  next
    case (ok x w1) then show ?thesis using that by (cases x) auto
  qed
  have plans1: "db_Plans (ct_Db w1) = db_Plans (ct_Db w)" using changesD[OF plans_ActivateConfigVersionForPool a] by (simp add: same_plans_def)
  have tail: "reads (\<lambda>w. andThen (send m) (\<lambda>_. GetConfigReleasePlan env i) w)" for m i by auto
  obtain w2 where u: "update_plan env (rp_ID p) (\<lambda>p. p\<lparr>rp_Status := ConfigReleaseStatusCompleted, rp_CurrentStage := 3,
        rp_CompletedAt := Some (ce_Now env), rp_Checksum := ca_Checksum artifact\<rparr>) w1 = (Inr (), w2)" and w': "ct_Db w' = ct_Db w2"
    using rest
  proof (cases rule: andThen_cases)
    case (error e)
    then have "ct_Db w' = ct_Db w1" by (auto simp: update_plan_def elim: execute_cases)
    then show ?thesis using p' plans1 by simp
  next
    case (ok x w2) then show ?thesis using readsD[OF tail] that by auto
  qed
  have d2: "ct_Db w2 = (ct_Db w1)\<lparr>db_Plans := update_rows (\<lambda>q. rp_ID q = rp_ID p) (\<lambda>p. p\<lparr>rp_Status := ConfigReleaseStatusCompleted, rp_CurrentStage := 3,
        rp_CompletedAt := Some (ce_Now env), rp_Checksum := ca_Checksum artifact\<rparr>) (db_Plans (ct_Db w1))\<rparr>"
    using u by (auto simp: update_plan_def elim!: execute_cases)
  obtain q where q: "q \<in> set (db_Plans (ct_Db w))" "rp_ID q = rp_ID p"
    "p' = q\<lparr>rp_Status := ConfigReleaseStatusCompleted, rp_CurrentStage := 3, rp_CompletedAt := Some (ce_Now env), rp_Checksum := ca_Checksum artifact\<rparr>"
    using p' w' d2 plans1 by (auto simp: set_update_rows split: if_splits)
  then show "\<exists>q \<in> set (db_Plans (ct_Db w)). rp_ID q = rp_ID p \<and> rp_ID p' = rp_ID q \<and> rp_ConfigVersionID p' = rp_ConfigVersionID q \<and> rp_CanaryPoolName p' = rp_CanaryPoolName q"
    by (intro bexI[of _ q]) auto
  have "cv_ID version = rp_ConfigVersionID p \<and> ca_PoolName artifact = ?pool
    \<and> (\<exists>w3 w4. upsertConfigPoolActiveVersionTx env (cv_ID version) artifact (Some (rp_ID p)) w3 = (Inr (), w4) \<and> ct_Db w1 = ct_Db w4)"
    using a by (auto simp: ActivateConfigVersionForPool_def andThen_Inr Let_def return_def GetConfigVersionByID_def GetConfigVersionArtifact_def
      dest!: query_Inr first_row_filter transaction_Inr)
  then show "\<exists>a \<in> set (db_PoolActives (ct_Db w')). pa_PoolName a = normalizeConfigReleasePoolName ?pool
       \<and> pa_ConfigVersionID a = rp_ConfigVersionID p \<and> pa_Checksum a = rp_Checksum p' \<and> pa_ActivatedByPlanID a = Some (rp_ID p)"
    using q(3) w' d2 upsert_outcome by fastforce
qed

lemma expand_outcome:
  assumes "expandConfigReleasePlan env p pc w = (r, w')" "\<not> no_completion (ct_Db w) (ct_Db w')"
  obtains w1 where "ct_Db w1 = ct_Db w" "completeConfigReleasePlan env p w1 = (r, w')"
proof -
  have no: "changes no_completion (andThen (transaction env (andThen (update_plan env i (\<lambda>p. p\<lparr>rp_Status := ConfigReleaseStatusRunning, rp_CurrentStage := 2\<rparr>)) (\<lambda>_.
      for_each (insert_target env) ts))) (\<lambda>_. andThen (sendConfigReleaseForceSyncNotifications ns) (\<lambda>_. GetConfigReleasePlan env i)))" for i ts ns
    by (auto intro!: completions.changes_andThen completions.changes_transaction completions.changes_for_each completions_update_plan simp: release_status)
  have "(\<exists>w1. ct_Db w1 = ct_Db w \<and> completeConfigReleasePlan env p w1 = (r, w')) \<or> no_completion (ct_Db w) (ct_Db w')"
    using assms(1) unfolding expandConfigReleasePlan_def Let_def
    by (auto elim!: andThen_cases[where m = "GetConfigVersionByID _ _"] andThen_cases[where m = "selectReleasePlanNodes _ _ _"]
        andThen_cases[where m = "ListConfigReleaseTargets _ _"] andThen_cases[where m = "GetConfigVersionArtifact _ _ _"]
      simp: completions.R_refl fail_def split: if_splits
      dest!: readsD[OF reads_lookups(8)] readsD[OF reads_selectReleasePlanNodes] readsD[OF reads_lookups(2)] readsD[OF reads_lookups(11)] changesD[OF no]) metis
  then show ?thesis using assms(2) that by blast
qed

lemma healthy_completion:
  assumes run: "andThen (GetConfigReleasePlanByID env i) (\<lambda>plan.
      if b plan then m plan else if \<not> configReleasePlanActive plan then fail (x plan)
      else andThen (EvaluateConfigReleasePlan env i) (\<lambda>e. if \<not> healthy_enough e then fail y else g (ev_Plan e))) w = (r, w')"
    and new: "\<not> no_completion (ct_Db w) (ct_Db w')" and m: "\<And>plan. changes no_completion (m plan)"
  obtains p w1 where "p \<in> set (db_Plans (ct_Db w))" "rp_ID p = i" "same_beside (ct_Db w) (ct_Db w1)" "g p w1 = (r, w')"
    "\<forall>t \<in> set (db_Targets (ct_Db w)). rt_PlanID t = i \<longrightarrow> applied env (db_Nodes (ct_Db w)) t"
  using run
proof (cases rule: andThen_cases)
  case (error e) then show ?thesis using new readsD[OF reads_lookups(1)] completions.R_refl by metis
next
  case (ok p w0)
  note d0 = readsD[OF reads_lookups(1) ok(1)]
  have p: "yields (GetConfigReleasePlanByID env i) (ct_Db w0) p" using yieldsI[of "GetConfigReleasePlanByID env i", OF ok(1)] d0 by simp
  have "\<not> b p" using ok(2) new d0 changesD[OF m[of p], of w0 r w'] by auto
  then have nb: "\<not> b p" "configReleasePlanActive p" using ok(2) new d0 by (auto simp: fail_def completions.R_refl split: if_splits)
  then have "andThen (EvaluateConfigReleasePlan env i) (\<lambda>e. if \<not> healthy_enough e then fail y else g (ev_Plan e)) w0 = (r, w')" using ok(2) by simp
  then show ?thesis
  proof (cases rule: andThen_cases)
    case (error e) then show ?thesis using new d0 changesD[OF completions_Evaluate] by metis
  next
    case (ok e w1)
    show ?thesis
    proof (cases "healthy_enough e")
      case True
      note o = evaluation_outcome[OF ok(1) p nb(2) True]
      show ?thesis using that[of p w1] GetConfigReleasePlanByID_Inr[OF p] d0 o ok(2) True by auto
    next
      case False
      then show ?thesis using ok new d0 changesD[OF completions_Evaluate ok(1)] by (simp add: fail_def)
    qed
  qed
qed

lemma completion_source:
  assumes "\<not> no_completion (ct_Db w) (ct_Db (run_release env op w))"
  obtains p w1 r where "p \<in> set (db_Plans (ct_Db w))" "same_beside (ct_Db w) (ct_Db w1)" "completeConfigReleasePlan env p w1 = (r, run_release env op w)"
    "\<forall>t \<in> set (db_Targets (ct_Db w)). rt_PlanID t = rp_ID p \<longrightarrow> applied env (db_Nodes (ct_Db w)) t"
proof (cases op)
  case (Advance_Plan i)
  obtain r w' where w': "AdvanceConfigReleasePlan env i w = (r, w')" "run_release env op w = w'" using Advance_Plan by (auto simp: ignoring_def) (metis prod.collapse)
  obtain p w1 where p: "p \<in> set (db_Plans (ct_Db w))" "rp_ID p = i" "same_beside (ct_Db w) (ct_Db w1)"
    "(if rp_CurrentStage p = 1 then expandConfigReleasePlan env p (rp_CanaryPercent p) else completeConfigReleasePlan env p) w1 = (r, w')"
    "\<forall>t \<in> set (db_Targets (ct_Db w)). rt_PlanID t = i \<longrightarrow> applied env (db_Nodes (ct_Db w)) t"
    using healthy_completion[where b = "\<lambda>p. rp_Status p = ConfigReleaseStatusDraft" and m = "\<lambda>_. StartConfigReleasePlan env i"
        and g = "\<lambda>p. if rp_CurrentStage p = 1 then expandConfigReleasePlan env p (rp_CanaryPercent p) else completeConfigReleasePlan env p",
        OF w'(1)[unfolded AdvanceConfigReleasePlan_def] _ completions_Start] assms w'(2) by metis
  have new: "\<not> no_completion (ct_Db w1) (ct_Db w')"
    using assms w'(2) p(3) by (auto simp: no_completion_def same_beside_def beside_targets_def)
  obtain w2 where "ct_Db w2 = ct_Db w1" "completeConfigReleasePlan env p w2 = (r, w')"
    using p(4) by (cases "rp_CurrentStage p = 1") (auto elim: expand_outcome[OF _ new])
  then show ?thesis using that[of p w2 r] p w'(2) by simp
next
  case (Complete_Plan i)
  obtain r w' where w': "CompleteConfigReleasePlan env i w = (r, w')" "run_release env op w = w'" using Complete_Plan by (auto simp: ignoring_def) (metis prod.collapse)
  obtain p w1 where p: "p \<in> set (db_Plans (ct_Db w))" "rp_ID p = i" "same_beside (ct_Db w) (ct_Db w1)" "completeConfigReleasePlan env p w1 = (r, w')"
    "\<forall>t \<in> set (db_Targets (ct_Db w)). rt_PlanID t = i \<longrightarrow> applied env (db_Nodes (ct_Db w)) t"
    using healthy_completion[where b = "\<lambda>p. rp_Status p = ConfigReleaseStatusCompleted" and m = "\<lambda>_. GetConfigReleasePlan env i"
        and g = "completeConfigReleasePlan env", OF w'(1)[unfolded CompleteConfigReleasePlan_def]] assms w'(2) by (metis completions.changes_reads reads_GetConfigReleasePlan)
  then show ?thesis using that[of p w1 r] w'(2) by simp
next
  case (Nodes_Change ns) then show ?thesis using assms by (simp add: no_completion_def)
qed (use assms in \<open>simp_all add: completions.changes_ignoring completions_Create completions_Start completions_Evaluate completions_Fail
  completions_Cancel completions_Report completions_Heartbeat\<close>)

text \<open>C29: A release is completed only when it was applied: an operation that makes a plan completed finds every target of the plan succeeded, or its node
  online and running the target's checksum; and it makes the plan's version, with the checksum the plan then shows, the active one of the pool.\<close>

theorem completed_means_applied:
  assumes "release_reachable w" "p' \<in> set (db_Plans (ct_Db (run_release env op w)))" "rp_Status p' = ConfigReleaseStatusCompleted" "p' \<notin> set (db_Plans (ct_Db w))"
  shows "(\<forall>t \<in> set (db_Targets (ct_Db w)). rt_PlanID t = rp_ID p' \<longrightarrow> applied env (db_Nodes (ct_Db w)) t)
    \<and> (\<exists>a \<in> set (db_PoolActives (ct_Db (run_release env op w))).
         pa_PoolName a = normalizeConfigReleasePoolName (normalizeConfigReleasePoolName (rp_CanaryPoolName p'))
         \<and> pa_ConfigVersionID a = rp_ConfigVersionID p' \<and> pa_Checksum a = rp_Checksum p' \<and> pa_ActivatedByPlanID a = Some (rp_ID p'))"
proof -
  have c: "rp_Status p' = ''completed''" using assms(3) by (simp add: release_status)
  have "\<not> no_completion (ct_Db w) (ct_Db (run_release env op w))" using assms c by (auto simp: no_completion_def)
  then obtain p w1 r where p: "p \<in> set (db_Plans (ct_Db w))" "same_beside (ct_Db w) (ct_Db w1)" "completeConfigReleasePlan env p w1 = (r, run_release env op w)"
    "\<forall>t \<in> set (db_Targets (ct_Db w)). rt_PlanID t = rp_ID p \<longrightarrow> applied env (db_Nodes (ct_Db w)) t" by (rule completion_source)
  have same: "db_Plans (ct_Db w1) = db_Plans (ct_Db w)" using beside_summary[OF p(2)] by (simp add: same_plans_def)
  note o = complete_outcome[OF p(3) assms(2) c, unfolded same, OF assms(4)]
  then obtain q where "q \<in> set (db_Plans (ct_Db w))" "rp_ID q = rp_ID p" "rp_ID p' = rp_ID q" "rp_ConfigVersionID p' = rp_ConfigVersionID q"
    "rp_CanaryPoolName p' = rp_CanaryPoolName q" by blast
  moreover have "q = p" using same_id calculation p(1) reachable_plans_ok[OF assms(1)] by (auto simp: plans_ok_def)
  ultimately show ?thesis using o(2) p(4) by simp
qed

end
