(* ===== verification/Release_Blocks.thy ===== *)
theory Release_Blocks
  imports Release_Reach
begin

text \<open>
  Failed releases: the checksum of a failed plan is blocked in its pool until somebody unblocks it with a reason, and a failed
  report of a node ends its release at once. An example of a pool with two nodes shows that the properties of releases apply.
\<close>

section \<open>Failed checksums are blocked\<close>

definition blocked_ok :: "control_db \<Rightarrow> bool" where
  "blocked_ok d \<longleftrightarrow> distinct (map rp_ID (db_Plans d))
    \<and> (\<forall>p \<in> set (db_Plans d). rp_Status p = ''failed'' \<longrightarrow>
         (\<exists>b \<in> set (db_Blocked d). rb_PoolName b = normalizeConfigReleasePoolName (rp_CanaryPoolName p) \<and> rb_Checksum b = rp_Checksum p))
    \<and> (\<forall>b \<in> set (db_Blocked d). rb_ExpiresAt b = None
         \<and> (rb_UnblockedAt b \<noteq> None \<longrightarrow> (\<exists>a \<in> set (db_Audits d). ra_BlockedChecksumID a = rb_ID b \<and> ra_Reason a \<noteq> [])))"

definition keeps_blocked :: "control_db \<Rightarrow> control_db \<Rightarrow> bool" where
  "keeps_blocked d d' \<longleftrightarrow> (blocked_ok d \<longrightarrow> blocked_ok d')"

interpretation blocking: db_preorder keeps_blocked
  by unfold_locales (auto simp: keeps_blocked_def)

lemma blocking_beside: "same_beside d d' \<Longrightarrow> keeps_blocked d d'"
  by (simp add: keeps_blocked_def blocked_ok_def same_beside_def beside_targets_def)

lemma blocking_core: "changes same_core m \<Longrightarrow> changes keeps_blocked m"
  by (erule changes_mono) (simp add: blocking_beside same_beside_def same_core_def)

lemma blocking_targets: "changes same_beside m \<Longrightarrow> changes keeps_blocked m"
  by (erule changes_mono) (rule blocking_beside)

lemmas blocking_parts [simp] = blocking_core[OF core_releasePlanVersion] blocking_core[OF core_ensureConfigVersionArtifactsForPools]
  blocking_core[OF core_forceSync] blocking_core[OF core_Ask] blocking_targets[OF beside_update_targets] blocking_targets[OF beside_insert_target]
  beside_marks[THEN blocking_targets]

lemma blocking_update_plan:
  assumes "\<And>p. rp_Status (f p) \<noteq> ''failed'' \<and> rp_ID (f p) = rp_ID p"
  shows "changes keeps_blocked (update_plan env i f)"
  unfolding update_plan_def
  by (rule blocking.changes_execute) (auto simp: keeps_blocked_def blocked_ok_def set_update_rows update_rows_ids assms)

lemma blocking_insert_plan: "rp_Status p \<noteq> ''failed'' \<Longrightarrow> changes keeps_blocked (insert_plan env p)"
  unfolding insert_plan_def
  by (rule blocking.changes_statement) (use next_id_fresh in \<open>auto simp: keeps_blocked_def blocked_ok_def Let_def simp del: set_map\<close>)

lemma blocking_upsert: "changes keeps_blocked (upsertConfigPoolActiveVersionTx env v a p)"
  unfolding upsertConfigPoolActiveVersionTx_def Let_def
  by (rule blocking.changes_execute) (simp add: keeps_blocked_def blocked_ok_def)

lemma block_checksum_outcome:
  assumes "block_checksum env p v reason w = (Inr (), w')"
  shows "db_Plans (ct_Db w') = db_Plans (ct_Db w)" "db_Audits (ct_Db w') = db_Audits (ct_Db w)"
    "\<exists>b \<in> set (db_Blocked (ct_Db w')). rb_PoolName b = normalizeConfigReleasePoolName (rp_CanaryPoolName p) \<and> rb_Checksum b = rp_Checksum p \<and> rb_UnblockedAt b = None \<and> rb_ExpiresAt b = None"
    "b \<in> set (db_Blocked (ct_Db w)) \<Longrightarrow> \<exists>b' \<in> set (db_Blocked (ct_Db w')). rb_PoolName b' = rb_PoolName b \<and> rb_Checksum b' = rb_Checksum b"
    "b' \<in> set (db_Blocked (ct_Db w')) \<Longrightarrow> b' \<in> set (db_Blocked (ct_Db w)) \<or> rb_UnblockedAt b' = None \<and> rb_ExpiresAt b' = None"
proof -
  let ?P = "\<lambda>b. rb_PoolName b = normalizeConfigReleasePoolName (rp_CanaryPoolName p) \<and> rb_Checksum b = rp_Checksum p"
  let ?f = "\<lambda>b. b\<lparr>rb_ConfigVersionID := cv_ID v, rb_PlanID := Some (rp_ID p), rb_Version := cv_Version v, rb_Reason := reason,
                 rb_ExpiresAt := None, rb_UnblockedAt := None, rb_UnblockedBy := [], rb_UnblockReason := []\<rparr>"
  let ?old = "db_Blocked (ct_Db w)" and ?new = "db_Blocked (ct_Db w')"
  show "db_Plans (ct_Db w') = db_Plans (ct_Db w)" "db_Audits (ct_Db w') = db_Audits (ct_Db w)"
    using assms by (auto simp: block_checksum_def Let_def elim!: execute_cases)
  have rows: "?new = (if list_ex ?P ?old then update_rows ?P ?f ?old
     else ?old @ [\<lparr>rb_ID = next_id (map rb_ID ?old), rb_PoolName = normalizeConfigReleasePoolName (rp_CanaryPoolName p), rb_ConfigVersionID = cv_ID v,
        rb_PlanID = Some (rp_ID p), rb_Version = cv_Version v, rb_Checksum = rp_Checksum p, rb_Reason = reason, rb_ExpiresAt = None,
        rb_UnblockedAt = None, rb_UnblockedBy = [], rb_UnblockReason = []\<rparr>])"
    using assms by (auto simp: block_checksum_def Let_def elim!: execute_cases)
  show "\<exists>b \<in> set ?new. rb_PoolName b = normalizeConfigReleasePoolName (rp_CanaryPoolName p) \<and> rb_Checksum b = rp_Checksum p \<and> rb_UnblockedAt b = None \<and> rb_ExpiresAt b = None"
  proof (cases "list_ex ?P ?old")
    case True
    then obtain b where "b \<in> set ?old" "?P b" by (auto simp: list_ex_iff)
    then show ?thesis using True row_updated[of b ?old ?P ?f] by (intro bexI[of _ "?f b"]) (simp_all add: rows)
  qed (simp add: rows)
  show "\<exists>b' \<in> set ?new. rb_PoolName b' = rb_PoolName b \<and> rb_Checksum b' = rb_Checksum b" if "b \<in> set ?old"
  proof (cases "list_ex ?P ?old")
    case True
    have "(if ?P b then ?f b else b) \<in> set ?new" using that True by (auto simp: rows set_update_rows)
    then show ?thesis by (intro bexI[of _ "if ?P b then ?f b else b"]) auto
  qed (use that in \<open>auto simp: rows\<close>)
  show "b' \<in> set ?old \<or> rb_UnblockedAt b' = None \<and> rb_ExpiresAt b' = None" if "b' \<in> set ?new"
    using that by (auto simp: rows set_update_rows split: if_splits)
qed

lemma fail_transaction_outcome:
  assumes "fail_transaction env p v reason w = (Inr (), w')"
  obtains w1 w2 where "db_Plans (ct_Db w1) = update_rows (\<lambda>q. rp_ID q = rp_ID p)
      (\<lambda>p. p\<lparr>rp_Status := ConfigReleaseStatusFailed, rp_FailureReason := reason, rp_FailedAt := Some (ce_Now env)\<rparr>) (db_Plans (ct_Db w))"
    "db_Blocked (ct_Db w1) = db_Blocked (ct_Db w)" "db_Audits (ct_Db w1) = db_Audits (ct_Db w)"
    "db_Targets (ct_Db w1) = update_rows (\<lambda>t. rt_PlanID t = rp_ID p \<and> rt_Status t \<in>
           {ConfigReleaseTargetPending, ConfigReleaseTargetApplying, ConfigReleaseTargetObserving, ConfigReleaseTargetSucceeded})
         (\<lambda>t. t\<lparr>rt_Status := ConfigReleaseTargetRolledBack, rt_FailureReason := reason, rt_CompletedAt := Some (ce_Now env)\<rparr>) (db_Targets (ct_Db w))"
    "block_checksum env p v reason w1 = (Inr (), w2)" "ct_Db w' = ct_Db w2"
proof -
  obtain w0 w2 where t: "ct_Db w0 = ct_Db w" "ct_Db w' = ct_Db w2" and "andThen (update_plan env (rp_ID p)
         (\<lambda>p. p\<lparr>rp_Status := ConfigReleaseStatusFailed, rp_FailureReason := reason, rp_FailedAt := Some (ce_Now env)\<rparr>)) (\<lambda>_.
       andThen (update_targets env (\<lambda>t. rt_PlanID t = rp_ID p \<and> rt_Status t \<in>
           {ConfigReleaseTargetPending, ConfigReleaseTargetApplying, ConfigReleaseTargetObserving, ConfigReleaseTargetSucceeded})
         (\<lambda>t. t\<lparr>rt_Status := ConfigReleaseTargetRolledBack, rt_FailureReason := reason, rt_CompletedAt := Some (ce_Now env)\<rparr>)) (\<lambda>_.
       block_checksum env p v reason)) w0 = (Inr (), w2)"
    using transaction_Inr[OF assms[unfolded fail_transaction_def]] by blast
  then obtain wa wb where a: "update_plan env (rp_ID p) (\<lambda>p. p\<lparr>rp_Status := ConfigReleaseStatusFailed, rp_FailureReason := reason, rp_FailedAt := Some (ce_Now env)\<rparr>) w0 = (Inr (), wa)"
    and b: "update_targets env (\<lambda>t. rt_PlanID t = rp_ID p \<and> rt_Status t \<in>
           {ConfigReleaseTargetPending, ConfigReleaseTargetApplying, ConfigReleaseTargetObserving, ConfigReleaseTargetSucceeded})
         (\<lambda>t. t\<lparr>rt_Status := ConfigReleaseTargetRolledBack, rt_FailureReason := reason, rt_CompletedAt := Some (ce_Now env)\<rparr>) wa = (Inr (), wb)"
    and c: "block_checksum env p v reason wb = (Inr (), w2)" by (auto simp: andThen_Inr)
  show ?thesis
    by (rule that[OF _ _ _ _ c t(2)]) (use a b t in \<open>auto simp: update_plan_def update_targets_def elim!: execute_cases\<close>)
qed

lemma blocking_fail:
  assumes "p \<in> set (db_Plans d)"
  shows "changes_at d keeps_blocked (fail_transaction env p v reason)"
  unfolding changes_at_def
proof (intro allI impI)
  fix w r w' assume d: "ct_Db w = d" and run: "fail_transaction env p v reason w = (r, w')"
  show "keeps_blocked d (ct_Db w')"
  proof (cases r)
    case (Inl e)
    then have "ct_Db w' = d" using run d unfolding fail_transaction_def by (auto elim: transaction_cases)
    then show ?thesis by (simp add: blocking.R_refl)
  next
    case (Inr u)
    with run obtain w1 w2 where p1: "db_Plans (ct_Db w1) = update_rows (\<lambda>q. rp_ID q = rp_ID p)
        (\<lambda>p. p\<lparr>rp_Status := ConfigReleaseStatusFailed, rp_FailureReason := reason, rp_FailedAt := Some (ce_Now env)\<rparr>) (db_Plans d)"
      and same: "db_Blocked (ct_Db w1) = db_Blocked d" "db_Audits (ct_Db w1) = db_Audits d"
      and b: "block_checksum env p v reason w1 = (Inr (), w2)" and w': "ct_Db w' = ct_Db w2"
      using d by (auto elim: fail_transaction_outcome)
    note o = block_checksum_outcome[OF b]
    show ?thesis unfolding keeps_blocked_def
    proof
      assume ok: "blocked_ok d"
      have row: "\<exists>b \<in> set (db_Blocked (ct_Db w')). rb_PoolName b = normalizeConfigReleasePoolName (rp_CanaryPoolName q) \<and> rb_Checksum b = rp_Checksum q"
        if q: "q \<in> set (db_Plans (ct_Db w'))" "rp_Status q = ''failed''" for q
      proof (cases "rp_ID q = rp_ID p")
        case True
        obtain x where x: "x \<in> set (db_Plans d)" "rp_ID x = rp_ID p" "rp_CanaryPoolName q = rp_CanaryPoolName x" "rp_Checksum q = rp_Checksum x"
          using q(1) w' o(1) p1 True by (auto simp: set_update_rows split: if_splits)
        have "x = p" using same_id[OF _ x(1) assms x(2)] ok by (simp add: blocked_ok_def)
        with x have "rp_CanaryPoolName q = rp_CanaryPoolName p \<and> rp_Checksum q = rp_Checksum p" by simp
        then show ?thesis using o(3) w' by auto
      next
        case False
        then have "q \<in> set (db_Plans d)" using q w' o(1) p1 by (auto simp: set_update_rows)
        then obtain b0 where "b0 \<in> set (db_Blocked d)" "rb_PoolName b0 = normalizeConfigReleasePoolName (rp_CanaryPoolName q)" "rb_Checksum b0 = rp_Checksum q"
          using ok q(2) by (auto simp: blocked_ok_def)
        then show ?thesis using o(4)[of b0] same w' by fastforce
      qed
      have "rb_ExpiresAt b = None \<and> (rb_UnblockedAt b \<noteq> None \<longrightarrow> (\<exists>a \<in> set (db_Audits (ct_Db w')). ra_BlockedChecksumID a = rb_ID b \<and> ra_Reason a \<noteq> []))"
        if "b \<in> set (db_Blocked (ct_Db w'))" for b
        using o(5)[of b] that ok same o(2) w' by (auto simp: blocked_ok_def)
      then show "blocked_ok (ct_Db w')" using row ok o(1) p1 w' by (simp add: blocked_ok_def update_rows_ids)
    qed
  qed
qed

lemma at_blocking:
  assumes "changes_at d keeps_blocked m" "\<And>x. changes keeps_blocked (f x)"
  shows "changes_at d keeps_blocked (andThen m f)"
  using assms unfolding changes_at_def changes_def by (auto elim!: andThen_cases intro: blocking.R_trans) (metis blocking.R_trans)

lemma blocking_Fail: "changes keeps_blocked (FailConfigReleasePlan env i reason)"
  unfolding FailConfigReleasePlan_def Let_def
  by (rule changes_atI, intro at_blocking[OF blocking_fail] at_read at_if) (auto simp: blocking.R_refl dest: GetConfigReleasePlanByID_Inr)

lemma blocking_Create: "changes keeps_blocked (CreateConfigReleasePlan env by input)"
  unfolding CreateConfigReleasePlan_def Let_def store_plan_def
  by (intro blocking.changes_andThen blocking.changes_transaction blocking.changes_for_each blocking_insert_plan)
    (auto intro!: blocking.changes_andThen blocking.changes_transaction blocking.changes_for_each blocking_insert_plan simp: release_status)

lemma blocking_Start: "changes keeps_blocked (StartConfigReleasePlan env i)"
  unfolding StartConfigReleasePlan_def
  by (auto intro!: blocking.changes_andThen blocking.changes_transaction blocking.changes_for_each blocking_update_plan simp: release_status)

lemma blocking_Cancel: "changes keeps_blocked (CancelConfigReleasePlan env i)"
  unfolding CancelConfigReleasePlan_def
  by (auto intro!: blocking.changes_andThen blocking.changes_transaction blocking_update_plan simp: release_status)

lemma blocking_Evaluate: "changes keeps_blocked (EvaluateConfigReleasePlan env i)"
proof -
  have c: "changes keeps_blocked (conclude_evaluation env plan e)" for plan e
    unfolding conclude_evaluation_def by (auto intro!: blocking.changes_andThen blocking_Fail simp: blocking.changes_reads[OF reads_reread])
  have "changes keeps_blocked (\<lambda>w. case foldl (evaluate_target env plan nodes) (e, w) ts of (e, w) \<Rightarrow> conclude_evaluation env plan e w)" for plan nodes e ts
  proof (rule changesI)
    fix w r w' assume run: "(case foldl (evaluate_target env plan nodes) (e, w) ts of (e, w) \<Rightarrow> conclude_evaluation env plan e w) = (r, w')"
    obtain e1 w1 where f: "foldl (evaluate_target env plan nodes) (e, w) ts = (e1, w1)" by fastforce
    show "keeps_blocked (ct_Db w) (ct_Db w')"
      using blocking_beside[OF beside_evaluate_targets[OF f]] changesD[OF c] run f by (auto intro: blocking.R_trans)
  qed
  then show ?thesis unfolding EvaluateConfigReleasePlan_def by (auto intro!: blocking.changes_andThen)
qed

lemma blocking_complete: "changes keeps_blocked (completeConfigReleasePlan env p)"
  unfolding completeConfigReleasePlan_def ActivateConfigVersionForPool_def Let_def
  by (auto intro!: blocking.changes_andThen blocking.changes_transaction blocking_upsert blocking_update_plan simp: release_status)

lemma blocking_expand: "changes keeps_blocked (expandConfigReleasePlan env p pc)"
  unfolding expandConfigReleasePlan_def Let_def
  by (auto intro!: blocking.changes_andThen blocking.changes_transaction blocking.changes_for_each blocking_update_plan blocking_complete simp: release_status)

lemma blocking_Advance: "changes keeps_blocked (AdvanceConfigReleasePlan env i)"
  unfolding AdvanceConfigReleasePlan_def
  by (auto intro!: blocking.changes_andThen blocking_Start blocking_Evaluate blocking_expand blocking_complete)

lemma blocking_Complete: "changes keeps_blocked (CompleteConfigReleasePlan env i)"
  unfolding CompleteConfigReleasePlan_def by (auto intro!: blocking.changes_andThen blocking_Evaluate blocking_complete)

lemma blocking_fail_after_mark: "changes keeps_blocked (\<lambda>w. FailConfigReleasePlan env i reason (ignoring (markConfigReleaseTargetFailed env t reason') w))"
proof (rule changesI)
  fix w r w' assume "FailConfigReleasePlan env i reason (ignoring (markConfigReleaseTargetFailed env t reason') w) = (r, w')"
  from blocking.R_trans[OF blocking.changes_ignoring changesD[OF blocking_Fail this]]
  show "keeps_blocked (ct_Db w) (ct_Db w')" by simp
qed

lemma blocking_Report: "keeps_blocked (ct_Db w) (ct_Db (updateConfigReleaseTargetFromApplyLog env payload w))"
  unfolding updateConfigReleaseTargetFromApplyLog_def Let_def
  by (rule blocking.changes_ignoring) (auto split: prod.splits intro!: blocking.changes_andThen blocking_fail_after_mark)

lemma blocking_Heartbeat: "keeps_blocked (ct_Db w) (ct_Db (evaluateConfigReleaseTargetFromHeartbeat env node w))"
  unfolding evaluateConfigReleaseTargetFromHeartbeat_def Let_def
  by (rule blocking.changes_ignoring) (auto split: prod.splits intro!: blocking.changes_andThen blocking_fail_after_mark)

lemma updated_row:
  assumes "x \<in> set xs" "\<And>y. g (f y) = g y"
  shows "\<exists>y \<in> set (update_rows P f xs). g y = g x"
  by (intro bexI[of _ "if P x then f x else x"]) (use assms in \<open>auto simp: set_update_rows\<close>)

text \<open>Unblocking records its reason in the same transaction.\<close>

lemma blocking_unblock_transaction:
  assumes "reason \<noteq> []" and audit: "\<And>d. ra_BlockedChecksumID (audit d) = rb_ID b \<and> ra_Reason (audit d) = reason"
  shows "changes keeps_blocked (transaction env (andThen (execute env (\<lambda>d. d\<lparr>db_Blocked := update_rows (\<lambda>c. rb_ID c = rb_ID b)
      (\<lambda>c. c\<lparr>rb_UnblockedAt := t, rb_UnblockedBy := u, rb_UnblockReason := reason\<rparr>) (db_Blocked d)\<rparr>)) (\<lambda>_.
    execute env (\<lambda>d. d\<lparr>db_Audits := db_Audits d @ [audit d]\<rparr>))))"
proof (rule changesI)
  fix w r w' assume "transaction env (andThen (execute env (\<lambda>d. d\<lparr>db_Blocked := update_rows (\<lambda>c. rb_ID c = rb_ID b)
      (\<lambda>c. c\<lparr>rb_UnblockedAt := t, rb_UnblockedBy := u, rb_UnblockReason := reason\<rparr>) (db_Blocked d)\<rparr>)) (\<lambda>_.
    execute env (\<lambda>d. d\<lparr>db_Audits := db_Audits d @ [audit d]\<rparr>))) w = (r, w')"
  then show "keeps_blocked (ct_Db w) (ct_Db w')"
  proof (cases rule: transaction_cases)
    case (rolled_back e) then show ?thesis by (simp add: blocking.R_refl)
  next
    case (committed x w1 w2)
    then obtain d1 where "d1 = (ct_Db w)\<lparr>db_Blocked := update_rows (\<lambda>c. rb_ID c = rb_ID b)
        (\<lambda>c. c\<lparr>rb_UnblockedAt := t, rb_UnblockedBy := u, rb_UnblockReason := reason\<rparr>) (db_Blocked (ct_Db w))\<rparr>"
      "ct_Db w' = d1\<lparr>db_Audits := db_Audits (ct_Db w) @ [audit d1]\<rparr>" by (auto simp: andThen_Inr elim!: execute_cases)
    then have rows: "db_Plans (ct_Db w') = db_Plans (ct_Db w)" "db_Audits (ct_Db w') = db_Audits (ct_Db w) @ [audit d1]"
        "db_Blocked (ct_Db w') = update_rows (\<lambda>c. rb_ID c = rb_ID b) (\<lambda>c. c\<lparr>rb_UnblockedAt := t, rb_UnblockedBy := u, rb_UnblockReason := reason\<rparr>) (db_Blocked (ct_Db w))"
      by simp_all
    show ?thesis unfolding keeps_blocked_def
    proof
      assume ok: "blocked_ok (ct_Db w)"
      have "\<exists>c \<in> set (db_Blocked (ct_Db w')). rb_PoolName c = rb_PoolName c0 \<and> rb_Checksum c = rb_Checksum c0" if "c0 \<in> set (db_Blocked (ct_Db w))" for c0
        using updated_row[OF that, of "\<lambda>c. (rb_PoolName c, rb_Checksum c)"] by (fastforce simp: rows)
      then have "\<exists>c \<in> set (db_Blocked (ct_Db w')). rb_PoolName c = normalizeConfigReleasePoolName (rp_CanaryPoolName p) \<and> rb_Checksum c = rp_Checksum p"
        if "p \<in> set (db_Plans (ct_Db w'))" "rp_Status p = ''failed''" for p
        using ok that rows(1) unfolding blocked_ok_def by metis
      moreover have "rb_ExpiresAt c = None \<and> (rb_UnblockedAt c \<noteq> None \<longrightarrow> (\<exists>a \<in> set (db_Audits (ct_Db w')). ra_BlockedChecksumID a = rb_ID c \<and> ra_Reason a \<noteq> []))"
        if "c \<in> set (db_Blocked (ct_Db w'))" for c
        using that ok assms(1) audit[of d1] by (auto simp: rows set_update_rows blocked_ok_def split: if_splits)
      ultimately show "blocked_ok (ct_Db w')" using ok by (simp add: blocked_ok_def rows(1))
    qed
  qed
qed

lemma blocking_Unblock: "changes keeps_blocked (UnblockConfigReleaseBlockedChecksum env i op reason)"
  unfolding UnblockConfigReleaseBlockedChecksum_def Let_def
  by (auto intro!: blocking.changes_andThen blocking_unblock_transaction)

lemma reachable_blocked_ok: "release_reachable w \<Longrightarrow> blocked_ok (ct_Db w)"
proof (induction rule: release_induct)
  case (init vs as acts) then show ?case by (simp add: blocked_ok_def new_control_def)
next
  case (step env op w)
  have "keeps_blocked (ct_Db w) (ct_Db (run_release env op w))"
  proof (cases op)
    case (Nodes_Change ns) then show ?thesis by (simp add: keeps_blocked_def blocked_ok_def)
  qed (simp_all add: blocking.changes_ignoring blocking_Create blocking_Start blocking_Evaluate blocking_Advance blocking_Complete blocking_Fail
    blocking_Cancel blocking_Unblock blocking_Report blocking_Heartbeat)
  then show ?case using step by (simp add: keeps_blocked_def)
qed

lemma unless_found_Inr: "unless_found m e w = (Inr (), w') \<Longrightarrow> m w = (Inl Record_Not_Found, w')"
  by (auto simp: unless_found_def split: prod.splits sum.splits db_error.splits)

lemma not_blocked_Inr:
  assumes "ensureConfigReleaseChecksumNotBlockedForPool env pool s w = (Inr (), w')"
    and "b \<in> set (db_Blocked (ct_Db w))" "rb_PoolName b = TrimSpace (normalizeConfigReleasePoolName pool)" "rb_Checksum b = TrimSpace s"
  shows "\<not> blocks (ce_Now env) b"
proof -
  have "GetConfigReleaseBlockedChecksumForPool env (normalizeConfigReleasePoolName pool) s w = (Inl Record_Not_Found, w')"
    using assms(1) by (auto simp: ensureConfigReleaseChecksumNotBlockedForPool_def Let_def dest: unless_found_Inr)
  then have "first_row (filter (\<lambda>b. rb_PoolName b = TrimSpace (normalizeConfigReleasePoolName pool) \<and> rb_Checksum b = TrimSpace s \<and> blocks (ce_Now env) b) (db_Blocked (ct_Db w)))
      = Inl Record_Not_Found"
    unfolding GetConfigReleaseBlockedChecksumForPool_def by (auto elim: query_cases)
  then show ?thesis using assms(2-4) by (auto simp: first_row_def filter_empty_conv split: list.splits)
qed

lemma store_plan_outcome:
  assumes "store_plan env plan ts w = (Inr i, w')"
  shows "i = next_id (map rp_ID (db_Plans (ct_Db w)))" "db_Plans (ct_Db w') = db_Plans (ct_Db w) @ [plan\<lparr>rp_ID := i\<rparr>]"
proof -
  obtain w1 w2 w3 where t: "ct_Db w1 = ct_Db w" "ct_Db w' = ct_Db w2" and i: "insert_plan env plan w1 = (Inr i, w3)"
    and f: "for_each (insert_target env) (ts i) w3 = (Inr (), w2)"
    using transaction_Inr[OF assms[unfolded store_plan_def]] by (auto simp: andThen_Inr return_def)
  have "db_Plans (ct_Db w2) = db_Plans (ct_Db w3)" using changesD[OF plans_for_each f] by (simp add: same_plans_def)
  moreover have "i = next_id (map rp_ID (db_Plans (ct_Db w1)))" "db_Plans (ct_Db w3) = db_Plans (ct_Db w1) @ [plan\<lparr>rp_ID := i\<rparr>]"
    using i unfolding insert_plan_def by (auto simp: Let_def elim!: statement_cases dest: sym)
  ultimately show "i = next_id (map rp_ID (db_Plans (ct_Db w)))" "db_Plans (ct_Db w') = db_Plans (ct_Db w) @ [plan\<lparr>rp_ID := i\<rparr>]" using t by simp_all
qed

lemma stored_plan_read:
  assumes "andThen (store_plan env plan ts) (GetConfigReleasePlan env) w = (Inr (p, us), w')"
  shows "p = plan\<lparr>rp_ID := next_id (map rp_ID (db_Plans (ct_Db w)))\<rparr>"
proof -
  obtain i w1 where s: "store_plan env plan ts w = (Inr i, w1)" and g: "GetConfigReleasePlan env i w1 = (Inr (p, us), w')"
    using assms by (auto simp: andThen_Inr)
  have "p \<in> set (db_Plans (ct_Db w1)) \<and> rp_ID p = i"
    using g by (auto simp: GetConfigReleasePlan_def andThen_Inr return_def GetConfigReleasePlanByID_def dest!: query_Inr first_row_filter)
  moreover have "p \<notin> set (db_Plans (ct_Db w))" if "rp_ID p = next_id (map rp_ID (db_Plans (ct_Db w)))"
    using that next_id_fresh[of "map rp_ID (db_Plans (ct_Db w))"] by (metis image_eqI set_map)
  ultimately show ?thesis using store_plan_outcome[OF s] by auto
qed

lemma created_outcome:
  assumes run: "CreateConfigReleasePlan env by input w = (Inr (p, ts), w')"
  obtains version artifact w1 w2 w3 w4 where "rp_CanaryPoolName p = normalizeConfigReleasePoolName (in_NodePool input)" "rp_Checksum p = ca_Checksum (artifact :: ConfigVersionArtifact)"
    "ensureConfigReleaseChecksumNotBlockedForPool env (rp_CanaryPoolName p) (cv_Checksum (version :: ConfigVersion)) w1 = (Inr (), w2)"
    "ca_Checksum artifact = cv_Checksum version \<or> ensureConfigReleaseChecksumNotBlockedForPool env (rp_CanaryPoolName p) (ca_Checksum artifact) w3 = (Inr (), w4)"
    "same_core (ct_Db w) (ct_Db w1)" "same_core (ct_Db w) (ct_Db w3)"
proof -
  let ?pool = "normalizeConfigReleasePoolName (in_NodePool input)"
  obtain w1 version w2 w3 w4 artifact w5 w6 w9 plan us where
    1: "ensureNoActiveConfigReleasePlanForPool env ?pool 0 w = (Inr (), w1)" "releasePlanVersion env by input w1 = (Inr version, w2)"
    and 3: "ensureConfigReleaseChecksumNotBlockedForPool env ?pool (cv_Checksum version) w2 = (Inr (), w3)"
    and 4: "ensureConfigVersionArtifactsForPools env version [?pool] w3 = (Inr (), w4)" "GetConfigVersionArtifact env (cv_ID version) ?pool w4 = (Inr artifact, w5)"
    and 6: "(if ca_Checksum artifact \<noteq> cv_Checksum version then ensureConfigReleaseChecksumNotBlockedForPool env ?pool (ca_Checksum artifact) else return ()) w5 = (Inr (), w6)"
    and 7: "andThen (store_plan env plan us) (GetConfigReleasePlan env) w9 = (Inr (p, ts), w')" "rp_CanaryPoolName plan = ?pool" "rp_Checksum plan = ca_Checksum artifact"
    using run unfolding CreateConfigReleasePlan_def Let_def
    by (auto simp only: andThen_Inr fail_def if_distribR prod.inject sum.distinct split: if_splits) (fastforce simp: andThen_Inr)+
  have p: "rp_CanaryPoolName p = ?pool" "rp_Checksum p = ca_Checksum artifact" using stored_plan_read[OF 7(1)] 7 by auto
  have same: "same_core (ct_Db w) (ct_Db w2)" "same_core (ct_Db w) (ct_Db w5)"
    using readsD[OF reads_guards(2) 1(1)] changesD[OF core_releasePlanVersion 1(2)] readsD[OF reads_guards(1) 3]
      changesD[OF core_ensureConfigVersionArtifactsForPools 4(1)] readsD[OF reads_lookups(11) 4(2)]
    by (auto intro: core.R_trans)
  show ?thesis by (rule that[of artifact version w2 w3 w5 w6]) (use p same 3 6 in \<open>auto split: if_splits\<close>)
qed

lemma created_pool: "CreateConfigReleasePlan env by input w = (Inr (p, ts), w') \<Longrightarrow> rp_CanaryPoolName p = normalizeConfigReleasePoolName (in_NodePool input)"
  by (rule created_outcome)

lemma created_not_blocked:
  assumes "CreateConfigReleasePlan env by input w = (Inr (p, ts), w')"
    and b: "b \<in> set (db_Blocked (ct_Db w))" "rb_PoolName b = TrimSpace (normalizeConfigReleasePoolName (rp_CanaryPoolName p))" "rb_Checksum b = TrimSpace (rp_Checksum p)"
  shows "\<not> blocks (ce_Now env) b"
proof -
  show ?thesis using assms(1)
  proof (cases rule: created_outcome)
    case (1 version artifact w1 w2 w3 w4)
    have same: "db_Blocked (ct_Db w1) = db_Blocked (ct_Db w)" "db_Blocked (ct_Db w3) = db_Blocked (ct_Db w)"
      using 1(5,6) by (auto simp: same_core_def beside_targets_def)
    show ?thesis
    proof (cases "ca_Checksum artifact = cv_Checksum version")
      case True then show ?thesis using not_blocked_Inr[OF 1(3)] b 1(2) same by simp
    next
      case False then show ?thesis using not_blocked_Inr[of env _ _ w3 w4] 1(4) b 1(2) same by simp
    qed
  qed
qed

lemma normalize_twice_trimmed: "TrimSpace (normalizeConfigReleasePoolName (normalizeConfigReleasePoolName x)) = normalizeConfigReleasePoolName (normalizeConfigReleasePoolName x)"
proof -
  have short: "length (TrimSpace (normalizeNodePoolName x)) \<le> 64" using length_TrimSpace[of "normalizeNodePoolName x"] length_normalizeNodePoolName[of x] by linarith
  let ?y = "normalizeConfigReleasePoolName (normalizeConfigReleasePoolName x)"
  have stable: "normalizeConfigReleasePoolName ?y = ?y"
    using normalizeNodePoolName_idem[OF short] by (simp add: normalizeConfigReleasePoolName_def)
  have "?y \<noteq> []" by (simp add: normalizeConfigReleasePoolName_def)
  moreover have "TrimSpace ''default'' = ''default''" by code_simp
  ultimately show ?thesis using checked_pool_id[OF stable] stable by (auto simp: checked_pool_def Let_def split: if_splits)
qed


section \<open>A failed report ends the release\<close>

lemma active_targets_in: "t \<in> set (active_targets n ss d) \<Longrightarrow> t \<in> set (db_Targets d) \<and> (\<exists>p \<in> set (db_Plans d). rp_ID p = rt_PlanID t \<and> plan_active p)"
  by (auto simp: active_targets_def set_SliceStable list_ex_iff)

lemma first_row_in: "first_row xs = Inr x \<Longrightarrow> x \<in> set xs"
  by (auto simp: first_row_def split: list.splits)

lemma still_active_in: "still_active env ts w = (Inr (p, t), w') \<Longrightarrow> t \<in> set ts \<and> p \<in> set (db_Plans (ct_Db w)) \<and> rp_ID p = rt_PlanID t"
proof (induction ts arbitrary: w)
  case (Cons u ts)
  from Cons.prems obtain q w1 ok w2 where 1: "GetConfigReleasePlanByID env (rt_PlanID u) w = (Inr q, w1)"
    and 2: "succeededConfigReleaseTargetStillActive env q u w1 = (Inr ok, w2)" and 3: "(if ok then return (q, u) else still_active env ts) w2 = (Inr (p, t), w')"
    by (auto simp: andThen_Inr)
  have d: "ct_Db w2 = ct_Db w" using readsD[OF reads_lookups(1) 1] readsD[OF reads_succeeded 2] by simp
  have q: "q \<in> set (db_Plans (ct_Db w))" "rp_ID q = rt_PlanID u" using GetConfigReleasePlanByID_Inr[OF yieldsI[of "GetConfigReleasePlanByID env (rt_PlanID u)", OF 1]] .
  show ?case
  proof (cases ok)
    case True then show ?thesis using 3 q by (auto simp: return_def)
  next
    case False then show ?thesis using Cons.IH[of w2] 3 d by auto
  qed
qed (simp add: fail_def)

lemma active_target_found:
  assumes "GetActiveConfigReleaseTargetForNodeID env n w = (Inr (p, t), w')" "distinct (map rp_ID (db_Plans (ct_Db w)))"
  shows "p \<in> set (db_Plans (ct_Db w))" "plan_active p" "t \<in> set (db_Targets (ct_Db w))" "rt_PlanID t = rp_ID p"
proof -
  have "(\<exists>ss. t \<in> set (active_targets (TrimSpace n) ss (ct_Db w))) \<and> p \<in> set (db_Plans (ct_Db w)) \<and> rp_ID p = rt_PlanID t"
  proof (cases "firstActiveConfigReleaseTargetForNodeID env (TrimSpace n) unfinished w")
    case (Pair r w1)
    have d: "ct_Db w1 = ct_Db w" by (rule readsD[OF reads_lookups(3) Pair])
    have "TrimSpace n \<noteq> []" using assms(1) by (auto simp: GetActiveConfigReleaseTargetForNodeID_def fail_def)
    then have run: "(case r of Inr target \<Rightarrow> andThen (GetConfigReleasePlanByID env (rt_PlanID target)) (\<lambda>plan. return (plan, target)) w1
        | Inl e \<Rightarrow> if e \<noteq> Record_Not_Found then (Inl e, w1)
            else andThen (listActiveConfigReleaseTargetsForNodeID env (TrimSpace n) [''succeeded'']) (still_active env) w1) = (Inr (p, t), w')"
      using assms(1) Pair by (simp add: GetActiveConfigReleaseTargetForNodeID_def Let_def split: sum.splits)
    show ?thesis
    proof (cases r)
      case (Inr u)
      then have u: "u \<in> set (active_targets (TrimSpace n) unfinished (ct_Db w))"
        using Pair by (auto simp: firstActiveConfigReleaseTargetForNodeID_def dest!: query_Inr first_row_in)
      obtain w2 where "GetConfigReleasePlanByID env (rt_PlanID u) w1 = (Inr p, w2)" "t = u"
      proof -
        from run Inr have "andThen (GetConfigReleasePlanByID env (rt_PlanID u)) (\<lambda>plan. return (plan, u)) w1 = (Inr (p, t), w')" by simp
        then show thesis using that unfolding andThen_Inr return_def by blast
      qed
      from GetConfigReleasePlanByID_Inr[OF yieldsI[of "GetConfigReleasePlanByID env (rt_PlanID u)", OF this(1)]] this(2)
      show ?thesis using u d by auto
    next
      case (Inl e)
      obtain ts w2 where l: "listActiveConfigReleaseTargetsForNodeID env (TrimSpace n) [''succeeded''] w1 = (Inr ts, w2)" and s: "still_active env ts w2 = (Inr (p, t), w')"
      proof -
        from run Inl have "andThen (listActiveConfigReleaseTargetsForNodeID env (TrimSpace n) [''succeeded'']) (still_active env) w1 = (Inr (p, t), w')"
          by (simp split: if_splits)
        then show thesis using that unfolding andThen_Inr by blast
      qed
      have "ts = active_targets (TrimSpace n) [''succeeded''] (ct_Db w1)" "ct_Db w2 = ct_Db w1"
        using l by (auto simp: listActiveConfigReleaseTargetsForNodeID_def dest!: query_Inr)
      then show ?thesis using still_active_in[OF s] d by auto
    qed
  qed
  then obtain ss where t: "t \<in> set (active_targets (TrimSpace n) ss (ct_Db w))" and p: "p \<in> set (db_Plans (ct_Db w))" "rp_ID p = rt_PlanID t" by blast
  from active_targets_in[OF t] obtain q where "q \<in> set (db_Plans (ct_Db w))" "rp_ID q = rt_PlanID t" "plan_active q" by blast
  moreover from this have "q = p" using same_id[OF assms(2)] p by auto
  ultimately show "p \<in> set (db_Plans (ct_Db w))" "plan_active p" "t \<in> set (db_Targets (ct_Db w))" "rt_PlanID t = rp_ID p"
    using p active_targets_in[OF t] by auto
qed

text \<open>Without faults of the database, statements and transactions of statements succeed.\<close>

definition succeeds :: "'a on_control \<Rightarrow> bool" where
  "succeeds m \<longleftrightarrow> (\<forall>w. \<exists>x w'. m w = (Inr x, w'))"

definition database_works :: "control_env \<Rightarrow> bool" where
  "database_works env \<longleftrightarrow> (\<forall>n. ce_Fault env n = None)"

lemma succeeds_andThen: "succeeds m \<Longrightarrow> (\<And>x. succeeds (f x)) \<Longrightarrow> succeeds (andThen m f)"
  unfolding succeeds_def andThen_def by (metis (mono_tags, lifting) case_prod_conv sum.case(2))

lemma succeeds_execute: "database_works env \<Longrightarrow> succeeds (execute env f)"
  by (auto simp: succeeds_def database_works_def execute_def statement_def)

lemma succeeds_transaction: "database_works env \<Longrightarrow> succeeds m \<Longrightarrow> succeeds (transaction env m)"
  using succeeds_execute[of env id] unfolding succeeds_def transaction_def
  by (auto split: prod.splits sum.splits) (metis Inl_Inr_False prod.inject)+

lemma succeeds_fail_transaction: "database_works env \<Longrightarrow> succeeds (fail_transaction env p v reason)"
  unfolding fail_transaction_def update_plan_def update_targets_def block_checksum_def Let_def
  by (intro succeeds_transaction succeeds_andThen succeeds_execute)

lemma no_fault_query: "database_works env \<Longrightarrow> \<exists>w'. query env f w = (f (ct_Db w), w') \<and> ct_Db w' = ct_Db w"
  by (auto simp: database_works_def query_def statement_def)

lemma row_by_id: "distinct (map k xs) \<Longrightarrow> x \<in> set xs \<Longrightarrow> first_row (filter (\<lambda>y. k y = k x) xs) = Inr x"
  by (induction xs) (auto simp: first_row_def filter_empty_conv split: list.splits)

lemma FailConfigReleasePlan_outcome:
  assumes nf: "database_works env" and p: "p \<in> set (db_Plans (ct_Db w))" "configReleasePlanActive p" "distinct (map rp_ID (db_Plans (ct_Db w)))"
    and v: "v \<in> set (db_Versions (ct_Db w))" "cv_ID v = rp_ConfigVersionID p"
    and run: "FailConfigReleasePlan env (rp_ID p) reason w = (r, w')"
  shows "\<exists>q \<in> set (db_Plans (ct_Db w')). rp_ID q = rp_ID p \<and> rp_Status q = ConfigReleaseStatusFailed"
    "\<forall>t \<in> set (db_Targets (ct_Db w')). rt_PlanID t = rp_ID p \<longrightarrow> rt_Status t \<notin>
       {ConfigReleaseTargetPending, ConfigReleaseTargetApplying, ConfigReleaseTargetObserving, ConfigReleaseTargetSucceeded}"
    "\<exists>b \<in> set (db_Blocked (ct_Db w')). rb_PoolName b = normalizeConfigReleasePoolName (rp_CanaryPoolName p) \<and> rb_Checksum b = rp_Checksum p \<and> blocks (ce_Now env) b"
proof -
  obtain w1 where g: "GetConfigReleasePlanByID env (rp_ID p) w = (Inr p, w1)" "ct_Db w1 = ct_Db w"
    using no_fault_query[OF nf] row_by_id[OF p(3,1)] by (metis GetConfigReleasePlanByID_def)
  obtain ts w2 where l: "ListConfigReleaseTargets env (rp_ID p) w1 = (Inr ts, w2)" "ct_Db w2 = ct_Db w1"
    using no_fault_query[OF nf] by (metis ListConfigReleaseTargets_def)
  obtain v' w3 where c: "GetConfigVersionByID env (rp_ConfigVersionID p) w2 = (Inr v', w3)" "ct_Db w3 = ct_Db w2"
  proof -
    have "\<exists>v'. first_row (filter (\<lambda>u. cv_ID u = rp_ConfigVersionID p) (db_Versions (ct_Db w2))) = Inr v'"
      using v g l by (auto simp: first_row_def filter_empty_conv split: list.splits)
    then show thesis using that no_fault_query[OF nf] by (metis GetConfigVersionByID_def)
  qed
  obtain reason' where rest: "andThen (fail_transaction env p v' reason') (\<lambda>_. forceSyncConfigReleaseRollbackTargets env p ts) w3 = (r, w')"
  proof -
    have "rp_Status p \<noteq> ConfigReleaseStatusFailed" using p(2) by (auto simp: configReleasePlanActive_def release_status)
    then show thesis using run g l c p(2) that by (auto simp: FailConfigReleasePlan_def andThen_def Let_def)
  qed
  obtain w4 where f: "fail_transaction env p v' reason' w3 = (Inr (), w4)" using succeeds_fail_transaction[OF nf] by (metis succeeds_def old.unit.exhaust)
  have same: "same_core (ct_Db w4) (ct_Db w')" using rest f changesD[OF core_forceSync] by (auto simp: andThen_def)
  then have eq: "db_Plans (ct_Db w') = db_Plans (ct_Db w4)" "db_Targets (ct_Db w') = db_Targets (ct_Db w4)" "db_Blocked (ct_Db w') = db_Blocked (ct_Db w4)"
    by (auto simp: same_core_def beside_targets_def)
  from f obtain w5 w6 where o: "db_Plans (ct_Db w5) = update_rows (\<lambda>q. rp_ID q = rp_ID p)
      (\<lambda>p. p\<lparr>rp_Status := ConfigReleaseStatusFailed, rp_FailureReason := reason', rp_FailedAt := Some (ce_Now env)\<rparr>) (db_Plans (ct_Db w))"
    "db_Targets (ct_Db w5) = update_rows (\<lambda>t. rt_PlanID t = rp_ID p \<and> rt_Status t \<in>
           {ConfigReleaseTargetPending, ConfigReleaseTargetApplying, ConfigReleaseTargetObserving, ConfigReleaseTargetSucceeded})
         (\<lambda>t. t\<lparr>rt_Status := ConfigReleaseTargetRolledBack, rt_FailureReason := reason', rt_CompletedAt := Some (ce_Now env)\<rparr>) (db_Targets (ct_Db w))"
    "block_checksum env p v' reason' w5 = (Inr (), w6)" "ct_Db w4 = ct_Db w6"
    using g l c by (auto elim!: fail_transaction_outcome)
  have t6: "db_Targets (ct_Db w6) = db_Targets (ct_Db w5)" using o(3) by (auto simp: block_checksum_def Let_def elim!: execute_cases)
  note b = block_checksum_outcome[OF o(3)]
  show "\<exists>q \<in> set (db_Plans (ct_Db w')). rp_ID q = rp_ID p \<and> rp_Status q = ConfigReleaseStatusFailed"
    using row_updated[OF p(1), of "\<lambda>q. rp_ID q = rp_ID p" "\<lambda>p. p\<lparr>rp_Status := ConfigReleaseStatusFailed, rp_FailureReason := reason', rp_FailedAt := Some (ce_Now env)\<rparr>"]
    by (intro bexI[of _ "p\<lparr>rp_Status := ConfigReleaseStatusFailed, rp_FailureReason := reason', rp_FailedAt := Some (ce_Now env)\<rparr>"]) (simp_all add: eq o(4) b(1) o(1))
  show "\<forall>t \<in> set (db_Targets (ct_Db w')). rt_PlanID t = rp_ID p \<longrightarrow> rt_Status t \<notin>
       {ConfigReleaseTargetPending, ConfigReleaseTargetApplying, ConfigReleaseTargetObserving, ConfigReleaseTargetSucceeded}"
    by (auto simp: eq o(4) t6 o(2) set_update_rows target_status)
  show "\<exists>b \<in> set (db_Blocked (ct_Db w')). rb_PoolName b = normalizeConfigReleasePoolName (rp_CanaryPoolName p) \<and> rb_Checksum b = rp_Checksum p \<and> blocks (ce_Now env) b"
    using b(3) by (auto simp: eq o(4) blocks_def)
qed


section \<open>An example pool\<close>

definition example_control :: control_env where
  "example_control = \<lparr>ce_Fault = (\<lambda>_. None), ce_Now = 1000, ce_Today = ''20250101'', ce_Connected = [], ce_Threshold = 500,
     ce_Bundle = (\<lambda>_. Inl ''no bundle''), ce_Changed = (\<lambda>_ _. Inr True), ce_SupportFiles = Inr, ce_RouteCount = (\<lambda>_. 1), ce_sha256 = id\<rparr>"

definition example_version :: ConfigVersion where
  "example_version = \<lparr>cv_ID = 1, cv_Version = ''v1'', cv_SnapshotJSON = [], cv_MainConfig = ''m'', cv_RenderedConfig = ''r'', cv_SupportFilesJSON = [],
     cv_Checksum = ''abc'', cv_IsActive = False, cv_CreatedBy = []\<rparr>"

definition example_cdn_nodes :: "ControlNode list" where
  "example_cdn_nodes = map (\<lambda>i. \<lparr>cn_ID = i, cn_NodeID = ''n'' @ FormatUint i, cn_PoolName = ''edge'', cn_CurrentChecksum = ''abc'', cn_LastSeenAt = 900\<rparr>) [1, 2]"

definition example_plan_input :: ConfigReleasePlanInput where
  "example_plan_input = \<lparr>in_ConfigVersionID = Some 1, in_NodePool = ''Edge'', in_CanaryPercent = 50, in_ObserveSeconds = 60, in_Force = False\<rparr>"

definition example_releases :: "release_op list \<Rightarrow> control" where
  "example_releases ops = run_releases (map (Pair example_control) (Nodes_Change example_cdn_nodes # Create_Plan ''ann'' example_plan_input # Start_Plan 1 # ops))
    (new_control [example_version] [] [])"

definition example_started :: control where
  "example_started =
    \<lparr>ct_Db = \<lparr>db_Plans = [\<lparr>rp_ID = 1, rp_ConfigVersionID = 1, rp_RollbackVersionID = None, rp_Status = ''running'', rp_Strategy = ''canary'',
         rp_CanaryPoolName = ''edge'', rp_CurrentStage = 1, rp_CanaryPercent = 50, rp_ObserveSeconds = 60, rp_Checksum = ''abc'', rp_FailureReason = [],
         rp_CreatedBy = ''ann'', rp_StartedAt = Some 1000, rp_CompletedAt = None, rp_FailedAt = None\<rparr>],
       db_Targets = [\<lparr>rt_ID = 1, rt_PlanID = 1, rt_ConfigVersionID = 1, rt_NodeID = ''n2'', rt_PoolName = ''edge'', rt_Checksum = ''abc'',
         rt_StageIndex = 1, rt_Status = ''applying'', rt_FailureReason = [], rt_StartedAt = Some 1000, rt_CompletedAt = None\<rparr>],
       db_Blocked = [], db_Audits = [], db_Versions = [example_version],
       db_Artifacts = map (\<lambda>(i, pool). \<lparr>ca_ID = i, ca_ConfigVersionID = 1, ca_PoolName = pool, ca_Checksum = ''abc'', ca_MainConfigChecksum = ''m'',
         ca_RouteConfigChecksum = ''r'', ca_RenderedConfig = ''r'', ca_SupportFilesJSON = [], ca_RouteCount = 1\<rparr>) [(1, ''default''), (2, ''edge'')],
       db_PoolActives = [], db_Nodes = example_cdn_nodes\<rparr>,
     ct_Statements = 30, ct_Sent = [Force_Sync ''n2'' ''v1'' ''abc'']\<rparr>"

lemma example_release_start: "example_releases [] = example_started"
  by code_simp

lemma example_from_start: "example_releases ops = run_releases (map (Pair example_control) ops) example_started"
  using example_release_start by (simp add: example_releases_def run_releases_def)

lemma example_reachable: "release_reachable (run_releases (map (Pair example_control) ops) example_started)"
  unfolding example_from_start[symmetric] by (auto simp: release_reachable_def example_releases_def)

lemma example_started_reachable: "release_reachable example_started"
  using example_reachable[of "[]"] by (simp add: run_releases_def)

definition example_completed :: control where
  "example_completed = run_release example_control (Complete_Plan 1) example_started"

lemma example_completed_plan: "rp_Status (hd (db_Plans (ct_Db example_completed))) = ConfigReleaseStatusCompleted \<and> db_Plans (ct_Db example_completed) \<noteq> []"
  by code_simp

lemma example_completed_reachable: "release_reachable example_completed"
  using example_reachable[of "[Complete_Plan 1]"] by (simp add: example_completed_def run_releases_def)

theorem finished_plan_final_witness:
  "hd (db_Plans (ct_Db example_completed))
    \<in> set (db_Plans (ct_Db (run_releases [(example_control, Fail_Plan 1 ''late''), (example_control, Advance_Plan 1)] example_completed)))"
  using example_completed_plan by (intro finished_plan_final[OF example_completed_reachable]) (auto simp: finished_def)

theorem one_release_per_pool_witness:
  "configReleasePlanActive (hd (db_Plans (ct_Db example_started))) \<and> hd (db_Plans (ct_Db example_started)) = last (db_Plans (ct_Db example_started))"
proof -
  have "configReleasePlanActive (hd (db_Plans (ct_Db example_started)))"
    "normalizeConfigReleasePoolName (rp_CanaryPoolName (hd (db_Plans (ct_Db example_started)))) = rp_CanaryPoolName (hd (db_Plans (ct_Db example_started)))"
    by code_simp+
  moreover have "length (db_Plans (ct_Db example_started)) = 1" by (simp add: example_started_def)
  ultimately show ?thesis
    using one_release_per_pool[OF example_started_reachable, of "hd (db_Plans (ct_Db example_started))" "last (db_Plans (ct_Db example_started))"]
    by (auto simp: length_Suc_conv)
qed

theorem completed_means_applied_witness:
  "applied example_control example_cdn_nodes (hd (db_Targets (ct_Db example_started)))"
proof -
  have new: "hd (db_Plans (ct_Db example_completed)) \<notin> set (db_Plans (ct_Db example_started))" "rp_ID (hd (db_Plans (ct_Db example_completed))) = 1"
    by code_simp+
  show ?thesis
    using completed_means_applied[OF example_started_reachable, of "hd (db_Plans (ct_Db example_completed))" example_control "Complete_Plan 1"]
      example_completed_plan new unfolding example_completed_def[symmetric]
    by (auto simp: example_started_def)
qed

lemma example_outcome: "(case m of (Inl _, _) \<Rightarrow> False | (Inr v, _) \<Rightarrow> P v) \<Longrightarrow> \<exists>v w. m = (Inr v, w) \<and> P v"
  by (cases m; cases "fst m") auto

definition example_unblocked :: control where
  "example_unblocked = run_releases (map (Pair example_control) [Fail_Plan 1 ''x'', Unblock_Checksum 1 ''op'' ''why'']) example_started"

lemma example_unblocked_plan: "(case db_Plans (ct_Db example_unblocked) of p # _ \<Rightarrow>
    rp_Status p = ConfigReleaseStatusFailed \<and> rp_CanaryPoolName p = ''edge'' \<and> rp_Checksum p = ''abc'' | [] \<Rightarrow> False)"
  by code_simp

lemma example_release_again: "case CreateConfigReleasePlan example_control ''ann'' example_plan_input example_unblocked of
    (Inl _, _) \<Rightarrow> False | (Inr v, _) \<Rightarrow> rp_CanaryPoolName (fst v) = ''edge'' \<and> rp_Checksum (fst v) = ''abc''"
  by code_simp


definition example_apply_log :: ReportedApply where
  "example_apply_log = \<lparr>ap_NodeID = ''n2'', ap_Version = ''v1'', ap_Result = ''failed'', ap_Message = ''nginx -t failed'', ap_Checksum = ''abc''\<rparr>"

lemma example_report_target: "case GetActiveConfigReleaseTargetForNodeID example_control (ap_NodeID example_apply_log) example_started of
    (Inl _, _) \<Rightarrow> False | (Inr v, _) \<Rightarrow> rp_ID (fst v) = 1 \<and> rp_ConfigVersionID (fst v) = 1 \<and> rt_Checksum (snd v) = ''abc''"
  by code_simp


section \<open>Where releases do less than they mean to\<close>

text \<open>A release to 20\% of five nodes, one of which has its target already, still gets a second node: the loop appends a target before
  it compares their number with the number wanted.\<close>

lemma canary_overshoots:
  "desired_targets 5 20 = 1 \<and> pick_nodes [''n2''] 1 1 example_cdn_nodes = [hd example_cdn_nodes]"
  by code_simp

text \<open>The reason for which a plan fails is lost when a later target is still applying.\<close>

lemma failure_reason_lost:
  "case foldl (evaluate_target example_control (hd (db_Plans (ct_Db example_started))) (map (\<lambda>n. n\<lparr>cn_CurrentChecksum := ''old''\<rparr>) example_cdn_nodes))
      (new_evaluation (hd (db_Plans (ct_Db example_started))) [], example_started)
      (map (\<lambda>n. (hd (db_Targets (ct_Db example_started)))\<lparr>rt_NodeID := n\<rparr>) [''n3'', ''n2'']) of
    (e, _) \<Rightarrow> ev_FailedTargets e = 1 \<and> ev_Reason e = ''release target is still applying''"
  by code_simp

text \<open>The time a plan is observed has no upper bound, and beyond 292 years its nanoseconds overflow: every target is late at once.\<close>

lemma observation_overflows:
  "timed_out example_control ((hd (db_Plans (ct_Db example_started)))\<lparr>rp_ObserveSeconds := 10000000000\<rparr>) (hd (db_Targets (ct_Db example_started)))"
  by code_simp

end
