(* ===== verification/Spec2Isabelle.thy ===== *)
theory Spec2Isabelle
  imports Worker_Reach Agent_Buffer Agent_Warm Agent_Sync Release_Blocks
begin

text \<open>
  Verification of the DNS worker of DuShengCDN, of the core of its edge agent and of the staged releases of its control plane.

  \<^bold>\<open>The program.\<close> DuShengCDN is a content delivery network. Its control plane (\<open>src/dushengcdn_server\<close>) manages zones, routes and edge
  nodes; edge agents (\<open>src/dushengcdn_agent\<close>) run the proxies; DNS workers answer authoritative DNS queries and steer every client
  to edge nodes (global server load balancing, GSLB). A worker is the process of \<open>cmd/dns-worker\<close>; all of its code is
  the package \<open>src/dushengcdn_server/internal/dnsworker\<close>, and this development models that package. A worker pulls signed
  snapshots of the configuration, answers queries from the current snapshot, counts queries in windows, and reports the counts
  and its scheduling states in heartbeats, whose answers carry policies and requests for updates. An agent runs beside OpenResty on
  an edge node: it fetches the active configuration that a heartbeat announces, verifies it, installs it with a rollback when OpenResty
  refuses it, purges and warms the cache, and keeps its state and unsent measurements in files. Of the agent this
  development models the packages \<open>fileutil\<close>, \<open>state\<close>, \<open>security\<close>, \<open>nginx\<close> and \<open>sync\<close> under \<open>src/dushengcdn_agent/internal\<close>. Of the control
  plane it models the release plans, which bring a configuration to one node of a pool, then to a share of it and to all of it,
  watch what the nodes report, and roll back and block a configuration that fails.

  \<^bold>\<open>Theories and sources.\<close> A definition has the name of the Go function or type it translates; parts of a long function are
  definitions of their own. Files are those of the packages.

  \<^item> \<open>Go_Prelude\<close>, \<open>Net_Addr\<close>, \<open>Go_Float\<close>, \<open>Go_Sort\<close>, \<open>Go_Path\<close>: what the code uses of the standard library; \<open>Go_Action\<close>: operations with a state and an
    error or a result, and their sequences. Texts are lists of bytes;
    times and durations are integers in nanoseconds, with zero for the zero time; maps are association lists updated with
    \<open>AList.update\<close>; addresses are words of 32 and 128 bits with the parsers and printers of \<open>net\<close> and \<open>net/netip\<close>; \<open>float64\<close> is the set of
    binary64 values inside the reals with the rounding to nearest even; \<open>sort.SliceStable\<close> is the insertion sort with symmetric
    merges of the library, since the code sorts with a comparison that is no order; \<open>path/filepath\<close> for Unix.
  \<^item> \<open>Worker_Types\<close> (\<open>types.go\<close>) and \<open>Normalize\<close> (\<open>normalize.go\<close>): the data of snapshots and its normalisation.
  \<^item> \<open>Pool_Match\<close>, \<open>Candidates\<close>, \<open>Target_Select\<close>, \<open>Gslb_Scheduler\<close>, \<open>Scheduler_Reach\<close> (\<open>scheduler.go\<close>): the choice of targets. Pools
    match the source of a query, nodes of the matched pools give candidates with scores, a selection takes the number of targets
    that the policy asks for, and debouncing keeps the previous targets for a while. \<open>Scheduler_Reach\<close> has the states a
    scheduler can reach and its invariant.
  \<^item> \<open>DNS_Types\<close>, \<open>Snapshot_Store\<close> (\<open>snapshot_store.go\<close>), \<open>Snapshot_Signature\<close> (\<open>snapshot_signature.go\<close>): the current snapshot with its index,
    its file on disk and its signature.
  \<^item> \<open>DNS_Records\<close>, \<open>DNSSEC\<close> (\<open>dnssec.go\<close>), \<open>DNS_Server\<close>, \<open>Server_Answers\<close> (\<open>server.go\<close>): records, signing and denial, the answer to a query
    on every branch, with the deferred limiting and recording, and truncation.
  \<^item> \<open>Rate_Limiter\<close> (\<open>rate_limiter.go\<close>), \<open>Rollup\<close> (\<open>rollup.go\<close>), \<open>Operator_CIDR\<close> (\<open>operator_cidr.go\<close>), \<open>Source_Resolver\<close> (\<open>source.go\<close>): limits per
    second, statistics, networks of operators, and the source of a query.
  \<^item> \<open>Worker_Config\<close> (\<open>config.go\<close>), \<open>Worker_Client\<close> (\<open>client.go\<close>), \<open>Worker_Update\<close> (\<open>updater.go\<close>), \<open>Worker_Runner\<close>, \<open>Worker_Reach\<close> (\<open>runner.go\<close>): configuration,
    HTTP client, self-update, the runner that joins all parts, and the running worker as a state machine.
  \<^item> \<open>Agent_Files\<close> (\<open>fileutil/atomic.go\<close>): a disk of files and directories, on which every system call may fail, and the atomic replacement of a
    file. Operations on it are actions with a state, an error or a result. \<open>Agent_State\<close> (\<open>state/state.go\<close>) and \<open>Agent_Buffer\<close>
    (\<open>state/observability_buffer.go\<close>): the stores with their caches in memory.
  \<^item> \<open>Agent_Cache\<close>, \<open>Agent_Warm\<close> (\<open>nginx/manager.go\<close>, \<open>security/network.go\<close>): purging and warming of the cache with their safety checks.
  \<^item> \<open>Go_Regexp\<close>, \<open>Agent_Redact\<close> (\<open>security/redact.go\<close>): matching as \<open>regexp\<close> does it, leftmost and first, and the hiding of secrets in messages.
  \<^item> \<open>Agent_Nginx\<close>, \<open>Agent_Apply\<close>, \<open>Agent_Install\<close> (\<open>nginx/manager.go\<close>): rendering of configurations, directories that the agent manages, backup, \<open>Apply\<close> with
    its rollback and fallback, the checksum of what is installed; \<open>Agent_Install\<close> has the proofs.
  \<^item> \<open>Agent_Sync\<close> (\<open>sync/service.go\<close>): the synchronisation with the control plane, at the start and on heartbeats.
  \<^item> \<open>Release_Db\<close> (\<open>model/config_release_plan.go\<close>, \<open>model/config_version.go\<close>, \<open>model/node.go\<close> of the server): the tables that releases work on, as lists of rows,
    statements of which each may fail, transactions that undo what they did when they fail, and the queries. \<open>Release_Plan\<close>
    (\<open>service/config_release_plan.go\<close> with its parts of \<open>service/config_version.go\<close>, \<open>service/configversion\<close> and \<open>service/agent.go\<close>): the operations on plans, and what
    reports, heartbeats and questions of agents do to them. \<open>Release_Steps\<close>, \<open>Release_Reach\<close>, \<open>Release_Blocks\<close>: the rows that each operation may change, the states
    that operations lead to, and the proofs.

  \<^bold>\<open>State and errors.\<close> A struct with methods is a record and a method that changes it returns the changed record. Errors are
  values of a datatype per component, in a sum or option type; early returns are branches. Where the identity of an object
  matters, the record carries an address: a snapshot is a pair of an allocation number and its content, and a route has the
  number of its snapshot and its position, because the scheduler caches policies per route pointer. Readings of the clock are
  arguments. Integers of the code are integers here, with the wrap-around written out where a conversion narrows
  (\<open>uint16\<close>, \<open>uint32\<close>, a duration from milliseconds); addresses and permission bits are words.

  \<^bold>\<open>Parameters.\<close> Code that is not in the repository, and input and output, are arguments: the DNS library (\<open>dns_env\<close>: replies,
  names of types, signing, NSEC3 hashes, message size), SHA-256 and the logarithm (\<open>hash_env\<close>), HMAC and base64 (\<open>mac_env\<close>), JSON
  (\<open>codec\<close>, \<open>http_env\<close>, \<open>result_codec\<close>), databases of addresses (\<open>mmdb\<close>), files and their faults (\<open>file_faults\<close>), HTTP (\<open>http_env\<close>), the operating
  system (\<open>os_env\<close>, \<open>script_env\<close>; for the agent \<open>os\<close>, which tells which system calls fail and how temporary files are named), the parser of URLs
  (\<open>url_lib\<close>), the resolver and the dialling of addresses (\<open>net_env\<close>), OpenResty with the embedded assets and SHA-256 (\<open>nginx_env\<close>), the control plane as
  the agent sees it (\<open>sync_env\<close>); for releases (\<open>control_env\<close>) the faults of the database, the clock, the agents that are connected, the rendering of
  configurations and their comparison, and SHA-256. What theorems rely on is named: \<open>mac_env_ok\<close> (base64 decodes what it encodes), \<open>codec_ok\<close>, \<open>reply_ok\<close> (a reply starts
  empty), \<open>truncate_ok\<close>, \<open>sign_keeps\<close> (\<open>Sign\<close> keeps the fields of the signature it is given), \<open>links_ok\<close>, \<open>codes\<close> (JSON decodes what it encodes), \<open>reparses\<close> (a printed URL is parsed
  again), \<open>executor_keeps\<close> (OpenResty does not write to the configuration, certificate and runtime files that it loads), \<open>database_works\<close> (no statement fails); each theorem with such a premise has a witness with a concrete instance.

  \<^bold>\<open>What is shown.\<close>
  \<^item> The whole worker (\<open>Worker_Reach\<close>), in every state that any interleaving of queries, pulls, heartbeats and jobs leads to: routed answers are exactly
    the addresses the scheduler selected from a fresh snapshot, or empty failures; every query is counted once; the snapshot is authentic;
    the settings are well-formed.
  \<^item> Releases: a release completes only when all its targets applied it, and then its version is active in the pool; a node that fails to apply it stops
    it and blocks its checksum, and a blocked checksum is released again only after an operator unblocked it; a finished plan never changes
    again, and a pool has at most one release under way, when operations follow one another.
  \<^item> Scheduling: answers are servable, distinct, of the right family and in the right number; failover happens exactly at the
    threshold and never in the cooldown; priority matching, exclusion, candidates and quotas meet their specifications;
    \<open>allocatePoolQuotas\<close> returns for all arguments, although its loop does not end when it is started without pools; states survive the exchange with the control plane.
  \<^item> The store: the index answers as a scan does, files are read back, snapshots expire.
  \<^item> The server: the most specific zone is used, refused queries carry nothing, stale snapshots route nobody, UDP answers fit, every
    record set of a signed answer is signed unless \<open>Sign\<close> fails, and NSEC3 records deny no existing name, if the hash separates the names
    of the zone. For NSEC records this is not claimed: the code does not order names canonically.
  \<^item> The periphery: limiters admit exactly the first queries of a second, statistics are conserved and bounded, bisection finds what a scan
    finds, client subnets are truncated before use, configurations are safe, scripts are confined, and update results are kept.
  \<^item> The agent's files: a saved state survives a restart; the buffer of measurements refines a finite map, and a measurement stays in it with its contents until it is
    acknowledged, whatever system calls fail.
  \<^item> The agent's cache operations: purging removes files only below cache directories of the CDN; warming sends requests only to allowed
    hosts and dials only public addresses; redacted messages show no secret of a query string.
  \<^item> The agent's configuration: only verified configurations are applied; a success installs exactly what was given, a warning restores
    what was there; what is reported has been recorded before, and a failed configuration is not tried again; heartbeats without
    an \<open>Apply\<close> change no file; a cached checksum is never that of older files.

  \<^bold>\<open>Interfaces.\<close> The locale \<open>strict_weak_order\<close> (\<open>Go_Sort\<close>) states what stable sorting needs of a comparison and is interpreted for every comparison of the
  code that is one; \<open>preserving\<close> and its extension \<open>conserving\<close> (\<open>Rollup\<close>) lift laws of single steps to sequences and are interpreted for the
  aggregator and for the worker; \<open>nginx_contract\<close> (\<open>Agent_Sync\<close>) states what the synchronisation relies on in the manager of OpenResty and is interpreted for the
  manager of \<open>Agent_Apply\<close>; \<open>db_preorder\<close> (\<open>Release_Steps\<close>) lifts a reflexive and transitive relation between states of the database from statements to
  transactions and operations and is interpreted for each such relation that the proofs on releases use; \<open>window_limiter\<close> (\<open>Rate_Limiter\<close>) is the
  contract of both limiters, \<open>list_normalizer\<close> (\<open>Normalize\<close>) that of the normalisers of lists, \<open>cached_file\<close> (\<open>Agent_State\<close>) that of both stores with a cache.

  \<^bold>\<open>Termination, bounds.\<close> All functions are total. \<open>bump_while\<close> is the one loop of the code that may run forever; it is a partial function, \<open>allocate_run\<close> is
  \<open>allocatePoolQuotas\<close> around it, and \<open>quota_loop_ends\<close> shows that this has a result for all arguments. Other loops recurse on the data or on a measure; no fuel is used.

  \<^bold>\<open>Simplifications.\<close> A method that takes a lock is one atomic step, with the clock that it reads before, and so are the answer to one query and an operation on
  releases; the code takes no lock for the latter, so that histories with operations at the same time are not covered. Methods of
  the OpenResty manager that take the lock of the checksum several times are several steps. An open directory gives the names it had when it was opened. Networks
  that a pool does not carry compiled are compiled, without the cache of the process, which returns the same for texts without a newline. Letter case and white space are those of
  ASCII. Receivers are not nil. A 64-bit \<open>int\<close> that counts does not overflow.

  \<^bold>\<open>Not modelled.\<close> Sockets, tickers, logging and the closing of files: they change no state of the model. \<open>dnssec_crypto.go\<close> is
  cryptography (AES-GCM) and enters as the key decryption of \<open>dns_env\<close>. Of the agent, the loop of \<open>agent/runner.go\<close>, its configuration, updater,
  transports, probes and collectors of measurements are timers, processes and sockets around the modelled parts. The
  other services of the control plane are transactions on SQL databases through an object-relational mapper, renderers of texts and
  calls of remote services; the signed snapshot, the heartbeats and the active configuration they send are inputs of the modelled programs.
\<close>

end
